(* ===== verification/JsString.thy ===== *)
theory JsString
  imports Main
begin

text \<open>
  Strings of the language the program is written in. A string is a list of code units; the
  type \<open>string\<close> of HOL has code units 0 to 255, so the model covers the strings whose code
  units are below 256 (Latin-1, hence all of ASCII). On them \<open>trim\<close> and \<open>toLowerCase\<close> are
  the ones of the language: white space is TAB, LF, VT, FF, CR, SPACE and NBSP, and lower case
  maps \<open>A\<close>..\<open>Z\<close> and the letters 192..222 except 215. The theory also holds the splitting,
  joining and searching routines the components use, with the lemmas they share.
\<close>

named_theorems js_string \<open>facts about the string operations\<close>

subsection \<open>Characters\<close>

definition code :: "char \<Rightarrow> nat" where
  "code c = of_char c"

definition ws_char :: "char \<Rightarrow> bool" where
  "ws_char c \<longleftrightarrow> (9 \<le> code c \<and> code c \<le> 13) \<or> code c = 32 \<or> code c = 160"

definition upper_code :: "nat \<Rightarrow> bool" where
  "upper_code n \<longleftrightarrow> (65 \<le> n \<and> n \<le> 90) \<or> (192 \<le> n \<and> n \<le> 222 \<and> n \<noteq> 215)"

definition lower_char :: "char \<Rightarrow> char" where
  "lower_char c = (if upper_code (code c) then char_of (code c + 32) else c)"

definition is_digit :: "char \<Rightarrow> bool" where
  "is_digit c \<longleftrightarrow> 48 \<le> code c \<and> code c \<le> 57"

definition is_az :: "char \<Rightarrow> bool" where
  "is_az c \<longleftrightarrow> 97 \<le> code c \<and> code c \<le> 122"

definition is_AZ :: "char \<Rightarrow> bool" where
  "is_AZ c \<longleftrightarrow> 65 \<le> code c \<and> code c \<le> 90"

definition is_az09 :: "char \<Rightarrow> bool" where
  "is_az09 c \<longleftrightarrow> is_az c \<or> is_digit c"

definition is_alnum :: "char \<Rightarrow> bool" where
  "is_alnum c \<longleftrightarrow> is_az c \<or> is_AZ c \<or> is_digit c"

text \<open>Line feed, carriage return and the double quote.\<close>

definition NL :: char where "NL = char_of (10 :: nat)"

definition CR :: char where "CR = char_of (13 :: nat)"

definition QUOTE :: char where "QUOTE = char_of (34 :: nat)"

lemmas char_class_defs = ws_char_def is_digit_def is_az_def is_AZ_def is_az09_def is_alnum_def

lemma code_less [simp]: "code c < 256"
  by (simp add: code_def)

lemma code_inject [simp]: "code c = code d \<longleftrightarrow> c = d"
  by (simp add: code_def of_char_eq_iff)

lemma code_char_of [simp]: "n < 256 \<Longrightarrow> code (char_of n) = n"
  by (simp add: code_def)

lemma code_lower_char:
  "code (lower_char c) = (if upper_code (code c) then code c + 32 else code c)"
  by (auto simp: lower_char_def upper_code_def)

lemma lower_char_idem [simp, js_string]: "lower_char (lower_char c) = lower_char c"
proof -
  have "\<not> upper_code (code (lower_char c))"
    by (auto simp: code_lower_char upper_code_def)
  then show ?thesis
    by (subst lower_char_def) simp
qed

lemma ws_lower_char [simp, js_string]: "ws_char (lower_char c) = ws_char c"
  by (auto simp: ws_char_def code_lower_char upper_code_def)

lemma lower_char_fix: "is_az c \<or> is_digit c \<Longrightarrow> lower_char c = c"
  by (auto simp: lower_char_def upper_code_def char_class_defs)

lemma az09_not_ws: "is_az09 c \<Longrightarrow> \<not> ws_char c"
  by (auto simp: char_class_defs)

subsection \<open>Trimming and lower case\<close>

definition trim_start :: "string \<Rightarrow> string" where
  "trim_start s = dropWhile ws_char s"

definition trim_end :: "string \<Rightarrow> string" where
  "trim_end s = rev (dropWhile ws_char (rev s))"

definition trim :: "string \<Rightarrow> string" where
  "trim s = trim_end (trim_start s)"

definition to_lower :: "string \<Rightarrow> string" where
  "to_lower s = map lower_char s"

definition trimmed :: "string \<Rightarrow> bool" where
  "trimmed s \<longleftrightarrow> s = [] \<or> (\<not> ws_char (hd s) \<and> \<not> ws_char (last s))"

lemma trim_start_fix: "s = [] \<or> \<not> ws_char (hd s) \<Longrightarrow> trim_start s = s"
  by (cases s) (auto simp: trim_start_def)

lemma trim_end_fix: "s = [] \<or> \<not> ws_char (last s) \<Longrightarrow> trim_end s = s"
  by (cases s rule: rev_cases) (auto simp: trim_end_def)

lemma hd_trim_start: "trim_start s \<noteq> [] \<Longrightarrow> \<not> ws_char (hd (trim_start s))"
  unfolding trim_start_def by (rule hd_dropWhile)

lemma last_trim_end: "trim_end s \<noteq> [] \<Longrightarrow> \<not> ws_char (last (trim_end s))"
  using hd_dropWhile [of ws_char "rev s"] by (auto simp: trim_end_def last_rev)

lemma hd_trim_end: "trim_end s \<noteq> [] \<Longrightarrow> hd (trim_end s) = hd s"
proof -
  assume ne: "trim_end s \<noteq> []"
  have "s = trim_end s @ rev (takeWhile ws_char (rev s))"
    by (metis rev_append rev_rev_ident takeWhile_dropWhile_id trim_end_def)
  with ne show ?thesis
    by (metis hd_append2)
qed

lemma trimmed_trim [simp, js_string]: "trimmed (trim s)"
proof (cases "trim s = []")
  case False
  then have ne: "trim_end (trim_start s) \<noteq> []"
    by (simp add: trim_def)
  then have "trim_start s \<noteq> []"
    by (auto simp: trim_end_def)
  with ne show ?thesis
    by (simp add: trimmed_def trim_def hd_trim_end last_trim_end hd_trim_start)
qed (simp add: trimmed_def)

lemma trim_trimmed [simp, js_string]: "trimmed s \<Longrightarrow> trim s = s"
  by (auto simp: trim_def trimmed_def trim_start_fix trim_end_fix)

lemma trim_idem [simp, js_string]: "trim (trim s) = trim s"
  by simp

lemma trim_Nil [simp]: "trim [] = []"
  by (simp add: trimmed_def)

lemma set_trim: "set (trim s) \<subseteq> set s"
proof
  fix c
  assume "c \<in> set (trim s)"
  then show "c \<in> set s"
    by (auto simp: trim_def trim_end_def trim_start_def dest!: set_dropWhileD)
qed

lemma trim_eq_Nil_iff: "trim s = [] \<longleftrightarrow> (\<forall>c \<in> set s. ws_char c)"
proof
  assume "trim s = []"
  then have "dropWhile ws_char (rev (trim_start s)) = []"
    by (simp add: trim_def trim_end_def)
  then have "\<forall>c \<in> set (trim_start s). ws_char c"
    by (simp add: dropWhile_eq_Nil_conv)
  then have "trim_start s = []"
    by (metis hd_in_set hd_trim_start)
  then show "\<forall>c \<in> set s. ws_char c"
    by (simp add: trim_start_def dropWhile_eq_Nil_conv)
next
  assume "\<forall>c \<in> set s. ws_char c"
  then have "trim_start s = []"
    by (auto simp: trim_start_def dropWhile_eq_Nil_conv)
  then show "trim s = []"
    by (simp add: trim_def trim_end_def)
qed

lemma to_lower_idem [simp, js_string]: "to_lower (to_lower s) = to_lower s"
  by (simp add: to_lower_def)

lemma to_lower_Nil_iff [simp, js_string]: "to_lower s = [] \<longleftrightarrow> s = []"
  by (simp add: to_lower_def)

lemma trimmed_to_lower [simp, js_string]: "trimmed (to_lower s) = trimmed s"
  by (cases s rule: rev_cases) (auto simp: trimmed_def to_lower_def hd_map last_map hd_append)

text \<open>A token: a text that is not empty and that trimming leaves alone.\<close>

definition token :: "string \<Rightarrow> bool" where
  "token s \<longleftrightarrow> trim s = s \<and> s \<noteq> []"

lemma token_trim: "trim s \<noteq> [] \<Longrightarrow> token (trim s)"
  by (simp add: token_def)

lemma no_ws_trimmed: "\<forall>c \<in> set s. \<not> ws_char c \<Longrightarrow> trimmed s"
  by (cases s rule: rev_cases) (auto simp: trimmed_def hd_append)

subsection \<open>Prefixes, suffixes and substrings\<close>

definition starts_with :: "string \<Rightarrow> string \<Rightarrow> bool" where
  "starts_with s p \<longleftrightarrow> take (length p) s = p"

definition ends_with :: "string \<Rightarrow> string \<Rightarrow> bool" where
  "ends_with s p \<longleftrightarrow> starts_with (rev s) (rev p)"

fun str_includes :: "string \<Rightarrow> string \<Rightarrow> bool" where
  "str_includes [] q \<longleftrightarrow> q = []"
| "str_includes (c # s) q \<longleftrightarrow> starts_with (c # s) q \<or> str_includes s q"

lemma starts_with_iff: "starts_with s p \<longleftrightarrow> (\<exists>r. s = p @ r)"
  unfolding starts_with_def by (metis append_eq_conv_conj)

lemma ends_with_iff: "ends_with s p \<longleftrightarrow> (\<exists>r. s = r @ p)"
  unfolding ends_with_def starts_with_iff
  by (metis rev_append rev_rev_ident)

lemma str_includes_iff: "str_includes s q \<longleftrightarrow> (\<exists>a b. s = a @ q @ b)"
proof (induction s)
  case (Cons c s)
  have "(\<exists>a b. c # s = a @ q @ b) \<longleftrightarrow> (\<exists>b. c # s = q @ b) \<or> (\<exists>a b. s = a @ q @ b)"
    by (metis append_Cons append_Nil list.exhaust_sel list.sel(3) tl_append2)
  with Cons show ?case
    by (simp add: starts_with_iff)
qed auto

lemma str_includes_char: "str_includes s [c] \<longleftrightarrow> c \<in> set s"
  unfolding str_includes_iff by (metis append_Cons append_Nil in_set_conv_decomp)

subsection \<open>Splitting on a character and joining\<close>

fun split_on :: "char \<Rightarrow> string \<Rightarrow> string list" where
  "split_on c [] = [[]]"
| "split_on c (x # s) =
     (if x = c then [] # split_on c s
      else (case split_on c s of [] \<Rightarrow> [[x]] | p # ps \<Rightarrow> (x # p) # ps))"

fun join :: "string \<Rightarrow> string list \<Rightarrow> string" where
  "join sep [] = []"
| "join sep [s] = s"
| "join sep (s # t # ss) = s @ sep @ join sep (t # ss)"

definition nonempties :: "string list \<Rightarrow> string list" where
  "nonempties ss = filter (\<lambda>s. s \<noteq> []) ss"

lemma split_on_ne [simp]: "split_on c s \<noteq> []"
  by (induction s) (auto split: list.splits)

lemma join_Cons: "ss \<noteq> [] \<Longrightarrow> join sep (s # ss) = s @ sep @ join sep ss"
  by (cases ss) auto

lemma join_split_on [js_string]: "join [c] (split_on c s) = s"
proof (induction s)
  case (Cons x s)
  obtain p ps where ps: "split_on c s = p # ps"
    by (meson list.exhaust split_on_ne)
  show ?case
    using Cons ps by (cases ps) (auto simp: join_Cons)
qed simp

lemma split_on_free: "p \<in> set (split_on c s) \<Longrightarrow> c \<notin> set p"
  by (induction s arbitrary: p) (auto split: list.splits if_splits)

lemma set_split_on: "p \<in> set (split_on c s) \<Longrightarrow> set p \<subseteq> set s"
proof (induction s arbitrary: p)
  case (Cons x s)
  then show ?case
    by (cases "split_on c s") (fastforce split: if_splits)+
qed simp

lemma split_on_absent: "c \<notin> set s \<Longrightarrow> split_on c s = [s]"
  by (induction s) auto

lemma split_on_append: "c \<notin> set s \<Longrightarrow> split_on c (s @ c # t) = s # split_on c t"
  by (induction s) auto

lemma split_on_join [js_string]:
  "ss \<noteq> [] \<Longrightarrow> \<forall>s \<in> set ss. c \<notin> set s \<Longrightarrow> split_on c (join [c] ss) = ss"
  by (induction "[c]" ss rule: join.induct) (auto simp: split_on_absent split_on_append)

lemma set_nonempties [simp]: "set (nonempties ss) = set ss - {[]}"
  by (auto simp: nonempties_def)

lemma nonempties_id: "[] \<notin> set ss \<Longrightarrow> nonempties ss = ss"
  by (auto simp: nonempties_def filter_id_conv)

end
