(* ===== verification/JsCollections.thy ===== *)
theory JsCollections
  imports JsString "HOL-Library.AList" "HOL-Library.Multiset"
begin

text \<open>
  Collections of the language: insertion-ordered sets and records as lists, the order in which
  a record's own keys are enumerated, and the stable array sort with a comparison function.
  Four interfaces the components rely on are stated as locales and proved once here: a
  normaliser (an idempotent clean-up of a token), a keyed store (lookup after update and
  delete), a comparison function (what sorting needs), and a machine (an invariant that every
  step keeps).
\<close>

named_theorems js_coll \<open>facts about sets, records and sorting\<close>

subsection \<open>Sets: duplicate-free lists in insertion order\<close>

definition set_add :: "'a \<Rightarrow> 'a list \<Rightarrow> 'a list" where
  "set_add x s = (if x \<in> set s then s else s @ [x])"

definition set_del :: "'a \<Rightarrow> 'a list \<Rightarrow> 'a list" where
  "set_del x s = filter (\<lambda>y. y \<noteq> x) s"

definition set_toggle :: "'a \<Rightarrow> 'a list \<Rightarrow> 'a list" where
  "set_toggle x s = (if x \<in> set s then set_del x s else set_add x s)"

definition set_add_all :: "'a list \<Rightarrow> 'a list \<Rightarrow> 'a list" where
  "set_add_all xs s = foldl (\<lambda>s x. set_add x s) s xs"

definition to_set :: "'a list \<Rightarrow> 'a list" where
  "to_set xs = set_add_all xs []"

lemma set_set_add [simp, js_coll]: "set (set_add x s) = insert x (set s)"
  by (auto simp: set_add_def)

lemma set_set_del [simp, js_coll]: "set (set_del x s) = set s - {x}"
  by (auto simp: set_del_def)

lemma set_set_toggle [js_coll]:
  "set (set_toggle x s) = (if x \<in> set s then set s - {x} else insert x (set s))"
  by (simp add: set_toggle_def)

lemma distinct_set_add [simp, js_coll]: "distinct (set_add x s) = distinct s"
  by (auto simp: set_add_def)

lemma distinct_set_del [simp, js_coll]: "distinct s \<Longrightarrow> distinct (set_del x s)"
  by (simp add: set_del_def)

lemma distinct_set_toggle [simp, js_coll]: "distinct s \<Longrightarrow> distinct (set_toggle x s)"
  by (simp add: set_toggle_def)

lemma set_set_add_all [simp, js_coll]: "set (set_add_all xs s) = set s \<union> set xs"
  unfolding set_add_all_def by (induction xs arbitrary: s) auto

lemma distinct_set_add_all [simp, js_coll]: "distinct (set_add_all xs s) = distinct s"
  unfolding set_add_all_def by (induction xs arbitrary: s) auto

lemma set_to_set [simp, js_coll]: "set (to_set xs) = set xs"
  by (simp add: to_set_def)

lemma distinct_to_set [simp, js_coll]: "distinct (to_set xs)"
  by (simp add: to_set_def)

lemma set_add_all_distinct:
  "distinct (s @ xs) \<Longrightarrow> set_add_all xs s = s @ xs"
  unfolding set_add_all_def
  by (induction xs arbitrary: s) (auto simp: set_add_def)

lemma to_set_distinct [simp, js_coll]: "distinct xs \<Longrightarrow> to_set xs = xs"
  by (simp add: to_set_def set_add_all_distinct)

lemma to_set_idem [simp, js_coll]: "to_set (to_set xs) = to_set xs"
  by simp

lemma to_set_Nil [simp]: "to_set [] = []"
  by (simp add: to_set_def set_add_all_def)

lemma length_to_set: "length (to_set xs) = card (set xs)"
  by (metis distinct_card distinct_to_set set_to_set)

lemma to_set_Nil_iff [simp]: "to_set xs = [] \<longleftrightarrow> xs = []"
  by (metis set_empty set_to_set)

subsection \<open>Searching an array\<close>

text \<open>A list without its element number \<open>i\<close>.\<close>

definition drop_nth :: "nat \<Rightarrow> 'a list \<Rightarrow> 'a list" where
  "drop_nth i xs = take i xs @ drop (Suc i) xs"

lemma set_drop_nth: "set (drop_nth i xs) \<subseteq> set xs"
  unfolding drop_nth_def by (auto dest: in_set_takeD in_set_dropD)

lemma drop_nth_0 [simp]: "drop_nth 0 (x # xs) = xs"
  by (simp add: drop_nth_def)

lemma length_filter_drop_nth:
  "i < length xs \<Longrightarrow> length (filter P xs) = length (filter P (drop_nth i xs)) + (if P (xs ! i) then 1 else 0)"
  by (subst id_take_nth_drop, assumption) (simp add: drop_nth_def)

lemma set_map_filter: "set (List.map_filter f xs) = {y. \<exists>x \<in> set xs. f x = Some y}"
  by (force simp: List.map_filter_def)

lemma find_filter: "List.find P xs = (case filter P xs of [] \<Rightarrow> None | x # _ \<Rightarrow> Some x)"
  by (induction xs) auto

text \<open>\<open>findIndex\<close>, with no index instead of -1.\<close>

fun find_index :: "('a \<Rightarrow> bool) \<Rightarrow> 'a list \<Rightarrow> nat option" where
  "find_index P [] = None"
| "find_index P (x # xs) = (if P x then Some 0 else map_option Suc (find_index P xs))"

lemma find_index_Some:
  "find_index P xs = Some i \<Longrightarrow> i < length xs \<and> P (xs ! i) \<and> (\<forall>j < i. \<not> P (xs ! j))"
proof (induction xs arbitrary: i)
  case (Cons x xs)
  then show ?case
    by (cases i) (auto split: if_splits simp: less_Suc_eq_0_disj)
qed simp

lemma find_index_None: "find_index P xs = None \<longleftrightarrow> (\<forall>x \<in> set xs. \<not> P x)"
  by (induction xs) auto

subsection \<open>Records: association lists in insertion order\<close>

text \<open>
  \<open>AList.update\<close> overwrites a key in place and appends a new one, \<open>AList.delete\<close> removes a
  key and \<open>map_of\<close> looks one up: assignment, \<open>delete\<close> and property access of a record.
  Enumeration lists the keys that are canonical array indices first, in ascending order, and
  then the other keys in insertion order.
\<close>

definition digits_val :: "string \<Rightarrow> nat" where
  "digits_val s = foldl (\<lambda>n c. 10 * n + (code c - 48)) 0 s"

definition index_key :: "string \<Rightarrow> bool" where
  "index_key s \<longleftrightarrow>
     s \<noteq> [] \<and> list_all is_digit s \<and> (length s = 1 \<or> hd s \<noteq> CHR ''0'') \<and> digits_val s < 4294967295"

definition own_entries :: "(string \<times> 'v) list \<Rightarrow> (string \<times> 'v) list" where
  "own_entries m =
     sort_key (\<lambda>(k, _). digits_val k) (filter (\<lambda>(k, _). index_key k) m)
     @ filter (\<lambda>(k, _). \<not> index_key k) m"

definition own_keys :: "(string \<times> 'v) list \<Rightarrow> string list" where
  "own_keys m = map fst (own_entries m)"

lemma mset_own_entries: "mset (own_entries m) = mset m"
  by (induction m) (auto simp: own_entries_def)

lemma set_own_entries [simp, js_coll]: "set (own_entries m) = set m"
  using mset_own_entries [of m] by (metis set_mset_mset)

lemma set_own_keys [simp, js_coll]: "set (own_keys m) = fst ` set m"
  by (simp add: own_keys_def)

lemma distinct_own_keys [js_coll]: "distinct (own_keys m) = distinct (map fst m)"
proof -
  have "mset (own_keys m) = mset (map fst m)"
    by (simp add: own_keys_def mset_own_entries)
  then show ?thesis
    by (metis mset_eq_imp_distinct_iff)
qed

lemma own_entries_no_index:
  "\<forall>k \<in> fst ` set m. \<not> index_key k \<Longrightarrow> own_entries m = m"
proof -
  assume none: "\<forall>k \<in> fst ` set m. \<not> index_key k"
  then have "filter (\<lambda>(k, _). index_key k) m = []"
    by (auto simp: filter_empty_conv)
  moreover from none have "filter (\<lambda>(k, _). \<not> index_key k) m = m"
    by (auto simp: filter_id_conv)
  ultimately show ?thesis
    by (simp add: own_entries_def)
qed

lemma map_of_update [simp, js_coll]:
  "map_of (AList.update k v m) k' = (if k' = k then Some v else map_of m k')"
  by (simp add: update_conv')

lemma map_of_delete [simp, js_coll]:
  "map_of (AList.delete k m) k' = (if k' = k then None else map_of m k')"
  by (simp add: delete_conv')

lemma distinct_keys_update [simp]:
  "distinct (map fst m) \<Longrightarrow> distinct (map fst (AList.update k v m))"
  by (rule distinct_update)

lemma distinct_keys_delete [simp]:
  "distinct (map fst m) \<Longrightarrow> distinct (map fst (AList.delete k m))"
  by (rule distinct_delete)

lemma distinct_keys_fold [simp]:
  "distinct (map fst m) \<Longrightarrow> distinct (map fst (foldl (\<lambda>m x. AList.update (f x) (g m x) m) m xs))"
  by (induction xs arbitrary: m) auto

lemma distinct_keys_fold_pair [simp]:
  "distinct (map fst m) \<Longrightarrow>
   distinct (map fst (foldl (\<lambda>m (k, v). AList.update k (g m k v) m) m xs))"
  by (induction xs arbitrary: m) auto

lemma distinct_keys_own_entries [simp]:
  "distinct (map fst (own_entries m)) = distinct (map fst m)"
  using distinct_own_keys [of m] by (simp add: own_keys_def)

lemma insort_key_map: "insort_key f (g x) (map g xs) = map g (insort_key (f \<circ> g) x xs)"
  by (induction xs) auto

lemma sort_key_map: "sort_key f (map g xs) = map g (sort_key (f \<circ> g) xs)"
  by (induction xs) (simp_all add: sort_key_def insort_key_map [unfolded comp_def, symmetric] comp_def)

text \<open>The enumeration order depends on the keys only.\<close>

lemma own_entries_map:
  "own_entries (map (\<lambda>(k, v). (k, f k v)) m) = map (\<lambda>(k, v). (k, f k v)) (own_entries m)"
  by (simp add: own_entries_def filter_map sort_key_map comp_def case_prod_unfold)

text \<open>Writing fresh keys appends them.\<close>

lemma foldl_update_fresh:
  "distinct (map fst m @ map f xs)
   \<Longrightarrow> foldl (\<lambda>m x. AList.update (f x) (g x) m) m xs = m @ map (\<lambda>x. (f x, g x)) xs"
proof (induction xs arbitrary: m)
  case (Cons x xs)
  have fresh: "AList.update k v m = m @ [(k, v)]" if "k \<notin> fst ` set m" for k v
    using that by (induction m) auto
  from Cons show ?case
    by (auto simp: fresh)
qed simp

lemma length_own_entries [simp]: "length (own_entries m) = length m"
  using mset_own_entries [of m] by (metis size_mset)

lemma own_entries_Nil [simp]: "own_entries m = [] \<longleftrightarrow> m = []"
  by (metis length_0_conv length_own_entries)

text \<open>Storing entries one by one under distinct keys gives the map of the entries.\<close>

lemma map_of_foldl_entries:
  assumes "distinct (map fst m)"
    and "\<And>out x. x \<in> set m \<Longrightarrow> step out x = AList.update (fst x) (g (snd x)) out"
  shows "map_of (foldl step acc m) k =
    (case map_of m k of None \<Rightarrow> map_of acc k | Some v \<Rightarrow> Some (g v))"
  using assms
proof (induction m arbitrary: acc)
  case (Cons x m)
  have "step acc x = AList.update (fst x) (g (snd x)) acc"
    using Cons.prems(2) by simp
  moreover have "map_of m (fst x) = None"
    using Cons.prems(1) by (simp add: map_of_eq_None_iff)
  ultimately show ?case
    using Cons.IH [of "step acc x"] Cons.prems by (auto split: option.splits)
qed simp

lemma map_of_own_entries: "distinct (map fst m) \<Longrightarrow> map_of (own_entries m) = map_of m"
  by (simp add: map_of_inject_set)

subsection \<open>Array sort with a comparison function\<close>

fun insort_cmp :: "('a \<Rightarrow> 'a \<Rightarrow> int) \<Rightarrow> 'a \<Rightarrow> 'a list \<Rightarrow> 'a list" where
  "insort_cmp cmp x [] = [x]"
| "insort_cmp cmp x (y # ys) = (if cmp x y \<le> 0 then x # y # ys else y # insort_cmp cmp x ys)"

fun js_sort :: "('a \<Rightarrow> 'a \<Rightarrow> int) \<Rightarrow> 'a list \<Rightarrow> 'a list" where
  "js_sort cmp [] = []"
| "js_sort cmp (x # xs) = insort_cmp cmp x (js_sort cmp xs)"

lemma mset_insort_cmp [simp]: "mset (insort_cmp cmp x xs) = add_mset x (mset xs)"
  by (induction xs) auto

lemma mset_js_sort [simp, js_coll]: "mset (js_sort cmp xs) = mset xs"
  by (induction xs) auto

lemma set_js_sort [simp, js_coll]: "set (js_sort cmp xs) = set xs"
  by (metis mset_js_sort set_mset_mset)

lemma length_js_sort [simp, js_coll]: "length (js_sort cmp xs) = length xs"
  by (metis mset_js_sort size_mset)

lemma distinct_js_sort [simp, js_coll]: "distinct (js_sort cmp xs) = distinct xs"
  by (metis mset_js_sort mset_eq_imp_distinct_iff)

lemma distinct_map_js_sort [js_coll]: "distinct (map f (js_sort cmp xs)) = distinct (map f xs)"
  by (metis mset_js_sort mset_map mset_eq_imp_distinct_iff)

lemma js_sort_sorted_id:
  "sorted_wrt (\<lambda>x y. cmp x y \<le> 0) xs \<Longrightarrow> js_sort cmp xs = xs"
proof (induction xs)
  case (Cons x xs)
  then show ?case
    by (cases xs) auto
qed simp

text \<open>
  Comparison by code units, the order \<open>sort()\<close> uses when it is given no comparison function.
\<close>

fun cu_cmp :: "string \<Rightarrow> string \<Rightarrow> int" where
  "cu_cmp [] [] = 0"
| "cu_cmp [] (_ # _) = -1"
| "cu_cmp (_ # _) [] = 1"
| "cu_cmp (a # s) (b # t) =
     (if code a < code b then -1 else if code b < code a then 1 else cu_cmp s t)"

subsection \<open>Interface: comparison functions\<close>

locale comparison =
  fixes cmp :: "'a \<Rightarrow> 'a \<Rightarrow> int"
  assumes cmp_flip: "sgn (cmp y x) = - sgn (cmp x y)"
    and cmp_trans: "cmp x y \<le> 0 \<Longrightarrow> cmp y z \<le> 0 \<Longrightarrow> cmp x z \<le> 0"
begin

lemma cmp_refl: "cmp x x = 0"
  using cmp_flip [of x x] by (simp add: sgn_if split: if_splits)

lemma cmp_total: "cmp x y \<le> 0 \<or> cmp y x \<le> 0"
  using cmp_flip [of y x] by (auto simp: sgn_if split: if_splits)

lemma sorted_insort:
  "sorted_wrt (\<lambda>x y. cmp x y \<le> 0) xs \<Longrightarrow> sorted_wrt (\<lambda>x y. cmp x y \<le> 0) (insort_cmp cmp x xs)"
proof (induction xs)
  case (Cons y ys)
  have set: "set (insort_cmp cmp x ys) = insert x (set ys)"
    by (metis mset_insort_cmp set_mset_add_mset_insert set_mset_mset)
  show ?case
    using Cons cmp_total [of x y] cmp_trans set by auto
qed simp

lemma sorted_js_sort: "sorted_wrt (\<lambda>x y. cmp x y \<le> 0) (js_sort cmp xs)"
  by (induction xs) (auto simp: sorted_insort)

lemma js_sort_idem: "js_sort cmp (js_sort cmp xs) = js_sort cmp xs"
  by (rule js_sort_sorted_id [OF sorted_js_sort])

text \<open>Stability: elements the comparison does not distinguish keep their order.\<close>

lemma filter_insort_eq:
  "sorted_wrt (\<lambda>x y. cmp x y \<le> 0) xs \<Longrightarrow> cmp x z = 0 \<Longrightarrow>
   filter (\<lambda>y. cmp y z = 0) (insort_cmp cmp x xs) = x # filter (\<lambda>y. cmp y z = 0) xs"
proof (induction xs)
  case (Cons y ys)
  have "cmp y z \<noteq> 0" if "\<not> cmp x y \<le> 0"
    using that Cons.prems(2) cmp_trans [of x z y] cmp_flip [of y z]
    by (auto simp: sgn_if split: if_splits)
  with Cons show ?case
    by auto
qed simp

lemma filter_insort_neq:
  "cmp x z \<noteq> 0 \<Longrightarrow> filter (\<lambda>y. cmp y z = 0) (insort_cmp cmp x xs) = filter (\<lambda>y. cmp y z = 0) xs"
  by (induction xs) auto

lemma js_sort_stable:
  "filter (\<lambda>y. cmp y z = 0) (js_sort cmp xs) = filter (\<lambda>y. cmp y z = 0) xs"
proof (induction xs)
  case (Cons x xs)
  then show ?case
    by (cases "cmp x z = 0")
      (auto simp: filter_insort_eq [OF sorted_js_sort] filter_insort_neq)
qed simp

end

text \<open>A comparison that separates different elements leaves one sorted arrangement.\<close>

locale strict_comparison = comparison cmp
  for cmp :: "'a \<Rightarrow> 'a \<Rightarrow> int" +
  assumes cmp_zero: "cmp x y = 0 \<Longrightarrow> x = y"
begin

lemma sorted_unique:
  "mset xs = mset ys \<Longrightarrow> sorted_wrt (\<lambda>x y. cmp x y \<le> 0) xs \<Longrightarrow>
   sorted_wrt (\<lambda>x y. cmp x y \<le> 0) ys \<Longrightarrow> xs = ys"
proof (induction xs arbitrary: ys)
  case (Cons x xs)
  then obtain y ys' where ys: "ys = y # ys'"
    by (cases ys) auto
  have "cmp x y \<le> 0"
    using Cons.prems ys cmp_refl by (metis list.set_intros(1) order_refl set_ConsD set_mset_mset sorted_wrt.simps(2))
  moreover have "cmp y x \<le> 0"
    using Cons.prems ys cmp_refl by (metis list.set_intros(1) order_refl set_ConsD set_mset_mset sorted_wrt.simps(2))
  ultimately have "x = y"
    using cmp_flip [of y x] by (intro cmp_zero) (auto simp: sgn_if split: if_splits)
  with Cons ys show ?case
    by auto
qed simp

lemma js_sort_mset: "mset xs = mset ys \<Longrightarrow> js_sort cmp xs = js_sort cmp ys"
  by (rule sorted_unique) (simp_all add: sorted_js_sort)

end

lemma cu_cmp_flip: "cu_cmp t s = - cu_cmp s t"
  by (induction s t rule: cu_cmp.induct) auto

lemma cu_cmp_trans: "cu_cmp s t \<le> 0 \<Longrightarrow> cu_cmp t u \<le> 0 \<Longrightarrow> cu_cmp s u \<le> 0"
proof (induction s t arbitrary: u rule: cu_cmp.induct)
  case (4 a s b t)
  note prems = 4
  show ?case
  proof (cases u)
    case (Cons c v)
    consider "code a < code c" | "a = c" "a = b"
      using prems(2,3) Cons by (fastforce split: if_splits)
    then show ?thesis
      using prems Cons by cases simp_all
  qed (use prems in simp)
next
  case (1)
  then show ?case by (cases u) auto
next
  case (2 b t)
  then show ?case by (cases u) auto
qed auto

lemma cu_cmp_zero: "cu_cmp s t = 0 \<Longrightarrow> s = t"
  by (induction s t rule: cu_cmp.induct) (auto split: if_splits)

interpretation cu: strict_comparison cu_cmp
proof unfold_locales
  show "sgn (cu_cmp y x) = - sgn (cu_cmp x y)" for x y
    by (subst cu_cmp_flip) (simp add: sgn_minus)
qed (auto intro: cu_cmp_trans cu_cmp_zero)

subsection \<open>Interface: normalisers\<close>

text \<open>
  A normaliser cleans a token (trimming, lower case, removing characters). The components
  compare, deduplicate and store normalised tokens only; the empty result means no token.
\<close>

locale normaliser =
  fixes norm :: "string \<Rightarrow> string"
  assumes norm_idem: "norm (norm s) = norm s"
begin

lemma norm_fix_iff: "norm s = s \<longleftrightarrow> (\<exists>t. s = norm t)"
  using norm_idem by metis

lemma map_norm_idem: "map norm (map norm ss) = map norm ss"
  by (simp add: norm_idem)

lemma tokens_idem:
  "to_set (nonempties (map norm (to_set (nonempties (map norm ss))))) =
   to_set (nonempties (map norm ss))"
proof -
  let ?ts = "to_set (nonempties (map norm ss))"
  have "map norm ?ts = ?ts"
    by (rule map_idI) (auto simp: norm_idem)
  moreover have "nonempties ?ts = ?ts"
    by (rule nonempties_id) simp
  ultimately show ?thesis
    by simp
qed

end

interpretation trim: normaliser trim
  by unfold_locales simp

interpretation to_lower: normaliser to_lower
  by unfold_locales simp

subsection \<open>Interface: keyed stores\<close>

locale keyed_store =
  fixes lookup :: "'s \<Rightarrow> 'k \<Rightarrow> 'v option"
    and put :: "'k \<Rightarrow> 'v \<Rightarrow> 's \<Rightarrow> 's"
    and del :: "'k \<Rightarrow> 's \<Rightarrow> 's"
  assumes lookup_put: "lookup (put k v s) k' = (if k' = k then Some v else lookup s k')"
    and lookup_del: "lookup (del k s) k' = (if k' = k then None else lookup s k')"
begin

lemma put_all_other:
  "k \<notin> set (map f xs) \<Longrightarrow> lookup (foldl (\<lambda>s x. put (f x) (g x) s) s xs) k = lookup s k"
  by (induction xs arbitrary: s) (auto simp: lookup_put)

text \<open>Storing a list of items one by one keeps, for each key, the last item of that key.\<close>

lemma put_all_last:
  "lookup (foldl (\<lambda>s x. put (f x) (g x) s) s xs) k =
   (case find (\<lambda>x. f x = k) (rev xs) of None \<Rightarrow> lookup s k | Some x \<Rightarrow> Some (g x))"
proof (induction xs rule: rev_induct)
  case (snoc x xs)
  then show ?case
    by (auto simp: lookup_put)
qed simp

lemma put_all_distinct:
  "distinct (map f xs) \<Longrightarrow> x \<in> set xs \<Longrightarrow>
   lookup (foldl (\<lambda>s x. put (f x) (g x) s) s xs) (f x) = Some (g x)"
proof (induction xs arbitrary: s)
  case (Cons y ys)
  then show ?case
    by (cases "x = y") (auto simp: lookup_put put_all_other)
qed simp

end

interpretation object: keyed_store map_of AList.update AList.delete
  by unfold_locales auto

subsection \<open>Interface: machines with an invariant\<close>

locale guarded_machine =
  fixes step :: "'e \<Rightarrow> 's \<Rightarrow> 's"
    and valid :: "'e \<Rightarrow> bool"
    and ok :: "'s \<Rightarrow> bool"
  assumes step_ok: "valid e \<Longrightarrow> ok s \<Longrightarrow> ok (step e s)"
begin

lemma run_ok: "list_all valid es \<Longrightarrow> ok s \<Longrightarrow> ok (fold step es s)"
  by (induction es arbitrary: s) (auto simp: step_ok)

end

text \<open>A machine whose every step keeps the invariant is a guarded one without guard.\<close>

locale machine =
  fixes step :: "'e \<Rightarrow> 's \<Rightarrow> 's"
    and ok :: "'s \<Rightarrow> bool"
  assumes every_step_ok: "ok s \<Longrightarrow> ok (step e s)"

sublocale machine \<subseteq> guarded_machine step "\<lambda>_. True" ok
  by unfold_locales (rule every_step_ok)

context machine
begin

lemma every_run_ok: "ok s \<Longrightarrow> ok (fold step es s)"
  by (rule run_ok) (simp_all add: list_all_iff)

end

end
