(* ===== verification/JsValue.thy ===== *)
theory JsValue
  imports JsCollections
begin

text \<open>
  Numbers and dynamic values of the language, as parsed YAML and JSON documents and untyped
  parameters hold them. A finite number is an exact decimal \<open>Dec m k\<close>, the value \<open>m / 10 ^ k\<close>;
  rounding to 53 bits, the exponent notation of very large or small numbers and the sign of
  zero are not modelled. Reading a numeral (\<open>Number\<close> of a string) follows the grammar of the
  language: surrounding white space, sign, fraction, exponent, the \<open>0x\<close>, \<open>0o\<close> and \<open>0b\<close>
  prefixes, \<open>Infinity\<close>, and NaN for anything else. A value is undefined, null, a boolean, a
  number, a string, an array or a record.
\<close>

subsection \<open>Decimal numerals\<close>

definition digit_char :: "nat \<Rightarrow> char" where
  "digit_char n = char_of (48 + n)"

fun dec_digits :: "nat \<Rightarrow> string" where
  "dec_digits n = (if n < 10 then [digit_char n] else dec_digits (n div 10) @ [digit_char (n mod 10)])"

declare dec_digits.simps [simp del]

definition int_str :: "int \<Rightarrow> string" where
  "int_str i = (if i < 0 then CHR ''-'' # dec_digits (nat (- i)) else dec_digits (nat i))"

lemma code_digit_char [simp]: "n < 10 \<Longrightarrow> code (digit_char n) = 48 + n"
  by (simp add: digit_char_def)

lemma digits_val_append: "digits_val (s @ t) = digits_val s * 10 ^ length t + digits_val t"
proof (induction t rule: rev_induct)
  case (snoc c t)
  then show ?case
    by (simp add: digits_val_def algebra_simps)
qed (simp add: digits_val_def)

lemma dec_digits_ne [simp]: "dec_digits n \<noteq> []"
  by (subst dec_digits.simps) simp

lemma dec_digits_digits [simp]: "list_all is_digit (dec_digits n)"
proof (induction n rule: dec_digits.induct)
  case (1 n)
  have "is_digit (digit_char d)" if "d < 10" for d
    using that by (simp add: is_digit_def)
  with 1 show ?case
    by (subst dec_digits.simps) auto
qed

lemma digits_val_dec_digits [simp]: "digits_val (dec_digits n) = n"
proof (induction n rule: dec_digits.induct)
  case (1 n)
  show ?case
  proof (cases "n < 10")
    case True
    then show ?thesis
      by (subst dec_digits.simps) (simp add: digits_val_def)
  next
    case False
    with 1 have "digits_val (dec_digits (n div 10) @ [digit_char (n mod 10)]) = n"
      by (simp add: digits_val_append) (simp add: digits_val_def)
    with False show ?thesis
      by (subst dec_digits.simps) simp
  qed
qed

lemma dec_digits_inject [simp]: "dec_digits m = dec_digits n \<longleftrightarrow> m = n"
  by (metis digits_val_dec_digits)

lemma set_dec_digits: "c \<in> set (dec_digits n) \<Longrightarrow> is_digit c"
  using dec_digits_digits [of n] by (simp add: list_all_iff)

lemma is_digit_not_ws: "is_digit c \<Longrightarrow> \<not> ws_char c"
  by (auto simp: char_class_defs)

lemma trim_dec_digits [simp]: "trim (dec_digits n) = dec_digits n"
  by (rule trim_trimmed, rule no_ws_trimmed) (auto dest: set_dec_digits is_digit_not_ws)

subsection \<open>Numbers\<close>

datatype num = Dec int nat | PInf | NInf | NaN

fun norm_dec :: "int \<Rightarrow> nat \<Rightarrow> num" where
  "norm_dec m 0 = Dec m 0"
| "norm_dec m (Suc k) = (if m mod 10 = 0 then norm_dec (m div 10) k else Dec m (Suc k))"

fun num_finite :: "num \<Rightarrow> bool" where
  "num_finite (Dec _ _) = True"
| "num_finite _ = False"

fun num_is_int :: "num \<Rightarrow> bool" where
  "num_is_int (Dec m k) = (m mod 10 ^ k = 0)"
| "num_is_int _ = False"

fun num_floor :: "num \<Rightarrow> num" where
  "num_floor (Dec m k) = Dec (m div 10 ^ k) 0"
| "num_floor n = n"

fun num_str :: "num \<Rightarrow> string" where
  "num_str (Dec m k) =
     (if k = 0 then int_str m
      else (let a = nat \<bar>m\<bar>; f = dec_digits (a mod 10 ^ k)
            in (if m < 0 then ''-'' else []) @ dec_digits (a div 10 ^ k) @ ''.''
               @ replicate (k - length f) (CHR ''0'') @ f))"
| "num_str PInf = ''Infinity''"
| "num_str NInf = ''-Infinity''"
| "num_str NaN = ''NaN''"

text \<open>Comparison of a number with an integer: every comparison with NaN is false.\<close>

fun num_lt_int :: "num \<Rightarrow> int \<Rightarrow> bool" where
  "num_lt_int (Dec m k) i = (m < i * 10 ^ k)"
| "num_lt_int NInf i = True"
| "num_lt_int _ i = False"

fun num_gt_int :: "num \<Rightarrow> int \<Rightarrow> bool" where
  "num_gt_int (Dec m k) i = (m > i * 10 ^ k)"
| "num_gt_int PInf i = True"
| "num_gt_int _ i = False"

definition scaled :: "bool \<Rightarrow> nat \<Rightarrow> int \<Rightarrow> num" where
  "scaled neg m e =
     (let i = (if neg then - int m else int m)
      in if 0 \<le> e then Dec (i * 10 ^ nat e) 0 else norm_dec i (nat (- e)))"

definition split_sign :: "string \<Rightarrow> bool \<times> string" where
  "split_sign s =
     (case s of [] \<Rightarrow> (False, [])
      | c # r \<Rightarrow> if c = CHR ''-'' then (True, r) else if c = CHR ''+'' then (False, r) else (False, s))"

definition exponent :: "string \<Rightarrow> int option" where
  "exponent s =
     (case s of [] \<Rightarrow> Some 0
      | c # r \<Rightarrow>
          if c = CHR ''e'' \<or> c = CHR ''E'' then
            (let (neg, ds) = split_sign r
             in if ds \<noteq> [] \<and> list_all is_digit ds
                then Some (if neg then - int (digits_val ds) else int (digits_val ds)) else None)
          else None)"

definition dec_literal :: "string \<Rightarrow> num" where
  "dec_literal s =
     (let (neg, u) = split_sign s in
      if u = ''Infinity'' then (if neg then NInf else PInf)
      else
        let ip = takeWhile is_digit u; r1 = dropWhile is_digit u;
            (fp, r2) = (case r1 of [] \<Rightarrow> ([], [])
                        | c # r \<Rightarrow> if c = CHR ''.'' then (takeWhile is_digit r, dropWhile is_digit r)
                                   else ([], r1))
        in if ip = [] \<and> fp = [] then NaN
           else (case exponent r2 of None \<Rightarrow> NaN
                 | Some e \<Rightarrow> scaled neg (digits_val (ip @ fp)) (e - int (length fp))))"

definition hex_digit :: "char \<Rightarrow> nat option" where
  "hex_digit c =
     (if is_digit c then Some (code c - 48)
      else if 97 \<le> code c \<and> code c \<le> 102 then Some (code c - 87)
      else if 65 \<le> code c \<and> code c \<le> 70 then Some (code c - 55) else None)"

fun radix_val :: "nat \<Rightarrow> nat \<Rightarrow> string \<Rightarrow> nat option" where
  "radix_val b n [] = Some n"
| "radix_val b n (c # s) =
     (case hex_digit c of None \<Rightarrow> None | Some d \<Rightarrow> if d < b then radix_val b (b * n + d) s else None)"

definition radix_literal :: "nat \<Rightarrow> string \<Rightarrow> num" where
  "radix_literal b s =
     (if s = [] then NaN else case radix_val b 0 s of None \<Rightarrow> NaN | Some n \<Rightarrow> Dec (int n) 0)"

definition str_num :: "string \<Rightarrow> num" where
  "str_num s =
     (let t = trim s in
      if t = [] then Dec 0 0
      else if to_lower (take 2 t) = ''0x'' then radix_literal 16 (drop 2 t)
      else if to_lower (take 2 t) = ''0o'' then radix_literal 8 (drop 2 t)
      else if to_lower (take 2 t) = ''0b'' then radix_literal 2 (drop 2 t)
      else dec_literal t)"

lemma is_digit_classes:
  "is_digit c \<Longrightarrow> c \<noteq> CHR ''-'' \<and> c \<noteq> CHR ''+'' \<and> c \<noteq> CHR ''.'' \<and> c \<noteq> CHR ''x'' \<and> c \<noteq> CHR ''I''"
  by (auto simp: is_digit_def code_def)

lemma dec_literal_digits:
  assumes "s \<noteq> []" "list_all is_digit s"
  shows "dec_literal s = Dec (int (digits_val s)) 0"
proof -
  obtain c r where s: "s = c # r"
    using assms(1) by (cases s) auto
  have c: "is_digit c" "c \<noteq> CHR ''-''" "c \<noteq> CHR ''+''" "c \<noteq> CHR ''I''"
    using assms(2) s is_digit_classes by auto
  have sign: "split_sign s = (False, s)" "s \<noteq> ''Infinity''"
    using s c by (auto simp: split_sign_def)
  have parts: "takeWhile is_digit s = s" "dropWhile is_digit s = []"
    using assms(2) by (auto simp: takeWhile_eq_all_conv list_all_iff)
  show ?thesis
    using assms(1)
    by (simp add: dec_literal_def exponent_def scaled_def sign parts
          del: dropWhile_eq_Nil_conv takeWhile_eq_all_conv)
qed

lemma str_num_digits:
  assumes "s \<noteq> []" "list_all is_digit s"
  shows "str_num s = Dec (int (digits_val s)) 0"
proof -
  have "trim s = s"
    by (rule trim_trimmed, rule no_ws_trimmed) (use assms(2) is_digit_not_ws in \<open>auto simp: list_all_iff\<close>)
  moreover have "to_lower (take 2 s) \<noteq> [CHR ''0'', d]" if "\<not> is_digit d" for d
  proof
    assume eq: "to_lower (take 2 s) = [CHR ''0'', d]"
    then obtain a b r where "s = a # b # r"
      by (cases s; cases "tl s") (auto simp: to_lower_def)
    with eq assms(2) have "d = lower_char b" "is_digit b"
      by (auto simp: to_lower_def numeral_2_eq_2)
    with that show False
      by (simp add: lower_char_fix)
  qed
  ultimately show ?thesis
    using assms by (simp add: str_num_def dec_literal_digits is_digit_def code_def)
qed

lemma str_num_dec_digits [simp]: "str_num (dec_digits n) = Dec (int n) 0"
  using str_num_digits [of "dec_digits n"] by simp

subsection \<open>Values\<close>

datatype jsval =
    JUndefined | JNull | JBool bool | JNum num | JStr string
  | JArr "jsval list" | JObj "(string \<times> jsval) list"

fun truthy :: "jsval \<Rightarrow> bool" where
  "truthy JUndefined = False"
| "truthy JNull = False"
| "truthy (JBool b) = b"
| "truthy (JNum n) = (n \<noteq> NaN \<and> (case n of Dec m _ \<Rightarrow> m \<noteq> 0 | _ \<Rightarrow> True))"
| "truthy (JStr s) = (s \<noteq> [])"
| "truthy (JArr _) = True"
| "truthy (JObj _) = True"

text \<open>\<open>String(value)\<close>: in an array, null and undefined elements are empty.\<close>

fun js_str :: "jsval \<Rightarrow> string" and js_elem_str :: "jsval \<Rightarrow> string" where
  "js_str JUndefined = ''undefined''"
| "js_str JNull = ''null''"
| "js_str (JBool b) = (if b then ''true'' else ''false'')"
| "js_str (JNum n) = num_str n"
| "js_str (JStr s) = s"
| "js_str (JArr vs) = join '','' (map js_elem_str vs)"
| "js_str (JObj _) = ''[object Object]''"
| "js_elem_str v = (if v = JUndefined \<or> v = JNull then [] else js_str v)"

fun to_num :: "jsval \<Rightarrow> num" where
  "to_num JUndefined = NaN"
| "to_num JNull = Dec 0 0"
| "to_num (JBool b) = Dec (if b then 1 else 0) 0"
| "to_num (JNum n) = n"
| "to_num v = str_num (js_str v)"

text \<open>The operators \<open>??\<close> and \<open>||\<close>.\<close>

definition nullish :: "jsval \<Rightarrow> bool" where
  "nullish v \<longleftrightarrow> v = JUndefined \<or> v = JNull"

definition coalesce :: "jsval \<Rightarrow> jsval \<Rightarrow> jsval" where
  "coalesce v w = (if nullish v then w else v)"

definition js_or :: "jsval \<Rightarrow> jsval \<Rightarrow> jsval" where
  "js_or v w = (if truthy v then v else w)"

text \<open>Optional property access, own-property test and the entries of a record or array.\<close>

definition jget :: "jsval \<Rightarrow> string \<Rightarrow> jsval" where
  "jget v k = (case v of JObj m \<Rightarrow> (case map_of m k of None \<Rightarrow> JUndefined | Some w \<Rightarrow> w)
               | _ \<Rightarrow> JUndefined)"

definition jhas :: "jsval \<Rightarrow> string \<Rightarrow> bool" where
  "jhas v k = (case v of JObj m \<Rightarrow> map_of m k \<noteq> None | _ \<Rightarrow> False)"

definition is_obj :: "jsval \<Rightarrow> bool" where
  "is_obj v = (case v of JObj _ \<Rightarrow> True | _ \<Rightarrow> False)"

definition arr_items :: "jsval \<Rightarrow> jsval list" where
  "arr_items v = (case v of JArr vs \<Rightarrow> vs | _ \<Rightarrow> [])"

definition obj_fields :: "jsval \<Rightarrow> (string \<times> jsval) list" where
  "obj_fields v = (case v of JObj m \<Rightarrow> m | _ \<Rightarrow> [])"

definition jentries :: "jsval \<Rightarrow> (string \<times> jsval) list" where
  "jentries v = (case v of JObj m \<Rightarrow> own_entries m
                 | JArr vs \<Rightarrow> zip (map dec_digits [0..<length vs]) vs
                 | JStr s \<Rightarrow> zip (map dec_digits [0..<length s]) (map (\<lambda>c. JStr [c]) s)
                 | _ \<Rightarrow> [])"

text \<open>\<open>String(value || "")\<close> and \<open>String(value ?? "")\<close>, the two ways the code reads a token.\<close>

definition str_or :: "jsval \<Rightarrow> string" where
  "str_or v = (if truthy v then js_str v else [])"

definition str_nn :: "jsval \<Rightarrow> string" where
  "str_nn v = (if nullish v then [] else js_str v)"

lemma str_or_simps [simp]:
  "str_or (JStr s) = s" "str_or JUndefined = []" "str_or JNull = []"
  by (auto simp: str_or_def)

lemma str_nn_simps [simp]:
  "str_nn (JStr s) = s" "str_nn JUndefined = []" "str_nn JNull = []"
  by (auto simp: str_nn_def nullish_def)

lemma coalesce_simps [simp]:
  "coalesce JUndefined w = w" "coalesce JNull w = w" "coalesce (JStr s) w = JStr s"
  by (auto simp: coalesce_def nullish_def)

lemma jget_simps [simp]:
  "jget (JObj m) k = (case map_of m k of None \<Rightarrow> JUndefined | Some w \<Rightarrow> w)"
  "jget JUndefined k = JUndefined" "jget JNull k = JUndefined"
  by (auto simp: jget_def)

subsection \<open>JSON text\<close>

definition hex_char :: "nat \<Rightarrow> char" where
  "hex_char n = (if n < 10 then char_of (48 + n) else char_of (87 + n))"

definition json_char :: "char \<Rightarrow> string" where
  "json_char c =
     (let n = code c; bs = char_of (92 :: nat) in
      if n = 34 then [bs, c] else if n = 92 then [bs, c]
      else if n = 8 then [bs, CHR ''b''] else if n = 9 then [bs, CHR ''t'']
      else if n = 10 then [bs, CHR ''n''] else if n = 12 then [bs, CHR ''f'']
      else if n = 13 then [bs, CHR ''r'']
      else if n < 32 then [bs, CHR ''u'', CHR ''0'', CHR ''0'', hex_char (n div 16), hex_char (n mod 16)]
      else [c])"

definition json_quote :: "string \<Rightarrow> string" where
  "json_quote s = char_of (34 :: nat) # concat (map json_char s) @ [char_of (34 :: nat)]"

text \<open>\<open>JSON.stringify\<close>; undefined fields are left out and undefined elements become null.\<close>

fun json :: "jsval \<Rightarrow> string"
  and json_fields :: "(string \<times> jsval) list \<Rightarrow> (string \<times> string) list" where
  "json JUndefined = ''null''"
| "json JNull = ''null''"
| "json (JBool b) = (if b then ''true'' else ''false'')"
| "json (JNum n) = (if num_finite n then num_str n else ''null'')"
| "json (JStr s) = json_quote s"
| "json (JArr vs) = ''['' @ join '','' (map json vs) @ '']''"
| "json (JObj m) =
     ''{'' @ join '','' (map (\<lambda>(k, t). json_quote k @ '':'' @ t) (own_entries (json_fields m))) @ ''}''"
| "json_fields [] = []"
| "json_fields ((k, v) # m) =
     (if v = JUndefined then json_fields m else (k, json v) # json_fields m)"

end
