(* ===== verification/DomainCatalog.thy ===== *)
theory DomainCatalog
  imports JsValue
begin

text \<open>
  The domain catalog of a workspace (\<open>deployment-workspace/domain-utils.ts\<close> and the domain
  types of \<open>deployment-workspace/types.ts\<close>): the entries, the normalisation and validation of
  names, the payload written to \<open>group_vars/all.yml\<close> and the parser that reads it back.
  Collation (\<open>localeCompare\<close>) belongs to the browser and is the parameter \<open>lc\<close>.
\<close>

subsection \<open>Types\<close>

datatype DomainKind = Local | Fqdn | Subdomain

datatype DomainStatus = Reserved | Ordered | Active | Disabled | Failed | Cancelled

record DomainEntry =
  de_id :: string
  de_kind :: DomainKind
  de_domain :: string
  de_parentFqdn :: "string option"
  de_status :: DomainStatus
  de_statusChangedAt :: "string option"
  de_orderId :: "string option"

fun kind_str :: "DomainKind \<Rightarrow> string" where
  "kind_str Local = ''local''"
| "kind_str Fqdn = ''fqdn''"
| "kind_str Subdomain = ''subdomain''"

fun status_str :: "DomainStatus \<Rightarrow> string" where
  "status_str Reserved = ''reserved''"
| "status_str Ordered = ''ordered''"
| "status_str Active = ''active''"
| "status_str Disabled = ''disabled''"
| "status_str Failed = ''failed''"
| "status_str Cancelled = ''cancelled''"

definition DEFAULT_PRIMARY_DOMAIN :: string where
  "DEFAULT_PRIMARY_DOMAIN = ''localhost''"

definition GROUP_VARS_DOMAIN_CATALOG_KEY :: string where
  "GROUP_VARS_DOMAIN_CATALOG_KEY = ''INFINITO_DOMAINS''"

definition DOMAIN_STATUSES :: "DomainStatus list" where
  "DOMAIN_STATUSES = [Reserved, Ordered, Active, Disabled, Failed, Cancelled]"

subsection \<open>Normalisation and validation\<close>

definition normalizeDomainStatus :: "jsval \<Rightarrow> DomainStatus" where
  "normalizeDomainStatus value =
     (let raw = to_lower (trim (str_or value))
      in case find (\<lambda>s. status_str s = raw) DOMAIN_STATUSES of Some s \<Rightarrow> s | None \<Rightarrow> Active)"

definition normalizeDomainName :: "jsval \<Rightarrow> string" where
  "normalizeDomainName value = to_lower (trim (str_or value))"

definition label_char :: "char \<Rightarrow> bool" where
  "label_char c \<longleftrightarrow> is_az09 c \<or> c = CHR ''-''"

definition normalizeDomainLabel :: "jsval \<Rightarrow> string" where
  "normalizeDomainLabel value =
     (let kept = filter label_char (to_lower (trim (str_or value)))
      in rev (dropWhile (\<lambda>c. c = CHR ''-'') (rev (dropWhile (\<lambda>c. c = CHR ''-'') kept))))"

definition isValidDomainToken :: "string \<Rightarrow> bool" where
  "isValidDomainToken value =
     (case value of [] \<Rightarrow> False
      | c # r \<Rightarrow> is_az09 c \<and>
          list_all (\<lambda>d. is_az09 d \<or> d = CHR ''.'' \<or> d = CHR ''_'' \<or> d = CHR ''-'') r)"

definition domain_labels :: "string \<Rightarrow> string list" where
  "domain_labels normalized = nonempties (split_on (CHR ''.'') normalized)"

definition isLikelyFqdn :: "string \<Rightarrow> bool" where
  "isLikelyFqdn value =
     (let normalized = normalizeDomainName (JStr value) in
      if normalized = [] \<or> CHR '' '' \<in> set normalized \<or> CHR ''.'' \<notin> set normalized then False
      else
        let labels = domain_labels normalized in
        if length labels < 2 then False
        else list_all (\<lambda>label. label \<noteq> [] \<and> list_all label_char label
               \<and> \<not> starts_with label ''-'' \<and> \<not> ends_with label ''-'') labels)"

definition inferDomainKind :: "string \<Rightarrow> DomainKind" where
  "inferDomainKind value =
     (let normalized = normalizeDomainName (JStr value) in
      if normalized = [] \<or> normalized = DEFAULT_PRIMARY_DOMAIN \<or> CHR ''.'' \<notin> set normalized
      then Local
      else if length (domain_labels normalized) \<le> 2 then Fqdn else Subdomain)"

definition buildDomainEntryId :: "DomainKind \<Rightarrow> string \<Rightarrow> string option \<Rightarrow> string" where
  "buildDomainEntryId kind domain parentFqdn =
     kind_str kind @ '':'' @ domain
     @ (case parentFqdn of None \<Rightarrow> [] | Some p \<Rightarrow> if p = [] then [] else '':'' @ p)"

definition localhost_entry :: DomainEntry where
  "localhost_entry =
     \<lparr>de_id = buildDomainEntryId Local DEFAULT_PRIMARY_DOMAIN None, de_kind = Local,
      de_domain = DEFAULT_PRIMARY_DOMAIN, de_parentFqdn = None, de_status = Active,
      de_statusChangedAt = None, de_orderId = None\<rparr>"

definition createDefaultDomainEntries :: "DomainEntry list" where
  "createDefaultDomainEntries = [localhost_entry]"

subsection \<open>Writing the catalog\<close>

definition opt_field :: "string \<Rightarrow> string option \<Rightarrow> (string \<times> jsval) list" where
  "opt_field k v = (case v of None \<Rightarrow> [] | Some s \<Rightarrow> if s = [] then [] else [(k, JStr s)])"

definition catalog_row :: "DomainEntry \<Rightarrow> jsval" where
  "catalog_row entry =
     JObj ([(''type'', JStr (kind_str (de_kind entry))), (''domain'', JStr (de_domain entry)),
            (''status'', JStr (status_str (de_status entry)))]
       @ (if de_kind entry = Subdomain then opt_field ''parent_fqdn'' (de_parentFqdn entry) else [])
       @ opt_field ''status_changed_at'' (de_statusChangedAt entry)
       @ opt_field ''order_id'' (de_orderId entry))"

definition buildDomainCatalogPayload :: "DomainEntry list \<Rightarrow> jsval" where
  "buildDomainCatalogPayload entries = JArr (map catalog_row entries)"

definition readPrimaryDomainFromGroupVars :: "jsval \<Rightarrow> string" where
  "readPrimaryDomainFromGroupVars data =
     (let value = jget data ''DOMAIN_PRIMARY'' in
      case value of JStr s \<Rightarrow> trim s
      | _ \<Rightarrow> if nullish value then [] else trim (js_str value))"

subsection \<open>Reading the catalog\<close>

record staged_entry =
  st_kind :: DomainKind
  st_domain :: string
  st_parentFqdn :: "string option"
  st_status :: DomainStatus
  st_statusChangedAt :: "string option"
  st_orderId :: "string option"

definition plain_staged :: "string \<Rightarrow> staged_entry" where
  "plain_staged domain =
     \<lparr>st_kind = inferDomainKind domain, st_domain = domain, st_parentFqdn = None,
      st_status = Active, st_statusChangedAt = None, st_orderId = None\<rparr>"

definition nonempty_str :: "jsval \<Rightarrow> string option" where
  "nonempty_str v = (case v of JStr s \<Rightarrow> if s = [] then None else Some s | _ \<Rightarrow> None)"

definition str_opt :: "string \<Rightarrow> string option" where
  "str_opt s = (if s = [] then None else Some s)"

definition stage_node :: "jsval \<Rightarrow> staged_entry list" where
  "stage_node node =
     (let domain = normalizeDomainName
            (coalesce (coalesce (jget node ''domain'') (jget node ''value'')) (jget node ''name''))
      in if domain = [] then []
         else
           let rawKind = normalizeDomainName (coalesce (jget node ''type'') (jget node ''kind''));
               kind = (if rawKind = ''local'' then Local else if rawKind = ''fqdn'' then Fqdn
                       else if rawKind = ''subdomain'' then Subdomain else inferDomainKind domain);
               parentFqdn = normalizeDomainName
                 (coalesce (coalesce (jget node ''parent_fqdn'') (jget node ''parentFqdn''))
                   (jget node ''parent''))
           in [\<lparr>st_kind = kind, st_domain = domain, st_parentFqdn = str_opt parentFqdn,
                st_status = normalizeDomainStatus (jget node ''status''),
                st_statusChangedAt = nonempty_str
                  (coalesce (jget node ''status_changed_at'') (jget node ''statusChangedAt'')),
                st_orderId = nonempty_str
                  (coalesce (jget node ''order_id'') (jget node ''orderId''))\<rparr>])"

definition stage_item :: "jsval \<Rightarrow> staged_entry list" where
  "stage_item item =
     (case item of
        JStr s \<Rightarrow>
          (let domain = normalizeDomainName item in if domain = [] then [] else [plain_staged domain])
      | JObj _ \<Rightarrow> stage_node item
      | _ \<Rightarrow> [])"

definition stage_catalog :: "jsval \<Rightarrow> staged_entry list" where
  "stage_catalog data =
     (let staged = concat (map stage_item (arr_items (jget data GROUP_VARS_DOMAIN_CATALOG_KEY)));
          fallbackPrimary = normalizeDomainName (JStr (readPrimaryDomainFromGroupVars data))
      in staged @ (if fallbackPrimary = [] then [] else [plain_staged fallbackPrimary]))"

text \<open>The accumulators of the parser: the entries, the seen domains and the FQDN domains.\<close>

record catalog_acc =
  ca_entries :: "DomainEntry list"
  ca_seen :: "string list"
  ca_fqdns :: "string list"

record push_meta =
  pm_status :: "DomainStatus option"
  pm_statusChangedAt :: "string option"
  pm_orderId :: "string option"

definition no_meta :: push_meta where
  "no_meta = \<lparr>pm_status = None, pm_statusChangedAt = None, pm_orderId = None\<rparr>"

definition mk_entry :: "DomainKind \<Rightarrow> string \<Rightarrow> string option \<Rightarrow> push_meta \<Rightarrow> DomainEntry" where
  "mk_entry kind domain parentFqdn meta =
     \<lparr>de_id = buildDomainEntryId kind domain parentFqdn, de_kind = kind, de_domain = domain,
      de_parentFqdn = parentFqdn,
      de_status = (case pm_status meta of None \<Rightarrow> Active | Some s \<Rightarrow> s),
      de_statusChangedAt = pm_statusChangedAt meta, de_orderId = pm_orderId meta\<rparr>"

definition parent_part :: "string \<Rightarrow> string" where
  "parent_part domain = join ''.'' (drop 1 (split_on (CHR ''.'') domain))"

definition str_or_else :: "string option \<Rightarrow> string \<Rightarrow> string" where
  "str_or_else v d = (case v of None \<Rightarrow> d | Some s \<Rightarrow> if s = [] then d else s)"

function pushEntry ::
  "DomainKind \<Rightarrow> string \<Rightarrow> string option \<Rightarrow> push_meta \<Rightarrow> catalog_acc \<Rightarrow> catalog_acc" where
  "pushEntry kind domain parentFqdn meta acc =
     (let n = normalizeDomainName (JStr domain) in
      if n = [] \<or> n \<in> set (ca_seen acc) then acc
      else if kind = Local \<and> \<not> isValidDomainToken n then acc
      else if kind = Fqdn \<and> \<not> isLikelyFqdn n then acc
      else if kind = Subdomain then
        (if CHR ''.'' \<notin> set n then acc
         else
           let p = normalizeDomainName (JStr (str_or_else parentFqdn (parent_part n))) in
           if p = [] \<or> \<not> isLikelyFqdn p then acc
           else
             let acc1 = (if p \<in> set (ca_seen acc) then acc else pushEntry Fqdn p None no_meta acc)
             in acc1\<lparr>ca_entries := ca_entries acc1 @ [mk_entry Subdomain n (Some p) meta],
                     ca_seen := set_add n (ca_seen acc1)\<rparr>)
      else acc\<lparr>ca_entries := ca_entries acc @ [mk_entry kind n None meta],
               ca_seen := set_add n (ca_seen acc),
               ca_fqdns := (if kind = Fqdn then set_add n (ca_fqdns acc) else ca_fqdns acc)\<rparr>)"
  by pat_completeness auto
termination
  by (relation "measure (\<lambda>(kind, _). if kind = Subdomain then 1 else 0)") auto

declare pushEntry.simps [simp del]

definition staged_parent :: "staged_entry \<Rightarrow> string" where
  "staged_parent entry =
     (let own = normalizeDomainName (JStr (str_or_else (st_parentFqdn entry) []))
      in if own \<noteq> [] then own else normalizeDomainName (JStr (parent_part (st_domain entry))))"

definition push_staged :: "staged_entry \<Rightarrow> catalog_acc \<Rightarrow> catalog_acc" where
  "push_staged entry acc =
     (let meta = \<lparr>pm_status = Some (st_status entry),
                  pm_statusChangedAt = st_statusChangedAt entry, pm_orderId = st_orderId entry\<rparr> in
      if st_kind entry = Subdomain then
        (let parentFqdn = staged_parent entry;
             acc1 = (if parentFqdn \<noteq> [] \<and> parentFqdn \<notin> set (ca_fqdns acc)
                     then pushEntry Fqdn parentFqdn None no_meta acc else acc)
         in pushEntry Subdomain (st_domain entry) (str_opt parentFqdn) meta acc1)
      else pushEntry (st_kind entry) (st_domain entry) None meta acc)"

fun typeOrder :: "DomainKind \<Rightarrow> int" where
  "typeOrder Local = 0"
| "typeOrder Fqdn = 1"
| "typeOrder Subdomain = 2"

definition entry_cmp :: "(string \<Rightarrow> string \<Rightarrow> int) \<Rightarrow> DomainEntry \<Rightarrow> DomainEntry \<Rightarrow> int" where
  "entry_cmp lc a b =
     (let d = typeOrder (de_kind a) - typeOrder (de_kind b)
      in if d \<noteq> 0 then d else lc (de_domain a) (de_domain b))"

definition collect_entries :: "staged_entry list \<Rightarrow> DomainEntry list" where
  "collect_entries staged =
     (let acc = fold push_staged staged \<lparr>ca_entries = [], ca_seen = [], ca_fqdns = []\<rparr>
      in if DEFAULT_PRIMARY_DOMAIN \<in> set (ca_seen acc) then ca_entries acc
         else localhost_entry # ca_entries acc)"

definition parseDomainCatalogFromGroupVars ::
  "(string \<Rightarrow> string \<Rightarrow> int) \<Rightarrow> jsval \<Rightarrow> DomainEntry list" where
  "parseDomainCatalogFromGroupVars lc data =
     js_sort (entry_cmp lc) (collect_entries (stage_catalog data))"

subsection \<open>Choosing the primary domain\<close>

definition domain_lookup :: "DomainEntry list \<Rightarrow> (string \<times> string) list" where
  "domain_lookup entries =
     foldl (\<lambda>lookup entry.
        let domain = normalizeDomainName (JStr (de_domain entry)) in
        if domain = [] then lookup
        else if map_of lookup domain = None then AList.update domain (de_domain entry) lookup
        else lookup) [] entries"

definition normalizePrimaryDomainSelection :: "jsval \<Rightarrow> DomainEntry list \<Rightarrow> string" where
  "normalizePrimaryDomainSelection value entries =
     (let desired = normalizeDomainName value in
      if desired = [] then []
      else case map_of (domain_lookup entries) desired of None \<Rightarrow> [] | Some d \<Rightarrow> d)"

subsection \<open>Normalised names\<close>

lemma normalizeDomainName_str: "normalizeDomainName (JStr s) = to_lower (trim s)"
  by (simp add: normalizeDomainName_def)

lemma normalizeDomainName_idem [simp]:
  "normalizeDomainName (JStr (normalizeDomainName v)) = normalizeDomainName v"
  by (simp add: normalizeDomainName_def)

lemma normalizeDomainName_Nil [simp]: "normalizeDomainName (JStr []) = []"
  by (simp add: normalizeDomainName_str)

interpretation domain_name: normaliser "\<lambda>s. normalizeDomainName (JStr s)"
  by unfold_locales simp

lemma length_trim: "length (trim s) \<le> length s"
  unfolding trim_def trim_end_def trim_start_def
  by (metis dual_order.trans length_dropWhile_le length_rev)

lemma length_normalizeDomainName: "length (normalizeDomainName (JStr s)) \<le> length s"
  using length_trim [of s] by (simp add: normalizeDomainName_str to_lower_def)

lemma length_parent_part: "CHR ''.'' \<in> set n \<Longrightarrow> length (parent_part n) < length n"
proof -
  assume dot: "CHR ''.'' \<in> set n"
  obtain p ps where ps: "split_on (CHR ''.'') n = p # ps"
    by (meson list.exhaust split_on_ne)
  have n: "n = join ''.'' (p # ps)"
    using join_split_on [of "CHR ''.''" n] ps by simp
  have "ps \<noteq> []"
  proof
    assume "ps = []"
    with n ps dot show False
      using split_on_free [of p "CHR ''.''" n] by simp
  qed
  with n ps show ?thesis
    by (simp add: parent_part_def join_Cons)
qed

lemma parent_part_neq:
  assumes "CHR ''.'' \<in> set n"
  shows "normalizeDomainName (JStr (parent_part n)) \<noteq> n"
  using length_parent_part [OF assms] length_normalizeDomainName [of "parent_part n"] by auto

lemma normalizeDomainLabel_filter:
  "set (normalizeDomainLabel v) \<subseteq> Collect label_char"
  by (auto simp: normalizeDomainLabel_def Let_def dest!: set_dropWhileD)

subsection \<open>Well-formed catalogs\<close>

definition entry_ok :: "string set \<Rightarrow> DomainEntry \<Rightarrow> bool" where
  "entry_ok doms e \<longleftrightarrow>
     normalizeDomainName (JStr (de_domain e)) = de_domain e \<and> de_domain e \<noteq> []
     \<and> de_id e = buildDomainEntryId (de_kind e) (de_domain e) (de_parentFqdn e)
     \<and> (case de_kind e of
          Local \<Rightarrow> isValidDomainToken (de_domain e) \<and> de_parentFqdn e = None
        | Fqdn \<Rightarrow> isLikelyFqdn (de_domain e) \<and> de_parentFqdn e = None
        | Subdomain \<Rightarrow> CHR ''.'' \<in> set (de_domain e)
            \<and> (\<exists>p \<in> doms. de_parentFqdn e = Some p \<and> isLikelyFqdn p))"

definition catalog_ok :: "DomainEntry list \<Rightarrow> bool" where
  "catalog_ok es \<longleftrightarrow>
     distinct (map de_domain es) \<and> (\<forall>e \<in> set es. entry_ok (de_domain ` set es) e)"

definition acc_ok :: "catalog_acc \<Rightarrow> bool" where
  "acc_ok acc \<longleftrightarrow>
     catalog_ok (ca_entries acc) \<and> set (ca_seen acc) = de_domain ` set (ca_entries acc)
     \<and> set (ca_fqdns acc) \<subseteq> set (ca_seen acc)"

lemma entry_ok_mono: "entry_ok A e \<Longrightarrow> A \<subseteq> B \<Longrightarrow> entry_ok B e"
  by (auto simp: entry_ok_def split: DomainKind.splits)

lemma catalog_ok_snoc:
  assumes "catalog_ok es" "de_domain e \<notin> de_domain ` set es" "entry_ok (insert (de_domain e) (de_domain ` set es)) e"
  shows "catalog_ok (es @ [e])"
proof -
  have "entry_ok (de_domain ` set (es @ [e])) x" if "x \<in> set es" for x
    using assms(1) that by (auto simp: catalog_ok_def intro: entry_ok_mono)
  with assms show ?thesis
    by (auto simp: catalog_ok_def)
qed

lemma catalog_ok_mset: "mset es = mset fs \<Longrightarrow> catalog_ok es = catalog_ok fs"
  unfolding catalog_ok_def by (metis mset_eq_imp_distinct_iff mset_map set_mset_mset)

lemma mk_entry_simps [simp]:
  "de_kind (mk_entry k d p m) = k" "de_domain (mk_entry k d p m) = d"
  "de_parentFqdn (mk_entry k d p m) = p" "de_id (mk_entry k d p m) = buildDomainEntryId k d p"
  by (simp_all add: mk_entry_def)

lemma acc_ok_snoc:
  assumes "acc_ok acc" "n \<notin> set (ca_seen acc)" "de_domain e = n"
    "entry_ok (insert n (set (ca_seen acc))) e" "set fq \<subseteq> insert n (set (ca_seen acc))"
  shows "acc_ok (acc\<lparr>ca_entries := ca_entries acc @ [e], ca_seen := set_add n (ca_seen acc), ca_fqdns := fq\<rparr>)"
proof -
  have "catalog_ok (ca_entries acc @ [e])"
    using assms by (intro catalog_ok_snoc) (auto simp: acc_ok_def)
  with assms show ?thesis
    by (auto simp: acc_ok_def)
qed

lemma pushEntry_flat:
  "kind \<noteq> Subdomain \<Longrightarrow> pushEntry kind domain par meta acc =
     (let n = normalizeDomainName (JStr domain) in
      if n = [] \<or> n \<in> set (ca_seen acc) \<or> (kind = Local \<and> \<not> isValidDomainToken n)
         \<or> (kind = Fqdn \<and> \<not> isLikelyFqdn n) then acc
      else acc\<lparr>ca_entries := ca_entries acc @ [mk_entry kind n None meta],
               ca_seen := set_add n (ca_seen acc),
               ca_fqdns := (if kind = Fqdn then set_add n (ca_fqdns acc) else ca_fqdns acc)\<rparr>)"
  by (subst pushEntry.simps) (auto simp: Let_def)

lemma pushEntry_flat_ok:
  assumes "kind \<noteq> Subdomain" "acc_ok acc"
  shows "acc_ok (pushEntry kind domain par meta acc)"
proof -
  let ?n = "normalizeDomainName (JStr domain)"
  have "entry_ok (insert ?n (set (ca_seen acc))) (mk_entry kind ?n None meta)"
    if "?n \<noteq> []" "kind = Local \<longrightarrow> isValidDomainToken ?n" "kind = Fqdn \<longrightarrow> isLikelyFqdn ?n"
    using that assms(1) by (cases kind) (auto simp: entry_ok_def)
  moreover have "set (if kind = Fqdn then set_add ?n (ca_fqdns acc) else ca_fqdns acc)
      \<subseteq> insert ?n (set (ca_seen acc))"
    using assms(2) by (auto simp: acc_ok_def)
  ultimately show ?thesis
    using assms acc_ok_snoc [OF assms(2), of ?n "mk_entry kind ?n None meta"]
    by (simp add: pushEntry_flat Let_def)
qed

lemma isLikelyFqdn_dot:
  "isLikelyFqdn n \<Longrightarrow> normalizeDomainName (JStr n) \<noteq> [] \<and> CHR ''.'' \<in> set (normalizeDomainName (JStr n))"
  by (auto simp: isLikelyFqdn_def Let_def split: if_splits)

lemma pushEntry_fqdn_seen:
  "isLikelyFqdn p \<Longrightarrow> normalizeDomainName (JStr p) = p \<Longrightarrow>
   p \<in> set (ca_seen (pushEntry Fqdn p par meta acc))"
  by (auto simp: pushEntry_flat Let_def isLikelyFqdn_def)

lemma pushEntry_fqdn_mono:
  "set (ca_seen acc) \<subseteq> set (ca_seen (pushEntry Fqdn p par meta acc))"
  "n \<in> set (ca_seen (pushEntry Fqdn p par meta acc)) \<Longrightarrow> n \<noteq> normalizeDomainName (JStr p) \<Longrightarrow>
   n \<in> set (ca_seen acc)"
  by (auto simp: pushEntry_flat Let_def split: if_splits)

lemma pushEntry_sub_ok:
  assumes ok: "acc_ok acc" and n: "n = normalizeDomainName (JStr domain)"
    and p: "p = normalizeDomainName (JStr (str_or_else par (parent_part n)))"
    and neq: "isLikelyFqdn p \<Longrightarrow> n \<notin> set (ca_seen acc) \<Longrightarrow> p \<noteq> n"
  shows "acc_ok (pushEntry Subdomain domain par meta acc)"
proof (cases "n = [] \<or> n \<in> set (ca_seen acc) \<or> CHR ''.'' \<notin> set n \<or> p = [] \<or> \<not> isLikelyFqdn p")
  case True
  with ok n p show ?thesis
    by (subst pushEntry.simps) (auto simp: Let_def)
next
  case False
  let ?acc1 = "if p \<in> set (ca_seen acc) then acc else pushEntry Fqdn p None no_meta acc"
  have np: "normalizeDomainName (JStr p) = p"
    by (simp add: p)
  have "acc_ok ?acc1"
    using ok by (simp add: pushEntry_flat_ok)
  moreover have "p \<in> set (ca_seen ?acc1)"
    using False np by (simp add: pushEntry_fqdn_seen)
  moreover have "n \<notin> set (ca_seen ?acc1)"
    using False neq np pushEntry_fqdn_mono(2) [of n p None no_meta acc] by auto
  moreover have "entry_ok (insert n (set (ca_seen ?acc1))) (mk_entry Subdomain n (Some p) meta)"
    using False calculation(2) n by (auto simp: entry_ok_def)
  ultimately have "acc_ok (?acc1\<lparr>ca_entries := ca_entries ?acc1 @ [mk_entry Subdomain n (Some p) meta],
      ca_seen := set_add n (ca_seen ?acc1), ca_fqdns := ca_fqdns ?acc1\<rparr>)"
    by (intro acc_ok_snoc) (auto simp: acc_ok_def)
  moreover have "pushEntry Subdomain domain par meta acc =
      ?acc1\<lparr>ca_entries := ca_entries ?acc1 @ [mk_entry Subdomain n (Some p) meta],
      ca_seen := set_add n (ca_seen ?acc1)\<rparr>"
    using False unfolding n p by (subst pushEntry.simps) (simp add: Let_def)
  ultimately show ?thesis
    by simp
qed

lemma push_staged_ok: "acc_ok acc \<Longrightarrow> acc_ok (push_staged entry acc)"
proof (cases "st_kind entry = Subdomain")
  case True
  assume ok: "acc_ok acc"
  define P where "P = staged_parent entry"
  define acc1 where "acc1 = (if P \<noteq> [] \<and> P \<notin> set (ca_fqdns acc)
                             then pushEntry Fqdn P None no_meta acc else acc)"
  define n where "n = normalizeDomainName (JStr (st_domain entry))"
  have nP: "normalizeDomainName (JStr P) = P" and nn: "normalizeDomainName (JStr n) = n"
    by (simp_all add: P_def staged_parent_def Let_def n_def)
  have ok1: "acc_ok acc1"
    using ok by (simp add: acc1_def pushEntry_flat_ok)
  have seen: "P \<in> set (ca_seen acc1)" if "P \<noteq> []" "isLikelyFqdn P"
    using that ok nP by (auto simp: acc1_def acc_ok_def pushEntry_fqdn_seen)
  have "acc_ok (pushEntry Subdomain (st_domain entry) (str_opt P) meta acc1)" for meta
  proof (rule pushEntry_sub_ok [OF ok1 n_def refl])
    let ?p = "normalizeDomainName (JStr (str_or_else (str_opt P) (parent_part n)))"
    assume "isLikelyFqdn ?p" "n \<notin> set (ca_seen acc1)"
    then show "?p \<noteq> n"
      using seen nP parent_part_neq [of n] isLikelyFqdn_dot [of n] nn
      by (cases "P = []") (auto simp: str_or_else_def str_opt_def)
  qed
  moreover have "push_staged entry acc = pushEntry Subdomain (st_domain entry) (str_opt P)
      \<lparr>pm_status = Some (st_status entry), pm_statusChangedAt = st_statusChangedAt entry,
       pm_orderId = st_orderId entry\<rparr> acc1"
    using True by (simp only: push_staged_def Let_def acc1_def P_def if_True simp_thms)
  ultimately show ?thesis
    by simp
next
  case False
  then show "acc_ok acc \<Longrightarrow> ?thesis"
    by (simp add: push_staged_def Let_def pushEntry_flat_ok)
qed

interpretation catalog: machine push_staged acc_ok
  by unfold_locales (rule push_staged_ok)

lemma localhost_token [simp]:
  "isValidDomainToken DEFAULT_PRIMARY_DOMAIN"
  "normalizeDomainName (JStr DEFAULT_PRIMARY_DOMAIN) = DEFAULT_PRIMARY_DOMAIN"
  "DEFAULT_PRIMARY_DOMAIN \<noteq> []"
  by code_simp+

lemma collect_entries_ok:
  "catalog_ok (collect_entries staged) \<and> DEFAULT_PRIMARY_DOMAIN \<in> de_domain ` set (collect_entries staged)"
proof -
  define acc where "acc = fold push_staged staged \<lparr>ca_entries = [], ca_seen = [], ca_fqdns = []\<rparr>"
  have ok: "acc_ok acc"
    unfolding acc_def by (rule catalog.every_run_ok) (simp add: acc_ok_def catalog_ok_def)
  show ?thesis
  proof (cases "DEFAULT_PRIMARY_DOMAIN \<in> set (ca_seen acc)")
    case True
    with ok show ?thesis
      by (auto simp: collect_entries_def acc_ok_def acc_def [symmetric])
  next
    case False
    have "entry_ok {} localhost_entry" "de_domain localhost_entry = DEFAULT_PRIMARY_DOMAIN"
      by (simp_all add: entry_ok_def localhost_entry_def)
    with ok False have "catalog_ok (ca_entries acc @ [localhost_entry])"
      by (intro catalog_ok_snoc) (auto simp: acc_ok_def intro: entry_ok_mono)
    then have "catalog_ok (localhost_entry # ca_entries acc)"
      by (subst catalog_ok_mset [of _ "ca_entries acc @ [localhost_entry]"]) simp_all
    with False \<open>de_domain localhost_entry = _\<close> show ?thesis
      by (simp add: collect_entries_def acc_def [symmetric])
  qed
qed

lemma parsed_catalog_ok:
  "catalog_ok (parseDomainCatalogFromGroupVars lc data)
   \<and> DEFAULT_PRIMARY_DOMAIN \<in> de_domain ` set (parseDomainCatalogFromGroupVars lc data)"
  unfolding parseDomainCatalogFromGroupVars_def
  using collect_entries_ok [of "stage_catalog data"] by (simp add: catalog_ok_mset [OF mset_js_sort])

text \<open>
  C25: whatever the parsed group variables hold, the catalog that is read from them is
  well-formed: its domains are normalised and pairwise different, every entry satisfies the
  rule of its kind and carries the id built from its fields, the parent of every subdomain is
  itself listed, and \<open>localhost\<close> is listed.
\<close>

theorem parseDomainCatalog_ok:
  "catalog_ok (parseDomainCatalogFromGroupVars lc data)
   \<and> DEFAULT_PRIMARY_DOMAIN \<in> de_domain ` set (parseDomainCatalogFromGroupVars lc data)"
  by (rule parsed_catalog_ok)


subsection \<open>The order of the catalog\<close>

locale collation = comparison lc
  for lc :: "string \<Rightarrow> string \<Rightarrow> int"

sublocale collation \<subseteq> entries: comparison "entry_cmp lc"
proof unfold_locales
  show "sgn (entry_cmp lc y x) = - sgn (entry_cmp lc x y)" for x y
    using cmp_flip [of "de_domain x" "de_domain y"]
    by (auto simp: entry_cmp_def Let_def sgn_if split: if_splits)
  show "entry_cmp lc x y \<le> 0 \<Longrightarrow> entry_cmp lc y z \<le> 0 \<Longrightarrow> entry_cmp lc x z \<le> 0" for x y z
    using cmp_trans [of "de_domain x" "de_domain y" "de_domain z"]
    by (auto simp: entry_cmp_def Let_def split: if_splits)
qed

interpretation code_unit: collation cu_cmp
  by unfold_locales

context collation
begin

lemma parse_sorted:
  "sorted_wrt (\<lambda>a b. entry_cmp lc a b \<le> 0) (parseDomainCatalogFromGroupVars lc data)"
  unfolding parseDomainCatalogFromGroupVars_def by (rule entries.sorted_js_sort)

end

lemma entry_cmp_le_iff:
  "entry_cmp lc a b \<le> 0 \<longleftrightarrow> typeOrder (de_kind a) < typeOrder (de_kind b)
     \<or> (de_kind a = de_kind b \<and> lc (de_domain a) (de_domain b) \<le> 0)"
  by (cases "de_kind a"; cases "de_kind b") (auto simp: entry_cmp_def)

text \<open>
  For every collation that is consistent (an order up to ties), the catalog lists the local
  domains first, then the FQDNs, then the subdomains, each group in collation order.
\<close>

theorem parseDomainCatalog_sorted:
  assumes "collation lc"
  shows "sorted_wrt (\<lambda>a b. typeOrder (de_kind a) < typeOrder (de_kind b)
           \<or> (de_kind a = de_kind b \<and> lc (de_domain a) (de_domain b) \<le> 0))
           (parseDomainCatalogFromGroupVars lc data)"
  using collation.parse_sorted [OF assms, of data] by (simp only: entry_cmp_le_iff)

subsection \<open>Writing and reading back\<close>

definition parents_listed :: "DomainEntry list \<Rightarrow> bool" where
  "parents_listed es \<longleftrightarrow>
     (\<forall>e \<in> set es. de_kind e = Subdomain \<longrightarrow>
        (\<exists>f \<in> set es. de_kind f = Fqdn \<and> de_parentFqdn e = Some (de_domain f)))"

definition meta_ok :: "DomainEntry \<Rightarrow> bool" where
  "meta_ok e \<longleftrightarrow> de_statusChangedAt e \<noteq> Some [] \<and> de_orderId e \<noteq> Some []"

definition fqdn_domains :: "DomainEntry list \<Rightarrow> string list" where
  "fqdn_domains es = map de_domain (filter (\<lambda>e. de_kind e = Fqdn) es)"

definition staged_of :: "DomainEntry \<Rightarrow> staged_entry" where
  "staged_of e =
     \<lparr>st_kind = de_kind e, st_domain = de_domain e, st_parentFqdn = de_parentFqdn e,
      st_status = de_status e, st_statusChangedAt = de_statusChangedAt e,
      st_orderId = de_orderId e\<rparr>"

definition acc_of :: "DomainEntry list \<Rightarrow> catalog_acc" where
  "acc_of es = \<lparr>ca_entries = es, ca_seen = map de_domain es, ca_fqdns = fqdn_domains es\<rparr>"

lemma normalizeDomainStatus_str [simp]: "normalizeDomainStatus (JStr (status_str s)) = s"
  by (cases s; hypsubst; code_simp)

lemma normalizeDomainName_kind [simp]: "normalizeDomainName (JStr (kind_str k)) = kind_str k"
  by (cases k; hypsubst; code_simp)

definition opt_js :: "string option \<Rightarrow> jsval" where
  "opt_js v = (case v of None \<Rightarrow> JUndefined | Some s \<Rightarrow> if s = [] then JUndefined else JStr s)"

lemma map_of_opt_field:
  "map_of (opt_field k v) k' = (if k' = k \<and> opt_js v \<noteq> JUndefined then Some (opt_js v) else None)"
  by (auto simp: opt_field_def opt_js_def split: option.splits)

lemma jget_catalog_row:
  "jget (catalog_row e) ''type'' = JStr (kind_str (de_kind e))"
  "jget (catalog_row e) ''domain'' = JStr (de_domain e)"
  "jget (catalog_row e) ''status'' = JStr (status_str (de_status e))"
  "jget (catalog_row e) ''parent_fqdn'' =
     (if de_kind e = Subdomain then opt_js (de_parentFqdn e) else JUndefined)"
  "jget (catalog_row e) ''status_changed_at'' = opt_js (de_statusChangedAt e)"
  "jget (catalog_row e) ''order_id'' = opt_js (de_orderId e)"
  "jget (catalog_row e) ''parentFqdn'' = JUndefined" "jget (catalog_row e) ''parent'' = JUndefined"
  "jget (catalog_row e) ''statusChangedAt'' = JUndefined" "jget (catalog_row e) ''orderId'' = JUndefined"
  by (simp_all add: catalog_row_def map_of_opt_field map_add_def)

lemma opt_js_back:
  "v \<noteq> Some [] \<Longrightarrow> nonempty_str (coalesce (opt_js v) JUndefined) = v"
  by (auto simp: opt_js_def nonempty_str_def split: option.splits)

lemma stage_catalog_row:
  assumes e: "entry_ok doms e" "meta_ok e"
    and par: "\<forall>p. de_parentFqdn e = Some p \<longrightarrow> p \<noteq> [] \<and> normalizeDomainName (JStr p) = p"
  shows "stage_item (catalog_row e) = [staged_of e]"
proof -
  have parent: "str_opt (normalizeDomainName (coalesce (coalesce
      (if de_kind e = Subdomain then opt_js (de_parentFqdn e) else JUndefined) JUndefined) JUndefined))
      = de_parentFqdn e"
    using e(1) par
    by (auto simp: entry_ok_def opt_js_def str_opt_def normalizeDomainName_def
        split: DomainKind.splits option.splits)
  have kind: "(if kind_str k = ''local'' then Local else if kind_str k = ''fqdn'' then Fqdn
      else if kind_str k = ''subdomain'' then Subdomain else d) = k" for k d
    by (cases k) auto
  have "stage_item (catalog_row e) = stage_node (catalog_row e)"
    by (simp add: stage_item_def catalog_row_def)
  with e parent kind opt_js_back [of "de_statusChangedAt e"] opt_js_back [of "de_orderId e"]
  show ?thesis
    by (simp add: stage_node_def Let_def jget_catalog_row staged_of_def meta_ok_def entry_ok_def)
qed

lemma fqdn_domains_snoc [simp]:
  "fqdn_domains (xs @ [e]) = fqdn_domains xs @ (if de_kind e = Fqdn then [de_domain e] else [])"
  by (simp add: fqdn_domains_def)

lemma set_fqdn_domains: "set (fqdn_domains es) = de_domain ` {e \<in> set es. de_kind e = Fqdn}"
  by (auto simp: fqdn_domains_def)

lemma mk_entry_staged:
  "de_id e = buildDomainEntryId (de_kind e) (de_domain e) (de_parentFqdn e) \<Longrightarrow>
   mk_entry (de_kind e) (de_domain e) (de_parentFqdn e)
     \<lparr>pm_status = Some (de_status e), pm_statusChangedAt = de_statusChangedAt e,
      pm_orderId = de_orderId e\<rparr> = e"
  by (simp add: mk_entry_def)

text \<open>Pushing an entry whose parent has been pushed as an FQDN appends exactly that entry.\<close>

lemma push_staged_of:
  assumes ok: "entry_ok doms e" and fresh: "de_domain e \<notin> de_domain ` set xs"
    and par: "de_kind e = Subdomain \<Longrightarrow> \<exists>p \<in> set (fqdn_domains xs).
      de_parentFqdn e = Some p \<and> p \<noteq> [] \<and> normalizeDomainName (JStr p) = p"
  shows "push_staged (staged_of e) (acc_of xs) = acc_of (xs @ [e])"
proof (cases "de_kind e = Subdomain")
  case True
  then obtain p where p: "p \<in> set (fqdn_domains xs)" "de_parentFqdn e = Some p" "p \<noteq> []"
      "normalizeDomainName (JStr p) = p"
    using par by blast
  have "p \<in> de_domain ` set xs"
    using p(1) by (auto simp: set_fqdn_domains)
  moreover have "staged_parent (staged_of e) = p"
    using p by (simp add: staged_parent_def staged_of_def str_or_else_def)
  ultimately show ?thesis
    using True ok fresh p mk_entry_staged [of e]
    by (simp add: push_staged_def staged_of_def acc_of_def str_opt_def pushEntry.simps [of Subdomain]
        entry_ok_def str_or_else_def set_add_def)
next
  case False
  then have "de_parentFqdn e = None"
    using ok by (cases "de_kind e") (auto simp: entry_ok_def)
  moreover have "de_domain e \<notin> set (fqdn_domains xs)"
    using fresh by (auto simp: set_fqdn_domains)
  ultimately show ?thesis
    using False ok fresh mk_entry_staged [of e]
    by (cases "de_kind e")
      (auto simp: push_staged_def staged_of_def acc_of_def pushEntry_flat Let_def entry_ok_def set_add_def)
qed

text \<open>Every subdomain comes after its parent.\<close>

definition parents_before :: "DomainEntry list \<Rightarrow> bool" where
  "parents_before es \<longleftrightarrow>
     (\<forall>us e vs. es = us @ e # vs \<longrightarrow> de_kind e = Subdomain \<longrightarrow>
        (\<exists>p \<in> set (fqdn_domains us). de_parentFqdn e = Some p \<and> p \<noteq> []
           \<and> normalizeDomainName (JStr p) = p))"

lemma parents_before_snoc:
  assumes "parents_before es"
    and "de_kind e = Subdomain \<Longrightarrow> \<exists>p \<in> set (fqdn_domains es). de_parentFqdn e = Some p \<and> p \<noteq> []
       \<and> normalizeDomainName (JStr p) = p"
  shows "parents_before (es @ [e])"
  unfolding parents_before_def
proof (intro allI impI)
  fix us f vs
  assume split: "es @ [e] = us @ f # vs" and sub: "de_kind f = Subdomain"
  show "\<exists>p \<in> set (fqdn_domains us). de_parentFqdn f = Some p \<and> p \<noteq> [] \<and> normalizeDomainName (JStr p) = p"
  proof (cases vs rule: rev_cases)
    case Nil
    with split assms(2) sub show ?thesis
      by auto
  next
    case (snoc vs' v)
    with split have "es = us @ f # vs'"
      by simp
    with assms(1) sub show ?thesis
      by (auto simp: parents_before_def)
  qed
qed

lemma fold_push_staged_of:
  assumes "catalog_ok (xs @ ys)"
    and "\<And>us e vs. ys = us @ e # vs \<Longrightarrow> de_kind e = Subdomain \<Longrightarrow> \<exists>p \<in> set (fqdn_domains (xs @ us)).
      de_parentFqdn e = Some p \<and> p \<noteq> [] \<and> normalizeDomainName (JStr p) = p"
  shows "fold push_staged (map staged_of ys) (acc_of xs) = acc_of (xs @ ys)"
  using assms
proof (induction ys arbitrary: xs)
  case (Cons e ys)
  have "push_staged (staged_of e) (acc_of xs) = acc_of (xs @ [e])"
    using Cons.prems(1) Cons.prems(2) [of "[]" e ys]
    by (intro push_staged_of [of "de_domain ` set (xs @ e # ys)"]) (auto simp: catalog_ok_def)
  moreover have "fold push_staged (map staged_of ys) (acc_of (xs @ [e])) = acc_of ((xs @ [e]) @ ys)"
  proof (rule Cons.IH)
    fix us f vs
    assume "ys = us @ f # vs" "de_kind f = Subdomain"
    then show "\<exists>p \<in> set (fqdn_domains ((xs @ [e]) @ us)).
        de_parentFqdn f = Some p \<and> p \<noteq> [] \<and> normalizeDomainName (JStr p) = p"
      using Cons.prems(2) [of "e # us" f vs] by simp
  qed (use Cons.prems(1) in simp)
  ultimately show ?case
    by simp
qed simp

lemma sorted_parents_before:
  assumes ok: "catalog_ok es" and sorted: "sorted_wrt (\<lambda>a b. entry_cmp lc a b \<le> 0) es"
    and listed: "parents_listed es"
  shows "parents_before es"
  unfolding parents_before_def
proof (intro allI impI)
  fix us e vs
  assume es: "es = us @ e # vs" and sub: "de_kind e = Subdomain"
  obtain f where f: "f \<in> set es" "de_kind f = Fqdn" "de_parentFqdn e = Some (de_domain f)"
    using listed es sub by (auto simp: parents_listed_def)
  have "f \<notin> set (e # vs)"
    using sorted es f(2) sub by (auto simp: sorted_wrt_append entry_cmp_le_iff)
  with f es have "f \<in> set us"
    by auto
  with f ok show "\<exists>p \<in> set (fqdn_domains us). de_parentFqdn e = Some p \<and> p \<noteq> []
      \<and> normalizeDomainName (JStr p) = p"
    by (auto simp: set_fqdn_domains catalog_ok_def entry_ok_def)
qed

lemma push_plain_listed:
  assumes "d \<in> de_domain ` set es" "normalizeDomainName (JStr d) = d"
    "inferDomainKind d = Subdomain \<Longrightarrow> normalizeDomainName (JStr (parent_part d)) \<in> set (fqdn_domains es)"
  shows "push_staged (plain_staged d) (acc_of es) = acc_of es"
proof (cases "inferDomainKind d = Subdomain")
  case True
  with assms show ?thesis
    by (simp add: push_staged_def plain_staged_def staged_parent_def str_or_else_def acc_of_def
        pushEntry.simps [of Subdomain])
next
  case False
  with assms show ?thesis
    by (simp add: push_staged_def plain_staged_def acc_of_def pushEntry_flat)
qed

text \<open>
  A catalog as it is stored and shown: well-formed, with \<open>localhost\<close>, sorted, and with the parent
  of every subdomain listed as an FQDN. A primary domain fits it when it is empty, or listed and,
  if it reads as a subdomain, a child of a listed FQDN.
\<close>

definition stored_ok :: "(string \<Rightarrow> string \<Rightarrow> int) \<Rightarrow> DomainEntry list \<Rightarrow> bool" where
  "stored_ok lc es \<longleftrightarrow>
     catalog_ok es \<and> DEFAULT_PRIMARY_DOMAIN \<in> de_domain ` set es \<and> (\<forall>e \<in> set es. meta_ok e)
     \<and> sorted_wrt (\<lambda>a b. entry_cmp lc a b \<le> 0) es \<and> parents_listed es"

definition primary_fits :: "DomainEntry list \<Rightarrow> string \<Rightarrow> bool" where
  "primary_fits es d \<longleftrightarrow>
     d = [] \<or> d \<in> de_domain ` set es \<and> (inferDomainKind d = Subdomain \<longrightarrow>
       normalizeDomainName (JStr (parent_part d)) \<in> set (fqdn_domains es))"

text \<open>What the parser has collected after the rows of a stored catalog and its primary domain.\<close>

lemma fold_stored_catalog:
  fixes es :: "DomainEntry list" and prim :: string
  defines "d \<equiv> normalizeDomainName (JStr prim)"
  assumes ok: "catalog_ok es" and meta: "\<forall>e \<in> set es. meta_ok e"
    and parents: "parents_before es"
  shows "fold push_staged (stage_catalog (JObj [(GROUP_VARS_DOMAIN_CATALOG_KEY,
        buildDomainCatalogPayload es), (''DOMAIN_PRIMARY'', JStr prim)])) (acc_of []) =
      (if d = [] then acc_of es else push_staged (plain_staged d) (acc_of es))"
proof -
  let ?data = "JObj [(GROUP_VARS_DOMAIN_CATALOG_KEY, buildDomainCatalogPayload es),
    (''DOMAIN_PRIMARY'', JStr prim)]"
  have before: "\<exists>p \<in> set (fqdn_domains us). de_parentFqdn e = Some p \<and> p \<noteq> []
      \<and> normalizeDomainName (JStr p) = p" if "es = us @ e # vs" "de_kind e = Subdomain" for us e vs
    using parents that by (auto simp: parents_before_def)
  have "stage_item (catalog_row e) = [staged_of e]" if e: "e \<in> set es" for e
  proof -
    obtain us vs where split: "es = us @ e # vs"
      using e by (meson split_list)
    have "\<forall>p. de_parentFqdn e = Some p \<longrightarrow> p \<noteq> [] \<and> normalizeDomainName (JStr p) = p"
      using before [OF split] e ok
      by (cases "de_kind e") (auto simp: catalog_ok_def entry_ok_def)
    with e ok meta show ?thesis
      by (intro stage_catalog_row) (auto simp: catalog_ok_def)
  qed
  then have rows: "concat (map (stage_item \<circ> catalog_row) es) = map staged_of es"
    by (induction es) auto
  have prim_read: "normalizeDomainName (JStr (readPrimaryDomainFromGroupVars ?data)) = d"
    by (simp add: readPrimaryDomainFromGroupVars_def GROUP_VARS_DOMAIN_CATALOG_KEY_def d_def
        normalizeDomainName_str)
  have "stage_catalog ?data = map staged_of es @ (if d = [] then [] else [plain_staged d])"
    unfolding stage_catalog_def Let_def prim_read
    by (simp add: buildDomainCatalogPayload_def arr_items_def rows)
  moreover have "fold push_staged (map staged_of es) (acc_of []) = acc_of es"
    using fold_push_staged_of [of "[]" es] ok before by simp
  ultimately show ?thesis
    by simp
qed

lemma stored_parents_before: "stored_ok lc es \<Longrightarrow> parents_before es"
  unfolding stored_ok_def by (blast intro: sorted_parents_before)

text \<open>Reading back any written catalog whose parents come first sorts it.\<close>

lemma reread_sorts:
  assumes es: "catalog_ok es" "DEFAULT_PRIMARY_DOMAIN \<in> de_domain ` set es" "\<forall>e \<in> set es. meta_ok e"
      "parents_before es"
    and prim: "primary_fits es (normalizeDomainName (JStr prim))"
  shows "parseDomainCatalogFromGroupVars lc
      (JObj [(GROUP_VARS_DOMAIN_CATALOG_KEY, buildDomainCatalogPayload es), (''DOMAIN_PRIMARY'', JStr prim)])
    = js_sort (entry_cmp lc) es"
proof -
  let ?data = "JObj [(GROUP_VARS_DOMAIN_CATALOG_KEY, buildDomainCatalogPayload es),
    (''DOMAIN_PRIMARY'', JStr prim)]" and ?d = "normalizeDomainName (JStr prim)"
  have "push_staged (plain_staged ?d) (acc_of es) = acc_of es" if "?d \<noteq> []"
    using that prim by (intro push_plain_listed) (auto simp: primary_fits_def)
  then have "fold push_staged (stage_catalog ?data) (acc_of []) = acc_of es"
    using es fold_stored_catalog [of es prim] by simp
  then have "collect_entries (stage_catalog ?data) = es"
    using es(2) by (simp add: collect_entries_def acc_of_def fqdn_domains_def)
  then show ?thesis
    by (simp add: parseDomainCatalogFromGroupVars_def)
qed

lemma reread_catalog:
  assumes es: "stored_ok lc es" and prim: "primary_fits es (normalizeDomainName (JStr prim))"
  shows "parseDomainCatalogFromGroupVars lc
      (JObj [(GROUP_VARS_DOMAIN_CATALOG_KEY, buildDomainCatalogPayload es), (''DOMAIN_PRIMARY'', JStr prim)])
    = es"
  using es prim reread_sorts [of es prim lc] stored_parents_before [OF es]
  by (simp add: stored_ok_def js_sort_sorted_id)

text \<open>
  C3: writing a stored catalog and reading it back gives the same catalog, entry for entry
  (kind, parent, status, order and id included), when the primary domain fits it. Without the
  two provisos of a stored catalog and a fitting primary domain (parents listed as FQDNs) the
  round trip changes the catalog: the added parent and the demoted subdomain are stated below.
\<close>

theorem catalog_roundtrip:
  assumes "stored_ok lc es" and "primary_fits es (normalizeDomainName (JStr prim))"
  shows "parseDomainCatalogFromGroupVars lc
      (JObj [(GROUP_VARS_DOMAIN_CATALOG_KEY, buildDomainCatalogPayload es), (''DOMAIN_PRIMARY'', JStr prim)])
    = es"
  using assms by (rule reread_catalog)

text \<open>A small catalog the witnesses use.\<close>

definition demo_fqdn :: DomainEntry where
  "demo_fqdn = mk_entry Fqdn ''example.org'' None no_meta"

definition demo_sub :: DomainEntry where
  "demo_sub = (mk_entry Subdomain ''shop.example.org'' (Some ''example.org'') no_meta)
     \<lparr>de_status := Ordered, de_orderId := Some ''o-1''\<rparr>"

definition demo_catalog :: "DomainEntry list" where
  "demo_catalog = [localhost_entry, demo_fqdn, demo_sub]"

definition demo_group_vars :: "DomainEntry list \<Rightarrow> string \<Rightarrow> jsval" where
  "demo_group_vars es prim =
     JObj [(GROUP_VARS_DOMAIN_CATALOG_KEY, buildDomainCatalogPayload es), (''DOMAIN_PRIMARY'', JStr prim)]"

lemma demo_catalog_ok: "stored_ok cu_cmp demo_catalog"
  by code_simp

theorem parseDomainCatalog_sorted_witness:
  "collation cu_cmp \<and> sorted_wrt (\<lambda>a b. typeOrder (de_kind a) < typeOrder (de_kind b)
           \<or> (de_kind a = de_kind b \<and> cu_cmp (de_domain a) (de_domain b) \<le> 0))
           (parseDomainCatalogFromGroupVars cu_cmp (demo_group_vars [demo_sub, demo_fqdn] ''localhost''))"
  using parseDomainCatalog_sorted [OF code_unit.collation_axioms] code_unit.collation_axioms by blast

theorem catalog_roundtrip_witness:
  "parseDomainCatalogFromGroupVars cu_cmp
     (JObj [(GROUP_VARS_DOMAIN_CATALOG_KEY, buildDomainCatalogPayload demo_catalog),
        (''DOMAIN_PRIMARY'', JStr '' Shop.Example.org '')]) = demo_catalog"
proof (rule catalog_roundtrip [OF demo_catalog_ok])
  show "primary_fits demo_catalog (normalizeDomainName (JStr '' Shop.Example.org ''))"
    by code_simp
qed

text \<open>
  Reading a catalog back with a primary domain of three or more labels whose parent is not
  listed adds that parent as a new active FQDN nobody entered, even when the primary domain
  itself is listed as an FQDN.
\<close>

theorem primary_adds_parent:
  fixes es :: "DomainEntry list" and prim :: string
  defines "d \<equiv> normalizeDomainName (JStr prim)"
  defines "q \<equiv> normalizeDomainName (JStr (parent_part d))"
  assumes es: "stored_ok lc es"
    and prim: "d \<in> de_domain ` set es" "inferDomainKind d = Subdomain"
    and parent: "isLikelyFqdn q" "q \<notin> de_domain ` set es"
  shows "parseDomainCatalogFromGroupVars lc
      (JObj [(GROUP_VARS_DOMAIN_CATALOG_KEY, buildDomainCatalogPayload es), (''DOMAIN_PRIMARY'', JStr prim)])
    = js_sort (entry_cmp lc) (es @ [mk_entry Fqdn q None no_meta])"
proof -
  let ?data = "JObj [(GROUP_VARS_DOMAIN_CATALOG_KEY, buildDomainCatalogPayload es),
    (''DOMAIN_PRIMARY'', JStr prim)]" and ?new = "mk_entry Fqdn q None no_meta"
  have qq: "normalizeDomainName (JStr q) = q" "q \<noteq> []" and dd: "normalizeDomainName (JStr d) = d"
    using isLikelyFqdn_dot [OF parent(1)] by (auto simp: q_def d_def)
  have "d \<noteq> []"
    using prim(1) es by (auto simp: stored_ok_def catalog_ok_def entry_ok_def)
  moreover have "q \<notin> set (fqdn_domains es)"
    using parent(2) by (auto simp: set_fqdn_domains)
  ultimately have "push_staged (plain_staged d) (acc_of es) = acc_of (es @ [?new])"
    using prim parent qq dd
    by (simp add: push_staged_def plain_staged_def staged_parent_def str_or_else_def acc_of_def
        q_def [symmetric] pushEntry.simps [of Subdomain] pushEntry_flat set_add_def)
  then have "fold push_staged (stage_catalog ?data) (acc_of []) = acc_of (es @ [?new])"
    using es fold_stored_catalog [of es prim] sorted_parents_before [of es lc] \<open>d \<noteq> []\<close>
    by (simp add: d_def stored_ok_def)
  then have "collect_entries (stage_catalog ?data) = es @ [?new]"
    using es by (simp add: collect_entries_def acc_of_def fqdn_domains_def stored_ok_def)
  then show ?thesis
    by (simp add: parseDomainCatalogFromGroupVars_def)
qed

theorem primary_adds_parent_witness:
  "parseDomainCatalogFromGroupVars cu_cmp
     (JObj [(GROUP_VARS_DOMAIN_CATALOG_KEY, buildDomainCatalogPayload
               [localhost_entry, mk_entry Fqdn ''shop.example.org'' None no_meta]),
        (''DOMAIN_PRIMARY'', JStr ''shop.example.org'')])
   = js_sort (entry_cmp cu_cmp) ([localhost_entry, mk_entry Fqdn ''shop.example.org'' None no_meta]
       @ [mk_entry Fqdn (normalizeDomainName (JStr (parent_part (normalizeDomainName
             (JStr ''shop.example.org''))))) None no_meta])"
  by (rule primary_adds_parent; code_simp)

definition nested_group_vars :: jsval where
  "nested_group_vars =
     JObj [(GROUP_VARS_DOMAIN_CATALOG_KEY, JArr
       [JObj [(''type'', JStr ''subdomain''), (''domain'', JStr ''b.example.org''),
              (''status'', JStr ''reserved''), (''order_id'', JStr ''o-7'')],
        JObj [(''type'', JStr ''subdomain''), (''domain'', JStr ''a.b.example.org'')]])]"

text \<open>
  A subdomain whose parent is itself a subdomain does not survive a save. Read from the
  group variables, \<open>b.example.org\<close> is a reserved subdomain with an order and \<open>a.b.example.org\<close>
  is its child; written and read again, \<open>b.example.org\<close> has become an active FQDN and its order
  is lost, because the sorted catalog lists the child first.
\<close>

theorem nested_subdomain_demoted:
  "(let es = parseDomainCatalogFromGroupVars cu_cmp nested_group_vars;
        again = parseDomainCatalogFromGroupVars cu_cmp (demo_group_vars es ''localhost'');
        view = (\<lambda>es. map (\<lambda>e. (de_kind e, de_status e, de_orderId e))
                  (filter (\<lambda>e. de_domain e = ''b.example.org'') es))
    in view es = [(Subdomain, Reserved, Some ''o-7'')] \<and> view again = [(Fqdn, Active, None)])"
  by code_simp

subsection \<open>The primary domain is a listed domain or none\<close>

lemma map_of_domain_lookup:
  "k \<noteq> [] \<Longrightarrow> map_of (domain_lookup entries) k =
     map_option de_domain (find (\<lambda>e. normalizeDomainName (JStr (de_domain e)) = k) entries)"
proof (induction entries rule: rev_induct)
  case (snoc e entries)
  have "find P (xs @ [x]) = (case find P xs of None \<Rightarrow> if P x then Some x else None | Some y \<Rightarrow> Some y)"
    for P :: "DomainEntry \<Rightarrow> bool" and xs x
    by (induction xs) auto
  with snoc show ?case
    by (auto simp: domain_lookup_def Let_def split: option.splits)
qed (simp add: domain_lookup_def)

lemma selection_listed:
  assumes "catalog_ok es"
  shows "normalizePrimaryDomainSelection value es =
    (if normalizeDomainName value \<in> de_domain ` set es then normalizeDomainName value else [])"
proof -
  let ?d = "normalizeDomainName value"
  have norm: "normalizeDomainName (JStr (de_domain e)) = de_domain e \<and> de_domain e \<noteq> []" if "e \<in> set es" for e
    using assms that by (auto simp: catalog_ok_def entry_ok_def)
  show ?thesis
  proof (cases "find (\<lambda>e. normalizeDomainName (JStr (de_domain e)) = ?d) es")
    case None
    then have "?d \<notin> de_domain ` set es"
      using norm by (auto simp: find_None_iff)
    with None show ?thesis
      by (simp add: normalizePrimaryDomainSelection_def map_of_domain_lookup Let_def)
  next
    case (Some e)
    then have "e \<in> set es" "normalizeDomainName (JStr (de_domain e)) = ?d"
      by (auto simp: find_Some_iff)
    with norm [of e] Some show ?thesis
      by (auto simp: normalizePrimaryDomainSelection_def map_of_domain_lookup Let_def)
  qed
qed

text \<open>
  On the catalog read from any group variables, the selection of a primary domain is the
  normalised value if that domain is listed and empty otherwise; it never falls back to another
  domain.
\<close>

theorem primary_selection_listed:
  "normalizePrimaryDomainSelection value (parseDomainCatalogFromGroupVars lc data) =
    (if normalizeDomainName value \<in> de_domain ` set (parseDomainCatalogFromGroupVars lc data)
     then normalizeDomainName value else [])"
  by (rule selection_listed) (simp add: parsed_catalog_ok)

end
