(* ===== verification/DeviceMeta.thy ===== *)
theory DeviceMeta
  imports DomainCatalog
begin

text \<open>
  The servers (devices) of a workspace and their visual metadata: the server record of
  \<open>deployment-credentials/types.ts\<close>, its normalisation in \<open>lib/device_meta.js\<close> and the colour and
  emoji helpers of \<open>deployment-credentials/device-visuals.ts\<close>. \<open>Math.random()\<close> is a sequence of
  draws, each a number \<open>m < 2^53\<close> standing for \<open>m / 2^53\<close>. Emoji lie outside the code units of
  the string model; their literals are opaque tokens written as code points.
\<close>

subsection \<open>Servers\<close>

record ServerState =
  sv_alias :: string
  sv_description :: string
  sv_primaryDomain :: string
  sv_requirementServerType :: string
  sv_requirementStorageGb :: string
  sv_requirementLocation :: string
  sv_host :: string
  sv_port :: string
  sv_user :: string
  sv_color :: string
  sv_logoEmoji :: string
  sv_authMethod :: string
  sv_password :: string
  sv_privateKey :: string
  sv_publicKey :: string
  sv_keyAlgorithm :: string
  sv_keyPassphrase :: string

definition hex_char_p :: "char \<Rightarrow> bool" where
  "hex_char_p c \<longleftrightarrow> is_digit c \<or> (97 \<le> code c \<and> code c \<le> 102) \<or> (65 \<le> code c \<and> code c \<le> 70)"

definition hex_upper :: "char \<Rightarrow> char" where
  "hex_upper c = (if is_az c then char_of (code c - 32) else c)"

definition six_hex :: "string \<Rightarrow> bool" where
  "six_hex s \<longleftrightarrow> length s = 6 \<and> list_all hex_char_p s"

text \<open>The colour of persisted metadata may lack its leading hash sign.\<close>

definition normalizeMetaColor :: "string \<Rightarrow> string option" where
  "normalizeMetaColor value =
     (let raw = trim value;
          digits = (if starts_with raw ''#'' then drop 1 raw else raw)
      in if six_hex digits then Some (''#'' @ map hex_upper digits) else None)"

definition normalizeDeviceEmoji :: "string \<Rightarrow> string option" where
  "normalizeDeviceEmoji value = str_opt (trim value)"

definition normalizeRequirementServerType :: "string \<Rightarrow> string option" where
  "normalizeRequirementServerType value = str_opt (to_lower (trim value))"

definition normalizeRequirementStorageGb :: "string \<Rightarrow> string option" where
  "normalizeRequirementStorageGb value =
     (let raw = trim value in
      if raw = [] then None
      else case num_floor (str_num raw) of Dec m _ \<Rightarrow> Some (int_str (max 0 m)) | _ \<Rightarrow> None)"

definition normalizeRequirementLocation :: "string \<Rightarrow> string option" where
  "normalizeRequirementLocation value = str_opt (trim value)"

definition opt_else :: "string option \<Rightarrow> string \<Rightarrow> string" where
  "opt_else v d = (case v of None \<Rightarrow> d | Some s \<Rightarrow> s)"

definition createServerPlaceholder :: "string \<Rightarrow> ServerState" where
  "createServerPlaceholder alias =
     \<lparr>sv_alias = trim alias, sv_description = [], sv_primaryDomain = DEFAULT_PRIMARY_DOMAIN,
      sv_requirementServerType = ''vps'', sv_requirementStorageGb = ''200'',
      sv_requirementLocation = ''Germany'', sv_host = [], sv_port = ''22'', sv_user = ''root'',
      sv_color = [], sv_logoEmoji = [], sv_authMethod = ''password'', sv_password = [],
      sv_privateKey = [], sv_publicKey = [], sv_keyAlgorithm = ''ed25519'', sv_keyPassphrase = []\<rparr>"

definition normalize_meta :: "ServerState \<Rightarrow> ServerState" where
  "normalize_meta server = server\<lparr>
     sv_primaryDomain := to_lower (trim (sv_primaryDomain server)),
     sv_requirementServerType :=
       opt_else (normalizeRequirementServerType (sv_requirementServerType server)) ''vps'',
     sv_requirementStorageGb :=
       opt_else (normalizeRequirementStorageGb (sv_requirementStorageGb server)) ''200'',
     sv_requirementLocation :=
       opt_else (normalizeRequirementLocation (sv_requirementLocation server)) ''Germany'',
     sv_color := opt_else (normalizeMetaColor (sv_color server)) [],
     sv_logoEmoji := opt_else (normalizeDeviceEmoji (sv_logoEmoji server)) []\<rparr>"

definition normalizePersistedDeviceMeta :: "ServerState list \<Rightarrow> ServerState list" where
  "normalizePersistedDeviceMeta servers = map normalize_meta servers"

lemma alias_normalize_meta [simp]: "sv_alias (normalize_meta s) = sv_alias s"
  by (simp add: normalize_meta_def)

lemma aliases_normalizePersisted [simp]:
  "map sv_alias (normalizePersistedDeviceMeta servers) = map sv_alias servers"
  by (simp add: normalizePersistedDeviceMeta_def)

lemma primaryDomain_normalize_meta [simp]:
  "sv_primaryDomain (normalize_meta s) = normalizeDomainName (JStr (sv_primaryDomain s))"
  by (simp add: normalize_meta_def normalizeDomainName_str)

subsection \<open>Colours\<close>

definition DEVICE_BLUE_DEFAULTS :: "string list" where
  "DEVICE_BLUE_DEFAULTS =
     [''#89CFF0'', ''#87CEEB'', ''#7EC8E3'', ''#76BDEB'', ''#6CB4EE'', ''#5DADE2'', ''#4FA6E7'',
      ''#4A90E2'', ''#9FD3F8'', ''#A7D8FF'', ''#8BCBFF'', ''#B2E4FF'']"

definition normalizeDeviceColor :: "string \<Rightarrow> string option" where
  "normalizeDeviceColor value =
     (let raw = trim value in
      if starts_with raw ''#'' \<and> six_hex (drop 1 raw) then Some (''#'' @ map hex_upper (drop 1 raw))
      else None)"

definition toColorSet :: "string list \<Rightarrow> string list" where
  "toColorSet values =
     foldl (\<lambda>out value. case normalizeDeviceColor value of None \<Rightarrow> out | Some c \<Rightarrow> set_add c out) [] values"

definition two_53 :: nat where
  "two_53 = 2 ^ 53"

definition randomItem :: "nat \<Rightarrow> 'a list \<Rightarrow> 'a" where
  "randomItem m items = items ! (m * length items div two_53)"

definition hex_digit_char :: "nat \<Rightarrow> char" where
  "hex_digit_char n = (if n < 10 then char_of (48 + n) else char_of (55 + n))"

fun hex_digits :: "nat \<Rightarrow> string" where
  "hex_digits n = (if n < 16 then [hex_digit_char n] else hex_digits (n div 16) @ [hex_digit_char (n mod 16)])"

declare hex_digits.simps [simp del]

text \<open>\<open>toString(16).padStart(2, "0")\<close>, in upper case.\<close>

definition hex_byte :: "nat \<Rightarrow> string" where
  "hex_byte n = replicate (2 - length (hex_digits n)) (CHR ''0'') @ hex_digits n"

definition randomBlueColor :: "nat \<Rightarrow> nat \<Rightarrow> nat \<Rightarrow> string" where
  "randomBlueColor r1 r2 r3 =
     (let red = 110 + r1 * 85 div two_53; green = 190 + r2 * 55 div two_53;
          blue = 225 + r3 * 31 div two_53
      in ''#'' @ hex_byte red @ hex_byte green @ hex_byte blue)"

text \<open>The retry loop draws at most \<open>n\<close> candidates, from position \<open>i\<close> of the draws on.\<close>

fun pick_blue :: "nat \<Rightarrow> (nat \<Rightarrow> nat) \<Rightarrow> nat \<Rightarrow> string list \<Rightarrow> string" where
  "pick_blue 0 draw i used = randomBlueColor (draw i) (draw (i + 1)) (draw (i + 2))"
| "pick_blue (Suc n) draw i used =
     (let candidate = randomBlueColor (draw i) (draw (i + 1)) (draw (i + 2))
      in if candidate \<in> set used then pick_blue n draw (i + 3) used else candidate)"

definition pickUniqueDeviceColor :: "(nat \<Rightarrow> nat) \<Rightarrow> string list \<Rightarrow> string" where
  "pickUniqueDeviceColor draw usedColors =
     (let used = toColorSet usedColors;
          available = filter (\<lambda>color. color \<notin> set used) DEVICE_BLUE_DEFAULTS
      in if available \<noteq> [] then randomItem (draw 0) available else pick_blue 64 draw 0 used)"

definition clamp01 :: "num \<Rightarrow> num" where
  "clamp01 alpha =
     (case alpha of Dec m k \<Rightarrow> if m < 0 then Dec 0 0 else if m > 10 ^ k then Dec 1 0 else Dec m k
      | _ \<Rightarrow> Dec 1 0)"

definition hex_pair :: "string \<Rightarrow> nat" where
  "hex_pair s = (case radix_val 16 0 s of None \<Rightarrow> 0 | Some n \<Rightarrow> n)"

definition hexToRgba :: "string \<Rightarrow> num \<Rightarrow> string option" where
  "hexToRgba value alpha =
     (case normalizeDeviceColor value of None \<Rightarrow> None
      | Some color \<Rightarrow>
          Some (''rgba('' @ dec_digits (hex_pair (take 2 (drop 1 color))) @ '', ''
            @ dec_digits (hex_pair (take 2 (drop 3 color))) @ '', ''
            @ dec_digits (hex_pair (take 2 (drop 5 color))) @ '', '' @ num_str (clamp01 alpha) @ '')''))"

subsection \<open>Emoji\<close>

definition DEVICE_DEFAULT_EMOJIS :: "string list" where
  "DEVICE_DEFAULT_EMOJIS =
     [''U+1F4BB'', ''U+1F5A5 U+FE0F'', ''U+1F5A7'', ''U+1F5A8 U+FE0F'', ''U+1F5C4 U+FE0F'', ''U+1F4BE'',
      ''U+1F4BF'', ''U+1F4C0'', ''U+2699 U+FE0F'', ''U+1F50C'', ''U+1F50B'', ''U+1F6DC'']"

definition EXTRA_DEVICE_EMOJIS :: "string list" where
  "EXTRA_DEVICE_EMOJIS =
     [''U+1F9F0'', ''U+1F6F0 U+FE0F'', ''U+1F4E1'', ''U+1F527'', ''U+1F9EF'', ''U+1F9EA'',
      ''U+1F6E1 U+FE0F'', ''U+1F9E0'', ''U+1F9F1'', ''U+1F9F2'', ''U+1F310'', ''U+2601 U+FE0F'',
      ''U+26A1'', ''U+1F6F0'', ''U+1F52D'', ''U+1F9ED'', ''U+1F4E6'', ''U+1F4C1'', ''U+1F9F7'',
      ''U+1FAAB'']"

definition DEFAULT_DEVICE_EMOJI :: string where
  "DEFAULT_DEVICE_EMOJI = ''U+1F4BB''"

definition toEmojiSet :: "string list \<Rightarrow> string list" where
  "toEmojiSet values =
     foldl (\<lambda>out value. case normalizeDeviceEmoji value of None \<Rightarrow> out | Some e \<Rightarrow> set_add e out) [] values"

definition pickUniqueDeviceEmoji :: "(nat \<Rightarrow> nat) \<Rightarrow> string list \<Rightarrow> string" where
  "pickUniqueDeviceEmoji draw usedEmojis =
     (let used = toEmojiSet usedEmojis in
      if DEFAULT_DEVICE_EMOJI \<notin> set used then DEFAULT_DEVICE_EMOJI
      else
        let available = filter (\<lambda>emoji. emoji \<notin> set used) DEVICE_DEFAULT_EMOJIS in
        if available \<noteq> [] then randomItem (draw 0) available
        else
          let extraAvailable = filter (\<lambda>emoji. emoji \<notin> set used) EXTRA_DEVICE_EMOJIS in
          if extraAvailable \<noteq> [] then randomItem (draw 0) extraAvailable
          else randomItem (draw 0) (DEVICE_DEFAULT_EMOJIS @ EXTRA_DEVICE_EMOJIS))"

subsection \<open>What the pickers promise\<close>

lemma randomItem_in:
  assumes "items \<noteq> []" "m < two_53"
  shows "randomItem m items \<in> set items"
proof -
  have "m * length items < two_53 * length items"
    using assms by simp
  then have "m * length items div two_53 < length items"
    by (simp add: less_mult_imp_div_less mult.commute)
  then show ?thesis
    by (simp add: randomItem_def)
qed

definition device_color :: "string \<Rightarrow> bool" where
  "device_color c \<longleftrightarrow> normalizeDeviceColor c = Some c"

lemma hex_upper_idem [simp]: "hex_char_p c \<Longrightarrow> hex_upper (hex_upper c) = hex_upper c"
  by (auto simp: hex_upper_def is_az_def hex_char_p_def is_digit_def)

lemma hex_char_upper [simp]: "hex_char_p c \<Longrightarrow> hex_char_p (hex_upper c)"
  by (auto simp: hex_upper_def is_az_def hex_char_p_def is_digit_def)

lemma hex_char_not_ws: "hex_char_p c \<Longrightarrow> \<not> ws_char c"
  by (auto simp: hex_char_p_def char_class_defs)

lemma device_color_hash:
  assumes "six_hex s" "map hex_upper s = s"
  shows "device_color (''#'' @ s)"
proof -
  have "trimmed (''#'' @ s)"
    using assms(1) hex_char_not_ws
    by (intro no_ws_trimmed) (auto simp: six_hex_def list_all_iff ws_char_def code_def)
  with assms show ?thesis
    by (simp add: device_color_def normalizeDeviceColor_def starts_with_def)
qed

lemma normalizeDeviceColor_color:
  assumes "normalizeDeviceColor v = Some c"
  shows "device_color c"
proof -
  from assms obtain s where "six_hex s" "c = ''#'' @ map hex_upper s"
    by (auto simp: normalizeDeviceColor_def Let_def split: if_splits)
  moreover from this have "six_hex (map hex_upper s)" "map hex_upper (map hex_upper s) = map hex_upper s"
    by (auto simp: six_hex_def list_all_iff)
  ultimately show ?thesis
    using device_color_hash [of "map hex_upper s"] by simp
qed

lemma hex_digits_small: "16 \<le> n \<Longrightarrow> n < 256 \<Longrightarrow> hex_digits n = [hex_digit_char (n div 16), hex_digit_char (n mod 16)]"
  by (subst hex_digits.simps, subst hex_digits.simps) auto

lemma hex_digit_char_upper:
  "n < 16 \<Longrightarrow> hex_char_p (hex_digit_char n) \<and> hex_upper (hex_digit_char n) = hex_digit_char n"
  by (auto simp: hex_digit_char_def hex_char_p_def hex_upper_def is_az_def is_digit_def)

lemma draw_below: "m < two_53 \<Longrightarrow> 0 < k \<Longrightarrow> m * k div two_53 < k"
  by (simp add: less_mult_imp_div_less mult.commute)

lemma randomBlueColor_color:
  assumes "r1 < two_53" "r2 < two_53" "r3 < two_53"
  shows "device_color (randomBlueColor r1 r2 r3)"
proof -
  have byte: "length (hex_byte n) = 2 \<and> list_all hex_char_p (hex_byte n) \<and> map hex_upper (hex_byte n) = hex_byte n"
    if "16 \<le> n" "n < 256" for n
    using that hex_digit_char_upper [of "n div 16"] hex_digit_char_upper [of "n mod 16"]
    by (auto simp: hex_byte_def hex_digits_small)
  have "r1 * 85 div two_53 < 85" "r2 * 55 div two_53 < 55" "r3 * 31 div two_53 < 31"
    using assms by (auto intro: draw_below)
  with byte show ?thesis
    unfolding randomBlueColor_def Let_def by (intro device_color_hash) (simp_all add: six_hex_def)
qed

lemma pick_blue_color: "\<forall>i. draw i < two_53 \<Longrightarrow> device_color (pick_blue n draw i used)"
  by (induction n arbitrary: i) (auto simp: Let_def randomBlueColor_color)

lemma set_toColorSet:
  "set (toColorSet vs) = {c. \<exists>v \<in> set vs. normalizeDeviceColor v = Some c}"
  unfolding toColorSet_def
  by (induction vs rule: rev_induct) (auto split: option.splits)

lemma device_color_defaults: "\<forall>c \<in> set DEVICE_BLUE_DEFAULTS. device_color c"
  by code_simp

text \<open>
  Whatever colours are used and whatever is drawn, the picked colour is a canonical device
  colour (a hash sign and six upper-case hexadecimal digits); and while a palette colour is
  unused, the picked colour is a palette colour that no server uses, in any spelling.
\<close>

theorem pickUniqueDeviceColor_unused:
  assumes draws: "\<forall>i. draw i < two_53"
  shows "device_color (pickUniqueDeviceColor draw usedColors)
    \<and> ((\<exists>c \<in> set DEVICE_BLUE_DEFAULTS. \<forall>v \<in> set usedColors. normalizeDeviceColor v \<noteq> Some c) \<longrightarrow>
       pickUniqueDeviceColor draw usedColors \<in> set DEVICE_BLUE_DEFAULTS
       \<and> (\<forall>v \<in> set usedColors. normalizeDeviceColor v \<noteq> Some (pickUniqueDeviceColor draw usedColors)))"
proof (cases "filter (\<lambda>color. color \<notin> set (toColorSet usedColors)) DEVICE_BLUE_DEFAULTS = []")
  case True
  then have "\<forall>c \<in> set DEVICE_BLUE_DEFAULTS. \<exists>v \<in> set usedColors. normalizeDeviceColor v = Some c"
    by (auto simp: filter_empty_conv set_toColorSet)
  with True draws show ?thesis
    by (auto simp: pickUniqueDeviceColor_def pick_blue_color)
next
  case False
  then have "pickUniqueDeviceColor draw usedColors
      \<in> set (filter (\<lambda>color. color \<notin> set (toColorSet usedColors)) DEVICE_BLUE_DEFAULTS)"
    using draws randomItem_in [OF False, of "draw 0"] by (simp add: pickUniqueDeviceColor_def)
  then show ?thesis
    using device_color_defaults by (auto simp: set_toColorSet)
qed

theorem pickUniqueDeviceColor_unused_witness:
  "device_color (pickUniqueDeviceColor (\<lambda>i. 0) [''#89cff0''])
    \<and> pickUniqueDeviceColor (\<lambda>i. 0) [''#89cff0''] \<in> set DEVICE_BLUE_DEFAULTS
    \<and> normalizeDeviceColor ''#89cff0'' \<noteq> Some (pickUniqueDeviceColor (\<lambda>i. 0) [''#89cff0''])"
proof -
  have "\<exists>c \<in> set DEVICE_BLUE_DEFAULTS. \<forall>v \<in> set [''#89cff0'']. normalizeDeviceColor v \<noteq> Some c"
    by code_simp
  with pickUniqueDeviceColor_unused [of "\<lambda>i. 0" "[''#89cff0'']"] show ?thesis
    by (simp add: two_53_def)
qed

end
