(* ===== verification/DomainState.thy ===== *)
theory DomainState
  imports DeviceMeta
begin

text \<open>
  The domain panel of a workspace (\<open>deployment-workspace/useWorkspaceDomainLogic.ts\<close>,
  \<open>useWorkspaceDomainPopup.ts\<close>, \<open>useDetachServerDomain.ts\<close>, \<open>helpers.ts\<close> for the YAML mapping).
  The React state the hooks read and set is one record; a callback is a function from state to
  state. An asynchronous callback is split at its \<open>await\<close>: the part before it computes a job from
  the state it captured, and the part after it applies the outcome to the state found then.
  \<open>ds_requests\<close> logs the requests that store a server's primary domain (alias and domain, no domain
  for a detached server); they are sent and not waited for. The
  YAML library is the parameter \<open>yaml\<close> (\<open>None\<close> when parsing throws) and a server answer is a value.
\<close>

subsection \<open>State\<close>

record fqdn_check =
  fc_available :: bool
  fc_note :: string

record domain_state =
  ds_workspaceId :: "string option"
  ds_servers :: "ServerState list"
  ds_workspacePrimaryDomain :: string
  ds_primaryDomainDraft :: string
  ds_modalError :: "string option"
  ds_modalSaving :: bool
  ds_entries :: "DomainEntry list"
  ds_popupOpen :: bool
  ds_popupType :: DomainKind
  ds_popupFqdnValue :: string
  ds_popupError :: "string option"
  ds_popupCheckBusy :: bool
  ds_popupCheckResult :: "fqdn_check option"
  ds_popupLocalValue :: string
  ds_popupSubLabel :: string
  ds_popupParentFqdn :: string
  ds_popupPrompt :: "string option"
  ds_popupTargetAlias :: "string option"
  ds_requests :: "(string \<times> string option) list"

subsection \<open>Group variables on the server\<close>

datatype reply = Rejected string | Status nat | OkBody jsval

definition GROUP_VARS_ALL_PATH :: string where
  "GROUP_VARS_ALL_PATH = ''group_vars/all.yml''"

definition parseYamlMapping :: "(string \<Rightarrow> jsval option) \<Rightarrow> string \<Rightarrow> jsval option" where
  "parseYamlMapping yaml content =
     (let trimmed = trim content in
      if trimmed = [] then Some (JObj [])
      else case yaml trimmed of None \<Rightarrow> None
           | Some parsed \<Rightarrow> Some (if is_obj parsed then JObj (obj_fields parsed) else JObj []))"

definition readGroupVarsAll :: "(string \<Rightarrow> jsval option) \<Rightarrow> reply \<Rightarrow> string + jsval" where
  "readGroupVarsAll yaml res =
     (case res of
        Rejected msg \<Rightarrow> Inl msg
      | Status n \<Rightarrow>
          if n = 404 then Inr (JObj [])
          else Inl (''Failed to read '' @ GROUP_VARS_ALL_PATH @ '': HTTP '' @ dec_digits n)
      | OkBody data \<Rightarrow>
          (case parseYamlMapping yaml (str_nn (jget data ''content'')) of
             None \<Rightarrow> Inl (GROUP_VARS_ALL_PATH @ '' is not valid YAML.'')
           | Some m \<Rightarrow> Inr m))"

definition writeGroupVarsAll :: "reply \<Rightarrow> string + unit" where
  "writeGroupVarsAll res =
     (case res of
        Rejected msg \<Rightarrow> Inl msg
      | Status n \<Rightarrow> Inl (''Failed to write '' @ GROUP_VARS_ALL_PATH @ '': HTTP '' @ dec_digits n)
      | OkBody _ \<Rightarrow> Inr ())"

subsection \<open>Requests\<close>

definition has_workspace :: "domain_state \<Rightarrow> bool" where
  "has_workspace st \<longleftrightarrow> ds_workspaceId st \<noteq> None \<and> ds_workspaceId st \<noteq> Some []"

definition persistServerPrimaryDomain :: "string \<Rightarrow> string option \<Rightarrow> domain_state \<Rightarrow> domain_state" where
  "persistServerPrimaryDomain alias primaryDomain st =
     st\<lparr>ds_requests := ds_requests st @ [(alias, primaryDomain)]\<rparr>"

definition persistPrimaryDomainForAlias :: "string \<Rightarrow> string \<Rightarrow> domain_state \<Rightarrow> domain_state" where
  "persistPrimaryDomainForAlias alias primaryDomain st =
     (let targetAlias = trim alias in
      if \<not> has_workspace st \<or> targetAlias = [] then st
      else persistServerPrimaryDomain targetAlias
             (Some (normalizePrimaryDomainSelection (JStr primaryDomain) (ds_entries st))) st)"

text \<open>
  The answer of an HTTP call: no connection, an error status with what reading its body as JSON
  and then as text gives (reading as text may throw, the body having been consumed), or success
  with what reading its JSON body gives.
\<close>

datatype http_reply =
  NetError string
| HttpError nat "jsval option" "string + string"
| HttpOk "string + jsval"

definition response_detail :: "nat \<Rightarrow> jsval option \<Rightarrow> string + string \<Rightarrow> string + string" where
  "response_detail status json_body text_body =
     (let detail = ''HTTP '' @ dec_digits status in
      case json_body of
        Some data \<Rightarrow>
          (case jget data ''detail'' of
             JStr s \<Rightarrow> Inr (if trim s \<noteq> [] then trim s else detail)
           | _ \<Rightarrow> Inr detail)
      | None \<Rightarrow>
          (case text_body of
             Inl thrown \<Rightarrow> Inl thrown
           | Inr text \<Rightarrow> Inr (if trim text \<noteq> [] then trim text else detail)))"

definition availability_answer :: "http_reply \<Rightarrow> string + jsval" where
  "availability_answer res =
     (case res of
        NetError message \<Rightarrow> Inl message
      | HttpError status json_body text_body \<Rightarrow>
          (case response_detail status json_body text_body of Inl e \<Rightarrow> Inl e | Inr detail \<Rightarrow> Inl detail)
      | HttpOk answer \<Rightarrow> answer)"

definition fetchDomainAvailability :: "http_reply \<Rightarrow> string + fqdn_check" where
  "fetchDomainAvailability res =
     (case availability_answer res of
        Inl e \<Rightarrow> Inl e
      | Inr data \<Rightarrow> Inr \<lparr>fc_available = truthy (jget data ''available''),
                         fc_note = trim (str_or (jget data ''note''))\<rparr>)"

subsection \<open>Derived views\<close>

definition primaryDomainOptions :: "DomainEntry list \<Rightarrow> string list" where
  "primaryDomainOptions entries =
     (let (out, seen) = foldl (\<lambda>(out, seen) entry.
            let domain = normalizeDomainName (JStr (de_domain entry)) in
            if domain = [] \<or> domain \<in> set seen then (out, seen)
            else (out @ [de_domain entry], set_add domain seen)) ([], []) entries
      in if DEFAULT_PRIMARY_DOMAIN \<in> set seen then out else DEFAULT_PRIMARY_DOMAIN # out)"

definition fqdnDomainOptions :: "DomainEntry list \<Rightarrow> string list" where
  "fqdnDomainOptions entries =
     nonempties (map (\<lambda>entry. normalizeDomainName (JStr (de_domain entry)))
       (filter (\<lambda>entry. de_kind entry = Fqdn) entries))"

definition devicesByDomain :: "ServerState list \<Rightarrow> (string \<times> string list) list" where
  "devicesByDomain servers =
     foldl (\<lambda>m server.
        let value = normalizeDomainName (JStr (sv_primaryDomain server));
            alias = trim (sv_alias server)
        in if value = [] \<or> alias = [] then m
           else case map_of m value of
                  Some existing \<Rightarrow> AList.update value (existing @ [alias]) m
                | None \<Rightarrow> AList.update value [alias] m) [] servers"

definition filteredDomainEntries :: "string \<Rightarrow> DomainKind option \<Rightarrow> DomainEntry list \<Rightarrow> DomainEntry list" where
  "filteredDomainEntries domainFilterQuery domainFilterKind entries =
     (let query = normalizeDomainName (JStr domainFilterQuery) in
      filter (\<lambda>entry.
        (domainFilterKind = None \<or> domainFilterKind = Some (de_kind entry))
        \<and> (query = []
           \<or> str_includes (de_domain entry) query \<or> str_includes (kind_str (de_kind entry)) query
           \<or> str_includes (normalizeDomainName (JStr (str_or_else (de_parentFqdn entry) []))) query))
        entries)"

subsection \<open>Saving the domain settings\<close>

record persist_job =
  pj_entries :: "DomainEntry list"
  pj_domain :: string

definition persist_job_of ::
  "(string \<Rightarrow> string \<Rightarrow> int) \<Rightarrow> DomainEntry list \<Rightarrow> string \<Rightarrow> persist_job" where
  "persist_job_of lc sourceEntries sourcePrimaryDomain =
     (let nextEntries = parseDomainCatalogFromGroupVars lc
            (JObj [(GROUP_VARS_DOMAIN_CATALOG_KEY, buildDomainCatalogPayload sourceEntries),
                   (''DOMAIN_PRIMARY'', JStr sourcePrimaryDomain)])
      in \<lparr>pj_entries = nextEntries,
          pj_domain = normalizePrimaryDomainSelection (JStr sourcePrimaryDomain) nextEntries\<rparr>)"

definition persist_begin :: "domain_state \<Rightarrow> domain_state" where
  "persist_begin st = st\<lparr>ds_modalSaving := True, ds_modalError := None\<rparr>"

definition written_group_vars :: "jsval \<Rightarrow> persist_job \<Rightarrow> jsval" where
  "written_group_vars data job =
     JObj (AList.update GROUP_VARS_DOMAIN_CATALOG_KEY (buildDomainCatalogPayload (pj_entries job))
       (AList.update ''DOMAIN_PRIMARY'' (JStr (pj_domain job)) (obj_fields data)))"

text \<open>The exchange with the server: the data written, or the message of the error thrown.\<close>

definition persist_exchange ::
  "(string \<Rightarrow> jsval option) \<Rightarrow> string option \<Rightarrow> persist_job \<Rightarrow> reply \<Rightarrow> reply \<Rightarrow> string + jsval option" where
  "persist_exchange yaml workspaceId job read_reply write_reply =
     (case workspaceId of
        None \<Rightarrow> Inr None
      | Some wid \<Rightarrow>
          if wid = [] then Inr None
          else case readGroupVarsAll yaml read_reply of
                 Inl e \<Rightarrow> Inl e
               | Inr data \<Rightarrow>
                   (case writeGroupVarsAll write_reply of
                      Inl e \<Rightarrow> Inl e | Inr _ \<Rightarrow> Inr (Some (written_group_vars data job))))"

definition persist_end :: "persist_job \<Rightarrow> string + jsval option \<Rightarrow> domain_state \<Rightarrow> domain_state" where
  "persist_end job outcome st =
     (case outcome of
        Inl message \<Rightarrow> st\<lparr>ds_modalError := Some message, ds_modalSaving := False\<rparr>
      | Inr _ \<Rightarrow> st\<lparr>ds_entries := pj_entries job, ds_workspacePrimaryDomain := pj_domain job,
                   ds_primaryDomainDraft := pj_domain job, ds_modalSaving := False\<rparr>)"

definition persistWorkspaceDomainSettings ::
  "(string \<Rightarrow> string \<Rightarrow> int) \<Rightarrow> DomainEntry list option \<Rightarrow> string option \<Rightarrow> domain_state
   \<Rightarrow> domain_state \<times> persist_job" where
  "persistWorkspaceDomainSettings lc entries primaryDomain st =
     (persist_begin st,
      persist_job_of lc (case entries of Some es \<Rightarrow> es | None \<Rightarrow> ds_entries st)
        (case primaryDomain of Some d \<Rightarrow> d | None \<Rightarrow> ds_primaryDomainDraft st))"

text \<open>Removing a domain: the new state, and the save it starts if it is allowed.\<close>

definition removeDomainEntry ::
  "(string \<Rightarrow> string \<Rightarrow> int) \<Rightarrow> string \<Rightarrow> domain_state \<Rightarrow> domain_state \<times> persist_job option" where
  "removeDomainEntry lc domain st =
     (let targetDomain = normalizeDomainName (JStr domain) in
      if targetDomain = [] \<or> targetDomain = DEFAULT_PRIMARY_DOMAIN then
        (st\<lparr>ds_modalError := Some ''localhost cannot be removed.''\<rparr>, None)
      else if \<exists>entry \<in> set (ds_entries st). de_kind entry = Subdomain
                \<and> normalizeDomainName (JStr (str_or_else (de_parentFqdn entry) [])) = targetDomain then
        (st\<lparr>ds_modalError :=
              Some ''Remove subdomains first. Each subdomain must belong to a FQDN.''\<rparr>, None)
      else
        let nextEntries = filter (\<lambda>entry. normalizeDomainName (JStr (de_domain entry)) \<noteq> targetDomain)
              (ds_entries st);
            nextPrimaryDomain =
              (if normalizeDomainName (JStr (ds_primaryDomainDraft st)) = targetDomain
               then DEFAULT_PRIMARY_DOMAIN else ds_primaryDomainDraft st);
            (st', job) = persistWorkspaceDomainSettings lc (Some nextEntries) (Some nextPrimaryDomain)
              (st\<lparr>ds_modalError := None\<rparr>)
        in (st', Some job))"

subsection \<open>Effects\<close>

definition default_domains :: "domain_state \<Rightarrow> domain_state" where
  "default_domains st = st\<lparr>ds_entries := createDefaultDomainEntries,
                            ds_workspacePrimaryDomain := DEFAULT_PRIMARY_DOMAIN\<rparr>"

text \<open>Loading the settings of a workspace; \<open>cancelled\<close> when the workspace changed meanwhile.\<close>

definition loadDomainSettings ::
  "(string \<Rightarrow> string \<Rightarrow> int) \<Rightarrow> (string \<Rightarrow> jsval option) \<Rightarrow> string option \<Rightarrow> reply \<Rightarrow> bool
   \<Rightarrow> domain_state \<Rightarrow> domain_state" where
  "loadDomainSettings lc yaml workspaceId res cancelled st =
     (if workspaceId = None \<or> workspaceId = Some [] then default_domains st
      else if cancelled then st
      else case readGroupVarsAll yaml res of
             Inl _ \<Rightarrow> default_domains st
           | Inr data \<Rightarrow>
               (let entries = parseDomainCatalogFromGroupVars lc data
                in st\<lparr>ds_entries := entries,
                      ds_workspacePrimaryDomain := normalizePrimaryDomainSelection
                        (JStr (readPrimaryDomainFromGroupVars data)) entries\<rparr>))"

definition syncPrimaryDraft :: "domain_state \<Rightarrow> domain_state" where
  "syncPrimaryDraft st = st\<lparr>
     ds_primaryDomainDraft :=
       normalizePrimaryDomainSelection (JStr (ds_workspacePrimaryDomain st)) (ds_entries st),
     ds_modalError := None\<rparr>"

text \<open>Servers without a primary domain get the workspace's, and each correction is reported.\<close>

definition correctServerDomains :: "domain_state \<Rightarrow> domain_state" where
  "correctServerDomains st =
     (let fallbackPrimary = normalizePrimaryDomainSelection
            (JStr (ds_workspacePrimaryDomain st)) (ds_entries st);
          missing = (\<lambda>server. normalizeDomainName (JStr (sv_primaryDomain server)) = []);
          next = map (\<lambda>server. if missing server then server\<lparr>sv_primaryDomain := fallbackPrimary\<rparr>
                               else server) (ds_servers st)
      in if \<exists>server \<in> set (ds_servers st). missing server
         then fold (\<lambda>server. persistPrimaryDomainForAlias (sv_alias server) fallbackPrimary)
                (filter missing (ds_servers st))
                (st\<lparr>ds_servers := normalizePersistedDeviceMeta next\<rparr>)
         else st)"

definition detachServerDomain :: "string \<Rightarrow> ServerState list \<Rightarrow> ServerState list" where
  "detachServerDomain alias servers =
     (case find_index (\<lambda>server. sv_alias server = alias) servers of
        None \<Rightarrow> servers
      | Some idx \<Rightarrow> normalizePersistedDeviceMeta
          (servers[idx := (servers ! idx)\<lparr>sv_primaryDomain := []\<rparr>]))"

definition useDetachServerDomain :: "string \<Rightarrow> domain_state \<Rightarrow> domain_state" where
  "useDetachServerDomain alias st =
     (let st1 = st\<lparr>ds_servers := detachServerDomain alias (ds_servers st)\<rparr>
      in if has_workspace st then persistServerPrimaryDomain alias None st1 else st1)"

text \<open>The status of a listed domain, as the server reports it.\<close>

definition applyDomainStatus ::
  "string \<Rightarrow> DomainStatus \<Rightarrow> string option \<Rightarrow> domain_state \<Rightarrow> domain_state" where
  "applyDomainStatus domain status statusChangedAt st =
     (let targetDomain = normalizeDomainName (JStr domain) in
      if targetDomain = [] then st
      else st\<lparr>ds_entries := map (\<lambda>entry.
                if normalizeDomainName (JStr (de_domain entry)) = targetDomain
                then entry\<lparr>de_status := status, de_statusChangedAt := statusChangedAt\<rparr>
                else entry) (ds_entries st)\<rparr>)"

text \<open>
  Reserving an FQDN: the reply to the caller, the new state and the save it starts. The state is
  the one captured when the call began; \<open>res\<close> is the answer of the availability service.
\<close>

definition addReservedDomain ::
  "(string \<Rightarrow> string \<Rightarrow> int) \<Rightarrow> string \<Rightarrow> http_reply \<Rightarrow> domain_state
   \<Rightarrow> (string + unit) \<times> domain_state \<times> persist_job option" where
  "addReservedDomain lc rawFqdn res st =
     (let fqdn = normalizeDomainName (JStr rawFqdn) in
      if \<not> isLikelyFqdn fqdn then (Inl ''Enter a valid FQDN (e.g. shop.example.org).'', st, None)
      else if \<exists>entry \<in> set (ds_entries st). normalizeDomainName (JStr (de_domain entry)) = fqdn
      then (Inr (), st, None)
      else case fetchDomainAvailability res of
             Inl e \<Rightarrow> (Inl e, st, None)
           | Inr check \<Rightarrow>
               if \<not> fc_available check then
                 (Inl (if fc_note check \<noteq> [] then fc_note check
                       else ''Domain is likely already registered.''), st, None)
               else
                 let nextEntries = parseDomainCatalogFromGroupVars lc
                       (JObj [(GROUP_VARS_DOMAIN_CATALOG_KEY,
                               JArr (map catalog_row (ds_entries st)
                                 @ [JObj [(''type'', JStr ''fqdn''), (''domain'', JStr fqdn),
                                          (''status'', JStr ''reserved'')]]))]);
                     (st', job) = persistWorkspaceDomainSettings lc (Some nextEntries)
                       (Some (ds_primaryDomainDraft st)) st
                 in (Inr (), st', Some job))"

subsection \<open>The popup that adds a domain\<close>

record add_request =
  ar_alias :: "string option"
  ar_value :: "string option"
  ar_kind :: "DomainKind option"
  ar_parentFqdn :: "string option"
  ar_subLabel :: "string option"
  ar_reason :: "string option"

definition no_request :: add_request where
  "no_request = \<lparr>ar_alias = None, ar_value = None, ar_kind = None, ar_parentFqdn = None,
                 ar_subLabel = None, ar_reason = None\<rparr>"

definition opt_val :: "string option \<Rightarrow> jsval" where
  "opt_val v = (case v of None \<Rightarrow> JUndefined | Some s \<Rightarrow> JStr s)"

definition popup_prompt :: "string option \<Rightarrow> string \<Rightarrow> string option" where
  "popup_prompt reason requestedDomain =
     (if reason = Some ''missing'' then
        Some ''Please select an existing domain or add a valid domain first.''
      else if reason = Some ''unknown'' \<and> requestedDomain \<noteq> [] then
        Some ([char_of (34 :: nat)] @ requestedDomain @ [char_of (34 :: nat)]
              @ '' is not in the list. Add it as a valid domain.'')
      else None)"

definition set_popup_form ::
  "DomainKind \<Rightarrow> string \<Rightarrow> string \<Rightarrow> string \<Rightarrow> string \<Rightarrow> domain_state \<Rightarrow> domain_state" where
  "set_popup_form kind fqdnValue localValue subLabel parentFqdn st = st\<lparr>
     ds_popupType := kind, ds_popupFqdnValue := fqdnValue, ds_popupLocalValue := localValue,
     ds_popupSubLabel := subLabel, ds_popupParentFqdn := parentFqdn\<rparr>"

definition openDomainPopup :: "DomainKind \<Rightarrow> add_request \<Rightarrow> domain_state \<Rightarrow> domain_state" where
  "openDomainPopup preferredType request st =
     (let alias = trim (str_or (opt_val (ar_alias request)));
          requestedDomain = normalizeDomainName (opt_val (ar_value request));
          requestedParentFqdn = normalizeDomainName (opt_val (ar_parentFqdn request));
          requestedSubLabel = normalizeDomainLabel (opt_val (ar_subLabel request));
          fqdns = fqdnDomainOptions (ds_entries st);
          st1 = st\<lparr>ds_popupOpen := True, ds_popupError := None, ds_popupCheckResult := None,
                   ds_popupTargetAlias := str_opt alias,
                   ds_popupPrompt := popup_prompt (ar_reason request) requestedDomain\<rparr>
      in if ar_kind request = Some Subdomain \<or> preferredType = Subdomain then
           set_popup_form Subdomain [] DEFAULT_PRIMARY_DOMAIN requestedSubLabel
             (if requestedParentFqdn \<noteq> [] \<and> requestedParentFqdn \<in> set fqdns then requestedParentFqdn
              else case fqdns of f # _ \<Rightarrow> f | [] \<Rightarrow> []) st1
         else if requestedDomain \<noteq> [] then
           (if CHR ''.'' \<in> set requestedDomain
            then set_popup_form Fqdn requestedDomain DEFAULT_PRIMARY_DOMAIN [] [] st1
            else set_popup_form Local [] requestedDomain [] [] st1)
         else set_popup_form preferredType [] DEFAULT_PRIMARY_DOMAIN [] [] st1)"

definition closeDomainPopup :: "domain_state \<Rightarrow> domain_state" where
  "closeDomainPopup st =
     set_popup_form Fqdn [] DEFAULT_PRIMARY_DOMAIN [] []
       (st\<lparr>ds_popupOpen := False, ds_popupError := None, ds_popupCheckBusy := False,
           ds_popupCheckResult := None, ds_popupPrompt := None, ds_popupTargetAlias := None\<rparr>)"

text \<open>Checking the availability of an FQDN: before the request, and after its answer.\<close>

definition check_begin :: "domain_state \<Rightarrow> domain_state \<times> bool" where
  "check_begin st =
     (if isLikelyFqdn (normalizeDomainName (JStr (ds_popupFqdnValue st))) then
        (st\<lparr>ds_popupCheckBusy := True, ds_popupError := None, ds_popupCheckResult := None\<rparr>, True)
      else (st\<lparr>ds_popupError := Some ''Enter a valid FQDN (for example: shop.example.org).'',
               ds_popupCheckResult := None\<rparr>, False))"

definition check_end :: "http_reply \<Rightarrow> domain_state \<Rightarrow> domain_state" where
  "check_end res st =
     (case availability_answer res of
        Inl message \<Rightarrow> st\<lparr>ds_popupError := Some message, ds_popupCheckResult := None,
                          ds_popupCheckBusy := False\<rparr>
      | Inr data \<Rightarrow>
          (let available = truthy (jget data ''available''); note = trim (str_or (jget data ''note''))
           in st\<lparr>ds_popupCheckResult := Some \<lparr>fc_available = available,
                    fc_note = (if note \<noteq> [] then note
                               else if available then ''Domain looks available.''
                               else ''Domain is likely already registered.'')\<rparr>,
                 ds_popupCheckBusy := False\<rparr>))"

text \<open>Adding: the domain the form describes, or the message why it is refused.\<close>

definition popup_domain :: "domain_state \<Rightarrow> string + (string \<times> string option)" where
  "popup_domain st =
     (case ds_popupType st of
        Local \<Rightarrow>
          (let localValue = normalizeDomainName (JStr (ds_popupLocalValue st)) in
           if localValue = [] \<or> \<not> isValidDomainToken localValue then
             Inl ''Enter a valid local domain (letters, numbers, dot, underscore, hyphen).''
           else Inr (localValue, None))
      | Fqdn \<Rightarrow>
          (let nextDomain = normalizeDomainName (JStr (ds_popupFqdnValue st)) in
           if \<not> isLikelyFqdn nextDomain then
             Inl ''Enter a valid FQDN (for example: shop.example.org).''
           else Inr (nextDomain, None))
      | Subdomain \<Rightarrow>
          (let subLabel = normalizeDomainLabel (JStr (ds_popupSubLabel st));
               parentFqdn = normalizeDomainName (JStr (ds_popupParentFqdn st)) in
           if subLabel = [] \<or> parentFqdn = [] then
             Inl ''Provide subdomain label and parent FQDN.''
           else if parentFqdn \<notin> set (fqdnDomainOptions (ds_entries st)) then
             Inl ''Subdomains must belong to an existing FQDN.''
           else Inr (subLabel @ ''.'' @ parentFqdn, Some parentFqdn)))"

definition applyDomainToTargetAlias :: "string \<Rightarrow> domain_state \<Rightarrow> domain_state option" where
  "applyDomainToTargetAlias domain st =
     (let targetAlias = trim (str_or (opt_val (ds_popupTargetAlias st))) in
      if targetAlias = [] then None
      else
        let st1 = st\<lparr>ds_servers := normalizePersistedDeviceMeta
             (map (\<lambda>server. if sv_alias server = targetAlias
                            then server\<lparr>sv_primaryDomain := domain\<rparr> else server) (ds_servers st))\<rparr>
        in Some (if has_workspace st then persistServerPrimaryDomain targetAlias (Some domain) st1
                 else st1))"

definition new_row :: "DomainKind \<Rightarrow> string \<Rightarrow> string option \<Rightarrow> jsval" where
  "new_row kind domain parentFqdn =
     JObj ([(''type'', JStr (kind_str kind)), (''domain'', JStr domain), (''status'', JStr ''reserved'')]
       @ opt_field ''parent_fqdn'' parentFqdn)"

definition added_entries ::
  "(string \<Rightarrow> string \<Rightarrow> int) \<Rightarrow> domain_state \<Rightarrow> string \<Rightarrow> string option \<Rightarrow> DomainEntry list" where
  "added_entries lc st nextDomain nextParentFqdn =
     parseDomainCatalogFromGroupVars lc
       (JObj [(GROUP_VARS_DOMAIN_CATALOG_KEY,
               JArr (map catalog_row (ds_entries st)
                 @ [new_row (ds_popupType st) nextDomain nextParentFqdn])),
              (''DOMAIN_PRIMARY'', JStr
                 (if ds_primaryDomainDraft st \<noteq> [] then ds_primaryDomainDraft st
                  else if ds_workspacePrimaryDomain st \<noteq> [] then ds_workspacePrimaryDomain st
                  else DEFAULT_PRIMARY_DOMAIN))])"

definition addDomainFromPopup ::
  "(string \<Rightarrow> string \<Rightarrow> int) \<Rightarrow> domain_state \<Rightarrow> domain_state \<times> persist_job option" where
  "addDomainFromPopup lc st =
     (case popup_domain st of
        Inl message \<Rightarrow> (st\<lparr>ds_popupError := Some message\<rparr>, None)
      | Inr (nextDomain, nextParentFqdn) \<Rightarrow>
          if \<exists>entry \<in> set (ds_entries st). normalizeDomainName (JStr (de_domain entry)) = nextDomain then
            (case applyDomainToTargetAlias nextDomain st of
               Some st' \<Rightarrow> (closeDomainPopup st', None)
             | None \<Rightarrow> (st\<lparr>ds_popupError := Some ''Domain already exists.''\<rparr>, None))
          else
            let nextEntries = added_entries lc st nextDomain nextParentFqdn;
                nextPrimaryDomain =
                  (if normalizeDomainName (JStr (ds_primaryDomainDraft st)) \<noteq> []
                   then ds_primaryDomainDraft st else nextDomain);
                (st1, job) = persistWorkspaceDomainSettings lc (Some nextEntries)
                  (Some nextPrimaryDomain) (st\<lparr>ds_popupError := None\<rparr>);
                st2 = (case applyDomainToTargetAlias nextDomain st1 of Some s \<Rightarrow> s | None \<Rightarrow> st1)
            in (closeDomainPopup st2, Some job))"

subsection \<open>Saving and removing\<close>

lemma stored_ok_norm:
  "stored_ok lc es \<Longrightarrow> e \<in> set es \<Longrightarrow> normalizeDomainName (JStr (de_domain e)) = de_domain e \<and> de_domain e \<noteq> []"
  by (auto simp: stored_ok_def catalog_ok_def entry_ok_def)

lemma persist_job_stored:
  assumes "stored_ok lc es" "primary_fits es (normalizeDomainName (JStr prim))"
  shows "persist_job_of lc es prim =
    \<lparr>pj_entries = es, pj_domain = normalizeDomainName (JStr prim)\<rparr>"
proof -
  have "catalog_ok es"
    using assms(1) by (simp add: stored_ok_def)
  with assms selection_listed [OF this, of "JStr prim"] show ?thesis
    by (auto simp: persist_job_of_def reread_catalog primary_fits_def)
qed

text \<open>
  A save that fails (the request is rejected, an answer is not OK or the stored file is not
  valid YAML) leaves the entries, the primary domain and its draft as they are and shows the
  error; a save that succeeds shows exactly what it wrote: the written file is the file read,
  with the shown catalog and the shown primary domain stored in it and every other key kept.
  Either way the saving flag is cleared, and the primary domain of a successful save is empty or
  listed.
\<close>

theorem persist_outcome:
  "let job = persist_job_of lc es prim;
       outcome = persist_exchange yaml ws job r w;
       st' = persist_end job outcome st
   in \<not> ds_modalSaving st' \<and>
      (case outcome of
         Inl message \<Rightarrow>
           st' = st\<lparr>ds_modalError := Some message, ds_modalSaving := False\<rparr>
       | Inr stored \<Rightarrow>
           st' = st\<lparr>ds_entries := pj_entries job, ds_workspacePrimaryDomain := pj_domain job,
                    ds_primaryDomainDraft := pj_domain job, ds_modalSaving := False\<rparr>
           \<and> ds_workspacePrimaryDomain st' \<in> insert [] (de_domain ` set (ds_entries st'))
           \<and> (case stored of
                None \<Rightarrow> ws = None \<or> ws = Some []
              | Some written \<Rightarrow>
                  (case readGroupVarsAll yaml r of
                     Inl _ \<Rightarrow> False
                   | Inr data \<Rightarrow>
                       map_of (obj_fields written) = (map_of (obj_fields data))
                         (''DOMAIN_PRIMARY'' \<mapsto> JStr (ds_workspacePrimaryDomain st'),
                          GROUP_VARS_DOMAIN_CATALOG_KEY \<mapsto> buildDomainCatalogPayload (ds_entries st')))))"
proof -
  define job where "job = persist_job_of lc es prim"
  have listed: "pj_domain job \<in> insert [] (de_domain ` set (pj_entries job))"
    using selection_listed parsed_catalog_ok unfolding job_def persist_job_of_def Let_def by simp
  have written: "map_of (obj_fields (written_group_vars data job)) = (map_of (obj_fields data))
      (''DOMAIN_PRIMARY'' \<mapsto> JStr (pj_domain job),
       GROUP_VARS_DOMAIN_CATALOG_KEY \<mapsto> buildDomainCatalogPayload (pj_entries job))" for data
    by (simp add: written_group_vars_def obj_fields_def update_conv')
  show ?thesis
    unfolding Let_def job_def [symmetric]
    using listed written
    by (auto simp: persist_end_def persist_exchange_def split: option.splits sum.splits)
qed

lemma stored_parent:
  assumes "stored_ok lc es" "e \<in> set es" "de_kind e = Subdomain"
  shows "de_parentFqdn e = Some (normalizeDomainName (JStr (str_or_else (de_parentFqdn e) [])))"
proof -
  obtain f where "f \<in> set es" "de_parentFqdn e = Some (de_domain f)"
    using assms by (auto simp: stored_ok_def parents_listed_def)
  with stored_ok_norm [OF assms(1), of f] show ?thesis
    by (simp add: str_or_else_def)
qed

lemma stored_ok_remove:
  assumes es: "stored_ok lc es" and t: "t \<noteq> DEFAULT_PRIMARY_DOMAIN"
    and free: "\<forall>e \<in> set es. de_kind e = Subdomain \<longrightarrow> de_parentFqdn e \<noteq> Some t"
  shows "stored_ok lc (filter (\<lambda>e. de_domain e \<noteq> t) es)"
proof -
  let ?fs = "filter (\<lambda>e. de_domain e \<noteq> t) es"
  have "entry_ok (de_domain ` set ?fs) e" if "e \<in> set ?fs" for e
  proof -
    have "entry_ok (de_domain ` set es) e" "\<forall>p. de_kind e = Subdomain \<longrightarrow> de_parentFqdn e = Some p \<longrightarrow> p \<noteq> t"
      using that es free by (auto simp: stored_ok_def catalog_ok_def)
    then show ?thesis
      by (auto simp: entry_ok_def split: DomainKind.splits)
  qed
  moreover have "distinct (map de_domain ?fs)"
    using es by (simp add: stored_ok_def catalog_ok_def distinct_map_filter)
  moreover have "parents_listed ?fs"
    using es free by (auto simp: stored_ok_def parents_listed_def) metis
  ultimately show ?thesis
    using es t by (auto simp: stored_ok_def catalog_ok_def sorted_wrt_filter)
qed

text \<open>
  A removal that is allowed (the domain is not \<open>localhost\<close> and no subdomain belongs to it)
  starts a save whose catalog is the shown catalog without that domain, nothing else added or
  changed, and whose primary domain is the draft, or \<open>localhost\<close> if the draft was the removed
  domain. The draft must fit the catalog that remains: if it reads as a subdomain, its parent
  must stay listed as an FQDN (otherwise reading the save back adds that parent).
\<close>

theorem removeDomainEntry_removes:
  fixes domain :: string and st :: domain_state
  defines "t \<equiv> normalizeDomainName (JStr domain)"
  defines "rest \<equiv> filter (\<lambda>e. de_domain e \<noteq> t) (ds_entries st)"
  defines "prim \<equiv> (if normalizeDomainName (JStr (ds_primaryDomainDraft st)) = t then DEFAULT_PRIMARY_DOMAIN
                   else normalizeDomainName (JStr (ds_primaryDomainDraft st)))"
  assumes es: "stored_ok lc (ds_entries st)" and t: "t \<noteq> []" "t \<noteq> DEFAULT_PRIMARY_DOMAIN"
    and free: "\<forall>e \<in> set (ds_entries st). de_kind e = Subdomain \<longrightarrow> de_parentFqdn e \<noteq> Some t"
    and fits: "primary_fits rest prim"
  shows "removeDomainEntry lc domain st =
      (st\<lparr>ds_modalError := None, ds_modalSaving := True\<rparr>, Some \<lparr>pj_entries = rest, pj_domain = prim\<rparr>)
    \<and> t \<notin> de_domain ` set rest \<and> prim \<noteq> t"
proof -
  have norm: "normalizeDomainName (JStr (de_domain e)) = de_domain e" if "e \<in> set (ds_entries st)" for e
    using stored_ok_norm [OF es that] by simp
  have "normalizeDomainName (JStr (str_or_else (de_parentFqdn e) [])) \<noteq> t"
    if "e \<in> set (ds_entries st)" "de_kind e = Subdomain" for e
    using stored_parent [OF es that] that free by metis
  then have allowed: "\<not> (\<exists>e \<in> set (ds_entries st). de_kind e = Subdomain
      \<and> normalizeDomainName (JStr (str_or_else (de_parentFqdn e) [])) = t)"
    by blast
  have rest: "filter (\<lambda>e. normalizeDomainName (JStr (de_domain e)) \<noteq> t) (ds_entries st) = rest"
    unfolding rest_def by (rule filter_cong) (simp_all add: norm)
  have draft: "normalizeDomainName (JStr (if normalizeDomainName (JStr (ds_primaryDomainDraft st)) = t
      then DEFAULT_PRIMARY_DOMAIN else ds_primaryDomainDraft st)) = prim"
    by (simp add: prim_def)
  have "stored_ok lc rest"
    unfolding rest_def using es t(2) free by (rule stored_ok_remove)
  then show ?thesis
    using t allowed rest draft fits persist_job_stored [of lc rest]
    by (auto simp: removeDomainEntry_def t_def [symmetric] persistWorkspaceDomainSettings_def
        persist_begin_def Let_def rest_def prim_def)
qed

text \<open>A panel over the small catalog, for the witnesses.\<close>

definition demo_panel :: domain_state where
  "demo_panel =
     \<lparr>ds_workspaceId = Some ''w1'', ds_servers = [createServerPlaceholder ''web''], ds_workspacePrimaryDomain = ''example.org'',
      ds_primaryDomainDraft = ''example.org'', ds_modalError = None, ds_modalSaving = False,
      ds_entries = demo_catalog, ds_popupOpen = True, ds_popupType = Subdomain,
      ds_popupFqdnValue = [], ds_popupError = None, ds_popupCheckBusy = False,
      ds_popupCheckResult = None, ds_popupLocalValue = DEFAULT_PRIMARY_DOMAIN,
      ds_popupSubLabel = '' Blog-'', ds_popupParentFqdn = ''example.org'', ds_popupPrompt = None,
      ds_popupTargetAlias = Some ''web'', ds_requests = []\<rparr>"

theorem removeDomainEntry_removes_witness:
  "removeDomainEntry cu_cmp ''Shop.example.org'' demo_panel =
      (demo_panel\<lparr>ds_modalError := None, ds_modalSaving := True\<rparr>,
       Some \<lparr>pj_entries = filter (\<lambda>e. de_domain e \<noteq> normalizeDomainName (JStr ''Shop.example.org''))
               (ds_entries demo_panel),
             pj_domain = (if normalizeDomainName (JStr (ds_primaryDomainDraft demo_panel))
                 = normalizeDomainName (JStr ''Shop.example.org'') then DEFAULT_PRIMARY_DOMAIN
               else normalizeDomainName (JStr (ds_primaryDomainDraft demo_panel)))\<rparr>)
    \<and> normalizeDomainName (JStr ''Shop.example.org'') \<notin> de_domain ` set
        (filter (\<lambda>e. de_domain e \<noteq> normalizeDomainName (JStr ''Shop.example.org'')) (ds_entries demo_panel))
    \<and> (if normalizeDomainName (JStr (ds_primaryDomainDraft demo_panel))
          = normalizeDomainName (JStr ''Shop.example.org'') then DEFAULT_PRIMARY_DOMAIN
        else normalizeDomainName (JStr (ds_primaryDomainDraft demo_panel)))
      \<noteq> normalizeDomainName (JStr ''Shop.example.org'')"
  by (rule removeDomainEntry_removes; code_simp)

subsection \<open>Adding a domain\<close>

definition new_entry :: "DomainKind \<Rightarrow> string \<Rightarrow> string option \<Rightarrow> DomainEntry" where
  "new_entry kind domain parentFqdn =
     mk_entry kind domain parentFqdn \<lparr>pm_status = Some Reserved, pm_statusChangedAt = None, pm_orderId = None\<rparr>"

lemma new_row_catalog_row:
  "(kind = Subdomain) = (par \<noteq> None) \<Longrightarrow> new_row kind domain par = catalog_row (new_entry kind domain par)"
  by (auto simp: new_row_def catalog_row_def new_entry_def mk_entry_def opt_field_def)

lemma label_char_norm: "label_char c \<Longrightarrow> lower_char c = c \<and> \<not> ws_char c"
  by (auto simp: label_char_def is_az09_def lower_char_fix az09_not_ws [unfolded is_az09_def])
    (auto simp: lower_char_def upper_code_def ws_char_def code_def)

lemma normalized_sub:
  assumes label: "set l \<subseteq> Collect label_char" "l \<noteq> []"
    and p: "normalizeDomainName (JStr p) = p" "p \<noteq> []"
  shows "normalizeDomainName (JStr (l @ ''.'' @ p)) = l @ ''.'' @ p"
proof -
  have lp: "trimmed p" "to_lower p = p"
    using p by (metis normalizeDomainName_str to_lower_idem trimmed_to_lower trimmed_trim,
      metis normalizeDomainName_str to_lower_idem p(1))
  have "\<not> ws_char (hd l)"
    using label label_char_norm by (cases l) auto
  with label(2) lp p(2) have "trimmed (l @ ''.'' @ p)"
    by (simp add: trimmed_def)
  moreover have "to_lower (l @ ''.'' @ p) = l @ ''.'' @ p"
  proof -
    have "map lower_char l = l"
      using label label_char_norm by (intro map_idI) auto
    moreover have "lower_char (CHR ''.'') = CHR ''.''"
      by (simp add: lower_char_def upper_code_def code_def)
    ultimately show ?thesis
      using lp(2) by (simp add: to_lower_def)
  qed
  ultimately show ?thesis
    by (simp add: normalizeDomainName_str)
qed

lemma set_fqdnDomainOptions:
  assumes "stored_ok lc es"
  shows "set (fqdnDomainOptions es) = set (fqdn_domains es)"
  using stored_ok_norm [OF assms]
  by (force simp: fqdnDomainOptions_def set_fqdn_domains)

lemma popup_domain_entry_ok:
  assumes st: "stored_ok lc (ds_entries st)" and pop: "popup_domain st = Inr (n, par)"
  shows "entry_ok (de_domain ` set (ds_entries st)) (new_entry (ds_popupType st) n par)
    \<and> (ds_popupType st = Subdomain) = (par \<noteq> None)
    \<and> (\<forall>p. par = Some p \<longrightarrow> p \<in> set (fqdn_domains (ds_entries st)) \<and> p \<noteq> []
         \<and> normalizeDomainName (JStr p) = p)"
proof (cases "ds_popupType st")
  case Local
  with pop show ?thesis
    by (auto simp: popup_domain_def Let_def entry_ok_def new_entry_def split: if_splits)
next
  case Fqdn
  with pop show ?thesis
    by (auto simp: popup_domain_def Let_def entry_ok_def new_entry_def dest: isLikelyFqdn_dot split: if_splits)
next
  case Subdomain
  let ?l = "normalizeDomainLabel (JStr (ds_popupSubLabel st))"
    and ?p = "normalizeDomainName (JStr (ds_popupParentFqdn st))"
  have facts: "?l \<noteq> []" "?p \<noteq> []" "?p \<in> set (fqdn_domains (ds_entries st))" "n = ?l @ ''.'' @ ?p" "par = Some ?p"
    using pop Subdomain set_fqdnDomainOptions [OF st]
    by (auto simp: popup_domain_def Let_def split: if_splits)
  then have fq: "isLikelyFqdn ?p" "?p \<in> de_domain ` set (ds_entries st)"
    using st by (auto simp: set_fqdn_domains stored_ok_def catalog_ok_def entry_ok_def)
  have "normalizeDomainName (JStr n) = n"
    using facts normalizeDomainLabel_filter by (simp add: normalized_sub del: append.simps)
  with facts fq Subdomain show ?thesis
    by (auto simp: entry_ok_def new_entry_def)
qed

context collation
begin

lemma stored_ok_add:
  assumes es: "stored_ok lc es" and new: "entry_ok (de_domain ` set es) e" "meta_ok e"
      "de_domain e \<notin> de_domain ` set es"
    and par: "de_kind e = Subdomain \<Longrightarrow> \<exists>p \<in> set (fqdn_domains es). de_parentFqdn e = Some p"
  shows "stored_ok lc (js_sort (entry_cmp lc) (es @ [e]))"
proof -
  have "catalog_ok (es @ [e])"
    using es new by (intro catalog_ok_snoc) (auto simp: stored_ok_def intro: entry_ok_mono)
  moreover have "parents_listed (es @ [e])"
    using es par by (auto simp: stored_ok_def parents_listed_def set_fqdn_domains)
  ultimately show ?thesis
    using es new(2) entries.sorted_js_sort
    by (auto simp: stored_ok_def parents_listed_def catalog_ok_mset [OF mset_js_sort])
qed

end

lemma primary_fits_mono:
  "primary_fits es d \<Longrightarrow> set es \<subseteq> set fs \<Longrightarrow> primary_fits fs d"
  by (auto simp: primary_fits_def set_fqdn_domains)

lemma added_entries_eq:
  fixes st :: domain_state
  defines "es \<equiv> ds_entries st"
  assumes lc: "collation lc" and es: "stored_ok lc es"
    and pop: "popup_domain st = Inr (n, par)" and fresh: "n \<notin> de_domain ` set es"
    and draft: "normalizeDomainName (JStr (ds_primaryDomainDraft st)) \<noteq> []"
      "primary_fits es (normalizeDomainName (JStr (ds_primaryDomainDraft st)))"
  shows "added_entries lc st n par = js_sort (entry_cmp lc) (es @ [new_entry (ds_popupType st) n par])
    \<and> stored_ok lc (js_sort (entry_cmp lc) (es @ [new_entry (ds_popupType st) n par]))"
proof
  let ?e = "new_entry (ds_popupType st) n par"
  note entry = popup_domain_entry_ok [OF es [unfolded es_def] pop, folded es_def]
  have e: "de_domain ?e = n" "de_kind ?e = ds_popupType st" "de_parentFqdn ?e = par" "meta_ok ?e"
    by (simp_all add: new_entry_def meta_ok_def mk_entry_def)
  show "stored_ok lc (js_sort (entry_cmp lc) (es @ [?e]))"
    using entry e fresh by (intro collation.stored_ok_add [OF lc es]) auto
  have "catalog_ok (es @ [?e])"
    using es entry e fresh by (intro catalog_ok_snoc) (auto simp: stored_ok_def intro: entry_ok_mono)
  moreover have "parents_before (es @ [?e])"
    using entry e by (intro parents_before_snoc [OF stored_parents_before [OF es]]) auto
  moreover have "primary_fits (es @ [?e]) (normalizeDomainName (JStr (ds_primaryDomainDraft st)))"
    using draft(2) by (rule primary_fits_mono) auto
  moreover have "ds_primaryDomainDraft st \<noteq> []"
    using draft(1) by auto
  moreover have "JArr (map catalog_row es @ [new_row (ds_popupType st) n par]) = buildDomainCatalogPayload (es @ [?e])"
    using entry by (simp add: buildDomainCatalogPayload_def new_row_catalog_row)
  ultimately show "added_entries lc st n par = js_sort (entry_cmp lc) (es @ [?e])"
    using es e(4) reread_sorts [of "es @ [?e]" "ds_primaryDomainDraft st" lc]
    by (simp add: added_entries_def es_def [symmetric] stored_ok_def)
qed

text \<open>
  C5: adding a domain from the popup. When the form is valid, the domain is not listed yet and
  a fitting primary domain is chosen, the save that starts holds the shown catalog with exactly
  one more entry, the new domain with status \<open>reserved\<close>, in catalog order; the primary domain
  stays the chosen one, the popup is closed, and the stored catalog is again in order, so that
  the next save, removal or addition has the same guarantees.
\<close>

theorem addDomainFromPopup_adds:
  fixes st :: domain_state
  defines "d \<equiv> normalizeDomainName (JStr (ds_primaryDomainDraft st))"
  assumes lc: "collation lc" and es: "stored_ok lc (ds_entries st)"
    and pop: "popup_domain st = Inr (n, par)" and fresh: "n \<notin> de_domain ` set (ds_entries st)"
    and draft: "d \<noteq> []" "primary_fits (ds_entries st) d"
  shows "\<exists>st' es'. addDomainFromPopup lc st = (st', Some \<lparr>pj_entries = es', pj_domain = d\<rparr>)
    \<and> es' = js_sort (entry_cmp lc) (ds_entries st @ [new_entry (ds_popupType st) n par])
    \<and> stored_ok lc es' \<and> primary_fits es' d \<and> \<not> ds_popupOpen st'"
proof -
  let ?es' = "js_sort (entry_cmp lc) (ds_entries st @ [new_entry (ds_popupType st) n par])"
  note added = added_entries_eq [OF lc es pop fresh draft [unfolded d_def]]
  have fits: "primary_fits ?es' d"
    using draft(2) by (rule primary_fits_mono) auto
  have "\<not> (\<exists>e \<in> set (ds_entries st). normalizeDomainName (JStr (de_domain e)) = n)"
    using fresh stored_ok_norm [OF es] by force
  then have "snd (addDomainFromPopup lc st) = Some \<lparr>pj_entries = ?es', pj_domain = d\<rparr>"
    using pop draft added fits persist_job_stored [of lc ?es' "ds_primaryDomainDraft st"]
    by (simp add: addDomainFromPopup_def persistWorkspaceDomainSettings_def Let_def d_def)
  moreover have "\<not> ds_popupOpen (fst (addDomainFromPopup lc st))"
    using pop \<open>\<not> (\<exists>e \<in> set (ds_entries st). _ e)\<close>
    by (simp add: addDomainFromPopup_def persistWorkspaceDomainSettings_def Let_def closeDomainPopup_def
        set_popup_form_def)
  ultimately show ?thesis
    using added fits by (metis prod.collapse)
qed

theorem addDomainFromPopup_adds_witness:
  "\<exists>st' es'. addDomainFromPopup cu_cmp demo_panel =
      (st', Some \<lparr>pj_entries = es', pj_domain = normalizeDomainName (JStr (ds_primaryDomainDraft demo_panel))\<rparr>)
    \<and> es' = js_sort (entry_cmp cu_cmp) (ds_entries demo_panel
        @ [new_entry (ds_popupType demo_panel) ''blog.example.org'' (Some ''example.org'')])
    \<and> stored_ok cu_cmp es'
    \<and> primary_fits es' (normalizeDomainName (JStr (ds_primaryDomainDraft demo_panel)))
    \<and> \<not> ds_popupOpen st'"
  by (rule addDomainFromPopup_adds [OF code_unit.collation_axioms]; code_simp)

subsection \<open>Reserving a domain\<close>

text \<open>
  A reservation never bypasses the availability check. A save starts exactly when the name
  is a likely FQDN that is not listed yet and the service answered that it is available; in every
  other case the state is untouched, and the caller gets an error unless the domain was already
  listed.
\<close>

theorem addReservedDomain_gate:
  "let (result, st', job) = addReservedDomain lc rawFqdn res st;
       d = normalizeDomainName (JStr rawFqdn);
       listed = (\<exists>e \<in> set (ds_entries st). normalizeDomainName (JStr (de_domain e)) = d);
       free = (\<exists>c. fetchDomainAvailability res = Inr c \<and> fc_available c)
   in (job \<noteq> None) = (isLikelyFqdn d \<and> \<not> listed \<and> free)
      \<and> (result = Inr ()) = (isLikelyFqdn d \<and> (listed \<or> free))
      \<and> st' = (if job = None then st else persist_begin st)"
  by (auto simp: addReservedDomain_def persistWorkspaceDomainSettings_def Let_def split: sum.splits)

end
