(* ===== verification/Roles.thy ===== *)
theory Roles
  imports JsValue
begin

text \<open>
  The roles (applications) and bundles of the catalog, as \<open>deployment-workspace/types.ts\<close> and
  \<open>role-dashboard/types.ts\<close> declare them, with the fields the modelled code reads. A field that
  may be null or missing is an option; the pricing of a role is a dynamic value, as the code
  takes it from the server without checking it.
\<close>

record Role =
  ro_id :: string
  ro_display_name :: string
  ro_status :: string
  ro_description :: string
  ro_deployment_targets :: "string list"
  ro_documentation :: "string option"
  ro_video :: "string option"
  ro_forum :: "string option"
  ro_homepage :: "string option"
  ro_issue_tracker_url :: "string option"
  ro_license_url :: "string option"
  ro_categories :: "string list option"
  ro_galaxy_tags :: "string list option"
  ro_bundle_member :: "bool option"
  ro_pricing_summary :: jsval
  ro_pricing :: jsval

record Bundle =
  bu_id :: string
  bu_slug :: string
  bu_deploy_target :: string
  bu_title :: string
  bu_description :: string
  bu_tags :: "string list option"
  bu_categories :: "string list option"
  bu_role_ids :: "string list option"

definition opt_list :: "'a list option \<Rightarrow> 'a list" where
  "opt_list v = (case v of None \<Rightarrow> [] | Some xs \<Rightarrow> xs)"

text \<open>The token of an id: \<open>String(value || "").trim()\<close>.\<close>

definition id_token :: "jsval \<Rightarrow> string" where
  "id_token v = trim (str_or v)"

lemma id_token_str [simp]: "id_token (JStr s) = trim s"
  by (simp add: id_token_def)

text \<open>The fields of a list of tokens, trimmed and without the empty ones.\<close>

definition trimmed_tokens :: "string list \<Rightarrow> string list" where
  "trimmed_tokens ss = nonempties (map trim ss)"

lemma trimmed_tokens_id [simp]:
  "\<forall>s \<in> set ss. trim s = s \<and> s \<noteq> [] \<Longrightarrow> trimmed_tokens ss = ss"
  unfolding trimmed_tokens_def by (subst map_idI) (auto intro: nonempties_id)

lemma set_trimmed_tokens: "set (trimmed_tokens ss) = trim ` set ss - {[]}"
  by (auto simp: trimmed_tokens_def)

text \<open>A role with nothing but an id, a name and a pricing, for the witnesses.\<close>

definition demo_role :: "string \<Rightarrow> string \<Rightarrow> jsval \<Rightarrow> Role" where
  "demo_role rid name pricing =
     \<lparr>ro_id = rid, ro_display_name = name, ro_status = ''stable'', ro_description = [],
      ro_deployment_targets = [''server''], ro_documentation = None, ro_video = None,
      ro_forum = None, ro_homepage = None, ro_issue_tracker_url = None, ro_license_url = None,
      ro_categories = None, ro_galaxy_tags = None, ro_bundle_member = None,
      ro_pricing_summary = JNull, ro_pricing = pricing\<rparr>"

end
