(* ===== verification/ServerSelection.thy ===== *)
theory ServerSelection
  imports DomainState Roles
begin

text \<open>
  The servers of a workspace and what the user selects for them
  (\<open>deployment-workspace/useWorkspaceServerSelectionActions.ts\<close>,
  \<open>useWorkspaceSelectionDerived.ts\<close>, \<open>createServer\<close> of \<open>useWorkspaceServerMetadata.ts\<close>). One
  record holds the React state the hook reads and sets. A handler takes the state \<open>cap\<close> its
  closure captured (the latest render) beside the state \<open>st\<close> its updaters are applied to; an
  event handled on its own has both equal, several calls in one event share \<open>cap\<close>. A record of
  sets is an association list of duplicate-free lists; copying one is not a step of the model.
\<close>

subsection \<open>State\<close>

record ConnectionResult =
  cr_ping_ok :: bool
  cr_ping_error :: "string option"
  cr_ssh_ok :: bool
  cr_ssh_error :: "string option"

record selection_state =
  ss_servers :: "ServerState list"
  ss_activeAlias :: string
  ss_selected :: "(string \<times> string list) list"
  ss_plans :: "(string \<times> (string \<times> string option) list) list"
  ss_aliasDeletes :: "string list"
  ss_aliasCleanups :: "string list"
  ss_touched :: bool
  ss_connectionResults :: "(string \<times> ConnectionResult) list"
  ss_openCredentialsAlias :: "string option"
  ss_deploySelection :: "string list"
  ss_deployRoleFilter :: "string list"
  ss_deployedAliases :: "string list"
  ss_aliasRenames :: "(string \<times> string) list"
  ss_visualMeta :: "(string \<times> string option \<times> string option) list"
  ss_workspaceId :: "string option"
  ss_inventoryReady :: bool

definition aliases :: "selection_state \<Rightarrow> string list" where
  "aliases st = map sv_alias (ss_servers st)"

text \<open>Assignments to the records, and the call that stores a colour or an emoji (it is logged).\<close>

definition fields_of :: "(string \<times> (string \<times> 'v) list) list \<Rightarrow> string \<Rightarrow> (string \<times> 'v) list" where
  "fields_of m k = (case map_of m k of None \<Rightarrow> [] | Some fs \<Rightarrow> fs)"

definition merge_fields :: "(string \<times> 'v) list \<Rightarrow> (string \<times> 'v) list \<Rightarrow> (string \<times> 'v) list" where
  "merge_fields base ext = foldl (\<lambda>m (k, v). AList.update k v m) base ext"

definition log_visual ::
  "string \<Rightarrow> string option \<Rightarrow> string option \<Rightarrow> selection_state \<Rightarrow> selection_state" where
  "log_visual alias color emoji st = st\<lparr>ss_visualMeta := ss_visualMeta st @ [(alias, color, emoji)]\<rparr>"

subsection \<open>The default plan of a role\<close>

definition find_id :: "string \<Rightarrow> jsval list \<Rightarrow> jsval option" where
  "find_id wanted items = find (\<lambda>item. id_token (jget item ''id'') = wanted) items"

definition defaultPlanForRole :: "Role list \<Rightarrow> string \<Rightarrow> string" where
  "defaultPlanForRole roles roleId =
     (case find (\<lambda>entry. ro_id entry = roleId) roles of
        None \<Rightarrow> ''community''
      | Some role \<Rightarrow>
          (let pricing = ro_pricing role;
               offerings = arr_items (jget pricing ''offerings'');
               defaultOfferingId = id_token (jget pricing ''default_offering_id'');
               offering = (case find_id defaultOfferingId offerings of
                             Some item \<Rightarrow> item
                           | None \<Rightarrow> (case offerings of item # _ \<Rightarrow> item | [] \<Rightarrow> JNull));
               plans = arr_items (jget offering ''plans'');
               defaultPlanId = id_token (jget pricing ''default_plan_id'')
           in if defaultPlanId \<noteq> [] \<and> find_id defaultPlanId plans \<noteq> None then defaultPlanId
              else if find_id ''community'' plans \<noteq> None then ''community''
              else let first = (case plans of plan # _ \<Rightarrow> id_token (jget plan ''id'') | [] \<Rightarrow> [])
                   in if first \<noteq> [] then first else ''community''))"

subsection \<open>Plans of a server\<close>

definition no_plan :: "(string \<times> string option) list \<Rightarrow> string \<Rightarrow> bool" where
  "no_plan current roleId =
     (case map_of current roleId of Some (Some plan) \<Rightarrow> plan = [] | _ \<Rightarrow> True)"

text \<open>Every enabled role gets a plan, every other role of the record loses its plan.\<close>

definition sync_plans ::
  "(string \<Rightarrow> string) \<Rightarrow> string list \<Rightarrow> (string \<times> string option) list \<Rightarrow> (string \<times> string option) list" where
  "sync_plans defaultPlan enabled current =
     (let filled = foldl (\<lambda>cur roleId.
            if no_plan cur roleId then AList.update roleId (Some (defaultPlan roleId)) cur else cur)
            current enabled
      in foldl (\<lambda>cur roleId. if roleId \<in> set enabled then cur else AList.update roleId None cur)
           filled (own_keys filled))"

subsection \<open>Applying the roles read from the inventory\<close>

definition roles_for :: "(string \<times> string list) list \<Rightarrow> string \<Rightarrow> string list" where
  "roles_for rolesByAlias alias = opt_list (map_of rolesByAlias alias)"

definition role_aliases :: "(string \<times> string list) list \<Rightarrow> string list" where
  "role_aliases rolesByAlias = trimmed_tokens (own_keys rolesByAlias)"

definition servers_for ::
  "(string \<Rightarrow> string \<Rightarrow> int) \<Rightarrow> string list \<Rightarrow> ServerState list \<Rightarrow> ServerState list" where
  "servers_for lc names prev =
     (let byAlias = foldl (\<lambda>m server. AList.update (sv_alias server) server m) [] prev;
          seen = to_set (map sv_alias prev);
          ordered = seen @ js_sort lc (filter (\<lambda>alias. alias \<notin> set seen) names)
      in normalizePersistedDeviceMeta (map (\<lambda>alias.
           case map_of byAlias alias of
             Some server \<Rightarrow> server
           | None \<Rightarrow> createServerPlaceholder alias) ordered))"

definition apply_no_roles :: "selection_state \<Rightarrow> selection_state" where
  "apply_no_roles st = st\<lparr>
     ss_selected := (if ss_selected st \<noteq> [] then ss_selected st else [(''device'', [])]),
     ss_plans := (if ss_plans st \<noteq> [] then ss_plans st else [(''device'', [])]),
     ss_servers := (if ss_servers st \<noteq> [] then ss_servers st
                    else normalizePersistedDeviceMeta [createServerPlaceholder ''device'']),
     ss_activeAlias := (if ss_activeAlias st \<noteq> [] then ss_activeAlias st else ''device'')\<rparr>"

definition applySelectedRolesByAlias ::
  "(string \<Rightarrow> string \<Rightarrow> int) \<Rightarrow> (string \<Rightarrow> string) \<Rightarrow> (string \<times> string list) list
   \<Rightarrow> selection_state \<Rightarrow> selection_state \<Rightarrow> selection_state" where
  "applySelectedRolesByAlias lc defaultPlan rolesByAlias cap st =
     (let names = role_aliases rolesByAlias in
      if names = [] then apply_no_roles st
      else st\<lparr>
        ss_selected := foldl (\<lambda>next alias.
          AList.update alias (to_set (roles_for rolesByAlias alias)) next) (ss_selected st) names,
        ss_plans := foldl (\<lambda>next alias.
          AList.update alias
            (sync_plans defaultPlan (to_set (trimmed_tokens (roles_for rolesByAlias alias)))
               (fields_of next alias)) next) (ss_plans st) names,
        ss_servers := servers_for lc names (ss_servers st),
        ss_activeAlias := (if ss_activeAlias cap = [] then hd names else ss_activeAlias st)\<rparr>)"

subsection \<open>Editing a server\<close>

record server_patch =
  sp_alias :: "string option"
  sp_description :: "string option"
  sp_primaryDomain :: "string option"
  sp_requirementServerType :: "string option"
  sp_requirementStorageGb :: "string option"
  sp_requirementLocation :: "string option"
  sp_host :: "string option"
  sp_port :: "string option"
  sp_user :: "string option"
  sp_color :: "string option"
  sp_logoEmoji :: "string option"
  sp_authMethod :: "string option"
  sp_password :: "string option"
  sp_privateKey :: "string option"
  sp_publicKey :: "string option"
  sp_keyAlgorithm :: "string option"
  sp_keyPassphrase :: "string option"

definition empty_patch :: server_patch where
  "empty_patch =
     \<lparr>sp_alias = None, sp_description = None, sp_primaryDomain = None,
      sp_requirementServerType = None, sp_requirementStorageGb = None, sp_requirementLocation = None,
      sp_host = None, sp_port = None, sp_user = None, sp_color = None, sp_logoEmoji = None,
      sp_authMethod = None, sp_password = None, sp_privateKey = None, sp_publicKey = None,
      sp_keyAlgorithm = None, sp_keyPassphrase = None\<rparr>"

text \<open>\<open>{...server, ...patch}\<close>\<close>

definition patch_server :: "server_patch \<Rightarrow> ServerState \<Rightarrow> ServerState" where
  "patch_server p s =
     \<lparr>sv_alias = opt_else (sp_alias p) (sv_alias s),
      sv_description = opt_else (sp_description p) (sv_description s),
      sv_primaryDomain = opt_else (sp_primaryDomain p) (sv_primaryDomain s),
      sv_requirementServerType = opt_else (sp_requirementServerType p) (sv_requirementServerType s),
      sv_requirementStorageGb = opt_else (sp_requirementStorageGb p) (sv_requirementStorageGb s),
      sv_requirementLocation = opt_else (sp_requirementLocation p) (sv_requirementLocation s),
      sv_host = opt_else (sp_host p) (sv_host s),
      sv_port = opt_else (sp_port p) (sv_port s),
      sv_user = opt_else (sp_user p) (sv_user s),
      sv_color = opt_else (sp_color p) (sv_color s),
      sv_logoEmoji = opt_else (sp_logoEmoji p) (sv_logoEmoji s),
      sv_authMethod = opt_else (sp_authMethod p) (sv_authMethod s),
      sv_password = opt_else (sp_password p) (sv_password s),
      sv_privateKey = opt_else (sp_privateKey p) (sv_privateKey s),
      sv_publicKey = opt_else (sp_publicKey p) (sv_publicKey s),
      sv_keyAlgorithm = opt_else (sp_keyAlgorithm p) (sv_keyAlgorithm s),
      sv_keyPassphrase = opt_else (sp_keyPassphrase p) (sv_keyPassphrase s)\<rparr>"

text \<open>The new alias of a patch: none when the patch keeps the alias.\<close>

definition rename_target :: "string \<Rightarrow> server_patch \<Rightarrow> string option" where
  "rename_target alias patch =
     (let nextAliasRaw = trim (opt_else (sp_alias patch) [])
      in if nextAliasRaw \<noteq> [] \<and> nextAliasRaw \<noteq> alias then Some nextAliasRaw else None)"

definition patched_servers ::
  "string \<Rightarrow> server_patch \<Rightarrow> ServerState list \<Rightarrow> ServerState list" where
  "patched_servers alias patch prev =
     (case find_index (\<lambda>server. sv_alias server = alias) prev of
        None \<Rightarrow> prev
      | Some idx \<Rightarrow>
          (case rename_target alias patch of
             Some nextAlias \<Rightarrow>
               if \<exists>i < length prev. sv_alias (prev ! i) = nextAlias \<and> i \<noteq> idx then prev
               else normalizePersistedDeviceMeta
                      (prev[idx := (patch_server patch (prev ! idx))\<lparr>sv_alias := nextAlias\<rparr>])
           | None \<Rightarrow> normalizePersistedDeviceMeta
               (prev[idx := (patch_server patch (prev ! idx))\<lparr>sv_alias := sv_alias (prev ! idx)\<rparr>])))"

definition move_selected ::
  "string \<Rightarrow> string \<Rightarrow> (string \<times> string list) list \<Rightarrow> (string \<times> string list) list" where
  "move_selected alias nextAlias prev =
     (let roles = opt_list (map_of prev alias);
          next = AList.delete alias prev
      in case map_of next nextAlias of
           Some existing \<Rightarrow> AList.update nextAlias (set_add_all roles existing) next
         | None \<Rightarrow> AList.update nextAlias roles next)"

definition move_plans ::
  "string \<Rightarrow> string \<Rightarrow> (string \<times> (string \<times> string option) list) list
   \<Rightarrow> (string \<times> (string \<times> string option) list) list" where
  "move_plans alias nextAlias prev =
     (let previous = fields_of prev alias;
          next = AList.delete alias prev
      in AList.update nextAlias (merge_fields (fields_of next nextAlias) previous) next)"

definition move_result ::
  "string \<Rightarrow> string \<Rightarrow> (string \<times> ConnectionResult) list \<Rightarrow> (string \<times> ConnectionResult) list" where
  "move_result alias nextAlias prev =
     (case map_of prev alias of
        None \<Rightarrow> prev
      | Some result \<Rightarrow> AList.delete alias (AList.update nextAlias result prev))"

definition rename_alias ::
  "string \<Rightarrow> string \<Rightarrow> selection_state \<Rightarrow> selection_state \<Rightarrow> selection_state" where
  "rename_alias alias nextAlias cap st = st\<lparr>
     ss_selected := move_selected alias nextAlias (ss_selected st),
     ss_plans := move_plans alias nextAlias (ss_plans st),
     ss_activeAlias := (if ss_activeAlias cap = alias then nextAlias else ss_activeAlias st),
     ss_connectionResults := move_result alias nextAlias (ss_connectionResults st),
     ss_aliasRenames := ss_aliasRenames st @ [(alias, nextAlias)]\<rparr>"

definition updateServer ::
  "string \<Rightarrow> server_patch \<Rightarrow> selection_state \<Rightarrow> selection_state \<Rightarrow> selection_state" where
  "updateServer alias patch cap st =
     (if alias = [] then st
      else
        let target = rename_target alias patch;
            st1 = st\<lparr>ss_servers := patched_servers alias patch (ss_servers st)\<rparr>;
            st2 = (if sp_color patch \<noteq> None \<or> sp_logoEmoji patch \<noteq> None
                   then log_visual (opt_else target alias) (sp_color patch) (sp_logoEmoji patch) st1
                   else st1)
        in case target of
             Some nextAlias \<Rightarrow> rename_alias alias nextAlias cap st2
           | None \<Rightarrow> st2)"

subsection \<open>Adding a server\<close>

text \<open>The hint of an alias: lower case, every run of other characters one dash, no outer dash.\<close>

fun collapse_dashes :: "string \<Rightarrow> string" where
  "collapse_dashes [] = []"
| "collapse_dashes (c # s) =
     (let t = collapse_dashes s in if c = CHR ''-'' \<and> starts_with t ''-'' then t else c # t)"

definition strip_dashes :: "string \<Rightarrow> string" where
  "strip_dashes s =
     (let t = (if starts_with s ''-'' then tl s else s)
      in if ends_with t ''-'' then butlast t else t)"

definition normalizedHint :: "string \<Rightarrow> string" where
  "normalizedHint hint =
     strip_dashes (collapse_dashes
       (map (\<lambda>c. if is_az09 c \<or> c = CHR ''-'' then c else CHR ''-'') (to_lower (trim hint))))"

definition numbered :: "string \<Rightarrow> nat \<Rightarrow> string" where
  "numbered baseAlias idx = baseAlias @ ''-'' @ dec_digits idx"

text \<open>The loop that counts up until an alias is free; it ends, as only finitely many are taken.\<close>

definition taken_from :: "string list \<Rightarrow> string \<Rightarrow> nat \<Rightarrow> nat set" where
  "taken_from existing baseAlias idx = {k. idx \<le> k \<and> numbered baseAlias k \<in> set existing}"

lemma numbered_inject [simp]: "numbered b i = numbered b j \<longleftrightarrow> i = j"
  by (simp add: numbered_def)

lemma finite_taken_from: "finite (taken_from existing baseAlias idx)"
proof -
  have "finite {k. numbered baseAlias k \<in> set existing}"
    by (rule finite_vimageI [of "set existing" "numbered baseAlias", unfolded vimage_def])
      (auto simp: inj_on_def)
  then show ?thesis
    by (rule rev_finite_subset) (auto simp: taken_from_def)
qed

lemma taken_from_Suc:
  assumes "numbered baseAlias idx \<in> set existing"
  shows "card (taken_from existing baseAlias (Suc idx)) < card (taken_from existing baseAlias idx)"
proof (rule psubset_card_mono [OF finite_taken_from])
  have "idx \<in> taken_from existing baseAlias idx - taken_from existing baseAlias (Suc idx)"
    using assms by (simp add: taken_from_def)
  moreover have "taken_from existing baseAlias (Suc idx) \<subseteq> taken_from existing baseAlias idx"
    by (auto simp: taken_from_def)
  ultimately show "taken_from existing baseAlias (Suc idx) \<subset> taken_from existing baseAlias idx"
    by blast
qed

function fresh_numbered :: "string list \<Rightarrow> string \<Rightarrow> nat \<Rightarrow> string" where
  "fresh_numbered existing baseAlias idx =
     (if numbered baseAlias idx \<in> set existing then fresh_numbered existing baseAlias (Suc idx)
      else numbered baseAlias idx)"
  by auto

termination
  by (relation "measure (\<lambda>(existing, baseAlias, idx). card (taken_from existing baseAlias idx))")
    (auto simp: taken_from_Suc)

declare fresh_numbered.simps [simp del]

definition fresh_alias :: "string list \<Rightarrow> string \<Rightarrow> string" where
  "fresh_alias existing baseAlias =
     (if baseAlias \<in> set existing then fresh_numbered existing baseAlias 2 else baseAlias)"

text \<open>The new server takes a colour and an emoji the others do not use, if any is left.\<close>

definition createServer ::
  "(nat \<Rightarrow> nat) \<Rightarrow> (nat \<Rightarrow> nat) \<Rightarrow> string \<Rightarrow> ServerState list \<Rightarrow> ServerState" where
  "createServer draw_c draw_e alias existingServers =
     \<lparr>sv_alias = alias, sv_description = [], sv_primaryDomain = DEFAULT_PRIMARY_DOMAIN,
      sv_requirementServerType = ''vps'', sv_requirementStorageGb = ''200'',
      sv_requirementLocation = ''Germany'', sv_host = [], sv_port = ''22'', sv_user = ''root'',
      sv_color = pickUniqueDeviceColor draw_c (toColorSet (map sv_color existingServers)),
      sv_logoEmoji = pickUniqueDeviceEmoji draw_e (toEmojiSet (map sv_logoEmoji existingServers)),
      sv_authMethod = ''password'', sv_password = [], sv_privateKey = [], sv_publicKey = [],
      sv_keyAlgorithm = ''ed25519'', sv_keyPassphrase = []\<rparr>"

definition addServer ::
  "(string \<Rightarrow> ServerState list \<Rightarrow> ServerState) \<Rightarrow> string \<Rightarrow> selection_state \<Rightarrow> selection_state
   \<Rightarrow> string \<times> selection_state" where
  "addServer create aliasHint cap st =
     (let hint = normalizedHint aliasHint;
          alias = fresh_alias (to_set (aliases cap)) (if hint \<noteq> [] then hint else ''device'');
          newServer = create alias (ss_servers cap)
      in (alias, log_visual alias (Some (sv_color newServer)) (Some (sv_logoEmoji newServer))
            (st\<lparr>ss_servers := normalizePersistedDeviceMeta (ss_servers st @ [newServer]),
                ss_selected := AList.update alias [] (ss_selected st),
                ss_activeAlias := alias\<rparr>)))"

subsection \<open>Removing a server\<close>

definition removeServerFromClient :: "string \<Rightarrow> selection_state \<Rightarrow> selection_state \<Rightarrow> selection_state" where
  "removeServerFromClient alias cap st =
     (if alias = [] then st
      else
        let next = filter (\<lambda>server. sv_alias server \<noteq> alias) (ss_servers st)
        in st\<lparr>
          ss_servers := normalizePersistedDeviceMeta next,
          ss_activeAlias := (if ss_activeAlias cap = alias
                             then (case next of server # _ \<Rightarrow> sv_alias server | [] \<Rightarrow> [])
                             else ss_activeAlias st),
          ss_selected := AList.delete alias (ss_selected st),
          ss_plans := AList.delete alias (ss_plans st),
          ss_connectionResults := AList.delete alias (ss_connectionResults st),
          ss_openCredentialsAlias := (if ss_openCredentialsAlias st = Some alias then None
                                      else ss_openCredentialsAlias st),
          ss_deploySelection := set_del alias (ss_deploySelection st),
          ss_deployedAliases := set_del alias (ss_deployedAliases st),
          ss_touched := True\<rparr>)"

definition workspace_ready :: "selection_state \<Rightarrow> bool" where
  "workspace_ready st \<longleftrightarrow>
     ss_workspaceId st \<noteq> None \<and> ss_workspaceId st \<noteq> Some [] \<and> ss_inventoryReady st"

definition not_ready :: string where
  "not_ready = ''Workspace inventory is not ready yet.''"

definition removeServer ::
  "string \<Rightarrow> selection_state \<Rightarrow> selection_state \<Rightarrow> string + selection_state" where
  "removeServer alias cap st =
     (if alias = [] then Inr st
      else if \<not> workspace_ready cap then Inl not_ready
      else Inr (removeServerFromClient alias cap
             (st\<lparr>ss_aliasDeletes := ss_aliasDeletes st @ [alias]\<rparr>)))"

definition cleanupServer ::
  "string \<Rightarrow> selection_state \<Rightarrow> selection_state \<Rightarrow> string + selection_state" where
  "cleanupServer alias cap st =
     (if alias = [] then Inr st
      else if \<not> workspace_ready cap then Inl not_ready
      else Inr (removeServerFromClient alias cap
             (st\<lparr>ss_aliasCleanups := ss_aliasCleanups st @ [alias]\<rparr>)))"

subsection \<open>Selecting roles\<close>

definition selected_for :: "selection_state \<Rightarrow> string \<Rightarrow> string list" where
  "selected_for st alias = opt_list (map_of (ss_selected st) alias)"

definition toggleSelectedForAlias ::
  "(string \<Rightarrow> string) \<Rightarrow> string \<Rightarrow> string \<Rightarrow> selection_state \<Rightarrow> selection_state \<Rightarrow> selection_state" where
  "toggleSelectedForAlias defaultPlan alias rid cap st =
     (let targetAlias = trim alias; roleId = trim rid in
      if targetAlias = [] \<or> roleId = [] then st
      else
        let nextEnabled = roleId \<notin> set (selected_for cap targetAlias);
            current = fields_of (ss_plans st) targetAlias;
            plan = (if nextEnabled
                    then Some (if no_plan current roleId then defaultPlan roleId
                               else the (the (map_of current roleId)))
                    else None)
        in st\<lparr>ss_selected := AList.update targetAlias (set_toggle roleId (selected_for st targetAlias))
                 (ss_selected st),
              ss_plans := AList.update targetAlias (AList.update roleId plan current) (ss_plans st),
              ss_touched := True\<rparr>)"

definition toggleSelected ::
  "(string \<Rightarrow> string) \<Rightarrow> string \<Rightarrow> selection_state \<Rightarrow> selection_state \<Rightarrow> selection_state" where
  "toggleSelected defaultPlan rid cap st =
     (if ss_activeAlias cap = [] then st
      else toggleSelectedForAlias defaultPlan (ss_activeAlias cap) rid cap st)"

subsection \<open>Selecting what to deploy\<close>

definition toggleDeployAlias :: "string \<Rightarrow> selection_state \<Rightarrow> selection_state" where
  "toggleDeployAlias alias st =
     (if alias = [] then st
      else st\<lparr>ss_deploySelection := set_toggle alias (ss_deploySelection st)\<rparr>)"

definition selectAllDeployAliases :: "string list \<Rightarrow> selection_state \<Rightarrow> selection_state" where
  "selectAllDeployAliases selectable st = st\<lparr>ss_deploySelection := to_set selectable\<rparr>"

definition deselectAllDeployAliases :: "selection_state \<Rightarrow> selection_state" where
  "deselectAllDeployAliases st = st\<lparr>ss_deploySelection := []\<rparr>"

definition toggleDeployRole :: "string \<Rightarrow> selection_state \<Rightarrow> selection_state" where
  "toggleDeployRole roleId st =
     (let key = trim roleId in
      if key = [] then st
      else st\<lparr>ss_deployRoleFilter := set_toggle key (ss_deployRoleFilter st)\<rparr>)"

definition selectAllDeployRoles :: "string list \<Rightarrow> selection_state \<Rightarrow> selection_state" where
  "selectAllDeployRoles roleIds st = st\<lparr>ss_deployRoleFilter := to_set roleIds\<rparr>"

definition deselectAllDeployRoles :: "selection_state \<Rightarrow> selection_state" where
  "deselectAllDeployRoles st = st\<lparr>ss_deployRoleFilter := []\<rparr>"

definition handleConnectionResult ::
  "string \<Rightarrow> ConnectionResult \<Rightarrow> selection_state \<Rightarrow> selection_state" where
  "handleConnectionResult alias result st =
     (let key = trim alias in
      if key = [] then st
      else st\<lparr>ss_connectionResults := AList.update key result (ss_connectionResults st)\<rparr>)"

subsection \<open>A server ordered from a provider\<close>

record OrderedProviderServer =
  os_alias :: string
  os_ansible_host :: string
  os_ansible_user :: string
  os_ansible_port :: num
  os_requirementServerType :: "string option"
  os_requirementStorageGb :: "string option"
  os_requirementLocation :: "string option"

text \<open>\<open>String(value || fallback).trim() || fallback\<close>\<close>

definition requirement_or :: "string option \<Rightarrow> string \<Rightarrow> string" where
  "requirement_or v fallback =
     (let s = trim (if opt_else v [] \<noteq> [] then opt_else v [] else fallback)
      in if s \<noteq> [] then s else fallback)"

definition ordered_patch ::
  "(nat \<Rightarrow> nat) \<Rightarrow> (nat \<Rightarrow> nat) \<Rightarrow> OrderedProviderServer \<Rightarrow> ServerState list \<Rightarrow> ServerState" where
  "ordered_patch draw_c draw_e device servers =
     \<lparr>sv_alias = trim (os_alias device), sv_description = [], sv_primaryDomain = DEFAULT_PRIMARY_DOMAIN,
      sv_requirementServerType = requirement_or (os_requirementServerType device) ''vps'',
      sv_requirementStorageGb = requirement_or (os_requirementStorageGb device) ''200'',
      sv_requirementLocation = requirement_or (os_requirementLocation device) ''Germany'',
      sv_host = os_ansible_host device,
      sv_port = (if truthy (JNum (os_ansible_port device)) then num_str (os_ansible_port device) else ''22''),
      sv_user = (if os_ansible_user device \<noteq> [] then os_ansible_user device else ''root''),
      sv_color = pickUniqueDeviceColor draw_c (to_set (map sv_color servers)),
      sv_logoEmoji = pickUniqueDeviceEmoji draw_e (to_set (map sv_logoEmoji servers)),
      sv_authMethod = ''password'', sv_password = [], sv_privateKey = [], sv_publicKey = [],
      sv_keyAlgorithm = ''ed25519'', sv_keyPassphrase = []\<rparr>"

definition connect_ordered :: "ServerState \<Rightarrow> ServerState \<Rightarrow> ServerState" where
  "connect_ordered patch server = server\<lparr>
     sv_host := sv_host patch, sv_user := sv_user patch, sv_port := sv_port patch,
     sv_requirementServerType := sv_requirementServerType patch,
     sv_requirementStorageGb := sv_requirementStorageGb patch,
     sv_requirementLocation := sv_requirementLocation patch\<rparr>"

definition handleProviderOrderedServer ::
  "(nat \<Rightarrow> nat) \<Rightarrow> (nat \<Rightarrow> nat) \<Rightarrow> OrderedProviderServer \<Rightarrow> selection_state \<Rightarrow> selection_state
   \<Rightarrow> selection_state" where
  "handleProviderOrderedServer draw_c draw_e device cap st =
     (let alias = trim (os_alias device) in
      if alias = [] then st
      else
        let patch = ordered_patch draw_c draw_e device (ss_servers cap);
            servers = normalizePersistedDeviceMeta
              (case find_index (\<lambda>server. sv_alias server = alias) (ss_servers st) of
                 Some idx \<Rightarrow> (ss_servers st)[idx := connect_ordered patch (ss_servers st ! idx)]
               | None \<Rightarrow> ss_servers st @ [patch]);
            st1 = st\<lparr>ss_servers := servers\<rparr>;
            st2 = (if alias \<in> set (aliases cap) then st1
                   else log_visual alias (Some (sv_color patch)) (Some (sv_logoEmoji patch)) st1)
        in st2\<lparr>ss_selected := (if map_of (ss_selected st2) alias \<noteq> None then ss_selected st2
                               else AList.update alias [] (ss_selected st2)),
               ss_plans := (if map_of (ss_plans st2) alias \<noteq> None then ss_plans st2
                            else AList.update alias [] (ss_plans st2)),
               ss_activeAlias := alias\<rparr>)"

subsection \<open>Derived selections and their effects\<close>

definition selectedRolesByAlias :: "selection_state \<Rightarrow> (string \<times> string list) list" where
  "selectedRolesByAlias st = own_entries (ss_selected st)"

definition selectedRoles :: "selection_state \<Rightarrow> string list" where
  "selectedRoles st = opt_list (map_of (selectedRolesByAlias st) (ss_activeAlias st))"

definition syncSelectedPlans :: "(string \<Rightarrow> string) \<Rightarrow> selection_state \<Rightarrow> selection_state" where
  "syncSelectedPlans defaultPlan st = st\<lparr>ss_plans :=
     foldl (\<lambda>next (alias, roleSet).
       AList.update alias (sync_plans defaultPlan roleSet (fields_of next alias)) next)
       (ss_plans st) (own_entries (ss_selected st))\<rparr>"

text \<open>A server that can be deployed: it has roles and complete credentials.\<close>

definition port_valid :: "string \<Rightarrow> bool" where
  "port_valid port =
     (let portRaw = trim port; portNum = str_num portRaw in
      portRaw = [] \<or> num_is_int portNum \<and> \<not> num_lt_int portNum 1 \<and> \<not> num_gt_int portNum 65535)"

definition isConfigured :: "ServerState \<Rightarrow> bool" where
  "isConfigured server \<longleftrightarrow>
     trim (sv_host server) \<noteq> [] \<and> trim (sv_user server) \<noteq> []
     \<and> (if sv_authMethod server = ''private_key'' then trim (sv_privateKey server) \<noteq> []
        else trim (sv_password server) \<noteq> [])
     \<and> port_valid (sv_port server)"

definition selectableAliases :: "selection_state \<Rightarrow> string list" where
  "selectableAliases st =
     concat (map (\<lambda>server.
       let alias = trim (sv_alias server) in
       if alias = [] then []
       else
         let roles = filter (\<lambda>roleId. ss_deployRoleFilter st = [] \<or> roleId \<in> set (ss_deployRoleFilter st))
               (opt_list (map_of (selectedRolesByAlias st) alias))
         in if roles \<noteq> [] \<and> isConfigured server \<and> alias \<notin> set (ss_deployedAliases st) then [alias]
            else []) (ss_servers st))"

definition inventoryRoleIds :: "(string \<Rightarrow> string \<Rightarrow> int) \<Rightarrow> selection_state \<Rightarrow> string list" where
  "inventoryRoleIds lc st =
     js_sort lc (to_set (trimmed_tokens (concat (map snd (own_entries (ss_selected st))))))"

definition deployRoleOptions :: "string \<Rightarrow> string list \<Rightarrow> string list" where
  "deployRoleOptions deployRoleQuery roleIds =
     (let query = to_lower (trim deployRoleQuery) in
      if query = [] then roleIds else filter (\<lambda>roleId. str_includes (to_lower roleId) query) roleIds)"

definition deployRoleSummary :: "string list \<Rightarrow> string list \<Rightarrow> string" where
  "deployRoleSummary roleIds roleFilter =
     (if roleIds = [] then ''No apps in inventory''
      else if roleFilter = [] then ''No apps selected''
      else if length roleFilter = length roleIds
      then ''All apps ('' @ dec_digits (length roleIds) @ '')''
      else dec_digits (length roleFilter) @ '' apps selected'')"

text \<open>Pruning a selection to what is allowed; when nothing is left everything is selected again.\<close>

definition prune_or_all :: "string list \<Rightarrow> string list \<Rightarrow> string list" where
  "prune_or_all allowed prev =
     (let next = filter (\<lambda>x. x \<in> set allowed) prev
      in if next = [] \<and> allowed \<noteq> [] then set_add_all allowed next else next)"

definition pruneDeploySelection :: "selection_state \<Rightarrow> selection_state" where
  "pruneDeploySelection st =
     st\<lparr>ss_deploySelection := prune_or_all (selectableAliases st) (ss_deploySelection st)\<rparr>"

definition pruneDeployedAliases :: "selection_state \<Rightarrow> selection_state" where
  "pruneDeployedAliases st =
     st\<lparr>ss_deployedAliases := filter (\<lambda>alias. alias \<in> set (aliases st)) (ss_deployedAliases st)\<rparr>"

definition pruneConnectionResults :: "selection_state \<Rightarrow> selection_state" where
  "pruneConnectionResults st =
     (let next = filter (\<lambda>(alias, _). alias \<in> set (aliases st)) (own_entries (ss_connectionResults st))
      in if length next \<noteq> length (ss_connectionResults st) then st\<lparr>ss_connectionResults := next\<rparr>
         else st)"

definition pruneDeployRoleFilter :: "(string \<Rightarrow> string \<Rightarrow> int) \<Rightarrow> selection_state \<Rightarrow> selection_state" where
  "pruneDeployRoleFilter lc st =
     st\<lparr>ss_deployRoleFilter := prune_or_all (inventoryRoleIds lc st) (ss_deployRoleFilter st)\<rparr>"

end
