(* ===== verification/SelectionStorage.thy ===== *)
theory SelectionStorage
  imports ServerSelection
begin

text \<open>
  The selection of a workspace in the browser's storage
  (\<open>deployment-workspace/useWorkspaceSelectionStorage.ts\<close>). A stored item is the document its
  text denotes, \<open>None\<close> when there is no item or its text is not JSON: writing stores the value
  that is passed to \<open>JSON.stringify\<close>, reading gets what \<open>JSON.parse\<close> returns. The storage maps
  the keys of the two items to documents; it is unavailable on the server.
\<close>

type_synonym storage = "(string \<times> jsval) list"

definition SELECTED_BY_ALIAS_KEY_PREFIX :: string where
  "SELECTED_BY_ALIAS_KEY_PREFIX = ''infinito.selectedByAlias.''"

definition SELECTED_PLANS_BY_ALIAS_KEY_PREFIX :: string where
  "SELECTED_PLANS_BY_ALIAS_KEY_PREFIX = ''infinito.selectedPlansByAlias.''"

definition selectedByAliasKey :: "string \<Rightarrow> string" where
  "selectedByAliasKey workspaceId = SELECTED_BY_ALIAS_KEY_PREFIX @ workspaceId"

definition selectedPlansByAliasKey :: "string \<Rightarrow> string" where
  "selectedPlansByAliasKey workspaceId = SELECTED_PLANS_BY_ALIAS_KEY_PREFIX @ workspaceId"

definition stored_item :: "string option \<Rightarrow> (string \<Rightarrow> string) \<Rightarrow> storage option \<Rightarrow> jsval" where
  "stored_item workspaceId key window =
     (case (window, workspaceId) of
        (Some items, Some ws) \<Rightarrow> if ws = [] then JNull else coalesce (jget (JObj items) (key ws)) JNull
      | _ \<Rightarrow> JNull)"

subsection \<open>Reading\<close>

definition parse_selected :: "jsval \<Rightarrow> (string \<times> string list) list" where
  "parse_selected parsed =
     (if \<not> is_obj parsed then []
      else foldl (\<lambda>out (alias, roles).
        let key = trim alias in
        case roles of
          JArr items \<Rightarrow> if key = [] then out
                       else AList.update key (to_set (nonempties (map id_token items))) out
        | _ \<Rightarrow> out) [] (jentries parsed))"

definition readSelectedByAlias :: "string option \<Rightarrow> storage option \<Rightarrow> (string \<times> string list) list" where
  "readSelectedByAlias workspaceId window =
     parse_selected (stored_item workspaceId selectedByAliasKey window)"

definition parse_plan_row :: "jsval \<Rightarrow> (string \<times> string option) list" where
  "parse_plan_row plans =
     foldl (\<lambda>inner (roleId, plan).
       let roleKey = trim roleId in
       if roleKey = [] then inner
       else AList.update roleKey (if nullish plan then None else str_opt (trim (js_str plan))) inner)
       [] (jentries plans)"

definition parse_plans :: "jsval \<Rightarrow> (string \<times> (string \<times> string option) list) list" where
  "parse_plans parsed =
     (if \<not> is_obj parsed then []
      else foldl (\<lambda>out (alias, plans).
        let key = trim alias in
        if key = [] \<or> \<not> is_obj plans then out else AList.update key (parse_plan_row plans) out)
        [] (jentries parsed))"

definition readSelectedPlansByAlias ::
  "string option \<Rightarrow> storage option \<Rightarrow> (string \<times> (string \<times> string option) list) list" where
  "readSelectedPlansByAlias workspaceId window =
     parse_plans (stored_item workspaceId selectedPlansByAliasKey window)"

subsection \<open>Writing\<close>

definition serialized_selected :: "(string \<times> string list) list \<Rightarrow> jsval" where
  "serialized_selected selected =
     JObj (foldl (\<lambda>out (alias, roles).
       let key = trim alias in
       if key = [] then out else AList.update key (JArr (map JStr (trimmed_tokens roles))) out)
       [] (own_entries selected))"

definition plan_value :: "string option \<Rightarrow> jsval" where
  "plan_value plan = (case plan of None \<Rightarrow> JNull | Some s \<Rightarrow> JStr s)"

definition serialized_plans :: "(string \<times> (string \<times> string option) list) list \<Rightarrow> jsval" where
  "serialized_plans plans =
     JObj (map (\<lambda>(alias, row). (alias, JObj (map (\<lambda>(r, p). (r, plan_value p)) row))) plans)"

definition useWorkspaceSelectionStorage ::
  "string option \<Rightarrow> (string \<times> string list) list \<Rightarrow> (string \<times> (string \<times> string option) list) list
   \<Rightarrow> storage option \<Rightarrow> storage option" where
  "useWorkspaceSelectionStorage workspaceId selected plans window =
     (case (window, workspaceId) of
        (Some items, Some ws) \<Rightarrow>
          if ws = [] then window
          else Some (AList.update (selectedPlansByAliasKey ws) (serialized_plans plans)
                 (AList.update (selectedByAliasKey ws) (serialized_selected selected) items))
      | _ \<Rightarrow> window)"

subsection \<open>Reading what was written\<close>

lemma storage_keys_differ [simp]: "selectedByAliasKey ws \<noteq> selectedPlansByAliasKey ws'"
  by (simp add: selectedByAliasKey_def selectedPlansByAliasKey_def SELECTED_BY_ALIAS_KEY_PREFIX_def
      SELECTED_PLANS_BY_ALIAS_KEY_PREFIX_def)

definition clean_selected :: "(string \<times> string list) list \<Rightarrow> bool" where
  "clean_selected m \<longleftrightarrow> distinct (map fst m) \<and>
     list_all (\<lambda>(a, rs). token a \<and> distinct rs \<and> list_all token rs) m"

definition clean_plans :: "(string \<times> (string \<times> string option) list) list \<Rightarrow> bool" where
  "clean_plans m \<longleftrightarrow> distinct (map fst m) \<and>
     list_all (\<lambda>(a, row). token a \<and> distinct (map fst row) \<and>
       list_all (\<lambda>(r, p). token r \<and> (case p of None \<Rightarrow> True | Some s \<Rightarrow> token s)) row) m"

lemma foldl_keys_distinct:
  assumes "\<And>out x. distinct (map fst out) \<Longrightarrow> distinct (map fst (step out x))"
    and "distinct (map fst out)"
  shows "distinct (map fst (foldl step out xs))"
  using assms(2) by (induction xs arbitrary: out) (auto simp: assms(1))

lemma id_token_map: "map id_token (map JStr ss) = map trim ss"
  by simp

lemma map_of_parse_selected:
  assumes m: "clean_selected m"
  shows "map_of (parse_selected (serialized_selected m)) = map_of m"
proof
  fix k
  let ?put = "\<lambda>out (alias, roles). let key = trim alias in if key = [] then out
      else AList.update key (JArr (map JStr (trimmed_tokens roles))) out"
  define w where "w = foldl ?put [] (own_entries m)"
  have keys: "distinct (map fst (own_entries m))"
    using m by (simp add: clean_selected_def)
  have clean: "token (fst x) \<and> distinct (snd x) \<and> list_all token (snd x)" if "x \<in> set m" for x
    using m that by (auto simp: clean_selected_def list_all_iff)
  have tokens: "trimmed_tokens (snd x) = snd x" if "x \<in> set m" for x
    using clean [OF that] by (auto simp: list_all_iff token_def intro: trimmed_tokens_id)
  have w: "map_of w j = map_option (\<lambda>rs. JArr (map JStr rs)) (map_of m j)" for j
  proof -
    have "map_of w j = (case map_of (own_entries m) j of None \<Rightarrow> map_of [] j
        | Some rs \<Rightarrow> Some (JArr (map JStr rs)))"
      unfolding w_def using keys tokens clean
      by (intro map_of_foldl_entries) (auto simp: token_def Let_def split: prod.splits)
    with m show ?thesis
      by (auto simp: map_of_own_entries clean_selected_def split: option.splits)
  qed
  have dw: "distinct (map fst w)"
    unfolding w_def by (rule foldl_keys_distinct) (auto simp: Let_def split: prod.splits)
  have items: "\<exists>rs. snd x = JArr (map JStr rs) \<and> trim (fst x) = fst x \<and> fst x \<noteq> []" if "x \<in> set w" for x
  proof -
    have "map_of w (fst x) = Some (snd x)"
      using that dw by simp
    with w [of "fst x"] obtain rs where "map_of m (fst x) = Some rs" "snd x = JArr (map JStr rs)"
      by (cases "map_of m (fst x)") auto
    with clean [of "(fst x, rs)"] show ?thesis
      by (auto simp: token_def dest: map_of_SomeD)
  qed
  have "map_of (parse_selected (JObj w)) k = (case map_of (own_entries w) k of None \<Rightarrow> map_of [] k
      | Some v \<Rightarrow> Some (to_set (nonempties (map id_token (arr_items v)))))"
    unfolding parse_selected_def is_obj_def jentries_def
    by (simp, rule map_of_foldl_entries) (use dw in \<open>auto simp: arr_items_def dest!: items\<close>)
  moreover have "to_set (nonempties (map id_token (map JStr rs))) = rs" if "map_of m k = Some rs" for rs
    using tokens [of "(k, rs)"] clean [of "(k, rs)"] that
    by (simp add: trimmed_tokens_def map_of_SomeD id_token_map del: map_map)
  ultimately show "map_of (parse_selected (serialized_selected m)) k = map_of m k"
    using w dw
    by (auto simp: serialized_selected_def w_def [symmetric] arr_items_def map_of_own_entries
        split: option.splits)
qed

lemma map_of_parse_plan_row:
  assumes row: "distinct (map fst row)" "list_all (\<lambda>(r, p). token r \<and>
      (case p of None \<Rightarrow> True | Some s \<Rightarrow> token s)) row"
  shows "map_of (parse_plan_row (JObj (map (\<lambda>(r, p). (r, plan_value p)) row))) = map_of row"
proof
  fix r
  let ?m = "map (\<lambda>(r, p). (r, plan_value p)) row"
  let ?read = "\<lambda>plan. if nullish plan then None else str_opt (trim (js_str plan))"
  have dm: "distinct (map fst ?m)"
    using row(1) by (simp add: comp_def case_prod_beta')
  have mm: "map_of ?m r = map_option plan_value (map_of row r)" for r
    by (induction row) auto
  have keys: "trim r = r \<and> r \<noteq> []" if "(r, p) \<in> set row" for r p
    using row(2) that by (auto simp: list_all_iff token_def)
  have "map_of (parse_plan_row (JObj ?m)) r = (case map_of (own_entries ?m) r of None \<Rightarrow> map_of [] r
      | Some v \<Rightarrow> Some (?read v))"
    unfolding parse_plan_row_def jentries_def
    by (simp only: jsval.case, rule map_of_foldl_entries)
      (use dm in \<open>auto simp: Let_def dest: keys\<close>)
  moreover have "?read (plan_value p) = p" if "map_of row r = Some p" for p
    using map_of_SomeD [OF that] row(2)
    by (auto simp: list_all_iff plan_value_def token_def str_opt_def nullish_def split: option.splits)
  ultimately show "map_of (parse_plan_row (JObj ?m)) r = map_of row r"
    using dm by (auto simp: map_of_own_entries mm split: option.splits)
qed

lemma map_of_parse_plans:
  assumes m: "clean_plans m"
  shows "map_option map_of (map_of (parse_plans (serialized_plans m)) k) = map_option map_of (map_of m k)"
proof -
  let ?row = "\<lambda>row. JObj (map (\<lambda>(r, p). (r, plan_value p)) row)"
  let ?m = "map (\<lambda>(a, row). (a, ?row row)) m"
  have dm: "distinct (map fst ?m)"
    using m by (simp add: clean_plans_def comp_def case_prod_beta')
  have mm: "map_of ?m k = map_option ?row (map_of m k)"
    by (induction m) auto
  have keys: "trim a = a \<and> a \<noteq> []" if "(a, row) \<in> set m" for a row
    using m that by (auto simp: clean_plans_def list_all_iff token_def)
  have "map_of (parse_plans (JObj ?m)) k = (case map_of (own_entries ?m) k of None \<Rightarrow> map_of [] k
      | Some v \<Rightarrow> Some (parse_plan_row v))"
    unfolding parse_plans_def jentries_def is_obj_def
    by (simp only: jsval.case not_True_eq_False if_False, rule map_of_foldl_entries)
      (use dm in \<open>auto simp: Let_def dest: keys\<close>)
  moreover have "map_of (parse_plan_row (?row row)) = map_of row" if "map_of m k = Some row" for row
    using map_of_SomeD [OF that] m by (intro map_of_parse_plan_row) (auto simp: clean_plans_def list_all_iff)
  ultimately show ?thesis
    using dm by (auto simp: serialized_plans_def map_of_own_entries mm split: option.splits)
qed

lemma coalesce_serialized [simp]:
  "coalesce (serialized_selected m) v = serialized_selected m"
  "coalesce (serialized_plans m') v = serialized_plans m'"
  by (simp_all add: coalesce_def nullish_def serialized_selected_def serialized_plans_def)

text \<open>
  C10: a reload restores the selection. What the hook stores for a workspace is read back for it:
  every server's roles, and every server's plan for every role, are those stored, provided
  aliases, role ids and plans are trimmed and not empty, as every handler leaves them; the items
  of other workspaces are untouched.
\<close>

theorem selection_survives_reload:
  assumes "clean_selected selected" "clean_plans plans" "ws \<noteq> []"
  shows "let window' = useWorkspaceSelectionStorage (Some ws) selected plans (Some items) in
    map_of (readSelectedByAlias (Some ws) window') = map_of selected
    \<and> (\<lambda>a. map_option map_of (map_of (readSelectedPlansByAlias (Some ws) window') a))
        = (\<lambda>a. map_option map_of (map_of plans a))
    \<and> map_of (the window') |` (- {selectedByAliasKey ws, selectedPlansByAliasKey ws})
        = map_of items |` (- {selectedByAliasKey ws, selectedPlansByAliasKey ws})"
  using assms storage_keys_differ [of ws ws]
  by (auto simp: useWorkspaceSelectionStorage_def readSelectedByAlias_def readSelectedPlansByAlias_def
      stored_item_def map_of_parse_selected map_of_parse_plans restrict_map_def fun_eq_iff)

definition demo_roles :: "(string \<times> string list) list" where
  "demo_roles = [(''web'', [''wiki'', ''blog'']), (''7'', [])]"

definition demo_plans :: "(string \<times> (string \<times> string option) list) list" where
  "demo_plans = [(''web'', [(''wiki'', Some ''pro''), (''blog'', None)]), (''7'', [])]"

theorem selection_survives_reload_witness:
  "let window' = useWorkspaceSelectionStorage (Some ''w1'') demo_roles demo_plans (Some [(''theme'', JStr ''dark'')]) in
    map_of (readSelectedByAlias (Some ''w1'') window') = map_of demo_roles
    \<and> (\<lambda>a. map_option map_of (map_of (readSelectedPlansByAlias (Some ''w1'') window') a))
        = (\<lambda>a. map_option map_of (map_of demo_plans a))
    \<and> map_of (the window') |` (- {selectedByAliasKey ''w1'', selectedPlansByAliasKey ''w1''})
        = map_of [(''theme'', JStr ''dark'')] |` (- {selectedByAliasKey ''w1'', selectedPlansByAliasKey ''w1''})"
  by (rule selection_survives_reload) code_simp+

end
