(* ===== verification/DashboardFilters.thy ===== *)
theory DashboardFilters
  imports Roles
begin

text \<open>
  The vocabulary of the role dashboard: \<open>role-dashboard/dashboard-filters.ts\<close> (facets, targets,
  release tracks, query keys and the parsing of query values), \<open>constants.ts\<close>, \<open>helpers.ts\<close>
  (statuses, icons, links), \<open>lane-utils.ts\<close> and \<open>role-list-columns.ts\<close>. Emoji results are opaque
  tokens.
\<close>

subsection \<open>Enumerations\<close>

datatype ViewMode = Detail | ListView | RowView | ColumnView | Mini | Matrix

datatype SoftwareScope = Apps | Bundles

datatype ReleaseTrack = Stable | Preview

datatype DeployTargetFilter = All_targets | Universal | Server | Workstation

fun view_str :: "ViewMode \<Rightarrow> string" where
  "view_str Detail = ''detail''"
| "view_str ListView = ''list''"
| "view_str RowView = ''row''"
| "view_str ColumnView = ''column''"
| "view_str Mini = ''mini''"
| "view_str Matrix = ''matrix''"

fun scope_str :: "SoftwareScope \<Rightarrow> string" where
  "scope_str Apps = ''apps''"
| "scope_str Bundles = ''bundles''"

fun track_str :: "ReleaseTrack \<Rightarrow> string" where
  "track_str Stable = ''stable''"
| "track_str Preview = ''preview''"

fun target_str :: "DeployTargetFilter \<Rightarrow> string" where
  "target_str All_targets = ''all''"
| "target_str Universal = ''universal''"
| "target_str Server = ''server''"
| "target_str Workstation = ''workstation''"

definition VIEW_MODES :: "ViewMode list" where
  "VIEW_MODES = [Detail, ListView, RowView, ColumnView, Mini, Matrix]"

definition DEFAULT_VIEW_MODES :: "ViewMode list" where
  "DEFAULT_VIEW_MODES = [Detail, ListView, Mini, Matrix]"

definition ANIMATED_VIEW_MODES :: "ViewMode list" where
  "ANIMATED_VIEW_MODES = [RowView, ColumnView]"

definition ROW_FILTER_OPTIONS :: "int list" where
  "ROW_FILTER_OPTIONS = [1, 2, 3, 5, 10, 20, 100, 500, 1000]"

definition TARGET_FILTER_OPTIONS :: "DeployTargetFilter list" where
  "TARGET_FILTER_OPTIONS = [All_targets, Universal, Server, Workstation]"

definition RELEASE_TRACK_OPTIONS :: "ReleaseTrack list" where
  "RELEASE_TRACK_OPTIONS = [Stable, Preview]"

definition LIFECYCLE_STABLE_ALLOWED :: "string list" where
  "LIFECYCLE_STABLE_ALLOWED = [''beta'', ''stable'', ''maintenance'']"

definition LIFECYCLE_PREVIEW_EXPERT_ALLOWED :: "string list" where
  "LIFECYCLE_PREVIEW_EXPERT_ALLOWED = [''alpha'', ''beta'', ''stable'', ''maintenance'']"

text \<open>The member of an enumeration a query value names, if it names one.\<close>

definition named :: "('a \<Rightarrow> string) \<Rightarrow> 'a list \<Rightarrow> string \<Rightarrow> 'a option" where
  "named str options value = find (\<lambda>x. str x = value) options"

definition isReleaseTrack :: "string \<Rightarrow> bool" where
  "isReleaseTrack value \<longleftrightarrow> named track_str RELEASE_TRACK_OPTIONS value \<noteq> None"

definition isDeployTargetFilter :: "string \<Rightarrow> bool" where
  "isDeployTargetFilter value \<longleftrightarrow> named target_str TARGET_FILTER_OPTIONS value \<noteq> None"

record SwQueryKeys =
  sq_scope :: string
  sq_track :: string
  sq_search :: string
  sq_target :: string
  sq_status :: string
  sq_categories :: string
  sq_tags :: string
  sq_selected :: string
  sq_view :: string
  sq_rows :: string
  sq_listOpen :: string
  sq_listClosed :: string
  sq_bundleListOpen :: string
  sq_bundleListClosed :: string

definition SW_QUERY_KEYS :: SwQueryKeys where
  "SW_QUERY_KEYS =
     \<lparr>sq_scope = ''sw_scope'', sq_track = ''sw_track'', sq_search = ''sw_search'',
      sq_target = ''sw_target'', sq_status = ''sw_status'', sq_categories = ''sw_categories'',
      sq_tags = ''sw_tags'', sq_selected = ''sw_selected'', sq_view = ''sw_view'',
      sq_rows = ''sw_rows'', sq_listOpen = ''sw_list_open'', sq_listClosed = ''sw_list_closed'',
      sq_bundleListOpen = ''sw_bundle_list_open'', sq_bundleListClosed = ''sw_bundle_list_closed''\<rparr>"

subsection \<open>Facets and query values\<close>

definition normalizeFacet :: "string \<Rightarrow> string" where
  "normalizeFacet value = to_lower (trim value)"

definition normalizeDeployTarget :: "string \<Rightarrow> string" where
  "normalizeDeployTarget value =
     (let normalized = normalizeFacet value in
      if normalized = ''servers'' then ''server''
      else if normalized = ''workstations'' then ''workstation''
      else normalized)"

definition parseCsvParam :: "string option \<Rightarrow> string list" where
  "parseCsvParam value = nonempties (map trim (split_on (CHR '','') (opt_list value)))"

definition parseFacetCsvParam :: "string option \<Rightarrow> string list" where
  "parseFacetCsvParam value = nonempties (map normalizeFacet (split_on (CHR '','') (opt_list value)))"

definition parseListColumnCsvParam :: "string option \<Rightarrow> string list \<Rightarrow> string list" where
  "parseListColumnCsvParam value allowedColumns =
     (let seen = foldl (\<lambda>seen entry. if entry \<notin> set allowedColumns then seen else set_add entry seen)
            [] (map (\<lambda>entry. to_lower (trim entry)) (split_on (CHR '','') (opt_list value)))
      in filter (\<lambda>entry. entry \<in> set seen) allowedColumns)"

definition normalizeListColumnState ::
  "string list \<Rightarrow> string list \<Rightarrow> string list \<Rightarrow> string list \<times> string list" where
  "normalizeListColumnState openColumns closedColumns allColumns =
     (let openSet = to_set openColumns;
          closedSet = to_set closedColumns;
          openSet' = foldl (\<lambda>s column.
            if column \<in> set s \<and> column \<in> set closedSet then set_del column s else s) openSet allColumns
      in (filter (\<lambda>column. column \<in> set openSet') allColumns,
          filter (\<lambda>column. column \<in> set closedSet) allColumns))"

definition collect_facets :: "'a list \<Rightarrow> ('a \<Rightarrow> string list option) \<Rightarrow> (string \<times> string) list" where
  "collect_facets entries getter =
     foldl (\<lambda>seen entry.
       let label = trim entry; key = normalizeFacet label in
       if label = [] \<or> key = [] \<or> map_of seen key \<noteq> None then seen else AList.update key label seen)
       [] (concat (map (\<lambda>item. opt_list (getter item)) entries))"

definition collectFacetValues ::
  "(string \<Rightarrow> string \<Rightarrow> int) \<Rightarrow> 'a list \<Rightarrow> ('a \<Rightarrow> string list option) \<Rightarrow> string list" where
  "collectFacetValues lc entries getter = js_sort lc (map snd (collect_facets entries getter))"

subsection \<open>Statuses\<close>

definition STATUS_ORDER :: "string list" where
  "STATUS_ORDER = [''stable'', ''beta'', ''alpha'', ''pre-alpha'', ''deprecated'']"

definition status_index :: "string \<Rightarrow> int" where
  "status_index s = (case find_index (\<lambda>t. t = s) STATUS_ORDER of None \<Rightarrow> 999 | Some i \<Rightarrow> int i)"

definition status_cmp :: "(string \<Rightarrow> string \<Rightarrow> int) \<Rightarrow> string \<Rightarrow> string \<Rightarrow> int" where
  "status_cmp lc a b =
     (let aIdx = status_index a; bIdx = status_index b
      in if aIdx = bIdx then lc a b else aIdx - bIdx)"

definition sortStatuses :: "(string \<Rightarrow> string \<Rightarrow> int) \<Rightarrow> string list \<Rightarrow> string list" where
  "sortStatuses lc statuses = js_sort (status_cmp lc) statuses"

record StatusColor =
  sc_bg :: string
  sc_fg :: string
  sc_border :: string

definition bs_color :: "string \<Rightarrow> StatusColor" where
  "bs_color name =
     \<lparr>sc_bg = ''var(--bs-'' @ name @ ''-bg-subtle)'', sc_fg = ''var(--bs-'' @ name @ ''-text-emphasis)'',
      sc_border = ''var(--bs-'' @ name @ ''-border-subtle)''\<rparr>"

definition STATUS_COLORS :: "(string \<times> StatusColor) list" where
  "STATUS_COLORS =
     [(''stable'', bs_color ''success''), (''beta'', bs_color ''info''), (''alpha'', bs_color ''warning''),
      (''pre-alpha'', bs_color ''danger''), (''deprecated'', bs_color ''secondary'')]"

definition STATUS_COLOR_FALLBACK :: StatusColor where
  "STATUS_COLOR_FALLBACK = bs_color ''secondary''"

definition colorForStatus :: "string \<Rightarrow> StatusColor" where
  "colorForStatus status =
     (case map_of STATUS_COLORS status of Some c \<Rightarrow> c | None \<Rightarrow> STATUS_COLOR_FALLBACK)"

subsection \<open>Views\<close>

record ViewConfig =
  vc_minWidth :: int
  vc_minHeight :: int
  vc_iconSize :: int
  vc_showDescription :: bool
  vc_showTargets :: bool
  vc_showLinks :: bool
  vc_horizontal :: bool

definition view_config :: "int \<Rightarrow> int \<Rightarrow> int \<Rightarrow> bool \<Rightarrow> bool \<Rightarrow> ViewConfig" where
  "view_config w h icon details horizontal =
     \<lparr>vc_minWidth = w, vc_minHeight = h, vc_iconSize = icon, vc_showDescription = details,
      vc_showTargets = details, vc_showLinks = details, vc_horizontal = horizontal\<rparr>"

fun VIEW_CONFIG :: "ViewMode \<Rightarrow> ViewConfig" where
  "VIEW_CONFIG Detail = view_config 260 240 46 True False"
| "VIEW_CONFIG ListView = view_config 520 84 40 True True"
| "VIEW_CONFIG RowView = view_config 700 188 44 True True"
| "VIEW_CONFIG ColumnView = view_config 620 220 52 True True"
| "VIEW_CONFIG Mini = view_config 140 120 56 False False"
| "VIEW_CONFIG Matrix = view_config 960 48 32 False True"

subsection \<open>Names, targets and links of a role\<close>

text \<open>The maximal runs of characters of a class.\<close>

function runs :: "(char \<Rightarrow> bool) \<Rightarrow> string \<Rightarrow> string list" where
  "runs P [] = []"
| "runs P (c # s) = (if P c then takeWhile P (c # s) # runs P (dropWhile P s) else runs P s)"
  by pat_completeness auto

termination
  by (relation "measure (\<lambda>(P, s). length s)") (auto simp: le_imp_less_Suc length_dropWhile_le)

definition SIMPLEICON_STOP_WORDS :: "string list" where
  "SIMPLEICON_STOP_WORDS =
     [''the'', ''and'', ''for'', ''server'', ''service'', ''app'', ''apps'', ''web'', ''desktop'',
      ''platform'', ''proxy'', ''node'']"

definition icon_name :: "string \<Rightarrow> string" where
  "icon_name value =
     join '' '' (runs is_az09 (concat (map (\<lambda>c. if c = CHR ''&'' then ''and'' else [c]) value)))"

definition simpleIconCandidates :: "string \<Rightarrow> string \<Rightarrow> string list" where
  "simpleIconCandidates displayName roleId =
     (let fromName = icon_name (to_lower (trim displayName));
          fromId = icon_name (to_lower (trim roleId));
          parts = runs (\<lambda>c. \<not> ws_char c) (if fromName \<noteq> [] then fromName else fromId)
      in if parts = [] then []
         else
           let filtered = filter (\<lambda>part. part \<notin> set SIMPLEICON_STOP_WORDS) parts
           in to_set (nonempties
                ([concat parts, join ''-'' parts, last parts, concat filtered]
                 @ (if filtered = [] then [] else [last filtered]))))"

definition displayTargets :: "string list \<Rightarrow> string list" where
  "displayTargets targets = to_set (nonempties (map (\<lambda>t. to_lower (trim t)) targets))"

definition displayCategories :: "string list option \<Rightarrow> string list" where
  "displayCategories categories = to_set (nonempties (map trim (opt_list categories)))"

record QuickLink =
  ql_key :: string
  ql_label :: string
  ql_url :: "string option"
  ql_video :: bool
  ql_iconClass :: string

definition quick_link :: "string \<Rightarrow> string \<Rightarrow> string option \<Rightarrow> bool \<Rightarrow> string \<Rightarrow> QuickLink" where
  "quick_link key label url video icon =
     \<lparr>ql_key = key, ql_label = label, ql_url = url, ql_video = video, ql_iconClass = ''fa-solid '' @ icon\<rparr>"

definition quickLinksForRole :: "Role \<Rightarrow> QuickLink list" where
  "quickLinksForRole role =
     filter (\<lambda>item. ql_url item \<noteq> None \<and> ql_url item \<noteq> Some [])
       [quick_link ''documentation'' ''Documentation'' (ro_documentation role) False ''fa-book'',
        quick_link ''video'' ''Video'' (ro_video role) True ''fa-circle-play'',
        quick_link ''forum'' ''Forum'' (ro_forum role) False ''fa-comments'',
        quick_link ''homepage'' ''Homepage'' (ro_homepage role) False ''fa-house'',
        quick_link ''issues'' ''Issues'' (ro_issue_tracker_url role) False ''fa-bug'',
        quick_link ''license'' ''License'' (ro_license_url role) False ''fa-scale-balanced'']"

definition collapseEmojiForRole :: "Role \<Rightarrow> string" where
  "collapseEmojiForRole role =
     (let targets = map (\<lambda>t. to_lower (trim t)) (ro_deployment_targets role);
          hasUniversal = ''universal'' \<in> set targets;
          hasServer = ''server'' \<in> set targets;
          hasWorkstation = ''workstation'' \<in> set targets
      in if hasUniversal \<or> hasServer \<and> hasWorkstation then ''U+1F9E9''
         else if hasServer then ''U+1F5A5 U+FE0F''
         else if hasWorkstation then ''U+1F4BB''
         else ''U+1F4E6'')"

definition OPTIONAL_LIST_COLUMNS :: "string list" where
  "OPTIONAL_LIST_COLUMNS = [''version'', ''price'', ''status'', ''targets'', ''description'', ''links'']"

subsection \<open>Lanes\<close>

definition safe_lane_count :: "int \<Rightarrow> nat" where
  "safe_lane_count laneCount = nat (max 1 (if laneCount = 0 then 1 else laneCount))"

definition dealt :: "'a list \<Rightarrow> nat \<Rightarrow> 'a list list" where
  "dealt items n =
     foldl (\<lambda>lanes (index, item). lanes[index mod n := lanes ! (index mod n) @ [item]])
       (replicate n []) (enumerate 0 items)"

definition buildLanes :: "'a list \<Rightarrow> int \<Rightarrow> 'a list list" where
  "buildLanes items laneCount =
     (let lanes = dealt items (safe_lane_count laneCount)
      in if items = [] then lanes
         else map (\<lambda>(laneIndex, lane). if lane = [] then [items ! (laneIndex mod length items)] else lane)
                (enumerate 0 lanes))"

subsection \<open>Facets are collected once each\<close>

lemma normalizeFacet_trim [simp]: "normalizeFacet (trim s) = normalizeFacet s"
  by (simp add: normalizeFacet_def)

lemma normalizeFacet_idem: "normalizeFacet (normalizeFacet s) = normalizeFacet s"
  unfolding normalizeFacet_def
  by (metis to_lower_idem trim_trimmed trimmed_to_lower trimmed_trim)

interpretation facet: normaliser normalizeFacet
  by unfold_locales (rule normalizeFacet_idem)

lemma normalizeFacet_Nil: "normalizeFacet s = [] \<longleftrightarrow> trim s = []"
  by (simp add: normalizeFacet_def to_lower_def)

definition facet_map_ok :: "(string \<times> string) list \<Rightarrow> bool" where
  "facet_map_ok m \<longleftrightarrow> distinct (map fst m)
     \<and> (\<forall>(k, l) \<in> set m. k = normalizeFacet l \<and> k \<noteq> [] \<and> trim l = l)"

lemma update_fresh: "k \<notin> fst ` set m \<Longrightarrow> AList.update k v m = m @ [(k, v)]"
  by (induction m) auto

lemma collect_facets_fold:
  fixes m :: "(string \<times> string) list"
  defines "step \<equiv> \<lambda>seen entry. let label = trim entry; key = normalizeFacet label in
      if label = [] \<or> key = [] \<or> map_of seen key \<noteq> None then seen else AList.update key label seen"
  assumes "facet_map_ok m"
  shows "facet_map_ok (foldl step m ss)
    \<and> fst ` set (foldl step m ss) = fst ` set m \<union> (normalizeFacet ` set ss - {[]})"
  using assms(2)
proof (induction ss arbitrary: m)
  case (Cons s ss)
  let ?k = "normalizeFacet s"
  have step: "step m s = (if ?k = [] \<or> ?k \<in> fst ` set m then m else m @ [(?k, trim s)])"
    by (auto simp: step_def Let_def normalizeFacet_Nil map_of_eq_None_iff update_fresh)
  have ok: "facet_map_ok (step m s)"
    using Cons.prems unfolding step by (auto simp: facet_map_ok_def)
  have keys: "fst ` set (step m s) = fst ` set m \<union> ({?k} - {[]})"
    unfolding step by auto
  from Cons.IH [OF ok] keys show ?case
    by auto
qed simp

lemma collect_facets_all:
  "distinct (map normalizeFacet (collectFacetValues lc entries getter))
   \<and> normalizeFacet ` set (collectFacetValues lc entries getter)
     = normalizeFacet ` set (concat (map (\<lambda>item. opt_list (getter item)) entries)) - {[]}"
proof -
  let ?m = "collect_facets entries getter"
  have "facet_map_ok ?m \<and> fst ` set ?m
      = fst ` set ([] :: (string \<times> string) list)
        \<union> (normalizeFacet ` set (concat (map (\<lambda>item. opt_list (getter item)) entries)) - {[]})"
    unfolding collect_facets_def by (rule collect_facets_fold) (simp add: facet_map_ok_def)
  moreover have "map normalizeFacet (map snd ?m) = map fst ?m"
    using calculation by (auto simp: facet_map_ok_def)
  ultimately have "distinct (map normalizeFacet (map snd ?m))" "normalizeFacet ` snd ` set ?m
      = normalizeFacet ` set (concat (map (\<lambda>item. opt_list (getter item)) entries)) - {[]}"
    by (metis facet_map_ok_def, metis image_set Un_empty_left image_empty list.set(1))
  then show ?thesis
    by (simp add: collectFacetValues_def distinct_map_js_sort)
qed

lemma collect_facets_complete:
  "normalizeFacet ` set (collectFacetValues lc entries getter)
     = normalizeFacet ` set (concat (map (\<lambda>item. opt_list (getter item)) entries)) - {[]}"
  using collect_facets_all by blast

text \<open>
  The facet options offered are complete and without doubles. Every category or tag of an
  entry is offered in exactly one spelling, compared without case and outer white space, and
  blank ones are not offered.
\<close>

theorem collectFacetValues_complete:
  "distinct (map normalizeFacet (collectFacetValues lc entries getter))
   \<and> normalizeFacet ` set (collectFacetValues lc entries getter)
     = normalizeFacet ` set (concat (map (\<lambda>item. opt_list (getter item)) entries)) - {[]}"
  by (rule collect_facets_all)

subsection \<open>Lanes hold everything\<close>

lemma length_dealt [simp]: "length (dealt items n) = n"
proof -
  have "length (foldl (\<lambda>lanes (index, item). lanes[index mod n := lanes ! (index mod n) @ [item]]) acc xs)
      = length acc" for acc and xs :: "(nat \<times> 'a) list"
    by (induction xs arbitrary: acc) auto
  then show ?thesis
    by (simp add: dealt_def)
qed

lemma dealt_snoc:
  "dealt (items @ [x]) n =
     (dealt items n)[length items mod n := dealt items n ! (length items mod n) @ [x]]"
  by (simp add: dealt_def enumerate_append_eq)

lemma mset_concat_update:
  "i < length lanes \<Longrightarrow> mset (concat (lanes[i := lanes ! i @ [x]])) = add_mset x (mset (concat lanes))"
proof (induction lanes arbitrary: i)
  case (Cons l lanes)
  then show ?case
    by (cases i) auto
qed simp

lemma mset_dealt: "0 < n \<Longrightarrow> mset (concat (dealt items n)) = mset items"
proof (induction items rule: rev_induct)
  case Nil
  have "concat (replicate n ([] :: 'a list)) = []"
    by (induction n) auto
  then show ?case
    by (simp add: dealt_def)
next
  case (snoc x items)
  then show ?case
    by (simp add: dealt_snoc mset_concat_update)
qed

lemma dealt_lane_ne: "k < n \<Longrightarrow> k < length items \<Longrightarrow> dealt items n ! k \<noteq> []"
proof (induction items rule: rev_induct)
  case (snoc x items)
  then show ?case
    by (cases "k < length items") (auto simp: dealt_snoc nth_list_update less_Suc_eq)
qed simp

lemma safe_lane_count_pos: "0 < safe_lane_count k"
  by (simp add: safe_lane_count_def)

text \<open>
  The lanes show every item and no other, there are as many lanes as asked for (at least
  one), none of them is empty if there is an item at all, and if there are at least as many items
  as lanes every item is in one lane only.
\<close>

theorem buildLanes_deals:
  fixes items :: "'a list"
  assumes "items \<noteq> []"
  shows "length (buildLanes items k) = safe_lane_count k
    \<and> set (concat (buildLanes items k)) = set items
    \<and> [] \<notin> set (buildLanes items k)
    \<and> (safe_lane_count k \<le> length items \<longrightarrow> mset (concat (buildLanes items k)) = mset items)"
proof -
  let ?n = "safe_lane_count k"
  let ?lane = "\<lambda>i. if dealt items ?n ! i = [] then [items ! (i mod length items)] else dealt items ?n ! i"
  have lanes: "buildLanes items k = map ?lane [0..<?n]"
    using assms by (intro nth_equalityI) (auto simp: buildLanes_def Let_def nth_enumerate_eq)
  have all: "set (concat (dealt items ?n)) = set items"
    using mset_dealt [OF safe_lane_count_pos, of items k] by (metis set_mset_mset)
  have "set (?lane i) \<subseteq> set items" if "i < ?n" for i
  proof -
    have "set (dealt items ?n ! i) \<subseteq> set items"
      using that all nth_mem [of i "dealt items ?n"] by force
    then show ?thesis
      using assms by auto
  qed
  moreover have "set items \<subseteq> (\<Union>i \<in> {0..<?n}. set (?lane i))"
  proof
    fix x assume "x \<in> set items"
    then have "x \<in> set (concat (dealt items ?n))"
      using all by simp
    then obtain i where i: "i < ?n" "x \<in> set (dealt items ?n ! i)"
      by (auto simp: in_set_conv_nth [of _ "dealt items ?n"])
    then have "x \<in> set (?lane i)"
      by auto
    with i(1) show "x \<in> (\<Union>i \<in> {0..<?n}. set (?lane i))"
      by (intro UN_I [of i]) auto
  qed
  moreover have "set (concat (buildLanes items k)) = (\<Union>i \<in> {0..<?n}. set (?lane i))"
    unfolding lanes set_concat set_map set_upt image_image ..
  ultimately have "set (concat (buildLanes items k)) = set items"
    by (metis (no_types, lifting) UN_least atLeastLessThan_iff subset_antisym)
  moreover have "buildLanes items k = dealt items ?n" if "?n \<le> length items"
    unfolding lanes using that dealt_lane_ne [of _ ?n items] by (intro nth_equalityI) auto
  ultimately show ?thesis
    using mset_dealt [OF safe_lane_count_pos, of items k] by (auto simp: lanes split: if_splits)
qed

theorem buildLanes_deals_witness:
  "length (buildLanes ''abcde'' 3) = safe_lane_count 3
    \<and> set (concat (buildLanes ''abcde'' 3)) = set ''abcde''
    \<and> [] \<notin> set (buildLanes ''abcde'' 3)
    \<and> mset (concat (buildLanes ''abcde'' 3)) = mset ''abcde''"
proof -
  have "safe_lane_count 3 \<le> length ''abcde''"
    by code_simp
  with buildLanes_deals [of "''abcde''" 3] show ?thesis
    by simp
qed

end
