(* ===== verification/RoleFiltering.thy ===== *)
theory RoleFiltering
  imports DashboardFilters
begin

text \<open>
  Filtering, paging and animating the lists of the role dashboard
  (\<open>role-dashboard/useRoleDashboardFiltering.ts\<close>, \<open>lib/role_filter.js\<close>). The filters and the view
  are one record; every memoised value of the hook is a function of the roles, the bundles and
  this record. Numbers are integers: sizes in pixels, counts, pages and offsets.
\<close>

subsection \<open>Filters\<close>

record filters =
  fi_statusFilter :: "string list"
  fi_targetFilter :: DeployTargetFilter
  fi_categoryFilter :: "string list"
  fi_tagFilter :: "string list"
  fi_query :: string
  fi_showSelectedOnly :: bool
  fi_viewMode :: ViewMode
  fi_softwareScope :: SoftwareScope
  fi_isExpertMode :: bool
  fi_releaseTrack :: ReleaseTrack
  fi_rowsOverride :: "int option"
  fi_page :: int
  fi_animatedRoleOffset :: int
  fi_animatedBundleOffset :: int
  fi_gridWidth :: int
  fi_gridHeight :: int

definition normalizeText :: "string \<Rightarrow> string" where
  "normalizeText value = to_lower value"

definition matches_any :: "string list \<Rightarrow> string list option \<Rightarrow> (string \<Rightarrow> string) \<Rightarrow> bool" where
  "matches_any tokens values norm \<longleftrightarrow>
     tokens = [] \<or> (\<exists>v \<in> set (opt_list values). norm v \<in> set tokens)"

definition role_haystack :: "Role \<Rightarrow> string" where
  "role_haystack role =
     join '' '' (map normalizeText [ro_id role, ro_display_name role, ro_description role])"

definition filterRoles ::
  "Role list \<Rightarrow> string list \<Rightarrow> string \<Rightarrow> string \<Rightarrow> string list \<Rightarrow> string list \<Rightarrow> Role list" where
  "filterRoles roles statuses target query categories tags =
     (let statusSet = to_set statuses;
          categorySet = to_set (nonempties (map normalizeText categories));
          tagSet = to_set (nonempties (map normalizeText tags));
          query' = normalizeText query
      in filter (\<lambda>role.
           (statusSet = [] \<or> ro_status role \<in> set statusSet)
           \<and> (target = [] \<or> target = ''all'' \<or> target \<in> set (ro_deployment_targets role))
           \<and> matches_any categorySet (ro_categories role) normalizeText
           \<and> matches_any tagSet (ro_galaxy_tags role) normalizeText
           \<and> (query' = [] \<or> str_includes (role_haystack role) query')) roles)"

subsection \<open>Lifecycle\<close>

definition roleStatusById :: "Role list \<Rightarrow> (string \<times> string) list" where
  "roleStatusById roles =
     foldl (\<lambda>out role.
       let roleId = trim (ro_id role); status = normalizeFacet (ro_status role) in
       if roleId = [] \<or> status = [] then out else AList.update roleId status out) [] roles"

definition appLifecycleOptionsAll :: "(string \<Rightarrow> string \<Rightarrow> int) \<Rightarrow> Role list \<Rightarrow> string list" where
  "appLifecycleOptionsAll lc roles =
     sortStatuses lc (to_set (nonempties (map (\<lambda>role. normalizeFacet (ro_status role)) roles)))"

definition bundle_statuses :: "Role list \<Rightarrow> Bundle \<Rightarrow> string list" where
  "bundle_statuses roles bundle =
     foldl (\<lambda>statuses roleId.
       case map_of (roleStatusById roles) roleId of
         Some status \<Rightarrow> if status = [] then statuses else set_add status statuses
       | None \<Rightarrow> statuses) [] (trimmed_tokens (opt_list (bu_role_ids bundle)))"

definition bundleLifecycleByBundleId :: "Role list \<Rightarrow> Bundle list \<Rightarrow> (string \<times> string list) list" where
  "bundleLifecycleByBundleId roles bundles =
     foldl (\<lambda>out bundle. AList.update (bu_id bundle) (bundle_statuses roles bundle) out) [] bundles"

definition bundleLifecycleOptionsAll ::
  "(string \<Rightarrow> string \<Rightarrow> int) \<Rightarrow> Role list \<Rightarrow> Bundle list \<Rightarrow> string list" where
  "bundleLifecycleOptionsAll lc roles bundles =
     sortStatuses lc (to_set (concat (map snd (own_entries (bundleLifecycleByBundleId roles bundles)))))"

definition lifecycleAllowedStatuses :: "filters \<Rightarrow> string list" where
  "lifecycleAllowedStatuses f =
     (if fi_isExpertMode f \<and> fi_releaseTrack f = Preview then LIFECYCLE_PREVIEW_EXPERT_ALLOWED
      else LIFECYCLE_STABLE_ALLOWED)"

definition lifecycleStatusOptions ::
  "(string \<Rightarrow> string \<Rightarrow> int) \<Rightarrow> Role list \<Rightarrow> Bundle list \<Rightarrow> filters \<Rightarrow> string list" where
  "lifecycleStatusOptions lc roles bundles f =
     sortStatuses lc (filter (\<lambda>status. status \<in> set (lifecycleAllowedStatuses f))
       (if fi_softwareScope f = Bundles then bundleLifecycleOptionsAll lc roles bundles
        else appLifecycleOptionsAll lc roles))"

text \<open>The effect that drops statuses that are not offered any more.\<close>

definition pruneStatusFilter ::
  "(string \<Rightarrow> string \<Rightarrow> int) \<Rightarrow> Role list \<Rightarrow> Bundle list \<Rightarrow> filters \<Rightarrow> filters" where
  "pruneStatusFilter lc roles bundles f =
     f\<lparr>fi_statusFilter := filter (\<lambda>status. status \<in> set (lifecycleStatusOptions lc roles bundles f))
         (fi_statusFilter f)\<rparr>"

subsection \<open>Facets\<close>

definition activeCategoryOptions ::
  "(string \<Rightarrow> string \<Rightarrow> int) \<Rightarrow> Role list \<Rightarrow> Bundle list \<Rightarrow> filters \<Rightarrow> string list" where
  "activeCategoryOptions lc roles bundles f =
     (if fi_softwareScope f = Bundles then collectFacetValues lc bundles bu_categories
      else collectFacetValues lc roles ro_categories)"

definition activeTagOptions ::
  "(string \<Rightarrow> string \<Rightarrow> int) \<Rightarrow> Role list \<Rightarrow> Bundle list \<Rightarrow> filters \<Rightarrow> string list" where
  "activeTagOptions lc roles bundles f =
     (if fi_softwareScope f = Bundles then collectFacetValues lc bundles bu_tags
      else collectFacetValues lc roles ro_galaxy_tags)"

definition labels_by_token :: "string list \<Rightarrow> (string \<times> string) list" where
  "labels_by_token options = foldl (\<lambda>m entry. AList.update (normalizeFacet entry) entry m) [] options"

definition activeCategoryLabelByToken ::
  "(string \<Rightarrow> string \<Rightarrow> int) \<Rightarrow> Role list \<Rightarrow> Bundle list \<Rightarrow> filters \<Rightarrow> (string \<times> string) list" where
  "activeCategoryLabelByToken lc roles bundles f = labels_by_token (activeCategoryOptions lc roles bundles f)"

definition activeTagLabelByToken ::
  "(string \<Rightarrow> string \<Rightarrow> int) \<Rightarrow> Role list \<Rightarrow> Bundle list \<Rightarrow> filters \<Rightarrow> (string \<times> string) list" where
  "activeTagLabelByToken lc roles bundles f = labels_by_token (activeTagOptions lc roles bundles f)"

subsection \<open>Filtered lists\<close>

definition appFilteredRoles :: "Role list \<Rightarrow> filters \<Rightarrow> Role list" where
  "appFilteredRoles roles f =
     filterRoles roles (fi_statusFilter f) (target_str (fi_targetFilter f)) (fi_query f)
       (fi_categoryFilter f) (fi_tagFilter f)"

definition filteredBundles :: "Role list \<Rightarrow> Bundle list \<Rightarrow> filters \<Rightarrow> Bundle list" where
  "filteredBundles roles bundles f =
     (let queryToken = normalizeFacet (fi_query f) in
      filter (\<lambda>bundle.
        (fi_targetFilter f = All_targets
           \<or> normalizeDeployTarget (bu_deploy_target bundle) = target_str (fi_targetFilter f))
        \<and> (fi_statusFilter f = []
           \<or> (\<exists>status \<in> set (fi_statusFilter f).
                status \<in> set (opt_list (map_of (bundleLifecycleByBundleId roles bundles) (bu_id bundle)))))
        \<and> matches_any (fi_categoryFilter f) (bu_categories bundle) normalizeFacet
        \<and> matches_any (fi_tagFilter f) (bu_tags bundle) normalizeFacet
        \<and> (queryToken = [] \<or> str_includes (join '' ''
             (map normalizeFacet [bu_id bundle, bu_title bundle, bu_description bundle])) queryToken))
        bundles)"

definition filteredRoles ::
  "Role list \<Rightarrow> string list \<Rightarrow> string list \<Rightarrow> (string \<times> string list) list \<Rightarrow> filters \<Rightarrow> Role list" where
  "filteredRoles roles selected matrixAliases selectedLookup f =
     (let apps = appFilteredRoles roles f in
      if \<not> fi_showSelectedOnly f then apps
      else if fi_viewMode f = Matrix then
        filter (\<lambda>role. \<exists>alias \<in> set matrixAliases.
          ro_id role \<in> set (opt_list (map_of selectedLookup alias))) apps
      else filter (\<lambda>role. ro_id role \<in> set selected) apps)"

subsection \<open>Layout\<close>

definition isLaneView :: "filters \<Rightarrow> bool" where
  "isLaneView f \<longleftrightarrow> fi_viewMode f = RowView \<or> fi_viewMode f = ColumnView"

definition gridGap :: int where
  "gridGap = 16"

definition minCardWidth :: "filters \<Rightarrow> int" where
  "minCardWidth f =
     (let viewConfig = VIEW_CONFIG (fi_viewMode f);
          widthBuffer = (if fi_viewMode f = Mini then 80 else if vc_horizontal viewConfig then 360 else 140)
      in max (vc_minWidth viewConfig) (vc_iconSize viewConfig + widthBuffer))"

definition computedColumns :: "filters \<Rightarrow> int" where
  "computedColumns f =
     (if fi_viewMode f \<in> {ListView, Matrix, RowView, ColumnView} then 1
      else max 1 ((fi_gridWidth f + gridGap) div (minCardWidth f + gridGap)))"

definition computedRows :: "filters \<Rightarrow> int" where
  "computedRows f =
     (let contentHeightBuffer = (if fi_viewMode f = Mini then 24 else if fi_viewMode f = Matrix then 12 else 8);
          laneMinSize = (if fi_viewMode f = RowView then 188 else if fi_viewMode f = ColumnView then 220
                         else vc_minHeight (VIEW_CONFIG (fi_viewMode f)));
          rowAxisSize = (if fi_viewMode f = ColumnView then fi_gridWidth f else fi_gridHeight f)
      in max 1 ((max 0 (rowAxisSize - contentHeightBuffer) + gridGap) div (laneMinSize + gridGap)))"

definition rows :: "filters \<Rightarrow> int" where
  "rows f = max 1 (case fi_rowsOverride f of Some n \<Rightarrow> n | None \<Rightarrow> computedRows f)"

definition laneGap :: int where
  "laneGap = 14"

definition laneGapTotal :: "filters \<Rightarrow> int" where
  "laneGapTotal f = max 0 (laneGap * (max 1 (rows f) - 1))"

definition rowLaneSize :: "filters \<Rightarrow> int" where
  "rowLaneSize f = max 188 (max 0 (fi_gridHeight f - laneGapTotal f) div max 1 (rows f))"

definition columnLaneSize :: "filters \<Rightarrow> int" where
  "columnLaneSize f = max 220 (max 0 (fi_gridWidth f - laneGapTotal f) div max 1 (rows f))"

definition pageSize :: "filters \<Rightarrow> int" where
  "pageSize f = max 1 (rows f * computedColumns f)"

text \<open>\<open>Math.ceil\<close> of a quotient, and the part \<open>xs.slice(a, b)\<close> of an array.\<close>

definition ceil_div :: "int \<Rightarrow> int \<Rightarrow> int" where
  "ceil_div a b = - ((- a) div b)"

definition slice_index :: "int \<Rightarrow> int \<Rightarrow> int" where
  "slice_index n i = (if i < 0 then max 0 (n + i) else min i n)"

definition slice :: "int \<Rightarrow> int \<Rightarrow> 'a list \<Rightarrow> 'a list" where
  "slice a b xs =
     (let n = int (length xs)
      in take (nat (slice_index n b - slice_index n a)) (drop (nat (slice_index n a)) xs))"

definition rowOptions :: "filters \<Rightarrow> int \<Rightarrow> int list" where
  "rowOptions f activeItemCount =
     (let maxRows = max 1 (ceil_div activeItemCount (max 1 (computedColumns f)));
          next = filter (\<lambda>value. value \<le> maxRows) ROW_FILTER_OPTIONS
      in js_sort (\<lambda>a b. a - b)
           (case fi_rowsOverride f of
              Some n \<Rightarrow> if n \<noteq> 0 \<and> n \<notin> set next then next @ [n] else next
            | None \<Rightarrow> next))"

definition pageCount :: "filters \<Rightarrow> int \<Rightarrow> int" where
  "pageCount f activeItemCount =
     (if isLaneView f then 1 else max 1 (ceil_div activeItemCount (pageSize f)))"

definition currentPage :: "filters \<Rightarrow> int \<Rightarrow> int" where
  "currentPage f activeItemCount =
     (if isLaneView f then 1 else min (fi_page f) (pageCount f activeItemCount))"

text \<open>The remainder operator has the sign of the dividend.\<close>

definition js_rem :: "int \<Rightarrow> int \<Rightarrow> int" where
  "js_rem a b = (if a < 0 then - ((- a) mod \<bar>b\<bar>) else a mod \<bar>b\<bar>)"

definition rotated :: "int \<Rightarrow> 'a list \<Rightarrow> 'a list" where
  "rotated offset items =
     (if items = [] then items
      else
        let total = int (length items);
            normalizedOffset = js_rem (js_rem offset total + total) total
        in if normalizedOffset = 0 then items
           else drop (nat normalizedOffset) items @ slice 0 normalizedOffset items)"

definition paginated :: "filters \<Rightarrow> bool \<Rightarrow> int \<Rightarrow> int \<Rightarrow> 'a list \<Rightarrow> 'a list" where
  "paginated f animated offset activeItemCount items =
     (if animated then rotated offset items
      else
        let start = (currentPage f activeItemCount - 1) * pageSize f
        in slice start (start + pageSize f) items)"

definition activeItemCount :: "filters \<Rightarrow> Role list \<Rightarrow> Bundle list \<Rightarrow> int" where
  "activeItemCount f rs bs =
     int (if fi_softwareScope f = Bundles then length bs else length rs)"

definition paginatedRoles :: "filters \<Rightarrow> Role list \<Rightarrow> Bundle list \<Rightarrow> Role list" where
  "paginatedRoles f rs bs =
     paginated f (fi_softwareScope f = Apps \<and> isLaneView f) (fi_animatedRoleOffset f)
       (activeItemCount f rs bs) rs"

definition paginatedBundles :: "filters \<Rightarrow> Role list \<Rightarrow> Bundle list \<Rightarrow> Bundle list" where
  "paginatedBundles f rs bs =
     paginated f (fi_softwareScope f = Bundles \<and> isLaneView f) (fi_animatedBundleOffset f)
       (activeItemCount f rs bs) bs"

subsection \<open>Counts\<close>

definition selectedCount :: "filters \<Rightarrow> string list \<Rightarrow> string list \<Rightarrow> (string \<times> string list) list \<Rightarrow> int" where
  "selectedCount f selected matrixAliases selectedLookup =
     (if fi_viewMode f \<noteq> Matrix then int (length selected)
      else sum_list (map (\<lambda>alias. int (length (opt_list (map_of selectedLookup alias)))) matrixAliases))"

definition filteredSelectedCount ::
  "filters \<Rightarrow> string list \<Rightarrow> string list \<Rightarrow> (string \<times> string list) list \<Rightarrow> Role list \<Rightarrow> int" where
  "filteredSelectedCount f selected matrixAliases selectedLookup shown =
     (if fi_viewMode f \<noteq> Matrix then int (length (filter (\<lambda>role. ro_id role \<in> set selected) shown))
      else sum_list (map (\<lambda>alias. int (length (filter (\<lambda>roleId. roleId \<in> ro_id ` set shown)
             (opt_list (map_of selectedLookup alias))))) matrixAliases))"

definition hiddenSelected ::
  "filters \<Rightarrow> string list \<Rightarrow> string list \<Rightarrow> (string \<times> string list) list \<Rightarrow> Role list \<Rightarrow> int" where
  "hiddenSelected f selected matrixAliases selectedLookup shown =
     max 0 (selectedCount f selected matrixAliases selectedLookup
            - filteredSelectedCount f selected matrixAliases selectedLookup shown)"

subsection \<open>Effects on the page\<close>

definition resetPage :: "filters \<Rightarrow> filters" where
  "resetPage f = f\<lparr>fi_page := 1, fi_animatedRoleOffset := 0, fi_animatedBundleOffset := 0\<rparr>"

definition clampPage :: "int \<Rightarrow> filters \<Rightarrow> filters" where
  "clampPage n f = (if fi_page f > pageCount f n then f\<lparr>fi_page := pageCount f n\<rparr> else f)"

subsection \<open>Pages\<close>

lemma ceil_div_mult: "0 < s \<Longrightarrow> n \<le> ceil_div n s * s"
proof -
  assume "0 < s"
  then have "(- n) div s * s \<le> - n"
    using div_mult_mod_eq [of "- n" s] pos_mod_sign [of s "- n"] by linarith
  then show ?thesis
    by (simp add: ceil_div_def)
qed

lemma slice_nat:
  "0 \<le> a \<Longrightarrow> a \<le> b \<Longrightarrow> slice a b xs = take (nat b - nat a) (drop (nat a) xs)"
proof -
  assume "0 \<le> a" "a \<le> b"
  then obtain i j where ij: "a = int i" "b = int j" "i \<le> j"
    by (metis int_nat_eq nat_le_eq_zle order_trans)
  have index: "slice_index (int (length xs)) (int m) = int (min m (length xs))" for m
    by (simp add: slice_index_def)
  have "nat (int (min j (length xs)) - int (min i (length xs))) = min j (length xs) - min i (length xs)"
    by linarith
  then have "slice a b xs = take (min j (length xs) - min i (length xs)) (drop (min i (length xs)) xs)"
    unfolding slice_def Let_def ij index nat_int by simp
  also have "\<dots> = take (j - i) (drop i xs)"
    using ij(3) by (cases "i \<le> length xs"; cases "j \<le> length xs") (simp_all add: min_def)
  finally show ?thesis
    by (simp add: ij)
qed

lemma concat_chunks: "concat (map (\<lambda>k. take s (drop (k * s) xs)) [0..<n]) = take (n * s) xs"
proof (induction n)
  case (Suc n)
  then show ?case
    by (simp add: take_add add.commute [of s])
qed simp

lemma upto_from_1: "[1..int n] = map (\<lambda>k. int k + 1) [0..<n]"
proof (induction n)
  case (Suc n)
  have "[1..int (Suc n)] = [1..int n] @ [int (Suc n)]"
    by (subst upto_rec2) auto
  with Suc show ?case
    by simp
qed simp

lemma pageSize_pos: "0 < pageSize f"
  by (simp add: pageSize_def)

lemma view_page [simp]:
  "isLaneView (f\<lparr>fi_page := p\<rparr>) = isLaneView f" "minCardWidth (f\<lparr>fi_page := p\<rparr>) = minCardWidth f"
  "computedRows (f\<lparr>fi_page := p\<rparr>) = computedRows f"
  by (cases f; simp only: isLaneView_def minCardWidth_def computedRows_def filters.simps)+

lemma rows_page [simp]: "rows (f\<lparr>fi_page := p\<rparr>) = rows f"
  by (cases "fi_rowsOverride f") (simp_all add: rows_def)

lemma layout_page [simp]: "pageSize (f\<lparr>fi_page := p\<rparr>) = pageSize f"
  unfolding pageSize_def computedColumns_def by simp

lemma pageCount_page [simp]: "pageCount (f\<lparr>fi_page := p\<rparr>) n = pageCount f n"
  unfolding pageCount_def by simp

lemma length_slice: "0 < s \<Longrightarrow> int (length (slice a (a + s) xs)) \<le> s"
  unfolding slice_def slice_index_def Let_def by (cases "a < 0"; cases "a + s < 0") auto

text \<open>
  The pages of a list show every item once and in order. Outside the lane views, the pages 1
  to \<open>pageCount\<close> put together are the whole filtered list, none holds more than \<open>pageSize\<close>
  items, and a page number beyond the last page shows the last page.
\<close>

theorem pages_cover_items:
  fixes items :: "'a list" and f :: filters
  defines "n \<equiv> int (length items)"
  assumes "\<not> isLaneView f"
  shows "concat (map (\<lambda>p. paginated (f\<lparr>fi_page := p\<rparr>) False offs n items) [1..pageCount f n]) = items
    \<and> int (length (paginated f False offs n items)) \<le> pageSize f
    \<and> (pageCount f n \<le> fi_page f \<longrightarrow>
       paginated f False offs n items = paginated (f\<lparr>fi_page := pageCount f n\<rparr>) False offs n items)"
proof -
  let ?s = "nat (pageSize f)" and ?k = "nat (pageCount f n)"
  have count: "pageCount f n = max 1 (ceil_div n (pageSize f))"
    using assms(2) by (simp add: pageCount_def)
  have page: "paginated (f\<lparr>fi_page := int k + 1\<rparr>) False offs n items = take ?s (drop (k * ?s) items)"
    if "k < ?k" for k
  proof -
    have "currentPage (f\<lparr>fi_page := int k + 1\<rparr>) n = int k + 1"
      using that assms(2) by (auto simp: currentPage_def)
    moreover have "nat (int k * pageSize f) = k * ?s"
      using pageSize_pos [of f] by (simp add: nat_mult_distrib)
    moreover have "nat (int k * pageSize f + pageSize f) = k * ?s + ?s"
      using pageSize_pos [of f] by (simp add: nat_mult_distrib nat_add_distrib)
    ultimately show ?thesis
      using pageSize_pos [of f] by (simp add: paginated_def Let_def slice_nat)
  qed
  have "n \<le> pageCount f n * pageSize f"
    using ceil_div_mult [OF pageSize_pos, of n f] pageSize_pos [of f] count
    by (smt (verit) mult_right_mono)
  moreover have "pageCount f n * pageSize f = int (?k * ?s)"
    using pageSize_pos [of f] count by simp
  ultimately have all: "length items \<le> ?k * ?s"
    unfolding n_def by linarith
  have "map (\<lambda>p. paginated (f\<lparr>fi_page := p\<rparr>) False offs n items) [1..int ?k]
      = map (\<lambda>k. paginated (f\<lparr>fi_page := int k + 1\<rparr>) False offs n items) [0..<?k]"
    by (simp only: upto_from_1 map_map comp_def)
  also have "\<dots> = map (\<lambda>k. take ?s (drop (k * ?s) items)) [0..<?k]"
    using page by (intro map_cong) auto
  finally have "concat (map (\<lambda>p. paginated (f\<lparr>fi_page := p\<rparr>) False offs n items) [1..int ?k]) = items"
    using all by (simp add: concat_chunks)
  moreover have "int ?k = pageCount f n"
    using count by simp
  moreover have "int (length (paginated f False offs n items)) \<le> pageSize f"
    using length_slice [OF pageSize_pos] by (simp add: paginated_def Let_def)
  moreover have "pageCount f n \<le> fi_page f \<longrightarrow>
      paginated f False offs n items = paginated (f\<lparr>fi_page := pageCount f n\<rparr>) False offs n items"
    using assms(2) by (simp add: paginated_def currentPage_def)
  ultimately show ?thesis
    by simp
qed

definition demo_filters :: filters where
  "demo_filters =
     \<lparr>fi_statusFilter = [], fi_targetFilter = All_targets, fi_categoryFilter = [], fi_tagFilter = [],
      fi_query = [], fi_showSelectedOnly = False, fi_viewMode = Detail, fi_softwareScope = Apps,
      fi_isExpertMode = False, fi_releaseTrack = Stable, fi_rowsOverride = Some 1, fi_page = 9,
      fi_animatedRoleOffset = 0, fi_animatedBundleOffset = 0, fi_gridWidth = 600, fi_gridHeight = 300\<rparr>"

theorem pages_cover_items_witness:
  "concat (map (\<lambda>p. paginated (demo_filters\<lparr>fi_page := p\<rparr>) False 0 (int (length ''abcde'')) ''abcde'')
      [1..pageCount demo_filters (int (length ''abcde''))]) = ''abcde''
    \<and> int (length (paginated demo_filters False 0 (int (length ''abcde'')) ''abcde'')) \<le> pageSize demo_filters
    \<and> paginated demo_filters False 0 (int (length ''abcde'')) ''abcde''
       = paginated (demo_filters\<lparr>fi_page := pageCount demo_filters (int (length ''abcde''))\<rparr>) False 0
           (int (length ''abcde'')) ''abcde''"
proof -
  have "\<not> isLaneView demo_filters"
    by code_simp
  note pages_cover_items [where items = "''abcde''" and offs = 0, OF this]
  moreover have "pageCount demo_filters (int (length ''abcde'')) \<le> fi_page demo_filters"
    by code_simp
  ultimately show ?thesis
    by blast
qed

text \<open>
  The lane animation only rotates. Whatever the offset, positive or negative, the animated
  list is the filtered list rotated by the offset modulo its length, so no item is lost or
  doubled and advancing by a whole length changes nothing.
\<close>

theorem rotated_rotates:
  "rotated offset items = rotate (nat (offset mod int (length items))) items
   \<and> rotated (offset + int (length items)) items = rotated offset items"
proof -
  have eq: "rotated offs items = rotate (nat (offs mod int (length items))) items" for offs
  proof (cases "items = []")
    case False
    define n where "n = int (length items)"
    have n: "0 < n"
      using False by (simp add: n_def)
    have "(n - (- offs) mod n) mod n = offs mod n"
      by (subst mod_diff_right_eq) simp
    then have "(js_rem offs n + n) mod n = offs mod n"
      using n by (simp add: js_rem_def)
    moreover have "0 \<le> js_rem offs n + n"
      using n less_imp_le [OF pos_mod_bound [OF n, of "- offs"]] by (simp add: js_rem_def)
    ultimately have "js_rem (js_rem offs n + n) n = offs mod n"
      using n unfolding js_rem_def [of "js_rem offs n + n"] by simp
    moreover have "0 \<le> offs mod n" "offs mod n < n"
      using n by simp_all
    moreover have "slice 0 (offs mod n) items = take (nat (offs mod n)) items"
      using n by (simp add: slice_nat)
    ultimately show ?thesis
      using False unfolding rotated_def Let_def n_def [symmetric]
      by (auto simp: rotate_drop_take n_def nat_less_iff)
  qed (simp add: rotated_def)
  show ?thesis
    by (simp add: eq)
qed

subsection \<open>Facet filters\<close>

lemma normalizeText_trimmed: "trim s = s \<Longrightarrow> normalizeText s = normalizeFacet s"
  by (simp add: normalizeText_def normalizeFacet_def)

lemma normalizeText_idem [simp]: "normalizeText (normalizeFacet s) = normalizeFacet s"
  by (simp add: normalizeText_def normalizeFacet_def)

text \<open>
  When the categories of the roles carry no outer white space, every category the dashboard
  offers selects exactly the roles that have it, in any capitalisation, and at least one.
\<close>

theorem category_option_selects:
  assumes clean: "\<forall>role \<in> set roles. \<forall>c \<in> set (opt_list (ro_categories role)). trim c = c"
    and offered: "option \<in> set (collectFacetValues lc roles ro_categories)"
  shows "filterRoles roles [] ''all'' [] [normalizeFacet option] []
      = filter (\<lambda>role. normalizeFacet option \<in> normalizeFacet ` set (opt_list (ro_categories role))) roles
    \<and> filterRoles roles [] ''all'' [] [normalizeFacet option] [] \<noteq> []"
proof -
  have "normalizeFacet option \<in> normalizeFacet ` set (collectFacetValues lc roles ro_categories)"
    using offered by simp
  then have key: "normalizeFacet option \<in> normalizeFacet `
      set (concat (map (\<lambda>role. opt_list (ro_categories role)) roles)) - {[]}"
    unfolding collect_facets_complete .
  then obtain role c where role: "role \<in> set roles" "c \<in> set (opt_list (ro_categories role))"
      "normalizeFacet c = normalizeFacet option" and ne: "normalizeFacet option \<noteq> []"
    by auto
  have eq: "filterRoles roles [] ''all'' [] [normalizeFacet option] []
      = filter (\<lambda>role. \<exists>c \<in> set (opt_list (ro_categories role)). normalizeText c = normalizeFacet option) roles"
    using ne by (simp add: filterRoles_def matches_any_def normalizeText_def [of "[]"] to_lower_def
        nonempties_def set_add_def to_set_def set_add_all_def)
  also have "\<dots> = filter (\<lambda>role. normalizeFacet option
      \<in> normalizeFacet ` set (opt_list (ro_categories role))) roles"
  proof (rule filter_cong)
    fix role assume "role \<in> set roles"
    with clean have "normalizeText c = normalizeFacet c" if "c \<in> set (opt_list (ro_categories role))" for c
      using that by (simp add: normalizeText_trimmed)
    then show "(\<exists>c \<in> set (opt_list (ro_categories role)). normalizeText c = normalizeFacet option)
        = (normalizeFacet option \<in> normalizeFacet ` set (opt_list (ro_categories role)))"
      by (metis (no_types, lifting) image_iff)
  qed simp
  finally have sel: "filterRoles roles [] ''all'' [] [normalizeFacet option] []
      = filter (\<lambda>role. normalizeFacet option \<in> normalizeFacet ` set (opt_list (ro_categories role))) roles" .
  have "normalizeFacet option \<in> normalizeFacet ` set (opt_list (ro_categories role))"
    using role by (metis imageI)
  with role(1) have "role \<in> set (filterRoles roles [] ''all'' [] [normalizeFacet option] [])"
    unfolding sel by simp
  then have "filterRoles roles [] ''all'' [] [normalizeFacet option] [] \<noteq> []"
    by (metis empty_iff empty_set)
  with sel show ?thesis
    by (rule conjI)
qed

text \<open>A role with a category and a status, for the witnesses.\<close>

definition filed_role :: "string \<Rightarrow> string \<Rightarrow> string list \<Rightarrow> Role" where
  "filed_role rid status categories =
     (demo_role rid rid JNull)\<lparr>ro_status := status, ro_categories := Some categories\<rparr>"

theorem category_option_selects_witness:
  "filterRoles [filed_role ''wiki'' ''stable'' [''Web''], filed_role ''db'' ''beta'' []] [] ''all'' []
       [normalizeFacet ''Web''] []
     = filter (\<lambda>role. normalizeFacet ''Web'' \<in> normalizeFacet ` set (opt_list (ro_categories role)))
         [filed_role ''wiki'' ''stable'' [''Web''], filed_role ''db'' ''beta'' []]
   \<and> filterRoles [filed_role ''wiki'' ''stable'' [''Web''], filed_role ''db'' ''beta'' []] [] ''all'' []
       [normalizeFacet ''Web''] [] \<noteq> []"
  by (rule category_option_selects [where lc = cu_cmp]; code_simp)

text \<open>
  The options and the filter of the applications disagree on untidy data. The dashboard
  offers the category \<open>Web\<close> and the lifecycle status \<open>stable\<close> for a role that states them as
  \<open>" Web"\<close> and \<open>Stable\<close>, but choosing either of them selects no role at all.
\<close>

theorem untidy_options_select_nothing:
  "let role = filed_role ''wiki'' ''Stable'' ['' Web''] in
     activeCategoryOptions cu_cmp [role] [] demo_filters = [''Web'']
     \<and> lifecycleStatusOptions cu_cmp [role] [] demo_filters = [''stable'']
     \<and> appFilteredRoles [role] (demo_filters\<lparr>fi_categoryFilter := [normalizeFacet ''Web'']\<rparr>) = []
     \<and> appFilteredRoles [role] (demo_filters\<lparr>fi_statusFilter := [''stable'']\<rparr>) = []"
  by code_simp

end
