(* ===== verification/DashboardQuery.thy ===== *)
theory DashboardQuery
  imports RoleFiltering
begin

text \<open>
  The role dashboard as a page (\<open>RoleDashboard.tsx\<close>) and its address (\<open>role-dashboard/useRoleDashboardBootstrap.ts\<close>):
  the state of the view, the actions of tool bar, filters and lists, reading the view from the address and writing it
  back, and the effects that run after a rendering. The query of the address is a list of names and values.
\<close>

subsection \<open>Parameters of an address\<close>

definition usp_get :: "string \<Rightarrow> (string \<times> string) list \<Rightarrow> string option" where
  "usp_get k ps = map_of ps k"

fun usp_set :: "string \<Rightarrow> string \<Rightarrow> (string \<times> string) list \<Rightarrow> (string \<times> string) list" where
  "usp_set k v [] = [(k, v)]"
| "usp_set k v (p # ps) = (if fst p = k then (k, v) # filter (\<lambda>q. fst q \<noteq> k) ps else p # usp_set k v ps)"

subsection \<open>State\<close>

record board =
  db_filters :: filters
  db_queryDraft :: string
  db_categoryDraft :: string
  db_tagDraft :: string
  db_open :: "string list"
  db_closed :: "string list"
  db_bundleOpen :: "string list"
  db_bundleClosed :: "string list"
  db_viewMenuOpen :: bool
  db_filtersOpen :: bool
  db_video :: "(string \<times> string) option"
  db_details :: "(Role \<times> string) option"
  db_editing :: "Role option"
  db_roles :: "Role list"
  db_bundles :: "Bundle list"
  db_bundlesLoading :: bool
  db_bundlesError :: "string option"
  db_ready :: bool
  db_params :: "(string \<times> string) list"

definition BUNDLE_OPTIONAL_LIST_COLUMNS :: "string list" where
  "BUNDLE_OPTIONAL_LIST_COLUMNS = [''target'', ''description'', ''apps'', ''price'', ''details'']"

definition tidy_param :: "string \<Rightarrow> (string \<times> string) list \<Rightarrow> string" where
  "tidy_param k ps = to_lower (trim (opt_list (usp_get k ps)))"

definition scope_param :: "(string \<times> string) list \<Rightarrow> SoftwareScope option" where
  "scope_param ps = named scope_str [Apps, Bundles] (tidy_param (sq_scope SW_QUERY_KEYS) ps)"

definition initialSoftwareScope :: "(string \<times> string) list \<Rightarrow> SoftwareScope" where
  "initialSoftwareScope ps = (case scope_param ps of Some scope \<Rightarrow> scope | None \<Rightarrow> Bundles)"

definition initial_board :: "bool \<Rightarrow> Role list \<Rightarrow> (string \<times> string) list \<Rightarrow> board" where
  "initial_board expert roles ps =
     \<lparr>db_filters = \<lparr>fi_statusFilter = [], fi_targetFilter = All_targets, fi_categoryFilter = [], fi_tagFilter = [],
        fi_query = [], fi_showSelectedOnly = False, fi_viewMode = Detail, fi_softwareScope = initialSoftwareScope ps,
        fi_isExpertMode = expert, fi_releaseTrack = Stable, fi_rowsOverride = None, fi_page = 1,
        fi_animatedRoleOffset = 0, fi_animatedBundleOffset = 0, fi_gridWidth = 0, fi_gridHeight = 0\<rparr>,
      db_queryDraft = [], db_categoryDraft = [], db_tagDraft = [], db_open = [], db_closed = [], db_bundleOpen = [],
      db_bundleClosed = [], db_viewMenuOpen = False, db_filtersOpen = False, db_video = None, db_details = None,
      db_editing = None, db_roles = roles, db_bundles = [], db_bundlesLoading = False, db_bundlesError = None,
      db_ready = False, db_params = ps\<rparr>"

subsection \<open>Reading the address\<close>

fun num_int :: "num \<Rightarrow> int" where
  "num_int (Dec m k) = m div 10 ^ k"
| "num_int _ = 0"

definition rows_param :: "string \<Rightarrow> int option" where
  "rows_param s =
     (if s = ''auto'' then None
      else let n = str_num s in if num_is_int n \<and> num_gt_int n 0 then Some (num_int n) else None)"

definition columns_param ::
  "string \<Rightarrow> string \<Rightarrow> string list \<Rightarrow> (string \<times> string) list \<Rightarrow> string list \<times> string list \<Rightarrow> string list \<times> string list" where
  "columns_param openKey closedKey columns ps current =
     (if usp_get openKey ps = None \<and> usp_get closedKey ps = None then current
      else normalizeListColumnState (parseListColumnCsvParam (usp_get openKey ps) columns)
             (parseListColumnCsvParam (usp_get closedKey ps) columns) columns)"

definition given_or :: "'a option \<Rightarrow> 'a \<Rightarrow> 'a" where
  "given_or v d = (case v of Some x \<Rightarrow> x | None \<Rightarrow> d)"

definition read_filters :: "(string \<times> string) list \<Rightarrow> filters \<Rightarrow> filters" where
  "read_filters ps f =
     f\<lparr>fi_softwareScope := given_or (scope_param ps) (fi_softwareScope f),
       fi_releaseTrack := given_or (named track_str RELEASE_TRACK_OPTIONS (tidy_param (sq_track SW_QUERY_KEYS) ps)) (fi_releaseTrack f),
       fi_query := given_or (usp_get (sq_search SW_QUERY_KEYS) ps) (fi_query f),
       fi_targetFilter := given_or (named target_str TARGET_FILTER_OPTIONS (tidy_param (sq_target SW_QUERY_KEYS) ps)) (fi_targetFilter f),
       fi_statusFilter := given_or (map_option (\<lambda>v. to_set (parseCsvParam (Some v))) (usp_get (sq_status SW_QUERY_KEYS) ps)) (fi_statusFilter f),
       fi_categoryFilter := given_or (map_option (\<lambda>v. to_set (parseFacetCsvParam (Some v))) (usp_get (sq_categories SW_QUERY_KEYS) ps))
          (fi_categoryFilter f),
       fi_tagFilter := given_or (map_option (\<lambda>v. to_set (parseFacetCsvParam (Some v))) (usp_get (sq_tags SW_QUERY_KEYS) ps)) (fi_tagFilter f),
       fi_showSelectedOnly := (let s = tidy_param (sq_selected SW_QUERY_KEYS) ps in
          if s = [] then fi_showSelectedOnly f else s = ''1'' \<or> s = ''true''),
       fi_viewMode := given_or (named view_str VIEW_MODES (tidy_param (sq_view SW_QUERY_KEYS) ps)) (fi_viewMode f),
       fi_rowsOverride := (let s = tidy_param (sq_rows SW_QUERY_KEYS) ps in if s = [] then fi_rowsOverride f else rows_param s)\<rparr>"

definition read_query :: "(string \<times> string) list \<Rightarrow> board \<Rightarrow> board" where
  "read_query ps b =
     (let (open', closed') = columns_param (sq_listOpen SW_QUERY_KEYS) (sq_listClosed SW_QUERY_KEYS) OPTIONAL_LIST_COLUMNS ps
            (db_open b, db_closed b);
          (bundleOpen', bundleClosed') = columns_param (sq_bundleListOpen SW_QUERY_KEYS) (sq_bundleListClosed SW_QUERY_KEYS)
            BUNDLE_OPTIONAL_LIST_COLUMNS ps (db_bundleOpen b, db_bundleClosed b)
      in b\<lparr>db_filters := read_filters ps (db_filters b),
           db_queryDraft := given_or (usp_get (sq_search SW_QUERY_KEYS) ps) (db_queryDraft b),
           db_open := open', db_closed := closed', db_bundleOpen := bundleOpen', db_bundleClosed := bundleClosed'\<rparr>)"

subsection \<open>Writing the address\<close>

definition facet_list :: "(string \<Rightarrow> string \<Rightarrow> int) \<Rightarrow> string list \<Rightarrow> string" where
  "facet_list lc xs = join '','' (js_sort lc xs)"

definition query_view :: "(string \<Rightarrow> string \<Rightarrow> int) \<Rightarrow> board \<Rightarrow> (string \<times> string) list" where
  "query_view lc b = (let f = db_filters b in
     [(sq_scope SW_QUERY_KEYS, scope_str (fi_softwareScope f)),
      (sq_track SW_QUERY_KEYS, track_str (fi_releaseTrack f)),
      (sq_search SW_QUERY_KEYS, fi_query f),
      (sq_target SW_QUERY_KEYS, target_str (fi_targetFilter f)),
      (sq_status SW_QUERY_KEYS, facet_list lc (fi_statusFilter f)),
      (sq_categories SW_QUERY_KEYS, facet_list lc (fi_categoryFilter f)),
      (sq_tags SW_QUERY_KEYS, facet_list lc (fi_tagFilter f)),
      (sq_selected SW_QUERY_KEYS, if fi_showSelectedOnly f then ''1'' else ''0''),
      (sq_view SW_QUERY_KEYS, view_str (fi_viewMode f)),
      (sq_rows SW_QUERY_KEYS, case fi_rowsOverride f of Some n \<Rightarrow> if n \<noteq> 0 then int_str n else ''auto'' | None \<Rightarrow> ''auto''),
      (sq_listOpen SW_QUERY_KEYS, join '','' (db_open b)),
      (sq_listClosed SW_QUERY_KEYS, join '','' (db_closed b)),
      (sq_bundleListOpen SW_QUERY_KEYS, join '','' (db_bundleOpen b)),
      (sq_bundleListClosed SW_QUERY_KEYS, join '','' (db_bundleClosed b))])"

definition write_query :: "(string \<times> string) list \<Rightarrow> (string \<times> string) list \<Rightarrow> (string \<times> string) list" where
  "write_query view ps = foldl (\<lambda>ps (k, v). usp_set k v ps) ps view"

subsection \<open>Effects\<close>

text \<open>
  An effect runs after a rendering when what it depends on has changed since the rendering before (none: the page is
  opened). It sees the rendered values \<open>cap\<close> and changes the state \<open>st\<close>.
\<close>

definition changed :: "('s \<Rightarrow> 'v) \<Rightarrow> 's option \<Rightarrow> 's \<Rightarrow> bool" where
  "changed f prev cap = (case prev of None \<Rightarrow> True | Some p \<Rightarrow> f p \<noteq> f cap)"

definition offered_statuses :: "(string \<Rightarrow> string \<Rightarrow> int) \<Rightarrow> board \<Rightarrow> string list" where
  "offered_statuses lc b = lifecycleStatusOptions lc (db_roles b) (db_bundles b) (db_filters b)"

definition read_query_effect :: "board \<Rightarrow> board" where
  "read_query_effect st = (if db_ready st then st else (read_query (db_params st) st)\<lparr>db_ready := True\<rparr>)"

definition track_effect :: "board \<Rightarrow> board \<Rightarrow> board" where
  "track_effect cap st =
     (if fi_isExpertMode (db_filters cap) \<or> fi_releaseTrack (db_filters cap) = Stable then st
      else st\<lparr>db_filters := (db_filters st)\<lparr>fi_releaseTrack := Stable\<rparr>\<rparr>)"

definition bundles_effect :: "board option \<Rightarrow> board \<Rightarrow> board" where
  "bundles_effect prev st = (if prev = None then st\<lparr>db_bundlesLoading := True, db_bundlesError := None\<rparr> else st)"

definition menu_effect :: "board option \<Rightarrow> board \<Rightarrow> board \<Rightarrow> board" where
  "menu_effect prev cap st =
     (if changed (\<lambda>b. fi_softwareScope (db_filters b)) prev cap then st\<lparr>db_viewMenuOpen := False\<rparr> else st)"

definition write_query_effect :: "(string \<Rightarrow> string \<Rightarrow> int) \<Rightarrow> board option \<Rightarrow> board \<Rightarrow> board \<Rightarrow> board" where
  "write_query_effect lc prev cap st =
     (if changed (query_view lc) prev cap \<and> db_ready st then st\<lparr>db_params := write_query (query_view lc cap) (db_params st)\<rparr> else st)"

definition prune_effect :: "(string \<Rightarrow> string \<Rightarrow> int) \<Rightarrow> board option \<Rightarrow> board \<Rightarrow> board \<Rightarrow> board" where
  "prune_effect lc prev cap st =
     (if changed (offered_statuses lc) prev cap
      then st\<lparr>db_filters := (db_filters st)\<lparr>fi_statusFilter :=
             filter (\<lambda>status. status \<in> set (offered_statuses lc cap)) (fi_statusFilter (db_filters st))\<rparr>\<rparr> else st)"

definition board_effects :: "(string \<Rightarrow> string \<Rightarrow> int) \<Rightarrow> board option \<Rightarrow> board \<Rightarrow> board" where
  "board_effects lc prev cap =
     prune_effect lc prev cap (write_query_effect lc prev cap (menu_effect prev cap (bundles_effect prev (track_effect cap (read_query_effect cap)))))"

text \<open>Three rounds of rendering and effects: after them nothing changes any more (\<open>settled\<close>).\<close>

definition render_board :: "(string \<Rightarrow> string \<Rightarrow> int) \<Rightarrow> board \<Rightarrow> board \<Rightarrow> board" where
  "render_board lc prev b =
     (let b1 = board_effects lc (Some prev) b; b2 = board_effects lc (Some b) b1 in board_effects lc (Some b1) b2)"

text \<open>
  The page is opened: in the first commit the page above may set the mode from the address (\<open>expert'\<close>), after the effects
  of the dashboard and before they run again.
\<close>

definition open_board :: "(string \<Rightarrow> string \<Rightarrow> int) \<Rightarrow> bool \<Rightarrow> bool \<Rightarrow> Role list \<Rightarrow> (string \<times> string) list \<Rightarrow> board" where
  "open_board lc expert expert' roles ps =
     (let b0 = initial_board expert roles ps;
          b1 = board_effects lc None b0;
          b1' = b1\<lparr>db_filters := (db_filters b1)\<lparr>fi_isExpertMode := expert'\<rparr>\<rparr>;
          b2 = board_effects lc (Some b0) b1'
      in board_effects lc (Some b1') b2)"

subsection \<open>Columns of the lists\<close>

definition LIST_COLUMN_GAP_PX :: int where
  "LIST_COLUMN_GAP_PX = 12"

definition LIST_COLUMN_MIN_WIDTH :: "string \<Rightarrow> int" where
  "LIST_COLUMN_MIN_WIDTH c =
     (if c = ''software'' then 188 else if c = ''version'' then 92 else if c = ''status'' then 94 else if c = ''targets'' then 116
      else if c = ''description'' then 186 else if c = ''links'' then 102 else if c = ''price'' then 96 else 132)"

definition BUNDLE_LIST_COLUMN_MIN_WIDTH :: "string \<Rightarrow> int" where
  "BUNDLE_LIST_COLUMN_MIN_WIDTH c =
     (if c = ''bundle'' then 210 else if c = ''target'' then 94 else if c = ''description'' then 200 else if c = ''apps'' then 258
      else if c = ''price'' then 94 else if c = ''details'' then 108 else 132)"

text \<open>The optional columns that are shown: \<open>used\<close> is the width of the two fixed ones and their gap.\<close>

definition shown_columns :: "(string \<Rightarrow> int) \<Rightarrow> int \<Rightarrow> string list \<Rightarrow> int \<Rightarrow> string list \<Rightarrow> string list \<Rightarrow> string list" where
  "shown_columns minWidth used columns containerWidth forcedOpen forcedClosed =
     fst (foldl (\<lambda>(visible, usedWidth) column.
       if column \<in> set forcedClosed then (visible, usedWidth)
       else let fitsByDefault = (containerWidth > 0 \<and> usedWidth + LIST_COLUMN_GAP_PX + minWidth column \<le> containerWidth)
            in if column \<notin> set forcedOpen \<and> \<not> fitsByDefault then (visible, usedWidth)
               else (visible @ [column], usedWidth + LIST_COLUMN_GAP_PX + minWidth column)) ([], used) columns)"

definition visibleColumns :: "int \<Rightarrow> board \<Rightarrow> string list" where
  "visibleColumns width b =
     shown_columns LIST_COLUMN_MIN_WIDTH (LIST_COLUMN_MIN_WIDTH ''software'' + LIST_COLUMN_MIN_WIDTH ''enabled'' + LIST_COLUMN_GAP_PX)
       OPTIONAL_LIST_COLUMNS width (db_open b) (db_closed b)"

definition visibleBundleColumns :: "int \<Rightarrow> board \<Rightarrow> string list" where
  "visibleBundleColumns width b =
     shown_columns BUNDLE_LIST_COLUMN_MIN_WIDTH
       (BUNDLE_LIST_COLUMN_MIN_WIDTH ''bundle'' + BUNDLE_LIST_COLUMN_MIN_WIDTH ''enabled'' + LIST_COLUMN_GAP_PX)
       BUNDLE_OPTIONAL_LIST_COLUMNS width (db_bundleOpen b) (db_bundleClosed b)"

definition toggled_columns :: "string list \<Rightarrow> string \<Rightarrow> bool \<Rightarrow> string list \<Rightarrow> string list \<Rightarrow> string list \<times> string list" where
  "toggled_columns columns column isCurrentlyVisible forcedOpen forcedClosed =
     (let nextOpen = (if isCurrentlyVisible then set_del column (to_set forcedOpen) else set_add column (to_set forcedOpen));
          nextClosed = (if isCurrentlyVisible then set_add column (to_set forcedClosed) else set_del column (to_set forcedClosed))
      in (filter (\<lambda>entry. entry \<in> set nextOpen) columns, filter (\<lambda>entry. entry \<in> set nextClosed) columns))"

subsection \<open>Actions\<close>

definition in_filters :: "(filters \<Rightarrow> filters) \<Rightarrow> board \<Rightarrow> board" where
  "in_filters g b = b\<lparr>db_filters := g (db_filters b)\<rparr>"

datatype board_event =
  Type_query string
| Apply_search
| Toggle_scope
| Toggle_track
| Toggle_view_menu
| Select_view ViewMode
| Toggle_filters bool
| Pick_rows "int option"
| Pick_target DeployTargetFilter
| Toggle_status string
| Show_selected bool
| Type_category string
| Add_category
| Remove_category string
| Type_tag string
| Add_tag
| Remove_tag string
| Toggle_column int string
| Toggle_bundle_column int string
| Change_mode bool
| Mode_given bool
| Roles_given "Role list"
| Bundles_answer "string + Bundle list"
| Show_video string string
| Show_details Role string
| Edit_role Role
| Click_outside
| Press_escape

text \<open>\<open>handleModeChange\<close>, with the mode that the page above sets.\<close>

definition change_mode :: "bool \<Rightarrow> board \<Rightarrow> board" where
  "change_mode expert b =
     (let b1 = in_filters (\<lambda>f. f\<lparr>fi_isExpertMode := expert\<rparr>) b
      in if expert then b1 else (in_filters (\<lambda>f. f\<lparr>fi_releaseTrack := Stable\<rparr>) b1)\<lparr>db_editing := None\<rparr>)"

definition addCategoryFilter :: "board \<Rightarrow> board" where
  "addCategoryFilter b =
     (let t = normalizeFacet (db_categoryDraft b) in
      if t = [] then b
      else (in_filters (\<lambda>f. f\<lparr>fi_categoryFilter := set_add t (fi_categoryFilter f)\<rparr>) b)\<lparr>db_categoryDraft := []\<rparr>)"

definition addTagFilter :: "board \<Rightarrow> board" where
  "addTagFilter b =
     (let t = normalizeFacet (db_tagDraft b) in
      if t = [] then b else (in_filters (\<lambda>f. f\<lparr>fi_tagFilter := set_add t (fi_tagFilter f)\<rparr>) b)\<lparr>db_tagDraft := []\<rparr>)"

definition toggleListColumn :: "int \<Rightarrow> string \<Rightarrow> board \<Rightarrow> board" where
  "toggleListColumn width column b =
     (let (open', closed') = toggled_columns OPTIONAL_LIST_COLUMNS column (column \<in> set (visibleColumns width b)) (db_open b) (db_closed b)
      in b\<lparr>db_open := open', db_closed := closed'\<rparr>)"

definition toggleBundleColumn :: "int \<Rightarrow> string \<Rightarrow> board \<Rightarrow> board" where
  "toggleBundleColumn width column b =
     (let (open', closed') = toggled_columns BUNDLE_OPTIONAL_LIST_COLUMNS column (column \<in> set (visibleBundleColumns width b))
            (db_bundleOpen b) (db_bundleClosed b)
      in b\<lparr>db_bundleOpen := open', db_bundleClosed := closed'\<rparr>)"

definition bundles_answered :: "string + Bundle list \<Rightarrow> board \<Rightarrow> board" where
  "bundles_answered res b =
     (case res of
        Inl m \<Rightarrow> b\<lparr>db_bundles := [], db_bundlesError := Some m, db_bundlesLoading := False\<rparr>
      | Inr bundles \<Rightarrow> b\<lparr>db_bundles := bundles, db_bundlesLoading := False\<rparr>)"

fun board_action :: "(string \<Rightarrow> string \<Rightarrow> int) \<Rightarrow> board_event \<Rightarrow> board \<Rightarrow> board" where
  "board_action lc (Type_query v) b = (in_filters (\<lambda>f. f\<lparr>fi_query := v\<rparr>) b)\<lparr>db_queryDraft := v\<rparr>"
| "board_action lc Apply_search b = in_filters (\<lambda>f. f\<lparr>fi_query := trim (db_queryDraft b)\<rparr>) b"
| "board_action lc Toggle_scope b =
     in_filters (\<lambda>f. f\<lparr>fi_softwareScope := (if fi_softwareScope f = Apps then Bundles else Apps)\<rparr>) b"
| "board_action lc Toggle_track b =
     (if \<not> fi_isExpertMode (db_filters b) then b
      else in_filters (\<lambda>f. f\<lparr>fi_releaseTrack := (if fi_releaseTrack f = Preview then Stable else Preview)\<rparr>) b)"
| "board_action lc Toggle_view_menu b = b\<lparr>db_viewMenuOpen := \<not> db_viewMenuOpen b\<rparr>"
| "board_action lc (Select_view mode) b = (in_filters (\<lambda>f. f\<lparr>fi_viewMode := mode\<rparr>) b)\<lparr>db_viewMenuOpen := False\<rparr>"
| "board_action lc (Toggle_filters opens) b = b\<lparr>db_filtersOpen := (\<not> db_filtersOpen b \<and> opens)\<rparr>"
| "board_action lc (Pick_rows picked) b = (if (case picked of Some n \<Rightarrow> n \<le> 0 | None \<Rightarrow> False) then b else in_filters (\<lambda>f. f\<lparr>fi_rowsOverride := picked\<rparr>) b)"
| "board_action lc (Pick_target t) b = in_filters (\<lambda>f. f\<lparr>fi_targetFilter := t\<rparr>) b"
| "board_action lc (Toggle_status status) b =
     (if status \<notin> set (offered_statuses lc b) then b else in_filters (\<lambda>f. f\<lparr>fi_statusFilter := set_toggle status (fi_statusFilter f)\<rparr>) b)"
| "board_action lc (Show_selected v) b = in_filters (\<lambda>f. f\<lparr>fi_showSelectedOnly := v\<rparr>) b"
| "board_action lc (Type_category v) b = b\<lparr>db_categoryDraft := v\<rparr>"
| "board_action lc Add_category b = addCategoryFilter b"
| "board_action lc (Remove_category t) b = in_filters (\<lambda>f. f\<lparr>fi_categoryFilter := set_del t (fi_categoryFilter f)\<rparr>) b"
| "board_action lc (Type_tag v) b = b\<lparr>db_tagDraft := v\<rparr>"
| "board_action lc Add_tag b = addTagFilter b"
| "board_action lc (Remove_tag t) b = in_filters (\<lambda>f. f\<lparr>fi_tagFilter := set_del t (fi_tagFilter f)\<rparr>) b"
| "board_action lc (Toggle_column width column) b = toggleListColumn width column b"
| "board_action lc (Toggle_bundle_column width column) b = toggleBundleColumn width column b"
| "board_action lc (Change_mode expert) b = change_mode expert b"
| "board_action lc (Mode_given expert) b = in_filters (\<lambda>f. f\<lparr>fi_isExpertMode := expert\<rparr>) b"
| "board_action lc (Roles_given roles) b = b\<lparr>db_roles := roles\<rparr>"
| "board_action lc (Bundles_answer res) b = bundles_answered res b"
| "board_action lc (Show_video url title) b = b\<lparr>db_video := Some (url, title)\<rparr>"
| "board_action lc (Show_details role alias) b = b\<lparr>db_details := Some (role, alias)\<rparr>"
| "board_action lc (Edit_role role) b = b\<lparr>db_editing := Some role, db_details := None\<rparr>"
| "board_action lc Click_outside b = b\<lparr>db_filtersOpen := False, db_viewMenuOpen := False\<rparr>"
| "board_action lc Press_escape b =
     b\<lparr>db_video := None, db_details := None, db_filtersOpen := False, db_viewMenuOpen := False, db_editing := None\<rparr>"

definition board_step :: "(string \<Rightarrow> string \<Rightarrow> int) \<Rightarrow> board_event \<Rightarrow> board \<Rightarrow> board" where
  "board_step lc e b = render_board lc b (board_action lc e b)"

subsection \<open>Addresses\<close>

lemma usp_get_set [simp]: "usp_get k (usp_set k' v ps) = (if k = k' then Some v else usp_get k ps)"
proof -
  have "map_of (filter (\<lambda>q. fst q \<noteq> k') ps) k = map_of ps k" if "k \<noteq> k'" for ps :: "(string \<times> string) list"
    using that by (induction ps) auto
  then show ?thesis
    unfolding usp_get_def by (induction ps) auto
qed

lemma usp_get_write:
  "distinct (map fst view) \<Longrightarrow> usp_get k (write_query view ps) = (case map_of view k of Some v \<Rightarrow> Some v | None \<Rightarrow> usp_get k ps)"
proof (induction view arbitrary: ps)
  case (Cons e view)
  obtain k' v where e: "e = (k', v)"
    by (cases e)
  have "map_of view k' = None"
    using Cons.prems e by (simp add: map_of_eq_None_iff)
  then show ?case
    using Cons e by (auto simp: write_query_def split: option.splits)
qed (simp add: write_query_def)

lemma query_keys: "map fst (query_view lc b) =
    [''sw_scope'', ''sw_track'', ''sw_search'', ''sw_target'', ''sw_status'', ''sw_categories'', ''sw_tags'', ''sw_selected'', ''sw_view'',
     ''sw_rows'', ''sw_list_open'', ''sw_list_closed'', ''sw_bundle_list_open'', ''sw_bundle_list_closed'']"
  by (simp add: query_view_def SW_QUERY_KEYS_def Let_def)

lemma distinct_query_keys: "distinct (map fst (query_view lc b))"
  unfolding query_keys by code_simp

lemma written_value: "(k, v) \<in> set (query_view lc b) \<Longrightarrow> usp_get k (write_query (query_view lc b) ps) = Some v"
  by (simp add: usp_get_write distinct_query_keys map_of_is_SomeI)

lemma written_other: "k \<notin> fst ` set (query_view lc b) \<Longrightarrow> usp_get k (write_query (query_view lc b) ps) = usp_get k ps"
  using map_of_eq_None_iff [of "query_view lc b" k] by (simp add: usp_get_write distinct_query_keys)

definition shows_view :: "(string \<times> string) list \<Rightarrow> (string \<times> string) list \<Rightarrow> bool" where
  "shows_view view ps \<longleftrightarrow> (\<forall>e \<in> set view. usp_get (fst e) ps = Some (snd e))"

lemma shows_written [simp]: "shows_view (query_view lc b) (write_query (query_view lc b) ps)"
  by (auto simp: shows_view_def intro: written_value)

lemma shown_values:
  fixes lc b qs
  defines "f \<equiv> db_filters b"
  assumes "shows_view (query_view lc b) qs"
  shows "usp_get (sq_scope SW_QUERY_KEYS) qs = Some (scope_str (fi_softwareScope f))"
    "usp_get (sq_track SW_QUERY_KEYS) qs = Some (track_str (fi_releaseTrack f))"
    "usp_get (sq_search SW_QUERY_KEYS) qs = Some (fi_query f)"
    "usp_get (sq_target SW_QUERY_KEYS) qs = Some (target_str (fi_targetFilter f))"
    "usp_get (sq_status SW_QUERY_KEYS) qs = Some (facet_list lc (fi_statusFilter f))"
    "usp_get (sq_categories SW_QUERY_KEYS) qs = Some (facet_list lc (fi_categoryFilter f))"
    "usp_get (sq_tags SW_QUERY_KEYS) qs = Some (facet_list lc (fi_tagFilter f))"
    "usp_get (sq_selected SW_QUERY_KEYS) qs = Some (if fi_showSelectedOnly f then ''1'' else ''0'')"
    "usp_get (sq_view SW_QUERY_KEYS) qs = Some (view_str (fi_viewMode f))"
    "usp_get (sq_rows SW_QUERY_KEYS) qs = Some (case fi_rowsOverride f of Some n \<Rightarrow> if n \<noteq> 0 then int_str n else ''auto'' | None \<Rightarrow> ''auto'')"
    "usp_get (sq_listOpen SW_QUERY_KEYS) qs = Some (join '','' (db_open b))"
    "usp_get (sq_listClosed SW_QUERY_KEYS) qs = Some (join '','' (db_closed b))"
    "usp_get (sq_bundleListOpen SW_QUERY_KEYS) qs = Some (join '','' (db_bundleOpen b))"
    "usp_get (sq_bundleListClosed SW_QUERY_KEYS) qs = Some (join '','' (db_bundleClosed b))"
  using assms(2) by (simp_all add: shows_view_def query_view_def f_def Let_def)

subsection \<open>Rest\<close>

text \<open>What an effect after the first one leaves of the state: the address is ready.\<close>

lemma effects_ready:
  assumes "db_ready cap"
  shows "board_effects lc (Some p) cap =
    cap\<lparr>db_filters := (db_filters cap)
         \<lparr>fi_releaseTrack := (if fi_isExpertMode (db_filters cap) then fi_releaseTrack (db_filters cap) else Stable),
          fi_statusFilter := (if offered_statuses lc p = offered_statuses lc cap then fi_statusFilter (db_filters cap)
            else filter (\<lambda>status. status \<in> set (offered_statuses lc cap)) (fi_statusFilter (db_filters cap)))\<rparr>,
        db_viewMenuOpen := (fi_softwareScope (db_filters p) = fi_softwareScope (db_filters cap) \<and> db_viewMenuOpen cap),
        db_params := (if query_view lc p = query_view lc cap then db_params cap else write_query (query_view lc cap) (db_params cap))\<rparr>"
  using assms
  by (simp add: board_effects_def read_query_effect_def track_effect_def bundles_effect_def menu_effect_def write_query_effect_def prune_effect_def changed_def)

text \<open>What follows from the first round, whatever led to it: one more changes the view, the third the address at most.\<close>

lemma settled:
  fixes lc b b1
  defines "b2 \<equiv> board_effects lc (Some b) b1"
  defines "b3 \<equiv> board_effects lc (Some b1) b2"
  assumes "db_ready b1" "set (fi_statusFilter (db_filters b1)) \<subseteq> set (offered_statuses lc b)" "shows_view (query_view lc b) (db_params b1)"
  shows "db_filters b3 = (db_filters b1)
      \<lparr>fi_releaseTrack := (if fi_isExpertMode (db_filters b1) then fi_releaseTrack (db_filters b1) else Stable),
       fi_statusFilter := filter (\<lambda>status. status \<in> set (offered_statuses lc b1)) (fi_statusFilter (db_filters b1))\<rparr>"
    and "offered_statuses lc b3 = offered_statuses lc b1"
    and "shows_view (query_view lc b3) (db_params b3)"
    and "board_effects lc (Some b2) b3 = b3"
    and "b3 = b1\<lparr>db_filters := db_filters b3, db_viewMenuOpen := db_viewMenuOpen b3, db_params := db_params b3\<rparr>"
    and "k \<notin> fst ` set (query_view lc b) \<Longrightarrow> usp_get k (db_params b3) = usp_get k (db_params b1)"
proof -
  define f where "f = (db_filters b1)
      \<lparr>fi_releaseTrack := (if fi_isExpertMode (db_filters b1) then fi_releaseTrack (db_filters b1) else Stable),
       fi_statusFilter := filter (\<lambda>status. status \<in> set (offered_statuses lc b1)) (fi_statusFilter (db_filters b1))\<rparr>"
  have "(if offered_statuses lc b = offered_statuses lc b1 then fi_statusFilter (db_filters b1)
      else filter (\<lambda>status. status \<in> set (offered_statuses lc b1)) (fi_statusFilter (db_filters b1))) =
      filter (\<lambda>status. status \<in> set (offered_statuses lc b1)) (fi_statusFilter (db_filters b1))"
    using assms(4) by (auto intro!: filter_True [symmetric])
  then have b2: "b2 = b1\<lparr>db_filters := f, db_viewMenuOpen := (fi_softwareScope (db_filters b) = fi_softwareScope (db_filters b1) \<and> db_viewMenuOpen b1),
      db_params := (if query_view lc b = query_view lc b1 then db_params b1 else write_query (query_view lc b1) (db_params b1))\<rparr>"
    using effects_ready [OF assms(3), of lc b] by (simp add: b2_def f_def)
  have offered2: "offered_statuses lc b2 = offered_statuses lc b1"
    by (simp add: b2 f_def offered_statuses_def lifecycleStatusOptions_def lifecycleAllowedStatuses_def)
  have scope2: "fi_softwareScope (db_filters b2) = fi_softwareScope (db_filters b1)"
    by (simp add: b2 f_def)
  have b3: "b3 = b2\<lparr>db_params := (if query_view lc b1 = query_view lc b2 then db_params b2 else write_query (query_view lc b2) (db_params b2))\<rparr>"
    using effects_ready [of b2 lc b1] assms(3) offered2 scope2 by (simp add: b3_def) (simp add: b2 f_def)
  have view3: "query_view lc b3 = query_view lc b2"
    by (simp add: b3 query_view_def)
  have shown1: "shows_view (query_view lc b1) (db_params b2)"
    using assms(5) by (cases "query_view lc b = query_view lc b1") (simp_all add: b2)
  show shown3: "shows_view (query_view lc b3) (db_params b3)"
    unfolding view3 using shown1 by (cases "query_view lc b1 = query_view lc b2") (simp_all add: b3)
  show "db_filters b3 = (db_filters b1)
      \<lparr>fi_releaseTrack := (if fi_isExpertMode (db_filters b1) then fi_releaseTrack (db_filters b1) else Stable),
       fi_statusFilter := filter (\<lambda>status. status \<in> set (offered_statuses lc b1)) (fi_statusFilter (db_filters b1))\<rparr>"
    by (simp add: b3 b2 f_def)
  show offered3: "offered_statuses lc b3 = offered_statuses lc b1"
    using offered2 by (simp add: b3 offered_statuses_def)
  show "b3 = b1\<lparr>db_filters := db_filters b3, db_viewMenuOpen := db_viewMenuOpen b3, db_params := db_params b3\<rparr>"
    by (simp add: b3 b2)
  have "db_ready b3"
    using assms(3) by (simp add: b3 b2)
  moreover have same: "db_filters b2 = f" "db_filters b3 = f"
    by (simp_all add: b3 b2)
  ultimately have "board_effects lc (Some b2) b3 = b3\<lparr>db_filters := f\<lparr>fi_releaseTrack := fi_releaseTrack f, fi_statusFilter := fi_statusFilter f\<rparr>,
      db_viewMenuOpen := db_viewMenuOpen b3, db_params := db_params b3\<rparr>"
    using effects_ready [of b3 lc b2] offered2 offered3 view3 by (simp add: f_def)
  then show "board_effects lc (Some b2) b3 = b3"
    using same(2) by simp
  show "usp_get k (db_params b3) = usp_get k (db_params b1)" if "k \<notin> fst ` set (query_view lc b)" for k
  proof -
    have "fst ` set (query_view lc c) = fst ` set (query_view lc b)" for c
      using query_keys [of lc c] query_keys [of lc b] by (metis list.set_map)
    then have "k \<notin> fst ` set (query_view lc b1)" "k \<notin> fst ` set (query_view lc b2)"
      using that by auto
    then show ?thesis
      by (simp add: b3 b2 written_other)
  qed
qed

subsection \<open>What the view holds in every run\<close>

definition facets_ok :: "string list \<Rightarrow> bool" where
  "facets_ok ts \<longleftrightarrow> distinct ts \<and> (\<forall>t \<in> set ts. normalizeFacet t = t \<and> t \<noteq> [])"

definition columns_ok :: "string list \<Rightarrow> string list \<Rightarrow> string list \<Rightarrow> bool" where
  "columns_ok columns opened closed \<longleftrightarrow> filter (\<lambda>c. c \<in> set opened) columns = opened
     \<and> filter (\<lambda>c. c \<in> set closed) columns = closed \<and> set opened \<inter> set closed = {}"

definition view_ok :: "board \<Rightarrow> bool" where
  "view_ok b \<longleftrightarrow> (let f = db_filters b in
     facets_ok (fi_categoryFilter f) \<and> facets_ok (fi_tagFilter f) \<and> distinct (fi_statusFilter f)
     \<and> columns_ok OPTIONAL_LIST_COLUMNS (db_open b) (db_closed b)
     \<and> columns_ok BUNDLE_OPTIONAL_LIST_COLUMNS (db_bundleOpen b) (db_bundleClosed b)
     \<and> (\<forall>n. fi_rowsOverride f = Some n \<longrightarrow> 0 < n))"

definition query_key :: "string \<Rightarrow> bool" where
  "query_key k \<longleftrightarrow> k \<in> set [''sw_scope'', ''sw_track'', ''sw_search'', ''sw_target'', ''sw_status'', ''sw_categories'', ''sw_tags'',
     ''sw_selected'', ''sw_view'', ''sw_rows'', ''sw_list_open'', ''sw_list_closed'', ''sw_bundle_list_open'', ''sw_bundle_list_closed'']"

lemma query_key_iff: "query_key k \<longleftrightarrow> k \<in> fst ` set (query_view lc b)"
  unfolding query_key_def query_keys [of lc b, symmetric] by (simp only: set_map)

text \<open>At rest: the address holds the view, and \<open>ps\<close> are the parameters the page was opened with.\<close>

definition board_ok :: "(string \<Rightarrow> string \<Rightarrow> int) \<Rightarrow> (string \<times> string) list \<Rightarrow> board \<Rightarrow> bool" where
  "board_ok lc ps b \<longleftrightarrow> view_ok b \<and> db_ready b
     \<and> (fi_isExpertMode (db_filters b) \<or> fi_releaseTrack (db_filters b) = Stable)
     \<and> set (fi_statusFilter (db_filters b)) \<subseteq> set (offered_statuses lc b)
     \<and> shows_view (query_view lc b) (db_params b)
     \<and> (\<forall>k. \<not> query_key k \<longrightarrow> usp_get k (db_params b) = usp_get k ps)"

lemma filter_refilter: "filter (\<lambda>c. c \<in> set columns \<and> P c) columns = filter P columns"
  by (rule filter_cong) auto

lemma columns_ok_normalized:
  assumes "normalizeListColumnState xs ys columns = (opened, closed)"
  shows "columns_ok columns opened closed"
proof -
  have drop: "set (foldl (\<lambda>s column. if column \<in> set s \<and> column \<in> set c then set_del column s else s) s cols)
      = {x \<in> set s. x \<in> set c \<longrightarrow> x \<notin> set cols}" for s c cols
    by (induction cols arbitrary: s) auto
  then show ?thesis
    using assms by (auto simp: normalizeListColumnState_def columns_ok_def filter_refilter drop Let_def)
qed

lemma columns_ok_toggled:
  assumes "columns_ok columns o1 c1" "toggled_columns columns column v o1 c1 = (opened, closed)"
  shows "columns_ok columns opened closed"
proof -
  have "opened = filter (\<lambda>c. c \<in> (if v then set o1 - {column} else insert column (set o1))) columns"
    "closed = filter (\<lambda>c. c \<in> (if v then insert column (set c1) else set c1 - {column})) columns"
    using assms(2) by (auto simp: toggled_columns_def Let_def)
  then show ?thesis
    using assms(1) by (auto simp: columns_ok_def filter_refilter)
qed

lemma facets_ok_read: "facets_ok (to_set (parseFacetCsvParam (Some v)))"
  by (auto simp: facets_ok_def parseFacetCsvParam_def normalizeFacet_idem)

lemma facets_ok_add: "facets_ok ts \<Longrightarrow> normalizeFacet d \<noteq> [] \<Longrightarrow> facets_ok (set_add (normalizeFacet d) ts)"
  by (auto simp: facets_ok_def normalizeFacet_idem)

lemma facets_ok_del: "facets_ok ts \<Longrightarrow> facets_ok (set_del t ts)"
  by (auto simp: facets_ok_def)

lemma rows_param_pos: "rows_param s = Some n \<Longrightarrow> 0 < n"
proof -
  have "0 < m div 10 ^ k" if "m mod 10 ^ k = 0" "0 < m" for m :: int and k :: nat
    using that by (metis dvd_div_eq_0_iff mod_0_imp_dvd pos_imp_zdiv_nonneg_iff zero_less_numeral zero_less_power less_le order_less_le)
  then show "rows_param s = Some n \<Longrightarrow> 0 < n"
    by (cases "str_num s") (auto simp: rows_param_def Let_def split: if_splits)
qed

lemma parseStatus_distinct: "distinct (to_set (parseCsvParam v))"
  by simp

lemma view_ok_read:
  assumes "view_ok b"
  shows "view_ok (read_query ps b)"
proof -
  have columns: "columns_ok cols opened closed" if "columns_ok cols o0 c0" "columns_param k1 k2 cols ps (o0, c0) = (opened, closed)"
    for k1 k2 cols o0 c0 opened closed
    using that columns_ok_normalized [of _ _ cols] by (auto simp: columns_param_def split: if_splits)
  have "facets_ok (fi_categoryFilter (read_filters ps (db_filters b)))" "facets_ok (fi_tagFilter (read_filters ps (db_filters b)))"
    "distinct (fi_statusFilter (read_filters ps (db_filters b)))"
    using assms facets_ok_read by (auto simp: view_ok_def read_filters_def given_or_def Let_def split: option.splits)
  moreover have "0 < n" if "fi_rowsOverride (read_filters ps (db_filters b)) = Some n" for n
    using that assms rows_param_pos by (auto simp: view_ok_def read_filters_def Let_def split: if_splits)
  ultimately show ?thesis
    using assms columns [of OPTIONAL_LIST_COLUMNS "db_open b" "db_closed b"]
      columns [of BUNDLE_OPTIONAL_LIST_COLUMNS "db_bundleOpen b" "db_bundleClosed b"]
    by (auto simp: view_ok_def read_query_def Let_def split: prod.splits)
qed

lemma view_ok_settled:
  assumes "view_ok b1" "b3 = b1\<lparr>db_filters := db_filters b3, db_viewMenuOpen := m, db_params := ps\<rparr>"
    "db_filters b3 = (db_filters b1)\<lparr>fi_releaseTrack := t, fi_statusFilter := filter P (fi_statusFilter (db_filters b1))\<rparr>"
  shows "view_ok b3"
proof -
  have "db_open b3 = db_open b1" "db_closed b3 = db_closed b1" "db_bundleOpen b3 = db_bundleOpen b1" "db_bundleClosed b3 = db_bundleClosed b1"
    by (subst assms(2), simp)+
  then show ?thesis
    using assms(1) unfolding view_ok_def assms(3) by (simp add: Let_def)
qed

text \<open>A page that has rendered once comes to rest with the view in its address.\<close>

lemma board_ok_settled:
  assumes "view_ok b1" "db_ready b1" "set (fi_statusFilter (db_filters b1)) \<subseteq> set (offered_statuses lc b)"
    "shows_view (query_view lc b) (db_params b1)" "\<forall>k. \<not> query_key k \<longrightarrow> usp_get k (db_params b1) = usp_get k ps"
  shows "board_ok lc ps (board_effects lc (Some b1) (board_effects lc (Some b) b1))" (is "board_ok lc ps ?b3")
proof -
  note s = settled [OF assms(2-4)]
  have "view_ok ?b3"
    by (rule view_ok_settled [OF assms(1) s(5) s(1)])
  moreover have "db_ready ?b3"
    using assms(2) by (subst s(5)) simp
  moreover have "usp_get k (db_params ?b3) = usp_get k ps" if "\<not> query_key k" for k
    using s(6) [of k] that assms(5) query_key_iff [of k lc b] by simp
  moreover have "fi_isExpertMode (db_filters ?b3) \<or> fi_releaseTrack (db_filters ?b3) = Stable"
    "set (fi_statusFilter (db_filters ?b3)) \<subseteq> set (offered_statuses lc ?b3)"
    unfolding s(2) unfolding s(1) by auto
  ultimately show ?thesis
    using s(3) by (simp add: board_ok_def)
qed

lemma view_ok_action:
  assumes "view_ok b"
  shows "view_ok (board_action lc e b)"
proof (cases e)
  case (Toggle_column width column)
  then show ?thesis
    using assms columns_ok_toggled [of OPTIONAL_LIST_COLUMNS "db_open b" "db_closed b"]
    by (auto simp: view_ok_def toggleListColumn_def Let_def split: prod.splits)
next
  case (Toggle_bundle_column width column)
  then show ?thesis
    using assms columns_ok_toggled [of BUNDLE_OPTIONAL_LIST_COLUMNS "db_bundleOpen b" "db_bundleClosed b"]
    by (auto simp: view_ok_def toggleBundleColumn_def Let_def split: prod.splits)
next
  case (Bundles_answer res)
  then show ?thesis
    using assms by (cases res) (simp_all add: view_ok_def bundles_answered_def)
next
  case (Pick_rows picked)
  then show ?thesis
    using assms by (cases picked) (simp_all add: view_ok_def in_filters_def Let_def)
next
  case (Toggle_status status)
  then show ?thesis
    using assms by (simp add: view_ok_def in_filters_def distinct_set_toggle Let_def)
next
  case (Change_mode expert)
  then show ?thesis
    using assms by (simp add: view_ok_def in_filters_def change_mode_def Let_def)
qed (use assms in \<open>simp_all add: view_ok_def in_filters_def addCategoryFilter_def addTagFilter_def facets_ok_add facets_ok_del Let_def\<close>)

lemma action_frame:
  "db_ready (board_action lc e b) = db_ready b" "db_params (board_action lc e b) = db_params b"
  by (cases e; simp add: in_filters_def addCategoryFilter_def addTagFilter_def toggleListColumn_def toggleBundleColumn_def change_mode_def
      bundles_answered_def Let_def split: prod.splits sum.splits)+

lemma action_statuses:
  "set (fi_statusFilter (db_filters (board_action lc e b))) \<subseteq> set (fi_statusFilter (db_filters b)) \<union> set (offered_statuses lc b)"
  by (cases e; auto simp: in_filters_def addCategoryFilter_def addTagFilter_def toggleListColumn_def toggleBundleColumn_def change_mode_def
      bundles_answered_def set_set_toggle Let_def split: prod.splits sum.splits)

lemma board_step_ok:
  assumes "board_ok lc ps b"
  shows "board_ok lc ps (board_step lc e b)"
proof -
  define a where "a = board_action lc e b"
  have a: "view_ok a" "db_ready a" "db_params a = db_params b" "set (fi_statusFilter (db_filters a)) \<subseteq> set (offered_statuses lc b)"
    using assms view_ok_action [of b lc e] action_statuses [of lc e b] by (auto simp: a_def board_ok_def action_frame)
  define b1 where "b1 = board_effects lc (Some b) a"
  note b1 = effects_ready [OF a(2), of lc b, folded b1_def]
  have "view_ok b1"
    using a(1) by (simp add: b1 view_ok_def Let_def)
  moreover have "db_ready b1" "set (fi_statusFilter (db_filters b1)) \<subseteq> set (offered_statuses lc a)"
    using a(2,4) by (auto simp: b1)
  moreover have "shows_view (query_view lc a) (db_params b1)"
    using assms a(3) by (cases "query_view lc b = query_view lc a") (simp_all add: b1 board_ok_def)
  moreover have "usp_get k (db_params b1) = usp_get k ps" if "\<not> query_key k" for k
    using assms that a(3) query_key_iff [of k lc a] by (simp add: b1 board_ok_def written_other)
  ultimately show ?thesis
    using board_ok_settled [of b1 lc a ps] by (simp add: board_step_def render_board_def a_def b1_def Let_def)
qed

text \<open>The first round of a page that is opened.\<close>

lemma opened_first:
  fixes lc expert roles ps
  defines "b0 \<equiv> initial_board expert roles ps"
  defines "b1 \<equiv> board_effects lc None b0" and "r \<equiv> read_query ps b0"
  shows "b1 = r\<lparr>db_ready := True, db_bundlesLoading := True, db_filters := (db_filters r)
      \<lparr>fi_statusFilter := filter (\<lambda>status. status \<in> set (offered_statuses lc b0)) (fi_statusFilter (db_filters r))\<rparr>,
      db_params := write_query (query_view lc b0) ps\<rparr>"
proof -
  have "\<not> db_ready b0" "db_params b0 = ps" "fi_releaseTrack (db_filters b0) = Stable"
    by (simp_all add: b0_def initial_board_def)
  moreover have "db_params r = ps" "\<not> db_viewMenuOpen r" "db_bundlesError r = None"
    by (simp_all add: r_def b0_def read_query_def initial_board_def Let_def split: prod.splits)
  ultimately show ?thesis
    by (simp add: b1_def r_def [symmetric] board_effects_def read_query_effect_def track_effect_def bundles_effect_def menu_effect_def write_query_effect_def
        prune_effect_def changed_def)
qed

lemma view_ok_initial: "view_ok (initial_board expert roles ps)"
  by (simp add: view_ok_def initial_board_def facets_ok_def columns_ok_def)

lemma opened_ok: "board_ok lc ps (open_board lc expert expert' roles ps)"
proof -
  define b0 where "b0 = initial_board expert roles ps"
  define b1 where "b1 = (board_effects lc None b0)\<lparr>db_filters := (db_filters (board_effects lc None b0))\<lparr>fi_isExpertMode := expert'\<rparr>\<rparr>"
  note b1 = b1_def [unfolded opened_first [of lc expert roles ps, folded b0_def]]
  have "view_ok (read_query ps b0)"
    unfolding b0_def by (intro view_ok_read view_ok_initial)
  then have "view_ok b1"
    by (simp add: b1 view_ok_def Let_def)
  moreover have "db_ready b1" "set (fi_statusFilter (db_filters b1)) \<subseteq> set (offered_statuses lc b0)"
    "shows_view (query_view lc b0) (db_params b1)" "\<forall>k. \<not> query_key k \<longrightarrow> usp_get k (db_params b1) = usp_get k ps"
    using query_key_iff [of _ lc b0] by (auto simp: b1 written_other)
  ultimately show ?thesis
    using board_ok_settled [of b1 lc b0 ps] by (simp add: open_board_def b0_def [symmetric] b1_def [symmetric] Let_def)
qed

interpretation board: machine "board_step lc" "board_ok lc ps"
  by unfold_locales (rule board_step_ok)

text \<open>
  C39: in every run the address shows the view: every name of the dashboard has the value of the view, every other parameter
  is as it was when the page was opened. The preview track is chosen by experts only, and the statuses chosen are among
  those on offer.
\<close>

theorem address_shows_view:
  fixes lc expert expert' roles ps es
  defines "b \<equiv> fold (board_step lc) es (open_board lc expert expert' roles ps)"
  shows "(\<forall>(k, v) \<in> set (query_view lc b). usp_get k (db_params b) = Some v)
    \<and> (\<forall>k. \<not> query_key k \<longrightarrow> usp_get k (db_params b) = usp_get k ps)
    \<and> (fi_releaseTrack (db_filters b) = Preview \<longrightarrow> fi_isExpertMode (db_filters b))
    \<and> set (fi_statusFilter (db_filters b)) \<subseteq> set (offered_statuses lc b)"
proof -
  have "board_ok lc ps b"
    unfolding b_def by (rule board.every_run_ok [OF opened_ok])
  then show ?thesis
    by (auto simp: board_ok_def shows_view_def)
qed

subsection \<open>Reading back what was written\<close>

definition no_comma :: "string list \<Rightarrow> bool" where
  "no_comma ts \<longleftrightarrow> (\<forall>t \<in> set ts. CHR '','' \<notin> set t)"

lemma split_joined: "no_comma ts \<Longrightarrow> split_on (CHR '','') (join '','' ts) = (if ts = [] then [[]] else ts)"
  using split_on_join [of ts "CHR '',''"] by (cases ts) (auto simp: no_comma_def)

lemma parse_facets_joined:
  assumes "facets_ok ts" "no_comma ts"
  shows "parseFacetCsvParam (Some (join '','' ts)) = ts"
proof -
  have "map normalizeFacet ts = ts" "nonempties ts = ts"
    using assms(1) by (auto simp: facets_ok_def map_idI nonempties_id)
  then show ?thesis
    using split_joined [OF assms(2)] by (simp add: parseFacetCsvParam_def opt_list_def normalizeFacet_def nonempties_def)
qed

lemma facet_list_back: "facets_ok ts \<Longrightarrow> no_comma ts \<Longrightarrow> set (to_set (parseFacetCsvParam (Some (facet_list lc ts)))) = set ts"
  using parse_facets_joined [of "js_sort lc ts"] by (simp add: facet_list_def facets_ok_def no_comma_def)

definition plain_columns :: "string list \<Rightarrow> bool" where
  "plain_columns columns \<longleftrightarrow> (\<forall>c \<in> set columns. to_lower (trim c) = c \<and> c \<noteq> [] \<and> CHR '','' \<notin> set c)"

lemma plain_column_lists: "plain_columns OPTIONAL_LIST_COLUMNS" "plain_columns BUNDLE_OPTIONAL_LIST_COLUMNS"
  by code_simp+

lemma parse_columns_joined:
  assumes "plain_columns columns" "filter (\<lambda>c. c \<in> set cs) columns = cs"
  shows "parseListColumnCsvParam (Some (join '','' cs)) columns = cs"
proof -
  have sub: "set cs \<subseteq> set columns"
    using assms(2) by (metis filter_is_subset)
  then have plain: "no_comma cs" "\<forall>c \<in> set cs. to_lower (trim c) = c"
    using assms(1) by (auto simp: plain_columns_def no_comma_def)
  from plain(2) have tidy: "map (\<lambda>entry. to_lower (trim entry)) cs = cs"
    by (simp add: map_idI)
  have seen: "set (foldl (\<lambda>seen entry. if entry \<notin> set columns then seen else set_add entry seen) s es) = set s \<union> (set es \<inter> set columns)" for s es
    by (induction es arbitrary: s) auto
  have "filter (\<lambda>entry. entry \<in> set es \<inter> set columns) columns = filter (\<lambda>entry. entry \<in> set es) columns" for es
    by (rule filter_cong) auto
  moreover have "[] \<notin> set columns"
    using assms(1) by (auto simp: plain_columns_def)
  ultimately show ?thesis
    using assms(2) split_joined [OF plain(1)] tidy seen [of "[]"]
    by (cases "cs = []") (simp_all add: parseListColumnCsvParam_def opt_list_def to_lower_def filter_False Let_def)
qed

lemma columns_back:
  assumes "plain_columns columns" "columns_ok columns opened closed" "usp_get k1 ps = Some (join '','' opened)" "usp_get k2 ps = Some (join '','' closed)"
  shows "columns_param k1 k2 columns ps cur = (opened, closed)"
proof -
  have parsed: "parseListColumnCsvParam (Some (join '','' opened)) columns = opened" "parseListColumnCsvParam (Some (join '','' closed)) columns = closed"
    using assms(1,2) parse_columns_joined by (auto simp: columns_ok_def)
  have drop: "set (foldl (\<lambda>s column. if column \<in> set s \<and> column \<in> set c then set_del column s else s) s cols)
      = {x \<in> set s. x \<in> set c \<longrightarrow> x \<notin> set cols}" for s c cols
    by (induction cols arbitrary: s) auto
  have "filter (\<lambda>x. x \<in> set opened \<and> (x \<in> set closed \<longrightarrow> x \<notin> set columns)) columns = filter (\<lambda>x. x \<in> set opened) columns"
    using assms(2) by (intro filter_cong) (auto simp: columns_ok_def)
  then show ?thesis
    using assms parsed by (simp add: columns_param_def normalizeListColumnState_def drop columns_ok_def Let_def)
qed

lemma scope_back: "to_lower (trim (scope_str s)) = scope_str s \<and> named scope_str [Apps, Bundles] (scope_str s) = Some s"
  by (cases s; hypsubst; code_simp)

lemma track_back: "to_lower (trim (track_str t)) = track_str t \<and> named track_str RELEASE_TRACK_OPTIONS (track_str t) = Some t"
  by (cases t; hypsubst; code_simp)

lemma target_back: "to_lower (trim (target_str d)) = target_str d \<and> named target_str TARGET_FILTER_OPTIONS (target_str d) = Some d"
  by (cases d; hypsubst; code_simp)

lemma view_back: "to_lower (trim (view_str v)) = view_str v \<and> named view_str VIEW_MODES (view_str v) = Some v"
  by (cases v; hypsubst; code_simp)

lemma rows_back:
  assumes "0 < n"
  shows "to_lower (trim (int_str n)) = int_str n" "int_str n \<noteq> []" "rows_param (int_str n) = Some n"
proof -
  have digits: "int_str n = dec_digits (nat n)"
    using assms by (simp add: int_str_def)
  have "to_lower (dec_digits m) = dec_digits m" for m
    unfolding to_lower_def by (rule map_idI) (auto simp: lower_char_def upper_code_def is_digit_def dest!: set_dec_digits)
  then show lower: "to_lower (trim (int_str n)) = int_str n" "int_str n \<noteq> []"
    by (simp_all add: digits)
  have "int_str n \<noteq> ''auto''"
    using set_dec_digits [of "CHR ''a''" "nat n"] by (auto simp: digits is_digit_def code_def)
  then show "rows_param (int_str n) = Some n"
    using assms by (simp add: rows_param_def digits Let_def)
qed

lemma filters_back:
  fixes lc b qs g
  defines "f \<equiv> db_filters b" and "h \<equiv> read_filters qs g"
  assumes "view_ok b" "no_comma (fi_categoryFilter f)" "no_comma (fi_tagFilter f)" "shows_view (query_view lc b) qs"
  shows "fi_softwareScope h = fi_softwareScope f" "fi_releaseTrack h = fi_releaseTrack f" "fi_query h = fi_query f"
    "fi_targetFilter h = fi_targetFilter f" "set (fi_categoryFilter h) = set (fi_categoryFilter f)" "set (fi_tagFilter h) = set (fi_tagFilter f)"
    "fi_showSelectedOnly h = fi_showSelectedOnly f" "fi_viewMode h = fi_viewMode f" "fi_rowsOverride h = fi_rowsOverride f"
proof -
  note shown = shown_values [OF assms(6)]
  have facets: "facets_ok (fi_categoryFilter f)" "facets_ok (fi_tagFilter f)"
    using assms(3) by (simp_all add: view_ok_def f_def Let_def)
  show "fi_softwareScope h = fi_softwareScope f" "fi_releaseTrack h = fi_releaseTrack f" "fi_query h = fi_query f" "fi_targetFilter h = fi_targetFilter f" "fi_viewMode h = fi_viewMode f"
    by (simp_all add: h_def f_def read_filters_def scope_param_def tidy_param_def shown opt_list_def given_or_def scope_back track_back target_back view_back)
  show "set (fi_categoryFilter h) = set (fi_categoryFilter f)" "set (fi_tagFilter h) = set (fi_tagFilter f)"
    using facet_list_back [OF facets(1) assms(4), of lc] facet_list_back [OF facets(2) assms(5), of lc]
    by (simp_all add: h_def f_def read_filters_def shown given_or_def)
  have "trim ''1'' = ''1''" "trim ''0'' = ''0''" "trim ''auto'' = ''auto''" "to_lower ''1'' = ''1''" "to_lower ''0'' = ''0''" "to_lower ''auto'' = ''auto''"
    by code_simp+
  note tidy = this
  show "fi_showSelectedOnly h = fi_showSelectedOnly f"
    by (simp add: h_def f_def read_filters_def tidy_param_def shown opt_list_def tidy Let_def)
  show "fi_rowsOverride h = fi_rowsOverride f"
  proof (cases "fi_rowsOverride f")
    case None
    then show ?thesis
      by (simp add: h_def f_def read_filters_def tidy_param_def shown opt_list_def tidy rows_param_def)
  next
    case (Some n)
    then have "0 < n"
      using assms(3) by (simp add: view_ok_def f_def Let_def)
    note kept = rows_back [OF this]
    have "tidy_param (sq_rows SW_QUERY_KEYS) qs = int_str n"
      using \<open>0 < n\<close> Some kept(1) by (simp add: tidy_param_def shown opt_list_def f_def)
    then show ?thesis
      using Some kept(2,3) by (simp add: h_def read_filters_def)
  qed
qed

text \<open>
  C9: a view is kept over a reload of the page: whatever the user has done, the page that is opened at the address again has
  the same scope, search, target, categories, tags, selection, view, rows and columns, provided no category or tag has a
  comma in it; the track as well when the page is opened in expert mode. The statuses are not kept where nothing is on
  offer yet: for bundles, which are not loaded when the address is read, and when there are no roles; then the address
  forgets them too.
\<close>

theorem reload_keeps_view:
  fixes lc expert expert' roles roles' ps es mode mode'
  defines "b \<equiv> fold (board_step lc) es (open_board lc expert expert' roles ps)"
  defines "r \<equiv> open_board lc mode mode' roles' (db_params b)"
  defines "f \<equiv> db_filters b" and "h \<equiv> db_filters r"
  assumes "no_comma (fi_categoryFilter f)" "no_comma (fi_tagFilter f)"
  shows "fi_softwareScope h = fi_softwareScope f \<and> fi_query h = fi_query f \<and> fi_targetFilter h = fi_targetFilter f
    \<and> set (fi_categoryFilter h) = set (fi_categoryFilter f) \<and> set (fi_tagFilter h) = set (fi_tagFilter f)
    \<and> fi_showSelectedOnly h = fi_showSelectedOnly f \<and> fi_viewMode h = fi_viewMode f \<and> fi_rowsOverride h = fi_rowsOverride f
    \<and> db_open r = db_open b \<and> db_closed r = db_closed b \<and> db_bundleOpen r = db_bundleOpen b \<and> db_bundleClosed r = db_bundleClosed b
    \<and> fi_releaseTrack h = (if mode' then fi_releaseTrack f else Stable)
    \<and> (fi_softwareScope f = Bundles \<or> roles' = [] \<longrightarrow> fi_statusFilter h = [] \<and> usp_get ''sw_status'' (db_params r) = Some [])"
proof -
  have b: "view_ok b" "shows_view (query_view lc b) (db_params b)"
  proof -
    have "board_ok lc ps b"
      unfolding b_def by (rule board.every_run_ok [OF opened_ok])
    then show "view_ok b" "shows_view (query_view lc b) (db_params b)"
      by (simp_all add: board_ok_def)
  qed
  define b0 where "b0 = initial_board mode roles' (db_params b)"
  define q where "q = read_query (db_params b) b0"
  define b1 where "b1 = (board_effects lc None b0)\<lparr>db_filters := (db_filters (board_effects lc None b0))\<lparr>fi_isExpertMode := mode'\<rparr>\<rparr>"
  note b1 = b1_def [unfolded opened_first [of lc mode roles' "db_params b", folded b0_def, folded q_def]]
  have pre: "db_ready b1" "set (fi_statusFilter (db_filters b1)) \<subseteq> set (offered_statuses lc b0)" "shows_view (query_view lc b0) (db_params b1)"
    by (auto simp: b1)
  have r: "r = board_effects lc (Some b1) (board_effects lc (Some b0) b1)"
    by (simp add: r_def open_board_def b0_def [symmetric] b1_def [symmetric] Let_def)
  note s = settled [OF pre, folded r]
  have q: "db_filters q = read_filters (db_params b) (db_filters b0)"
    by (simp add: q_def read_query_def split: prod.splits)
  note kept = filters_back [OF b(1) assms(5,6) [unfolded f_def] b(2), of "db_filters b0", folded q]
  have columns: "db_open q = db_open b" "db_closed q = db_closed b" "db_bundleOpen q = db_bundleOpen b" "db_bundleClosed q = db_bundleClosed b"
    using b(1) shown_values(11-14) [OF b(2)] columns_back [OF plain_column_lists(1)] columns_back [OF plain_column_lists(2)]
    by (auto simp: q_def read_query_def view_ok_def Let_def split: prod.splits)
  have lists: "db_open r = db_open q" "db_closed r = db_closed q" "db_bundleOpen r = db_bundleOpen q" "db_bundleClosed r = db_bundleClosed q"
    by (subst s(5), simp add: b1)+
  have "fi_isExpertMode (db_filters b1) = mode'"
    by (simp add: b1)
  then have h: "h = (db_filters b1)\<lparr>fi_releaseTrack := (if mode' then fi_releaseTrack (db_filters q) else Stable),
      fi_statusFilter := filter (\<lambda>status. status \<in> set (offered_statuses lc b1)) (fi_statusFilter (db_filters b1))\<rparr>"
    using s(1) by (simp add: h_def) (simp add: b1)
  have lost: "fi_statusFilter h = [] \<and> usp_get ''sw_status'' (db_params r) = Some []" if "fi_softwareScope f = Bundles \<or> roles' = []"
  proof -
    have "fi_softwareScope (db_filters b0) = fi_softwareScope f"
      using shown_values(1) [OF b(2)]
      by (simp add: b0_def initial_board_def initialSoftwareScope_def scope_param_def tidy_param_def opt_list_def scope_back f_def)
    then have "offered_statuses lc b0 = []"
      using that by (auto simp: offered_statuses_def lifecycleStatusOptions_def b0_def initial_board_def bundleLifecycleOptionsAll_def
          bundleLifecycleByBundleId_def appLifecycleOptionsAll_def sortStatuses_def own_entries_def nonempties_def)
    then have empty: "fi_statusFilter h = []"
      using pre(2) by (simp add: h)
    moreover have "usp_get (sq_status SW_QUERY_KEYS) (db_params r) = Some (facet_list lc [])"
      using shown_values(5) [OF s(3)] empty by (simp add: h_def)
    ultimately show ?thesis
      by (simp add: facet_list_def SW_QUERY_KEYS_def)
  qed
  have fields: "fi_softwareScope h = fi_softwareScope (db_filters q)" "fi_query h = fi_query (db_filters q)"
    "fi_targetFilter h = fi_targetFilter (db_filters q)" "fi_categoryFilter h = fi_categoryFilter (db_filters q)"
    "fi_tagFilter h = fi_tagFilter (db_filters q)" "fi_showSelectedOnly h = fi_showSelectedOnly (db_filters q)"
    "fi_viewMode h = fi_viewMode (db_filters q)" "fi_rowsOverride h = fi_rowsOverride (db_filters q)"
    "fi_releaseTrack h = (if mode' then fi_releaseTrack (db_filters q) else Stable)"
    by (simp_all add: h b1)
  show ?thesis
    unfolding fields lists columns kept [folded f_def] using lost by blast
qed

subsection \<open>Showing and hiding columns\<close>

lemma shown_fold:
  defines "step minWidth w fo fc \<equiv> (\<lambda>(visible, usedWidth) column.
       if column \<in> set fc then (visible, usedWidth)
       else let fitsByDefault = (w > 0 \<and> usedWidth + LIST_COLUMN_GAP_PX + minWidth column \<le> w)
            in if column \<notin> set fo \<and> \<not> fitsByDefault then (visible, usedWidth)
               else (visible @ [column], usedWidth + LIST_COLUMN_GAP_PX + minWidth column))"
  shows "c \<in> set fc \<Longrightarrow> c \<in> set (fst (foldl (step minWidth w fo fc) (visible, used) columns)) \<longleftrightarrow> c \<in> set visible"
    and "c \<notin> set fc \<Longrightarrow> c \<in> set fo \<Longrightarrow> c \<in> set columns \<or> c \<in> set visible \<Longrightarrow> c \<in> set (fst (foldl (step minWidth w fo fc) (visible, used) columns))"
  by (induction columns arbitrary: visible used) (auto simp: step_def Let_def)

lemma shown_closed: "c \<in> set closed \<Longrightarrow> c \<notin> set (shown_columns minWidth used columns w opened closed)"
  unfolding shown_columns_def by (simp add: shown_fold(1))

lemma shown_open: "c \<notin> set closed \<Longrightarrow> c \<in> set opened \<Longrightarrow> c \<in> set columns \<Longrightarrow> c \<in> set (shown_columns minWidth used columns w opened closed)"
  unfolding shown_columns_def by (rule shown_fold(2)) simp_all

text \<open>The button of a column of the list of applications shows it when it is hidden and hides it when it is shown, at every width.\<close>

theorem column_toggles:
  assumes "column \<in> set OPTIONAL_LIST_COLUMNS"
  shows "column \<in> set (visibleColumns width (toggleListColumn width column b)) \<longleftrightarrow> column \<notin> set (visibleColumns width b)"
proof -
  obtain opened closed where t: "toggled_columns OPTIONAL_LIST_COLUMNS column (column \<in> set (visibleColumns width b)) (db_open b) (db_closed b)
      = (opened, closed)"
    by (cases "toggled_columns OPTIONAL_LIST_COLUMNS column (column \<in> set (visibleColumns width b)) (db_open b) (db_closed b)")
  then have "(column \<in> set (visibleColumns width b) \<longrightarrow> column \<in> set closed) \<and>
      (column \<notin> set (visibleColumns width b) \<longrightarrow> column \<in> set opened \<and> column \<notin> set closed)"
    using assms by (auto simp: toggled_columns_def Let_def split: if_splits)
  then have "column \<in> set (shown_columns minWidth used OPTIONAL_LIST_COLUMNS width opened closed) \<longleftrightarrow> column \<notin> set (visibleColumns width b)"
    for minWidth used
    using assms shown_closed [of column closed] shown_open [of column closed opened] by blast
  then show ?thesis
    using t by (simp add: toggleListColumn_def visibleColumns_def)
qed

text \<open>A token with a comma, which the filter accepts, is taken apart by a reload: one category becomes two.\<close>

theorem comma_splits_category:
  "let b = addCategoryFilter ((initial_board False [] [])\<lparr>db_categoryDraft := ''a,b''\<rparr>);
       r = read_query (write_query (query_view lc b) []) (initial_board False [] [])
   in fi_categoryFilter (db_filters b) = [''a,b''] \<and> fi_categoryFilter (db_filters r) = [''a'', ''b'']"
proof -
  define b where "b = addCategoryFilter ((initial_board False [] [])\<lparr>db_categoryDraft := ''a,b''\<rparr>)"
  have "fi_categoryFilter (db_filters b) = [''a,b'']"
    unfolding b_def by code_simp
  moreover have "to_set (parseFacetCsvParam (Some ''a,b'')) = [''a'', ''b'']"
    by code_simp
  ultimately show ?thesis
    using shown_values(6) [OF shows_written [of lc b "[]"]]
    by (simp add: b_def [symmetric] read_query_def read_filters_def given_or_def facet_list_def Let_def split: prod.splits)
qed

theorem reload_keeps_view_witness:
  "fi_query (db_filters (open_board (\<lambda>a b. 0) False False []
      (db_params (fold (board_step (\<lambda>a b. 0)) [Type_query ''wiki''] (open_board (\<lambda>a b. 0) True True [] []))))) =
    fi_query (db_filters (fold (board_step (\<lambda>a b. 0)) [Type_query ''wiki''] (open_board (\<lambda>a b. 0) True True [] [])))"
proof -
  have "no_comma (fi_categoryFilter (db_filters (fold (board_step (\<lambda>a b. 0)) [Type_query ''wiki''] (open_board (\<lambda>a b. 0) True True [] []))))"
    "no_comma (fi_tagFilter (db_filters (fold (board_step (\<lambda>a b. 0)) [Type_query ''wiki''] (open_board (\<lambda>a b. 0) True True [] []))))"
    by code_simp+
  from reload_keeps_view [OF this] show ?thesis
    by blast
qed

theorem address_shows_view_witness:
  "usp_get ''workspace'' (db_params (fold (board_step (\<lambda>a b. 0)) [Toggle_scope] (open_board (\<lambda>a b. 0) False False [] [(''workspace'', ''w1'')]))) = Some ''w1''"
proof -
  have "\<not> query_key ''workspace''" "usp_get ''workspace'' [(''workspace'', ''w1'')] = Some ''w1''"
    by code_simp+
  then show ?thesis
    using address_shows_view [of "\<lambda>a b. 0" "[Toggle_scope]" False False "[]" "[(''workspace'', ''w1'')]"] by metis
qed

theorem column_toggles_witness:
  "''price'' \<in> set (visibleColumns 0 (toggleListColumn 0 ''price'' (initial_board False [] [])))"
proof -
  have "''price'' \<in> set OPTIONAL_LIST_COLUMNS" "''price'' \<notin> set (visibleColumns 0 (initial_board False [] []))"
    by code_simp+
  then show ?thesis
    using column_toggles by blast
qed

end
