(* ===== verification/JsonText.thy ===== *)
theory JsonText
  imports JsValue
begin

text \<open>
  \<open>JSON.parse\<close> of the language, by recursive descent on the text: \<open>None\<close> when it throws. The
  recursion is bounded by a fuel of twice the length of the text plus two: every call of a parser
  inside another one is made after at least every second call has consumed a character. A code unit
  escape above 255 lies outside the string model and is refused.
\<close>

subsection \<open>Lexical elements\<close>

definition json_ws :: "char \<Rightarrow> bool" where
  "json_ws c \<longleftrightarrow> code c = 32 \<or> code c = 9 \<or> code c = 10 \<or> code c = 13"

definition skip_ws :: "string \<Rightarrow> string" where
  "skip_ws s = dropWhile json_ws s"

definition json_escape :: "char \<Rightarrow> char option" where
  "json_escape e =
     (if code e = 34 \<or> code e = 92 \<or> code e = 47 then Some e
      else if e = CHR ''b'' then Some (char_of (8 :: nat))
      else if e = CHR ''f'' then Some (char_of (12 :: nat))
      else if e = CHR ''n'' then Some (char_of (10 :: nat))
      else if e = CHR ''r'' then Some (char_of (13 :: nat))
      else if e = CHR ''t'' then Some (char_of (9 :: nat)) else None)"

definition hex4 :: "string \<Rightarrow> nat option" where
  "hex4 ds = (if length ds = 4 then radix_val 16 0 ds else None)"

text \<open>The rest of a string literal after its opening quote: the string and what follows it.\<close>

fun json_string :: "string \<Rightarrow> (string \<times> string) option" where
  "json_string [] = None"
| "json_string (c # s) =
     (if code c = 34 then Some ([], s)
      else if code c = 92 then
        (case s of
           [] \<Rightarrow> None
         | e # r \<Rightarrow>
             (case json_escape e of
                Some d \<Rightarrow> map_option (\<lambda>(t, u). (d # t, u)) (json_string r)
              | None \<Rightarrow>
                  if e = CHR ''u'' then
                    (case r of
                       d1 # d2 # d3 # d4 # r' \<Rightarrow>
                         (case hex4 [d1, d2, d3, d4] of
                            Some n \<Rightarrow> if n < 256 then map_option (\<lambda>(t, u). (char_of n # t, u)) (json_string r')
                                     else None
                          | None \<Rightarrow> None)
                     | _ \<Rightarrow> None)
                  else None))
      else if code c < 32 then None
      else map_option (\<lambda>(t, u). (c # t, u)) (json_string s))"

text \<open>A number literal at the front of the text: its length, if there is a well-formed one.\<close>

definition digit_span :: "string \<Rightarrow> nat" where
  "digit_span s = length (takeWhile is_digit s)"

definition json_int_span :: "string \<Rightarrow> nat option" where
  "json_int_span s =
     (let n = digit_span s in
      if n = 0 \<or> (n > 1 \<and> hd s = CHR ''0'') then None else Some n)"

definition json_frac_span :: "string \<Rightarrow> nat option" where
  "json_frac_span s =
     (case s of c # r \<Rightarrow> if c = CHR ''.'' then (if digit_span r = 0 then None else Some (Suc (digit_span r)))
                         else Some 0
      | [] \<Rightarrow> Some 0)"

definition json_exp_span :: "string \<Rightarrow> nat option" where
  "json_exp_span s =
     (case s of c # r \<Rightarrow>
        if c = CHR ''e'' \<or> c = CHR ''E'' then
          (let sign = (if r \<noteq> [] \<and> (hd r = CHR ''+'' \<or> hd r = CHR ''-'') then 1 else 0);
               n = digit_span (drop sign r)
           in if n = 0 then None else Some (1 + sign + n))
        else Some 0
      | [] \<Rightarrow> Some 0)"

definition json_number :: "string \<Rightarrow> (num \<times> string) option" where
  "json_number s =
     (let sign = (if s \<noteq> [] \<and> hd s = CHR ''-'' then 1 else 0) in
      case json_int_span (drop sign s) of None \<Rightarrow> None
      | Some i \<Rightarrow>
          (case json_frac_span (drop (sign + i) s) of None \<Rightarrow> None
           | Some f \<Rightarrow>
               (case json_exp_span (drop (sign + i + f) s) of None \<Rightarrow> None
                | Some e \<Rightarrow> (let n = sign + i + f + e in Some (dec_literal (take n s), drop n s)))))"

definition literal :: "string \<Rightarrow> jsval \<Rightarrow> string \<Rightarrow> (jsval \<times> string) option" where
  "literal word v s = (if starts_with s word then Some (v, drop (length word) s) else None)"

subsection \<open>Values\<close>

fun json_value :: "nat \<Rightarrow> string \<Rightarrow> (jsval \<times> string) option"
  and json_elems :: "nat \<Rightarrow> string \<Rightarrow> (jsval list \<times> string) option"
  and json_members :: "nat \<Rightarrow> (string \<times> jsval) list \<Rightarrow> string \<Rightarrow> ((string \<times> jsval) list \<times> string) option" where
  "json_value 0 s = None"
| "json_value (Suc n) s =
     (case skip_ws s of
        [] \<Rightarrow> None
      | c # r \<Rightarrow>
          if code c = 34 then map_option (\<lambda>(t, u). (JStr t, u)) (json_string r)
          else if c = CHR ''['' then
            (case skip_ws r of
               [] \<Rightarrow> None
             | d # r' \<Rightarrow> if d = CHR '']'' then Some (JArr [], r')
                       else map_option (\<lambda>(vs, u). (JArr vs, u)) (json_elems n (d # r')))
          else if c = CHR ''{'' then
            (case skip_ws r of
               [] \<Rightarrow> None
             | d # r' \<Rightarrow> if d = CHR ''}'' then Some (JObj [], r')
                       else map_option (\<lambda>(m, u). (JObj m, u)) (json_members n [] (d # r')))
          else if c = CHR ''t'' then literal ''true'' (JBool True) (c # r)
          else if c = CHR ''f'' then literal ''false'' (JBool False) (c # r)
          else if c = CHR ''n'' then literal ''null'' JNull (c # r)
          else map_option (\<lambda>(x, u). (JNum x, u)) (json_number (c # r)))"
| "json_elems 0 s = None"
| "json_elems (Suc n) s =
     (case json_value n s of
        None \<Rightarrow> None
      | Some (v, r) \<Rightarrow>
          (case skip_ws r of
             [] \<Rightarrow> None
           | c # u \<Rightarrow> if c = CHR '','' then map_option (\<lambda>(vs, t). (v # vs, t)) (json_elems n u)
                     else if c = CHR '']'' then Some ([v], u) else None))"
| "json_members 0 m s = None"
| "json_members (Suc n) m s =
     (case skip_ws s of
        [] \<Rightarrow> None
      | q # r \<Rightarrow>
          if code q \<noteq> 34 then None
          else (case json_string r of
             None \<Rightarrow> None
           | Some (k, r1) \<Rightarrow>
               (case skip_ws r1 of
                  [] \<Rightarrow> None
                | c # r2 \<Rightarrow>
                    if c \<noteq> CHR '':'' then None
                    else (case json_value n r2 of
                       None \<Rightarrow> None
                     | Some (v, r3) \<Rightarrow>
                         (case skip_ws r3 of
                            [] \<Rightarrow> None
                          | d # u \<Rightarrow>
                              if d = CHR '','' then json_members n (AList.update k v m) u
                              else if d = CHR ''}'' then Some (AList.update k v m, u) else None)))))"

definition json_parse :: "string \<Rightarrow> jsval option" where
  "json_parse s =
     (case json_value (2 * length s + 2) s of
        None \<Rightarrow> None
      | Some (v, r) \<Rightarrow> if skip_ws r = [] then Some v else None)"

subsection \<open>What is printed is read back\<close>

lemma code_chars [simp]:
  "code CHR ''b'' = 98" "code CHR ''f'' = 102" "code CHR ''n'' = 110" "code CHR ''r'' = 114"
  "code CHR ''t'' = 116" "code CHR ''u'' = 117" "code CHR ''0'' = 48"
  by (simp_all add: code_def)

lemma hex_digit_hex_char: "n < 16 \<Longrightarrow> hex_digit (hex_char n) = Some n"
  by (simp add: hex_digit_def hex_char_def is_digit_def)

lemma radix_hex: "n < 256 \<Longrightarrow> hex4 [CHR ''0'', CHR ''0'', hex_char (n div 16), hex_char (n mod 16)] = Some n"
proof -
  assume n: "n < 256"
  have "hex_digit CHR ''0'' = Some 0"
    by (simp add: hex_digit_def is_digit_def)
  with n show ?thesis
    by (simp add: hex4_def hex_digit_hex_char)
qed

lemma json_string_char: "json_string (json_char c @ s) = map_option (\<lambda>(t, u). (c # t, u)) (json_string s)"
proof -
  have eq: "char_of n = c" if "code c = n" "n < 256" for n
    using that by (simp add: code_inject [symmetric] del: code_inject)
  show ?thesis
    by (simp add: json_char_def Let_def json_escape_def eq radix_hex)
qed

lemma json_string_quote: "json_string (concat (map json_char s) @ char_of (34 :: nat) # u) = Some (s, u)"
  by (induction s) (simp_all add: json_string_char)

end
