(* ===== verification/WorkspaceFiles.thy ===== *)
theory WorkspaceFiles
  imports JsonText "HOL-Library.Sublist"
begin

text \<open>
  The files of a workspace (\<open>workspace-panel/utils.ts\<close>): the tree built from the flat list of entries and
  the rows shown for it, host variable files, the keys that tell whether roles changed, the roles in an
  inventory, and the vault blocks in a text. The children of a directory are an association list in
  the order of the \<open>Map\<close>. \<open>lc\<close> stands for \<open>localeCompare\<close> and \<open>yaml\<close> for the YAML parser
  (\<open>None\<close> when it throws).
\<close>

subsection \<open>Data\<close>

record FileEntry =
  fe_path :: string
  fe_is_dir :: bool
  fe_size :: "int option"

datatype TreeNode = TreeNode (tn_name: string) (tn_path: string) (tn_isDir: bool) (tn_size: "int option")
  (tn_children: "(string \<times> TreeNode) list")

record TreeItem =
  ti_name :: string
  ti_path :: string
  ti_isDir :: bool
  ti_depth :: nat
  ti_size :: "int option"

subsection \<open>The tree\<close>

definition path_parts :: "string \<Rightarrow> string list" where
  "path_parts path = nonempties (split_on (CHR ''/'') path)"

text \<open>Walking down the parts of one entry: the parts done, the parts to come, the children there.\<close>

fun insert_parts ::
  "FileEntry \<Rightarrow> string list \<Rightarrow> string list \<Rightarrow> (string \<times> TreeNode) list \<Rightarrow> (string \<times> TreeNode) list" where
  "insert_parts entry before [] children = children"
| "insert_parts entry before (part # rest) children =
     (let isLast = (rest = []);
          child = (case map_of children part of
              Some c \<Rightarrow> c
            | None \<Rightarrow> TreeNode part (join ''/'' (before @ [part])) (if isLast then fe_is_dir entry else True)
                        (if isLast then fe_size entry else None) [])
      in AList.update part
           (TreeNode (tn_name child) (tn_path child)
              (if isLast then fe_is_dir entry else tn_isDir child)
              (if isLast then fe_size entry else tn_size child)
              (insert_parts entry (before @ [part]) rest (tn_children child))) children)"

definition buildTree :: "FileEntry list \<Rightarrow> TreeNode" where
  "buildTree entries =
     TreeNode [] [] True None
       (foldl (\<lambda>children entry. insert_parts entry [] (path_parts (fe_path entry)) children) [] entries)"

definition node_cmp :: "(string \<Rightarrow> string \<Rightarrow> int) \<Rightarrow> TreeNode \<Rightarrow> TreeNode \<Rightarrow> int" where
  "node_cmp lc a b =
     (if tn_isDir a \<noteq> tn_isDir b then if tn_isDir a then -1 else 1 else lc (tn_name a) (tn_name b))"

definition sorted_children :: "(string \<Rightarrow> string \<Rightarrow> int) \<Rightarrow> (string \<times> TreeNode) list \<Rightarrow> TreeNode list" where
  "sorted_children lc children = js_sort (node_cmp lc) (map snd children)"

definition item_of :: "nat \<Rightarrow> TreeNode \<Rightarrow> TreeItem" where
  "item_of depth child =
     \<lparr>ti_name = tn_name child, ti_path = tn_path child, ti_isDir = tn_isDir child, ti_depth = depth,
      ti_size = tn_size child\<rparr>"

lemma child_size:
  assumes "c \<in> set (sorted_children lc cs)"
  shows "size c < size (TreeNode n p d s cs)"
proof -
  obtain k where "(k, c) \<in> set cs" using assms by (auto simp: sorted_children_def)
  then show ?thesis by (induction cs) auto
qed

function walk_tree ::
  "(string \<Rightarrow> string \<Rightarrow> int) \<Rightarrow> string list \<Rightarrow> nat \<Rightarrow> TreeNode \<Rightarrow> TreeItem list" where
  "walk_tree lc openDirs depth (TreeNode n p d s children) =
     concat (map (\<lambda>child. item_of depth child
         # (if tn_isDir child \<and> tn_path child \<in> set openDirs
            then walk_tree lc openDirs (depth + 1) child else []))
       (sorted_children lc children))"
  by pat_completeness auto
termination
  by (relation "measure (\<lambda>(_, _, _, node). size node)") (auto dest: child_size)

definition flattenTree :: "(string \<Rightarrow> string \<Rightarrow> int) \<Rightarrow> TreeNode \<Rightarrow> string list \<Rightarrow> TreeItem list" where
  "flattenTree lc root openDirs = walk_tree lc openDirs 0 root"

definition extensionForPath :: "string \<Rightarrow> string" where
  "extensionForPath path =
     (if ends_with path ''.json'' then ''json''
      else if ends_with path ''.yml'' \<or> ends_with path ''.yaml'' \<or> ends_with path ''.inventory'' then ''yaml''
      else if ends_with path ''.py'' then ''python''
      else if ends_with path ''.md'' then ''markdown''
      else if ends_with path ''.kdbx'' then ''kdbx'' else ''text'')"

subsection \<open>Host variables\<close>

text \<open>\<open>/^host_vars\/[^/]+\.ya?ml$/i\<close>, and the name without the suffix.\<close>

definition yaml_stem :: "string \<Rightarrow> string option" where
  "yaml_stem name =
     (let low = to_lower name in
      if ends_with low ''.yml'' then Some (take (length name - 4) name)
      else if ends_with low ''.yaml'' then Some (take (length name - 5) name) else None)"

definition host_vars_name :: "string \<Rightarrow> string option" where
  "host_vars_name path =
     (let name = drop 10 path in
      if to_lower (take 10 path) = ''host_vars/'' \<and> CHR ''/'' \<notin> set name
      then (case yaml_stem name of Some s \<Rightarrow> if s = [] then None else Some s | None \<Rightarrow> None) else None)"

text \<open>The prefix is stripped with attention to case, unlike the test.\<close>

definition alias_of_path :: "string \<Rightarrow> string" where
  "alias_of_path path =
     (let rest = (if starts_with path ''host_vars/'' then drop 10 path else path)
      in case yaml_stem rest of Some s \<Rightarrow> s | None \<Rightarrow> rest)"

definition hostVarsAliasesFromFiles :: "(string \<Rightarrow> string \<Rightarrow> int) \<Rightarrow> FileEntry list \<Rightarrow> string list" where
  "hostVarsAliasesFromFiles lc entries =
     js_sort lc (nonempties (map (\<lambda>entry. alias_of_path (fe_path entry))
       (filter (\<lambda>entry. \<not> fe_is_dir entry \<and> host_vars_name (fe_path entry) \<noteq> None) entries)))"

definition sanitizeAliasFilename :: "string \<Rightarrow> string" where
  "sanitizeAliasFilename alias =
     (let cleaned = map (\<lambda>c. if is_alnum c \<or> c \<in> set ''._-'' then c else CHR ''_'') (trim alias)
      in if cleaned = [] then ''host'' else cleaned)"

definition pickHostVarsPath :: "FileEntry list \<Rightarrow> string \<Rightarrow> string option" where
  "pickHostVarsPath entries alias =
     (let trimmed = trim alias;
          expected = ''host_vars/'' @ sanitizeAliasFilename trimmed @ ''.yml''
      in if trimmed = [] then None
         else if list_ex (\<lambda>entry. \<not> fe_is_dir entry \<and> fe_path entry = expected) entries then Some expected
         else map_option fe_path (find (\<lambda>entry. \<not> fe_is_dir entry \<and> host_vars_name (fe_path entry) \<noteq> None
                \<and> to_lower (fe_path entry) = to_lower expected) entries))"

subsection \<open>Roles of an inventory\<close>

definition normalizeRoles :: "string list \<Rightarrow> string list" where
  "normalizeRoles roles = to_set (nonempties (map trim roles))"

definition rolesKey :: "string list \<Rightarrow> string" where
  "rolesKey roles = join ''|'' (js_sort cu_cmp (normalizeRoles roles))"

definition rolesByAliasKey :: "(string \<times> string list) list \<Rightarrow> string" where
  "rolesByAliasKey m =
     join ''||'' (map (\<lambda>alias. alias @ '':'' @ rolesKey (case map_of m alias of Some rs \<Rightarrow> rs | None \<Rightarrow> []))
       (js_sort cu_cmp (own_keys m)))"

definition push_role :: "string \<Rightarrow> string \<Rightarrow> (string \<times> string list) list \<Rightarrow> (string \<times> string list) list" where
  "push_role roleId alias out =
     (let key = trim alias in
      if key = [] then out
      else AList.update key ((case map_of out key of Some rs \<Rightarrow> rs | None \<Rightarrow> []) @ [roleId]) out)"

definition keys_of :: "jsval \<Rightarrow> string list" where
  "keys_of v = map fst (jentries v)"

definition collected_roles :: "(string \<times> jsval) list \<Rightarrow> (string \<times> string list) list" where
  "collected_roles children =
     foldl (\<lambda>out (roleId, entry). foldl (\<lambda>out alias. push_role roleId alias out) out
        (keys_of (coalesce (jget entry ''hosts'') (JObj [])))) [] children"

definition document_roles :: "jsval \<Rightarrow> (string \<times> string list) list" where
  "document_roles data =
     map (\<lambda>(alias, rs). (alias, normalizeRoles rs))
       (collected_roles (jentries (coalesce (jget (jget data ''all'') ''children'') (JObj []))))"

definition extractRolesByAlias :: "(string \<Rightarrow> jsval option) \<Rightarrow> string \<Rightarrow> (string \<times> string list) list" where
  "extractRolesByAlias yaml content = (case yaml content of None \<Rightarrow> [] | Some data \<Rightarrow> document_roles data)"

subsection \<open>The stored list of workspaces\<close>

record WorkspaceListEntry =
  wl_id :: string
  wl_name :: "string option"
  wl_state :: "string option"
  wl_created_at :: jsval
  wl_last_modified_at :: jsval
  wl_last_used :: jsval

definition USER_WORKSPACE_LIST_PREFIX :: string where
  "USER_WORKSPACE_LIST_PREFIX = ''infinito.workspaces.''"

definition read_list_entry :: "jsval \<Rightarrow> WorkspaceListEntry" where
  "read_list_entry entry =
     \<lparr>wl_id = trim (str_or (jget entry ''id'')),
      wl_name = (if truthy (jget entry ''name'') then Some (js_str (jget entry ''name'')) else None),
      wl_state = (if truthy (jget entry ''state'') then Some (js_str (jget entry ''state'')) else None),
      wl_created_at = coalesce (jget entry ''created_at'') JNull,
      wl_last_modified_at = coalesce (jget entry ''last_modified_at'') JNull,
      wl_last_used = coalesce (jget entry ''last_used'') JNull\<rparr>"

definition parse_workspace_list :: "jsval option \<Rightarrow> WorkspaceListEntry list" where
  "parse_workspace_list parsed =
     (case parsed of
        Some (JArr entries) \<Rightarrow> filter (\<lambda>e. wl_id e \<noteq> []) (map read_list_entry entries)
      | _ \<Rightarrow> [])"

definition loadWorkspaceList :: "string \<Rightarrow> (string \<times> string) list option \<Rightarrow> WorkspaceListEntry list" where
  "loadWorkspaceList userId window =
     (case window of
        None \<Rightarrow> []
      | Some items \<Rightarrow>
          (case map_of items (USER_WORKSPACE_LIST_PREFIX @ userId) of
             None \<Rightarrow> []
           | Some raw \<Rightarrow> if raw = [] then [] else parse_workspace_list (json_parse raw)))"

definition list_entry_json :: "WorkspaceListEntry \<Rightarrow> jsval" where
  "list_entry_json e =
     JObj [(''id'', JStr (wl_id e)),
       (''name'', case wl_name e of Some s \<Rightarrow> JStr s | None \<Rightarrow> JUndefined),
       (''state'', case wl_state e of Some s \<Rightarrow> JStr s | None \<Rightarrow> JUndefined),
       (''created_at'', wl_created_at e), (''last_modified_at'', wl_last_modified_at e),
       (''last_used'', wl_last_used e)]"

definition saveWorkspaceList ::
  "string \<Rightarrow> WorkspaceListEntry list \<Rightarrow> (string \<times> string) list option \<Rightarrow> (string \<times> string) list option" where
  "saveWorkspaceList userId ws window =
     map_option (AList.update (USER_WORKSPACE_LIST_PREFIX @ userId) (json (JArr (map list_entry_json ws)))) window"

subsection \<open>What the tree holds\<close>

text \<open>The node at a path below some children.\<close>

fun node_at :: "string list \<Rightarrow> (string \<times> TreeNode) list \<Rightarrow> TreeNode option" where
  "node_at [] cs = None"
| "node_at (p # ps) cs =
     (case map_of cs p of None \<Rightarrow> None
      | Some c \<Rightarrow> if ps = [] then Some c else node_at ps (tn_children c))"

definition attrs :: "TreeNode \<Rightarrow> bool \<times> int option" where
  "attrs n = (tn_isDir n, tn_size n)"

lemma node_at_Nil [simp]: "node_at q [] = None"
  by (cases q) auto

lemma attrs_new [simp]:
  "map_option attrs (node_at q (insert_parts e b [] cs)) = map_option attrs (node_at q cs)"
  by simp

text \<open>Inserting an entry sets its own node, adds the missing directories above it, and leaves the rest.\<close>

lemma node_at_insert:
  assumes "parts \<noteq> []"
  shows "map_option attrs (node_at q (insert_parts e b parts cs)) =
    (if q = parts then Some (fe_is_dir e, fe_size e)
     else case map_option attrs (node_at q cs) of
            Some a \<Rightarrow> Some a
          | None \<Rightarrow> if q \<noteq> [] \<and> strict_prefix q parts then Some (True, None) else None)"
  using assms
proof (induction parts arbitrary: b cs q)
  case (Cons p rest)
  show ?case
  proof (cases q)
    case Nil
    then show ?thesis by simp
  next
    case (Cons k ks)
    show ?thesis
    proof (cases "k = p")
      case False
      then show ?thesis
        using Cons by (auto simp: Let_def map_of_update attrs_def split: option.splits)
    next
      case True
      show ?thesis
      proof (cases "rest = []")
        case True
        then show ?thesis
          using Cons \<open>k = p\<close> by (cases "map_of cs p"; cases ks)
            (auto simp: Let_def map_of_update attrs_def split: option.splits)
      next
        case False
        then have "strict_prefix [] rest" by (simp add: strict_prefix_def)
        with False show ?thesis
          using Cons \<open>k = p\<close> Cons.IH [OF False]
          by (cases "map_of cs p"; cases "ks = []") (auto simp: Let_def map_of_update attrs_def)
      qed
    qed
  qed
qed simp

lemma foldl_tree_snoc:
  "tn_children (buildTree (es @ [e])) = insert_parts e [] (path_parts (fe_path e)) (tn_children (buildTree es))"
  by (simp add: buildTree_def)

text \<open>An entry that names nothing (an empty path) is not inserted.\<close>

definition named :: "FileEntry list \<Rightarrow> FileEntry list" where
  "named es = filter (\<lambda>e. path_parts (fe_path e) \<noteq> []) es"

definition listed_paths :: "FileEntry list \<Rightarrow> string list set" where
  "listed_paths es = {q. q \<noteq> [] \<and> (\<exists>e \<in> set es. prefix q (path_parts (fe_path e)))}"

lemma node_at_build:
  "(node_at q (tn_children (buildTree es)) \<noteq> None) = (q \<in> listed_paths es)"
proof (induction es rule: rev_induct)
  case Nil
  then show ?case by (simp add: buildTree_def listed_paths_def)
next
  case (snoc e es)
  have opt: "(node_at q cs \<noteq> None) = (map_option attrs (node_at q cs) \<noteq> None)" for cs
    by (cases "node_at q cs") auto
  show ?case
  proof (cases "path_parts (fe_path e) = []")
    case True
    then show ?thesis using snoc by (auto simp: foldl_tree_snoc listed_paths_def)
  next
    case False
    then show ?thesis
      using snoc unfolding foldl_tree_snoc opt [of "insert_parts _ _ _ _"] node_at_insert [OF False]
      by (auto simp: listed_paths_def strict_prefix_def split: option.splits)
  qed
qed

text \<open>The last entry with a path decides what is shown there; a path no entry names is a directory.\<close>

definition entry_at :: "FileEntry list \<Rightarrow> string list \<Rightarrow> FileEntry option" where
  "entry_at es q = find (\<lambda>e. path_parts (fe_path e) = q) (rev es)"

lemma attrs_build:
  assumes "q \<in> listed_paths es"
  shows "map_option attrs (node_at q (tn_children (buildTree es)))
    = Some (case entry_at es q of Some e \<Rightarrow> (fe_is_dir e, fe_size e) | None \<Rightarrow> (True, None))"
  using assms
proof (induction es rule: rev_induct)
  case Nil
  then show ?case by (simp add: listed_paths_def)
next
  case (snoc e es)
  have q: "q \<noteq> []" using snoc.prems by (simp add: listed_paths_def)
  have none: "entry_at es q = None" if "q \<notin> listed_paths es"
    using that q by (auto simp: entry_at_def find_None_iff listed_paths_def)
  show ?case
  proof (cases "path_parts (fe_path e) = []")
    case True
    then show ?thesis
      using snoc q by (auto simp: foldl_tree_snoc listed_paths_def entry_at_def)
  next
    case False
    have "node_at q (tn_children (buildTree es)) = None" if "q \<notin> listed_paths es"
      using that node_at_build [of q es] by simp
    then show ?thesis
      using snoc none node_at_insert [OF False, of q e "[]" "tn_children (buildTree es)"]
      by (cases "q \<in> listed_paths es")
        (auto simp: foldl_tree_snoc entry_at_def listed_paths_def strict_prefix_def split: option.splits)
  qed
qed

subsection \<open>What is shown\<close>

text \<open>A node is shown when every directory above it is open.\<close>

fun shown_at :: "string list \<Rightarrow> string list \<Rightarrow> (string \<times> TreeNode) list \<Rightarrow> TreeNode option" where
  "shown_at openDirs [] cs = None"
| "shown_at openDirs (p # ps) cs =
     (case map_of cs p of None \<Rightarrow> None
      | Some c \<Rightarrow> if ps = [] then Some c
                  else if tn_isDir c \<and> tn_path c \<in> set openDirs then shown_at openDirs ps (tn_children c)
                  else None)"

definition part_ok :: "string \<Rightarrow> bool" where
  "part_ok p \<longleftrightarrow> p \<noteq> [] \<and> CHR ''/'' \<notin> set p"

text \<open>Names are distinct among siblings, and a node knows its name and path.\<close>

function tree_ok :: "string list \<Rightarrow> TreeNode \<Rightarrow> bool" where
  "tree_ok before (TreeNode n p d s cs) \<longleftrightarrow> distinct (map fst cs)
     \<and> (\<forall>kc \<in> set cs. part_ok (fst kc) \<and> tn_name (snd kc) = fst kc
          \<and> tn_path (snd kc) = join ''/'' (before @ [fst kc]) \<and> tree_ok (before @ [fst kc]) (snd kc))"
  by pat_completeness auto
termination
proof (relation "measure (\<lambda>(_, node). size node)")
  fix before cs n p d s and kc :: "string \<times> TreeNode"
  assume "kc \<in> set cs"
  then show "((before @ [fst kc], snd kc), before, TreeNode n p d s cs) \<in> measure (\<lambda>(_, node). size node)"
    by (induction cs) auto
qed simp

lemma parts_ok: "list_all part_ok (path_parts path)"
  by (auto simp: path_parts_def list_all_iff part_ok_def dest: split_on_free)

lemma split_join_parts: "list_all part_ok q \<Longrightarrow> q \<noteq> [] \<Longrightarrow> split_on (CHR ''/'') (join ''/'' q) = q"
  by (rule split_on_join) (auto simp: list_all_iff part_ok_def)

lemma tree_ok_children:
  "tree_ok b node \<longleftrightarrow> distinct (map fst (tn_children node))
     \<and> (\<forall>kc \<in> set (tn_children node). part_ok (fst kc) \<and> tn_name (snd kc) = fst kc
          \<and> tn_path (snd kc) = join ''/'' (b @ [fst kc]) \<and> tree_ok (b @ [fst kc]) (snd kc))"
  by (cases node) simp

lemma tree_ok_fields: "tree_ok b (TreeNode n p d s cs) = tree_ok b (TreeNode n' p' d' s' cs)"
  by simp

lemma set_update_keys:
  "distinct (map fst cs) \<Longrightarrow> set (AList.update k v cs) = {kc \<in> set cs. fst kc \<noteq> k} \<union> {(k, v)}"
  by (induction cs) (auto simp: image_iff)

lemma insert_ok:
  "list_all part_ok parts \<Longrightarrow> tree_ok b (TreeNode n p d s cs)
   \<Longrightarrow> tree_ok b (TreeNode n p d s (insert_parts e b parts cs))"
proof (induction parts arbitrary: b n p d s cs)
  case (Cons part rest)
  let ?child = "case map_of cs part of Some c \<Rightarrow> c
     | None \<Rightarrow> TreeNode part (join ''/'' (b @ [part])) (if rest = [] then fe_is_dir e else True)
                 (if rest = [] then fe_size e else None) []"
  have cs: "distinct (map fst cs)" using Cons.prems by simp
  have child: "tn_name ?child = part" "tn_path ?child = join ''/'' (b @ [part])" "tree_ok (b @ [part]) ?child"
    using Cons.prems by (auto split: option.splits dest!: map_of_SomeD)
  have "tree_ok (b @ [part]) (TreeNode n' p' d' s' (insert_parts e (b @ [part]) rest (tn_children ?child)))"
    for n' p' d' s'
    using child(3) Cons.IH [of "b @ [part]" "tn_name ?child" "tn_path ?child" "tn_isDir ?child"
        "tn_size ?child" "tn_children ?child"] Cons.prems
    by (subst tree_ok_fields) auto
  then show ?case
    using Cons.prems child cs
    by (auto simp: Let_def set_update_keys simp del: map_of.simps)
qed simp

lemma build_ok: "tree_ok [] (buildTree es)"
proof (induction es rule: rev_induct)
  case (snoc e es)
  then show ?case
    using insert_ok [OF parts_ok, of "[]" "[]" "[]" True None "tn_children (buildTree es)"]
    by (simp add: buildTree_def)
qed (simp add: buildTree_def)

lemma shown_path:
  "tree_ok b node \<Longrightarrow> shown_at openDirs q (tn_children node) = Some n
   \<Longrightarrow> tn_path n = join ''/'' (b @ q) \<and> tn_name n = last q \<and> list_all part_ok q \<and> q \<noteq> []"
proof (induction openDirs q "tn_children node" arbitrary: b node rule: shown_at.induct)
  case (2 openDirs p ps)
  then obtain c where c: "map_of (tn_children node) p = Some c"
    by (auto split: option.splits)
  then have "(p, c) \<in> set (tn_children node)" by (rule map_of_SomeD)
  with 2(2) have ok: "part_ok p" "tn_name c = p" "tn_path c = join ''/'' (b @ [p])" "tree_ok (b @ [p]) c"
    unfolding tree_ok_children [of b node] by auto
  show ?case
    using 2(1) [OF c _ _ refl ok(4)] 2(3) c ok by (auto split: if_splits)
qed simp

lemma walk_items:
  "tree_ok b node \<Longrightarrow> set (walk_tree lc openDirs depth node) =
     {item_of (depth + length q - 1) n |q n. shown_at openDirs q (tn_children node) = Some n}"
proof (induction lc openDirs depth node arbitrary: b rule: walk_tree.induct)
  case (1 lc openDirs depth n p d s cs)
  have dist: "distinct (map fst cs)" using 1(2) by simp
  have kid: "c \<in> set (sorted_children lc cs) \<longleftrightarrow> (\<exists>k. map_of cs k = Some c)" for c
    using dist by (force simp: sorted_children_def dest: map_of_SomeD)
  have sub: "set (walk_tree lc openDirs (depth + 1) c) =
      {item_of (depth + 1 + length q - 1) m |q m. shown_at openDirs q (tn_children c) = Some m}"
    if "map_of cs k = Some c" "tn_isDir c \<and> tn_path c \<in> set openDirs" for k c
  proof -
    have "(k, c) \<in> set cs" using that(1) by (rule map_of_SomeD)
    with 1(2) have "tree_ok (b @ [k]) c" by auto
    with 1(1) [of c "b @ [k]"] that kid show ?thesis by blast
  qed
  have A: "x \<in> set (walk_tree lc openDirs depth (TreeNode n p d s cs)) \<longleftrightarrow>
     (\<exists>k c. map_of cs k = Some c \<and> (x = item_of depth c \<or>
        (tn_isDir c \<and> tn_path c \<in> set openDirs \<and>
         (\<exists>q m. x = item_of (depth + 1 + length q - 1) m \<and> shown_at openDirs q (tn_children c) = Some m))))" for x
    using kid sub by (auto 0 4 split: if_splits)
  have B: "(\<exists>q m. x = item_of (depth + length q - 1) m \<and> shown_at openDirs q cs = Some m) \<longleftrightarrow>
     (\<exists>k c. map_of cs k = Some c \<and> (x = item_of depth c \<or>
        (tn_isDir c \<and> tn_path c \<in> set openDirs \<and>
         (\<exists>q m. x = item_of (depth + 1 + length q - 1) m \<and> shown_at openDirs q (tn_children c) = Some m))))"
    (is "?L = ?R") for x
  proof
    assume ?L
    then obtain q m where q: "x = item_of (depth + length q - 1) m" "shown_at openDirs q cs = Some m" by blast
    then show ?R
      by (cases q) (auto split: option.splits if_splits)
  next
    assume ?R
    then obtain k c where k: "map_of cs k = Some c" and alt: "x = item_of depth c \<or>
        (tn_isDir c \<and> tn_path c \<in> set openDirs \<and>
         (\<exists>q m. x = item_of (depth + 1 + length q - 1) m \<and> shown_at openDirs q (tn_children c) = Some m))"
      by blast
    from alt show ?L
    proof
      assume "x = item_of depth c"
      then show ?L using k by (intro exI [of _ "[k]"] exI [of _ c]) simp
    next
      assume r: "tn_isDir c \<and> tn_path c \<in> set openDirs \<and>
         (\<exists>q m. x = item_of (depth + 1 + length q - 1) m \<and> shown_at openDirs q (tn_children c) = Some m)"
      then obtain q m where qm: "x = item_of (depth + 1 + length q - 1) m"
          "shown_at openDirs q (tn_children c) = Some m" by blast
      then have "q \<noteq> []" by auto
      with r qm k show ?L by (intro exI [of _ "k # q"] exI [of _ m]) auto
    qed
  qed
  show ?case
    unfolding set_eq_iff by (simp only: A B TreeNode.sel mem_Collect_eq simp_thms)
qed

lemma distinct_concat_map:
  "distinct xs \<Longrightarrow> (\<And>x. x \<in> set xs \<Longrightarrow> distinct (f x))
   \<Longrightarrow> (\<And>x y. x \<in> set xs \<Longrightarrow> y \<in> set xs \<Longrightarrow> x \<noteq> y \<Longrightarrow> set (f x) \<inter> set (f y) = {})
   \<Longrightarrow> distinct (concat (map f xs))"
proof (induction xs)
  case (Cons x xs)
  then have "set (f x) \<inter> set (f y) = {}" if "y \<in> set xs" for y
    using that Cons.prems(1) Cons.prems(3) [of x y] by auto
  with Cons show ?case by auto
qed simp

text \<open>Below a child every path starts with the path of the child.\<close>

lemma walk_paths:
  assumes "tree_ok b node" "item \<in> set (walk_tree lc openDirs depth node)"
  shows "\<exists>q. ti_path item = join ''/'' (b @ q) \<and> list_all part_ok q \<and> q \<noteq> []"
proof -
  obtain q n where "item = item_of (depth + length q - 1) n" "shown_at openDirs q (tn_children node) = Some n"
    using assms walk_items by blast
  then show ?thesis
    using shown_path [OF assms(1)] by (auto simp: item_of_def)
qed

lemma walk_distinct:
  "tree_ok b node \<Longrightarrow> list_all part_ok b \<Longrightarrow> distinct (map ti_path (walk_tree lc openDirs depth node))"
proof (induction lc openDirs depth node arbitrary: b rule: walk_tree.induct)
  case (1 lc openDirs depth n p d s cs)
  let ?kids = "sorted_children lc cs"
  let ?below = "\<lambda>c. if tn_isDir c \<and> tn_path c \<in> set openDirs then walk_tree lc openDirs (depth + 1) c else []"
  have kid: "part_ok (tn_name c)" "tn_path c = join ''/'' (b @ [tn_name c])" "tree_ok (b @ [tn_name c]) c"
    if "c \<in> set ?kids" for c
    using that 1(2) by (auto simp: sorted_children_def)
  have "distinct (map tn_name (map snd cs))"
  proof -
    have "map tn_name (map snd cs) = map fst cs" using 1(2) by auto
    then show ?thesis using 1(2) by (simp only: tree_ok.simps)
  qed
  then have names: "distinct (map tn_name ?kids)"
    by (simp add: sorted_children_def distinct_map_js_sort)
  have paths: "\<exists>q. x = join ''/'' (b @ tn_name c # q) \<and> list_all part_ok q"
    if cx: "c \<in> set ?kids" "x \<in> set (map ti_path (item_of depth c # ?below c))" for c x
  proof -
    consider "x = tn_path c" | item where "x = ti_path item" "item \<in> set (walk_tree lc openDirs (depth + 1) c)"
      using cx(2) by (auto simp: item_of_def split: if_splits)
    then show ?thesis
    proof cases
      case 1
      then show ?thesis using kid(2) [OF cx(1)] by (intro exI [of _ "[]"]) simp
    next
      case 2
      then show ?thesis
        using walk_paths [OF kid(3) [OF cx(1)] 2(2)] by auto
    qed
  qed
  have unjoin: "split_on (CHR ''/'') (join ''/'' (b @ tn_name c # q)) = b @ tn_name c # q"
    if "c \<in> set ?kids" "list_all part_ok q" for c q
    using that kid(1) 1(3) by (intro split_join_parts) auto
  have "distinct (concat (map (\<lambda>c. map ti_path (item_of depth c # ?below c)) ?kids))"
  proof (rule distinct_concat_map)
    show "distinct ?kids" using names by (simp add: distinct_map)
  next
    fix c assume c: "c \<in> set ?kids"
    have "tn_path c \<notin> ti_path ` set (walk_tree lc openDirs (depth + 1) c)"
    proof
      assume "tn_path c \<in> ti_path ` set (walk_tree lc openDirs (depth + 1) c)"
      then obtain q where q: "tn_path c = join ''/'' ((b @ [tn_name c]) @ q)" "list_all part_ok q" "q \<noteq> []"
        using walk_paths [OF kid(3) [OF c]] by fastforce
      then have "split_on (CHR ''/'') (tn_path c) = b @ tn_name c # q"
        using unjoin [OF c q(2)] by simp
      with unjoin [OF c, of "[]"] kid(2) [OF c] q(3) show False by simp
    qed
    moreover have "distinct (map ti_path (?below c))"
      using 1(1) [OF c] kid [OF c] 1(3) by simp
    ultimately show "distinct (map ti_path (item_of depth c # ?below c))"
      by (auto simp: item_of_def)
  next
    fix c c' assume c: "c \<in> set ?kids" "c' \<in> set ?kids" "c \<noteq> c'"
    then have diff: "tn_name c \<noteq> tn_name c'" using names by (metis distinct_map inj_onD)
    have False if x: "x \<in> set (map ti_path (item_of depth c # ?below c))"
      "x \<in> set (map ti_path (item_of depth c' # ?below c'))" for x
    proof -
      obtain q q' where "x = join ''/'' (b @ tn_name c # q)" "list_all part_ok q"
          "x = join ''/'' (b @ tn_name c' # q')" "list_all part_ok q'"
        using paths [OF c(1) x(1)] paths [OF c(2) x(2)] by blast
      then have "b @ tn_name c # q = b @ tn_name c' # q'"
        using unjoin [OF c(1)] unjoin [OF c(2)] by metis
      with diff show False by simp
    qed
    then show "set (map ti_path (item_of depth c # ?below c))
        \<inter> set (map ti_path (item_of depth c' # ?below c')) = {}"
      by blast
  qed
  then show ?case by (simp add: map_concat comp_def)
qed

lemma shown_node:
  "shown_at openDirs q cs =
     (if \<forall>r. r \<noteq> [] \<and> strict_prefix r q
             \<longrightarrow> (\<exists>m. node_at r cs = Some m \<and> tn_isDir m \<and> tn_path m \<in> set openDirs)
      then node_at q cs else None)"
proof (induction q arbitrary: cs)
  case (Cons p ps)
  show ?case
  proof (cases "map_of cs p")
    case None
    then show ?thesis by simp
  next
    case (Some c)
    have all: "(\<forall>r. r \<noteq> [] \<and> strict_prefix r (p # ps)
             \<longrightarrow> (\<exists>m. node_at r cs = Some m \<and> tn_isDir m \<and> tn_path m \<in> set openDirs))
       \<longleftrightarrow> (ps \<noteq> [] \<longrightarrow> tn_isDir c \<and> tn_path c \<in> set openDirs)
          \<and> (\<forall>r. r \<noteq> [] \<and> strict_prefix r ps
             \<longrightarrow> (\<exists>m. node_at r (tn_children c) = Some m \<and> tn_isDir m \<and> tn_path m \<in> set openDirs))"
      (is "?L \<longleftrightarrow> ?R")
    proof
      assume L: ?L
      have "tn_isDir c \<and> tn_path c \<in> set openDirs" if "ps \<noteq> []"
        using L [rule_format, of "[p]"] that Some by (simp add: strict_prefix_def)
      moreover have "\<exists>m. node_at r (tn_children c) = Some m \<and> tn_isDir m \<and> tn_path m \<in> set openDirs"
        if "r \<noteq> []" "strict_prefix r ps" for r
        using L [rule_format, of "p # r"] that Some by simp
      ultimately show ?R by blast
    next
      assume R: ?R
      show ?L
      proof (intro allI impI)
        fix r assume r: "r \<noteq> [] \<and> strict_prefix r (p # ps)"
        then obtain r' where r': "r = p # r'" "strict_prefix r' ps"
          by (cases r) auto
        then show "\<exists>m. node_at r cs = Some m \<and> tn_isDir m \<and> tn_path m \<in> set openDirs"
          using R Some by (cases "r' = []") (auto simp: strict_prefix_def)
      qed
    qed
    show ?thesis
      unfolding all using Some Cons by (auto simp: strict_prefix_def)
  qed
qed simp

definition dir_at :: "FileEntry list \<Rightarrow> string list \<Rightarrow> bool" where
  "dir_at es q = (case entry_at es q of Some e \<Rightarrow> fe_is_dir e | None \<Rightarrow> True)"

definition size_at :: "FileEntry list \<Rightarrow> string list \<Rightarrow> int option" where
  "size_at es q = (case entry_at es q of Some e \<Rightarrow> fe_size e | None \<Rightarrow> None)"

lemma node_at_entries:
  assumes "node_at q (tn_children (buildTree es)) = Some m"
  shows "q \<in> listed_paths es" "tn_isDir m = dir_at es q" "tn_size m = size_at es q"
proof -
  show q: "q \<in> listed_paths es" using assms node_at_build [of q es] by simp
  show "tn_isDir m = dir_at es q" "tn_size m = size_at es q"
    using attrs_build [OF q] assms
    by (auto simp: attrs_def dir_at_def size_at_def split: option.splits)
qed

lemma listed_prefix: "q \<in> listed_paths es \<Longrightarrow> r \<noteq> [] \<Longrightarrow> prefix r q \<Longrightarrow> r \<in> listed_paths es"
  by (auto simp: listed_paths_def intro: prefix_order.trans)

lemma listed_ok: "q \<in> listed_paths es \<Longrightarrow> list_all part_ok q"
  using parts_ok by (auto simp: listed_paths_def prefix_def) (metis list_all_append)

lemma node_path: "tree_ok b node \<Longrightarrow> node_at q (tn_children node) = Some m \<Longrightarrow> tn_path m = join ''/'' (b @ q)"
proof (induction q arbitrary: b node)
  case (Cons p ps)
  then obtain c where c: "map_of (tn_children node) p = Some c" by (auto split: option.splits)
  then have "(p, c) \<in> set (tn_children node)" by (rule map_of_SomeD)
  with Cons.prems(1) have "tn_path c = join ''/'' (b @ [p])" "tree_ok (b @ [p]) c"
    unfolding tree_ok_children [of b node] by auto
  then show ?case using Cons.IH [of "b @ [p]" c] Cons.prems(2) c by (auto split: if_splits)
qed simp

text \<open>What is shown, in terms of the entries.\<close>

definition visible :: "FileEntry list \<Rightarrow> string list \<Rightarrow> string list \<Rightarrow> bool" where
  "visible es openDirs q \<longleftrightarrow> q \<in> listed_paths es
     \<and> (\<forall>r. r \<noteq> [] \<and> strict_prefix r q \<longrightarrow> dir_at es r \<and> join ''/'' r \<in> set openDirs)"

lemma shown_visible:
  "(\<exists>m. shown_at openDirs q (tn_children (buildTree es)) = Some m) = visible es openDirs q"
proof -
  let ?cs = "tn_children (buildTree es)"
  have above: "(\<exists>m. node_at r ?cs = Some m \<and> tn_isDir m \<and> tn_path m \<in> set openDirs)
      = (dir_at es r \<and> join ''/'' r \<in> set openDirs)" if r: "r \<in> listed_paths es" for r
  proof -
    obtain m where m: "node_at r ?cs = Some m" using r node_at_build [of r es] by auto
    then show ?thesis using node_at_entries [OF m] node_path [OF build_ok m] by simp
  qed
  have "r \<in> listed_paths es" if "q \<in> listed_paths es" "r \<noteq> [] \<and> strict_prefix r q" for r
    using listed_prefix that by (auto simp: strict_prefix_def)
  with above show ?thesis
    using node_at_build [of q es] unfolding shown_node visible_def by (auto split: if_splits)
qed

text \<open>
  C32: the file list shows each path once. It shows exactly the entries and the directories above
  them whose every parent is an open directory, at the right depth, and with the kind and
  size of the last entry for that path (a path no entry names is a directory without a size).
\<close>

theorem tree_shows_entries:
  "let items = flattenTree lc (buildTree es) openDirs in
    distinct (map ti_path items)
    \<and> ti_path ` set items = {join ''/'' q |q. visible es openDirs q}
    \<and> (\<forall>item \<in> set items. \<exists>q. visible es openDirs q \<and> ti_path item = join ''/'' q
         \<and> ti_name item = last q \<and> ti_depth item = length q - 1
         \<and> ti_isDir item = dir_at es q \<and> ti_size item = size_at es q)"
proof -
  let ?cs = "tn_children (buildTree es)"
  have items: "set (flattenTree lc (buildTree es) openDirs)
      = {item_of (length q - 1) m |q m. shown_at openDirs q ?cs = Some m}"
    using walk_items [OF build_ok, of lc openDirs 0 es] by (simp add: flattenTree_def)
  have each: "\<exists>q. visible es openDirs q \<and> ti_path item = join ''/'' q \<and> ti_name item = last q
        \<and> ti_depth item = length q - 1 \<and> ti_isDir item = dir_at es q \<and> ti_size item = size_at es q"
    if item: "item \<in> set (flattenTree lc (buildTree es) openDirs)" for item
  proof -
    obtain q m where q: "item = item_of (length q - 1) m" "shown_at openDirs q ?cs = Some m"
      using item items by auto
    then have "node_at q ?cs = Some m" unfolding shown_node by (auto split: if_splits)
    then show ?thesis
      using q shown_visible [of openDirs q es] shown_path [OF build_ok q(2)]
      by (intro exI [of _ q]) (auto simp: item_of_def node_at_entries)
  qed
  have unjoin: "join ''/'' q \<in> ti_path ` set (flattenTree lc (buildTree es) openDirs)"
    if vis: "visible es openDirs q" for q
  proof -
    obtain m where m: "shown_at openDirs q ?cs = Some m" using vis shown_visible [of openDirs q es] by auto
    then have "item_of (length q - 1) m \<in> set (flattenTree lc (buildTree es) openDirs)"
      using items by auto
    then show ?thesis
      using shown_path [OF build_ok m] by (metis append_Nil image_eqI item_of_def TreeItem.select_convs(2))
  qed
  have "ti_path ` set (flattenTree lc (buildTree es) openDirs) = {join ''/'' q |q. visible es openDirs q}"
  proof (intro set_eqI iffI)
    fix x assume "x \<in> ti_path ` set (flattenTree lc (buildTree es) openDirs)"
    then show "x \<in> {join ''/'' q |q. visible es openDirs q}" using each by blast
  qed (use unjoin in blast)
  then show ?thesis
    using each walk_distinct [OF build_ok, of lc openDirs 0 es]
    by (simp add: flattenTree_def Let_def)
qed

definition demo_files :: "FileEntry list" where
  "demo_files = [\<lparr>fe_path = ''group_vars/all.yml'', fe_is_dir = False, fe_size = Some 12\<rparr>,
     \<lparr>fe_path = ''a.txt'', fe_is_dir = False, fe_size = None\<rparr>]"

theorem tree_shows_entries_witness:
  "map ti_path (flattenTree cu_cmp (buildTree demo_files) [''group_vars''])
     = [''group_vars'', ''group_vars/all.yml'', ''a.txt'']
   \<and> distinct (map ti_path (flattenTree cu_cmp (buildTree demo_files) [''group_vars'']))"
proof -
  have "distinct (map ti_path (flattenTree cu_cmp (buildTree demo_files) [''group_vars'']))"
    using tree_shows_entries [of cu_cmp demo_files "[''group_vars'']"] by (simp only: Let_def)
  moreover have "map ti_path (flattenTree cu_cmp (buildTree demo_files) [''group_vars''])
     = [''group_vars'', ''group_vars/all.yml'', ''a.txt'']" by code_simp
  ultimately show ?thesis by blast
qed

end
