(* ===== verification/InventorySync.thy ===== *)
theory InventorySync
  imports WorkspaceFiles
begin

text \<open>
  The inventory of a workspace and the selection of roles (\<open>workspace-panel/actions/core/sync.ts\<close>, with
  \<open>mergeRolesByAlias\<close> of \<open>main.ts\<close>): renaming and removing a device in the document, writing the
  selection into it, reading the selection back. Each function of the code reads
  \<open>inventory.yml\<close>, changes the document and writes it; here the document's change is a function that
  gives the new document, or nothing when there is nothing to write. \<open>yaml\<close> parses a text
  (\<open>None\<close> when it throws) and \<open>to_yaml\<close> prints a document.
\<close>

subsection \<open>The document\<close>

text \<open>\<open>value && typeof value === "object"\<close>, and the copy \<open>{ ...value }\<close>.\<close>

definition is_object :: "jsval \<Rightarrow> bool" where
  "is_object v = (case v of JObj _ \<Rightarrow> True | JArr _ \<Rightarrow> True | _ \<Rightarrow> False)"

definition object_or_empty :: "jsval \<Rightarrow> jsval" where
  "object_or_empty v = (if is_object v then v else JObj [])"

definition inventory_all :: "jsval \<Rightarrow> jsval" where
  "inventory_all data = object_or_empty (jget data ''all'')"

definition inventory_children :: "jsval \<Rightarrow> jsval" where
  "inventory_children data = object_or_empty (jget (inventory_all data) ''children'')"

definition with_children :: "jsval \<Rightarrow> (string \<times> jsval) list \<Rightarrow> jsval" where
  "with_children data nextChildren =
     (let nextAll = AList.update ''children'' (JObj nextChildren) (jentries (inventory_all data))
      in JObj (AList.update ''all'' (JObj nextAll) (jentries data)))"

definition entry_hosts :: "jsval \<Rightarrow> (string \<times> jsval) list option" where
  "entry_hosts entry =
     (if is_object (jget entry ''hosts'') then Some (jentries (jget entry ''hosts'')) else None)"

definition with_hosts :: "(string \<times> jsval) list \<Rightarrow> (string \<times> jsval) list \<Rightarrow> jsval" where
  "with_hosts entry hosts = JObj (AList.update ''hosts'' (JObj hosts) entry)"

subsection \<open>Changing the roles of the document\<close>

text \<open>
  Each loop over the roles writes the entry of the role it looks at, removes it, or leaves it, and
  notes whether anything changed. A role is looked at once.
\<close>

datatype role_edit = Keep | Put jsval | Drop

definition apply_edit :: "role_edit \<Rightarrow> string \<Rightarrow> (string \<times> jsval) list \<Rightarrow> (string \<times> jsval) list" where
  "apply_edit e roleId children =
     (case e of Keep \<Rightarrow> children | Put v \<Rightarrow> AList.update roleId v children | Drop \<Rightarrow> AList.delete roleId children)"

definition edit_roles ::
  "(string \<Rightarrow> jsval option \<Rightarrow> role_edit \<times> bool) \<Rightarrow> string list \<Rightarrow> (string \<times> jsval) list
   \<Rightarrow> (string \<times> jsval) list \<times> bool" where
  "edit_roles f roleIds children =
     foldl (\<lambda>(nextChildren, changed) roleId.
         let (e, ch) = f roleId (map_of nextChildren roleId)
         in (apply_edit e roleId nextChildren, changed \<or> ch))
       (children, False) roleIds"

definition edited_document :: "jsval \<Rightarrow> (string \<times> jsval) list \<times> bool \<Rightarrow> jsval option" where
  "edited_document data res = (if snd res then Some (with_children data (fst res)) else None)"

definition renamed_hosts ::
  "string \<Rightarrow> string \<Rightarrow> (string \<times> jsval) list \<Rightarrow> (string \<times> jsval) list" where
  "renamed_hosts fromAlias toAlias hosts =
     AList.delete fromAlias
       (if map_of hosts toAlias = None then AList.update toAlias (the (map_of hosts fromAlias)) hosts else hosts)"

definition rename_edit :: "string \<Rightarrow> string \<Rightarrow> jsval option \<Rightarrow> role_edit \<times> bool" where
  "rename_edit fromAlias toAlias existing =
     (case existing of
        None \<Rightarrow> (Keep, False)
      | Some entryValue \<Rightarrow>
          (case entry_hosts entryValue of
             None \<Rightarrow> (Keep, False)
           | Some hosts \<Rightarrow>
               if map_of hosts fromAlias = None then (Keep, False)
               else (Put (with_hosts (jentries entryValue) (renamed_hosts fromAlias toAlias hosts)), True)))"

definition rename_in_inventory :: "string \<Rightarrow> string \<Rightarrow> jsval \<Rightarrow> jsval option" where
  "rename_in_inventory fromAlias toAlias data =
     (let children = inventory_children data
      in edited_document data
           (edit_roles (\<lambda>_. rename_edit fromAlias toAlias) (keys_of children) (jentries children)))"

definition remove_edit :: "string \<Rightarrow> jsval option \<Rightarrow> role_edit \<times> bool" where
  "remove_edit alias existing =
     (case existing of
        None \<Rightarrow> (Keep, False)
      | Some entryValue \<Rightarrow>
          (case entry_hosts entryValue of
             None \<Rightarrow> (Keep, False)
           | Some hosts \<Rightarrow>
               let hosts' = AList.delete alias hosts
               in if hosts' = [] then (Drop, True)
                  else (Put (with_hosts (jentries entryValue) hosts'), map_of hosts alias \<noteq> None)))"

definition remove_in_inventory :: "string \<Rightarrow> jsval \<Rightarrow> jsval option" where
  "remove_in_inventory alias data =
     (let children = inventory_children data
      in edited_document data (edit_roles (\<lambda>_. remove_edit alias) (keys_of children) (jentries children)))"

subsection \<open>Writing the selection\<close>

definition roles_of :: "(string \<times> string list) list \<Rightarrow> string \<Rightarrow> string list" where
  "roles_of m alias = (case map_of m alias of Some rs \<Rightarrow> rs | None \<Rightarrow> [])"

definition mergeRolesByAlias ::
  "string list \<Rightarrow> (string \<times> string list) list \<Rightarrow> (string \<times> string list) list" where
  "mergeRolesByAlias hostVarsAliases incoming =
     (let merged = foldl (\<lambda>merged (alias, roles).
            if trim alias = [] then merged else AList.update (trim alias) (normalizeRoles roles) merged)
          [] (own_entries incoming)
      in foldl (\<lambda>merged alias. if map_of merged alias = None then AList.update alias [] merged else merged)
           merged hostVarsAliases)"

definition managedAliases :: "(string \<times> string list) list \<Rightarrow> string list" where
  "managedAliases mergedSelection = to_set (nonempties (map trim (own_keys mergedSelection)))"

definition desire :: "(string \<times> string list) list \<Rightarrow> string \<Rightarrow> string \<Rightarrow> (string \<times> string list) list" where
  "desire desired alias roleId = AList.update roleId (set_add alias (roles_of desired roleId)) desired"

definition desiredHostsByRole :: "(string \<times> string list) list \<Rightarrow> (string \<times> string list) list" where
  "desiredHostsByRole mergedSelection =
     foldl (\<lambda>desired alias.
         foldl (\<lambda>desired roleId. desire desired alias roleId) desired
           (normalizeRoles (roles_of mergedSelection alias)))
       [] (managedAliases mergedSelection)"

definition sync_edit :: "string list \<Rightarrow> string list \<Rightarrow> jsval option \<Rightarrow> role_edit \<times> bool" where
  "sync_edit managed desiredAliases existing =
     (let old = (case existing of Some v \<Rightarrow> v | None \<Rightarrow> JUndefined);
          entry = (if is_object old then jentries old else []);
          hosts = (case entry_hosts old of Some hs \<Rightarrow> hs | None \<Rightarrow> []);
          missing = filter (\<lambda>alias. map_of hosts alias = None) desiredAliases;
          hosts1 = foldl (\<lambda>hs alias. AList.update alias (JObj []) hs) hosts missing;
          dropped = filter (\<lambda>alias. alias \<in> set managed \<and> alias \<notin> set desiredAliases) (own_keys hosts1);
          hosts2 = foldl (\<lambda>hs alias. AList.delete alias hs) hosts1 dropped;
          changed = (missing \<noteq> [] \<or> dropped \<noteq> [])
      in if hosts2 = [] then (if existing \<noteq> None then (Drop, True) else (Keep, changed))
         else (Put (with_hosts entry hosts2), changed))"

definition roleIdsToProcess :: "jsval \<Rightarrow> (string \<times> string list) list \<Rightarrow> string list" where
  "roleIdsToProcess childrenNode desired = to_set (keys_of childrenNode @ own_keys desired)"

definition sync_inventory :: "(string \<times> string list) list \<Rightarrow> jsval \<Rightarrow> jsval option" where
  "sync_inventory mergedSelection data =
     (let children = inventory_children data; desired = desiredHostsByRole mergedSelection;
          managed = managedAliases mergedSelection
      in edited_document data
           (edit_roles (\<lambda>roleId. sync_edit managed (roles_of desired roleId))
              (roleIdsToProcess children desired) (jentries children)))"

subsection \<open>What an edit does\<close>

definition edited :: "role_edit \<Rightarrow> jsval option \<Rightarrow> jsval option" where
  "edited e old = (case e of Keep \<Rightarrow> old | Put v \<Rightarrow> Some v | Drop \<Rightarrow> None)"

lemma map_of_apply_edit:
  "map_of (apply_edit e r m) k = (if k = r then edited e (map_of m k) else map_of m k)"
  by (simp add: apply_edit_def edited_def split: role_edit.split)

lemma distinct_apply_edit:
  "distinct (map fst m) \<Longrightarrow> distinct (map fst (apply_edit e r m))"
  by (simp add: apply_edit_def split: role_edit.split)

lemma edit_fold:
  fixes f
  defines "step \<equiv> \<lambda>(m, changed) r. let (e, ch) = f r (map_of m r) in (apply_edit e r m, changed \<or> ch)"
  assumes "distinct ids"
  shows "map_of (fst (foldl step (m, c) ids)) r =
      (if r \<in> set ids then edited (fst (f r (map_of m r))) (map_of m r) else map_of m r)
    \<and> snd (foldl step (m, c) ids) = (c \<or> (\<exists>r \<in> set ids. snd (f r (map_of m r))))
    \<and> (distinct (map fst m) \<longrightarrow> distinct (map fst (fst (foldl step (m, c) ids))))"
  using assms(2)
proof (induction ids arbitrary: m c)
  case (Cons i ids)
  obtain e ch where e: "f i (map_of m i) = (e, ch)" by fastforce
  have "step (m, c) i = (apply_edit e i m, c \<or> ch)" by (simp add: step_def e)
  with Cons.IH [of "apply_edit e i m" "c \<or> ch"] Cons.prems e show ?case
    by (auto simp: map_of_apply_edit distinct_apply_edit)
qed simp

lemma edit_roles:
  assumes "distinct ids"
  shows "map_of (fst (edit_roles f ids cs)) r =
      (if r \<in> set ids then edited (fst (f r (map_of cs r))) (map_of cs r) else map_of cs r)"
    and "snd (edit_roles f ids cs) = (\<exists>r \<in> set ids. snd (f r (map_of cs r)))"
    and "distinct (map fst cs) \<Longrightarrow> distinct (map fst (fst (edit_roles f ids cs)))"
  using edit_fold [OF assms, of f cs False r] by (simp_all add: edit_roles_def)

subsection \<open>Tidy documents\<close>

text \<open>
  A record for the inventory, its roles and their hosts, no key twice (as the parser makes sure), and
  no blanks around the names; an entry or its hosts may be missing.
\<close>

definition tidy_hosts :: "jsval \<Rightarrow> bool" where
  "tidy_hosts v =
     (case v of JObj hm \<Rightarrow> distinct (map fst hm) \<and> list_all token (map fst hm) | _ \<Rightarrow> nullish v)"

definition tidy_entry :: "jsval \<Rightarrow> bool" where
  "tidy_entry e =
     (case e of JObj m \<Rightarrow> distinct (map fst m) \<and> tidy_hosts (jget e ''hosts'') | _ \<Rightarrow> nullish e)"

definition tidy_roles :: "(string \<times> jsval) list \<Rightarrow> bool" where
  "tidy_roles cs \<longleftrightarrow> distinct (map fst cs) \<and> list_all (\<lambda>(r, e). token r \<and> tidy_entry e) cs"

definition tidy_children :: "jsval \<Rightarrow> bool" where
  "tidy_children v = (case v of JObj cs \<Rightarrow> tidy_roles cs | _ \<Rightarrow> nullish v)"

definition tidy_all :: "jsval \<Rightarrow> bool" where
  "tidy_all v =
     (case v of JObj am \<Rightarrow> distinct (map fst am) \<and> tidy_children (jget v ''children'') | _ \<Rightarrow> nullish v)"

definition tidy_inventory :: "jsval \<Rightarrow> bool" where
  "tidy_inventory data =
     (case data of JObj m \<Rightarrow> distinct (map fst m) \<and> tidy_all (jget data ''all'') | _ \<Rightarrow> False)"

definition hosts_in :: "jsval option \<Rightarrow> string set" where
  "hosts_in e = (case e of None \<Rightarrow> {} | Some v \<Rightarrow> set (keys_of (coalesce (jget v ''hosts'') (JObj []))))"

definition tidy_opt :: "jsval option \<Rightarrow> bool" where
  "tidy_opt e = (case e of None \<Rightarrow> True | Some v \<Rightarrow> tidy_entry v)"

lemma keys_of_obj [simp]: "keys_of (JObj m) = own_keys m"
  by (simp add: keys_of_def jentries_def own_keys_def)

lemma jentries_obj [simp]: "jentries (JObj m) = own_entries m"
  by (simp add: jentries_def)

lemma own_keys_Nil [simp]: "own_keys [] = []"
  by (simp add: own_keys_def own_entries_def)

lemma hosts_in_None [simp]: "hosts_in None = {}"
  by (simp add: hosts_in_def)

lemma entry_hosts_None:
  "tidy_entry e \<Longrightarrow> entry_hosts e = None \<Longrightarrow> hosts_in (Some e) = {}"
  by (auto simp: tidy_entry_def tidy_hosts_def entry_hosts_def is_object_def hosts_in_def nullish_def
      coalesce_def split: jsval.splits if_splits option.splits)

lemma entry_hosts_Some:
  assumes "tidy_entry e" "entry_hosts e = Some hs"
  shows "distinct (map fst hs)" "list_all token (map fst hs)" "hosts_in (Some e) = fst ` set hs"
    "is_object e" "distinct (map fst (jentries e))"
proof -
  obtain m where e: "e = JObj m" "distinct (map fst m)" "tidy_hosts (jget e ''hosts'')"
    using assms by (auto simp: tidy_entry_def entry_hosts_def is_object_def nullish_def jget_def
        split: jsval.splits if_splits option.splits)
  then obtain hm where hm: "jget e ''hosts'' = JObj hm" "hs = own_entries hm"
      "distinct (map fst hm)" "list_all token (map fst hm)"
    using assms(2) by (auto simp: entry_hosts_def is_object_def tidy_hosts_def nullish_def
        split: jsval.splits if_splits)
  then show "distinct (map fst hs)" "list_all token (map fst hs)" "hosts_in (Some e) = fst ` set hs"
    "is_object e" "distinct (map fst (jentries e))"
    using e by (auto simp: list_all_iff hosts_in_def coalesce_def nullish_def is_object_def)
qed

lemma with_hosts_facts:
  assumes "distinct (map fst m)"
  shows "hosts_in (Some (with_hosts m hs)) = fst ` set hs"
    and "distinct (map fst hs) \<Longrightarrow> list_all token (map fst hs) \<Longrightarrow> tidy_entry (with_hosts m hs)"
    and "entry_hosts (with_hosts m hs) = Some (own_entries hs)"
  using assms by (simp_all add: with_hosts_def hosts_in_def coalesce_def nullish_def tidy_entry_def
      tidy_hosts_def entry_hosts_def is_object_def)

subsection \<open>Hosts after an edit\<close>

lemma keys_update [simp]: "fst ` set (AList.update k v m) = insert k (fst ` set m)"
  by (simp add: dom_update)

lemma keys_delete [simp]: "fst ` set (AList.delete k m) = fst ` set m - {k}"
  using arg_cong [OF delete_keys, of set k m] by (simp add: image_image)

lemma all_keys: "list_all P (map fst m) \<longleftrightarrow> (\<forall>k \<in> fst ` set m. P k)"
  by (simp add: list_all_iff)

lemma renamed_keys:
  assumes "fromAlias \<noteq> toAlias" "distinct (map fst hs)"
  shows "fst ` set (renamed_hosts fromAlias toAlias hs) = insert toAlias (fst ` set hs - {fromAlias})"
    and "distinct (map fst (renamed_hosts fromAlias toAlias hs))"
proof -
  have "map_of hs toAlias \<noteq> None \<Longrightarrow> toAlias \<in> fst ` set hs" by (auto simp: map_of_eq_None_iff)
  then show "fst ` set (renamed_hosts fromAlias toAlias hs) = insert toAlias (fst ` set hs - {fromAlias})"
    using assms by (auto simp: renamed_hosts_def simp del: not_None_eq)
  show "distinct (map fst (renamed_hosts fromAlias toAlias hs))"
    using assms by (simp add: renamed_hosts_def del: delete_keys)
qed

lemma rename_edit_hosts:
  assumes "tidy_opt o'" "fromAlias \<noteq> toAlias" "token toAlias"
  defines "new \<equiv> edited (fst (rename_edit fromAlias toAlias o')) o'"
  shows "tidy_opt new"
    and "hosts_in new = (if fromAlias \<in> hosts_in o' then insert toAlias (hosts_in o' - {fromAlias}) else hosts_in o')"
    and "snd (rename_edit fromAlias toAlias o') = (fromAlias \<in> hosts_in o')"
proof -
  have "tidy_opt new \<and>
    hosts_in new = (if fromAlias \<in> hosts_in o' then insert toAlias (hosts_in o' - {fromAlias}) else hosts_in o')
    \<and> snd (rename_edit fromAlias toAlias o') = (fromAlias \<in> hosts_in o')"
  proof (cases o')
    case None
    then show ?thesis by (simp add: new_def rename_edit_def edited_def tidy_opt_def)
  next
    case (Some e)
    show ?thesis
    proof (cases "entry_hosts e")
      case None
      then show ?thesis
        using assms(1) Some entry_hosts_None by (simp add: new_def rename_edit_def edited_def tidy_opt_def)
    next
      case hs: (Some hs)
      note f = entry_hosts_Some [of e hs]
      show ?thesis
      proof (cases "map_of hs fromAlias")
        case None
        then show ?thesis
          using assms(1) Some hs f by (auto simp: new_def rename_edit_def edited_def tidy_opt_def map_of_eq_None_iff)
      next
        case (Some v)
        define hs' where "hs' = renamed_hosts fromAlias toAlias hs"
        have e: "tidy_entry e" using assms(1) \<open>o' = _\<close> by (simp add: tidy_opt_def)
        note f = entry_hosts_Some [OF e hs]
        note k = renamed_keys [OF assms(2) f(1), folded hs'_def]
        have "list_all token (map fst hs')"
          using f(2) assms(3) unfolding all_keys k(1) by blast
        note w = with_hosts_facts(2) [OF f(5) k(2) this] with_hosts_facts(1) [OF f(5), of hs']
        have "fromAlias \<in> fst ` set hs" using Some by (force dest: map_of_SomeD)
        then show ?thesis
          using \<open>o' = _\<close> hs f(3) Some w k(1)
          by (simp add: new_def rename_edit_def edited_def tidy_opt_def flip: hs'_def)
      qed
    qed
  qed
  then show "tidy_opt new"
    "hosts_in new = (if fromAlias \<in> hosts_in o' then insert toAlias (hosts_in o' - {fromAlias}) else hosts_in o')"
    "snd (rename_edit fromAlias toAlias o') = (fromAlias \<in> hosts_in o')" by blast+
qed

lemma remove_edit_hosts:
  fixes gone
  assumes "tidy_opt o'"
  defines "new \<equiv> edited (fst (remove_edit gone o')) o'"
  shows "tidy_opt new \<and> hosts_in new = hosts_in o' - {gone}"
    and "snd (remove_edit gone o') \<or> hosts_in new = hosts_in o'"
proof -
  have "tidy_opt new \<and> hosts_in new = hosts_in o' - {gone}
    \<and> (\<not> snd (remove_edit gone o') \<longrightarrow> hosts_in new = hosts_in o')"
  proof (cases "\<exists>e hs. o' = Some e \<and> entry_hosts e = Some hs")
    case False
    then show ?thesis
      using assms entry_hosts_None by (cases o'; cases "entry_hosts (the o')")
        (simp_all add: new_def remove_edit_def edited_def tidy_opt_def)
  next
    case True
    then obtain e hs where e: "o' = Some e" "entry_hosts e = Some hs" "tidy_entry e"
      using assms(1) by (auto simp: tidy_opt_def)
    note f = entry_hosts_Some [OF e(3,2)]
    let ?hs = "AList.delete gone hs"
    have k: "fst ` set ?hs = fst ` set hs - {gone}" by (rule keys_delete)
    have "list_all token (map fst ?hs)" using f(2) unfolding all_keys k by blast
    moreover have "distinct (map fst ?hs)" using f(1) by (rule distinct_delete)
    ultimately have w: "tidy_entry (with_hosts (jentries e) ?hs)"
      "hosts_in (Some (with_hosts (jentries e) ?hs)) = fst ` set hs - {gone}"
      using with_hosts_facts [OF f(5), of ?hs] k by simp_all
    have "map_of hs gone = None \<Longrightarrow> fst ` set hs - {gone} = fst ` set hs" by (simp add: map_of_eq_None_iff)
    moreover have "?hs = [] \<Longrightarrow> fst ` set hs - {gone} = {}" using k by (metis image_empty set_empty)
    ultimately show ?thesis
      using e f(3) w by (simp add: new_def remove_edit_def edited_def tidy_opt_def Let_def)
  qed
  then show "tidy_opt new \<and> hosts_in new = hosts_in o' - {gone}"
    "snd (remove_edit gone o') \<or> hosts_in new = hosts_in o'" by blast+
qed

lemma foldl_delete_keys:
  "fst ` set (foldl (\<lambda>hs a. AList.delete a hs) hs as) = fst ` set hs - set as"
  "distinct (map fst hs) \<Longrightarrow> distinct (map fst (foldl (\<lambda>hs a. AList.delete a hs) hs as))"
  by (induction as arbitrary: hs) (auto simp: keys_delete simp del: delete_keys)

lemma foldl_update_keys:
  "fst ` set (foldl (\<lambda>hs a. AList.update a v hs) hs as) = fst ` set hs \<union> set as"
  by (induction as arbitrary: hs) auto

lemma sync_edit_hosts:
  fixes managed
  assumes "tidy_opt o'" "list_all token want"
  defines "new \<equiv> edited (fst (sync_edit managed want o')) o'"
  shows "tidy_opt new \<and> hosts_in new = (hosts_in o' - (set managed - set want)) \<union> set want"
    and "new = None \<or> hosts_in new \<noteq> {}"
    and "snd (sync_edit managed want o') \<or> hosts_in new = hosts_in o'"
proof -
  define old where "old = (case o' of Some v \<Rightarrow> v | None \<Rightarrow> JUndefined)"
  define entry where "entry = (if is_object old then jentries old else [])"
  define hosts where "hosts = (case entry_hosts old of Some hs \<Rightarrow> hs | None \<Rightarrow> [])"
  define missing where "missing = filter (\<lambda>a. map_of hosts a = None) want"
  define hosts1 where "hosts1 = foldl (\<lambda>hs a. AList.update a (JObj []) hs) hosts missing"
  define dropped where "dropped = filter (\<lambda>a. a \<in> set managed \<and> a \<notin> set want) (own_keys hosts1)"
  define hosts2 where "hosts2 = foldl (\<lambda>hs a. AList.delete a hs) hosts1 dropped"
  have tidy: "tidy_entry old" using assms(1)
    by (auto simp: old_def tidy_opt_def tidy_entry_def nullish_def split: option.splits)
  have hosts: "distinct (map fst hosts)" "list_all token (map fst hosts)" "fst ` set hosts = hosts_in o'"
    using entry_hosts_Some [OF tidy] entry_hosts_None [OF tidy]
    by (cases "entry_hosts old"; cases o';
        force simp: hosts_def old_def entry_hosts_def is_object_def hosts_in_def)+
  have entry: "distinct (map fst entry)"
    using tidy by (auto simp: entry_def tidy_entry_def is_object_def nullish_def split: jsval.splits)
  have k1: "fst ` set hosts1 = hosts_in o' \<union> set want"
    using hosts(3) by (auto simp: hosts1_def foldl_update_keys missing_def map_of_eq_None_iff)
  have d1: "distinct (map fst hosts1)" using hosts(1) by (simp add: hosts1_def)
  have k2: "fst ` set hosts2 = (hosts_in o' - (set managed - set want)) \<union> set want"
    using k1 unfolding hosts2_def foldl_delete_keys(1) dropped_def by auto
  have d2: "distinct (map fst hosts2)" unfolding hosts2_def by (rule foldl_delete_keys(2) [OF d1])
  have "list_all token (map fst hosts2)"
    using k2 hosts(2,3) assms(2) unfolding all_keys by (auto simp: list_all_iff)
  note w = with_hosts_facts [OF entry, of hosts2] d2 this
  have eq: "sync_edit managed want o' =
      (if hosts2 = [] then (if o' \<noteq> None then (Drop, True) else (Keep, missing \<noteq> [] \<or> dropped \<noteq> []))
       else (Put (with_hosts entry hosts2), missing \<noteq> [] \<or> dropped \<noteq> []))"
    unfolding sync_edit_def Let_def old_def [symmetric] entry_def [symmetric] hosts_def [symmetric]
      missing_def [symmetric] hosts1_def [symmetric] dropped_def [symmetric] hosts2_def [symmetric] ..
  have "(tidy_opt new \<and> hosts_in new = (hosts_in o' - (set managed - set want)) \<union> set want)
      \<and> (new = None \<or> hosts_in new \<noteq> {})"
  proof (cases "hosts2 = []")
    case True
    then have none: "(hosts_in o' - (set managed - set want)) \<union> set want = {}"
      unfolding k2 [symmetric] using True by simp
    show ?thesis unfolding none new_def eq using True by (simp add: edited_def tidy_opt_def)
  next
    case False
    then have "fst ` set hosts2 \<noteq> {}" by simp
    with False show ?thesis
      using w unfolding new_def eq k2 [symmetric] by (simp add: edited_def tidy_opt_def)
  qed
  then show n: "tidy_opt new \<and> hosts_in new = (hosts_in o' - (set managed - set want)) \<union> set want"
    and "new = None \<or> hosts_in new \<noteq> {}" by blast+
  have "hosts_in new = hosts_in o'" if "\<not> snd (sync_edit managed want o')"
  proof -
    have "missing = []" "dropped = []" using that unfolding eq by (auto split: if_splits)
    then have "set want \<subseteq> fst ` set hosts" "hosts1 = hosts"
      by (auto simp: missing_def filter_empty_conv map_of_eq_None_iff hosts1_def)
    moreover from this \<open>dropped = []\<close> have "fst ` set hosts \<inter> set managed \<subseteq> set want"
      by (auto simp: dropped_def filter_empty_conv)
    ultimately show ?thesis using n hosts(3) by auto
  qed
  then show "snd (sync_edit managed want o') \<or> hosts_in new = hosts_in o'" by blast
qed

text \<open>An entry with the wanted hosts, and no other managed ones, is left alone.\<close>

lemma sync_edit_settled:
  assumes "tidy_opt o'" "set want \<subseteq> hosts_in o'" "hosts_in o' \<inter> set managed \<subseteq> set want"
    and "o' = None \<or> hosts_in o' \<noteq> {}"
  shows "\<not> snd (sync_edit managed want o')"
proof -
  define old where "old = (case o' of Some v \<Rightarrow> v | None \<Rightarrow> JUndefined)"
  define hosts where "hosts = (case entry_hosts old of Some hs \<Rightarrow> hs | None \<Rightarrow> [])"
  have tidy: "tidy_entry old" using assms(1)
    by (auto simp: old_def tidy_opt_def tidy_entry_def nullish_def split: option.splits)
  have hosts: "fst ` set hosts = hosts_in o'"
    using entry_hosts_Some [OF tidy] entry_hosts_None [OF tidy]
    by (cases "entry_hosts old"; cases o';
        force simp: hosts_def old_def entry_hosts_def is_object_def hosts_in_def)+
  have "a \<in> fst ` set hosts" if "a \<in> set want" for a using that assms(2) hosts by auto
  then have missing: "filter (\<lambda>a. map_of hosts a = None) want = []"
    by (simp add: filter_empty_conv map_of_eq_None_iff)
  have dropped: "filter (\<lambda>a. a \<in> set managed \<and> a \<notin> set want) (own_keys hosts) = []"
    using assms(3) hosts by (auto simp: filter_empty_conv)
  have "hosts = [] \<Longrightarrow> o' = None \<and> want = []" using hosts assms(2,4) by auto
  then show ?thesis
    by (simp add: sync_edit_def Let_def missing dropped flip: old_def hosts_def)
qed

subsection \<open>Reading the roles\<close>

lemma roles_of_update:
  "roles_of (AList.update k rs m) a = (if a = k then rs else roles_of m a)"
  by (simp add: roles_of_def)

lemma roles_of_map:
  "roles_of (map (\<lambda>(a, rs). (a, normalizeRoles rs)) m) a = normalizeRoles (roles_of m a)"
  by (induction m) (auto simp: roles_of_def normalizeRoles_def nonempties_def)

lemma set_normalizeRoles: "set (normalizeRoles rs) = {r. r \<noteq> [] \<and> (\<exists>s \<in> set rs. r = trim s)}"
  by (auto simp: normalizeRoles_def)

lemma normalizeRoles_token: "r \<in> set (normalizeRoles rs) \<Longrightarrow> token r"
  by (auto simp: set_normalizeRoles token_def)

lemma normalizeRoles_tokens: "\<forall>r \<in> set rs. token r \<Longrightarrow> set (normalizeRoles rs) = set rs"
  by (auto simp: set_normalizeRoles token_def)

lemma push_hosts:
  assumes "\<forall>h \<in> set hs. token h"
  shows "set (roles_of (foldl (\<lambda>out a. push_role r a out) out hs) a)
       = set (roles_of out a) \<union> (if a \<in> set hs then {r} else {})"
  using assms
proof (induction hs arbitrary: out)
  case (Cons h hs)
  then have "push_role r h out = AList.update h (roles_of out h @ [r]) out"
    by (simp add: push_role_def token_def roles_of_def)
  with Cons show ?case by (auto simp: roles_of_update)
qed simp

lemma tidy_entry_hosts: "tidy_entry e \<Longrightarrow> h \<in> hosts_in (Some e) \<Longrightarrow> token h"
  using entry_hosts_Some [of e] entry_hosts_None [of e]
  by (cases "entry_hosts e") (auto simp: all_keys)

lemma collected_fold:
  assumes "list_all (\<lambda>(r, e). token r \<and> tidy_entry e) cs"
  shows "set (roles_of (foldl (\<lambda>out (r, e). foldl (\<lambda>out a. push_role r a out) out
            (keys_of (coalesce (jget e ''hosts'') (JObj [])))) out cs) a)
       = set (roles_of out a) \<union> {r. \<exists>e. (r, e) \<in> set cs \<and> a \<in> hosts_in (Some e)}"
  using assms
proof (induction cs arbitrary: out)
  case (Cons c cs)
  obtain r e where c: "c = (r, e)" by fastforce
  have "\<forall>h \<in> set (keys_of (coalesce (jget e ''hosts'') (JObj []))). token h"
    using Cons.prems tidy_entry_hosts [of e] by (simp add: c hosts_in_def)
  from push_hosts [OF this] Cons show ?case
    by (auto simp: c hosts_in_def)
qed simp

definition roles_node :: "jsval \<Rightarrow> (string \<times> jsval) list" where
  "roles_node data = jentries (inventory_children data)"

lemma tidy_inventory_facts:
  assumes "tidy_inventory data"
  shows "tidy_roles (roles_node data)"
    and "jentries (coalesce (jget (jget data ''all'') ''children'') (JObj [])) = roles_node data"
    and "distinct (map fst (jentries data))" "distinct (map fst (jentries (inventory_all data)))"
  using assms
  by (auto simp: tidy_inventory_def tidy_all_def tidy_children_def roles_node_def inventory_children_def
      inventory_all_def object_or_empty_def is_object_def nullish_def coalesce_def jget_def tidy_roles_def
      list_all_iff split: jsval.splits option.splits)

lemma read_document:
  assumes "tidy_inventory data"
  shows "set (roles_of (document_roles data) a) = {r. a \<in> hosts_in (map_of (roles_node data) r)}"
proof -
  note f = tidy_inventory_facts [OF assms]
  have all: "list_all (\<lambda>(r, e). token r \<and> tidy_entry e) (roles_node data)"
    and d: "distinct (map fst (roles_node data))" using f(1) by (simp_all add: tidy_roles_def)
  have "set (roles_of (collected_roles (roles_node data)) a)
      = {r. \<exists>e. (r, e) \<in> set (roles_node data) \<and> a \<in> hosts_in (Some e)}"
    unfolding collected_roles_def collected_fold [OF all] by (simp add: roles_of_def)
  also have "\<dots> = {r. a \<in> hosts_in (map_of (roles_node data) r)}"
    using d by (auto simp: map_of_eq_Some_iff split: option.splits) (metis hosts_in_None empty_iff map_of_eq_Some_iff not_Some_eq)
  finally have eq: "set (roles_of (collected_roles (roles_node data)) a)
      = {r. a \<in> hosts_in (map_of (roles_node data) r)}" .
  have "\<forall>r \<in> set (roles_of (collected_roles (roles_node data)) a). token r"
    unfolding eq using all by (auto simp: list_all_iff dest!: map_of_SomeD split: option.splits)
      (metis hosts_in_None empty_iff map_of_SomeD not_Some_eq case_prod_conv)
  then show ?thesis
    unfolding document_roles_def f(2) roles_of_map by (simp add: normalizeRoles_tokens eq)
qed

subsection \<open>Editing a document\<close>

lemma roles_node_with_children:
  assumes "tidy_inventory data" "tidy_roles cs"
  shows "tidy_inventory (with_children data cs)"
    and "map_of (roles_node (with_children data cs)) = map_of cs"
    and "set (roles_node (with_children data cs)) = set cs"
proof -
  note f = tidy_inventory_facts(3,4) [OF assms(1)]
  have "tidy_children (JObj cs)" using assms(2) by (simp add: tidy_children_def)
  then show "tidy_inventory (with_children data cs)"
    using f by (simp add: with_children_def tidy_inventory_def tidy_all_def Let_def)
  have "roles_node (with_children data cs) = own_entries cs"
    by (simp add: roles_node_def inventory_children_def inventory_all_def object_or_empty_def is_object_def
        with_children_def Let_def)
  then show "map_of (roles_node (with_children data cs)) = map_of cs"
    "set (roles_node (with_children data cs)) = set cs"
    using assms(2) by (simp_all add: map_of_own_entries tidy_roles_def)
qed

text \<open>
  What any of the three changes does to the roles of a device: \<open>P r H\<close> gives the hosts of role \<open>r\<close>
  that had the hosts \<open>H\<close>.
\<close>

definition written :: "jsval \<Rightarrow> jsval option \<Rightarrow> jsval" where
  "written data res = (case res of Some d \<Rightarrow> d | None \<Rightarrow> data)"

lemma tidy_roles_entry: "tidy_roles cs \<Longrightarrow> tidy_opt (map_of cs r)"
  by (auto simp: tidy_roles_def tidy_opt_def list_all_iff split: option.splits dest!: map_of_SomeD)

lemma edit_document:
  fixes f data ids
  defines "cs \<equiv> roles_node data"
  defines "new \<equiv> \<lambda>r. edited (fst (f r (map_of cs r))) (map_of cs r)"
  defines "data' \<equiv> written data (edited_document data (edit_roles f ids cs))"
  assumes tidy: "tidy_inventory data" and ids: "distinct ids" "set (map fst cs) \<subseteq> set ids" "\<forall>r \<in> set ids. token r"
    and edit: "\<And>r. tidy_opt (new r) \<and> hosts_in (new r) = P r (hosts_in (map_of cs r))"
    and quiet: "\<And>r. snd (f r (map_of cs r)) \<or> hosts_in (new r) = hosts_in (map_of cs r)"
  shows "tidy_inventory data'"
    and "set (roles_of (document_roles data') a) = {r \<in> set ids. a \<in> P r (hosts_in (map_of cs r))}"
    and "snd (edit_roles f ids cs)
       \<Longrightarrow> map_of (roles_node data') r = (if r \<in> set ids then new r else None)"
proof -
  note t = tidy_inventory_facts [OF tidy]
  define cs' where "cs' = fst (edit_roles f ids cs)"
  note e = edit_roles [OF ids(1), where f = f and cs = cs]
  have out: "map_of cs r = None" if "r \<notin> set ids" for r
    using that ids(2) by (auto simp: map_of_eq_None_iff)
  have look: "map_of cs' r = (if r \<in> set ids then new r else None)" for r
    using e(1) [where r = r] out by (simp add: cs'_def new_def)
  have "distinct (map fst cs')"
    using e(3) t(1) by (simp add: cs'_def cs_def tidy_roles_def)
  moreover have "token r \<and> tidy_entry v" if "(r, v) \<in> set cs'" for r v
  proof -
    have "map_of cs' r = Some v" using that calculation by simp
    then have "r \<in> set ids" "new r = Some v" using look [of r] by (auto split: if_splits)
    then show ?thesis using edit [of r] ids(3) by (simp add: tidy_opt_def)
  qed
  ultimately have tidy': "tidy_roles cs'" by (auto simp: tidy_roles_def list_all_iff)
  have "tidy_inventory data' \<and> (\<forall>r. hosts_in (map_of (roles_node data') r) = hosts_in (map_of cs' r))"
  proof (cases "snd (edit_roles f ids cs)")
    case True
    then have "data' = with_children data cs'"
      by (simp add: data'_def written_def edited_document_def cs'_def)
    then show ?thesis using roles_node_with_children [OF tidy tidy'] by simp
  next
    case False
    then have "data' = data" by (simp add: data'_def written_def edited_document_def)
    moreover have "hosts_in (map_of cs r) = hosts_in (map_of cs' r)" for r
      using False e(2) quiet [of r] look [of r] out [of r] by (auto split: if_splits)
    ultimately show ?thesis using tidy by (simp add: cs_def)
  qed
  then have d: "tidy_inventory data'" and h: "\<And>r. hosts_in (map_of (roles_node data') r) = hosts_in (map_of cs' r)"
    by blast+
  show "tidy_inventory data'" by (fact d)
  show "set (roles_of (document_roles data') a) = {r \<in> set ids. a \<in> P r (hosts_in (map_of cs r))}"
    unfolding read_document [OF d] h look using edit by auto
  show "map_of (roles_node data') r = (if r \<in> set ids then new r else None)" if "snd (edit_roles f ids cs)"
    using roles_node_with_children(2) [OF tidy tidy'] that look
    by (simp add: data'_def written_def edited_document_def flip: cs'_def)
qed

subsection \<open>The inventory follows the selection\<close>

lemma desire_fold:
  "set (roles_of (foldl (\<lambda>d r. desire d a r) d rs) r) = set (roles_of d r) \<union> (if r \<in> set rs then {a} else {})
   \<and> fst ` set (foldl (\<lambda>d r. desire d a r) d rs) = fst ` set d \<union> set rs"
  by (induction rs arbitrary: d) (auto simp: desire_def roles_of_update)

lemma desired_hosts:
  "set (roles_of (desiredHostsByRole sel) r) = {a \<in> set (managedAliases sel). r \<in> set (normalizeRoles (roles_of sel a))}"
  "fst ` set (desiredHostsByRole sel) = (\<Union>a \<in> set (managedAliases sel). set (normalizeRoles (roles_of sel a)))"
proof -
  have "set (roles_of (foldl (\<lambda>desired alias. foldl (\<lambda>desired roleId. desire desired alias roleId) desired
           (normalizeRoles (roles_of sel alias))) d as) r)
       = set (roles_of d r) \<union> {a \<in> set as. r \<in> set (normalizeRoles (roles_of sel a))}
    \<and> fst ` set (foldl (\<lambda>desired alias. foldl (\<lambda>desired roleId. desire desired alias roleId) desired
           (normalizeRoles (roles_of sel alias))) d as)
       = fst ` set d \<union> (\<Union>a \<in> set as. set (normalizeRoles (roles_of sel a)))" for as d
    by (induction as arbitrary: d) (auto simp: desire_fold)
  from this [of "[]" "managedAliases sel"]
  show "set (roles_of (desiredHostsByRole sel) r) = {a \<in> set (managedAliases sel). r \<in> set (normalizeRoles (roles_of sel a))}"
    "fst ` set (desiredHostsByRole sel) = (\<Union>a \<in> set (managedAliases sel). set (normalizeRoles (roles_of sel a)))"
    by (simp_all add: desiredHostsByRole_def roles_of_def)
qed

lemma managed_tokens: "a \<in> set (managedAliases sel) \<Longrightarrow> token a"
  by (auto simp: managedAliases_def token_def)

lemma role_ids:
  assumes "tidy_inventory data"
  shows "distinct (roleIdsToProcess (inventory_children data) (desiredHostsByRole sel))"
    and "set (map fst (roles_node data)) \<subseteq> set (roleIdsToProcess (inventory_children data) (desiredHostsByRole sel))"
    and "\<forall>r \<in> set (roleIdsToProcess (inventory_children data) (desiredHostsByRole sel)). token r"
    and "fst ` set (desiredHostsByRole sel) \<subseteq> set (roleIdsToProcess (inventory_children data) (desiredHostsByRole sel))"
proof -
  have "list_all (\<lambda>(r, e). token r \<and> tidy_entry e) (roles_node data)"
    using tidy_inventory_facts(1) [OF assms] by (simp add: tidy_roles_def)
  then have "\<forall>r \<in> fst ` set (roles_node data). token r" by (auto simp: list_all_iff)
  moreover have "\<forall>r \<in> fst ` set (desiredHostsByRole sel). token r"
    by (auto simp: desired_hosts(2) intro: normalizeRoles_token)
  moreover have "set (roleIdsToProcess (inventory_children data) (desiredHostsByRole sel))
      = fst ` set (roles_node data) \<union> fst ` set (desiredHostsByRole sel)"
    by (simp add: roleIdsToProcess_def keys_of_def roles_node_def)
  ultimately show "\<forall>r \<in> set (roleIdsToProcess (inventory_children data) (desiredHostsByRole sel)). token r"
    "set (map fst (roles_node data)) \<subseteq> set (roleIdsToProcess (inventory_children data) (desiredHostsByRole sel))"
    "fst ` set (desiredHostsByRole sel) \<subseteq> set (roleIdsToProcess (inventory_children data) (desiredHostsByRole sel))"
    by auto
  show "distinct (roleIdsToProcess (inventory_children data) (desiredHostsByRole sel))"
    by (simp add: roleIdsToProcess_def)
qed

lemma sync_document:
  fixes data sel
  assumes tidy: "tidy_inventory data"
  defines "data' \<equiv> written data (sync_inventory sel data)"
  shows "tidy_inventory data'"
    and "set (roles_of (document_roles data') a) =
      (if a \<in> set (managedAliases sel) then set (normalizeRoles (roles_of sel a))
       else set (roles_of (document_roles data) a))"
    and "sync_inventory sel data' = None"
proof -
  let ?managed = "managedAliases sel" and ?desired = "desiredHostsByRole sel"
  define f where "f = (\<lambda>r. sync_edit ?managed (roles_of ?desired r))"
  define ids where "ids = roleIdsToProcess (inventory_children data) ?desired"
  define new where "new = (\<lambda>r. edited (fst (f r (map_of (roles_node data) r))) (map_of (roles_node data) r))"
  note ids = role_ids [OF tidy, of sel, folded ids_def]
  have data': "data' = written data (edited_document data (edit_roles f ids (roles_node data)))"
    by (simp add: data'_def sync_inventory_def Let_def f_def ids_def roles_node_def)
  have want: "list_all token (roles_of ?desired r)" for r
    using desired_hosts(1) [of sel r] managed_tokens by (auto simp: list_all_iff)
  note old = tidy_roles_entry [OF tidy_inventory_facts(1) [OF tidy]]
  have edit: "tidy_opt (new r) \<and> hosts_in (new r)
      = (hosts_in (map_of (roles_node data) r) - (set ?managed - set (roles_of ?desired r))) \<union> set (roles_of ?desired r)"
    and ne: "new r = None \<or> hosts_in (new r) \<noteq> {}" for r
    using sync_edit_hosts [OF old want] by (simp_all add: new_def f_def)
  have quiet: "snd (f r (map_of (roles_node data) r)) \<or> hosts_in (new r) = hosts_in (map_of (roles_node data) r)" for r
    using sync_edit_hosts(3) [OF old want] by (simp add: new_def f_def)
  note e = edit_document [OF tidy ids(1,2,3), where f = f and P = "\<lambda>r H.
      (H - (set ?managed - set (roles_of ?desired r))) \<union> set (roles_of ?desired r)",
      folded data', OF edit [unfolded new_def] quiet [unfolded new_def]]
  show "tidy_inventory data'" by (rule e(1))
  have "r \<in> set ids" if "a \<in> hosts_in (map_of (roles_node data) r)" for r
    using that ids(2) by (cases "map_of (roles_node data) r") (force dest: map_of_SomeD)+
  moreover have "r \<in> set ids" if "a \<in> set (roles_of ?desired r)" for r
    using that ids(4) desired_hosts by (metis (no_types, lifting) UN_I mem_Collect_eq subsetD)
  ultimately show "set (roles_of (document_roles data') a) =
      (if a \<in> set (managedAliases sel) then set (normalizeRoles (roles_of sel a))
       else set (roles_of (document_roles data) a))"
    unfolding e(2) read_document [OF tidy] by (auto simp: desired_hosts(1))
  show "sync_inventory sel data' = None"
  proof (cases "sync_inventory sel data")
    case None
    then show ?thesis by (simp add: data'_def written_def)
  next
    case (Some d)
    then have ch: "snd (edit_roles f ids (roles_node data))"
      by (auto simp: sync_inventory_def edited_document_def Let_def f_def ids_def roles_node_def split: if_splits)
    have look: "map_of (roles_node data') r = (if r \<in> set ids then new r else None)" for r
      using e(3) [OF ch] by (simp add: new_def)
    have "\<not> snd (f r (map_of (roles_node data') r))"
      if "r \<in> set (roleIdsToProcess (inventory_children data') ?desired)" for r
    proof -
      have "r \<notin> set ids \<Longrightarrow> roles_of ?desired r = []"
        using ids(4) by (auto simp: roles_of_def dest!: map_of_SomeD split: option.split)
      then show ?thesis
        unfolding f_def using edit [of r] ne [of r]
        by (intro sync_edit_settled) (auto simp: look tidy_opt_def)
    qed
    then show ?thesis
      using edit_roles(2) [OF role_ids(1) [OF e(1)], of f]
      by (simp add: sync_inventory_def edited_document_def Let_def f_def flip: roles_node_def)
  qed
qed

lemma children_ids:
  assumes "tidy_inventory data"
  shows "distinct (keys_of (inventory_children data))"
    and "set (map fst (roles_node data)) \<subseteq> set (keys_of (inventory_children data))"
    and "\<forall>r \<in> set (keys_of (inventory_children data)). token r"
  using tidy_inventory_facts(1) [OF assms]
  by (auto simp: keys_of_def tidy_roles_def list_all_iff simp flip: roles_node_def)

lemma in_children:
  "h \<in> hosts_in (map_of (roles_node data) r) \<Longrightarrow> r \<in> set (keys_of (inventory_children data))"
  by (cases "map_of (roles_node data) r") (force simp: keys_of_def simp flip: roles_node_def dest: map_of_SomeD)+

lemma rename_document:
  fixes data fromAlias toAlias
  assumes tidy: "tidy_inventory data" and names: "fromAlias \<noteq> toAlias" "token toAlias"
  defines "data' \<equiv> written data (rename_in_inventory fromAlias toAlias data)"
  shows "tidy_inventory data'"
    and "set (roles_of (document_roles data') a) =
      (if a = fromAlias then {}
       else if a = toAlias
       then set (roles_of (document_roles data) fromAlias) \<union> set (roles_of (document_roles data) toAlias)
       else set (roles_of (document_roles data) a))"
proof -
  note old = tidy_roles_entry [OF tidy_inventory_facts(1) [OF tidy]]
  note h = rename_edit_hosts [OF old names]
  have data': "data' = written data (edited_document data
      (edit_roles (\<lambda>_. rename_edit fromAlias toAlias) (keys_of (inventory_children data)) (roles_node data)))"
    by (simp add: data'_def rename_in_inventory_def Let_def roles_node_def)
  note e = edit_document [OF tidy children_ids [OF tidy], where f = "\<lambda>_. rename_edit fromAlias toAlias"
      and P = "\<lambda>_ H. if fromAlias \<in> H then insert toAlias (H - {fromAlias}) else H", folded data',
      OF conjI [OF h(1,2)]]
  have q: "snd (rename_edit fromAlias toAlias (map_of (roles_node data) r))
      \<or> hosts_in (edited (fst (rename_edit fromAlias toAlias (map_of (roles_node data) r)))
            (map_of (roles_node data) r)) = hosts_in (map_of (roles_node data) r)" for r
    using h(2,3) [of r] by simp
  show "tidy_inventory data'" by (rule e(1) [OF q])
  show "set (roles_of (document_roles data') a) =
      (if a = fromAlias then {}
       else if a = toAlias
       then set (roles_of (document_roles data) fromAlias) \<union> set (roles_of (document_roles data) toAlias)
       else set (roles_of (document_roles data) a))"
    using in_children names unfolding e(2) [OF q] read_document [OF tidy] by auto
qed

lemma remove_document:
  fixes data gone
  assumes tidy: "tidy_inventory data"
  defines "data' \<equiv> written data (remove_in_inventory gone data)"
  shows "tidy_inventory data'"
    and "set (roles_of (document_roles data') a) = (if a = gone then {} else set (roles_of (document_roles data) a))"
proof -
  note old = tidy_roles_entry [OF tidy_inventory_facts(1) [OF tidy]]
  note h = remove_edit_hosts [OF old, where gone = gone]
  have data': "data' = written data (edited_document data
      (edit_roles (\<lambda>_. remove_edit gone) (keys_of (inventory_children data)) (roles_node data)))"
    by (simp add: data'_def remove_in_inventory_def Let_def roles_node_def)
  note e = edit_document [OF tidy children_ids [OF tidy], where f = "\<lambda>_. remove_edit gone"
      and P = "\<lambda>_ H. H - {gone}", folded data', OF h]
  show "tidy_inventory data'" by (rule e(1))
  show "set (roles_of (document_roles data') a) = (if a = gone then {} else set (roles_of (document_roles data) a))"
    using in_children unfolding e(2) read_document [OF tidy] by auto
qed

text \<open>
  C17: writing the selection into the inventory makes every managed device have exactly its selected
  roles there, leaves the roles of all other devices as they were, and keeps the document tidy; writing
  it again changes nothing, so the automatic synchronisation comes to rest.
\<close>

theorem inventory_follows_selection:
  assumes "tidy_inventory data"
  shows "let data' = written data (sync_inventory sel data) in
    tidy_inventory data'
    \<and> (\<forall>a. set (roles_of (document_roles data') a) =
         (if a \<in> set (managedAliases sel) then set (normalizeRoles (roles_of sel a))
          else set (roles_of (document_roles data) a)))
    \<and> sync_inventory sel data' = None"
  using sync_document [OF assms, of sel] by (simp add: Let_def)

text \<open>
  Renaming a device in the inventory gives its roles to the new name, in addition to those the
  new name had, takes them from the old one and touches no other device; removing a device takes its
  roles and touches no other.
\<close>

theorem inventory_rename_remove:
  assumes "tidy_inventory data" "fromAlias \<noteq> toAlias" "token toAlias"
  shows "let renamed = written data (rename_in_inventory fromAlias toAlias data);
             removed = written data (remove_in_inventory fromAlias data);
             roles = (\<lambda>d a. set (roles_of (document_roles d) a)) in
    tidy_inventory renamed \<and> tidy_inventory removed
    \<and> (\<forall>a. roles renamed a = (if a = fromAlias then {} else if a = toAlias
              then roles data fromAlias \<union> roles data toAlias else roles data a))
    \<and> (\<forall>a. roles removed a = (if a = fromAlias then {} else roles data a))"
  using rename_document [OF assms] remove_document [OF assms(1), of fromAlias]
  unfolding Let_def by blast

definition demo_inventory :: jsval where
  "demo_inventory = JObj [(''all'', JObj [(''vars'', JNull), (''children'', JObj
     [(''wiki'', JObj [(''hosts'', JObj [(''web'', JNull), (''old'', JObj [])])]),
      (''blog'', JObj [(''hosts'', JObj [(''db'', JObj [])])])])])]"

lemma demo_tidy: "tidy_inventory demo_inventory"
  by code_simp

theorem inventory_follows_selection_witness:
  "sync_inventory [(''web'', [''blog'']), (''db'', [])] demo_inventory = Some (JObj [(''all'', JObj [(''vars'', JNull),
      (''children'', JObj
        [(''wiki'', JObj [(''hosts'', JObj [(''old'', JObj [])])]),
         (''blog'', JObj [(''hosts'', JObj [(''web'', JObj [])])])])])])
   \<and> set (roles_of (document_roles (written demo_inventory
          (sync_inventory [(''web'', [''blog'']), (''db'', [])] demo_inventory))) ''web'') = {''blog''}"
proof -
  let ?sel = "[(''web'', [''blog'']), (''db'', [])] :: (string \<times> string list) list"
  have v: "sync_inventory ?sel demo_inventory = Some (JObj [(''all'', JObj [(''vars'', JNull),
      (''children'', JObj
        [(''wiki'', JObj [(''hosts'', JObj [(''old'', JObj [])])]),
         (''blog'', JObj [(''hosts'', JObj [(''web'', JObj [])])])])])])"
    by code_simp
  have m: "''web'' \<in> set (managedAliases ?sel)" "set (normalizeRoles (roles_of ?sel ''web'')) = {''blog''}"
    by code_simp+
  have "set (roles_of (document_roles (written demo_inventory (sync_inventory ?sel demo_inventory))) ''web'') = {''blog''}"
    using inventory_follows_selection [OF demo_tidy, of ?sel, unfolded Let_def] m by simp
  with v show ?thesis by simp
qed

theorem inventory_rename_remove_witness:
  "rename_in_inventory ''web'' ''db'' demo_inventory = Some (JObj [(''all'', JObj [(''vars'', JNull),
      (''children'', JObj
        [(''wiki'', JObj [(''hosts'', JObj [(''old'', JObj []), (''db'', JNull)])]),
         (''blog'', JObj [(''hosts'', JObj [(''db'', JObj [])])])])])])
   \<and> set (roles_of (document_roles (written demo_inventory
          (rename_in_inventory ''web'' ''db'' demo_inventory))) ''db'') = {''wiki'', ''blog''}"
proof -
  have v: "rename_in_inventory ''web'' ''db'' demo_inventory = Some (JObj [(''all'', JObj [(''vars'', JNull),
      (''children'', JObj
        [(''wiki'', JObj [(''hosts'', JObj [(''old'', JObj []), (''db'', JNull)])]),
         (''blog'', JObj [(''hosts'', JObj [(''db'', JObj [])])])])])])"
    by code_simp
  have t: "token ''db''" "''web'' \<noteq> ''db''" "''db'' \<noteq> ''web''" by code_simp+
  have r: "set (roles_of (document_roles demo_inventory) ''web'') = {''wiki''}"
    "set (roles_of (document_roles demo_inventory) ''db'') = {''blog''}" by code_simp+
  have "set (roles_of (document_roles (written demo_inventory (rename_in_inventory ''web'' ''db'' demo_inventory))) ''db'')
      = {''wiki'', ''blog''}"
    using inventory_rename_remove [OF demo_tidy t(2,1), unfolded Let_def] t(3) r by auto
  with v show ?thesis by simp
qed

end
