(* ===== verification/VaultBlocks.thy ===== *)
theory VaultBlocks
  imports JsonText
begin

text \<open>
  Vault values in the text of a YAML file (the end of \<open>workspace-panel/utils.ts\<close>): finding the block of
  lines a vault value occupies, reading its text and replacing it. Lines are those of a text split
  at line feeds.
\<close>

subsection \<open>Finding a block\<close>

record VaultBlock =
  vb_key :: string
  vb_start :: nat
  vb_end :: nat
  vb_indent :: string

definition key_char :: "char \<Rightarrow> bool" where
  "key_char c \<longleftrightarrow> is_alnum c \<or> c = CHR ''_''"

text \<open>
  The line \<open>key: !vault |\<close>: its indentation and its key. The pattern is
  \<open>^(\s*)([A-Za-z0-9_]+)\s*:\s*!vault\s*(\|[-+]?)?\s*$\<close>.
\<close>

definition after_bar :: "string \<Rightarrow> string" where
  "after_bar s =
     (case s of
        c # r \<Rightarrow> if c = CHR ''|'' then (case r of d # r' \<Rightarrow> if d \<in> {CHR ''-'', CHR ''+''} then r' else r | [] \<Rightarrow> [])
                 else s
      | [] \<Rightarrow> [])"

definition vault_key :: "string \<Rightarrow> (string \<times> string) option" where
  "vault_key line =
     (let indent = takeWhile ws_char line;
          r1 = dropWhile ws_char line;
          key = takeWhile key_char r1;
          r2 = trim_start (dropWhile key_char r1)
      in case r2 of
           [] \<Rightarrow> None
         | c # r3 \<Rightarrow>
             let r4 = trim_start r3 in
             if key \<noteq> [] \<and> c = CHR '':'' \<and> starts_with r4 ''!vault''
                \<and> list_all ws_char (after_bar (trim_start (drop 6 r4)))
             then Some (indent, key) else None)"

text \<open>The loop that walks up from a line; both branches of its body step to the line above.\<close>

fun key_line :: "string list \<Rightarrow> nat \<Rightarrow> nat option" where
  "key_line lines 0 = (if vault_key (lines ! 0) \<noteq> None then Some 0 else None)"
| "key_line lines (Suc k) = (if vault_key (lines ! Suc k) \<noteq> None then Some (Suc k) else key_line lines k)"

definition vault_head :: "string \<Rightarrow> bool" where
  "vault_head line \<longleftrightarrow> starts_with (trim line) ''$ANSIBLE_VAULT''"

fun block_end :: "string \<Rightarrow> nat \<Rightarrow> string list \<Rightarrow> nat" where
  "block_end indent e [] = e"
| "block_end indent e (next # rest) =
     (if trim next = [] then e + 1
      else if starts_with next indent \<or> vault_head next then block_end indent (e + 1) rest
      else e)"

definition findVaultBlock :: "string list \<Rightarrow> int \<Rightarrow> VaultBlock option" where
  "findVaultBlock lines lineIndex =
     (if lineIndex < 0 \<or> int (length lines) \<le> lineIndex then None
      else case key_line lines (nat lineIndex) of
        None \<Rightarrow> None
      | Some start \<Rightarrow>
          (case vault_key (lines ! start) of
             None \<Rightarrow> None
           | Some (baseIndent, key) \<Rightarrow>
               let indent = baseIndent @ ''  '' in
               if length lines \<le> start + 1 \<or> lines ! (start + 1) = [] \<or> \<not> vault_head (lines ! (start + 1))
               then None
               else Some \<lparr>vb_key = key, vb_start = start,
                      vb_end = block_end indent (start + 1) (drop (start + 2) lines), vb_indent = indent\<rparr>))"

definition extractVaultText :: "string list \<Rightarrow> VaultBlock \<Rightarrow> string" where
  "extractVaultText lines block =
     trim (join [NL] (map (\<lambda>line.
       if vb_indent block \<noteq> [] \<and> starts_with line (vb_indent block)
       then drop (length (vb_indent block)) line else trim_start line)
       (drop (vb_start block + 1) (take (vb_end block + 1) lines))))"

definition replaceVaultBlock :: "string list \<Rightarrow> VaultBlock \<Rightarrow> string \<Rightarrow> string" where
  "replaceVaultBlock lines block vaultText =
     (let indent = (if vb_indent block = [] then ''  '' else vb_indent block) in
      join [NL] (take (vb_start block + 1) lines
        @ map (\<lambda>line. indent @ line) (split_on NL vaultText)
        @ drop (vb_end block + 1) lines))"

subsection \<open>Replacing a value\<close>

lemma key_line_Some:
  "key_line lines k = Some s \<Longrightarrow> s \<le> k \<and> vault_key (lines ! s) \<noteq> None"
  by (induction k) (auto split: if_splits)

lemma key_line_at: "vault_key (lines ! s) \<noteq> None \<Longrightarrow> key_line lines s = Some s"
  by (cases s) auto

lemma block_end_ge: "e \<le> block_end indent e rest"
  by (induction indent e rest rule: block_end.induct) (auto simp: Suc_le_eq le_SucI)

lemma block_end_le: "block_end indent e rest \<le> e + length rest"
  by (induction indent e rest rule: block_end.induct) auto

text \<open>Indented lines that are not blank belong to the block; the first other line ends it.\<close>

definition ends_block :: "string \<Rightarrow> string list \<Rightarrow> bool" where
  "ends_block indent rest \<longleftrightarrow> (case rest of [] \<Rightarrow> True
     | next # _ \<Rightarrow> trim next \<noteq> [] \<and> \<not> starts_with next indent \<and> \<not> vault_head next)"

lemma block_end_payload:
  "list_all (\<lambda>l. trim l \<noteq> []) ls \<Longrightarrow> ends_block indent rest
   \<Longrightarrow> block_end indent e (map (\<lambda>l. indent @ l) ls @ rest) = e + length ls"
proof (induction ls arbitrary: e)
  case Nil
  then show ?case by (cases rest) (auto simp: ends_block_def)
next
  case (Cons l ls)
  have "trim (indent @ l) \<noteq> []"
    using Cons.prems(1) by (auto simp: trim_eq_Nil_iff)
  moreover have "starts_with (indent @ l) indent" by (auto simp: starts_with_iff)
  ultimately show ?case using Cons by simp
qed

lemma findVaultBlock_fields:
  assumes "findVaultBlock lines i = Some b"
  shows "vb_start b + 1 < length lines" "vault_key (lines ! vb_start b) \<noteq> None"
    "\<exists>ind. vault_key (lines ! vb_start b) = Some (ind, vb_key b) \<and> vb_indent b = ind @ ''  ''"
    "vb_start b < vb_end b" "vb_end b < length lines"
  using assms block_end_ge [of "vb_start b + 1" "vb_indent b" "drop (vb_start b + 2) lines"]
    block_end_le [of "vb_indent b" "vb_start b + 1" "drop (vb_start b + 2) lines"]
  by (auto simp: findVaultBlock_def Let_def split: if_splits option.splits prod.splits)

lemma indent_ws: "vault_key line = Some (ind, key) \<Longrightarrow> list_all ws_char ind"
  by (auto simp: vault_key_def Let_def list_all_iff dest: set_takeWhileD split: list.splits if_splits)

lemma head_indented:
  assumes "list_all ws_char ind"
  shows "trim (ind @ l) = trim l"
  using assms by (induction ind) (auto simp: trim_def trim_start_def)

text \<open>
  Replacing the value of a vault block changes that value only. Finding the block again gives the
  new text, under the same key and indentation; the lines up to the key and the lines after the
  block are as they were. The new text has a vault header and no blank line, and the line after the old block is
  not an indented one.
\<close>

theorem vault_replace_roundtrip:
  assumes block: "findVaultBlock lines i = Some b"
    and lines: "\<forall>l \<in> set lines. NL \<notin> set l"
    and tx: "vault_head (hd (split_on NL t))" "list_all (\<lambda>l. trim l \<noteq> []) (split_on NL t)" "trim t = t"
    and after: "ends_block (vb_indent b) (drop (vb_end b + 1) lines)"
  shows "let lines' = split_on NL (replaceVaultBlock lines b t);
             b' = b\<lparr>vb_end := vb_start b + length (split_on NL t)\<rparr>
    in findVaultBlock lines' (int (vb_start b)) = Some b' \<and> extractVaultText lines' b' = t
       \<and> take (vb_start b + 1) lines' = take (vb_start b + 1) lines
       \<and> drop (vb_end b' + 1) lines' = drop (vb_end b + 1) lines"
proof -
  obtain ind where ind: "vault_key (lines ! vb_start b) = Some (ind, vb_key b)" "vb_indent b = ind @ ''  ''"
    using findVaultBlock_fields(3) [OF block] by blast
  note f = findVaultBlock_fields [OF block]
  let ?pre = "take (vb_start b + 1) lines" and ?post = "drop (vb_end b + 1) lines"
    and ?ls = "split_on NL t" and ?ind = "vb_indent b"
  have ws: "list_all ws_char ?ind" using indent_ws [OF ind(1)] ind(2) by (simp add: ws_char_def code_def)
  define lines' where "lines' = split_on NL (replaceVaultBlock lines b t)"
  have "NL \<notin> set ?ind" using ws ind(1) f(1) lines
  proof -
    have "set ind \<subseteq> set (lines ! vb_start b)"
      using ind(1) by (auto simp: vault_key_def Let_def dest: set_takeWhileD split: list.splits if_splits)
    moreover have "NL \<notin> set (lines ! vb_start b)" using lines f(1) by simp
    moreover have "code NL \<noteq> code (CHR '' '')" by (simp add: NL_def code_def)
    then have "NL \<notin> set ''  ''" by auto
    ultimately show ?thesis using ind(2) by auto
  qed
  moreover have "\<forall>l \<in> set ?ls. NL \<notin> set l" by (auto dest: split_on_free)
  ultimately have "\<forall>l \<in> set (?pre @ map (\<lambda>l. ?ind @ l) ?ls @ ?post). NL \<notin> set l"
    using lines by (auto dest: in_set_takeD in_set_dropD)
  then have lines'_eq: "lines' = ?pre @ map (\<lambda>l. ?ind @ l) ?ls @ ?post"
    unfolding lines'_def replaceVaultBlock_def Let_def using ind(2) by (subst split_on_join) auto
  obtain h hs where hs: "?ls = h # hs" by (cases ?ls) auto
  have len: "length ?pre = vb_start b + 1" using f(1) by simp
  have at: "lines' ! vb_start b = lines ! vb_start b" "lines' ! (vb_start b + 1) = ?ind @ h"
    "drop (vb_start b + 2) lines' = map (\<lambda>l. ?ind @ l) hs @ ?post" "vb_start b + 1 < length lines'"
    using f(1) len by (auto simp: lines'_eq hs nth_append)
  have "vault_head (?ind @ h)"
    using tx(1) head_indented [OF ws] by (simp add: hs vault_head_def)
  moreover have "block_end ?ind (vb_start b + 1) (map (\<lambda>l. ?ind @ l) hs @ ?post) = vb_start b + 1 + length hs"
    using tx(2) after by (intro block_end_payload) (auto simp: hs)
  ultimately have found: "findVaultBlock lines' (int (vb_start b)) = Some (b\<lparr>vb_end := vb_start b + length ?ls\<rparr>)"
    using at ind key_line_at [of lines' "vb_start b"]
    by (auto simp: findVaultBlock_def Let_def hs)
  have "drop (vb_start b + 1) (take (vb_start b + length ?ls + 1) lines') = map (\<lambda>l. ?ind @ l) ?ls"
    using len by (simp add: lines'_eq)
  then have "extractVaultText lines' (b\<lparr>vb_end := vb_start b + length ?ls\<rparr>) = trim (join [NL] ?ls)"
    using ind(2) by (simp add: extractVaultText_def comp_def starts_with_iff)
  then have ext: "extractVaultText lines' (b\<lparr>vb_end := vb_start b + length ?ls\<rparr>) = t"
    using tx(3) by (simp add: join_split_on)
  have "take (vb_start b + 1) lines' = ?pre" "drop (vb_start b + length ?ls + 1) lines' = ?post"
    using len by (simp_all add: lines'_eq)
  with found ext show ?thesis by (simp add: lines'_def [symmetric] Let_def)
qed

text \<open>
  The search finds a vault value from any line below it: on a line that has nothing to do with the
  value, the block of the nearest vault key above is found, and it is the one that is shown or changed.
\<close>

theorem unrelated_line_finds_vault:
  assumes "findVaultBlock lines (int j) = Some b" "j \<le> i" "i < length lines"
    and "\<forall>k. j < k \<and> k \<le> i \<longrightarrow> vault_key (lines ! k) = None"
  shows "findVaultBlock lines (int i) = Some b"
proof -
  have "key_line lines i = key_line lines j"
    using assms(2,4)
  proof (induction i)
    case (Suc i)
    then show ?case by (cases "j = Suc i") auto
  qed simp
  then show ?thesis using assms by (simp add: findVaultBlock_def)
qed

definition demo_lines :: "string list" where
  "demo_lines = [''a: 1'', ''  pw: !vault |'', ''    $ANSIBLE_VAULT;1.1'', ''    61'', ''b: 2'']"

definition demo_block :: VaultBlock where
  "demo_block = \<lparr>vb_key = ''pw'', vb_start = 1, vb_end = 3, vb_indent = ''    ''\<rparr>"

lemma demo_found: "findVaultBlock demo_lines 3 = Some demo_block"
  by code_simp

theorem vault_replace_roundtrip_witness:
  "findVaultBlock (split_on NL (replaceVaultBlock demo_lines demo_block (''$ANSIBLE_VAULT;1.1'' @ NL # ''62''))) 1
     = Some demo_block
   \<and> drop 4 (split_on NL (replaceVaultBlock demo_lines demo_block (''$ANSIBLE_VAULT;1.1'' @ NL # ''62''))) = [''b: 2'']"
proof -
  let ?t = "''$ANSIBLE_VAULT;1.1'' @ NL # ''62''"
  have p1: "\<forall>l \<in> set demo_lines. NL \<notin> set l" by code_simp
  have p2: "vault_head (hd (split_on NL ?t))" by code_simp
  have p3: "list_all (\<lambda>l. trim l \<noteq> []) (split_on NL ?t)" by code_simp
  have p4: "trim ?t = ?t" by code_simp
  have p5: "ends_block (vb_indent demo_block) (drop (vb_end demo_block + 1) demo_lines)" by code_simp
  note w = vault_replace_roundtrip [OF demo_found p1 p2 p3 p4 p5]
  have "length (split_on NL ?t) = 2" by code_simp
  then have same: "demo_block\<lparr>vb_end := vb_start demo_block + length (split_on NL ?t)\<rparr> = demo_block"
    by (simp add: demo_block_def)
  have vals: "int (vb_start demo_block) = 1" "vb_end demo_block + 1 = 4" "drop 4 demo_lines = [''b: 2'']"
    by (simp_all add: demo_block_def demo_lines_def)
  show ?thesis using w unfolding Let_def same vals by blast
qed

theorem unrelated_line_finds_vault_witness: "findVaultBlock demo_lines (int 4) = Some demo_block"
proof (rule unrelated_line_finds_vault)
  show "findVaultBlock demo_lines (int 3) = Some demo_block" using demo_found by simp
  show "4 < length demo_lines" by (simp add: demo_lines_def)
  have "vault_key (demo_lines ! 4) = None" by code_simp
  moreover have "k = 4" if "3 < k \<and> k \<le> 4" for k :: nat using that by linarith
  ultimately show "\<forall>k. 3 < k \<and> k \<le> 4 \<longrightarrow> vault_key (demo_lines ! k) = None" by metis
qed simp

end
