(* ===== verification/DeployRequest.thy ===== *)
theory DeployRequest
  imports ServerSelection JsonText
begin

text \<open>
  What a deployment sends (\<open>lib/deployment_payload.js\<close>, \<open>lib/deploy_form.js\<close>), the master password kept
  for the session (\<open>lib/workspaceVaultSession.ts\<close>), the text of an API error and the ports of the
  forms (\<open>deployment-workspace/helpers.ts\<close>, \<open>server-collection/View.utils.ts\<close>). A record of messages is
  the list of its fields in the order the code assigns them; a missing payload is \<open>None\<close>.
\<close>

named_theorems deploy_defs \<open>definitions of the deployment request\<close>

subsection \<open>The form\<close>

record deploy_form =
  df_alias :: string
  df_host :: string
  df_port :: string
  df_user :: string
  df_authMethod :: string
  df_password :: string
  df_privateKey :: string
  df_keyPassphrase :: string

definition AUTH_METHODS :: "string list" where
  "AUTH_METHODS = [''password'', ''private_key'']"

definition alias_pattern :: "string \<Rightarrow> bool" where
  "alias_pattern alias \<longleftrightarrow> alias \<noteq> []
     \<and> list_all (\<lambda>c. is_az09 c \<or> c = CHR ''_'' \<or> c = CHR ''-'') alias"

definition port_in_range :: "string \<Rightarrow> bool" where
  "port_in_range portRaw =
     (let portNum = str_num portRaw
      in num_is_int portNum \<and> \<not> num_lt_int portNum 1 \<and> \<not> num_gt_int portNum 65535)"

definition error_if :: "bool \<Rightarrow> string \<Rightarrow> string \<Rightarrow> (string \<times> string) list" where
  "error_if b k message = (if b then [(k, message)] else [])"

definition validateForm :: "deploy_form \<Rightarrow> (string \<times> string) list" where
  "validateForm state =
     (let alias = trim (df_alias state); host = trim (df_host state); portRaw = trim (df_port state);
          user = trim (df_user state); authMethod = df_authMethod state;
          password = df_password state; privateKey = df_privateKey state
      in (if alias = [] then [(''alias'', ''Alias is required.'')]
          else error_if (\<not> alias_pattern alias) ''alias'' ''Alias allows only a-z, 0-9, _ and -.'')
       @ error_if (host = []) ''host'' ''Host is required.''
       @ error_if (user = []) ''user'' ''User is required.''
       @ (if portRaw = [] then [(''port'', ''Port is required.'')]
          else error_if (\<not> port_in_range portRaw) ''port'' ''Port must be an integer between 1 and 65535.'')
       @ (if authMethod \<notin> set AUTH_METHODS then [(''authMethod'', ''Choose a valid auth method.'')]
          else if authMethod = ''password'' then
            error_if (password = []) ''password'' ''Password is required.''
            @ error_if (privateKey \<noteq> []) ''privateKey'' ''Private key must be empty for password auth.''
          else
            error_if (privateKey = []) ''privateKey'' ''Private key is required.''
            @ error_if (password \<noteq> []) ''password'' ''Password must be empty for key auth.''))"

definition isFormValid :: "deploy_form \<Rightarrow> bool" where
  "isFormValid state \<longleftrightarrow> validateForm state = []"

subsection \<open>The payload\<close>

record deploy_args =
  da_activeServer :: "ServerState option"
  da_selectedRolesByAlias :: "(string \<times> string list) list"
  da_selectedAliases :: "string list"
  da_selectableAliases :: "string list"
  da_roleFilter :: "string list"
  da_workspaceId :: "string option"
  da_inventoryReady :: bool
  da_infinitoNexusVersion :: string

definition or_default :: "string \<Rightarrow> string \<Rightarrow> string" where
  "or_default s d = (if s = [] then d else s)"

definition credentials_of :: "ServerState option \<Rightarrow> deploy_form" where
  "credentials_of activeServer =
     (let field = (\<lambda>f. case activeServer of None \<Rightarrow> [] | Some server \<Rightarrow> f server)
      in \<lparr>df_alias = field sv_alias, df_host = field sv_host, df_port = field sv_port,
          df_user = field sv_user, df_authMethod = or_default (field sv_authMethod) ''password'',
          df_password = field sv_password, df_privateKey = field sv_privateKey,
          df_keyPassphrase = field sv_keyPassphrase\<rparr>)"

text \<open>\<open>Array.from(new Set(items.map(trim))).filter(Boolean)\<close>\<close>

definition normalized_names :: "string list \<Rightarrow> string list" where
  "normalized_names items = nonempties (to_set (map trim items))"

definition rolesFromAliases :: "(string \<times> string list) list \<Rightarrow> string list \<Rightarrow> string list" where
  "rolesFromAliases rolesByAlias normalizedSelected =
     foldl (\<lambda>out alias. foldl (\<lambda>out role. let r = trim role in
         if r \<noteq> [] \<and> r \<notin> set out then out @ [r] else out) out (opt_list (map_of rolesByAlias alias)))
       [] normalizedSelected"

definition deploy_scope :: "deploy_args \<Rightarrow> string list" where
  "deploy_scope a = normalized_names (da_selectedAliases a)"

definition deploy_roles :: "deploy_args \<Rightarrow> string list" where
  "deploy_roles a =
     (let normalizedRoleFilter = normalized_names (da_roleFilter a)
      in if normalizedRoleFilter \<noteq> [] then normalizedRoleFilter
         else rolesFromAliases (da_selectedRolesByAlias a) (deploy_scope a))"

definition no_id :: "string option \<Rightarrow> bool" where
  "no_id ws \<longleftrightarrow> ws = None \<or> ws = Some []"

definition deploy_errors :: "deploy_args \<Rightarrow> (string \<times> string) list" where
  "deploy_errors a =
     validateForm (credentials_of (da_activeServer a))
     @ error_if (deploy_roles a = []) ''selectedRoles'' ''Select at least one role.''
     @ error_if (no_id (da_workspaceId a)) ''workspace'' ''Workspace is not ready yet.''
     @ error_if (\<not> da_inventoryReady a) ''inventory'' ''Generate inventory in Workspace & Files first.''
     @ error_if (deploy_scope a = []) ''deployScope'' ''Select at least one device to deploy.''"

definition deploy_auth :: "deploy_form \<Rightarrow> jsval" where
  "deploy_auth c =
     JObj ([(''method'', JStr (df_authMethod c))]
       @ (if df_authMethod c = ''password'' then [(''password'', JStr (df_password c))] else [])
       @ (if df_authMethod c = ''private_key''
          then [(''private_key'', JStr (df_privateKey c))]
            @ (if df_keyPassphrase c \<noteq> [] then [(''passphrase'', JStr (df_keyPassphrase c))] else [])
          else []))"

definition allSelectableSelected :: "deploy_args \<Rightarrow> bool" where
  "allSelectableSelected a =
     (let selectable = normalized_names (da_selectableAliases a)
      in selectable \<noteq> [] \<and> list_all (\<lambda>alias. alias \<in> set (deploy_scope a)) selectable)"

definition buildDeploymentPayload ::
  "deploy_args \<Rightarrow> (string \<times> jsval) list option \<times> (string \<times> string) list" where
  "buildDeploymentPayload a =
     (let credentials = credentials_of (da_activeServer a); errors = deploy_errors a;
          normalizedVersion = trim (da_infinitoNexusVersion a);
          portRaw = trim (df_port credentials)
      in if errors \<noteq> [] then (None, errors)
         else (Some ([(''workspace_id'', JStr (opt_else (da_workspaceId a) [])),
               (''host'', JStr (trim (df_host credentials))),
               (''user'', JStr (trim (df_user credentials))),
               (''auth'', deploy_auth credentials),
               (''selected_roles'', JArr (map JStr (deploy_roles a)))]
             @ (if normalizedVersion \<noteq> []
                then [(''infinito_nexus_version'', JStr normalizedVersion)] else [])
             @ (if portRaw \<noteq> [] \<and> num_is_int (str_num portRaw)
                then [(''port'', JNum (str_num portRaw))] else [])
             @ (if allSelectableSelected a then []
                else [(''limit'', JStr (join '','' (deploy_scope a)))])), []))"

subsection \<open>The text of an API error\<close>

text \<open>The number of constructors of a value, which bounds the recursion into the parts of a detail.\<close>

lemma size_jget: "size (jget (JObj m) k) < size (JObj m)"
proof (cases "map_of m k")
  case (Some v)
  then have "(k, v) \<in> set m" by (rule map_of_SomeD)
  then have "size v \<le> size_list (size_prod (\<lambda>_. 0) size) m"
    by (induction m) auto
  then show ?thesis using Some by simp
qed simp

function stringifyApiDetail :: "jsval \<Rightarrow> string option" where
  "stringifyApiDetail (JStr s) = str_opt (trim s)"
| "stringifyApiDetail (JArr vs) =
     (let parts = nonempties (map (\<lambda>item. opt_else (stringifyApiDetail item) []) vs)
      in if parts \<noteq> [] then Some (join '' | '' parts) else None)"
| "stringifyApiDetail (JObj m) =
     (case stringifyApiDetail (jget (JObj m) ''detail'') of
        Some nested \<Rightarrow> Some nested
      | None \<Rightarrow>
          let msg = (case jget (JObj m) ''msg'' of JStr s \<Rightarrow> trim s | _ \<Rightarrow> []);
              loc = (case jget (JObj m) ''loc'' of
                       JArr parts \<Rightarrow> join ''.'' (nonempties (map (\<lambda>part. trim (str_nn part)) parts))
                     | _ \<Rightarrow> []);
              serialized = json (JObj m)
          in if msg \<noteq> [] then Some (if loc \<noteq> [] then loc @ '': '' @ msg else msg)
             else if serialized \<noteq> ''{}'' then Some serialized else None)"
| "stringifyApiDetail JUndefined = None"
| "stringifyApiDetail JNull = None"
| "stringifyApiDetail (JBool b) = str_opt (trim (js_str (JBool b)))"
| "stringifyApiDetail (JNum n) = str_opt (trim (js_str (JNum n)))"
  by pat_completeness auto
termination
proof (relation "measure size")
  fix vs :: "jsval list" and item :: jsval
  assume "item \<in> set vs"
  then show "(item, JArr vs) \<in> measure size"
    by (induction vs) auto
next
  fix m :: "(string \<times> jsval) list"
  show "(jget (JObj m) ''detail'', JObj m) \<in> measure size"
    using size_jget [of m "''detail''"] by simp
qed simp

definition first_message :: "jsval list \<Rightarrow> string option" where
  "first_message vs = (case List.map_filter stringifyApiDetail vs of m # _ \<Rightarrow> Some m | [] \<Rightarrow> None)"

text \<open>The message, or what reading the body as text throws.\<close>

definition parseApiError :: "nat \<Rightarrow> jsval option \<Rightarrow> string + string \<Rightarrow> string + string" where
  "parseApiError status json_body text_body =
     (let message = ''HTTP '' @ dec_digits status in
      case json_body of
        Some data \<Rightarrow>
          Inr (case first_message [jget data ''detail'', jget data ''message'', data] of
                 Some m \<Rightarrow> m | None \<Rightarrow> message)
      | None \<Rightarrow>
          (case text_body of
             Inl thrown \<Rightarrow> Inl thrown
           | Inr text \<Rightarrow> Inr (if trim text \<noteq> [] then trim text else message)))"

subsection \<open>The master password of the session\<close>

text \<open>The session storage of the browser, \<open>None\<close> where there is no window.\<close>

type_synonym session_store = "(string \<times> string) list option"

definition WORKSPACE_MASTER_PASSWORD_PREFIX :: string where
  "WORKSPACE_MASTER_PASSWORD_PREFIX = ''infinito.workspace.master-password.''"

definition storageKey :: "string option \<Rightarrow> string" where
  "storageKey workspaceId = WORKSPACE_MASTER_PASSWORD_PREFIX @ trim (opt_else workspaceId [])"

definition getWorkspaceMasterPassword :: "string option \<Rightarrow> session_store \<Rightarrow> string" where
  "getWorkspaceMasterPassword workspaceId window =
     (let id = trim (opt_else workspaceId []) in
      case window of
        None \<Rightarrow> []
      | Some items \<Rightarrow>
          if id = [] then [] else trim (opt_else (map_of items (storageKey (Some id))) []))"

definition setWorkspaceMasterPassword ::
  "string option \<Rightarrow> string \<Rightarrow> session_store \<Rightarrow> session_store" where
  "setWorkspaceMasterPassword workspaceId masterPassword window =
     (let id = trim (opt_else workspaceId []); trimmed = trim masterPassword in
      if id = [] then window
      else map_option (\<lambda>items.
        if trimmed = [] then AList.delete (storageKey (Some id)) items
        else AList.update (storageKey (Some id)) trimmed items) window)"

definition clearWorkspaceMasterPassword :: "string option \<Rightarrow> session_store \<Rightarrow> session_store" where
  "clearWorkspaceMasterPassword workspaceId window =
     (let id = trim (opt_else workspaceId []) in
      if id = [] then window else map_option (AList.delete (storageKey (Some id))) window)"

text \<open>The password typed at the prompt (\<open>None\<close> when it is dismissed) or the error thrown.\<close>

definition promptWorkspaceMasterPassword ::
  "string option \<Rightarrow> string option \<Rightarrow> session_store \<Rightarrow> (string + string) \<times> session_store" where
  "promptWorkspaceMasterPassword workspaceId value window =
     (let trimmed = trim (opt_else value []) in
      if trimmed = [] then (Inl ''Master password is required.'', window)
      else (Inr trimmed, setWorkspaceMasterPassword workspaceId trimmed window))"

subsection \<open>Ports\<close>

text \<open>The first integer that is rounded to infinity when a decimal literal is read.\<close>

definition num_overflow :: nat where
  "num_overflow = 2 ^ 1024 - 2 ^ 970"

definition normalizePortValue :: "jsval \<Rightarrow> string" where
  "normalizePortValue v =
     (let digits = filter is_digit (str_nn v);
          parsed = digits_val digits
      in if digits = [] then [] else if parsed \<ge> num_overflow then []
         else dec_digits (min 65535 (max 1 parsed)))"

definition isPortInvalid :: "string \<Rightarrow> bool" where
  "isPortInvalid port =
     (let raw = trim port; n = str_num raw in
      raw \<noteq> [] \<and> (\<not> num_is_int n \<or> num_lt_int n 1 \<or> num_gt_int n 65535))"

definition getPortError :: "string \<Rightarrow> string option" where
  "getPortError portValue =
     (let v = trim portValue; parsed = str_num v in
      if v = [] then Some ''Port is required.''
      else if \<not> list_all is_digit v then Some ''Port must be an integer.''
      else if num_lt_int parsed 1 \<or> num_gt_int parsed 65535
      then Some ''Port must be between 1 and 65535.''
      else None)"

subsection \<open>When a deployment can be sent\<close>

definition form_ready :: "deploy_form \<Rightarrow> bool" where
  "form_ready c \<longleftrightarrow>
     alias_pattern (trim (df_alias c)) \<and> trim (df_host c) \<noteq> [] \<and> trim (df_user c) \<noteq> []
     \<and> port_in_range (trim (df_port c))
     \<and> (df_authMethod c = ''password'' \<and> df_password c \<noteq> [] \<and> df_privateKey c = []
        \<or> df_authMethod c = ''private_key'' \<and> df_privateKey c \<noteq> [] \<and> df_password c = [])"

lemma error_if_Nil [simp]: "error_if b k m = [] \<longleftrightarrow> \<not> b"
  by (simp add: error_if_def)

lemma port_in_range_Nil [simp]: "\<not> port_in_range []"
  by (simp add: port_in_range_def str_num_def)

lemma validateForm_Nil: "validateForm c = [] \<longleftrightarrow> form_ready c"
  by (auto simp: validateForm_def form_ready_def AUTH_METHODS_def alias_pattern_def Let_def)

lemma normalized_names_props:
  "distinct (normalized_names xs)" "[] \<notin> set (normalized_names xs)"
  "set (normalized_names xs) = trim ` set xs - {[]}"
  by (auto simp: normalized_names_def nonempties_def)

text \<open>Collecting the roles of the chosen servers: no blank and no double role.\<close>

lemma role_loop:
  "foldl (\<lambda>out role. let r = trim role in if r \<noteq> [] \<and> r \<notin> set out then out @ [r] else out) out rs
     = foldl (\<lambda>out r. set_add r out) out (nonempties (map trim rs))"
  by (induction rs arbitrary: out) (auto simp: nonempties_def set_add_def Let_def)

lemma rolesFromAliases_to_set:
  "rolesFromAliases m scope
     = to_set (concat (map (\<lambda>alias. nonempties (map trim (opt_list (map_of m alias)))) scope))"
proof -
  have "foldl (\<lambda>out alias. foldl (\<lambda>out role. let r = trim role in
           if r \<noteq> [] \<and> r \<notin> set out then out @ [r] else out) out (opt_list (map_of m alias))) out scope
      = foldl (\<lambda>out r. set_add r out) out
          (concat (map (\<lambda>alias. nonempties (map trim (opt_list (map_of m alias)))) scope))" for out
    unfolding role_loop by (induction scope arbitrary: out) auto
  then show ?thesis
    by (simp add: rolesFromAliases_def to_set_def set_add_all_def)
qed

lemma deploy_roles_props: "distinct (deploy_roles a)" "[] \<notin> set (deploy_roles a)"
  by (auto simp: deploy_roles_def normalized_names_props rolesFromAliases_to_set nonempties_def Let_def)

text \<open>
  C6: a payload is built exactly when the form of the active server is complete, a role, a
  workspace and a device are chosen and the inventory is there; it then carries the trimmed
  host and user, a port between 1 and 65535, exactly one secret, distinct roles without blanks, and a
  limit to the chosen devices unless they are all the devices that can be deployed.
\<close>

theorem deployment_payload:
  "(fst (buildDeploymentPayload a) \<noteq> None) =
     (form_ready (credentials_of (da_activeServer a)) \<and> deploy_roles a \<noteq> []
      \<and> \<not> no_id (da_workspaceId a) \<and> da_inventoryReady a \<and> deploy_scope a \<noteq> [])
   \<and> (\<forall>fields. fst (buildDeploymentPayload a) = Some fields \<longrightarrow>
       (let p = JObj fields; c = credentials_of (da_activeServer a) in
        snd (buildDeploymentPayload a) = []
        \<and> jget p ''workspace_id'' = JStr (the (da_workspaceId a))
        \<and> jget p ''host'' = JStr (trim (df_host c)) \<and> jget p ''user'' = JStr (trim (df_user c))
        \<and> jget p ''port'' = JNum (str_num (trim (df_port c))) \<and> port_in_range (trim (df_port c))
        \<and> jget p ''selected_roles'' = JArr (map JStr (deploy_roles a))
        \<and> distinct (deploy_roles a) \<and> [] \<notin> set (deploy_roles a)
        \<and> (jget (jget p ''auth'') ''password'' = JUndefined) = (df_authMethod c = ''private_key'')
        \<and> (jget (jget p ''auth'') ''private_key'' = JUndefined) = (df_authMethod c = ''password'')
        \<and> jget p ''limit'' = (if allSelectableSelected a then JUndefined
                              else JStr (join '','' (deploy_scope a)))))"
proof -
  let ?c = "credentials_of (da_activeServer a)"
  have ready: "deploy_errors a = [] \<longleftrightarrow> form_ready ?c \<and> deploy_roles a \<noteq> []
      \<and> \<not> no_id (da_workspaceId a) \<and> da_inventoryReady a \<and> deploy_scope a \<noteq> []"
    by (auto simp: deploy_errors_def validateForm_Nil)
  show ?thesis
  proof (cases "deploy_errors a = []")
    case False
    then show ?thesis using ready by (auto simp: buildDeploymentPayload_def Let_def)
  next
    case True
    then have c: "form_ready ?c" "\<not> no_id (da_workspaceId a)" using ready by auto
    then obtain ws where ws: "da_workspaceId a = Some ws" by (auto simp: no_id_def)
    have port: "trim (df_port ?c) \<noteq> []" "port_in_range (trim (df_port ?c))"
      "num_is_int (str_num (trim (df_port ?c)))"
      using c(1) by (auto simp: form_ready_def port_in_range_def Let_def str_num_def)
    have auth: "df_authMethod ?c = ''password'' \<or> df_authMethod ?c = ''private_key''"
      using c(1) by (auto simp: form_ready_def)
    show ?thesis
      using True ready port auth
      by (auto simp: buildDeploymentPayload_def Let_def ws opt_else_def deploy_roles_props deploy_auth_def)
  qed
qed

definition demo_device :: ServerState where
  "demo_device = (createServerPlaceholder ''web'')\<lparr>sv_host := '' web.example '', sv_port := ''22'',
     sv_user := ''root'', sv_authMethod := ''password'', sv_password := ''s3cret''\<rparr>"

definition demo_args :: deploy_args where
  "demo_args = \<lparr>da_activeServer = Some demo_device,
     da_selectedRolesByAlias = [(''web'', [''wiki'', ''blog'', ''wiki'']), (''db'', [''sql''])],
     da_selectedAliases = [''web'', '' web''], da_selectableAliases = [''web'', ''db''],
     da_roleFilter = [], da_workspaceId = Some ''w1'', da_inventoryReady = True,
     da_infinitoNexusVersion = []\<rparr>"

theorem deployment_payload_witness:
  "buildDeploymentPayload demo_args =
     (Some [(''workspace_id'', JStr ''w1''), (''host'', JStr ''web.example''), (''user'', JStr ''root''),
        (''auth'', JObj [(''method'', JStr ''password''), (''password'', JStr ''s3cret'')]),
        (''selected_roles'', JArr [JStr ''wiki'', JStr ''blog'']),
        (''port'', JNum (Dec 22 0)), (''limit'', JStr ''web'')], [])
   \<and> port_in_range (trim (df_port (credentials_of (da_activeServer demo_args))))"
proof -
  have eq: "buildDeploymentPayload demo_args =
     (Some [(''workspace_id'', JStr ''w1''), (''host'', JStr ''web.example''), (''user'', JStr ''root''),
        (''auth'', JObj [(''method'', JStr ''password''), (''password'', JStr ''s3cret'')]),
        (''selected_roles'', JArr [JStr ''wiki'', JStr ''blog'']),
        (''port'', JNum (Dec 22 0)), (''limit'', JStr ''web'')], [])"
    by code_simp
  with deployment_payload [of demo_args] show ?thesis by (simp add: Let_def)
qed

lemma normalizePortValue_cases:
  "normalizePortValue v = [] \<or> (\<exists>n. 1 \<le> n \<and> n \<le> 65535 \<and> normalizePortValue v = dec_digits n)"
  unfolding normalizePortValue_def Let_def
  by (auto intro!: exI [of _ "min 65535 (max 1 (digits_val (filter is_digit (str_nn v))))"])

lemma normalizePortValue_digits:
  assumes "1 \<le> n" "n \<le> 65535"
  shows "normalizePortValue (JStr (dec_digits n)) = dec_digits n"
proof -
  have "filter is_digit (dec_digits n) = dec_digits n"
    using dec_digits_digits [of n] by (simp add: list_all_iff)
  moreover have "65535 < num_overflow" by (simp add: num_overflow_def)
  ultimately show ?thesis using assms by (simp add: normalizePortValue_def)
qed

text \<open>
  Whatever is typed, the port field holds nothing or a number from 1 to 65535 that every check
  of a port accepts, and normalising it again changes nothing.
\<close>

theorem normalizePortValue_bounds:
  "(let port = normalizePortValue v in
     port = [] \<or> (\<exists>n. 1 \<le> n \<and> n \<le> 65535 \<and> port = dec_digits n) \<and> port_in_range port
        \<and> \<not> isPortInvalid port \<and> getPortError port = None \<and> port_valid port)
   \<and> normalizePortValue (JStr (normalizePortValue v)) = normalizePortValue v"
  using normalizePortValue_cases [of v]
proof
  assume "normalizePortValue v = []"
  then show ?thesis by (simp add: normalizePortValue_def)
next
  assume "\<exists>n. 1 \<le> n \<and> n \<le> 65535 \<and> normalizePortValue v = dec_digits n"
  then obtain n where n: "1 \<le> n" "n \<le> 65535" and v: "normalizePortValue v = dec_digits n" by auto
  then show ?thesis
    by (auto simp: normalizePortValue_digits port_in_range_def isPortInvalid_def getPortError_def
        port_valid_def)
qed

end
