(* ===== verification/WorkspaceEditor.thy ===== *)
theory WorkspaceEditor
  imports InventorySync VaultBlocks DeployRequest
begin

text \<open>
  The file editor of a workspace: \<open>actions/core/editor.ts\<close>, \<open>actions/files.ts\<close>, the vault dialog of
  \<open>actions/vault.ts\<close>, \<open>refreshFiles\<close> of \<open>actions/core/workspaces.ts\<close> and the automatic save of
  \<open>useUnsavedChangesGuard.ts\<close>. A callback is split at its \<open>await\<close>s: an exchange under way is an element of
  \<open>ed_jobs\<close> holding what the callback has captured, and an answer is an event for one of them.
  \<open>ed_puts\<close> logs the files written with their contents, \<open>ed_known\<close> records the content of each file
  at its last accepted exchange. The libraries are a record: the YAML parser (the document, or the message of the
  error thrown), the message of a JSON error and \<open>localeCompare\<close>.
\<close>

subsection \<open>State\<close>

record libs =
  lib_yaml :: "string \<Rightarrow> string + jsval"
  lib_json_error :: "string \<Rightarrow> string"
  lib_lc :: "string \<Rightarrow> string \<Rightarrow> int"

record KdbxEntryView =
  kx_id :: string
  kx_group :: string
  kx_title :: string
  kx_username :: string
  kx_password :: string
  kx_url :: string
  kx_notes :: string

datatype vault_mode = Show_value | Change_value

record vault_modal =
  vm_mode :: vault_mode
  vm_block :: VaultBlock
  vm_loading :: bool
  vm_plaintext :: string
  vm_error :: "string option"

record vault_inputs =
  vi_master :: string
  vi_next :: string
  vi_confirm :: string

record save_args =
  sa_path :: string
  sa_value :: string
  sa_selection :: "(string \<times> string list) list"
  sa_hostVars :: "string list"

datatype editor_job =
    Load_job string
  | Kdbx_job string
  | Put_job save_args
  | Saved_refresh save_args
  | Vault_job "string option" vault_modal vault_inputs "string list"
  | Create_job string
  | Created_refresh string
  | Mkdir_job
  | Mkdir_refresh
  | Rename_job string string bool
  | Renamed_refresh string bool
  | Delete_job string bool "string option"
  | Deleted_refresh

record editor_state =
  ed_workspace :: "string option"
  ed_path :: "string option"
  ed_value :: string
  ed_dirty :: bool
  ed_loading :: bool
  ed_error :: "string option"
  ed_status :: "string option"
  ed_saving :: bool
  ed_timer :: bool
  ed_seeded :: bool
  ed_fileOpError :: "string option"
  ed_files :: "FileEntry list"
  ed_openDirs :: "string list"
  ed_inventoryReady :: bool
  ed_selection :: "(string \<times> string list) list"
  ed_kdbxPassword :: string
  ed_kdbxEntries :: "KdbxEntryView list"
  ed_kdbxError :: "string option"
  ed_kdbxLoading :: bool
  ed_kdbxPrompt :: bool
  ed_kdbxRevealed :: "string list"
  ed_menu :: "VaultBlock option"
  ed_modal :: "vault_modal option"
  ed_inputs :: vault_inputs
  ed_session :: session_store
  ed_jobs :: "editor_job list"
  ed_puts :: "(string \<times> string) list"
  ed_known :: "(string \<times> string) list"

definition no_inputs :: vault_inputs where
  "no_inputs = \<lparr>vi_master = [], vi_next = [], vi_confirm = []\<rparr>"

definition initial_editor :: "string option \<Rightarrow> session_store \<Rightarrow> editor_state" where
  "initial_editor ws window =
     \<lparr>ed_workspace = ws, ed_path = None, ed_value = [], ed_dirty = False, ed_loading = False,
      ed_error = None, ed_status = None, ed_saving = False, ed_timer = False, ed_seeded = False,
      ed_fileOpError = None, ed_files = [], ed_openDirs = [], ed_inventoryReady = False, ed_selection = [],
      ed_kdbxPassword = [], ed_kdbxEntries = [], ed_kdbxError = None, ed_kdbxLoading = False,
      ed_kdbxPrompt = False, ed_kdbxRevealed = [], ed_menu = None, ed_modal = None, ed_inputs = no_inputs,
      ed_session = window, ed_jobs = [], ed_puts = [], ed_known = []\<rparr>"

definition is_kdbx :: "string option \<Rightarrow> bool" where
  "is_kdbx p = (case p of None \<Rightarrow> False | Some path \<Rightarrow> extensionForPath path = ''kdbx'')"

definition add_job :: "editor_job \<Rightarrow> editor_state \<Rightarrow> editor_state" where
  "add_job job st = st\<lparr>ed_jobs := ed_jobs st @ [job]\<rparr>"

definition know :: "string \<Rightarrow> string \<Rightarrow> editor_state \<Rightarrow> editor_state" where
  "know path content st = st\<lparr>ed_known := AList.update path content (ed_known st)\<rparr>"

subsection \<open>Answers\<close>

text \<open>
  The ways the code turns an answer that is not \<open>ok\<close> into the message of the error it throws: the
  status, the field \<open>detail\<close> of the body, or the text of the body.
\<close>

definition http_text :: "nat \<Rightarrow> string" where
  "http_text status = ''HTTP '' @ dec_digits status"

definition json_answer :: "http_reply \<Rightarrow> string + jsval" where
  "json_answer res = (case res of
     NetError m \<Rightarrow> Inl m | HttpError status _ _ \<Rightarrow> Inl (http_text status) | HttpOk r \<Rightarrow> r)"

definition plain_error :: "http_reply \<Rightarrow> string option" where
  "plain_error res = (case res of
     NetError m \<Rightarrow> Some m | HttpError status _ _ \<Rightarrow> Some (http_text status) | HttpOk _ \<Rightarrow> None)"

definition detail_text :: "nat \<Rightarrow> jsval option \<Rightarrow> string" where
  "detail_text status body = (case body of
     None \<Rightarrow> http_text status
   | Some data \<Rightarrow> if truthy (jget data ''detail'') then js_str (jget data ''detail'') else http_text status)"

definition detail_error :: "http_reply \<Rightarrow> string option" where
  "detail_error res = (case res of
     NetError m \<Rightarrow> Some m | HttpError status body _ \<Rightarrow> Some (detail_text status body) | HttpOk _ \<Rightarrow> None)"

definition text_answer :: "http_reply \<Rightarrow> string + jsval" where
  "text_answer res = (case res of
     NetError m \<Rightarrow> Inl m
   | HttpError status _ body \<Rightarrow>
       Inl (case body of Inl thrown \<Rightarrow> thrown | Inr t \<Rightarrow> if t = [] then http_text status else t)
   | HttpOk r \<Rightarrow> r)"

definition toUserError :: "string \<Rightarrow> string \<Rightarrow> string" where
  "toUserError message fallback =
     (let raw = trim message in
      if raw = [] then fallback
      else if raw = ''Failed to fetch'' then ''API unreachable. Check web/api connection and reload.''
      else raw)"

subsection \<open>The list of files\<close>

text \<open>The entries of the answer are taken at their declared type.\<close>

definition file_entry :: "jsval \<Rightarrow> FileEntry" where
  "file_entry v =
     \<lparr>fe_path = str_nn (jget v ''path''), fe_is_dir = truthy (jget v ''is_dir''),
      fe_size = (case jget v ''size'' of JNum (Dec m k) \<Rightarrow> Some (m div 10 ^ k) | _ \<Rightarrow> None)\<rparr>"

definition syncInventoryReady :: "FileEntry list \<Rightarrow> editor_state \<Rightarrow> editor_state" where
  "syncInventoryReady nextFiles st =
     st\<lparr>ed_inventoryReady := list_ex (\<lambda>f. fe_path f = ''inventory.yml'') nextFiles\<rparr>"

text \<open>\<open>None\<close> when \<open>refreshFiles\<close> is over without an error.\<close>

definition refreshFiles :: "http_reply \<Rightarrow> editor_state \<Rightarrow> string option \<times> editor_state" where
  "refreshFiles res st =
     (case json_answer res of
        Inl m \<Rightarrow> (Some m, st)
      | Inr data \<Rightarrow>
          let nextFiles = map file_entry (arr_items (jget data ''files''));
              st1 = syncInventoryReady nextFiles (st\<lparr>ed_files := nextFiles\<rparr>)
          in (None, if ed_openDirs st = []
                    then st1\<lparr>ed_openDirs := to_set (map fe_path (filter fe_is_dir nextFiles))\<rparr> else st1))"

definition toggleDir :: "string \<Rightarrow> editor_state \<Rightarrow> editor_state" where
  "toggleDir path st = st\<lparr>ed_openDirs := set_toggle path (ed_openDirs st)\<rparr>"

subsection \<open>Loading a file\<close>

definition lockKdbx :: "editor_state \<Rightarrow> editor_state" where
  "lockKdbx st = st\<lparr>ed_kdbxPassword := [], ed_kdbxEntries := [], ed_kdbxError := None, ed_kdbxRevealed := []\<rparr>"

definition loadKdbx_begin :: "string \<Rightarrow> editor_state \<Rightarrow> editor_state" where
  "loadKdbx_begin path st =
     (if no_id (ed_workspace st) then st
      else add_job (Kdbx_job path) (st\<lparr>ed_kdbxLoading := True, ed_kdbxError := None\<rparr>))"

definition loadKdbx_end :: "string + KdbxEntryView list \<Rightarrow> editor_state \<Rightarrow> editor_state" where
  "loadKdbx_end outcome st =
     (let st1 = (case outcome of
          Inl m \<Rightarrow> st\<lparr>ed_kdbxError := Some m\<rparr> | Inr entries \<Rightarrow> st\<lparr>ed_kdbxEntries := entries\<rparr>)
      in st1\<lparr>ed_kdbxLoading := False, ed_loading := False\<rparr>)"

definition handleKdbxSubmit :: "string \<Rightarrow> editor_state \<Rightarrow> editor_state" where
  "handleKdbxSubmit masterPassword st =
     (let st1 = st\<lparr>ed_kdbxPrompt := False, ed_kdbxPassword := masterPassword\<rparr>
      in case ed_path st of
           None \<Rightarrow> st1
         | Some path \<Rightarrow> if path = [] then st1 else loadKdbx_begin path st1)"

definition closeKdbxPrompt :: "editor_state \<Rightarrow> editor_state" where
  "closeKdbxPrompt st = st\<lparr>ed_kdbxPrompt := False, ed_loading := False\<rparr>"

definition loadFile_begin :: "string \<Rightarrow> editor_state \<Rightarrow> editor_state" where
  "loadFile_begin path st =
     (if no_id (ed_workspace st) then st
      else
        let st1 = st\<lparr>ed_loading := True, ed_error := None, ed_status := None\<rparr>
        in if extensionForPath path = ''kdbx'' then
             (let st2 = st1\<lparr>ed_path := Some path, ed_value := [], ed_dirty := False,
                            ed_kdbxError := None, ed_kdbxEntries := []\<rparr>
              in if ed_kdbxPassword st \<noteq> [] then loadKdbx_begin path st2
                 else st2\<lparr>ed_loading := False, ed_kdbxPrompt := True\<rparr>)
           else add_job (Load_job path) st1)"

definition loadFile_end :: "string \<Rightarrow> http_reply \<Rightarrow> editor_state \<Rightarrow> editor_state" where
  "loadFile_end path res st =
     (case json_answer res of
        Inl m \<Rightarrow> st\<lparr>ed_error := Some m, ed_loading := False\<rparr>
      | Inr data \<Rightarrow>
          let content = str_nn (jget data ''content'')
          in know path content
               (st\<lparr>ed_path := Some path, ed_value := content, ed_dirty := False, ed_loading := False\<rparr>))"

subsection \<open>Saving\<close>

definition validateEditor :: "libs \<Rightarrow> string \<Rightarrow> string option \<Rightarrow> string option" where
  "validateEditor L editorValue currentPath =
     (case currentPath of
        None \<Rightarrow> None
      | Some path \<Rightarrow>
          if path = [] then None
          else if extensionForPath path = ''json''
          then (if json_parse editorValue = None then Some (lib_json_error L editorValue) else None)
          else if extensionForPath path = ''yaml''
          then (case lib_yaml L editorValue of Inl m \<Rightarrow> Some m | Inr _ \<Rightarrow> None)
          else None)"

text \<open>The end of \<open>saveFile\<close> and of the automatic save around it.\<close>

definition save_over :: "string option \<Rightarrow> editor_state \<Rightarrow> editor_state" where
  "save_over err st =
     (let st1 = (case err of None \<Rightarrow> st | Some m \<Rightarrow> st\<lparr>ed_error := Some m\<rparr>)
      in st1\<lparr>ed_loading := False, ed_saving := False\<rparr>)"

definition saveFile_begin :: "libs \<Rightarrow> editor_state \<Rightarrow> editor_state" where
  "saveFile_begin L st =
     (case ed_path st of
        None \<Rightarrow> st\<lparr>ed_saving := False\<rparr>
      | Some path \<Rightarrow>
          (case validateEditor L (ed_value st) (Some path) of
             Some (c # m) \<Rightarrow> st\<lparr>ed_error := Some (c # m), ed_saving := False\<rparr>
           | _ \<Rightarrow>
               let args = \<lparr>sa_path = path, sa_value = ed_value st, sa_selection = ed_selection st,
                           sa_hostVars = hostVarsAliasesFromFiles (lib_lc L) (ed_files st)\<rparr>
               in add_job (Put_job args)
                    (st\<lparr>ed_loading := True, ed_error := None, ed_status := None,
                        ed_puts := ed_puts st @ [(path, ed_value st)]\<rparr>)))"

definition flushPendingEditorSave :: "libs \<Rightarrow> editor_state \<Rightarrow> editor_state" where
  "flushPendingEditorSave L st =
     (let st1 = st\<lparr>ed_timer := False\<rparr>
      in if no_id (ed_workspace st) \<or> no_id (ed_path st) \<or> is_kdbx (ed_path st) \<or> \<not> ed_dirty st then st1
         else saveFile_begin L (st1\<lparr>ed_saving := True\<rparr>))"

definition put_end :: "save_args \<Rightarrow> http_reply \<Rightarrow> editor_state \<Rightarrow> editor_state" where
  "put_end a res st =
     (case plain_error res of
        Some m \<Rightarrow> save_over (Some m) st
      | None \<Rightarrow>
          add_job (Saved_refresh a) (know (sa_path a) (sa_value a)
            ((if sa_path a = ''inventory.yml'' then st\<lparr>ed_seeded := False\<rparr> else st)
               \<lparr>ed_dirty := False, ed_status := Some ''Saved.''\<rparr>)))"

definition yaml_document :: "libs \<Rightarrow> string \<Rightarrow> jsval option" where
  "yaml_document L content = (case lib_yaml L content of Inl _ \<Rightarrow> None | Inr data \<Rightarrow> Some data)"

definition saved_end :: "libs \<Rightarrow> save_args \<Rightarrow> http_reply \<Rightarrow> editor_state \<Rightarrow> editor_state" where
  "saved_end L a res st =
     (case refreshFiles res st of
        (Some m, st1) \<Rightarrow> save_over (Some m) st1
      | (None, st1) \<Rightarrow>
          let merged = mergeRolesByAlias (sa_hostVars a) (extractRolesByAlias (yaml_document L) (sa_value a))
          in save_over None
               (if sa_path a = ''inventory.yml'' \<and> rolesByAliasKey merged \<noteq> rolesByAliasKey (sa_selection a)
                then st1\<lparr>ed_selection := merged\<rparr> else st1))"

text \<open>Every rendering restarts the timer of the automatic save, or stops it.\<close>

definition autosave_effect :: "editor_state \<Rightarrow> editor_state" where
  "autosave_effect st =
     st\<lparr>ed_timer := (\<not> no_id (ed_workspace st) \<and> \<not> no_id (ed_path st) \<and> \<not> is_kdbx (ed_path st) \<and> ed_dirty st)\<rparr>"

definition typed :: "string \<Rightarrow> editor_state \<Rightarrow> editor_state" where
  "typed value st = st\<lparr>ed_value := value, ed_dirty := True, ed_status := None, ed_error := None\<rparr>"

subsection \<open>Creating, renaming and deleting files\<close>

definition strip_slashes :: "string \<Rightarrow> string" where
  "strip_slashes s = dropWhile (\<lambda>c. c = CHR ''/'') s"

definition below :: "string \<Rightarrow> string \<Rightarrow> string" where
  "below baseDir raw = (if baseDir \<noteq> [] \<and> CHR ''/'' \<notin> set raw then baseDir @ ''/'' @ raw else raw)"

text \<open>\<open>input\<close> is what is typed at the prompt, \<open>None\<close> when it is dismissed.\<close>

definition createFile :: "string \<Rightarrow> string option \<Rightarrow> editor_state \<Rightarrow> editor_state" where
  "createFile baseDir input st =
     (case input of
        None \<Rightarrow> st
      | Some text \<Rightarrow>
          let raw = strip_slashes (trim text) in
          if no_id (ed_workspace st) \<or> text = [] then st
          else if raw = [] \<or> ends_with raw ''/'' then st\<lparr>ed_fileOpError := Some ''Provide a valid file path.''\<rparr>
          else add_job (Create_job (below baseDir raw))
                 (st\<lparr>ed_fileOpError := None, ed_puts := ed_puts st @ [(below baseDir raw, [])]\<rparr>))"

definition createDirectory :: "string \<Rightarrow> string option \<Rightarrow> editor_state \<Rightarrow> editor_state" where
  "createDirectory baseDir input st =
     (case input of
        None \<Rightarrow> st
      | Some text \<Rightarrow>
          let raw = strip_slashes (trim text) in
          if no_id (ed_workspace st) \<or> text = [] then st
          else if raw = [] then st\<lparr>ed_fileOpError := Some ''Provide a valid folder path.''\<rparr>
          else add_job Mkdir_job (st\<lparr>ed_fileOpError := None\<rparr>))"

text \<open>The path a renamed entry gets.\<close>

definition renamed_path :: "string \<Rightarrow> string \<Rightarrow> string" where
  "renamed_path path name =
     (let dir = join ''/'' (butlast (split_on (CHR ''/'') path)); normalized = strip_slashes name
      in if CHR ''/'' \<in> set normalized then normalized
         else if dir \<noteq> [] then dir @ ''/'' @ normalized else normalized)"

definition renameFile :: "string \<Rightarrow> string option \<Rightarrow> editor_state \<Rightarrow> editor_state" where
  "renameFile path input st =
     (case input of
        None \<Rightarrow> st
      | Some nextName \<Rightarrow>
          let nextPath = renamed_path path (trim nextName) in
          if no_id (ed_workspace st) \<or> trim nextName = [] \<or> nextPath = path then st
          else add_job (Rename_job path nextPath (ed_path st = Some path)) (st\<lparr>ed_fileOpError := None\<rparr>))"

definition deleteFile :: "string \<Rightarrow> bool \<Rightarrow> bool \<Rightarrow> editor_state \<Rightarrow> editor_state" where
  "deleteFile path isDir confirmed st =
     (if no_id (ed_workspace st) \<or> \<not> confirmed then st
      else add_job (Delete_job path isDir (ed_path st)) (st\<lparr>ed_fileOpError := None\<rparr>))"

definition file_failed :: "string \<Rightarrow> editor_state \<Rightarrow> editor_state" where
  "file_failed m st = st\<lparr>ed_fileOpError := Some m\<rparr>"

definition and_then :: "string option \<times> editor_state \<Rightarrow> (editor_state \<Rightarrow> editor_state) \<Rightarrow> editor_state" where
  "and_then r k = (case r of (Some m, st) \<Rightarrow> file_failed m st | (None, st) \<Rightarrow> k st)"

definition delete_end :: "string \<Rightarrow> bool \<Rightarrow> string option \<Rightarrow> editor_state \<Rightarrow> editor_state" where
  "delete_end path isDir activePath st =
     (let hit = (case activePath of None \<Rightarrow> False
          | Some p \<Rightarrow> p \<noteq> [] \<and> (p = path \<or> (isDir \<and> starts_with p (path @ ''/''))))
      in add_job Deleted_refresh
           (if hit then st\<lparr>ed_path := None, ed_value := [], ed_dirty := False\<rparr> else st))"

subsection \<open>Vault values\<close>

definition openEditorMenu :: "nat \<Rightarrow> editor_state \<Rightarrow> editor_state" where
  "openEditorMenu line st =
     (case findVaultBlock (split_on NL (ed_value st)) (int line) of
        None \<Rightarrow> st | Some block \<Rightarrow> st\<lparr>ed_menu := Some block\<rparr>)"

definition openVaultValueModal :: "vault_mode \<Rightarrow> editor_state \<Rightarrow> editor_state" where
  "openVaultValueModal mode st =
     (case ed_menu st of
        None \<Rightarrow> st
      | Some block \<Rightarrow>
          st\<lparr>ed_menu := None, ed_inputs := no_inputs,
             ed_modal := Some \<lparr>vm_mode = mode, vm_block = block, vm_loading = False, vm_plaintext = [],
                               vm_error = None\<rparr>\<rparr>)"

definition modal_error :: "vault_modal \<Rightarrow> string \<Rightarrow> editor_state \<Rightarrow> editor_state" where
  "modal_error m message st = st\<lparr>ed_modal := Some (m\<lparr>vm_error := Some message, vm_loading := False\<rparr>)\<rparr>"

definition submitVaultValue_begin :: "editor_state \<Rightarrow> editor_state" where
  "submitVaultValue_begin st =
     (case ed_modal st of
        None \<Rightarrow> st
      | Some m \<Rightarrow>
          let ls = split_on NL (ed_value st); inputs = ed_inputs st in
          if no_id (ed_workspace st) then st
          else if extractVaultText ls (vm_block m) = [] then modal_error m ''No vault block found.'' st
          else if vi_master inputs = [] then modal_error m ''Master password is required.'' st
          else if vm_mode m = Change_value \<and> (vi_next inputs = [] \<or> vi_confirm inputs = [])
          then modal_error m ''Enter the new value twice.'' st
          else if vm_mode m = Change_value \<and> vi_next inputs \<noteq> vi_confirm inputs
          then modal_error m ''Values do not match.'' st
          else add_job (Vault_job (ed_workspace st) m inputs ls)
                 (st\<lparr>ed_modal := Some (m\<lparr>vm_loading := True, vm_error := None\<rparr>)\<rparr>))"

definition submitVaultValue_end ::
  "string option \<Rightarrow> vault_modal \<Rightarrow> vault_inputs \<Rightarrow> string list \<Rightarrow> http_reply \<Rightarrow> editor_state \<Rightarrow> editor_state" where
  "submitVaultValue_end ws m inputs ls res st =
     (case text_answer res of
        Inl message \<Rightarrow> modal_error m (toUserError message ''vault operation failed'') st
      | Inr data \<Rightarrow>
          let st1 = st\<lparr>ed_session := setWorkspaceMasterPassword ws (vi_master inputs) (ed_session st)\<rparr>
          in if vm_mode m = Show_value
             then st1\<lparr>ed_modal := Some (m\<lparr>vm_plaintext := str_nn (jget data ''plaintext''), vm_loading := False\<rparr>)\<rparr>
             else st1\<lparr>ed_value := replaceVaultBlock ls (vm_block m) (str_nn (jget data ''vault_text'')),
                      ed_dirty := True, ed_modal := None\<rparr>)"

subsection \<open>Steps\<close>

definition answered :: "libs \<Rightarrow> editor_job \<Rightarrow> http_reply \<Rightarrow> editor_state \<Rightarrow> editor_state" where
  "answered L job res st =
     (case job of
        Load_job path \<Rightarrow> loadFile_end path res st
      | Kdbx_job path \<Rightarrow> st
      | Put_job a \<Rightarrow> put_end a res st
      | Saved_refresh a \<Rightarrow> saved_end L a res st
      | Vault_job ws m inputs ls \<Rightarrow> submitVaultValue_end ws m inputs ls res st
      | Create_job path \<Rightarrow> and_then (plain_error res, st) (\<lambda>st. add_job (Created_refresh path) (know path [] st))
      | Created_refresh path \<Rightarrow> and_then (refreshFiles res st) (loadFile_begin path)
      | Mkdir_job \<Rightarrow> and_then (plain_error res, st) (add_job Mkdir_refresh)
      | Mkdir_refresh \<Rightarrow> and_then (refreshFiles res st) id
      | Rename_job path nextPath active \<Rightarrow>
          and_then (detail_error res, st) (add_job (Renamed_refresh nextPath active))
      | Renamed_refresh nextPath active \<Rightarrow>
          and_then (refreshFiles res st) (if active then loadFile_begin nextPath else id)
      | Delete_job path isDir activePath \<Rightarrow> and_then (detail_error res, st) (delete_end path isDir activePath)
      | Deleted_refresh \<Rightarrow> and_then (refreshFiles res st) id)"

datatype editor_event =
    Open_file string
  | Type_text string
  | Press_save
  | Autosave
  | Answer nat http_reply
  | Unlocked nat "string + KdbxEntryView list"
  | Toggle_dir string
  | Create_file string "string option"
  | Create_dir string "string option"
  | Rename_entry string "string option"
  | Delete_entry string bool bool
  | Context_menu nat
  | Choose_action vault_mode
  | Close_menu
  | Edit_inputs vault_inputs
  | Submit_modal
  | Close_modal
  | Kdbx_submit string
  | Kdbx_cancel
  | Kdbx_lock

fun editor_action :: "libs \<Rightarrow> editor_event \<Rightarrow> editor_state \<Rightarrow> editor_state" where
  "editor_action L (Open_file path) st = loadFile_begin path st"
| "editor_action L (Type_text value) st = typed value st"
| "editor_action L Press_save st = flushPendingEditorSave L st"
| "editor_action L Autosave st = flushPendingEditorSave L st"
| "editor_action L (Answer i res) st =
     answered L (ed_jobs st ! i) res (st\<lparr>ed_jobs := drop_nth i (ed_jobs st)\<rparr>)"
| "editor_action L (Unlocked i outcome) st = loadKdbx_end outcome (st\<lparr>ed_jobs := drop_nth i (ed_jobs st)\<rparr>)"
| "editor_action L (Toggle_dir path) st = toggleDir path st"
| "editor_action L (Create_file baseDir input) st = createFile baseDir input st"
| "editor_action L (Create_dir baseDir input) st = createDirectory baseDir input st"
| "editor_action L (Rename_entry path input) st = renameFile path input st"
| "editor_action L (Delete_entry path isDir confirmed) st = deleteFile path isDir confirmed st"
| "editor_action L (Context_menu line) st = openEditorMenu line st"
| "editor_action L (Choose_action mode) st = openVaultValueModal mode st"
| "editor_action L Close_menu st = st\<lparr>ed_menu := None\<rparr>"
| "editor_action L (Edit_inputs inputs) st = st\<lparr>ed_inputs := inputs\<rparr>"
| "editor_action L Submit_modal st = submitVaultValue_begin st"
| "editor_action L Close_modal st = st\<lparr>ed_modal := None\<rparr>"
| "editor_action L (Kdbx_submit pw) st = handleKdbxSubmit pw st"
| "editor_action L Kdbx_cancel st = closeKdbxPrompt st"
| "editor_action L Kdbx_lock st = lockKdbx st"

text \<open>Leaving a password database forgets what was read of it.\<close>

definition kdbx_effect :: "bool \<Rightarrow> editor_state \<Rightarrow> editor_state" where
  "kdbx_effect before st =
     (if before \<and> \<not> is_kdbx (ed_path st)
      then st\<lparr>ed_kdbxEntries := [], ed_kdbxError := None, ed_kdbxLoading := False, ed_kdbxRevealed := [],
              ed_kdbxPassword := []\<rparr>
      else st)"

definition editor_step :: "libs \<Rightarrow> editor_event \<Rightarrow> editor_state \<Rightarrow> editor_state" where
  "editor_step L e st = autosave_effect (kdbx_effect (is_kdbx (ed_path st)) (editor_action L e st))"

text \<open>
  Which events can happen: the editor shows the text of an open file, the save button is off while the
  text is saved or unchanged, the timer must be running, the dialogs must be open, and an
  answer belongs to an exchange under way.
\<close>

definition is_kdbx_job :: "editor_job \<Rightarrow> bool" where
  "is_kdbx_job job = (case job of Kdbx_job _ \<Rightarrow> True | _ \<Rightarrow> False)"

fun enabled :: "editor_event \<Rightarrow> editor_state \<Rightarrow> bool" where
  "enabled (Type_text value) st = (\<not> no_id (ed_path st) \<and> \<not> is_kdbx (ed_path st))"
| "enabled Press_save st = (\<not> no_id (ed_path st) \<and> \<not> is_kdbx (ed_path st) \<and> ed_dirty st \<and> \<not> ed_loading st)"
| "enabled Autosave st = ed_timer st"
| "enabled (Answer i res) st = (i < length (ed_jobs st) \<and> \<not> is_kdbx_job (ed_jobs st ! i))"
| "enabled (Unlocked i outcome) st = (i < length (ed_jobs st) \<and> is_kdbx_job (ed_jobs st ! i))"
| "enabled (Context_menu line) st = (\<not> no_id (ed_path st) \<and> \<not> is_kdbx (ed_path st))"
| "enabled (Choose_action mode) st = (ed_menu st \<noteq> None)"
| "enabled (Edit_inputs inputs) st = (ed_modal st \<noteq> None)"
| "enabled Submit_modal st = (case ed_modal st of None \<Rightarrow> False | Some m \<Rightarrow> \<not> vm_loading m)"
| "enabled Close_modal st = (ed_modal st \<noteq> None)"
| "enabled (Kdbx_submit pw) st = ed_kdbxPrompt st"
| "enabled Kdbx_cancel st = ed_kdbxPrompt st"
| "enabled Kdbx_lock st = is_kdbx (ed_path st)"
| "enabled _ st = True"

text \<open>Runs: sequences of enabled events.\<close>

inductive editor_run ::
  "libs \<Rightarrow> (editor_event \<Rightarrow> editor_state \<Rightarrow> bool) \<Rightarrow> editor_state \<Rightarrow> editor_event list \<Rightarrow> editor_state \<Rightarrow> bool"
  for L P where
  run_Nil: "editor_run L P st [] st"
| run_Cons: "enabled e st \<Longrightarrow> P e st \<Longrightarrow> editor_run L P (editor_step L e st) es st'
     \<Longrightarrow> editor_run L P st (e # es) st'"

inductive_cases run_NilE: "editor_run L P st [] st'"
inductive_cases run_ConsE: "editor_run L P st (e # es) st'"

lemma run_simps [simp]:
  "editor_run L P st [] st' \<longleftrightarrow> st' = st"
  "editor_run L P st (e # es) st' \<longleftrightarrow> enabled e st \<and> P e st \<and> editor_run L P (editor_step L e st) es st'"
  by (auto elim: run_NilE run_ConsE intro: editor_run.intros)

lemma run_keeps:
  assumes "editor_run L P st es st'" "Q st"
    and "\<And>e s. enabled e s \<Longrightarrow> P e s \<Longrightarrow> Q s \<Longrightarrow> Q (editor_step L e s)"
  shows "Q st'"
  using assms(1,2) by (induction rule: editor_run.induct) (use assms(3) in auto)

end
