(* ===== verification/ServerInvariant.thy ===== *)
theory ServerInvariant
  imports ServerSelection
begin

text \<open>
  What the server actions keep: the events a user can cause as one step function, the invariant
  on the aliases of the servers, and what each action does to the per-server records.
\<close>

subsection \<open>Events\<close>

datatype sel_event =
  Apply_roles "(string \<times> string list) list"
| Update string server_patch
| Add "nat \<Rightarrow> nat" "nat \<Rightarrow> nat" string
| Remove string
| Cleanup string
| Toggle string string
| Toggle_active string
| Toggle_deploy string
| Select_all_deploy
| Deselect_all_deploy
| Toggle_role string
| Select_all_roles
| Deselect_all_roles
| Connection string ConnectionResult
| Ordered "nat \<Rightarrow> nat" "nat \<Rightarrow> nat" OrderedProviderServer
| Render

text \<open>\<open>Render\<close> runs the effects that follow a change of the selection.\<close>

definition run_effects ::
  "(string \<Rightarrow> string \<Rightarrow> int) \<Rightarrow> (string \<Rightarrow> string) \<Rightarrow> selection_state \<Rightarrow> selection_state" where
  "run_effects lc defaultPlan st =
     pruneDeployRoleFilter lc (pruneConnectionResults (pruneDeployedAliases
       (pruneDeploySelection (syncSelectedPlans defaultPlan st))))"

fun sel_step ::
  "(string \<Rightarrow> string \<Rightarrow> int) \<Rightarrow> (string \<Rightarrow> string) \<Rightarrow> sel_event \<Rightarrow> selection_state \<Rightarrow> selection_state" where
  "sel_step lc dp (Apply_roles rs) st = applySelectedRolesByAlias lc dp rs st st"
| "sel_step lc dp (Update alias patch) st = updateServer alias patch st st"
| "sel_step lc dp (Add dc de hint) st = snd (addServer (createServer dc de) hint st st)"
| "sel_step lc dp (Remove alias) st = (case removeServer alias st st of Inl _ \<Rightarrow> st | Inr st' \<Rightarrow> st')"
| "sel_step lc dp (Cleanup alias) st = (case cleanupServer alias st st of Inl _ \<Rightarrow> st | Inr st' \<Rightarrow> st')"
| "sel_step lc dp (Toggle alias rid) st = toggleSelectedForAlias dp alias rid st st"
| "sel_step lc dp (Toggle_active rid) st = toggleSelected dp rid st st"
| "sel_step lc dp (Toggle_deploy alias) st = toggleDeployAlias alias st"
| "sel_step lc dp Select_all_deploy st = selectAllDeployAliases (selectableAliases st) st"
| "sel_step lc dp Deselect_all_deploy st = deselectAllDeployAliases st"
| "sel_step lc dp (Toggle_role rid) st = toggleDeployRole rid st"
| "sel_step lc dp Select_all_roles st = selectAllDeployRoles (inventoryRoleIds lc st) st"
| "sel_step lc dp Deselect_all_roles st = deselectAllDeployRoles st"
| "sel_step lc dp (Connection alias result) st = handleConnectionResult alias result st"
| "sel_step lc dp (Ordered dc de device) st = handleProviderOrderedServer dc de device st st"
| "sel_step lc dp Render st = run_effects lc dp st"

text \<open>The inventory must not name an alias twice, up to white space around it.\<close>

fun event_ok :: "sel_event \<Rightarrow> bool" where
  "event_ok (Apply_roles rs) = distinct (role_aliases rs)"
| "event_ok _ = True"

definition initial_state :: "string option \<Rightarrow> bool \<Rightarrow> selection_state" where
  "initial_state ws ready =
     \<lparr>ss_servers = [], ss_activeAlias = [], ss_selected = [], ss_plans = [], ss_aliasDeletes = [],
      ss_aliasCleanups = [], ss_touched = False, ss_connectionResults = [],
      ss_openCredentialsAlias = None, ss_deploySelection = [], ss_deployRoleFilter = [],
      ss_deployedAliases = [], ss_aliasRenames = [], ss_visualMeta = [], ss_workspaceId = ws,
      ss_inventoryReady = ready\<rparr>"

subsection \<open>The invariant\<close>

text \<open>
  Aliases are not empty and name one server each; the active alias is the alias of a server, and
  it is empty only when there is no server.
\<close>

definition names_ok :: "string list \<Rightarrow> string \<Rightarrow> bool" where
  "names_ok names active \<longleftrightarrow>
     distinct names \<and> [] \<notin> set names \<and> (if names = [] then active = [] else active \<in> set names)"

definition sel_ok :: "selection_state \<Rightarrow> bool" where
  "sel_ok st \<longleftrightarrow> names_ok (aliases st) (ss_activeAlias st)
     \<and> distinct (map fst (ss_selected st)) \<and> distinct (map fst (ss_plans st))
     \<and> distinct (map fst (ss_connectionResults st))
     \<and> distinct (ss_deploySelection st) \<and> distinct (ss_deployRoleFilter st)
     \<and> distinct (ss_deployedAliases st)"

named_theorems sel_defs \<open>definitions of the actions\<close>

lemma aliases_Nil [simp]: "aliases st = [] \<longleftrightarrow> ss_servers st = []"
  by (simp add: aliases_def)

text \<open>Renaming or patching one server in place.\<close>

lemma aliases_update_nth:
  "idx < length ss \<Longrightarrow> map sv_alias (ss[idx := s]) = (map sv_alias ss)[idx := sv_alias s]"
  by (simp add: map_update)

lemma distinct_list_update_new:
  assumes "distinct xs" "idx < length xs" "\<forall>i < length xs. xs ! i = y \<longrightarrow> i = idx"
  shows "distinct (xs[idx := y])"
  using assms by (intro distinct_list_update) (auto simp: in_set_conv_nth nth_list_update)

lemma names_ok_cong:
  "names_ok names active \<Longrightarrow> names' = names \<Longrightarrow> active' = active \<Longrightarrow> names_ok names' active'"
  by simp

lemma names_ok_rename:
  assumes ok: "names_ok names active" and idx: "idx < length names" "names ! idx = a"
    and fresh: "\<forall>i < length names. names ! i = b \<longrightarrow> i = idx" and b: "b \<noteq> []"
  shows "names_ok (names[idx := b]) (if active = a then b else active)"
proof -
  have d: "distinct names"
    using ok by (simp add: names_ok_def)
  have set: "set (names[idx := b]) = insert b (set names - {a})"
    using set_update_distinct [OF d idx(1), of b] idx(2) by simp
  moreover have "distinct (names[idx := b])"
    using d idx(1) fresh by (rule distinct_list_update_new)
  moreover have "active \<in> set names"
    using ok idx(1) by (auto simp: names_ok_def split: if_splits)
  ultimately show ?thesis
    using ok b idx(1) by (auto simp: names_ok_def)
qed

lemma names_ok_snoc:
  "names_ok names active \<Longrightarrow> b \<notin> set names \<Longrightarrow> b \<noteq> [] \<Longrightarrow> names_ok (names @ [b]) b"
  by (auto simp: names_ok_def)

lemma names_ok_filter:
  assumes "names_ok names active"
  shows "names_ok (filter (\<lambda>x. x \<noteq> a) names)
    (if active = a then (case filter (\<lambda>x. x \<noteq> a) names of x # _ \<Rightarrow> x | [] \<Rightarrow> []) else active)"
proof (cases "filter (\<lambda>x. x \<noteq> a) names")
  case Nil
  then have "set names \<subseteq> {a}"
    by (auto simp: filter_empty_conv)
  with assms show ?thesis
    unfolding Nil by (auto simp: names_ok_def split: if_splits)
next
  case (Cons x xs)
  have "set (filter (\<lambda>x. x \<noteq> a) names) = set names - {a}"
    by auto
  then have "set (x # xs) = set names - {a}"
    unfolding Cons .
  moreover have "distinct (x # xs)"
    using assms Cons unfolding names_ok_def by (metis distinct_filter)
  moreover have "names \<noteq> []"
    using Cons by auto
  ultimately show ?thesis
    using assms unfolding Cons by (auto simp: names_ok_def)
qed

text \<open>The servers after the inventory was read: those there were, then the new names in order.\<close>

lemma byAlias_alias:
  "map_of (foldl (\<lambda>m server. AList.update (sv_alias server) server m) [] ss) a = Some s
   \<Longrightarrow> sv_alias s = a"
  using object.put_all_last [of sv_alias "\<lambda>s. s" "[]" ss a]
  by (auto dest: find_Some_iff [THEN iffD1] split: option.splits)

lemma servers_for_aliases:
  assumes "distinct (map sv_alias prev)" "\<forall>n \<in> set names. trim n = n"
  shows "map sv_alias (servers_for lc names prev) =
    map sv_alias prev @ js_sort lc (filter (\<lambda>n. n \<notin> set (map sv_alias prev)) names)"
proof -
  let ?m = "foldl (\<lambda>m server. AList.update (sv_alias server) server m) [] prev"
  have known: "map_of ?m (sv_alias s) = Some s" if "s \<in> set prev" for s
    using object.put_all_distinct [of sv_alias prev s "\<lambda>s. s"] assms(1) that by simp
  have "sv_alias (case map_of ?m a of Some s \<Rightarrow> s | None \<Rightarrow> createServerPlaceholder a) = a"
    if "a \<in> set (map sv_alias prev) \<union> set names" for a
  proof (cases "map_of ?m a")
    case None
    with known that have "a \<in> set names"
      by fastforce
    with None assms(2) show ?thesis
      by (simp add: createServerPlaceholder_def)
  qed (use byAlias_alias in simp)
  then show ?thesis
    using assms(1) by (auto simp: servers_for_def Let_def intro!: map_idI)
qed

lemma alias_placeholder [simp]: "sv_alias (createServerPlaceholder a) = trim a"
  by (simp add: createServerPlaceholder_def)

lemma trim_device [simp]: "trim ''device'' = ''device''"
  by code_simp

lemma role_aliases_trim: "n \<in> set (role_aliases rs) \<Longrightarrow> trim n = n \<and> n \<noteq> []"
  by (auto simp: role_aliases_def set_trimmed_tokens)

lemma sel_ok_apply_roles:
  assumes "sel_ok st" "distinct (role_aliases rs)"
  shows "sel_ok (applySelectedRolesByAlias lc dp rs st st)"
proof (cases "role_aliases rs = []")
  case True
  with assms show ?thesis
    by (auto simp: applySelectedRolesByAlias_def apply_no_roles_def sel_ok_def names_ok_def aliases_def
        normalizePersistedDeviceMeta_def split: if_splits)
next
  case False
  let ?names = "role_aliases rs"
  have "distinct (aliases st)" "names_ok (aliases st) (ss_activeAlias st)"
    using assms(1) by (auto simp: sel_ok_def names_ok_def)
  moreover have "map sv_alias (servers_for lc ?names (ss_servers st)) =
      aliases st @ js_sort lc (filter (\<lambda>n. n \<notin> set (aliases st)) ?names)" (is "_ = ?all")
    using calculation role_aliases_trim by (subst servers_for_aliases) (auto simp: aliases_def)
  moreover have set_all: "set ?all = set (aliases st) \<union> set ?names"
    by auto
  moreover have "distinct ?all"
    using calculation(1) assms(2) by auto
  moreover have "[] \<notin> set ?all"
    using calculation(2) role_aliases_trim unfolding set_all names_ok_def by blast
  moreover have "?all \<noteq> []"
    using False set_all by (metis Un_empty set_empty)
  ultimately have "names_ok ?all (if ss_activeAlias st = [] then hd ?names else ss_activeAlias st)"
    using False hd_in_set [OF False] unfolding names_ok_def set_all by (auto split: if_splits)
  with \<open>map sv_alias _ = ?all\<close> False assms(1) show ?thesis
    by (simp add: applySelectedRolesByAlias_def sel_ok_def aliases_def Let_def)
qed

lemma patched_servers_aliases:
  "map sv_alias (patched_servers a p ss) =
     (case find_index (\<lambda>s. sv_alias s = a) ss of
        None \<Rightarrow> map sv_alias ss
      | Some idx \<Rightarrow>
          (case rename_target a p of
             None \<Rightarrow> map sv_alias ss
           | Some b \<Rightarrow> if \<exists>i < length ss. sv_alias (ss ! i) = b \<and> i \<noteq> idx then map sv_alias ss
                       else (map sv_alias ss)[idx := b]))"
proof (cases "find_index (\<lambda>s. sv_alias s = a) ss")
  case (Some idx)
  have "(map sv_alias ss)[idx := sv_alias (ss ! idx)] = map sv_alias ss"
    by (metis list_update_id map_update)
  with Some show ?thesis
    by (auto simp: patched_servers_def map_update split: option.split)
qed (simp add: patched_servers_def)

lemma rename_target_ne: "rename_target a p = Some b \<Longrightarrow> b \<noteq> [] \<and> b \<noteq> a \<and> trim b = b"
  by (auto simp: rename_target_def Let_def split: if_splits)

lemma log_visual_simps [simp]:
  "ss_servers (log_visual a c e st) = ss_servers st" "aliases (log_visual a c e st) = aliases st"
  "ss_activeAlias (log_visual a c e st) = ss_activeAlias st"
  "ss_selected (log_visual a c e st) = ss_selected st" "ss_plans (log_visual a c e st) = ss_plans st"
  "ss_connectionResults (log_visual a c e st) = ss_connectionResults st"
  "ss_deploySelection (log_visual a c e st) = ss_deploySelection st"
  "ss_deployRoleFilter (log_visual a c e st) = ss_deployRoleFilter st"
  "ss_deployedAliases (log_visual a c e st) = ss_deployedAliases st"
  "ss_aliasRenames (log_visual a c e st) = ss_aliasRenames st"
  "sel_ok (log_visual a c e st) = sel_ok st"
  by (simp_all add: log_visual_def aliases_def sel_ok_def)

lemma distinct_moved [simp]:
  "distinct (map fst m) \<Longrightarrow> distinct (map fst (move_selected a b m))"
  "distinct (map fst m') \<Longrightarrow> distinct (map fst (move_plans a b m'))"
  "distinct (map fst m'') \<Longrightarrow> distinct (map fst (move_result a b m''))"
  by (auto simp: move_selected_def move_plans_def move_result_def Let_def split: option.split)

lemma names_ok_patched:
  assumes ok: "names_ok (map sv_alias ss) active" and a: "a \<noteq> []"
  shows "names_ok (map sv_alias (patched_servers a p ss))
    (case rename_target a p of None \<Rightarrow> active | Some b \<Rightarrow> if active = a then b else active)"
proof (cases "find_index (\<lambda>s. sv_alias s = a) ss")
  case None
  then have "a \<notin> set (map sv_alias ss)"
    by (auto simp: find_index_None)
  with ok a have "active \<noteq> a"
    by (auto simp: names_ok_def split: if_splits)
  with None ok show ?thesis
    by (simp add: patched_servers_aliases split: option.split)
next
  case (Some idx)
  note idx = find_index_Some [OF this]
  show ?thesis
  proof (cases "rename_target a p")
    case None
    with Some ok show ?thesis
      by (simp add: patched_servers_aliases)
  next
    case (Some b)
    note b = rename_target_ne [OF this]
    show ?thesis
    proof (cases "\<exists>i < length ss. sv_alias (ss ! i) = b \<and> i \<noteq> idx")
      case True
      then have "b \<in> set (map sv_alias ss)"
        by (metis image_eqI nth_mem set_map)
      moreover have "ss \<noteq> []"
        using idx by auto
      ultimately have "names_ok (map sv_alias ss) (if active = a then b else active)"
        using ok by (simp add: names_ok_def)
      with True \<open>find_index _ ss = Some idx\<close> Some show ?thesis
        by (simp add: patched_servers_aliases)
    next
      case False
      then have "names_ok ((map sv_alias ss)[idx := b]) (if active = a then b else active)"
        using idx b by (intro names_ok_rename [OF ok]) auto
      with False \<open>find_index _ ss = Some idx\<close> Some show ?thesis
        by (auto simp: patched_servers_aliases split: if_splits)
    qed
  qed
qed

lemma sel_ok_update:
  assumes "sel_ok st"
  shows "sel_ok (updateServer a p st st)"
proof (cases "a = []")
  case False
  have "names_ok (map sv_alias (ss_servers st)) (ss_activeAlias st)"
    using assms by (simp add: sel_ok_def aliases_def)
  from names_ok_patched [OF this False, of p] assms show ?thesis
    using False
    by (cases "rename_target a p")
      (auto simp: updateServer_def Let_def sel_ok_def aliases_def rename_alias_def split: if_splits)
qed (use assms in \<open>simp add: updateServer_def\<close>)

lemma fresh_numbered_fresh: "fresh_numbered existing b i \<notin> set existing"
  by (induction existing b i rule: fresh_numbered.induct) (subst fresh_numbered.simps, simp)

lemma fresh_numbered_shape:
  "\<exists>k \<ge> i. fresh_numbered existing b i = numbered b k \<and> numbered b ` {i..<k} \<subseteq> set existing"
proof (induction existing b i rule: fresh_numbered.induct)
  case (1 existing b i)
  show ?case
  proof (cases "numbered b i \<in> set existing")
    case True
    with 1 obtain k where k: "Suc i \<le> k" "fresh_numbered existing b (Suc i) = numbered b k"
        "numbered b ` {Suc i..<k} \<subseteq> set existing"
      by blast
    moreover have "{i..<k} = insert i {Suc i..<k}"
      using k(1) by auto
    ultimately have "fresh_numbered existing b i = numbered b k"
        "numbered b ` {i..<k} \<subseteq> set existing"
      using True by (auto simp: fresh_numbered.simps [of existing b i])
    with k(1) show ?thesis
      by (intro exI [of _ k]) simp
  next
    case False
    then show ?thesis
      by (intro exI [of _ i]) (simp add: fresh_numbered.simps [of existing b i])
  qed
qed

lemma fresh_alias_fresh: "fresh_alias existing b \<notin> set existing"
  by (simp add: fresh_alias_def fresh_numbered_fresh)

lemma fresh_alias_ne: "b \<noteq> [] \<Longrightarrow> fresh_alias existing b \<noteq> []"
  using fresh_numbered_shape [of 2 existing b] by (auto simp: fresh_alias_def numbered_def)

lemma addServer_alias:
  "fst (addServer create hint cap st) =
     fresh_alias (to_set (aliases cap)) (if normalizedHint hint \<noteq> [] then normalizedHint hint else ''device'')"
  by (simp add: addServer_def Let_def)

lemma addServer_alias_new: "fst (addServer create hint cap st) \<notin> set (aliases cap)
    \<and> fst (addServer create hint cap st) \<noteq> []"
  unfolding addServer_alias
  using fresh_alias_fresh [of "to_set (aliases cap)"] by (auto simp: fresh_alias_ne)

lemma alias_createServer [simp]: "sv_alias (createServer dc de a ss) = a"
  by (simp add: createServer_def)

lemma sel_ok_add:
  assumes "sel_ok st"
  shows "sel_ok (snd (addServer (createServer dc de) hint st st))"
proof -
  let ?a = "fst (addServer (createServer dc de) hint st st)"
  have "names_ok (aliases st @ [?a]) ?a"
    using assms addServer_alias_new by (intro names_ok_snoc) (auto simp: sel_ok_def)
  with assms show ?thesis
    by (simp add: addServer_def Let_def sel_ok_def aliases_def)
qed

lemma sel_ok_remove_client:
  assumes "sel_ok st" "ss_servers st' = ss_servers st" "ss_activeAlias st' = ss_activeAlias st"
    "ss_selected st' = ss_selected st" "ss_plans st' = ss_plans st"
    "ss_connectionResults st' = ss_connectionResults st"
    "ss_deploySelection st' = ss_deploySelection st"
    "ss_deployRoleFilter st' = ss_deployRoleFilter st"
    "ss_deployedAliases st' = ss_deployedAliases st"
  shows "sel_ok (removeServerFromClient a st st')"
proof (cases "a = []")
  case False
  have "names_ok (aliases st) (ss_activeAlias st)"
    using assms(1) by (simp add: sel_ok_def)
  from names_ok_filter [OF this, of a] have
    "names_ok (map sv_alias (filter (\<lambda>s. sv_alias s \<noteq> a) (ss_servers st)))
      (if ss_activeAlias st = a then (case filter (\<lambda>s. sv_alias s \<noteq> a) (ss_servers st) of
         s # _ \<Rightarrow> sv_alias s | [] \<Rightarrow> []) else ss_activeAlias st)"
    unfolding aliases_def filter_map comp_def
    by (cases "filter (\<lambda>s. sv_alias s \<noteq> a) (ss_servers st)") (auto split: if_splits)
  with False assms show ?thesis
    by (auto simp: removeServerFromClient_def sel_ok_def aliases_def Let_def split: if_splits)
qed (use assms in \<open>simp add: removeServerFromClient_def sel_ok_def aliases_def\<close>)

lemma sel_ok_remove:
  assumes "sel_ok st"
  shows "(case removeServer a st st of Inl _ \<Rightarrow> True | Inr st' \<Rightarrow> sel_ok st')"
    "(case cleanupServer a st st of Inl _ \<Rightarrow> True | Inr st' \<Rightarrow> sel_ok st')"
  using assms by (simp_all add: removeServer_def cleanupServer_def sel_ok_remove_client)

lemma aliases_ordered:
  "map sv_alias (normalizePersistedDeviceMeta
      (case find_index (\<lambda>s. sv_alias s = sv_alias patch) ss of
         Some idx \<Rightarrow> ss[idx := connect_ordered patch (ss ! idx)] | None \<Rightarrow> ss @ [patch])) =
   (if sv_alias patch \<in> set (map sv_alias ss) then map sv_alias ss
    else map sv_alias ss @ [sv_alias patch])"
proof (cases "find_index (\<lambda>s. sv_alias s = sv_alias patch) ss")
  case None
  then have "sv_alias patch \<notin> set (map sv_alias ss)"
    by (auto simp: find_index_None)
  with None show ?thesis
    by simp
next
  case (Some idx)
  then have "sv_alias patch \<in> set (map sv_alias ss)"
    using find_index_Some [OF Some] by (metis image_eqI nth_mem set_map)
  moreover have "(map sv_alias ss)[idx := sv_alias (ss ! idx)] = map sv_alias ss"
    by (metis list_update_id map_update)
  ultimately show ?thesis
    using Some by (simp add: map_update connect_ordered_def)
qed

lemma sel_ok_ordered:
  assumes "sel_ok st"
  shows "sel_ok (handleProviderOrderedServer dc de device st st)"
proof (cases "trim (os_alias device) = []")
  case False
  let ?p = "ordered_patch dc de device (ss_servers st)"
  have p: "sv_alias ?p = trim (os_alias device)"
    by (simp add: ordered_patch_def)
  have "names_ok (if sv_alias ?p \<in> set (aliases st) then aliases st else aliases st @ [sv_alias ?p])
      (sv_alias ?p)"
    using assms False p by (auto simp: sel_ok_def names_ok_def aliases_def)
  with False assms show ?thesis
    using aliases_ordered [of "ss_servers st" ?p]
    by (auto simp: handleProviderOrderedServer_def Let_def sel_ok_def aliases_def p split: if_splits)
qed (use assms in \<open>simp add: handleProviderOrderedServer_def\<close>)

lemma distinct_prune_or_all [simp]: "distinct prev \<Longrightarrow> distinct (prune_or_all allowed prev)"
  by (simp add: prune_or_all_def Let_def)

lemma sel_ok_effects: "sel_ok st \<Longrightarrow> sel_ok (run_effects lc dp st)"
  by (auto simp: run_effects_def pruneDeployRoleFilter_def pruneConnectionResults_def
      pruneDeployedAliases_def pruneDeploySelection_def syncSelectedPlans_def sel_ok_def aliases_def
      distinct_map_filter Let_def)

lemma sel_ok_choices [simp]:
  assumes "sel_ok st"
  shows "sel_ok (toggleSelectedForAlias dp a rid cap st)" "sel_ok (toggleSelected dp rid cap st)"
    "sel_ok (toggleDeployAlias a st)" "sel_ok (selectAllDeployAliases as st)"
    "sel_ok (deselectAllDeployAliases st)" "sel_ok (toggleDeployRole rid st)"
    "sel_ok (selectAllDeployRoles rids st)" "sel_ok (deselectAllDeployRoles st)"
    "sel_ok (handleConnectionResult a result st)"
  using assms
  by (simp_all add: toggleSelectedForAlias_def toggleSelected_def toggleDeployAlias_def
      selectAllDeployAliases_def deselectAllDeployAliases_def toggleDeployRole_def
      selectAllDeployRoles_def deselectAllDeployRoles_def handleConnectionResult_def sel_ok_def
      aliases_def Let_def)

lemma sel_ok_step: "event_ok e \<Longrightarrow> sel_ok st \<Longrightarrow> sel_ok (sel_step lc dp e st)"
proof (cases e)
  case (Remove a)
  assume "sel_ok st"
  with sel_ok_remove(1) [OF this, of a] Remove show ?thesis
    by (simp split: sum.splits)
next
  case (Cleanup a)
  assume "sel_ok st"
  with sel_ok_remove(2) [OF this, of a] Cleanup show ?thesis
    by (simp split: sum.splits)
qed (simp_all add: sel_ok_apply_roles sel_ok_update sel_ok_add sel_ok_ordered sel_ok_effects)

interpretation selection: guarded_machine "sel_step lc dp" event_ok sel_ok
  for lc :: "string \<Rightarrow> string \<Rightarrow> int" and dp :: "string \<Rightarrow> string"
  by unfold_locales (rule sel_ok_step)

lemma sel_ok_initial [simp]: "sel_ok (initial_state ws ready)"
  by (simp add: initial_state_def sel_ok_def names_ok_def aliases_def)

text \<open>
  Whatever the user does (adding, renaming, editing, removing, cleaning up, ordering servers,
  toggling roles, reading an inventory, and the effects in between), no two servers have the same
  alias, no alias is empty, the active alias is that of a server whenever there is one, and every
  per-server record has one entry per alias. Here every action is called from the page that is shown; calls
  from earlier renderings are in \<open>SelectionCalls\<close>. An inventory read must not name an alias twice up
  to white space.
\<close>

theorem reachable_selection_ok:
  assumes "list_all event_ok es"
  shows "sel_ok (fold (sel_step lc dp) es (initial_state ws ready))"
  using assms sel_ok_initial by (rule selection.run_ok)

definition demo_events :: "sel_event list" where
  "demo_events =
     [Apply_roles [(''web'', [''wiki'', ''blog'']), ('' db '', [])],
      Update ''web'' (empty_patch\<lparr>sp_alias := Some ''front''\<rparr>),
      Add (\<lambda>i. 0) (\<lambda>i. 0) ''Front'', Toggle ''front-2'' ''wiki'', Remove ''db'', Render]"

theorem reachable_selection_ok_witness:
  "sel_ok (fold (sel_step cu_cmp (\<lambda>_. ''community'')) demo_events (initial_state (Some ''w1'') True))"
  by (rule reachable_selection_ok) code_simp

subsection \<open>What each action does\<close>

text \<open>
  C26: adding a server always ends with an alias no server has: the cleaned hint (or \<open>device\<close>)
  if it is free, and otherwise the hint with the first number from 2 on that is free. The new
  server is active and has no roles.
\<close>

theorem addServer_first_free_alias:
  "let b = (if normalizedHint hint \<noteq> [] then normalizedHint hint else ''device'');
       (alias, st') = addServer create hint cap st
   in alias \<notin> set (aliases cap)
      \<and> (alias = b \<or> (\<exists>k \<ge> 2. alias = numbered b k
           \<and> insert b (numbered b ` {2..<k}) \<subseteq> set (aliases cap)))
      \<and> ss_activeAlias st' = alias \<and> map_of (ss_selected st') alias = Some []"
proof -
  let ?b = "if normalizedHint hint \<noteq> [] then normalizedHint hint else ''device''"
  have "fresh_alias (to_set (aliases cap)) ?b = ?b
      \<or> (\<exists>k \<ge> 2. fresh_alias (to_set (aliases cap)) ?b = numbered ?b k
           \<and> insert ?b (numbered ?b ` {2..<k}) \<subseteq> set (aliases cap))"
    using fresh_numbered_shape [of 2 "to_set (aliases cap)" ?b] by (auto simp: fresh_alias_def)
  then show ?thesis
    using fresh_alias_fresh [of "to_set (aliases cap)" ?b]
    by (simp add: addServer_def Let_def del: insert_subset)
qed

text \<open>
  Removing a server leaves no trace of its alias: it is in none of the records kept per
  server, and the other servers' records are as they were.
\<close>

theorem removeServerFromClient_no_trace:
  fixes st :: selection_state
  assumes "a \<noteq> []"
  shows "let st' = removeServerFromClient a cap st in
    aliases st' = filter (\<lambda>x. x \<noteq> a) (aliases st)
    \<and> map_of (ss_selected st') = (map_of (ss_selected st))(a := None)
    \<and> map_of (ss_plans st') = (map_of (ss_plans st))(a := None)
    \<and> map_of (ss_connectionResults st') = (map_of (ss_connectionResults st))(a := None)
    \<and> set (ss_deploySelection st') = set (ss_deploySelection st) - {a}
    \<and> set (ss_deployedAliases st') = set (ss_deployedAliases st) - {a}
    \<and> ss_openCredentialsAlias st' \<noteq> Some a
    \<and> ss_aliasRenames st' = ss_aliasRenames st"
  using assms
  by (auto simp: removeServerFromClient_def Let_def aliases_def filter_map comp_def delete_conv')

definition demo_selection :: selection_state where
  "demo_selection =
     (initial_state (Some ''w1'') True)\<lparr>
       ss_servers := [createServerPlaceholder ''web'', createServerPlaceholder ''db''],
       ss_activeAlias := ''web'', ss_selected := [(''web'', [''wiki'']), (''db'', [''blog''])],
       ss_plans := [(''web'', [(''wiki'', Some ''pro'')]), (''db'', [(''blog'', Some ''community'')])],
       ss_deploySelection := [''web'']\<rparr>"

theorem removeServerFromClient_no_trace_witness:
  "let st' = removeServerFromClient ''web'' demo_selection demo_selection in
    aliases st' = filter (\<lambda>x. x \<noteq> ''web'') (aliases demo_selection)
    \<and> map_of (ss_selected st') = (map_of (ss_selected demo_selection))(''web'' := None)
    \<and> map_of (ss_plans st') = (map_of (ss_plans demo_selection))(''web'' := None)
    \<and> map_of (ss_connectionResults st') = (map_of (ss_connectionResults demo_selection))(''web'' := None)
    \<and> set (ss_deploySelection st') = set (ss_deploySelection demo_selection) - {''web''}
    \<and> set (ss_deployedAliases st') = set (ss_deployedAliases demo_selection) - {''web''}
    \<and> ss_openCredentialsAlias st' \<noteq> Some ''web''
    \<and> ss_aliasRenames st' = ss_aliasRenames demo_selection"
  by (rule removeServerFromClient_no_trace) simp

text \<open>
  Toggling a role of a server flips exactly that role of exactly that server, keeps the plans
  in step (the role has a plan if and only if it is now selected), and toggling it again restores
  the selection.
\<close>

theorem toggleSelectedForAlias_flips:
  fixes st :: selection_state
  assumes "trim alias \<noteq> []" "trim rid \<noteq> []"
  shows "let st' = toggleSelectedForAlias dp alias rid st st in
    map_of (ss_selected st') = (map_of (ss_selected st))
      (trim alias \<mapsto> set_toggle (trim rid) (selected_for st (trim alias)))
    \<and> (trim rid \<in> set (selected_for st' (trim alias))) = (trim rid \<notin> set (selected_for st (trim alias)))
    \<and> (\<exists>plan. map_of (fields_of (ss_plans st') (trim alias)) (trim rid) = Some (Some plan))
        = (trim rid \<in> set (selected_for st' (trim alias)))
    \<and> set (selected_for (toggleSelectedForAlias dp alias rid st' st') (trim alias))
        = set (selected_for st (trim alias))"
  using assms
  by (auto simp: toggleSelectedForAlias_def Let_def selected_for_def opt_list_def fields_of_def
      set_set_toggle update_conv')

theorem toggleSelectedForAlias_flips_witness:
  "let st' = toggleSelectedForAlias (\<lambda>_. ''community'') ''web'' ''blog'' demo_selection demo_selection in
    map_of (ss_selected st') = (map_of (ss_selected demo_selection))
      (trim ''web'' \<mapsto> set_toggle (trim ''blog'') (selected_for demo_selection (trim ''web'')))
    \<and> (trim ''blog'' \<in> set (selected_for st' (trim ''web'')))
        = (trim ''blog'' \<notin> set (selected_for demo_selection (trim ''web'')))
    \<and> (\<exists>plan. map_of (fields_of (ss_plans st') (trim ''web'')) (trim ''blog'') = Some (Some plan))
        = (trim ''blog'' \<in> set (selected_for st' (trim ''web'')))
    \<and> set (selected_for (toggleSelectedForAlias (\<lambda>_. ''community'') ''web'' ''blog'' st' st') (trim ''web''))
        = set (selected_for demo_selection (trim ''web''))"
  by (rule toggleSelectedForAlias_flips; code_simp)

text \<open>
  Renaming a server to the alias of another one is refused for the server list only. The
  servers keep their aliases, but the roles, the plans and the rename log are moved all the same:
  the server that kept its alias has lost its roles to the other one.
\<close>

theorem updateServer_rename_collision:
  fixes st :: selection_state
  assumes "a \<in> set (aliases st)" "b \<in> set (aliases st)" "a \<noteq> []" "rename_target a p = Some b"
  shows "let st' = updateServer a p st st in
    aliases st' = aliases st \<and> ss_servers st' = ss_servers st
    \<and> map_of (ss_selected st') a = None
    \<and> set (selected_for st' b) = set (selected_for st a) \<union> set (selected_for st b)
    \<and> (a, b) \<in> set (ss_aliasRenames st')"
proof -
  have ab: "a \<noteq> b"
    using assms(4) rename_target_ne by blast
  obtain idx where idx: "find_index (\<lambda>s. sv_alias s = a) (ss_servers st) = Some idx"
    using assms(1) by (cases "find_index (\<lambda>s. sv_alias s = a) (ss_servers st)")
      (auto simp: aliases_def find_index_None)
  obtain i where i: "i < length (ss_servers st)" "sv_alias (ss_servers st ! i) = b"
    using assms(2) by (auto simp: aliases_def in_set_conv_nth)
  with find_index_Some [OF idx] ab have "i \<noteq> idx"
    by auto
  with idx i assms(4) have "patched_servers a p (ss_servers st) = ss_servers st"
    by (auto simp: patched_servers_def)
  then show ?thesis
    using assms(3,4) ab
    by (auto simp: updateServer_def Let_def rename_alias_def aliases_def selected_for_def
        move_selected_def log_visual_def opt_list_def split: option.split)
qed

theorem updateServer_rename_collision_witness:
  "let st' = updateServer ''web'' (empty_patch\<lparr>sp_alias := Some ''db''\<rparr>) demo_selection demo_selection in
    aliases st' = aliases demo_selection \<and> ss_servers st' = ss_servers demo_selection
    \<and> map_of (ss_selected st') ''web'' = None
    \<and> set (selected_for st' ''db'') = set (selected_for demo_selection ''web'') \<union> set (selected_for demo_selection ''db'')
    \<and> (''web'', ''db'') \<in> set (ss_aliasRenames st')"
  by (rule updateServer_rename_collision; code_simp)

lemma map_of_merge_fields:
  "distinct (map fst ext) \<Longrightarrow> map_of (merge_fields base ext) = map_of base ++ map_of ext"
proof (induction ext arbitrary: base)
  case (Cons kv ext)
  obtain k v where kv: "kv = (k, v)"
    by (cases kv)
  have "map_of (merge_fields base (kv # ext)) = (map_of base)(k \<mapsto> v) ++ map_of ext"
    using Cons by (simp add: merge_fields_def kv update_conv')
  also have "\<dots> = (map_of base ++ map_of ext)(k \<mapsto> v)"
    using Cons.prems kv by (intro map_add_upd_left) (simp add: dom_map_of_conv_image_fst)
  finally show ?case
    using kv by (simp only: map_of.simps fst_conv snd_conv map_add_upd)
qed (simp add: merge_fields_def)

text \<open>
  Renaming a server to a free alias renames it in place and takes everything along: its
  roles, its plans (winning over left-over plans under the new alias), its connection result and
  its being active; the rename is logged once.
\<close>

theorem updateServer_rename_moves:
  fixes st :: selection_state
  assumes "distinct (aliases st)" "a \<in> set (aliases st)" "a \<noteq> []" "rename_target a p = Some b"
    and free: "b \<notin> set (aliases st)" "map_of (ss_selected st) b = None"
    and plans: "distinct (map fst (fields_of (ss_plans st) a))"
  shows "let st' = updateServer a p st st in
    aliases st' = map (\<lambda>x. if x = a then b else x) (aliases st)
    \<and> map_of (ss_selected st') = (map_of (ss_selected st))(a := None, b \<mapsto> selected_for st a)
    \<and> map_of (fields_of (ss_plans st') b)
        = map_of (fields_of (ss_plans st) b) ++ map_of (fields_of (ss_plans st) a)
    \<and> map_of (ss_plans st') a = None
    \<and> map_of (ss_connectionResults st') b
        = (if map_of (ss_connectionResults st) a = None then map_of (ss_connectionResults st) b
           else map_of (ss_connectionResults st) a)
    \<and> map_of (ss_connectionResults st') a = None
    \<and> ss_activeAlias st' = (if ss_activeAlias st = a then b else ss_activeAlias st)
    \<and> ss_aliasRenames st' = ss_aliasRenames st @ [(a, b)]"
proof -
  let ?ss = "ss_servers st"
  have ab: "a \<noteq> b"
    using assms(4) rename_target_ne by blast
  obtain idx where idx: "find_index (\<lambda>s. sv_alias s = a) ?ss = Some idx"
    using assms(2) by (cases "find_index (\<lambda>s. sv_alias s = a) ?ss") (auto simp: aliases_def find_index_None)
  note at = find_index_Some [OF idx]
  have "\<not> (\<exists>i < length ?ss. sv_alias (?ss ! i) = b \<and> i \<noteq> idx)"
    using free(1) by (metis aliases_def image_eqI nth_mem set_map)
  then have "map sv_alias (patched_servers a p ?ss) = (map sv_alias ?ss)[idx := b]"
    using idx assms(4) by (auto simp: patched_servers_aliases)
  also have "\<dots> = map (\<lambda>x. if x = a then b else x) (aliases st)"
  proof (rule nth_equalityI)
    fix i assume "i < length ((map sv_alias ?ss)[idx := b])"
    then show "(map sv_alias ?ss)[idx := b] ! i = map (\<lambda>x. if x = a then b else x) (aliases st) ! i"
      using assms(1) at
      by (cases "i = idx") (auto simp: aliases_def nth_list_update distinct_conv_nth)
  qed (simp add: aliases_def)
  finally have names: "map sv_alias (patched_servers a p ?ss) = \<dots>" .
  have sel: "map_of (move_selected a b (ss_selected st))
      = (map_of (ss_selected st))(a := None, b \<mapsto> selected_for st a)"
    using free(2) ab by (auto simp: move_selected_def Let_def selected_for_def fun_eq_iff)
  have pl: "map_of (fields_of (move_plans a b (ss_plans st)) b)
      = map_of (fields_of (ss_plans st) b) ++ map_of (fields_of (ss_plans st) a)"
    using plans ab by (auto simp: move_plans_def Let_def fields_of_def map_of_merge_fields)
  show ?thesis
    using assms(3,4) names sel pl ab
    by (auto simp: updateServer_def Let_def rename_alias_def aliases_def log_visual_def move_plans_def
        move_result_def delete_conv' split: option.split)
qed

theorem updateServer_rename_moves_witness:
  "let st' = updateServer ''web'' (empty_patch\<lparr>sp_alias := Some '' front ''\<rparr>) demo_selection demo_selection in
    aliases st' = map (\<lambda>x. if x = ''web'' then ''front'' else x) (aliases demo_selection)
    \<and> map_of (ss_selected st')
        = (map_of (ss_selected demo_selection))(''web'' := None, ''front'' \<mapsto> selected_for demo_selection ''web'')
    \<and> map_of (fields_of (ss_plans st') ''front'')
        = map_of (fields_of (ss_plans demo_selection) ''front'') ++ map_of (fields_of (ss_plans demo_selection) ''web'')
    \<and> map_of (ss_plans st') ''web'' = None
    \<and> map_of (ss_connectionResults st') ''front''
        = (if map_of (ss_connectionResults demo_selection) ''web'' = None
           then map_of (ss_connectionResults demo_selection) ''front''
           else map_of (ss_connectionResults demo_selection) ''web'')
    \<and> map_of (ss_connectionResults st') ''web'' = None
    \<and> ss_activeAlias st' = (if ss_activeAlias demo_selection = ''web'' then ''front'' else ss_activeAlias demo_selection)
    \<and> ss_aliasRenames st' = ss_aliasRenames demo_selection @ [(''web'', ''front'')]"
  by (rule updateServer_rename_moves; code_simp)

subsection \<open>Reading the inventory\<close>

lemma no_plan_update [simp]:
  "no_plan (AList.update x (Some p) cur) r = (if r = x then p = [] else no_plan cur r)"
  by (simp add: no_plan_def)

lemma map_of_fill:
  "map_of (foldl (\<lambda>cur r. if no_plan cur r then AList.update r (Some (dp r)) cur else cur) cur en) r =
     (if r \<in> set en \<and> no_plan cur r then Some (Some (dp r)) else map_of cur r)"
proof (induction en arbitrary: cur)
  case (Cons x en)
  show ?case
    by (cases "x = r"; cases "no_plan cur x") (auto simp: Cons.IH)
qed simp

lemma map_of_clear:
  "map_of (foldl (\<lambda>cur r. if r \<in> set en then cur else AList.update r None cur) cur ks) r =
     (if r \<in> set ks \<and> r \<notin> set en then Some None else map_of cur r)"
  by (induction ks arbitrary: cur) auto

lemma map_of_sync_plans:
  "map_of (sync_plans dp en cur) r =
     (if r \<in> set en then (if no_plan cur r then Some (Some (dp r)) else map_of cur r)
      else if map_of cur r = None then None else Some None)"
proof -
  have "r \<in> fst ` set m \<longleftrightarrow> map_of m r \<noteq> None" for m :: "(string \<times> string option) list"
    by (simp add: map_of_eq_None_iff)
  then show ?thesis
    unfolding sync_plans_def Let_def map_of_clear set_own_keys by (simp add: map_of_fill)
qed

lemma sync_plans_iff:
  "(\<exists>plan. map_of (sync_plans dp en cur) r = Some (Some plan)) \<longleftrightarrow> r \<in> set en"
  by (auto simp: map_of_sync_plans no_plan_def split: option.splits)

lemma map_of_foldl_update:
  "distinct ks \<Longrightarrow> map_of (foldl (\<lambda>m k. AList.update k (f k (fields_of m k)) m) m ks) k =
     (if k \<in> set ks then Some (f k (fields_of m k)) else map_of m k)"
  by (induction ks arbitrary: m) (auto simp: fields_of_def)

lemma map_of_foldl_put:
  "map_of (foldl (\<lambda>m k. AList.update k (f k) m) m ks) k =
     (if k \<in> set ks then Some (f k) else map_of m k)"
  by (induction ks arbitrary: m) auto

text \<open>
  After the roles of an inventory are applied, every alias it names has a server, has exactly
  the roles listed for it and has a plan for exactly these roles; the servers that were there
  come first and in their order, and aliases it does not name keep their roles.
\<close>

theorem applySelectedRolesByAlias_applies:
  fixes st :: selection_state
  assumes "distinct (aliases st)" "distinct (role_aliases rs)" "n \<in> set (role_aliases rs)"
  shows "let st' = applySelectedRolesByAlias lc dp rs st st in
    n \<in> set (aliases st') \<and> take (length (aliases st)) (aliases st') = aliases st
    \<and> set (aliases st') = set (aliases st) \<union> set (role_aliases rs)
    \<and> selected_for st' n = to_set (roles_for rs n)
    \<and> {r. \<exists>plan. map_of (fields_of (ss_plans st') n) r = Some (Some plan)}
        = set (trimmed_tokens (roles_for rs n))
    \<and> map_of (ss_selected st') |` (- set (role_aliases rs)) = map_of (ss_selected st) |` (- set (role_aliases rs))"
proof -
  let ?st' = "applySelectedRolesByAlias lc dp rs st st"
  have ne: "role_aliases rs \<noteq> []"
    using assms(3) by auto
  have "map sv_alias (servers_for lc (role_aliases rs) (ss_servers st)) =
      aliases st @ js_sort lc (filter (\<lambda>n. n \<notin> set (aliases st)) (role_aliases rs))"
    using assms(1) role_aliases_trim by (subst servers_for_aliases) (auto simp: aliases_def)
  with ne have names: "aliases ?st' =
      aliases st @ js_sort lc (filter (\<lambda>n. n \<notin> set (aliases st)) (role_aliases rs))"
    by (simp add: applySelectedRolesByAlias_def Let_def aliases_def)
  have set: "set (aliases ?st') = set (aliases st) \<union> set (role_aliases rs)"
    unfolding names by auto
  have sel: "map_of (ss_selected ?st') k = (if k \<in> set (role_aliases rs)
      then Some (to_set (roles_for rs k)) else map_of (ss_selected st) k)" for k
    using ne by (simp add: applySelectedRolesByAlias_def Let_def map_of_foldl_put)
  have plans: "map_of (ss_plans ?st') n = Some (sync_plans dp (to_set (trimmed_tokens (roles_for rs n)))
      (fields_of (ss_plans st) n))"
    using ne assms(2,3) map_of_foldl_update [of "role_aliases rs"
        "\<lambda>k. sync_plans dp (to_set (trimmed_tokens (roles_for rs k)))" "ss_plans st" n]
    by (simp add: applySelectedRolesByAlias_def Let_def)
  have "{r. \<exists>plan. map_of (fields_of (ss_plans ?st') n) r = Some (Some plan)}
      = set (trimmed_tokens (roles_for rs n))"
    unfolding fields_of_def [of "ss_plans ?st'"] plans by (simp add: sync_plans_iff)
  with set names sel assms(3) show ?thesis
    by (auto simp: Let_def selected_for_def opt_list_def restrict_map_def fun_eq_iff)
qed

theorem applySelectedRolesByAlias_applies_witness:
  "let st' = applySelectedRolesByAlias cu_cmp (\<lambda>_. ''community'') [('' mail'', [''smtp'']), (''web'', [])]
        demo_selection demo_selection;
       rs = [('' mail'', [''smtp'']), (''web'', [])] in
    ''web'' \<in> set (aliases st')
    \<and> take (length (aliases demo_selection)) (aliases st') = aliases demo_selection
    \<and> set (aliases st') = set (aliases demo_selection) \<union> set (role_aliases rs)
    \<and> selected_for st' ''web'' = to_set (roles_for rs ''web'')
    \<and> {r. \<exists>plan. map_of (fields_of (ss_plans st') ''web'') r = Some (Some plan)}
        = set (trimmed_tokens (roles_for rs ''web''))
    \<and> map_of (ss_selected st') |` (- set (role_aliases rs))
        = map_of (ss_selected demo_selection) |` (- set (role_aliases rs))"
  unfolding Let_def by (rule applySelectedRolesByAlias_applies [unfolded Let_def]; code_simp)

text \<open>
  After the effect on the deploy selection only deployable servers are selected, the selected
  ones that are still deployable stay selected, and the selection is empty only when no server is
  deployable: losing the last selected server selects all of them again.
\<close>

theorem pruneDeploySelection_deployable:
  "let st' = pruneDeploySelection st in
    set (ss_deploySelection st') \<subseteq> set (selectableAliases st)
    \<and> set (ss_deploySelection st) \<inter> set (selectableAliases st) \<subseteq> set (ss_deploySelection st')
    \<and> (ss_deploySelection st' = []) = (selectableAliases st = [])"
proof -
  have "prune_or_all allowed prev = [] \<longleftrightarrow> allowed = []" for allowed prev :: "string list"
  proof (cases "filter (\<lambda>x. x \<in> set allowed) prev = [] \<and> allowed \<noteq> []")
    case True
    then have "set (prune_or_all allowed prev) = set allowed"
      by (simp add: prune_or_all_def)
    with True show ?thesis
      by (metis set_empty)
  next
    case False
    then have "prune_or_all allowed prev = filter (\<lambda>x. x \<in> set allowed) prev"
      by (simp only: prune_or_all_def Let_def if_False)
    moreover have "filter (\<lambda>x. x \<in> set allowed) prev \<noteq> [] \<or> allowed = []"
      using False by blast
    ultimately show ?thesis
      by (auto simp: filter_empty_conv)
  qed
  then show ?thesis
    by (auto simp: pruneDeploySelection_def prune_or_all_def Let_def)
qed

end
