(* ===== verification/DeployRuntime.thy ===== *)
theory DeployRuntime
  imports DeployRequest ServerInvariant
begin

text \<open>
  The deployment of a workspace (\<open>deployment-workspace/useWorkspaceDeploymentRuntime.ts\<close>): the state the
  hook reads and sets, around the state of the servers and their selection. The callback that
  starts a deployment is split at its \<open>await\<close>s: an exchange with the server is an element of
  \<open>rn_jobs\<close> and each answer is an event, with what is typed at a password prompt.
  \<open>rn_sent\<close> and \<open>rn_tests\<close> log the bodies of the requests, \<open>rn_created\<close> the calls of
  \<open>onJobCreated\<close>. \<open>rn_waiting\<close> counts the updates of the deployed servers that wait for
  the next rendering.
\<close>

subsection \<open>State\<close>

record deploy_job =
  dj_fields :: "(string \<times> jsval) list"
  dj_workspace :: "string option"
  dj_second :: bool

record run_state =
  rn_sel :: selection_state
  rn_version :: string
  rn_panel :: string
  rn_deploying :: bool
  rn_deployError :: "string option"
  rn_liveError :: "string option"
  rn_liveJobId :: string
  rn_viewTab :: string
  rn_connectKey :: nat
  rn_cancelKey :: nat
  rn_lastSelection :: "string list option"
  rn_waiting :: nat
  rn_window :: session_store
  rn_jobs :: "deploy_job list"
  rn_sent :: "jsval list"
  rn_created :: "string list"
  rn_tests :: "jsval list"

definition initial_run :: "selection_state \<Rightarrow> session_store \<Rightarrow> run_state" where
  "initial_run sel window =
     \<lparr>rn_sel = sel, rn_version = [], rn_panel = ''store'', rn_deploying = False, rn_deployError = None,
      rn_liveError = None, rn_liveJobId = [], rn_viewTab = ''live-log'', rn_connectKey = 0,
      rn_cancelKey = 0, rn_lastSelection = None, rn_waiting = 0, rn_window = window, rn_jobs = [],
      rn_sent = [], rn_created = [], rn_tests = []\<rparr>"

definition activeServer :: "selection_state \<Rightarrow> ServerState option" where
  "activeServer st =
     (case (if ss_activeAlias st = [] then None
            else find (\<lambda>server. sv_alias server = ss_activeAlias st) (ss_servers st)) of
        Some found \<Rightarrow> Some found
      | None \<Rightarrow> (case ss_servers st of server # _ \<Rightarrow> Some server | [] \<Rightarrow> None))"

definition deploy_args_of :: "run_state \<Rightarrow> deploy_args" where
  "deploy_args_of st =
     (let sel = rn_sel st in
      \<lparr>da_activeServer = activeServer sel, da_selectedRolesByAlias = selectedRolesByAlias sel,
       da_selectedAliases = ss_deploySelection sel, da_selectableAliases = selectableAliases sel,
       da_roleFilter = ss_deployRoleFilter sel, da_workspaceId = ss_workspaceId sel,
       da_inventoryReady = ss_inventoryReady sel, da_infinitoNexusVersion = rn_version st\<rparr>)"

definition deploymentPlan :: "run_state \<Rightarrow> (string \<times> jsval) list option \<times> (string \<times> string) list" where
  "deploymentPlan st = buildDeploymentPayload (deploy_args_of st)"

definition canDeploy :: "run_state \<Rightarrow> bool" where
  "canDeploy st \<longleftrightarrow> snd (deploymentPlan st) = [] \<and> \<not> rn_deploying st"

subsection \<open>Starting a deployment\<close>

definition with_password :: "string \<Rightarrow> (string \<times> jsval) list \<Rightarrow> (string \<times> jsval) list" where
  "with_password pw fs = AList.update ''master_password'' (JStr pw) fs"

definition startDeployment_begin :: "run_state \<Rightarrow> run_state" where
  "startDeployment_begin st =
     (case fst (deploymentPlan st) of
        None \<Rightarrow> st\<lparr>rn_deployError := Some ''Resolve the highlighted items before deploying.''\<rparr>
      | Some payload \<Rightarrow>
          let ws = ss_workspaceId (rn_sel st);
              cached = getWorkspaceMasterPassword ws (rn_window st);
              body = (if cached \<noteq> [] then with_password cached payload else payload)
          in st\<lparr>rn_deployError := None, rn_lastSelection := Some (ss_deploySelection (rn_sel st)),
                rn_deploying := True, rn_viewTab := ''terminal'', rn_liveError := None, rn_liveJobId := [],
                rn_sent := rn_sent st @ [JObj body],
                rn_jobs := rn_jobs st @ [\<lparr>dj_fields = payload, dj_workspace = ws, dj_second = False\<rparr>]\<rparr>)"

text \<open>The end of a deployment call: the message of the error thrown, or the answer of the server.\<close>

definition startDeployment_end :: "string + jsval \<Rightarrow> run_state \<Rightarrow> run_state" where
  "startDeployment_end outcome st =
     (case outcome of
        Inl message \<Rightarrow> st\<lparr>rn_deployError := Some message, rn_deploying := False\<rparr>
      | Inr data \<Rightarrow>
          (let created = str_nn (jget data ''job_id'');
               st' = st\<lparr>rn_deploying := False\<rparr>
           in if created = [] then st'
              else st'\<lparr>rn_liveJobId := created, rn_connectKey := rn_connectKey st + 1,
                       rn_created := rn_created st @ [created]\<rparr>))"

definition needsVaultPassword :: "string \<Rightarrow> bool" where
  "needsVaultPassword message \<longleftrightarrow>
     str_includes (to_lower message) ''master_password is required for workspaces with vault-encrypted values''
     \<or> str_includes (to_lower message) ''invalid master password''"

text \<open>
  An answer ends the call, or (\<open>None\<close>) the password is asked for and the request is sent again. Nothing
  is asked after the second request.
\<close>

definition deploy_answer ::
  "deploy_job \<Rightarrow> http_reply \<Rightarrow> string option \<Rightarrow> run_state \<Rightarrow> (string + jsval) option \<times> run_state" where
  "deploy_answer job res prompt st =
     (case res of
        NetError message \<Rightarrow> (Some (Inl message), st)
      | HttpOk answer \<Rightarrow> (Some answer, st)
      | HttpError status json_body text_body \<Rightarrow>
          (case parseApiError status json_body text_body of
             Inl thrown \<Rightarrow> (Some (Inl thrown), st)
           | Inr message \<Rightarrow>
               if dj_second job \<or> no_id (dj_workspace job) \<or> \<not> needsVaultPassword message
               then (Some (Inl message), st)
               else
                 (case promptWorkspaceMasterPassword (dj_workspace job) prompt
                         (clearWorkspaceMasterPassword (dj_workspace job) (rn_window st)) of
                    (Inl e, window) \<Rightarrow> (Some (Inl e), st\<lparr>rn_window := window\<rparr>)
                  | (Inr pw, window) \<Rightarrow>
                      (None, st\<lparr>rn_window := window,
                         rn_sent := rn_sent st @ [JObj (with_password pw (dj_fields job))]\<rparr>))))"

definition answer_job :: "nat \<Rightarrow> http_reply \<Rightarrow> string option \<Rightarrow> run_state \<Rightarrow> run_state" where
  "answer_job i res prompt st =
     (if i < length (rn_jobs st) then
        let job = rn_jobs st ! i in
        case deploy_answer job res prompt st of
          (None, st') \<Rightarrow> st'\<lparr>rn_jobs := (rn_jobs st)[i := job\<lparr>dj_second := True\<rparr>]\<rparr>
        | (Some outcome, st') \<Rightarrow>
            startDeployment_end outcome
              (st'\<lparr>rn_jobs := take i (rn_jobs st) @ drop (Suc i) (rn_jobs st)\<rparr>)
      else st)"

subsection \<open>The status of a deployment\<close>

definition add_deployed :: "run_state \<Rightarrow> run_state" where
  "add_deployed st =
     st\<lparr>rn_sel := (rn_sel st)\<lparr>ss_deployedAliases :=
          set_add_all (opt_list (rn_lastSelection st)) (ss_deployedAliases (rn_sel st))\<rparr>\<rparr>"

text \<open>
  The update of the deployed servers reads the remembered selection when it runs: at once when
  React has no other update of the component to do (\<open>eager\<close>), else at the next rendering.
\<close>

definition handleDeploymentStatus :: "bool \<Rightarrow> jsval \<Rightarrow> run_state \<Rightarrow> run_state" where
  "handleDeploymentStatus eager status st =
     (let state = jget status ''status''; jobId = jget status ''job_id'' in
      if \<not> truthy state then st
      else if truthy jobId \<and> rn_liveJobId st \<noteq> [] \<and> jobId \<noteq> JStr (rn_liveJobId st) then st
      else
        let st1 = (if state = JStr ''succeeded'' \<and> rn_lastSelection st \<noteq> None
                   then if eager \<and> rn_waiting st = 0 then add_deployed st
                        else st\<lparr>rn_waiting := rn_waiting st + 1\<rparr>
                   else st)
        in if state \<in> set (map JStr [''succeeded'', ''failed'', ''canceled''])
           then st1\<lparr>rn_lastSelection := None\<rparr> else st1)"

text \<open>Rendering runs the updates that wait; running one twice is running it once.\<close>

definition run_waiting :: "run_state \<Rightarrow> run_state" where
  "run_waiting st = (if rn_waiting st = 0 then st else (add_deployed st)\<lparr>rn_waiting := 0\<rparr>)"

subsection \<open>Connections\<close>

definition isAuthMissing :: "ServerState \<Rightarrow> bool" where
  "isAuthMissing server \<longleftrightarrow>
     (if sv_authMethod server = ''private_key'' then trim (sv_privateKey server) = []
      else trim (sv_password server) = [])"

definition hasCredentials :: "ServerState \<Rightarrow> bool" where
  "hasCredentials server \<longleftrightarrow>
     trim (sv_host server) \<noteq> [] \<and> trim (sv_user server) \<noteq> [] \<and> \<not> isAuthMissing server"

definition canTestConnection :: "ServerState \<Rightarrow> bool" where
  "canTestConnection server \<longleftrightarrow>
     trim (sv_host server) \<noteq> [] \<and> trim (sv_user server) \<noteq> []
     \<and> port_in_range (trim (sv_port server)) \<and> \<not> isAuthMissing server"

definition test_body :: "ServerState \<Rightarrow> jsval" where
  "test_body server =
     (let portRaw = trim (sv_port server); portValue = str_num portRaw in
      JObj ([(''host'', JStr (sv_host server))]
        @ (if portRaw \<noteq> [] \<and> num_is_int portValue then [(''port'', JNum portValue)] else [])
        @ [(''user'', JStr (sv_user server)), (''auth_method'', JStr (sv_authMethod server))]
        @ opt_field ''password'' (Some (sv_password server))
        @ opt_field ''private_key'' (Some (sv_privateKey server))
        @ opt_field ''key_passphrase'' (Some (sv_keyPassphrase server))))"

definition testConnectionForServer_begin :: "ServerState \<Rightarrow> run_state \<Rightarrow> run_state" where
  "testConnectionForServer_begin server st =
     (if no_id (ss_workspaceId (rn_sel st)) \<or> \<not> canTestConnection server then st
      else st\<lparr>rn_tests := rn_tests st @ [test_body server]\<rparr>)"

text \<open>The result in the answer: an object with the declared fields.\<close>

definition text_field :: "jsval \<Rightarrow> string option" where
  "text_field v = (case v of JStr s \<Rightarrow> Some s | _ \<Rightarrow> None)"

definition result_of :: "jsval \<Rightarrow> ConnectionResult" where
  "result_of data =
     \<lparr>cr_ping_ok = truthy (jget data ''ping_ok''), cr_ping_error = text_field (jget data ''ping_error''),
      cr_ssh_ok = truthy (jget data ''ssh_ok''), cr_ssh_error = text_field (jget data ''ssh_error'')\<rparr>"

definition failed_result :: "string \<Rightarrow> ConnectionResult" where
  "failed_result message =
     \<lparr>cr_ping_ok = False, cr_ping_error = Some message, cr_ssh_ok = False, cr_ssh_error = Some message\<rparr>"

definition testConnectionForServer_end :: "ServerState \<Rightarrow> http_reply \<Rightarrow> run_state \<Rightarrow> run_state" where
  "testConnectionForServer_end server res st =
     st\<lparr>rn_sel := handleConnectionResult (sv_alias server)
          (case availability_answer res of
             Inl message \<Rightarrow> failed_result message
           | Inr data \<Rightarrow> result_of data) (rn_sel st)\<rparr>"

datatype row_tone = Healthy | Missing_credentials | Untested | Failing

record connection_view =
  cv_tone :: row_tone
  cv_label :: string
  cv_tooltip :: string

definition or_message :: "string option \<Rightarrow> string \<Rightarrow> string" where
  "or_message e d = (let t = trim (opt_else e []) in if t = [] then d else t)"

definition failure_details :: "ConnectionResult \<Rightarrow> string list" where
  "failure_details status =
     (if cr_ping_ok status then [] else [or_message (cr_ping_error status) ''Ping check failed.''])
     @ (if cr_ssh_ok status then [] else [or_message (cr_ssh_error status) ''SSH check failed.''])"

definition getConnectionState ::
  "(string \<times> ConnectionResult) list \<Rightarrow> ServerState \<Rightarrow> connection_view" where
  "getConnectionState connectionResults server =
     (let ready = hasCredentials server; status = map_of connectionResults (sv_alias server);
          connected = \<lparr>cv_tone = Healthy, cv_label = ''Connected'',
                       cv_tooltip = ''Ping and SSH checks succeeded.''\<rparr>
      in if \<not> ready then
           \<lparr>cv_tone = Missing_credentials, cv_label = ''Missing credentials'',
            cv_tooltip = ''No credentials configured. Set password or SSH key before testing.''\<rparr>
         else case status of
           None \<Rightarrow> \<lparr>cv_tone = Untested, cv_label = ''Not tested'',
                    cv_tooltip = ''No connection test result yet.''\<rparr>
         | Some result \<Rightarrow>
             if cr_ping_ok result \<and> cr_ssh_ok result then connected
             else \<lparr>cv_tone = Failing,
                   cv_label = (if \<not> cr_ping_ok result then ''Ping failed'' else ''Connection failed''),
                   cv_tooltip = join '' '' (failure_details result)\<rparr>)"

subsection \<open>The buttons of the live view\<close>

definition requestConnect :: "run_state \<Rightarrow> run_state" where
  "requestConnect st =
     (if trim (rn_liveJobId st) = [] then st
      else st\<lparr>rn_liveError := None, rn_connectKey := rn_connectKey st + 1, rn_viewTab := ''terminal''\<rparr>)"

definition requestCancel :: "run_state \<Rightarrow> run_state" where
  "requestCancel st =
     (if trim (rn_liveJobId st) = [] then st
      else st\<lparr>rn_liveError := None, rn_cancelKey := rn_cancelKey st + 1\<rparr>)"

definition openCredentialsFor :: "string \<Rightarrow> run_state \<Rightarrow> run_state" where
  "openCredentialsFor alias st =
     (let target = trim alias in
      if target = [] then st
      else st\<lparr>rn_sel := (rn_sel st)\<lparr>ss_activeAlias := target, ss_openCredentialsAlias := Some target\<rparr>,
              rn_panel := ''server''\<rparr>)"

definition onLiveJobIdChange :: "string \<Rightarrow> run_state \<Rightarrow> run_state" where
  "onLiveJobIdChange s st = st\<lparr>rn_liveError := None, rn_liveJobId := s\<rparr>"

subsection \<open>The machine\<close>

datatype run_event =
  Press_deploy
| Answer nat http_reply "string option"
| Status_seen bool jsval
| Paint
| Test_begins ServerState
| Test_ends ServerState http_reply
| Press_connect
| Press_cancel
| Open_credentials string
| Type_job_id string
| Choose_version string
| Servers sel_event

text \<open>The deploy button is disabled while \<open>canDeploy\<close> is false.\<close>

fun run_step ::
  "(string \<Rightarrow> string \<Rightarrow> int) \<Rightarrow> (string \<Rightarrow> string) \<Rightarrow> run_event \<Rightarrow> run_state \<Rightarrow> run_state" where
  "run_step lc dp Press_deploy st = (if canDeploy st then startDeployment_begin st else st)"
| "run_step lc dp (Answer i res prompt) st = answer_job i res prompt st"
| "run_step lc dp (Status_seen eager status) st = handleDeploymentStatus eager status st"
| "run_step lc dp Paint st = (run_waiting st)\<lparr>rn_sel := run_effects lc dp (rn_sel (run_waiting st))\<rparr>"
| "run_step lc dp (Test_begins server) st = testConnectionForServer_begin server st"
| "run_step lc dp (Test_ends server res) st = testConnectionForServer_end server res st"
| "run_step lc dp Press_connect st = requestConnect st"
| "run_step lc dp Press_cancel st = requestCancel st"
| "run_step lc dp (Open_credentials alias) st = openCredentialsFor alias st"
| "run_step lc dp (Type_job_id s) st = onLiveJobIdChange s st"
| "run_step lc dp (Choose_version v) st = st\<lparr>rn_version := v\<rparr>"
| "run_step lc dp (Servers e) st = st\<lparr>rn_sel := sel_step lc dp e (rn_sel st)\<rparr>"

subsection \<open>One deployment at a time\<close>

definition job_ready :: "deploy_job \<Rightarrow> bool" where
  "job_ready job \<longleftrightarrow> \<not> no_id (dj_workspace job)
     \<and> jget (JObj (dj_fields job)) ''workspace_id'' = JStr (the (dj_workspace job))
     \<and> jget (JObj (dj_fields job)) ''master_password'' = JUndefined"

definition runs_ok :: "run_state \<Rightarrow> bool" where
  "runs_ok st \<longleftrightarrow> length (rn_jobs st) \<le> 1 \<and> rn_deploying st = (rn_jobs st \<noteq> [])
     \<and> list_all job_ready (rn_jobs st)
     \<and> (\<forall>body \<in> set (rn_sent st). \<exists>ws. ws \<noteq> [] \<and> jget body ''workspace_id'' = JStr ws)"

lemma initial_runs_ok: "runs_ok (initial_run sel window)"
  by (simp add: runs_ok_def initial_run_def)

text \<open>What a payload holds, for the requests made from it.\<close>

lemma plan_fields:
  assumes "fst (buildDeploymentPayload a) = Some fs"
  shows "\<not> no_id (da_workspaceId a)"
    and "jget (JObj fs) ''workspace_id'' = JStr (the (da_workspaceId a))"
    and "jget (JObj fs) ''master_password'' = JUndefined"
  using assms
  by (auto simp: buildDeploymentPayload_def deploy_errors_def Let_def no_id_def opt_else_def
      split: if_splits option.splits)

lemma jget_with_password:
  "jget (JObj (with_password pw fs)) k
     = (if k = ''master_password'' then JStr pw else jget (JObj fs) k)"
  by (simp add: with_password_def map_of_update split: option.splits)

lemma startDeployment_begin_ok:
  assumes "runs_ok st" "\<not> rn_deploying st"
  shows "runs_ok (startDeployment_begin st)"
proof (cases "fst (deploymentPlan st)")
  case None
  then show ?thesis using assms by (simp add: startDeployment_begin_def runs_ok_def)
next
  case (Some fs)
  note f = plan_fields [OF Some [unfolded deploymentPlan_def]]
  obtain ws where ws: "ss_workspaceId (rn_sel st) = Some ws" "ws \<noteq> []"
    using f(1) by (auto simp: deploy_args_of_def Let_def no_id_def)
  with assms f Some show ?thesis
    by (auto simp: startDeployment_begin_def runs_ok_def job_ready_def jget_with_password no_id_def
        deploy_args_of_def Let_def simp del: jget_simps)
qed

lemma deploy_answer_frame:
  assumes "deploy_answer job res prompt st = (r, st')"
  shows "rn_jobs st' = rn_jobs st" "rn_deploying st' = rn_deploying st"
    and "r \<noteq> None \<Longrightarrow> rn_sent st' = rn_sent st"
    and "r = None \<Longrightarrow> \<not> dj_second job \<and> (\<exists>pw. rn_sent st' = rn_sent st @ [JObj (with_password pw (dj_fields job))])"
  using assms
  by (auto simp: deploy_answer_def promptWorkspaceMasterPassword_def Let_def
      split: http_reply.splits sum.splits if_splits)

lemma startDeployment_end_frame [simp]:
  "rn_jobs (startDeployment_end r st) = rn_jobs st" "rn_sent (startDeployment_end r st) = rn_sent st"
  "\<not> rn_deploying (startDeployment_end r st)"
  by (simp_all add: startDeployment_end_def Let_def split: sum.split)

lemma answer_job_none: "rn_jobs st = [] \<Longrightarrow> answer_job i res prompt st = st"
  by (simp add: answer_job_def)

text \<open>An answer to the only call: the call is over, or it waits for its second answer.\<close>

lemma answer_job_cases:
  assumes "rn_jobs st = [job]"
  shows "(rn_jobs (answer_job 0 res prompt st) = [] \<and> \<not> rn_deploying (answer_job 0 res prompt st)
            \<and> rn_sent (answer_job 0 res prompt st) = rn_sent st)
       \<or> (\<not> dj_second job \<and> rn_jobs (answer_job 0 res prompt st) = [job\<lparr>dj_second := True\<rparr>]
            \<and> rn_deploying (answer_job 0 res prompt st) = rn_deploying st
            \<and> (\<exists>pw. rn_sent (answer_job 0 res prompt st)
                 = rn_sent st @ [JObj (with_password pw (dj_fields job))]))"
proof -
  obtain r st' where r: "deploy_answer job res prompt st = (r, st')" by fastforce
  note f = deploy_answer_frame [OF r]
  show ?thesis
    using assms f by (cases r) (auto simp: answer_job_def r)
qed

lemma answer_job_ok:
  assumes "runs_ok st"
  shows "runs_ok (answer_job i res prompt st)"
proof (cases "i < length (rn_jobs st)")
  case False
  then show ?thesis using assms by (simp add: answer_job_def)
next
  case True
  with assms obtain job where job: "rn_jobs st = [job]" "i = 0"
    by (cases "rn_jobs st") (auto simp: runs_ok_def)
  then show ?thesis
    using answer_job_cases [OF job(1), of res prompt] assms
    by (auto simp: runs_ok_def job_ready_def jget_with_password no_id_def simp del: jget_simps)
qed

lemma runs_ok_frame:
  assumes "runs_ok st" "rn_jobs st' = rn_jobs st" "rn_deploying st' = rn_deploying st" "rn_sent st' = rn_sent st"
  shows "runs_ok st'"
  using assms by (simp add: runs_ok_def)

lemma runs_ok_step:
  assumes "runs_ok st"
  shows "runs_ok (run_step lc dp e st)"
proof (cases e)
  case Press_deploy
  then show ?thesis using assms startDeployment_begin_ok by (simp add: canDeploy_def)
next
  case (Answer i res prompt)
  then show ?thesis using assms answer_job_ok by simp
qed (rule runs_ok_frame [OF assms];
     simp add: handleDeploymentStatus_def add_deployed_def run_waiting_def Let_def
       testConnectionForServer_begin_def testConnectionForServer_end_def requestConnect_def
       requestCancel_def openCredentialsFor_def onLiveJobIdChange_def)+

interpretation deployment: machine "run_step lc dp" runs_ok
  for lc :: "string \<Rightarrow> string \<Rightarrow> int" and dp :: "string \<Rightarrow> string"
  by unfold_locales (rule runs_ok_step)

text \<open>
  C7: whatever happens, at most one deployment call is under way, the deploy button says so,
  and two answers of the server end it, with at most one more request, whatever they are.
\<close>

theorem deployment_ends:
  "let st = fold (run_step lc dp) es (initial_run sel window);
       st1 = answer_job 0 res1 prompt1 st;
       st2 = answer_job 0 res2 prompt2 st1
   in length (rn_jobs st) \<le> 1 \<and> rn_deploying st = (rn_jobs st \<noteq> [])
      \<and> rn_jobs st2 = [] \<and> \<not> rn_deploying st2 \<and> length (rn_sent st2) \<le> length (rn_sent st) + 1"
proof -
  define st where "st = fold (run_step lc dp) es (initial_run sel window)"
  have ok: "runs_ok st"
    unfolding st_def by (rule deployment.every_run_ok [OF initial_runs_ok])
  show ?thesis
  proof (cases "rn_jobs st")
    case Nil
    with ok show ?thesis by (simp add: runs_ok_def answer_job_none Let_def flip: st_def)
  next
    case (Cons job rest)
    with ok have job: "rn_jobs st = [job]" by (simp add: runs_ok_def)
    show ?thesis
      using answer_job_cases [OF job, of res1 prompt1] ok job
        answer_job_cases [of "answer_job 0 res1 prompt1 st" "job\<lparr>dj_second := True\<rparr>" res2 prompt2]
      by (auto simp: runs_ok_def Let_def answer_job_none simp flip: st_def)
  qed
qed

lemma get_set_password:
  assumes "trim ws \<noteq> []"
  shows "getWorkspaceMasterPassword (Some ws) (setWorkspaceMasterPassword (Some ws) pw (Some items)) = trim pw"
    and "getWorkspaceMasterPassword (Some ws) (clearWorkspaceMasterPassword (Some ws) (Some items)) = []"
  using assms
  by (auto simp: getWorkspaceMasterPassword_def setWorkspaceMasterPassword_def
      clearWorkspaceMasterPassword_def opt_else_def Let_def map_of_update map_of_delete)

text \<open>
  C8: when the server refuses a deployment for want of the master password, the old password is
  forgotten; a dismissed prompt ends the call with an error and sends nothing, and a typed password
  is remembered, trimmed, and sent with the same payload once more.
\<close>

theorem startDeployment_retry:
  assumes "rn_jobs st = [job]" "\<not> dj_second job" "dj_workspace job = Some ws" "trim ws \<noteq> []"
    and "rn_window st = Some items" "parseApiError status jb tb = Inr message" "needsVaultPassword message"
  shows "let st' = answer_job 0 (HttpError status jb tb) typed st; pw = trim (opt_else typed []) in
    (if pw = [] then
       rn_sent st' = rn_sent st \<and> rn_jobs st' = [] \<and> \<not> rn_deploying st'
       \<and> rn_deployError st' = Some ''Master password is required.''
     else
       rn_sent st' = rn_sent st @ [JObj (with_password pw (dj_fields job))]
       \<and> rn_jobs st' = [job\<lparr>dj_second := True\<rparr>])
    \<and> getWorkspaceMasterPassword (Some ws) (rn_window st') = pw"
proof -
  have "ws \<noteq> []" using assms(4) by auto
  then have id: "\<not> no_id (Some ws)" by (simp add: no_id_def)
  obtain items' where items': "clearWorkspaceMasterPassword (Some ws) (Some items) = Some items'"
    using assms(4) by (simp add: clearWorkspaceMasterPassword_def opt_else_def Let_def)
  then have "getWorkspaceMasterPassword (Some ws) (Some items') = []"
    using get_set_password(2) [OF assms(4), of items] by simp
  with items' show ?thesis
    using assms id get_set_password(1) [OF assms(4)]
    by (auto simp: answer_job_def deploy_answer_def promptWorkspaceMasterPassword_def Let_def
        startDeployment_end_def)
qed

definition demo_run :: run_state where
  "demo_run = (initial_run (initial_state (Some ''w1'') True) (Some [(storageKey (Some ''w1''), ''old'')]))
     \<lparr>rn_deploying := True, rn_jobs := [\<lparr>dj_fields = [(''workspace_id'', JStr ''w1'')],
        dj_workspace = Some ''w1'', dj_second = False\<rparr>]\<rparr>"

definition demo_refusal :: jsval where
  "demo_refusal = JObj [(''detail'', JArr [JObj [(''msg'', JStr '' Invalid master password ''),
     (''loc'', JArr [JStr ''body'', JNum (Dec 0 0)])]])]"

theorem startDeployment_retry_witness:
  "rn_sent (answer_job 0 (HttpError 400 (Some demo_refusal) (Inl [])) (Some '' new '') demo_run)
     = [JObj [(''workspace_id'', JStr ''w1''), (''master_password'', JStr ''new'')]]
   \<and> getWorkspaceMasterPassword (Some ''w1'')
       (rn_window (answer_job 0 (HttpError 400 (Some demo_refusal) (Inl [])) (Some '' new '') demo_run)) = ''new''"
proof -
  define job where "job = \<lparr>dj_fields = [(''workspace_id'', JStr ''w1'')], dj_workspace = Some ''w1'', dj_second = False\<rparr>"
  have pw: "trim (opt_else (Some '' new '') []) = ''new''" by code_simp
  have run: "rn_jobs demo_run = [job]" "rn_sent demo_run = []"
    "rn_window demo_run = Some [(storageKey (Some ''w1''), ''old'')]"
    by (simp_all add: demo_run_def job_def initial_run_def)
  have "\<not> dj_second job" "dj_workspace job = Some ''w1''"
    and fs: "with_password ''new'' (dj_fields job)
      = [(''workspace_id'', JStr ''w1''), (''master_password'', JStr ''new'')]"
    by (simp_all add: job_def with_password_def)
  moreover have "trim ''w1'' \<noteq> []" by code_simp
  moreover have "parseApiError 400 (Some demo_refusal) (Inl []) = Inr ''body.0: Invalid master password''"
    by code_simp
  moreover have "needsVaultPassword ''body.0: Invalid master password''" by code_simp
  ultimately show ?thesis
    using startDeployment_retry [OF run(1) _ _ _ run(3), of "''w1''" 400 "Some demo_refusal" "Inl []"
        "''body.0: Invalid master password''" "Some '' new ''"]
    by (simp add: pw run Let_def)
qed

subsection \<open>Deployed servers\<close>

text \<open>The actions on servers never mark one as deployed.\<close>

lemma deployed_frames [simp]:
  "ss_deployedAliases (log_visual alias color emoji st) = ss_deployedAliases st"
  "ss_deployedAliases (rename_alias alias nextAlias activeAlias st) = ss_deployedAliases st"
  "ss_deployedAliases (toggleSelectedForAlias dp alias rid cap st) = ss_deployedAliases st"
  "ss_deployedAliases (updateServer alias patch cap st) = ss_deployedAliases st"
  "ss_deployedAliases (snd (addServer create hint cap st)) = ss_deployedAliases st"
  "ss_deployedAliases (apply_no_roles st) = ss_deployedAliases st"
  by (simp_all add: log_visual_def rename_alias_def toggleSelectedForAlias_def updateServer_def
      addServer_def apply_no_roles_def Let_def split: option.split)

lemma set_add_all_Nil [simp]: "set_add_all [] s = s"
  by (simp add: set_add_all_def)

lemma sel_step_deployed:
  "set (ss_deployedAliases (sel_step lc dp e st)) \<subseteq> set (ss_deployedAliases st)"
  by (cases e) (auto simp: applySelectedRolesByAlias_def removeServer_def removeServerFromClient_def
      cleanupServer_def toggleSelected_def toggleDeployAlias_def selectAllDeployAliases_def
      deselectAllDeployAliases_def toggleDeployRole_def selectAllDeployRoles_def
      deselectAllDeployRoles_def handleConnectionResult_def handleProviderOrderedServer_def
      run_effects_def pruneDeployRoleFilter_def pruneConnectionResults_def pruneDeployedAliases_def
      pruneDeploySelection_def syncSelectedPlans_def Let_def
      split: if_splits option.splits sum.splits)

fun reports_success :: "run_event \<Rightarrow> bool" where
  "reports_success (Status_seen eager status) \<longleftrightarrow> jget status ''status'' = JStr ''succeeded''"
| "reports_success _ \<longleftrightarrow> False"

definition marked_within :: "string set \<Rightarrow> run_state \<Rightarrow> bool" where
  "marked_within D st \<longleftrightarrow> rn_waiting st = 0 \<and> set (ss_deployedAliases (rn_sel st)) \<subseteq> D"

lemma deploy_answer_sel:
  "rn_sel (snd (deploy_answer job res prompt st)) = rn_sel st
   \<and> rn_waiting (snd (deploy_answer job res prompt st)) = rn_waiting st"
  by (auto simp: deploy_answer_def promptWorkspaceMasterPassword_def Let_def
      split: http_reply.splits sum.splits)

lemma answer_job_sel [simp]:
  "rn_sel (answer_job i res prompt st) = rn_sel st"
  "rn_waiting (answer_job i res prompt st) = rn_waiting st"
  using deploy_answer_sel [of "rn_jobs st ! i" res prompt st]
  by (auto simp: answer_job_def startDeployment_end_def Let_def split: prod.splits option.splits sum.splits)

lemma marked_within_step:
  assumes "\<not> reports_success e" "marked_within D st"
  shows "marked_within D (run_step lc dp e st)"
proof (cases e)
  case (Servers s)
  then show ?thesis
    using assms sel_step_deployed [of lc dp s "rn_sel st"] by (auto simp: marked_within_def)
next
  case Paint
  then show ?thesis
    using assms sel_step_deployed [of lc dp Render "rn_sel st"]
    by (auto simp: marked_within_def run_waiting_def)
qed (use assms in \<open>auto simp: marked_within_def startDeployment_begin_def handleDeploymentStatus_def
      testConnectionForServer_begin_def testConnectionForServer_end_def handleConnectionResult_def
      requestConnect_def requestCancel_def openCredentialsFor_def onLiveJobIdChange_def Let_def
      split: option.splits\<close>)

interpretation unreported: guarded_machine "run_step lc dp" "\<lambda>e. \<not> reports_success e" "marked_within D"
  for lc :: "string \<Rightarrow> string \<Rightarrow> int" and dp :: "string \<Rightarrow> string" and D :: "string set"
  by unfold_locales (rule marked_within_step)

text \<open>
  No server is marked as deployed before the server side has reported a success, whatever is
  started, answered, cancelled, chosen or tested in between.
\<close>

theorem deployed_only_on_success:
  assumes "list_all (\<lambda>e. \<not> reports_success e) es"
  shows "set (ss_deployedAliases (rn_sel (fold (run_step lc dp) es (initial_run sel window))))
    \<subseteq> set (ss_deployedAliases sel)"
proof -
  have "marked_within (set (ss_deployedAliases sel)) (initial_run sel window)"
    by (simp add: marked_within_def initial_run_def)
  from unreported.run_ok [OF assms this] show ?thesis by (simp add: marked_within_def)
qed

theorem deployed_only_on_success_witness:
  "set (ss_deployedAliases (rn_sel (fold (run_step cu_cmp (\<lambda>_. []))
      [Press_deploy, Status_seen True (JObj [(''status'', JStr ''failed'')]), Paint]
      (initial_run (initial_state (Some ''w1'') True) None)))) \<subseteq> {}"
  using deployed_only_on_success [of "[Press_deploy, Status_seen True (JObj [(''status'', JStr ''failed'')]), Paint]"
      cu_cmp "\<lambda>_. []" "initial_state (Some ''w1'') True" None]
  by (simp add: initial_state_def)

text \<open>
  A success marks the chosen servers only when React runs the update at once; when it waits
  for the next rendering, the remembered selection is cleared before the update reads it, and
  no server is marked.
\<close>

theorem late_success_forgotten:
  assumes "jget status ''status'' = JStr ''succeeded''" "jget status ''job_id'' = JStr (rn_liveJobId st)"
    and "rn_lastSelection st = Some chosen" "rn_waiting st = 0"
  shows "set (ss_deployedAliases (rn_sel (run_waiting (handleDeploymentStatus True status st))))
           = set (ss_deployedAliases (rn_sel st)) \<union> set chosen
    \<and> rn_sel (run_waiting (handleDeploymentStatus False status st)) = rn_sel st"
  using assms
  by (auto simp: handleDeploymentStatus_def run_waiting_def add_deployed_def opt_list_def Let_def)

definition demo_started :: run_state where
  "demo_started = demo_run\<lparr>rn_liveJobId := ''j1'', rn_lastSelection := Some [''web'']\<rparr>"

theorem late_success_forgotten_witness:
  "let status = JObj [(''job_id'', JStr ''j1''), (''status'', JStr ''succeeded'')] in
   set (ss_deployedAliases (rn_sel (run_waiting (handleDeploymentStatus True status demo_started)))) = {''web''}
   \<and> ss_deployedAliases (rn_sel (run_waiting (handleDeploymentStatus False status demo_started))) = []"
  using late_success_forgotten [of "JObj [(''job_id'', JStr ''j1''), (''status'', JStr ''succeeded'')]"
      demo_started "[''web'']"]
  by (simp add: demo_started_def demo_run_def initial_run_def initial_state_def Let_def)

end
