(* ===== verification/HostVars.thy ===== *)
theory HostVars
  imports WorkspaceEditor DeployRuntime InventorySync
begin

text \<open>
  The variables of a host (\<open>host_vars/<alias>.yml\<close>) and the server they belong to: reading them
  (\<open>parseHostVarsValues\<close> and its two patches in \<open>lib/device_meta.js\<close>), writing the fields of a server into the
  document (\<open>syncHostVarsFromCredentials\<close> of \<open>workspace-panel/actions/core/sync.ts\<close>), writing its colour and
  emoji, and filling the servers from all the files of a workspace (\<open>useWorkspaceServerMetadata.ts\<close>).
\<close>

subsection \<open>Reading\<close>

definition node_of :: "jsval \<Rightarrow> jsval" where
  "node_of v = (if is_obj v then v else JObj [])"

text \<open>The first of the values that is a string.\<close>

definition first_string :: "jsval list \<Rightarrow> string" where
  "first_string vs = (case find (\<lambda>v. case v of JStr _ \<Rightarrow> True | _ \<Rightarrow> False) vs of Some (JStr s) \<Rightarrow> s | _ \<Rightarrow> [])"

definition requirement_storage :: "jsval \<Rightarrow> string option" where
  "requirement_storage v =
     (case v of
        JNum n \<Rightarrow> (case num_floor n of Dec m _ \<Rightarrow> Some (int_str (max 0 m)) | _ \<Rightarrow> None)
      | _ \<Rightarrow> normalizeRequirementStorageGb (str_or v))"

definition port_text :: "jsval \<Rightarrow> string" where
  "port_text v =
     (case v of
        JNum n \<Rightarrow> if num_finite n then num_str n else []
      | JStr s \<Rightarrow> if num_is_int (str_num (trim s)) then num_str (str_num (trim s)) else []
      | _ \<Rightarrow> [])"

record host_values =
  hv_host :: string
  hv_user :: string
  hv_description :: string
  hv_primaryDomain :: string
  hv_color :: string
  hv_logoEmoji :: string
  hv_serverType :: "string option"
  hv_storageGb :: "string option"
  hv_location :: "string option"
  hv_port :: string

text \<open>The three requirements are options: \<open>None\<close> where the code's flag \<open>has...\<close> is false.\<close>

definition parseHostVarsValues :: "jsval \<Rightarrow> host_values" where
  "parseHostVarsValues data =
     (let node = node_of data;
          req = node_of (jget node ''server_requirements'');
          device = jget (jget node ''infinito'') ''device'';
          has = (\<lambda>k. jhas req k \<or> jhas node k);
          raw = (\<lambda>k. if jhas req k then jget req k else jget node k)
      in \<lparr>hv_host = trim (first_string [jget node ''ansible_host'']),
          hv_user = trim (first_string [jget node ''ansible_user'']),
          hv_description = first_string [jget node ''description''],
          hv_primaryDomain = first_string [jget node ''DOMAIN_PRIMARY''],
          hv_color = opt_else (normalizeMetaColor (first_string [jget node ''color'', jget device ''color''])) [],
          hv_logoEmoji = opt_else (normalizeDeviceEmoji (first_string [jget (jget node ''logo'') ''emoji'',
            jget node ''logoEmoji'', jget node ''logo_emoji'', jget device ''logo_emoji'', jget device ''logoEmoji''])) [],
          hv_serverType = (if has ''server_type''
            then Some (opt_else (normalizeRequirementServerType (str_or (raw ''server_type''))) []) else None),
          hv_storageGb = (if has ''storage_gb''
            then Some (opt_else (requirement_storage (raw ''storage_gb'')) []) else None),
          hv_location = (if has ''location''
            then Some (opt_else (normalizeRequirementLocation (str_or (raw ''location''))) []) else None),
          hv_port = port_text (jget node ''ansible_port'')\<rparr>)"

definition parseHostVarsServerPatchData :: "jsval \<Rightarrow> server_patch" where
  "parseHostVarsServerPatchData data =
     (let v = parseHostVarsValues data in
      empty_patch\<lparr>
        sp_host := str_opt (hv_host v), sp_user := str_opt (hv_user v), sp_port := str_opt (hv_port v),
        sp_description := Some (hv_description v), sp_primaryDomain := Some (hv_primaryDomain v),
        sp_requirementServerType := hv_serverType v, sp_requirementStorageGb := hv_storageGb v,
        sp_requirementLocation := hv_location v,
        sp_color := str_opt (hv_color v), sp_logoEmoji := str_opt (hv_logoEmoji v)\<rparr>)"

subsection \<open>The credentials of the active server\<close>

record CredentialsState =
  cr_alias :: string
  cr_description :: string
  cr_primaryDomain :: string
  cr_requirementServerType :: string
  cr_requirementStorageGb :: string
  cr_requirementLocation :: string
  cr_host :: string
  cr_port :: string
  cr_user :: string
  cr_color :: string
  cr_logoEmoji :: string
  cr_authMethod :: string

definition credentials_from :: "ServerState option \<Rightarrow> CredentialsState" where
  "credentials_from server =
     (let get = (\<lambda>f d. case server of None \<Rightarrow> d | Some s \<Rightarrow> f s) in
      \<lparr>cr_alias = get sv_alias [], cr_description = get sv_description [],
       cr_primaryDomain = get sv_primaryDomain [],
       cr_requirementServerType = get sv_requirementServerType ''vps'',
       cr_requirementStorageGb = get sv_requirementStorageGb ''200'',
       cr_requirementLocation = get sv_requirementLocation ''Germany'',
       cr_host = get sv_host [], cr_port = get sv_port [], cr_user = get sv_user [],
       cr_color = get sv_color [], cr_logoEmoji = get sv_logoEmoji [],
       cr_authMethod = get sv_authMethod ''password''\<rparr>)"

definition credentials :: "selection_state \<Rightarrow> CredentialsState" where
  "credentials sel = credentials_from (activeServer sel)"

definition panelAlias :: "selection_state \<Rightarrow> string" where
  "panelAlias sel = trim (cr_alias (credentials sel))"

definition activeRoles :: "selection_state \<Rightarrow> string list" where
  "activeRoles sel = normalizeRoles (roles_of (selectedRolesByAlias sel) (panelAlias sel))"

definition new_text :: "bool \<Rightarrow> string \<Rightarrow> string \<Rightarrow> string option" where
  "new_text cond v w = (if cond \<and> v \<noteq> w then Some v else None)"

definition new_requirement :: "string option \<Rightarrow> string \<Rightarrow> string option" where
  "new_requirement v w = (case v of None \<Rightarrow> None | Some t \<Rightarrow> new_text True t w)"

definition buildCredentialsPatchFromHostVarsData :: "jsval \<Rightarrow> CredentialsState \<Rightarrow> server_patch" where
  "buildCredentialsPatchFromHostVarsData data c =
     (let v = parseHostVarsValues data in
      empty_patch\<lparr>
        sp_host := new_text (cr_host c = []) (hv_host v) [],
        sp_user := new_text (hv_user v \<noteq> [] \<and> (cr_user c = [] \<or> cr_user c = ''root'')) (hv_user v) ''root'',
        sp_port := new_text (hv_port v \<noteq> [] \<and> (cr_port c = [] \<or> cr_port c = ''22'')) (hv_port v) ''22'',
        sp_description := new_text True (hv_description v) (cr_description c),
        sp_primaryDomain := new_text True (hv_primaryDomain v) (cr_primaryDomain c),
        sp_requirementServerType := new_requirement (hv_serverType v) (cr_requirementServerType c),
        sp_requirementStorageGb := new_requirement (hv_storageGb v) (cr_requirementStorageGb c),
        sp_requirementLocation := new_requirement (hv_location v) (cr_requirementLocation c),
        sp_color := new_text (hv_color v \<noteq> []) (hv_color v) (cr_color c),
        sp_logoEmoji := new_text (hv_logoEmoji v \<noteq> []) (hv_logoEmoji v) (cr_logoEmoji c)\<rparr>)"

subsection \<open>Writing\<close>

type_synonym edit = "(string \<times> jsval) list \<times> bool"

definition assign_text :: "string \<Rightarrow> string \<Rightarrow> edit \<Rightarrow> edit" where
  "assign_text k v = (\<lambda>(m, changed).
     if jget (JObj m) k = JStr v then (m, changed) else (AList.update k (JStr v) m, True))"

definition drop_key :: "string \<Rightarrow> edit \<Rightarrow> edit" where
  "drop_key k = (\<lambda>(m, changed). if jhas (JObj m) k then (AList.delete k m, True) else (m, changed))"

definition text_if_any :: "string \<Rightarrow> string \<Rightarrow> edit \<Rightarrow> edit" where
  "text_if_any k v e = (if v = [] then e else assign_text k v e)"

definition text_or_drop :: "string \<Rightarrow> string \<Rightarrow> edit \<Rightarrow> edit" where
  "text_or_drop k v e = (if v = [] then drop_key k e else assign_text k v e)"

definition logo_fields :: "(string \<times> jsval) list \<Rightarrow> (string \<times> jsval) list" where
  "logo_fields m = (if is_object (jget (JObj m) ''logo'') then jentries (jget (JObj m) ''logo'') else [])"

definition put_logo :: "string \<Rightarrow> edit \<Rightarrow> edit" where
  "put_logo logoEmoji = (\<lambda>(m, changed).
     if logoEmoji \<noteq> [] then
       (let (logo, changed') = assign_text ''emoji'' logoEmoji (logo_fields m, changed)
        in (AList.update ''logo'' (JObj logo) m, changed'))
     else if jhas (jget (JObj m) ''logo'') ''emoji'' then
       (let nextLogo = AList.delete ''emoji'' (logo_fields m)
        in (if nextLogo = [] then AList.delete ''logo'' m else AList.update ''logo'' (JObj nextLogo) m, True))
     else (m, changed))"

fun same_num :: "num \<Rightarrow> num \<Rightarrow> bool" where
  "same_num (Dec m k) (Dec n l) = (m * 10 ^ l = n * 10 ^ k)"
| "same_num NaN b = False"
| "same_num a b = (a = b)"

definition existing_port :: "jsval \<Rightarrow> num option" where
  "existing_port v =
     (case v of JNum n \<Rightarrow> Some n | _ \<Rightarrow> if num_is_int (to_num v) then Some (to_num v) else None)"

definition put_port :: "string \<Rightarrow> string \<Rightarrow> edit \<Rightarrow> edit" where
  "put_port prevPort portRaw = (\<lambda>(m, changed).
     if portRaw \<noteq> [] then
       (let portNum = str_num portRaw in
        if num_is_int portNum \<and> \<not> num_lt_int portNum 1 \<and> \<not> num_gt_int portNum 65535
          \<and> \<not> (case existing_port (jget (JObj m) ''ansible_port'') of Some n \<Rightarrow> same_num n portNum | None \<Rightarrow> False)
        then (AList.update ''ansible_port'' (JNum portNum) m, True) else (m, changed))
     else if prevPort \<noteq> [] then drop_key ''ansible_port'' (m, changed) else (m, changed))"

definition vars_color :: "CredentialsState \<Rightarrow> string" where
  "vars_color c = opt_else (normalizeDeviceColor (cr_color c)) []"

definition vars_emoji :: "CredentialsState \<Rightarrow> string" where
  "vars_emoji c = opt_else (normalizeDeviceEmoji (cr_logoEmoji c)) []"

definition host_vars_edit :: "CredentialsState \<Rightarrow> string \<Rightarrow> (string \<times> jsval) list \<Rightarrow> edit" where
  "host_vars_edit c prevPort m =
     put_port prevPort (trim (cr_port c))
      (put_logo (vars_emoji c)
      (text_if_any ''color'' (vars_color c)
      (fold drop_key [''server_requirements'', ''server_type'', ''storage_gb'', ''location'']
      (text_or_drop ''DOMAIN_PRIMARY'' (trim (cr_primaryDomain c))
      (text_or_drop ''description'' (trim (cr_description c))
      (text_if_any ''ansible_user'' (trim (cr_user c))
      (text_if_any ''ansible_host'' (trim (cr_host c)) (m, False))))))))"

definition anything_to_write :: "CredentialsState \<Rightarrow> bool" where
  "anything_to_write c \<longleftrightarrow>
     trim (cr_host c) \<noteq> [] \<or> trim (cr_user c) \<noteq> [] \<or> trim (cr_description c) \<noteq> []
     \<or> trim (cr_primaryDomain c) \<noteq> [] \<or> vars_color c \<noteq> [] \<or> vars_emoji c \<noteq> []"

text \<open>
  What happens to a document that was read: the first assignment to a text or a number throws, fields assigned to
  a sequence count as a change but are not part of it when it is printed.
\<close>

datatype vars_outcome = Throws | Unchanged | Changed jsval

definition host_vars_outcome :: "CredentialsState \<Rightarrow> string \<Rightarrow> jsval \<Rightarrow> vars_outcome" where
  "host_vars_outcome c prevPort data =
     (case data of
        JObj m \<Rightarrow> (let (m', changed) = host_vars_edit c prevPort m in if changed then Changed (JObj m') else Unchanged)
      | JArr vs \<Rightarrow> Changed (JArr vs)
      | _ \<Rightarrow> Throws)"

subsection \<open>Colour and emoji of a device\<close>

text \<open>The document before the change: empty when there is no such file, \<open>None\<close> when the callback gives up.\<close>

definition visual_fields :: "libs \<Rightarrow> http_reply \<Rightarrow> (string \<times> jsval) list option" where
  "visual_fields L res =
     (case res of
        NetError _ \<Rightarrow> None
      | HttpError status _ _ \<Rightarrow> if status = 404 then Some [] else None
      | HttpOk (Inl _) \<Rightarrow> None
      | HttpOk (Inr payload) \<Rightarrow>
          (case lib_yaml L (str_nn (jget payload ''content'')) of
             Inl _ \<Rightarrow> None
           | Inr parsed \<Rightarrow> Some (obj_fields parsed)))"

definition visual_color :: "string option \<Rightarrow> edit \<Rightarrow> edit" where
  "visual_color color e =
     (case color of None \<Rightarrow> e | Some c \<Rightarrow> text_or_drop ''color'' (opt_else (normalizeDeviceColor c) []) e)"

definition visual_logo :: "string option \<Rightarrow> edit \<Rightarrow> edit" where
  "visual_logo logoEmoji = (\<lambda>(m, changed).
     case logoEmoji of
       None \<Rightarrow> (m, changed)
     | Some e \<Rightarrow>
         (let nextLogo = opt_else (normalizeDeviceEmoji e) [];
              logo = jget (JObj m) ''logo'';
              logoNode = own_entries (obj_fields logo);
              currentLogo = first_string [jget (JObj logoNode) ''emoji'']
          in if nextLogo \<noteq> [] then
               (if currentLogo \<noteq> nextLogo
                then (AList.update ''logo'' (JObj (AList.update ''emoji'' (JStr nextLogo) logoNode)) m, True)
                else if \<not> is_obj logo then (AList.update ''logo'' (JObj logoNode) m, True) else (m, changed))
             else if jhas (JObj logoNode) ''emoji'' then
               (let rest = AList.delete ''emoji'' logoNode
                in (if rest = [] then AList.delete ''logo'' m else AList.update ''logo'' (JObj rest) m, True))
             else (m, changed)))"

text \<open>The document that is written, if any.\<close>

definition persistDeviceVisualMetaForAlias ::
  "libs \<Rightarrow> string option \<Rightarrow> string \<times> string option \<times> string option \<Rightarrow> http_reply \<Rightarrow> (string \<times> jsval) option" where
  "persistDeviceVisualMetaForAlias L workspaceId = (\<lambda>(alias, color, logoEmoji) res.
     if no_id workspaceId \<or> trim alias = [] \<or> (color = None \<and> logoEmoji = None) then None
     else case visual_fields L res of
       None \<Rightarrow> None
     | Some m \<Rightarrow>
         (let (m', changed) = visual_logo logoEmoji (visual_color color (m, False))
          in if changed then Some (''host_vars/'' @ sanitizeAliasFilename (trim alias) @ ''.yml'', JObj m') else None))"

subsection \<open>Filling the servers from the files\<close>

definition serverAliasKey :: "(string \<Rightarrow> string \<Rightarrow> int) \<Rightarrow> ServerState list \<Rightarrow> string" where
  "serverAliasKey lc servers = join ''|'' (js_sort lc (to_set (nonempties (map (\<lambda>s. trim (sv_alias s)) servers))))"

definition key_aliases :: "string \<Rightarrow> string list" where
  "key_aliases key = nonempties (map trim (split_on (CHR ''|'') key))"

definition hostVarsPathByAlias :: "FileEntry list \<Rightarrow> (string \<times> string) list" where
  "hostVarsPathByAlias files =
     foldl (\<lambda>m entry.
         case (if fe_is_dir entry then None else host_vars_name (fe_path entry)) of
           None \<Rightarrow> m
         | Some name \<Rightarrow>
             (let alias = trim name
              in if alias = [] \<or> map_of m alias \<noteq> None then m else AList.update alias (fe_path entry) m)) [] files"

text \<open>
  The files are fetched together; \<open>reply path\<close> is the answer for one of them. An answer that is refused is skipped,
  one that fails or cannot be parsed makes the whole callback throw (\<open>Inl\<close>).
\<close>

definition host_file ::
  "libs \<Rightarrow> http_reply \<Rightarrow> string + server_patch option" where
  "host_file L res =
     (case res of
        NetError m \<Rightarrow> Inl m
      | HttpError _ _ _ \<Rightarrow> Inr None
      | HttpOk (Inl m) \<Rightarrow> Inl m
      | HttpOk (Inr fileData) \<Rightarrow>
          (case lib_yaml L (str_nn (jget fileData ''content'')) of
             Inl m \<Rightarrow> Inl m
           | Inr parsed \<Rightarrow> Inr (Some (parseHostVarsServerPatchData (coalesce parsed (JObj []))))))"

fun host_files ::
  "libs \<Rightarrow> (string \<Rightarrow> string option) \<Rightarrow> (string \<Rightarrow> http_reply) \<Rightarrow> string list
   \<Rightarrow> string + (string \<times> server_patch) list" where
  "host_files L path reply [] = Inr []"
| "host_files L path reply (alias # rest) =
     (case path alias of
        None \<Rightarrow> host_files L path reply rest
      | Some p \<Rightarrow>
          (case host_file L (reply p) of
             Inl m \<Rightarrow> Inl m
           | Inr None \<Rightarrow> host_files L path reply rest
           | Inr (Some patch) \<Rightarrow>
               (case host_files L path reply rest of
                  Inl m \<Rightarrow> Inl m
                | Inr ps \<Rightarrow> Inr ((alias, patch) # ps))))"

text \<open>Requirements a file still holds, to be moved to the database.\<close>

definition fallback_requirements :: "server_patch \<Rightarrow> (string \<times> jsval) list" where
  "fallback_requirements p =
     (let server_type = trim (opt_else (sp_requirementServerType p) []);
          storageRaw = trim (opt_else (sp_requirementStorageGb p) []);
          location = trim (opt_else (sp_requirementLocation p) [])
      in (if server_type \<noteq> [] then [(''server_type'', JStr server_type)] else [])
       @ (if storageRaw = [] then []
          else case num_floor (str_num storageRaw) of
              Dec m _ \<Rightarrow> [(''storage_gb'', JNum (Dec (max 0 m) 0))] | _ \<Rightarrow> [])
       @ (if location \<noteq> [] then [(''location'', JStr location)] else []))"

definition requirementsByAlias :: "http_reply \<Rightarrow> (string \<times> jsval) list" where
  "requirementsByAlias res =
     (case res of HttpOk (Inr reqData) \<Rightarrow> obj_fields (jget reqData ''requirements_by_alias'') | _ \<Rightarrow> [])"

definition aliasesNeedingMigration ::
  "(string \<times> server_patch) list \<Rightarrow> (string \<times> jsval) list \<Rightarrow> (string \<times> jsval) list" where
  "aliasesNeedingMigration patches byAlias =
     map (\<lambda>(alias, p). (alias, JObj (fallback_requirements p)))
       (filter (\<lambda>(alias, p). fallback_requirements p \<noteq> []
            \<and> jentries (case map_of byAlias alias of Some v \<Rightarrow> (if is_object v then v else JNull) | None \<Rightarrow> JNull) = [])
          patches)"

definition requirements_patch :: "jsval \<Rightarrow> server_patch" where
  "requirements_patch req =
     (let field = (\<lambda>k. if jhas req k then Some (trim (str_nn (jget req k))) else None)
      in empty_patch\<lparr>sp_requirementServerType := field ''server_type'', sp_requirementStorageGb := field ''storage_gb'',
           sp_requirementLocation := field ''location''\<rparr>)"

definition or_else :: "'a option \<Rightarrow> 'a option \<Rightarrow> 'a option" where
  "or_else v w = (case v of None \<Rightarrow> w | Some _ \<Rightarrow> v)"

definition with_requirements :: "server_patch \<Rightarrow> server_patch \<Rightarrow> server_patch" where
  "with_requirements req p =
     p\<lparr>sp_requirementServerType := or_else (sp_requirementServerType req) (sp_requirementServerType p),
       sp_requirementStorageGb := or_else (sp_requirementStorageGb req) (sp_requirementStorageGb p),
       sp_requirementLocation := or_else (sp_requirementLocation req) (sp_requirementLocation p)\<rparr>"

definition add_requirements ::
  "(string \<times> jsval) list \<Rightarrow> (string \<times> server_patch) list \<Rightarrow> (string \<times> server_patch) list" where
  "add_requirements byAlias patches =
     foldl (\<lambda>ps (alias, req).
         if \<not> is_obj req \<or> requirements_patch req = empty_patch then ps
         else AList.update alias
           (with_requirements (requirements_patch req) (case map_of ps alias of Some p \<Rightarrow> p | None \<Rightarrow> empty_patch)) ps)
       patches (own_entries byAlias)"

definition filled_server :: "(string \<times> server_patch) list \<Rightarrow> ServerState \<Rightarrow> ServerState" where
  "filled_server patches s = (case map_of patches (sv_alias s) of None \<Rightarrow> s | Some p \<Rightarrow> patch_server p s)"

definition filled_servers :: "(string \<times> server_patch) list \<Rightarrow> ServerState list \<Rightarrow> ServerState list" where
  "filled_servers patches prev =
     (let next = map (filled_server patches) prev
      in if next = prev then prev else normalizePersistedDeviceMeta next)"

text \<open>
  The callback of the effect, over the answers to the list, to the files and to the query of the requirements
  (\<open>cancelled\<close>: the effect has run again in between): the servers afterwards and the requirements that are sent.
\<close>

definition loadServerMetaFromHostVars ::
  "libs \<Rightarrow> string option \<Rightarrow> string list \<Rightarrow> http_reply \<Rightarrow> (string \<Rightarrow> http_reply) \<Rightarrow> http_reply \<Rightarrow> bool
   \<Rightarrow> ServerState list \<Rightarrow> ServerState list \<times> (string \<times> jsval) list" where
  "loadServerMetaFromHostVars L workspaceId wanted listRes reply reqRes cancelled prev =
     (if no_id workspaceId \<or> wanted = [] then (prev, [])
      else case json_answer listRes of
        Inl _ \<Rightarrow> (prev, [])
      | Inr listData \<Rightarrow>
          (let paths = hostVarsPathByAlias (map file_entry (arr_items (jget listData ''files'')))
           in case host_files L (map_of paths) reply wanted of
                Inl _ \<Rightarrow> (prev, [])
              | Inr patches \<Rightarrow>
                  (let byAlias = requirementsByAlias reqRes;
                       patchByAlias = add_requirements byAlias patches
                   in if cancelled \<or> patchByAlias = [] then (prev, [])
                      else (filled_servers patchByAlias prev, aliasesNeedingMigration patches byAlias))))"

subsection \<open>What an edit leaves\<close>

named_theorems vars_simps \<open>the fields of a document after an edit\<close>

lemma map_of_assign_text [vars_simps]:
  "map_of (fst (assign_text k v e)) j = (if j = k then Some (JStr v) else map_of (fst e) j)"
  by (auto simp: assign_text_def jget_def update_conv' split: prod.split option.split option.split_asm)

lemma map_of_drop_key [vars_simps]:
  "map_of (fst (drop_key k e)) j = (if j = k then None else map_of (fst e) j)"
  by (auto simp: drop_key_def jhas_def delete_conv' split: prod.split)

lemma map_of_text_if_any [vars_simps]:
  "map_of (fst (text_if_any k v e)) j = (if j = k \<and> v \<noteq> [] then Some (JStr v) else map_of (fst e) j)"
  by (simp add: text_if_any_def vars_simps)

lemma map_of_text_or_drop [vars_simps]:
  "map_of (fst (text_or_drop k v e)) j = (if j = k then if v = [] then None else Some (JStr v) else map_of (fst e) j)"
  by (simp add: text_or_drop_def vars_simps)

lemma put_logo_other [vars_simps]:
  "j \<noteq> ''logo'' \<Longrightarrow> map_of (fst (put_logo v e)) j = map_of (fst e) j"
  by (cases e) (simp add: put_logo_def update_conv' delete_conv' Let_def split: prod.split)

lemma put_port_other [vars_simps]:
  "j \<noteq> ''ansible_port'' \<Longrightarrow> map_of (fst (put_port prev v e)) j = map_of (fst e) j"
  by (cases e) (simp add: put_port_def map_of_drop_key update_conv' delete_conv' Let_def split: prod.split)

definition managed_keys :: "string list" where
  "managed_keys =
     [''ansible_host'', ''ansible_user'', ''description'', ''DOMAIN_PRIMARY'', ''server_requirements'', ''server_type'',
      ''storage_gb'', ''location'', ''color'', ''logo'', ''ansible_port'']"

lemma other_keys_kept:
  assumes "k \<notin> set managed_keys"
  shows "map_of (fst (host_vars_edit c prev m)) k = map_of m k"
  using assms by (simp add: host_vars_edit_def managed_keys_def vars_simps)

definition settled :: "CredentialsState \<Rightarrow> bool" where
  "settled c \<longleftrightarrow>
     token (cr_host c) \<and> token (cr_user c) \<and> trimmed (cr_description c) \<and> trimmed (cr_primaryDomain c)
     \<and> normalizeDeviceColor (cr_color c) = Some (cr_color c) \<and> token (cr_logoEmoji c)
     \<and> token (cr_port c) \<and> port_valid (cr_port c)"

text \<open>The port of the file is missing or an integer.\<close>

definition plain_port :: "jsval \<Rightarrow> bool" where
  "plain_port v = (case v of JUndefined \<Rightarrow> True | JNum (Dec p 0) \<Rightarrow> True | _ \<Rightarrow> False)"

lemma settled_facts:
  assumes "settled c"
  shows "trim (cr_host c) = cr_host c" "cr_host c \<noteq> []" "trim (cr_user c) = cr_user c" "cr_user c \<noteq> []"
    "trim (cr_description c) = cr_description c" "trim (cr_primaryDomain c) = cr_primaryDomain c"
    "vars_color c = cr_color c" "cr_color c \<noteq> []" "vars_emoji c = cr_logoEmoji c" "cr_logoEmoji c \<noteq> []"
    "trim (cr_port c) = cr_port c" "cr_port c \<noteq> []"
    "num_is_int (str_num (cr_port c))" "\<not> num_lt_int (str_num (cr_port c)) 1" "\<not> num_gt_int (str_num (cr_port c)) 65535"
    "normalizeMetaColor (cr_color c) = Some (cr_color c)" "normalizeDeviceEmoji (cr_logoEmoji c) = Some (cr_logoEmoji c)"
proof -
  show "normalizeMetaColor (cr_color c) = Some (cr_color c)" "cr_color c \<noteq> []"
    using assms by (auto simp: settled_def normalizeMetaColor_def normalizeDeviceColor_def Let_def starts_with_def split: if_splits)
  show "num_is_int (str_num (cr_port c))" "\<not> num_lt_int (str_num (cr_port c)) 1"
    "\<not> num_gt_int (str_num (cr_port c)) 65535"
    using assms by (auto simp: settled_def token_def port_valid_def Let_def)
qed (use assms in \<open>simp_all add: settled_def token_def vars_color_def vars_emoji_def opt_else_def
       normalizeDeviceEmoji_def str_opt_def port_valid_def Let_def\<close>)

lemma edit_lookups:
  fixes m prev
  assumes "settled c"
  defines "d \<equiv> fst (host_vars_edit c prev m)"
  shows "map_of d ''ansible_host'' = Some (JStr (cr_host c))" "map_of d ''ansible_user'' = Some (JStr (cr_user c))"
    "map_of d ''description'' = (if cr_description c = [] then None else Some (JStr (cr_description c)))"
    "map_of d ''DOMAIN_PRIMARY'' = (if cr_primaryDomain c = [] then None else Some (JStr (cr_primaryDomain c)))"
    "map_of d ''color'' = Some (JStr (cr_color c))"
    "map_of d ''server_requirements'' = None" "map_of d ''server_type'' = None" "map_of d ''storage_gb'' = None"
    "map_of d ''location'' = None"
  using assms(1) by (simp_all add: d_def host_vars_edit_def vars_simps settled_facts)

lemma put_logo_some:
  "v \<noteq> [] \<Longrightarrow> fst (put_logo v (m, ch)) =
     AList.update ''logo'' (JObj (fst (assign_text ''emoji'' v (logo_fields m, ch)))) m"
  by (simp add: put_logo_def split: prod.split)

lemma edited_logo:
  assumes "settled c"
  shows "\<exists>logo. map_of (fst (host_vars_edit c prev m)) ''logo'' = Some (JObj logo)
    \<and> map_of logo ''emoji'' = Some (JStr (cr_logoEmoji c))"
proof -
  have "\<exists>logo. map_of (fst (put_logo (vars_emoji c) e)) ''logo'' = Some (JObj logo)
      \<and> map_of logo ''emoji'' = Some (JStr (cr_logoEmoji c))" for e
    using assms by (cases e) (simp add: put_logo_some settled_facts update_conv' map_of_assign_text)
  then show ?thesis
    by (simp add: host_vars_edit_def vars_simps)
qed

lemma same_num_refl: "num_is_int n \<Longrightarrow> same_num n n"
  by (cases n) simp_all

lemma put_port_put:
  assumes "settled c"
  shows "case existing_port (jget (JObj (fst (put_port prev (cr_port c) e))) ''ansible_port'') of
      Some n \<Rightarrow> same_num n (str_num (cr_port c)) | None \<Rightarrow> False"
  using assms by (cases e)
    (auto simp: put_port_def settled_facts Let_def update_conv' same_num_refl existing_port_def jget_def
      split: option.splits if_splits)

lemma put_port_plain:
  assumes "plain_port (jget (JObj (fst e)) ''ansible_port'')"
  shows "map_of (fst (put_port prev ''22'' e)) ''ansible_port'' = Some (JNum (Dec 22 0))"
proof -
  have "str_num ''22'' = Dec 22 0"
    by code_simp
  with assms show ?thesis
    by (cases e) (auto simp: put_port_def plain_port_def Let_def update_conv' existing_port_def jget_def
        split: option.splits if_splits jsval.splits num.splits nat.splits)
qed

lemma edited_port:
  assumes "settled c"
  shows "case existing_port (jget (JObj (fst (host_vars_edit c prev m))) ''ansible_port'') of
      Some n \<Rightarrow> same_num n (str_num (cr_port c)) | None \<Rightarrow> False"
    "plain_port (jget (JObj m) ''ansible_port'') \<Longrightarrow> cr_port c = ''22'' \<Longrightarrow>
      map_of (fst (host_vars_edit c prev m)) ''ansible_port'' = Some (JNum (Dec 22 0))"
proof -
  show "case existing_port (jget (JObj (fst (host_vars_edit c prev m))) ''ansible_port'') of
      Some n \<Rightarrow> same_num n (str_num (cr_port c)) | None \<Rightarrow> False"
    using put_port_put [OF assms] settled_facts(11) [OF assms] by (simp add: host_vars_edit_def)
  assume plain: "plain_port (jget (JObj m) ''ansible_port'')" and p: "cr_port c = ''22''"
  have "trim (cr_port c) = ''22''"
    using settled_facts(11) [OF assms] p by simp
  then show "map_of (fst (host_vars_edit c prev m)) ''ansible_port'' = Some (JNum (Dec 22 0))"
    using plain unfolding host_vars_edit_def
    by (simp only:) (rule put_port_plain, simp add: jget_def vars_simps)
qed

lemma vars_read_back:
  fixes m prev
  assumes "settled c"
  defines "v \<equiv> parseHostVarsValues (JObj (fst (host_vars_edit c prev m)))"
  shows "hv_host v = cr_host c" "hv_user v = cr_user c" "hv_description v = cr_description c"
    "hv_primaryDomain v = cr_primaryDomain c" "hv_color v = cr_color c" "hv_logoEmoji v = cr_logoEmoji c"
    "hv_serverType v = None" "hv_storageGb v = None" "hv_location v = None"
proof -
  obtain logo where "map_of (fst (host_vars_edit c prev m)) ''logo'' = Some (JObj logo)"
      "map_of logo ''emoji'' = Some (JStr (cr_logoEmoji c))"
    using edited_logo [OF assms(1)] by blast
  then show "hv_logoEmoji v = cr_logoEmoji c"
    using settled_facts(17) [OF assms(1)]
    by (simp add: v_def parseHostVarsValues_def Let_def node_of_def is_obj_def first_string_def opt_else_def jget_def)
qed (simp_all add: v_def parseHostVarsValues_def Let_def node_of_def is_obj_def first_string_def opt_else_def
      jget_def jhas_def edit_lookups [OF assms(1)] settled_facts [OF assms(1)])

lemma map_of_filter_keys: "P k \<Longrightarrow> map_of (filter (\<lambda>(k, v). P k) m) k = map_of m k"
  by (induction m) auto

lemma own_entries_word: "\<not> index_key k \<Longrightarrow> map_of (own_entries m) k = map_of m k"
proof -
  assume k: "\<not> index_key k"
  then have "map_of (sort_key (\<lambda>(k, _). digits_val k) (filter (\<lambda>(k, _). index_key k) m)) k = None"
    by (auto simp: map_of_eq_None_iff)
  with k show ?thesis
    using map_of_filter_keys [of "\<lambda>k. \<not> index_key k" k m] by (simp add: own_entries_def map_add_def)
qed

lemma edit_settled:
  assumes "settled c"
  shows "snd (host_vars_edit c prev' (fst (host_vars_edit c prev m))) = False"
proof -
  let ?d = "fst (host_vars_edit c prev m)"
  have same: "map_of ?d k = Some (JStr v) \<Longrightarrow> assign_text k v (?d, False) = (?d, False)" for k v
    by (simp add: assign_text_def jget_def)
  have gone: "map_of ?d k = None \<Longrightarrow> drop_key k (?d, False) = (?d, False)" for k
    by (simp add: drop_key_def jhas_def)
  obtain logo where logo: "map_of ?d ''logo'' = Some (JObj logo)" "map_of logo ''emoji'' = Some (JStr (cr_logoEmoji c))"
    using edited_logo [OF assms] by blast
  have emoji: "jget (JObj (own_entries logo)) ''emoji'' = JStr (cr_logoEmoji c)"
    using logo(2) own_entries_word [of "''emoji''" logo] by (simp add: jget_def index_key_def is_digit_def code_def)
  have "\<not> snd (put_port prev' (cr_port c) (put_logo (cr_logoEmoji c) (?d, False)))"
  proof -
    have "put_logo (cr_logoEmoji c) (?d, False) = (AList.update ''logo'' (JObj (own_entries logo)) ?d, False)"
      using logo emoji settled_facts(10) [OF assms]
      by (simp add: put_logo_def assign_text_def logo_fields_def is_object_def jget_def)
    moreover have "jget (JObj (AList.update ''logo'' (JObj (own_entries logo)) ?d)) ''ansible_port'' = jget (JObj ?d) ''ansible_port''"
      by (simp add: jget_def update_conv')
    ultimately show ?thesis
      using edited_port(1) [OF assms, of prev m] by (simp add: put_port_def Let_def settled_facts(12) [OF assms])
  qed
  then show ?thesis
    unfolding host_vars_edit_def [of c prev']
    by (simp add: text_if_any_def text_or_drop_def settled_facts [OF assms] same gone edit_lookups [OF assms])
qed

text \<open>
  C37: the fields of a device written into its host variables agree with the device. For a device whose fields are
  trimmed, with a host, a user, a colour, an emoji and a valid port, and a file whose port is missing or a whole number:
  read on their own, the host variables written hold its host, user, description, primary domain, colour, emoji and (as
  a number) its port, and no requirements; reading them into the form changes nothing, writing again changes nothing, and
  every key the client does not manage keeps its value.
\<close>

theorem host_vars_settle:
  fixes prev
  assumes "settled c" "plain_port (jget (JObj m) ''ansible_port'')"
  defines "d \<equiv> fst (host_vars_edit c prev m)"
  defines "v \<equiv> parseHostVarsValues (JObj d)"
  shows "hv_host v = cr_host c \<and> hv_user v = cr_user c \<and> hv_description v = cr_description c
    \<and> hv_primaryDomain v = cr_primaryDomain c \<and> hv_color v = cr_color c \<and> hv_logoEmoji v = cr_logoEmoji c
    \<and> (case existing_port (jget (JObj d) ''ansible_port'') of Some n \<Rightarrow> same_num n (str_num (cr_port c)) | None \<Rightarrow> False)
    \<and> hv_serverType v = None \<and> hv_storageGb v = None \<and> hv_location v = None
    \<and> buildCredentialsPatchFromHostVarsData (JObj d) c = empty_patch
    \<and> host_vars_outcome c prev' (JObj d) = Unchanged
    \<and> (\<forall>k. k \<notin> set managed_keys \<longrightarrow> map_of d k = map_of m k)"
proof -
  have "new_text (hv_port (parseHostVarsValues (JObj d)) \<noteq> [] \<and> (cr_port c = [] \<or> cr_port c = ''22''))
      (hv_port (parseHostVarsValues (JObj d))) ''22'' = None"
  proof (cases "cr_port c = ''22''")
    case True
    then have "hv_port (parseHostVarsValues (JObj d)) = num_str (Dec 22 0)"
      using edited_port(2) [OF assms(1,2)]
      by (simp add: d_def parseHostVarsValues_def Let_def node_of_def is_obj_def jget_def port_text_def)
    also have "num_str (Dec 22 0) = ''22''"
      by code_simp
    finally show ?thesis
      by (simp add: new_text_def)
  qed (use settled_facts(12) [OF assms(1)] in \<open>simp add: new_text_def\<close>)
  then have "buildCredentialsPatchFromHostVarsData (JObj d) c = empty_patch"
    by (simp add: buildCredentialsPatchFromHostVarsData_def Let_def)
      (simp add: d_def vars_read_back [OF assms(1)] new_text_def new_requirement_def settled_facts [OF assms(1)] empty_patch_def)
  moreover have "host_vars_outcome c prev' (JObj d) = Unchanged"
    using edit_settled [OF assms(1)] by (simp add: host_vars_outcome_def d_def split: prod.split) (metis snd_conv)
  moreover have "map_of d k = map_of m k" if "k \<notin> set managed_keys" for k
    using other_keys_kept [OF that] by (simp add: d_def)
  ultimately show ?thesis
    using vars_read_back [OF assms(1), of prev m] edited_port(1) [OF assms(1), of prev m]
    unfolding v_def d_def by blast
qed
definition demo_credentials :: CredentialsState where
  "demo_credentials =
     \<lparr>cr_alias = ''web'', cr_description = ''Shop'', cr_primaryDomain = ''shop.test'', cr_requirementServerType = ''vps'',
      cr_requirementStorageGb = ''200'', cr_requirementLocation = ''Germany'', cr_host = ''10.0.0.7'', cr_port = ''22'',
      cr_user = ''root'', cr_color = ''#4A90E2'', cr_logoEmoji = ''S'', cr_authMethod = ''password''\<rparr>"

definition demo_vars :: "(string \<times> jsval) list" where
  "demo_vars = [(''color'', JStr ''#000000''), (''backup'', JBool True), (''ansible_port'', JNum (Dec 2222 0))]"

lemma demo_settled: "settled demo_credentials"
  by code_simp

theorem host_vars_settle_witness:
  "hv_host (parseHostVarsValues (JObj (fst (host_vars_edit demo_credentials [] demo_vars)))) = ''10.0.0.7''
    \<and> hv_color (parseHostVarsValues (JObj (fst (host_vars_edit demo_credentials [] demo_vars)))) = ''#4A90E2''
    \<and> buildCredentialsPatchFromHostVarsData (JObj (fst (host_vars_edit demo_credentials [] demo_vars))) demo_credentials = empty_patch
    \<and> host_vars_outcome demo_credentials ''22'' (JObj (fst (host_vars_edit demo_credentials [] demo_vars))) = Unchanged
    \<and> map_of (fst (host_vars_edit demo_credentials [] demo_vars)) ''backup'' = Some (JBool True)"
proof -
  have p: "plain_port (jget (JObj demo_vars) ''ansible_port'')"
    by (simp add: demo_vars_def plain_port_def jget_def)
  have c: "cr_host demo_credentials = ''10.0.0.7''" "cr_color demo_credentials = ''#4A90E2''"
    by (simp_all add: demo_credentials_def)
  have k: "''backup'' \<notin> set managed_keys" "map_of demo_vars ''backup'' = Some (JBool True)"
    by (simp_all add: managed_keys_def demo_vars_def)
  show ?thesis
    using host_vars_settle [OF demo_settled p, of "[]" "''22''"] c k by simp
qed

lemma host_files_bad:
  "a \<in> set ws \<Longrightarrow> path a = Some p \<Longrightarrow> host_file L (reply p) = Inl m \<Longrightarrow> \<exists>m'. host_files L path reply ws = Inl m'"
  by (induction ws) (auto split: option.split sum.split)

text \<open>
  One file of host variables that cannot be fetched or parsed keeps every server of the workspace from being filled,
  whatever the other files and the database say.
\<close>

theorem bad_file_stops_all:
  assumes "a \<in> set wanted" "host_file L (reply p) = Inl m"
    "map_of (hostVarsPathByAlias (map file_entry (arr_items (jget listData ''files'')))) a = Some p"
  shows "loadServerMetaFromHostVars L workspaceId wanted (HttpOk (Inr listData)) reply reqRes cancelled prev = (prev, [])"
proof -
  obtain m' where "host_files L
      (map_of (hostVarsPathByAlias (map file_entry (arr_items (jget listData ''files''))))) reply wanted = Inl m'"
    using host_files_bad [where reply = reply and a = a and p = p, OF assms(1) _ assms(2)] assms(3) by blast
  then show ?thesis
    by (simp add: loadServerMetaFromHostVars_def json_answer_def Let_def)
qed

definition two_files :: jsval where
  "two_files = JObj [(''files'', JArr [JObj [(''path'', JStr ''host_vars/web.yml'')], JObj [(''path'', JStr ''host_vars/db.yml'')]])]"

definition files_reply :: "string \<Rightarrow> http_reply" where
  "files_reply path = (if path = ''host_vars/db.yml'' then NetError ''gone''
     else HttpOk (Inr (JObj [(''content'', JStr ''description: Shop'')])))"

theorem bad_file_stops_all_witness:
  "loadServerMetaFromHostVars \<lparr>lib_yaml = (\<lambda>s. Inr (JObj [(''description'', JStr ''Shop'')])), lib_json_error = id, lib_lc = (\<lambda>_ _. 0)\<rparr>
      (Some ''w1'') [''web'', ''db''] (HttpOk (Inr two_files)) files_reply (NetError []) False
      [createServerPlaceholder ''web''] = ([createServerPlaceholder ''web''], [])"
  by (rule bad_file_stops_all [of "''db''" _ _ _ "''host_vars/db.yml''" "''gone''"])
    (simp_all add: host_file_def files_reply_def two_files_def, code_simp)

end
