(* ===== verification/HostVarsSync.thy ===== *)
theory HostVarsSync
  imports HostVars
begin

text \<open>
  Keeping a server and its host variables together (\<open>workspace-panel/actions/core/sync.ts\<close> and the last two effects of
  \<open>useWorkspacePanelSyncEffects.ts\<close>): the fields of the active server are written into its file after a pause, and
  the file is read back when it changes. A pause that runs is \<open>hs_timer\<close>, with what its closure captured; a
  callback under way is an element of \<open>hs_tasks\<close>, each answer an event. \<open>hs_sent\<close> logs the requests.
\<close>

subsection \<open>Requests\<close>

datatype sync_request =
  Get_file string
| Put_file string string
| Get_files
| Post_inventory jsval
| Post_rename string string
| Put_requirements string jsval
| Delete_requirements string
| Move_file string string
| Delete_file string

definition file_content :: "http_reply \<Rightarrow> string + string" where
  "file_content res = (case json_answer res of Inl m \<Rightarrow> Inl m | Inr data \<Rightarrow> Inr (str_nn (jget data ''content'')))"

text \<open>\<open>YAML.parse(content) ?? {}\<close>.\<close>

definition parsed_document :: "libs \<Rightarrow> http_reply \<Rightarrow> string + jsval" where
  "parsed_document L res =
     (case file_content res of
        Inl m \<Rightarrow> Inl m
      | Inr content \<Rightarrow>
          (case lib_yaml L content of Inl m \<Rightarrow> Inl m | Inr data \<Rightarrow> Inr (coalesce data (JObj []))))"

definition listed_files :: "jsval \<Rightarrow> FileEntry list" where
  "listed_files data = map file_entry (arr_items (jget data ''files''))"

definition with_listing :: "FileEntry list \<Rightarrow> selection_state \<Rightarrow> selection_state" where
  "with_listing nextFiles sel = sel\<lparr>ss_inventoryReady := list_ex (\<lambda>f. fe_path f = ''inventory.yml'') nextFiles\<rparr>"

definition requirements_body :: "CredentialsState \<Rightarrow> (string \<times> jsval) list" where
  "requirements_body c =
     (let server_type = to_lower (trim (cr_requirementServerType c));
          storageRaw = trim (cr_requirementStorageGb c);
          storage = str_num storageRaw;
          location = trim (cr_requirementLocation c)
      in (if server_type \<noteq> [] then [(''server_type'', JStr server_type)] else [])
       @ (if storageRaw \<noteq> [] \<and> num_finite storage \<and> \<not> num_lt_int storage 0
          then [(''storage_gb'', JNum (num_floor storage))] else [])
       @ (if location \<noteq> [] then [(''location'', JStr location)] else []))"

definition requirements_request :: "string \<Rightarrow> CredentialsState \<Rightarrow> sync_request" where
  "requirements_request alias c =
     (if requirements_body c = [] then Delete_requirements alias
      else Put_requirements alias (JObj [(''requirements'', JObj (requirements_body c))]))"

subsection \<open>State\<close>

record host_args =
  ha_sel :: selection_state
  ha_files :: "FileEntry list"
  ha_path :: "string option"
  ha_dirty :: bool

datatype host_task =
  Reading_vars host_args
| Writing_vars host_args string
| Listing_files
| Reading_credentials host_args string

record host_state =
  hs_sel :: selection_state
  hs_files :: "FileEntry list"
  hs_path :: "string option"
  hs_value :: string
  hs_dirty :: bool
  hs_syncing :: bool
  hs_lastPort :: string
  hs_timer :: "host_args option"
  hs_tasks :: "host_task list"
  hs_sent :: "sync_request list"

definition args_of :: "host_state \<Rightarrow> host_args" where
  "args_of st = \<lparr>ha_sel = hs_sel st, ha_files = hs_files st, ha_path = hs_path st, ha_dirty = hs_dirty st\<rparr>"

definition hostVarsPath :: "host_args \<Rightarrow> string option" where
  "hostVarsPath a = pickHostVarsPath (ha_files a) (panelAlias (ha_sel a))"

definition targetPath :: "host_args \<Rightarrow> string" where
  "targetPath a =
     (case hostVarsPath a of
        Some p \<Rightarrow> p | None \<Rightarrow> ''host_vars/'' @ sanitizeAliasFilename (panelAlias (ha_sel a)) @ ''.yml'')"

definition send_host :: "sync_request list \<Rightarrow> host_task list \<Rightarrow> host_state \<Rightarrow> host_state" where
  "send_host rs ts st = st\<lparr>hs_sent := hs_sent st @ rs, hs_tasks := hs_tasks st @ ts\<rparr>"

subsection \<open>Writing the fields of the active server\<close>

definition syncHostVars_begin :: "host_args \<Rightarrow> host_state \<Rightarrow> host_state" where
  "syncHostVars_begin a st =
     (if no_id (ss_workspaceId (ha_sel a)) \<or> hs_syncing st \<or> panelAlias (ha_sel a) = []
        \<or> (ha_path a = Some (targetPath a) \<and> ha_dirty a) \<or> \<not> anything_to_write (credentials (ha_sel a)) then st
      else send_host [Get_file (targetPath a)] [Reading_vars a] st)"

text \<open>A file that cannot be read counts as empty.\<close>

definition syncHostVars_read :: "libs \<Rightarrow> (jsval \<Rightarrow> string) \<Rightarrow> host_args \<Rightarrow> http_reply \<Rightarrow> host_state \<Rightarrow> host_state" where
  "syncHostVars_read L to_yaml a res st =
     (let c = credentials (ha_sel a);
          data = (case parsed_document L res of Inl _ \<Rightarrow> JObj [] | Inr d \<Rightarrow> d)
      in case host_vars_outcome c (hs_lastPort st) data of
           Throws \<Rightarrow> st\<lparr>hs_syncing := False\<rparr>
         | Unchanged \<Rightarrow> st\<lparr>hs_lastPort := trim (cr_port c), hs_syncing := False\<rparr>
         | Changed d \<Rightarrow> send_host [Put_file (targetPath a) (to_yaml d)] [Writing_vars a (to_yaml d)]
             (st\<lparr>hs_lastPort := trim (cr_port c), hs_syncing := True\<rparr>))"

definition syncHostVars_written :: "host_args \<Rightarrow> string \<Rightarrow> http_reply \<Rightarrow> host_state \<Rightarrow> host_state" where
  "syncHostVars_written a content res st =
     (case plain_error res of
        Some _ \<Rightarrow> st\<lparr>hs_syncing := False\<rparr>
      | None \<Rightarrow> send_host [Get_files] [Listing_files]
          (if ha_path a = Some (targetPath a) then st\<lparr>hs_value := content, hs_dirty := False\<rparr> else st))"

definition syncHostVars_listed :: "http_reply \<Rightarrow> host_state \<Rightarrow> host_state" where
  "syncHostVars_listed res st =
     (case json_answer res of
        Inl _ \<Rightarrow> st\<lparr>hs_syncing := False\<rparr>
      | Inr data \<Rightarrow> st\<lparr>hs_files := listed_files data, hs_sel := with_listing (listed_files data) (hs_sel st),
                     hs_syncing := False\<rparr>)"

definition syncServerRequirementsFromCredentials :: "host_args \<Rightarrow> host_state \<Rightarrow> host_state" where
  "syncServerRequirementsFromCredentials a st =
     (if no_id (ss_workspaceId (ha_sel a)) \<or> panelAlias (ha_sel a) = [] then st
      else send_host [requirements_request (panelAlias (ha_sel a)) (credentials (ha_sel a))] [] st)"

text \<open>The effect starts the pause anew at every rendering at which it runs.\<close>

definition pause_effect :: "host_state \<Rightarrow> host_state" where
  "pause_effect st = st\<lparr>hs_timer := (if no_id (ss_workspaceId (hs_sel st)) then None else Some (args_of st))\<rparr>"

definition pause_ends :: "host_state \<Rightarrow> host_state" where
  "pause_ends st =
     (case hs_timer st of
        None \<Rightarrow> st
      | Some a \<Rightarrow> syncServerRequirementsFromCredentials a (syncHostVars_begin a (st\<lparr>hs_timer := None\<rparr>)))"

subsection \<open>Reading the file into the active server\<close>

definition syncCredentials_begin :: "host_state \<Rightarrow> host_state" where
  "syncCredentials_begin st =
     (case hostVarsPath (args_of st) of
        None \<Rightarrow> st
      | Some p \<Rightarrow>
          if no_id (ss_workspaceId (hs_sel st)) \<or> hs_syncing st \<or> (hs_path st = Some p \<and> hs_dirty st) then st
          else send_host [Get_file p] [Reading_credentials (args_of st) p] st)"

text \<open>\<open>onCredentialsPatch\<close> of the page: the server that was active when the file was asked for.\<close>

definition onCredentialsPatch :: "selection_state \<Rightarrow> server_patch \<Rightarrow> selection_state \<Rightarrow> selection_state" where
  "onCredentialsPatch cap patch sel =
     (case activeServer cap of None \<Rightarrow> sel | Some server \<Rightarrow> updateServer (sv_alias server) patch cap sel)"

definition syncCredentials_end :: "libs \<Rightarrow> host_args \<Rightarrow> http_reply \<Rightarrow> host_state \<Rightarrow> host_state" where
  "syncCredentials_end L a res st =
     (case parsed_document L res of
        Inl _ \<Rightarrow> st
      | Inr data \<Rightarrow>
          (let patch = buildCredentialsPatchFromHostVarsData data (credentials (ha_sel a))
           in if patch = empty_patch then st else st\<lparr>hs_sel := onCredentialsPatch (ha_sel a) patch (hs_sel st)\<rparr>))"

subsection \<open>Events\<close>

datatype host_event =
  Change sel_event
| Activate string
| Open_file string string
| Edit_text string
| Pause_effect
| Pause_ends
| Credentials_effect
| Host_answer nat http_reply

definition host_answered ::
  "libs \<Rightarrow> (jsval \<Rightarrow> string) \<Rightarrow> host_task \<Rightarrow> http_reply \<Rightarrow> host_state \<Rightarrow> host_state" where
  "host_answered L to_yaml task res st =
     (case task of
        Reading_vars a \<Rightarrow> syncHostVars_read L to_yaml a res st
      | Writing_vars a content \<Rightarrow> syncHostVars_written a content res st
      | Listing_files \<Rightarrow> syncHostVars_listed res st
      | Reading_credentials a p \<Rightarrow> syncCredentials_end L a res st)"

fun host_step ::
  "libs \<Rightarrow> (jsval \<Rightarrow> string) \<Rightarrow> (string \<Rightarrow> string) \<Rightarrow> host_event \<Rightarrow> host_state \<Rightarrow> host_state" where
  "host_step L ty dp (Change e) st = st\<lparr>hs_sel := sel_step (lib_lc L) dp e (hs_sel st)\<rparr>"
| "host_step L ty dp (Activate a) st = st\<lparr>hs_sel := (hs_sel st)\<lparr>ss_activeAlias := a\<rparr>\<rparr>"
| "host_step L ty dp (Open_file path content) st = st\<lparr>hs_path := Some path, hs_value := content, hs_dirty := False\<rparr>"
| "host_step L ty dp (Edit_text v) st =
     (if hs_path st = None then st else st\<lparr>hs_value := v, hs_dirty := True\<rparr>)"
| "host_step L ty dp Pause_effect st = pause_effect st"
| "host_step L ty dp Pause_ends st = pause_ends st"
| "host_step L ty dp Credentials_effect st = syncCredentials_begin st"
| "host_step L ty dp (Host_answer i res) st =
     (if i < length (hs_tasks st)
      then host_answered L ty (hs_tasks st ! i) res (st\<lparr>hs_tasks := drop_nth i (hs_tasks st)\<rparr>) else st)"

subsection \<open>A file that could not be read\<close>

lemma snd_keeps [vars_simps]:
  "snd e \<Longrightarrow> snd (assign_text k v e)" "snd e \<Longrightarrow> snd (drop_key k e)" "snd e \<Longrightarrow> snd (text_if_any k v e)"
  "snd e \<Longrightarrow> snd (text_or_drop k v e)" "snd e \<Longrightarrow> snd (put_logo v e)" "snd e \<Longrightarrow> snd (put_port prev v e)"
proof -
  show assign: "snd (assign_text k v e)" if "snd e" for k v e
    using that by (cases e) (simp add: assign_text_def)
  show drop: "snd (drop_key k e)" if "snd e" for k e
    using that by (cases e) (simp add: drop_key_def)
  show "snd (text_if_any k v e)" "snd (text_or_drop k v e)" if "snd e"
    using that assign drop by (simp_all add: text_if_any_def text_or_drop_def)
  show "snd (put_logo v e)" if "snd e"
    using that assign [of "(logo_fields (fst e), True)" "''emoji''" v]
    by (cases e) (auto simp: put_logo_def Let_def split: prod.split prod.split_asm)
  show "snd (put_port prev v e)" if "snd e"
    using that drop by (cases e) (simp add: put_port_def Let_def)
qed

lemma edit_of_nothing: "trim (cr_host c) \<noteq> [] \<Longrightarrow> snd (host_vars_edit c prev [])"
proof -
  assume "trim (cr_host c) \<noteq> []"
  then have "snd (text_if_any ''ansible_host'' (trim (cr_host c)) ([], False))"
    by (simp add: text_if_any_def assign_text_def jget_def)
  then show ?thesis
    unfolding host_vars_edit_def by (simp add: snd_keeps)
qed

lemma begin_sends:
  assumes "\<not> no_id (ss_workspaceId (ha_sel a))" "\<not> hs_syncing st" "panelAlias (ha_sel a) \<noteq> []"
    "ha_path a \<noteq> Some (targetPath a)" "trim (cr_host (credentials (ha_sel a))) \<noteq> []"
  shows "syncHostVars_begin a st = send_host [Get_file (targetPath a)] [Reading_vars a] st"
  using assms by (simp add: syncHostVars_begin_def anything_to_write_def)

text \<open>
  When the file of a device cannot be read, whatever the reason, it is written all the same: with the fields of the
  device alone. Every other variable the file held is gone.
\<close>

theorem unread_file_overwritten:
  assumes "hs_timer st = Some a" "\<not> no_id (ss_workspaceId (ha_sel a))" "\<not> hs_syncing st" "panelAlias (ha_sel a) \<noteq> []"
    "ha_path a \<noteq> Some (targetPath a)" "trim (cr_host (credentials (ha_sel a))) \<noteq> []" "plain_error res \<noteq> None"
  shows "\<exists>d. hs_sent (fold (host_step L ty dp) [Pause_ends, Host_answer (length (hs_tasks st)) res] st)
      = hs_sent st @ [Get_file (targetPath a), requirements_request (panelAlias (ha_sel a)) (credentials (ha_sel a)),
                      Put_file (targetPath a) (ty (JObj d))]
    \<and> (\<forall>k. k \<notin> set managed_keys \<longrightarrow> map_of d k = None)"
proof -
  let ?c = "credentials (ha_sel a)"
  let ?d = "fst (host_vars_edit ?c (hs_lastPort st) [])"
  have "parsed_document L res = Inl m" if "plain_error res = Some m" for m
    using that by (auto simp: parsed_document_def file_content_def json_answer_def plain_error_def split: http_reply.splits)
  then obtain m where m: "parsed_document L res = Inl m"
    using assms(7) by blast
  have "host_vars_outcome ?c (hs_lastPort st) (JObj []) = Changed (JObj ?d)"
    using edit_of_nothing [OF assms(6)] by (simp add: host_vars_outcome_def split: prod.split) (metis snd_conv)
  then have "hs_sent (fold (host_step L ty dp) [Pause_ends, Host_answer (length (hs_tasks st)) res] st)
      = hs_sent st @ [Get_file (targetPath a), requirements_request (panelAlias (ha_sel a)) ?c,
                      Put_file (targetPath a) (ty (JObj ?d))]"
    using assms m by (simp add: pause_ends_def begin_sends syncServerRequirementsFromCredentials_def send_host_def
        host_answered_def syncHostVars_read_def nth_append Let_def)
  moreover have "map_of ?d k = None" if "k \<notin> set managed_keys" for k
    using other_keys_kept [OF that] by simp
  ultimately show ?thesis
    by blast
qed

subsection \<open>A write that goes through\<close>

lemma nth_end [simp]: "(xs @ [y]) ! length xs = y" "drop_nth (length xs) (xs @ [y]) = xs"
  by (simp_all add: nth_append drop_nth_def)

text \<open>
  When a pause ends and the answers are good, the fields of the device are written into the document that was read,
  the list of files is fetched again, and the next pause can write again.
\<close>

theorem fields_reach_file:
  fixes L ty dp
  assumes "hs_timer st = Some a" "\<not> no_id (ss_workspaceId (ha_sel a))" "\<not> hs_syncing st" "panelAlias (ha_sel a) \<noteq> []"
    "ha_path a \<noteq> Some (targetPath a)" "trim (cr_host (credentials (ha_sel a))) \<noteq> []"
    "parsed_document L r1 = Inr (JObj m)" "host_vars_edit (credentials (ha_sel a)) (hs_lastPort st) m = (d, True)"
    "plain_error r2 = None" "json_answer r3 = Inr listing"
  defines "k \<equiv> length (hs_tasks st)"
  defines "st' \<equiv> fold (host_step L ty dp) [Pause_ends, Host_answer k r1, Host_answer k r2, Host_answer k r3] st"
  shows "hs_sent st' = hs_sent st @ [Get_file (targetPath a),
        requirements_request (panelAlias (ha_sel a)) (credentials (ha_sel a)), Put_file (targetPath a) (ty (JObj d)), Get_files]
    \<and> hs_files st' = listed_files listing \<and> hs_tasks st' = hs_tasks st \<and> \<not> hs_syncing st' \<and> hs_timer st' = None
    \<and> hs_lastPort st' = trim (cr_port (credentials (ha_sel a)))
    \<and> hs_path st' = hs_path st \<and> hs_value st' = hs_value st \<and> hs_dirty st' = hs_dirty st"
proof -
  define c where "c = credentials (ha_sel a)"
  have outcome: "host_vars_outcome c (hs_lastPort st) (JObj m) = Changed (JObj d)"
    using assms(8) by (simp add: host_vars_outcome_def c_def)
  define st1 where "st1 = host_step L ty dp Pause_ends st"
  define st2 where "st2 = host_step L ty dp (Host_answer k r1) st1"
  define st3 where "st3 = host_step L ty dp (Host_answer k r2) st2"
  have st1: "st1 = send_host [requirements_request (panelAlias (ha_sel a)) c] [] (send_host [Get_file (targetPath a)] [Reading_vars a]
      (st\<lparr>hs_timer := None\<rparr>))"
    using assms(1-6) by (simp add: st1_def pause_ends_def begin_sends syncServerRequirementsFromCredentials_def c_def send_host_def)
  have st2: "st2 = send_host [Put_file (targetPath a) (ty (JObj d))] [Writing_vars a (ty (JObj d))]
      (st1\<lparr>hs_tasks := hs_tasks st, hs_lastPort := trim (cr_port c), hs_syncing := True\<rparr>)"
    using assms(7) outcome
    by (simp add: st2_def st1 k_def host_answered_def syncHostVars_read_def send_host_def c_def Let_def)
  have st3: "st3 = send_host [Get_files] [Listing_files] (st2\<lparr>hs_tasks := hs_tasks st\<rparr>)"
    using assms(5,9) by (simp add: st3_def st2 st1 k_def host_answered_def syncHostVars_written_def send_host_def)
  have "st' = host_step L ty dp (Host_answer k r3) st3"
    by (simp add: st'_def st1_def st2_def st3_def)
  then show ?thesis
    using assms(10) by (simp add: st3 st2 st1 k_def host_answered_def syncHostVars_listed_def send_host_def c_def)
qed

subsection \<open>An edit that is not written in time\<close>

definition server_named :: "string \<Rightarrow> selection_state \<Rightarrow> ServerState option" where
  "server_named a sel = find (\<lambda>s. sv_alias s = a) (ss_servers sel)"

lemma find_first:
  "find P xs = Some x \<longleftrightarrow> (\<exists>i. find_index P xs = Some i \<and> x = xs ! i)"
  by (induction xs arbitrary: x) (auto split: if_splits)

lemma find_patched:
  assumes "find (\<lambda>s. sv_alias s = a) ss = Some s" "rename_target a p = None"
  shows "find (\<lambda>s. sv_alias s = a) (patched_servers a p ss)
    = Some (normalize_meta ((patch_server p s)\<lparr>sv_alias := a\<rparr>))"
proof -
  obtain i where i: "find_index (\<lambda>s. sv_alias s = a) ss = Some i" "s = ss ! i"
    using assms(1) by (auto simp: find_first)
  note facts = find_index_Some [OF i(1)]
  have "find (\<lambda>s. sv_alias s = a) (normalizePersistedDeviceMeta (ss[i := (patch_server p s)\<lparr>sv_alias := a\<rparr>]))
      = Some (normalize_meta ((patch_server p s)\<lparr>sv_alias := a\<rparr>))"
    unfolding find_Some_iff
    by (rule exI [of _ i]) (use facts in \<open>simp add: normalizePersistedDeviceMeta_def\<close>)
  then show ?thesis
    using i facts assms(2) by (simp add: patched_servers_def)
qed

lemma server_updated:
  assumes "a \<noteq> []" "rename_target a p = None" "server_named a sel = Some s"
  shows "server_named a (updateServer a p cap sel) = Some (normalize_meta ((patch_server p s)\<lparr>sv_alias := a\<rparr>))"
    "ss_activeAlias (updateServer a p cap sel) = ss_activeAlias sel"
    "ss_workspaceId (updateServer a p cap sel) = ss_workspaceId sel"
  using assms find_patched [OF assms(3) [unfolded server_named_def] assms(2)]
  by (simp_all add: updateServer_def server_named_def log_visual_def Let_def)

lemma active_named:
  "ss_activeAlias sel = a \<Longrightarrow> a \<noteq> [] \<Longrightarrow> server_named a sel = Some s \<Longrightarrow> activeServer sel = Some s"
  by (simp add: activeServer_def server_named_def)

lemma named_alias: "server_named a sel = Some s \<Longrightarrow> sv_alias s = a"
  by (auto simp: server_named_def find_Some_iff)

lemma description_patched:
  "sv_description (normalize_meta ((patch_server p s)\<lparr>sv_alias := a\<rparr>)) = opt_else (sp_description p) (sv_description s)"
  by (simp add: normalize_meta_def patch_server_def)

lemma pause_ends_kept:
  "hs_sel (pause_ends st) = hs_sel st" "hs_files (pause_ends st) = hs_files st" "hs_path (pause_ends st) = hs_path st"
  "hs_dirty (pause_ends st) = hs_dirty st" "hs_syncing (pause_ends st) = hs_syncing st"
  "Put_file q c \<in> set (hs_sent (pause_ends st)) \<longleftrightarrow> Put_file q c \<in> set (hs_sent st)"
  by (auto simp: pause_ends_def syncHostVars_begin_def syncServerRequirementsFromCredentials_def send_host_def
      requirements_request_def split: option.split)

text \<open>
  Going to another device stops the pause of the one just edited, so nothing of the edit is written. When the user
  comes back the file is read, and the description it holds replaces the one that was typed.
\<close>

theorem edit_reverted:
  fixes ty dp b
  assumes "token a" "server_named a (hs_sel st) = Some s" "sp_alias p = None" "\<not> no_id (ss_workspaceId (hs_sel st))"
    "pickHostVarsPath (hs_files st) a = Some path" "hs_path st \<noteq> Some path" "\<not> hs_syncing st"
    "parsed_document L res = Inr data"
  defines "left \<equiv> fold (host_step L ty dp)
      [Change (Update a p), Pause_effect, Activate b, Pause_effect, Pause_ends, Activate a] st"
  defines "home \<equiv> fold (host_step L ty dp) [Credentials_effect, Host_answer (length (hs_tasks left)) res] left"
  shows "map_option sv_description (server_named a (hs_sel home)) = Some (hv_description (parseHostVarsValues data))
    \<and> (\<forall>q c. Put_file q c \<in> set (hs_sent home) \<longleftrightarrow> Put_file q c \<in> set (hs_sent st))"
proof -
  define s1 where "s1 = normalize_meta ((patch_server p s)\<lparr>sv_alias := a\<rparr>)"
  have a: "a \<noteq> []" "trim a = a"
    using assms(1) by (simp_all add: token_def)
  have none: "rename_target a q = None" if "sp_alias q = None" for q
    using that by (simp add: rename_target_def Let_def opt_else_def)
  note up = server_updated [OF a(1) none [OF assms(3)] assms(2), of "hs_sel st"]
  have named: "server_named a (hs_sel left) = Some s1"
    using up(1) by (simp add: left_def pause_ends_kept pause_effect_def server_named_def s1_def)
  have frame: "ss_activeAlias (hs_sel left) = a" "\<not> no_id (ss_workspaceId (hs_sel left))" "hs_files left = hs_files st"
      "hs_path left = hs_path st" "hs_syncing left = hs_syncing st"
    using up(3) assms(4) by (simp_all add: left_def pause_ends_kept pause_effect_def)
  have sent: "Put_file q c \<in> set (hs_sent left) \<longleftrightarrow> Put_file q c \<in> set (hs_sent st)" for q c
    by (simp add: left_def pause_ends_kept pause_effect_def)
  have active: "activeServer (hs_sel left) = Some s1"
    by (rule active_named [OF frame(1) a(1) named])
  have cred: "cr_alias (credentials (hs_sel left)) = a" "cr_description (credentials (hs_sel left)) = sv_description s1"
    using active named_alias [OF named] by (simp_all add: credentials_def credentials_from_def Let_def)
  have path: "hostVarsPath (args_of left) = Some path"
    using assms(5) frame(3) cred(1) a(2) by (simp add: hostVarsPath_def args_of_def panelAlias_def)
  define patch where "patch = buildCredentialsPatchFromHostVarsData data (credentials (hs_sel left))"
  have patch: "sp_alias patch = None" "opt_else (sp_description patch) (sv_description s1) = hv_description (parseHostVarsValues data)"
    by (simp_all add: patch_def buildCredentialsPatchFromHostVarsData_def empty_patch_def Let_def cred new_text_def opt_else_def)
  have home: "hs_sel home = (if patch = empty_patch then hs_sel left else updateServer a patch (hs_sel left) (hs_sel left))"
      "hs_sent home = hs_sent left @ [Get_file path]"
    using assms(6-8) frame path active named_alias [OF named]
    by (simp_all add: home_def syncCredentials_begin_def send_host_def host_answered_def syncCredentials_end_def args_of_def
        patch_def onCredentialsPatch_def nth_append Let_def)
  have "map_option sv_description (server_named a (hs_sel home)) = Some (hv_description (parseHostVarsValues data))"
    using server_updated(1) [OF a(1) none [OF patch(1)] named, of "hs_sel left"] patch(2) named
    by (cases "patch = empty_patch") (simp_all add: home(1) description_patched empty_patch_def opt_else_def)
  then show ?thesis
    using sent by (auto simp: home(2))
qed

subsection \<open>Witnesses\<close>

definition demo_libs :: "jsval \<Rightarrow> libs" where
  "demo_libs data = \<lparr>lib_yaml = (\<lambda>s. Inr data), lib_json_error = id, lib_lc = (\<lambda>_ _. 0)\<rparr>"

definition two_servers :: selection_state where
  "two_servers = (initial_state (Some ''w1'') True)\<lparr>
     ss_servers := [(createServerPlaceholder ''web'')\<lparr>sv_host := ''10.0.0.7''\<rparr>, createServerPlaceholder ''db''],
     ss_activeAlias := ''web''\<rparr>"

definition web_vars :: "FileEntry list" where
  "web_vars = [\<lparr>fe_path = ''host_vars/web.yml'', fe_is_dir = False, fe_size = None\<rparr>]"

definition demo_host :: host_state where
  "demo_host =
     \<lparr>hs_sel = two_servers, hs_files = web_vars, hs_path = None, hs_value = [], hs_dirty = False, hs_syncing = False,
      hs_lastPort = [], hs_timer = Some \<lparr>ha_sel = two_servers, ha_files = web_vars, ha_path = None, ha_dirty = False\<rparr>,
      hs_tasks = [], hs_sent = []\<rparr>"

definition stored_vars :: jsval where
  "stored_vars = JObj [(''description'', JStr ''Shop''), (''backup'', JBool True)]"

definition quick_switch :: "host_event list" where
  "quick_switch =
     [Change (Update ''web'' (empty_patch\<lparr>sp_description := Some ''New shop''\<rparr>)), Pause_effect, Activate ''db'', Pause_effect,
      Pause_ends, Activate ''web'']"

theorem edit_reverted_witness:
  "map_option sv_description (server_named ''web'' (hs_sel
     (fold (host_step (demo_libs stored_vars) json id) [Credentials_effect, Host_answer 1 (HttpOk (Inr JNull))]
       (fold (host_step (demo_libs stored_vars) json id) quick_switch demo_host)))) = Some ''Shop''"
proof -
  have tasks: "length (hs_tasks (fold (host_step (demo_libs stored_vars) json id) quick_switch demo_host)) = 1"
    by code_simp
  have facts: "parsed_document (demo_libs stored_vars) (HttpOk (Inr JNull)) = Inr stored_vars"
    "hv_description (parseHostVarsValues stored_vars) = ''Shop''" "token ''web''"
    "pickHostVarsPath (hs_files demo_host) ''web'' = Some ''host_vars/web.yml''"
    "server_named ''web'' (hs_sel demo_host) = Some ((createServerPlaceholder ''web'')\<lparr>sv_host := ''10.0.0.7''\<rparr>)"
    "\<not> no_id (ss_workspaceId (hs_sel demo_host))" "hs_path demo_host \<noteq> Some ''host_vars/web.yml''" "\<not> hs_syncing demo_host"
    "sp_alias (empty_patch\<lparr>sp_description := Some ''New shop''\<rparr>) = None"
    by code_simp+
  show ?thesis
    using edit_reverted [OF facts(3,5,9,6,4,7,8,1), where ty = json and dp = id and b = "''db''"]
    unfolding quick_switch_def [symmetric] tasks facts(2) by simp
qed

definition web_args :: host_args where
  "web_args = \<lparr>ha_sel = two_servers, ha_files = web_vars, ha_path = None, ha_dirty = False\<rparr>"

theorem unread_file_overwritten_witness:
  "\<exists>d. hs_sent (fold (host_step (demo_libs stored_vars) json id) [Pause_ends, Host_answer 0 (HttpError 503 None (Inr []))] demo_host)
      = [Get_file ''host_vars/web.yml'', requirements_request ''web'' (credentials two_servers),
         Put_file ''host_vars/web.yml'' (json (JObj d))]
    \<and> map_of d ''backup'' = None"
proof -
  have facts: "hs_timer demo_host = Some web_args" "\<not> no_id (ss_workspaceId (ha_sel web_args))" "\<not> hs_syncing demo_host"
    "panelAlias (ha_sel web_args) \<noteq> []" "ha_path web_args \<noteq> Some (targetPath web_args)"
    "trim (cr_host (credentials (ha_sel web_args))) \<noteq> []" "plain_error (HttpError 503 None (Inr [])) \<noteq> None"
    by code_simp+
  have rest: "panelAlias (ha_sel web_args) = ''web''" "targetPath web_args = ''host_vars/web.yml''"
    "length (hs_tasks demo_host) = 0" "hs_sent demo_host = []" "''backup'' \<notin> set managed_keys"
    by code_simp+
  have sel: "ha_sel web_args = two_servers"
    by (simp add: web_args_def)
  show ?thesis
    using unread_file_overwritten [OF facts, of "demo_libs stored_vars" json id] rest(5) unfolding rest(1-4) unfolding sel by auto
qed

theorem fields_reach_file_witness:
  "hs_sent (fold (host_step (demo_libs stored_vars) json id)
      [Pause_ends, Host_answer 0 (HttpOk (Inr JNull)), Host_answer 0 (HttpOk (Inr JNull)), Host_answer 0 (HttpOk (Inr JNull))] demo_host)
   = [Get_file ''host_vars/web.yml'', requirements_request ''web'' (credentials two_servers),
      Put_file ''host_vars/web.yml'' (json (JObj (fst (host_vars_edit (credentials two_servers) []
        [(''description'', JStr ''Shop''), (''backup'', JBool True)])))), Get_files]"
proof -
  have facts: "hs_timer demo_host = Some web_args" "\<not> no_id (ss_workspaceId (ha_sel web_args))" "\<not> hs_syncing demo_host"
    "panelAlias (ha_sel web_args) \<noteq> []" "ha_path web_args \<noteq> Some (targetPath web_args)"
    "trim (cr_host (credentials (ha_sel web_args))) \<noteq> []"
    "parsed_document (demo_libs stored_vars) (HttpOk (Inr JNull)) = Inr (JObj [(''description'', JStr ''Shop''), (''backup'', JBool True)])"
    by code_simp+
  have "snd (host_vars_edit (credentials (ha_sel web_args)) (hs_lastPort demo_host) [(''description'', JStr ''Shop''), (''backup'', JBool True)])"
    by code_simp
  then have edit: "host_vars_edit (credentials (ha_sel web_args)) (hs_lastPort demo_host) [(''description'', JStr ''Shop''), (''backup'', JBool True)]
    = (fst (host_vars_edit (credentials two_servers) [] [(''description'', JStr ''Shop''), (''backup'', JBool True)]), True)"
    by (simp add: prod_eq_iff web_args_def demo_host_def)
  have rest: "panelAlias (ha_sel web_args) = ''web''" "targetPath web_args = ''host_vars/web.yml''"
    "length (hs_tasks demo_host) = 0" "hs_sent demo_host = []"
    by code_simp+
  have sel: "ha_sel web_args = two_servers"
    by (simp add: web_args_def)
  show ?thesis
    using fields_reach_file [OF facts edit, of "HttpOk (Inr JNull)" "HttpOk (Inr JNull)" JNull json id]
    unfolding rest unfolding sel by (simp add: plain_error_def json_answer_def)
qed

end
