(* ===== verification/ServerForms.thy ===== *)
theory ServerForms
  imports DeployRuntime DashboardFilters
begin

text \<open>
  The form of a server (\<open>deployment-credentials/server-collection/View.utils.ts\<close>,
  \<open>useServerCollectionValidation.ts\<close>, the tests of \<open>useCredentialServerActions.ts\<close> and the list of servers of
  \<open>deployment/CredentialsForm.tsx\<close>): the checks of each field, the indicator of a row, what a row offers
  and when a connection is stored or tested. Pixel sizes are integers.
\<close>

subsection \<open>Fields\<close>

definition alias_letter :: "char \<Rightarrow> bool" where
  "alias_letter c \<longleftrightarrow> is_az09 c \<or> c = CHR ''_'' \<or> c = CHR ''-''"

definition getAliasErrorFor :: "string \<Rightarrow> string \<Rightarrow> (string \<times> nat) list \<Rightarrow> string option" where
  "getAliasErrorFor aliasValue currentAlias aliasCounts =
     (let duplicateCount = (case map_of aliasCounts aliasValue of Some n \<Rightarrow> n | None \<Rightarrow> 0)
      in if aliasValue = [] then Some ''Alias is required.''
         else if \<not> list_all alias_letter aliasValue then Some ''Alias allows only a-z, 0-9, _ and -.''
         else if (if aliasValue = currentAlias then 1 < duplicateCount else 0 < duplicateCount)
         then Some ''Alias already exists.''
         else None)"

definition getPrimaryDomainError :: "string \<Rightarrow> (string \<times> string) list \<Rightarrow> string option" where
  "getPrimaryDomainError primaryDomainValue primaryDomainByLower =
     (let normalized = to_lower (trim primaryDomainValue)
      in if normalized = [] then Some ''Primary domain is required.''
         else if map_of primaryDomainByLower normalized = None
         then Some ''Choose a domain from the list or add a new one.''
         else None)"

definition getPasswordConfirmError :: "ServerState \<Rightarrow> string \<Rightarrow> bool \<Rightarrow> string option" where
  "getPasswordConfirmError server passwordConfirmDraft enforcePasswordConfirm =
     (if \<not> enforcePasswordConfirm then None
      else if sv_authMethod server \<noteq> ''password'' then None
      else if sv_password server = [] then None
      else if passwordConfirmDraft = [] then Some ''Please confirm the password.''
      else if passwordConfirmDraft \<noteq> sv_password server then Some ''Passwords do not match.''
      else None)"

definition getColorError :: "string \<Rightarrow> string option" where
  "getColorError colorValue =
     (if normalizeDeviceColor colorValue = None then Some ''Color must be a HEX value (e.g. #87CEEB).''
      else None)"

definition getLogoError :: "string \<Rightarrow> string option" where
  "getLogoError logoValue =
     (if normalizeDeviceEmoji logoValue = None then Some ''Logo emoji is required.'' else None)"

definition has_credentials :: "ServerState \<Rightarrow> bool" where
  "has_credentials server \<longleftrightarrow>
     (if sv_authMethod server = ''private_key'' then trim (sv_privateKey server) \<noteq> []
      else trim (sv_password server) \<noteq> [])"

subsection \<open>The whole form\<close>

record ValidationState =
  va_aliasError :: "string option"
  va_hostMissing :: bool
  va_userMissing :: bool
  va_portError :: "string option"
  va_primaryDomainError :: "string option"
  va_colorError :: "string option"
  va_logoMissing :: bool
  va_credentialsMissing :: bool
  va_passwordConfirmError :: "string option"

record validation_options =
  vo_aliasDraft :: string
  vo_aliasCounts :: "(string \<times> nat) list"
  vo_primaryDomainByLower :: "(string \<times> string) list"
  vo_passwordConfirmDraft :: string
  vo_enforcePasswordConfirm :: bool

definition getValidationState :: "ServerState \<Rightarrow> validation_options \<Rightarrow> ValidationState" where
  "getValidationState server options =
     \<lparr>va_aliasError = getAliasErrorFor (trim (vo_aliasDraft options)) (sv_alias server) (vo_aliasCounts options),
      va_hostMissing = (trim (sv_host server) = []),
      va_userMissing = (trim (sv_user server) = []),
      va_portError = getPortError (sv_port server),
      va_primaryDomainError = getPrimaryDomainError (sv_primaryDomain server) (vo_primaryDomainByLower options),
      va_colorError = getColorError (sv_color server),
      va_logoMissing = (getLogoError (sv_logoEmoji server) \<noteq> None),
      va_credentialsMissing = (\<not> has_credentials server),
      va_passwordConfirmError = getPasswordConfirmError server (vo_passwordConfirmDraft options)
                                  (vo_enforcePasswordConfirm options)\<rparr>"

text \<open>\<open>Boolean\<close> of a message or \<open>null\<close>.\<close>

definition message_set :: "string option \<Rightarrow> bool" where
  "message_set e \<longleftrightarrow> opt_else e [] \<noteq> []"

definition hasFormIssues :: "ValidationState \<Rightarrow> bool" where
  "hasFormIssues v \<longleftrightarrow>
     message_set (va_aliasError v) \<or> va_hostMissing v \<or> va_userMissing v \<or> message_set (va_portError v)
     \<or> message_set (va_primaryDomainError v) \<or> message_set (va_colorError v) \<or> va_logoMissing v
     \<or> message_set (va_passwordConfirmError v)"

text \<open>The state a form is checked in: drafts by alias (\<open>useServerCollectionValidation\<close>).\<close>

definition draft_of :: "(string \<times> string) list \<Rightarrow> string \<Rightarrow> string \<Rightarrow> string" where
  "draft_of drafts alias d = opt_else (map_of drafts alias) d"

definition row_validation ::
  "(string \<times> nat) list \<Rightarrow> (string \<times> string) list \<Rightarrow> (string \<times> string) list \<Rightarrow> (string \<times> string) list \<Rightarrow> bool
     \<Rightarrow> ServerState \<Rightarrow> ValidationState" where
  "row_validation aliasCounts aliasDrafts passwordConfirmDrafts primaryDomainByLower enforce server =
     getValidationState server
       \<lparr>vo_aliasDraft = trim (draft_of aliasDrafts (sv_alias server) (sv_alias server)),
        vo_aliasCounts = aliasCounts, vo_primaryDomainByLower = primaryDomainByLower,
        vo_passwordConfirmDraft = draft_of passwordConfirmDrafts (sv_alias server) [],
        vo_enforcePasswordConfirm = enforce\<rparr>"

subsection \<open>The indicator of a row\<close>

datatype tone = Green | Yellow | Orange

record StatusIndicator =
  si_tone :: tone
  si_label :: string
  si_tooltip :: string
  si_missingCredentials :: bool

definition getStatusIndicator :: "ValidationState \<Rightarrow> ConnectionResult option \<Rightarrow> StatusIndicator" where
  "getStatusIndicator validation status =
     (if va_credentialsMissing validation then
        \<lparr>si_tone = Orange, si_label = ''Missing credentials'',
         si_tooltip = ''No credentials configured. Set a password or private key before testing.'',
         si_missingCredentials = True\<rparr>
      else if hasFormIssues validation then
        \<lparr>si_tone = Orange, si_label = ''Invalid configuration'',
         si_tooltip = ''Fix alias, host, user, port, primary domain, color and logo fields first.'',
         si_missingCredentials = False\<rparr>
      else case status of
        None \<Rightarrow> \<lparr>si_tone = Yellow, si_label = ''Not tested'',
                 si_tooltip = ''No connection test result yet.'', si_missingCredentials = False\<rparr>
      | Some result \<Rightarrow>
          if cr_ping_ok result \<and> cr_ssh_ok result then
            \<lparr>si_tone = Green, si_label = ''Reachable'', si_tooltip = ''Ping and SSH checks succeeded.'',
             si_missingCredentials = False\<rparr>
          else
            (let details = join '' '' (failure_details result)
             in \<lparr>si_tone = Orange,
                 si_label = (if \<not> cr_ping_ok result then ''Ping failed'' else ''Connection failed''),
                 si_tooltip = (if details = [] then ''Connection test failed.'' else details),
                 si_missingCredentials = False\<rparr>))"

datatype visual = Danger | Success | Warning

definition getVisualState :: "ValidationState \<Rightarrow> StatusIndicator \<Rightarrow> visual" where
  "getVisualState validation indicator =
     (if va_credentialsMissing validation \<or> hasFormIssues validation then Danger
      else if si_tone indicator = Green then Success else Warning)"

text \<open>The colours a row takes from its device: pairs of a property and its value.\<close>

definition style_values :: "string list \<Rightarrow> string option \<Rightarrow> (string \<times> string) list" where
  "style_values names v = (case v of Some s \<Rightarrow> map (\<lambda>name. (name, s)) names | None \<Rightarrow> [])"

definition getTintStyle :: "string \<Rightarrow> bool \<Rightarrow> (string \<times> string) list option" where
  "getTintStyle colorValue tintable =
     (let background = hexToRgba colorValue (Dec 16 2);
          border = hexToRgba colorValue (Dec 58 2);
          status = hexToRgba colorValue (Dec 22 2)
      in if \<not> tintable \<or> (background = None \<and> border = None) then None
         else Some (style_values [''--device-row-bg'', ''--device-card-bg''] background
                    @ style_values [''--device-row-border'', ''--device-card-border''] border
                    @ style_values [''--device-status-bg''] status))"

subsection \<open>What the rows are checked against\<close>

definition alias_count :: "(string \<times> nat) list \<Rightarrow> string \<Rightarrow> nat" where
  "alias_count counts key = (case map_of counts key of Some n \<Rightarrow> n | None \<Rightarrow> 0)"

definition aliasCounts :: "ServerState list \<Rightarrow> (string \<times> nat) list" where
  "aliasCounts servers =
     foldl (\<lambda>counts server.
        let key = trim (sv_alias server)
        in if key = [] then counts else AList.update key (alias_count counts key + 1) counts) [] servers"

definition normalizedPrimaryDomainOptions :: "string list \<Rightarrow> string list" where
  "normalizedPrimaryDomainOptions options =
     (let out = to_set (nonempties (map (\<lambda>entry. to_lower (trim entry)) options))
      in if ''localhost'' \<in> set out then out else ''localhost'' # out)"

definition primaryDomainByLower :: "string list \<Rightarrow> (string \<times> string) list" where
  "primaryDomainByLower options =
     foldl (\<lambda>m v. AList.update (to_lower v) v m) [] (normalizedPrimaryDomainOptions options)"

subsection \<open>Connections\<close>

text \<open>Whether a server can be tested, and what is stored of its connection when a field is left.\<close>

definition can_test :: "ServerState \<Rightarrow> bool" where
  "can_test server \<longleftrightarrow>
     (let portRaw = trim (sv_port server)
      in trim (sv_host server) \<noteq> [] \<and> trim (sv_user server) \<noteq> [] \<and> portRaw \<noteq> [] \<and> port_in_range portRaw
         \<and> (if sv_authMethod server = ''private_key'' then trim (sv_privateKey server) \<noteq> []
            else trim (sv_password server) \<noteq> []))"

definition connection_body :: "ServerState \<Rightarrow> jsval option" where
  "connection_body server =
     (let host = trim (sv_host server); user = trim (sv_user server); portRaw = trim (sv_port server)
      in if host = [] \<or> user = [] \<or> \<not> port_in_range portRaw then None
         else Some (JObj [(''host'', JStr host), (''user'', JStr user), (''port'', JNum (str_num portRaw))]))"

subsection \<open>A row in order\<close>

text \<open>
  The specification of the form: the alias typed is a name no other server has, the fields are filled in, the
  domain is one of the catalogue, there is a credential of the chosen kind and the password, where that is
  asked for, was typed twice.
\<close>

definition alias_fits :: "ServerState list \<Rightarrow> ServerState \<Rightarrow> string \<Rightarrow> bool" where
  "alias_fits servers server draft \<longleftrightarrow>
     draft \<noteq> [] \<and> list_all alias_letter draft
     \<and> length (filter (\<lambda>s. trim (sv_alias s) = draft) servers) \<le> (if draft = sv_alias server then 1 else 0)"

definition port_number :: "string \<Rightarrow> nat \<Rightarrow> bool" where
  "port_number s n \<longleftrightarrow>
     s \<noteq> [] \<and> list_all is_digit s \<and> digits_val s = n \<and> 1 \<le> n \<and> n \<le> 65535"

definition password_confirmed :: "ServerState \<Rightarrow> string \<Rightarrow> bool" where
  "password_confirmed server confirm \<longleftrightarrow>
     sv_authMethod server = ''password'' \<longrightarrow> sv_password server \<noteq> [] \<longrightarrow> confirm = sv_password server"

definition server_ready ::
  "ServerState list \<Rightarrow> string list \<Rightarrow> string \<Rightarrow> string \<Rightarrow> bool \<Rightarrow> ServerState \<Rightarrow> bool" where
  "server_ready servers domains draft confirm enforce server \<longleftrightarrow>
     alias_fits servers server (trim draft)
     \<and> trim (sv_host server) \<noteq> [] \<and> trim (sv_user server) \<noteq> []
     \<and> (\<exists>n. port_number (trim (sv_port server)) n)
     \<and> to_lower (trim (sv_primaryDomain server)) \<noteq> []
     \<and> to_lower (trim (sv_primaryDomain server)) \<in> set (normalizedPrimaryDomainOptions domains)
     \<and> normalizeDeviceColor (sv_color server) \<noteq> None \<and> normalizeDeviceEmoji (sv_logoEmoji server) \<noteq> None
     \<and> has_credentials server \<and> (enforce \<longrightarrow> password_confirmed server confirm)"

lemma alias_count_servers:
  "a \<noteq> [] \<Longrightarrow> alias_count (aliasCounts servers) a = length (filter (\<lambda>s. trim (sv_alias s) = a) servers)"
  unfolding aliasCounts_def
proof (induction servers rule: rev_induct)
  case (snoc s ss)
  then show ?case
    by (auto simp: alias_count_def Let_def)
qed (simp add: alias_count_def)

lemma alias_error_None:
  "getAliasErrorFor draft (sv_alias server) (aliasCounts servers) = None \<longleftrightarrow> alias_fits servers server draft"
proof (cases "draft = []")
  case False
  note count = alias_count_servers [OF False, of servers, unfolded alias_count_def]
  show ?thesis
    unfolding getAliasErrorFor_def alias_fits_def Let_def count using False by auto
qed (simp add: getAliasErrorFor_def alias_fits_def Let_def)

lemma options_lower: "\<forall>d \<in> set (normalizedPrimaryDomainOptions domains). to_lower d = d"
proof -
  have "to_lower ''localhost'' = ''localhost''" by code_simp
  then show ?thesis
    by (auto simp: normalizedPrimaryDomainOptions_def Let_def)
qed

lemma by_lower_None:
  "map_of (primaryDomainByLower domains) d = None \<longleftrightarrow> d \<notin> set (normalizedPrimaryDomainOptions domains)"
proof -
  have "map_of (primaryDomainByLower domains) d = None
    \<longleftrightarrow> find (\<lambda>v. to_lower v = d) (rev (normalizedPrimaryDomainOptions domains)) = None"
    unfolding primaryDomainByLower_def object.put_all_last [of to_lower "\<lambda>v. v"] by (auto split: option.split)
  also have "\<dots> \<longleftrightarrow> d \<notin> set (normalizedPrimaryDomainOptions domains)"
    using options_lower by (auto simp: find_None_iff)
  finally show ?thesis .
qed

lemma by_lower_Some:
  assumes "map_of (primaryDomainByLower domains) d = Some v"
  shows "v = d \<and> d \<in> set (normalizedPrimaryDomainOptions domains)"
proof -
  have "find (\<lambda>v. to_lower v = d) (rev (normalizedPrimaryDomainOptions domains)) = Some v"
    using assms unfolding primaryDomainByLower_def object.put_all_last [of to_lower "\<lambda>v. v"]
    by (simp split: option.splits)
  then show ?thesis
    using options_lower by (auto simp: find_Some_iff) (metis nth_mem set_rev length_rev)+
qed

lemma port_error_None: "getPortError p = None \<longleftrightarrow> (\<exists>n. port_number (trim p) n)"
proof (cases "trim p \<noteq> [] \<and> list_all is_digit (trim p)")
  case True
  then show ?thesis
    using str_num_digits [of "trim p"] by (simp add: getPortError_def port_number_def Let_def)
qed (auto simp: getPortError_def port_number_def Let_def)

lemma message_set_simps [simp]:
  "\<not> message_set (getColorError c) \<longleftrightarrow> normalizeDeviceColor c \<noteq> None"
  "\<not> message_set (getPortError p) \<longleftrightarrow> getPortError p = None"
  "\<not> message_set (getAliasErrorFor d a counts) \<longleftrightarrow> getAliasErrorFor d a counts = None"
  "\<not> message_set (getPrimaryDomainError d m) \<longleftrightarrow> getPrimaryDomainError d m = None"
  "\<not> message_set (getPasswordConfirmError s c e) \<longleftrightarrow> getPasswordConfirmError s c e = None"
  by (simp_all add: message_set_def opt_else_def getColorError_def getPortError_def getAliasErrorFor_def
      getPrimaryDomainError_def getPasswordConfirmError_def Let_def)

lemma row_in_order:
  "\<not> va_credentialsMissing v \<and> \<not> hasFormIssues v \<longleftrightarrow>
     server_ready servers domains (draft_of drafts (sv_alias server) (sv_alias server))
       (draft_of confirms (sv_alias server) []) enforce server"
  if v: "v = row_validation (aliasCounts servers) drafts confirms (primaryDomainByLower domains) enforce server"
proof -
  have domain: "getPrimaryDomainError d (primaryDomainByLower domains) = None \<longleftrightarrow>
      to_lower (trim d) \<noteq> [] \<and> to_lower (trim d) \<in> set (normalizedPrimaryDomainOptions domains)" for d
    using by_lower_None [of domains "to_lower (trim d)"] by (simp add: getPrimaryDomainError_def Let_def)
  have confirm: "getPasswordConfirmError server c e = None \<longleftrightarrow> (e \<longrightarrow> password_confirmed server c)" for c e
    by (auto simp: getPasswordConfirmError_def password_confirmed_def)
  have logo: "getLogoError e = None \<longleftrightarrow> normalizeDeviceEmoji e \<noteq> None" for e
    by (simp add: getLogoError_def)
  show ?thesis
    unfolding v row_validation_def getValidationState_def hasFormIssues_def server_ready_def
    by (auto simp: alias_error_None domain confirm logo port_error_None)
qed

subsection \<open>What a row shows\<close>

text \<open>
  C30: a row is green exactly when its form is in order and the last test succeeded, yellow exactly when the form is
  in order and there was no test, and marked as faulty exactly when the form is not in order, where being in
  order is the specification over all servers and domains, not the checks of the single fields.
\<close>

theorem row_shows_readiness:
  "let v = row_validation (aliasCounts servers) drafts confirms (primaryDomainByLower domains) enforce server;
       i = getStatusIndicator v status;
       ready = server_ready servers domains (draft_of drafts (sv_alias server) (sv_alias server))
                 (draft_of confirms (sv_alias server) []) enforce server
   in (si_tone i = Green) = (ready \<and> (\<exists>r. status = Some r \<and> cr_ping_ok r \<and> cr_ssh_ok r))
      \<and> (si_tone i = Yellow) = (ready \<and> status = None)
      \<and> (getVisualState v i = Danger) = (\<not> ready)
      \<and> si_missingCredentials i = (\<not> has_credentials server)"
proof -
  define v where
    "v = row_validation (aliasCounts servers) drafts confirms (primaryDomainByLower domains) enforce server"
  have "va_credentialsMissing v = (\<not> has_credentials server)"
    by (simp add: v_def row_validation_def getValidationState_def)
  then show ?thesis
    unfolding Let_def row_in_order [OF v_def, symmetric] v_def [symmetric]
    by (auto simp: getStatusIndicator_def getVisualState_def Let_def split: option.split)
qed

text \<open>
  A server whose form is in order can be tested, and leaving one of its connection fields stores host, user and
  a port between 1 and 65535.
\<close>

theorem ready_server_connects:
  assumes "server_ready servers domains draft confirm enforce server"
  shows "can_test server \<and> (\<exists>n. 1 \<le> n \<and> n \<le> 65535 \<and> port_number (trim (sv_port server)) n
    \<and> connection_body server = Some (JObj [(''host'', JStr (trim (sv_host server))),
        (''user'', JStr (trim (sv_user server))), (''port'', JNum (Dec (int n) 0))]))"
proof -
  from assms obtain n where n: "port_number (trim (sv_port server)) n"
    by (auto simp: server_ready_def)
  then have "str_num (trim (sv_port server)) = Dec (int n) 0" "trim (sv_port server) \<noteq> []" "1 \<le> n" "n \<le> 65535"
    using str_num_digits by (auto simp: port_number_def)
  moreover from this have "port_in_range (trim (sv_port server))"
    by (simp add: port_in_range_def)
  ultimately show ?thesis
    using assms n
    by (auto simp: server_ready_def can_test_def connection_body_def has_credentials_def Let_def)
qed

definition ready_device :: ServerState where
  "ready_device = demo_device\<lparr>sv_alias := ''web'', sv_host := '' example.org'', sv_user := ''root'', sv_port := ''22'',
     sv_primaryDomain := ''Example.org'', sv_color := ''#89CFF0'', sv_logoEmoji := ''x'',
     sv_authMethod := ''password'', sv_password := ''secret''\<rparr>"

lemma ready_device_ready: "server_ready [ready_device] ['' example.org''] ''web '' ''secret'' True ready_device"
proof -
  have f: "sv_alias ready_device = ''web''" "sv_host ready_device = '' example.org''" "sv_user ready_device = ''root''"
    "sv_port ready_device = ''22''" "sv_primaryDomain ready_device = ''Example.org''"
    "sv_color ready_device = ''#89CFF0''" "sv_logoEmoji ready_device = ''x''" "sv_password ready_device = ''secret''"
    "sv_authMethod ready_device = ''password''"
    by (simp_all add: ready_device_def)
  have "trim '' example.org'' = ''example.org''" by code_simp
  moreover have "trim ''web '' = ''web''" by code_simp
  moreover have "trim ''web'' = ''web''" by code_simp
  moreover have "trim ''root'' = ''root''" by code_simp
  moreover have "trim ''22'' = ''22''" by code_simp
  moreover have "trim ''secret'' = ''secret''" by code_simp
  moreover have "to_lower (trim ''Example.org'') = ''example.org''" by code_simp
  moreover have "normalizedPrimaryDomainOptions ['' example.org''] = [''localhost'', ''example.org'']" by code_simp
  moreover have "normalizeDeviceColor ''#89CFF0'' = Some ''#89CFF0''" by code_simp
  moreover have "normalizeDeviceEmoji ''x'' = Some ''x''" by code_simp
  moreover have "digits_val ''22'' = 22" "list_all is_digit ''22''" by code_simp+
  then have "port_number ''22'' 22" by (simp add: port_number_def)
  moreover have "list_all alias_letter ''web''" by code_simp
  ultimately show ?thesis
    unfolding server_ready_def f alias_fits_def password_confirmed_def has_credentials_def
    by (auto simp: f)
qed

theorem ready_server_connects_witness:
  "can_test ready_device \<and> (\<exists>n. 1 \<le> n \<and> n \<le> 65535 \<and> port_number (trim (sv_port ready_device)) n
    \<and> connection_body ready_device = Some (JObj [(''host'', JStr (trim (sv_host ready_device))),
        (''user'', JStr (trim (sv_user ready_device))), (''port'', JNum (Dec (int n) 0))]))"
  by (rule ready_server_connects [OF ready_device_ready])

end
