(* ===== verification/ServerActions.thy ===== *)
theory ServerActions
  imports ServerForms ServerInvariant
begin

text \<open>
  What the form of the servers sends (\<open>deployment-credentials/useCredentialServerActions.ts\<close>): storing a
  connection after a pause, the passphrase of a key, the primary domain, tests, new keys, and removing
  several servers one after the other. A callback is split at its \<open>await\<close>s: what is suspended is an
  element of \<open>ac_jobs\<close>, \<open>ac_keygens\<close> or \<open>ac_removal\<close>, and each timer or answer is an event. \<open>ac_sent\<close> logs the
  requests, \<open>ac_calls\<close> the connections whose storing was asked for. A removal holds the state its closure
  captured. Two effects of \<open>useDeploymentWorkspaceEffects.ts\<close> on the active server are modelled with it.
\<close>

subsection \<open>State\<close>

datatype credential_field =
  Host_field | Port_field | User_field | Password_field | Confirm_field | Private_key_field
| Passphrase_field | Domain_field

datatype blur_stage = Waiting nat | Storing | Vaulting | Domaining | Testing

record blur_job =
  bj_server :: ServerState
  bj_field :: credential_field
  bj_confirm :: string
  bj_stage :: blur_stage

datatype server_request =
  Put_connection string jsval
| Post_vault jsval
| Put_domain jsval
| Post_test jsval
| Post_key jsval

datatype removal = Delete_devices | Purge_devices

record removal_job =
  rm_mode :: removal
  rm_rest :: "string list"
  rm_cap :: selection_state

record action_state =
  ac_sel :: selection_state
  ac_window :: session_store
  ac_pendingAction :: "(removal \<times> string list) option"
  ac_actionBusy :: bool
  ac_actionError :: "string option"
  ac_removal :: "removal_job option"
  ac_versions :: "(string \<times> nat) list"
  ac_jobs :: "blur_job list"
  ac_keygens :: "string list"
  ac_keygenBusy :: bool
  ac_detailError :: "string option"
  ac_detailStatus :: "string option"
  ac_sent :: "server_request list"
  ac_calls :: "(string \<times> jsval option) list"

definition ac_workspace :: "('a) action_state_scheme \<Rightarrow> string option" where
  "ac_workspace st = ss_workspaceId (ac_sel st)"

subsection \<open>Answers\<close>

text \<open>The message of a refused request; reading the body as text, once it was read as JSON, may throw.\<close>

definition token_field :: "jsval \<Rightarrow> string \<Rightarrow> string option" where
  "token_field data k = (case jget data k of JStr s \<Rightarrow> if trim s \<noteq> [] then Some (trim s) else None | _ \<Rightarrow> None)"

definition parseErrorMessage :: "nat \<Rightarrow> jsval option \<Rightarrow> string + string \<Rightarrow> string" where
  "parseErrorMessage status json_body text_body =
     (let fallback = ''HTTP '' @ dec_digits status in
      case json_body of
        Some data \<Rightarrow>
          (case token_field data ''detail'' of
             Some m \<Rightarrow> m
           | None \<Rightarrow> opt_else (token_field data ''message'') fallback)
      | None \<Rightarrow>
          (case text_body of
             Inl thrown \<Rightarrow> thrown
           | Inr body \<Rightarrow> if trim body \<noteq> [] then trim body else fallback))"

definition request_error :: "http_reply \<Rightarrow> string option" where
  "request_error res =
     (case res of
        NetError message \<Rightarrow> Some message
      | HttpError status json_body text_body \<Rightarrow> Some (parseErrorMessage status json_body text_body)
      | HttpOk _ \<Rightarrow> None)"

definition test_answer :: "http_reply \<Rightarrow> string + jsval" where
  "test_answer res =
     (case res of
        NetError message \<Rightarrow> Inl message
      | HttpError status _ text_body \<Rightarrow>
          (case text_body of
             Inl thrown \<Rightarrow> Inl thrown
           | Inr body \<Rightarrow> Inl (if body = [] then ''HTTP '' @ dec_digits status else body))
      | HttpOk answer \<Rightarrow> answer)"

subsection \<open>Leaving a field\<close>

definition send_request :: "server_request \<Rightarrow> ('a) action_state_scheme \<Rightarrow> ('a) action_state_scheme" where
  "send_request r st = st\<lparr>ac_sent := ac_sent st @ [r]\<rparr>"

definition suspend :: "blur_job \<Rightarrow> ('a) action_state_scheme \<Rightarrow> ('a) action_state_scheme" where
  "suspend job st = st\<lparr>ac_jobs := ac_jobs st @ [job]\<rparr>"

text \<open>A callback that throws shows its message in the form.\<close>

definition fail_detail :: "string \<Rightarrow> ('a) action_state_scheme \<Rightarrow> ('a) action_state_scheme" where
  "fail_detail message st = st\<lparr>ac_detailError := Some message\<rparr>"

definition promptMasterPassword ::
  "string option \<Rightarrow> ('a) action_state_scheme \<Rightarrow> (string + string) \<times> session_store" where
  "promptMasterPassword typed st =
     (let cached = getWorkspaceMasterPassword (ac_workspace st) (ac_window st)
      in if cached \<noteq> [] then (Inr cached, ac_window st)
         else promptWorkspaceMasterPassword (ac_workspace st) typed (ac_window st))"

definition test_part :: "blur_job \<Rightarrow> ('a) action_state_scheme \<Rightarrow> ('a) action_state_scheme" where
  "test_part job st =
     (if \<not> can_test (bj_server job) \<or> no_id (ac_workspace st) then st
      else suspend (job\<lparr>bj_stage := Testing\<rparr>) (send_request (Post_test (test_body (bj_server job))) st))"

definition domain_body :: "string option \<Rightarrow> ServerState \<Rightarrow> jsval" where
  "domain_body ws server =
     (let domain = trim (sv_primaryDomain server)
      in JObj [(''workspace_id'', JStr (opt_else ws [])), (''alias'', JStr (sv_alias server)),
               (''primary_domain'', if domain = [] then JNull else JStr domain)])"

definition domain_part :: "blur_job \<Rightarrow> ('a) action_state_scheme \<Rightarrow> ('a) action_state_scheme" where
  "domain_part job st =
     (if bj_field job = Domain_field \<and> \<not> no_id (ac_workspace st) then
        suspend (job\<lparr>bj_stage := Domaining\<rparr>)
          (send_request (Put_domain (domain_body (ac_workspace st) (bj_server job))) st)
      else test_part job st)"

definition vault_entry_body :: "string \<Rightarrow> ServerState \<Rightarrow> jsval" where
  "vault_entry_body masterPassword server =
     JObj [(''master_password'', JStr masterPassword), (''master_password_confirm'', JStr masterPassword),
           (''create_if_missing'', JBool True), (''alias'', JStr (sv_alias server)),
           (''key_passphrase'', JStr (sv_keyPassphrase server))]"

definition passphrase_part ::
  "string option \<Rightarrow> blur_job \<Rightarrow> ('a) action_state_scheme \<Rightarrow> ('a) action_state_scheme" where
  "passphrase_part typed job st =
     (let server = bj_server job in
      if sv_authMethod server = ''private_key'' \<and> bj_field job = Passphrase_field
         \<and> trim (sv_keyPassphrase server) \<noteq> [] \<and> \<not> no_id (ac_workspace st) then
        (case promptMasterPassword typed st of
           (Inl e, window) \<Rightarrow> fail_detail e (st\<lparr>ac_window := window\<rparr>)
         | (Inr masterPassword, window) \<Rightarrow>
             suspend (job\<lparr>bj_stage := Vaulting\<rparr>)
               (send_request (Post_vault (vault_entry_body masterPassword server)) (st\<lparr>ac_window := window\<rparr>)))
      else domain_part job st)"

definition password_part ::
  "string option \<Rightarrow> blur_job \<Rightarrow> ('a) action_state_scheme \<Rightarrow> ('a) action_state_scheme" where
  "password_part typed job st =
     (let server = bj_server job; password = sv_password server; confirm = bj_confirm job in
      if sv_authMethod server = ''password'' \<and> bj_field job \<in> {Password_field, Confirm_field}
         \<and> password \<noteq> [] \<and> confirm \<noteq> [] \<and> password \<noteq> confirm
      then fail_detail ''Password confirmation mismatch.'' st
      else passphrase_part typed job st)"

text \<open>\<open>{...baseServer, [overrideKey]: server[overrideKey]}\<close>: the field left, on the server as it is now.\<close>

fun override_field :: "credential_field \<Rightarrow> ServerState \<Rightarrow> ServerState \<Rightarrow> ServerState" where
  "override_field Host_field server base = base\<lparr>sv_host := sv_host server\<rparr>"
| "override_field Port_field server base = base\<lparr>sv_port := sv_port server\<rparr>"
| "override_field User_field server base = base\<lparr>sv_user := sv_user server\<rparr>"
| "override_field Password_field server base = base\<lparr>sv_password := sv_password server\<rparr>"
| "override_field Confirm_field server base = base"
| "override_field Private_key_field server base = base\<lparr>sv_privateKey := sv_privateKey server\<rparr>"
| "override_field Passphrase_field server base = base\<lparr>sv_keyPassphrase := sv_keyPassphrase server\<rparr>"
| "override_field Domain_field server base = base\<lparr>sv_primaryDomain := sv_primaryDomain server\<rparr>"

definition current_server :: "string \<Rightarrow> ('a) action_state_scheme \<Rightarrow> ServerState option" where
  "current_server alias st = find (\<lambda>entry. sv_alias entry = alias) (ss_servers (ac_sel st))"

definition resolved_server ::
  "credential_field \<Rightarrow> ServerState \<Rightarrow> ('a) action_state_scheme \<Rightarrow> ServerState" where
  "resolved_server field server st =
     override_field field server
       (case current_server (sv_alias server) st of Some base \<Rightarrow> base | None \<Rightarrow> server)"

definition connection_field :: "credential_field \<Rightarrow> bool" where
  "connection_field f \<longleftrightarrow> f \<in> {Host_field, Port_field, User_field}"

definition version_of :: "string \<Rightarrow> ('a) action_state_scheme \<Rightarrow> nat" where
  "version_of alias st = (case map_of (ac_versions st) alias of Some n \<Rightarrow> n | None \<Rightarrow> 0)"

text \<open>The callback up to its first \<open>await\<close>; the error of the form is cleared by the caller.\<close>

definition handleCredentialFieldBlur_begin ::
  "credential_field \<Rightarrow> ServerState \<Rightarrow> string \<Rightarrow> string option
     \<Rightarrow> ('a) action_state_scheme \<Rightarrow> ('a) action_state_scheme" where
  "handleCredentialFieldBlur_begin field server confirm typed st =
     (let resolved = resolved_server field server st;
          alias = sv_alias resolved;
          nextVersion = version_of alias st + 1;
          job = \<lparr>bj_server = resolved, bj_field = field, bj_confirm = confirm, bj_stage = Waiting nextVersion\<rparr>
      in if connection_field field then
           suspend job (st\<lparr>ac_versions := AList.update alias nextVersion (ac_versions st),
                          ac_calls := ac_calls st @ [(alias, connection_body resolved)]\<rparr>)
         else password_part typed job st)"

text \<open>The pause is over: only the latest call of a server goes on.\<close>

definition pause_over :: "blur_job \<Rightarrow> nat \<Rightarrow> ('a) action_state_scheme \<Rightarrow> ('a) action_state_scheme" where
  "pause_over job v st =
     (let server = bj_server job in
      if version_of (sv_alias server) st \<noteq> v then st
      else if no_id (ac_workspace st) then password_part None job st
      else case connection_body server of
        None \<Rightarrow> password_part None job st
      | Some body \<Rightarrow>
          suspend (job\<lparr>bj_stage := Storing\<rparr>) (send_request (Put_connection (sv_alias server) body) st))"

definition testConnection_end :: "blur_job \<Rightarrow> http_reply \<Rightarrow> ('a) action_state_scheme \<Rightarrow> ('a) action_state_scheme" where
  "testConnection_end job res st =
     st\<lparr>ac_sel := handleConnectionResult (sv_alias (bj_server job))
          (case test_answer res of Inl message \<Rightarrow> failed_result message | Inr data \<Rightarrow> result_of data) (ac_sel st)\<rparr>"

definition blur_answer :: "blur_job \<Rightarrow> http_reply \<Rightarrow> ('a) action_state_scheme \<Rightarrow> ('a) action_state_scheme" where
  "blur_answer job res st =
     (case bj_stage job of
        Waiting v \<Rightarrow> pause_over job v st
      | Testing \<Rightarrow> testConnection_end job res st
      | stage \<Rightarrow>
          (case request_error res of
             Some e \<Rightarrow> fail_detail e st
           | None \<Rightarrow>
               (case stage of
                  Storing \<Rightarrow> password_part None job st
                | Vaulting \<Rightarrow> domain_part job st
                | _ \<Rightarrow> test_part job st)))"

text \<open>What the fields of the form call when they are left (\<open>useServerCollectionActions.ts\<close>).\<close>

definition emitCredentialBlur ::
  "credential_field \<Rightarrow> ServerState \<Rightarrow> string \<Rightarrow> string option
     \<Rightarrow> ('a) action_state_scheme \<Rightarrow> ('a) action_state_scheme" where
  "emitCredentialBlur field server confirm typed st =
     handleCredentialFieldBlur_begin field server confirm typed (st\<lparr>ac_detailError := None\<rparr>)"

subsection \<open>New keys\<close>

definition key_body :: "string \<Rightarrow> ServerState \<Rightarrow> jsval" where
  "key_body masterPassword server =
     JObj [(''alias'', JStr (sv_alias server)),
           (''algorithm'', JStr (or_default (sv_keyAlgorithm server) ''ed25519'')), (''with_passphrase'', JBool True),
           (''master_password'', JStr masterPassword), (''master_password_confirm'', JStr masterPassword),
           (''return_passphrase'', JBool True)]"

definition keygen_failed :: "string \<Rightarrow> ('a) action_state_scheme \<Rightarrow> ('a) action_state_scheme" where
  "keygen_failed message st = st\<lparr>ac_detailError := Some message, ac_keygenBusy := False\<rparr>"

definition runDetailKeygen_begin ::
  "string \<Rightarrow> string option \<Rightarrow> ('a) action_state_scheme \<Rightarrow> ('a) action_state_scheme" where
  "runDetailKeygen_begin alias typed st0 =
     (let st = st0\<lparr>ac_detailError := None, ac_detailStatus := None, ac_keygenBusy := True\<rparr>
      in if no_id (ac_workspace st) then keygen_failed ''Workspace is not ready.'' st
         else case current_server alias st of
           None \<Rightarrow> keygen_failed ''Device not found.'' st
         | Some server \<Rightarrow>
             (case promptMasterPassword typed st of
                (Inl e, window) \<Rightarrow> keygen_failed e (st\<lparr>ac_window := window\<rparr>)
              | (Inr masterPassword, window) \<Rightarrow>
                  send_request (Post_key (key_body masterPassword server))
                    (st\<lparr>ac_window := window, ac_keygens := ac_keygens st @ [alias]\<rparr>)))"

definition key_patch :: "jsval \<Rightarrow> server_patch" where
  "key_patch data =
     empty_patch\<lparr>sp_privateKey := Some (str_or (jget data ''private_key'')),
                 sp_publicKey := Some (str_or (jget data ''public_key'')),
                 sp_authMethod := Some ''private_key'',
                 sp_keyPassphrase := Some (str_or (jget data ''passphrase''))\<rparr>"

definition runDetailKeygen_end :: "string \<Rightarrow> http_reply \<Rightarrow> ('a) action_state_scheme \<Rightarrow> ('a) action_state_scheme" where
  "runDetailKeygen_end alias res st =
     (case res of
        HttpOk (Inr data) \<Rightarrow>
          st\<lparr>ac_sel := updateServer alias (key_patch data) (ac_sel st) (ac_sel st),
             ac_detailStatus := Some ''SSH keypair generated.'', ac_keygenBusy := False\<rparr>
      | HttpOk (Inl thrown) \<Rightarrow> keygen_failed thrown st
      | _ \<Rightarrow> keygen_failed (opt_else (request_error res) []) st)"

subsection \<open>Removing servers\<close>

definition normalizeAliases :: "string list \<Rightarrow> string list" where
  "normalizeAliases names = to_set (trimmed_tokens names)"

definition requestRemoval :: "removal \<Rightarrow> string list \<Rightarrow> ('a) action_state_scheme \<Rightarrow> ('a) action_state_scheme" where
  "requestRemoval mode names st =
     (let nextAliases = normalizeAliases names
      in if nextAliases = [] then st
         else st\<lparr>ac_actionError := None, ac_pendingAction := Some (mode, nextAliases)\<rparr>)"

definition handleCancelAction :: "('a) action_state_scheme \<Rightarrow> ('a) action_state_scheme" where
  "handleCancelAction st =
     (if ac_actionBusy st then st else st\<lparr>ac_pendingAction := None, ac_actionError := None\<rparr>)"

definition confirmServerAction_begin :: "('a) action_state_scheme \<Rightarrow> ('a) action_state_scheme" where
  "confirmServerAction_begin st =
     (case ac_pendingAction st of
        None \<Rightarrow> st
      | Some (mode, names) \<Rightarrow>
          st\<lparr>ac_actionBusy := True, ac_actionError := None,
             ac_removal := Some \<lparr>rm_mode = mode, rm_rest = names, rm_cap = ac_sel st\<rparr>\<rparr>)"

definition remove_device :: "removal \<Rightarrow> string \<Rightarrow> selection_state \<Rightarrow> selection_state \<Rightarrow> string + selection_state" where
  "remove_device mode alias cap st =
     (case mode of Purge_devices \<Rightarrow> cleanupServer alias cap st | Delete_devices \<Rightarrow> removeServer alias cap st)"

text \<open>One round of the loop, or what follows it.\<close>

definition confirmServerAction_step :: "('a) action_state_scheme \<Rightarrow> ('a) action_state_scheme" where
  "confirmServerAction_step st =
     (case ac_removal st of
        None \<Rightarrow> st
      | Some job \<Rightarrow>
          (case rm_rest job of
             [] \<Rightarrow> st\<lparr>ac_pendingAction := None, ac_actionBusy := False, ac_removal := None\<rparr>
           | alias # rest \<Rightarrow>
               (case remove_device (rm_mode job) alias (rm_cap job) (ac_sel st) of
                  Inl message \<Rightarrow> st\<lparr>ac_actionError := Some message, ac_actionBusy := False, ac_removal := None\<rparr>
                | Inr sel \<Rightarrow> st\<lparr>ac_sel := sel, ac_removal := Some (job\<lparr>rm_rest := rest\<rparr>)\<rparr>)))"

text \<open>
  The effects on the active server: a missing one is replaced by the first (unless the address of the page still
  waits for a server), and the active one gets a record of roles. Both see the same rendering.
\<close>

definition restore_active :: "string \<Rightarrow> selection_state \<Rightarrow> selection_state \<Rightarrow> selection_state" where
  "restore_active pendingAlias cap st =
     (let names = aliases cap; active = ss_activeAlias cap in
      if active = [] \<and> names \<noteq> [] then st\<lparr>ss_activeAlias := hd names\<rparr>
      else if active \<noteq> [] \<and> active \<notin> set names \<and> pendingAlias = []
      then st\<lparr>ss_activeAlias := (case names of n # _ \<Rightarrow> n | [] \<Rightarrow> [])\<rparr>
      else st)"

definition record_active :: "selection_state \<Rightarrow> selection_state \<Rightarrow> selection_state" where
  "record_active cap st =
     (let active = ss_activeAlias cap in
      if active = [] \<or> map_of (ss_selected st) active \<noteq> None then st
      else st\<lparr>ss_selected := AList.update active [] (ss_selected st)\<rparr>)"

definition active_effects :: "selection_state \<Rightarrow> selection_state" where
  "active_effects st = record_active st (restore_active [] st st)"

subsection \<open>Events\<close>

datatype action_event =
  Blur credential_field ServerState string "string option"
| Blur_answer nat http_reply
| Edit string server_patch
| Keygen string "string option"
| Keygen_answer nat http_reply
| Request_removal removal "string list"
| Cancel_removal
| Confirm_removal
| Removal_round
| Rendering

fun action_step :: "action_event \<Rightarrow> ('a) action_state_scheme \<Rightarrow> ('a) action_state_scheme" where
  "action_step (Blur field server confirm typed) st = emitCredentialBlur field server confirm typed st"
| "action_step (Blur_answer i res) st =
     (if i < length (ac_jobs st)
      then blur_answer (ac_jobs st ! i) res (st\<lparr>ac_jobs := drop_nth i (ac_jobs st)\<rparr>) else st)"
| "action_step (Edit alias patch) st = st\<lparr>ac_sel := updateServer alias patch (ac_sel st) (ac_sel st)\<rparr>"
| "action_step (Keygen alias typed) st = runDetailKeygen_begin alias typed st"
| "action_step (Keygen_answer i res) st =
     (if i < length (ac_keygens st)
      then runDetailKeygen_end (ac_keygens st ! i) res (st\<lparr>ac_keygens := drop_nth i (ac_keygens st)\<rparr>) else st)"
| "action_step (Request_removal mode names) st = requestRemoval mode names st"
| "action_step Cancel_removal st = handleCancelAction st"
| "action_step Confirm_removal st = (if ac_actionBusy st then st else confirmServerAction_begin st)"
| "action_step Removal_round st = confirmServerAction_step st"
| "action_step Rendering st = st\<lparr>ac_sel := active_effects (ac_sel st)\<rparr>"

definition initial_actions :: "selection_state \<Rightarrow> session_store \<Rightarrow> action_state" where
  "initial_actions sel window =
     \<lparr>ac_sel = sel, ac_window = window, ac_pendingAction = None, ac_actionBusy = False, ac_actionError = None,
      ac_removal = None, ac_versions = [], ac_jobs = [], ac_keygens = [], ac_keygenBusy = False,
      ac_detailError = None, ac_detailStatus = None, ac_sent = [], ac_calls = []\<rparr>"

subsection \<open>The latest connection is stored\<close>

definition connections_sent :: "string \<Rightarrow> ('a) action_state_scheme \<Rightarrow> jsval list" where
  "connections_sent alias st =
     List.map_filter (\<lambda>r. case r of Put_connection a body \<Rightarrow> if a = alias then Some body else None | _ \<Rightarrow> None)
       (ac_sent st)"

definition calls_of :: "string \<Rightarrow> ('a) action_state_scheme \<Rightarrow> jsval option list" where
  "calls_of alias st = map snd (filter (\<lambda>c. fst c = alias) (ac_calls st))"

fun waiting :: "blur_stage \<Rightarrow> bool" where
  "waiting (Waiting v) = True"
| "waiting _ = False"

fun stage_version :: "blur_stage \<Rightarrow> nat" where
  "stage_version (Waiting v) = v"
| "stage_version _ = 0"

definition waiting_for :: "string \<Rightarrow> ('a) action_state_scheme \<Rightarrow> blur_job list" where
  "waiting_for alias st = filter (\<lambda>j. waiting (bj_stage j) \<and> sv_alias (bj_server j) = alias) (ac_jobs st)"

text \<open>
  For one alias: the version counts the calls, a waiting call is one of them, and when the latest one does not
  wait any more it was the last connection sent, unless it was not complete.
\<close>

definition connection_ok :: "string \<Rightarrow> ('a) action_state_scheme \<Rightarrow> bool" where
  "connection_ok alias st \<longleftrightarrow>
     (let calls = calls_of alias st; n = length calls; jobs = waiting_for alias st; sent = connections_sent alias st in
      \<not> no_id (ac_workspace st) \<and> version_of alias st = n
      \<and> (\<forall>j \<in> set jobs. 1 \<le> stage_version (bj_stage j) \<and> stage_version (bj_stage j) \<le> n
           \<and> calls ! (stage_version (bj_stage j) - 1) = connection_body (bj_server j))
      \<and> (calls \<noteq> [] \<longrightarrow> (\<exists>j \<in> set jobs. stage_version (bj_stage j) = n) \<or> last calls = None
           \<or> sent \<noteq> [] \<and> Some (last sent) = last calls)
      \<and> length jobs + length sent \<le> n)"

definition connection_view ::
  "string \<Rightarrow> ('a) action_state_scheme \<Rightarrow> string option \<times> nat \<times> jsval option list \<times> blur_job list \<times> jsval list" where
  "connection_view alias st =
     (ac_workspace st, version_of alias st, calls_of alias st, waiting_for alias st, connections_sent alias st)"

lemma connection_ok_cong:
  "connection_view alias st' = connection_view alias st \<Longrightarrow> connection_ok alias st' = connection_ok alias st"
  by (simp add: connection_view_def connection_ok_def)

lemma view_update [simp]:
  "connection_view alias (st\<lparr>ac_window := w\<rparr>) = connection_view alias st"
  "connection_view alias (st\<lparr>ac_detailError := e\<rparr>) = connection_view alias st"
  "connection_view alias (st\<lparr>ac_detailStatus := s\<rparr>) = connection_view alias st"
  "connection_view alias (st\<lparr>ac_keygenBusy := b\<rparr>) = connection_view alias st"
  "connection_view alias (st\<lparr>ac_keygens := ks\<rparr>) = connection_view alias st"
  "connection_view alias (st\<lparr>ac_pendingAction := pa\<rparr>) = connection_view alias st"
  "connection_view alias (st\<lparr>ac_actionBusy := b\<rparr>) = connection_view alias st"
  "connection_view alias (st\<lparr>ac_actionError := e\<rparr>) = connection_view alias st"
  "connection_view alias (st\<lparr>ac_removal := r\<rparr>) = connection_view alias st"
  by (simp_all add: connection_view_def ac_workspace_def version_of_def calls_of_def waiting_for_def
      connections_sent_def)

lemma view_sel:
  "ss_workspaceId sel = ss_workspaceId (ac_sel st) \<Longrightarrow>
     connection_view alias (st\<lparr>ac_sel := sel\<rparr>) = connection_view alias st"
  by (simp add: connection_view_def ac_workspace_def version_of_def calls_of_def waiting_for_def
      connections_sent_def)

lemma view_suspend [simp]:
  "\<not> waiting (bj_stage job) \<Longrightarrow> connection_view alias (suspend job st) = connection_view alias st"
  by (simp add: suspend_def connection_view_def ac_workspace_def version_of_def calls_of_def waiting_for_def
      connections_sent_def)

lemma view_send [simp]:
  "connection_view alias (send_request (Post_vault b) st) = connection_view alias st"
  "connection_view alias (send_request (Put_domain b) st) = connection_view alias st"
  "connection_view alias (send_request (Post_test b) st) = connection_view alias st"
  "connection_view alias (send_request (Post_key b) st) = connection_view alias st"
  by (simp_all add: send_request_def connection_view_def ac_workspace_def version_of_def calls_of_def
      waiting_for_def connections_sent_def map_filter_def)

lemma view_parts [simp]:
  "connection_view alias (fail_detail m st) = connection_view alias st"
  "connection_view alias (test_part job st) = connection_view alias st"
  "connection_view alias (domain_part job st) = connection_view alias st"
  "connection_view alias (passphrase_part typed job st) = connection_view alias st"
  "connection_view alias (password_part typed job st) = connection_view alias st"
proof -
  show fail: "connection_view alias (fail_detail m st) = connection_view alias st"
    for m and st :: "'a action_state_scheme"
    by (simp add: fail_detail_def)
  show test: "connection_view alias (test_part job st) = connection_view alias st"
    for st :: "'b action_state_scheme"
    by (simp add: test_part_def)
  show domain: "connection_view alias (domain_part job st) = connection_view alias st"
    for st :: "'c action_state_scheme"
    by (simp add: domain_part_def test_part_def)
  show pass: "connection_view alias (passphrase_part typed job st) = connection_view alias st"
    for st :: "'d action_state_scheme"
    by (simp add: passphrase_part_def domain_part_def test_part_def fail_detail_def Let_def
        split: prod.split sum.split)
  show "connection_view alias (password_part typed job st) = connection_view alias st"
    for st :: "'e action_state_scheme"
    by (simp add: password_part_def passphrase_part_def domain_part_def test_part_def fail_detail_def Let_def
        split: prod.split sum.split)
qed

lemma workspace_kept [simp]:
  "ss_workspaceId (handleConnectionResult alias result sel) = ss_workspaceId sel"
  "ss_workspaceId (updateServer alias patch cap sel) = ss_workspaceId sel"
  "ss_workspaceId (removeServerFromClient alias cap sel) = ss_workspaceId sel"
  "ss_workspaceId (active_effects sel) = ss_workspaceId sel"
  by (simp_all add: handleConnectionResult_def updateServer_def rename_alias_def log_visual_def
      removeServerFromClient_def active_effects_def restore_active_def record_active_def Let_def split: option.split)

lemma remove_device_workspace:
  "remove_device mode alias cap sel = Inr sel' \<Longrightarrow> ss_workspaceId sel' = ss_workspaceId sel"
  by (auto simp: remove_device_def removeServer_def cleanupServer_def split: removal.splits if_splits)

lemma version_other [simp]:
  "version_of alias (st\<lparr>ac_versions := AList.update a n (ac_versions st)\<rparr>) = (if alias = a then n else version_of alias st)"
  by (simp add: version_of_def)

lemma connection_ok_begin:
  assumes "connection_ok alias st"
  shows "connection_ok alias (handleCredentialFieldBlur_begin field server confirm typed st)"
proof (cases "connection_field field")
  case True
  define r where "r = resolved_server field server st"
  define st' where "st' = handleCredentialFieldBlur_begin field server confirm typed st"
  have st': "st' = suspend \<lparr>bj_server = r, bj_field = field, bj_confirm = confirm,
        bj_stage = Waiting (version_of (sv_alias r) st + 1)\<rparr>
      (st\<lparr>ac_versions := AList.update (sv_alias r) (version_of (sv_alias r) st + 1) (ac_versions st),
         ac_calls := ac_calls st @ [(sv_alias r, connection_body r)]\<rparr>)"
    using True by (simp add: st'_def r_def handleCredentialFieldBlur_begin_def Let_def)
  show ?thesis
  proof (cases "sv_alias r = alias")
    case False
    then have "connection_view alias st' = connection_view alias st"
      by (simp add: st' suspend_def connection_view_def ac_workspace_def version_of_def calls_of_def
          waiting_for_def connections_sent_def)
    with assms show ?thesis
      unfolding st'_def using connection_ok_cong by blast
  next
    case al: True
    let ?j = "\<lparr>bj_server = r, bj_field = field, bj_confirm = confirm,
        bj_stage = Waiting (version_of (sv_alias r) st + 1)\<rparr>"
    have "calls_of alias st' = calls_of alias st @ [connection_body r]"
      "waiting_for alias st' = waiting_for alias st @ [?j]"
      "connections_sent alias st' = connections_sent alias st" "ac_workspace st' = ac_workspace st"
      "version_of alias st' = Suc (version_of alias st)"
      using al by (simp_all add: st' suspend_def calls_of_def waiting_for_def connections_sent_def
          ac_workspace_def version_of_def)
    then show ?thesis
      using assms al unfolding st'_def [symmetric] connection_ok_def Let_def
      by (auto simp: nth_append less_Suc_eq_le)
  qed
next
  case False
  then have "connection_view alias (handleCredentialFieldBlur_begin field server confirm typed st)
      = connection_view alias st"
    by (simp add: handleCredentialFieldBlur_begin_def Let_def)
  with assms show ?thesis
    using connection_ok_cong by blast
qed

lemma filter_drop_nth:
  assumes "i < length xs"
  shows "filter P xs = filter P (take i xs) @ (if P (xs ! i) then [xs ! i] else []) @ filter P (drop (Suc i) xs)"
    "filter P (drop_nth i xs) = filter P (take i xs) @ filter P (drop (Suc i) xs)"
proof -
  have "filter P (take i xs @ xs ! i # drop (Suc i) xs)
      = filter P (take i xs) @ (if P (xs ! i) then [xs ! i] else []) @ filter P (drop (Suc i) xs)"
    by simp
  then show "filter P xs = filter P (take i xs) @ (if P (xs ! i) then [xs ! i] else []) @ filter P (drop (Suc i) xs)"
    unfolding id_take_nth_drop [OF assms, symmetric] .
qed (simp add: drop_nth_def)

lemma connection_ok_answer:
  assumes ok: "connection_ok alias st" and i: "i < length (ac_jobs st)"
  shows "connection_ok alias (blur_answer (ac_jobs st ! i) res (st\<lparr>ac_jobs := drop_nth i (ac_jobs st)\<rparr>))"
proof -
  define job where "job = ac_jobs st ! i"
  define st1 where "st1 = st\<lparr>ac_jobs := drop_nth i (ac_jobs st)\<rparr>"
  have same: "ac_workspace st1 = ac_workspace st" "version_of a st1 = version_of a st" "calls_of a st1 = calls_of a st"
    "connections_sent a st1 = connections_sent a st" for a
    by (simp_all add: st1_def ac_workspace_def version_of_def calls_of_def connections_sent_def)
  show ?thesis
  proof (cases "waiting (bj_stage job) \<and> sv_alias (bj_server job) = alias")
    case False
    then have "waiting_for alias st1 = waiting_for alias st"
      by (simp add: waiting_for_def st1_def filter_drop_nth [OF i] job_def)
    then have "connection_view alias st1 = connection_view alias st"
      by (simp add: connection_view_def same)
    then have ok1: "connection_ok alias st1"
      using ok connection_ok_cong by blast
    have "connection_view alias (blur_answer job res st1) = connection_view alias st1" if "\<not> waiting (bj_stage job)"
      using that by (cases "bj_stage job")
        (simp_all add: blur_answer_def testConnection_end_def view_sel split: option.split)
    moreover have "connection_view alias (blur_answer job res st1) = connection_view alias st1"
      if "sv_alias (bj_server job) \<noteq> alias" "bj_stage job = Waiting v" for v
    proof -
      have "connection_view alias (send_request (Put_connection (sv_alias (bj_server job)) b) st1)
          = connection_view alias st1" for b
        using that by (simp add: send_request_def connection_view_def ac_workspace_def version_of_def calls_of_def
            waiting_for_def connections_sent_def map_filter_def)
      then show ?thesis
        using that by (simp add: blur_answer_def pause_over_def Let_def split: option.split)
    qed
    ultimately have "connection_view alias (blur_answer job res st1) = connection_view alias st1"
      using False by (cases "bj_stage job") auto
    with ok1 show ?thesis
      unfolding job_def st1_def using connection_ok_cong by blast
  next
    case True
    then obtain v where v: "bj_stage job = Waiting v" and al: "sv_alias (bj_server job) = alias"
      by (cases "bj_stage job") auto
    have jobs: "set (waiting_for alias st) = insert job (set (waiting_for alias st1))"
      "length (waiting_for alias st) = Suc (length (waiting_for alias st1))"
      using v al unfolding waiting_for_def st1_def filter_drop_nth(1) [OF i]
      by (simp_all add: filter_drop_nth(2) [OF i] job_def)
    define n where "n = length (calls_of alias st)"
    have calls: "1 \<le> v" "v \<le> n" "calls_of alias st ! (v - 1) = connection_body (bj_server job)"
      "\<not> no_id (ac_workspace st1)" "version_of alias st1 = n"
      using ok jobs(1) v by (auto simp: connection_ok_def Let_def n_def same)
    show ?thesis
    proof (cases "v = n")
      case False
      have "blur_answer job res st1 = st1"
        using False calls(5) v al by (simp add: blur_answer_def pause_over_def Let_def)
      moreover have "connection_ok alias st1"
        using ok False jobs v unfolding connection_ok_def Let_def same n_def by auto
      ultimately show ?thesis
        by (simp add: job_def st1_def)
    next
      case True
      then have ne: "calls_of alias st \<noteq> []"
        using calls(1) by (auto simp: n_def)
      then have last: "last (calls_of alias st) = connection_body (bj_server job)"
        using calls(3) True by (simp add: n_def last_conv_nth)
      have versions: "\<forall>j \<in> set (waiting_for alias st1). 1 \<le> stage_version (bj_stage j) \<and> stage_version (bj_stage j) \<le> n
          \<and> calls_of alias st ! (stage_version (bj_stage j) - 1) = connection_body (bj_server j)"
        and room: "Suc (length (waiting_for alias st1)) + length (connections_sent alias st) \<le> n"
        using ok jobs by (auto simp: connection_ok_def Let_def n_def)
      show ?thesis
      proof (cases "connection_body (bj_server job)")
        case None
        then have "connection_view alias (blur_answer job res st1) = connection_view alias st1"
          using v al calls True by (simp add: blur_answer_def pause_over_def Let_def)
        moreover have "connection_ok alias st1"
          using versions room last None calls(4,5) unfolding connection_ok_def Let_def same n_def by auto
        ultimately show ?thesis
          unfolding job_def st1_def using connection_ok_cong by blast
      next
        case (Some body)
        define st2 where "st2 = blur_answer job res st1"
        have "st2 = suspend (job\<lparr>bj_stage := Storing\<rparr>) (send_request (Put_connection alias body) st1)"
          using v al calls True Some by (simp add: st2_def blur_answer_def pause_over_def Let_def)
        then have "ac_workspace st2 = ac_workspace st1" "version_of alias st2 = n" "calls_of alias st2 = calls_of alias st"
          "waiting_for alias st2 = waiting_for alias st1" "connections_sent alias st2 = connections_sent alias st @ [body]"
          using calls(5) same by (simp_all add: suspend_def send_request_def ac_workspace_def version_of_def
              calls_of_def waiting_for_def connections_sent_def map_filter_def)
        then have "connection_ok alias st2"
          using versions room last Some calls(4) unfolding connection_ok_def Let_def n_def by auto
        then show ?thesis
          by (simp add: st2_def job_def st1_def)
      qed
    qed
  qed
qed

lemma connection_ok_step:
  assumes "connection_ok alias st"
  shows "connection_ok alias (action_step e st)"
proof -
  have quiet: ?thesis if "connection_view alias (action_step e st) = connection_view alias st"
    using that assms connection_ok_cong by blast
  show ?thesis
  proof (cases e)
    case (Blur field server confirm typed)
    have "connection_ok alias (st\<lparr>ac_detailError := None\<rparr>)"
      using assms connection_ok_cong view_update(2) by blast
    then show ?thesis
      by (simp add: Blur emitCredentialBlur_def connection_ok_begin)
  next
    case (Blur_answer i res)
    then show ?thesis
      using assms connection_ok_answer [OF assms, of i res] by simp
  next
    case (Edit a patch)
    show ?thesis
      by (rule quiet) (simp add: Edit view_sel)
  next
    case (Keygen a typed)
    show ?thesis
      by (rule quiet) (simp add: Keygen runDetailKeygen_begin_def keygen_failed_def Let_def
          split: option.split prod.split sum.split)
  next
    case (Keygen_answer i res)
    have "connection_view alias (st\<lparr>ac_keygens := ks, ac_sel := updateServer a p s (ac_sel st),
        ac_detailStatus := d, ac_keygenBusy := b\<rparr>) = connection_view alias st" for ks a p s d b
      by (simp add: view_sel)
    then show ?thesis
      by (intro quiet) (simp add: Keygen_answer runDetailKeygen_end_def keygen_failed_def split: http_reply.split sum.split)
  next
    case (Request_removal m names)
    show ?thesis
      by (rule quiet) (simp add: Request_removal requestRemoval_def Let_def)
  next
    case Cancel_removal
    show ?thesis
      by (rule quiet) (simp add: Cancel_removal handleCancelAction_def)
  next
    case Confirm_removal
    show ?thesis
      by (rule quiet) (simp add: Confirm_removal confirmServerAction_begin_def split: option.split prod.split)
  next
    case Removal_round
    show ?thesis
      by (rule quiet) (auto simp: Removal_round confirmServerAction_step_def view_sel
          dest: remove_device_workspace split: option.split list.split sum.split)
  next
    case Rendering
    show ?thesis
      by (rule quiet) (simp add: Rendering view_sel)
  qed
qed

interpretation connections: machine action_step "connection_ok alias"
  by unfold_locales (rule connection_ok_step)

lemma connection_ok_initial: "\<not> no_id (ss_workspaceId sel) \<Longrightarrow> connection_ok alias (initial_actions sel window)"
  by (simp add: connection_ok_def initial_actions_def ac_workspace_def version_of_def calls_of_def waiting_for_def
      connections_sent_def map_filter_def)

text \<open>
  C27: however fast the connection fields of a device are left and in whatever order the pauses end, the
  connection stored last is the one of the latest call: once none of its calls waits any more, the last
  request that stores its connection carries what the latest call was given, unless that was incomplete. There is
  never more than one request per call.
\<close>

theorem latest_connection_stored:
  assumes "\<not> no_id (ss_workspaceId sel)"
  shows "let final = fold action_step es (initial_actions sel window);
             calls = calls_of alias final; sent = connections_sent alias final
    in length sent \<le> length calls
       \<and> (waiting_for alias final = [] \<and> calls \<noteq> [] \<longrightarrow>
            (case last calls of None \<Rightarrow> True | Some body \<Rightarrow> sent \<noteq> [] \<and> last sent = body))"
proof -
  have "connection_ok alias (fold action_step es (initial_actions sel window))"
    by (rule connections.every_run_ok) (rule connection_ok_initial [OF assms])
  then show ?thesis
    by (auto simp: connection_ok_def Let_def split: option.split)
qed

text \<open>Leaving host, port and user of one device at once: three calls, one request.\<close>

definition web_sel :: selection_state where
  "web_sel = (initial_state (Some ''w1'') True)\<lparr>ss_servers := [ready_device], ss_activeAlias := ''web''\<rparr>"

definition three_blurs :: "action_event list" where
  "three_blurs =
     [Blur Host_field (ready_device\<lparr>sv_host := ''h2''\<rparr>) [] None, Blur User_field ready_device [] None,
      Blur Port_field (ready_device\<lparr>sv_port := ''23''\<rparr>) [] None,
      Blur_answer 0 (HttpOk (Inr JNull)), Blur_answer 0 (HttpOk (Inr JNull)), Blur_answer 0 (HttpOk (Inr JNull))]"

lemma three_blurs_over:
  "waiting_for ''web'' (fold action_step three_blurs (initial_actions web_sel None)) = []"
  "map (\<lambda>v. v = None) (calls_of ''web'' (fold action_step three_blurs (initial_actions web_sel None))) = [False, False, False]"
  by code_simp+

theorem latest_connection_stored_witness:
  "let final = fold action_step three_blurs (initial_actions web_sel None);
       calls = calls_of ''web'' final; sent = connections_sent ''web'' final
   in length sent \<le> length calls \<and> sent \<noteq> [] \<and> Some (last sent) = last calls"
proof -
  define final where "final = fold action_step three_blurs (initial_actions web_sel None)"
  have ws: "\<not> no_id (ss_workspaceId web_sel)"
    by (simp add: web_sel_def initial_state_def no_id_def)
  have ne: "calls_of ''web'' final \<noteq> []"
    using three_blurs_over(2) unfolding final_def by (metis list.simps(3) list.simps(8))
  then have "last (calls_of ''web'' final) \<noteq> None"
    using arg_cong [OF three_blurs_over(2), of last] unfolding final_def [symmetric] by (simp add: last_map)
  then show ?thesis
    using latest_connection_stored [OF ws, of three_blurs None "''web''"] three_blurs_over(1) ne
    unfolding Let_def final_def [symmetric] by (auto split: option.splits)
qed

subsection \<open>Removing several servers\<close>

lemma remove_ready:
  assumes "workspace_ready cap" "a \<noteq> []"
  shows "remove_device mode a cap sel = Inr (removeServerFromClient a cap
    (case mode of Delete_devices \<Rightarrow> sel\<lparr>ss_aliasDeletes := ss_aliasDeletes sel @ [a]\<rparr>
     | Purge_devices \<Rightarrow> sel\<lparr>ss_aliasCleanups := ss_aliasCleanups sel @ [a]\<rparr>))"
  using assms by (cases mode) (simp_all add: remove_device_def removeServer_def cleanupServer_def)

text \<open>What is left of a state without some devices.\<close>

definition without_devices :: "string list \<Rightarrow> selection_state \<Rightarrow> selection_state \<Rightarrow> bool" where
  "without_devices names sel sel' \<longleftrightarrow>
     aliases sel' = filter (\<lambda>a. a \<notin> set names) (aliases sel)
     \<and> map_of (ss_selected sel') = (map_of (ss_selected sel)) |` (- set names)
     \<and> map_of (ss_plans sel') = (map_of (ss_plans sel)) |` (- set names)
     \<and> map_of (ss_connectionResults sel') = (map_of (ss_connectionResults sel)) |` (- set names)
     \<and> set (ss_deploySelection sel') = set (ss_deploySelection sel) - set names
     \<and> set (ss_deployedAliases sel') = set (ss_deployedAliases sel) - set names"

definition queued :: "removal \<Rightarrow> selection_state \<Rightarrow> string list" where
  "queued mode sel = (case mode of Delete_devices \<Rightarrow> ss_aliasDeletes sel | Purge_devices \<Rightarrow> ss_aliasCleanups sel)"

lemma without_device:
  assumes "remove_device mode a cap sel = Inr sel'" "workspace_ready cap" "a \<noteq> []"
  shows "without_devices [a] sel sel'" "queued mode sel' = queued mode sel @ [a]"
proof -
  have restrict: "map_of (AList.delete a m) = (map_of m) |` (- {a})" for m :: "(string \<times> 'v) list"
    by (simp add: delete_conv fun_eq_iff restrict_map_def)
  show "without_devices [a] sel sel'"
    using assms(1) unfolding remove_ready [OF assms(2,3)] without_devices_def
    by (cases mode) (auto simp: removeServerFromClient_def Let_def aliases_def restrict filter_map comp_def assms(3))
  show "queued mode sel' = queued mode sel @ [a]"
    using assms(1) unfolding remove_ready [OF assms(2,3)] queued_def
    by (cases mode) (auto simp: removeServerFromClient_def Let_def assms(3))
qed

lemma without_devices_append:
  "without_devices xs sel sel1 \<Longrightarrow> without_devices ys sel1 sel2 \<Longrightarrow> without_devices (xs @ ys) sel sel2"
  by (auto simp: without_devices_def restrict_restrict Compl_Un intro: arg_cong2 [of _ _ _ _ filter])

text \<open>The rounds of a confirmed removal, from a state whose closure saw a ready workspace.\<close>

definition removing :: "removal \<Rightarrow> string list \<Rightarrow> selection_state \<Rightarrow> ('a) action_state_scheme \<Rightarrow> bool" where
  "removing mode names cap st \<longleftrightarrow>
     ac_removal st = Some \<lparr>rm_mode = mode, rm_rest = names, rm_cap = cap\<rparr> \<and> ac_actionBusy st
     \<and> ac_actionError st = None"

lemma removal_rounds:
  assumes "removing mode names cap st" "workspace_ready cap" "[] \<notin> set names"
  shows "\<exists>sel. (confirmServerAction_step ^^ Suc (length names)) st
      = st\<lparr>ac_sel := sel, ac_pendingAction := None, ac_actionBusy := False, ac_removal := None\<rparr>
    \<and> without_devices names (ac_sel st) sel \<and> queued mode sel = queued mode (ac_sel st) @ names"
  using assms
proof (induction names arbitrary: st)
  case Nil
  then show ?case
    by (intro exI [of _ "ac_sel st"]) (simp add: removing_def confirmServerAction_step_def without_devices_def restrict_map_def)
next
  case (Cons a names)
  have ne: "a \<noteq> []"
    using Cons.prems(3) by auto
  obtain sel1 where sel1: "remove_device mode a cap (ac_sel st) = Inr sel1"
    using remove_ready [OF Cons.prems(2) ne] by blast
  define st1 where "st1 = st\<lparr>ac_sel := sel1, ac_removal := Some \<lparr>rm_mode = mode, rm_rest = names, rm_cap = cap\<rparr>\<rparr>"
  have st1: "confirmServerAction_step st = st1"
    using Cons.prems sel1 by (simp add: removing_def confirmServerAction_step_def st1_def)
  have "removing mode names cap st1"
    using Cons.prems by (simp add: removing_def st1_def)
  from Cons.IH [OF this] Cons.prems obtain sel where sel:
    "(confirmServerAction_step ^^ Suc (length names)) st1
      = st1\<lparr>ac_sel := sel, ac_pendingAction := None, ac_actionBusy := False, ac_removal := None\<rparr>"
    "without_devices names sel1 sel" "queued mode sel = queued mode sel1 @ names"
    by (auto simp: st1_def)
  have "(confirmServerAction_step ^^ Suc (length (a # names))) st
      = st\<lparr>ac_sel := sel, ac_pendingAction := None, ac_actionBusy := False, ac_removal := None\<rparr>"
    using sel(1) by (simp only: list.size add_Suc_right add_0_right funpow_Suc_right [of "Suc _"] comp_def st1)
      (simp add: st1_def)
  moreover have "without_devices (a # names) (ac_sel st) sel"
    using without_devices_append [OF without_device(1) [OF sel1 Cons.prems(2) ne] sel(2)] by simp
  moreover have "queued mode sel = queued mode (ac_sel st) @ a # names"
    using without_device(2) [OF sel1 Cons.prems(2) ne] sel(3) by simp
  ultimately show ?case
    by blast
qed

text \<open>
  A confirmed removal of several devices takes each of them out of the list, the selection, the plans, the
  results and the deployment, queues them in order for the inventory and closes the dialog; when the inventory
  is not ready it says so, changes nothing and leaves the dialog open.
\<close>

theorem removal_confirmed:
  assumes "ac_pendingAction st = Some (mode, names)" "[] \<notin> set names" "names \<noteq> []"
  shows "let st1 = (confirmServerAction_step ^^ Suc (length names)) (confirmServerAction_begin st) in
    ac_actionBusy st1 = False \<and> ac_removal st1 = None
    \<and> (if workspace_ready (ac_sel st)
       then ac_pendingAction st1 = None \<and> ac_actionError st1 = None
            \<and> without_devices names (ac_sel st) (ac_sel st1)
            \<and> queued mode (ac_sel st1) = queued mode (ac_sel st) @ names
       else ac_pendingAction st1 = Some (mode, names) \<and> ac_actionError st1 = Some not_ready
            \<and> ac_sel st1 = ac_sel st)"
proof -
  let ?b = "confirmServerAction_begin st"
  have b: "removing mode names (ac_sel st) ?b" "ac_sel ?b = ac_sel st"
    using assms(1) by (simp_all add: removing_def confirmServerAction_begin_def)
  show ?thesis
  proof (cases "workspace_ready (ac_sel st)")
    case True
    from removal_rounds [OF b(1) True assms(2)] b show ?thesis
      by (auto simp: True removing_def)
  next
    case False
    from assms obtain a rest where names: "names = a # rest" "a \<noteq> []"
      by (cases names) auto
    have first: "confirmServerAction_step ?b = st\<lparr>ac_actionBusy := False, ac_actionError := Some not_ready, ac_removal := None\<rparr>"
      using assms(1) names False by (cases mode)
        (simp_all add: confirmServerAction_step_def confirmServerAction_begin_def remove_device_def removeServer_def
          cleanupServer_def)
    have "(confirmServerAction_step ^^ n) s = s" if "ac_removal s = None" for n and s :: "'a action_state_scheme"
      using that by (induction n) (simp_all add: confirmServerAction_step_def)
    then have "(confirmServerAction_step ^^ Suc (length names)) ?b = confirmServerAction_step ?b"
      by (simp only: funpow_Suc_right comp_def) (simp add: first)
    then show ?thesis
      using False assms(1) by (simp only: Let_def first) simp
  qed
qed

definition removal_state :: action_state where
  "removal_state = (initial_actions (web_sel\<lparr>ss_servers := [createServerPlaceholder ''web'',
     createServerPlaceholder ''db'', createServerPlaceholder ''mail''],
     ss_selected := [(''web'', [''wiki'']), (''db'', []), (''mail'', [''imap''])]\<rparr>) None)
     \<lparr>ac_pendingAction := Some (Delete_devices, [''web'', ''db''])\<rparr>"

theorem removal_confirmed_witness:
  "let st1 = (confirmServerAction_step ^^ Suc (length [''web'', ''db''])) (confirmServerAction_begin removal_state) in
    ac_actionBusy st1 = False \<and> ac_removal st1 = None
    \<and> (if workspace_ready (ac_sel removal_state)
       then ac_pendingAction st1 = None \<and> ac_actionError st1 = None
            \<and> without_devices [''web'', ''db''] (ac_sel removal_state) (ac_sel st1)
            \<and> queued Delete_devices (ac_sel st1) = queued Delete_devices (ac_sel removal_state) @ [''web'', ''db'']
       else ac_pendingAction st1 = Some (Delete_devices, [''web'', ''db'']) \<and> ac_actionError st1 = Some not_ready
            \<and> ac_sel st1 = ac_sel removal_state)"
  by (rule removal_confirmed) (simp_all add: removal_state_def)

lemma queue_update:
  "ss_servers (case mode of Delete_devices \<Rightarrow> s\<lparr>ss_aliasDeletes := d\<rparr>
     | Purge_devices \<Rightarrow> s\<lparr>ss_aliasCleanups := c\<rparr>) = ss_servers s"
  "ss_activeAlias (case mode of Delete_devices \<Rightarrow> s\<lparr>ss_aliasDeletes := d\<rparr>
     | Purge_devices \<Rightarrow> s\<lparr>ss_aliasCleanups := c\<rparr>) = ss_activeAlias s"
  by (cases mode; simp)+

lemma removed_device:
  assumes "x \<noteq> []"
  shows "aliases (removeServerFromClient x cap s) = filter (\<lambda>n. n \<noteq> x) (aliases s)"
    "map_of (ss_selected (removeServerFromClient x cap s)) x = None"
    "ss_activeAlias (removeServerFromClient x cap s)
      = (if ss_activeAlias cap = x then (case filter (\<lambda>n. n \<noteq> x) (aliases s) of n # _ \<Rightarrow> n | [] \<Rightarrow> [])
         else ss_activeAlias s)"
  using assms by (auto simp: removeServerFromClient_def Let_def aliases_def filter_map comp_def split: list.split)

lemma active_effects_facts:
  assumes "ss_activeAlias s \<noteq> []"
  shows "aliases (active_effects s) = aliases s"
    "ss_activeAlias (active_effects s) = (if ss_activeAlias s \<in> set (aliases s) then ss_activeAlias s
       else case aliases s of n # _ \<Rightarrow> n | [] \<Rightarrow> [])"
    "map_of (ss_selected s) (ss_activeAlias s) = None \<Longrightarrow>
       map_of (ss_selected (active_effects s)) (ss_activeAlias s) = Some []"
  using assms by (auto simp: active_effects_def restore_active_def record_active_def Let_def aliases_def)

text \<open>
  Removing the active device and the one that follows it leaves a trace of the second. The closure of the
  confirmed removal still takes the first for the active one, so the second stays active after it is gone, and
  the effects of that rendering give it a record of roles again before another device becomes active.
\<close>

theorem removal_leaves_record:
  assumes "ac_removal st = Some \<lparr>rm_mode = mode, rm_rest = [a, b], rm_cap = ac_sel st\<rparr>"
    and "workspace_ready (ac_sel st)" "aliases (ac_sel st) = a # b # rest" "distinct (a # b # rest)"
    and "[] \<notin> {a, b}" "ss_activeAlias (ac_sel st) = a"
  shows "let sel = ac_sel (fold action_step [Removal_round, Rendering, Removal_round, Removal_round, Rendering] st) in
    aliases sel = rest \<and> ss_activeAlias sel = (case rest of [] \<Rightarrow> [] | c # _ \<Rightarrow> c)
    \<and> b \<notin> set (aliases sel) \<and> map_of (ss_selected sel) b = Some []"
proof -
  define sel1 where "sel1 = removeServerFromClient a (ac_sel st)
    (case mode of Delete_devices \<Rightarrow> (ac_sel st)\<lparr>ss_aliasDeletes := ss_aliasDeletes (ac_sel st) @ [a]\<rparr>
     | Purge_devices \<Rightarrow> (ac_sel st)\<lparr>ss_aliasCleanups := ss_aliasCleanups (ac_sel st) @ [a]\<rparr>)"
  define sel2 where "sel2 = active_effects sel1"
  define sel3 where "sel3 = removeServerFromClient b (ac_sel st)
    (case mode of Delete_devices \<Rightarrow> sel2\<lparr>ss_aliasDeletes := ss_aliasDeletes sel2 @ [b]\<rparr>
     | Purge_devices \<Rightarrow> sel2\<lparr>ss_aliasCleanups := ss_aliasCleanups sel2 @ [b]\<rparr>)"
  have ne: "a \<noteq> []" "b \<noteq> []"
    using assms(5) by auto
  have run: "ac_sel (fold action_step [Removal_round, Rendering, Removal_round, Removal_round, Rendering] st)
      = active_effects sel3"
    using assms(1) ne by (cases mode)
      (simp_all add: confirmServerAction_step_def remove_ready [OF assms(2)] sel1_def sel2_def sel3_def)
  have kept: "filter (\<lambda>n. n \<noteq> x) rest = rest" if "x \<in> {a, b}" for x
    using that assms(4) by (auto simp: filter_id_conv)
  have one: "aliases sel1 = b # rest" "ss_activeAlias sel1 = b"
    using assms(3,4,6) kept [of a] unfolding sel1_def removed_device [OF ne(1)] by (auto simp: queue_update aliases_def)
  have two: "aliases sel2 = b # rest" "ss_activeAlias sel2 = b"
    using one ne active_effects_facts [of sel1] by (simp_all add: sel2_def)
  have three: "aliases sel3 = rest" "ss_activeAlias sel3 = b" "map_of (ss_selected sel3) b = None"
    using two assms(4,6) kept [of b] unfolding sel3_def removed_device [OF ne(2)] by (auto simp: queue_update aliases_def)
  have "b \<notin> set rest" "b \<noteq> []"
    using assms(4,5) by auto
  with three show ?thesis
    unfolding run using active_effects_facts [of sel3] by (cases rest) (simp_all add: Let_def del: aliases_Nil)
qed

theorem removal_leaves_record_witness:
  "let sel = ac_sel (fold action_step [Removal_round, Rendering, Removal_round, Removal_round, Rendering]
      (confirmServerAction_begin removal_state)) in
    aliases sel = [''mail''] \<and> ss_activeAlias sel = (case [''mail''] of [] \<Rightarrow> [] | c # _ \<Rightarrow> c)
    \<and> ''db'' \<notin> set (aliases sel) \<and> map_of (ss_selected sel) ''db'' = Some []"
proof -
  have "trim ''web'' = ''web''" "trim ''db'' = ''db''" "trim ''mail'' = ''mail''" by code_simp+
  then have "aliases (ac_sel removal_state) = [''web'', ''db'', ''mail'']"
    by (simp add: removal_state_def initial_actions_def aliases_def)
  then show ?thesis
    by (intro removal_leaves_record [where mode = Delete_devices and a = "''web''"])
      (simp_all add: removal_state_def initial_actions_def confirmServerAction_begin_def workspace_ready_def
        web_sel_def initial_state_def)
qed

end
