(* ===== verification/AliasSync.thy ===== *)
theory AliasSync
  imports HostVarsSync ServerActions
begin

text \<open>
  The effects that keep the inventory, the selection and the files of a workspace together
  (\<open>workspace-panel/useWorkspacePanelSyncEffects.ts\<close>, the request sequences of
  \<open>actions/core/sync.ts\<close>, the file requests of \<open>actions/core/main.ts\<close>): roles of the inventory and the host
  variable files become the selection, the selection is written back, and renamed, deleted and purged devices are
  taken from their queues one by one. An effect runs at a rendering; its asynchronous part is a task in
  \<open>as_tasks\<close> with what its closure captured, and each answer is an event. \<open>as_sent\<close> logs the requests. YAML is a
  parameter: parsing is the one of \<open>libs\<close>, printing is \<open>to_yaml\<close>.
\<close>

subsection \<open>State\<close>

datatype file_op = Move string string | Erase string

datatype task_kind =
  Write_selection
| Read_selection
| Create_inventory
| Rename_device string string
| Delete_device string
| Purge_device string

datatype phase = Creating | Reading | Writing string | Requirements | Filing "file_op list" | Refreshing

record sync_task =
  tk_kind :: task_kind
  tk_phase :: phase
  tk_files :: "FileEntry list"
  tk_path :: "string option"
  tk_sel :: selection_state
  tk_hostVars :: "string list"

record sync_state =
  as_sel :: selection_state
  as_files :: "FileEntry list"
  as_path :: "string option"
  as_value :: string
  as_dirty :: bool
  as_error :: "string option"
  as_generateBusy :: bool
  as_loading :: bool
  as_seeded :: bool
  as_initialDone :: bool
  as_auto :: bool
  as_delete :: bool
  as_tasks :: "sync_task list"
  as_sent :: "sync_request list"

definition INVENTORY :: string where
  "INVENTORY = ''inventory.yml''"

definition as_workspace :: "sync_state \<Rightarrow> string option" where
  "as_workspace st = ss_workspaceId (as_sel st)"

definition as_ready :: "sync_state \<Rightarrow> bool" where
  "as_ready st = ss_inventoryReady (as_sel st)"

definition hasPendingAliasMutations :: "sync_state \<Rightarrow> bool" where
  "hasPendingAliasMutations st \<longleftrightarrow>
     ss_aliasRenames (as_sel st) \<noteq> [] \<or> ss_aliasDeletes (as_sel st) \<noteq> [] \<or> ss_aliasCleanups (as_sel st) \<noteq> []"

definition unsaved_inventory :: "sync_state \<Rightarrow> bool" where
  "unsaved_inventory st \<longleftrightarrow> as_path st = Some INVENTORY \<and> as_dirty st"

subsection \<open>Requests\<close>

definition ask :: "sync_request \<Rightarrow> sync_task \<Rightarrow> phase \<Rightarrow> sync_state \<Rightarrow> sync_state" where
  "ask r task ph st = st\<lparr>as_sent := as_sent st @ [r], as_tasks := as_tasks st @ [task\<lparr>tk_phase := ph\<rparr>]\<rparr>"

definition refreshed :: "jsval \<Rightarrow> sync_state \<Rightarrow> sync_state" where
  "refreshed data st = st\<lparr>as_files := listed_files data, as_sel := with_listing (listed_files data) (as_sel st)\<rparr>"

definition prefixed :: "string \<Rightarrow> string \<Rightarrow> string" where
  "prefixed what message = (if message = [] then what @ ''.'' else what @ '': '' @ message)"

subsection \<open>The end of a task\<close>

definition task_failed :: "task_kind \<Rightarrow> string \<Rightarrow> sync_state \<Rightarrow> sync_state" where
  "task_failed kind m st =
     (case kind of
        Write_selection \<Rightarrow> st\<lparr>as_error := Some (prefixed ''Inventory sync failed'' m)\<rparr>
      | Read_selection \<Rightarrow> st
      | Create_inventory \<Rightarrow> st\<lparr>as_error := Some (prefixed ''Inventory creation failed'' m)\<rparr>
      | Rename_device _ _ \<Rightarrow> st\<lparr>as_error := Some (prefixed ''Alias rename failed'' m)\<rparr>
      | Delete_device _ \<Rightarrow> st\<lparr>as_error := Some (prefixed ''Device delete failed'' m)\<rparr>
      | Purge_device _ \<Rightarrow> st\<lparr>as_error := Some (prefixed ''Device cleanup failed'' m)\<rparr>)"

text \<open>The \<open>finally\<close> blocks: the flag is cleared and the change is taken off its queue.\<close>

definition renames_handled :: "nat \<Rightarrow> sync_state \<Rightarrow> sync_state" where
  "renames_handled n st = st\<lparr>as_sel := (as_sel st)\<lparr>ss_aliasRenames := drop n (ss_aliasRenames (as_sel st))\<rparr>\<rparr>"

definition deletes_handled :: "nat \<Rightarrow> sync_state \<Rightarrow> sync_state" where
  "deletes_handled n st = st\<lparr>as_sel := (as_sel st)\<lparr>ss_aliasDeletes := drop n (ss_aliasDeletes (as_sel st))\<rparr>\<rparr>"

definition cleanups_handled :: "nat \<Rightarrow> sync_state \<Rightarrow> sync_state" where
  "cleanups_handled n st = st\<lparr>as_sel := (as_sel st)\<lparr>ss_aliasCleanups := drop n (ss_aliasCleanups (as_sel st))\<rparr>\<rparr>"

definition task_over :: "task_kind \<Rightarrow> sync_state \<Rightarrow> sync_state" where
  "task_over kind st =
     (case kind of
        Write_selection \<Rightarrow> st\<lparr>as_auto := False\<rparr>
      | Read_selection \<Rightarrow> st\<lparr>as_auto := False, as_seeded := True\<rparr>
      | Create_inventory \<Rightarrow> st\<lparr>as_auto := False, as_generateBusy := False\<rparr>
      | Rename_device _ _ \<Rightarrow> renames_handled 1 (st\<lparr>as_auto := False\<rparr>)
      | Delete_device _ \<Rightarrow> deletes_handled 1 (st\<lparr>as_delete := False\<rparr>)
      | Purge_device _ \<Rightarrow> cleanups_handled 1 (st\<lparr>as_delete := False\<rparr>))"

definition fail_task :: "sync_task \<Rightarrow> string \<Rightarrow> sync_state \<Rightarrow> sync_state" where
  "fail_task task m st = task_over (tk_kind task) (task_failed (tk_kind task) m st)"

subsection \<open>The parts of a task\<close>

fun op_applies :: "FileEntry list \<Rightarrow> file_op \<Rightarrow> bool" where
  "op_applies files (Move a b) =
     (list_ex (\<lambda>e. fe_path e = a) files \<and> \<not> list_ex (\<lambda>e. fe_path e = b) files)"
| "op_applies files (Erase a) = list_ex (\<lambda>e. fe_path e = a) files"

fun op_request :: "file_op \<Rightarrow> sync_request" where
  "op_request (Move a b) = Move_file a b"
| "op_request (Erase a) = Delete_file a"

fun op_done :: "sync_task \<Rightarrow> file_op \<Rightarrow> sync_state \<Rightarrow> sync_state" where
  "op_done task (Move a b) st = (if tk_path task = Some a then st\<lparr>as_path := Some b\<rparr> else st)"
| "op_done task (Erase a) st =
     (if tk_path task = Some a then st\<lparr>as_path := None, as_value := [], as_dirty := False\<rparr> else st)"

fun op_error :: "file_op \<Rightarrow> http_reply \<Rightarrow> string option" where
  "op_error (Move a b) res = plain_error res"
| "op_error (Erase a) res = detail_error res"

definition file_triple :: "string \<Rightarrow> string list" where
  "file_triple alias =
     (let safe = sanitizeAliasFilename alias
      in [''host_vars/'' @ safe @ ''.yml'', ''secrets/ssh_keys/'' @ safe, ''secrets/ssh_keys/'' @ safe @ ''.pub''])"

fun file_ops :: "task_kind \<Rightarrow> file_op list" where
  "file_ops (Rename_device a b) = map (\<lambda>(x, y). Move x y) (zip (file_triple a) (file_triple b))"
| "file_ops (Purge_device a) = map Erase (file_triple a)"
| "file_ops _ = []"

fun start_files :: "sync_task \<Rightarrow> file_op list \<Rightarrow> sync_state \<Rightarrow> sync_state" where
  "start_files task [] st = ask Get_files task Refreshing st"
| "start_files task (op # ops) st =
     (if op_applies (tk_files task) op then ask (op_request op) task (Filing (op # ops)) st
      else start_files task ops st)"

definition start_requirements :: "sync_task \<Rightarrow> sync_state \<Rightarrow> sync_state" where
  "start_requirements task st =
     (case tk_kind task of
        Rename_device a b \<Rightarrow> ask (Post_rename a b) task Requirements st
      | Delete_device a \<Rightarrow> ask (Delete_requirements a) task Requirements st
      | Purge_device a \<Rightarrow> ask (Delete_requirements a) task Requirements st
      | _ \<Rightarrow> ask Get_files task Refreshing st)"

text \<open>What a task makes of the inventory: the new document, or nothing to write.\<close>

definition inventory_edit :: "sync_task \<Rightarrow> jsval \<Rightarrow> jsval option" where
  "inventory_edit task data =
     (case tk_kind task of
        Write_selection \<Rightarrow> sync_inventory (mergeRolesByAlias (tk_hostVars task) (selectedRolesByAlias (tk_sel task))) data
      | Rename_device a b \<Rightarrow> rename_in_inventory a b data
      | Delete_device a \<Rightarrow> remove_in_inventory a data
      | Purge_device a \<Rightarrow> remove_in_inventory a data
      | _ \<Rightarrow> None)"

definition inventory_read ::
  "libs \<Rightarrow> (jsval \<Rightarrow> string) \<Rightarrow> sync_task \<Rightarrow> http_reply \<Rightarrow> sync_state \<Rightarrow> sync_state" where
  "inventory_read L to_yaml task res st =
     (case parsed_document L res of
        Inl m \<Rightarrow> fail_task task m st
      | Inr data \<Rightarrow>
          (case inventory_edit task data of
             None \<Rightarrow> if tk_kind task = Write_selection then task_over Write_selection st
                     else start_requirements task st
           | Some d \<Rightarrow> ask (Put_file INVENTORY (to_yaml d)) task (Writing (to_yaml d)) st))"

definition inventory_written :: "sync_task \<Rightarrow> string \<Rightarrow> sync_state \<Rightarrow> sync_state" where
  "inventory_written task content st =
     start_requirements task
       (if tk_path task = Some INVENTORY then st\<lparr>as_value := content, as_dirty := False\<rparr> else st)"

text \<open>\<open>syncSelectionFromInventory\<close> after reading.\<close>

definition selection_read ::
  "libs \<Rightarrow> (string \<Rightarrow> string) \<Rightarrow> sync_task \<Rightarrow> http_reply \<Rightarrow> sync_state \<Rightarrow> sync_state" where
  "selection_read L dp task res st =
     task_over Read_selection
       (case file_content res of
          Inl m \<Rightarrow> st
        | Inr content \<Rightarrow>
            let merged = mergeRolesByAlias (tk_hostVars task) (extractRolesByAlias (yaml_document L) content)
            in if rolesByAliasKey merged \<noteq> rolesByAliasKey (selectedRolesByAlias (tk_sel task))
               then st\<lparr>as_sel := applySelectedRolesByAlias (lib_lc L) dp merged (tk_sel task) (as_sel st)\<rparr>
               else st)"

text \<open>\<open>generateInventory\<close>: an inventory that is there already is no error.\<close>

definition creation_answer :: "http_reply \<Rightarrow> string option" where
  "creation_answer res =
     (case res of
        HttpError status body _ \<Rightarrow>
          if status = 409 \<and> detail_text status body = ''inventory already exists'' then None
          else detail_error res
      | _ \<Rightarrow> detail_error res)"

definition task_answered ::
  "libs \<Rightarrow> (jsval \<Rightarrow> string) \<Rightarrow> (string \<Rightarrow> string) \<Rightarrow> sync_task \<Rightarrow> http_reply \<Rightarrow> sync_state \<Rightarrow> sync_state" where
  "task_answered L to_yaml dp task res st =
     (case tk_phase task of
        Creating \<Rightarrow>
          (case creation_answer res of Some m \<Rightarrow> fail_task task m st | None \<Rightarrow> ask Get_files task Refreshing st)
      | Reading \<Rightarrow>
          if tk_kind task = Read_selection then selection_read L dp task res st
          else inventory_read L to_yaml task res st
      | Writing content \<Rightarrow>
          (case plain_error res of Some m \<Rightarrow> fail_task task m st | None \<Rightarrow> inventory_written task content st)
      | Requirements \<Rightarrow> start_files task (file_ops (tk_kind task)) st
      | Filing [] \<Rightarrow> start_files task [] st
      | Filing (op # ops) \<Rightarrow>
          (case op_error op res of
             Some m \<Rightarrow> fail_task task m st
           | None \<Rightarrow> start_files task ops (op_done task op st))
      | Refreshing \<Rightarrow>
          (case json_answer res of
             Inl m \<Rightarrow> fail_task task m st
           | Inr data \<Rightarrow>
               task_over (tk_kind task)
                 (if tk_kind task = Create_inventory then (refreshed data st)\<lparr>as_error := None\<rparr> else refreshed data st)))"

subsection \<open>The effects\<close>

definition hostVarsAliases :: "libs \<Rightarrow> sync_state \<Rightarrow> string list" where
  "hostVarsAliases L st = hostVarsAliasesFromFiles (lib_lc L) (as_files st)"

definition task_of :: "libs \<Rightarrow> task_kind \<Rightarrow> sync_state \<Rightarrow> sync_task" where
  "task_of L kind st =
     \<lparr>tk_kind = kind, tk_phase = Reading, tk_files = as_files st, tk_path = as_path st, tk_sel = as_sel st,
      tk_hostVars = hostVarsAliases L st\<rparr>"

definition canGenerate :: "sync_state \<Rightarrow> bool" where
  "canGenerate st \<longleftrightarrow>
     \<not> no_id (as_workspace st) \<and> \<not> as_ready st \<and> panelAlias (as_sel st) \<noteq> [] \<and> activeRoles (as_sel st) \<noteq> []
     \<and> cr_host (credentials (as_sel st)) \<noteq> [] \<and> cr_user (credentials (as_sel st)) \<noteq> []"

definition inventory_payload :: "selection_state \<Rightarrow> jsval" where
  "inventory_payload sel =
     (let c = credentials sel; portRaw = trim (cr_port c)
      in JObj ([(''alias'', JStr (panelAlias sel)), (''host'', JStr (cr_host c))]
        @ (if portRaw \<noteq> [] \<and> num_is_int (str_num portRaw) then [(''port'', JNum (str_num portRaw))] else [])
        @ [(''user'', JStr (cr_user c)),
           (''auth_method'', if cr_authMethod c = [] then JNull else JStr (cr_authMethod c)),
           (''selected_roles'', JArr (map JStr (activeRoles sel)))]))"

text \<open>The aliases of the host variable files and the selection become the selection.\<close>

definition role_effect :: "libs \<Rightarrow> (string \<Rightarrow> string) \<Rightarrow> sync_state \<Rightarrow> sync_state" where
  "role_effect L dp st =
     (let current = selectedRolesByAlias (as_sel st);
          merged = mergeRolesByAlias (hostVarsAliases L st) current
      in if no_id (as_workspace st) \<or> hasPendingAliasMutations st then st
         else if rolesByAliasKey merged \<noteq> rolesByAliasKey current \<or> \<not> as_initialDone st
         then st\<lparr>as_sel := applySelectedRolesByAlias (lib_lc L) dp merged (as_sel st) (as_sel st),
                 as_initialDone := True\<rparr>
         else st)"

definition write_effect :: "libs \<Rightarrow> sync_state \<Rightarrow> sync_state" where
  "write_effect L st =
     (if no_id (as_workspace st) \<or> as_auto st \<or> hasPendingAliasMutations st \<or> unsaved_inventory st then st
      else if \<not> as_ready st then
        (if canGenerate st \<and> \<not> as_generateBusy st \<and> \<not> as_loading st
         then ask (Post_inventory (inventory_payload (as_sel st))) (task_of L Create_inventory st) Creating
                (st\<lparr>as_auto := True, as_generateBusy := True, as_error := None\<rparr>)
         else st)
      else if \<not> as_seeded st then st
      else ask (Get_file INVENTORY) (task_of L Write_selection st) Reading
             (st\<lparr>as_auto := True, as_error := None\<rparr>))"

definition read_effect :: "libs \<Rightarrow> sync_state \<Rightarrow> sync_state" where
  "read_effect L st =
     (if no_id (as_workspace st) \<or> \<not> as_ready st \<or> as_auto st \<or> hasPendingAliasMutations st
         \<or> unsaved_inventory st then st
      else ask (Get_file INVENTORY) (task_of L Read_selection st) Reading (st\<lparr>as_auto := True\<rparr>))"

definition start_change :: "libs \<Rightarrow> task_kind \<Rightarrow> sync_state \<Rightarrow> sync_state \<Rightarrow> sync_state" where
  "start_change L kind cap st =
     (if as_ready cap then ask (Get_file INVENTORY) (task_of L kind cap) Reading st
      else start_requirements (task_of L kind cap) st)"

definition rename_effect :: "libs \<Rightarrow> sync_state \<Rightarrow> sync_state" where
  "rename_effect L st =
     (if no_id (as_workspace st) then st
      else case ss_aliasRenames (as_sel st) of
        [] \<Rightarrow> st
      | (a, b) # _ \<Rightarrow>
          if as_auto st then st
          else if a = [] \<or> b = [] \<or> a = b then renames_handled 1 st
          else start_change L (Rename_device a b) st (st\<lparr>as_auto := True\<rparr>))"

definition delete_effect :: "libs \<Rightarrow> sync_state \<Rightarrow> sync_state" where
  "delete_effect L st =
     (if no_id (as_workspace st) then st
      else case ss_aliasDeletes (as_sel st) of
        [] \<Rightarrow> st
      | a # _ \<Rightarrow>
          if as_delete st then st
          else if a = [] then deletes_handled 1 st
          else start_change L (Delete_device a) st (st\<lparr>as_delete := True\<rparr>))"

definition purge_effect :: "libs \<Rightarrow> sync_state \<Rightarrow> sync_state" where
  "purge_effect L st =
     (if no_id (as_workspace st) then st
      else case ss_aliasCleanups (as_sel st) of
        [] \<Rightarrow> st
      | a # _ \<Rightarrow>
          if as_delete st then st
          else if a = [] then cleanups_handled 1 st
          else start_change L (Purge_device a) st (st\<lparr>as_delete := True\<rparr>))"

text \<open>When the inventory counts as read: the effects on \<open>inventorySeededRef\<close>.\<close>

definition seed_workspace :: "sync_state \<Rightarrow> sync_state" where
  "seed_workspace st = st\<lparr>as_seeded := False, as_initialDone := False\<rparr>"

definition seed_ready :: "sync_state \<Rightarrow> sync_state" where
  "seed_ready st = (if as_ready st then st else st\<lparr>as_seeded := False\<rparr>)"

definition seed_active :: "sync_state \<Rightarrow> sync_state" where
  "seed_active st = (if panelAlias (as_sel st) = [] then st else st\<lparr>as_seeded := False\<rparr>)"

definition seed_touched :: "sync_state \<Rightarrow> sync_state" where
  "seed_touched st = (if ss_touched (as_sel st) then st\<lparr>as_seeded := True\<rparr> else st)"

subsection \<open>Events\<close>

datatype sync_event =
  Client sel_event
| Show_file string string
| Edit_file string
| Loading bool
| Activate_alias string
| Role_effect
| Write_effect
| Read_effect
| Rename_effect
| Delete_effect
| Purge_effect
| Seed_workspace
| Seed_ready
| Seed_active
| Seed_touched
| Task_answer nat http_reply

fun sync_step ::
  "libs \<Rightarrow> (jsval \<Rightarrow> string) \<Rightarrow> (string \<Rightarrow> string) \<Rightarrow> sync_event \<Rightarrow> sync_state \<Rightarrow> sync_state" where
  "sync_step L ty dp (Client e) st = st\<lparr>as_sel := sel_step (lib_lc L) dp e (as_sel st)\<rparr>"
| "sync_step L ty dp (Show_file path content) st =
     st\<lparr>as_path := Some path, as_value := content, as_dirty := False\<rparr>"
| "sync_step L ty dp (Edit_file v) st =
     (if as_path st = None then st else st\<lparr>as_value := v, as_dirty := True\<rparr>)"
| "sync_step L ty dp (Loading b) st = st\<lparr>as_loading := b\<rparr>"
| "sync_step L ty dp (Activate_alias a) st = st\<lparr>as_sel := (as_sel st)\<lparr>ss_activeAlias := a\<rparr>\<rparr>"
| "sync_step L ty dp Role_effect st = role_effect L dp st"
| "sync_step L ty dp Write_effect st = write_effect L st"
| "sync_step L ty dp Read_effect st = read_effect L st"
| "sync_step L ty dp Rename_effect st = rename_effect L st"
| "sync_step L ty dp Delete_effect st = delete_effect L st"
| "sync_step L ty dp Purge_effect st = purge_effect L st"
| "sync_step L ty dp Seed_workspace st = seed_workspace st"
| "sync_step L ty dp Seed_ready st = seed_ready st"
| "sync_step L ty dp Seed_active st = seed_active st"
| "sync_step L ty dp Seed_touched st = seed_touched st"
| "sync_step L ty dp (Task_answer i res) st =
     (if i < length (as_tasks st)
      then task_answered L ty dp (as_tasks st ! i) res (st\<lparr>as_tasks := drop_nth i (as_tasks st)\<rparr>) else st)"

definition initial_sync :: "selection_state \<Rightarrow> FileEntry list \<Rightarrow> sync_state" where
  "initial_sync sel files =
     \<lparr>as_sel = sel, as_files = files, as_path = None, as_value = [], as_dirty = False, as_error = None,
      as_generateBusy = False, as_loading = False, as_seeded = False,
      as_initialDone = False, as_auto = False, as_delete = False, as_tasks = [], as_sent = []\<rparr>"

subsection \<open>One task at a time\<close>

definition auto_kind :: "task_kind \<Rightarrow> bool" where
  "auto_kind k = (case k of Delete_device _ \<Rightarrow> False | Purge_device _ \<Rightarrow> False | _ \<Rightarrow> True)"

definition kinds :: "sync_state \<Rightarrow> task_kind list" where
  "kinds st = map tk_kind (as_tasks st)"

text \<open>A change that is being made is the first of its queue.\<close>

fun at_front :: "selection_state \<Rightarrow> task_kind \<Rightarrow> bool" where
  "at_front sel (Rename_device a b) = (\<exists>qs. ss_aliasRenames sel = (a, b) # qs)"
| "at_front sel (Delete_device a) = (\<exists>qs. ss_aliasDeletes sel = a # qs)"
| "at_front sel (Purge_device a) = (\<exists>qs. ss_aliasCleanups sel = a # qs)"
| "at_front sel _ = True"

text \<open>At most one task under each of the two flags, exactly when the flag is set.\<close>

definition sync_ok :: "sync_state \<Rightarrow> bool" where
  "sync_ok st \<longleftrightarrow>
     length (filter auto_kind (kinds st)) = of_bool (as_auto st)
     \<and> length (filter (\<lambda>k. \<not> auto_kind k) (kinds st)) = of_bool (as_delete st)
     \<and> (\<forall>k \<in> set (kinds st). at_front (as_sel st) k)"

type_synonym queues = "(string \<times> string) list \<times> string list \<times> string list"

definition queues :: "selection_state \<Rightarrow> queues" where
  "queues sel = (ss_aliasRenames sel, ss_aliasDeletes sel, ss_aliasCleanups sel)"

definition sync_view :: "sync_state \<Rightarrow> task_kind list \<times> bool \<times> bool \<times> queues" where
  "sync_view st = (kinds st, as_auto st, as_delete st, queues (as_sel st))"

named_theorems view_simps \<open>what the operations do to the tasks, the flags and the queues\<close>

lemma at_front_queues: "queues sel = queues sel' \<Longrightarrow> at_front sel k = at_front sel' k"
  by (cases k) (simp_all add: queues_def)

lemma sync_ok_view: "sync_view st = sync_view st' \<Longrightarrow> sync_ok st = sync_ok st'"
  using at_front_queues [of "as_sel st" "as_sel st'"] by (simp add: sync_ok_def sync_view_def)

lemma queues_frames [simp]:
  "queues (with_listing fs sel) = queues sel"
  "queues (sel\<lparr>ss_activeAlias := a\<rparr>) = queues sel"
  "queues (applySelectedRolesByAlias lc dp rs cap sel) = queues sel"
  by (simp_all add: queues_def with_listing_def applySelectedRolesByAlias_def apply_no_roles_def Let_def)

lemma view_ask [view_simps]:
  "sync_view (ask r task ph st) = (kinds st @ [tk_kind task], as_auto st, as_delete st, queues (as_sel st))"
  by (simp add: sync_view_def ask_def kinds_def)

lemma view_start_files [view_simps]:
  "sync_view (start_files task ops st) = (kinds st @ [tk_kind task], as_auto st, as_delete st, queues (as_sel st))"
  by (induction ops) (simp_all add: view_ask)

lemma view_start_requirements [view_simps]:
  "sync_view (start_requirements task st) = (kinds st @ [tk_kind task], as_auto st, as_delete st, queues (as_sel st))"
  by (simp add: start_requirements_def view_ask split: task_kind.split)

lemma view_start_change [view_simps]:
  "sync_view (start_change L kind cap st) = (kinds st @ [kind], as_auto st, as_delete st, queues (as_sel st))"
  by (simp add: start_change_def view_ask view_start_requirements task_of_def)

lemma op_done_frames [simp]:
  "kinds (op_done task op st) = kinds st" "as_auto (op_done task op st) = as_auto st"
  "as_delete (op_done task op st) = as_delete st" "as_sel (op_done task op st) = as_sel st"
  by (cases op; simp add: kinds_def)+

lemma view_task_over:
  "sync_view st = sync_view st' \<Longrightarrow> sync_view (task_over k st) = sync_view (task_over k st')"
  by (cases k) (simp_all add: sync_view_def task_over_def kinds_def queues_def renames_handled_def deletes_handled_def
      cleanups_handled_def)

lemma view_fail_task: "sync_view (fail_task task m st) = sync_view (task_over (tk_kind task) st)"
  unfolding fail_task_def
  by (rule view_task_over) (cases "tk_kind task"; simp add: sync_view_def task_failed_def kinds_def)

lemma view_refreshed: "sync_view (refreshed data st) = sync_view st"
  by (simp add: sync_view_def refreshed_def kinds_def)

lemma view_asked_eq:
  "sync_view st = sync_view st' \<Longrightarrow>
   (kinds st @ [k], as_auto st, as_delete st, queues (as_sel st)) = (kinds st' @ [k], as_auto st', as_delete st', queues (as_sel st'))"
  by (simp add: sync_view_def)

text \<open>An answer either leads to the next request of the task or ends it.\<close>

lemma view_answered:
  "sync_view (task_answered L ty dp task res st) = (kinds st @ [tk_kind task], as_auto st, as_delete st, queues (as_sel st))
   \<or> sync_view (task_answered L ty dp task res st) = sync_view (task_over (tk_kind task) st)"
proof (cases "tk_phase task")
  case Reading
  show ?thesis
  proof (cases "tk_kind task = Read_selection")
    case True
    have "sync_view (selection_read L dp task res st) = sync_view (task_over Read_selection st)"
      unfolding selection_read_def
      by (rule view_task_over) (simp add: sync_view_def kinds_def Let_def split: sum.split)
    with True Reading show ?thesis
      by (simp add: task_answered_def)
  next
    case False
    with Reading show ?thesis
      by (simp add: task_answered_def inventory_read_def view_fail_task view_simps split: sum.split option.split)
  qed
next
  case (Writing content)
  have "sync_view (inventory_written task content st) = (kinds st @ [tk_kind task], as_auto st, as_delete st, queues (as_sel st))"
    by (simp add: inventory_written_def view_simps kinds_def)
  with Writing show ?thesis
    by (simp add: task_answered_def view_fail_task split: option.split)
next
  case (Filing ops)
  then show ?thesis
    by (cases ops) (simp_all add: task_answered_def view_simps view_fail_task split: option.split)
next
  case Refreshing
  have "sync_view (task_over k (refreshed data st)) = sync_view (task_over k st)"
    "sync_view (task_over k ((refreshed data st)\<lparr>as_error := None\<rparr>)) = sync_view (task_over k st)" for k data
    by (rule view_task_over, simp add: refreshed_def sync_view_def kinds_def)+
  with Refreshing show ?thesis
    by (simp add: task_answered_def view_fail_task split: sum.split)
qed (simp_all add: task_answered_def view_simps view_fail_task split: option.split)

lemma ok_start:
  assumes "sync_ok st" "kinds st' = kinds st @ [k]" "queues (as_sel st') = queues (as_sel st)" "at_front (as_sel st) k"
    "if auto_kind k then \<not> as_auto st \<and> as_auto st' \<and> as_delete st' = as_delete st
     else \<not> as_delete st \<and> as_delete st' \<and> as_auto st' = as_auto st"
  shows "sync_ok st'"
  using assms at_front_queues [OF assms(3)] by (auto simp: sync_ok_def split: if_splits)

lemma ok_next:
  assumes "sync_ok st" "i < length (kinds st)" "kinds st' = drop_nth i (kinds st) @ [kinds st ! i]"
    "queues (as_sel st') = queues (as_sel st)" "as_auto st' = as_auto st" "as_delete st' = as_delete st"
  shows "sync_ok st'"
proof -
  have "set (kinds st') \<subseteq> set (kinds st)"
    using assms(2,3) set_drop_nth [of i "kinds st"] by auto
  moreover have "length (filter P (kinds st')) = length (filter P (kinds st))" for P
    using assms(2,3) length_filter_drop_nth [of i "kinds st" P] by simp
  ultimately show ?thesis
    using assms(1,4-6) at_front_queues [OF assms(4)] by (auto simp: sync_ok_def)
qed

lemma over_view:
  "sync_view (task_over k st) = (kinds st, as_auto st \<and> \<not> auto_kind k, as_delete st \<and> auto_kind k,
     (case k of Rename_device _ _ \<Rightarrow> drop 1 (ss_aliasRenames (as_sel st)) | _ \<Rightarrow> ss_aliasRenames (as_sel st)),
     (case k of Delete_device _ \<Rightarrow> drop 1 (ss_aliasDeletes (as_sel st)) | _ \<Rightarrow> ss_aliasDeletes (as_sel st)),
     (case k of Purge_device _ \<Rightarrow> drop 1 (ss_aliasCleanups (as_sel st)) | _ \<Rightarrow> ss_aliasCleanups (as_sel st)))"
  by (cases k) (simp_all add: sync_view_def task_over_def kinds_def queues_def auto_kind_def renames_handled_def
      deletes_handled_def cleanups_handled_def)

lemma ok_over:
  assumes "sync_ok st" "i < length (kinds st)"
    "sync_view st' = sync_view (task_over (kinds st ! i) (st\<lparr>as_tasks := drop_nth i (as_tasks st)\<rparr>))"
  shows "sync_ok st'"
proof -
  define k where "k = kinds st ! i"
  have ks: "kinds (st\<lparr>as_tasks := drop_nth i (as_tasks st)\<rparr>) = drop_nth i (kinds st)"
    by (simp add: kinds_def drop_nth_def take_map drop_map)
  have view: "kinds st' = drop_nth i (kinds st)" "as_auto st' = (as_auto st \<and> \<not> auto_kind k)"
      "as_delete st' = (as_delete st \<and> auto_kind k)"
      "queues (as_sel st') = queues (as_sel (task_over k (st\<lparr>as_tasks := drop_nth i (as_tasks st)\<rparr>)))"
    using assms(3) over_view [of k "st\<lparr>as_tasks := drop_nth i (as_tasks st)\<rparr>"]
    by (auto simp: sync_view_def k_def ks)
  have count: "length (filter P (kinds st)) = length (filter P (drop_nth i (kinds st))) + of_bool (P k)" for P
    using length_filter_drop_nth [OF assms(2), of P] by (simp add: k_def)
  have flags: "length (filter auto_kind (kinds st')) = of_bool (as_auto st')"
      "length (filter (\<lambda>k. \<not> auto_kind k) (kinds st')) = of_bool (as_delete st')"
    using assms(1) count [of auto_kind] count [of "\<lambda>k. \<not> auto_kind k"]
    by (cases "as_auto st"; cases "as_delete st"; auto simp: sync_ok_def view)+
  have "at_front (as_sel st') k'" if "k' \<in> set (kinds st')" for k'
  proof -
    have other: "auto_kind k' \<noteq> auto_kind k"
      using that flags view(2,3) by (auto simp: filter_empty_conv split: if_splits)
    have "at_front (as_sel st) k'"
      using that assms(1) set_drop_nth [of i "kinds st"] by (auto simp: sync_ok_def view(1))
    moreover have "at_front (as_sel (task_over k (st\<lparr>as_tasks := ts\<rparr>))) k' = at_front (as_sel st) k'" for ts
      using other by (cases k; cases k') (simp_all add: auto_kind_def task_over_def renames_handled_def
          deletes_handled_def cleanups_handled_def)
    ultimately show ?thesis
      using at_front_queues [OF view(4)] by simp
  qed
  with flags show ?thesis
    by (simp add: sync_ok_def)
qed

lemma queues_grow:
  "\<exists>xs ys zs. queues (sel_step lc dp e sel) = (ss_aliasRenames sel @ xs, ss_aliasDeletes sel @ ys, ss_aliasCleanups sel @ zs)"
proof -
  have same: ?thesis if "queues (sel_step lc dp e sel) = queues sel"
    using that by (intro exI [of _ "[]"]) (simp add: queues_def)
  show ?thesis
  proof (cases e)
    case (Update a p)
    then show ?thesis
      by (simp add: queues_def updateServer_def rename_alias_def log_visual_def Let_def split: option.split)
  next
    case (Remove a)
    then show ?thesis
      by (simp add: queues_def removeServer_def removeServerFromClient_def Let_def)
  next
    case (Cleanup a)
    then show ?thesis
      by (simp add: queues_def cleanupServer_def removeServerFromClient_def Let_def)
  qed (rule same; simp add: queues_def addServer_def log_visual_def toggleSelectedForAlias_def toggleSelected_def
      toggleDeployAlias_def selectAllDeployAliases_def deselectAllDeployAliases_def toggleDeployRole_def
      selectAllDeployRoles_def deselectAllDeployRoles_def handleConnectionResult_def handleProviderOrderedServer_def
      run_effects_def pruneDeployRoleFilter_def pruneConnectionResults_def pruneDeployedAliases_def
      pruneDeploySelection_def syncSelectedPlans_def applySelectedRolesByAlias_def apply_no_roles_def Let_def split: prod.split)+
qed

lemma at_front_grow:
  "queues sel' = (ss_aliasRenames sel @ xs, ss_aliasDeletes sel @ ys, ss_aliasCleanups sel @ zs) \<Longrightarrow> at_front sel k \<Longrightarrow> at_front sel' k"
  by (cases k) (auto simp: queues_def)

lemma ok_same: "sync_ok st \<Longrightarrow> sync_view st' = sync_view st \<Longrightarrow> sync_ok st'"
  using sync_ok_view by blast

lemma ok_dropped:
  assumes "sync_ok st" "kinds st' = kinds st" "as_auto st' = as_auto st" "as_delete st' = as_delete st"
    "\<And>k. k \<in> set (kinds st) \<Longrightarrow> at_front (as_sel st') k = at_front (as_sel st) k"
  shows "sync_ok st'"
  using assms by (simp add: sync_ok_def)

lemma no_auto: "sync_ok st \<Longrightarrow> \<not> as_auto st \<Longrightarrow> k \<in> set (kinds st) \<Longrightarrow> \<not> auto_kind k"
  by (auto simp: sync_ok_def filter_empty_conv)

lemma no_delete: "sync_ok st \<Longrightarrow> \<not> as_delete st \<Longrightarrow> k \<in> set (kinds st) \<Longrightarrow> auto_kind k"
  by (auto simp: sync_ok_def filter_empty_conv)

lemma ok_view_start:
  assumes "sync_ok st" "at_front (as_sel st) k"
    "sync_view st' = (kinds st @ [k], if auto_kind k then True else as_auto st, if auto_kind k then as_delete st else True, queues (as_sel st))"
    "if auto_kind k then \<not> as_auto st else \<not> as_delete st"
  shows "sync_ok st'"
  using assms(3,4) by (intro ok_start [OF assms(1) _ _ assms(2)]) (auto simp: sync_view_def split: if_splits)

lemma ok_role: "sync_ok st \<Longrightarrow> sync_ok (role_effect L dp st)"
  by (erule ok_same) (simp add: role_effect_def sync_view_def kinds_def Let_def)

lemma ok_write:
  assumes "sync_ok st"
  shows "sync_ok (write_effect L st)"
proof (cases "as_auto st")
  case False
  have "sync_ok (ask r (task_of L Create_inventory st) ph (st\<lparr>as_auto := True, as_generateBusy := True, as_error := None\<rparr>))"
    "sync_ok (ask r (task_of L Write_selection st) ph (st\<lparr>as_auto := True, as_error := None\<rparr>))" for r ph
    using False by (intro ok_view_start [OF assms, of Create_inventory] ok_view_start [OF assms, of Write_selection];
        simp add: view_simps kinds_def auto_kind_def task_of_def)+
  with assms show ?thesis
    by (simp add: write_effect_def)
qed (use assms in \<open>simp add: write_effect_def\<close>)

lemma at_front_other [simp]:
  "\<not> auto_kind k \<Longrightarrow> at_front (sel\<lparr>ss_aliasRenames := r\<rparr>) k = at_front sel k"
  "auto_kind k \<Longrightarrow> at_front (sel\<lparr>ss_aliasDeletes := ds\<rparr>) k = at_front sel k"
  "auto_kind k \<Longrightarrow> at_front (sel\<lparr>ss_aliasCleanups := ds\<rparr>) k = at_front sel k"
  by (cases k; simp add: auto_kind_def)+

lemma ok_read: "sync_ok st \<Longrightarrow> sync_ok (read_effect L st)"
  by (auto simp: read_effect_def view_simps auto_kind_def task_of_def kinds_def
      intro!: ok_view_start [where st = st and k = Read_selection])

lemma ok_rename:
  assumes "sync_ok st"
  shows "sync_ok (rename_effect L st)"
proof (cases "no_id (as_workspace st) \<or> as_auto st")
  case False
  show ?thesis
  proof (cases "ss_aliasRenames (as_sel st)")
    case (Cons ab qs)
    obtain a b where ab: "ab = (a, b)"
      by (cases ab)
    show ?thesis
    proof (cases "a = [] \<or> b = [] \<or> a = b")
      case True
      have "sync_ok (renames_handled 1 st)"
        using no_auto [OF assms] False
        by (intro ok_dropped [OF assms]) (simp_all add: renames_handled_def kinds_def)
      with True False Cons ab show ?thesis
        by (simp add: rename_effect_def)
    next
      case ok: False
      have "sync_ok (start_change L (Rename_device a b) st (st\<lparr>as_auto := True\<rparr>))"
        using False Cons ab by (intro ok_view_start [OF assms, of "Rename_device a b"]) (simp_all add: view_simps kinds_def auto_kind_def)
      with ok False Cons ab show ?thesis
        by (simp add: rename_effect_def)
    qed
  qed (use assms in \<open>simp add: rename_effect_def\<close>)
qed (use assms in \<open>auto simp: rename_effect_def split: list.split prod.split\<close>)

lemma ok_removal:
  assumes "sync_ok st" "\<not> as_delete st"
  shows "sync_ok (deletes_handled n st)" "sync_ok (cleanups_handled n st)"
    "at_front (as_sel st) k \<Longrightarrow> \<not> auto_kind k \<Longrightarrow> sync_ok (start_change L k st (st\<lparr>as_delete := True\<rparr>))"
proof -
  show "sync_ok (deletes_handled n st)" "sync_ok (cleanups_handled n st)"
    using no_delete [OF assms]
    by (intro ok_dropped [OF assms(1)]; simp add: deletes_handled_def cleanups_handled_def kinds_def)+
  show "sync_ok (start_change L k st (st\<lparr>as_delete := True\<rparr>))" if "at_front (as_sel st) k" "\<not> auto_kind k"
    using that assms(2) by (intro ok_view_start [OF assms(1), of k]) (simp_all add: view_simps kinds_def)
qed

lemma ok_delete: "sync_ok st \<Longrightarrow> sync_ok (delete_effect L st)"
  by (auto simp: delete_effect_def auto_kind_def intro: ok_removal split: list.split)

lemma ok_purge: "sync_ok st \<Longrightarrow> sync_ok (purge_effect L st)"
  by (auto simp: purge_effect_def auto_kind_def intro: ok_removal split: list.split)

lemma sync_ok_step: "sync_ok st \<Longrightarrow> sync_ok (sync_step L ty dp e st)"
proof (cases e)
  case (Client ev)
  assume ok: "sync_ok st"
  obtain xs ys zs where "queues (sel_step (lib_lc L) dp ev (as_sel st))
      = (ss_aliasRenames (as_sel st) @ xs, ss_aliasDeletes (as_sel st) @ ys, ss_aliasCleanups (as_sel st) @ zs)"
    using queues_grow by blast
  from at_front_grow [OF this] ok Client show ?thesis
    by (simp add: sync_ok_def kinds_def)
next
  case (Task_answer i res)
  assume ok: "sync_ok st"
  let ?st = "st\<lparr>as_tasks := drop_nth i (as_tasks st)\<rparr>"
  have ks: "kinds ?st = drop_nth i (kinds st)"
    by (simp add: kinds_def drop_nth_def take_map drop_map)
  show ?thesis
  proof (cases "i < length (as_tasks st)")
    case True
    then have i: "i < length (kinds st)" "kinds st ! i = tk_kind (as_tasks st ! i)"
      by (simp_all add: kinds_def)
    from view_answered [of L ty dp "as_tasks st ! i" res ?st] show ?thesis
    proof
      assume "sync_view (task_answered L ty dp (as_tasks st ! i) res ?st)
          = (kinds ?st @ [tk_kind (as_tasks st ! i)], as_auto ?st, as_delete ?st, queues (as_sel ?st))"
      then have "sync_ok (task_answered L ty dp (as_tasks st ! i) res ?st)"
        by (intro ok_next [OF ok i(1)]) (simp_all add: sync_view_def ks i(2))
      with True Task_answer show ?thesis
        by simp
    next
      assume "sync_view (task_answered L ty dp (as_tasks st ! i) res ?st) = sync_view (task_over (tk_kind (as_tasks st ! i)) ?st)"
      then have "sync_ok (task_answered L ty dp (as_tasks st ! i) res ?st)"
        by (intro ok_over [OF ok i(1)]) (simp add: i(2))
      with True Task_answer show ?thesis
        by simp
    qed
  qed (use ok Task_answer in simp)
qed (auto simp: ok_role ok_write ok_read ok_rename ok_delete ok_purge seed_workspace_def seed_ready_def seed_active_def
    seed_touched_def sync_view_def kinds_def elim!: ok_same)

interpretation synchronisation: machine "sync_step L ty dp" sync_ok
  for L :: libs and ty :: "jsval \<Rightarrow> string" and dp :: "string \<Rightarrow> string"
  by unfold_locales (rule sync_ok_step)

text \<open>
  C33: the effects of the panel work one change at a time: in every run there is at most one task under each of the two
  flags, the flag is set exactly while it runs, and the change under way is the first of its queue, so that the
  end of the task takes this change off and no other.
\<close>

theorem one_change_at_a_time:
  "sync_ok (fold (sync_step L ty dp) es (initial_sync sel files))"
  by (rule synchronisation.every_run_ok) (simp add: sync_ok_def initial_sync_def kinds_def)

subsection \<open>Every change comes to an end\<close>

text \<open>The number of answers a task still needs at most.\<close>

fun rank :: "phase \<Rightarrow> nat" where
  "rank Creating = 2"
| "rank Reading = 7"
| "rank (Writing _) = 6"
| "rank Requirements = 5"
| "rank (Filing ops) = Suc (max 1 (length ops))"
| "rank Refreshing = 1"

definition nearer :: "nat \<Rightarrow> sync_task \<Rightarrow> sync_state \<Rightarrow> sync_state \<Rightarrow> bool" where
  "nearer n task st st' \<longleftrightarrow>
     as_tasks st' = as_tasks st \<or> (\<exists>t. as_tasks st' = as_tasks st @ [t] \<and> tk_kind t = tk_kind task \<and> rank (tk_phase t) < n)"

lemma nearer_cong: "nearer n task st st' \<Longrightarrow> as_tasks st0 = as_tasks st \<Longrightarrow> nearer n task st0 st'"
  by (simp add: nearer_def)

lemma nearer_ask: "rank ph < n \<Longrightarrow> nearer n task st (ask r task ph st)"
  by (simp add: nearer_def ask_def)

lemma nearer_files: "Suc (length ops) < n \<Longrightarrow> nearer n task st (start_files task ops st)"
  by (induction ops) (simp_all add: nearer_ask)

lemma nearer_over: "as_tasks (task_over k st) = as_tasks st" "as_tasks (fail_task task m st) = as_tasks st"
  by (cases k; simp add: task_over_def renames_handled_def deletes_handled_def cleanups_handled_def)
    (cases "tk_kind task"; simp add: fail_task_def task_over_def task_failed_def renames_handled_def deletes_handled_def
      cleanups_handled_def)

lemma nearer_requirements: "5 < n \<Longrightarrow> nearer n task st (start_requirements task st)"
  by (simp add: start_requirements_def nearer_ask split: task_kind.split)

lemma length_file_ops: "length (file_ops k) \<le> 3"
  by (cases k) (simp_all add: file_triple_def Let_def)

lemma answered_nearer: "nearer (rank (tk_phase task)) task st (task_answered L ty dp task res st)"
proof (cases "tk_phase task")
  case Reading
  then show ?thesis
    by (auto simp: task_answered_def inventory_read_def selection_read_def nearer_over nearer_requirements nearer_ask Let_def
        nearer_def [of _ _ st "fail_task _ _ _"] nearer_def [of _ _ st "task_over _ _"] split: sum.split option.split)
next
  case (Writing content)
  have "nearer 6 task st (inventory_written task content st)"
    unfolding inventory_written_def by (rule nearer_cong [OF nearer_requirements]) simp_all
  with Writing show ?thesis
    by (auto simp: task_answered_def nearer_over nearer_def [of _ _ st "fail_task _ _ _"] split: option.split)
next
  case Requirements
  have "nearer 5 task st (start_files task (file_ops (tk_kind task)) st)"
    using length_file_ops [of "tk_kind task"] by (intro nearer_files) simp
  with Requirements show ?thesis
    by (simp add: task_answered_def)
next
  case (Filing ops)
  show ?thesis
  proof (cases ops)
    case (Cons op rest)
    have "as_tasks (op_done task op st) = as_tasks st"
      by (cases op) simp_all
    then have "nearer (Suc (length ops)) task st (start_files task rest (op_done task op st))"
      using Cons by (intro nearer_cong [OF nearer_files]) simp_all
    with Filing Cons show ?thesis
      by (auto simp: task_answered_def nearer_over nearer_def [of _ _ st "fail_task _ _ _"] split: option.split)
  qed (simp add: Filing task_answered_def nearer_ask)
next
  case Refreshing
  then show ?thesis
    by (auto simp: task_answered_def nearer_over refreshed_def nearer_def split: sum.split)
next
  case Creating
  then show ?thesis
    by (auto simp: task_answered_def nearer_over nearer_ask nearer_def [of _ _ st "fail_task _ _ _"] split: option.split)
qed

definition answer_all ::
  "libs \<Rightarrow> (jsval \<Rightarrow> string) \<Rightarrow> (string \<Rightarrow> string) \<Rightarrow> http_reply list \<Rightarrow> sync_state \<Rightarrow> sync_state" where
  "answer_all L ty dp replies st = fold (\<lambda>r. sync_step L ty dp (Task_answer 0 r)) replies st"

lemma answers_idle: "as_tasks st = [] \<Longrightarrow> answer_all L ty dp replies st = st"
  by (induction replies) (simp_all add: answer_all_def)

lemma answers_view:
  assumes "as_tasks st = [t]" "rank (tk_phase t) \<le> length replies"
  shows "sync_view (answer_all L ty dp replies st) = sync_view (task_over (tk_kind t) (st\<lparr>as_tasks := []\<rparr>))"
  using assms
proof (induction replies arbitrary: st t)
  case Nil
  then show ?case
    by (cases "tk_phase t") simp_all
next
  case (Cons r replies)
  define st0 where "st0 = st\<lparr>as_tasks := []\<rparr>"
  define st1 where "st1 = task_answered L ty dp t r st0"
  have all: "answer_all L ty dp (r # replies) st = answer_all L ty dp replies st1"
    using Cons.prems(1) by (simp add: answer_all_def st1_def st0_def)
  have near: "nearer (rank (tk_phase t)) t st0 st1"
    unfolding st1_def by (rule answered_nearer)
  have view: "sync_view st1 = ([tk_kind t], as_auto st, as_delete st, queues (as_sel st))
      \<or> sync_view st1 = sync_view (task_over (tk_kind t) st0)"
    using view_answered [of L ty dp t r st0] by (simp add: st1_def st0_def kinds_def)
  have none: "kinds (task_over (tk_kind t) st0) = []"
    by (simp add: kinds_def nearer_over st0_def)
  show ?case
  proof (cases "as_tasks st1")
    case Nil
    with view have "sync_view st1 = sync_view (task_over (tk_kind t) st0)"
      by (auto simp: sync_view_def kinds_def)
    with Nil show ?thesis
      by (simp add: all answers_idle st0_def)
  next
    case (Cons t' ts)
    with near have t': "as_tasks st1 = [t']" "tk_kind t' = tk_kind t" "rank (tk_phase t') < rank (tk_phase t)"
      by (auto simp: nearer_def st0_def)
    with view none have "sync_view st1 = ([tk_kind t], as_auto st, as_delete st, queues (as_sel st))"
      by (auto simp: sync_view_def kinds_def)
    then have "sync_view (st1\<lparr>as_tasks := []\<rparr>) = sync_view st0"
      by (simp add: sync_view_def kinds_def st0_def)
    from view_task_over [OF this] Cons.IH [OF t'(1)] t'(2,3) Cons.prems(2) show ?thesis
      by (simp add: all st0_def)
  qed
qed

fun proper_change :: "task_kind \<Rightarrow> bool" where
  "proper_change (Rename_device a b) = (a \<noteq> [] \<and> b \<noteq> [] \<and> a \<noteq> b)"
| "proper_change (Delete_device a) = (a \<noteq> [])"
| "proper_change (Purge_device a) = (a \<noteq> [])"
| "proper_change _ = False"

fun effect_for :: "task_kind \<Rightarrow> sync_event" where
  "effect_for (Rename_device _ _) = Rename_effect"
| "effect_for (Delete_device _) = Delete_effect"
| "effect_for _ = Purge_effect"

fun without_front :: "task_kind \<Rightarrow> queues \<Rightarrow> queues" where
  "without_front (Rename_device _ _) (rs, ds, cs) = (tl rs, ds, cs)"
| "without_front (Delete_device _) (rs, ds, cs) = (rs, tl ds, cs)"
| "without_front (Purge_device _) (rs, ds, cs) = (rs, ds, tl cs)"
| "without_front _ q = q"

lemma started_task:
  assumes "as_tasks st = []" "\<not> as_auto st" "\<not> as_delete st" "\<not> no_id (as_workspace st)" "at_front (as_sel st) k" "proper_change k"
  shows "\<exists>t. as_tasks (sync_step L ty dp (effect_for k) st) = [t] \<and> tk_kind t = k \<and> rank (tk_phase t) \<le> 7
    \<and> queues (as_sel (sync_step L ty dp (effect_for k) st)) = queues (as_sel st)
    \<and> (as_auto (sync_step L ty dp (effect_for k) st) \<longrightarrow> auto_kind k)
    \<and> (as_delete (sync_step L ty dp (effect_for k) st) \<longrightarrow> \<not> auto_kind k)"
  using assms by (cases k) (auto simp: rename_effect_def delete_effect_def purge_effect_def start_change_def ask_def task_of_def
      start_requirements_def auto_kind_def)

lemma change_over:
  fixes L ty dp
  assumes "as_tasks st = []" "\<not> as_auto st" "\<not> as_delete st" "\<not> no_id (as_workspace st)" "at_front (as_sel st) k" "proper_change k"
    "7 \<le> length replies"
  defines "st' \<equiv> answer_all L ty dp replies (sync_step L ty dp (effect_for k) st)"
  shows "as_tasks st' = [] \<and> \<not> as_auto st' \<and> \<not> as_delete st' \<and> queues (as_sel st') = without_front k (queues (as_sel st))"
proof -
  define st1 where "st1 = sync_step L ty dp (effect_for k) st"
  obtain t where t: "as_tasks st1 = [t]" "tk_kind t = k" "rank (tk_phase t) \<le> 7" "queues (as_sel st1) = queues (as_sel st)"
      "as_auto st1 \<longrightarrow> auto_kind k" "as_delete st1 \<longrightarrow> \<not> auto_kind k"
    using started_task [OF assms(1-6), of L ty dp] unfolding st1_def by blast
  have "sync_view st' = sync_view (task_over k (st1\<lparr>as_tasks := []\<rparr>))"
    using answers_view [OF t(1), of replies L ty dp] t(2,3) assms(7) by (simp add: st'_def st1_def)
  also note over_view
  finally have view: "sync_view st' = ([], as_auto st1 \<and> \<not> auto_kind k, as_delete st1 \<and> auto_kind k, without_front k (queues (as_sel st1)))"
    by (cases k) (simp_all add: kinds_def queues_def drop_Suc)
  then have "kinds st' = []" "as_auto st' = (as_auto st1 \<and> \<not> auto_kind k)" "as_delete st' = (as_delete st1 \<and> auto_kind k)"
      "queues (as_sel st') = without_front k (queues (as_sel st1))"
    by (simp_all add: sync_view_def)
  then show ?thesis
    using t(4-6) by (auto simp: kinds_def)
qed

text \<open>
  C34: a device renamed, deleted or purged in the client is followed by the files: its change, first of its queue while
  nothing else is under way, is over after seven answers at the latest, whatever these are. Then its flag is
  cleared and it has left its queue, so the next change can start.
\<close>

theorem change_comes_to_an_end:
  fixes L ty dp
  assumes "as_tasks st = []" "\<not> as_auto st" "\<not> as_delete st" "\<not> no_id (as_workspace st)" "at_front (as_sel st) k" "proper_change k"
    "7 \<le> length replies"
  defines "st' \<equiv> answer_all L ty dp replies (sync_step L ty dp (effect_for k) st)"
  shows "as_tasks st' = [] \<and> \<not> as_auto st' \<and> \<not> as_delete st' \<and> queues (as_sel st') = without_front k (queues (as_sel st))"
  unfolding st'_def by (rule change_over [OF assms(1-7)])

definition renamed_state :: sync_state where
  "renamed_state = initial_sync (two_servers\<lparr>ss_aliasRenames := [(''web'', ''shop''), (''db'', ''store'')]\<rparr>) web_vars"

theorem change_comes_to_an_end_witness:
  "as_tasks (answer_all (demo_libs stored_vars) json id (replicate 7 (NetError ''gone''))
      (sync_step (demo_libs stored_vars) json id Rename_effect renamed_state)) = []
   \<and> queues (as_sel (answer_all (demo_libs stored_vars) json id (replicate 7 (NetError ''gone''))
      (sync_step (demo_libs stored_vars) json id Rename_effect renamed_state))) = ([(''db'', ''store'')], [], [])"
proof -
  have facts: "as_tasks renamed_state = []" "\<not> as_auto renamed_state" "\<not> as_delete renamed_state"
    "\<not> no_id (as_workspace renamed_state)" "proper_change (Rename_device ''web'' ''shop'')"
    by (simp_all add: renamed_state_def initial_sync_def as_workspace_def two_servers_def initial_state_def no_id_def)
  have front: "at_front (as_sel renamed_state) (Rename_device ''web'' ''shop'')"
    by (simp add: renamed_state_def initial_sync_def)
  have queue: "without_front (Rename_device ''web'' ''shop'') (queues (as_sel renamed_state)) = ([(''db'', ''store'')], [], [])"
    by (simp add: renamed_state_def initial_sync_def queues_def two_servers_def initial_state_def)
  show ?thesis
    using change_comes_to_an_end [OF facts(1-4) front facts(5), of "replicate 7 (NetError ''gone'')" "demo_libs stored_vars" json id] queue
    by simp
qed

end
