(* ===== verification/AliasRaces.thy ===== *)
theory AliasRaces
  imports AliasSync
begin

text \<open>
  What the effects of the panel do when changes meet: a deleted device whose host variables stay in the workspace,
  and a deletion that overtakes a renaming.
\<close>

subsection \<open>The key of a selection\<close>

lemma length_join: "length (join sep xs) = sum_list (map length xs) + length sep * (length xs - 1)"
  by (induction sep xs rule: join.induct) simp_all

definition entry_text :: "(string \<times> string list) list \<Rightarrow> string \<Rightarrow> string" where
  "entry_text m a = a @ '':'' @ rolesKey (roles_of m a)"

lemma length_key:
  assumes "distinct (map fst m)"
  shows "length (rolesByAliasKey m) = (\<Sum>a \<in> fst ` set m. length (entry_text m a)) + 2 * (length m - 1)"
proof -
  have "length (rolesByAliasKey m) = sum_list (map (\<lambda>a. length (entry_text m a)) (js_sort cu_cmp (own_keys m))) + 2 * (length m - 1)"
    by (simp add: rolesByAliasKey_def length_join entry_text_def roles_of_def comp_def own_keys_def)
  also have "sum_list (map (\<lambda>a. length (entry_text m a)) (js_sort cu_cmp (own_keys m))) = (\<Sum>a \<in> fst ` set m. length (entry_text m a))"
    using assms by (subst sum_list_distinct_conv_sum_set) (simp_all add: distinct_own_keys)
  finally show ?thesis .
qed

lemma length_distinct_keys: "distinct (map fst m) \<Longrightarrow> length m = card (fst ` set m)"
  by (metis distinct_card length_map set_map)

lemma longer_key:
  assumes "distinct (map fst m)" "distinct (map fst m')" "fst ` set m \<subset> fst ` set m'"
    "\<And>a. a \<in> fst ` set m \<Longrightarrow> rolesKey (roles_of m' a) = rolesKey (roles_of m a)"
  shows "rolesByAliasKey m' \<noteq> rolesByAliasKey m"
proof -
  obtain b where b: "b \<in> fst ` set m' - fst ` set m"
    using assms(3) by blast
  have "(\<Sum>a \<in> fst ` set m. length (entry_text m a)) = (\<Sum>a \<in> fst ` set m. length (entry_text m' a))"
    using assms(4) by (intro sum.cong) (simp_all add: entry_text_def)
  also have "\<dots> < (\<Sum>a \<in> fst ` set m'. length (entry_text m' a))"
    using assms(3) b by (intro sum_strict_mono2 [of _ _ b]) (auto simp: entry_text_def)
  finally have "(\<Sum>a \<in> fst ` set m. length (entry_text m a)) < (\<Sum>a \<in> fst ` set m'. length (entry_text m' a))" .
  moreover have "length m \<le> length m'"
    using assms(3) by (simp add: length_distinct_keys assms(1,2) card_mono less_imp_le)
  ultimately have "length (rolesByAliasKey m) < length (rolesByAliasKey m')"
    by (simp add: length_key assms(1,2))
  then show ?thesis
    by auto
qed

subsection \<open>The merged selection\<close>

lemma merge_fold:
  assumes "\<forall>k \<in> fst ` set xs. token k" "distinct (map fst xs)"
  shows "map_of (foldl (\<lambda>merged (alias, roles).
      if trim alias = [] then merged else AList.update (trim alias) (normalizeRoles roles) merged) acc xs) k
    = (case map_of xs k of Some rs \<Rightarrow> Some (normalizeRoles rs) | None \<Rightarrow> map_of acc k)"
  using assms
proof (induction xs arbitrary: acc)
  case (Cons x xs)
  then show ?case
    by (cases x) (auto simp: token_def update_conv' split: option.split dest: map_of_SomeD intro: rev_image_eqI)
qed simp

lemma merge_extra:
  "map_of (foldl (\<lambda>merged alias. if map_of merged alias = None then AList.update alias [] merged else merged) acc hv) k
    = (case map_of acc k of Some rs \<Rightarrow> Some rs | None \<Rightarrow> if k \<in> set hv then Some [] else None)"
  by (induction hv arbitrary: acc) (auto simp: update_conv' split: option.split)

lemma map_of_merge:
  assumes "\<forall>k \<in> fst ` set m. token k" "distinct (map fst m)"
  shows "map_of (mergeRolesByAlias hv m) k =
    (case map_of m k of Some rs \<Rightarrow> Some (normalizeRoles rs) | None \<Rightarrow> if k \<in> set hv then Some [] else None)"
  using assms by (simp add: mergeRolesByAlias_def merge_extra merge_fold map_of_own_entries Let_def split: option.split)

lemma distinct_merge: "distinct (map fst (mergeRolesByAlias hv m))"
proof -
  have fold1: "distinct (map fst acc) \<Longrightarrow> distinct (map fst (foldl (\<lambda>merged (alias, roles).
      if trim alias = [] then merged else AList.update (trim alias) (normalizeRoles roles) merged) acc xs))" for acc xs
    by (induction xs arbitrary: acc) (auto simp: distinct_update)
  have fold2: "distinct (map fst acc) \<Longrightarrow> distinct (map fst (foldl (\<lambda>merged alias.
      if map_of merged alias = None then AList.update alias ([] :: string list) merged else merged) acc hv))" for acc
    by (induction hv arbitrary: acc) (auto simp: distinct_update)
  show ?thesis
    by (simp add: mergeRolesByAlias_def Let_def fold2 fold1)
qed

lemma normalizeRoles_idem: "normalizeRoles (normalizeRoles rs) = normalizeRoles rs"
proof -
  have "map trim (normalizeRoles rs) = normalizeRoles rs"
    using normalizeRoles_token by (intro map_idI) (auto simp: token_def)
  moreover have "nonempties (normalizeRoles rs) = normalizeRoles rs"
    using normalizeRoles_token by (auto simp: nonempties_def token_def intro!: filter_True)
  moreover have "to_set (normalizeRoles rs) = normalizeRoles rs"
    by (simp add: normalizeRoles_def)
  ultimately show ?thesis
    by (metis normalizeRoles_def)
qed

lemma in_keys: "k \<in> fst ` set m \<longleftrightarrow> map_of m k \<noteq> None"
  by (simp add: map_of_eq_None_iff)

lemma merge_keys:
  assumes "\<forall>k \<in> fst ` set m. token k" "distinct (map fst m)"
  shows "fst ` set (mergeRolesByAlias hv m) = fst ` set m \<union> set hv"
proof (rule set_eqI)
  fix k
  have "map_of (mergeRolesByAlias hv m) k \<noteq> None \<longleftrightarrow> map_of m k \<noteq> None \<or> k \<in> set hv"
    unfolding map_of_merge [OF assms] by (cases "map_of m k") simp_all
  then show "k \<in> fst ` set (mergeRolesByAlias hv m) \<longleftrightarrow> k \<in> fst ` set m \<union> set hv"
    by (simp only: in_keys Un_iff)
qed

lemma merge_roles_key:
  assumes "\<forall>k \<in> fst ` set m. token k" "distinct (map fst m)" "k \<in> fst ` set m"
  shows "rolesKey (roles_of (mergeRolesByAlias hv m) k) = rolesKey (roles_of m k)"
proof -
  obtain rs where "map_of m k = Some rs"
    using assms(3) unfolding in_keys by blast
  then show ?thesis
    by (simp add: roles_of_def map_of_merge [OF assms(1,2)] rolesKey_def normalizeRoles_idem)
qed

lemma merge_changes_key:
  assumes "\<forall>k \<in> fst ` set m. token k" "distinct (map fst m)" "a \<in> set hv" "a \<notin> fst ` set m"
  shows "rolesByAliasKey (mergeRolesByAlias hv m) \<noteq> rolesByAliasKey m"
  using assms(3,4) by (intro longer_key [OF assms(2) distinct_merge]) (auto simp only: merge_keys [OF assms(1,2)] merge_roles_key [OF assms(1,2)])

subsection \<open>A deleted device\<close>

text \<open>What deleting a device leaves as it is: the servers and their roles, and every file.\<close>

definition sel_core :: "selection_state \<Rightarrow> ServerState list \<times> (string \<times> string list) list \<times> string \<times> string option" where
  "sel_core sel = (ss_servers sel, ss_selected sel, ss_activeAlias sel, ss_workspaceId sel)"

definition deleted_files :: "sync_state \<Rightarrow> string set" where
  "deleted_files st = {f. Delete_file f \<in> set (as_sent st)}"

definition plain_delete :: "sync_task \<Rightarrow> bool" where
  "plain_delete t \<longleftrightarrow> (case tk_kind t of Delete_device _ \<Rightarrow> True | _ \<Rightarrow> False) \<and> (case tk_phase t of Filing _ \<Rightarrow> False | _ \<Rightarrow> True)"

definition deleting :: "sync_state \<Rightarrow> sync_state \<Rightarrow> bool" where
  "deleting st st' \<longleftrightarrow> sel_core (as_sel st') = sel_core (as_sel st) \<and> deleted_files st' = deleted_files st
     \<and> (\<forall>t \<in> set (as_tasks st'). plain_delete t)"

lemma deleting_over:
  assumes "plain_delete task" "\<forall>t \<in> set (as_tasks st). plain_delete t" "sel_core (as_sel st) = sel_core (as_sel st0)"
    "as_sent st = as_sent st0"
  shows "deleting st0 (task_over (tk_kind task) st)" "deleting st0 (fail_task task m st)"
  using assms by (auto simp: deleting_def plain_delete_def task_over_def fail_task_def task_failed_def deletes_handled_def
      sel_core_def deleted_files_def split: task_kind.splits)

lemma deleting_ask:
  assumes "plain_delete task" "\<forall>t \<in> set (as_tasks st). plain_delete t" "\<forall>f. r \<noteq> Delete_file f" "\<forall>ops. ph \<noteq> Filing ops"
    "sel_core (as_sel st) = sel_core (as_sel st0)" "as_sent st = as_sent st0"
  shows "deleting st0 (ask r task ph st)"
  using assms by (auto simp: deleting_def plain_delete_def ask_def deleted_files_def split: task_kind.splits phase.splits)

lemma deleting_requirements:
  assumes "plain_delete task" "\<forall>t \<in> set (as_tasks st). plain_delete t"
    "sel_core (as_sel st) = sel_core (as_sel st0)" "as_sent st = as_sent st0"
  shows "deleting st0 (start_requirements task st)"
  using assms deleting_ask [OF assms(1,2) _ _ assms(3,4)]
  by (auto simp: start_requirements_def plain_delete_def split: task_kind.splits)

lemma deleting_answered:
  assumes "plain_delete task" "as_tasks st = []"
  shows "deleting st (task_answered L ty dp task res st)"
proof -
  note rules = deleting_over [OF assms(1)] deleting_ask [OF assms(1)] deleting_requirements [OF assms(1)]
  obtain a where a: "tk_kind task = Delete_device a"
    using assms(1) by (auto simp: plain_delete_def split: task_kind.splits)
  show ?thesis
  proof (cases "tk_phase task")
    case Reading
    then show ?thesis
      using a assms(2) by (auto simp: task_answered_def inventory_read_def split: sum.split option.split intro!: rules)
  next
    case (Writing content)
    then show ?thesis
      using assms(2) by (auto simp: task_answered_def inventory_written_def split: option.split intro!: rules)
  next
    case Requirements
    then show ?thesis
      using a assms(2) by (auto simp: task_answered_def intro!: rules)
  next
    case (Filing ops)
    then show ?thesis
      using assms(1) by (simp add: plain_delete_def)
  next
    case Refreshing
    then show ?thesis
      using a assms(2) rules(1) by (auto simp: task_answered_def refreshed_def sel_core_def with_listing_def split: sum.split intro!: rules(2))
  next
    case Creating
    then show ?thesis
      using assms(2) by (auto simp: task_answered_def split: option.split intro!: rules)
  qed
qed

lemma deleting_trans: "deleting a b \<Longrightarrow> deleting b c \<Longrightarrow> deleting a c"
  by (simp add: deleting_def)

lemma deleting_all:
  assumes "as_tasks st = [] \<or> (\<exists>t. as_tasks st = [t] \<and> plain_delete t)"
  shows "deleting st (answer_all L ty dp replies st)"
  using assms
proof (induction replies arbitrary: st)
  case Nil
  then show ?case
    by (auto simp: answer_all_def deleting_def)
next
  case (Cons r replies)
  show ?case
  proof (cases "as_tasks st")
    case Nil
    then show ?thesis
      by (simp add: answers_idle deleting_def)
  next
    case (Cons t ts)
    with Cons.prems have t: "as_tasks st = [t]" "plain_delete t"
      by auto
    define st1 where "st1 = task_answered L ty dp t r (st\<lparr>as_tasks := []\<rparr>)"
    have one: "deleting (st\<lparr>as_tasks := []\<rparr>) st1"
      unfolding st1_def using t(2) by (rule deleting_answered) simp
    have "nearer (rank (tk_phase t)) t (st\<lparr>as_tasks := []\<rparr>) st1"
      unfolding st1_def by (rule answered_nearer)
    with one have "as_tasks st1 = [] \<or> (\<exists>t. as_tasks st1 = [t] \<and> plain_delete t)"
      by (auto simp: nearer_def deleting_def)
    then have "deleting st1 (answer_all L ty dp replies st1)"
      by (rule Cons.IH)
    moreover have "answer_all L ty dp (r # replies) st = answer_all L ty dp replies st1"
      using t(1) by (simp add: answer_all_def st1_def)
    moreover have "deleting st st1"
      using one by (simp add: deleting_def deleted_files_def)
    ultimately show ?thesis
      using deleting_trans by simp
  qed
qed

lemma applied_aliases:
  assumes "distinct (aliases sel)" "a \<in> set (role_aliases rs)"
  shows "a \<in> set (aliases (applySelectedRolesByAlias lc dp rs cap sel))"
proof -
  have "role_aliases rs \<noteq> []"
    using assms(2) by auto
  moreover have "map sv_alias (servers_for lc (role_aliases rs) (ss_servers sel)) =
      aliases sel @ js_sort lc (filter (\<lambda>n. n \<notin> set (aliases sel)) (role_aliases rs))"
    using assms(1) role_aliases_trim by (subst servers_for_aliases) (auto simp: aliases_def)
  ultimately show ?thesis
    using assms(2) by (simp add: applySelectedRolesByAlias_def aliases_def Let_def)
qed

text \<open>
  Deleting a device takes it out of the client and out of the inventory, but the file of its host variables stays.
  The next effect on the roles counts the devices with such a file and puts the deleted one back among the
  servers.
\<close>

theorem deleted_device_returns:
  fixes L ty dp
  assumes "token a" "removeServer a (as_sel st) (as_sel st) = Inr removed" "as_tasks st = []" "\<not> as_auto st" "\<not> as_delete st"
    "queues (as_sel st) = ([], [], [])" "sel_ok (as_sel st)" "\<forall>k \<in> fst ` set (ss_selected (as_sel st)). token k"
    "7 \<le> length replies"
  defines "st2 \<equiv> answer_all L ty dp replies (fold (sync_step L ty dp) [Client (Remove a), Delete_effect] st)"
  assumes "a \<in> set (hostVarsAliases L st2)"
  shows "a \<notin> set (aliases (as_sel st2)) \<and> queues (as_sel st2) = ([], [], []) \<and> as_tasks st2 = []
    \<and> deleted_files st2 = deleted_files st \<and> a \<in> set (aliases (as_sel (sync_step L ty dp Role_effect st2)))"
proof -
  define st1 where "st1 = sync_step L ty dp (Client (Remove a)) st"
  define started where "started = sync_step L ty dp (effect_for (Delete_device a)) st1"
  have a: "a \<noteq> []" "trim a = a"
    using assms(1) by (simp_all add: token_def)
  have ready: "workspace_ready (as_sel st)"
    and removed: "removed = removeServerFromClient a (as_sel st) ((as_sel st)\<lparr>ss_aliasDeletes := [a]\<rparr>)"
    using assms(2,6) a(1) by (auto simp: removeServer_def queues_def split: if_splits)
  have st1: "as_sel st1 = removed" "as_tasks st1 = []" "\<not> as_auto st1" "\<not> as_delete st1" "as_sent st1 = as_sent st"
    using assms(2-5) by (simp_all add: st1_def)
  have sel: "queues removed = ([], [a], [])" "\<not> no_id (ss_workspaceId removed)"
    using assms(6) ready a(1)
    by (auto simp: removed removeServerFromClient_def queues_def workspace_ready_def no_id_def Let_def)
  have over: "queues (as_sel st2) = ([], [], [])" "as_tasks st2 = []"
    using change_over [of st1 "Delete_device a" replies L ty dp] st1 sel a(1) assms(9)
    by (auto simp: st2_def st1_def queues_def as_workspace_def)
  have start: "sync_step L ty dp Delete_effect st1 = start_change L (Delete_device a) st1 (st1\<lparr>as_delete := True\<rparr>)"
    using st1 sel a(1) by (simp add: delete_effect_def queues_def as_workspace_def)
  have plain: "plain_delete (task_of L (Delete_device a) st1)"
    by (simp add: plain_delete_def task_of_def)
  have first: "deleting st1 (sync_step L ty dp Delete_effect st1)"
    unfolding start start_change_def using plain st1(2)
    by (auto intro!: deleting_ask deleting_requirements)
  obtain t where "as_tasks (sync_step L ty dp Delete_effect st1) = [t]"
    using started_task [of st1 "Delete_device a" L ty dp] st1 sel a(1) by (auto simp: queues_def as_workspace_def)
  then have "deleting (sync_step L ty dp Delete_effect st1) st2"
    using first deleting_all [of "sync_step L ty dp Delete_effect st1" L ty dp replies]
    by (simp add: deleting_def st2_def st1_def)
  then have kept: "deleting st1 st2"
    using first deleting_trans by blast
  have core: "ss_servers (as_sel st2) = ss_servers removed" "ss_selected (as_sel st2) = ss_selected removed"
      "ss_workspaceId (as_sel st2) = ss_workspaceId removed"
    using kept st1(1) by (simp_all add: deleting_def sel_core_def)
  have gone: "aliases (as_sel st2) = filter (\<lambda>n. n \<noteq> a) (aliases (as_sel st))"
    using removed_device(1) [OF a(1), of "as_sel st" "(as_sel st)\<lparr>ss_aliasDeletes := [a]\<rparr>"] core(1)
    by (simp add: aliases_def removed)
  have selected: "ss_selected (as_sel st2) = AList.delete a (ss_selected (as_sel st))"
    using core(2) a(1) by (simp add: removed removeServerFromClient_def Let_def)
  let ?m = "selectedRolesByAlias (as_sel st2)" and ?hv = "hostVarsAliases L st2"
  have keys: "\<forall>k \<in> fst ` set ?m. token k" "distinct (map fst ?m)" "a \<notin> fst ` set ?m"
    using assms(7,8) by (auto simp: selectedRolesByAlias_def selected sel_ok_def)
  have "a \<in> set (role_aliases (mergeRolesByAlias ?hv ?m))"
  proof -
    have "a \<in> fst ` set (mergeRolesByAlias ?hv ?m)"
      using assms(11) unfolding merge_keys [OF keys(1,2)] by simp
    then show ?thesis
      using a by (metis (no_types) Diff_iff empty_iff image_eqI insert_iff role_aliases_def set_own_keys set_trimmed_tokens)
  qed
  moreover have "distinct (aliases (as_sel st2))"
    using assms(7) by (simp add: gone sel_ok_def names_ok_def)
  ultimately have "a \<in> set (aliases (as_sel (sync_step L ty dp Role_effect st2)))"
    using merge_changes_key [OF keys(1,2) assms(11) keys(3)] over(1) sel(2) core(3) applied_aliases
    by (simp add: role_effect_def hasPendingAliasMutations_def queues_def as_workspace_def Let_def)
  then show ?thesis
    using gone over kept st1(5) by (auto simp: deleting_def deleted_files_def)
qed

definition quiet_state :: sync_state where
  "quiet_state = (initial_sync (two_servers\<lparr>ss_selected := [(''web'', []), (''db'', [])]\<rparr>) web_vars)\<lparr>as_initialDone := True\<rparr>"

theorem deleted_device_returns_witness:
  "''web'' \<in> set (aliases (as_sel (sync_step (demo_libs stored_vars) json id Role_effect
      (answer_all (demo_libs stored_vars) json id (replicate 7 (NetError ''gone''))
        (fold (sync_step (demo_libs stored_vars) json id) [Client (Remove ''web''), Delete_effect] quiet_state)))))"
proof -
  have sel: "as_sel quiet_state = two_servers\<lparr>ss_selected := [(''web'', []), (''db'', [])]\<rparr>"
    "as_tasks quiet_state = []" "\<not> as_auto quiet_state" "\<not> as_delete quiet_state"
    by (simp_all add: quiet_state_def initial_sync_def)
  have facts: "token ''web''" "queues (as_sel quiet_state) = ([], [], [])" "sel_ok (as_sel quiet_state)"
    "\<forall>k \<in> fst ` set (ss_selected (as_sel quiet_state)). token k" "(7::nat) \<le> length (replicate 7 (NetError ''gone''))"
    by code_simp+
  obtain removed where removed: "removeServer ''web'' (as_sel quiet_state) (as_sel quiet_state) = Inr removed"
    by (simp add: removeServer_def sel workspace_ready_def two_servers_def initial_state_def)
  have files: "''web'' \<in> set (hostVarsAliases (demo_libs stored_vars) (answer_all (demo_libs stored_vars) json id (replicate 7 (NetError ''gone''))
        (fold (sync_step (demo_libs stored_vars) json id) [Client (Remove ''web''), Delete_effect] quiet_state)))"
    by code_simp
  show ?thesis
    using deleted_device_returns [OF facts(1) removed sel(2-4) facts(2-5) files] by blast
qed

subsection \<open>A deletion beside a renaming\<close>

lemma sent_ask: "as_sent (ask r task ph st) = as_sent st @ [r]" "as_tasks (ask r task ph st) = as_tasks st @ [task\<lparr>tk_phase := ph\<rparr>]"
  by (simp_all add: ask_def)

text \<open>
  Renaming and deleting run under different flags, and each reads the inventory before it writes it. When both
  have read before either writes, the last write holds the document without the renaming: the renamed device has
  its roles under the old alias, and none under the new one.
\<close>

theorem deletion_loses_renaming:
  fixes L ty dp
  assumes "as_tasks st = []" "\<not> as_auto st" "\<not> as_delete st" "\<not> no_id (as_workspace st)" "as_ready st"
    "queues (as_sel st) = ((a, b) # rs, d # ds, cs)" "a \<noteq> []" "b \<noteq> []" "a \<noteq> b" "d \<noteq> []" "d \<noteq> a" "d \<noteq> b"
    "parsed_document L res = Inr data" "tidy_inventory data"
    "rename_in_inventory a b data = Some renamed" "remove_in_inventory d data = Some removed" "plain_error ok = None"
  shows "as_sent (fold (sync_step L ty dp)
        [Rename_effect, Delete_effect, Task_answer 0 res, Task_answer 0 res, Task_answer 0 ok, Task_answer 0 ok] st)
      = as_sent st @ [Get_file INVENTORY, Get_file INVENTORY, Put_file INVENTORY (ty renamed), Put_file INVENTORY (ty removed),
                      Post_rename a b, Delete_requirements d]
    \<and> set (roles_of (document_roles removed) a) = set (roles_of (document_roles data) a)
    \<and> set (roles_of (document_roles removed) b) = set (roles_of (document_roles data) b)"
proof -
  have "removed = written data (remove_in_inventory d data)"
    using assms(16) by (simp add: written_def)
  then have "set (roles_of (document_roles removed) x) = (if x = d then {} else set (roles_of (document_roles data) x))" for x
    using remove_document(2) [OF assms(14), of d x] by simp
  moreover have "as_sent (fold (sync_step L ty dp)
        [Rename_effect, Delete_effect, Task_answer 0 res, Task_answer 0 res, Task_answer 0 ok, Task_answer 0 ok] st)
      = as_sent st @ [Get_file INVENTORY, Get_file INVENTORY, Put_file INVENTORY (ty renamed), Put_file INVENTORY (ty removed),
                      Post_rename a b, Delete_requirements d]"
    using assms
    by (simp add: rename_effect_def delete_effect_def start_change_def queues_def as_workspace_def as_ready_def task_of_def
        sent_ask task_answered_def inventory_read_def inventory_edit_def inventory_written_def start_requirements_def ask_def)
  ultimately show ?thesis
    using assms(11,12) by simp
qed

text \<open>
  A deletion writes the inventory also while it is open with changes that are not saved, and puts what it wrote over
  them; the effects on the selection hold back in this case.
\<close>

theorem deletion_overwrites_unsaved:
  fixes L ty dp
  assumes "as_tasks st = []" "\<not> as_delete st" "\<not> no_id (as_workspace st)" "as_ready st" "as_path st = Some INVENTORY"
    "ss_aliasDeletes (as_sel st) = d # ds" "d \<noteq> []" "parsed_document L res = Inr data" "remove_in_inventory d data = Some removed"
    "plain_error ok = None"
  defines "st' \<equiv> fold (sync_step L ty dp) [Delete_effect, Task_answer 0 res, Task_answer 0 ok] st"
  shows "as_value st' = ty removed \<and> \<not> as_dirty st'"
  using assms
  by (simp add: delete_effect_def start_change_def as_workspace_def as_ready_def task_of_def task_answered_def inventory_read_def
      inventory_edit_def inventory_written_def start_requirements_def ask_def)

definition both_queued :: sync_state where
  "both_queued = initial_sync (two_servers\<lparr>ss_aliasRenames := [(''web'', ''shop'')], ss_aliasDeletes := [''db'']\<rparr>) web_vars"

lemma both_queued_facts:
  "as_tasks both_queued = []" "\<not> as_auto both_queued" "\<not> as_delete both_queued" "\<not> no_id (as_workspace both_queued)"
  "as_ready both_queued" "queues (as_sel both_queued) = ([(''web'', ''shop'')], [''db''], [])" "as_sent both_queued = []"
  by (simp_all add: both_queued_def initial_sync_def two_servers_def initial_state_def as_workspace_def no_id_def as_ready_def queues_def)

theorem deletion_loses_renaming_witness:
  "as_sent (fold (sync_step (demo_libs demo_inventory) json id)
      [Rename_effect, Delete_effect, Task_answer 0 (HttpOk (Inr JNull)), Task_answer 0 (HttpOk (Inr JNull)),
       Task_answer 0 (HttpOk (Inr JNull)), Task_answer 0 (HttpOk (Inr JNull))] both_queued)
    = [Get_file INVENTORY, Get_file INVENTORY, Put_file INVENTORY (json (the (rename_in_inventory ''web'' ''shop'' demo_inventory))),
       Put_file INVENTORY (json (the (remove_in_inventory ''db'' demo_inventory))), Post_rename ''web'' ''shop'', Delete_requirements ''db'']
   \<and> set (roles_of (document_roles (the (remove_in_inventory ''db'' demo_inventory))) ''web'') = {''wiki''}"
proof -
  have r1: "rename_in_inventory ''web'' ''shop'' demo_inventory \<noteq> None" and r2: "remove_in_inventory ''db'' demo_inventory \<noteq> None"
    by code_simp+
  have read: "parsed_document (demo_libs demo_inventory) (HttpOk (Inr JNull)) = Inr demo_inventory"
    by code_simp
  have roles: "set (roles_of (document_roles demo_inventory) ''web'') = {''wiki''}"
    by code_simp
  have some: "rename_in_inventory ''web'' ''shop'' demo_inventory = Some (the (rename_in_inventory ''web'' ''shop'' demo_inventory))"
    "remove_in_inventory ''db'' demo_inventory = Some (the (remove_in_inventory ''db'' demo_inventory))"
    using r1 r2 by simp_all
  have ok: "plain_error (HttpOk (Inr JNull)) = None"
    by (simp add: plain_error_def)
  show ?thesis
    using deletion_loses_renaming [OF both_queued_facts(1-6) _ _ _ _ _ _ read demo_tidy some ok, of json id] roles both_queued_facts(7)
    by simp
qed

theorem deletion_overwrites_unsaved_witness:
  "as_value (fold (sync_step (demo_libs demo_inventory) json id)
      [Delete_effect, Task_answer 0 (HttpOk (Inr JNull)), Task_answer 0 (HttpOk (Inr JNull))]
        (both_queued\<lparr>as_path := Some INVENTORY, as_value := ''typed'', as_dirty := True\<rparr>))
    = json (the (remove_in_inventory ''db'' demo_inventory))"
proof -
  let ?st = "both_queued\<lparr>as_path := Some INVENTORY, as_value := ''typed'', as_dirty := True\<rparr>"
  have st: "as_tasks ?st = []" "\<not> as_delete ?st" "\<not> no_id (as_workspace ?st)" "as_ready ?st" "as_path ?st = Some INVENTORY"
    "ss_aliasDeletes (as_sel ?st) = ''db'' # []"
    using both_queued_facts by (simp_all add: as_workspace_def as_ready_def queues_def)
  have read: "parsed_document (demo_libs demo_inventory) (HttpOk (Inr JNull)) = Inr demo_inventory"
    "remove_in_inventory ''db'' demo_inventory \<noteq> None"
    by code_simp+
  have ok: "plain_error (HttpOk (Inr JNull)) = None"
    by (simp add: plain_error_def)
  show ?thesis
    using deletion_overwrites_unsaved [OF st _ read(1) _ ok, where ty = json and dp = id] read(2) by simp
qed

end
