(* ===== verification/OrphanCleanup.thy ===== *)
theory OrphanCleanup
  imports HostVarsSync
begin

text \<open>
  The clean-up of orphaned files (\<open>workspace-panel/useOrphanCleanup.ts\<close>): the scan for host variables and SSH keys
  of devices that the inventory does not name, the selection of files, and their deletion one after the other.
  A scan and a deletion are cut at their answers; \<open>or_sent\<close> logs the requests.
\<close>

subsection \<open>The files of a device\<close>

datatype orphan_kind = Host_vars | Private_key | Public_key

record OrphanCleanupItem =
  oi_path :: string
  oi_alias :: string
  oi_kind :: orphan_kind

text \<open>\<open>/^secrets\/ssh_keys\/([^/]+?)(\.pub)?$/i\<close>: the name and whether it is a public key.\<close>

definition key_name :: "string \<Rightarrow> (string \<times> bool) option" where
  "key_name path =
     (let name = drop 17 path in
      if to_lower (take 17 path) = ''secrets/ssh_keys/'' \<and> name \<noteq> [] \<and> CHR ''/'' \<notin> set name
      then Some (if ends_with (to_lower name) ''.pub'' \<and> length name > 4 then (take (length name - 4) name, True)
                 else (name, False))
      else None)"

definition orphan_item :: "string list \<Rightarrow> FileEntry \<Rightarrow> OrphanCleanupItem option" where
  "orphan_item inventoryAliases entry =
     (let item = (\<lambda>name kind.
          if trim name = [] \<or> trim name \<in> set inventoryAliases then None
          else Some \<lparr>oi_path = fe_path entry, oi_alias = trim name, oi_kind = kind\<rparr>)
      in if fe_is_dir entry then None
         else case host_vars_name (fe_path entry) of
           Some name \<Rightarrow> item name Host_vars
         | None \<Rightarrow>
             (case key_name (fe_path entry) of
                Some (name, pub) \<Rightarrow> item name (if pub then Public_key else Private_key)
              | None \<Rightarrow> None))"

definition inventory_aliases :: "libs \<Rightarrow> string \<Rightarrow> string list" where
  "inventory_aliases L content =
     to_set (nonempties (map trim (own_keys (extractRolesByAlias (yaml_document L) content))))"

definition orphan_items :: "libs \<Rightarrow> string list \<Rightarrow> FileEntry list \<Rightarrow> OrphanCleanupItem list" where
  "orphan_items L inventoryAliases files =
     js_sort (\<lambda>a b. lib_lc L (oi_path a) (oi_path b)) (List.map_filter (orphan_item inventoryAliases) files)"

subsection \<open>State\<close>

datatype orphan_task =
  Scanning "FileEntry list"
| Deleting "string option" "string list" "string list" "OrphanCleanupItem list"
| Listing_rest "string list" "OrphanCleanupItem list"

record orphan_state =
  or_workspace :: "string option"
  or_files :: "FileEntry list"
  or_path :: "string option"
  or_value :: string
  or_dirty :: bool
  or_open :: bool
  or_loading :: bool
  or_busy :: bool
  or_items :: "OrphanCleanupItem list"
  or_selected :: "(string \<times> bool) list"
  or_error :: "string option"
  or_status :: "string option"
  or_tasks :: "orphan_task list"
  or_sent :: "sync_request list"

definition all_selected :: "OrphanCleanupItem list \<Rightarrow> (string \<times> bool) list" where
  "all_selected items = foldl (\<lambda>m item. AList.update (oi_path item) True m) [] items"

definition send_orphan :: "sync_request \<Rightarrow> orphan_task \<Rightarrow> orphan_state \<Rightarrow> orphan_state" where
  "send_orphan r t st = st\<lparr>or_sent := or_sent st @ [r], or_tasks := or_tasks st @ [t]\<rparr>"

subsection \<open>The scan\<close>

definition scan_done :: "OrphanCleanupItem list \<Rightarrow> orphan_state \<Rightarrow> orphan_state" where
  "scan_done items st = st\<lparr>or_items := items, or_selected := all_selected items, or_loading := False\<rparr>"

definition scan_failed :: "string \<Rightarrow> orphan_state \<Rightarrow> orphan_state" where
  "scan_failed m st = st\<lparr>or_items := [], or_selected := [], or_error := Some m, or_loading := False\<rparr>"

definition openOrphanCleanupDialog_begin :: "libs \<Rightarrow> orphan_state \<Rightarrow> orphan_state" where
  "openOrphanCleanupDialog_begin L st =
     (if no_id (or_workspace st) then st
      else let st1 = st\<lparr>or_open := True, or_loading := True, or_error := None, or_status := None\<rparr>
           in if list_ex (\<lambda>entry. fe_path entry = ''inventory.yml'') (or_files st)
              then send_orphan (Get_file ''inventory.yml'') (Scanning (or_files st)) st1
              else scan_done (orphan_items L [] (or_files st)) st1)"

definition openOrphanCleanupDialog_end :: "libs \<Rightarrow> FileEntry list \<Rightarrow> http_reply \<Rightarrow> orphan_state \<Rightarrow> orphan_state" where
  "openOrphanCleanupDialog_end L files res st =
     (case res of
        NetError m \<Rightarrow> scan_failed m st
      | HttpError status _ _ \<Rightarrow> scan_failed (''Inventory read failed (HTTP '' @ dec_digits status @ '').'') st
      | HttpOk (Inl m) \<Rightarrow> scan_failed m st
      | HttpOk (Inr data) \<Rightarrow>
          scan_done (orphan_items L (inventory_aliases L (str_nn (jget data ''content''))) files) st)"

subsection \<open>The selection\<close>

definition toggleOrphanSelection :: "string \<Rightarrow> bool \<Rightarrow> orphan_state \<Rightarrow> orphan_state" where
  "toggleOrphanSelection path checked st = st\<lparr>or_selected := AList.update path checked (or_selected st)\<rparr>"

definition setOrphanSelectionAll :: "bool \<Rightarrow> orphan_state \<Rightarrow> orphan_state" where
  "setOrphanSelectionAll checked st =
     st\<lparr>or_selected := foldl (\<lambda>m item. AList.update (oi_path item) checked m) (or_selected st) (or_items st)\<rparr>"

subsection \<open>The deletion\<close>

definition selectedPaths :: "orphan_state \<Rightarrow> string list" where
  "selectedPaths st = filter (\<lambda>path. map_of (or_selected st) path = Some True) (map oi_path (or_items st))"

definition delete_failed :: "string \<Rightarrow> orphan_state \<Rightarrow> orphan_state" where
  "delete_failed m st = st\<lparr>or_error := Some m, or_busy := False\<rparr>"

text \<open>
  The paths that are left of the selection; the closure holds the whole selection, the items and the open path.
\<close>

definition delete_next :: "string option \<Rightarrow> string list \<Rightarrow> string list \<Rightarrow> OrphanCleanupItem list \<Rightarrow> orphan_state \<Rightarrow> orphan_state" where
  "delete_next activePath rest all items st =
     (case rest of
        [] \<Rightarrow> send_orphan Get_files (Listing_rest all items) st
      | path # _ \<Rightarrow> send_orphan (Delete_file path) (Deleting activePath rest all items) st)"

definition deleteOrphanCleanupSelection_begin :: "bool \<Rightarrow> orphan_state \<Rightarrow> orphan_state" where
  "deleteOrphanCleanupSelection_begin confirmed st =
     (if no_id (or_workspace st) then st
      else if selectedPaths st = [] then st\<lparr>or_error := Some ''Select at least one file to delete.''\<rparr>
      else if \<not> confirmed then st
      else delete_next (or_path st) (selectedPaths st) (selectedPaths st) (or_items st)
             (st\<lparr>or_busy := True, or_error := None, or_status := None\<rparr>))"

definition path_deleted :: "string option \<Rightarrow> string \<Rightarrow> orphan_state \<Rightarrow> orphan_state" where
  "path_deleted activePath path st =
     (if activePath = Some path then st\<lparr>or_path := None, or_value := [], or_dirty := False\<rparr> else st)"

definition delete_listed :: "string list \<Rightarrow> OrphanCleanupItem list \<Rightarrow> http_reply \<Rightarrow> orphan_state \<Rightarrow> orphan_state" where
  "delete_listed all items res st =
     (case json_answer res of
        Inl m \<Rightarrow> delete_failed m st
      | Inr data \<Rightarrow>
          (let nextItems = filter (\<lambda>item. oi_path item \<notin> set all) items
           in st\<lparr>or_files := listed_files data, or_items := nextItems, or_selected := all_selected nextItems,
                 or_status := Some (''Deleted '' @ dec_digits (length all) @ '' orphan file(s).''), or_busy := False\<rparr>))"

definition orphan_answered :: "libs \<Rightarrow> orphan_task \<Rightarrow> http_reply \<Rightarrow> orphan_state \<Rightarrow> orphan_state" where
  "orphan_answered L task res st =
     (case task of
        Scanning files \<Rightarrow> openOrphanCleanupDialog_end L files res st
      | Deleting activePath rest all items \<Rightarrow>
          (case detail_error res of
             Some m \<Rightarrow> delete_failed m st
           | None \<Rightarrow> delete_next activePath (tl rest) all items (path_deleted activePath (hd rest) st))
      | Listing_rest all items \<Rightarrow> delete_listed all items res st)"

datatype orphan_event =
  Open_cleanup
| Close_cleanup
| Toggle_file string bool
| Select_all_files bool
| Delete_files bool
| Orphan_answer nat http_reply

fun orphan_step :: "libs \<Rightarrow> orphan_event \<Rightarrow> orphan_state \<Rightarrow> orphan_state" where
  "orphan_step L Open_cleanup st = openOrphanCleanupDialog_begin L st"
| "orphan_step L Close_cleanup st = (if or_busy st \<or> or_loading st then st else st\<lparr>or_open := False\<rparr>)"
| "orphan_step L (Toggle_file path checked) st = toggleOrphanSelection path checked st"
| "orphan_step L (Select_all_files checked) st = setOrphanSelectionAll checked st"
| "orphan_step L (Delete_files confirmed) st = deleteOrphanCleanupSelection_begin confirmed st"
| "orphan_step L (Orphan_answer i res) st =
     (if i < length (or_tasks st)
      then orphan_answered L (or_tasks st ! i) res (st\<lparr>or_tasks := drop_nth i (or_tasks st)\<rparr>) else st)"

subsection \<open>What a scan offers\<close>

text \<open>The device a file belongs to, by its name.\<close>

definition device_file :: "FileEntry \<Rightarrow> string option" where
  "device_file entry =
     (if fe_is_dir entry then None
      else case (case host_vars_name (fe_path entry) of Some name \<Rightarrow> Some name | None \<Rightarrow> map_option fst (key_name (fe_path entry))) of
        None \<Rightarrow> None
      | Some name \<Rightarrow> if trim name = [] then None else Some (trim name))"

lemma orphan_item_device:
  "orphan_item known entry = Some item \<Longrightarrow> device_file entry = Some (oi_alias item) \<and> oi_path item = fe_path entry \<and> oi_alias item \<notin> set known"
  "orphan_item known entry = None \<longleftrightarrow> (case device_file entry of None \<Rightarrow> True | Some a \<Rightarrow> a \<in> set known)"
  by (auto simp: orphan_item_def device_file_def Let_def split: option.splits if_splits)

lemma offered_paths:
  "p \<in> oi_path ` set (orphan_items L known files) \<longleftrightarrow>
     (\<exists>entry \<in> set files. fe_path entry = p \<and> (\<exists>a. device_file entry = Some a \<and> a \<notin> set known))"
proof
  assume "p \<in> oi_path ` set (orphan_items L known files)"
  then obtain entry item where "entry \<in> set files" "orphan_item known entry = Some item" "p = oi_path item"
    by (auto simp: orphan_items_def set_map_filter)
  with orphan_item_device(1) show "\<exists>entry \<in> set files. fe_path entry = p \<and> (\<exists>a. device_file entry = Some a \<and> a \<notin> set known)"
    by metis
next
  assume "\<exists>entry \<in> set files. fe_path entry = p \<and> (\<exists>a. device_file entry = Some a \<and> a \<notin> set known)"
  then obtain entry a where e: "entry \<in> set files" "fe_path entry = p" "device_file entry = Some a" "a \<notin> set known"
    by blast
  then obtain item where "orphan_item known entry = Some item"
    using orphan_item_device(2) [of known entry] by (cases "orphan_item known entry") auto
  with e orphan_item_device(1) [OF this] show "p \<in> oi_path ` set (orphan_items L known files)"
    by (force simp: orphan_items_def set_map_filter)
qed

lemma all_selected_paths: "map_of (all_selected items) p = (if p \<in> oi_path ` set items then Some True else None)"
proof -
  have "map_of (foldl (\<lambda>m item. AList.update (oi_path item) True m) acc items) p =
      (if p \<in> oi_path ` set items then Some True else map_of acc p)" for acc
    by (induction items arbitrary: acc) (auto simp: update_conv')
  then show ?thesis
    by (simp add: all_selected_def)
qed

lemma selected_all: "selectedPaths (st\<lparr>or_items := items, or_selected := all_selected items, or_loading := b\<rparr>) = map oi_path items"
  by (auto simp: selectedPaths_def all_selected_paths intro!: filter_True)

lemma scan_result:
  fixes L data
  assumes "\<not> no_id (or_workspace st)" "or_tasks st = []" "\<exists>entry \<in> set (or_files st). fe_path entry = ''inventory.yml''"
  defines "st' \<equiv> fold (orphan_step L) [Open_cleanup, Orphan_answer 0 (HttpOk (Inr data))] st"
    and "found \<equiv> orphan_items L (inventory_aliases L (str_nn (jget data ''content''))) (or_files st)"
  shows "or_items st' = found" "selectedPaths st' = map oi_path found" "\<not> or_loading st'" "or_error st' = None"
proof -
  have "st' = scan_done found (st\<lparr>or_open := True, or_loading := True, or_error := None, or_status := None,
      or_sent := or_sent st @ [Get_file ''inventory.yml''], or_tasks := []\<rparr>)"
    using assms(1-3)
    by (simp add: st'_def found_def openOrphanCleanupDialog_begin_def send_orphan_def list_ex_iff orphan_answered_def
        openOrphanCleanupDialog_end_def Let_def)
  then show "or_items st' = found" "selectedPaths st' = map oi_path found" "\<not> or_loading st'" "or_error st' = None"
    using selected_all by (simp_all add: scan_done_def)
qed

text \<open>
  C29: a scan offers the host variables and the SSH keys of the devices that the inventory does not name, and nothing else;
  all of them are selected.
\<close>

theorem scan_offers_orphans:
  fixes L data
  assumes "\<not> no_id (or_workspace st)" "or_tasks st = []" "\<exists>entry \<in> set (or_files st). fe_path entry = ''inventory.yml''"
  defines "st' \<equiv> fold (orphan_step L) [Open_cleanup, Orphan_answer 0 (HttpOk (Inr data))] st"
  shows "(p \<in> set (selectedPaths st') \<longleftrightarrow>
      (\<exists>entry a. entry \<in> set (or_files st) \<and> fe_path entry = p \<and> device_file entry = Some a
        \<and> a \<notin> trim ` set (own_keys (extractRolesByAlias (yaml_document L) (str_nn (jget data ''content''))))))
    \<and> selectedPaths st' = map oi_path (or_items st') \<and> \<not> or_loading st' \<and> or_error st' = None"
proof -
  note r = scan_result [OF assms(1-3), of L data, folded st'_def]
  have "device_file entry = Some a \<Longrightarrow> a \<in> set (inventory_aliases L c) \<longleftrightarrow>
      a \<in> trim ` set (own_keys (extractRolesByAlias (yaml_document L) c))" for entry a c
    by (auto simp: device_file_def inventory_aliases_def set_nonempties split: if_splits option.splits)
  then have "p \<in> set (selectedPaths st') \<longleftrightarrow>
      (\<exists>entry a. entry \<in> set (or_files st) \<and> fe_path entry = p \<and> device_file entry = Some a
        \<and> a \<notin> trim ` set (own_keys (extractRolesByAlias (yaml_document L) (str_nn (jget data ''content'')))))"
    unfolding r(2) set_map offered_paths by blast
  with r show ?thesis
    by simp
qed

text \<open>
  A scan whose inventory cannot be parsed takes every device for one the inventory does not name: all host variables
  and SSH keys of the workspace are offered, and all of them are selected.
\<close>

theorem unreadable_inventory_offers_all:
  fixes L data
  assumes "\<not> no_id (or_workspace st)" "or_tasks st = []" "\<exists>entry \<in> set (or_files st). fe_path entry = ''inventory.yml''"
    "lib_yaml L (str_nn (jget data ''content'')) = Inl m"
  defines "st' \<equiv> fold (orphan_step L) [Open_cleanup, Orphan_answer 0 (HttpOk (Inr data))] st"
  shows "set (selectedPaths st') = fe_path ` {entry \<in> set (or_files st). device_file entry \<noteq> None}
    \<and> \<not> or_loading st' \<and> or_error st' = None"
proof -
  note r = scan_result [OF assms(1-3), of L data, folded st'_def]
  have none: "inventory_aliases L (str_nn (jget data ''content'')) = []"
    using assms(4) by (simp add: inventory_aliases_def extractRolesByAlias_def yaml_document_def own_keys_def own_entries_def nonempties_def)
  have "oi_path ` set (orphan_items L [] (or_files st)) = fe_path ` {entry \<in> set (or_files st). device_file entry \<noteq> None}"
    by (rule set_eqI) (simp add: offered_paths, blast)
  with r show ?thesis
    by (simp add: none)
qed

subsection \<open>A deletion\<close>

definition orphan_answers :: "libs \<Rightarrow> http_reply list \<Rightarrow> orphan_state \<Rightarrow> orphan_state" where
  "orphan_answers L replies st = fold (\<lambda>r. orphan_step L (Orphan_answer 0 r)) replies st"

lemma deleted_in_turn:
  assumes "or_tasks st = [Deleting ap rest all items]" "length oks \<le> length rest" "\<forall>r \<in> set oks. detail_error r = None" "rest \<noteq> []"
    "hd rest = p" "or_sent st = sent @ [Delete_file p]"
  shows "let st' = orphan_answers L oks st in
    or_tasks st' = [if length oks = length rest then Listing_rest all items else Deleting ap (drop (length oks) rest) all items]
    \<and> or_sent st' = sent @ map Delete_file (take (Suc (length oks)) rest) @ (if length oks = length rest then [Get_files] else [])
    \<and> or_items st' = or_items st \<and> or_selected st' = or_selected st \<and> or_error st' = or_error st \<and> or_busy st' = or_busy st"
  using assms
proof (induction oks arbitrary: st rest sent p)
  case Nil
  then show ?case
    by (cases rest) (auto simp: orphan_answers_def Let_def)
next
  case (Cons r oks)
  obtain q qs where rest: "rest = q # qs"
    using Cons.prems(4) by (cases rest) auto
  define st1 where "st1 = orphan_step L (Orphan_answer 0 r) st"
  have step: "st1 = delete_next ap qs all items (path_deleted ap q (st\<lparr>or_tasks := []\<rparr>))"
    using Cons.prems(1,3) by (simp add: st1_def rest orphan_answered_def)
  have frame: "or_items (path_deleted ap x s) = or_items s" "or_selected (path_deleted ap x s) = or_selected s"
     "or_error (path_deleted ap x s) = or_error s" "or_busy (path_deleted ap x s) = or_busy s"
     "or_sent (path_deleted ap x s) = or_sent s" "or_tasks (path_deleted ap x s) = or_tasks s" for x s
    by (simp_all add: path_deleted_def)
  have all: "orphan_answers L (r # oks) st = orphan_answers L oks st1" and idle: "orphan_answers L [] st1 = st1"
    by (simp_all add: orphan_answers_def st1_def)
  show ?case
  proof (cases qs)
    case Nil
    then have "oks = []"
      using Cons.prems(2) rest by simp
    with Nil show ?thesis
      using Cons.prems(5,6) all idle
      by (simp add: step delete_next_def send_orphan_def rest frame Let_def)
  next
    case (Cons q' qs')
    have "or_tasks st1 = [Deleting ap qs all items]" "or_sent st1 = (sent @ [Delete_file q]) @ [Delete_file q']"
      "or_items st1 = or_items st" "or_selected st1 = or_selected st" "or_error st1 = or_error st" "or_busy st1 = or_busy st"
      using Cons.prems(5,6) by (simp_all add: step Cons delete_next_def send_orphan_def frame rest)
    with Cons.IH [of st1 qs q' "sent @ [Delete_file q]"] Cons.prems(2,3) show ?thesis
      by (simp add: all rest Cons Let_def)
  qed
qed

lemma deletion_started:
  fixes L
  assumes "\<not> no_id (or_workspace st)" "or_tasks st = []" "selectedPaths st \<noteq> []"
  defines "st1 \<equiv> orphan_step L (Delete_files True) st"
  shows "or_tasks st1 = [Deleting (or_path st) (selectedPaths st) (selectedPaths st) (or_items st)]"
    "or_sent st1 = or_sent st @ [Delete_file (hd (selectedPaths st))]"
    "or_items st1 = or_items st" "or_selected st1 = or_selected st" "or_error st1 = None" "or_busy st1"
  using assms by (cases "selectedPaths st"; simp add: deleteOrphanCleanupSelection_begin_def delete_next_def send_orphan_def)+

text \<open>
  C40: the chosen files are deleted one after the other. The first refusal ends the deletion and shows its reason; the
  files deleted by then stay in the list, selected. When all are accepted the list is what was not chosen.
\<close>

theorem files_deleted_in_turn:
  fixes L
  assumes "\<not> no_id (or_workspace st)" "or_tasks st = []" "selectedPaths st \<noteq> []" "\<forall>r \<in> set oks. detail_error r = None"
    "length oks \<le> length (selectedPaths st)"
  defines "after_reply \<equiv> \<lambda>r. orphan_answers L (oks @ [r]) (orphan_step L (Delete_files True) st)"
  shows "if length oks < length (selectedPaths st)
    then detail_error r = Some m \<longrightarrow>
      or_sent (after_reply r) = or_sent st @ map Delete_file (take (Suc (length oks)) (selectedPaths st))
      \<and> or_error (after_reply r) = Some m \<and> \<not> or_busy (after_reply r) \<and> or_items (after_reply r) = or_items st
      \<and> selectedPaths (after_reply r) = selectedPaths st
    else json_answer r = Inr data \<longrightarrow>
      or_sent (after_reply r) = or_sent st @ map Delete_file (selectedPaths st) @ [Get_files]
      \<and> or_error (after_reply r) = None \<and> \<not> or_busy (after_reply r)
      \<and> map oi_path (or_items (after_reply r)) = filter (\<lambda>p. p \<notin> set (selectedPaths st)) (map oi_path (or_items st))"
proof -
  define st1 where "st1 = orphan_step L (Delete_files True) st"
  define st2 where "st2 = orphan_answers L oks st1"
  note s = deletion_started [OF assms(1-3), of L, folded st1_def]
  note d = deleted_in_turn [OF s(1) assms(5,4,3) refl s(2), of L, unfolded Let_def, folded st2_def]
  have last: "after_reply r = orphan_step L (Orphan_answer 0 r) st2"
    by (simp add: after_reply_def st2_def st1_def orphan_answers_def)
  show ?thesis
  proof (cases "length oks < length (selectedPaths st)")
    case True
    then have "or_tasks st2 = [Deleting (or_path st) (drop (length oks) (selectedPaths st)) (selectedPaths st) (or_items st)]"
        "or_sent st2 = or_sent st @ map Delete_file (take (Suc (length oks)) (selectedPaths st))"
      using d by auto
    with True d s(3-6) show ?thesis
      by (auto simp: last orphan_answered_def delete_failed_def selectedPaths_def)
  next
    case False
    then have "or_tasks st2 = [Listing_rest (selectedPaths st) (or_items st)]"
        "or_sent st2 = or_sent st @ map Delete_file (selectedPaths st) @ [Get_files]"
      using d assms(5) by auto
    with False d s(3-6) show ?thesis
      by (auto simp: last orphan_answered_def delete_listed_def filter_map comp_def Let_def)
  qed
qed

subsection \<open>Concrete runs\<close>

definition scanned_files :: "FileEntry list" where
  "scanned_files = map (\<lambda>p. \<lparr>fe_path = p, fe_is_dir = False, fe_size = None\<rparr>)
     [''README.md'', ''inventory.yml'', ''host_vars/web.yml'', ''secrets/ssh_keys/db.pub'']"

definition demo_orphans :: orphan_state where
  "demo_orphans =
     \<lparr>or_workspace = Some ''w1'', or_files = scanned_files, or_path = Some ''host_vars/web.yml'', or_value = ''x: 1'', or_dirty = True,
      or_open = False, or_loading = False, or_busy = False, or_items = [], or_selected = [], or_error = None,
      or_status = None, or_tasks = [], or_sent = []\<rparr>"

definition broken_libs :: libs where
  "broken_libs = \<lparr>lib_yaml = (\<lambda>s. Inl ''bad indentation''), lib_json_error = id, lib_lc = (\<lambda>_ _. 0)\<rparr>"

definition two_orphans :: "OrphanCleanupItem list" where
  "two_orphans = [\<lparr>oi_path = ''host_vars/web.yml'', oi_alias = ''web'', oi_kind = Host_vars\<rparr>,
     \<lparr>oi_path = ''secrets/ssh_keys/db.pub'', oi_alias = ''db'', oi_kind = Public_key\<rparr>]"

definition offered_orphans :: orphan_state where
  "offered_orphans = demo_orphans\<lparr>or_open := True, or_items := two_orphans, or_selected := all_selected two_orphans\<rparr>"

theorem scan_offers_orphans_witness:
  "''secrets/ssh_keys/db.pub'' \<in> set (selectedPaths (fold (orphan_step (demo_libs (JObj [])))
      [Open_cleanup, Orphan_answer 0 (HttpOk (Inr JNull))] demo_orphans))"
proof -
  have facts: "\<not> no_id (or_workspace demo_orphans)" "or_tasks demo_orphans = []"
    by code_simp+
  have found: "\<exists>entry \<in> set (or_files demo_orphans). fe_path entry = ''inventory.yml''"
    by (simp add: demo_orphans_def scanned_files_def)
  have key: "device_file (or_files demo_orphans ! 3) = Some ''db''" "fe_path (or_files demo_orphans ! 3) = ''secrets/ssh_keys/db.pub''"
    "or_files demo_orphans ! 3 \<in> set (or_files demo_orphans)"
    "own_keys (extractRolesByAlias (yaml_document (demo_libs (JObj []))) (str_nn (jget JNull ''content''))) = []"
    by code_simp+
  have new: "''db'' \<notin> trim ` set (own_keys (extractRolesByAlias (yaml_document (demo_libs (JObj []))) (str_nn (jget JNull ''content''))))"
    unfolding key(4) by simp
  have "\<exists>entry a. entry \<in> set (or_files demo_orphans) \<and> fe_path entry = ''secrets/ssh_keys/db.pub'' \<and> device_file entry = Some a
      \<and> a \<notin> trim ` set (own_keys (extractRolesByAlias (yaml_document (demo_libs (JObj []))) (str_nn (jget JNull ''content''))))"
    using key(1-3) new by blast
  then show ?thesis
    by (rule scan_offers_orphans [OF facts found, THEN conjunct1, THEN iffD2])
qed

theorem unreadable_inventory_offers_all_witness:
  "''host_vars/web.yml'' \<in> set (selectedPaths (fold (orphan_step broken_libs)
      [Open_cleanup, Orphan_answer 0 (HttpOk (Inr JNull))] demo_orphans))"
proof -
  have facts: "\<not> no_id (or_workspace demo_orphans)" "or_tasks demo_orphans = []"
    by code_simp+
  have found: "\<exists>entry \<in> set (or_files demo_orphans). fe_path entry = ''inventory.yml''"
    by (simp add: demo_orphans_def scanned_files_def)
  have bad: "lib_yaml broken_libs (str_nn (jget JNull ''content'')) = Inl ''bad indentation''"
    by (simp add: broken_libs_def)
  have vars: "device_file (or_files demo_orphans ! 2) \<noteq> None" "fe_path (or_files demo_orphans ! 2) = ''host_vars/web.yml''"
    "or_files demo_orphans ! 2 \<in> set (or_files demo_orphans)"
    by code_simp+
  have "''host_vars/web.yml'' \<in> fe_path ` {entry \<in> set (or_files demo_orphans). device_file entry \<noteq> None}"
    using vars by (metis (mono_tags, lifting) imageI mem_Collect_eq)
  then show ?thesis
    unfolding unreadable_inventory_offers_all [OF facts found bad, THEN conjunct1] .
qed

theorem files_deleted_in_turn_witness:
  "let st' = orphan_answers broken_libs [HttpOk (Inr JNull), HttpError 503 (Some (JObj [(''detail'', JStr ''locked'')])) (Inl [])]
      (orphan_step broken_libs (Delete_files True) offered_orphans)
   in or_sent st' = [Delete_file ''host_vars/web.yml'', Delete_file ''secrets/ssh_keys/db.pub'']
    \<and> or_error st' = Some ''locked'' \<and> map oi_path (or_items st') = [''host_vars/web.yml'', ''secrets/ssh_keys/db.pub'']"
proof -
  have facts: "\<not> no_id (or_workspace offered_orphans)" "or_tasks offered_orphans = []" "selectedPaths offered_orphans \<noteq> []"
    by code_simp+
  have replies: "\<forall>r \<in> set [HttpOk (Inr JNull)]. detail_error r = None" "length [HttpOk (Inr JNull)] \<le> length (selectedPaths offered_orphans)"
    by code_simp+
  have rest: "length [HttpOk (Inr JNull)] < length (selectedPaths offered_orphans)"
    "selectedPaths offered_orphans = [''host_vars/web.yml'', ''secrets/ssh_keys/db.pub'']" "or_sent offered_orphans = []"
    "map oi_path (or_items offered_orphans) = [''host_vars/web.yml'', ''secrets/ssh_keys/db.pub'']"
    by code_simp+
  have refused: "detail_error (HttpError 503 (Some (JObj [(''detail'', JStr ''locked'')])) (Inl [])) = Some ''locked''"
    by (simp add: detail_error_def detail_text_def)
  note r = files_deleted_in_turn [OF facts replies, of "HttpError 503 (Some (JObj [(''detail'', JStr ''locked'')])) (Inl [])" "''locked''" broken_libs,
      unfolded if_P [OF rest(1)], rule_format, OF refused]
  show ?thesis
    unfolding Let_def using r rest(2-4) by (simp only: append.simps length_Cons list.size take_Suc_Cons list.map take0 simp_thms)
qed

end
