(* ===== verification/WorkspaceList.thy ===== *)
theory WorkspaceList
  imports WorkspaceEditor
begin

text \<open>
  The workspaces of a user (\<open>actions/core/workspaces.ts\<close>, the session state of
  \<open>useWorkspacePanelSessionState.ts\<close> and the first steps of \<open>actions/core/main.ts\<close>): which workspace the page opens,
  selecting, creating and deleting one, and the list the browser remembers. A callback is cut at its \<open>await\<close>s: a
  request under way is an element of \<open>wk_tasks\<close> with what the closure captured, its answer an event; \<open>wk_sent\<close> logs the
  requests. The workspace that is open is the one of the editor's state.
\<close>

subsection \<open>State\<close>

datatype list_request =
  List_workspaces
| List_files string
| Create_workspace "string option"
| Delete_workspace string

text \<open>What the callbacks of one rendering have captured.\<close>

record closure =
  cl_user :: "string option"
  cl_openDirs :: "string list"
  cl_workspace :: "string option"

text \<open>What a selection goes on with: nothing, the end of a deletion, or the rest of the opening of the page.\<close>

datatype after_select =
  Chosen
| After_deletion
| Next_candidate "string option" string "string list"
| Next_stored string
| Next_create

datatype list_task =
  Init_list "string option"
| Select_files string after_select
| Prime_cookie
| Create_post
| Created_files string jsval
| Created_list string jsval
| Delete_post string
| Deleted_list string

record list_state =
  wk_user :: "string option"
  wk_list :: "WorkspaceListEntry list"
  wk_loading :: bool
  wk_error :: "string option"
  wk_deleting :: "string option"
  wk_ed :: editor_state
  wk_reported :: "string option"
  wk_window :: session_store
  wk_url :: "string option"
  wk_cookie :: string
  wk_tasks :: "(closure \<times> list_task) list"
  wk_sent :: "list_request list"

definition WORKSPACE_STORAGE_KEY :: string where
  "WORKSPACE_STORAGE_KEY = ''infinito.workspace_id''"

definition USER_STORAGE_KEY :: string where
  "USER_STORAGE_KEY = ''infinito.user_id''"

definition USER_WORKSPACE_CURRENT_PREFIX :: string where
  "USER_WORKSPACE_CURRENT_PREFIX = ''infinito.workspace.current.''"

abbreviation wk_id :: "list_state \<Rightarrow> string option" where
  "wk_id st \<equiv> ed_workspace (wk_ed st)"

definition closure_of :: "list_state \<Rightarrow> closure" where
  "closure_of st = \<lparr>cl_user = wk_user st, cl_openDirs = ed_openDirs (wk_ed st), cl_workspace = wk_id st\<rparr>"

definition send_list :: "list_request \<Rightarrow> closure \<Rightarrow> list_task \<Rightarrow> list_state \<Rightarrow> list_state" where
  "send_list r c t st = st\<lparr>wk_sent := wk_sent st @ [r], wk_tasks := wk_tasks st @ [(c, t)]\<rparr>"

definition storage_item :: "string \<Rightarrow> list_state \<Rightarrow> string option" where
  "storage_item key st = (case wk_window st of None \<Rightarrow> None | Some items \<Rightarrow> map_of items key)"

definition set_item :: "string \<Rightarrow> string \<Rightarrow> list_state \<Rightarrow> list_state" where
  "set_item key v st = st\<lparr>wk_window := map_option (AList.update key v) (wk_window st)\<rparr>"

definition remove_item :: "string \<Rightarrow> list_state \<Rightarrow> list_state" where
  "remove_item key st = st\<lparr>wk_window := map_option (AList.delete key) (wk_window st)\<rparr>"

definition set_current :: "string option \<Rightarrow> string \<Rightarrow> list_state \<Rightarrow> list_state" where
  "set_current user i st =
     (if no_id user then st else set_item (USER_WORKSPACE_CURRENT_PREFIX @ the user) i st)"

definition forget_current :: "string option \<Rightarrow> list_state \<Rightarrow> list_state" where
  "forget_current user st =
     (if no_id user then st else remove_item (USER_WORKSPACE_CURRENT_PREFIX @ the user) st)"

definition stored_current :: "string option \<Rightarrow> list_state \<Rightarrow> string option" where
  "stored_current user st =
     (if no_id user then None else storage_item (USER_WORKSPACE_CURRENT_PREFIX @ the user) st)"

definition save_list :: "string option \<Rightarrow> WorkspaceListEntry list \<Rightarrow> list_state \<Rightarrow> list_state" where
  "save_list user ws st =
     (if no_id user then st else st\<lparr>wk_window := saveWorkspaceList (the user) ws (wk_window st)\<rparr>)"

text \<open>The workspace that is open, also as it is reported to the page.\<close>

definition setWorkspaceId :: "string option \<Rightarrow> list_state \<Rightarrow> list_state" where
  "setWorkspaceId i st = st\<lparr>wk_ed := (wk_ed st)\<lparr>ed_workspace := i\<rparr>, wk_reported := i\<rparr>"

definition updateWorkspaceUrl :: "string option \<Rightarrow> list_state \<Rightarrow> list_state" where
  "updateWorkspaceUrl i st = st\<lparr>wk_url := (if no_id i then None else i)\<rparr>"

definition readQueryParam :: "list_state \<Rightarrow> string option" where
  "readQueryParam st = (if no_id (wk_url st) then None else map_option trim (wk_url st))"

definition resetWorkspaceState :: "list_state \<Rightarrow> list_state" where
  "resetWorkspaceState st = st\<lparr>wk_ed := (wk_ed st)
     \<lparr>ed_files := [], ed_openDirs := [], ed_path := None, ed_value := [], ed_dirty := False, ed_loading := False,
      ed_error := None, ed_status := None, ed_kdbxEntries := [], ed_kdbxError := None, ed_kdbxLoading := False,
      ed_kdbxPrompt := False, ed_kdbxRevealed := [], ed_inventoryReady := False\<rparr>\<rparr>"

subsection \<open>The list of workspaces\<close>

definition list_entry :: "jsval \<Rightarrow> WorkspaceListEntry option" where
  "list_entry entry =
     (let workspaceId = trim (str_or (js_or (jget entry ''workspace_id'') (jget entry ''id''))) in
      if workspaceId = [] then None
      else Some
        \<lparr>wl_id = workspaceId,
         wl_name = Some (js_str (js_or (jget entry ''name'') (JStr workspaceId))),
         wl_state = Some (to_lower (js_str (js_or (jget entry ''state'') (JStr ''draft'')))),
         wl_created_at = coalesce (jget entry ''created_at'') JNull,
         wl_last_modified_at = coalesce (jget entry ''last_modified_at'') JNull,
         wl_last_used = coalesce (jget entry ''last_used'') JNull\<rparr>)"

definition normalizeWorkspaceList :: "jsval \<Rightarrow> WorkspaceListEntry list" where
  "normalizeWorkspaceList items = List.map_filter list_entry (arr_items items)"

record api_list =
  al_supported :: bool
  al_authenticated :: bool
  al_userId :: "string option"
  al_workspaces :: "WorkspaceListEntry list"
  al_unauthorized :: bool

definition no_list :: api_list where
  "no_list = \<lparr>al_supported = False, al_authenticated = False, al_userId = None, al_workspaces = [], al_unauthorized = False\<rparr>"

definition fetched_list :: "http_reply \<Rightarrow> api_list" where
  "fetched_list res =
     (case res of
        NetError _ \<Rightarrow> no_list
      | HttpError status _ _ \<Rightarrow> if status = 401 then no_list\<lparr>al_supported := True, al_unauthorized := True\<rparr> else no_list
      | HttpOk (Inl _) \<Rightarrow> no_list
      | HttpOk (Inr data) \<Rightarrow>
          \<lparr>al_supported = True, al_authenticated = truthy (jget data ''authenticated''),
           al_userId = (let u = trim (str_or (jget data ''user_id'')) in if u = [] then None else Some u),
           al_workspaces = normalizeWorkspaceList (jget data ''workspaces''), al_unauthorized = False\<rparr>)"

text \<open>\<open>fetchWorkspaceListFromApi\<close> sets the user that the answer names.\<close>

definition fetchWorkspaceListFromApi :: "http_reply \<Rightarrow> list_state \<Rightarrow> api_list \<times> list_state" where
  "fetchWorkspaceListFromApi res st =
     (let api = fetched_list res in
      (api, if al_authenticated api \<and> al_userId api \<noteq> None then st\<lparr>wk_user := al_userId api\<rparr> else st))"

definition refreshWorkspaceListFromApi :: "http_reply \<Rightarrow> list_state \<Rightarrow> WorkspaceListEntry list option \<times> list_state" where
  "refreshWorkspaceListFromApi res st =
     (let (api, st1) = fetchWorkspaceListFromApi res st in
      if \<not> al_supported api then (None, st1)
      else if \<not> al_authenticated api then (Some [], st1\<lparr>wk_list := []\<rparr>)
      else (Some (al_workspaces api), save_list (al_userId api) (al_workspaces api) (st1\<lparr>wk_list := al_workspaces api\<rparr>)))"

definition rememberWorkspace :: "string option \<Rightarrow> string \<Rightarrow> jsval \<Rightarrow> string \<Rightarrow> list_state \<Rightarrow> list_state" where
  "rememberWorkspace user i createdAt now st =
     (if no_id user then st
      else
        let next = (if list_ex (\<lambda>entry. wl_id entry = i) (wk_list st)
            then map (\<lambda>entry. if wl_id entry = i
                   then entry\<lparr>wl_last_used := JStr now,
                          wl_created_at := coalesce (wl_created_at entry) (coalesce createdAt (JStr now))\<rparr>
                   else entry) (wk_list st)
            else wk_list st @ [\<lparr>wl_id = i, wl_name = None, wl_state = None, wl_created_at = coalesce createdAt (JStr now),
                   wl_last_modified_at = JUndefined, wl_last_used = JStr now\<rparr>])
        in set_current user i (save_list user next (st\<lparr>wk_list := next\<rparr>)))"

subsection \<open>The files of a workspace\<close>

text \<open>\<open>refreshFiles\<close> looks at the directories that were open when its closure was made.\<close>

definition filled :: "closure \<Rightarrow> http_reply \<Rightarrow> list_state \<Rightarrow> string + list_state" where
  "filled c res st =
     (case json_answer res of
        Inl m \<Rightarrow> Inl m
      | Inr data \<Rightarrow>
          let nextFiles = map file_entry (arr_items (jget data ''files''));
              ed = syncInventoryReady nextFiles ((wk_ed st)\<lparr>ed_files := nextFiles\<rparr>)
          in Inr (st\<lparr>wk_ed := (if cl_openDirs c = []
                    then ed\<lparr>ed_openDirs := to_set (map fe_path (filter fe_is_dir nextFiles))\<rparr> else ed)\<rparr>))"

subsection \<open>Selecting\<close>

definition selectWorkspace_begin :: "closure \<Rightarrow> string \<Rightarrow> after_select \<Rightarrow> list_state \<Rightarrow> list_state" where
  "selectWorkspace_begin c i k st =
     (if i = [] then st
      else send_list (List_files i) c (Select_files i k) (resetWorkspaceState (st\<lparr>wk_loading := True, wk_error := None\<rparr>)))"

definition selectWorkspace_end :: "closure \<Rightarrow> string \<Rightarrow> http_reply \<Rightarrow> list_state \<Rightarrow> bool \<times> list_state" where
  "selectWorkspace_end c i res st =
     (case filled c res st of
        Inl m \<Rightarrow> (False, st\<lparr>wk_error := Some m, wk_loading := False\<rparr>)
      | Inr st1 \<Rightarrow>
          (True, (updateWorkspaceUrl (Some i) (set_current (cl_user c) i
             (set_item WORKSPACE_STORAGE_KEY i (setWorkspaceId (Some i) st1))))\<lparr>wk_loading := False\<rparr>))"

subsection \<open>Creating\<close>

definition create_failed :: "string \<Rightarrow> list_state \<Rightarrow> list_state" where
  "create_failed m st = st\<lparr>wk_error := Some m, wk_loading := False\<rparr>"

definition create_post :: "closure \<Rightarrow> list_state \<Rightarrow> list_state" where
  "create_post c st =
     (let csrf = trim (wk_cookie st)
      in send_list (Create_workspace (if csrf = [] then None else Some csrf)) c Create_post st)"

definition createWorkspace_begin :: "closure \<Rightarrow> list_state \<Rightarrow> list_state" where
  "createWorkspace_begin c st =
     (let st1 = st\<lparr>wk_loading := True, wk_error := None\<rparr>
      in if trim (wk_cookie st) = [] then send_list List_workspaces c Prime_cookie st1 else create_post c st1)"

definition created :: "closure \<Rightarrow> http_reply \<Rightarrow> list_state \<Rightarrow> list_state" where
  "created c res st =
     (case json_answer res of
        Inl m \<Rightarrow> create_failed m st
      | Inr data \<Rightarrow>
          (let i = str_nn (jget data ''workspace_id'') in
           if i = [] then create_failed ''workspace id missing'' st
           else send_list (List_files i) c (Created_files i (coalesce (jget data ''created_at'') JNull))
                  (setWorkspaceId (Some i) (resetWorkspaceState st))))"

definition created_filled :: "closure \<Rightarrow> string \<Rightarrow> jsval \<Rightarrow> http_reply \<Rightarrow> list_state \<Rightarrow> list_state" where
  "created_filled c i createdAt res st =
     (case filled c res st of
        Inl m \<Rightarrow> create_failed m st
      | Inr st1 \<Rightarrow> send_list List_workspaces c (Created_list i createdAt) st1)"

definition created_listed :: "closure \<Rightarrow> string \<Rightarrow> jsval \<Rightarrow> http_reply \<Rightarrow> string \<Rightarrow> list_state \<Rightarrow> list_state" where
  "created_listed c i createdAt res now st =
     (let (api, st1) = fetchWorkspaceListFromApi res st;
          st2 = (if \<not> al_supported api then st1
                 else if al_authenticated api
                 then set_current (al_userId api) i (save_list (al_userId api) (al_workspaces api) (st1\<lparr>wk_list := al_workspaces api\<rparr>))
                 else st1\<lparr>wk_list := []\<rparr>);
          st3 = (if \<not> no_id (cl_user c) \<and> \<not> al_supported api then rememberWorkspace (cl_user c) i createdAt now st2
                 else set_item WORKSPACE_STORAGE_KEY i st2)
      in (updateWorkspaceUrl (Some i) st3)\<lparr>wk_loading := False\<rparr>)"

subsection \<open>Opening the page\<close>

definition not_found :: "string \<Rightarrow> string" where
  "not_found requested = ''Workspace '' @ [char_of (39 :: nat)] @ requested @ [char_of (39 :: nat)] @ '' not found.''"

fun try_candidates :: "closure \<Rightarrow> string option \<Rightarrow> string list \<Rightarrow> list_state \<Rightarrow> list_state" where
  "try_candidates c requested [] st = createWorkspace_begin c st"
| "try_candidates c requested (x # xs) st = selectWorkspace_begin c x (Next_candidate requested x xs) st"

definition try_stored :: "closure \<Rightarrow> list_state \<Rightarrow> list_state" where
  "try_stored c st =
     (if no_id (storage_item WORKSPACE_STORAGE_KEY st) then createWorkspace_begin c st
      else selectWorkspace_begin c (the (storage_item WORKSPACE_STORAGE_KEY st)) Next_create st)"

definition candidates :: "string option \<Rightarrow> string option \<Rightarrow> WorkspaceListEntry list \<Rightarrow> string list" where
  "candidates requested stored ws =
     nonempties (map (\<lambda>i. opt_else i []) [requested, stored, (case ws of [] \<Rightarrow> None | entry # _ \<Rightarrow> Some (wl_id entry))])"

definition initWorkspace_begin :: "closure \<Rightarrow> list_state \<Rightarrow> list_state" where
  "initWorkspace_begin c st =
     send_list List_workspaces c (Init_list (readQueryParam st)) (st\<lparr>wk_loading := True, wk_error := None\<rparr>)"

definition initWorkspace_listed :: "closure \<Rightarrow> string option \<Rightarrow> http_reply \<Rightarrow> list_state \<Rightarrow> list_state" where
  "initWorkspace_listed c requested res st =
     (let (api, st1) = fetchWorkspaceListFromApi res st;
          apiUserId = (if al_userId api \<noteq> None then al_userId api else if no_id (cl_user c) then None else cl_user c)
      in if al_supported api \<and> al_authenticated api then
           (let ws = al_workspaces api;
                st2 = save_list apiUserId ws (st1\<lparr>wk_list := ws\<rparr>)
            in if ws = []
               then (forget_current apiUserId (updateWorkspaceUrl None (setWorkspaceId None (resetWorkspaceState st2))))\<lparr>wk_loading := False\<rparr>
               else try_candidates c requested (candidates requested (stored_current apiUserId st2) ws) st2)
         else if al_supported api \<and> \<not> no_id (cl_user c) then st1\<lparr>wk_user := None, wk_list := [], wk_loading := False\<rparr>
         else
           (let st2 = (if al_supported api then st1\<lparr>wk_list := []\<rparr> else st1)
            in if \<not> no_id (cl_user c)
               then (let ws = loadWorkspaceList (the (cl_user c)) (wk_window st2)
                     in try_candidates c requested (candidates requested (stored_current (cl_user c) st2) ws) (st2\<lparr>wk_list := ws\<rparr>))
               else if \<not> no_id requested then selectWorkspace_begin c (the requested) (Next_stored (the requested)) st2
               else try_stored c st2))"

text \<open>What follows a selection.\<close>

fun selected_next :: "closure \<Rightarrow> after_select \<Rightarrow> bool \<Rightarrow> list_state \<Rightarrow> list_state" where
  "selected_next c Chosen good st = st"
| "selected_next c After_deletion good st = st\<lparr>wk_deleting := None\<rparr>"
| "selected_next c (Next_candidate requested x xs) good st =
     (if good then st
      else try_candidates c requested xs
             (if \<not> no_id requested \<and> requested = Some x then st\<lparr>wk_error := Some (not_found x)\<rparr> else st))"
| "selected_next c (Next_stored requested) good st =
     (if good then st else try_stored c (st\<lparr>wk_error := Some (not_found requested)\<rparr>))"
| "selected_next c Next_create good st =
     (if good then st else createWorkspace_begin c (remove_item WORKSPACE_STORAGE_KEY st))"

subsection \<open>Deleting\<close>

definition deleteWorkspace_begin :: "closure \<Rightarrow> string \<Rightarrow> bool \<Rightarrow> list_state \<Rightarrow> list_state" where
  "deleteWorkspace_begin c i confirmed st =
     (if trim i = [] \<or> \<not> confirmed then st
      else send_list (Delete_workspace (trim i)) c (Delete_post (trim i)) (st\<lparr>wk_error := None, wk_deleting := Some (trim i)\<rparr>))"

definition workspace_deleted :: "closure \<Rightarrow> string \<Rightarrow> http_reply \<Rightarrow> list_state \<Rightarrow> list_state" where
  "workspace_deleted c i res st =
     (case detail_error res of
        Some m \<Rightarrow> st\<lparr>wk_error := Some m, wk_deleting := None\<rparr>
      | None \<Rightarrow> send_list List_workspaces c (Deleted_list i) st)"

definition deletion_listed :: "closure \<Rightarrow> string \<Rightarrow> http_reply \<Rightarrow> list_state \<Rightarrow> list_state" where
  "deletion_listed c i res st =
     (let (apiList, st1) = refreshWorkspaceListFromApi res st;
          st2 = (if apiList = None \<and> \<not> no_id (cl_user c)
                 then (let next = filter (\<lambda>entry. wl_id entry \<noteq> i) (wk_list st1)
                       in save_list (cl_user c) next (st1\<lparr>wk_list := next\<rparr>))
                 else st1)
      in if cl_workspace c = Some i then
           (let st3 = forget_current (cl_user c) (updateWorkspaceUrl None (setWorkspaceId None (resetWorkspaceState st2)))
            in case List.find (\<lambda>entry. wl_id entry \<noteq> i) (case apiList of None \<Rightarrow> [] | Some ws \<Rightarrow> ws) of
                 Some entry \<Rightarrow>
                   if wl_id entry = [] then st3\<lparr>wk_deleting := None\<rparr>
                   else selectWorkspace_begin c (wl_id entry) After_deletion st3
               | None \<Rightarrow> st3\<lparr>wk_deleting := None\<rparr>)
         else
           (if stored_current (cl_user c) st2 = Some i then forget_current (cl_user c) st2 else st2)\<lparr>wk_deleting := None\<rparr>)"

subsection \<open>Events\<close>

fun list_answered :: "closure \<Rightarrow> list_task \<Rightarrow> http_reply \<Rightarrow> string \<Rightarrow> list_state \<Rightarrow> list_state" where
  "list_answered c (Init_list requested) res now st = initWorkspace_listed c requested res st"
| "list_answered c (Select_files i k) res now st = (let (good, st1) = selectWorkspace_end c i res st in selected_next c k good st1)"
| "list_answered c Prime_cookie res now st = create_post c st"
| "list_answered c Create_post res now st = created c res st"
| "list_answered c (Created_files i createdAt) res now st = created_filled c i createdAt res st"
| "list_answered c (Created_list i createdAt) res now st = created_listed c i createdAt res now st"
| "list_answered c (Delete_post i) res now st = workspace_deleted c i res st"
| "list_answered c (Deleted_list i) res now st = deletion_listed c i res st"

text \<open>
  The user of the session, from the address of the page or from the storage. When the user changes, the next rendering
  clears the list of a user who is gone and opens the page anew.
\<close>

definition session_sync :: "string option \<Rightarrow> list_state \<Rightarrow> list_state" where
  "session_sync fromQuery st =
     (let stored = storage_item USER_STORAGE_KEY st;
          resolved = (if no_id fromQuery then stored else fromQuery)
      in if no_id resolved then st\<lparr>wk_user := None\<rparr>
         else (if \<not> no_id fromQuery \<and> fromQuery \<noteq> stored then set_item USER_STORAGE_KEY (the resolved) st else st)
                \<lparr>wk_user := resolved\<rparr>)"

definition user_effects :: "string option \<Rightarrow> list_state \<Rightarrow> list_state" where
  "user_effects before st =
     (if wk_user st = before then st
      else let st1 = (if no_id (wk_user st) then st\<lparr>wk_list := []\<rparr> else st) in initWorkspace_begin (closure_of st1) st1)"

datatype list_event =
  Mounted "string option"
| Session_changed "string option"
| Select_workspace string
| New_workspace
| Remove_workspace string bool
| Toggle_directory string
| Cookie_changed string
| List_answer nat http_reply string

fun list_handle :: "list_event \<Rightarrow> list_state \<Rightarrow> list_state" where
  "list_handle (Mounted q) st = session_sync q (initWorkspace_begin (closure_of st) (st\<lparr>wk_list := []\<rparr>))"
| "list_handle (Session_changed q) st = session_sync q st"
| "list_handle (Select_workspace i) st = selectWorkspace_begin (closure_of st) i Chosen st"
| "list_handle New_workspace st = createWorkspace_begin (closure_of st) st"
| "list_handle (Remove_workspace i confirmed) st = deleteWorkspace_begin (closure_of st) i confirmed st"
| "list_handle (Toggle_directory path) st = st\<lparr>wk_ed := toggleDir path (wk_ed st)\<rparr>"
| "list_handle (Cookie_changed s) st = st\<lparr>wk_cookie := s\<rparr>"
| "list_handle (List_answer i res now) st =
     (if i < length (wk_tasks st)
      then list_answered (fst (wk_tasks st ! i)) (snd (wk_tasks st ! i)) res now (st\<lparr>wk_tasks := drop_nth i (wk_tasks st)\<rparr>)
      else st)"

definition list_step :: "list_event \<Rightarrow> list_state \<Rightarrow> list_state" where
  "list_step e st = user_effects (wk_user st) (list_handle e st)"

definition opened_page :: "session_store \<Rightarrow> string option \<Rightarrow> string \<Rightarrow> list_state" where
  "opened_page window url cookie =
     \<lparr>wk_user = None, wk_list = [], wk_loading = False, wk_error = None, wk_deleting = None,
      wk_ed = initial_editor None window, wk_reported = None, wk_window = window, wk_url = url, wk_cookie = cookie,
      wk_tasks = [], wk_sent = []\<rparr>"

subsection \<open>What an operation leaves alone\<close>

lemma send_list_frame [simp]:
  "wk_user (send_list r c t st) = wk_user st" "wk_list (send_list r c t st) = wk_list st" "wk_loading (send_list r c t st) = wk_loading st"
  "wk_error (send_list r c t st) = wk_error st" "wk_deleting (send_list r c t st) = wk_deleting st" "wk_ed (send_list r c t st) = wk_ed st"
  "wk_reported (send_list r c t st) = wk_reported st" "wk_window (send_list r c t st) = wk_window st" "wk_url (send_list r c t st) = wk_url st"
  "wk_cookie (send_list r c t st) = wk_cookie st"
  by (simp_all add: send_list_def set_item_def remove_item_def)

lemma set_item_frame [simp]:
  "wk_user (set_item key v st) = wk_user st" "wk_list (set_item key v st) = wk_list st" "wk_loading (set_item key v st) = wk_loading st"
  "wk_error (set_item key v st) = wk_error st" "wk_deleting (set_item key v st) = wk_deleting st" "wk_ed (set_item key v st) = wk_ed st"
  "wk_reported (set_item key v st) = wk_reported st" "wk_url (set_item key v st) = wk_url st" "wk_cookie (set_item key v st) = wk_cookie st"
  "wk_tasks (set_item key v st) = wk_tasks st" "wk_sent (set_item key v st) = wk_sent st"
  by (simp_all add: set_item_def set_item_def remove_item_def)

lemma remove_item_frame [simp]:
  "wk_user (remove_item key st) = wk_user st" "wk_list (remove_item key st) = wk_list st" "wk_loading (remove_item key st) = wk_loading st"
  "wk_error (remove_item key st) = wk_error st" "wk_deleting (remove_item key st) = wk_deleting st" "wk_ed (remove_item key st) = wk_ed st"
  "wk_reported (remove_item key st) = wk_reported st" "wk_url (remove_item key st) = wk_url st" "wk_cookie (remove_item key st) = wk_cookie st"
  "wk_tasks (remove_item key st) = wk_tasks st" "wk_sent (remove_item key st) = wk_sent st"
  by (simp_all add: remove_item_def set_item_def remove_item_def)

lemma set_current_frame [simp]:
  "wk_user (set_current user i st) = wk_user st" "wk_list (set_current user i st) = wk_list st" "wk_loading (set_current user i st) = wk_loading st"
  "wk_error (set_current user i st) = wk_error st" "wk_deleting (set_current user i st) = wk_deleting st" "wk_ed (set_current user i st) = wk_ed st"
  "wk_reported (set_current user i st) = wk_reported st" "wk_url (set_current user i st) = wk_url st" "wk_cookie (set_current user i st) = wk_cookie st"
  "wk_tasks (set_current user i st) = wk_tasks st" "wk_sent (set_current user i st) = wk_sent st"
  by (simp_all add: set_current_def set_item_def remove_item_def)

lemma forget_current_frame [simp]:
  "wk_user (forget_current user st) = wk_user st" "wk_list (forget_current user st) = wk_list st" "wk_loading (forget_current user st) = wk_loading st"
  "wk_error (forget_current user st) = wk_error st" "wk_deleting (forget_current user st) = wk_deleting st" "wk_ed (forget_current user st) = wk_ed st"
  "wk_reported (forget_current user st) = wk_reported st" "wk_url (forget_current user st) = wk_url st" "wk_cookie (forget_current user st) = wk_cookie st"
  "wk_tasks (forget_current user st) = wk_tasks st" "wk_sent (forget_current user st) = wk_sent st"
  by (simp_all add: forget_current_def set_item_def remove_item_def)

lemma save_list_frame [simp]:
  "wk_user (save_list user ws st) = wk_user st" "wk_list (save_list user ws st) = wk_list st" "wk_loading (save_list user ws st) = wk_loading st"
  "wk_error (save_list user ws st) = wk_error st" "wk_deleting (save_list user ws st) = wk_deleting st" "wk_ed (save_list user ws st) = wk_ed st"
  "wk_reported (save_list user ws st) = wk_reported st" "wk_url (save_list user ws st) = wk_url st" "wk_cookie (save_list user ws st) = wk_cookie st"
  "wk_tasks (save_list user ws st) = wk_tasks st" "wk_sent (save_list user ws st) = wk_sent st"
  by (simp_all add: save_list_def set_item_def remove_item_def)

lemma setWorkspaceId_frame [simp]:
  "wk_user (setWorkspaceId i st) = wk_user st" "wk_list (setWorkspaceId i st) = wk_list st" "wk_loading (setWorkspaceId i st) = wk_loading st"
  "wk_error (setWorkspaceId i st) = wk_error st" "wk_deleting (setWorkspaceId i st) = wk_deleting st" "wk_window (setWorkspaceId i st) = wk_window st"
  "wk_url (setWorkspaceId i st) = wk_url st" "wk_cookie (setWorkspaceId i st) = wk_cookie st" "wk_tasks (setWorkspaceId i st) = wk_tasks st"
  "wk_sent (setWorkspaceId i st) = wk_sent st"
  by (simp_all add: setWorkspaceId_def set_item_def remove_item_def)

lemma updateWorkspaceUrl_frame [simp]:
  "wk_user (updateWorkspaceUrl i st) = wk_user st" "wk_list (updateWorkspaceUrl i st) = wk_list st" "wk_loading (updateWorkspaceUrl i st) = wk_loading st"
  "wk_error (updateWorkspaceUrl i st) = wk_error st" "wk_deleting (updateWorkspaceUrl i st) = wk_deleting st" "wk_ed (updateWorkspaceUrl i st) = wk_ed st"
  "wk_reported (updateWorkspaceUrl i st) = wk_reported st" "wk_window (updateWorkspaceUrl i st) = wk_window st" "wk_cookie (updateWorkspaceUrl i st) = wk_cookie st"
  "wk_tasks (updateWorkspaceUrl i st) = wk_tasks st" "wk_sent (updateWorkspaceUrl i st) = wk_sent st"
  by (simp_all add: updateWorkspaceUrl_def set_item_def remove_item_def)

lemma resetWorkspaceState_frame [simp]:
  "wk_user (resetWorkspaceState st) = wk_user st" "wk_list (resetWorkspaceState st) = wk_list st" "wk_loading (resetWorkspaceState st) = wk_loading st"
  "wk_error (resetWorkspaceState st) = wk_error st" "wk_deleting (resetWorkspaceState st) = wk_deleting st" "wk_reported (resetWorkspaceState st) = wk_reported st"
  "wk_window (resetWorkspaceState st) = wk_window st" "wk_url (resetWorkspaceState st) = wk_url st" "wk_cookie (resetWorkspaceState st) = wk_cookie st"
  "wk_tasks (resetWorkspaceState st) = wk_tasks st" "wk_sent (resetWorkspaceState st) = wk_sent st"
  by (simp_all add: resetWorkspaceState_def set_item_def remove_item_def)

lemma send_list_sends [simp]:
  "wk_tasks (send_list r c t st) = wk_tasks st @ [(c, t)]" "wk_sent (send_list r c t st) = wk_sent st @ [r]"
  by (simp_all add: send_list_def)

lemma setWorkspaceId_sets [simp]: "wk_id (setWorkspaceId i st) = i" "wk_reported (setWorkspaceId i st) = i"
  by (simp_all add: setWorkspaceId_def)

lemma reset_keeps_id [simp]: "wk_id (resetWorkspaceState st) = wk_id st"
  by (simp add: resetWorkspaceState_def)

lemma rememberWorkspace_frame [simp]:
  "wk_user (rememberWorkspace user i t now st) = wk_user st" "wk_loading (rememberWorkspace user i t now st) = wk_loading st"
  "wk_deleting (rememberWorkspace user i t now st) = wk_deleting st" "wk_ed (rememberWorkspace user i t now st) = wk_ed st"
  "wk_reported (rememberWorkspace user i t now st) = wk_reported st" "wk_tasks (rememberWorkspace user i t now st) = wk_tasks st"
  "wk_error (rememberWorkspace user i t now st) = wk_error st" "wk_sent (rememberWorkspace user i t now st) = wk_sent st"
  by (simp_all add: rememberWorkspace_def Let_def)

lemma fetched_simps [simp]:
  "fst (fetchWorkspaceListFromApi res st) = fetched_list res"
  "wk_tasks (snd (fetchWorkspaceListFromApi res st)) = wk_tasks st" "wk_ed (snd (fetchWorkspaceListFromApi res st)) = wk_ed st"
  "wk_loading (snd (fetchWorkspaceListFromApi res st)) = wk_loading st" "wk_error (snd (fetchWorkspaceListFromApi res st)) = wk_error st"
  "wk_deleting (snd (fetchWorkspaceListFromApi res st)) = wk_deleting st" "wk_sent (snd (fetchWorkspaceListFromApi res st)) = wk_sent st"
  "wk_reported (snd (fetchWorkspaceListFromApi res st)) = wk_reported st" "wk_window (snd (fetchWorkspaceListFromApi res st)) = wk_window st"
  "wk_list (snd (fetchWorkspaceListFromApi res st)) = wk_list st" "wk_cookie (snd (fetchWorkspaceListFromApi res st)) = wk_cookie st"
  "wk_url (snd (fetchWorkspaceListFromApi res st)) = wk_url st"
  by (simp_all add: fetchWorkspaceListFromApi_def Let_def)

lemma refresh_frame [simp]:
  "wk_tasks (snd (refreshWorkspaceListFromApi res st)) = wk_tasks st" "wk_ed (snd (refreshWorkspaceListFromApi res st)) = wk_ed st"
  "wk_loading (snd (refreshWorkspaceListFromApi res st)) = wk_loading st"
  "wk_error (snd (refreshWorkspaceListFromApi res st)) = wk_error st"
  "wk_deleting (snd (refreshWorkspaceListFromApi res st)) = wk_deleting st"
  "wk_sent (snd (refreshWorkspaceListFromApi res st)) = wk_sent st"
  "wk_reported (snd (refreshWorkspaceListFromApi res st)) = wk_reported st"
  by (simp_all add: refreshWorkspaceListFromApi_def case_prod_beta Let_def)

lemma session_sync_frame [simp]:
  "wk_tasks (session_sync q st) = wk_tasks st" "wk_loading (session_sync q st) = wk_loading st" "wk_ed (session_sync q st) = wk_ed st"
  "wk_deleting (session_sync q st) = wk_deleting st" "wk_reported (session_sync q st) = wk_reported st"
  "wk_error (session_sync q st) = wk_error st" "wk_sent (session_sync q st) = wk_sent st" "wk_cookie (session_sync q st) = wk_cookie st"
  by (simp_all add: session_sync_def Let_def)

lemma filled_frame:
  "filled c res st = Inr st1 \<Longrightarrow> wk_user st1 = wk_user st \<and> wk_list st1 = wk_list st \<and> wk_loading st1 = wk_loading st
    \<and> wk_error st1 = wk_error st \<and> wk_deleting st1 = wk_deleting st \<and> wk_reported st1 = wk_reported st \<and> wk_window st1 = wk_window st
    \<and> wk_url st1 = wk_url st \<and> wk_cookie st1 = wk_cookie st \<and> wk_tasks st1 = wk_tasks st \<and> wk_sent st1 = wk_sent st
    \<and> wk_id st1 = wk_id st"
  by (auto simp: filled_def syncInventoryReady_def Let_def split: sum.splits)

subsection \<open>Opening the page comes to an end\<close>

text \<open>How many answers a task may still need.\<close>

fun select_rank :: "after_select \<Rightarrow> nat" where
  "select_rank Chosen = 0"
| "select_rank After_deletion = 0"
| "select_rank (Next_candidate requested x xs) = length xs + 4"
| "select_rank (Next_stored requested) = 5"
| "select_rank Next_create = 4"

fun task_rank :: "list_task \<Rightarrow> nat" where
  "task_rank (Init_list requested) = 8"
| "task_rank (Select_files i k) = Suc (select_rank k)"
| "task_rank Prime_cookie = 4"
| "task_rank Create_post = 3"
| "task_rank (Created_files i t) = 2"
| "task_rank (Created_list i t) = 1"
| "task_rank (Delete_post i) = 3"
| "task_rank (Deleted_list i) = 2"

definition tasks_rank :: "list_state \<Rightarrow> nat" where
  "tasks_rank st = sum_list (map (task_rank \<circ> snd) (wk_tasks st))"

lemma tasks_rank_cong: "wk_tasks st = wk_tasks st' \<Longrightarrow> tasks_rank st = tasks_rank st'"
  by (simp add: tasks_rank_def)

lemma tasks_rank_send [simp]: "tasks_rank (send_list r c t st) = tasks_rank st + task_rank t"
  by (simp add: tasks_rank_def)

lemma rank_select: "tasks_rank (selectWorkspace_begin c i k st) \<le> tasks_rank st + Suc (select_rank k)"
  by (simp add: selectWorkspace_begin_def tasks_rank_def)

lemma rank_create: "tasks_rank (createWorkspace_begin c st) \<le> tasks_rank st + 4"
  by (simp add: createWorkspace_begin_def create_post_def tasks_rank_def Let_def)

lemma rank_candidates: "tasks_rank (try_candidates c requested xs st) \<le> tasks_rank st + length xs + 4"
  using rank_create [of c st] rank_select [of c "hd xs" "Next_candidate requested (hd xs) (tl xs)" st] by (cases xs) auto

lemma rank_stored: "tasks_rank (try_stored c st) \<le> tasks_rank st + 5"
  using rank_create [of c st] rank_select [of c "the (storage_item WORKSPACE_STORAGE_KEY st)" Next_create st]
  by (auto simp: try_stored_def)

lemma rank_opened: "tasks_rank (initWorkspace_listed c requested res st) < tasks_rank st + 8"
proof -
  have cands: "length (candidates q s ws) \<le> 3" for q s ws
    unfolding candidates_def nonempties_def by (rule order_trans [OF length_filter_le]) simp
  have same: "wk_tasks st1 = wk_tasks st \<Longrightarrow> tasks_rank (try_candidates c q (candidates q s ws) st1) < tasks_rank st + 8" for st1 q s ws
    using rank_candidates [of c q "candidates q s ws" st1] cands [of q s ws] tasks_rank_cong [of st1 st] by simp
  have sel: "wk_tasks st1 = wk_tasks st \<Longrightarrow> tasks_rank (selectWorkspace_begin c i (Next_stored i) st1) < tasks_rank st + 8" for st1 i
    using rank_select [of c i "Next_stored i" st1] tasks_rank_cong [of st1 st] by simp
  have sto: "wk_tasks st1 = wk_tasks st \<Longrightarrow> tasks_rank (try_stored c st1) < tasks_rank st + 8" for st1
    using rank_stored [of c st1] tasks_rank_cong [of st1 st] by simp
  obtain api st1 where f: "fetchWorkspaceListFromApi res st = (api, st1)"
    by (cases "fetchWorkspaceListFromApi res st")
  then have st1: "wk_tasks st1 = wk_tasks st"
    using fetched_simps(2) [of res st] by simp
  have over: "wk_tasks st2 = wk_tasks st \<Longrightarrow> tasks_rank (wk_loading_update f st2) < tasks_rank st + 8" for st2 f
    using tasks_rank_cong [of "wk_loading_update f st2" st] by simp
  show ?thesis
    unfolding initWorkspace_listed_def Let_def f prod.case
    by (auto simp: st1 intro!: same sel sto over)
qed

lemma rank_answered: "tasks_rank (list_answered c t res now st) < tasks_rank st + task_rank t"
proof (cases t)
  case (Select_files i k)
  obtain good st1 where e: "selectWorkspace_end c i res st = (good, st1)"
    by (cases "selectWorkspace_end c i res st")
  then have st1: "wk_tasks st1 = wk_tasks st"
    by (auto simp: selectWorkspace_end_def split: sum.splits dest: filled_frame)
  have "tasks_rank (selected_next c k good st1) < tasks_rank st1 + Suc (select_rank k)"
  proof (cases "(c, k, good, st1)" rule: selected_next.cases)
    case (3 c requested x xs good st)
    then show ?thesis
      using rank_candidates [of c requested xs "st\<lparr>wk_error := Some (not_found x)\<rparr>"] rank_candidates [of c requested xs st]
      by (auto simp: tasks_rank_def)
  next
    case (4 c requested good st)
    then show ?thesis
      using rank_stored [of c "st\<lparr>wk_error := Some (not_found requested)\<rparr>"] by (auto simp: tasks_rank_def)
  next
    case (5 c good st)
    then show ?thesis
      using rank_create [of c "remove_item WORKSPACE_STORAGE_KEY st"] by (auto simp: tasks_rank_def)
  qed (auto simp: tasks_rank_def)
  then show ?thesis
    using e tasks_rank_cong [OF st1] by (simp add: Select_files)
next
  case (Init_list requested)
  then show ?thesis
    using rank_opened by simp
next
  case (Deleted_list i)
  obtain ws st1 where r: "refreshWorkspaceListFromApi res st = (ws, st1)"
    by (cases "refreshWorkspaceListFromApi res st")
  then have st1: "wk_tasks st1 = wk_tasks st"
    using refresh_frame(1) [of res st] by simp
  have sel: "wk_tasks st2 = wk_tasks st \<Longrightarrow> tasks_rank (selectWorkspace_begin c j After_deletion st2) < Suc (Suc (tasks_rank st))" for st2 j
    using rank_select [of c j After_deletion st2] tasks_rank_cong [of st2 st] by simp
  have over: "wk_tasks st2 = wk_tasks st \<Longrightarrow> tasks_rank (wk_deleting_update f st2) < Suc (Suc (tasks_rank st))" for st2 f
    using tasks_rank_cong [of "wk_deleting_update f st2" st] by simp
  show ?thesis
    unfolding Deleted_list list_answered.simps deletion_listed_def Let_def r prod.case task_rank.simps
    by (auto simp: st1 intro!: sel over split: option.splits)
qed (auto simp: create_post_def created_def created_filled_def created_listed_def workspace_deleted_def create_failed_def
       tasks_rank_def Let_def fetchWorkspaceListFromApi_def dest!: filled_frame split: sum.splits option.splits)

fun go_on_ok :: "after_select \<Rightarrow> bool" where
  "go_on_ok (Next_candidate requested x xs) \<longleftrightarrow> [] \<notin> set xs"
| "go_on_ok k \<longleftrightarrow> True"

fun page_task :: "list_task \<Rightarrow> bool" where
  "page_task (Select_files i k) \<longleftrightarrow> go_on_ok k"
| "page_task (Delete_post i) \<longleftrightarrow> False"
| "page_task (Deleted_list i) \<longleftrightarrow> False"
| "page_task t \<longleftrightarrow> True"

fun for_created :: "list_task \<Rightarrow> bool" where
  "for_created (Created_files i t) \<longleftrightarrow> True"
| "for_created (Created_list i t) \<longleftrightarrow> True"
| "for_created t \<longleftrightarrow> False"

text \<open>The page is being opened, or it has been: with a workspace, with an error, or for a user who has no workspace.\<close>

definition page_opened :: "list_state \<Rightarrow> bool" where
  "page_opened st \<longleftrightarrow> wk_tasks st = [] \<and> \<not> wk_loading st \<and> (wk_id st \<noteq> None \<or> wk_error st \<noteq> None \<or> wk_list st = [])"

definition page_opening :: "list_state \<Rightarrow> bool" where
  "page_opening st \<longleftrightarrow>
     (\<exists>c t. wk_tasks st = [(c, t)] \<and> page_task t \<and> (wk_id st = None \<longrightarrow> \<not> for_created t)) \<and> wk_loading st \<or> page_opened st"

lemma opening_select: "i \<noteq> [] \<Longrightarrow> wk_tasks st = [] \<Longrightarrow> go_on_ok k \<Longrightarrow> page_opening (selectWorkspace_begin c i k st)"
  by (simp add: selectWorkspace_begin_def page_opening_def)

lemma opening_create: "wk_tasks st = [] \<Longrightarrow> page_opening (createWorkspace_begin c st)"
  by (simp add: createWorkspace_begin_def create_post_def page_opening_def Let_def)

lemma opening_candidates: "wk_tasks st = [] \<Longrightarrow> [] \<notin> set xs \<Longrightarrow> page_opening (try_candidates c requested xs st)"
  by (cases xs) (auto intro: opening_select opening_create)

lemma opening_stored: "wk_tasks st = [] \<Longrightarrow> page_opening (try_stored c st)"
  unfolding try_stored_def by (auto simp: no_id_def intro!: opening_select opening_create)

lemma candidates_ne: "[] \<notin> set (candidates q s ws)"
  by (simp add: candidates_def nonempties_def)

lemma opening_listed:
  assumes "wk_tasks st = []"
  shows "page_opening (initWorkspace_listed c requested res st)"
proof -
  obtain api st1 where f: "fetchWorkspaceListFromApi res st = (api, st1)"
    by (cases "fetchWorkspaceListFromApi res st")
  then have st1: "wk_tasks st1 = []"
    using fetched_simps(2) [of res st] assms by simp
  have over: "wk_tasks x = [] \<Longrightarrow> wk_list x = [] \<Longrightarrow> page_opening (wk_loading_update (\<lambda>_. False) x)" for x
    by (simp add: page_opening_def page_opened_def)
  show ?thesis
    unfolding initWorkspace_listed_def Let_def f prod.case
    by (auto simp: st1 no_id_def intro!: opening_candidates candidates_ne opening_select opening_stored over)
qed

lemma opening_answered:
  assumes "wk_tasks st = []" "page_task t" "wk_loading st" "wk_id st = None \<longrightarrow> \<not> for_created t"
  shows "page_opening (list_answered c t res now st)"
proof (cases t)
  case (Init_list requested)
  then show ?thesis
    using opening_listed assms(1) by simp
next
  case (Select_files i k)
  obtain good st1 where e: "selectWorkspace_end c i res st = (good, st1)"
    by (cases "selectWorkspace_end c i res st")
  then have st1: "wk_tasks st1 = [] \<and> \<not> wk_loading st1 \<and> (if good then wk_id st1 \<noteq> None else wk_error st1 \<noteq> None)"
    using assms(1) by (auto simp: selectWorkspace_end_def split: sum.splits dest: filled_frame)
  have "page_opening (selected_next c k good st1)"
    using st1 assms(2) Select_files
    by (cases k) (auto simp: page_opening_def [of st1] page_opened_def page_opening_def [of "wk_deleting_update f x" for f x]
        intro!: opening_candidates opening_stored opening_create split: if_splits)
  with e show ?thesis
    by (simp add: Select_files)
next
  case (Created_list i createdAt)
  then show ?thesis
    using assms by (simp add: created_listed_def page_opening_def page_opened_def case_prod_beta Let_def)
qed (use assms in \<open>auto simp: create_post_def created_def created_filled_def create_failed_def page_opening_def page_opened_def Let_def
       dest: filled_frame split: sum.splits\<close>)

text \<open>Every event answers a request that is under way; each change of the user opens the page anew.\<close>

fun answering :: "list_event list \<Rightarrow> list_state \<Rightarrow> bool" where
  "answering [] st \<longleftrightarrow> True"
| "answering (e # es) st \<longleftrightarrow>
     (case e of List_answer i res now \<Rightarrow> i < length (wk_tasks st) | _ \<Rightarrow> False) \<and> answering es (list_step e st)"

fun user_changes :: "list_event list \<Rightarrow> list_state \<Rightarrow> nat" where
  "user_changes [] st = 0"
| "user_changes (e # es) st =
     (if wk_user (list_handle e st) = wk_user st then 0 else 1) + user_changes es (list_step e st)"

text \<open>
  The answers agree on who is signed in: every list of workspaces that is answered leaves the user alone or names \<open>u\<close>;
  \<open>None\<close> is nobody.
\<close>

definition names_user :: "string option \<Rightarrow> http_reply \<Rightarrow> bool" where
  "names_user u res \<longleftrightarrow>
     (let api = fetched_list res in
      if al_authenticated api then al_userId api = None \<or> al_userId api = u else al_supported api \<longrightarrow> u = None)"

fun asks_list :: "list_task \<Rightarrow> bool" where
  "asks_list (Init_list requested) \<longleftrightarrow> True"
| "asks_list (Created_list i createdAt) \<longleftrightarrow> True"
| "asks_list t \<longleftrightarrow> False"

fun agreed :: "string option \<Rightarrow> list_event list \<Rightarrow> list_state \<Rightarrow> bool" where
  "agreed u [] st \<longleftrightarrow> True"
| "agreed u (e # es) st \<longleftrightarrow>
     (case e of
        List_answer i res now \<Rightarrow> \<not> asks_list (snd (wk_tasks st ! i)) \<or> names_user u res
      | _ \<Rightarrow> False) \<and> agreed u es (list_step e st)"

text \<open>What an answer leads to: further requests of the page, and none only when the mark of loading is gone.\<close>

definition carries_on :: "list_state \<Rightarrow> list_state \<Rightarrow> bool" where
  "carries_on st st' \<longleftrightarrow>
     (\<exists>ts. wk_tasks st' = wk_tasks st @ ts \<and> list_all (page_task \<circ> snd) ts \<and> (ts = [] \<longrightarrow> \<not> wk_loading st'))"

lemma carries_on_cong: "wk_tasks st = wk_tasks st1 \<Longrightarrow> carries_on st st' = carries_on st1 st'"
  by (simp add: carries_on_def)

lemma carries_on_send: "page_task t \<Longrightarrow> wk_tasks st1 = wk_tasks st \<Longrightarrow> carries_on st (send_list r c t st1)"
  by (auto simp: carries_on_def)

lemma carries_on_over: "wk_tasks st' = wk_tasks st \<Longrightarrow> \<not> wk_loading st' \<Longrightarrow> carries_on st st'"
  by (auto simp: carries_on_def)

lemma carries_on_select: "i \<noteq> [] \<Longrightarrow> go_on_ok k \<Longrightarrow> wk_tasks st1 = wk_tasks st \<Longrightarrow> carries_on st (selectWorkspace_begin c i k st1)"
  by (auto simp: selectWorkspace_begin_def intro!: carries_on_send)

lemma carries_on_create: "wk_tasks st1 = wk_tasks st \<Longrightarrow> carries_on st (createWorkspace_begin c st1)"
  by (auto simp: createWorkspace_begin_def create_post_def Let_def intro!: carries_on_send)

lemma carries_on_candidates:
  "[] \<notin> set xs \<Longrightarrow> wk_tasks st1 = wk_tasks st \<Longrightarrow> carries_on st (try_candidates c requested xs st1)"
  by (cases xs) (auto intro: carries_on_select carries_on_create)

lemma carries_on_stored: "wk_tasks st1 = wk_tasks st \<Longrightarrow> carries_on st (try_stored c st1)"
  unfolding try_stored_def by (auto simp: no_id_def intro!: carries_on_select carries_on_create)

lemma carries_on_listed: "carries_on st (initWorkspace_listed c requested res st)"
proof -
  obtain api st1 where f: "fetchWorkspaceListFromApi res st = (api, st1)"
    by (cases "fetchWorkspaceListFromApi res st")
  then have st1: "wk_tasks st1 = wk_tasks st"
    using fetched_simps(2) [of res st] by simp
  have over: "wk_tasks x = wk_tasks st \<Longrightarrow> carries_on st (wk_loading_update (\<lambda>_. False) x)" for x
    by (simp add: carries_on_over)
  show ?thesis
    unfolding initWorkspace_listed_def Let_def f prod.case
    by (auto simp: st1 no_id_def intro!: carries_on_candidates candidates_ne carries_on_select carries_on_stored over)
qed

lemma carries_on_selected:
  assumes "go_on_ok k" "\<not> wk_loading st"
  shows "carries_on st (selected_next c k good st)"
  using assms
  by (cases k) (auto simp: carries_on_over intro!: carries_on_candidates carries_on_stored carries_on_create)

lemma selection_ends:
  "selectWorkspace_end c i res st = (good, st1) \<Longrightarrow> wk_tasks st1 = wk_tasks st \<and> \<not> wk_loading st1 \<and> wk_user st1 = wk_user st"
  by (auto simp: selectWorkspace_end_def split: sum.splits dest: filled_frame)

lemma carries_on_answered:
  assumes "page_task t"
  shows "carries_on st (list_answered c t res now st)"
proof (cases t)
  case (Init_list requested)
  then show ?thesis
    using carries_on_listed by simp
next
  case (Select_files i k)
  obtain good st1 where e: "selectWorkspace_end c i res st = (good, st1)"
    by (cases "selectWorkspace_end c i res st")
  with assms Select_files show ?thesis
    using selection_ends [OF e] carries_on_selected [of k st1 c good] carries_on_cong [of st st1] by simp
next
  case (Created_list i createdAt)
  then show ?thesis
    by (simp add: created_listed_def case_prod_beta Let_def carries_on_over)
qed (use assms in \<open>auto simp: create_post_def created_def created_filled_def create_failed_def Let_def carries_on_over
       intro!: carries_on_send dest: filled_frame split: sum.splits\<close>)

text \<open>The user after an answer.\<close>

lemma user_kept:
  "wk_user (selectWorkspace_begin c i k st) = wk_user st" "wk_user (createWorkspace_begin c st) = wk_user st"
  "wk_user (try_candidates c requested xs st) = wk_user st" "wk_user (try_stored c st) = wk_user st"
proof -
  show s: "wk_user (selectWorkspace_begin c i k st) = wk_user st" for i k st
    by (simp add: selectWorkspace_begin_def)
  show k: "wk_user (createWorkspace_begin c st) = wk_user st" for st
    by (simp add: createWorkspace_begin_def create_post_def Let_def)
  show "wk_user (try_candidates c requested xs st) = wk_user st"
    by (cases xs) (simp_all add: s k)
  show "wk_user (try_stored c st) = wk_user st"
    by (simp add: try_stored_def s k)
qed

lemma user_answered:
  assumes "\<not> asks_list t \<or> names_user u res" "page_task t"
  shows "wk_user (list_answered c t res now st) \<in> {wk_user st, u}"
proof -
  obtain st1 where fetched: "fetchWorkspaceListFromApi res st = (fetched_list res, st1)"
    using fetched_simps(1) [of res st] by (metis prod.collapse)
  have st1: "wk_user st1 \<in> {wk_user st, u}" if "names_user u res"
    using that fetched by (auto simp: fetchWorkspaceListFromApi_def names_user_def Let_def split: if_splits)
  show ?thesis
  proof (cases t)
    case (Init_list requested)
    with assms(1) have n: "names_user u res" by simp
    then have "al_supported (fetched_list res) \<Longrightarrow> \<not> al_authenticated (fetched_list res) \<Longrightarrow> u = None"
      by (simp add: names_user_def Let_def)
    with st1 [OF n] show ?thesis
      unfolding Init_list list_answered.simps initWorkspace_listed_def Let_def fetched prod.case
      by (auto simp: user_kept split: if_splits)
  next
    case (Select_files i k)
    obtain good st2 where e: "selectWorkspace_end c i res st = (good, st2)"
      by (cases "selectWorkspace_end c i res st")
    moreover have "wk_user (selected_next c k good st2) = wk_user st2"
      by (cases k) (simp_all add: user_kept)
    ultimately show ?thesis
      using selection_ends [OF e] by (simp add: Select_files)
  next
    case (Created_list i createdAt)
    with assms(1) st1 show ?thesis
      by (simp add: created_listed_def fetched Let_def)
  qed (use assms(2) in \<open>auto simp: create_post_def created_def created_filled_def create_failed_def Let_def
         dest: filled_frame split: sum.splits\<close>)
qed

text \<open>The requests under way are those of the page, and when there is none the mark of loading is gone.\<close>

definition page_runs :: "list_state \<Rightarrow> bool" where
  "page_runs st \<longleftrightarrow> list_all (page_task \<circ> snd) (wk_tasks st) \<and> (wk_tasks st = [] \<longrightarrow> \<not> wk_loading st)"

lemma user_effects_cases:
  "user_effects before st = st \<and> wk_user st = before
   \<or> wk_user st \<noteq> before \<and> (\<exists>c requested. wk_tasks (user_effects before st) = wk_tasks st @ [(c, Init_list requested)]
       \<and> wk_user (user_effects before st) = wk_user st)"
  by (auto simp: user_effects_def initWorkspace_begin_def Let_def)

lemma page_runs_effects: "page_runs st \<Longrightarrow> page_runs (user_effects before st)"
  using user_effects_cases [of before st] by (auto simp: page_runs_def)

lemma rank_effects: "tasks_rank (user_effects before st) = tasks_rank st + (if wk_user st = before then 0 else 8)"
  using user_effects_cases [of before st] by (auto simp: tasks_rank_def)

lemma tasks_drop: "i < length ts \<Longrightarrow> list_all P ts \<Longrightarrow> list_all P (drop_nth i ts) \<and> P (ts ! i)"
  by (auto simp: drop_nth_def list_all_iff dest: in_set_takeD in_set_dropD)

lemma rank_drop:
  "i < length ts \<Longrightarrow> sum_list (map f (drop_nth i ts)) + f (ts ! i) = sum_list (map (f :: 'a \<Rightarrow> nat) ts)"
  by (subst id_take_nth_drop [of i ts, THEN arg_cong [where f = "\<lambda>xs. sum_list (map f xs)"]]) (simp_all add: drop_nth_def)

lemma page_runs_answer:
  assumes "page_runs st" "i < length (wk_tasks st)"
  shows "page_runs (list_handle (List_answer i res now) st)"
    "tasks_rank (list_handle (List_answer i res now) st) < tasks_rank st"
    "\<not> asks_list (snd (wk_tasks st ! i)) \<or> names_user u res \<Longrightarrow> wk_user (list_handle (List_answer i res now) st) \<in> {wk_user st, u}"
proof -
  define c where "c = fst (wk_tasks st ! i)"
  define t where "t = snd (wk_tasks st ! i)"
  define st1 where "st1 = st\<lparr>wk_tasks := drop_nth i (wk_tasks st)\<rparr>"
  have h: "list_handle (List_answer i res now) st = list_answered c t res now st1"
    using assms(2) by (simp add: c_def t_def st1_def)
  have t: "page_task t" "list_all (page_task \<circ> snd) (wk_tasks st1)"
    using tasks_drop [OF assms(2), of "page_task \<circ> snd"] assms(1) by (auto simp: page_runs_def t_def st1_def)
  show "page_runs (list_handle (List_answer i res now) st)"
    using carries_on_answered [OF t(1), of st1 c res now] t(2) unfolding h by (auto simp: page_runs_def carries_on_def)
  show "tasks_rank (list_handle (List_answer i res now) st) < tasks_rank st"
    using rank_answered [of c t res now st1] rank_drop [OF assms(2), of "task_rank \<circ> snd"]
    unfolding h by (simp add: tasks_rank_def st1_def t_def)
  show "wk_user (list_handle (List_answer i res now) st) \<in> {wk_user st, u}"
    if "\<not> asks_list (snd (wk_tasks st ! i)) \<or> names_user u res"
    using user_answered [OF that [folded t_def] t(1), where c = c and st = st1] unfolding h by (simp add: st1_def)
qed

lemma answers_run:
  assumes "page_runs st" "answering es st"
  shows "page_runs (fold list_step es st)
    \<and> length es + tasks_rank (fold list_step es st) \<le> tasks_rank st + 8 * user_changes es st"
  using assms
proof (induction es arbitrary: st)
  case (Cons e es)
  then obtain i res now where e: "e = List_answer i res now" "i < length (wk_tasks st)"
    by (cases e) auto
  note a = page_runs_answer [OF Cons.prems(1) e(2), where res = res and now = now, folded e(1)]
  have "page_runs (list_step e st)"
    using page_runs_effects [OF a(1)] by (simp add: list_step_def)
  moreover have "Suc (tasks_rank (list_step e st)) \<le> tasks_rank st + 8 * (if wk_user (list_handle e st) = wk_user st then 0 else 1)"
    using a(2) by (simp add: list_step_def rank_effects)
  ultimately show ?case
    using Cons.IH [of "list_step e st"] Cons.prems(2) by auto
qed simp

lemma user_of_step: "wk_user (list_step e st) = wk_user (list_handle e st)"
  using user_effects_cases [of "wk_user st" "list_handle e st"] by (auto simp: list_step_def)

lemma changes_bound:
  assumes "page_runs st" "answering es st" "agreed u es st"
  shows "user_changes es st \<le> (if wk_user st = u then 0 else 1)"
  using assms
proof (induction es arbitrary: st)
  case (Cons e es)
  then obtain i res now where e: "e = List_answer i res now" "i < length (wk_tasks st)"
    by (cases e) auto
  note a = page_runs_answer [OF Cons.prems(1) e(2), where res = res and now = now, folded e(1)]
  have "page_runs (list_step e st)"
    using page_runs_effects [OF a(1)] by (simp add: list_step_def)
  with Cons.IH [of "list_step e st"] Cons.prems(2,3) have
    "user_changes es (list_step e st) \<le> (if wk_user (list_handle e st) = u then 0 else 1)"
    by (simp add: user_of_step)
  moreover have "wk_user (list_handle e st) \<in> {wk_user st, u}"
    using a(3) [of u] Cons.prems(3) unfolding e(1) agreed.simps list_event.case by blast
  ultimately show ?case
    by (auto simp del: list_handle.simps)
qed simp

lemma opening_run:
  "page_opening st \<Longrightarrow> answering es st \<Longrightarrow> user_changes es st = 0 \<Longrightarrow> page_opening (fold list_step es st)"
proof (induction es arbitrary: st)
  case (Cons e es)
  then obtain i res now where e: "e = List_answer i res now" "i < length (wk_tasks st)"
    by (cases e) auto
  then have "\<not> page_opened st"
    by (auto simp: page_opened_def)
  then obtain c t where t: "wk_tasks st = [(c, t)]" "page_task t" "wk_loading st" "wk_id st = None \<longrightarrow> \<not> for_created t"
    using Cons.prems(1) by (auto simp: page_opening_def)
  have same: "wk_user (list_handle e st) = wk_user st"
    using Cons.prems(3) by (simp split: if_splits)
  then have "list_step e st = list_handle e st"
    by (simp add: list_step_def user_effects_def)
  also have "\<dots> = list_answered c t res now (st\<lparr>wk_tasks := []\<rparr>)"
    using e t(1) by (simp add: drop_nth_def)
  finally have "page_opening (list_step e st)"
    using opening_answered [of "st\<lparr>wk_tasks := []\<rparr>" t c res now] t by simp
  with Cons show ?case by simp
qed simp

lemma mounted_page:
  assumes "wk_tasks st = []"
  shows "page_runs (list_step (Mounted q) st)"
    "tasks_rank (list_step (Mounted q) st) = 8 * Suc (if wk_user (list_handle (Mounted q) st) = wk_user st then 0 else 1)"
    "wk_user (list_handle (Mounted q) st) = wk_user st \<Longrightarrow> page_opening (list_step (Mounted q) st)"
proof -
  have one: "\<exists>c r. wk_tasks (list_handle (Mounted q) st) = [(c, Init_list r)]" "wk_loading (list_handle (Mounted q) st)"
    using assms by (simp_all add: initWorkspace_begin_def)
  then have "page_runs (list_handle (Mounted q) st)" "tasks_rank (list_handle (Mounted q) st) = 8"
    by (auto simp: page_runs_def tasks_rank_def)
  then show "page_runs (list_step (Mounted q) st)"
    "tasks_rank (list_step (Mounted q) st) = 8 * Suc (if wk_user (list_handle (Mounted q) st) = wk_user st then 0 else 1)"
    by (simp_all add: list_step_def page_runs_effects rank_effects)
  show "wk_user (list_handle (Mounted q) st) = wk_user st \<Longrightarrow> page_opening (list_step (Mounted q) st)"
    using one by (auto simp: list_step_def user_effects_def page_opening_def simp del: list_handle.simps)
qed

text \<open>
  C31: opening the page comes to an end. The page is opened with no request under way, and then every event answers a
  request of it: whatever the answers are and in whatever order they come, each opening takes at most eight of them. The
  page is opened once, and once more for each change of its user: when the session of the browser names another user than
  the page had, or an answer names one or says that nobody is signed in. When all answers agree on who is signed in there
  are at most two such changes, so that at most 24 answers are needed. As long as one is missing a request is under way;
  and when none is, the mark of loading is gone, and in a page whose user never changed a workspace is open, an error is
  shown, or the list of workspaces is empty.
\<close>

theorem page_opens:
  fixes st
  assumes "wk_tasks st = []" "answering es (list_step (Mounted q) st)"
  shows "let st' = fold list_step (Mounted q # es) st; changes = user_changes (Mounted q # es) st in
    length es + tasks_rank st' \<le> 8 * Suc changes
    \<and> (agreed u es (list_step (Mounted q) st) \<longrightarrow> changes \<le> 2)
    \<and> (wk_tasks st' = [] \<longrightarrow> \<not> wk_loading st' \<and> (changes = 0 \<longrightarrow> page_opened st'))"
proof -
  define st0 where "st0 = list_step (Mounted q) st"
  note start = mounted_page [OF assms(1), of q, folded st0_def]
  have ok: "answering es st0"
    using assms(2) by (simp add: st0_def)
  have one: "fold list_step (Mounted q # es) st = fold list_step es st0" "user_changes (Mounted q # es) st =
      (if wk_user (list_handle (Mounted q) st) = wk_user st then 0 else 1) + user_changes es st0"
    by (simp_all add: st0_def)
  note r = answers_run [OF start(1) ok]
  have "agreed u es st0 \<longrightarrow> user_changes (Mounted q # es) st \<le> 2"
    using changes_bound [OF start(1) ok, of u] unfolding one by (auto split: if_splits)
  moreover have "page_opened (fold list_step es st0)"
    if "wk_tasks (fold list_step es st0) = []" "user_changes (Mounted q # es) st = 0"
    using opening_run [OF start(3) ok] that unfolding one by (auto simp: page_opening_def split: if_splits)
  moreover have "length es + tasks_rank (fold list_step es st0) \<le> 8 * Suc (user_changes (Mounted q # es) st)"
    using r start(2) unfolding one by auto
  moreover have "\<not> wk_loading (fold list_step es st0)" if "wk_tasks (fold list_step es st0) = []"
    using r that by (simp add: page_runs_def)
  ultimately show ?thesis
    unfolding Let_def one(1) st0_def [symmetric] by blast
qed

subsection \<open>What is opened\<close>

definition list_answers :: "(http_reply \<times> string) list \<Rightarrow> list_state \<Rightarrow> list_state" where
  "list_answers rs st = fold (\<lambda>(res, now). list_step (List_answer 0 res now)) rs st"

lemma list_step_answer:
  "wk_tasks st = [(c, t)] \<Longrightarrow> wk_user (list_answered c t res now (st\<lparr>wk_tasks := []\<rparr>)) = wk_user st \<Longrightarrow>
    list_step (List_answer 0 res now) st = list_answered c t res now (st\<lparr>wk_tasks := []\<rparr>)"
  by (simp add: list_step_def user_effects_def)

lemma list_answers_Cons: "list_answers ((res, now) # rs) st = list_answers rs (list_step (List_answer 0 res now) st)"
  by (simp add: list_answers_def)

lemma list_answers_append: "list_answers (rs @ rs') st = list_answers rs' (list_answers rs st)"
  by (simp add: list_answers_def)

text \<open>The files of a listing.\<close>

definition shown_files :: "jsval \<Rightarrow> FileEntry list" where
  "shown_files data = map file_entry (arr_items (jget data ''files''))"

lemma filled_ok:
  "filled c (HttpOk (Inr data)) st = Inr st1 \<Longrightarrow> ed_files (wk_ed st1) = shown_files data"
  by (auto simp: filled_def json_answer_def syncInventoryReady_def shown_files_def Let_def)

definition shown_dirs :: "jsval \<Rightarrow> string list" where
  "shown_dirs data = to_set (map fe_path (filter fe_is_dir (shown_files data)))"

lemma filled_dirs:
  "filled c (HttpOk (Inr data)) st = Inr st1 \<Longrightarrow>
    ed_openDirs (wk_ed st1) = (if cl_openDirs c = [] then shown_dirs data else ed_openDirs (wk_ed st))"
  by (auto simp: filled_def json_answer_def syncInventoryReady_def shown_files_def shown_dirs_def Let_def)

lemma filled_refused: "json_answer res = Inl m \<Longrightarrow> filled c res st = Inl m"
  by (simp add: filled_def)

lemma filled_accepted: "\<exists>st1. filled c (HttpOk (Inr data)) st = Inr st1"
  by (simp add: filled_def json_answer_def Let_def)

definition refused :: "http_reply \<Rightarrow> bool" where
  "refused res \<longleftrightarrow> (\<exists>m. json_answer res = Inl m)"

lemma refused_selection:
  assumes "wk_tasks st = [(c, Select_files i (Next_candidate q i xs))]" "refused res"
  shows "\<exists>st1. list_step (List_answer 0 res now) st = try_candidates c q xs st1
    \<and> wk_tasks st1 = [] \<and> wk_sent st1 = wk_sent st \<and> wk_id st1 = wk_id st"
proof -
  obtain m where m: "json_answer res = Inl m"
    using assms(2) by (auto simp: refused_def)
  have user: "wk_user (try_candidates c q xs s) = wk_user s" for s
    by (cases xs) (simp_all add: selectWorkspace_begin_def createWorkspace_begin_def create_post_def Let_def)
  show ?thesis
    using filled_refused [OF m] user
    by (subst list_step_answer [OF assms(1)]) (auto simp: selectWorkspace_end_def intro!: exI)
qed

lemma refused_candidates:
  assumes "wk_tasks st = []" "length rs < length xs" "\<forall>r \<in> set rs. refused (fst r)" "[] \<notin> set xs"
  shows "let st' = list_answers rs (try_candidates c q xs st); n = length rs in
    wk_sent st' = wk_sent st @ map List_files (take (Suc n) xs) \<and> wk_error st' = None \<and> wk_loading st'
    \<and> wk_id st' = wk_id st \<and> wk_tasks st' = [(c, Select_files (xs ! n) (Next_candidate q (xs ! n) (drop (Suc n) xs)))]"
  using assms
proof (induction rs arbitrary: st xs)
  case Nil
  then obtain y ys where "xs = y # ys"
    by (cases xs) auto
  then show ?case
    using Nil by (auto simp: list_answers_def selectWorkspace_begin_def Let_def dest: not_sym)
next
  case (Cons r rs)
  then obtain y ys where xs: "xs = y # ys"
    by (cases xs) auto
  with Cons.prems(4) have y: "y \<noteq> []"
    by auto
  obtain res now where r: "r = (res, now)"
    by (cases r)
  define st1 where "st1 = try_candidates c q xs st"
  have st1: "wk_tasks st1 = [(c, Select_files y (Next_candidate q y ys))]" "wk_sent st1 = wk_sent st @ [List_files y]" "wk_id st1 = wk_id st"
    using Cons.prems(1) xs y by (simp_all add: st1_def selectWorkspace_begin_def)
  obtain st2 where st2: "list_step (List_answer 0 res now) st1 = try_candidates c q ys st2"
      "wk_tasks st2 = []" "wk_sent st2 = wk_sent st1" "wk_id st2 = wk_id st1"
    using refused_selection [OF st1(1), of res now] Cons.prems(3) r by auto
  then have "list_answers (r # rs) (try_candidates c q xs st) = list_answers rs (try_candidates c q ys st2)"
    by (simp add: r list_answers_Cons st1_def)
  moreover have "length rs < length ys" "\<forall>r \<in> set rs. refused (fst r)" "[] \<notin> set ys"
    using Cons.prems xs by auto
  ultimately show ?case
    using Cons.IH [of st2 ys] st1 st2 by (simp add: xs Let_def)
qed

lemma selection_accepted:
  fixes data now
  assumes "wk_tasks st = [(c, Select_files i k)]" "k \<noteq> After_deletion"
  defines "st' \<equiv> list_step (List_answer 0 (HttpOk (Inr data)) now) st"
  shows "wk_id st' = Some i" "ed_files (wk_ed st') = shown_files data" "wk_url st' = (if i = [] then None else Some i)"
    "wk_error st' = wk_error st" "\<not> wk_loading st'" "wk_tasks st' = []" "wk_sent st' = wk_sent st" "wk_reported st' = Some i"
    "ed_openDirs (wk_ed st') = (if cl_openDirs c = [] then shown_dirs data else ed_openDirs (wk_ed st))" "wk_user st' = wk_user st"
    "wk_window st \<noteq> None \<Longrightarrow> storage_item WORKSPACE_STORAGE_KEY st' = Some i"
    "wk_window st \<noteq> None \<Longrightarrow> \<not> no_id (cl_user c) \<Longrightarrow> stored_current (cl_user c) st' = Some i"
proof -
  obtain st1 where f: "filled c (HttpOk (Inr data)) (st\<lparr>wk_tasks := []\<rparr>) = Inr st1"
    using filled_accepted by blast
  define st2 where "st2 = (updateWorkspaceUrl (Some i) (set_current (cl_user c) i
      (set_item WORKSPACE_STORAGE_KEY i (setWorkspaceId (Some i) st1))))\<lparr>wk_loading := False\<rparr>"
  have e: "selectWorkspace_end c i (HttpOk (Inr data)) (st\<lparr>wk_tasks := []\<rparr>) = (True, st2)"
    using f by (simp add: selectWorkspace_end_def st2_def)
  have "list_answered c (Select_files i k) (HttpOk (Inr data)) now (st\<lparr>wk_tasks := []\<rparr>) = st2"
    using assms(2) e by (cases k) auto
  moreover have "wk_user st2 = wk_user st"
    using filled_frame [OF f] by (simp add: st2_def)
  ultimately have st': "st' = st2"
    unfolding st'_def using list_step_answer [OF assms(1)] by simp
  have keys: "USER_WORKSPACE_CURRENT_PREFIX @ u \<noteq> WORKSPACE_STORAGE_KEY" for u
    by (simp add: USER_WORKSPACE_CURRENT_PREFIX_def WORKSPACE_STORAGE_KEY_def)
  show "wk_id st' = Some i" "ed_files (wk_ed st') = shown_files data" "wk_url st' = (if i = [] then None else Some i)"
    "wk_error st' = wk_error st" "\<not> wk_loading st'" "wk_tasks st' = []" "wk_sent st' = wk_sent st" "wk_reported st' = Some i"
    "ed_openDirs (wk_ed st') = (if cl_openDirs c = [] then shown_dirs data else ed_openDirs (wk_ed st))" "wk_user st' = wk_user st"
    using filled_frame [OF f] filled_ok [OF f] filled_dirs [OF f]
    by (simp_all add: st' st2_def setWorkspaceId_def updateWorkspaceUrl_def no_id_def)
  show "wk_window st \<noteq> None \<Longrightarrow> storage_item WORKSPACE_STORAGE_KEY st' = Some i"
    using filled_frame [OF f] keys
    by (auto simp: st' st2_def storage_item_def updateWorkspaceUrl_def set_current_def set_item_def setWorkspaceId_def update_conv')
  show "wk_window st \<noteq> None \<Longrightarrow> \<not> no_id (cl_user c) \<Longrightarrow> stored_current (cl_user c) st' = Some i"
    using filled_frame [OF f]
    by (auto simp: st' st2_def stored_current_def storage_item_def updateWorkspaceUrl_def set_current_def set_item_def setWorkspaceId_def update_conv')
qed

lemma save_list_current [simp]: "stored_current u (save_list u' ws st) = stored_current u st"
  by (auto simp: stored_current_def storage_item_def save_list_def saveWorkspaceList_def update_conv'
      USER_WORKSPACE_LIST_PREFIX_def USER_WORKSPACE_CURRENT_PREFIX_def split: option.splits)


end
