(* ===== verification/WorkspaceRuns.thy ===== *)
theory WorkspaceRuns
  imports WorkspaceList
begin

text \<open>
  Runs of the list of workspaces: the marks of loading and deleting in every run, what selecting and deleting a
  workspace leads to, and what happens when two of these meet.
\<close>

subsection \<open>The marks\<close>

fun ends_loading :: "list_task \<Rightarrow> bool" where
  "ends_loading (Delete_post i) \<longleftrightarrow> False"
| "ends_loading (Deleted_list i) \<longleftrightarrow> False"
| "ends_loading t \<longleftrightarrow> True"

fun ends_deleting :: "list_task \<Rightarrow> bool" where
  "ends_deleting (Delete_post i) \<longleftrightarrow> True"
| "ends_deleting (Deleted_list i) \<longleftrightarrow> True"
| "ends_deleting (Select_files i k) \<longleftrightarrow> k = After_deletion"
| "ends_deleting t \<longleftrightarrow> False"

fun rest_ok :: "list_task \<Rightarrow> bool" where
  "rest_ok (Select_files i k) \<longleftrightarrow> go_on_ok k"
| "rest_ok t \<longleftrightarrow> True"

text \<open>The marks are covered by a request under way, or by the one that is being answered.\<close>

definition marks :: "bool \<Rightarrow> bool \<Rightarrow> list_state \<Rightarrow> bool" where
  "marks L D st \<longleftrightarrow>
     (wk_loading st \<longrightarrow> L \<or> (\<exists>p \<in> set (wk_tasks st). ends_loading (snd p)))
     \<and> (wk_deleting st \<noteq> None \<longrightarrow> D \<or> (\<exists>p \<in> set (wk_tasks st). ends_deleting (snd p)))
     \<and> wk_reported st = wk_id st \<and> (\<forall>p \<in> set (wk_tasks st). rest_ok (snd p))"

lemma marks_frame:
  assumes "wk_loading st' = wk_loading st" "wk_deleting st' = wk_deleting st" "wk_tasks st' = wk_tasks st"
    "wk_reported st' = wk_id st' \<longleftrightarrow> wk_reported st = wk_id st"
  shows "marks L D st' \<longleftrightarrow> marks L D st"
  using assms by (simp add: marks_def)

lemma marks_quiet: "marks L D st \<Longrightarrow> marks False D (wk_loading_update (\<lambda>_. False) st)"
  by (simp add: marks_def)

lemma marks_done: "marks L D st \<Longrightarrow> marks L False (wk_deleting_update (\<lambda>_. None) st)"
  by (simp add: marks_def)

lemma marks_mono: "marks L D st \<Longrightarrow> (L \<Longrightarrow> L') \<Longrightarrow> (D \<Longrightarrow> D') \<Longrightarrow> marks L' D' st"
  by (auto simp: marks_def)

lemma marks_send:
  "marks L D st \<Longrightarrow> rest_ok t \<Longrightarrow> marks (L \<and> \<not> ends_loading t) (D \<and> \<not> ends_deleting t) (send_list r c t st)"
  by (auto simp: marks_def)

lemma marks_select:
  assumes "marks L D st" "i \<noteq> []" "go_on_ok k"
  shows "marks False (D \<and> k \<noteq> After_deletion) (selectWorkspace_begin c i k st)"
  using assms by (auto simp: selectWorkspace_begin_def marks_def)

lemma marks_create: "marks L D st \<Longrightarrow> marks False D (createWorkspace_begin c st)"
  by (auto simp: createWorkspace_begin_def create_post_def marks_def Let_def)

lemma marks_candidates: "marks L D st \<Longrightarrow> [] \<notin> set xs \<Longrightarrow> marks False D (try_candidates c q xs st)"
  using marks_select [of L D st "hd xs" "Next_candidate q (hd xs) (tl xs)" c] by (cases xs) (auto intro: marks_create)

lemma marks_stored: "marks L D st \<Longrightarrow> marks False D (try_stored c st)"
  using marks_select [of L D st "the (storage_item WORKSPACE_STORAGE_KEY st)" Next_create c]
  by (auto simp: try_stored_def no_id_def intro: marks_create)

lemma marks_fetched: "marks L D (snd (fetchWorkspaceListFromApi res st)) \<longleftrightarrow> marks L D st"
  by (rule marks_frame) simp_all

lemma marks_refreshed: "marks L D (snd (refreshWorkspaceListFromApi res st)) \<longleftrightarrow> marks L D st"
  by (rule marks_frame) simp_all

lemma marks_filled: "filled c res st = Inr st1 \<Longrightarrow> marks L D st1 \<longleftrightarrow> marks L D st"
  by (rule marks_frame) (auto dest: filled_frame)

lemma marks_opened:
  assumes "marks L D st"
  shows "marks False D (initWorkspace_listed c q res st)"
proof -
  obtain api st1 where f: "fetchWorkspaceListFromApi res st = (api, st1)"
    by (cases "fetchWorkspaceListFromApi res st")
  then have st1: "marks L D st1"
    using marks_fetched [of L D res st] assms by simp
  then have same: "marks L D (save_list u ws (st1\<lparr>wk_list := l\<rparr>))" "marks L D (st1\<lparr>wk_list := l\<rparr>)" for u ws l
    by (simp_all add: marks_def)
  have reset: "marks False D (wk_loading_update (\<lambda>_. False) (forget_current u (updateWorkspaceUrl None (setWorkspaceId None (resetWorkspaceState s)))))"
    "marks False D (s\<lparr>wk_user := None, wk_list := [], wk_loading := False\<rparr>)"
    if "marks L D s" for u s
    using that by (simp_all add: marks_def)
  show ?thesis
    unfolding initWorkspace_listed_def Let_def f prod.case
    using st1 same reset
    by (auto simp: no_id_def intro!: marks_candidates [of L] candidates_ne marks_stored [of L] marks_select [of L D _ _ "Next_stored _", simplified])
qed

lemma marks_answered:
  assumes "marks (ends_loading t) (ends_deleting t) st" "rest_ok t"
  shows "marks False False (list_answered c t res now st)"
proof (cases t)
  case (Init_list q)
  then show ?thesis
    using assms marks_opened by fastforce
next
  case (Select_files i k)
  obtain good st1 where e: "selectWorkspace_end c i res st = (good, st1)"
    by (cases "selectWorkspace_end c i res st")
  have sel: "marks True (k = After_deletion) st"
    using assms(1) Select_files by simp
  have st1: "marks False (k = After_deletion) st1"
  proof (cases "filled c res st")
    case (Inl m)
    with e sel show ?thesis
      by (auto simp: selectWorkspace_end_def marks_def)
  next
    case (Inr st2)
    then have "marks True (k = After_deletion) st2"
      using sel marks_filled by simp
    with e Inr show ?thesis
      by (auto simp: selectWorkspace_end_def marks_def)
  qed
  have err: "marks False D (s\<lparr>wk_error := m\<rparr>) \<longleftrightarrow> marks False D s" "marks False D (remove_item key s) \<longleftrightarrow> marks False D s" for D s m key
    by (rule marks_frame; simp)+
  have "marks False False (selected_next c k good st1)"
    using st1 assms(2) Select_files
    by (cases k) (auto simp: err intro!: marks_candidates [of False] marks_stored [of False] marks_create [of False] marks_done)
  with e show ?thesis
    by (simp add: Select_files)
next
  case (Deleted_list i)
  obtain ws st1 where r: "refreshWorkspaceListFromApi res st = (ws, st1)"
    by (cases "refreshWorkspaceListFromApi res st")
  then have st1: "marks False True st1"
    using marks_refreshed [of False True res st] assms Deleted_list by simp
  have saved: "marks False True (save_list u l (st1\<lparr>wk_list := l\<rparr>))" for u l
    using st1 by (simp add: marks_def)
  have reset: "marks False True (forget_current u (updateWorkspaceUrl None (setWorkspaceId None (resetWorkspaceState s))))"
    "marks False True (forget_current u s)" if "marks False True s" for u s
    using that by (simp_all add: marks_def)
  show ?thesis
    unfolding Deleted_list list_answered.simps deletion_listed_def Let_def r prod.case
    using st1 saved reset
    by (auto intro!: marks_done [of False True] marks_select [of False True _ _ After_deletion, simplified] split: option.splits)
next
  case (Delete_post i)
  then show ?thesis
    using assms by (auto simp: workspace_deleted_def marks_def split: option.splits)
next
  case (Created_files i createdAt)
  then have "marks True False st"
    using assms(1) by simp
  show ?thesis
  proof (cases "filled c res st")
    case (Inl m)
    then show ?thesis
      using \<open>marks True False st\<close> by (simp add: Created_files created_filled_def create_failed_def marks_def)
  next
    case (Inr st1)
    then have "marks True False st1"
      using marks_filled \<open>marks True False st\<close> by blast
    then show ?thesis
      using marks_send [of True False st1 "Created_list i createdAt" List_workspaces c]
      by (simp add: Created_files created_filled_def Inr)
  qed
qed (use assms in \<open>auto simp: create_post_def created_def create_failed_def created_listed_def marks_def
       case_prod_beta Let_def split: sum.splits\<close>)

lemma marks_taken:
  assumes "marks False False st" "i < length (wk_tasks st)"
  defines "t \<equiv> snd (wk_tasks st ! i)"
  shows "marks (ends_loading t) (ends_deleting t) (st\<lparr>wk_tasks := drop_nth i (wk_tasks st)\<rparr>)" "rest_ok t"
proof -
  have split: "wk_tasks st = take i (wk_tasks st) @ wk_tasks st ! i # drop (Suc i) (wk_tasks st)"
    using assms(2) by (rule id_take_nth_drop)
  have "set (wk_tasks st) = insert (wk_tasks st ! i) (set (drop_nth i (wk_tasks st)))"
    by (subst split) (simp add: drop_nth_def)
  with assms(1) show "marks (ends_loading t) (ends_deleting t) (st\<lparr>wk_tasks := drop_nth i (wk_tasks st)\<rparr>)" "rest_ok t"
    by (auto simp: marks_def t_def)
qed

lemma marks_begun:
  "marks False False st \<Longrightarrow> marks False False (initWorkspace_begin c st)"
  "marks False False st \<Longrightarrow> marks False False (deleteWorkspace_begin c i confirmed st)"
  by (auto simp: initWorkspace_begin_def deleteWorkspace_begin_def marks_def)

lemma marks_handled: "marks False False st \<Longrightarrow> marks False False (list_handle e st)"
proof (induction e st rule: list_handle.induct)
  case (1 q st)
  then have "marks False False (initWorkspace_begin (closure_of st) (st\<lparr>wk_list := []\<rparr>))"
    by (intro marks_begun) (simp add: marks_def)
  then show ?case
    by (simp add: marks_def)
next
  case (8 i res now st)
  then show ?case
    using marks_answered [OF marks_taken] by simp
next
  case (3 i st)
  then show ?case
    using marks_select [of False False st i Chosen "closure_of st"] by (cases "i = []") (auto simp: selectWorkspace_begin_def)
next
  case (2 q st)
  then show ?case
    by (simp add: marks_def)
next
  case (4 st)
  then show ?case
    by (simp add: marks_create)
next
  case (5 i confirmed st)
  then show ?case
    by (simp add: marks_begun)
next
  case (6 path st)
  then show ?case
    by (simp add: marks_def toggleDir_def)
next
  case (7 s st)
  then show ?case
    by (simp add: marks_def)
qed

interpretation workspaces: machine list_step "marks False False"
proof
  fix st :: list_state and e :: list_event
  assume "marks False False st"
  then have h: "marks False False (list_handle e st)"
    by (rule marks_handled)
  have "marks False False (s\<lparr>wk_list := []\<rparr>)" if "marks False False s" for s
    using that by (simp add: marks_def)
  then show "marks False False (list_step e st)"
    unfolding list_step_def user_effects_def Let_def using h by (auto intro!: marks_begun)
qed

text \<open>
  In every run the page shows that it loads, or that it deletes, only while a request that will end this is under way,
  and the workspace that is open is the one last reported.
\<close>

theorem marks_have_requests:
  fixes window url cookie es
  defines "st \<equiv> fold list_step es (opened_page window url cookie)"
  shows "(wk_loading st \<longrightarrow> list_ex (\<lambda>(c, t). ends_loading t) (wk_tasks st))
    \<and> (wk_deleting st \<noteq> None \<longrightarrow> list_ex (\<lambda>(c, t). ends_deleting t) (wk_tasks st)) \<and> wk_reported st = wk_id st"
proof -
  have "marks False False (opened_page window url cookie)"
    by (simp add: marks_def opened_page_def initial_editor_def)
  then have "marks False False st"
    unfolding st_def by (rule workspaces.every_run_ok)
  then show ?thesis
    by (fastforce simp: marks_def list_ex_iff)
qed

subsection \<open>Selecting and deleting\<close>

text \<open>
  Choosing a workspace empties the panel at once. Accepted, the workspace is open with the files of the answer, and the
  address and the storage name it; its directories are only opened when none was open before. Refused, the workspace
  that was open before stays the one that is open, now without files.
\<close>

theorem selection_outcome:
  fixes st data now i res m
  assumes "wk_tasks st = []" "i \<noteq> []" "wk_window st \<noteq> None" "json_answer res = Inl m"
  defines "accepted \<equiv> list_step (List_answer 0 (HttpOk (Inr data)) now) (list_step (Select_workspace i) st)"
    and "denied \<equiv> list_step (List_answer 0 res now) (list_step (Select_workspace i) st)"
  shows "wk_id accepted = Some i \<and> ed_files (wk_ed accepted) = shown_files data \<and> wk_url accepted = Some i
      \<and> ed_openDirs (wk_ed accepted) = (if ed_openDirs (wk_ed st) = [] then shown_dirs data else [])
      \<and> wk_error accepted = None \<and> storage_item WORKSPACE_STORAGE_KEY accepted = Some i
      \<and> wk_id denied = wk_id st \<and> ed_files (wk_ed denied) = [] \<and> ed_path (wk_ed denied) = None
      \<and> wk_url denied = wk_url st \<and> wk_error denied = Some m"
proof -
  define c where "c = closure_of st"
  define st1 where "st1 = list_step (Select_workspace i) st"
  have st1: "st1 = selectWorkspace_begin c i Chosen st"
    using assms(2) by (simp add: st1_def c_def list_step_def user_effects_def selectWorkspace_begin_def)
  then have t: "wk_tasks st1 = [(c, Select_files i Chosen)]" "wk_window st1 = wk_window st" "wk_error st1 = None" "wk_id st1 = wk_id st"
      "wk_url st1 = wk_url st" "ed_files (wk_ed st1) = []" "ed_path (wk_ed st1) = None" "ed_openDirs (wk_ed st1) = []"
    using assms(1,2) by (simp_all add: selectWorkspace_begin_def resetWorkspaceState_def send_list_def)
  have "denied = st1\<lparr>wk_tasks := [], wk_error := Some m, wk_loading := False\<rparr>"
    unfolding denied_def st1_def [symmetric]
    by (subst list_step_answer [OF t(1)]) (simp_all add: selectWorkspace_end_def filled_refused [OF assms(4)])
  moreover have "cl_openDirs c = ed_openDirs (wk_ed st)"
    by (simp add: c_def closure_of_def)
  ultimately show ?thesis
    using selection_accepted [OF t(1), of data now] assms(2,3) t
    unfolding accepted_def st1_def [symmetric] by simp
qed

lemma listed_ids: "e \<in> set (al_workspaces (fetched_list res)) \<Longrightarrow> wl_id e \<noteq> []"
  by (auto simp: fetched_list_def no_list_def normalizeWorkspaceList_def list_entry_def Let_def List.map_filter_def
      split: http_reply.splits sum.splits if_splits)

text \<open>
  A confirmed deletion that is refused shows the reason and changes nothing. Accepted, the list is asked for again; when
  the workspace was open the panel is emptied and the first of the others is opened, otherwise the panel is left alone.
\<close>

theorem deletion_outcome:
  fixes st i ok now listing now' bad m api
  assumes "wk_tasks st = []" "trim i \<noteq> []" "detail_error bad = Some m" "detail_error ok = None"
    "fetched_list listing = api" "al_supported api" "al_authenticated api" "al_userId api = wk_user st"
  defines "denied \<equiv> list_answers [(bad, now)] (list_step (Remove_workspace i True) st)"
    and "st' \<equiv> list_answers [(ok, now), (listing, now')] (list_step (Remove_workspace i True) st)"
    and "others \<equiv> filter (\<lambda>entry. wl_id entry \<noteq> trim i) (al_workspaces api)"
  shows "wk_error denied = Some m \<and> wk_deleting denied = None \<and> wk_tasks denied = [] \<and> wk_ed denied = wk_ed st \<and> wk_list denied = wk_list st
    \<and> wk_list st' = al_workspaces api
    \<and> (if wk_id st = Some (trim i)
       then wk_id st' = None \<and> ed_files (wk_ed st') = [] \<and> wk_url st' = None
         \<and> wk_sent st' = wk_sent st @ [Delete_workspace (trim i), List_workspaces] @ map (List_files \<circ> wl_id) (take 1 others)
         \<and> map snd (wk_tasks st') = map (\<lambda>entry. Select_files (wl_id entry) After_deletion) (take 1 others)
       else wk_ed st' = wk_ed st \<and> wk_url st' = wk_url st \<and> wk_tasks st' = [] \<and> wk_deleting st' = None)"
proof -
  define c where "c = closure_of st"
  define st1 where "st1 = list_step (Remove_workspace i True) st"
  have st1: "wk_tasks st1 = [(c, Delete_post (trim i))]" "wk_user st1 = wk_user st" "wk_ed st1 = wk_ed st" "wk_list st1 = wk_list st"
      "wk_sent st1 = wk_sent st @ [Delete_workspace (trim i)]" "wk_url st1 = wk_url st"
    using assms(1,2) by (simp_all add: st1_def c_def list_step_def user_effects_def deleteWorkspace_begin_def)
  have "denied = st1\<lparr>wk_tasks := [], wk_error := Some m, wk_deleting := None\<rparr>"
    unfolding denied_def list_answers_Cons st1_def [symmetric]
    by (subst list_step_answer [OF st1(1)]) (simp_all add: workspace_deleted_def assms(3) list_answers_def)
  then have denied: "wk_error denied = Some m \<and> wk_deleting denied = None \<and> wk_tasks denied = [] \<and> wk_ed denied = wk_ed st \<and> wk_list denied = wk_list st"
    using st1 by simp
  define st2 where "st2 = list_step (List_answer 0 ok now) st1"
  have "st2 = send_list List_workspaces c (Deleted_list (trim i)) (st1\<lparr>wk_tasks := []\<rparr>)"
    unfolding st2_def by (subst list_step_answer [OF st1(1)]) (simp_all add: workspace_deleted_def assms(4))
  then have st2: "wk_tasks st2 = [(c, Deleted_list (trim i))]" "wk_user st2 = wk_user st" "wk_ed st2 = wk_ed st"
      "wk_sent st2 = wk_sent st @ [Delete_workspace (trim i), List_workspaces]" "wk_url st2 = wk_url st"
    using st1 by simp_all
  define st3 where "st3 = snd (refreshWorkspaceListFromApi listing (st2\<lparr>wk_tasks := []\<rparr>))"
  have r: "refreshWorkspaceListFromApi listing (st2\<lparr>wk_tasks := []\<rparr>) = (Some (al_workspaces api), st3)"
    using assms(5-7) by (simp add: st3_def refreshWorkspaceListFromApi_def fetchWorkspaceListFromApi_def Let_def)
  have st3: "wk_list st3 = al_workspaces api" "wk_user st3 = wk_user st" "wk_tasks st3 = []" "wk_ed st3 = wk_ed st"
      "wk_sent st3 = wk_sent st2" "wk_url st3 = wk_url st"
    using assms(5-8) st2
    by (auto simp: st3_def refreshWorkspaceListFromApi_def fetchWorkspaceListFromApi_def Let_def)
  have find: "List.find (\<lambda>entry. wl_id entry \<noteq> trim i) (al_workspaces api) = (case others of [] \<Rightarrow> None | e # _ \<Rightarrow> Some e)"
    unfolding others_def by (simp add: find_filter)
  have user: "wk_user (deletion_listed c (trim i) listing (st2\<lparr>wk_tasks := []\<rparr>)) = wk_user (st2\<lparr>wk_tasks := []\<rparr>)"
    using st2 st3 by (auto simp: deletion_listed_def r selectWorkspace_begin_def Let_def split: option.splits)
  have st': "st' = deletion_listed c (trim i) listing (st2\<lparr>wk_tasks := []\<rparr>)"
    using list_step_answer [OF st2(1), of listing now'] user
    by (simp add: st'_def list_answers_def st2_def st1_def)
  have c: "cl_workspace c = wk_id st"
    by (simp add: c_def closure_of_def)
  have ids: "e \<in> set others \<Longrightarrow> wl_id e \<noteq> []" for e
    using listed_ids [of e listing] by (simp add: others_def assms(5))
  show ?thesis
  proof (cases "wk_id st = Some (trim i)")
    case True
    then show ?thesis
      using denied st3 st2(4) ids
      by (cases others)
        (auto simp: st' deletion_listed_def r c find Let_def selectWorkspace_begin_def resetWorkspaceState_def updateWorkspaceUrl_def
          setWorkspaceId_def forget_current_def remove_item_def no_id_def send_list_def)
  next
    case False
    then show ?thesis
      using denied st3 by (auto simp: st' deletion_listed_def r c Let_def)
  qed
qed

subsection \<open>When two of them meet\<close>

text \<open>
  Creating a workspace does not look whether the user has gone to another one since: its answers put the files of the
  new workspace under the one that is open, and the address and the storage name the new one.
\<close>

theorem creation_mixes_workspaces:
  fixes st a b data files newfiles listing n1 n2 n3 n4
  assumes "wk_tasks st = []" "trim (wk_cookie st) \<noteq> []" "a \<noteq> []" "b \<noteq> []" "str_nn (jget data ''workspace_id'') = b"
    "\<not> al_supported (fetched_list listing)" "no_id (wk_user st)" "wk_window st \<noteq> None"
  defines "st' \<equiv> fold list_step [New_workspace, List_answer 0 (HttpOk (Inr data)) n1, Select_workspace a,
      List_answer 1 (HttpOk (Inr files)) n2, List_answer 0 (HttpOk (Inr newfiles)) n3, List_answer 0 listing n4] st"
  shows "wk_id st' = Some a \<and> ed_files (wk_ed st') = shown_files newfiles \<and> wk_url st' = Some b
    \<and> storage_item WORKSPACE_STORAGE_KEY st' = Some b \<and> wk_tasks st' = []"
proof -
  define c where "c = closure_of st"
  define st1 where "st1 = list_step New_workspace st"
  have st1: "wk_tasks st1 = [(c, Create_post)]" "wk_user st1 = wk_user st" "wk_window st1 = wk_window st"
    using assms(1,2) by (simp_all add: st1_def c_def list_step_def user_effects_def createWorkspace_begin_def create_post_def Let_def)
  define t where "t = Created_files b (coalesce (jget data ''created_at'') JNull)"
  define st2 where "st2 = list_step (List_answer 0 (HttpOk (Inr data)) n1) st1"
  have "st2 = send_list (List_files b) c t (setWorkspaceId (Some b) (resetWorkspaceState (st1\<lparr>wk_tasks := []\<rparr>)))"
    unfolding st2_def t_def by (subst list_step_answer [OF st1(1)]) (simp_all add: created_def json_answer_def assms(4,5) Let_def)
  then have st2: "wk_tasks st2 = [(c, t)]" "wk_user st2 = wk_user st" "wk_window st2 = wk_window st"
    using st1 by simp_all
  define c' where "c' = closure_of st2"
  define st3 where "st3 = list_step (Select_workspace a) st2"
  have "st3 = selectWorkspace_begin c' a Chosen st2"
    using assms(3) by (simp add: st3_def c'_def list_step_def user_effects_def selectWorkspace_begin_def)
  then have st3: "wk_tasks st3 = [(c, t), (c', Select_files a Chosen)]" "wk_user st3 = wk_user st" "wk_window st3 = wk_window st"
    using st2 assms(3) by (simp_all add: selectWorkspace_begin_def)
  obtain x where x: "filled c' (HttpOk (Inr files)) (st3\<lparr>wk_tasks := [(c, t)]\<rparr>) = Inr x"
    using filled_accepted by blast
  define st4 where "st4 = list_step (List_answer 1 (HttpOk (Inr files)) n2) st3"
  have "st4 = snd (selectWorkspace_end c' a (HttpOk (Inr files)) (st3\<lparr>wk_tasks := [(c, t)]\<rparr>))"
    using x filled_frame [OF x] st3
    by (simp add: st4_def list_step_def user_effects_def selectWorkspace_end_def drop_nth_def)
  then have st4: "wk_tasks st4 = [(c, t)]" "wk_user st4 = wk_user st" "wk_id st4 = Some a" "wk_window st4 \<noteq> None"
    using x filled_frame [OF x] st3 assms(8)
    by (simp_all add: selectWorkspace_end_def updateWorkspaceUrl_def set_current_def set_item_def setWorkspaceId_def)
  obtain y where y: "filled c (HttpOk (Inr newfiles)) (st4\<lparr>wk_tasks := []\<rparr>) = Inr y"
    using filled_accepted by blast
  define t' where "t' = Created_list b (coalesce (jget data ''created_at'') JNull)"
  define st5 where "st5 = list_step (List_answer 0 (HttpOk (Inr newfiles)) n3) st4"
  have "st5 = send_list List_workspaces c t' y"
    unfolding st5_def using list_step_answer [OF st4(1)] filled_frame [OF y]
    by (simp add: t_def t'_def created_filled_def y)
  then have st5: "wk_tasks st5 = [(c, t')]" "wk_user st5 = wk_user st" "wk_id st5 = Some a" "wk_window st5 \<noteq> None"
      "ed_files (wk_ed st5) = shown_files newfiles"
    using filled_frame [OF y] filled_ok [OF y] st4 by simp_all
  have api: "\<not> al_authenticated (fetched_list listing)"
    using assms(6) by (auto simp: fetched_list_def no_list_def split: http_reply.splits sum.splits if_splits)
  have cl: "no_id (cl_user c)"
    using assms(7) by (simp add: c_def closure_of_def)
  define st6 where "st6 = list_step (List_answer 0 listing n4) st5"
  have "st6 = created_listed c b (coalesce (jget data ''created_at'') JNull) listing n4 (st5\<lparr>wk_tasks := []\<rparr>)"
    unfolding st6_def using list_step_answer [OF st5(1)] cl api assms(6)
    by (simp add: t'_def created_listed_def fetchWorkspaceListFromApi_def Let_def)
  then have "st6 = (updateWorkspaceUrl (Some b) (set_item WORKSPACE_STORAGE_KEY b (st5\<lparr>wk_tasks := []\<rparr>)))\<lparr>wk_loading := False\<rparr>"
    using cl api assms(6) by (simp add: created_listed_def fetchWorkspaceListFromApi_def Let_def)
  moreover have "st' = st6"
    by (simp only: st'_def st6_def st5_def st4_def st3_def st2_def st1_def fold_simps comp_apply)
  ultimately show ?thesis
    using st5 assms(4) by (auto simp: updateWorkspaceUrl_def no_id_def set_item_def storage_item_def update_conv')
qed

text \<open>
  The page is opened once before the user of the session is known and once again for the user: where the server keeps
  no list, a user without a remembered workspace gets two new ones.
\<close>

theorem two_workspaces_created:
  fixes u cookie bad1 bad2 n1 n2
  assumes "u \<noteq> []" "trim cookie \<noteq> []" "\<not> al_supported (fetched_list bad1)" "\<not> al_supported (fetched_list bad2)"
  defines "st' \<equiv> fold list_step [Mounted None, List_answer 0 bad1 n1, List_answer 0 bad2 n2]
      (opened_page (Some [(USER_STORAGE_KEY, u)]) None cookie)"
  shows "wk_sent st' = [List_workspaces, List_workspaces, Create_workspace (Some (trim cookie)), Create_workspace (Some (trim cookie))]"
proof -
  have api: "\<not> al_authenticated (fetched_list bad1)" "\<not> al_authenticated (fetched_list bad2)"
    using assms(3,4) by (auto simp: fetched_list_def no_list_def split: http_reply.splits sum.splits if_splits)
  have keys: "WORKSPACE_STORAGE_KEY \<noteq> USER_STORAGE_KEY" "USER_WORKSPACE_CURRENT_PREFIX @ u \<noteq> USER_STORAGE_KEY"
    "USER_WORKSPACE_LIST_PREFIX @ u \<noteq> USER_STORAGE_KEY"
    by (simp_all add: WORKSPACE_STORAGE_KEY_def USER_STORAGE_KEY_def USER_WORKSPACE_CURRENT_PREFIX_def USER_WORKSPACE_LIST_PREFIX_def)
  define st0 where "st0 = opened_page (Some [(USER_STORAGE_KEY, u)]) None cookie"
  define st1 where "st1 = list_step (Mounted None) st0"
  define c where "c = closure_of st0"
  define c' where "c' = c\<lparr>cl_user := Some u\<rparr>"
  have st1: "wk_tasks st1 = [(c, Init_list None), (c', Init_list None)]" "wk_sent st1 = [List_workspaces, List_workspaces]"
      "wk_user st1 = Some u" "wk_window st1 = Some [(USER_STORAGE_KEY, u)]" "wk_cookie st1 = cookie"
    using assms(1)
    by (simp_all add: st1_def st0_def c_def c'_def opened_page_def list_step_def user_effects_def session_sync_def initWorkspace_begin_def
        closure_of_def storage_item_def no_id_def readQueryParam_def send_list_def Let_def)
  have cl: "no_id (cl_user c)" "cl_user c' = Some u"
    by (simp_all add: c_def c'_def st0_def opened_page_def closure_of_def no_id_def)
  define st2 where "st2 = list_step (List_answer 0 bad1 n1) st1"
  have st2: "wk_tasks st2 = [(c', Init_list None), (c, Create_post)]" "wk_user st2 = Some u" "wk_window st2 = Some [(USER_STORAGE_KEY, u)]"
      "wk_sent st2 = [List_workspaces, List_workspaces, Create_workspace (Some (trim cookie))]" "wk_cookie st2 = cookie"
    using st1 cl(1) api(1) assms(2,3) keys(1)
    by (simp_all add: st2_def list_step_def user_effects_def initWorkspace_listed_def fetchWorkspaceListFromApi_def try_stored_def
        storage_item_def createWorkspace_begin_def create_post_def no_id_def Let_def)
  have "candidates None (stored_current (Some u) (st2\<lparr>wk_tasks := [(c, Create_post)]\<rparr>)) [] = []"
    using st2(3) keys(2) by (auto simp: candidates_def nonempties_def stored_current_def storage_item_def opt_else_def)
  moreover have "loadWorkspaceList u (Some [(USER_STORAGE_KEY, u)]) = []"
    using keys(3) by (simp add: loadWorkspaceList_def)
  ultimately have "wk_sent (list_step (List_answer 0 bad2 n2) st2) = wk_sent st2 @ [Create_workspace (Some (trim cookie))]"
    using st2 cl(2) api(2) assms(1,2,4)
    by (simp add: list_step_def user_effects_def initWorkspace_listed_def fetchWorkspaceListFromApi_def
        createWorkspace_begin_def create_post_def no_id_def Let_def)
  moreover have "st' = list_step (List_answer 0 bad2 n2) st2"
    by (simp only: st'_def st2_def st1_def st0_def fold_simps comp_apply)
  ultimately show ?thesis
    using st2(4) by simp
qed

subsection \<open>Concrete runs\<close>

definition two_workspaces :: http_reply where
  "two_workspaces = HttpOk (Inr (JObj [(''authenticated'', JBool True), (''user_id'', JStr ''ann''),
     (''workspaces'', JArr [JObj [(''workspace_id'', JStr ''w1'')], JObj [(''workspace_id'', JStr ''w2'')]])]))"

definition signed_in :: list_state where
  "signed_in = (opened_page (Some []) (Some ''w9'') ''token'')\<lparr>wk_user := Some ''ann''\<rparr>"

definition in_w1 :: list_state where
  "in_w1 = setWorkspaceId (Some ''w1'') signed_in"

theorem marks_have_requests_witness:
  "wk_reported (fold list_step [Mounted None, Select_workspace ''w2''] (opened_page None None []))
     = wk_id (fold list_step [Mounted None, Select_workspace ''w2''] (opened_page None None []))
   \<and> list_ex (\<lambda>(c, t). ends_loading t) (wk_tasks (fold list_step [Mounted None, Select_workspace ''w2''] (opened_page None None [])))"
proof -
  have "wk_loading (fold list_step [Mounted None, Select_workspace ''w2''] (opened_page None None []))"
    by code_simp
  then show ?thesis
    using marks_have_requests [of "[Mounted None, Select_workspace ''w2'']" None None "[]"] by blast
qed

theorem selection_outcome_witness:
  "wk_id (list_step (List_answer 0 (NetError ''gone'') []) (list_step (Select_workspace ''w2'') in_w1)) = Some ''w1''
   \<and> ed_files (wk_ed (list_step (List_answer 0 (NetError ''gone'') []) (list_step (Select_workspace ''w2'') in_w1))) = []"
proof -
  have facts: "wk_tasks in_w1 = []" "''w2'' \<noteq> []" "wk_window in_w1 \<noteq> None" "json_answer (NetError ''gone'') = Inl ''gone''"
    by code_simp+
  have "wk_id in_w1 = Some ''w1''"
    by code_simp
  with selection_outcome [OF facts, where now = "[]"] show ?thesis
    by metis
qed

theorem deletion_outcome_witness:
  "wk_sent (list_answers [(HttpOk (Inr JNull), []), (two_workspaces, [])] (list_step (Remove_workspace ''w1 '' True) in_w1))
     = [Delete_workspace ''w1'', List_workspaces, List_files ''w2'']"
proof -
  have facts: "wk_tasks in_w1 = []" "trim ''w1 '' \<noteq> []" "detail_error (NetError ''gone'') = Some ''gone''" "detail_error (HttpOk (Inr JNull)) = None"
    by code_simp+
  have api: "al_supported (fetched_list two_workspaces)" "al_authenticated (fetched_list two_workspaces)"
    "al_userId (fetched_list two_workspaces) = wk_user in_w1"
    by code_simp+
  have rest: "trim ''w1 '' = ''w1''" "wk_id in_w1 = Some ''w1''" "wk_sent in_w1 = []"
    "map (List_files \<circ> wl_id) (take 1 (filter (\<lambda>entry. wl_id entry \<noteq> ''w1'') (al_workspaces (fetched_list two_workspaces)))) = [List_files ''w2'']"
    by code_simp+
  show ?thesis
    using deletion_outcome [OF facts refl api, of "[]" "[]"] unfolding rest by simp
qed

theorem creation_mixes_workspaces_witness:
  "wk_id (fold list_step [New_workspace, List_answer 0 (HttpOk (Inr (JObj [(''workspace_id'', JStr ''w3'')]))) [], Select_workspace ''w2'',
      List_answer 1 (HttpOk (Inr JNull)) [], List_answer 0 (HttpOk (Inr JNull)) [], List_answer 0 (NetError ''gone'') []]
      (in_w1\<lparr>wk_user := None\<rparr>)) = Some ''w2''"
proof -
  have facts: "wk_tasks (in_w1\<lparr>wk_user := None\<rparr>) = []" "trim (wk_cookie (in_w1\<lparr>wk_user := None\<rparr>)) \<noteq> []" "''w2'' \<noteq> []" "''w3'' \<noteq> []"
    "str_nn (jget (JObj [(''workspace_id'', JStr ''w3'')]) ''workspace_id'') = ''w3''"
    "\<not> al_supported (fetched_list (NetError ''gone''))" "no_id (wk_user (in_w1\<lparr>wk_user := None\<rparr>))" "wk_window (in_w1\<lparr>wk_user := None\<rparr>) \<noteq> None"
    by code_simp+
  show ?thesis
    by (rule creation_mixes_workspaces [OF facts, THEN conjunct1])
qed

theorem two_workspaces_created_witness:
  "wk_sent (fold list_step [Mounted None, List_answer 0 (HttpError 404 None (Inr [])) [], List_answer 0 (HttpError 404 None (Inr [])) []]
      (opened_page (Some [(USER_STORAGE_KEY, ''ann'')]) None ''token''))
    = [List_workspaces, List_workspaces, Create_workspace (Some (trim ''token'')), Create_workspace (Some (trim ''token''))]"
proof -
  have "\<not> al_supported (fetched_list (HttpError 404 None (Inr [])))"
    by (simp add: fetched_list_def no_list_def)
  moreover have "trim ''token'' \<noteq> []"
    by code_simp
  ultimately show ?thesis
    by (intro two_workspaces_created) simp_all
qed

definition opening_run_answers :: "list_event list" where
  "opening_run_answers = replicate 4 (List_answer 0 (NetError ''gone'') [])"

theorem page_opens_witness:
  "let st = opened_page (Some [(USER_STORAGE_KEY, ''ann'')]) None ''token'';
       st' = fold list_step (Mounted None # opening_run_answers) st; changes = user_changes (Mounted None # opening_run_answers) st
   in length opening_run_answers + tasks_rank st' \<le> 8 * Suc changes \<and> changes \<le> 2 \<and> wk_tasks st' = [] \<and> \<not> wk_loading st'"
proof -
  define st where "st = opened_page (Some [(USER_STORAGE_KEY, ''ann'')]) None ''token''"
  have start: "wk_tasks st = []"
    by (simp add: st_def opened_page_def)
  have run: "answering opening_run_answers (list_step (Mounted None) st) \<and> agreed (Some ''ann'') opening_run_answers (list_step (Mounted None) st)
      \<and> wk_tasks (fold list_step (Mounted None # opening_run_answers) st) = []"
    unfolding st_def by code_simp
  then have facts: "answering opening_run_answers (list_step (Mounted None) st)"
      "agreed (Some ''ann'') opening_run_answers (list_step (Mounted None) st)"
      "wk_tasks (fold list_step (Mounted None # opening_run_answers) st) = []"
    by blast+
  show ?thesis
    using page_opens [OF start facts(1), of "Some ''ann''"] facts(2,3) unfolding st_def Let_def by blast
qed


end
