(* ===== verification/WorkspaceNav.thy ===== *)
theory WorkspaceNav
  imports WorkspaceList
begin

text \<open>
  The workspace segment of the navigation bar (\<open>deployment-workspace/WorkspaceNavSegment.tsx\<close>): its menu, the list it
  asks for, creating, deleting, exporting and switching, the action that is kept over a reload of the page, and the
  bridge in \<open>workspace-panel/panel/Cards.tsx\<close> that hands an action to the panel. Switching stores the workspace and loads
  the page again; what the page then opens is decided by \<open>WorkspaceList\<close>. The value of the token cookie is \<open>nv_cookie\<close>.
\<close>

subsection \<open>State\<close>

datatype workspace_action = Show_history | Export_archive | Import_archive | Clean_up | Delete_it

record nav_entry =
  ne_id :: string
  ne_name :: string

datatype nav_request =
  Nav_list
| Nav_create "string option" jsval
| Nav_delete "string option" string
| Nav_download string

datatype nav_task =
  Listing_entries
| Cookie_for_create string
| Creating_entry
| Cookie_for_delete string "string option"
| Deleting_entry string "string option"
| Exporting_entry

record nav_state =
  nv_open :: bool
  nv_creating :: bool
  nv_name :: string
  nv_error :: "string option"
  nv_busy :: bool
  nv_current :: "string option"
  nv_authenticated :: bool
  nv_entries :: "nav_entry list"
  nv_window :: session_store
  nv_cookie :: string
  nv_pending :: "workspace_action list"
  nv_dispatched :: "workspace_action list"
  nv_logins :: nat
  nv_reload :: bool
  nv_tasks :: "nav_task list"
  nv_sent :: "nav_request list"

definition CURRENT_NAME_KEY :: string where
  "CURRENT_NAME_KEY = WORKSPACE_STORAGE_KEY @ ''.name''"

definition PENDING_ACTION_KEY :: string where
  "PENDING_ACTION_KEY = ''infinito.pending-workspace-action''"

fun action_name :: "workspace_action \<Rightarrow> string" where
  "action_name Show_history = ''history''"
| "action_name Export_archive = ''export''"
| "action_name Import_archive = ''import''"
| "action_name Clean_up = ''cleanup''"
| "action_name Delete_it = ''delete''"

definition nav_item :: "string \<Rightarrow> nav_state \<Rightarrow> string option" where
  "nav_item key st = (case nv_window st of None \<Rightarrow> None | Some items \<Rightarrow> map_of items key)"

definition nav_set :: "string \<Rightarrow> string \<Rightarrow> nav_state \<Rightarrow> nav_state" where
  "nav_set key v st = st\<lparr>nv_window := map_option (AList.update key v) (nv_window st)\<rparr>"

definition nav_remove :: "string \<Rightarrow> nav_state \<Rightarrow> nav_state" where
  "nav_remove key st = st\<lparr>nv_window := map_option (AList.delete key) (nv_window st)\<rparr>"

definition nav_send :: "nav_request \<Rightarrow> nav_task \<Rightarrow> nav_state \<Rightarrow> nav_state" where
  "nav_send r t st = st\<lparr>nv_sent := nv_sent st @ [r], nv_tasks := nv_tasks st @ [t]\<rparr>"

subsection \<open>The current workspace\<close>

definition trimmed_item :: "string \<Rightarrow> nav_state \<Rightarrow> string option" where
  "trimmed_item key st =
     (let v = trim (opt_else (nav_item key st) []) in if v = [] then None else Some v)"

definition readCurrentId :: "nav_state \<Rightarrow> string option" where
  "readCurrentId st = trimmed_item WORKSPACE_STORAGE_KEY st"

definition readCachedName :: "nav_state \<Rightarrow> string option" where
  "readCachedName st = trimmed_item CURRENT_NAME_KEY st"

definition persistCurrent :: "string \<Rightarrow> string \<Rightarrow> nav_state \<Rightarrow> nav_state" where
  "persistCurrent i name st =
     (let st1 = nav_set WORKSPACE_STORAGE_KEY i st
      in if name \<noteq> [] then nav_set CURRENT_NAME_KEY name st1 else nav_remove CURRENT_NAME_KEY st1)"

definition currentLabel :: "nav_state \<Rightarrow> string" where
  "currentLabel st =
     (case nv_current st of
        None \<Rightarrow> ''Workspace''
      | Some i \<Rightarrow>
          if i = [] then ''Workspace''
          else case List.find (\<lambda>w. ne_id w = i) (nv_entries st) of
            Some w \<Rightarrow> if ne_name w \<noteq> [] then ne_name w else opt_else (readCachedName st) i
          | None \<Rightarrow> opt_else (readCachedName st) i)"

definition renderedWorkspaces :: "nav_state \<Rightarrow> nav_entry list" where
  "renderedWorkspaces st =
     (if no_id (nv_current st) \<or> list_ex (\<lambda>w. Some (ne_id w) = nv_current st) (nv_entries st) then nv_entries st
      else \<lparr>ne_id = the (nv_current st), ne_name = opt_else (readCachedName st) (the (nv_current st))\<rparr> # nv_entries st)"

subsection \<open>The list\<close>

definition nav_row :: "jsval \<Rightarrow> nav_entry" where
  "nav_row entry =
     \<lparr>ne_id = str_nn (jget entry ''workspace_id''),
      ne_name = str_nn (coalesce (jget entry ''name'') (jget entry ''workspace_id''))\<rparr>"

definition listWorkspaces :: "http_reply \<Rightarrow> string + bool \<times> nav_entry list" where
  "listWorkspaces res =
     (case res of
        NetError m \<Rightarrow> Inl m
      | HttpError status _ _ \<Rightarrow> Inr (False, [])
      | HttpOk (Inl _) \<Rightarrow> Inr (False, [])
      | HttpOk (Inr body) \<Rightarrow>
          Inr (truthy (jget body ''authenticated''),
               filter (\<lambda>w. ne_id w \<noteq> []) (map nav_row (filter is_object (arr_items (jget body ''workspaces''))))))"

definition reloadList_begin :: "nav_state \<Rightarrow> nav_state" where
  "reloadList_begin st = nav_send Nav_list Listing_entries st"

definition reloadList_end :: "http_reply \<Rightarrow> nav_state \<Rightarrow> nav_state" where
  "reloadList_end res st =
     (case listWorkspaces res of
        Inl m \<Rightarrow> st\<lparr>nv_error := Some m\<rparr>
      | Inr (authenticated, entries) \<Rightarrow> st\<lparr>nv_authenticated := authenticated, nv_entries := entries\<rparr>)"

text \<open>When the segment appears it also takes the action that was kept over a reload; it is dispatched after a pause.\<close>

definition kept_action :: "nav_state \<Rightarrow> workspace_action option" where
  "kept_action st =
     List.find (\<lambda>a. nav_item PENDING_ACTION_KEY st = Some (action_name a))
       [Show_history, Export_archive, Import_archive, Clean_up, Delete_it]"

definition nav_mounted :: "nav_state \<Rightarrow> nav_state" where
  "nav_mounted st =
     (let st1 = reloadList_begin (st\<lparr>nv_current := readCurrentId st\<rparr>)
      in case kept_action st of
           None \<Rightarrow> st1
         | Some a \<Rightarrow> (nav_remove PENDING_ACTION_KEY st1)\<lparr>nv_pending := nv_pending st @ [a]\<rparr>)"

subsection \<open>Switching and creating\<close>

definition switchTo :: "nav_entry \<Rightarrow> nav_state \<Rightarrow> nav_state" where
  "switchTo entry st =
     (persistCurrent (ne_id entry) (ne_name entry) st)
       \<lparr>nv_current := Some (ne_id entry), nv_open := False, nv_creating := False, nv_reload := True\<rparr>"

definition create_body :: "string \<Rightarrow> jsval" where
  "create_body name = JObj (if name = [] then [] else [(''name'', JStr name)])"

definition csrf_token :: "nav_state \<Rightarrow> string option" where
  "csrf_token st = (if nv_cookie st = [] then None else Some (nv_cookie st))"

definition onCreateSubmit_begin :: "nav_state \<Rightarrow> nav_state" where
  "onCreateSubmit_begin st =
     (let name = trim (nv_name st); st1 = st\<lparr>nv_busy := True, nv_error := None\<rparr>
      in if nv_cookie st = [] then nav_send Nav_list (Cookie_for_create name) st1
         else nav_send (Nav_create (csrf_token st) (create_body name)) Creating_entry st1)"

definition onCreateSubmit_end :: "http_reply \<Rightarrow> nav_state \<Rightarrow> nav_state" where
  "onCreateSubmit_end res st =
     (case (case detail_error res of Some m \<Rightarrow> Inl m | None \<Rightarrow> json_answer res) of
        Inl m \<Rightarrow> st\<lparr>nv_error := Some m, nv_busy := False\<rparr>
      | Inr data \<Rightarrow>
          (switchTo \<lparr>ne_id = js_str (jget data ''workspace_id''),
              ne_name = js_str (js_or (jget data ''name'') (jget data ''workspace_id''))\<rparr> st)\<lparr>nv_busy := False\<rparr>)"

subsection \<open>Actions on a workspace\<close>

definition handleAction_begin :: "nav_entry \<Rightarrow> workspace_action \<Rightarrow> bool \<Rightarrow> nav_state \<Rightarrow> nav_state" where
  "handleAction_begin w action confirmed st =
     (let st1 = st\<lparr>nv_open := False\<rparr> in
      case action of
        Export_archive \<Rightarrow> nav_send (Nav_download (ne_id w)) Exporting_entry st1
      | Delete_it \<Rightarrow>
          (if \<not> confirmed then st1
           else if nv_cookie st = [] then nav_send Nav_list (Cookie_for_delete (ne_id w) (nv_current st)) st1
           else nav_send (Nav_delete (csrf_token st) (ne_id w)) (Deleting_entry (ne_id w) (nv_current st)) st1)
      | _ \<Rightarrow>
          (if nv_current st = Some (ne_id w) then st1\<lparr>nv_dispatched := nv_dispatched st @ [action]\<rparr>
           else switchTo w (nav_set PENDING_ACTION_KEY (action_name action) st1)))"

definition deleted_entry :: "string \<Rightarrow> string option \<Rightarrow> http_reply \<Rightarrow> nav_state \<Rightarrow> nav_state" where
  "deleted_entry i current res st =
     (case detail_error res of
        Some m \<Rightarrow> st\<lparr>nv_error := Some (''Failed to delete: '' @ m)\<rparr>
      | None \<Rightarrow>
          if current = Some i
          then (nav_remove CURRENT_NAME_KEY (nav_remove WORKSPACE_STORAGE_KEY st))\<lparr>nv_reload := True\<rparr>
          else reloadList_begin st)"

definition exported_entry :: "http_reply \<Rightarrow> nav_state \<Rightarrow> nav_state" where
  "exported_entry res st =
     (case json_answer res of
        Inl m \<Rightarrow> st\<lparr>nv_error := Some (''Failed to export: '' @ m)\<rparr>
      | Inr _ \<Rightarrow> st)"

subsection \<open>Events\<close>

fun nav_answered :: "nav_task \<Rightarrow> http_reply \<Rightarrow> nav_state \<Rightarrow> nav_state" where
  "nav_answered Listing_entries res st = reloadList_end res st"
| "nav_answered (Cookie_for_create name) res st = nav_send (Nav_create (csrf_token st) (create_body name)) Creating_entry st"
| "nav_answered Creating_entry res st = onCreateSubmit_end res st"
| "nav_answered (Cookie_for_delete i current) res st = nav_send (Nav_delete (csrf_token st) i) (Deleting_entry i current) st"
| "nav_answered (Deleting_entry i current) res st = deleted_entry i current res st"
| "nav_answered Exporting_entry res st = exported_entry res st"

datatype nav_event =
  Nav_appears
| Toggle_menu
| Click_outside
| Start_creating
| Type_name string
| Submit_name
| Cancel_creating
| Sign_in
| Choose_entry nav_entry
| Act_on nav_entry workspace_action bool
| Pause_over
| Nav_cookie string
| Nav_answer nat http_reply

fun nav_step :: "nav_event \<Rightarrow> nav_state \<Rightarrow> nav_state" where
  "nav_step Nav_appears st = nav_mounted st"
| "nav_step Toggle_menu st = st\<lparr>nv_open := \<not> nv_open st, nv_creating := False, nv_error := None\<rparr>"
| "nav_step Click_outside st = (if nv_open st then st\<lparr>nv_open := False, nv_creating := False, nv_error := None\<rparr> else st)"
| "nav_step Start_creating st =
     (if nv_authenticated st then st\<lparr>nv_creating := True, nv_name := [], nv_error := None\<rparr>
      else st\<lparr>nv_open := False, nv_logins := Suc (nv_logins st)\<rparr>)"
| "nav_step (Type_name s) st = (if nv_busy st then st else st\<lparr>nv_name := s\<rparr>)"
| "nav_step Submit_name st = (if nv_busy st then st else onCreateSubmit_begin st)"
| "nav_step Cancel_creating st = (if nv_busy st then st else st\<lparr>nv_creating := False, nv_error := None\<rparr>)"
| "nav_step Sign_in st = st\<lparr>nv_open := False, nv_logins := Suc (nv_logins st)\<rparr>"
| "nav_step (Choose_entry w) st = switchTo w st"
| "nav_step (Act_on w action confirmed) st =
     (if action = Delete_it \<and> nv_current st = Some (ne_id w) then st else handleAction_begin w action confirmed st)"
| "nav_step Pause_over st =
     (case nv_pending st of [] \<Rightarrow> st | a # as \<Rightarrow> st\<lparr>nv_pending := as, nv_dispatched := nv_dispatched st @ [a]\<rparr>)"
| "nav_step (Nav_cookie s) st = st\<lparr>nv_cookie := s\<rparr>"
| "nav_step (Nav_answer i res) st =
     (if i < length (nv_tasks st) then nav_answered (nv_tasks st ! i) res (st\<lparr>nv_tasks := drop_nth i (nv_tasks st)\<rparr>) else st)"

definition new_nav :: "session_store \<Rightarrow> string \<Rightarrow> nav_state" where
  "new_nav window cookie =
     \<lparr>nv_open = False, nv_creating = False, nv_name = [], nv_error = None, nv_busy = False, nv_current = None,
      nv_authenticated = False, nv_entries = [], nv_window = window, nv_cookie = cookie, nv_pending = [], nv_dispatched = [],
      nv_logins = 0, nv_reload = False, nv_tasks = [], nv_sent = []\<rparr>"

text \<open>
  What the panel does with a dispatched action: the dialog or request it starts, for the workspace that is open there.
\<close>

definition bridged_action ::
  "string option \<Rightarrow> bool \<Rightarrow> bool \<Rightarrow> bool \<Rightarrow> bool \<Rightarrow> workspace_action \<Rightarrow> (workspace_action \<times> string option) option" where
  "bridged_action workspaceId zipBusy uploadBusy cleanupBusy deleting action =
     (let when = (\<lambda>b. if b then Some (action, workspaceId) else None) in
      case action of
        Show_history \<Rightarrow> when True
      | Export_archive \<Rightarrow> when (\<not> no_id workspaceId \<and> \<not> zipBusy)
      | Import_archive \<Rightarrow> when (\<not> no_id workspaceId \<and> \<not> uploadBusy)
      | Clean_up \<Rightarrow> when (\<not> no_id workspaceId \<and> \<not> cleanupBusy)
      | Delete_it \<Rightarrow> when (\<not> no_id workspaceId \<and> \<not> deleting))"

subsection \<open>One creation at a time\<close>

fun creates :: "nav_task \<Rightarrow> bool" where
  "creates (Cookie_for_create name) \<longleftrightarrow> True"
| "creates Creating_entry \<longleftrightarrow> True"
| "creates t \<longleftrightarrow> False"

definition nav_ok :: "nav_state \<Rightarrow> bool" where
  "nav_ok st \<longleftrightarrow> length (filter creates (nv_tasks st)) = (if nv_busy st then 1 else 0)"

lemma nav_store_frame [simp]:
  "nv_tasks (nav_set key v st) = nv_tasks st" "nv_busy (nav_set key v st) = nv_busy st"
  "nv_tasks (nav_remove key st) = nv_tasks st" "nv_busy (nav_remove key st) = nv_busy st"
  "nv_tasks (persistCurrent i name st) = nv_tasks st" "nv_busy (persistCurrent i name st) = nv_busy st"
  "nv_tasks (nav_send r t st) = nv_tasks st @ [t]" "nv_busy (nav_send r t st) = nv_busy st"
  by (simp_all add: nav_set_def nav_remove_def persistCurrent_def nav_send_def Let_def)

lemma nav_switch_frame [simp]: "nv_tasks (switchTo w st) = nv_tasks st" "nv_busy (switchTo w st) = nv_busy st"
  by (simp_all add: switchTo_def)

lemma nav_answered_ok:
  assumes "nav_ok (st\<lparr>nv_tasks := t # nv_tasks st\<rparr>)"
  shows "nav_ok (nav_answered t res st)"
  using assms
  by (cases t) (auto simp: nav_ok_def reloadList_end_def onCreateSubmit_end_def deleted_entry_def exported_entry_def reloadList_begin_def
      split: sum.splits option.splits if_splits)

lemma nav_step_ok:
  assumes "nav_ok st"
  shows "nav_ok (nav_step e st)"
proof (cases "\<exists>i res. e = Nav_answer i res \<and> i < length (nv_tasks st)")
  case True
  then obtain i res where e: "e = Nav_answer i res" "i < length (nv_tasks st)"
    by blast
  have "length (filter creates (nv_tasks st)) = length (filter creates (nv_tasks st ! i # drop_nth i (nv_tasks st)))"
    by (subst id_take_nth_drop [OF e(2)]) (simp add: drop_nth_def)
  then have "nav_ok (st\<lparr>nv_tasks := nv_tasks st ! i # drop_nth i (nv_tasks st)\<rparr>)"
    using assms by (simp add: nav_ok_def)
  then show ?thesis
    using e nav_answered_ok [where st = "st\<lparr>nv_tasks := drop_nth i (nv_tasks st)\<rparr>" and t = "nv_tasks st ! i"] by simp
next
  case False
  then show ?thesis
    using assms
    by (cases e) (auto simp: nav_ok_def nav_mounted_def reloadList_begin_def onCreateSubmit_begin_def handleAction_begin_def Let_def
        split: option.splits workspace_action.splits list.splits if_splits)
qed

interpretation navigation: machine nav_step nav_ok
  by unfold_locales (rule nav_step_ok)

text \<open>In every run at most one creation is under way, and the form is locked exactly while it is.\<close>

theorem one_creation_at_a_time:
  fixes window cookie es
  defines "st \<equiv> fold nav_step es (new_nav window cookie)"
  shows "length (filter creates (nv_tasks st)) = (if nv_busy st then 1 else 0)"
proof -
  have "nav_ok (new_nav window cookie)"
    by (simp add: nav_ok_def new_nav_def)
  then show ?thesis
    using navigation.every_run_ok [of "new_nav window cookie" es] by (simp add: st_def nav_ok_def)
qed

subsection \<open>The page after switching\<close>

text \<open>
  Answers that a server gives to a signed-in user with workspaces, when it lists the files that are asked for. Between
  the loading of the page and these answers the user does nothing.
\<close>

definition lists_workspaces :: "http_reply \<Rightarrow> bool" where
  "lists_workspaces res \<longleftrightarrow>
     al_supported (fetched_list res) \<and> al_authenticated (fetched_list res) \<and> al_workspaces (fetched_list res) \<noteq> []"

definition accepted :: "http_reply \<Rightarrow> bool" where
  "accepted res \<longleftrightarrow> (case res of HttpOk (Inr _) \<Rightarrow> True | _ \<Rightarrow> False)"

fun good_event :: "list_event \<Rightarrow> list_state \<Rightarrow> bool" where
  "good_event (Mounted q) st \<longleftrightarrow> True"
| "good_event (Session_changed q) st \<longleftrightarrow> True"
| "good_event (List_answer i res now) st \<longleftrightarrow>
     i < length (wk_tasks st) \<and>
     (case snd (wk_tasks st ! i) of Init_list q \<Rightarrow> lists_workspaces res | Select_files j k \<Rightarrow> accepted res | _ \<Rightarrow> True)"
| "good_event e st \<longleftrightarrow> False"

fun good_run :: "list_event list \<Rightarrow> list_state \<Rightarrow> bool" where
  "good_run [] st \<longleftrightarrow> True"
| "good_run (e # es) st \<longleftrightarrow> good_event e st \<and> good_run es (list_step e st)"

definition at_address :: "string \<Rightarrow> list_state \<Rightarrow> bool" where
  "at_address a st \<longleftrightarrow>
     wk_url st = Some a \<and> (wk_id st = None \<or> wk_id st = Some a)
     \<and> (\<forall>p \<in> set (wk_tasks st). snd p = Init_list (Some a) \<or> (\<exists>k. snd p = Select_files a k \<and> k \<noteq> After_deletion))"

definition heads_for :: "string \<Rightarrow> list_state \<Rightarrow> bool" where
  "heads_for a st \<longleftrightarrow> at_address a st \<and> (wk_tasks st \<noteq> [] \<or> wk_id st = Some a)"

lemma address_init:
  assumes "at_address a st" "a \<noteq> []" "trim a = a"
  shows "heads_for a (initWorkspace_begin c st)"
  using assms by (auto simp: heads_for_def at_address_def initWorkspace_begin_def readQueryParam_def no_id_def)

lemma address_sync: "at_address a (session_sync q st) \<longleftrightarrow> at_address a st" "heads_for a (session_sync q st) \<longleftrightarrow> heads_for a st"
  by (simp_all add: heads_for_def at_address_def session_sync_def Let_def)

lemma address_listed:
  assumes "at_address a st" "a \<noteq> []" "lists_workspaces res"
  shows "heads_for a (initWorkspace_listed c (Some a) res st)"
proof -
  have cands: "\<exists>xs. candidates (Some a) s ws = a # xs" for s ws
    using assms(2) by (simp add: candidates_def nonempties_def opt_else_def)
  define st1 where "st1 = snd (fetchWorkspaceListFromApi res st)"
  define u where "u = (if al_userId (fetched_list res) \<noteq> None then al_userId (fetched_list res) else if no_id (cl_user c) then None else cl_user c)"
  define st2 where "st2 = save_list u (al_workspaces (fetched_list res)) (st1\<lparr>wk_list := al_workspaces (fetched_list res)\<rparr>)"
  have "initWorkspace_listed c (Some a) res st =
      try_candidates c (Some a) (candidates (Some a) (stored_current u st2) (al_workspaces (fetched_list res))) st2"
    using assms(3)
    by (simp add: initWorkspace_listed_def case_prod_beta lists_workspaces_def st1_def st2_def u_def Let_def)
  moreover have "at_address a st2"
    using assms(1) by (simp add: st2_def st1_def at_address_def)
  ultimately show ?thesis
    using cands [of "stored_current u st2" "al_workspaces (fetched_list res)"] assms(2)
    by (auto simp: heads_for_def at_address_def selectWorkspace_begin_def)
qed

lemma address_selected:
  assumes "at_address a st" "accepted res" "k \<noteq> After_deletion" "a \<noteq> []"
  shows "heads_for a (list_answered c (Select_files a k) res now st)"
proof -
  obtain data where res: "res = HttpOk (Inr data)"
    using assms(2) by (cases res) (auto simp: accepted_def split: sum.splits)
  obtain st1 where f: "filled c res st = Inr st1"
    using filled_accepted res by blast
  then have "list_answered c (Select_files a k) res now st = (updateWorkspaceUrl (Some a) (set_current (cl_user c) a
      (set_item WORKSPACE_STORAGE_KEY a (setWorkspaceId (Some a) st1))))\<lparr>wk_loading := False\<rparr>"
    using assms(3) by (cases k) (simp_all add: selectWorkspace_end_def)
  then show ?thesis
    using assms(1,4) filled_frame [OF f]
    by (simp add: heads_for_def at_address_def setWorkspaceId_def updateWorkspaceUrl_def no_id_def)
qed

lemma address_step:
  assumes "heads_for a st \<or> (at_address a st \<and> (\<exists>q. e = Mounted q))" "good_event e st" "a \<noteq> []" "trim a = a"
  shows "heads_for a (list_step e st)"
proof -
  have h: "heads_for a (list_handle e st)"
  proof (cases "(e, st)" rule: list_handle.cases)
    case (1 q st')
    then have "at_address a (st\<lparr>wk_list := []\<rparr>)"
      using assms(1) by (auto simp: heads_for_def at_address_def)
    with 1 show ?thesis
      using address_init [OF _ assms(3,4)] by (simp add: address_sync)
  next
    case (2 q st')
    then show ?thesis
      using assms(1) by (simp add: address_sync)
  next
    case (8 i res now st')
    define st1 where "st1 = st\<lparr>wk_tasks := drop_nth i (wk_tasks st)\<rparr>"
    have i: "i < length (wk_tasks st)"
      using 8 assms(2) by simp
    then have mem: "wk_tasks st ! i \<in> set (wk_tasks st)" and sub: "set (drop_nth i (wk_tasks st)) \<subseteq> set (wk_tasks st)"
      by (auto simp: set_drop_nth dest: in_set_takeD in_set_dropD simp: drop_nth_def)
    have st1: "at_address a st1"
      using assms(1) sub 8 by (auto simp: heads_for_def at_address_def st1_def)
    have "snd (wk_tasks st ! i) = Init_list (Some a) \<or> (\<exists>k. snd (wk_tasks st ! i) = Select_files a k \<and> k \<noteq> After_deletion)"
      using assms(1) mem 8 by (auto simp: heads_for_def at_address_def)
    then show ?thesis
      using address_listed [OF st1 assms(3)] address_selected [OF st1 _ _ assms(3)] assms(2) 8 i
      by (auto simp: st1_def)
  qed (use assms(2) in auto)
  then have "at_address a (list_handle e st)" "at_address a ((list_handle e st)\<lparr>wk_list := []\<rparr>)"
    by (auto simp: heads_for_def at_address_def)
  then show ?thesis
    using h address_init [OF _ assms(3,4)] unfolding list_step_def user_effects_def Let_def by auto
qed

lemma address_run:
  assumes "at_address a st" "good_run (Mounted q # es) st" "a \<noteq> []" "trim a = a"
  shows "heads_for a (fold list_step (Mounted q # es) st)"
proof -
  have "heads_for a st \<Longrightarrow> good_run es st \<Longrightarrow> heads_for a (fold list_step es st)" for es st
    by (induction es arbitrary: st) (use assms(3,4) address_step in auto)
  then show ?thesis
    using address_step [of a st "Mounted q"] assms by simp
qed

lemma nav_item_switched:
  assumes "nv_window st \<noteq> None"
  shows "readCurrentId (switchTo w st) = (if trim (ne_id w) = [] then None else Some (trim (ne_id w)))"
    "key \<noteq> WORKSPACE_STORAGE_KEY \<Longrightarrow> key \<noteq> CURRENT_NAME_KEY \<Longrightarrow> nav_item key (switchTo w st) = nav_item key st"
proof -
  have "CURRENT_NAME_KEY \<noteq> WORKSPACE_STORAGE_KEY"
    by (simp add: CURRENT_NAME_KEY_def)
  then show "readCurrentId (switchTo w st) = (if trim (ne_id w) = [] then None else Some (trim (ne_id w)))"
    using assms
    by (auto simp: readCurrentId_def trimmed_item_def nav_item_def switchTo_def persistCurrent_def nav_set_def nav_remove_def
        opt_else_def update_conv' delete_conv' Let_def)
  show "key \<noteq> WORKSPACE_STORAGE_KEY \<Longrightarrow> key \<noteq> CURRENT_NAME_KEY \<Longrightarrow> nav_item key (switchTo w st) = nav_item key st"
    using assms
    by (auto simp: nav_item_def switchTo_def persistCurrent_def nav_set_def nav_remove_def update_conv' delete_conv' Let_def)
qed

text \<open>
  Switching to another workspace in the navigation bar stores it as the current one and loads the page again, at the
  same address. The address still names the workspace that was open, and a page that is answered opens that one: in
  whatever order the answers come, no other workspace is ever opened.
\<close>

theorem switch_is_undone:
  fixes nav a b q es
  assumes "nv_window nav \<noteq> None" "a \<noteq> []" "trim a = a" "trim (ne_id b) = ne_id b" "ne_id b \<noteq> []"
  defines "switched \<equiv> nav_step (Choose_entry b) nav"
  defines "page \<equiv> opened_page (nv_window switched) (Some a) (nv_cookie nav)"
  assumes "good_run (Mounted q # es) page"
  defines "st' \<equiv> fold list_step (Mounted q # es) page"
  shows "nv_reload switched \<and> readCurrentId switched = Some (ne_id b)
    \<and> (wk_id st' = Some a \<or> wk_id st' = None \<and> wk_tasks st' \<noteq> [])"
proof -
  have "at_address a page"
    by (simp add: page_def at_address_def opened_page_def initial_editor_def)
  from address_run [OF this assms(8,2,3)] have "wk_id st' = Some a \<or> wk_id st' = None \<and> wk_tasks st' \<noteq> []"
    by (auto simp: st'_def heads_for_def at_address_def)
  moreover have "nv_reload switched"
    by (simp add: switched_def switchTo_def)
  ultimately show ?thesis
    using nav_item_switched(1) [OF assms(1), of b] assms(4,5) by (simp add: switched_def)
qed

text \<open>
  An action asked for on another workspace is kept over the same reload. The new page dispatches it, and the panel
  carries it out on the workspace of the address: the archive is imported into, or the files are cleaned up in, the
  workspace that was open before.
\<close>

theorem kept_action_reaches_other:
  fixes nav a b q es action ab
  assumes "nv_window nav \<noteq> None" "a \<noteq> []" "trim a = a" "nv_current nav \<noteq> Some (ne_id b)" "action = Import_archive \<or> action = Clean_up"
  defines "switched \<equiv> nav_step (Act_on b action ab) nav"
  defines "page \<equiv> opened_page (nv_window switched) (Some a) (nv_cookie nav)"
  assumes "good_run (Mounted q # es) page" "wk_tasks (fold list_step (Mounted q # es) page) = []"
  shows "nv_reload switched
    \<and> nv_dispatched (fold nav_step [Nav_appears, Pause_over] (new_nav (nv_window switched) (nv_cookie nav))) = [action]
    \<and> bridged_action (wk_id (fold list_step (Mounted q # es) page)) False False False False action = Some (action, Some a)"
proof -
  have keys: "PENDING_ACTION_KEY \<noteq> WORKSPACE_STORAGE_KEY" "PENDING_ACTION_KEY \<noteq> CURRENT_NAME_KEY"
    by (simp_all add: PENDING_ACTION_KEY_def WORKSPACE_STORAGE_KEY_def CURRENT_NAME_KEY_def)
  define kept where "kept = nav_set PENDING_ACTION_KEY (action_name action) (nav\<lparr>nv_open := False\<rparr>)"
  have sw: "switched = switchTo b kept"
    using assms(4,5) by (auto simp: switched_def kept_def handleAction_begin_def)
  have "nv_window kept \<noteq> None" "nav_item PENDING_ACTION_KEY kept = Some (action_name action)"
    using assms(1) by (auto simp: kept_def nav_item_def nav_set_def update_conv')
  then have item: "nav_item PENDING_ACTION_KEY switched = Some (action_name action)"
    using nav_item_switched(2) keys by (simp add: sw)
  have "kept_action (new_nav (nv_window switched) (nv_cookie nav)) = Some action"
    using item assms(5) by (auto simp: kept_action_def nav_item_def new_nav_def)
  then have "nv_dispatched (fold nav_step [Nav_appears, Pause_over] (new_nav (nv_window switched) (nv_cookie nav))) = [action]"
    by (simp add: nav_mounted_def reloadList_begin_def nav_send_def nav_remove_def Let_def) (simp add: new_nav_def)
  moreover have "at_address a page"
    by (simp add: page_def at_address_def opened_page_def initial_editor_def)
  from address_run [OF this assms(8,2,3)] have "wk_id (fold list_step (Mounted q # es) page) = Some a"
    using assms(9) by (auto simp: heads_for_def)
  moreover have "nv_reload switched"
    by (simp add: sw switchTo_def)
  ultimately show ?thesis
    using assms(2,5) by (auto simp: bridged_action_def no_id_def Let_def)
qed

subsection \<open>What the menu shows\<close>

text \<open>The workspace that is current is always shown, once when the answer names it once, and the others as they were listed.\<close>

theorem current_is_shown:
  assumes "distinct (map ne_id (nv_entries st))"
  shows "distinct (map ne_id (renderedWorkspaces st)) \<and> (\<forall>w \<in> set (nv_entries st). w \<in> set (renderedWorkspaces st))
    \<and> (no_id (nv_current st) \<or> (\<exists>w. w \<in> set (renderedWorkspaces st) \<and> Some (ne_id w) = nv_current st))"
  using assms by (force simp: renderedWorkspaces_def no_id_def list_ex_iff)

subsection \<open>Concrete runs\<close>

definition both_workspaces :: http_reply where
  "both_workspaces = HttpOk (Inr (JObj [(''authenticated'', JBool True),
     (''workspaces'', JArr [JObj [(''workspace_id'', JStr ''w2'')]])]))"

definition nav_in_w1 :: nav_state where
  "nav_in_w1 = (new_nav (Some [(WORKSPACE_STORAGE_KEY, ''w1'')]) ''t'')\<lparr>nv_current := Some ''w1''\<rparr>"

definition row_w2 :: nav_entry where
  "row_w2 = \<lparr>ne_id = ''w2'', ne_name = ''Shop''\<rparr>"


definition page_answers :: "list_event list" where
  "page_answers = [List_answer 0 both_workspaces [], List_answer 0 (HttpOk (Inr JNull)) []]"

lemma page_answered:
  assumes "map_of items USER_STORAGE_KEY = None"
  defines "page \<equiv> opened_page (Some items) (Some ''w1'') ''t''"
  shows "good_run (Mounted None # page_answers) page" "wk_tasks (fold list_step (Mounted None # page_answers) page) = []"
proof -
  define c where "c = closure_of page"
  define st1 where "st1 = list_step (Mounted None) page"
  have trim: "trim ''w1'' = ''w1''"
    by code_simp
  have st1: "wk_tasks st1 = [(c, Init_list (Some ''w1''))]" "wk_user st1 = None"
    using assms(1)
    by (simp_all add: st1_def c_def page_def opened_page_def list_step_def user_effects_def session_sync_def storage_item_def
        initWorkspace_begin_def readQueryParam_def no_id_def closure_of_def send_list_def trim Let_def)
  have c: "cl_user c = None"
    by (simp add: c_def page_def opened_page_def closure_of_def)
  have api: "al_supported (fetched_list both_workspaces)" "al_authenticated (fetched_list both_workspaces)"
    "al_userId (fetched_list both_workspaces) = None" "al_workspaces (fetched_list both_workspaces) \<noteq> []"
    by code_simp+
  define st2 where "st2 = list_step (List_answer 0 both_workspaces []) st1"
  obtain x xs where x: "initWorkspace_listed c (Some ''w1'') both_workspaces (st1\<lparr>wk_tasks := []\<rparr>) =
      selectWorkspace_begin c ''w1'' (Next_candidate (Some ''w1'') ''w1'' xs) x" "wk_tasks x = []" "wk_user x = None"
    using api c st1(2)
    by (simp add: initWorkspace_listed_def fetchWorkspaceListFromApi_def save_list_def stored_current_def candidates_def nonempties_def
        opt_else_def no_id_def Let_def)
  then have "st2 = selectWorkspace_begin c ''w1'' (Next_candidate (Some ''w1'') ''w1'' xs) x"
    unfolding st2_def using list_step_answer [OF st1(1)] st1(2) by (simp add: selectWorkspace_begin_def)
  with x have st2: "wk_tasks st2 = [(c, Select_files ''w1'' (Next_candidate (Some ''w1'') ''w1'' xs))]"
    by (simp add: selectWorkspace_begin_def)
  show "good_run (Mounted None # page_answers) page"
    using st1 st2 api by (simp add: page_answers_def st1_def [symmetric] st2_def [symmetric] lists_workspaces_def accepted_def)
  show "wk_tasks (fold list_step (Mounted None # page_answers) page) = []"
    using selection_accepted(6) [OF st2] by (simp add: page_answers_def st1_def [symmetric] st2_def [symmetric])
qed

theorem switch_is_undone_witness:
  "wk_id (fold list_step (Mounted None # page_answers)
      (opened_page (nv_window (nav_step (Choose_entry row_w2) nav_in_w1)) (Some ''w1'') (nv_cookie nav_in_w1))) = Some ''w1''"
proof -
  have facts: "nv_window nav_in_w1 \<noteq> None" "''w1'' \<noteq> []" "trim ''w1'' = ''w1''" "trim (ne_id row_w2) = ne_id row_w2" "ne_id row_w2 \<noteq> []"
    by code_simp+
  have page: "nv_cookie nav_in_w1 = ''t''"
    "nv_window (nav_step (Choose_entry row_w2) nav_in_w1) = Some (the (nv_window (nav_step (Choose_entry row_w2) nav_in_w1)))"
    "map_of (the (nv_window (nav_step (Choose_entry row_w2) nav_in_w1))) USER_STORAGE_KEY = None"
    by code_simp+
  note run = page_answered [OF page(3), folded page(2) page(1)]
  show ?thesis
    using switch_is_undone [OF facts run(1)] run(2) by blast
qed

theorem kept_action_reaches_other_witness:
  "nv_dispatched (fold nav_step [Nav_appears, Pause_over]
      (new_nav (nv_window (nav_step (Act_on row_w2 Clean_up False) nav_in_w1)) (nv_cookie nav_in_w1))) = [Clean_up]"
proof -
  have facts: "nv_window nav_in_w1 \<noteq> None" "''w1'' \<noteq> []" "trim ''w1'' = ''w1''" "nv_current nav_in_w1 \<noteq> Some (ne_id row_w2)"
    by code_simp+
  have page: "nv_cookie nav_in_w1 = ''t''"
    "nv_window (nav_step (Act_on row_w2 Clean_up False) nav_in_w1) = Some (the (nv_window (nav_step (Act_on row_w2 Clean_up False) nav_in_w1)))"
    "map_of (the (nv_window (nav_step (Act_on row_w2 Clean_up False) nav_in_w1))) USER_STORAGE_KEY = None"
    by code_simp+
  note run = page_answered [OF page(3), folded page(2) page(1)]
  show ?thesis
    using kept_action_reaches_other [OF facts disjI2 [OF refl] run] by blast
qed

theorem current_is_shown_witness:
  "map ne_id (renderedWorkspaces (nav_in_w1\<lparr>nv_entries := [row_w2]\<rparr>)) = [''w1'', ''w2'']
   \<and> distinct (map ne_id (renderedWorkspaces (nav_in_w1\<lparr>nv_entries := [row_w2]\<rparr>)))"
proof -
  have facts: "distinct (map ne_id (nv_entries (nav_in_w1\<lparr>nv_entries := [row_w2]\<rparr>)))"
    by simp
  have "map ne_id (renderedWorkspaces (nav_in_w1\<lparr>nv_entries := [row_w2]\<rparr>)) = [''w1'', ''w2'']"
    by code_simp
  with current_is_shown [OF facts] show ?thesis
    by blast
qed

end
