(* ===== verification/WorkspaceHistory.thy ===== *)
theory WorkspaceHistory
  imports WorkspaceEditor
begin

text \<open>
  The history of a workspace (\<open>workspace-panel/useWorkspaceHistory.ts\<close>, the buttons of \<open>HistoryModal.tsx\<close>): the commits
  of the workspace or of one path, the difference of the selected one, and restoring. A callback is cut at its
  \<open>await\<close>s, a request under way is an element of \<open>hi_tasks\<close> with what its closure captured; \<open>hi_sent\<close> logs the
  requests. The editor beside it is the state of \<open>WorkspaceEditor\<close>.
\<close>

subsection \<open>State\<close>

record history_file =
  hf_status :: string
  hf_path :: string
  hf_old :: "string option"

record history_commit =
  hc_sha :: string
  hc_created :: "string option"
  hc_summary :: string
  hc_files :: "history_file list"

datatype open_intent = Intent_history | Intent_diff_current | Intent_restore

datatype history_request =
  Get_commits "string option"
| Get_diff string bool "string option"
| Post_restore string
| Post_restore_path string string
| List_restored
| Get_restored string

text \<open>A restoration: the path it is for (none for the whole workspace), whether that is a directory, the scope and the open file.\<close>

record restoration =
  re_path :: "string option"
  re_isDir :: bool
  re_scope :: "string option"
  re_active :: "string option"

datatype history_task =
  Reading_commits bool bool
| Reading_diff
| Posting restoration
| Listing_restored restoration
| Loading_restored restoration editor_job

record history_state =
  hi_ed :: editor_state
  hi_open :: bool
  hi_loading :: bool
  hi_diffLoading :: bool
  hi_busy :: bool
  hi_error :: "string option"
  hi_status :: "string option"
  hi_scope :: "string option"
  hi_isDir :: bool
  hi_intent :: open_intent
  hi_against :: bool
  hi_commits :: "history_commit list"
  hi_sha :: "string option"
  hi_diff :: string
  hi_diffFiles :: "history_file list"
  hi_tasks :: "history_task list"
  hi_sent :: "history_request list"

abbreviation hi_workspace :: "history_state \<Rightarrow> string option" where
  "hi_workspace st \<equiv> ed_workspace (hi_ed st)"

definition send_history :: "history_request \<Rightarrow> history_task \<Rightarrow> history_state \<Rightarrow> history_state" where
  "send_history r t st = st\<lparr>hi_sent := hi_sent st @ [r], hi_tasks := hi_tasks st @ [t]\<rparr>"

definition historySelectedCommit :: "history_state \<Rightarrow> history_commit option" where
  "historySelectedCommit st = List.find (\<lambda>entry. Some (hc_sha entry) = hi_sha st) (hi_commits st)"

definition historyDisplayedFiles :: "history_state \<Rightarrow> history_file list" where
  "historyDisplayedFiles st =
     (if hi_diffFiles st \<noteq> [] then hi_diffFiles st
      else case historySelectedCommit st of None \<Rightarrow> [] | Some entry \<Rightarrow> hc_files entry)"

subsection \<open>Reading commits and differences\<close>

definition str_opt_or :: "jsval \<Rightarrow> string option" where
  "str_opt_or v = (if truthy v then Some (js_str v) else None)"

definition read_file_change :: "jsval \<Rightarrow> history_file" where
  "read_file_change file =
     \<lparr>hf_status = js_str (js_or (jget file ''status'') (JStr ''M'')), hf_path = str_or (jget file ''path''),
      hf_old = str_opt_or (jget file ''old_path'')\<rparr>"

definition read_commit :: "jsval \<Rightarrow> history_commit" where
  "read_commit item =
     \<lparr>hc_sha = str_or (jget item ''sha''), hc_created = str_opt_or (jget item ''created_at''),
      hc_summary = str_or (jget item ''summary''), hc_files = map read_file_change (arr_items (jget item ''files''))\<rparr>"

text \<open>\<open>readApiDetail\<close> and \<open>res.json\<close>: the body of an accepted answer, or the message that is shown.\<close>

definition detail_answer :: "http_reply \<Rightarrow> string + jsval" where
  "detail_answer res = (case detail_error res of Some m \<Rightarrow> Inl m | None \<Rightarrow> json_answer res)"

definition read_commits :: "string option \<Rightarrow> bool \<Rightarrow> bool \<Rightarrow> history_state \<Rightarrow> history_state" where
  "read_commits scopePath preserve restoring st =
     send_history (Get_commits (if no_id scopePath then None else scopePath)) (Reading_commits preserve restoring)
       (st\<lparr>hi_loading := True, hi_error := None\<rparr>)"

definition fetchHistoryCommits_begin :: "string option \<Rightarrow> bool \<Rightarrow> history_state \<Rightarrow> history_state" where
  "fetchHistoryCommits_begin scopePath preserve st =
     (if no_id (hi_workspace st) then st else read_commits scopePath preserve False st)"

definition next_sha :: "bool \<Rightarrow> history_commit list \<Rightarrow> string option \<Rightarrow> string option" where
  "next_sha preserve commits prev =
     (if preserve \<and> \<not> no_id prev \<and> list_ex (\<lambda>entry. Some (hc_sha entry) = prev) commits then prev
      else case commits of [] \<Rightarrow> None | entry # _ \<Rightarrow> Some (hc_sha entry))"

definition fetchHistoryCommits_end :: "bool \<Rightarrow> bool \<Rightarrow> http_reply \<Rightarrow> history_state \<Rightarrow> history_state" where
  "fetchHistoryCommits_end preserve restoring res st =
     (let st1 = (case detail_answer res of
          Inl m \<Rightarrow> st\<lparr>hi_commits := [], hi_sha := None, hi_diff := [], hi_diffFiles := [], hi_error := Some m\<rparr>
        | Inr data \<Rightarrow>
            (let commits = map read_commit (arr_items (jget data ''commits''));
                 st2 = st\<lparr>hi_commits := filter (\<lambda>entry. hc_sha entry \<noteq> []) commits,
                          hi_sha := next_sha preserve commits (hi_sha st)\<rparr>
             in if commits = [] then st2\<lparr>hi_diff := [], hi_diffFiles := []\<rparr> else st2));
          st3 = st1\<lparr>hi_loading := False\<rparr>
      in if restoring then st3\<lparr>hi_busy := False\<rparr> else st3)"

definition loadHistoryDiff_begin :: "string \<Rightarrow> bool \<Rightarrow> string option \<Rightarrow> history_state \<Rightarrow> history_state" where
  "loadHistoryDiff_begin sha againstCurrent scopePath st =
     (if no_id (hi_workspace st) \<or> sha = [] then st
      else send_history (Get_diff sha againstCurrent (if no_id scopePath then None else scopePath)) Reading_diff
             (st\<lparr>hi_diffLoading := True, hi_error := None\<rparr>))"

definition loadHistoryDiff_end :: "http_reply \<Rightarrow> history_state \<Rightarrow> history_state" where
  "loadHistoryDiff_end res st =
     (case detail_answer res of
        Inl m \<Rightarrow> st\<lparr>hi_diff := [], hi_diffFiles := [], hi_error := Some m, hi_diffLoading := False\<rparr>
      | Inr data \<Rightarrow>
          st\<lparr>hi_diff := str_nn (jget data ''diff''), hi_diffFiles := map read_file_change (arr_items (jget data ''files'')),
             hi_diffLoading := False\<rparr>)"

definition openHistory :: "string \<Rightarrow> bool \<Rightarrow> open_intent \<Rightarrow> history_state \<Rightarrow> history_state" where
  "openHistory path isDir intent st =
     (let normalizedPath = strip_slashes (trim path);
          nextPath = (if normalizedPath = [] then None else Some normalizedPath)
      in fetchHistoryCommits_begin nextPath False
           (st\<lparr>hi_scope := nextPath, hi_isDir := (nextPath \<noteq> None \<and> isDir), hi_intent := intent,
               hi_against := (intent = Intent_diff_current), hi_error := None, hi_status := None, hi_open := True\<rparr>))"

subsection \<open>Restoring\<close>

definition restore_failed :: "string \<Rightarrow> history_state \<Rightarrow> history_state" where
  "restore_failed m st = st\<lparr>hi_error := Some m, hi_busy := False\<rparr>"

definition restore_begin :: "history_request \<Rightarrow> restoration \<Rightarrow> history_state \<Rightarrow> history_state" where
  "restore_begin r re st = send_history r (Posting re) (st\<lparr>hi_busy := True, hi_error := None, hi_status := None\<rparr>)"

definition restoreHistoryWorkspace_begin :: "bool \<Rightarrow> history_state \<Rightarrow> history_state" where
  "restoreHistoryWorkspace_begin confirmed st =
     (if no_id (hi_workspace st) \<or> no_id (hi_sha st) \<or> hi_busy st \<or> \<not> confirmed then st
      else restore_begin (Post_restore (the (hi_sha st)))
             \<lparr>re_path = None, re_isDir = False, re_scope = hi_scope st, re_active = ed_path (hi_ed st)\<rparr> st)"

definition restoreHistoryPath_begin :: "bool \<Rightarrow> history_state \<Rightarrow> history_state" where
  "restoreHistoryPath_begin confirmed st =
     (if no_id (hi_workspace st) \<or> no_id (hi_sha st) \<or> no_id (hi_scope st) \<or> hi_busy st \<or> \<not> confirmed then st
      else restore_begin (Post_restore_path (the (hi_sha st)) (the (hi_scope st)))
             \<lparr>re_path = hi_scope st, re_isDir = hi_isDir st, re_scope = hi_scope st, re_active = ed_path (hi_ed st)\<rparr> st)"

text \<open>Whether the open file has to be loaded again.\<close>

definition restored_active :: "restoration \<Rightarrow> bool" where
  "restored_active re =
     (case re_active re of
        None \<Rightarrow> False
      | Some active \<Rightarrow>
          active \<noteq> [] \<and>
          (case re_path re of
             None \<Rightarrow> True
           | Some scope \<Rightarrow> active = scope \<or> (re_isDir re \<and> starts_with active (scope @ ''/''))))"

definition restored_status :: "restoration \<Rightarrow> string" where
  "restored_status re =
     (if re_path re = None then ''Workspace restored.'' else if re_isDir re then ''Folder restored.'' else ''File restored.'')"

definition restore_done :: "restoration \<Rightarrow> history_state \<Rightarrow> history_state" where
  "restore_done re st =
     read_commits (re_scope re) True True
       (st\<lparr>hi_ed := (hi_ed st)\<lparr>ed_dirty := False\<rparr>, hi_status := Some (restored_status re)\<rparr>)"

text \<open>\<open>loadFile\<close> of the open file: the job it leaves is waited for here, and a database without a password leaves none.\<close>

definition load_restored :: "restoration \<Rightarrow> history_state \<Rightarrow> history_state" where
  "load_restored re st =
     (let path = the (re_active re); jobs = ed_jobs (hi_ed st); ed = loadFile_begin path (hi_ed st)
      in if length (ed_jobs ed) = length jobs then restore_done re (st\<lparr>hi_ed := ed\<rparr>)
         else send_history (Get_restored path) (Loading_restored re (last (ed_jobs ed))) (st\<lparr>hi_ed := ed\<lparr>ed_jobs := jobs\<rparr>\<rparr>))"

definition restore_listed :: "restoration \<Rightarrow> http_reply \<Rightarrow> history_state \<Rightarrow> history_state" where
  "restore_listed re res st =
     (case refreshFiles res (hi_ed st) of
        (Some m, ed) \<Rightarrow> restore_failed m (st\<lparr>hi_ed := ed\<rparr>)
      | (None, ed) \<Rightarrow>
          (let st1 = st\<lparr>hi_ed := ed\<rparr> in if restored_active re then load_restored re st1 else restore_done re st1))"

definition restore_loaded ::
  "restoration \<Rightarrow> editor_job \<Rightarrow> http_reply \<Rightarrow> string + KdbxEntryView list \<Rightarrow> history_state \<Rightarrow> history_state" where
  "restore_loaded re job res outcome st =
     restore_done re (st\<lparr>hi_ed := (case job of
        Load_job path \<Rightarrow> loadFile_end path res (hi_ed st)
      | Kdbx_job path \<Rightarrow> loadKdbx_end outcome (hi_ed st)
      | _ \<Rightarrow> hi_ed st)\<rparr>)"

subsection \<open>Events\<close>

fun history_answered :: "history_task \<Rightarrow> http_reply \<Rightarrow> string + KdbxEntryView list \<Rightarrow> history_state \<Rightarrow> history_state" where
  "history_answered (Reading_commits preserve restoring) res outcome st = fetchHistoryCommits_end preserve restoring res st"
| "history_answered Reading_diff res outcome st = loadHistoryDiff_end res st"
| "history_answered (Posting re) res outcome st =
     (case detail_error res of
        Some m \<Rightarrow> restore_failed m st
      | None \<Rightarrow> send_history List_restored (Listing_restored re) st)"
| "history_answered (Listing_restored re) res outcome st = restore_listed re res st"
| "history_answered (Loading_restored re job) res outcome st = restore_loaded re job res outcome st"

text \<open>The difference is read when what it depends on has changed, the dialog is open and a commit is selected.\<close>

definition diff_of :: "history_state \<Rightarrow> bool \<times> bool \<times> string option \<times> string option \<times> string option" where
  "diff_of st = (hi_against st, hi_open st, hi_scope st, hi_sha st, hi_workspace st)"

definition diff_effect :: "history_state \<Rightarrow> history_state \<Rightarrow> history_state" where
  "diff_effect before st =
     (if diff_of st = diff_of before \<or> \<not> hi_open st \<or> no_id (hi_sha st) then st
      else loadHistoryDiff_begin (the (hi_sha st)) (hi_against st) (hi_scope st) st)"

datatype history_event =
  Open_history string bool open_intent
| Close_history
| Set_against bool
| Refresh_history
| Select_commit string
| Restore_workspace bool
| Restore_scope bool
| Type_text string
| Go_to "string option"
| History_answer nat http_reply "string + KdbxEntryView list"

fun history_handle :: "history_event \<Rightarrow> history_state \<Rightarrow> history_state" where
  "history_handle (Open_history path isDir intent) st = openHistory path isDir intent st"
| "history_handle Close_history st = (if hi_busy st then st else st\<lparr>hi_open := False\<rparr>)"
| "history_handle (Set_against b) st = st\<lparr>hi_against := b\<rparr>"
| "history_handle Refresh_history st = (if hi_loading st then st else fetchHistoryCommits_begin (hi_scope st) True st)"
| "history_handle (Select_commit sha) st = st\<lparr>hi_sha := Some sha\<rparr>"
| "history_handle (Restore_workspace confirmed) st = restoreHistoryWorkspace_begin confirmed st"
| "history_handle (Restore_scope confirmed) st = restoreHistoryPath_begin confirmed st"
| "history_handle (Type_text s) st = st\<lparr>hi_ed := typed s (hi_ed st)\<rparr>"
| "history_handle (Go_to ws) st = st\<lparr>hi_ed := (hi_ed st)\<lparr>ed_workspace := ws\<rparr>\<rparr>"
| "history_handle (History_answer i res outcome) st =
     (if i < length (hi_tasks st)
      then history_answered (hi_tasks st ! i) res outcome (st\<lparr>hi_tasks := drop_nth i (hi_tasks st)\<rparr>) else st)"

definition history_step :: "history_event \<Rightarrow> history_state \<Rightarrow> history_state" where
  "history_step e st = diff_effect st (history_handle e st)"

definition initial_history :: "editor_state \<Rightarrow> history_state" where
  "initial_history ed =
     \<lparr>hi_ed = ed, hi_open = False, hi_loading = False, hi_diffLoading = False, hi_busy = False, hi_error = None,
      hi_status = None, hi_scope = None, hi_isDir = False, hi_intent = Intent_history, hi_against = False,
      hi_commits = [], hi_sha = None, hi_diff = [], hi_diffFiles = [], hi_tasks = [], hi_sent = []\<rparr>"

subsection \<open>One restoration at a time\<close>

fun restores :: "history_task \<Rightarrow> bool" where
  "restores (Reading_commits preserve restoring) \<longleftrightarrow> restoring"
| "restores Reading_diff \<longleftrightarrow> False"
| "restores t \<longleftrightarrow> True"

definition restorations :: "history_state \<Rightarrow> nat" where
  "restorations st = length (filter restores (hi_tasks st))"

definition history_ok :: "history_state \<Rightarrow> bool" where
  "history_ok st \<longleftrightarrow> restorations st = (if hi_busy st then 1 else 0)"

text \<open>What the end of a restoration finds: its task is taken out, the mark is still set.\<close>

definition ending :: "history_state \<Rightarrow> bool" where
  "ending st \<longleftrightarrow> restorations st = 0 \<and> hi_busy st"

lemma history_ok_frame [simp]:
  "history_ok (hi_ed_update fed st) \<longleftrightarrow> history_ok st" "history_ok (hi_open_update fopen st) \<longleftrightarrow> history_ok st" "history_ok (hi_loading_update floading st) \<longleftrightarrow> history_ok st"
  "history_ok (hi_diffLoading_update fdiffLoading st) \<longleftrightarrow> history_ok st" "history_ok (hi_error_update ferror st) \<longleftrightarrow> history_ok st" "history_ok (hi_status_update fstatus st) \<longleftrightarrow> history_ok st"
  "history_ok (hi_scope_update fscope st) \<longleftrightarrow> history_ok st" "history_ok (hi_isDir_update fisDir st) \<longleftrightarrow> history_ok st" "history_ok (hi_intent_update fintent st) \<longleftrightarrow> history_ok st"
  "history_ok (hi_against_update fagainst st) \<longleftrightarrow> history_ok st" "history_ok (hi_commits_update fcommits st) \<longleftrightarrow> history_ok st" "history_ok (hi_sha_update fsha st) \<longleftrightarrow> history_ok st"
  "history_ok (hi_diff_update fdiff st) \<longleftrightarrow> history_ok st" "history_ok (hi_diffFiles_update fdiffFiles st) \<longleftrightarrow> history_ok st" "history_ok (hi_sent_update fsent st) \<longleftrightarrow> history_ok st"
  by (simp_all add: history_ok_def restorations_def)

lemma ending_frame [simp]:
  "ending (hi_ed_update fed st) \<longleftrightarrow> ending st" "ending (hi_open_update fopen st) \<longleftrightarrow> ending st" "ending (hi_loading_update floading st) \<longleftrightarrow> ending st"
  "ending (hi_diffLoading_update fdiffLoading st) \<longleftrightarrow> ending st" "ending (hi_error_update ferror st) \<longleftrightarrow> ending st" "ending (hi_status_update fstatus st) \<longleftrightarrow> ending st"
  "ending (hi_scope_update fscope st) \<longleftrightarrow> ending st" "ending (hi_isDir_update fisDir st) \<longleftrightarrow> ending st" "ending (hi_intent_update fintent st) \<longleftrightarrow> ending st"
  "ending (hi_against_update fagainst st) \<longleftrightarrow> ending st" "ending (hi_commits_update fcommits st) \<longleftrightarrow> ending st" "ending (hi_sha_update fsha st) \<longleftrightarrow> ending st"
  "ending (hi_diff_update fdiff st) \<longleftrightarrow> ending st" "ending (hi_diffFiles_update fdiffFiles st) \<longleftrightarrow> ending st" "ending (hi_sent_update fsent st) \<longleftrightarrow> ending st"
  by (simp_all add: ending_def restorations_def)

lemma ok_send [simp]: "history_ok (send_history r t st) \<longleftrightarrow> (if restores t then ending st else history_ok st)"
  by (auto simp: history_ok_def ending_def restorations_def send_history_def)

lemma ok_restoration_over [simp]: "ending st \<Longrightarrow> history_ok (hi_busy_update (\<lambda>_. False) st)"
  by (simp add: history_ok_def ending_def restorations_def)

lemma ok_started [simp]: "history_ok st \<Longrightarrow> \<not> hi_busy st \<Longrightarrow> ending (hi_busy_update (\<lambda>_. True) st)"
  by (simp add: history_ok_def ending_def restorations_def)

lemma ok_commits [simp]:
  "history_ok st \<Longrightarrow> history_ok (read_commits scope preserve False st)"
  "ending st \<Longrightarrow> history_ok (read_commits scope preserve True st)"
  "history_ok st \<Longrightarrow> history_ok (fetchHistoryCommits_begin scope preserve st)"
  by (simp_all add: read_commits_def fetchHistoryCommits_begin_def)

lemma ok_done [simp]: "ending st \<Longrightarrow> history_ok (restore_done re st)"
  by (simp add: restore_done_def)

lemma ok_load [simp]: "ending st \<Longrightarrow> history_ok (load_restored re st)"
  by (simp add: load_restored_def Let_def)

lemma ok_listed [simp]: "ending st \<Longrightarrow> history_ok (restore_listed re res st)"
  by (auto simp: restore_listed_def restore_failed_def Let_def split: prod.splits option.splits)

lemma ok_answered:
  assumes "if restores t then ending st else history_ok st"
  shows "history_ok (history_answered t res outcome st)"
proof (cases t)
  case (Reading_commits preserve restoring)
  then show ?thesis
    using assms by (auto simp: fetchHistoryCommits_end_def Let_def split: sum.splits if_splits)
next
  case Reading_diff
  then show ?thesis
    using assms by (auto simp: loadHistoryDiff_end_def split: sum.splits)
next
  case (Posting re)
  then show ?thesis
    using assms by (auto simp: restore_failed_def split: option.splits)
qed (use assms in \<open>simp_all add: restore_loaded_def\<close>)

lemma ok_taken:
  assumes "history_ok st" "i < length (hi_tasks st)"
  defines "st1 \<equiv> st\<lparr>hi_tasks := drop_nth i (hi_tasks st)\<rparr>"
  shows "if restores (hi_tasks st ! i) then ending st1 else history_ok st1"
  using assms(1) length_filter_drop_nth [OF assms(2), of restores]
  by (auto simp: st1_def ending_def history_ok_def restorations_def split: if_splits)

lemma ok_effect: "history_ok st \<Longrightarrow> history_ok (diff_effect before st)"
  by (simp add: diff_effect_def loadHistoryDiff_begin_def)

lemma ok_handled: "history_ok st \<Longrightarrow> history_ok (history_handle e st)"
proof (induction e st rule: history_handle.induct)
  case (10 i res outcome st)
  then show ?case
    using ok_answered [OF ok_taken] by simp
qed (simp_all add: openHistory_def restoreHistoryWorkspace_begin_def restoreHistoryPath_begin_def restore_begin_def Let_def)

interpretation history: machine history_step history_ok
  unfolding history_step_def by unfold_locales (intro ok_effect ok_handled)

text \<open>In every run at most one restoration is under way, and the dialog is locked exactly while it is.\<close>

theorem one_restoration_at_a_time:
  fixes ed es
  defines "st \<equiv> fold history_step es (initial_history ed)"
  shows "length (filter restores (hi_tasks st)) = (if hi_busy st then 1 else 0)"
proof -
  have "history_ok (initial_history ed)"
    by (simp add: history_ok_def restorations_def initial_history_def)
  from history.every_run_ok [OF this, of es] show ?thesis
    by (simp add: st_def history_ok_def restorations_def)
qed

subsection \<open>What a restoration does to the editor\<close>

lemma history_step_same: "diff_of (history_handle e st) = diff_of st \<Longrightarrow> history_step e st = history_handle e st"
  by (simp add: history_step_def diff_effect_def)

lemma history_step_answer:
  "hi_tasks st = [t] \<Longrightarrow> diff_of (history_answered t res outcome (st\<lparr>hi_tasks := []\<rparr>)) = diff_of st \<Longrightarrow>
    history_step (History_answer 0 res outcome) st = history_answered t res outcome (st\<lparr>hi_tasks := []\<rparr>)"
  by (simp add: history_step_same)

lemma send_history_sends [simp]:
  "hi_tasks (send_history r t st) = hi_tasks st @ [t]" "hi_sent (send_history r t st) = hi_sent st @ [r]"
  "hi_ed (send_history r t st) = hi_ed st" "hi_status (send_history r t st) = hi_status st" "hi_error (send_history r t st) = hi_error st"
  "hi_scope (send_history r t st) = hi_scope st" "hi_busy (send_history r t st) = hi_busy st" "hi_sha (send_history r t st) = hi_sha st"
  "diff_of (send_history r t st) = diff_of st"
  by (simp_all add: send_history_def diff_of_def)

lemma refreshed_editor:
  "\<exists>ed'. refreshFiles (HttpOk (Inr files)) ed = (None, ed') \<and> ed_workspace ed' = ed_workspace ed \<and> ed_path ed' = ed_path ed
    \<and> ed_value ed' = ed_value ed \<and> ed_dirty ed' = ed_dirty ed \<and> ed_puts ed' = ed_puts ed \<and> ed_jobs ed' = ed_jobs ed
    \<and> ed_kdbxPassword ed' = ed_kdbxPassword ed \<and> ed_files ed' = map file_entry (arr_items (jget files ''files''))"
  by (simp add: refreshFiles_def json_answer_def syncInventoryReady_def Let_def)

lemma restoration_listed:
  fixes st re ok files o1 o2
  assumes "hi_tasks st = [Posting re]" "detail_error ok = None"
  defines "st' \<equiv> fold history_step [History_answer 0 ok o1, History_answer 0 (HttpOk (Inr files)) o2] st"
  shows "\<exists>ed'. refreshFiles (HttpOk (Inr files)) (hi_ed st) = (None, ed')
    \<and> (let st2 = st\<lparr>hi_sent := hi_sent st @ [List_restored], hi_tasks := [], hi_ed := ed'\<rparr>
       in st' = diff_effect st (if restored_active re then load_restored re st2 else restore_done re st2))"
proof -
  define st1 where "st1 = send_history List_restored (Listing_restored re) (st\<lparr>hi_tasks := []\<rparr>)"
  have same: "diff_of (st\<lparr>hi_tasks := ts\<rparr>) = diff_of st" for ts
    by (simp add: diff_of_def)
  then have one: "history_step (History_answer 0 ok o1) st = st1"
    using history_step_answer [OF assms(1), of ok o1] assms(2) by (simp add: st1_def)
  obtain ed' where ed': "refreshFiles (HttpOk (Inr files)) (hi_ed st) = (None, ed')"
    using refreshed_editor by blast
  have st1: "hi_tasks st1 = [Listing_restored re]" "hi_ed st1 = hi_ed st" "diff_of st1 = diff_of st"
    by (simp_all add: st1_def same)
  define st2 where "st2 = st\<lparr>hi_sent := hi_sent st @ [List_restored], hi_tasks := [], hi_ed := ed'\<rparr>"
  have "st1\<lparr>hi_tasks := [], hi_ed := ed'\<rparr> = st2"
    by (simp add: st1_def send_history_def st2_def)
  then have "history_handle (History_answer 0 (HttpOk (Inr files)) o2) st1 = (if restored_active re then load_restored re st2 else restore_done re st2)"
    using ed' st1 by (simp add: restore_listed_def Let_def)
  then have "history_step (History_answer 0 (HttpOk (Inr files)) o2) st1 =
      diff_effect st (if restored_active re then load_restored re st2 else restore_done re st2)"
    using st1(3) by (simp only: history_step_def diff_effect_def)
  then have "st' = diff_effect st (if restored_active re then load_restored re st2 else restore_done re st2)"
    by (simp only: st'_def fold_simps one)
  with ed' show ?thesis
    by (auto simp: st2_def Let_def)
qed

text \<open>
  C38: restoring the workspace while a text file is open: the commit is posted, the files are listed and the open file is
  read again, in this order; then the editor shows what the file holds now, as unchanged. A refusal of the
  restoration leaves the editor as it is.
\<close>

theorem restoration_outcome:
  fixes st sha p ok files content bad m o1 o2 o3
  assumes "hi_tasks st = []" "\<not> no_id (hi_workspace st)" "hi_sha st = Some sha" "sha \<noteq> []" "\<not> hi_busy st"
    "ed_path (hi_ed st) = Some p" "p \<noteq> []" "extensionForPath p \<noteq> ''kdbx''" "detail_error ok = None" "detail_error bad = Some m"
  defines "denied \<equiv> fold history_step [Restore_workspace True, History_answer 0 bad o1] st"
    and "st' \<equiv> fold history_step [Restore_workspace True, History_answer 0 ok o1, History_answer 0 (HttpOk (Inr files)) o2,
      History_answer 0 (HttpOk (Inr content)) o3] st"
  shows "hi_ed denied = hi_ed st \<and> hi_error denied = Some m \<and> \<not> hi_busy denied \<and> hi_tasks denied = []
    \<and> ed_path (hi_ed st') = Some p \<and> ed_value (hi_ed st') = str_nn (jget content ''content'') \<and> \<not> ed_dirty (hi_ed st')
    \<and> ed_files (hi_ed st') = map file_entry (arr_items (jget files ''files''))
    \<and> hi_status st' = Some ''Workspace restored.''
    \<and> hi_sent st' = hi_sent st @ [Post_restore sha, List_restored, Get_restored p, Get_commits (if no_id (hi_scope st) then None else hi_scope st)]"
proof -
  define re where "re = \<lparr>re_path = None, re_isDir = False, re_scope = hi_scope st, re_active = Some p\<rparr>"
  define st1 where "st1 = restore_begin (Post_restore sha) re st"
  have begun: "history_handle (Restore_workspace True) st = st1"
    using assms(2-6) by (auto simp: restoreHistoryWorkspace_begin_def st1_def re_def no_id_def)
  have st1: "hi_tasks st1 = [Posting re]" "hi_ed st1 = hi_ed st" "diff_of st1 = diff_of st" "hi_sent st1 = hi_sent st @ [Post_restore sha]"
    "hi_scope st1 = hi_scope st"
    using assms(1) by (simp_all add: st1_def restore_begin_def) (simp add: diff_of_def)
  have step1: "history_step (Restore_workspace True) st = st1"
    using history_step_same begun st1(3) by metis
  have "history_step (History_answer 0 bad o1) st1 = restore_failed m (st1\<lparr>hi_tasks := []\<rparr>)"
    using history_step_answer [OF st1(1), of bad o1] assms(10) by (simp add: restore_failed_def diff_of_def)
  then have denied: "hi_ed denied = hi_ed st \<and> hi_error denied = Some m \<and> \<not> hi_busy denied \<and> hi_tasks denied = []"
    by (simp add: denied_def step1 restore_failed_def st1(2))
  obtain ed' where ed': "refreshFiles (HttpOk (Inr files)) (hi_ed st) = (None, ed')" and
    listed: "fold history_step [History_answer 0 ok o1, History_answer 0 (HttpOk (Inr files)) o2] st1 =
      diff_effect st1 (load_restored re (st1\<lparr>hi_sent := hi_sent st1 @ [List_restored], hi_tasks := [], hi_ed := ed'\<rparr>))"
    using restoration_listed [OF st1(1) assms(9), where files = files and ?o1.0 = o1 and ?o2.0 = o2] st1(2) assms(7)
    by (auto simp: restored_active_def re_def Let_def)
  have ed: "ed_workspace ed' = hi_workspace st" "ed_path ed' = Some p" "ed_files ed' = map file_entry (arr_items (jget files ''files''))"
    using refreshed_editor [of files "hi_ed st"] ed' assms(6) by auto
  define st2 where "st2 = send_history (Get_restored p) (Loading_restored re (Load_job p))
      (st1\<lparr>hi_sent := hi_sent st1 @ [List_restored], hi_tasks := [], hi_ed := ed'\<lparr>ed_loading := True, ed_error := None, ed_status := None\<rparr>\<rparr>)"
  have "load_restored re (st1\<lparr>hi_sent := hi_sent st1 @ [List_restored], hi_tasks := [], hi_ed := ed'\<rparr>) = st2"
    using ed assms(2,8) by (simp add: load_restored_def loadFile_begin_def add_job_def re_def st2_def Let_def)
  moreover have "diff_of st2 = diff_of st1"
    using ed st1(2) by (simp add: st2_def) (simp add: diff_of_def)
  ultimately have two: "fold history_step [History_answer 0 ok o1, History_answer 0 (HttpOk (Inr files)) o2] st1 = st2"
    using listed by (simp add: diff_effect_def)
  have t2: "hi_tasks st2 = [Loading_restored re (Load_job p)]"
    by (simp add: st2_def)
  define ed3 where "ed3 = (loadFile_end p (HttpOk (Inr content)) (hi_ed st2))\<lparr>ed_dirty := False\<rparr>"
  define st3 where "st3 = st2\<lparr>hi_tasks := [], hi_ed := ed3, hi_status := Some ''Workspace restored.''\<rparr>"
  have ed3: "ed_workspace ed3 = hi_workspace st" "ed_path ed3 = Some p" "ed_value ed3 = str_nn (jget content ''content'')" "\<not> ed_dirty ed3"
    "ed_files ed3 = map file_entry (arr_items (jget files ''files''))"
    using ed by (simp_all add: ed3_def st2_def loadFile_end_def json_answer_def know_def Let_def)
  have "history_answered (Loading_restored re (Load_job p)) (HttpOk (Inr content)) o3 (st2\<lparr>hi_tasks := []\<rparr>) =
      read_commits (hi_scope st) True True st3"
    by (simp add: restore_loaded_def restore_done_def restored_status_def st3_def ed3_def re_def)
  moreover have w: "hi_workspace st3 = hi_workspace st"
    by (simp add: st3_def ed3)
  moreover have d3: "diff_of st3 = diff_of st2"
    using ed3 ed st1(2) by (simp add: st3_def diff_of_def st2_def)
  ultimately have "history_step (History_answer 0 (HttpOk (Inr content)) o3) st2 = read_commits (hi_scope st) True True st3"
    using history_step_answer [OF t2, of "HttpOk (Inr content)" o3] assms(2)
    by (simp add: read_commits_def) (simp add: diff_of_def)
  then have "st' = read_commits (hi_scope st) True True st3"
    using two by (simp add: st'_def step1)
  then show ?thesis
    using denied ed3 w assms(2) st1(4) by (simp add: read_commits_def st3_def st2_def)
qed

text \<open>
  Restoring another file or folder than the one that is open, while that one has unsaved text: the text stays in the
  editor, marked as unchanged. No automatic save follows and nothing of it has been written.
\<close>

theorem restoration_forgets_unsaved:
  fixes st sha q p ok files o1 o2
  assumes "hi_tasks st = []" "\<not> no_id (hi_workspace st)" "hi_sha st = Some sha" "sha \<noteq> []" "hi_scope st = Some q" "q \<noteq> []" "\<not> hi_busy st"
    "ed_path (hi_ed st) = Some p" "p \<noteq> q" "\<not> (hi_isDir st \<and> starts_with p (q @ ''/''))" "detail_error ok = None"
  defines "st' \<equiv> fold history_step [Restore_scope True, History_answer 0 ok o1, History_answer 0 (HttpOk (Inr files)) o2] st"
  shows "ed_path (hi_ed st') = Some p \<and> ed_value (hi_ed st') = ed_value (hi_ed st) \<and> \<not> ed_dirty (hi_ed st')
    \<and> ed_puts (hi_ed st') = ed_puts (hi_ed st) \<and> \<not> ed_timer (autosave_effect (hi_ed st'))
    \<and> hi_sent st' = hi_sent st @ [Post_restore_path sha q, List_restored, Get_commits (Some q)]"
proof -
  define re where "re = \<lparr>re_path = Some q, re_isDir = hi_isDir st, re_scope = Some q, re_active = Some p\<rparr>"
  define st1 where "st1 = restore_begin (Post_restore_path sha q) re st"
  have begun: "history_handle (Restore_scope True) st = st1"
    using assms(2-8) by (auto simp: restoreHistoryPath_begin_def st1_def re_def no_id_def)
  have st1: "hi_tasks st1 = [Posting re]" "hi_ed st1 = hi_ed st" "diff_of st1 = diff_of st" "hi_sent st1 = hi_sent st @ [Post_restore_path sha q]"
    using assms(1) by (simp_all add: st1_def restore_begin_def) (simp add: diff_of_def)
  have step1: "history_step (Restore_scope True) st = st1"
    using history_step_same begun st1(3) by metis
  obtain ed' where ed': "refreshFiles (HttpOk (Inr files)) (hi_ed st) = (None, ed')" and
    listed: "fold history_step [History_answer 0 ok o1, History_answer 0 (HttpOk (Inr files)) o2] st1 =
      diff_effect st1 (restore_done re (st1\<lparr>hi_sent := hi_sent st1 @ [List_restored], hi_tasks := [], hi_ed := ed'\<rparr>))"
    using restoration_listed [OF st1(1) assms(11), where files = files and ?o1.0 = o1 and ?o2.0 = o2] st1(2) assms(9,10)
    by (auto simp: restored_active_def re_def Let_def)
  have ed: "ed_workspace ed' = hi_workspace st" "ed_path ed' = Some p" "ed_value ed' = ed_value (hi_ed st)" "ed_puts ed' = ed_puts (hi_ed st)"
    using refreshed_editor [of files "hi_ed st"] ed' assms(8) by auto
  define st2 where "st2 = restore_done re (st1\<lparr>hi_sent := hi_sent st1 @ [List_restored], hi_tasks := [], hi_ed := ed'\<rparr>)"
  have st2: "hi_ed st2 = ed'\<lparr>ed_dirty := False\<rparr>" "hi_sent st2 = hi_sent st @ [Post_restore_path sha q, List_restored, Get_commits (Some q)]"
    using ed(1) assms(2,6) st1(4) by (simp_all add: st2_def restore_done_def read_commits_def re_def) (simp add: no_id_def)
  have "diff_of st2 = diff_of st1"
    using ed(1) st1(2) by (simp add: st2_def restore_done_def read_commits_def diff_of_def send_history_def)
  then have "st' = st2"
    using listed by (simp add: st'_def step1 st2_def diff_effect_def)
  then show ?thesis
    using st2 ed by (simp add: autosave_effect_def)
qed

subsection \<open>Answers out of order\<close>

lemma diff_read:
  assumes "hi_open st" "\<not> no_id (hi_workspace st)" "sha \<noteq> []" "hi_sha st \<noteq> Some sha"
  shows "history_step (Select_commit sha) st =
    send_history (Get_diff sha (hi_against st) (if no_id (hi_scope st) then None else hi_scope st)) Reading_diff
      (st\<lparr>hi_sha := Some sha, hi_diffLoading := True, hi_error := None\<rparr>)"
  using assms by (auto simp: history_step_def diff_effect_def diff_of_def loadHistoryDiff_begin_def no_id_def)

lemma diff_answered:
  assumes "i < length (hi_tasks st)" "hi_tasks st ! i = Reading_diff"
  shows "history_step (History_answer i (HttpOk (Inr data)) outcome) st =
    st\<lparr>hi_tasks := drop_nth i (hi_tasks st), hi_diff := str_nn (jget data ''diff''),
       hi_diffFiles := map read_file_change (arr_items (jget data ''files'')), hi_diffLoading := False\<rparr>"
  using assms
  by (simp add: history_step_def diff_effect_def diff_of_def loadHistoryDiff_end_def detail_answer_def detail_error_def json_answer_def)

text \<open>
  The difference of a commit is shown under the one that is selected when its answer comes: whoever selects two commits
  and is answered in the other order sees the difference of the first under the second.
\<close>

theorem other_difference_shown:
  fixes st a b da db o1 o2
  assumes "hi_tasks st = []" "hi_open st" "\<not> no_id (hi_workspace st)" "a \<noteq> []" "b \<noteq> []" "a \<noteq> b" "hi_sha st \<noteq> Some a"
  defines "st' \<equiv> fold history_step [Select_commit a, Select_commit b, History_answer 1 (HttpOk (Inr db)) o1, History_answer 0 (HttpOk (Inr da)) o2] st"
  shows "hi_sha st' = Some b \<and> hi_diff st' = str_nn (jget da ''diff'') \<and> \<not> hi_diffLoading st' \<and> hi_tasks st' = []"
proof -
  define st1 where "st1 = history_step (Select_commit a) st"
  note s1 = diff_read [OF assms(2,3,4,7), folded st1_def]
  have f1: "hi_open st1" "\<not> no_id (hi_workspace st1)" "hi_sha st1 \<noteq> Some b" "hi_tasks st1 = [Reading_diff]"
    using assms(1-3,6) by (simp_all add: s1) (simp add: send_history_def)
  define st2 where "st2 = history_step (Select_commit b) st1"
  note s2 = diff_read [OF f1(1,2) assms(5) f1(3), folded st2_def]
  have f2: "hi_tasks st2 = [Reading_diff, Reading_diff]" "hi_sha st2 = Some b"
    using f1(4) by (simp_all add: s2)
  have "history_step (History_answer 1 (HttpOk (Inr db)) o1) st2 =
      st2\<lparr>hi_tasks := [Reading_diff], hi_diff := str_nn (jget db ''diff''),
        hi_diffFiles := map read_file_change (arr_items (jget db ''files'')), hi_diffLoading := False\<rparr>"
    using diff_answered [of 1 st2] f2 by (simp add: drop_nth_def)
  then have "st' = history_step (History_answer 0 (HttpOk (Inr da)) o2) (st2\<lparr>hi_tasks := [Reading_diff], hi_diff := str_nn (jget db ''diff''),
        hi_diffFiles := map read_file_change (arr_items (jget db ''files'')), hi_diffLoading := False\<rparr>)"
    by (simp add: st'_def st2_def st1_def)
  then show ?thesis
    using f2 by (simp add: diff_answered)
qed

subsection \<open>Which commit is selected\<close>

definition commits_of :: "jsval \<Rightarrow> history_commit list" where
  "commits_of data = map read_commit (arr_items (jget data ''commits''))"

text \<open>
  Reading the commits again keeps the selected one while it is among them, and takes the newest otherwise; opening the
  history always takes the newest. No commit is selected exactly when there is none.
\<close>

theorem selection_after_reading:
  fixes st preserve restoring data outcome
  assumes "hi_tasks st = [Reading_commits preserve restoring]"
  defines "st' \<equiv> history_step (History_answer 0 (HttpOk (Inr data)) outcome) st"
  shows "hi_sha st' = (if preserve \<and> \<not> no_id (hi_sha st) \<and> the (hi_sha st) \<in> hc_sha ` set (commits_of data) then hi_sha st
      else if commits_of data = [] then None else Some (hc_sha (hd (commits_of data))))
    \<and> hi_commits st' = filter (\<lambda>entry. hc_sha entry \<noteq> []) (commits_of data)
    \<and> (if hi_open st \<and> hi_sha st' \<noteq> hi_sha st \<and> \<not> no_id (hi_sha st') \<and> \<not> no_id (hi_workspace st)
       then hi_sent st' = hi_sent st @ [Get_diff (the (hi_sha st')) (hi_against st) (if no_id (hi_scope st) then None else hi_scope st)]
       else hi_sent st' = hi_sent st)"
proof -
  define st1 where "st1 = fetchHistoryCommits_end preserve restoring (HttpOk (Inr data)) (st\<lparr>hi_tasks := []\<rparr>)"
  have "history_handle (History_answer 0 (HttpOk (Inr data)) outcome) st = st1"
    using assms(1) by (simp add: st1_def)
  then have st': "st' = diff_effect st st1"
    by (simp add: st'_def history_step_def)
  have kept: "\<not> no_id q \<Longrightarrow> list_ex (\<lambda>entry. Some (hc_sha entry) = q) cs \<longleftrightarrow> the q \<in> hc_sha ` set cs" for q cs
    by (cases q) (force simp: no_id_def list_ex_iff)+
  have sha: "next_sha preserve cs q = (if preserve \<and> \<not> no_id q \<and> the q \<in> hc_sha ` set cs then q
      else if cs = [] then None else Some (hc_sha (hd cs)))" for cs q
    using kept [of q cs] by (cases cs) (auto simp: next_sha_def)
  have st1: "hi_sha st1 = next_sha preserve (commits_of data) (hi_sha st)"
    "hi_commits st1 = filter (\<lambda>entry. hc_sha entry \<noteq> []) (commits_of data)" "hi_open st1 = hi_open st" "hi_scope st1 = hi_scope st"
    "hi_against st1 = hi_against st" "hi_ed st1 = hi_ed st" "hi_sent st1 = hi_sent st"
    by (simp_all add: st1_def fetchHistoryCommits_end_def detail_answer_def detail_error_def json_answer_def commits_of_def Let_def)
  have "hi_sha st' = hi_sha st1" "hi_commits st' = hi_commits st1"
    by (simp_all add: st' diff_effect_def loadHistoryDiff_begin_def send_history_def)
  moreover have "diff_of st1 = diff_of st \<longleftrightarrow> hi_sha st1 = hi_sha st"
    using st1 by (simp add: diff_of_def)
  ultimately show ?thesis
    using st1 sha by (auto simp: st' diff_effect_def loadHistoryDiff_begin_def no_id_def)
qed

subsection \<open>Concrete runs\<close>

definition open_in_w1 :: history_state where
  "open_in_w1 = (initial_history ((initial_editor (Some ''w1'') None)\<lparr>ed_path := Some ''a.txt'', ed_value := ''new'', ed_dirty := True\<rparr>))
     \<lparr>hi_open := True, hi_sha := Some ''c1'', hi_scope := Some ''b.txt''\<rparr>"

theorem restoration_outcome_witness:
  "ed_value (hi_ed (fold history_step [Restore_workspace True, History_answer 0 (HttpOk (Inr JNull)) (Inr []),
      History_answer 0 (HttpOk (Inr JNull)) (Inr []), History_answer 0 (HttpOk (Inr (JObj [(''content'', JStr ''old'')]))) (Inr [])] open_in_w1)) = ''old''"
proof -
  have facts: "hi_tasks open_in_w1 = []" "\<not> no_id (hi_workspace open_in_w1)" "hi_sha open_in_w1 = Some ''c1''" "''c1'' \<noteq> []" "\<not> hi_busy open_in_w1"
    "ed_path (hi_ed open_in_w1) = Some ''a.txt''" "''a.txt'' \<noteq> []" "extensionForPath ''a.txt'' \<noteq> ''kdbx''"
    "detail_error (HttpOk (Inr JNull)) = None" "detail_error (NetError ''gone'') = Some ''gone''"
    by code_simp+
  have "str_nn (jget (JObj [(''content'', JStr ''old'')]) ''content'') = ''old''"
    by simp
  then show ?thesis
    using restoration_outcome [OF facts, where files = JNull and content = "JObj [(''content'', JStr ''old'')]"
        and ?o1.0 = "Inr []" and ?o2.0 = "Inr []" and ?o3.0 = "Inr []"] by metis
qed

theorem restoration_forgets_unsaved_witness:
  "let st' = fold history_step [Restore_scope True, History_answer 0 (HttpOk (Inr JNull)) (Inr []),
      History_answer 0 (HttpOk (Inr JNull)) (Inr [])] open_in_w1
   in ed_value (hi_ed st') = ''new'' \<and> \<not> ed_dirty (hi_ed st') \<and> ed_puts (hi_ed st') = []"
proof -
  have facts: "hi_tasks open_in_w1 = []" "\<not> no_id (hi_workspace open_in_w1)" "hi_sha open_in_w1 = Some ''c1''" "''c1'' \<noteq> []"
    "hi_scope open_in_w1 = Some ''b.txt''" "''b.txt'' \<noteq> []" "\<not> hi_busy open_in_w1" "ed_path (hi_ed open_in_w1) = Some ''a.txt''" "''a.txt'' \<noteq> ''b.txt''"
    "\<not> (hi_isDir open_in_w1 \<and> starts_with ''a.txt'' (''b.txt'' @ ''/''))" "detail_error (HttpOk (Inr JNull)) = None"
    by code_simp+
  have rest: "ed_value (hi_ed open_in_w1) = ''new''" "ed_puts (hi_ed open_in_w1) = []"
    by code_simp+
  show ?thesis
    unfolding Let_def using restoration_forgets_unsaved [OF facts, where files = JNull and ?o1.0 = "Inr []" and ?o2.0 = "Inr []"] unfolding rest by blast
qed

theorem other_difference_shown_witness:
  "hi_diff (fold history_step [Select_commit ''c2'', Select_commit ''c3'', History_answer 1 (HttpOk (Inr JNull)) (Inr []),
      History_answer 0 (HttpOk (Inr (JObj [(''diff'', JStr ''+x'')]))) (Inr [])] open_in_w1) = ''+x''"
proof -
  have facts: "hi_tasks open_in_w1 = []" "hi_open open_in_w1" "\<not> no_id (hi_workspace open_in_w1)" "''c2'' \<noteq> []" "''c3'' \<noteq> []" "''c2'' \<noteq> ''c3''"
    "hi_sha open_in_w1 \<noteq> Some ''c2''"
    by code_simp+
  have "str_nn (jget (JObj [(''diff'', JStr ''+x'')]) ''diff'') = ''+x''"
    by simp
  then show ?thesis
    using other_difference_shown [OF facts, where db = JNull and da = "JObj [(''diff'', JStr ''+x'')]"
        and ?o1.0 = "Inr []" and ?o2.0 = "Inr []"] by metis
qed

theorem selection_after_reading_witness:
  "hi_sha (history_step (History_answer 0 (HttpOk (Inr JNull)) (Inr [])) (open_in_w1\<lparr>hi_tasks := [Reading_commits True False]\<rparr>)) = None"
proof -
  have t: "hi_tasks (open_in_w1\<lparr>hi_tasks := [Reading_commits True False]\<rparr>) = [Reading_commits True False]"
    by simp
  have "commits_of JNull = []"
    by code_simp
  then show ?thesis
    using selection_after_reading [OF t, of JNull "Inr []", THEN conjunct1] by simp
qed

end
