(* ===== verification/ZipImport.thy ===== *)
theory ZipImport
  imports WorkspaceHistory
begin

text \<open>
  Importing an archive into a workspace (\<open>workspace-panel/useZipImportWorkflow.ts\<close>, \<open>previewZip\<close> and \<open>uploadZip\<close> of
  \<open>actions/files.ts\<close>, the dialog \<open>ZipImportModeModal.tsx\<close>): the archive is inspected, each of its files gets a mode,
  and the upload sends the modes. An archive is known by its name; the requests are logged in \<open>zi_sent\<close> with the
  workspace their closure captured.
\<close>

subsection \<open>State\<close>

datatype zip_mode = Mode_override | Mode_merge

record zip_item =
  zf_path :: string
  zf_exists :: bool

datatype zip_request =
  Post_preview string string
| Post_upload string string zip_mode "(string \<times> zip_mode) list"
| Get_files string

datatype zip_task =
  Inspecting string
| Uploading string
| Listing_imported

record zip_state =
  zi_ed :: editor_state
  zi_busy :: bool
  zi_uploadError :: "string option"
  zi_uploadStatus :: "string option"
  zi_open :: bool
  zi_previewBusy :: bool
  zi_file :: "string option"
  zi_items :: "zip_item list"
  zi_modes :: "(string \<times> zip_mode) list"
  zi_applyAll :: bool
  zi_allMode :: zip_mode
  zi_error :: "string option"
  zi_tasks :: "zip_task list"
  zi_sent :: "zip_request list"

abbreviation zi_workspace :: "zip_state \<Rightarrow> string option" where
  "zi_workspace st \<equiv> ed_workspace (zi_ed st)"

definition DEFAULT_ZIP_IMPORT_MODE :: zip_mode where
  "DEFAULT_ZIP_IMPORT_MODE = Mode_override"

definition send_zip :: "zip_request \<Rightarrow> zip_task \<Rightarrow> zip_state \<Rightarrow> zip_state" where
  "send_zip r t st = st\<lparr>zi_sent := zi_sent st @ [r], zi_tasks := zi_tasks st @ [t]\<rparr>"

definition is_zip :: "string \<Rightarrow> bool" where
  "is_zip name \<longleftrightarrow> ends_with (to_lower name) ''.zip''"

definition not_zip :: string where
  "not_zip = ''Please select a .zip file.''"

definition importActionBusy :: "zip_state \<Rightarrow> bool" where
  "importActionBusy st \<longleftrightarrow> zi_busy st \<or> zi_previewBusy st"

definition resetZipImportState :: "zip_state \<Rightarrow> zip_state" where
  "resetZipImportState st =
     st\<lparr>zi_open := False, zi_previewBusy := False, zi_file := None, zi_items := [], zi_modes := [], zi_applyAll := False,
        zi_allMode := DEFAULT_ZIP_IMPORT_MODE, zi_error := None\<rparr>"

subsection \<open>The modes of the files\<close>

definition preferred_mode :: "zip_item \<Rightarrow> zip_mode" where
  "preferred_mode item = (if zf_exists item then Mode_merge else DEFAULT_ZIP_IMPORT_MODE)"

definition assign_modes :: "(zip_item \<Rightarrow> zip_mode) \<Rightarrow> zip_item list \<Rightarrow> (string \<times> zip_mode) list" where
  "assign_modes f items = foldl (\<lambda>m item. AList.update (zf_path item) (f item) m) [] items"

definition applyZipImportModeToAll :: "zip_mode \<Rightarrow> zip_state \<Rightarrow> zip_state" where
  "applyZipImportModeToAll mode st = st\<lparr>zi_modes := assign_modes (\<lambda>_. mode) (zi_items st)\<rparr>"

definition setZipImportApplyToAll :: "bool \<Rightarrow> zip_state \<Rightarrow> zip_state" where
  "setZipImportApplyToAll checked st =
     (let st1 = st\<lparr>zi_applyAll := checked\<rparr> in if checked then applyZipImportModeToAll (zi_allMode st) st1 else st1)"

definition setZipImportAllModeWithApply :: "zip_mode \<Rightarrow> zip_state \<Rightarrow> zip_state" where
  "setZipImportAllModeWithApply mode st =
     (let st1 = st\<lparr>zi_allMode := mode\<rparr> in if zi_applyAll st then applyZipImportModeToAll mode st1 else st1)"

definition setZipImportModeForPath :: "string \<Rightarrow> zip_mode \<Rightarrow> zip_state \<Rightarrow> zip_state" where
  "setZipImportModeForPath path mode st =
     (if zi_applyAll st then applyZipImportModeToAll mode (st\<lparr>zi_allMode := mode\<rparr>)
      else st\<lparr>zi_modes := AList.update path mode (zi_modes st)\<rparr>)"

text \<open>The mode the dialog shows at a file.\<close>

definition shown_mode :: "zip_state \<Rightarrow> string \<Rightarrow> zip_mode" where
  "shown_mode st path = (case map_of (zi_modes st) path of Some mode \<Rightarrow> mode | None \<Rightarrow> Mode_override)"

subsection \<open>Inspecting an archive\<close>

definition zip_entry :: "jsval \<Rightarrow> zip_item" where
  "zip_entry entry = \<lparr>zf_path = trim (str_or (jget entry ''path'')), zf_exists = truthy (jget entry ''exists'')\<rparr>"

definition preview_items :: "jsval \<Rightarrow> zip_item list" where
  "preview_items data = filter (\<lambda>item. zf_path item \<noteq> []) (map zip_entry (arr_items (jget data ''files'')))"

definition preview_failed :: "string \<Rightarrow> zip_state \<Rightarrow> zip_state" where
  "preview_failed m st = st\<lparr>zi_uploadError := Some m, zi_previewBusy := False\<rparr>"

definition onUploadSelect_begin :: "string \<Rightarrow> zip_state \<Rightarrow> zip_state" where
  "onUploadSelect_begin file st =
     (case zi_workspace st of
        None \<Rightarrow> st
      | Some ws \<Rightarrow>
          if ws = [] \<or> zi_busy st then st
          else let st1 = st\<lparr>zi_previewBusy := True, zi_error := None, zi_uploadError := None, zi_uploadStatus := None\<rparr>
               in if is_zip file then send_zip (Post_preview ws file) (Inspecting file) st1 else preview_failed not_zip st1)"

definition onUploadSelect_end :: "string \<Rightarrow> http_reply \<Rightarrow> zip_state \<Rightarrow> zip_state" where
  "onUploadSelect_end file res st =
     (case detail_answer res of
        Inl m \<Rightarrow> preview_failed m st
      | Inr data \<Rightarrow>
          (let items = preview_items data
           in if items = [] then preview_failed ''ZIP contains no importable files.'' st
              else st\<lparr>zi_file := Some file, zi_items := items, zi_modes := assign_modes preferred_mode items, zi_applyAll := False,
                      zi_allMode := DEFAULT_ZIP_IMPORT_MODE, zi_open := True, zi_previewBusy := False\<rparr>))"

subsection \<open>Uploading it\<close>

text \<open>What \<open>confirmZipImport\<close> shows when \<open>uploadZip\<close> has not succeeded.\<close>

definition import_failed :: "string \<Rightarrow> zip_state \<Rightarrow> zip_state" where
  "import_failed m st =
     st\<lparr>zi_error := Some (if trim m \<noteq> [] then ''Import failed: '' @ trim m
                         else ''Import failed. For non-YAML/JSON files, choose Override instead of Merge.'')\<rparr>"

definition upload_failed :: "string \<Rightarrow> zip_state \<Rightarrow> zip_state" where
  "upload_failed m st = import_failed m (st\<lparr>zi_uploadError := Some m, zi_busy := False\<rparr>)"

definition upload_modes :: "(string \<times> zip_mode) list \<Rightarrow> (string \<times> zip_mode) list" where
  "upload_modes raw = foldl (\<lambda>m (path, mode). if trim path = [] then m else AList.update (trim path) mode m) [] (own_entries raw)"

definition uploadZip_begin :: "string \<Rightarrow> zip_mode \<Rightarrow> (string \<times> zip_mode) list \<Rightarrow> zip_state \<Rightarrow> zip_state" where
  "uploadZip_begin file defaultMode raw st =
     (case zi_workspace st of
        None \<Rightarrow> import_failed ''Upload is currently unavailable.'' st
      | Some ws \<Rightarrow>
          if ws = [] \<or> zi_busy st then import_failed ''Upload is currently unavailable.'' st
          else if \<not> is_zip file then import_failed not_zip (st\<lparr>zi_uploadError := Some not_zip\<rparr>)
          else send_zip (Post_upload ws file defaultMode (upload_modes raw)) (Uploading ws)
                 (st\<lparr>zi_busy := True, zi_uploadError := None, zi_uploadStatus := None\<rparr>))"

definition confirmZipImport_begin :: "zip_state \<Rightarrow> zip_state" where
  "confirmZipImport_begin st =
     (case zi_file st of
        None \<Rightarrow> st
      | Some file \<Rightarrow>
          if no_id (zi_workspace st) \<or> zi_busy st then st
          else let perFileMode = assign_modes (\<lambda>item. case map_of (zi_modes st) (zf_path item) of
                     Some mode \<Rightarrow> mode | None \<Rightarrow> preferred_mode item) (zi_items st)
               in uploadZip_begin file (if zi_applyAll st then zi_allMode st else DEFAULT_ZIP_IMPORT_MODE)
                    (if zi_applyAll st then [] else perFileMode) (st\<lparr>zi_error := None\<rparr>))"

definition count_part :: "jsval \<Rightarrow> string \<Rightarrow> string \<Rightarrow> string list" where
  "count_part data key label =
     (let n = to_num (coalesce (jget data key) (JNum (Dec 0 0)))
      in if num_gt_int n 0 then [num_str n @ '' '' @ label] else [])"

definition upload_status :: "jsval \<Rightarrow> string" where
  "upload_status data =
     (let parts = count_part data ''created_files'' ''created'' @ count_part data ''overridden_files'' ''overridden''
            @ count_part data ''merged_files'' ''merged'' @ count_part data ''skipped_files'' ''skipped''
      in if parts \<noteq> [] then ''Workspace loaded ('' @ join '', '' parts @ '').'' else ''Workspace loaded.'')"

definition uploadZip_end :: "string \<Rightarrow> http_reply \<Rightarrow> zip_state \<Rightarrow> zip_state" where
  "uploadZip_end ws res st =
     (case detail_answer res of
        Inl m \<Rightarrow> upload_failed m st
      | Inr data \<Rightarrow> send_zip (Get_files ws) Listing_imported (st\<lparr>zi_uploadStatus := Some (upload_status data)\<rparr>))"

definition imported_listed :: "http_reply \<Rightarrow> zip_state \<Rightarrow> zip_state" where
  "imported_listed res st =
     (case refreshFiles res (zi_ed st) of
        (Some m, ed) \<Rightarrow> upload_failed m (st\<lparr>zi_ed := ed\<rparr>)
      | (None, ed) \<Rightarrow> resetZipImportState (st\<lparr>zi_ed := ed, zi_busy := False\<rparr>))"

subsection \<open>Events\<close>

definition closeZipImportModal :: "zip_state \<Rightarrow> zip_state" where
  "closeZipImportModal st = (if importActionBusy st then st else resetZipImportState st)"

fun zip_answered :: "zip_task \<Rightarrow> http_reply \<Rightarrow> zip_state \<Rightarrow> zip_state" where
  "zip_answered (Inspecting file) res st = onUploadSelect_end file res st"
| "zip_answered (Uploading ws) res st = uploadZip_end ws res st"
| "zip_answered Listing_imported res st = imported_listed res st"

datatype zip_event =
  Choose_file string
| Set_apply_all bool
| Set_all_mode zip_mode
| Set_mode string zip_mode
| Confirm_import
| Close_import
| Change_workspace "string option"
| Zip_answer nat http_reply

text \<open>What the dialog offers: its controls are disabled while something is under way.\<close>

definition dialog_ready :: "zip_state \<Rightarrow> bool" where
  "dialog_ready st \<longleftrightarrow> zi_open st \<and> \<not> importActionBusy st \<and> zi_items st \<noteq> []"

fun zip_step :: "zip_event \<Rightarrow> zip_state \<Rightarrow> zip_state" where
  "zip_step (Choose_file file) st = (if importActionBusy st then st else onUploadSelect_begin file st)"
| "zip_step (Set_apply_all checked) st = (if dialog_ready st then setZipImportApplyToAll checked st else st)"
| "zip_step (Set_all_mode mode) st = (if dialog_ready st then setZipImportAllModeWithApply mode st else st)"
| "zip_step (Set_mode path mode) st =
     (if dialog_ready st \<and> \<not> zi_applyAll st \<and> path \<in> zf_path ` set (zi_items st) then setZipImportModeForPath path mode st else st)"
| "zip_step Confirm_import st = (if dialog_ready st then confirmZipImport_begin st else st)"
| "zip_step Close_import st = (if zi_open st then closeZipImportModal st else st)"
| "zip_step (Change_workspace ws) st =
     (if ws = zi_workspace st then st else resetZipImportState (st\<lparr>zi_ed := (zi_ed st)\<lparr>ed_workspace := ws\<rparr>\<rparr>))"
| "zip_step (Zip_answer i res) st =
     (if i < length (zi_tasks st) then zip_answered (zi_tasks st ! i) res (st\<lparr>zi_tasks := drop_nth i (zi_tasks st)\<rparr>) else st)"

definition initial_zip :: "editor_state \<Rightarrow> zip_state" where
  "initial_zip ed =
     \<lparr>zi_ed = ed, zi_busy = False, zi_uploadError = None, zi_uploadStatus = None, zi_open = False, zi_previewBusy = False,
      zi_file = None, zi_items = [], zi_modes = [], zi_applyAll = False, zi_allMode = DEFAULT_ZIP_IMPORT_MODE, zi_error = None,
      zi_tasks = [], zi_sent = []\<rparr>"

subsection \<open>What every run keeps\<close>

definition imports_zip :: "zip_task \<Rightarrow> bool" where
  "imports_zip t \<longleftrightarrow> (case t of Inspecting _ \<Rightarrow> False | _ \<Rightarrow> True)"

definition modes_ok :: "zip_state \<Rightarrow> bool" where
  "modes_ok st \<longleftrightarrow> fst ` set (zi_modes st) = zf_path ` set (zi_items st)
     \<and> (zi_applyAll st \<longrightarrow> snd ` set (zi_modes st) \<subseteq> {zi_allMode st})
     \<and> (\<forall>item \<in> set (zi_items st). trimmed (zf_path item) \<and> zf_path item \<noteq> [])
     \<and> (zi_open st \<longrightarrow> (\<exists>file. zi_file st = Some file \<and> is_zip file))"

definition uploads_ok :: "zip_state \<Rightarrow> bool" where
  "uploads_ok st \<longleftrightarrow> length (filter imports_zip (zi_tasks st)) = (if zi_busy st then 1 else 0)
     \<and> (\<forall>file. Inspecting file \<in> set (zi_tasks st) \<longrightarrow> is_zip file)"

definition zip_ok :: "zip_state \<Rightarrow> bool" where
  "zip_ok st \<longleftrightarrow> modes_ok st \<and> uploads_ok st"

lemma keys_assign_modes: "fst ` set (assign_modes f items) = zf_path ` set items"
proof -
  have "fst ` set (foldl (\<lambda>m item. AList.update (zf_path item) (f item) m) m items) = fst ` set m \<union> zf_path ` set items" for m
    by (induction items arbitrary: m) (auto simp: dom_update)
  then show ?thesis
    by (simp add: assign_modes_def)
qed

lemma distinct_assign_modes: "distinct (map fst (assign_modes f items))"
proof -
  have "distinct (map fst m) \<Longrightarrow> distinct (map fst (foldl (\<lambda>m item. AList.update (zf_path item) (f item) m) m items))" for m
    by (induction items arbitrary: m) (simp_all add: distinct_update)
  from this [of "[]"] show ?thesis
    by (simp add: assign_modes_def)
qed

text \<open>A mode that depends on the path alone is the one that is found under the path.\<close>

lemma map_of_assign_modes:
  assumes "item \<in> set items" "\<And>i. i \<in> set items \<Longrightarrow> zf_path i = zf_path item \<Longrightarrow> f i = f item"
  shows "map_of (assign_modes f items) (zf_path item) = Some (f item)"
proof -
  have "map_of (foldl (\<lambda>m i. AList.update (zf_path i) (f i) m) m is) (zf_path item) =
      (if zf_path item \<in> zf_path ` set is then Some (f item) else map_of m (zf_path item))" if "set is \<subseteq> set items" for m "is"
    using that
  proof (induction "is" arbitrary: m)
    case (Cons i "is")
    have same: "zf_path i = zf_path item \<Longrightarrow> f i = f item"
      using Cons.prems assms(1) by (intro assms(2)) auto
    have "set is \<subseteq> set items"
      using Cons.prems by simp
    note IH = Cons.IH [OF this, of "AList.update (zf_path i) (f i) m"]
    show ?case
      unfolding foldl_Cons IH using same by (auto simp: update_conv')
  qed simp
  from this [of items "[]"] assms(1) show ?thesis
    by (simp add: assign_modes_def)
qed

lemma assigned_constant: "(k, v) \<in> set (assign_modes (\<lambda>_. mode) items) \<Longrightarrow> v = mode"
proof -
  assume k: "(k, v) \<in> set (assign_modes (\<lambda>_. mode) items)"
  then obtain item where item: "item \<in> set items" "k = zf_path item"
    using keys_assign_modes [of "\<lambda>_. mode" items] by force
  have "map_of (assign_modes (\<lambda>_. mode) items) k = Some v"
    using k distinct_assign_modes by (simp add: map_of_is_SomeI)
  then show "v = mode"
    using map_of_assign_modes [OF item(1), of "\<lambda>_. mode"] item(2) by simp
qed

lemma zip_frames [simp]:
  "modes_ok (zi_ed_update fed st) \<longleftrightarrow> modes_ok st" "modes_ok (zi_busy_update fbusy st) \<longleftrightarrow> modes_ok st"
  "modes_ok (zi_uploadError_update ferr st) \<longleftrightarrow> modes_ok st" "modes_ok (zi_uploadStatus_update fstatus st) \<longleftrightarrow> modes_ok st"
  "modes_ok (zi_previewBusy_update fpreview st) \<longleftrightarrow> modes_ok st" "modes_ok (zi_error_update fe st) \<longleftrightarrow> modes_ok st"
  "modes_ok (zi_tasks_update ftasks st) \<longleftrightarrow> modes_ok st" "modes_ok (zi_sent_update fsent st) \<longleftrightarrow> modes_ok st"
  "uploads_ok (zi_ed_update fed st) \<longleftrightarrow> uploads_ok st" "uploads_ok (zi_uploadError_update ferr st) \<longleftrightarrow> uploads_ok st"
  "uploads_ok (zi_uploadStatus_update fstatus st) \<longleftrightarrow> uploads_ok st" "uploads_ok (zi_open_update fopen st) \<longleftrightarrow> uploads_ok st"
  "uploads_ok (zi_previewBusy_update fpreview st) \<longleftrightarrow> uploads_ok st" "uploads_ok (zi_file_update ffile st) \<longleftrightarrow> uploads_ok st"
  "uploads_ok (zi_items_update fitems st) \<longleftrightarrow> uploads_ok st" "uploads_ok (zi_modes_update fmodes st) \<longleftrightarrow> uploads_ok st"
  "uploads_ok (zi_applyAll_update fapply st) \<longleftrightarrow> uploads_ok st" "uploads_ok (zi_allMode_update fall st) \<longleftrightarrow> uploads_ok st"
  "uploads_ok (zi_error_update fe st) \<longleftrightarrow> uploads_ok st" "uploads_ok (zi_sent_update fsent st) \<longleftrightarrow> uploads_ok st"
  by (simp_all add: modes_ok_def uploads_ok_def)

lemma reset_ok [simp]: "modes_ok (resetZipImportState st)" "uploads_ok (resetZipImportState st) \<longleftrightarrow> uploads_ok st"
  by (simp_all add: resetZipImportState_def) (simp add: modes_ok_def)

lemma trimmed_zip_entry: "trimmed (zf_path (zip_entry entry))"
  by (simp add: zip_entry_def)

lemma preview_ok:
  assumes "modes_ok st" "is_zip file"
  shows "modes_ok (onUploadSelect_end file res st)"
proof (cases "detail_answer res")
  case (Inr data)
  have "\<forall>item \<in> set (preview_items data). trimmed (zf_path item) \<and> zf_path item \<noteq> []"
    by (auto simp: preview_items_def trimmed_zip_entry)
  then show ?thesis
    using Inr assms by (simp add: onUploadSelect_end_def preview_failed_def Let_def) (simp add: modes_ok_def keys_assign_modes)
qed (use assms in \<open>simp add: onUploadSelect_end_def preview_failed_def\<close>)

lemma upload_begun_modes [simp]: "modes_ok (uploadZip_begin file mode raw st) \<longleftrightarrow> modes_ok st"
  by (auto simp: uploadZip_begin_def import_failed_def send_zip_def split: option.splits)

lemma confirmed_modes [simp]: "modes_ok (confirmZipImport_begin st) \<longleftrightarrow> modes_ok st"
  by (auto simp: confirmZipImport_begin_def Let_def split: option.splits)

lemma chosen_modes: "modes_ok st \<Longrightarrow> path \<in> zf_path ` set (zi_items st) \<Longrightarrow> modes_ok (setZipImportModeForPath path mode st)"
  by (auto simp: setZipImportModeForPath_def applyZipImportModeToAll_def modes_ok_def keys_assign_modes dom_update
      dest: assigned_constant)

lemma all_modes: "modes_ok st \<Longrightarrow> modes_ok (setZipImportApplyToAll checked st)" "modes_ok st \<Longrightarrow> modes_ok (setZipImportAllModeWithApply mode st)"
  by (auto simp: setZipImportApplyToAll_def setZipImportAllModeWithApply_def applyZipImportModeToAll_def modes_ok_def keys_assign_modes Let_def
      dest: assigned_constant)

lemma zip_answer_modes: "modes_ok st \<Longrightarrow> (\<And>file. t = Inspecting file \<Longrightarrow> is_zip file) \<Longrightarrow> modes_ok (zip_answered t res st)"
  by (cases t) (auto simp: preview_ok uploadZip_end_def imported_listed_def upload_failed_def import_failed_def send_zip_def
      split: sum.splits prod.splits option.splits)

text \<open>What the end of an upload finds: its task is taken out, the mark is still set.\<close>

definition upload_ending :: "zip_state \<Rightarrow> bool" where
  "upload_ending st \<longleftrightarrow> filter imports_zip (zi_tasks st) = [] \<and> zi_busy st \<and> (\<forall>file. Inspecting file \<in> set (zi_tasks st) \<longrightarrow> is_zip file)"

lemma ending_frames [simp]:
  "upload_ending (zi_ed_update fed st) \<longleftrightarrow> upload_ending st" "upload_ending (zi_uploadError_update ferr st) \<longleftrightarrow> upload_ending st"
  "upload_ending (zi_uploadStatus_update fstatus st) \<longleftrightarrow> upload_ending st" "upload_ending (zi_error_update fe st) \<longleftrightarrow> upload_ending st"
  by (simp_all add: upload_ending_def)

lemma uploads_over [simp]: "upload_ending st \<Longrightarrow> uploads_ok (zi_busy_update (\<lambda>_. False) st)"
  by (simp add: upload_ending_def uploads_ok_def)

lemma uploads_started [simp]: "uploads_ok st \<Longrightarrow> \<not> zi_busy st \<Longrightarrow> upload_ending (zi_busy_update (\<lambda>_. True) st)"
  by (simp add: upload_ending_def uploads_ok_def)

lemma uploads_sent [simp]:
  "upload_ending st \<Longrightarrow> uploads_ok (send_zip r (Uploading ws) st)" "upload_ending st \<Longrightarrow> uploads_ok (send_zip r Listing_imported st)"
  "is_zip file \<Longrightarrow> uploads_ok st \<Longrightarrow> uploads_ok (send_zip r (Inspecting file) st)"
  by (auto simp: upload_ending_def uploads_ok_def send_zip_def imports_zip_def)

lemma upload_failed_ok [simp]: "upload_ending st \<Longrightarrow> uploads_ok (upload_failed m st)"
  by (simp add: upload_failed_def import_failed_def)

lemma zip_answer_uploads:
  assumes "if imports_zip t then upload_ending st else uploads_ok st"
  shows "uploads_ok (zip_answered t res st)"
proof (cases t)
  case (Inspecting name)
  then show ?thesis
    using assms by (auto simp: onUploadSelect_end_def preview_failed_def imports_zip_def Let_def split: sum.splits)
next
  case (Uploading ws)
  then show ?thesis
    using assms by (auto simp: uploadZip_end_def imports_zip_def split: sum.splits)
next
  case Listing_imported
  then show ?thesis
    using assms by (auto simp: imported_listed_def imports_zip_def split: prod.splits option.splits)
qed

lemma zip_task_taken:
  assumes "uploads_ok st" "i < length (zi_tasks st)"
  defines "st1 \<equiv> st\<lparr>zi_tasks := drop_nth i (zi_tasks st)\<rparr>"
  shows "if imports_zip (zi_tasks st ! i) then upload_ending st1 else uploads_ok st1"
  using assms(1) length_filter_drop_nth [OF assms(2), of imports_zip] set_drop_nth [of i "zi_tasks st"]
  by (auto simp: st1_def upload_ending_def uploads_ok_def split: if_splits)

lemma upload_begun: "uploads_ok st \<Longrightarrow> uploads_ok (uploadZip_begin file mode raw st)"
  by (auto simp: uploadZip_begin_def import_failed_def split: option.splits)

lemma zip_step_ok: "zip_ok st \<Longrightarrow> zip_ok (zip_step e st)"
proof (cases e)
  case (Choose_file name)
  assume "zip_ok st"
  with Choose_file show ?thesis
    by (auto simp: zip_ok_def onUploadSelect_begin_def preview_failed_def Let_def split: option.splits) (simp add: send_zip_def)
next
  case (Zip_answer i res)
  assume ok: "zip_ok st"
  have "is_zip name" if "i < length (zi_tasks st)" "zi_tasks st ! i = Inspecting name" for name
    using ok that nth_mem [OF that(1)] by (simp add: zip_ok_def uploads_ok_def)
  then show ?thesis
    using ok Zip_answer by (auto simp: zip_ok_def intro!: zip_answer_modes zip_answer_uploads zip_task_taken)
next
  case Confirm_import
  assume "zip_ok st"
  with Confirm_import show ?thesis
    by (auto simp: zip_ok_def confirmZipImport_begin_def upload_begun Let_def split: option.splits)
qed (simp_all add: zip_ok_def all_modes chosen_modes closeZipImportModal_def, (auto simp: setZipImportApplyToAll_def
    setZipImportAllModeWithApply_def setZipImportModeForPath_def applyZipImportModeToAll_def Let_def)?)

interpretation zip: machine zip_step zip_ok
  by unfold_locales (rule zip_step_ok)

lemma zip_runs_ok: "zip_ok (fold zip_step es (initial_zip ed))"
proof (rule zip.every_run_ok)
  show "zip_ok (initial_zip ed)"
    by (simp add: zip_ok_def uploads_ok_def initial_zip_def) (simp add: modes_ok_def)
qed

subsection \<open>The modes that are sent\<close>

definition uploaded_mode :: "zip_mode \<Rightarrow> (string \<times> zip_mode) list \<Rightarrow> string \<Rightarrow> zip_mode" where
  "uploaded_mode defaultMode perFileMode path = (case map_of perFileMode path of Some mode \<Rightarrow> mode | None \<Rightarrow> defaultMode)"

lemma upload_modes_plain:
  assumes "\<forall>path \<in> fst ` set raw. trimmed path \<and> path \<noteq> []"
  shows "map_of (upload_modes raw) = map_of (own_entries raw) \<or> \<not> distinct (map fst raw)"
proof -
  define assign :: "(string \<times> zip_mode) list \<Rightarrow> string \<times> zip_mode \<Rightarrow> (string \<times> zip_mode) list" where
    "assign m e = (case e of (path, mode) \<Rightarrow> if trim path = [] then m else AList.update (trim path) mode m)" for m e
  have "distinct (map fst xs) \<Longrightarrow> map_of (foldl assign m xs) = map_of m ++ map_of xs" if "\<forall>path \<in> fst ` set xs. trimmed path \<and> path \<noteq> []" for m xs
    using that
  proof (induction xs arbitrary: m)
    case (Cons x xs)
    obtain path mode where x: "x = (path, mode)"
      by (cases x)
    have "path \<notin> dom (map_of xs)"
      using Cons.prems(1) by (simp add: x dom_map_of_conv_image_fst)
    then have "map_of (AList.update path mode m) ++ map_of xs = map_of m ++ map_of (x # xs)"
      by (auto simp: x map_add_def update_conv' split: option.splits)
    moreover have "map_of (foldl assign (AList.update path mode m) xs) = map_of (AList.update path mode m) ++ map_of xs"
      by (intro Cons.IH) (use Cons.prems x in auto)
    moreover have "foldl assign m (x # xs) = foldl assign (AList.update path mode m) xs"
      using Cons.prems by (simp add: x assign_def)
    ultimately show ?case
      by (simp only:)
  qed simp
  from this [of "own_entries raw" "[]"] show ?thesis
    using assms distinct_own_keys [of raw] by (auto simp: upload_modes_def own_keys_def assign_def [abs_def])
qed

lemma confirmed:
  assumes "zip_ok st" "dialog_ready st" "zi_workspace st = Some ws" "ws \<noteq> []"
  shows "\<exists>file defaultMode perFileMode. zi_file st = Some file \<and> is_zip file
    \<and> zip_step Confirm_import st = send_zip (Post_upload ws file defaultMode perFileMode) (Uploading ws)
        (st\<lparr>zi_error := None, zi_busy := True, zi_uploadError := None, zi_uploadStatus := None\<rparr>)
    \<and> (\<forall>item \<in> set (zi_items st). uploaded_mode defaultMode perFileMode (zf_path item) = shown_mode st (zf_path item))"
proof -
  have ok: "modes_ok st" "zi_open st" "\<not> zi_busy st"
    using assms(1,2) by (auto simp: zip_ok_def dialog_ready_def importActionBusy_def)
  then obtain name where name: "zi_file st = Some name" "is_zip name"
    by (auto simp: modes_ok_def)
  define chosen where "chosen item = (case map_of (zi_modes st) (zf_path item) of Some mode \<Rightarrow> mode | None \<Rightarrow> preferred_mode item)" for item
  define d where "d = (if zi_applyAll st then zi_allMode st else DEFAULT_ZIP_IMPORT_MODE)"
  define raw where "raw = (if zi_applyAll st then [] else assign_modes chosen (zi_items st))"
  have shown: "map_of (zi_modes st) (zf_path item) = Some (shown_mode st (zf_path item))" if "item \<in> set (zi_items st)" for item
  proof -
    have "zf_path item \<in> fst ` set (zi_modes st)"
      using ok(1) that by (simp add: modes_ok_def)
    then show ?thesis
      using map_of_eq_None_iff [of "zi_modes st" "zf_path item"] by (auto simp: shown_mode_def split: option.splits)
  qed
  have "uploaded_mode d (upload_modes raw) (zf_path item) = shown_mode st (zf_path item)" if item: "item \<in> set (zi_items st)" for item
  proof (cases "zi_applyAll st")
    case True
    have "shown_mode st (zf_path item) \<in> snd ` set (zi_modes st)"
      using map_of_SomeD [OF shown [OF item]] by force
    then have "shown_mode st (zf_path item) = zi_allMode st"
      using ok(1) True by (auto simp: modes_ok_def)
    then show ?thesis
      using True by (simp add: uploaded_mode_def d_def raw_def upload_modes_def own_entries_def)
  next
    case False
    have "fst ` set raw = zf_path ` set (zi_items st)" "distinct (map fst raw)"
      using False by (simp_all add: raw_def keys_assign_modes distinct_assign_modes)
    moreover from this(1) have "\<forall>path \<in> fst ` set raw. trimmed path \<and> path \<noteq> []"
      using ok(1) by (simp add: modes_ok_def)
    ultimately have "map_of (upload_modes raw) = map_of raw"
      using upload_modes_plain [of raw] map_of_own_entries [of raw] by simp
    moreover have chosen: "chosen i = shown_mode st (zf_path i)" if "i \<in> set (zi_items st)" for i
      using shown [OF that] by (simp add: chosen_def)
    moreover have "map_of raw (zf_path item) = Some (chosen item)"
      unfolding raw_def using False item chosen by (simp add: map_of_assign_modes)
    ultimately show ?thesis
      using item by (simp add: uploaded_mode_def)
  qed
  moreover have "zip_step Confirm_import st = send_zip (Post_upload ws name d (upload_modes raw)) (Uploading ws)
      (st\<lparr>zi_error := None, zi_busy := True, zi_uploadError := None, zi_uploadStatus := None\<rparr>)"
    using assms(2-4) ok(3) name
    by (simp add: confirmZipImport_begin_def uploadZip_begin_def no_id_def raw_def d_def chosen_def [abs_def, symmetric] Let_def)
  ultimately show ?thesis
    using name by blast
qed

text \<open>
  C35: in every run, pressing the import button sends one request, to the workspace that is open, with the archive that was
  inspected, and for every listed file the mode it asks for is the one the dialog shows at the file.
\<close>

theorem import_sends_what_is_shown:
  fixes ed es ws
  defines "st \<equiv> fold zip_step es (initial_zip ed)"
  assumes "dialog_ready st" "zi_workspace st = Some ws" "ws \<noteq> []"
  shows "\<exists>file defaultMode perFileMode. zi_file st = Some file \<and> is_zip file
    \<and> zi_sent (zip_step Confirm_import st) = zi_sent st @ [Post_upload ws file defaultMode perFileMode]
    \<and> (\<forall>item \<in> set (zi_items st). uploaded_mode defaultMode perFileMode (zf_path item) = shown_mode st (zf_path item))"
proof -
  have "zip_ok st"
    unfolding st_def by (rule zip_runs_ok)
  from confirmed [OF this assms(2-4)] obtain name d perFileMode where
    "zi_file st = Some name \<and> is_zip name" "zi_sent (zip_step Confirm_import st) = zi_sent st @ [Post_upload ws name d perFileMode]"
    "\<forall>item \<in> set (zi_items st). uploaded_mode d perFileMode (zf_path item) = shown_mode st (zf_path item)"
    by (auto simp: send_zip_def simp del: zip_step.simps)
  then show ?thesis
    by blast
qed

subsection \<open>How an import ends\<close>

text \<open>
  C21: an accepted import shows its counts and lists the files of the workspace it was sent for; then the dialog is closed.
  A refusal is shown, and the dialog stays as it is for another try. A listing that fails is shown as a failed import,
  under the message that the archive was loaded.
\<close>

theorem import_outcome:
  fixes st ws bad m data files gone why
  assumes "zi_tasks st = [Uploading ws]" "detail_answer bad = Inl m" "json_answer gone = Inl why"
  defines "denied \<equiv> zip_step (Zip_answer 0 bad) st"
    and "listing \<equiv> zip_step (Zip_answer 0 (HttpOk (Inr data))) st"
  defines "unlisted \<equiv> zip_step (Zip_answer 0 gone) listing"
    and "finished \<equiv> zip_step (Zip_answer 0 (HttpOk (Inr files))) listing"
  shows "zi_error denied = Some (if trim m \<noteq> [] then ''Import failed: '' @ trim m
        else ''Import failed. For non-YAML/JSON files, choose Override instead of Merge.'')
    \<and> zi_uploadError denied = Some m \<and> \<not> zi_busy denied \<and> zi_tasks denied = [] \<and> zi_open denied = zi_open st
    \<and> zi_modes denied = zi_modes st \<and> zi_items denied = zi_items st
    \<and> zi_sent listing = zi_sent st @ [Get_files ws] \<and> zi_uploadStatus listing = Some (upload_status data)
    \<and> zi_uploadError unlisted = Some why \<and> zi_uploadStatus unlisted = Some (upload_status data) \<and> zi_open unlisted = zi_open st
    \<and> \<not> zi_busy unlisted
    \<and> \<not> zi_open finished \<and> \<not> zi_busy finished \<and> zi_tasks finished = [] \<and> zi_file finished = None
    \<and> ed_files (zi_ed finished) = map file_entry (arr_items (jget files ''files''))"
proof -
  have ok: "detail_answer (HttpOk (Inr data)) = Inr data"
    by (simp add: detail_answer_def detail_error_def json_answer_def)
  have f0: "zi_error denied = Some (if trim m \<noteq> [] then ''Import failed: '' @ trim m
        else ''Import failed. For non-YAML/JSON files, choose Override instead of Merge.'')"
    using assms(1,2) by (simp add: denied_def uploadZip_end_def upload_failed_def import_failed_def)
  have f1: "zi_uploadError denied = Some m \<and> \<not> zi_busy denied \<and> zi_tasks denied = [] \<and> zi_open denied = zi_open st
      \<and> zi_modes denied = zi_modes st \<and> zi_items denied = zi_items st"
    using assms(1,2) by (simp add: denied_def uploadZip_end_def upload_failed_def import_failed_def)
  have listing: "listing = send_zip (Get_files ws) Listing_imported (st\<lparr>zi_tasks := [], zi_uploadStatus := Some (upload_status data)\<rparr>)"
    using assms(1) by (simp add: listing_def uploadZip_end_def ok)
  then have f2: "zi_sent listing = zi_sent st @ [Get_files ws] \<and> zi_uploadStatus listing = Some (upload_status data)"
    by (simp add: send_zip_def)
  have f3: "zi_uploadError unlisted = Some why \<and> zi_uploadStatus unlisted = Some (upload_status data) \<and> zi_open unlisted = zi_open st
      \<and> \<not> zi_busy unlisted"
    using assms(3) by (simp add: unlisted_def listing send_zip_def imported_listed_def refreshFiles_def upload_failed_def import_failed_def)
  obtain ed' where "refreshFiles (HttpOk (Inr files)) (zi_ed st) = (None, ed')" "ed_files ed' = map file_entry (arr_items (jget files ''files''))"
    using refreshed_editor by blast
  then have f4: "\<not> zi_open finished \<and> \<not> zi_busy finished \<and> zi_tasks finished = [] \<and> zi_file finished = None
      \<and> ed_files (zi_ed finished) = map file_entry (arr_items (jget files ''files''))"
    by (simp add: finished_def listing send_zip_def imported_listed_def resetZipImportState_def)
  show ?thesis
    using f0 f1 f2 f3 f4 by blast
qed

subsection \<open>An archive that reaches another workspace\<close>

text \<open>
  The answer to an inspection is taken whatever workspace is open by then: after a change of the workspace the dialog
  opens in the new one, its modes chosen by the files of the old one, and the import goes to the new one.
\<close>

theorem preview_reaches_other_workspace:
  fixes st a b archive data item
  assumes "zip_ok st" "zi_tasks st = []" "\<not> importActionBusy st" "zi_workspace st = Some a" "a \<noteq> []" "b \<noteq> []" "a \<noteq> b" "is_zip archive"
    "item \<in> set (preview_items data)" "\<forall>other \<in> set (preview_items data). zf_path other = zf_path item \<longrightarrow> zf_exists other = zf_exists item"
  defines "st' \<equiv> fold zip_step [Choose_file archive, Change_workspace (Some b), Zip_answer 0 (HttpOk (Inr data)), Confirm_import] st"
  shows "\<exists>defaultMode perFileMode. zi_sent st' = zi_sent st @ [Post_preview a archive, Post_upload b archive defaultMode perFileMode]
    \<and> uploaded_mode defaultMode perFileMode (zf_path item) = (if zf_exists item then Mode_merge else Mode_override)"
proof -
  define st1 where "st1 = fold zip_step [Choose_file archive, Change_workspace (Some b)] st"
  have st1: "st1 = (resetZipImportState (send_zip (Post_preview a archive) (Inspecting archive) st))
      \<lparr>zi_ed := (zi_ed st)\<lparr>ed_workspace := Some b\<rparr>, zi_uploadError := None, zi_uploadStatus := None\<rparr>"
    using assms(3-5,7,8) by (simp add: st1_def onUploadSelect_begin_def importActionBusy_def resetZipImportState_def send_zip_def)
  define st2 where "st2 = zip_step (Zip_answer 0 (HttpOk (Inr data))) st1"
  have shown: "detail_answer (HttpOk (Inr data)) = Inr data"
    by (simp add: detail_answer_def detail_error_def json_answer_def)
  have items: "preview_items data \<noteq> []"
    using assms(9) by auto
  have "st2 = onUploadSelect_end archive (HttpOk (Inr data)) (st1\<lparr>zi_tasks := []\<rparr>)"
    using assms(2) by (simp add: st2_def st1 resetZipImportState_def send_zip_def)
  then have st2_eq: "st2 = st1\<lparr>zi_tasks := [], zi_file := Some archive, zi_items := preview_items data,
      zi_modes := assign_modes preferred_mode (preview_items data), zi_applyAll := False, zi_allMode := DEFAULT_ZIP_IMPORT_MODE,
      zi_open := True, zi_previewBusy := False\<rparr>"
    using items shown by (simp add: onUploadSelect_end_def Let_def)
  have st2: "zi_sent st2 = zi_sent st @ [Post_preview a archive]" "zi_items st2 = preview_items data" "zi_file st2 = Some archive"
    "zi_modes st2 = assign_modes preferred_mode (preview_items data)" "zi_workspace st2 = Some b"
    by (simp_all add: st2_eq) (simp_all add: st1 resetZipImportState_def send_zip_def)
  have ready2: "dialog_ready st2"
    using assms(3) items by (simp add: st2_eq dialog_ready_def importActionBusy_def) (simp add: st1 resetZipImportState_def send_zip_def)
  have ok2: "zip_ok st2"
    unfolding st2_def st1_def fold_simps by (intro zip_step_ok assms(1))
  have "map_of (zi_modes st2) (zf_path item) = Some (preferred_mode item)"
    unfolding st2(4)
  proof (rule map_of_assign_modes [OF assms(9)])
    fix i
    assume "i \<in> set (preview_items data)" "zf_path i = zf_path item"
    with assms(10) have "zf_exists i = zf_exists item"
      by blast
    then show "preferred_mode i = preferred_mode item"
      by (simp only: preferred_mode_def)
  qed
  then have mode: "shown_mode st2 (zf_path item) = (if zf_exists item then Mode_merge else Mode_override)"
    by (simp add: shown_mode_def preferred_mode_def DEFAULT_ZIP_IMPORT_MODE_def)
  obtain f d perFileMode where sent: "zi_file st2 = Some f" "zip_step Confirm_import st2 = send_zip (Post_upload b f d perFileMode) (Uploading b)
        (st2\<lparr>zi_error := None, zi_busy := True, zi_uploadError := None, zi_uploadStatus := None\<rparr>)"
    "\<forall>item \<in> set (zi_items st2). uploaded_mode d perFileMode (zf_path item) = shown_mode st2 (zf_path item)"
    using confirmed [OF ok2 ready2 st2(5) assms(6)] by blast
  have "zi_sent (zip_step Confirm_import st2) = zi_sent st2 @ [Post_upload b archive d perFileMode]"
    using sent(1) st2(3) unfolding sent(2) by (simp add: send_zip_def)
  moreover have "uploaded_mode d perFileMode (zf_path item) = shown_mode st2 (zf_path item)"
    using sent(3) assms(9) by (simp add: st2(2))
  moreover have "st' = zip_step Confirm_import st2"
    by (simp add: st'_def st2_def st1_def del: zip_step.simps)
  ultimately have "zi_sent st' = zi_sent st @ [Post_preview a archive, Post_upload b archive d perFileMode]"
    "uploaded_mode d perFileMode (zf_path item) = (if zf_exists item then Mode_merge else Mode_override)"
    using st2(1) mode by simp_all
  then show ?thesis
    by blast
qed

subsection \<open>Concrete runs\<close>

definition zip_in_w1 :: zip_state where
  "zip_in_w1 = initial_zip (initial_editor (Some ''w1'') None)"

definition one_file :: jsval where
  "one_file = JObj [(''files'', JArr [JObj [(''path'', JStr ''a.yml''), (''exists'', JBool True)]])]"

theorem import_sends_what_is_shown_witness:
  "let st = fold zip_step [Choose_file ''x.zip'', Zip_answer 0 (HttpOk (Inr one_file))] (initial_zip (initial_editor (Some ''w1'') None))
   in \<exists>file defaultMode perFileMode. zi_file st = Some file \<and> is_zip file
    \<and> zi_sent (zip_step Confirm_import st) = zi_sent st @ [Post_upload ''w1'' file defaultMode perFileMode]"
proof -
  have ready: "dialog_ready (fold zip_step [Choose_file ''x.zip'', Zip_answer 0 (HttpOk (Inr one_file))] (initial_zip (initial_editor (Some ''w1'') None)))"
    "zi_workspace (fold zip_step [Choose_file ''x.zip'', Zip_answer 0 (HttpOk (Inr one_file))] (initial_zip (initial_editor (Some ''w1'') None))) = Some ''w1''"
    by code_simp+
  show ?thesis
    using import_sends_what_is_shown [OF ready] unfolding Let_def by blast
qed

theorem import_outcome_witness:
  "zi_uploadError (zip_step (Zip_answer 0 (NetError ''gone'')) (zip_in_w1\<lparr>zi_tasks := [Uploading ''w1''], zi_busy := True\<rparr>)) = Some ''gone''"
proof -
  have facts: "zi_tasks (zip_in_w1\<lparr>zi_tasks := [Uploading ''w1''], zi_busy := True\<rparr>) = [Uploading ''w1'']"
    "detail_answer (NetError ''gone'') = Inl ''gone''" "json_answer (NetError ''gone'') = Inl ''gone''"
    by (simp_all add: detail_answer_def detail_error_def json_answer_def)
  show ?thesis
    using import_outcome [OF facts] by blast
qed

theorem preview_reaches_other_workspace_witness:
  "\<exists>defaultMode perFileMode. zi_sent (fold zip_step [Choose_file ''x.zip'', Change_workspace (Some ''w2''), Zip_answer 0 (HttpOk (Inr one_file)),
      Confirm_import] zip_in_w1) = zi_sent zip_in_w1 @ [Post_preview ''w1'' ''x.zip'', Post_upload ''w2'' ''x.zip'' defaultMode perFileMode]"
proof -
  have ok: "zip_ok zip_in_w1"
    using zip_runs_ok [of "[]"] by (simp add: zip_in_w1_def)
  have facts: "zi_tasks zip_in_w1 = []" "\<not> importActionBusy zip_in_w1" "zi_workspace zip_in_w1 = Some ''w1''" "''w1'' \<noteq> []" "''w2'' \<noteq> []"
    "''w1'' \<noteq> ''w2''" "is_zip ''x.zip''"
    by code_simp+
  have items: "preview_items one_file = [\<lparr>zf_path = ''a.yml'', zf_exists = True\<rparr>]"
    by code_simp
  show ?thesis
    using preview_reaches_other_workspace [OF ok facts, of "\<lparr>zf_path = ''a.yml'', zf_exists = True\<rparr>" one_file] unfolding items
    by (auto simp del: zip_step.simps fold_simps)
qed

end
