(* ===== verification/ServerList.thy ===== *)
theory ServerList
  imports RoleFiltering ServerSelection
begin

text \<open>
  The list of servers (\<open>deployment/CredentialsForm.tsx\<close>, \<open>deployment-credentials/form/constants.ts\<close>,
  \<open>useCredentialViewMenus.tsx\<close>, the lanes of \<open>server-collection/View.utils.ts\<close>): search, view modes, rows, pages
  and lanes. The measures of the page (in pixels, as integers) are part of the state; the components set them
  when the browser reports a size. Where the menus open on the screen is not modelled.
\<close>

subsection \<open>Views\<close>

datatype server_view = Detail_view | List_view | Mini_view | Matrix_view | Row_lanes | Column_lanes

fun server_min_width :: "server_view \<Rightarrow> int" where
  "server_min_width Detail_view = 320"
| "server_min_width List_view = 600"
| "server_min_width Mini_view = 220"
| "server_min_width Matrix_view = 960"
| "server_min_width Row_lanes = 700"
| "server_min_width Column_lanes = 620"

fun server_min_height :: "server_view \<Rightarrow> int" where
  "server_min_height Detail_view = 240"
| "server_min_height List_view = 84"
| "server_min_height Mini_view = 160"
| "server_min_height Matrix_view = 84"
| "server_min_height Row_lanes = 188"
| "server_min_height Column_lanes = 220"

definition server_view_names :: "(string \<times> server_view) list" where
  "server_view_names =
     [(''detail'', Detail_view), (''list'', List_view), (''mini'', Mini_view), (''matrix'', Matrix_view),
      (''row'', Row_lanes), (''column'', Column_lanes)]"

definition single_column :: "server_view \<Rightarrow> bool" where
  "single_column v \<longleftrightarrow> v \<in> {List_view, Matrix_view, Row_lanes, Column_lanes}"

definition list_like :: "server_view \<Rightarrow> bool" where
  "list_like v \<longleftrightarrow> v \<in> {List_view, Matrix_view}"

definition lane_view :: "server_view \<Rightarrow> bool" where
  "lane_view v \<longleftrightarrow> v \<in> {Row_lanes, Column_lanes}"

definition SERVER_ROW_OPTIONS :: "int list" where
  "SERVER_ROW_OPTIONS = [1, 2, 3, 5, 10, 20, 100, 500, 1000]"

subsection \<open>State\<close>

record server_list =
  sl_query :: string
  sl_queryDraft :: string
  sl_viewMode :: server_view
  sl_rowsOverride :: "int option"
  sl_page :: int
  sl_requestedDetailAlias :: "string option"
  sl_gridWidth :: int
  sl_gridHeight :: int
  sl_wrapHeight :: int
  sl_headHeight :: int
  sl_rowHeight :: int
  sl_cardRowHeight :: int
  sl_filtersOpen :: bool
  sl_viewMenuOpen :: bool

text \<open>The state a list starts in, and what the address of the page says about it.\<close>

definition initial_list :: server_list where
  "initial_list =
     \<lparr>sl_query = [], sl_queryDraft = [], sl_viewMode = List_view, sl_rowsOverride = None, sl_page = 1,
      sl_requestedDetailAlias = None, sl_gridWidth = 0, sl_gridHeight = 0, sl_wrapHeight = 0,
      sl_headHeight = 0, sl_rowHeight = 0, sl_cardRowHeight = 0, sl_filtersOpen = False,
      sl_viewMenuOpen = False\<rparr>"

definition read_view :: "string \<Rightarrow> server_list \<Rightarrow> server_list" where
  "read_view param l =
     (let rawView = to_lower (trim param);
          normalizedView = (if rawView = ''selection'' then ''detail'' else rawView)
      in case map_of server_view_names normalizedView of
           Some v \<Rightarrow> l\<lparr>sl_viewMode := v\<rparr>
         | None \<Rightarrow> l)"

definition read_rows :: "string \<Rightarrow> server_list \<Rightarrow> server_list" where
  "read_rows param l =
     (let rowsParam = to_lower (trim param); parsed = str_num rowsParam
      in if rowsParam = [] then l
         else if rowsParam = ''auto'' then l\<lparr>sl_rowsOverride := None\<rparr>
         else if num_gt_int parsed 0 then
           (case num_floor parsed of Dec m _ \<Rightarrow> l\<lparr>sl_rowsOverride := Some m\<rparr> | _ \<Rightarrow> l)
         else l)"

subsection \<open>Search\<close>

definition server_haystack :: "ServerState \<Rightarrow> string" where
  "server_haystack server =
     join '' '' (map to_lower [sv_alias server, sv_description server, sv_host server, sv_user server,
       sv_port server, sv_color server, sv_logoEmoji server, sv_authMethod server])"

definition filteredServers :: "string \<Rightarrow> ServerState list \<Rightarrow> ServerState list" where
  "filteredServers query servers =
     (let normalizedQuery = to_lower (trim query)
      in if normalizedQuery = [] then servers
         else filter (\<lambda>server. str_includes (server_haystack server) normalizedQuery) servers)"

subsection \<open>Rows and pages\<close>

definition server_grid_gap :: int where
  "server_grid_gap = 16"

definition server_lane_gap :: int where
  "server_lane_gap = 14"

definition server_columns :: "server_list \<Rightarrow> int" where
  "server_columns l =
     (if single_column (sl_viewMode l) then 1
      else max 1 ((sl_gridWidth l + server_grid_gap) div (server_min_width (sl_viewMode l) + server_grid_gap)))"

definition nonzero :: "int \<Rightarrow> int \<Rightarrow> int" where
  "nonzero n d = (if n = 0 then d else n)"

definition computed_server_rows :: "server_list \<Rightarrow> int" where
  "computed_server_rows l =
     (let mode = sl_viewMode l; minHeight = server_min_height mode; safetyPx = 2 in
      if list_like mode then
        let wrapHeight = nonzero (sl_wrapHeight l) (max 0 (sl_gridHeight l));
            headHeight = nonzero (sl_headHeight l) 44;
            rowHeight = nonzero (sl_rowHeight l) minHeight;
            bodyHeight = max 0 (wrapHeight - headHeight)
        in max 1 (max 0 (bodyHeight - safetyPx) div max 1 rowHeight)
      else if lane_view mode then
        let laneMinSize = (if mode = Row_lanes then 188 else 220);
            rowAxisSize = (if mode = Column_lanes then sl_gridWidth l else sl_gridHeight l)
        in max 1 ((max 0 rowAxisSize + server_lane_gap) div (laneMinSize + server_lane_gap))
      else
        let measuredCardHeight = nonzero (sl_cardRowHeight l) minHeight;
            contentHeightBuffer = (if mode = Mini_view then 24 else 8)
        in max 1 ((max 0 (sl_gridHeight l - contentHeightBuffer - safetyPx) + server_grid_gap)
                  div (measuredCardHeight + server_grid_gap)))"

definition server_rows :: "server_list \<Rightarrow> int" where
  "server_rows l = max 1 (case sl_rowsOverride l of Some n \<Rightarrow> n | None \<Rightarrow> computed_server_rows l)"

definition server_lane_size :: "server_list \<Rightarrow> int" where
  "server_lane_size l =
     (let laneCount = max 1 (server_rows l);
          laneGapTotal = max 0 (server_lane_gap * (laneCount - 1))
      in if sl_viewMode l = Row_lanes then max 188 (max 0 (sl_gridHeight l - laneGapTotal) div laneCount)
         else max 220 (max 0 (sl_gridWidth l - laneGapTotal) div laneCount))"

definition server_page_size :: "server_list \<Rightarrow> int" where
  "server_page_size l = max 1 (server_columns l * server_rows l)"

definition server_row_options :: "server_list \<Rightarrow> int \<Rightarrow> int list" where
  "server_row_options l found =
     (let maxRows = max 1 (ceil_div found (max 1 (server_columns l)));
          next = filter (\<lambda>value. value \<le> maxRows) SERVER_ROW_OPTIONS
      in js_sort (\<lambda>a b. a - b)
           (case sl_rowsOverride l of
              Some n \<Rightarrow> if n \<noteq> 0 \<and> n \<notin> set next then next @ [n] else next
            | None \<Rightarrow> next))"

definition server_page_count :: "server_list \<Rightarrow> int \<Rightarrow> int" where
  "server_page_count l found = max 1 (ceil_div found (server_page_size l))"

definition server_current_page :: "server_list \<Rightarrow> int \<Rightarrow> int" where
  "server_current_page l found = min (sl_page l) (server_page_count l found)"

definition paginatedServers :: "server_list \<Rightarrow> ServerState list \<Rightarrow> ServerState list" where
  "paginatedServers l servers =
     (let found = filteredServers (sl_query l) servers;
          start = (server_current_page l (int (length found)) - 1) * server_page_size l
      in slice start (start + server_page_size l) found)"

subsection \<open>Lanes\<close>

definition buildMotionLanes :: "ServerState list \<Rightarrow> int \<Rightarrow> ServerState list list" where
  "buildMotionLanes servers laneCount =
     (let lanes = dealt servers (safe_lane_count laneCount)
      in if servers = [] then lanes
         else map (\<lambda>(laneIndex, lane). if lane = [] then [servers ! (laneIndex mod length servers)] else lane)
                (enumerate 0 lanes))"

subsection \<open>Operations\<close>

definition applySearch :: "server_list \<Rightarrow> server_list" where
  "applySearch l = l\<lparr>sl_query := trim (sl_queryDraft l)\<rparr>"

definition handleQueryDraftChange :: "string \<Rightarrow> server_list \<Rightarrow> server_list" where
  "handleQueryDraftChange v l = l\<lparr>sl_queryDraft := v, sl_query := v\<rparr>"

text \<open>The choice of rows: \<open>auto\<close> or one of the numbers offered.\<close>

definition select_rows :: "string \<Rightarrow> server_list \<Rightarrow> server_list" where
  "select_rows v l =
     (if v = ''auto'' then l\<lparr>sl_rowsOverride := None\<rparr>
      else l\<lparr>sl_rowsOverride := (case num_floor (str_num v) of Dec m _ \<Rightarrow> Some m | _ \<Rightarrow> None)\<rparr>)"

definition toggleServerFilters :: "server_list \<Rightarrow> server_list" where
  "toggleServerFilters l = l\<lparr>sl_filtersOpen := \<not> sl_filtersOpen l\<rparr>"

definition toggleViewMenu :: "server_list \<Rightarrow> server_list" where
  "toggleViewMenu l = l\<lparr>sl_viewMenuOpen := \<not> sl_viewMenuOpen l\<rparr>"

definition selectServerView :: "server_view \<Rightarrow> server_list \<Rightarrow> server_list" where
  "selectServerView mode l = l\<lparr>sl_viewMode := mode, sl_viewMenuOpen := False\<rparr>"

definition prev_server_page :: "server_list \<Rightarrow> server_list" where
  "prev_server_page l = l\<lparr>sl_page := max 1 (sl_page l - 1)\<rparr>"

definition next_server_page :: "int \<Rightarrow> server_list \<Rightarrow> server_list" where
  "next_server_page found l = l\<lparr>sl_page := min (server_page_count l found) (sl_page l + 1)\<rparr>"

text \<open>The effects: back to the first page when the query or the layout changed, never beyond the last page.\<close>

definition reset_server_page :: "server_list \<Rightarrow> server_list" where
  "reset_server_page l = l\<lparr>sl_page := 1\<rparr>"

definition clamp_server_page :: "ServerState list \<Rightarrow> server_list \<Rightarrow> server_list" where
  "clamp_server_page servers l =
     (let count = server_page_count l (int (length (filteredServers (sl_query l) servers)))
      in if count < sl_page l then l\<lparr>sl_page := count\<rparr> else l)"

text \<open>The request of another panel to open the form of a server, and that of the list itself.\<close>

definition open_credentials_alias ::
  "server_list \<Rightarrow> selection_state \<Rightarrow> server_list \<times> selection_state" where
  "open_credentials_alias l sel =
     (case ss_openCredentialsAlias sel of
        None \<Rightarrow> (l, sel)
      | Some wanted \<Rightarrow>
          if wanted = [] then (l, sel)
          else if wanted \<notin> set (aliases sel) then (l, sel\<lparr>ss_openCredentialsAlias := None\<rparr>)
          else (l\<lparr>sl_query := [], sl_queryDraft := [], sl_page := 1, sl_requestedDetailAlias := Some wanted\<rparr>,
                sel\<lparr>ss_activeAlias := wanted, ss_openCredentialsAlias := None\<rparr>))"

definition openDetailViewForAlias ::
  "string \<Rightarrow> server_list \<Rightarrow> selection_state \<Rightarrow> server_list \<times> selection_state" where
  "openDetailViewForAlias alias l sel =
     (l\<lparr>sl_requestedDetailAlias := (if alias = [] then None else Some alias)\<rparr>,
      if alias \<noteq> [] \<and> ss_activeAlias sel \<noteq> alias then sel\<lparr>ss_activeAlias := alias\<rparr> else sel)"

subsection \<open>Pages\<close>

lemma server_page_size_pos: "0 < server_page_size l"
  by (simp add: server_page_size_def)

lemma layout_of_page [simp]:
  "server_columns (l\<lparr>sl_page := p\<rparr>) = server_columns l"
  "computed_server_rows (l\<lparr>sl_page := p\<rparr>) = computed_server_rows l"
  by (cases l; simp only: server_columns_def computed_server_rows_def server_list.simps)+

lemma size_of_page [simp]: "server_page_size (l\<lparr>sl_page := p\<rparr>) = server_page_size l"
  unfolding server_page_size_def server_rows_def by (cases "sl_rowsOverride l") simp_all

lemma count_of_page [simp]: "server_page_count (l\<lparr>sl_page := p\<rparr>) n = server_page_count l n"
  unfolding server_page_count_def by simp

text \<open>Pages of \<open>size\<close> items each, numbered from 1, hold every item once and in order.\<close>

lemma numbered_pages:
  fixes m :: int
  assumes "0 < m"
  shows "concat (map (\<lambda>p. slice ((p - 1) * m) ((p - 1) * m + m) items)
           [1..max 1 (ceil_div (int (length items)) m)]) = items"
proof -
  let ?s = "nat m" and ?k = "nat (max 1 (ceil_div (int (length items)) m))"
  have k: "int ?k = max 1 (ceil_div (int (length items)) m)"
    by simp
  have "int (length items) \<le> int ?k * m"
    unfolding k using ceil_div_mult [OF assms, of "int (length items)"] assms
    by (smt (verit) mult_right_mono)
  moreover have "int ?k * m = int (?k * ?s)"
    using assms by simp
  ultimately have all: "length items \<le> ?k * ?s"
    by linarith
  have "slice (int k * m) (int k * m + m) items = take ?s (drop (k * ?s) items)" for k
    using assms by (simp add: slice_nat nat_mult_distrib nat_add_distrib)
  then have "map (\<lambda>p. slice ((p - 1) * m) ((p - 1) * m + m) items) [1..int ?k]
      = map (\<lambda>k. take ?s (drop (k * ?s) items)) [0..<?k]"
    unfolding upto_from_1 by simp
  then have "concat (map (\<lambda>p. slice ((p - 1) * m) ((p - 1) * m + m) items) [1..int ?k]) = items"
    using all by (simp only: concat_chunks) simp
  then show ?thesis
    by (simp only: k)
qed

lemma server_pages:
  "concat (map (\<lambda>p. paginatedServers (l\<lparr>sl_page := p\<rparr>) servers)
     [1..server_page_count l (int (length (filteredServers (sl_query l) servers)))])
   = filteredServers (sl_query l) servers"
proof -
  let ?found = "filteredServers (sl_query l) servers"
  let ?page = "\<lambda>p. slice ((p - 1) * server_page_size l) ((p - 1) * server_page_size l + server_page_size l) ?found"
  have "map (\<lambda>p. paginatedServers (l\<lparr>sl_page := p\<rparr>) servers) [1..server_page_count l (int (length ?found))]
      = map ?page [1..server_page_count l (int (length ?found))]"
    by (intro map_cong refl) (auto simp: paginatedServers_def Let_def server_current_page_def)
  then show ?thesis
    using numbered_pages [OF server_page_size_pos [of l], of ?found]
    unfolding server_page_count_def by (simp only:)
qed

lemma paginated_subset: "set (paginatedServers l servers) \<subseteq> set servers"
proof -
  have "set (slice a b xs) \<subseteq> set xs" for a b and xs :: "ServerState list"
    unfolding slice_def Let_def by (meson order_trans set_drop_subset set_take_subset)
  then have "set (paginatedServers l servers) \<subseteq> set (filteredServers (sl_query l) servers)"
    by (simp add: paginatedServers_def Let_def)
  then show ?thesis
    by (auto simp: filteredServers_def Let_def split: if_splits)
qed

text \<open>
  Searching a name shows every server whose alias contains it. Whatever the view and its measures, every server
  with that text in its alias is on one of the pages, the pages hold each server found once and in the order
  of the list, and none holds more than the size of a page.
\<close>

theorem search_finds_alias:
  "let found = filteredServers (sl_query l) servers;
       pages = map (\<lambda>p. paginatedServers (l\<lparr>sl_page := p\<rparr>) servers) [1..server_page_count l (int (length found))]
   in concat pages = found
      \<and> set (filter (\<lambda>s. str_includes (to_lower (sv_alias s)) (to_lower (trim (sl_query l)))) servers)
           \<subseteq> set (concat pages)
      \<and> int (length (paginatedServers l servers)) \<le> server_page_size l"
proof -
  have hay: "str_includes (server_haystack server) q" if "str_includes (to_lower (sv_alias server)) q" for server q
  proof -
    from that obtain u v where "to_lower (sv_alias server) = u @ q @ v"
      by (auto simp: str_includes_iff)
    moreover obtain w where "server_haystack server = to_lower (sv_alias server) @ w"
      by (simp add: server_haystack_def)
    ultimately show ?thesis
      by (auto simp: str_includes_iff)
  qed
  have "set (filter (\<lambda>s. str_includes (to_lower (sv_alias s)) (to_lower (trim (sl_query l)))) servers)
      \<subseteq> set (filteredServers (sl_query l) servers)"
    using hay by (auto simp: filteredServers_def Let_def)
  moreover have "int (length (paginatedServers l servers)) \<le> server_page_size l"
    using length_slice [OF server_page_size_pos] by (simp add: paginatedServers_def Let_def)
  ultimately show ?thesis
    unfolding Let_def server_pages by simp
qed

end
