(* ===== verification/RolePlans.thy ===== *)
theory RolePlans
  imports ServerInvariant
begin

text \<open>
  Enabling a role with a plan (\<open>selectRolePlanForAlias\<close> of
  \<open>deployment-workspace/useWorkspaceRoleAppConfig.ts\<close>, \<open>lib/role_app_config_plan.js\<close>): the change
  of the selection, and the change of the role's configuration file that follows it. The YAML
  library is the parameters \<open>yaml\<close> and \<open>to_yaml\<close>; the file written is the last value computed.
\<close>

definition resolvePersistedRolePlanId :: "string option \<Rightarrow> string option \<Rightarrow> string option" where
  "resolvePersistedRolePlanId selectedPlanId defaultPlanId =
     (let selected = trim (opt_else selectedPlanId []) in
      if selected = [] then None
      else
        let d = trim (opt_else defaultPlanId []);
            fallback = (if d \<noteq> [] then d else ''community'')
        in if selected = fallback then None else Some selected)"

definition normalized_plan :: "string option \<Rightarrow> string option" where
  "normalized_plan planId =
     (case planId of None \<Rightarrow> None | Some p \<Rightarrow> if p = [] then None else Some (trim p))"

definition plan_given :: "string option \<Rightarrow> bool" where
  "plan_given plan \<longleftrightarrow> plan \<noteq> None \<and> plan \<noteq> Some []"

definition selectRolePlanForAlias ::
  "(string \<Rightarrow> string) \<Rightarrow> string \<Rightarrow> string \<Rightarrow> string option \<Rightarrow> selection_state \<Rightarrow> selection_state" where
  "selectRolePlanForAlias defaultPlan alias rid planId st =
     (let targetAlias = trim alias; targetRole = trim rid in
      if targetAlias = [] \<or> targetRole = [] then st
      else
        let normalizedPlan = normalized_plan planId;
            defaultPlanId = defaultPlan targetRole;
            resolvedPlan = (if plan_given normalizedPlan then the normalizedPlan else defaultPlanId);
            set0 = selected_for st targetAlias
        in st\<lparr>ss_selected := AList.update targetAlias
                 (if plan_given normalizedPlan then set_add targetRole set0 else set_del targetRole set0)
                 (ss_selected st),
              ss_plans := AList.update targetAlias
                 (AList.update targetRole (if plan_given normalizedPlan then Some resolvedPlan else None)
                    (fields_of (ss_plans st) targetAlias)) (ss_plans st),
              ss_touched := True\<rparr>)"

text \<open>The request that loads and stores the configuration of a role.\<close>

definition roleAppConfigUrl ::
  "(string \<Rightarrow> string) \<Rightarrow> string \<Rightarrow> string option \<Rightarrow> string \<Rightarrow> string \<Rightarrow> string \<Rightarrow> string option \<Rightarrow> string + string" where
  "roleAppConfigUrl encode baseUrl workspaceId activeAlias roleId suffix aliasOverride =
     (if workspaceId = None \<or> workspaceId = Some [] then Inl ''Workspace is not ready yet.''
      else
        let rid = encode (trim roleId);
            alias = trim (if opt_else aliasOverride [] \<noteq> [] then opt_else aliasOverride [] else activeAlias);
            query = (if alias \<noteq> [] then ''?alias='' @ encode alias else [])
        in Inr (baseUrl @ ''/api/workspaces/'' @ the workspaceId @ ''/roles/'' @ rid @ ''/app-config''
             @ suffix @ query))"

definition persisted_config ::
  "(string \<Rightarrow> jsval option) \<Rightarrow> string option \<Rightarrow> jsval \<Rightarrow> jsval" where
  "persisted_config yaml persistedPlanId content =
     (let data = coalesce (case yaml (str_nn content) of Some v \<Rightarrow> v | None \<Rightarrow> JObj []) (JObj []);
          parsed = obj_fields (if is_obj data then data else JObj [])
      in JObj (case persistedPlanId of
                 Some p \<Rightarrow> AList.update ''plan_id'' (JStr p) parsed
               | None \<Rightarrow> AList.delete ''plan_id'' parsed))"

text \<open>What is written for a role after the answer of the load: nothing when the load failed.\<close>

definition persist_role_plan ::
  "(string \<Rightarrow> jsval option) \<Rightarrow> (string \<Rightarrow> string) \<Rightarrow> string \<Rightarrow> string option \<Rightarrow> jsval option \<Rightarrow> jsval option" where
  "persist_role_plan yaml defaultPlan rid planId loaded =
     (case loaded of
        None \<Rightarrow> None
      | Some answer \<Rightarrow>
          Some (persisted_config yaml
                  (resolvePersistedRolePlanId (normalized_plan planId) (Some (defaultPlan (trim rid))))
                  (jget answer ''content'')))"

lemma sel_ok_select_plan [simp]:
  "sel_ok st \<Longrightarrow> sel_ok (selectRolePlanForAlias dp alias rid plan st)"
  by (simp add: selectRolePlanForAlias_def sel_ok_def aliases_def Let_def)

lemma selected_for_select_plan:
  assumes "trim alias = alias" "alias \<noteq> []" "trim rid = rid" "rid \<noteq> []"
  shows "selected_for (selectRolePlanForAlias dp alias rid plan st) a =
    (if a = alias then
       (if plan_given (normalized_plan plan) then set_add rid (selected_for st alias)
        else set_del rid (selected_for st alias))
     else selected_for st a)"
  using assms by (simp add: selectRolePlanForAlias_def Let_def selected_for_def opt_list_def)

text \<open>
  Choosing a plan and the stored configuration agree. The role is selected afterwards exactly
  when a plan was chosen, with that plan; the file then names the plan only if it differs from
  the role's default plan, so that reading no plan from the file means the default.
\<close>

theorem selectRolePlanForAlias_consistent:
  assumes "trim alias = alias" "alias \<noteq> []" "trim rid = rid" "rid \<noteq> []"
    and "trim p = p" "p \<noteq> []" "trim (dp rid) = dp rid" "dp rid \<noteq> []"
  shows "let chosen = selectRolePlanForAlias dp alias rid (Some p) st;
         dropped = selectRolePlanForAlias dp alias rid None st;
         file = persist_role_plan yaml dp rid (Some p) (Some answer)
    in rid \<in> set (selected_for chosen alias)
      \<and> map_of (fields_of (ss_plans chosen) alias) rid = Some (Some p)
      \<and> rid \<notin> set (selected_for dropped alias)
      \<and> map_of (fields_of (ss_plans dropped) alias) rid = Some None
      \<and> coalesce (jget (the file) ''plan_id'') (JStr (dp rid)) = JStr p"
  using assms
  by (auto simp: selected_for_def opt_list_def selectRolePlanForAlias_def normalized_plan_def plan_given_def
      Let_def fields_of_def persist_role_plan_def persisted_config_def resolvePersistedRolePlanId_def
      opt_else_def)

theorem selectRolePlanForAlias_consistent_witness:
  "let chosen = selectRolePlanForAlias (\<lambda>_. ''community'') ''web'' ''blog'' (Some ''pro'') demo_selection;
       dropped = selectRolePlanForAlias (\<lambda>_. ''community'') ''web'' ''blog'' None demo_selection;
       file = persist_role_plan (\<lambda>_. Some (JObj [(''x'', JNull)])) (\<lambda>_. ''community'') ''blog'' (Some ''pro'')
         (Some (JObj [(''content'', JStr ''x:'')]))
    in ''blog'' \<in> set (selected_for chosen ''web'')
      \<and> map_of (fields_of (ss_plans chosen) ''web'') ''blog'' = Some (Some ''pro'')
      \<and> ''blog'' \<notin> set (selected_for dropped ''web'')
      \<and> map_of (fields_of (ss_plans dropped) ''web'') ''blog'' = Some None
      \<and> coalesce (jget (the file) ''plan_id'') (JStr ''community'') = JStr ''pro''"
  by (rule selectRolePlanForAlias_consistent; code_simp)

end
