(* ===== verification/RoleSelection.thy ===== *)
theory RoleSelection
  imports RolePlans DashboardFilters
begin

text \<open>
  Selecting roles, plans and bundles in the role dashboard
  (\<open>role-dashboard/useRoleDashboardSelection.ts\<close>). The properties of the component are one
  record; the callbacks it calls are the constructors of a type, and a handler returns the calls
  it makes, in order. \<open>da_hasPlanFor\<close> and \<open>da_hasToggleFor\<close> say whether the optional callbacks were
  passed; the callback that creates a server is a parameter.
\<close>

subsection \<open>Properties and calls\<close>

record dashboard =
  da_roles :: "Role list"
  da_bundles :: "Bundle list"
  da_activeAlias :: string
  da_serverAliases :: "string list"
  da_colorByAlias :: "(string \<times> string) list"
  da_selected :: "string list"
  da_selectedByAlias :: "(string \<times> string list) list option"
  da_selectedPlanByAlias :: "(string \<times> (string \<times> string option) list) list"
  da_hasToggleFor :: bool
  da_hasPlanFor :: bool
  da_activeDetails :: "(Role \<times> string) option"

datatype dash_call =
  Toggle_selected string
| Toggle_for_alias string string
| Select_plan_for_alias string string "string option"
| Create_server string
| Merge_prompt Bundle string

subsection \<open>Derived lookups\<close>

definition matrixAliases :: "dashboard \<Rightarrow> string list" where
  "matrixAliases d =
     (let deduped = to_set (trimmed_tokens (da_serverAliases d)); fallback = trim (da_activeAlias d)
      in if deduped \<noteq> [] then deduped else if fallback \<noteq> [] then [fallback] else [])"

definition matrixColumnStyleByAlias :: "dashboard \<Rightarrow> (string \<times> (string \<times> string) list) list" where
  "matrixColumnStyleByAlias d =
     foldl (\<lambda>out alias.
       let color = trim (opt_else (map_of (da_colorByAlias d) alias) []);
           css = (\<lambda>name v. case v of None \<Rightarrow> [] | Some s \<Rightarrow> [(name, s)]);
           style = css ''--matrix-device-col-bg'' (hexToRgba color (Dec 14 2))
             @ css ''--matrix-device-col-head-bg'' (hexToRgba color (Dec 24 2))
             @ css ''--matrix-device-col-border'' (hexToRgba color (Dec 58 2))
       in if style = [] then out else AList.update alias style out) [] (matrixAliases d)"

definition selectedLookup :: "dashboard \<Rightarrow> (string \<times> string list) list" where
  "selectedLookup d =
     (let out = (case da_selectedByAlias d of
            None \<Rightarrow> []
          | Some m \<Rightarrow> foldl (\<lambda>out (alias, roleIds).
              let key = trim alias in
              if key = [] then out else AList.update key (to_set (trimmed_tokens roleIds)) out)
              [] (own_entries m));
          active = trim (da_activeAlias d)
      in if active \<noteq> [] \<and> map_of out active = None then AList.update active (to_set (da_selected d)) out
         else out)"

definition lookup_for :: "dashboard \<Rightarrow> string \<Rightarrow> string list" where
  "lookup_for d alias = opt_list (map_of (selectedLookup d) alias)"

definition roleServerCountByRole :: "dashboard \<Rightarrow> (string \<times> nat) list" where
  "roleServerCountByRole d =
     foldl (\<lambda>counts role.
       let roleId = trim (ro_id role) in
       if roleId = [] then counts
       else AList.update roleId
              (length (filter (\<lambda>alias. roleId \<in> set (lookup_for d alias)) (matrixAliases d))) counts)
       [] (da_roles d)"

definition roleById :: "dashboard \<Rightarrow> (string \<times> Role) list" where
  "roleById d =
     foldl (\<lambda>out role.
       let roleId = trim (ro_id role) in if roleId = [] then out else AList.update roleId role out)
       [] (da_roles d)"

subsection \<open>Plans\<close>

definition offering_cmp ::
  "(string \<Rightarrow> string \<Rightarrow> int) \<Rightarrow> string \<Rightarrow> jsval \<Rightarrow> jsval \<Rightarrow> int" where
  "offering_cmp lc defaultOfferingId a b =
     (let aId = id_token (jget a ''id''); bId = id_token (jget b ''id'') in
      if aId = defaultOfferingId \<and> bId \<noteq> defaultOfferingId then -1
      else if bId = defaultOfferingId \<and> aId \<noteq> defaultOfferingId then 1
      else lc aId bId)"

text \<open>The plans of a role as pairs of id and label.\<close>

definition plan_options :: "(string \<Rightarrow> string \<Rightarrow> int) \<Rightarrow> Role \<Rightarrow> (string \<times> string) list" where
  "plan_options lc role =
     (let pricing = ro_pricing role;
          offerings = arr_items (jget pricing ''offerings'');
          defaultOfferingId =
            id_token (js_or (jget pricing ''default_offering_id'') (jget pricing ''default_offering''));
          orderedOfferings = js_sort (offering_cmp lc defaultOfferingId) offerings;
          plans = concat (map (\<lambda>offering. arr_items (jget offering ''plans'')) orderedOfferings);
          normalized = filter (\<lambda>(pid, label). pid \<noteq> [] \<and> label \<noteq> [])
            (map (\<lambda>plan. (id_token (jget plan ''id''),
                          id_token (js_or (jget plan ''label'') (jget plan ''id'')))) plans);
          deduped = foldl (\<lambda>m (pid, label). AList.update pid label m) [] normalized
      in if \<exists>p \<in> set deduped. fst p = ''community'' then deduped
         else (''community'', ''Community'') # deduped)"

definition rolePlanOptions ::
  "(string \<Rightarrow> string \<Rightarrow> int) \<Rightarrow> dashboard \<Rightarrow> (string \<times> (string \<times> string) list) list" where
  "rolePlanOptions lc d =
     foldl (\<lambda>out role. AList.update (ro_id role)
       (let options = plan_options lc role
        in if options \<noteq> [] then options else [(''community'', ''Community'')]) out) [] (da_roles d)"

definition default_plan_of :: "(string \<times> string) list \<Rightarrow> string" where
  "default_plan_of plans =
     (let community = (case find (\<lambda>p. fst p = ''community'') plans of Some p \<Rightarrow> fst p | None \<Rightarrow> []);
          first = (case plans of p # _ \<Rightarrow> fst p | [] \<Rightarrow> [])
      in if community \<noteq> [] then community else if first \<noteq> [] then first else ''community'')"

definition defaultPlanByRole :: "(string \<Rightarrow> string \<Rightarrow> int) \<Rightarrow> dashboard \<Rightarrow> (string \<times> string) list" where
  "defaultPlanByRole lc d =
     map (\<lambda>(roleId, plans). (roleId, default_plan_of plans)) (own_entries (rolePlanOptions lc d))"

definition plan_default :: "(string \<Rightarrow> string \<Rightarrow> int) \<Rightarrow> dashboard \<Rightarrow> string \<Rightarrow> string" where
  "plan_default lc d roleId =
     (let p = opt_else (map_of (defaultPlanByRole lc d) roleId) [] in if p \<noteq> [] then p else ''community'')"

definition selectedPlanLookup ::
  "(string \<Rightarrow> string \<Rightarrow> int) \<Rightarrow> dashboard \<Rightarrow> (string \<times> (string \<times> string option) list) list" where
  "selectedPlanLookup lc d =
     foldl (\<lambda>out alias.
       let rolePlans = fields_of (da_selectedPlanByAlias d) alias
       in AList.update alias
            (foldl (\<lambda>next role.
               let roleId = ro_id role in
               AList.update roleId
                 (if roleId \<in> set (lookup_for d alias)
                  then Some (case map_of rolePlans roleId of
                               Some (Some p) \<Rightarrow> if p \<noteq> [] then p else plan_default lc d roleId
                             | _ \<Rightarrow> plan_default lc d roleId)
                  else None) next) [] (da_roles d)) out) [] (matrixAliases d)"

definition activeSelectedPlanByRole ::
  "(string \<Rightarrow> string \<Rightarrow> int) \<Rightarrow> dashboard \<Rightarrow> (string \<times> string option) list" where
  "activeSelectedPlanByRole lc d =
     (let alias = trim (da_activeAlias d)
      in if alias = [] then [] else fields_of (selectedPlanLookup lc d) alias)"

subsection \<open>Selecting a role or a plan\<close>

definition canToggleAliasRole :: "dashboard \<Rightarrow> string \<Rightarrow> bool" where
  "canToggleAliasRole d alias \<longleftrightarrow>
     da_hasPlanFor d \<or> da_hasToggleFor d \<or> trim (da_activeAlias d) = alias"

definition toggleSelectedByAlias :: "dashboard \<Rightarrow> string \<Rightarrow> string \<Rightarrow> dash_call list" where
  "toggleSelectedByAlias d alias roleId =
     (if alias = [] \<or> roleId = [] then []
      else if da_hasToggleFor d then [Toggle_for_alias alias roleId]
      else if trim (da_activeAlias d) = alias then [Toggle_selected roleId]
      else [])"

definition selectPlanByAlias :: "dashboard \<Rightarrow> string \<Rightarrow> string \<Rightarrow> string option \<Rightarrow> dash_call list" where
  "selectPlanByAlias d alias roleId planId =
     (if alias = [] \<or> roleId = [] then []
      else if da_hasPlanFor d then [Select_plan_for_alias alias roleId planId]
      else
        let selectedState = (roleId \<in> set (lookup_for d alias)) in
        if plan_given planId \<and> \<not> selectedState then toggleSelectedByAlias d alias roleId
        else if \<not> plan_given planId \<and> selectedState then toggleSelectedByAlias d alias roleId
        else [])"

subsection \<open>Bundles\<close>

definition knownRoleIds :: "dashboard \<Rightarrow> string list" where
  "knownRoleIds d = to_set (trimmed_tokens (map ro_id (da_roles d)))"

definition bundle_role_ids :: "dashboard \<Rightarrow> Bundle \<Rightarrow> string list" where
  "bundle_role_ids d bundle =
     filter (\<lambda>roleId. roleId \<in> set (knownRoleIds d)) (trimmed_tokens (opt_list (bu_role_ids bundle)))"

definition resolveBundleAlias ::
  "(string \<Rightarrow> string option) option \<Rightarrow> dashboard \<Rightarrow> Bundle \<Rightarrow> string \<times> dash_call list" where
  "resolveBundleAlias create d bundle =
     (let currentAlias = trim (da_activeAlias d) in
      if currentAlias \<noteq> [] then (currentAlias, [])
      else
        let existingAliases = trimmed_tokens (matrixAliases d) in
        if existingAliases \<noteq> [] then
          let deployTarget = normalizeDeployTarget (bu_deploy_target bundle);
              wanted = (if deployTarget = ''workstation'' then ''workstation'' else ''server'')
          in (case find (\<lambda>alias. to_lower alias = deployTarget) existingAliases of
                Some alias \<Rightarrow> alias
              | None \<Rightarrow> (case find (\<lambda>alias. str_includes (to_lower alias) wanted) existingAliases of
                           Some alias \<Rightarrow> alias
                         | None \<Rightarrow> hd existingAliases), [])
        else
          let created = (case create of Some f \<Rightarrow> opt_else (f (bu_deploy_target bundle)) [] | None \<Rightarrow> []);
              alias = trim (if created \<noteq> [] then created
                            else if bu_deploy_target bundle \<noteq> [] then bu_deploy_target bundle
                            else ''server'')
          in (if alias \<noteq> [] then alias else ''server'',
              if create = None then [] else [Create_server (bu_deploy_target bundle)]))"

definition desired_roles :: "dashboard \<Rightarrow> Bundle \<Rightarrow> string \<Rightarrow> bool \<Rightarrow> string list" where
  "desired_roles d bundle targetAlias merge =
     (if merge then to_set (lookup_for d targetAlias @ bundle_role_ids d bundle)
      else to_set (bundle_role_ids d bundle))"

definition applyBundleToAlias ::
  "(string \<Rightarrow> string \<Rightarrow> int) \<Rightarrow> dashboard \<Rightarrow> Bundle \<Rightarrow> string \<Rightarrow> bool \<Rightarrow> dash_call list" where
  "applyBundleToAlias lc d bundle alias merge =
     (let targetAlias = trim alias in
      if targetAlias = [] \<or> bundle_role_ids d bundle = [] then []
      else
        let existing = lookup_for d targetAlias;
            desired = desired_roles d bundle targetAlias merge
        in concat (map (\<lambda>roleId.
             if (roleId \<in> set existing) = (roleId \<in> set desired) then []
             else if roleId \<in> set desired
             then selectPlanByAlias d targetAlias roleId (Some (plan_default lc d roleId))
             else selectPlanByAlias d targetAlias roleId None) (to_set (existing @ desired))))"

definition bundle_target ::
  "(string \<Rightarrow> string option) option \<Rightarrow> dashboard \<Rightarrow> Bundle \<Rightarrow> string option \<Rightarrow> string \<times> dash_call list" where
  "bundle_target create d bundle aliasOverride =
     (let aliasCandidate = trim (opt_else aliasOverride [])
      in if aliasCandidate \<noteq> [] then (aliasCandidate, []) else resolveBundleAlias create d bundle)"

definition requestEnableBundleForAlias ::
  "(string \<Rightarrow> string \<Rightarrow> int) \<Rightarrow> (string \<Rightarrow> string option) option \<Rightarrow> dashboard \<Rightarrow> Bundle \<Rightarrow> string option
   \<Rightarrow> dash_call list" where
  "requestEnableBundleForAlias lc create d bundle aliasOverride =
     (let (alias, calls) = bundle_target create d bundle aliasOverride in
      if alias = [] then calls
      else if lookup_for d alias = [] then calls @ applyBundleToAlias lc d bundle alias False
      else calls @ [Merge_prompt bundle alias])"

definition disableBundleForAlias ::
  "(string \<Rightarrow> string option) option \<Rightarrow> dashboard \<Rightarrow> Bundle \<Rightarrow> string option \<Rightarrow> dash_call list" where
  "disableBundleForAlias create d bundle aliasOverride =
     (let (alias, calls) = bundle_target create d bundle aliasOverride in
      if alias = [] then calls
      else calls @ concat (map (\<lambda>roleId.
             if roleId \<in> set (lookup_for d alias) then selectPlanByAlias d alias roleId None else [])
             (bundle_role_ids d bundle)))"

record BundleSelectionState =
  bs_enabled :: bool
  bs_selectedCount :: nat
  bs_totalCount :: nat

definition bundle_state :: "dashboard \<Rightarrow> string list \<Rightarrow> Bundle \<Rightarrow> BundleSelectionState" where
  "bundle_state d selectedForAlias bundle =
     (let bundleRoleIds = bundle_role_ids d bundle;
          totalCount = length bundleRoleIds;
          selectedCount = length (filter (\<lambda>roleId. roleId \<in> set selectedForAlias) bundleRoleIds)
      in \<lparr>bs_enabled = (totalCount > 0 \<and> selectedCount = totalCount),
          bs_selectedCount = selectedCount, bs_totalCount = totalCount\<rparr>)"

definition bundleRoleCountById :: "dashboard \<Rightarrow> (string \<times> nat) list" where
  "bundleRoleCountById d =
     foldl (\<lambda>out bundle. AList.update (bu_id bundle) (length (bundle_role_ids d bundle)) out) [] (da_bundles d)"

definition bundleStateByAlias :: "dashboard \<Rightarrow> (string \<times> (string \<times> BundleSelectionState) list) list" where
  "bundleStateByAlias d =
     (let aliasCandidates = (if matrixAliases d \<noteq> [] then matrixAliases d
                             else nonempties [trim (da_activeAlias d)])
      in foldl (\<lambda>byAlias alias.
           AList.update alias
             (foldl (\<lambda>stateMap bundle.
                AList.update (bu_id bundle) (bundle_state d (lookup_for d alias) bundle) stateMap)
                [] (da_bundles d)) byAlias) [] aliasCandidates)"

definition bundleStateById :: "dashboard \<Rightarrow> (string \<times> BundleSelectionState) list" where
  "bundleStateById d =
     (let active = trim (da_activeAlias d);
          alias = (if active \<noteq> [] then active else case matrixAliases d of a # _ \<Rightarrow> a | [] \<Rightarrow> [])
      in fields_of (bundleStateByAlias d) alias)"

subsection \<open>The details dialog\<close>

definition detailAliases :: "dashboard \<Rightarrow> string list" where
  "detailAliases d =
     (let fallback = trim (da_activeAlias d); names = trimmed_tokens (matrixAliases d)
      in if names \<noteq> [] then names else if fallback \<noteq> [] then [fallback] else [''server''])"

definition activeDetailsAlias :: "dashboard \<Rightarrow> string" where
  "activeDetailsAlias d =
     (let first = (let a = hd (detailAliases d) in if a \<noteq> [] then a else ''server'') in
      case da_activeDetails d of
        None \<Rightarrow> first
      | Some (_, alias) \<Rightarrow> if alias \<in> set (detailAliases d) then alias else first)"

definition activeDetailsRoleId :: "dashboard \<Rightarrow> string" where
  "activeDetailsRoleId d = (case da_activeDetails d of None \<Rightarrow> [] | Some (role, _) \<Rightarrow> trim (ro_id role))"

definition activeDetailsSelected :: "dashboard \<Rightarrow> bool" where
  "activeDetailsSelected d \<longleftrightarrow>
     activeDetailsRoleId d \<noteq> [] \<and> activeDetailsRoleId d \<in> set (lookup_for d (activeDetailsAlias d))"

definition activeDetailsPlans ::
  "(string \<Rightarrow> string \<Rightarrow> int) \<Rightarrow> dashboard \<Rightarrow> (string \<times> string) list" where
  "activeDetailsPlans lc d =
     (case map_of (rolePlanOptions lc d) (activeDetailsRoleId d) of
        Some plans \<Rightarrow> if activeDetailsRoleId d \<noteq> [] then plans else [(''community'', ''Community'')]
      | None \<Rightarrow> [(''community'', ''Community'')])"

definition activeDetailsPlanId :: "(string \<Rightarrow> string \<Rightarrow> int) \<Rightarrow> dashboard \<Rightarrow> string option" where
  "activeDetailsPlanId lc d =
     (if activeDetailsRoleId d = [] then None
      else case map_of (fields_of (selectedPlanLookup lc d) (activeDetailsAlias d)) (activeDetailsRoleId d) of
             Some plan \<Rightarrow> plan | None \<Rightarrow> None)"

subsection \<open>Plan options\<close>

lemma community_listed: "\<exists>p \<in> set (plan_options lc role). fst p = ''community''"
  by (simp add: plan_options_def Let_def)

lemma distinct_plan_options: "distinct (map fst (plan_options lc role))"
proof -
  have "distinct (map fst (foldl (\<lambda>m (pid, label). AList.update pid label m) [] normalized))"
    for normalized :: "(string \<times> string) list"
    using distinct_keys_fold_pair [of "[]" "\<lambda>m pid label. label" normalized] by simp
  then show ?thesis
    by (auto simp: plan_options_def Let_def)
qed

lemma default_plan_community:
  "\<exists>p \<in> set plans. fst p = ''community'' \<Longrightarrow> default_plan_of plans = ''community''"
  unfolding default_plan_of_def Let_def
  by (cases "find (\<lambda>p. fst p = ''community'') plans")
    (auto simp: find_None_iff dest: find_Some_iff [THEN iffD1])

lemma plan_default_community: "plan_default lc d roleId = ''community''"
proof -
  have "\<forall>x \<in> set (foldl (\<lambda>out role. AList.update (ro_id role)
        (let options = plan_options lc role
         in if options \<noteq> [] then options else [(''community'', ''Community'')]) out) acc roles).
      \<exists>p \<in> set (snd x). fst p = ''community''"
    if "\<forall>x \<in> set acc. \<exists>p \<in> set (snd x). fst p = ''community''" for acc roles
    using that
  proof (induction roles arbitrary: acc)
    case (Cons role roles)
    have "x \<in> set acc \<or> snd x = plan_options lc role"
      if "x \<in> set (AList.update (ro_id role) (plan_options lc role) acc)" for x
      using that by (induction acc) (auto split: if_splits)
    with Cons.prems community_listed [of lc role] have
      "\<forall>x \<in> set (AList.update (ro_id role) (plan_options lc role) acc). \<exists>p \<in> set (snd x). fst p = ''community''"
      by metis
    moreover have "plan_options lc role \<noteq> []"
      using community_listed [of lc role] by auto
    ultimately show ?case
      using Cons.IH by simp
  qed simp
  from this [of "[]" "da_roles d"]
  have "\<forall>x \<in> set (rolePlanOptions lc d). \<exists>p \<in> set (snd x). fst p = ''community''"
    by (simp add: rolePlanOptions_def)
  then have "\<forall>x \<in> set (rolePlanOptions lc d). default_plan_of (snd x) = ''community''"
    using default_plan_community by blast
  then have "map_of (defaultPlanByRole lc d) roleId = Some p \<Longrightarrow> p = ''community''" for p
    by (fastforce simp: defaultPlanByRole_def dest!: map_of_SomeD)
  then show ?thesis
    by (cases "map_of (defaultPlanByRole lc d) roleId") (simp_all add: plan_default_def opt_else_def)
qed

text \<open>
  Every role offers the plan \<open>community\<close>, offers no plan twice and never offers nothing.
\<close>

theorem plan_options_offer_community:
  "''community'' \<in> fst ` set (plan_options lc role) \<and> distinct (map fst (plan_options lc role))
   \<and> plan_options lc role \<noteq> []"
  using community_listed [of lc role] distinct_plan_options [of lc role] by force

subsection \<open>Running the calls\<close>

text \<open>
  The callbacks the workspace passes to the dashboard. \<open>cap\<close> is the state the callbacks were made
  in: all calls of one event share it. Creating a server and the merge prompt are not changes of
  the selection.
\<close>

fun exec_call ::
  "(string \<Rightarrow> string) \<Rightarrow> selection_state \<Rightarrow> dash_call \<Rightarrow> selection_state \<Rightarrow> selection_state" where
  "exec_call dp cap (Toggle_selected rid) st = toggleSelected dp rid cap st"
| "exec_call dp cap (Toggle_for_alias alias rid) st = toggleSelectedForAlias dp alias rid cap st"
| "exec_call dp cap (Select_plan_for_alias alias rid plan) st = selectRolePlanForAlias dp alias rid plan st"
| "exec_call dp cap (Create_server target) st = st"
| "exec_call dp cap (Merge_prompt bundle alias) st = st"

definition is_token :: "string \<Rightarrow> bool" where
  "is_token s \<longleftrightarrow> trim s = s \<and> s \<noteq> []"

definition change_calls ::
  "(string \<Rightarrow> string \<Rightarrow> int) \<Rightarrow> dashboard \<Rightarrow> string \<Rightarrow> string list \<Rightarrow> string \<Rightarrow> dash_call list" where
  "change_calls lc d targetAlias desired roleId =
     (if (roleId \<in> set (lookup_for d targetAlias)) = (roleId \<in> set desired) then []
      else if roleId \<in> set desired
      then selectPlanByAlias d targetAlias roleId (Some (plan_default lc d roleId))
      else selectPlanByAlias d targetAlias roleId None)"

lemma community_plan [simp]:
  "plan_given (Some ''community'')" "plan_given (normalized_plan (Some ''community''))"
  "\<not> plan_given None" "\<not> plan_given (normalized_plan None)"
  by code_simp+

lemma selected_for_toggle:
  "is_token a \<Longrightarrow> is_token r \<Longrightarrow> selected_for (toggleSelectedForAlias dp a r cap st) x =
     (if x = a then set_toggle r (selected_for st a) else selected_for st x)"
  by (simp add: toggleSelectedForAlias_def Let_def is_token_def selected_for_def opt_list_def)

lemma exec_change:
  fixes st cap :: selection_state and dp :: "string \<Rightarrow> string" and lc and desired :: "string list"
  assumes d: "da_hasPlanFor d \<or> da_hasToggleFor d" and tok: "is_token t" "is_token r"
    and now: "(r \<in> set (selected_for st t)) = (r \<in> set (lookup_for d t))"
  defines "st' \<equiv> fold (exec_call dp cap) (change_calls lc d t desired r) st"
  shows "set (selected_for st' t)
      = (if r \<in> set desired then insert r (set (selected_for st t)) else set (selected_for st t) - {r})
    \<and> (\<forall>x. x \<noteq> t \<longrightarrow> selected_for st' x = selected_for st x)"
proof (cases "da_hasPlanFor d")
  case True
  have t: "trim t = t" "t \<noteq> []" "trim r = r" "r \<noteq> []"
    using tok by (simp_all add: is_token_def)
  from True show ?thesis
    using now t unfolding st'_def
    by (auto simp: change_calls_def selectPlanByAlias_def plan_default_community
        selected_for_select_plan)
next
  case False
  with d have "da_hasToggleFor d"
    by simp
  with False show ?thesis
    using now tok unfolding st'_def
    by (auto simp: change_calls_def selectPlanByAlias_def toggleSelectedByAlias_def
        plan_default_community selected_for_toggle set_set_toggle is_token_def)
qed

lemma exec_changes:
  fixes st cap :: selection_state and dp :: "string \<Rightarrow> string" and lc and desired :: "string list"
  assumes "da_hasPlanFor d \<or> da_hasToggleFor d" "is_token t" "\<forall>r \<in> set rs. is_token r" "distinct rs"
    and "\<forall>r \<in> set rs. (r \<in> set (selected_for st t)) = (r \<in> set (lookup_for d t))"
  defines "st' \<equiv> fold (exec_call dp cap) (concat (map (change_calls lc d t desired) rs)) st"
  shows "set (selected_for st' t) = (set (selected_for st t) - set rs) \<union> (set rs \<inter> set desired)
    \<and> (\<forall>x. x \<noteq> t \<longrightarrow> selected_for st' x = selected_for st x)"
  unfolding st'_def using assms(3-5)
proof (induction rs arbitrary: st)
  case (Cons r rs)
  let ?st1 = "fold (exec_call dp cap) (change_calls lc d t desired r) st"
  have one: "set (selected_for ?st1 t)
      = (if r \<in> set desired then insert r (set (selected_for st t)) else set (selected_for st t) - {r})
    \<and> (\<forall>x. x \<noteq> t \<longrightarrow> selected_for ?st1 x = selected_for st x)"
    using Cons.prems assms(1,2) by (intro exec_change) auto
  have "\<forall>x \<in> set rs. (x \<in> set (selected_for ?st1 t)) = (x \<in> set (lookup_for d t))"
    using one Cons.prems by auto
  with Cons.IH [of ?st1] Cons.prems one show ?case
    by auto
qed simp

text \<open>
  C4: applying a bundle to a server makes the workspace select exactly what was asked for. After
  the calls have run, overwriting leaves the known roles of the bundle and nothing else, merging
  leaves them and what was selected before; the other servers keep their roles, and the bundle
  counts as enabled. It holds for both callbacks the dashboard may be given, although all calls
  see the same old selection.
\<close>

theorem applyBundleToAlias_selects:
  assumes calls: "da_hasPlanFor d \<or> da_hasToggleFor d" and t: "is_token t"
    and now: "set (lookup_for d t) = set (selected_for st t)" "\<forall>r \<in> set (lookup_for d t). is_token r"
    and some: "bundle_role_ids d bundle \<noteq> []"
  shows "let st' = fold (exec_call dp cap) (applyBundleToAlias lc d bundle t merge) st in
    set (selected_for st' t)
      = set (bundle_role_ids d bundle) \<union> (if merge then set (selected_for st t) else {})
    \<and> (\<forall>x. x \<noteq> t \<longrightarrow> selected_for st' x = selected_for st x)
    \<and> bs_enabled (bundle_state d (selected_for st' t) bundle)"
proof -
  let ?desired = "desired_roles d bundle t merge"
  let ?rs = "to_set (lookup_for d t @ ?desired)"
  let ?st' = "fold (exec_call dp cap) (applyBundleToAlias lc d bundle t merge) st"
  have desired: "set ?desired
      = set (bundle_role_ids d bundle) \<union> (if merge then set (selected_for st t) else {})"
    using now(1) by (auto simp: desired_roles_def)
  have tokens: "\<forall>r \<in> set ?rs. is_token r"
    using now(2) by (auto simp: desired_roles_def bundle_role_ids_def set_trimmed_tokens is_token_def
        split: if_splits)
  have "applyBundleToAlias lc d bundle t merge = concat (map (change_calls lc d t ?desired) ?rs)"
    using t some
    by (simp add: applyBundleToAlias_def Let_def is_token_def change_calls_def [abs_def])
  with exec_changes [OF calls t tokens, of st dp cap lc ?desired] now(1)
  have "set (selected_for ?st' t) = (set (selected_for st t) - set ?rs) \<union> (set ?rs \<inter> set ?desired)
      \<and> (\<forall>x. x \<noteq> t \<longrightarrow> selected_for ?st' x = selected_for st x)"
    by simp
  moreover have "(set (selected_for st t) - set ?rs) \<union> (set ?rs \<inter> set ?desired) = set ?desired"
    using now(1) by auto
  ultimately have "set (selected_for ?st' t) = set ?desired"
      "\<forall>x. x \<noteq> t \<longrightarrow> selected_for ?st' x = selected_for st x"
    by auto
  moreover have "filter (\<lambda>r. r \<in> set ?desired) (bundle_role_ids d bundle) = bundle_role_ids d bundle"
    using desired by (simp add: filter_id_conv)
  ultimately show ?thesis
    using desired some by (simp add: Let_def bundle_state_def)
qed

definition demo_dashboard :: dashboard where
  "demo_dashboard =
     \<lparr>da_roles = [demo_role ''wiki'' ''Wiki'' JNull, demo_role ''blog'' ''Blog'' JNull],
      da_bundles = [], da_activeAlias = ''web'', da_serverAliases = [''web'', ''db''],
      da_colorByAlias = [], da_selected = [], da_selectedByAlias = Some (ss_selected demo_selection),
      da_selectedPlanByAlias = [], da_hasToggleFor = True, da_hasPlanFor = False,
      da_activeDetails = None\<rparr>"

definition demo_bundle :: Bundle where
  "demo_bundle =
     \<lparr>bu_id = ''b1'', bu_slug = ''b1'', bu_deploy_target = ''server'', bu_title = ''Writing'',
      bu_description = [], bu_tags = None, bu_categories = None,
      bu_role_ids = Some ['' blog'', ''blog'', ''gone'']\<rparr>"

theorem applyBundleToAlias_selects_witness:
  "let st' = fold (exec_call (\<lambda>_. ''community'') demo_selection)
         (applyBundleToAlias cu_cmp demo_dashboard demo_bundle ''web'' False) demo_selection in
    set (selected_for st' ''web'')
      = set (bundle_role_ids demo_dashboard demo_bundle)
        \<union> (if False then set (selected_for demo_selection ''web'') else {})
    \<and> (\<forall>x. x \<noteq> ''web'' \<longrightarrow> selected_for st' x = selected_for demo_selection x)
    \<and> bs_enabled (bundle_state demo_dashboard (selected_for st' ''web'') demo_bundle)"
  by (rule applyBundleToAlias_selects; code_simp)

text \<open>A role with two plans whose default is not \<open>community\<close>.\<close>

definition priced_role :: Role where
  "priced_role =
     demo_role ''wiki'' ''Wiki'' (JObj
       [(''default_plan_id'', JStr ''pro''),
        (''offerings'', JArr [JObj [(''id'', JStr ''std''), (''plans'', JArr
           [JObj [(''id'', JStr ''community'')], JObj [(''id'', JStr ''pro'')]])]])])"

text \<open>
  The dashboard and the workspace disagree on the default plan of a role. Enabling a role by
  a bundle asks for the plan \<open>community\<close> whatever the role's pricing says, while toggling the same
  role in the workspace gives it the default plan of its pricing.
\<close>

theorem bundle_plan_ignores_default:
  "let d = demo_dashboard\<lparr>da_roles := [priced_role], da_hasPlanFor := True\<rparr>;
       wanted = demo_bundle\<lparr>bu_role_ids := Some [''wiki'']\<rparr> in
     applyBundleToAlias cu_cmp d wanted ''db'' False
       = [Select_plan_for_alias ''db'' ''blog'' None, Select_plan_for_alias ''db'' ''wiki'' (Some ''community'')]
     \<and> defaultPlanForRole [priced_role] ''wiki'' = ''pro''
     \<and> map_of (fields_of (ss_plans (toggleSelectedForAlias (defaultPlanForRole [priced_role]) ''db'' ''wiki''
         demo_selection demo_selection)) ''db'') ''wiki'' = Some (Some ''pro'')"
  by code_simp

end
