(* ===== verification/WorkspaceUsers.thy ===== *)
theory WorkspaceUsers
  imports JsValue
begin

text \<open>
  The users of a workspace as data (\<open>workspace-panel/users-utils.ts\<close>): reading a user from an
  untyped record, the users of a parsed document, the document written back, and the CSV exchange
  format with its tokeniser. The YAML library is the parameter \<open>yaml\<close> (\<open>None\<close> when parsing
  throws). The byte order mark that the tokeniser strips lies outside the code units of the string
  model, so stripping it is the identity here.
\<close>

subsection \<open>Types\<close>

record WorkspaceUser =
  wu_username :: string
  wu_firstname :: string
  wu_lastname :: string
  wu_email :: "string option"
  wu_password :: "string option"
  wu_uid :: "num option"
  wu_gid :: "num option"
  wu_roles :: "string list option"
  wu_tokens :: "(string \<times> jsval) list option"
  wu_authorized_keys :: "string list option"
  wu_reserved :: "bool option"
  wu_description :: "string option"

record WorkspaceUserForm =
  uf_username :: string
  uf_firstname :: string
  uf_lastname :: string
  uf_email :: string
  uf_password :: string
  uf_uid :: string
  uf_gid :: string
  uf_roles :: string
  uf_tokens :: string
  uf_authorized_keys :: string
  uf_reserved :: string
  uf_description :: string

definition USER_CSV_HEADERS :: "string list" where
  "USER_CSV_HEADERS =
     [''username'', ''firstname'', ''lastname'', ''email'', ''password'', ''uid'', ''gid'', ''roles'',
      ''tokens'', ''authorized_keys'', ''reserved'', ''description'']"

definition username_ok :: "string \<Rightarrow> bool" where
  "username_ok s \<longleftrightarrow> s \<noteq> [] \<and> list_all is_az09 s"

definition bool_str :: "bool \<Rightarrow> string" where
  "bool_str b = (if b then ''true'' else ''false'')"

definition opt_str :: "('a \<Rightarrow> string) \<Rightarrow> 'a option \<Rightarrow> string" where
  "opt_str f v = (case v of None \<Rightarrow> [] | Some x \<Rightarrow> f x)"

subsection \<open>The form of a user\<close>

definition emptyUserForm :: WorkspaceUserForm where
  "emptyUserForm =
     \<lparr>uf_username = [], uf_firstname = [], uf_lastname = [], uf_email = [], uf_password = [],
      uf_uid = [], uf_gid = [], uf_roles = [], uf_tokens = [], uf_authorized_keys = [],
      uf_reserved = [], uf_description = []\<rparr>"

definition userToForm :: "(jsval \<Rightarrow> string) \<Rightarrow> WorkspaceUser \<Rightarrow> WorkspaceUserForm" where
  "userToForm to_yaml user =
     \<lparr>uf_username = wu_username user, uf_firstname = wu_firstname user,
      uf_lastname = wu_lastname user, uf_email = opt_str id (wu_email user),
      uf_password = opt_str id (wu_password user), uf_uid = opt_str num_str (wu_uid user),
      uf_gid = opt_str num_str (wu_gid user), uf_roles = opt_str (join '','') (wu_roles user),
      uf_tokens = opt_str (\<lambda>t. trim (to_yaml (JObj t))) (wu_tokens user),
      uf_authorized_keys = opt_str (join [NL]) (wu_authorized_keys user),
      uf_reserved = opt_str bool_str (wu_reserved user),
      uf_description = opt_str id (wu_description user)\<rparr>"

subsection \<open>Reading one user\<close>

definition asTrimmed :: "jsval \<Rightarrow> string" where
  "asTrimmed value = trim (str_nn value)"

definition parseOptionalInt :: "jsval \<Rightarrow> num option" where
  "parseOptionalInt value =
     (let raw = asTrimmed value in
      if raw = [] then None
      else let parsed = str_num raw in
        if \<not> num_finite parsed then None
        else let normalized = num_floor parsed in
          if num_lt_int normalized 0 then None else Some normalized)"

fun split_where :: "(char \<Rightarrow> bool) \<Rightarrow> string \<Rightarrow> string list" where
  "split_where p [] = [[]]"
| "split_where p (x # s) =
     (if p x then [] # split_where p s
      else (case split_where p s of [] \<Rightarrow> [[x]] | q # qs \<Rightarrow> (x # q) # qs))"

definition some_list :: "'a list \<Rightarrow> 'a list option" where
  "some_list vs = (if vs = [] then None else Some vs)"

definition parseStringList :: "(string \<Rightarrow> jsval option) \<Rightarrow> jsval \<Rightarrow> string list option" where
  "parseStringList yaml value =
     (case value of
        JArr entries \<Rightarrow> some_list (nonempties (map asTrimmed entries))
      | _ \<Rightarrow>
          (let raw = asTrimmed value in
           if raw = [] then None
           else (case yaml raw of
               Some (JArr entries) \<Rightarrow> some_list (nonempties (map asTrimmed entries))
             | _ \<Rightarrow> some_list (nonempties (map trim (split_where (\<lambda>c. c = NL \<or> c = CHR '','' \<or> c = CHR ''|'') raw))))))"

definition parseOptionalObject ::
  "(string \<Rightarrow> jsval option) \<Rightarrow> jsval \<Rightarrow> (string \<times> jsval) list option" where
  "parseOptionalObject yaml value =
     (case value of
        JObj m \<Rightarrow> Some m
      | _ \<Rightarrow>
          (let raw = asTrimmed value in
           if raw = [] then None
           else (case yaml raw of Some (JObj m) \<Rightarrow> Some m | _ \<Rightarrow> None)))"

definition nonempty_str :: "string \<Rightarrow> string option" where
  "nonempty_str s = (if s = [] then None else Some s)"

definition parse_reserved :: "jsval \<Rightarrow> bool option" where
  "parse_reserved v =
     (case v of
        JBool b \<Rightarrow> Some b
      | _ \<Rightarrow> (let reservedRaw = to_lower (asTrimmed v) in
             if reservedRaw = ''true'' then Some True
             else if reservedRaw = ''false'' then Some False else None))"

definition normalizeWorkspaceUser ::
  "(string \<Rightarrow> jsval option) \<Rightarrow> jsval \<Rightarrow> jsval \<Rightarrow> WorkspaceUser option" where
  "normalizeWorkspaceUser yaml fallbackUsername value =
     (if \<not> is_obj value then None
      else
        let username = to_lower (asTrimmed (coalesce (jget value ''username'') fallbackUsername));
            firstname = asTrimmed (jget value ''firstname'');
            lastname = asTrimmed (jget value ''lastname'')
        in if \<not> username_ok username \<or> firstname = [] \<or> lastname = [] then None
           else Some \<lparr>wu_username = username, wu_firstname = firstname, wu_lastname = lastname,
             wu_email = nonempty_str (asTrimmed (jget value ''email'')),
             wu_password = nonempty_str (asTrimmed (jget value ''password'')),
             wu_uid = parseOptionalInt (jget value ''uid''),
             wu_gid = parseOptionalInt (jget value ''gid''),
             wu_roles = parseStringList yaml (jget value ''roles''),
             wu_tokens = (case parseOptionalObject yaml (jget value ''tokens'') of
                            Some t \<Rightarrow> some_list t | None \<Rightarrow> None),
             wu_authorized_keys = parseStringList yaml
               (coalesce (jget value ''authorized_keys'') (jget value ''authorizedKeys'')),
             wu_reserved = parse_reserved (jget value ''reserved''),
             wu_description = nonempty_str (asTrimmed (jget value ''description''))\<rparr>)"

subsection \<open>The users of a document\<close>

text \<open>A \<open>Map\<close> keeps insertion order; a user met again is deleted first, so it moves to the end.\<close>

definition dedupeWorkspaceUsers :: "WorkspaceUser list \<Rightarrow> WorkspaceUser list" where
  "dedupeWorkspaceUsers users =
     foldl (\<lambda>next user. if wu_username user = [] then next
            else filter (\<lambda>u. wu_username u \<noteq> wu_username user) next @ [user]) [] users"

definition user_entries :: "(string \<Rightarrow> jsval option) \<Rightarrow> (string \<times> jsval) list \<Rightarrow> WorkspaceUser list" where
  "user_entries yaml m =
     List.map_filter (\<lambda>(username, entry).
       case entry of
         JObj fs \<Rightarrow> normalizeWorkspaceUser yaml (JStr username)
           (JObj (AList.update ''username'' (coalesce (jget entry ''username'') (JStr username)) fs))
       | _ \<Rightarrow> None) (own_entries m)"

lemma map_of_size: "map_of m k = Some v \<Longrightarrow> size v < size (JObj m)"
  by (induction m) (auto split: if_splits)

function extractWorkspaceUsers :: "(string \<Rightarrow> jsval option) \<Rightarrow> jsval \<Rightarrow> WorkspaceUser list" where
  "extractWorkspaceUsers yaml value =
     (case value of
        JArr entries \<Rightarrow>
          dedupeWorkspaceUsers (List.map_filter (normalizeWorkspaceUser yaml JUndefined) entries)
      | JObj m \<Rightarrow>
          (case map_of m ''users'' of
             Some inner \<Rightarrow> extractWorkspaceUsers yaml inner
           | None \<Rightarrow>
               if jhas value ''username'' \<or> jhas value ''firstname'' \<or> jhas value ''lastname'' then
                 (case normalizeWorkspaceUser yaml JUndefined value of None \<Rightarrow> [] | Some single \<Rightarrow> [single])
               else dedupeWorkspaceUsers (user_entries yaml m))
      | _ \<Rightarrow> [])"
  by pat_completeness auto
termination
  by (relation "measure (\<lambda>(yaml, v). size v)") (auto dest!: map_of_size)

declare extractWorkspaceUsers.simps [simp del]

subsection \<open>The document written\<close>

definition opt_entry :: "string \<Rightarrow> ('a \<Rightarrow> jsval) \<Rightarrow> ('a \<Rightarrow> bool) \<Rightarrow> 'a option \<Rightarrow> (string \<times> jsval) list" where
  "opt_entry key f keep v = (case v of None \<Rightarrow> [] | Some x \<Rightarrow> if keep x then [(key, f x)] else [])"

definition js_strings :: "string list \<Rightarrow> jsval" where
  "js_strings ss = JArr (map JStr ss)"

definition toYamlUserEntry :: "WorkspaceUser \<Rightarrow> (string \<times> jsval) list" where
  "toYamlUserEntry user =
     [(''username'', JStr (wu_username user)), (''firstname'', JStr (wu_firstname user)),
      (''lastname'', JStr (wu_lastname user))]
     @ opt_entry ''email'' JStr (\<lambda>s. s \<noteq> []) (wu_email user)
     @ opt_entry ''password'' JStr (\<lambda>s. s \<noteq> []) (wu_password user)
     @ opt_entry ''uid'' JNum (\<lambda>_. True) (wu_uid user)
     @ opt_entry ''gid'' JNum (\<lambda>_. True) (wu_gid user)
     @ opt_entry ''roles'' js_strings (\<lambda>r. r \<noteq> []) (wu_roles user)
     @ opt_entry ''tokens'' JObj (\<lambda>t. t \<noteq> []) (wu_tokens user)
     @ opt_entry ''authorized_keys'' js_strings (\<lambda>k. k \<noteq> []) (wu_authorized_keys user)
     @ opt_entry ''reserved'' JBool (\<lambda>_. True) (wu_reserved user)
     @ opt_entry ''description'' JStr (\<lambda>s. s \<noteq> []) (wu_description user)"

definition toYamlUsersMap :: "WorkspaceUser list \<Rightarrow> (string \<times> jsval) list" where
  "toYamlUsersMap users =
     foldl (\<lambda>out user. AList.update (wu_username user) (JObj (toYamlUserEntry user)) out) [] users"

subsection \<open>CSV\<close>

definition needs_quotes :: "string \<Rightarrow> bool" where
  "needs_quotes text \<longleftrightarrow> QUOTE \<in> set text \<or> CHR '','' \<in> set text \<or> NL \<in> set text"

definition escapeCsvCell :: "string \<Rightarrow> string" where
  "escapeCsvCell text =
     (if needs_quotes text
      then QUOTE # concat (map (\<lambda>c. if c = QUOTE then [QUOTE, QUOTE] else [c]) text) @ [QUOTE]
      else text)"

text \<open>The scanner: inside quotes or not, the cell and the row read so far, the rest.\<close>

fun csv_scan :: "bool \<Rightarrow> string \<Rightarrow> string list \<Rightarrow> string \<Rightarrow> string list list" where
  "csv_scan inQuotes cell row [] = [row @ [cell]]"
| "csv_scan inQuotes cell row (c # s) =
     (if c = QUOTE then
        (if inQuotes \<and> s \<noteq> [] \<and> hd s = QUOTE then csv_scan inQuotes (cell @ [QUOTE]) row (tl s)
         else csv_scan (\<not> inQuotes) cell row s)
      else if \<not> inQuotes \<and> c = CHR '','' then csv_scan inQuotes [] (row @ [cell]) s
      else if \<not> inQuotes \<and> (c = NL \<or> c = CR) then
        (row @ [cell]) # csv_scan inQuotes [] [] (if c = CR \<and> s \<noteq> [] \<and> hd s = NL then tl s else s)
      else csv_scan inQuotes (cell @ [c]) row s)"

definition parseCsvRows :: "string \<Rightarrow> string list list" where
  "parseCsvRows content =
     filter (\<lambda>entries. list_ex (\<lambda>entry. trim entry \<noteq> []) entries) (csv_scan False [] [] content)"

fun underscore_ws :: "bool \<Rightarrow> string \<Rightarrow> string" where
  "underscore_ws inWs [] = []"
| "underscore_ws inWs (c # s) =
     (if ws_char c then (if inWs then [] else ''_'') @ underscore_ws True s
      else c # underscore_ws False s)"

definition csv_header :: "string \<Rightarrow> string" where
  "csv_header header = underscore_ws False (to_lower (trim header))"

definition csv_record :: "string list \<Rightarrow> string list \<Rightarrow> jsval" where
  "csv_record headers cells =
     JObj (foldl (\<lambda>record (index, header).
       if header = [] then record
       else AList.update header (JStr (if index < length cells then cells ! index else [])) record)
       [] (zip [0..<length headers] headers))"

definition csv_user_record :: "jsval \<Rightarrow> jsval" where
  "csv_user_record r =
     JObj [(''username'', coalesce (coalesce (jget r ''username'') (jget r ''user'')) (jget r ''login'')),
       (''firstname'', coalesce (jget r ''firstname'') (jget r ''first_name'')),
       (''lastname'', coalesce (jget r ''lastname'') (jget r ''last_name'')),
       (''email'', jget r ''email''), (''password'', jget r ''password''), (''uid'', jget r ''uid''),
       (''gid'', jget r ''gid''), (''roles'', jget r ''roles''), (''tokens'', jget r ''tokens''),
       (''authorized_keys'', coalesce (coalesce (jget r ''authorized_keys'') (jget r ''authorizedkeys''))
          (jget r ''authorized_key'')),
       (''reserved'', jget r ''reserved''), (''description'', jget r ''description'')]"

definition parseUsersFromCsv :: "(string \<Rightarrow> jsval option) \<Rightarrow> string \<Rightarrow> WorkspaceUser list" where
  "parseUsersFromCsv yaml content =
     (case parseCsvRows content of
        [] \<Rightarrow> []
      | headerRow # rows \<Rightarrow>
          (let headers = map csv_header headerRow
           in dedupeWorkspaceUsers (List.map_filter
                (\<lambda>cells. normalizeWorkspaceUser yaml JUndefined (csv_user_record (csv_record headers cells)))
                rows)))"

definition csv_cells :: "WorkspaceUser \<Rightarrow> string list" where
  "csv_cells user =
     [wu_username user, wu_firstname user, wu_lastname user, opt_str id (wu_email user),
      opt_str id (wu_password user), opt_str num_str (wu_uid user), opt_str num_str (wu_gid user),
      opt_str (\<lambda>r. json (js_strings r)) (wu_roles user), opt_str (\<lambda>t. json (JObj t)) (wu_tokens user),
      opt_str (\<lambda>k. json (js_strings k)) (wu_authorized_keys user),
      opt_str bool_str (wu_reserved user), opt_str id (wu_description user)]"

definition usersToCsv :: "WorkspaceUser list \<Rightarrow> string" where
  "usersToCsv users =
     join [NL] (join '','' USER_CSV_HEADERS
       # map (\<lambda>user. join '','' (map escapeCsvCell (csv_cells user))) users)"

subsection \<open>Users in normal form\<close>

fun opt_all :: "('a \<Rightarrow> bool) \<Rightarrow> 'a option \<Rightarrow> bool" where
  "opt_all P None \<longleftrightarrow> True"
| "opt_all P (Some x) \<longleftrightarrow> P x"

lemma opt_all_iff: "opt_all P v \<longleftrightarrow> (\<forall>x. v = Some x \<longrightarrow> P x)"
  by (cases v) auto

lemma opt_all_mono: "opt_all P v \<Longrightarrow> (\<And>x. P x \<Longrightarrow> Q x) \<Longrightarrow> opt_all Q v"
  by (cases v) auto


definition num_nat :: "num \<Rightarrow> bool" where
  "num_nat n \<longleftrightarrow> (case n of Dec m k \<Rightarrow> 0 \<le> m \<and> k = 0 | _ \<Rightarrow> False)"

definition clean_user :: "WorkspaceUser \<Rightarrow> bool" where
  "clean_user u \<longleftrightarrow> username_ok (wu_username u) \<and> token (wu_firstname u) \<and> token (wu_lastname u)
     \<and> opt_all token (wu_email u) \<and> opt_all token (wu_password u)
     \<and> opt_all num_nat (wu_uid u) \<and> opt_all num_nat (wu_gid u)
     \<and> opt_all (\<lambda>r. r \<noteq> [] \<and> list_all token r) (wu_roles u)
     \<and> opt_all (\<lambda>t. t \<noteq> []) (wu_tokens u)
     \<and> opt_all (\<lambda>k. k \<noteq> [] \<and> list_all token k) (wu_authorized_keys u)
     \<and> opt_all token (wu_description u)"

lemma asTrimmed_simps [simp]:
  "asTrimmed (JStr s) = trim s" "asTrimmed JUndefined = []"
  by (simp_all add: asTrimmed_def)

lemma pred_nonempty_str [simp]: "opt_all token (nonempty_str (asTrimmed v))"
  by (simp add: nonempty_str_def asTrimmed_def token_trim)

lemma nonempty_token [simp]: "token s \<Longrightarrow> nonempty_str (trim s) = Some s"
  by (simp add: nonempty_str_def token_def)

lemma token_asTrimmed: "asTrimmed v \<noteq> [] \<Longrightarrow> token (asTrimmed v)"
  by (simp add: asTrimmed_def token_trim)

lemma some_tokens: "opt_all (\<lambda>r. r \<noteq> [] \<and> list_all token r) (some_list (nonempties (map asTrimmed vs)))"
  "opt_all (\<lambda>r. r \<noteq> [] \<and> list_all token r) (some_list (nonempties (map trim ss)))"
  by (auto simp: some_list_def list_all_iff token_trim token_asTrimmed nonempties_def)

lemma parseStringList_clean: "opt_all (\<lambda>r. r \<noteq> [] \<and> list_all token r) (parseStringList yaml v)"
  by (auto simp: parseStringList_def Let_def some_tokens split: jsval.splits option.splits)

lemma parseOptionalInt_nat: "opt_all num_nat (parseOptionalInt v)"
proof -
  have "num_nat (num_floor n)" if "num_finite n" "\<not> num_lt_int (num_floor n) 0" for n
    using that by (cases n) (auto simp: num_nat_def)
  then show ?thesis
    by (auto simp: parseOptionalInt_def Let_def)
qed

lemma normalize_clean: "normalizeWorkspaceUser yaml fb v = Some u \<Longrightarrow> clean_user u"
  by (auto simp: normalizeWorkspaceUser_def Let_def clean_user_def parseStringList_clean
      parseOptionalInt_nat token_asTrimmed some_list_def split: if_splits option.splits)

lemma username_ok_lower: "username_ok s \<Longrightarrow> to_lower (trim s) = s"
proof -
  assume s: "username_ok s"
  then have "trimmed s"
    by (intro no_ws_trimmed) (auto simp: username_ok_def list_all_iff az09_not_ws)
  with s show ?thesis
    by (auto simp: username_ok_def list_all_iff to_lower_def is_az09_def lower_char_fix intro: map_idI)
qed

lemma parse_int_back: "num_nat n \<Longrightarrow> parseOptionalInt (JNum n) = Some n"
  "num_nat n \<Longrightarrow> parseOptionalInt (JStr (num_str n)) = Some n"
  by (cases n; simp add: num_nat_def parseOptionalInt_def asTrimmed_def str_nn_def nullish_def int_str_def)+

lemma parse_strings_back: "r \<noteq> [] \<Longrightarrow> list_all token r \<Longrightarrow> parseStringList yaml (js_strings r) = Some r"
proof -
  assume r: "r \<noteq> []" "list_all token r"
  then have "map asTrimmed (map JStr r) = r"
    by (auto simp: list_all_iff token_def intro: map_idI)
  with r show ?thesis
    by (auto simp: js_strings_def parseStringList_def some_list_def list_all_iff token_def nonempties_id)
qed

text \<open>An absent field reads as undefined; reading a written field gives the field back.\<close>

definition opt_val :: "('a \<Rightarrow> jsval) \<Rightarrow> 'a option \<Rightarrow> jsval" where
  "opt_val f v = (case v of None \<Rightarrow> JUndefined | Some x \<Rightarrow> f x)"

lemma read_nothing [simp]:
  "parseStringList yaml JUndefined = None" "parseOptionalInt JUndefined = None"
  "parseOptionalObject yaml JUndefined = None" "parse_reserved JUndefined = None" "nonempty_str [] = None"
  by (simp_all add: parseStringList_def parseOptionalInt_def parseOptionalObject_def nonempty_str_def
      parse_reserved_def to_lower_def)

lemma read_back:
  "opt_all token e \<Longrightarrow> nonempty_str (asTrimmed (opt_val JStr e)) = e"
  "opt_all num_nat n \<Longrightarrow> parseOptionalInt (opt_val JNum n) = n"
  "opt_all (\<lambda>r. r \<noteq> [] \<and> list_all token r) r \<Longrightarrow> parseStringList yaml (opt_val js_strings r) = r"
  "parseOptionalObject yaml (opt_val JObj t) = t"
  "parse_reserved (opt_val JBool b) = b"
  apply (cases e; simp add: opt_val_def)
  apply (cases n; simp add: opt_val_def parse_int_back)
  apply (cases r; simp add: opt_val_def parse_strings_back)
  apply (cases t; simp add: opt_val_def parseOptionalObject_def)
  apply (cases b; simp add: opt_val_def parse_reserved_def to_lower_def)
  done

lemma map_of_opt_entry [simp]:
  "map_of (opt_entry k f keep v) j = (if j = k then case v of None \<Rightarrow> None | Some x \<Rightarrow> if keep x then Some (f x) else None else None)"
  by (auto simp: opt_entry_def split: option.splits)

lemma jget_opt: "opt_all keep v \<Longrightarrow>
   (case (case v of None \<Rightarrow> None | Some x \<Rightarrow> if keep x then Some (f x) else None) of None \<Rightarrow> JUndefined | Some w \<Rightarrow> w) = opt_val f v"
  by (auto simp: opt_val_def split: option.splits)

lemma jget_entry:
  assumes u: "clean_user u"
  shows "jget (JObj (toYamlUserEntry u)) ''username'' = JStr (wu_username u)"
    "jget (JObj (toYamlUserEntry u)) ''firstname'' = JStr (wu_firstname u)"
    "jget (JObj (toYamlUserEntry u)) ''lastname'' = JStr (wu_lastname u)"
    "jget (JObj (toYamlUserEntry u)) ''email'' = opt_val JStr (wu_email u)"
    "jget (JObj (toYamlUserEntry u)) ''password'' = opt_val JStr (wu_password u)"
    "jget (JObj (toYamlUserEntry u)) ''uid'' = opt_val JNum (wu_uid u)"
    "jget (JObj (toYamlUserEntry u)) ''gid'' = opt_val JNum (wu_gid u)"
    "jget (JObj (toYamlUserEntry u)) ''roles'' = opt_val js_strings (wu_roles u)"
    "jget (JObj (toYamlUserEntry u)) ''tokens'' = opt_val JObj (wu_tokens u)"
    "jget (JObj (toYamlUserEntry u)) ''authorized_keys'' = opt_val js_strings (wu_authorized_keys u)"
    "jget (JObj (toYamlUserEntry u)) ''authorizedKeys'' = JUndefined"
    "jget (JObj (toYamlUserEntry u)) ''reserved'' = opt_val JBool (wu_reserved u)"
    "jget (JObj (toYamlUserEntry u)) ''description'' = opt_val JStr (wu_description u)"
  using u unfolding clean_user_def
  by (auto simp: toYamlUserEntry_def map_add_def opt_val_def token_def split: option.splits)

lemma normalize_entry:
  assumes u: "clean_user u" and fs: "\<And>k. jget v k = jget (JObj (toYamlUserEntry u)) k" and v: "is_obj v"
  shows "normalizeWorkspaceUser yaml fb v = Some u"
proof -
  have tok: "trim (wu_firstname u) = wu_firstname u" "wu_firstname u \<noteq> []"
    "trim (wu_lastname u) = wu_lastname u" "wu_lastname u \<noteq> []"
    using u by (simp_all add: clean_user_def token_def)
  have un: "username_ok (wu_username u)" "to_lower (trim (wu_username u)) = wu_username u"
    using u username_ok_lower by (simp_all add: clean_user_def)
  have co: "coalesce (opt_val js_strings k) JUndefined = opt_val js_strings k" for k
    by (cases k) (simp_all add: opt_val_def js_strings_def coalesce_def nullish_def)
  have read: "nonempty_str (asTrimmed (opt_val JStr (wu_email u))) = wu_email u"
    "nonempty_str (asTrimmed (opt_val JStr (wu_password u))) = wu_password u"
    "nonempty_str (asTrimmed (opt_val JStr (wu_description u))) = wu_description u"
    "parseOptionalInt (opt_val JNum (wu_uid u)) = wu_uid u"
    "parseOptionalInt (opt_val JNum (wu_gid u)) = wu_gid u"
    "parseStringList yaml (opt_val js_strings (wu_roles u)) = wu_roles u"
    "parseStringList yaml (opt_val js_strings (wu_authorized_keys u)) = wu_authorized_keys u"
    using u by (simp_all add: clean_user_def read_back)
  have ts: "(case parseOptionalObject yaml (opt_val JObj (wu_tokens u)) of
      Some t \<Rightarrow> some_list t | None \<Rightarrow> None) = wu_tokens u"
    using u by (cases "wu_tokens u") (simp_all add: read_back clean_user_def some_list_def)
  show ?thesis
    unfolding normalizeWorkspaceUser_def Let_def fs jget_entry [OF u] co read ts read_back(5)
    by (simp add: v tok un)
qed

subsection \<open>Users of a document\<close>

lemma dedupe_snoc: "dedupeWorkspaceUsers (us @ [u]) =
   (if wu_username u = [] then dedupeWorkspaceUsers us
    else filter (\<lambda>v. wu_username v \<noteq> wu_username u) (dedupeWorkspaceUsers us) @ [u])"
  by (simp add: dedupeWorkspaceUsers_def)

lemma set_dedupe: "set (dedupeWorkspaceUsers us) \<subseteq> set us"
  by (induction us rule: rev_induct) (auto simp: dedupe_snoc dedupeWorkspaceUsers_def [of "[]"])

lemma distinct_dedupe: "distinct (map wu_username (dedupeWorkspaceUsers us))"
proof (induction us rule: rev_induct)
  case (snoc u us)
  have "distinct (map f (filter P xs))" if "distinct (map f xs)" for f :: "WorkspaceUser \<Rightarrow> string" and P xs
    using that by (induction xs) auto
  with snoc show ?case
    by (auto simp: dedupe_snoc)
qed (simp add: dedupeWorkspaceUsers_def)

lemma dedupe_id:
  "distinct (map wu_username us) \<Longrightarrow> list_all clean_user us \<Longrightarrow> dedupeWorkspaceUsers us = us"
proof (induction us rule: rev_induct)
  case (snoc u us)
  then have "filter (\<lambda>v. wu_username v \<noteq> wu_username u) us = us"
    by (simp add: filter_id_conv) (metis image_eqI)
  with snoc show ?case
    by (auto simp: dedupe_snoc clean_user_def username_ok_def)
qed (simp add: dedupeWorkspaceUsers_def)

lemma extract_users:
  "list_all clean_user (extractWorkspaceUsers yaml v) \<and> distinct (map wu_username (extractWorkspaceUsers yaml v))"
proof (induction yaml v rule: extractWorkspaceUsers.induct)
  case (1 yaml v)
  have arr: "list_all clean_user (dedupeWorkspaceUsers (List.map_filter (normalizeWorkspaceUser yaml fb) vs))" for fb vs
    using set_dedupe by (fastforce simp: list_all_iff set_map_filter dest: normalize_clean)
  have ents: "list_all clean_user (dedupeWorkspaceUsers (user_entries yaml m))" for m
    using set_dedupe [of "user_entries yaml m"]
    by (auto simp: list_all_iff user_entries_def set_map_filter dest!: subsetD normalize_clean split: jsval.splits)
  show ?case
    using 1 by (subst (1 2) extractWorkspaceUsers.simps)
      (auto simp: arr ents distinct_dedupe dest: normalize_clean split: jsval.splits option.splits)
qed

lemma toYamlUsersMap_distinct:
  "distinct (map wu_username us)
   \<Longrightarrow> toYamlUsersMap us = map (\<lambda>u. (wu_username u, JObj (toYamlUserEntry u))) us"
  by (simp add: toYamlUsersMap_def foldl_update_fresh)

lemma entry_back:
  assumes "clean_user u"
  shows "normalizeWorkspaceUser yaml fb
     (JObj (AList.update ''username'' (coalesce (jget (JObj (toYamlUserEntry u)) ''username'') d) (toYamlUserEntry u)))
   = Some u"
proof -
  have "AList.update ''username'' (JStr (wu_username u)) (toYamlUserEntry u) = toYamlUserEntry u"
    by (simp add: toYamlUserEntry_def)
  then show ?thesis
    unfolding jget_entry(1) [OF assms] coalesce_simps
    by (simp only:) (rule normalize_entry [OF assms], simp_all add: is_obj_def)
qed

lemma map_filter_map:
  "\<forall>e \<in> set es. f (g e) = Some (h e) \<Longrightarrow> List.map_filter f (map g es) = map h es"
  by (induction es) (auto simp: List.map_filter_simps)

lemma map_of_entries_None: "k \<notin> f ` set us \<Longrightarrow> map_of (map (\<lambda>u. (f u, g u)) us) k = None"
  by (induction us) auto

lemma map_of_entries_Some:
  "distinct (map f us) \<Longrightarrow> u \<in> set us \<Longrightarrow> map_of (map (\<lambda>u. (f u, g u)) us) (f u) = Some (g u)"
  by (induction us) (auto, metis image_eqI)

lemma user_entries_back:
  assumes "list_all clean_user us"
  shows "user_entries yaml (map (\<lambda>u. (wu_username u, JObj (toYamlUserEntry u))) us)
    = map snd (own_entries (map (\<lambda>u. (wu_username u, u)) us))"
proof -
  let ?m = "map (\<lambda>u. (wu_username u, u)) us"
  have "own_entries (map (\<lambda>u. (wu_username u, JObj (toYamlUserEntry u))) us)
      = map (\<lambda>(k, u). (k, JObj (toYamlUserEntry u))) (own_entries ?m)"
    using own_entries_map [of "\<lambda>k u. JObj (toYamlUserEntry u)" ?m] by (simp add: comp_def)
  moreover have "\<forall>e \<in> set (own_entries ?m). clean_user (snd e)"
    using assms by (auto simp: list_all_iff)
  ultimately show ?thesis
    unfolding user_entries_def
    by (simp only:, intro map_filter_map) (auto simp: entry_back simp del: jget_simps)
qed

lemma users_map_back:
  assumes "list_all clean_user us" and "distinct (map wu_username us)"
    and names: "\<forall>k \<in> {''users'', ''username'', ''firstname'', ''lastname''}. k \<notin> wu_username ` set us"
  shows "extractWorkspaceUsers yaml (JObj (toYamlUsersMap us))
    = map snd (own_entries (map (\<lambda>u. (wu_username u, u)) us))"
proof -
  let ?m = "map (\<lambda>u. (wu_username u, JObj (toYamlUserEntry u))) us"
    and ?es = "own_entries (map (\<lambda>u. (wu_username u, u)) us)"
  have absent: "map_of ?m k = None" if "k \<in> {''users'', ''username'', ''firstname'', ''lastname''}" for k
    by (rule map_of_entries_None) (rule bspec [OF names that])
  have "map wu_username (map snd ?es) = own_keys (map (\<lambda>u. (wu_username u, u)) us)"
    by (auto simp: own_keys_def)
  then have "distinct (map wu_username (map snd ?es))"
    using assms(2) by (simp only: distinct_own_keys) (simp add: comp_def)
  moreover have "list_all clean_user (map snd ?es)"
    using assms(1) by (auto simp: list_all_iff)
  ultimately show ?thesis
    using assms by (subst extractWorkspaceUsers.simps)
      (simp add: toYamlUsersMap_distinct absent jhas_def user_entries_back dedupe_id)
qed

text \<open>
  C12: users written to the file are read back. Reading the map written for a list of users in
  normal form, no two with the same name, gives exactly these users, in the order in which the
  language enumerates the names (numeric names first). No user may be called \<open>users\<close>,
  \<open>username\<close>, \<open>firstname\<close> or \<open>lastname\<close>: these keys change how the map is read.
\<close>

theorem users_map_roundtrip:
  assumes "list_all clean_user us" and "distinct (map wu_username us)"
    and names: "\<forall>k \<in> {''users'', ''username'', ''firstname'', ''lastname''}. k \<notin> wu_username ` set us"
  shows "extractWorkspaceUsers yaml (JObj (toYamlUsersMap us))
    = map snd (own_entries (map (\<lambda>u. (wu_username u, u)) us))"
  using assms by (rule users_map_back)

text \<open>
  A user called \<open>users\<close> hides all others. Once the list holds such a user, the map written
  for it is read back as that user alone; the next save then writes the others out of the file.
\<close>

theorem user_named_users_hides:
  assumes "list_all clean_user us" and "distinct (map wu_username us)"
    and "u \<in> set us" and "wu_username u = ''users''"
  shows "extractWorkspaceUsers yaml (JObj (toYamlUsersMap us)) = [u]"
proof -
  have u: "clean_user u"
    using assms by (auto simp: list_all_iff)
  have "map_of (map (\<lambda>u. (wu_username u, JObj (toYamlUserEntry u))) us) ''users'' = Some (JObj (toYamlUserEntry u))"
    using map_of_entries_Some [OF assms(2,3)] assms(4) by simp
  moreover have "map_of (toYamlUserEntry u) ''users'' = None"
    by (simp add: toYamlUserEntry_def map_add_def)
  moreover have "jhas (JObj (toYamlUserEntry u)) ''username''"
    by (simp add: toYamlUserEntry_def jhas_def)
  moreover have "normalizeWorkspaceUser yaml JUndefined (JObj (toYamlUserEntry u)) = Some u"
    by (rule normalize_entry [OF u]) (simp_all add: is_obj_def)
  ultimately show ?thesis
    using assms(2) by (subst extractWorkspaceUsers.simps, simp add: toYamlUsersMap_distinct)
      (subst extractWorkspaceUsers.simps, simp)
qed

subsection \<open>Concrete users\<close>

definition demo_users :: "WorkspaceUser list" where
  "demo_users = map (\<lambda>name.
     \<lparr>wu_username = name, wu_firstname = ''Ann'', wu_lastname = ''Lee'', wu_email = Some ''ann@x.org'',
      wu_password = None, wu_uid = Some (Dec 1001 0), wu_gid = None, wu_roles = Some [''admin''],
      wu_tokens = Some [(''api'', JNum (Dec 1 0))], wu_authorized_keys = None, wu_reserved = Some True,
      wu_description = None\<rparr>) [''ann'', ''bob'']"

theorem users_map_roundtrip_witness:
  "extractWorkspaceUsers (\<lambda>_. None) (JObj (toYamlUsersMap demo_users))
   = map snd (own_entries (map (\<lambda>u. (wu_username u, u)) demo_users))"
  by (rule users_map_roundtrip; code_simp)

theorem user_named_users_hides_witness:
  "extractWorkspaceUsers (\<lambda>_. None)
     (JObj (toYamlUsersMap (demo_users @ [(hd demo_users)\<lparr>wu_username := ''users''\<rparr>])))
   = [(hd demo_users)\<lparr>wu_username := ''users''\<rparr>]"
  by (rule user_named_users_hides; code_simp)

end
