(* ===== verification/UsersCsv.thy ===== *)
theory UsersCsv
  imports WorkspaceUsers
begin

text \<open>
  The CSV exchange of users (\<open>usersToCsv\<close>, \<open>parseUsersFromCsv\<close> of
  \<open>workspace-panel/users-utils.ts\<close>): the scanner reads back what the writer quoted, cell by cell,
  row by row and user by user, and what a bare carriage return does.
\<close>

lemma csv_char_facts [simp]: "QUOTE \<noteq> CHR '',''" "CHR '','' \<noteq> QUOTE" "QUOTE \<noteq> NL" "NL \<noteq> QUOTE" "QUOTE \<noteq> CR" "CR \<noteq> QUOTE"
  "NL \<noteq> CHR '',''" "CHR '','' \<noteq> NL" "CR \<noteq> CHR '',''" "CHR '','' \<noteq> CR" "NL \<noteq> CR" "CR \<noteq> NL"
  by (simp_all add: QUOTE_def NL_def CR_def code_inject [symmetric] del: code_inject) (simp_all add: code_def)

subsection \<open>The scanner reads back what was written\<close>

definition csv_safe :: "string \<Rightarrow> bool" where
  "csv_safe t \<longleftrightarrow> needs_quotes t \<or> CR \<notin> set t"

lemma scan_quoted:
  assumes "s = [] \<or> hd s \<noteq> QUOTE"
  shows "csv_scan True cell row (concat (map (\<lambda>c. if c = QUOTE then [QUOTE, QUOTE] else [c]) t) @ QUOTE # s)
    = csv_scan False (cell @ t) row s"
  using assms by (induction t arbitrary: cell) auto

lemma scan_plain:
  "\<not> needs_quotes t \<Longrightarrow> CR \<notin> set t \<Longrightarrow> csv_scan False cell row (t @ s) = csv_scan False (cell @ t) row s"
  by (induction t arbitrary: cell) (auto simp: needs_quotes_def)

lemma scan_cell:
  assumes "csv_safe t" and "s = [] \<or> hd s \<noteq> QUOTE"
  shows "csv_scan False [] row (escapeCsvCell t @ s) = csv_scan False t row s"
proof (cases "needs_quotes t")
  case True
  then show ?thesis
    using scan_quoted [OF assms(2), of "[]" row t] by (simp add: escapeCsvCell_def)
next
  case False
  then show ?thesis
    using assms scan_plain [of t "[]" row s] by (simp add: escapeCsvCell_def csv_safe_def)
qed

lemma scan_row:
  assumes "ts \<noteq> []" and "list_all csv_safe ts" and "s = [] \<or> hd s = NL"
  shows "csv_scan False [] row (join '','' (map escapeCsvCell ts) @ s)
    = (if s = [] then [row @ ts] else (row @ ts) # csv_scan False [] [] (tl s))"
  using assms
proof (induction ts arbitrary: row)
  case (Cons t ts)
  have nq: "s = [] \<or> hd s \<noteq> QUOTE"
    using Cons.prems(3) by auto
  show ?case
  proof (cases ts)
    case Nil
    then show ?thesis
      using Cons.prems scan_cell [OF _ nq, of t row] by (cases s) auto
  next
    case (Cons u us)
    have "csv_scan False [] row (join '','' (map escapeCsvCell (t # ts)) @ s)
        = csv_scan False [] (row @ [t]) (join '','' (map escapeCsvCell ts) @ s)"
      using Cons.prems scan_cell [of t "'','' @ join '','' (map escapeCsvCell ts) @ s" row] local.Cons
      by (simp add: join_Cons)
    then show ?thesis
      using Cons.IH [of "row @ [t]"] Cons.prems local.Cons by simp
  qed
qed simp

lemma scan_rows:
  assumes "rows \<noteq> []" and "\<forall>r \<in> set rows. r \<noteq> [] \<and> list_all csv_safe r"
  shows "csv_scan False [] [] (join [NL] (map (\<lambda>r. join '','' (map escapeCsvCell r)) rows)) = rows"
  using assms
proof (induction rows)
  case (Cons r rows)
  show ?case
  proof (cases rows)
    case Nil
    then show ?thesis
      using Cons.prems scan_row [of r "[]" "[]"] by simp
  next
    case (Cons u us)
    then show ?thesis
      using Cons.prems Cons.IH scan_row [of r "NL # join [NL] (map (\<lambda>r. join '','' (map escapeCsvCell r)) rows)" "[]"]
      by (simp add: join_Cons)
  qed
qed simp


subsection \<open>Cells\<close>

lemma digits_no_CR: "CR \<notin> set (dec_digits n)"
  using set_dec_digits [of CR n] by (auto simp: is_digit_def CR_def)

lemma num_str_no_CR: "CR \<notin> set (num_str n)"
proof -
  have "CR \<noteq> c" if "c \<in> set ''-.0InfityNa''" for c
    using that by (auto simp: CR_def code_inject [symmetric] simp del: code_inject) (simp_all add: code_def)
  then show ?thesis
    by (cases n) (auto simp: int_str_def digits_no_CR Let_def)
qed

lemma bool_no_CR: "CR \<notin> set (bool_str b)"
proof -
  have "CR \<notin> set ''true''" and "CR \<notin> set ''false''"
    by code_simp+
  then show ?thesis
    by (simp add: bool_str_def)
qed

lemma set_join: "set (join sep ss) \<subseteq> set sep \<union> (\<Union> (set ` set ss))"
  by (induction sep ss rule: join.induct) auto

lemma json_quote_no_CR: "CR \<notin> set (json_quote s)"
proof -
  have "CR \<noteq> hex_char n" if "n < 16" for n
    using that by (auto simp: CR_def hex_char_def code_inject [symmetric] simp del: code_inject)
  moreover have "code CR = 13"
    by (simp add: CR_def)
  ultimately have "CR \<notin> set (json_char c)" for c
    by (auto simp: json_char_def Let_def code_inject [symmetric] simp del: code_inject) (simp_all add: code_def)
  then show ?thesis
    by (auto simp: json_quote_def CR_def code_inject [symmetric] simp del: code_inject)
qed

lemma json_no_CR: "CR \<notin> set (json v)"
  and json_fields_no_CR: "\<forall>kt \<in> set (json_fields m). CR \<notin> set (snd kt)"
proof (induction v and m rule: json_json_fields.induct)
  case (3 b)
  then show ?case
    using bool_no_CR [of b] by (simp add: bool_str_def)
next
  case (6 vs)
  have "CR \<notin> set (join '','' (map json vs))"
    using 6 set_join [of "'',''" "map json vs"] by auto
  moreover have "CR \<notin> set ''[]''"
    by code_simp
  ultimately show ?case
    by simp
next
  case (7 m)
  let ?ts = "map (\<lambda>(k, t). json_quote k @ '':'' @ t) (own_entries (json_fields m))"
  have "CR \<notin> set '':''" "CR \<notin> set ''{}''"
    by code_simp+
  moreover from this have "CR \<notin> set t" if "t \<in> set ?ts" for t
    using 7 that json_quote_no_CR calculation by (auto split: prod.splits)
  moreover have "CR \<notin> set '',''"
    by code_simp
  ultimately have "CR \<notin> set (join '','' ?ts)" "CR \<notin> set ''{}''"
    using set_join [of "'',''" ?ts] by blast+
  then show ?case
    by simp
qed (use num_str_no_CR json_quote_no_CR in \<open>auto split: if_splits\<close>, code_simp+)

lemma json_quote_quotes: "QUOTE \<in> set (json_quote s)"
  by (simp add: json_quote_def QUOTE_def)

lemma csv_safe_strings: "r \<noteq> [] \<Longrightarrow> csv_safe (json (js_strings r))"
  using json_quote_quotes [of "hd r"]
  by (cases r; cases "tl r") (auto simp: csv_safe_def needs_quotes_def js_strings_def)

lemma json_fields_keys: "JUndefined \<notin> snd ` set m \<Longrightarrow> map fst (json_fields m) = map fst m"
  by (induction m) auto

lemma trim_json:
  "trim (json (JArr vs)) = json (JArr vs)" "trim (json (JObj m)) = json (JObj m)"
  by (rule trim_trimmed, simp add: trimmed_def ws_char_def code_def)+

lemma json_not_Nil: "json (JArr vs) \<noteq> []" "json (JObj m) \<noteq> []"
  by simp_all

definition reads_json :: "(string \<Rightarrow> jsval option) \<Rightarrow> WorkspaceUser \<Rightarrow> bool" where
  "reads_json yaml u \<longleftrightarrow>
     opt_all (\<lambda>r. yaml (json (js_strings r)) = Some (js_strings r)) (wu_roles u)
     \<and> opt_all (\<lambda>t. yaml (json (JObj t)) = Some (JObj t)) (wu_tokens u)
     \<and> opt_all (\<lambda>k. yaml (json (js_strings k)) = Some (js_strings k)) (wu_authorized_keys u)"

definition csv_safe_user :: "WorkspaceUser \<Rightarrow> bool" where
  "csv_safe_user u \<longleftrightarrow> csv_safe (wu_firstname u) \<and> csv_safe (wu_lastname u)
     \<and> opt_all csv_safe (wu_email u) \<and> opt_all csv_safe (wu_password u)
     \<and> opt_all csv_safe (wu_description u)"

lemma csv_safe_Nil: "csv_safe []"
  by (simp add: csv_safe_def)

lemma csv_safe_opt: "opt_all (\<lambda>x. csv_safe (f x)) v \<Longrightarrow> csv_safe (opt_str f v)"
  by (cases v) (simp_all add: opt_str_def csv_safe_Nil)

lemma csv_safe_cells:
  assumes "clean_user u" and "csv_safe_user u"
  shows "list_all csv_safe (csv_cells u)"
proof -
  have "csv_safe (wu_username u)"
    using assms(1) by (auto simp: clean_user_def username_ok_def list_all_iff csv_safe_def CR_def char_class_defs)
  moreover have "csv_safe (opt_str num_str n)" if "opt_all num_nat n" for n
    by (rule csv_safe_opt, rule opt_all_mono [OF that]) (simp add: csv_safe_def num_str_no_CR)
  moreover have "csv_safe (opt_str (\<lambda>r. json (js_strings r)) r)"
    if "opt_all (\<lambda>r. r \<noteq> [] \<and> list_all token r) r" for r
    by (rule csv_safe_opt, rule opt_all_mono [OF that]) (simp add: csv_safe_strings)
  moreover have "csv_safe (opt_str bool_str b)" for b
    by (rule csv_safe_opt) (simp add: opt_all_iff csv_safe_def bool_no_CR)
  moreover have "csv_safe (opt_str (\<lambda>t. json (JObj t)) t)" for t
    by (rule csv_safe_opt) (simp add: opt_all_iff csv_safe_def json_no_CR del: json.simps)
  ultimately show ?thesis
    using assms by (simp add: csv_cells_def clean_user_def csv_safe_user_def csv_safe_opt)
qed


lemma trimmed_js_strings: "asTrimmed (JStr (json (js_strings r))) = json (js_strings r)"
  unfolding js_strings_def by (simp only: asTrimmed_simps trim_json)

lemma trimmed_json_obj: "asTrimmed (JStr (json (JObj t))) = json (JObj t)"
  by (simp only: asTrimmed_simps trim_json)

lemma read_strings_cell:
  assumes "opt_all (\<lambda>r. r \<noteq> [] \<and> list_all token r) r"
    and "opt_all (\<lambda>r. yaml (json (js_strings r)) = Some (js_strings r)) r"
  shows "parseStringList yaml (JStr (opt_str (\<lambda>r. json (js_strings r)) r)) = r"
proof (cases r)
  case (Some ss)
  have "json (js_strings ss) \<noteq> []"
    by (simp add: js_strings_def)
  then show ?thesis
    using assms parse_strings_back [of ss yaml] trimmed_js_strings [of ss] Some
    by (simp add: parseStringList_def opt_str_def Let_def) (simp add: js_strings_def)
qed (simp add: opt_str_def parseStringList_def)

lemma read_cell:
  "opt_all token e \<Longrightarrow> nonempty_str (asTrimmed (JStr (opt_str id e))) = e"
  "opt_all num_nat n \<Longrightarrow> parseOptionalInt (JStr (opt_str num_str n)) = n"
  "opt_all (\<lambda>t. yaml (json (JObj t)) = Some (JObj t)) t
   \<Longrightarrow> parseOptionalObject yaml (JStr (opt_str (\<lambda>t. json (JObj t)) t)) = t"
  "parse_reserved (JStr (opt_str bool_str b)) = b"
proof -
  show "nonempty_str (asTrimmed (JStr (opt_str id e))) = e" if "opt_all token e"
    using that by (cases e) (simp_all add: opt_str_def)
  show "parseOptionalInt (JStr (opt_str num_str n)) = n" if "opt_all num_nat n"
    using that by (cases n) (simp_all add: opt_str_def parse_int_back, simp add: parseOptionalInt_def)
  show "parseOptionalObject yaml (JStr (opt_str (\<lambda>t. json (JObj t)) t)) = t"
    if "opt_all (\<lambda>t. yaml (json (JObj t)) = Some (JObj t)) t"
  proof (cases t)
    case (Some m)
    then have "yaml (json (JObj m)) = Some (JObj m)" "json (JObj m) \<noteq> []"
      using that by simp_all
    with Some show ?thesis
      by (simp add: opt_str_def parseOptionalObject_def trimmed_json_obj Let_def
          del: json.simps asTrimmed_simps)
  qed (simp add: opt_str_def parseOptionalObject_def)
  show "parse_reserved (JStr (opt_str bool_str b)) = b"
  proof (cases b)
    case (Some x)
    then show ?thesis
      by (cases x) (simp_all add: opt_str_def bool_str_def, code_simp+)
  qed (simp add: opt_str_def parse_reserved_def to_lower_def)
qed

lemma csv_headers_read: "map csv_header USER_CSV_HEADERS = USER_CSV_HEADERS"
  by code_simp

lemma csv_record_cells:
  "csv_record USER_CSV_HEADERS [c0, c1, c2, c3, c4, c5, c6, c7, c8, c9, c10, c11]
   = JObj (zip USER_CSV_HEADERS (map JStr [c0, c1, c2, c3, c4, c5, c6, c7, c8, c9, c10, c11]))"
  by (simp add: csv_record_def USER_CSV_HEADERS_def upt_rec)

lemma csv_user_back:
  assumes u: "clean_user u" and json: "reads_json yaml u"
  shows "normalizeWorkspaceUser yaml JUndefined
    (csv_user_record (csv_record USER_CSV_HEADERS (csv_cells u))) = Some u"
proof -
  have tok: "trim (wu_firstname u) = wu_firstname u" "wu_firstname u \<noteq> []"
    "trim (wu_lastname u) = wu_lastname u" "wu_lastname u \<noteq> []"
    using u by (simp_all add: clean_user_def token_def)
  have un: "username_ok (wu_username u)" "to_lower (trim (wu_username u)) = wu_username u"
    using u username_ok_lower by (simp_all add: clean_user_def)
  define r where "r = csv_user_record (csv_record USER_CSV_HEADERS (csv_cells u))"
  have r: "is_obj r" "jget r ''username'' = JStr (wu_username u)" "jget r ''firstname'' = JStr (wu_firstname u)"
    "jget r ''lastname'' = JStr (wu_lastname u)" "jget r ''email'' = JStr (opt_str id (wu_email u))"
    "jget r ''password'' = JStr (opt_str id (wu_password u))" "jget r ''uid'' = JStr (opt_str num_str (wu_uid u))"
    "jget r ''gid'' = JStr (opt_str num_str (wu_gid u))"
    "jget r ''roles'' = JStr (opt_str (\<lambda>r. json (js_strings r)) (wu_roles u))"
    "jget r ''tokens'' = JStr (opt_str (\<lambda>t. json (JObj t)) (wu_tokens u))"
    "coalesce (jget r ''authorized_keys'') (jget r ''authorizedKeys'')
     = JStr (opt_str (\<lambda>r. json (js_strings r)) (wu_authorized_keys u))"
    "jget r ''reserved'' = JStr (opt_str bool_str (wu_reserved u))"
    "jget r ''description'' = JStr (opt_str id (wu_description u))"
    unfolding r_def csv_cells_def csv_record_cells
    by (simp_all add: csv_user_record_def USER_CSV_HEADERS_def is_obj_def del: json.simps)
  have read: "nonempty_str (asTrimmed (JStr (opt_str id (wu_email u)))) = wu_email u"
    "nonempty_str (asTrimmed (JStr (opt_str id (wu_password u)))) = wu_password u"
    "nonempty_str (asTrimmed (JStr (opt_str id (wu_description u)))) = wu_description u"
    "parseOptionalInt (JStr (opt_str num_str (wu_uid u))) = wu_uid u"
    "parseOptionalInt (JStr (opt_str num_str (wu_gid u))) = wu_gid u"
    using u by (simp_all add: clean_user_def read_cell del: asTrimmed_simps)
  have lists: "parseStringList yaml (JStr (opt_str (\<lambda>r. json (js_strings r)) (wu_roles u))) = wu_roles u"
    "parseStringList yaml (JStr (opt_str (\<lambda>r. json (js_strings r)) (wu_authorized_keys u))) = wu_authorized_keys u"
    using u json by (simp_all add: clean_user_def reads_json_def read_strings_cell)
  have ts: "(case parseOptionalObject yaml (JStr (opt_str (\<lambda>t. json (JObj t)) (wu_tokens u))) of
      Some t \<Rightarrow> some_list t | None \<Rightarrow> None) = wu_tokens u"
    using u json by (cases "wu_tokens u")
      (simp_all add: read_cell(3) reads_json_def clean_user_def some_list_def del: json.simps)
  show ?thesis
    unfolding normalizeWorkspaceUser_def Let_def r_def [symmetric] r coalesce_simps read lists ts read_cell(4)
    by (simp add: tok un r(1))
qed


subsection \<open>The round trip\<close>

lemma header_cells: "list_all csv_safe USER_CSV_HEADERS" "map escapeCsvCell USER_CSV_HEADERS = USER_CSV_HEADERS"
  by code_simp+

lemma usersToCsv_rows:
  "usersToCsv us = join [NL] (map (\<lambda>r. join '','' (map escapeCsvCell r)) (USER_CSV_HEADERS # map csv_cells us))"
  by (simp add: usersToCsv_def header_cells comp_def)

lemma csv_rows_back:
  assumes "list_all clean_user us" and "list_all csv_safe_user us"
  shows "parseCsvRows (usersToCsv us) = USER_CSV_HEADERS # map csv_cells us"
proof -
  let ?rows = "USER_CSV_HEADERS # map csv_cells us"
  have "\<forall>r \<in> set ?rows. r \<noteq> [] \<and> list_all csv_safe r"
    using assms header_cells csv_safe_cells by (auto simp: list_all_iff csv_cells_def USER_CSV_HEADERS_def)
  then have "csv_scan False [] [] (usersToCsv us) = ?rows"
    unfolding usersToCsv_rows by (intro scan_rows) simp_all
  moreover have "list_ex (\<lambda>c. trim c \<noteq> []) (csv_cells u)" if "clean_user u" for u
    using that by (simp add: csv_cells_def clean_user_def token_def)
  moreover have "list_ex (\<lambda>c. trim c \<noteq> []) USER_CSV_HEADERS"
    by code_simp
  ultimately show ?thesis
    using assms(1) by (auto simp: parseCsvRows_def list_all_iff intro!: filter_True)
qed

text \<open>
  C11: an export as CSV is imported back unchanged. For users in normal form with distinct names,
  whose texts have no carriage return in a cell that is written without quotes, reading the
  exported text gives the same list of users, every field included, whatever commas, quotes and
  line feeds the texts hold. The YAML library must read the JSON text of the lists and the token
  record back, as a YAML 1.2 parser does.
\<close>

theorem csv_roundtrip:
  assumes "list_all clean_user us" and "list_all csv_safe_user us" and "list_all (reads_json yaml) us"
    and "distinct (map wu_username us)"
  shows "parseUsersFromCsv yaml (usersToCsv us) = us"
proof -
  have "List.map_filter (\<lambda>cells. normalizeWorkspaceUser yaml JUndefined
      (csv_user_record (csv_record USER_CSV_HEADERS cells))) (map csv_cells us) = map id us"
    using assms by (intro map_filter_map) (auto simp: list_all_iff csv_user_back)
  then show ?thesis
    using assms by (simp add: parseUsersFromCsv_def csv_rows_back csv_headers_read dedupe_id)
qed

text \<open>What the import needs of the YAML library, on a concrete library.\<close>

definition demo_user :: WorkspaceUser where
  "demo_user =
     \<lparr>wu_username = ''ann7'', wu_firstname = ''Ann, \"A\"'', wu_lastname = ''Lee'',
      wu_email = Some ''ann@x.org'', wu_password = None, wu_uid = Some (Dec 1001 0), wu_gid = None,
      wu_roles = Some [''admin'', ''web app''], wu_tokens = Some [(''api'', JNum (Dec 1 0))],
      wu_authorized_keys = None, wu_reserved = Some True, wu_description = None\<rparr>"

definition demo_yaml :: "string \<Rightarrow> jsval option" where
  "demo_yaml s =
     (if s = json (js_strings [''admin'', ''web app'']) then Some (js_strings [''admin'', ''web app''])
      else if s = json (JObj [(''api'', JNum (Dec 1 0))]) then Some (JObj [(''api'', JNum (Dec 1 0))])
      else None)"

theorem csv_roundtrip_witness:
  "parseUsersFromCsv demo_yaml (usersToCsv [demo_user, demo_user\<lparr>wu_username := ''bob''\<rparr>])
   = [demo_user, demo_user\<lparr>wu_username := ''bob''\<rparr>]"
  by (rule csv_roundtrip; code_simp)

subsection \<open>A bare carriage return\<close>

lemma scan_no_CR:
  "\<not> inQuotes \<Longrightarrow> QUOTE \<notin> set s \<Longrightarrow> CR \<notin> set cell \<Longrightarrow> list_all (\<lambda>c. CR \<notin> set c) row
   \<Longrightarrow> list_all (list_all (\<lambda>c. CR \<notin> set c)) (csv_scan inQuotes cell row s)"
proof (induction inQuotes cell row s rule: csv_scan.induct)
  case (2 inQuotes cell row c s)
  have tl: "QUOTE \<notin> set (tl s)"
    using 2(7) by (cases s) auto
  have c: "c \<noteq> QUOTE" and s: "QUOTE \<notin> set s"
    using 2(7) by auto
  show ?case
  proof (cases "c = CHR '',''")
    case True
    with 2(3) [OF c] 2(6,8,9) c s show ?thesis by simp
  next
    case comma: False
    show ?thesis
    proof (cases "c = NL \<or> c = CR")
      case True
      with 2(4) [OF c] 2(6,8,9) c comma s tl show ?thesis by (auto split: if_splits)
    next
      case False
      with 2(5) [OF c] 2(6,8,9) c comma s show ?thesis by auto
    qed
  qed
qed simp

text \<open>
  A bare carriage return is lost in the exchange. A text with one, and with no comma, quote
  or line feed, is written without quotes, and the scanner takes the carriage return as the end
  of the row: whatever the text, it is not read back.
\<close>

theorem bare_CR_lost:
  assumes "CR \<in> set t" and "\<not> needs_quotes t"
  shows "parseCsvRows (escapeCsvCell t) \<noteq> [[t]]"
proof
  assume "parseCsvRows (escapeCsvCell t) = [[t]]"
  then have "[t] \<in> set (csv_scan False [] [] t)"
    using assms(2) by (auto simp: parseCsvRows_def escapeCsvCell_def dest: filter_eq_ConsD)
  moreover have "QUOTE \<notin> set t"
    using assms(2) by (simp add: needs_quotes_def)
  ultimately show False
    using assms(1) scan_no_CR [of False t "[]" "[]"] by (auto simp: list_all_iff)
qed

theorem bare_CR_lost_witness:
  "parseCsvRows (escapeCsvCell (''Ann'' @ [CR] @ ''Lee'')) \<noteq> [[''Ann'' @ [CR] @ ''Lee'']]"
  by (rule bare_CR_lost; code_simp)

end
