(* ===== verification/UsersEditor.thy ===== *)
theory UsersEditor
  imports UsersCsv
begin

text \<open>
  The users editor of the workspace panel (\<open>workspace-panel/useWorkspaceUsers.ts\<close> and
  \<open>syncPricingUsersStorage\<close> of \<open>users-utils.ts\<close>): the list of users that is edited, its form, the
  selection, import, export and save. The React state is one record, a callback a function on it.
  A callback that waits for an answer is split there: the part before computes a job from the
  state it captured, the part after applies the outcome. Downloads are logged in \<open>us_downloads\<close>;
  \<open>us_pricing\<close> is the item kept for the price view. The YAML library is \<open>yaml\<close> and \<open>to_yaml\<close>.
\<close>

subsection \<open>State\<close>

datatype editor_mode = Create_user | Edit_user

datatype import_format = Csv | Yaml

datatype UsersAction = Overview | Add_user | Import_csv | Import_yaml | Export_csv | Export_yaml

record users_state =
  us_workspaceId :: "string option"
  us_overviewOpen :: bool
  us_loading :: bool
  us_saving :: bool
  us_error :: "string option"
  us_status :: "string option"
  us_draft :: "WorkspaceUser list"
  us_selection :: "(string \<times> bool) list"
  us_doc :: "(string \<times> jsval) list"
  us_form :: WorkspaceUserForm
  us_mode :: editor_mode
  us_editing :: "string option"
  us_modalOpen :: bool
  us_importFormat :: "import_format option"
  us_downloads :: "(string \<times> string \<times> string) list"
  us_pricing :: "jsval option"

definition initial_users :: "string option \<Rightarrow> users_state" where
  "initial_users ws =
     \<lparr>us_workspaceId = ws, us_overviewOpen = False, us_loading = False, us_saving = False,
      us_error = None, us_status = None, us_draft = [], us_selection = [], us_doc = [],
      us_form = emptyUserForm, us_mode = Create_user, us_editing = None, us_modalOpen = False,
      us_importFormat = None, us_downloads = [], us_pricing = None\<rparr>"

definition has_id :: "string option \<Rightarrow> bool" where
  "has_id ws \<longleftrightarrow> ws \<noteq> None \<and> ws \<noteq> Some []"

subsection \<open>The price view\<close>

definition pricing_user :: "WorkspaceUser \<Rightarrow> jsval" where
  "pricing_user user =
     JObj ([(''username'', JStr (wu_username user)), (''firstname'', JStr (wu_firstname user)),
            (''lastname'', JStr (wu_lastname user))]
           @ opt_entry ''email'' JStr (\<lambda>s. s \<noteq> []) (wu_email user))"

definition syncPricingUsersStorage :: "WorkspaceUser list \<Rightarrow> users_state \<Rightarrow> users_state" where
  "syncPricingUsersStorage users st = st\<lparr>us_pricing := Some (JArr (map pricing_user users))\<rparr>"

subsection \<open>Reading the file\<close>

datatype file_reply = Unreachable string | Refused nat string | Bad_body string | Body jsval

definition readWorkspaceUsers ::
  "(string \<Rightarrow> jsval option) \<Rightarrow> string option \<Rightarrow> file_reply \<Rightarrow>
   string + (string \<times> jsval) list \<times> WorkspaceUser list" where
  "readWorkspaceUsers yaml ws res =
     (if \<not> has_id ws then Inl ''Workspace is not ready.''
      else case res of
        Unreachable message \<Rightarrow> Inl message
      | Refused status detail \<Rightarrow> if status = 404 then Inr ([], []) else Inl detail
      | Bad_body message \<Rightarrow> Inl message
      | Body data \<Rightarrow>
          (let content = str_nn (jget data ''content'') in
           if trim content = [] then Inr ([], [])
           else case yaml content of
             None \<Rightarrow> Inl ''group_vars/all.yml is not valid YAML.''
           | Some parsed \<Rightarrow>
               (let doc = obj_fields (coalesce parsed (JObj []))
                in Inr (doc, extractWorkspaceUsers yaml (jget (JObj doc) ''users'')))))"

subsection \<open>Export and import\<close>

definition downloadUsersExport :: "string \<Rightarrow> string \<Rightarrow> string \<Rightarrow> users_state \<Rightarrow> users_state" where
  "downloadUsersExport filename content mimeType st =
     st\<lparr>us_downloads := us_downloads st @ [(filename, content, mimeType)]\<rparr>"

definition exportUsersYaml :: "(jsval \<Rightarrow> string) \<Rightarrow> WorkspaceUser list \<Rightarrow> users_state \<Rightarrow> users_state" where
  "exportUsersYaml to_yaml users st =
     downloadUsersExport ''users.yml'' (to_yaml (JObj [(''users'', JObj (toYamlUsersMap users))]))
       ''application/x-yaml'' st"

definition exportUsersCsv :: "WorkspaceUser list \<Rightarrow> users_state \<Rightarrow> users_state" where
  "exportUsersCsv users st =
     downloadUsersExport ''users.csv'' (usersToCsv users) ''text/csv;charset=utf-8'' st"

definition triggerUsersImport :: "import_format \<Rightarrow> users_state \<Rightarrow> users_state" where
  "triggerUsersImport format st = st\<lparr>us_importFormat := Some format\<rparr>"

definition startCreateUserEditor :: "users_state \<Rightarrow> users_state" where
  "startCreateUserEditor st =
     st\<lparr>us_mode := Create_user, us_editing := None, us_form := emptyUserForm, us_modalOpen := True,
        us_error := None, us_status := Some ''Create a new user.''\<rparr>"

text \<open>The selection of a list of users where nobody is selected.\<close>

definition none_selected :: "WorkspaceUser list \<Rightarrow> (string \<times> bool) list" where
  "none_selected users = foldl (\<lambda>next user. AList.update (wu_username user) False next) [] users"

subsection \<open>Opening and closing\<close>

definition openUsersEditor_begin :: "UsersAction \<Rightarrow> users_state \<Rightarrow> users_state" where
  "openUsersEditor_begin act st =
     (if \<not> has_id (us_workspaceId st) then st
      else st\<lparr>us_overviewOpen := act \<noteq> Add_user, us_loading := True, us_saving := False,
        us_error := None, us_status := None, us_mode := Create_user, us_editing := None,
        us_modalOpen := False, us_form := emptyUserForm\<rparr>)"

definition open_action ::
  "(jsval \<Rightarrow> string) \<Rightarrow> UsersAction \<Rightarrow> WorkspaceUser list \<Rightarrow> users_state \<Rightarrow> users_state" where
  "open_action to_yaml act users st =
     (case act of
        Export_csv \<Rightarrow> (exportUsersCsv users st)\<lparr>us_status := Some ''Users exported as CSV.''\<rparr>
      | Export_yaml \<Rightarrow> (exportUsersYaml to_yaml users st)\<lparr>us_status := Some ''Users exported as YML.''\<rparr>
      | Import_csv \<Rightarrow> triggerUsersImport Csv st
      | Import_yaml \<Rightarrow> triggerUsersImport Yaml st
      | Add_user \<Rightarrow> startCreateUserEditor st
      | Overview \<Rightarrow> st)"

definition openUsersEditor_end ::
  "(string \<Rightarrow> jsval option) \<Rightarrow> (jsval \<Rightarrow> string) \<Rightarrow> UsersAction \<Rightarrow> string option \<Rightarrow> file_reply
   \<Rightarrow> users_state \<Rightarrow> users_state" where
  "openUsersEditor_end yaml to_yaml act ws res st =
     (case readWorkspaceUsers yaml ws res of
        Inl message \<Rightarrow> st\<lparr>us_doc := [], us_draft := [], us_error := Some message, us_loading := False\<rparr>
      | Inr (doc, users) \<Rightarrow>
          (open_action to_yaml act users
             (syncPricingUsersStorage users
               (st\<lparr>us_doc := doc, us_draft := users, us_selection := none_selected users\<rparr>)))
          \<lparr>us_loading := False\<rparr>)"

definition closeUsersEditor :: "users_state \<Rightarrow> users_state" where
  "closeUsersEditor st =
     (if us_saving st then st
      else st\<lparr>us_overviewOpen := False, us_loading := False, us_error := None, us_status := None,
        us_mode := Create_user, us_editing := None, us_modalOpen := False, us_form := emptyUserForm,
        us_importFormat := None\<rparr>)"

subsection \<open>Editing one user\<close>

definition quoted :: "string \<Rightarrow> string" where
  "quoted s = [char_of (39 :: nat)] @ s @ [char_of (39 :: nat)]"

definition startEditUserEditor :: "(jsval \<Rightarrow> string) \<Rightarrow> string \<Rightarrow> users_state \<Rightarrow> users_state" where
  "startEditUserEditor to_yaml username st =
     (case find (\<lambda>entry. wu_username entry = username) (us_draft st) of
        None \<Rightarrow> st\<lparr>us_error := Some (''User '' @ quoted username @ '' not found.'')\<rparr>
      | Some target \<Rightarrow>
          st\<lparr>us_mode := Edit_user, us_editing := Some (wu_username target),
             us_form := userToForm to_yaml target, us_modalOpen := True, us_error := None,
             us_status := Some (''Editing user '' @ quoted (wu_username target) @ ''.'')\<rparr>)"

definition closeUserEntryModal :: "users_state \<Rightarrow> users_state" where
  "closeUserEntryModal st = (if us_saving st then st else st\<lparr>us_modalOpen := False\<rparr>)"

text \<open>The user a form describes, or the message that is shown.\<close>

definition user_of_form ::
  "(string \<Rightarrow> jsval option) \<Rightarrow> WorkspaceUserForm \<Rightarrow> string + WorkspaceUser" where
  "user_of_form yaml form =
     (let username = to_lower (trim (uf_username form));
          firstname = trim (uf_firstname form);
          lastname = trim (uf_lastname form) in
      if \<not> username_ok username then Inl ''Username must match a-z0-9.''
      else if firstname = [] \<or> lastname = [] then Inl ''Firstname and lastname are required.''
      else
        let tokens = parseOptionalObject yaml (JStr (uf_tokens form)) in
        if trim (uf_tokens form) \<noteq> [] \<and> tokens = None then Inl ''Tokens must be a YAML/JSON object.''
        else Inr \<lparr>wu_username = username, wu_firstname = firstname, wu_lastname = lastname,
          wu_email = nonempty_str (trim (uf_email form)),
          wu_password = nonempty_str (trim (uf_password form)),
          wu_uid = parseOptionalInt (JStr (uf_uid form)),
          wu_gid = parseOptionalInt (JStr (uf_gid form)),
          wu_roles = parseStringList yaml (JStr (uf_roles form)),
          wu_tokens = tokens,
          wu_authorized_keys = parseStringList yaml (JStr (uf_authorized_keys form)),
          wu_reserved = (if uf_reserved form = ''true'' then Some True
                         else if uf_reserved form = ''false'' then Some False else None),
          wu_description = nonempty_str (trim (uf_description form))\<rparr>)"

definition editing_key :: "users_state \<Rightarrow> string option" where
  "editing_key st =
     (case us_mode st of
        Create_user \<Rightarrow> None
      | Edit_user \<Rightarrow> if has_id (us_editing st) then us_editing st else None)"

definition draft_has :: "string \<Rightarrow> users_state \<Rightarrow> bool" where
  "draft_has username st \<longleftrightarrow> list_ex (\<lambda>entry. wu_username entry = username) (us_draft st)"

definition select_edited :: "string option \<Rightarrow> string \<Rightarrow> (string \<times> bool) list \<Rightarrow> (string \<times> bool) list" where
  "select_edited key username prev =
     (let next = (case key of Some k \<Rightarrow> if k \<noteq> username then AList.delete k prev else prev | None \<Rightarrow> prev)
      in if map_of next username = None then AList.update username False next else next)"

definition put_user :: "WorkspaceUser \<Rightarrow> users_state \<Rightarrow> users_state" where
  "put_user user st =
     (let key = editing_key st;
          nextDraft = (case key of
            Some k \<Rightarrow> map (\<lambda>entry. if wu_username entry = k then user else entry) (us_draft st)
          | None \<Rightarrow> us_draft st @ [user]);
          st' = (case key of
            Some k \<Rightarrow> st\<lparr>us_mode := Edit_user, us_editing := Some (wu_username user),
              us_status := Some (''User '' @ quoted (wu_username user) @ '' updated. Save to persist changes.'')\<rparr>
          | None \<Rightarrow> st\<lparr>us_mode := Create_user, us_editing := None, us_form := emptyUserForm,
              us_status := Some (''User '' @ quoted (wu_username user) @ '' added. Save to persist changes.'')\<rparr>)
      in (syncPricingUsersStorage nextDraft
           (st'\<lparr>us_draft := nextDraft,
                us_selection := select_edited key (wu_username user) (us_selection st)\<rparr>))
         \<lparr>us_error := None, us_modalOpen := False\<rparr>)"

definition applyUserEditor :: "(string \<Rightarrow> jsval option) \<Rightarrow> users_state \<Rightarrow> users_state" where
  "applyUserEditor yaml st =
     (case user_of_form yaml (us_form st) of
        Inl message \<Rightarrow> st\<lparr>us_error := Some message\<rparr>
      | Inr user \<Rightarrow>
          (let username = wu_username user in
           if (case editing_key st of Some k \<Rightarrow> username \<noteq> k \<and> draft_has username st
               | None \<Rightarrow> draft_has username st)
           then st\<lparr>us_error := Some (''User '' @ quoted username @ '' already exists.'')\<rparr>
           else put_user user st))"

subsection \<open>Removing and selecting\<close>

definition leave_editor :: "users_state \<Rightarrow> users_state" where
  "leave_editor st =
     st\<lparr>us_mode := Create_user, us_editing := None, us_form := emptyUserForm, us_modalOpen := False\<rparr>"

definition removeUserDraft :: "string \<Rightarrow> users_state \<Rightarrow> users_state" where
  "removeUserDraft username st =
     (let next = filter (\<lambda>entry. wu_username entry \<noteq> username) (us_draft st);
          st' = syncPricingUsersStorage next
            (st\<lparr>us_draft := next, us_selection := AList.delete username (us_selection st),
                us_error := None,
                us_status := Some (''User '' @ quoted username @ '' removed. Save to persist changes.'')\<rparr>)
      in if us_editing st = Some username then leave_editor st' else st')"

definition toggleUserSelection :: "string \<Rightarrow> bool \<Rightarrow> users_state \<Rightarrow> users_state" where
  "toggleUserSelection username checked st =
     st\<lparr>us_selection := AList.update username checked (us_selection st)\<rparr>"

definition setUsersSelectionAll :: "bool \<Rightarrow> users_state \<Rightarrow> users_state" where
  "setUsersSelectionAll checked st =
     st\<lparr>us_selection :=
       foldl (\<lambda>next user. AList.update (wu_username user) checked next) (us_selection st) (us_draft st)\<rparr>"

definition selected_names :: "users_state \<Rightarrow> string list" where
  "selected_names st =
     filter (\<lambda>username. map_of (us_selection st) username = Some True) (map wu_username (us_draft st))"

definition deleteSelectedUsers :: "users_state \<Rightarrow> users_state" where
  "deleteSelectedUsers st =
     (let selected = selected_names st in
      if selected = [] then st\<lparr>us_error := Some ''No users selected.''\<rparr>
      else
        let next = filter (\<lambda>entry. wu_username entry \<notin> set selected) (us_draft st);
            st' = syncPricingUsersStorage next
              (st\<lparr>us_draft := next,
                  us_selection := foldl (\<lambda>next username. AList.delete username next) (us_selection st) selected,
                  us_error := None,
                  us_status := Some (dec_digits (length selected) @ '' user(s) removed. Save to persist changes.'')\<rparr>)
        in if (case us_editing st of Some username \<Rightarrow> username \<noteq> [] \<and> username \<in> set selected | None \<Rightarrow> False)
           then leave_editor st' else st')"

definition selectedUsersCount :: "users_state \<Rightarrow> nat" where
  "selectedUsersCount st =
     foldl (\<lambda>n user. n + (if map_of (us_selection st) (wu_username user) = Some True then 1 else 0)) 0
       (us_draft st)"

subsection \<open>Import\<close>

definition import_format_of :: "string \<Rightarrow> users_state \<Rightarrow> import_format" where
  "import_format_of fileName st =
     (case us_importFormat st of
        Some format \<Rightarrow> format
      | None \<Rightarrow> if ends_with (to_lower fileName) ''.csv'' then Csv else Yaml)"

definition import_begin :: "users_state \<Rightarrow> users_state" where
  "import_begin st = st\<lparr>us_error := None, us_status := None\<rparr>"

text \<open>\<open>None\<close> when reading the file or parsing it throws.\<close>

definition imported_users ::
  "(string \<Rightarrow> jsval option) \<Rightarrow> import_format \<Rightarrow> string option \<Rightarrow> WorkspaceUser list option" where
  "imported_users yaml format content =
     (case content of
        None \<Rightarrow> None
      | Some s \<Rightarrow>
          (case format of
             Csv \<Rightarrow> Some (parseUsersFromCsv yaml s)
           | Yaml \<Rightarrow>
               (case yaml s of
                  None \<Rightarrow> None
                | Some parsed \<Rightarrow>
                    if is_obj parsed \<and> jhas parsed ''users''
                    then Some (extractWorkspaceUsers yaml (jget parsed ''users''))
                    else Some (extractWorkspaceUsers yaml parsed))))"

definition handleUsersImportSelect ::
  "(string \<Rightarrow> jsval option) \<Rightarrow> import_format \<Rightarrow> string option \<Rightarrow> users_state \<Rightarrow> users_state" where
  "handleUsersImportSelect yaml format content st =
     (case imported_users yaml format content of
        None \<Rightarrow> st\<lparr>us_error := Some ''Failed to import users. Check file format.'', us_importFormat := None\<rparr>
      | Some importedUsers \<Rightarrow>
          (let uniqueUsers = dedupeWorkspaceUsers importedUsers in
           if uniqueUsers = [] then
             st\<lparr>us_error := Some ''Import contains no valid users.'', us_importFormat := None\<rparr>
           else
             syncPricingUsersStorage uniqueUsers
               (st\<lparr>us_draft := uniqueUsers, us_selection := none_selected uniqueUsers,
                   us_mode := Create_user, us_editing := None, us_form := emptyUserForm,
                   us_status := Some (''Imported '' @ dec_digits (length uniqueUsers)
                     @ '' user(s). Save to write group_vars/all.yml.''),
                   us_importFormat := None\<rparr>)))"

subsection \<open>Saving\<close>

text \<open>A user of the list as the untyped record that is normalised again.\<close>

definition user_value :: "WorkspaceUser \<Rightarrow> jsval" where
  "user_value user = JObj
     ([(''username'', JStr (wu_username user)), (''firstname'', JStr (wu_firstname user)),
       (''lastname'', JStr (wu_lastname user))]
      @ opt_entry ''email'' JStr (\<lambda>_. True) (wu_email user)
      @ opt_entry ''password'' JStr (\<lambda>_. True) (wu_password user)
      @ opt_entry ''uid'' JNum (\<lambda>_. True) (wu_uid user)
      @ opt_entry ''gid'' JNum (\<lambda>_. True) (wu_gid user)
      @ opt_entry ''roles'' js_strings (\<lambda>_. True) (wu_roles user)
      @ opt_entry ''tokens'' JObj (\<lambda>_. True) (wu_tokens user)
      @ opt_entry ''authorized_keys'' js_strings (\<lambda>_. True) (wu_authorized_keys user)
      @ opt_entry ''reserved'' JBool (\<lambda>_. True) (wu_reserved user)
      @ opt_entry ''description'' JStr (\<lambda>_. True) (wu_description user))"

definition normalized_users :: "(string \<Rightarrow> jsval option) \<Rightarrow> WorkspaceUser list \<Rightarrow> WorkspaceUser list" where
  "normalized_users yaml users =
     dedupeWorkspaceUsers (List.map_filter (\<lambda>u. normalizeWorkspaceUser yaml JUndefined (user_value u)) users)"

record save_job =
  sj_users :: "WorkspaceUser list"
  sj_doc :: "(string \<times> jsval) list"
  sj_content :: string

text \<open>The part before the request: a message, or the job of the save (\<open>None\<close>: nothing happens).\<close>

definition save_users_job ::
  "(string \<Rightarrow> jsval option) \<Rightarrow> (jsval \<Rightarrow> string) \<Rightarrow> users_state \<Rightarrow> (string + save_job) option" where
  "save_users_job yaml to_yaml st =
     (if \<not> has_id (us_workspaceId st) then None
      else
        let uniqueUsers = normalized_users yaml (us_draft st) in
        if length (us_draft st) > length uniqueUsers
        then Some (Inl ''Fix invalid users first (username a-z0-9, firstname, lastname).'')
        else
          let nextDoc = AList.update ''users'' (JObj (toYamlUsersMap uniqueUsers)) (us_doc st)
          in Some (Inr \<lparr>sj_users = uniqueUsers, sj_doc = nextDoc, sj_content = to_yaml (JObj nextDoc)\<rparr>))"

definition saveWorkspaceUsers_begin ::
  "(string \<Rightarrow> jsval option) \<Rightarrow> (jsval \<Rightarrow> string) \<Rightarrow> users_state \<Rightarrow> users_state" where
  "saveWorkspaceUsers_begin yaml to_yaml st =
     (case save_users_job yaml to_yaml st of
        None \<Rightarrow> st
      | Some (Inl message) \<Rightarrow> st\<lparr>us_error := Some message\<rparr>
      | Some (Inr job) \<Rightarrow> st\<lparr>us_saving := True, us_error := None, us_status := None\<rparr>)"

text \<open>What the request and the refresh of the file list throw.\<close>

datatype save_outcome = Save_failed string | Saved "string option"

definition saveWorkspaceUsers_end :: "save_job \<Rightarrow> save_outcome \<Rightarrow> users_state \<Rightarrow> users_state" where
  "saveWorkspaceUsers_end job res st =
     (case res of
        Save_failed message \<Rightarrow> st\<lparr>us_error := Some message, us_saving := False\<rparr>
      | Saved refreshError \<Rightarrow>
          (let st' = syncPricingUsersStorage (sj_users job)
                 (st\<lparr>us_doc := sj_doc job, us_draft := sj_users job,
                     us_selection := none_selected (sj_users job)\<rparr>)
           in (case refreshError of
                 Some message \<Rightarrow> st'\<lparr>us_error := Some message, us_saving := False\<rparr>
               | None \<Rightarrow> st'\<lparr>us_status := Some (''Saved '' @ dec_digits (length (sj_users job))
                   @ '' user(s) to group_vars/all.yml.''), us_saving := False\<rparr>)))"

subsection \<open>Events\<close>

text \<open>
  Whatever the user and the answers do, as one step function. The event \<open>Save_ends\<close> carries the job
  of a save that began in some earlier state.
\<close>

datatype users_event =
  Open_begins UsersAction
| Open_ends UsersAction "string option" file_reply
| Close_editor
| Create_starts
| Edit_starts string
| Close_modal
| Form_set WorkspaceUserForm
| Apply_editor
| Remove_user string
| Toggle_user string bool
| Select_users bool
| Delete_selected
| Import_begins
| Import_ends import_format "string option"
| Save_begins
| Save_ends save_job save_outcome

fun users_step ::
  "(string \<Rightarrow> jsval option) \<Rightarrow> (jsval \<Rightarrow> string) \<Rightarrow> users_event \<Rightarrow> users_state \<Rightarrow> users_state" where
  "users_step yaml to_yaml (Open_begins act) st = openUsersEditor_begin act st"
| "users_step yaml to_yaml (Open_ends act ws res) st = openUsersEditor_end yaml to_yaml act ws res st"
| "users_step yaml to_yaml Close_editor st = closeUsersEditor st"
| "users_step yaml to_yaml Create_starts st = startCreateUserEditor st"
| "users_step yaml to_yaml (Edit_starts name) st = startEditUserEditor to_yaml name st"
| "users_step yaml to_yaml Close_modal st = closeUserEntryModal st"
| "users_step yaml to_yaml (Form_set form) st = st\<lparr>us_form := form\<rparr>"
| "users_step yaml to_yaml Apply_editor st = applyUserEditor yaml st"
| "users_step yaml to_yaml (Remove_user name) st = removeUserDraft name st"
| "users_step yaml to_yaml (Toggle_user name checked) st = toggleUserSelection name checked st"
| "users_step yaml to_yaml (Select_users checked) st = setUsersSelectionAll checked st"
| "users_step yaml to_yaml Delete_selected st = deleteSelectedUsers st"
| "users_step yaml to_yaml Import_begins st = import_begin st"
| "users_step yaml to_yaml (Import_ends format content) st = handleUsersImportSelect yaml format content st"
| "users_step yaml to_yaml Save_begins st = saveWorkspaceUsers_begin yaml to_yaml st"
| "users_step yaml to_yaml (Save_ends job res) st = saveWorkspaceUsers_end job res st"

subsection \<open>The invariant of the list\<close>

definition valid_user :: "WorkspaceUser \<Rightarrow> bool" where
  "valid_user u \<longleftrightarrow> username_ok (wu_username u) \<and> token (wu_firstname u) \<and> token (wu_lastname u)"

definition users_ok :: "WorkspaceUser list \<Rightarrow> bool" where
  "users_ok us \<longleftrightarrow> list_all valid_user us \<and> distinct (map wu_username us)"

definition draft_ok :: "users_state \<Rightarrow> bool" where
  "draft_ok st \<longleftrightarrow> users_ok (us_draft st)"

lemma clean_valid: "clean_user u \<Longrightarrow> valid_user u"
  by (simp add: clean_user_def valid_user_def)

lemma clean_users_ok: "list_all clean_user us \<Longrightarrow> distinct (map wu_username us) \<Longrightarrow> users_ok us"
  by (auto simp: users_ok_def list_all_iff clean_valid)

lemma users_ok_Nil [simp]: "users_ok []"
  by (simp add: users_ok_def)

lemma users_ok_filter: "users_ok us \<Longrightarrow> users_ok (filter P us)"
  by (auto simp: users_ok_def list_all_iff distinct_map inj_on_subset intro: inj_on_subset)

lemma users_ok_extract: "users_ok (extractWorkspaceUsers yaml v)"
  using extract_users [of yaml v] by (simp add: clean_users_ok)

lemma clean_map_filter:
  "list_all clean_user (dedupeWorkspaceUsers (List.map_filter (\<lambda>x. normalizeWorkspaceUser yaml fb (f x)) xs))"
  using set_dedupe by (fastforce simp: list_all_iff set_map_filter dest: normalize_clean)

lemma parse_csv_clean: "list_all clean_user (parseUsersFromCsv yaml s) \<and> distinct (map wu_username (parseUsersFromCsv yaml s))"
  by (simp add: parseUsersFromCsv_def Let_def clean_map_filter distinct_dedupe split: list.split)

lemma imported_clean:
  "imported_users yaml format content = Some us \<Longrightarrow> list_all clean_user us \<and> distinct (map wu_username us)"
  using parse_csv_clean extract_users
  by (auto simp: imported_users_def split: option.splits import_format.splits if_splits)

lemma form_valid: "user_of_form yaml form = Inr u \<Longrightarrow> valid_user u"
  by (auto simp: user_of_form_def Let_def valid_user_def token_trim split: if_splits)

lemma distinct_replace:
  "distinct ns \<Longrightarrow> x = k \<or> x \<notin> set ns \<Longrightarrow> distinct (map (\<lambda>n. if n = k then x else n) ns)"
  by (induction ns) auto

lemma put_users_ok:
  assumes us: "users_ok us" and u: "valid_user u"
    and new: "wu_username u = k \<or> wu_username u \<notin> wu_username ` set us"
  shows "users_ok (map (\<lambda>e. if wu_username e = k then u else e) us)"
proof -
  have "map wu_username (map (\<lambda>e. if wu_username e = k then u else e) us)
      = map (\<lambda>n. if n = k then wu_username u else n) (map wu_username us)"
    by simp
  moreover have "distinct (map (\<lambda>n. if n = k then wu_username u else n) (map wu_username us))"
    using us new by (intro distinct_replace) (auto simp: users_ok_def)
  ultimately have "distinct (map wu_username (map (\<lambda>e. if wu_username e = k then u else e) us))"
    by (simp only:)
  moreover have "list_all valid_user (map (\<lambda>e. if wu_username e = k then u else e) us)"
    using us u by (auto simp: users_ok_def list_all_iff)
  ultimately show ?thesis
    by (simp only: users_ok_def)
qed

lemma read_users_ok: "case readWorkspaceUsers yaml ws res of Inl _ \<Rightarrow> True | Inr r \<Rightarrow> users_ok (snd r)"
proof (cases res)
  case (Body data)
  then show ?thesis
    by (cases "yaml (str_nn (jget data ''content''))")
      (simp_all add: readWorkspaceUsers_def Let_def users_ok_extract del: jget_simps)
qed (simp_all add: readWorkspaceUsers_def)

lemma draft_ok_read: "readWorkspaceUsers yaml ws res = Inr (doc, us) \<Longrightarrow> users_ok us"
  using read_users_ok [of yaml ws res] by simp

lemma draft_open_action [simp]: "us_draft (open_action to_yaml act us st) = us_draft st"
  by (cases act) (simp_all add: open_action_def exportUsersCsv_def exportUsersYaml_def downloadUsersExport_def
      triggerUsersImport_def startCreateUserEditor_def)

lemma draft_sync [simp]: "us_draft (syncPricingUsersStorage us st) = us_draft st"
  by (simp add: syncPricingUsersStorage_def)

lemma draft_leave [simp]: "us_draft (leave_editor st) = us_draft st"
  by (simp add: leave_editor_def)

lemma draft_put: "us_draft (put_user u st) = (case editing_key st of
     Some k \<Rightarrow> map (\<lambda>e. if wu_username e = k then u else e) (us_draft st) | None \<Rightarrow> us_draft st @ [u])"
  by (simp add: put_user_def Let_def split: option.split)

lemma draft_ok_apply: "draft_ok st \<Longrightarrow> draft_ok (applyUserEditor yaml st)"
proof (cases "user_of_form yaml (us_form st)")
  case (Inr u)
  assume ok: "draft_ok st"
  have v: "valid_user u"
    using Inr by (rule form_valid)
  have "users_ok (us_draft st @ [u])" if "wu_username u \<notin> wu_username ` set (us_draft st)"
    using ok v that by (auto simp: draft_ok_def users_ok_def)
  moreover have "users_ok (map (\<lambda>e. if wu_username e = k then u else e) (us_draft st))"
    if "wu_username u = k \<or> wu_username u \<notin> wu_username ` set (us_draft st)" for k
    using put_users_ok [OF _ v that] ok by (simp add: draft_ok_def)
  moreover have "draft_has (wu_username u) st \<longleftrightarrow> wu_username u \<in> wu_username ` set (us_draft st)"
    unfolding draft_has_def list_ex_iff by (metis image_iff)
  ultimately show ?thesis
    using ok Inr by (auto simp: applyUserEditor_def draft_ok_def draft_put Let_def split: option.splits if_splits)
qed (simp add: applyUserEditor_def draft_ok_def)

fun users_event_ok :: "users_event \<Rightarrow> bool" where
  "users_event_ok (Save_ends job _) = users_ok (sj_users job)"
| "users_event_ok _ = True"

lemma draft_ok_step: "users_event_ok e \<Longrightarrow> draft_ok st \<Longrightarrow> draft_ok (users_step yaml to_yaml e st)"
proof (cases e)
  case (Open_ends act ws res)
  assume "draft_ok st"
  then show ?thesis
    using Open_ends draft_ok_read [of yaml ws res]
    by (auto simp: openUsersEditor_end_def draft_ok_def split: sum.splits)
next
  case (Import_ends format content)
  assume "draft_ok st"
  then show ?thesis
    using Import_ends imported_clean [of yaml format content] clean_users_ok
    by (auto simp: handleUsersImportSelect_def draft_ok_def Let_def dedupe_id split: option.splits)
next
  case (Save_ends job res)
  assume "users_event_ok e" "draft_ok st"
  then show ?thesis
    using Save_ends by (auto simp: saveWorkspaceUsers_end_def draft_ok_def Let_def split: save_outcome.splits option.splits)
next
  case Apply_editor
  assume "draft_ok st"
  with Apply_editor show ?thesis
    by (simp add: draft_ok_apply)
qed (auto simp: draft_ok_def openUsersEditor_begin_def closeUsersEditor_def startCreateUserEditor_def
    startEditUserEditor_def closeUserEntryModal_def removeUserDraft_def Let_def toggleUserSelection_def
    setUsersSelectionAll_def deleteSelectedUsers_def users_ok_filter import_begin_def saveWorkspaceUsers_begin_def
    split: option.splits sum.splits)

interpretation users_editor: guarded_machine "users_step yaml to_yaml" users_event_ok draft_ok
  for yaml :: "string \<Rightarrow> jsval option" and to_yaml :: "jsval \<Rightarrow> string"
  by unfold_locales (rule draft_ok_step)


lemma draft_ok_initial [simp]: "draft_ok (initial_users ws)"
  by (simp add: draft_ok_def initial_users_def)

subsection \<open>The workspace never changes\<close>

lemma workspace_simps [simp]:
  "us_workspaceId (syncPricingUsersStorage us st) = us_workspaceId st"
  "us_workspaceId (leave_editor st) = us_workspaceId st"
  "us_workspaceId (open_action to_yaml act us st) = us_workspaceId st"
  "us_workspaceId (put_user u st) = us_workspaceId st"
  by (simp_all add: syncPricingUsersStorage_def leave_editor_def put_user_def Let_def open_action_def
      exportUsersCsv_def exportUsersYaml_def downloadUsersExport_def triggerUsersImport_def
      startCreateUserEditor_def split: UsersAction.split option.split)

lemma workspace_step: "us_workspaceId (users_step yaml to_yaml e st) = us_workspaceId st"
  by (cases e) (simp_all add: applyUserEditor_def openUsersEditor_begin_def closeUsersEditor_def
      startCreateUserEditor_def startEditUserEditor_def closeUserEntryModal_def removeUserDraft_def Let_def
      toggleUserSelection_def setUsersSelectionAll_def deleteSelectedUsers_def import_begin_def
      saveWorkspaceUsers_begin_def openUsersEditor_end_def handleUsersImportSelect_def
      saveWorkspaceUsers_end_def split: option.splits sum.splits save_outcome.splits)

lemma workspace_run: "us_workspaceId (fold (users_step yaml to_yaml) es st) = us_workspaceId st"
  by (induction es arbitrary: st) (simp_all add: workspace_step)

subsection \<open>A save\<close>

lemma jget_user_value:
  "jget (user_value u) ''username'' = JStr (wu_username u)"
  "jget (user_value u) ''firstname'' = JStr (wu_firstname u)"
  "jget (user_value u) ''lastname'' = JStr (wu_lastname u)"
  by (simp_all add: user_value_def)

lemma normalize_user_value:
  assumes "valid_user u"
  obtains v where "normalizeWorkspaceUser yaml JUndefined (user_value u) = Some v"
    and "wu_username v = wu_username u" and "clean_user v"
proof -
  have "to_lower (trim (wu_username u)) = wu_username u" "trim (wu_firstname u) = wu_firstname u"
    "trim (wu_lastname u) = wu_lastname u" "wu_firstname u \<noteq> []" "wu_lastname u \<noteq> []" "is_obj (user_value u)"
    using assms username_ok_lower by (simp_all add: valid_user_def token_def user_value_def is_obj_def)
  then obtain v where "normalizeWorkspaceUser yaml JUndefined (user_value u) = Some v" "wu_username v = wu_username u"
    using assms by (simp add: normalizeWorkspaceUser_def jget_user_value valid_user_def Let_def)
  then show thesis
    using normalize_clean that by blast
qed

lemma normalized_users_ok:
  assumes "users_ok us"
  shows "map wu_username (normalized_users yaml us) = map wu_username us
    \<and> list_all clean_user (normalized_users yaml us)"
proof -
  let ?f = "\<lambda>u. normalizeWorkspaceUser yaml JUndefined (user_value u)"
  have vs: "map wu_username (List.map_filter ?f us) = map wu_username us
      \<and> list_all clean_user (List.map_filter ?f us)"
    if "list_all valid_user us" for us
    using that
  proof (induction us)
    case (Cons u us)
    obtain v where "?f u = Some v" "wu_username v = wu_username u" "clean_user v"
      using Cons.prems normalize_user_value [of u yaml] by auto
    with Cons show ?case
      by (simp add: List.map_filter_simps)
  qed (simp add: List.map_filter_simps)
  then have "normalized_users yaml us = List.map_filter ?f us"
    using assms unfolding normalized_users_def by (intro dedupe_id) (simp_all add: users_ok_def)
  with vs show ?thesis
    using assms by (simp add: users_ok_def)
qed

text \<open>The job of a save that is not refused, for a list in the invariant.\<close>

definition users_save :: "(string \<Rightarrow> jsval option) \<Rightarrow> (jsval \<Rightarrow> string) \<Rightarrow> users_state \<Rightarrow> save_job" where
  "users_save yaml to_yaml st =
     (let us = normalized_users yaml (us_draft st);
          doc = AList.update ''users'' (JObj (toYamlUsersMap us)) (us_doc st)
      in \<lparr>sj_users = us, sj_doc = doc, sj_content = to_yaml (JObj doc)\<rparr>)"

lemma save_job_ok:
  assumes "draft_ok st" and "has_id (us_workspaceId st)"
  shows "save_users_job yaml to_yaml st = Some (Inr (users_save yaml to_yaml st))"
proof -
  have "length (normalized_users yaml (us_draft st)) = length (us_draft st)"
    using normalized_users_ok [of "us_draft st" yaml] assms(1) map_eq_imp_length_eq
    by (metis draft_ok_def)
  with assms(2) show ?thesis
    by (simp add: save_users_job_def users_save_def Let_def)
qed

text \<open>
  C13: a save is never refused. Whatever the user has done since the panel was opened (adding,
  editing, renaming, removing, importing, opening and saving, in any order and with any answers of
  the server), the list holds valid users with distinct names, so saving it passes the check, and
  the users written are those of the list, by name and in order.
\<close>

theorem save_never_refused:
  fixes yaml :: "string \<Rightarrow> jsval option" and ws :: "string option"
  assumes "list_all users_event_ok es" and "has_id ws"
  shows "let st = fold (users_step yaml to_yaml) es (initial_users ws) in
    \<exists>job. save_users_job yaml to_yaml st = Some (Inr job)
      \<and> map wu_username (sj_users job) = map wu_username (us_draft st)
      \<and> users_event_ok (Save_ends job res)"
proof -
  let ?st = "fold (users_step yaml to_yaml) es (initial_users ws)"
  have ok: "draft_ok ?st"
    using assms(1) by (rule users_editor.run_ok) simp
  have "has_id (us_workspaceId ?st)"
    using assms(2) by (simp add: workspace_run initial_users_def)
  with ok have "save_users_job yaml to_yaml ?st = Some (Inr (users_save yaml to_yaml ?st))"
    by (rule save_job_ok)
  moreover have "map wu_username (sj_users (users_save yaml to_yaml ?st)) = map wu_username (us_draft ?st)"
    "list_all clean_user (sj_users (users_save yaml to_yaml ?st))"
    using normalized_users_ok [of "us_draft ?st" yaml] ok by (simp_all add: users_save_def Let_def draft_ok_def)
  moreover from this have "users_ok (sj_users (users_save yaml to_yaml ?st))"
    using ok by (intro clean_users_ok) (simp_all add: draft_ok_def users_ok_def)
  ultimately show ?thesis
    by (auto simp: Let_def)
qed

text \<open>
  What is saved is what the next opening shows. When the YAML library reads back the document
  of a save, opening the panel on the saved file yields the saved document and the saved users, in
  the order of the names as the language enumerates them, unless a user has one of the four names
  that change how the map is read.
\<close>

theorem save_then_open:
  assumes ok: "draft_ok st" and ws: "has_id ws"
    and names: "\<forall>k \<in> {''users'', ''username'', ''firstname'', ''lastname''}. k \<notin> wu_username ` set (us_draft st)"
    and job: "save_users_job yaml to_yaml st = Some (Inr job)"
    and yaml: "yaml (sj_content job) = Some (JObj (sj_doc job))" "trim (sj_content job) \<noteq> []"
  shows "readWorkspaceUsers yaml ws (Body (JObj [(''content'', JStr (sj_content job))]))
    = Inr (sj_doc job, map snd (own_entries (map (\<lambda>u. (wu_username u, u)) (sj_users job))))"
proof -
  have j: "sj_users job = normalized_users yaml (us_draft st)"
      "sj_doc job = AList.update ''users'' (JObj (toYamlUsersMap (sj_users job))) (us_doc st)"
    using job by (auto simp: save_users_job_def Let_def split: if_splits)
  have us: "map wu_username (sj_users job) = map wu_username (us_draft st)" "list_all clean_user (sj_users job)"
    using normalized_users_ok [of "us_draft st" yaml] ok by (simp_all add: j(1) draft_ok_def)
  have "jget (JObj (sj_doc job)) ''users'' = JObj (toYamlUsersMap (sj_users job))"
    by (simp add: j(2))
  moreover have "wu_username ` set (sj_users job) = wu_username ` set (us_draft st)"
    using us(1) by (metis list.set_map)
  then have "extractWorkspaceUsers yaml (JObj (toYamlUsersMap (sj_users job)))
      = map snd (own_entries (map (\<lambda>u. (wu_username u, u)) (sj_users job)))"
    using us ok names by (intro users_map_back) (simp_all add: draft_ok_def users_ok_def)
  ultimately show ?thesis
    using yaml ws by (simp add: readWorkspaceUsers_def coalesce_def nullish_def obj_fields_def Let_def)
qed

subsection \<open>A session and a save\<close>

definition demo_session :: "users_event list" where
  "demo_session =
     [Open_begins Overview, Open_ends Overview (Some ''w1'') (Refused 404 []), Create_starts,
      Form_set (emptyUserForm\<lparr>uf_username := '' Ann7 '', uf_firstname := ''Ann'', uf_lastname := ''Lee''\<rparr>),
      Apply_editor, Toggle_user ''ann7'' True, Edit_starts ''ann7'',
      Form_set (emptyUserForm\<lparr>uf_username := ''bob'', uf_firstname := ''Bob'', uf_lastname := ''Lee''\<rparr>),
      Apply_editor]"

theorem save_never_refused_witness:
  "let st = fold (users_step (\<lambda>_. None) (\<lambda>_. ''doc'')) demo_session (initial_users (Some ''w1'')) in
    \<exists>job. save_users_job (\<lambda>_. None) (\<lambda>_. ''doc'') st = Some (Inr job)
      \<and> map wu_username (sj_users job) = map wu_username (us_draft st)
      \<and> users_event_ok (Save_ends job (Saved None))"
  by (rule save_never_refused; code_simp)

definition demo_saved :: "(string \<times> jsval) list" where
  "demo_saved = [(''users'', JObj (toYamlUsersMap demo_users))]"

definition demo_saved_yaml :: "string \<Rightarrow> jsval option" where
  "demo_saved_yaml s = (if s = ''doc'' then Some (JObj demo_saved) else None)"

theorem save_then_open_witness:
  "readWorkspaceUsers demo_saved_yaml (Some ''w1'') (Body (JObj [(''content'', JStr ''doc'')]))
   = Inr (demo_saved, map snd (own_entries (map (\<lambda>u. (wu_username u, u)) demo_users)))"
  using save_then_open
    [where st = "(initial_users (Some ''w1''))\<lparr>us_draft := demo_users\<rparr>" and ws = "Some ''w1''"
      and yaml = demo_saved_yaml and to_yaml = "\<lambda>_. ''doc''"
      and job = "\<lparr>sj_users = demo_users, sj_doc = demo_saved, sj_content = ''doc''\<rparr>"]
  by code_simp

end
