(* ===== verification/LiveStream.thy ===== *)
theory LiveStream
  imports JsonText
begin

text \<open>
  The live log of a deployment (\<open>liveDeploymentViewShared.ts\<close>, the callbacks of \<open>live/View.tsx\<close>,
  the terminal of \<open>useLiveDeploymentTerminal.ts\<close>, \<open>lib/deployment_status.js\<close>): frames of the event
  stream, log lines and their latency, connecting, failing, finishing and cancelling. React state
  and refs are one record. An event source is the number (token) of the connection that opened it;
  \<open>ls_open\<close> lists those not closed, \<open>ls_current\<close> is the one the abort ref holds. The terminal is
  the list of lines it shows, \<open>None\<close> while it is not loaded; \<open>now\<close> is \<open>Date.now()\<close> in milliseconds.
  The data attributes written for tests are not modelled.
\<close>

subsection \<open>Frames\<close>

definition sse_value :: "string \<Rightarrow> string" where
  "sse_value raw = (if starts_with raw '' '' then tl raw else raw)"

definition sse_line :: "string \<times> string list \<Rightarrow> string \<Rightarrow> string \<times> string list" where
  "sse_line acc line =
     (let (event, dataLines) = acc in
      if line = [] \<or> starts_with line '':'' then acc
      else
        let field = takeWhile (\<lambda>c. c \<noteq> CHR '':'') line;
            value = sse_value (drop (Suc (length field)) line)
        in if field = ''event'' then (if value = [] then ''message'' else value, dataLines)
           else if field = ''data'' then (event, dataLines @ [value]) else acc)"

definition parseSseFrame :: "string \<Rightarrow> (string \<times> string) option" where
  "parseSseFrame frame =
     (let (event, dataLines) = foldl sse_line (''message'', []) (split_on NL frame)
      in if dataLines = [] then None else Some (event, join [NL] dataLines))"

definition decodeLogLine :: "string \<Rightarrow> string" where
  "decodeLogLine rawData =
     (case json_parse rawData of
        Some payload \<Rightarrow>
          (case jget payload ''line'' of
             JStr line \<Rightarrow> if trim line \<noteq> [] then line else rawData
           | _ \<Rightarrow> rawData)
      | None \<Rightarrow> rawData)"

subsection \<open>Latency of a line\<close>

record LogRenderMetric =
  lm_id :: nat
  lm_delayMs :: int
  lm_line :: string
  lm_renderedAtMs :: int
  lm_rxUnixMs :: int

definition LIVE_LOG_MAX_RENDER_METRICS :: nat where
  "LIVE_LOG_MAX_RENDER_METRICS = 200"

definition LIVE_LOG_MAX_DELAY_MS :: int where
  "LIVE_LOG_MAX_DELAY_MS = 30000"

definition one_line :: "string \<Rightarrow> bool" where
  "one_line s \<longleftrightarrow> NL \<notin> set s \<and> CR \<notin> set s"

text \<open>\<open>/^\[RX:(\d{10,})\]\s?(.*)$/\<close>: the digits, if the line matches.\<close>

definition rx_digits :: "string \<Rightarrow> string option" where
  "rx_digits line =
     (let ds = takeWhile is_digit (drop 4 line); rest = drop (4 + length ds) line in
      if starts_with line ''[RX:'' \<and> 10 \<le> length ds \<and> rest \<noteq> [] \<and> hd rest = CHR '']''
         \<and> (one_line (tl rest) \<or> (tl rest \<noteq> [] \<and> ws_char (hd (tl rest)) \<and> one_line (tl (tl rest))))
      then Some ds else None)"

text \<open>A number too large for the language's numbers is read as infinity: the least one that is rounded up to \<open>2^1024\<close>.\<close>

definition finite_number :: "nat \<Rightarrow> bool" where
  "finite_number v \<longleftrightarrow> v < 2 ^ 1024 - 2 ^ 970"

definition parseLogRenderMetric :: "string \<Rightarrow> int \<Rightarrow> nat \<Rightarrow> LogRenderMetric option" where
  "parseLogRenderMetric line renderedAtMs mid =
     (case rx_digits line of
        None \<Rightarrow> None
      | Some ds \<Rightarrow>
          (let rxUnixMs = int (digits_val ds)
           in if \<not> finite_number (digits_val ds) then None
              else Some \<lparr>lm_id = mid, lm_delayMs = max 0 (renderedAtMs - rxUnixMs), lm_line = trim line,
                         lm_renderedAtMs = renderedAtMs, lm_rxUnixMs = rxUnixMs\<rparr>))"

definition resolveStreamBaseUrl :: "string \<Rightarrow> string \<Rightarrow> string option \<Rightarrow> string" where
  "resolveStreamBaseUrl configuredBaseUrl baseUrl streamBaseUrl =
     (let explicit = trim (case streamBaseUrl of Some s \<Rightarrow> s | None \<Rightarrow> []) in
      if explicit \<noteq> [] then explicit
      else let configured = trim configuredBaseUrl in if configured \<noteq> [] then configured else baseUrl)"

subsection \<open>State\<close>

record live_state =
  ls_jobId :: string
  ls_status :: jsval
  ls_connected :: bool
  ls_error :: "string option"
  ls_canceling :: bool
  ls_metrics :: "LogRenderMetric list"
  ls_metricId :: nat
  ls_pending :: "string list"
  ls_attached :: "string option"
  ls_received :: nat
  ls_observed :: nat
  ls_maxDelay :: int
  ls_violation :: "LogRenderMetric option"
  ls_openCount :: nat
  ls_statusCount :: nat
  ls_errorCount :: nat
  ls_lastStatus :: string
  ls_term :: "string list option"
  ls_token :: nat
  ls_current :: "nat option"
  ls_open :: "nat list"
  ls_lastAutoJob :: "string option"
  ls_lastConnectKey :: "int option"
  ls_lastCancelKey :: "int option"
  ls_cancels :: "string list"

definition initial_live :: "string \<Rightarrow> int option \<Rightarrow> int option \<Rightarrow> live_state" where
  "initial_live job connectKey cancelKey =
     \<lparr>ls_jobId = job, ls_status = JNull, ls_connected = False, ls_error = None, ls_canceling = False,
      ls_metrics = [], ls_metricId = 0, ls_pending = [], ls_attached = None, ls_received = 0,
      ls_observed = 0, ls_maxDelay = 0, ls_violation = None, ls_openCount = 0, ls_statusCount = 0,
      ls_errorCount = 0, ls_lastStatus = [], ls_term = None, ls_token = 0, ls_current = None,
      ls_open = [], ls_lastAutoJob = None, ls_lastConnectKey = connectKey,
      ls_lastCancelKey = cancelKey, ls_cancels = []\<rparr>"

subsection \<open>Lines\<close>

fun line_metrics :: "nat \<Rightarrow> int \<Rightarrow> string list \<Rightarrow> LogRenderMetric list" where
  "line_metrics mid now [] = []"
| "line_metrics mid now (line # rest) =
     (case parseLogRenderMetric line now mid of
        None \<Rightarrow> line_metrics mid now rest
      | Some m \<Rightarrow> m # line_metrics (Suc mid) now rest)"

definition recordRenderedLines :: "string list \<Rightarrow> int \<Rightarrow> live_state \<Rightarrow> live_state" where
  "recordRenderedLines lines now st =
     (let nextMetrics = line_metrics (ls_metricId st) now lines;
          shown = ls_metrics st @ nextMetrics in
      if nextMetrics = [] then st
      else st\<lparr>
        ls_metricId := ls_metricId st + length nextMetrics,
        ls_observed := ls_observed st + length nextMetrics,
        ls_maxDelay := foldl (\<lambda>m metric. max m (lm_delayMs metric)) (ls_maxDelay st) nextMetrics,
        ls_metrics := drop (length shown - LIVE_LOG_MAX_RENDER_METRICS) shown,
        ls_violation := (case ls_violation st of
            Some v \<Rightarrow> Some v
          | None \<Rightarrow> find (\<lambda>metric. lm_delayMs metric > LIVE_LOG_MAX_DELAY_MS) nextMetrics)\<rparr>)"

definition bold :: "string \<Rightarrow> string" where
  "bold s = [char_of (27 :: nat)] @ ''[1m'' @ s @ [char_of (27 :: nat)] @ ''[0m''"

definition banner :: "string option \<Rightarrow> string list" where
  "banner attached =
     (case attached of
        Some job \<Rightarrow> if job \<noteq> [] then [bold ''Attaching to job'' @ '' '' @ job]
                    else [bold ''Live deployment logs'', ''Attach to a job ID to stream output.'']
      | None \<Rightarrow> [bold ''Live deployment logs'', ''Attach to a job ID to stream output.''])"

definition writeTerminalBanner :: "live_state \<Rightarrow> live_state" where
  "writeTerminalBanner st =
     (case ls_term st of None \<Rightarrow> st | Some _ \<Rightarrow> st\<lparr>ls_term := Some (banner (ls_attached st))\<rparr>)"

definition flushPendingLines :: "int \<Rightarrow> live_state \<Rightarrow> live_state" where
  "flushPendingLines now st =
     (case ls_term st of
        None \<Rightarrow> st
      | Some shown \<Rightarrow>
          if ls_pending st = [] then st
          else recordRenderedLines (ls_pending st) now
                 (st\<lparr>ls_term := Some (shown @ ls_pending st), ls_pending := []\<rparr>))"

text \<open>The lines of a text as they are shown: split at line feeds, carriage returns dropped.\<close>

definition shown_lines :: "string \<Rightarrow> string list" where
  "shown_lines s = map (filter (\<lambda>c. c \<noteq> CR)) (split_on NL s)"

definition writeLines :: "string \<Rightarrow> int \<Rightarrow> live_state \<Rightarrow> live_state" where
  "writeLines s now st =
     (let lines = shown_lines s;
          st' = st\<lparr>ls_received := ls_received st + length (filter (\<lambda>line. trim line \<noteq> []) lines)\<rparr>
      in case ls_term st' of
           None \<Rightarrow> st'\<lparr>ls_pending := ls_pending st' @ lines\<rparr>
         | Some shown \<Rightarrow> recordRenderedLines lines now (st'\<lparr>ls_term := Some (shown @ lines)\<rparr>))"

subsection \<open>Streams\<close>

definition abort_stream :: "nat \<Rightarrow> live_state \<Rightarrow> live_state" where
  "abort_stream tok st = st\<lparr>ls_open := filter (\<lambda>t. t \<noteq> tok) (ls_open st)\<rparr>"

definition closeStream :: "nat \<Rightarrow> live_state \<Rightarrow> live_state" where
  "closeStream tok st =
     (let st' = abort_stream tok st
      in if ls_current st' = Some tok then st'\<lparr>ls_current := None\<rparr> else st')"

definition abort_current :: "live_state \<Rightarrow> live_state" where
  "abort_current st = (case ls_current st of None \<Rightarrow> st | Some t \<Rightarrow> abort_stream t st)"

definition connectTo :: "string \<Rightarrow> live_state \<Rightarrow> live_state" where
  "connectTo rawId st =
     (let trimmed = trim rawId in
      if trimmed = [] then st
      else
        let st1 = st\<lparr>ls_error := None, ls_status := JNull, ls_connected := True, ls_jobId := trimmed,
              ls_received := 0, ls_observed := 0, ls_maxDelay := 0, ls_violation := None,
              ls_openCount := 0, ls_statusCount := 0, ls_errorCount := 0, ls_lastStatus := [],
              ls_metrics := [], ls_metricId := 0, ls_pending := [], ls_attached := Some trimmed\<rparr>;
            st2 = writeTerminalBanner (abort_current st1);
            tok = ls_token st2 + 1
        in st2\<lparr>ls_token := tok, ls_open := ls_open st2 @ [tok], ls_current := Some tok\<rparr>)"

definition handleStreamFailure :: "nat \<Rightarrow> string \<Rightarrow> live_state \<Rightarrow> live_state" where
  "handleStreamFailure tok message st =
     (if ls_token st \<noteq> tok then st
      else closeStream tok (st\<lparr>ls_errorCount := ls_errorCount st + 1, ls_error := Some message,
                              ls_connected := False\<rparr>))"

definition applyStatusPayload :: "string \<Rightarrow> bool \<Rightarrow> int \<Rightarrow> live_state \<Rightarrow> live_state" where
  "applyStatusPayload rawData terminal now st =
     (let st' = (case json_parse rawData of
            Some payload \<Rightarrow> st\<lparr>ls_lastStatus := str_or (jget payload ''status''), ls_status := payload\<rparr>
          | None \<Rightarrow> st\<lparr>ls_lastStatus := [], ls_status := JNull\<rparr>)
      in if terminal then writeLines (bold ''Deployment finished'') now (st'\<lparr>ls_connected := False\<rparr>)
         else st')"

text \<open>The state after an event, and whether the stream is over.\<close>

definition handleStreamEvent :: "nat \<Rightarrow> string \<times> string \<Rightarrow> int \<Rightarrow> live_state \<Rightarrow> live_state \<times> bool" where
  "handleStreamEvent tok parsed now st =
     (let (event, payload) = parsed in
      if ls_token st \<noteq> tok then (st, False)
      else if event = ''log'' then (writeLines (decodeLogLine payload) now st, False)
      else if event = ''status'' then
        (applyStatusPayload payload False now (st\<lparr>ls_statusCount := ls_statusCount st + 1\<rparr>), False)
      else if event = ''done'' then (applyStatusPayload payload True now st, True)
      else if event = ''error'' then (handleStreamFailure tok ''Connection lost'' st, True)
      else (st, False))"

datatype stream_kind = Log_frame | Status_frame | Done_frame

fun kind_name :: "stream_kind \<Rightarrow> string" where
  "kind_name Log_frame = ''log''"
| "kind_name Status_frame = ''status''"
| "kind_name Done_frame = ''done''"

definition frame_of :: "stream_kind \<Rightarrow> string \<Rightarrow> string" where
  "frame_of kind payload = ''event: '' @ kind_name kind @ [NL] @ ''data: '' @ payload"

text \<open>The listeners of an event source: only \<open>done\<close> closes the stream when it is over.\<close>

definition on_stream_event :: "nat \<Rightarrow> stream_kind \<Rightarrow> string \<Rightarrow> int \<Rightarrow> live_state \<Rightarrow> live_state" where
  "on_stream_event tok kind payload now st =
     (case parseSseFrame (frame_of kind payload) of
        None \<Rightarrow> st
      | Some parsed \<Rightarrow>
          (let (st', over) = handleStreamEvent tok parsed now st
           in if kind = Done_frame \<and> over then closeStream tok st' else st'))"

definition on_stream_open :: "nat \<Rightarrow> live_state \<Rightarrow> live_state" where
  "on_stream_open tok st =
     (if ls_token st \<noteq> tok then closeStream tok st else st\<lparr>ls_openCount := ls_openCount st + 1\<rparr>)"

subsection \<open>Effects, the terminal and cancelling\<close>

definition terminal_ready :: "int \<Rightarrow> live_state \<Rightarrow> live_state" where
  "terminal_ready now st = flushPendingLines now (writeTerminalBanner (st\<lparr>ls_term := Some []\<rparr>))"

definition terminal_disposed :: "live_state \<Rightarrow> live_state" where
  "terminal_disposed st = st\<lparr>ls_term := None\<rparr>"

definition sync_external_job :: "string option \<Rightarrow> live_state \<Rightarrow> live_state" where
  "sync_external_job externalJobId st =
     (case externalJobId of None \<Rightarrow> st | Some job \<Rightarrow> st\<lparr>ls_jobId := job\<rparr>)"

definition auto_connect :: "bool \<Rightarrow> string option \<Rightarrow> live_state \<Rightarrow> live_state" where
  "auto_connect autoConnect externalJobId st =
     (let trimmed = trim (case externalJobId of Some s \<Rightarrow> s | None \<Rightarrow> []) in
      if \<not> autoConnect \<or> trimmed = [] \<or> ls_lastAutoJob st = Some trimmed then st
      else connectTo trimmed (st\<lparr>ls_lastAutoJob := Some trimmed\<rparr>))"

definition connect_requested :: "int option \<Rightarrow> string option \<Rightarrow> live_state \<Rightarrow> live_state" where
  "connect_requested connectRequestKey externalJobId st =
     (case connectRequestKey of
        None \<Rightarrow> st
      | Some key \<Rightarrow>
          if ls_lastConnectKey st = Some key then st
          else connectTo (trim (case externalJobId of Some s \<Rightarrow> if s \<noteq> [] then s else ls_jobId st
                                | None \<Rightarrow> ls_jobId st))
                 (st\<lparr>ls_lastConnectKey := Some key\<rparr>))"

definition isTerminalStatus :: "jsval \<Rightarrow> bool" where
  "isTerminalStatus status \<longleftrightarrow>
     status = JStr ''succeeded'' \<or> status = JStr ''failed'' \<or> status = JStr ''canceled''"

definition cancel_begin :: "string option \<Rightarrow> live_state \<Rightarrow> live_state" where
  "cancel_begin rawJobId st =
     (let targetJobId = trim (case rawJobId of Some s \<Rightarrow> s | None \<Rightarrow> ls_jobId st) in
      if targetJobId = [] \<or> isTerminalStatus (jget (ls_status st) ''status'') then st
      else st\<lparr>ls_canceling := True, ls_error := None, ls_cancels := ls_cancels st @ [targetJobId]\<rparr>)"

definition cancel_end :: "string option \<Rightarrow> live_state \<Rightarrow> live_state" where
  "cancel_end failure st =
     (let st' = st\<lparr>ls_canceling := False\<rparr>
      in case failure of None \<Rightarrow> st' | Some message \<Rightarrow> st'\<lparr>ls_error := Some message\<rparr>)"

definition cancel_requested :: "int option \<Rightarrow> live_state \<Rightarrow> live_state" where
  "cancel_requested cancelRequestKey st =
     (case cancelRequestKey of
        None \<Rightarrow> st
      | Some key \<Rightarrow>
          if ls_lastCancelKey st = Some key then st
          else cancel_begin (Some (ls_jobId st)) (st\<lparr>ls_lastCancelKey := Some key\<rparr>))"

subsection \<open>Events\<close>

datatype live_event =
  Connect string
| Stream_open nat
| Stream_event nat stream_kind string int
| Stream_error nat
| Term_ready int
| Term_disposed
| External_job "string option"
| Auto_connect bool "string option"
| Connect_request "int option" "string option"
| Cancel_begins "string option"
| Cancel_ends "string option"
| Cancel_request "int option"

fun live_step :: "live_event \<Rightarrow> live_state \<Rightarrow> live_state" where
  "live_step (Connect rawId) st = connectTo rawId st"
| "live_step (Stream_open tok) st = on_stream_open tok st"
| "live_step (Stream_event tok kind payload now) st = on_stream_event tok kind payload now st"
| "live_step (Stream_error tok) st = handleStreamFailure tok ''Connection lost'' st"
| "live_step (Term_ready now) st = terminal_ready now st"
| "live_step Term_disposed st = terminal_disposed st"
| "live_step (External_job job) st = sync_external_job job st"
| "live_step (Auto_connect auto job) st = auto_connect auto job st"
| "live_step (Connect_request key job) st = connect_requested key job st"
| "live_step (Cancel_begins job) st = cancel_begin job st"
| "live_step (Cancel_ends failure) st = cancel_end failure st"
| "live_step (Cancel_request key) st = cancel_requested key st"

end
