(* ===== verification/LiveDelivery.thy ===== *)
theory LiveDelivery
  imports LiveStream
begin

text \<open>
  What the live log keeps and delivers: the invariant of the latency record and of the open
  streams under every event, the frames that are read back, the lines that reach the terminal,
  and what happens to stale, ended and multi-line events.
\<close>

subsection \<open>Invariants\<close>

fun delay_bound :: "LogRenderMetric option \<Rightarrow> int \<Rightarrow> bool" where
  "delay_bound None mx \<longleftrightarrow> mx \<le> LIVE_LOG_MAX_DELAY_MS"
| "delay_bound (Some v) mx \<longleftrightarrow> LIVE_LOG_MAX_DELAY_MS < lm_delayMs v \<and> lm_delayMs v \<le> mx"

definition metrics_inv ::
  "LogRenderMetric list \<Rightarrow> nat \<Rightarrow> nat \<Rightarrow> int \<Rightarrow> LogRenderMetric option \<Rightarrow> bool" where
  "metrics_inv ms observed next_id mx violation \<longleftrightarrow>
     length ms = min observed LIVE_LOG_MAX_RENDER_METRICS
     \<and> list_all (\<lambda>m. 0 \<le> lm_delayMs m \<and> lm_delayMs m \<le> mx) ms
     \<and> map lm_id ms = [observed - length ms..<observed]
     \<and> next_id = observed \<and> 0 \<le> mx \<and> delay_bound violation mx"

definition streams_inv :: "nat option \<Rightarrow> nat list \<Rightarrow> nat \<Rightarrow> bool \<Rightarrow> bool" where
  "streams_inv current opened tok connected \<longleftrightarrow>
     (case current of None \<Rightarrow> opened = [] \<and> \<not> connected | Some t \<Rightarrow> opened = [t] \<and> t = tok)"

definition metrics_ok :: "live_state \<Rightarrow> bool" where
  "metrics_ok st \<longleftrightarrow>
     metrics_inv (ls_metrics st) (ls_observed st) (ls_metricId st) (ls_maxDelay st) (ls_violation st)"

definition streams_ok :: "live_state \<Rightarrow> bool" where
  "streams_ok st \<longleftrightarrow> streams_inv (ls_current st) (ls_open st) (ls_token st) (ls_connected st)"

definition live_ok :: "live_state \<Rightarrow> bool" where
  "live_ok st \<longleftrightarrow> metrics_ok st \<and> streams_ok st"

lemmas live_inv_defs = live_ok_def metrics_ok_def streams_ok_def

lemma streams_inv_quiet [simp]: "streams_inv c opened tok b \<Longrightarrow> streams_inv c opened tok False"
  by (auto simp: streams_inv_def split: option.splits)

lemma line_metrics_ids: "map lm_id (line_metrics mid now lines) = [mid..<mid + length (line_metrics mid now lines)]"
proof (induction lines arbitrary: mid)
  case (Cons line lines)
  have "lm_id m = mid" if "parseLogRenderMetric line now mid = Some m" for m
    using that by (auto simp: parseLogRenderMetric_def Let_def split: option.splits if_splits)
  with Cons.IH [of mid] Cons.IH [of "Suc mid"] show ?case
    by (cases "parseLogRenderMetric line now mid") (simp_all add: upt_conv_Cons del: upt_Suc)
qed simp

lemma line_metrics_delay: "m \<in> set (line_metrics mid now lines) \<Longrightarrow> 0 \<le> lm_delayMs m"
  by (induction lines arbitrary: mid)
    (auto simp: parseLogRenderMetric_def Let_def split: option.splits if_splits)

lemma foldl_max: "m \<le> foldl (\<lambda>m x. max m (f x)) m xs \<and> (\<forall>x \<in> set xs. f x \<le> foldl (\<lambda>m x. max m (f x)) m xs)"
  for f :: "'a \<Rightarrow> int"
proof (induction xs arbitrary: m)
  case (Cons a xs)
  show ?case
    using Cons.IH [of "max m (f a)"] by auto
qed simp

lemma foldl_max_le: "m \<le> b \<Longrightarrow> \<forall>x \<in> set xs. f x \<le> b \<Longrightarrow> foldl (\<lambda>m x. max m (f x)) m xs \<le> b"
  for f :: "'a \<Rightarrow> int"
  by (induction xs arbitrary: m) auto

lemma record_frame [simp]:
  "ls_current (recordRenderedLines lines now st) = ls_current st"
  "ls_open (recordRenderedLines lines now st) = ls_open st"
  "ls_token (recordRenderedLines lines now st) = ls_token st"
  "ls_connected (recordRenderedLines lines now st) = ls_connected st"
  "ls_term (recordRenderedLines lines now st) = ls_term st"
  "ls_pending (recordRenderedLines lines now st) = ls_pending st"
  by (simp_all add: recordRenderedLines_def Let_def)

lemma metrics_inv_more:
  assumes ok: "metrics_inv ms observed mid mx viol" and new: "new = line_metrics mid now lines"
  shows "metrics_inv (drop (length (ms @ new) - LIVE_LOG_MAX_RENDER_METRICS) (ms @ new))
    (observed + length new) (mid + length new)
    (foldl (\<lambda>m metric. max m (lm_delayMs metric)) mx new)
    (case viol of Some v \<Rightarrow> Some v
     | None \<Rightarrow> find (\<lambda>metric. lm_delayMs metric > LIVE_LOG_MAX_DELAY_MS) new)"
proof -
  define k where "k = length (ms @ new) - LIVE_LOG_MAX_RENDER_METRICS"
  let ?max = "foldl (\<lambda>m metric. max m (lm_delayMs metric)) mx new"
  have n: "mid = observed" "length ms \<le> observed"
    using ok by (simp_all add: metrics_inv_def)
  have "map lm_id (ms @ new) = [observed - length ms..<observed] @ [observed..<observed + length new]"
    using ok line_metrics_ids [of mid now lines] by (simp add: metrics_inv_def new)
  also have "\<dots> = [observed - length ms..<observed + length new]"
    using upt_add_eq_append [of "observed - length ms" observed "length new"] by simp
  finally have "drop k (map lm_id (ms @ new)) = [observed - length ms + k..<observed + length new]"
    by (simp only: drop_upt)
  moreover have "observed - length ms + k = observed + length new - length (drop k (ms @ new))"
    using n(2) by (simp add: k_def)
  ultimately have ids: "map lm_id (drop k (ms @ new))
      = [observed + length new - length (drop k (ms @ new))..<observed + length new]"
    by (simp only: drop_map)
  have delays: "0 \<le> lm_delayMs m \<and> lm_delayMs m \<le> ?max" if "m \<in> set (ms @ new)" for m
    using that ok foldl_max [of mx lm_delayMs new] line_metrics_delay
    by (fastforce simp: metrics_inv_def list_all_iff new)
  have mx: "0 \<le> ?max"
    using ok foldl_max [of mx lm_delayMs new] by (auto simp: metrics_inv_def)
  have viol: "delay_bound (case viol of Some v \<Rightarrow> Some v
        | None \<Rightarrow> find (\<lambda>metric. lm_delayMs metric > LIVE_LOG_MAX_DELAY_MS) new) ?max"
  proof (cases viol)
    case None
    show ?thesis
    proof (cases "find (\<lambda>metric. lm_delayMs metric > LIVE_LOG_MAX_DELAY_MS) new")
      case None
      then have "\<forall>x \<in> set new. lm_delayMs x \<le> LIVE_LOG_MAX_DELAY_MS"
        by (auto simp: find_None_iff not_less)
      then show ?thesis
        using ok \<open>viol = None\<close> foldl_max_le [of mx LIVE_LOG_MAX_DELAY_MS new lm_delayMs]
        unfolding None by (simp add: metrics_inv_def)
    next
      case (Some v)
      then have "v \<in> set new" "LIVE_LOG_MAX_DELAY_MS < lm_delayMs v"
        by (auto simp: find_Some_iff)
      then show ?thesis
        using \<open>viol = None\<close> delays unfolding Some by simp
    qed
  next
    case (Some v)
    then show ?thesis
      using ok foldl_max [of mx lm_delayMs new] by (auto simp: metrics_inv_def)
  qed
  have len: "length (drop k (ms @ new)) = min (observed + length new) LIVE_LOG_MAX_RENDER_METRICS"
  proof -
    have "length (drop k (ms @ new)) = length ms + length new - (length ms + length new - LIVE_LOG_MAX_RENDER_METRICS)"
      by (simp only: k_def length_drop length_append)
    moreover have "length ms = min observed LIVE_LOG_MAX_RENDER_METRICS"
      using ok by (simp add: metrics_inv_def)
    ultimately show ?thesis
      by linarith
  qed
  have bound: "list_all (\<lambda>m. 0 \<le> lm_delayMs m \<and> lm_delayMs m \<le> ?max) (drop k (ms @ new))"
    using delays in_set_dropD [of _ k "ms @ new"] by (simp only: list_all_iff) blast
  show ?thesis
    unfolding metrics_inv_def k_def [symmetric] using ids viol mx len bound n(1) by blast
qed

lemma metrics_ok_record: "metrics_ok st \<Longrightarrow> metrics_ok (recordRenderedLines lines now st)"
  using metrics_inv_more [of "ls_metrics st" "ls_observed st" "ls_metricId st" "ls_maxDelay st" "ls_violation st"]
  by (simp add: recordRenderedLines_def Let_def metrics_ok_def)

text \<open>Only these fields matter for the invariant.\<close>

lemma live_ok_fields [simp]:
  "live_ok (st\<lparr>ls_jobId := x_jobId\<rparr>) \<longleftrightarrow> live_ok st"
  "live_ok (st\<lparr>ls_status := x_status\<rparr>) \<longleftrightarrow> live_ok st"
  "live_ok (st\<lparr>ls_error := x_error\<rparr>) \<longleftrightarrow> live_ok st"
  "live_ok (st\<lparr>ls_canceling := x_canceling\<rparr>) \<longleftrightarrow> live_ok st"
  "live_ok (st\<lparr>ls_pending := x_pending\<rparr>) \<longleftrightarrow> live_ok st"
  "live_ok (st\<lparr>ls_attached := x_attached\<rparr>) \<longleftrightarrow> live_ok st"
  "live_ok (st\<lparr>ls_received := x_received\<rparr>) \<longleftrightarrow> live_ok st"
  "live_ok (st\<lparr>ls_openCount := x_openCount\<rparr>) \<longleftrightarrow> live_ok st"
  "live_ok (st\<lparr>ls_statusCount := x_statusCount\<rparr>) \<longleftrightarrow> live_ok st"
  "live_ok (st\<lparr>ls_errorCount := x_errorCount\<rparr>) \<longleftrightarrow> live_ok st"
  "live_ok (st\<lparr>ls_lastStatus := x_lastStatus\<rparr>) \<longleftrightarrow> live_ok st"
  "live_ok (st\<lparr>ls_term := x_term\<rparr>) \<longleftrightarrow> live_ok st"
  "live_ok (st\<lparr>ls_lastAutoJob := x_lastAutoJob\<rparr>) \<longleftrightarrow> live_ok st"
  "live_ok (st\<lparr>ls_lastConnectKey := x_lastConnectKey\<rparr>) \<longleftrightarrow> live_ok st"
  "live_ok (st\<lparr>ls_lastCancelKey := x_lastCancelKey\<rparr>) \<longleftrightarrow> live_ok st"
  "live_ok (st\<lparr>ls_cancels := x_cancels\<rparr>) \<longleftrightarrow> live_ok st"
  by (simp_all add: live_inv_defs)

lemma live_ok_quiet [simp]: "live_ok st \<Longrightarrow> live_ok (st\<lparr>ls_connected := False\<rparr>)"
  by (auto simp: live_inv_defs intro: streams_inv_quiet)

lemma live_ok_record: "live_ok st \<Longrightarrow> live_ok (recordRenderedLines lines now st)"
  using metrics_ok_record [of st] by (simp add: live_ok_def streams_ok_def)

lemma live_ok_write: "live_ok st \<Longrightarrow> live_ok (writeLines s now st)"
  by (simp add: writeLines_def Let_def live_ok_record split: option.split)

lemma live_ok_banner: "live_ok st \<Longrightarrow> live_ok (writeTerminalBanner st)"
  by (simp add: writeTerminalBanner_def split: option.split)

lemma live_ok_flush: "live_ok st \<Longrightarrow> live_ok (flushPendingLines now st)"
  by (simp add: flushPendingLines_def live_ok_record split: option.split)

lemma live_ok_close: "live_ok st \<Longrightarrow> ls_token st = tok \<Longrightarrow> \<not> ls_connected st \<Longrightarrow> live_ok (closeStream tok st)"
  by (auto simp: live_inv_defs closeStream_def abort_stream_def Let_def streams_inv_def split: option.splits)

lemma close_stale: "streams_ok st \<Longrightarrow> ls_token st \<noteq> tok \<Longrightarrow> closeStream tok st = st"
  by (auto simp: closeStream_def abort_stream_def Let_def streams_ok_def streams_inv_def split: option.splits)

lemma live_ok_connect: "live_ok st \<Longrightarrow> live_ok (connectTo rawId st)"
  by (auto simp: connectTo_def live_inv_defs Let_def writeTerminalBanner_def abort_current_def abort_stream_def
      metrics_inv_def streams_inv_def LIVE_LOG_MAX_DELAY_MS_def split: option.splits)

lemma live_ok_failure: "live_ok st \<Longrightarrow> live_ok (handleStreamFailure tok message st)"
  by (simp add: handleStreamFailure_def live_ok_close)

lemma live_ok_status: "live_ok st \<Longrightarrow> live_ok (applyStatusPayload raw terminal now st)"
  by (simp add: applyStatusPayload_def Let_def live_ok_write split: option.split)

lemma token_record [simp]: "ls_token (writeLines s now st) = ls_token st" "ls_connected (writeLines s now st) = ls_connected st"
  by (simp_all add: writeLines_def Let_def split: option.split)

lemma status_over:
  "ls_token (applyStatusPayload raw terminal now st) = ls_token st"
  "terminal \<Longrightarrow> \<not> ls_connected (applyStatusPayload raw terminal now st)"
  by (simp_all add: applyStatusPayload_def Let_def split: option.split)

lemma failure_over: "ls_token st = tok \<Longrightarrow> ls_token (handleStreamFailure tok message st) = tok
   \<and> \<not> ls_connected (handleStreamFailure tok message st)"
  by (simp add: handleStreamFailure_def closeStream_def abort_stream_def Let_def)

lemma live_ok_event:
  assumes "live_ok st" and "handleStreamEvent tok parsed now st = (st', over)"
  shows "live_ok st' \<and> (over \<longrightarrow> ls_token st' = tok \<and> \<not> ls_connected st')"
  using assms
  by (auto simp: handleStreamEvent_def Let_def live_ok_write live_ok_status live_ok_failure
      failure_over status_over split: prod.splits if_splits)

lemma live_ok_on_event: "live_ok st \<Longrightarrow> live_ok (on_stream_event tok kind payload now st)"
  using live_ok_event [of st tok] live_ok_close
  by (auto simp: on_stream_event_def Let_def split: option.split prod.split)

lemma live_ok_step: "live_ok st \<Longrightarrow> live_ok (live_step e st)"
proof (cases e)
  case (Stream_open tok)
  assume ok: "live_ok st"
  then have "live_ok (st\<lparr>ls_openCount := ls_openCount st + 1\<rparr>)" "streams_ok st"
    by simp (use ok in \<open>simp add: live_ok_def\<close>)
  with ok Stream_open show ?thesis
    by (simp add: on_stream_open_def close_stale)
qed (simp_all add: live_ok_connect live_ok_on_event live_ok_failure terminal_ready_def live_ok_banner live_ok_flush
    terminal_disposed_def sync_external_job_def auto_connect_def connect_requested_def cancel_begin_def cancel_end_def
    cancel_requested_def Let_def split: option.split)

interpretation live: machine live_step live_ok
  by unfold_locales (rule live_ok_step)

lemma live_ok_initial [simp]: "live_ok (initial_live job connectKey cancelKey)"
  by (simp add: live_inv_defs metrics_inv_def streams_inv_def initial_live_def LIVE_LOG_MAX_DELAY_MS_def)


subsection \<open>Frames that are read back\<close>

lemma takeWhile_no_colon: "CHR '':'' \<notin> set f \<Longrightarrow> takeWhile (\<lambda>c. c \<noteq> CHR '':'') (f @ CHR '':'' # r) = f"
  by (induction f) auto

lemma sse_field:
  assumes "CHR '':'' \<notin> set f" "f \<noteq> []"
  shows "sse_line (event, ds) (f @ CHR '':'' # CHR '' '' # v) =
    (if f = ''event'' then (if v = [] then ''message'' else v, ds)
     else if f = ''data'' then (event, ds @ [v]) else (event, ds))"
proof -
  have "\<not> starts_with (f @ CHR '':'' # CHR '' '' # v) '':''"
    using assms by (cases f) (auto simp: starts_with_def)
  then show ?thesis
    using assms by (simp add: sse_line_def takeWhile_no_colon sse_value_def starts_with_def)
qed

lemma NL_eq_iff: "NL = c \<longleftrightarrow> code c = 10" "c = NL \<longleftrightarrow> code c = 10"
  by (auto simp: NL_def code_inject [symmetric] simp del: code_inject)

lemma literal_codes [simp]: "code CHR '':'' = 58" "code CHR '' '' = 32"
  by (simp_all add: code_def)

lemma kind_name_no_NL: "NL \<notin> set (kind_name kind)" "kind_name kind \<noteq> []"
proof -
  show "NL \<notin> set (kind_name kind)"
    by (cases kind) (simp_all add: NL_eq_iff, simp_all add: code_def)
  show "kind_name kind \<noteq> []"
    by (cases kind) simp_all
qed

lemma frame_lines: "split_on NL (frame_of kind payload) =
    (''event'' @ CHR '':'' # CHR '' '' # kind_name kind) # split_on NL (''data'' @ CHR '':'' # CHR '' '' # payload)"
proof -
  have "NL \<notin> set (''event: '' @ kind_name kind)"
    using kind_name_no_NL [of kind] by (simp add: NL_eq_iff) (simp add: code_def)
  then show ?thesis
    using split_on_append [of NL "''event: '' @ kind_name kind" "''data: '' @ payload"]
    by (simp add: frame_of_def)
qed

lemma parse_frame:
  assumes "NL \<notin> set payload"
  shows "parseSseFrame (frame_of kind payload) = Some (kind_name kind, payload)"
proof -
  have "NL \<notin> set (''data'' @ CHR '':'' # CHR '' '' # payload)"
    using assms by (simp add: NL_eq_iff) (simp add: code_def)
  then have "split_on NL (frame_of kind payload) =
      [''event'' @ CHR '':'' # CHR '' '' # kind_name kind, ''data'' @ CHR '':'' # CHR '' '' # payload]"
    unfolding frame_lines by (subst split_on_absent) simp_all
  then show ?thesis
    using kind_name_no_NL [of kind]
    by (simp add: parseSseFrame_def sse_field [of "''event''", simplified] sse_field [of "''data''", simplified])
qed


subsection \<open>Delivery\<close>

lemma sse_line_other:
  assumes "\<not> starts_with l ''data''" "\<not> starts_with l ''event''"
  shows "sse_line acc l = acc"
proof -
  have "takeWhile (\<lambda>c. c \<noteq> CHR '':'') l \<noteq> f" if "\<not> starts_with l f" for f
    using that takeWhile_eq_take [of "\<lambda>c. c \<noteq> CHR '':''" l] by (metis starts_with_def length_takeWhile_le
        append_eq_conv_conj takeWhile_dropWhile_id)
  with assms show ?thesis
    by (cases acc) (simp add: sse_line_def Let_def)
qed

text \<open>
  What a frame rebuilt from the text of an event is read as: the first line of the text, unless a later line reads
  as a field of an event itself.
\<close>

definition first_line :: "string \<Rightarrow> string" where
  "first_line payload = hd (split_on NL payload)"

definition no_field_line :: "string \<Rightarrow> bool" where
  "no_field_line payload \<longleftrightarrow>
     list_all (\<lambda>l. \<not> starts_with l ''data'' \<and> \<not> starts_with l ''event'') (tl (split_on NL payload))"

lemma first_line_whole: "NL \<notin> set payload \<Longrightarrow> first_line payload = payload \<and> no_field_line payload"
  by (simp add: first_line_def no_field_line_def split_on_absent)

lemma sse_lines_other:
  "list_all (\<lambda>l. \<not> starts_with l ''data'' \<and> \<not> starts_with l ''event'') ls \<Longrightarrow> foldl sse_line acc ls = acc"
  by (induction ls) (simp_all add: sse_line_other)

lemma split_on_prefix: "c \<notin> set p \<Longrightarrow> split_on c (p @ s) = (p @ hd (split_on c s)) # tl (split_on c s)"
proof (induction p)
  case Nil
  show ?case
    by (simp add: list.collapse)
qed (auto split: list.split)

lemma parse_text:
  assumes "no_field_line payload"
  shows "parseSseFrame (frame_of kind payload) = Some (kind_name kind, first_line payload)"
proof -
  have "NL \<notin> set ''data: ''"
    by (simp add: NL_eq_iff) (simp add: code_def)
  from split_on_prefix [OF this, of payload]
  have "split_on NL (''data'' @ CHR '':'' # CHR '' '' # payload)
      = (''data'' @ CHR '':'' # CHR '' '' # first_line payload) # tl (split_on NL payload)"
    by (simp add: first_line_def)
  then have "split_on NL (frame_of kind payload) =
      (''event'' @ CHR '':'' # CHR '' '' # kind_name kind) # (''data'' @ CHR '':'' # CHR '' '' # first_line payload)
        # tl (split_on NL payload)"
    unfolding frame_lines by (rule arg_cong)
  then show ?thesis
    using assms kind_name_no_NL [of kind] unfolding no_field_line_def
    by (simp add: parseSseFrame_def sse_field [of "''event''", simplified] sse_field [of "''data''", simplified]
        sse_lines_other)
qed

definition log_lines :: "string \<Rightarrow> string list" where
  "log_lines payload = shown_lines (decodeLogLine payload)"

definition deliver :: "nat \<Rightarrow> (string \<times> int) list \<Rightarrow> live_state \<Rightarrow> live_state" where
  "deliver tok logs st = foldl (\<lambda>st (payload, now). on_stream_event tok Log_frame payload now st) st logs"

definition event_lines :: "string \<Rightarrow> string list" where
  "event_lines payload = log_lines (first_line payload)"

lemma log_event:
  assumes "no_field_line payload" and "ls_token st = tok"
  shows "on_stream_event tok Log_frame payload now st = writeLines (decodeLogLine (first_line payload)) now st"
  using parse_text [OF assms(1), of Log_frame] assms(2)
  by (simp add: on_stream_event_def handleStreamEvent_def)

lemma write_attached [simp]: "ls_attached (writeLines s now st) = ls_attached st"
  by (simp add: writeLines_def recordRenderedLines_def Let_def split: option.split)

lemma deliver_frame:
  "\<forall>(d, now) \<in> set logs. no_field_line d \<Longrightarrow> ls_token st = tok
   \<Longrightarrow> ls_token (deliver tok logs st) = tok \<and> ls_attached (deliver tok logs st) = ls_attached st"
proof (induction logs arbitrary: st)
  case (Cons x logs)
  obtain d now where x: "x = (d, now)"
    by (cases x)
  then show ?case
    using Cons.IH [of "writeLines (decodeLogLine (first_line d)) now st"] Cons.prems log_event [of d st tok now]
    by (simp add: deliver_def)
qed (simp add: deliver_def)

lemma deliver_pending:
  "\<forall>(d, now) \<in> set logs. no_field_line d \<Longrightarrow> ls_token st = tok \<Longrightarrow> ls_term st = None
   \<Longrightarrow> ls_term (deliver tok logs st) = None
     \<and> ls_pending (deliver tok logs st) = ls_pending st @ concat (map (event_lines \<circ> fst) logs)"
proof (induction logs arbitrary: st)
  case (Cons x logs)
  obtain d now where x: "x = (d, now)"
    by (cases x)
  have "ls_term (writeLines (decodeLogLine (first_line d)) now st) = None"
    "ls_pending (writeLines (decodeLogLine (first_line d)) now st) = ls_pending st @ event_lines d"
    using Cons.prems(3) by (simp_all add: writeLines_def event_lines_def log_lines_def Let_def)
  then show ?case
    using Cons.IH [of "writeLines (decodeLogLine (first_line d)) now st"] Cons.prems log_event [of d st tok now] x
    by (simp add: deliver_def)
qed (simp add: deliver_def)

lemma deliver_shown:
  "\<forall>(d, now) \<in> set logs. no_field_line d \<Longrightarrow> ls_token st = tok \<Longrightarrow> ls_term st = Some shown
   \<Longrightarrow> ls_term (deliver tok logs st) = Some (shown @ concat (map (event_lines \<circ> fst) logs))
     \<and> ls_pending (deliver tok logs st) = ls_pending st"
proof (induction logs arbitrary: st shown)
  case (Cons x logs)
  obtain d now where x: "x = (d, now)"
    by (cases x)
  have "ls_term (writeLines (decodeLogLine (first_line d)) now st) = Some (shown @ event_lines d)"
    "ls_pending (writeLines (decodeLogLine (first_line d)) now st) = ls_pending st"
    using Cons.prems(3) by (simp_all add: writeLines_def event_lines_def log_lines_def Let_def)
  then show ?case
    using Cons.IH [of "writeLines (decodeLogLine (first_line d)) now st"] Cons.prems log_event [of d st tok now] x
    by (simp add: deliver_def)
qed (simp add: deliver_def)

lemma ready_shows:
  "ls_term (terminal_ready now st) = Some (banner (ls_attached st) @ ls_pending st)
   \<and> ls_pending (terminal_ready now st) = [] \<and> ls_token (terminal_ready now st) = ls_token st"
  by (simp add: terminal_ready_def writeTerminalBanner_def flushPendingLines_def)

lemma connect_facts:
  "trim job \<noteq> [] \<Longrightarrow> ls_attached (connectTo job st) = Some (trim job) \<and> ls_pending (connectTo job st) = []
   \<and> (ls_term st = None \<longrightarrow> ls_term (connectTo job st) = None)"
  by (simp add: connectTo_def Let_def writeTerminalBanner_def abort_current_def abort_stream_def split: option.split)

text \<open>
  C14: log events that come while the terminal still loads are neither lost, doubled nor reordered. After connecting
  to a job with the terminal not loaded, whatever log events come before it is ready and after, the terminal shows
  its banner and then the lines of all the events, in order, and nothing is pending. The lines of an event are those
  of the first line of its text: the API sends an event as one line of JSON, which is shown whole, but of a text of
  several lines only the first is read (\<open>multiline_event_cut\<close> below). The one proviso is that no
  later line of such a text begins like a field of an event itself (\<open>data\<close> or \<open>event\<close>).
\<close>

theorem log_events_shown:
  fixes st0 :: live_state
  assumes "ls_term st0 = None" and "trim job \<noteq> []"
    and "\<forall>(payload, now) \<in> set (before @ later). no_field_line payload"
  shows "let st1 = connectTo job st0;
             st = deliver (ls_token st1) later (terminal_ready ready (deliver (ls_token st1) before st1))
    in ls_term st = Some (banner (Some (trim job)) @ concat (map (event_lines \<circ> fst) (before @ later)))
       \<and> ls_pending st = []"
proof -
  define st1 where "st1 = connectTo job st0"
  define st2 where "st2 = deliver (ls_token st1) before st1"
  have st1: "ls_attached st1 = Some (trim job)" "ls_pending st1 = []" "ls_term st1 = None"
    using assms connect_facts [of job st0] by (simp_all add: st1_def)
  have st2: "ls_attached st2 = Some (trim job)" "ls_token st2 = ls_token st1"
    "ls_pending st2 = concat (map (event_lines \<circ> fst) before)"
    using st1 assms(3) deliver_frame [of before st1] deliver_pending [of before st1]
    by (auto simp: st2_def)
  have "ls_term (terminal_ready ready st2) = Some (banner (Some (trim job)) @ concat (map (event_lines \<circ> fst) before))"
    "ls_pending (terminal_ready ready st2) = []" "ls_token (terminal_ready ready st2) = ls_token st1"
    using ready_shows [of ready st2] by (simp_all add: st2)
  then show ?thesis
    using assms(3) deliver_shown [of later "terminal_ready ready st2" "ls_token st1"]
    unfolding Let_def st1_def [symmetric] st2_def [symmetric] by auto
qed

subsection \<open>Properties of the live log\<close>

text \<open>
  C16: the latency record stays bounded and consistent. Whatever connects, streams, fails,
  finishes and is cancelled, and in whatever order, the record keeps the latest 200 measured lines
  (all, when there are fewer), numbered without gaps up to the number measured; every delay is
  between zero and the maximum shown, and a violation is recorded exactly when that maximum is
  above thirty seconds.
\<close>

theorem live_metrics_bounded:
  "let st = fold live_step es (initial_live job connectKey cancelKey) in
    length (ls_metrics st) = min (ls_observed st) 200
    \<and> map lm_id (ls_metrics st) = [ls_observed st - length (ls_metrics st)..<ls_observed st]
    \<and> list_all (\<lambda>m. 0 \<le> lm_delayMs m \<and> lm_delayMs m \<le> ls_maxDelay st) (ls_metrics st)
    \<and> (ls_violation st \<noteq> None \<longleftrightarrow> 30000 < ls_maxDelay st)"
proof -
  have "live_ok (fold live_step es (initial_live job connectKey cancelKey))"
    by (rule live.every_run_ok) simp
  then show ?thesis
    unfolding Let_def live_ok_def metrics_ok_def metrics_inv_def
    by (cases "ls_violation (fold live_step es (initial_live job connectKey cancelKey))")
      (auto simp: LIVE_LOG_MAX_RENDER_METRICS_def LIVE_LOG_MAX_DELAY_MS_def)
qed

text \<open>
  C15: a stale stream has no effect. In every state that can be reached, at most the stream of the
  latest connection is open, and an event of any older one (its opening, a log line, a status, the
  end or an error) changes nothing at all.
\<close>

theorem stale_stream_ignored:
  fixes es :: "live_event list"
  assumes "tok \<noteq> ls_token (fold live_step es (initial_live job connectKey cancelKey))"
    and "stale \<in> {Stream_open tok, Stream_event tok kind payload now, Stream_error tok}"
  shows "let st = fold live_step es (initial_live job connectKey cancelKey) in
    live_step stale st = st \<and> set (ls_open st) \<subseteq> {ls_token st} \<and> length (ls_open st) \<le> 1"
proof -
  define st where "st = fold live_step es (initial_live job connectKey cancelKey)"
  have "live_ok st"
    unfolding st_def by (rule live.every_run_ok) simp
  then have ok: "streams_ok st"
    by (simp add: live_ok_def)
  then have "set (ls_open st) \<subseteq> {ls_token st} \<and> length (ls_open st) \<le> 1"
    by (auto simp: streams_ok_def streams_inv_def split: option.splits)
  moreover have "handleStreamEvent tok parsed now st = (st, False)" for parsed
    using assms(1) by (cases parsed) (simp add: handleStreamEvent_def st_def)
  ultimately show ?thesis
    using assms ok close_stale [OF ok, of tok]
    by (auto simp: Let_def st_def [symmetric] on_stream_open_def on_stream_event_def handleStreamFailure_def
        split: option.split)
qed

text \<open>
  A stream that ends is closed. In every state that can be reached, when the current stream
  reports that the deployment is done, or is lost, it is closed, no stream stays open and the view
  is not connected, so that nothing is reconnected or left waiting.
\<close>

theorem ended_stream_closed:
  fixes es :: "live_event list"
  assumes "NL \<notin> set payload"
    and "ended \<in> {Stream_event (ls_token (fold live_step es (initial_live job connectKey cancelKey))) Done_frame payload now,
                  Stream_error (ls_token (fold live_step es (initial_live job connectKey cancelKey)))}"
  shows "let st = live_step ended (fold live_step es (initial_live job connectKey cancelKey)) in
    \<not> ls_connected st \<and> ls_open st = [] \<and> ls_current st = None"
proof -
  define st where "st = fold live_step es (initial_live job connectKey cancelKey)"
  have ok: "live_ok st"
    unfolding st_def by (rule live.every_run_ok) simp
  have closed: "\<not> ls_connected (closeStream (ls_token s) s) \<and> ls_open (closeStream (ls_token s) s) = []
      \<and> ls_current (closeStream (ls_token s) s) = None" if "live_ok s" "\<not> ls_connected s" for s
    using that by (auto simp: live_ok_def streams_ok_def streams_inv_def closeStream_def abort_stream_def Let_def
        split: option.splits)
  have lost: "live_ok (st\<lparr>ls_errorCount := n, ls_error := e, ls_connected := False\<rparr>)" for n e
    using ok by simp
  have "handleStreamEvent (ls_token st) (''done'', payload) now st = (applyStatusPayload payload True now st, True)"
    by (simp add: handleStreamEvent_def)
  then have "live_step (Stream_event (ls_token st) Done_frame payload now) st
      = closeStream (ls_token (applyStatusPayload payload True now st)) (applyStatusPayload payload True now st)"
    using parse_frame [OF assms(1), of Done_frame] by (simp add: on_stream_event_def status_over)
  moreover have "live_step (Stream_error (ls_token st)) st = closeStream (ls_token st)
      (st\<lparr>ls_errorCount := ls_errorCount st + 1, ls_error := Some ''Connection lost'', ls_connected := False\<rparr>)"
    by (simp add: handleStreamFailure_def)
  ultimately show ?thesis
    using assms(2) closed [OF live_ok_status [OF ok]] closed [OF lost] status_over(2) [of True payload now st]
    unfolding st_def [symmetric] Let_def by auto
qed

text \<open>
  An event whose text has several lines is cut. The listener rebuilds a frame from the text
  and prefixes only its first line, so the other lines are dropped; and if one of them reads as an
  event line, the event gets that name: a log text can end the log.
\<close>

theorem multiline_event_cut:
  assumes "NL \<notin> set first" and "NL \<notin> set name" and "name \<noteq> []"
    and "\<forall>l \<in> set (split_on NL others). \<not> starts_with l ''data'' \<and> \<not> starts_with l ''event''"
  shows "parseSseFrame (frame_of kind (first @ NL # others)) = Some (kind_name kind, first)
    \<and> parseSseFrame (frame_of kind (first @ NL # ''event: '' @ name)) = Some (name, first)"
proof -
  have lines: "split_on NL (frame_of kind (first @ NL # r)) =
      (''event'' @ CHR '':'' # CHR '' '' # kind_name kind) # (''data'' @ CHR '':'' # CHR '' '' # first) # split_on NL r" for r
  proof -
    have "NL \<notin> set (''data'' @ CHR '':'' # CHR '' '' # first)"
      using assms(1) by (simp add: NL_eq_iff) (simp add: code_def)
    then show ?thesis
      unfolding frame_lines using split_on_append [of NL "''data'' @ CHR '':'' # CHR '' '' # first" r] by simp
  qed
  have rest: "foldl sse_line acc ls = acc"
    if "\<forall>l \<in> set ls. \<not> starts_with l ''data'' \<and> \<not> starts_with l ''event''" for acc ls
    using that by (induction ls) (simp_all add: sse_line_other)
  have "NL \<notin> set (''event'' @ CHR '':'' # CHR '' '' # name)"
    using assms(2) by (simp add: NL_eq_iff) (simp add: code_def)
  then have name: "split_on NL (''event'' @ CHR '':'' # CHR '' '' # name) = [''event'' @ CHR '':'' # CHR '' '' # name]"
    by (rule split_on_absent)
  have "parseSseFrame (frame_of kind (first @ NL # others)) = Some (kind_name kind, first)"
    using assms(4) kind_name_no_NL [of kind] unfolding parseSseFrame_def lines
    by (simp add: sse_field [of "''event''", simplified] sse_field [of "''data''", simplified] rest)
  moreover have "parseSseFrame (frame_of kind (first @ NL # ''event: '' @ name)) = Some (name, first)"
    using assms(3) kind_name_no_NL [of kind] name unfolding parseSseFrame_def lines
    by (simp add: sse_field [of "''event''", simplified] sse_field [of "''data''", simplified])
  ultimately show ?thesis
    by simp
qed

subsection \<open>Concrete sessions\<close>

definition demo_log :: string where
  "demo_log = json (JObj [(''type'', JStr ''log''), (''line'', JStr ''[RX:1700000000000] up'')])"

definition demo_cut :: string where
  "demo_cut = ''one'' @ NL # ''two''"

theorem log_events_shown_witness:
  "let st1 = connectTo '' job-1 '' (initial_live [] None None);
       st = deliver (ls_token st1) [(''plain'', 7)]
              (terminal_ready 5 (deliver (ls_token st1) [(demo_log, 1), (demo_cut, 2)] st1))
    in ls_term st = Some (banner (Some (trim '' job-1 ''))
           @ concat (map (event_lines \<circ> fst) ([(demo_log, 1 :: int), (demo_cut, 2)] @ [(''plain'', 7)])))
       \<and> ls_pending st = []"
  by (rule log_events_shown; code_simp)

theorem stale_stream_ignored_witness:
  "let st = fold live_step [Connect ''a'', Stream_open 1, Connect ''b''] (initial_live [] None None) in
    live_step (Stream_error 1) st = st \<and> set (ls_open st) \<subseteq> {ls_token st} \<and> length (ls_open st) \<le> 1"
  by (rule stale_stream_ignored [where tok = 1 and kind = Log_frame and payload = "[]" and now = 0]; code_simp)

theorem ended_stream_closed_witness:
  "let st = live_step (Stream_error 1)
         (fold live_step [Connect ''a'', Stream_open 1] (initial_live [] None None)) in
    \<not> ls_connected st \<and> ls_open st = [] \<and> ls_current st = None"
  by (rule ended_stream_closed [where payload = "[]" and now = 0]; code_simp)

theorem multiline_event_cut_witness:
  "parseSseFrame (frame_of Log_frame (''one'' @ NL # ''two'')) = Some (kind_name Log_frame, ''one'')
    \<and> parseSseFrame (frame_of Log_frame (''one'' @ NL # ''event: '' @ ''done'')) = Some (''done'', ''one'')"
  by (rule multiline_event_cut; code_simp)

end
