(* ===== verification/UsersTab.thy ===== *)
theory UsersTab
  imports WorkspaceUsers
begin

text \<open>
  The rows of the users tab (\<open>deployment-workspace/panels/users-tab/users-tab-utils.ts\<close>): reading
  them from the parsed group variables, the map and the document written back, the fingerprint
  that tells whether something changed, filters, and the checks of the fields. The YAML library is
  a parameter: \<open>yaml\<close> parses (\<open>None\<close> when it throws) and \<open>to_yaml\<close> prints a document, given the
  passwords that are tagged as vault texts.
\<close>

named_theorems tab_defs \<open>definitions of the users tab\<close>

subsection \<open>Rows\<close>

text \<open>A row is a user, with a mark that is cleared after its first save.\<close>

record UserRow = WorkspaceUser +
  ur_isNew :: "bool option"

abbreviation user_of :: "UserRow \<Rightarrow> WorkspaceUser" where
  "user_of \<equiv> WorkspaceUser.truncate"

definition row_of :: "WorkspaceUser \<Rightarrow> UserRow" where
  "row_of u = WorkspaceUser.extend u (UserRow.fields None)"

datatype ColumnKey = Username | Firstname | Lastname | Email | Uid | Gid | Roles | Description | Reserved

fun column_name :: "ColumnKey \<Rightarrow> string" where
  "column_name Username = ''username''"
| "column_name Firstname = ''firstname''"
| "column_name Lastname = ''lastname''"
| "column_name Email = ''email''"
| "column_name Uid = ''uid''"
| "column_name Gid = ''gid''"
| "column_name Roles = ''roles''"
| "column_name Description = ''description''"
| "column_name Reserved = ''reserved''"

definition COLUMNS :: "(ColumnKey \<times> bool) list" where
  "COLUMNS = [(Username, True), (Firstname, True), (Lastname, True), (Email, False), (Uid, False),
     (Gid, False), (Roles, False), (Description, False), (Reserved, False)]"

definition CUSTOMER_VISIBLE_COLUMNS :: "ColumnKey list" where
  "CUSTOMER_VISIBLE_COLUMNS = [Username, Firstname, Lastname]"

subsection \<open>Reading\<close>

fun str_field :: "jsval \<Rightarrow> string option" where
  "str_field (JStr s) = Some s"
| "str_field _ = None"

fun num_field :: "jsval \<Rightarrow> num option" where
  "num_field (JNum n) = Some n"
| "num_field _ = None"

fun bool_field :: "jsval \<Rightarrow> bool option" where
  "bool_field (JBool b) = Some b"
| "bool_field _ = None"

fun obj_field :: "jsval \<Rightarrow> (string \<times> jsval) list option" where
  "obj_field (JObj m) = Some m"
| "obj_field _ = None"

fun strs_field :: "jsval \<Rightarrow> string list option" where
  "strs_field (JArr vs) = Some (List.map_filter str_field vs)"
| "strs_field _ = None"

definition entryToRow :: "string \<Rightarrow> jsval \<Rightarrow> UserRow option" where
  "entryToRow rawKey value =
     (if \<not> is_obj value then None
      else
        let username = trim (str_nn (coalesce (jget value ''username'') (JStr rawKey))) in
        if username = [] then None
        else Some \<lparr>wu_username = username,
          wu_firstname = trim (str_nn (jget value ''firstname'')),
          wu_lastname = trim (str_nn (jget value ''lastname'')),
          wu_email = map_option trim (str_field (jget value ''email'')),
          wu_password = str_field (jget value ''password''),
          wu_uid = num_field (jget value ''uid''), wu_gid = num_field (jget value ''gid''),
          wu_roles = strs_field (jget value ''roles''), wu_tokens = obj_field (jget value ''tokens''),
          wu_authorized_keys = strs_field (jget value ''authorized_keys''),
          wu_reserved = bool_field (jget value ''reserved''),
          wu_description = str_field (jget value ''description''),
          ur_isNew = None\<rparr>)"

definition parse_rows :: "jsval \<Rightarrow> UserRow list" where
  "parse_rows rawUsers =
     (case rawUsers of
        JArr entries \<Rightarrow> List.map_filter (entryToRow []) entries
      | JObj m \<Rightarrow> List.map_filter (\<lambda>(key, value). entryToRow key value) (own_entries m)
      | _ \<Rightarrow> [])"

definition parseDoc :: "(string \<Rightarrow> jsval option) \<Rightarrow> string \<Rightarrow> (string \<times> jsval) list \<times> UserRow list" where
  "parseDoc yaml content =
     (if trim content = [] then ([], [])
      else case yaml content of
        Some (JObj doc) \<Rightarrow> (doc, parse_rows (jget (JObj doc) ''users''))
      | _ \<Rightarrow> ([], []))"

subsection \<open>Writing\<close>

definition rowsToYamlMap :: "UserRow list \<Rightarrow> (string \<times> jsval) list" where
  "rowsToYamlMap rows =
     foldl (\<lambda>out row.
       let username = trim (wu_username row) in
       if username = [] then out
       else AList.update username (JObj (toYamlUserEntry (user_of (row\<lparr>wu_username := username\<rparr>)))) out)
       [] rows"

definition rowsFingerprint :: "UserRow list \<Rightarrow> string" where
  "rowsFingerprint rows = json (JObj (rowsToYamlMap rows))"

definition users_document :: "(string \<times> jsval) list \<Rightarrow> UserRow list \<Rightarrow> jsval" where
  "users_document doc rows = JObj (AList.update ''users'' (JObj (rowsToYamlMap rows)) doc)"

definition vault_text :: "string \<Rightarrow> bool" where
  "vault_text pw \<longleftrightarrow> starts_with pw ''$ANSIBLE_VAULT;''"

definition vault_cells :: "UserRow list \<Rightarrow> (string \<times> string) list" where
  "vault_cells rows =
     List.map_filter (\<lambda>row.
       let username = trim (wu_username row); pw = (case wu_password row of None \<Rightarrow> [] | Some p \<Rightarrow> p)
       in if username \<noteq> [] \<and> vault_text pw then Some (username, pw) else None) rows"

definition buildUsersYamlContent ::
  "(jsval \<Rightarrow> (string \<times> string) list \<Rightarrow> string) \<Rightarrow> (string \<times> jsval) list \<Rightarrow> UserRow list \<Rightarrow> string" where
  "buildUsersYamlContent to_yaml doc rows = to_yaml (users_document doc rows) (vault_cells rows)"

subsection \<open>Filters\<close>

definition formatColumnValue :: "UserRow \<Rightarrow> ColumnKey \<Rightarrow> string" where
  "formatColumnValue row key =
     (case key of
        Username \<Rightarrow> wu_username row
      | Firstname \<Rightarrow> wu_firstname row
      | Lastname \<Rightarrow> wu_lastname row
      | Email \<Rightarrow> opt_str id (wu_email row)
      | Uid \<Rightarrow> opt_str num_str (wu_uid row)
      | Gid \<Rightarrow> opt_str num_str (wu_gid row)
      | Roles \<Rightarrow> opt_str (join '', '') (wu_roles row)
      | Description \<Rightarrow> opt_str id (wu_description row)
      | Reserved \<Rightarrow> opt_str (\<lambda>b. if b then ''yes'' else ''no'') (wu_reserved row))"

definition rowMatchesColumnFilters :: "UserRow \<Rightarrow> (ColumnKey \<times> string) list \<Rightarrow> bool" where
  "rowMatchesColumnFilters row filters =
     list_all (\<lambda>(key, raw).
       let q = to_lower (trim raw)
       in q = [] \<or> str_includes (to_lower (formatColumnValue row key)) q) filters"

subsection \<open>Checks of the fields\<close>

definition email_char :: "char \<Rightarrow> bool" where
  "email_char c \<longleftrightarrow> is_alnum c \<or> c \<in> set ''.!#$%&*+/=?^_{|}~-'' \<or> code c = 39 \<or> code c = 96"

definition host_label :: "string \<Rightarrow> bool" where
  "host_label s \<longleftrightarrow> s \<noteq> [] \<and> length s \<le> 63 \<and> is_alnum (hd s) \<and> is_alnum (last s)
     \<and> list_all (\<lambda>c. is_alnum c \<or> c = CHR ''-'') s"

definition email_pattern :: "string \<Rightarrow> bool" where
  "email_pattern v =
     (let before = takeWhile (\<lambda>c. c \<noteq> CHR ''@'') v; rest = dropWhile (\<lambda>c. c \<noteq> CHR ''@'') v
      in before \<noteq> [] \<and> list_all email_char before \<and> rest \<noteq> []
         \<and> list_all host_label (split_on (CHR ''.'') (tl rest)))"

definition isValidEmail :: "string option \<Rightarrow> bool" where
  "isValidEmail value = (let v = trim (opt_str id value) in v = [] \<or> email_pattern v)"

definition isValidUsername :: "string option \<Rightarrow> bool" where
  "isValidUsername value = (let v = trim (opt_str id value) in v \<noteq> [] \<and> username_ok v)"

text \<open>The current row is told apart by its position among the rows.\<close>

definition isUsernameAvailable :: "UserRow list \<Rightarrow> string \<Rightarrow> nat option \<Rightarrow> bool" where
  "isUsernameAvailable rows candidate currentRow =
     (let target = trim candidate in
      target = [] \<or> \<not> list_ex (\<lambda>i. Some i \<noteq> currentRow \<and> trim (wu_username (rows ! i)) = target)
                      [0..<length rows])"

definition isValidUidGid :: "num option \<Rightarrow> bool" where
  "isValidUidGid value =
     (case value of None \<Rightarrow> True | Some n \<Rightarrow> num_is_int n \<and> \<not> num_lt_int n 0)"

definition isConventionalUidGid :: "num option \<Rightarrow> bool" where
  "isConventionalUidGid value =
     (case value of None \<Rightarrow> True
      | Some n \<Rightarrow> num_is_int n \<and> \<not> num_lt_int n 1000 \<and> \<not> num_gt_int n 60000)"

definition sanitizeUsernameInput :: "string \<Rightarrow> string" where
  "sanitizeUsernameInput raw = filter is_az09 (to_lower raw)"

definition sanitizeIntegerInput :: "string \<Rightarrow> string" where
  "sanitizeIntegerInput raw = filter is_digit raw"

datatype PasswordStatus = Unset | Vault | Plaintext

definition classifyPassword :: "string option \<Rightarrow> PasswordStatus" where
  "classifyPassword value =
     (let v = trim (opt_str id value) in
      if v = [] then Unset
      else if starts_with v ''!vault'' \<or> starts_with v ''$ANSIBLE_VAULT;'' \<or> starts_with v ''{{''
      then Vault else Plaintext)"

definition validateRows :: "UserRow list \<Rightarrow> string option" where
  "validateRows rows =
     fst (foldl (\<lambda>(res, seen) row.
       let u = trim (wu_username row) in
       if res \<noteq> None then (res, seen)
       else if u = [] then (Some ''A row has an empty username.'', seen)
       else if \<not> username_ok u then
         (Some (''Username '' @ [QUOTE] @ u @ [QUOTE] @ '' must contain only lowercase letters and digits.''), seen)
       else if u \<in> set seen then (Some (''Duplicate username '' @ [QUOTE] @ u @ [QUOTE] @ ''.''), seen)
       else (None, set_add u seen)) (None, []) rows)"

subsection \<open>Reading what was written\<close>

text \<open>A row in the form reading gives: trimmed names, and no field that is there but empty.\<close>

definition row_tidy :: "UserRow \<Rightarrow> bool" where
  "row_tidy r \<longleftrightarrow> token (wu_username r) \<and> trim (wu_firstname r) = wu_firstname r
     \<and> trim (wu_lastname r) = wu_lastname r
     \<and> opt_all token (wu_email r) \<and> opt_all (\<lambda>s. s \<noteq> []) (wu_password r)
     \<and> opt_all (\<lambda>v. v \<noteq> []) (wu_roles r) \<and> opt_all (\<lambda>v. v \<noteq> []) (wu_tokens r)
     \<and> opt_all (\<lambda>v. v \<noteq> []) (wu_authorized_keys r) \<and> opt_all (\<lambda>v. v \<noteq> []) (wu_description r)"

lemma strs_back [simp]: "strs_field (js_strings ss) = Some ss"
  by (induction ss) (auto simp: js_strings_def List.map_filter_simps)

lemma field_back [simp]:
  "str_field (opt_val JStr s) = s" "num_field (opt_val JNum n) = n" "bool_field (opt_val JBool b) = b"
  "obj_field (opt_val JObj m) = m" "strs_field (opt_val js_strings ss) = ss"
  by (cases s; cases n; cases b; cases m; cases ss; simp add: opt_val_def)+

text \<open>
  What is kept of a row: its texts trimmed, empty fields dropped, and no mark of being new. Of rows with the same name,
  up to white space around it, the last one counts, in the place of the first; a row without a name is not written.
\<close>

definition kept :: "('a \<Rightarrow> bool) \<Rightarrow> 'a option \<Rightarrow> 'a option" where
  "kept P v = (case v of Some x \<Rightarrow> if P x then Some x else None | None \<Rightarrow> None)"

definition tidy_row :: "UserRow \<Rightarrow> UserRow" where
  "tidy_row r = r\<lparr>wu_username := trim (wu_username r), wu_firstname := trim (wu_firstname r), wu_lastname := trim (wu_lastname r),
     wu_email := map_option trim (kept (\<lambda>s. s \<noteq> []) (wu_email r)), wu_password := kept (\<lambda>s. s \<noteq> []) (wu_password r),
     wu_roles := kept (\<lambda>v. v \<noteq> []) (wu_roles r), wu_tokens := kept (\<lambda>v. v \<noteq> []) (wu_tokens r),
     wu_authorized_keys := kept (\<lambda>v. v \<noteq> []) (wu_authorized_keys r), wu_description := kept (\<lambda>s. s \<noteq> []) (wu_description r),
     ur_isNew := None\<rparr>"

definition last_rows :: "UserRow list \<Rightarrow> (string \<times> UserRow) list" where
  "last_rows rows = foldl (\<lambda>m r. if trim (wu_username r) = [] then m else AList.update (trim (wu_username r)) r m) [] rows"

lemma written_entry:
  fixes r
  defines "m \<equiv> JObj (toYamlUserEntry (user_of (r\<lparr>wu_username := trim (wu_username r)\<rparr>)))"
  shows "jget m ''username'' = JStr (trim (wu_username r))"
    "jget m ''firstname'' = JStr (wu_firstname r)"
    "jget m ''lastname'' = JStr (wu_lastname r)"
    "jget m ''email'' = opt_val JStr (kept (\<lambda>s. s \<noteq> []) (wu_email r))"
    "jget m ''password'' = opt_val JStr (kept (\<lambda>s. s \<noteq> []) (wu_password r))"
    "jget m ''uid'' = opt_val JNum (wu_uid r)"
    "jget m ''gid'' = opt_val JNum (wu_gid r)"
    "jget m ''roles'' = opt_val js_strings (kept (\<lambda>v. v \<noteq> []) (wu_roles r))"
    "jget m ''tokens'' = opt_val JObj (kept (\<lambda>v. v \<noteq> []) (wu_tokens r))"
    "jget m ''authorized_keys'' = opt_val js_strings (kept (\<lambda>v. v \<noteq> []) (wu_authorized_keys r))"
    "jget m ''reserved'' = opt_val JBool (wu_reserved r)"
    "jget m ''description'' = opt_val JStr (kept (\<lambda>s. s \<noteq> []) (wu_description r))"
  unfolding m_def
  by (auto simp: toYamlUserEntry_def WorkspaceUser.truncate_def map_add_def opt_val_def kept_def split: option.splits)

lemma entry_back_any:
  "trim (wu_username r) \<noteq> [] \<Longrightarrow>
    entryToRow key (JObj (toYamlUserEntry (user_of (r\<lparr>wu_username := trim (wu_username r)\<rparr>)))) = Some (tidy_row r)"
  unfolding entryToRow_def written_entry
  by (simp add: is_obj_def tidy_row_def)

lemma update_map_value:
  "AList.update k (f r) (map (\<lambda>(k, r). (k, f r)) m) = map (\<lambda>(k, r). (k, f r)) (AList.update k r m)"
  by (induction m) auto

lemma written_map:
  "rowsToYamlMap rows = map (\<lambda>(k, r). (k, JObj (toYamlUserEntry (user_of (r\<lparr>wu_username := trim (wu_username r)\<rparr>))))) (last_rows rows)"
  by (induction rows rule: rev_induct)
    (simp_all add: rowsToYamlMap_def last_rows_def Let_def update_map_value [symmetric])

lemma update_entries: "e \<in> set (AList.update k v m) \<Longrightarrow> e = (k, v) \<or> e \<in> set m"
  by (induction m) (auto split: if_splits)

lemma last_rows_named: "(k, r) \<in> set (last_rows rows) \<Longrightarrow> trim (wu_username r) = k \<and> k \<noteq> []"
proof (induction rows rule: rev_induct)
  case (snoc x rows)
  then show ?case
    using update_entries [of "(k, r)" "trim (wu_username x)" x "last_rows rows"]
    by (auto simp: last_rows_def split: if_splits)
qed (simp add: last_rows_def)

lemma parse_rows_any: "parse_rows (JObj (rowsToYamlMap rows)) = map (\<lambda>(_, r). tidy_row r) (own_entries (last_rows rows))"
proof -
  have "own_entries (rowsToYamlMap rows)
      = map (\<lambda>(k, r). (k, JObj (toYamlUserEntry (user_of (r\<lparr>wu_username := trim (wu_username r)\<rparr>))))) (own_entries (last_rows rows))"
    unfolding written_map by (rule own_entries_map)
  moreover have "\<forall>e \<in> set (own_entries (last_rows rows)). trim (wu_username (snd e)) \<noteq> []"
    using last_rows_named [of _ _ rows] by fastforce
  ultimately show ?thesis
    unfolding parse_rows_def by (simp, intro map_filter_map) (auto simp: entry_back_any)
qed

lemma kept_all: "opt_all P v \<Longrightarrow> kept P v = v"
  by (cases v) (simp_all add: kept_def)

lemma tidy_row_tidy:
  assumes "row_tidy r"
  shows "tidy_row r = r\<lparr>ur_isNew := None\<rparr>"
proof -
  have "kept (\<lambda>s. s \<noteq> []) (wu_email r) = wu_email r" "map_option trim (wu_email r) = wu_email r"
    using assms by (cases "wu_email r"; simp add: row_tidy_def token_def kept_def)+
  then show ?thesis
    using assms by (simp add: row_tidy_def tidy_row_def kept_all token_def)
qed

lemma last_rows_distinct:
  assumes "list_all row_tidy rows" "distinct (map wu_username rows)"
  shows "last_rows rows = map (\<lambda>r. (wu_username r, r)) rows"
  using assms
proof (induction rows rule: rev_induct)
  case (snoc r rows)
  then have "last_rows rows = map (\<lambda>r. (wu_username r, r)) rows" "trim (wu_username r) = wu_username r" "wu_username r \<noteq> []"
    "wu_username r \<notin> wu_username ` set rows"
    by (auto simp: row_tidy_def token_def)
  moreover have "AList.update k v m = m @ [(k, v)]" if "k \<notin> fst ` set m" for k :: string and v :: UserRow and m
    using that by (induction m) auto
  ultimately show ?case
    by (simp add: last_rows_def image_image)
qed (simp add: last_rows_def)

lemma parse_rows_map:
  assumes "list_all row_tidy rows" "distinct (map wu_username rows)"
  shows "parse_rows (JObj (rowsToYamlMap rows))
    = map (\<lambda>(_, r). r\<lparr>ur_isNew := None\<rparr>) (own_entries (map (\<lambda>r. (wu_username r, r)) rows))"
proof -
  have "\<forall>e \<in> set (own_entries (map (\<lambda>r. (wu_username r, r)) rows)). row_tidy (snd e)"
    using assms by (auto simp: list_all_iff)
  then show ?thesis
    unfolding parse_rows_any last_rows_distinct [OF assms] by (auto simp: tidy_row_tidy)
qed

text \<open>
  C23: the rows written to the group variables are read back: whatever the rows are, what comes back are the rows that
  were written, tidied (texts trimmed, empty optional fields dropped, none new any more), in the order in which the
  language enumerates the names, where a row without a name is not written and of rows with one name the last counts;
  the rest of the document is unchanged. In particular rows that are tidy and of distinct names come back as they are.
  The text written must not be blank, and the reader of the text must give back the document it was made from.
\<close>

theorem rows_roundtrip:
  assumes "trim (buildUsersYamlContent to_yaml doc rows) \<noteq> []"
    and yaml: "yaml (buildUsersYamlContent to_yaml doc rows) = Some (users_document doc rows)"
  shows "snd (parseDoc yaml (buildUsersYamlContent to_yaml doc rows))
      = map (\<lambda>(_, r). tidy_row r) (own_entries (last_rows rows))
    \<and> map_of (fst (parseDoc yaml (buildUsersYamlContent to_yaml doc rows)))
      = (map_of doc)(''users'' \<mapsto> JObj (rowsToYamlMap rows))
    \<and> (list_all row_tidy rows \<and> distinct (map wu_username rows) \<longrightarrow>
         snd (parseDoc yaml (buildUsersYamlContent to_yaml doc rows))
         = map (\<lambda>(_, r). r\<lparr>ur_isNew := None\<rparr>) (own_entries (map (\<lambda>r. (wu_username r, r)) rows)))"
proof -
  have "snd (parseDoc yaml (buildUsersYamlContent to_yaml doc rows)) = parse_rows (JObj (rowsToYamlMap rows))"
    "map_of (fst (parseDoc yaml (buildUsersYamlContent to_yaml doc rows)))
      = (map_of doc)(''users'' \<mapsto> JObj (rowsToYamlMap rows))"
    using assms by (simp_all add: parseDoc_def users_document_def update_conv')
  then show ?thesis
    using parse_rows_any parse_rows_map by simp
qed

definition demo_row :: UserRow where
  "demo_row = row_of (hd demo_users)"

lemma demo_row_fields:
  "demo_row = \<lparr>wu_username = ''ann'', wu_firstname = ''Ann'', wu_lastname = ''Lee'',
     wu_email = Some ''ann@x.org'', wu_password = None, wu_uid = Some (Dec 1001 0), wu_gid = None,
     wu_roles = Some [''admin''], wu_tokens = Some [(''api'', JNum (Dec 1 0))],
     wu_authorized_keys = None, wu_reserved = Some True, wu_description = None, ur_isNew = None\<rparr>"
  by (simp add: demo_row_def row_of_def demo_users_def WorkspaceUser.defs UserRow.defs)

definition untidy_rows :: "UserRow list" where
  "untidy_rows = [demo_row, demo_row\<lparr>wu_username := ''bob'', wu_gid := None\<rparr>,
     demo_row\<lparr>wu_username := '' ann '', wu_roles := Some [], ur_isNew := Some True\<rparr>]"

theorem rows_roundtrip_witness:
  "snd (parseDoc (\<lambda>_. Some (users_document [(''port'', JNum (Dec 22 0))] untidy_rows))
      (buildUsersYamlContent (\<lambda>_ _. ''text'') [(''port'', JNum (Dec 22 0))] untidy_rows))
    = map (\<lambda>(_, r). tidy_row r) (own_entries (last_rows untidy_rows))"
proof -
  have t: "trim ''text'' \<noteq> []" by code_simp
  show ?thesis
    using rows_roundtrip [of "\<lambda>_ _. ''text''" "[(''port'', JNum (Dec 22 0))]" untidy_rows
        "\<lambda>_. Some (users_document [(''port'', JNum (Dec 22 0))] untidy_rows)"] t
    by (simp add: buildUsersYamlContent_def untidy_rows_def)
qed

subsection \<open>What the check of the rows means\<close>

lemma validate_loop:
  "(let out = foldl (\<lambda>(res, seen) row.
       let u = trim (wu_username row) in
       if res \<noteq> None then (res, seen)
       else if u = [] then (Some ''A row has an empty username.'', seen)
       else if \<not> username_ok u then
         (Some (''Username '' @ [QUOTE] @ u @ [QUOTE] @ '' must contain only lowercase letters and digits.''), seen)
       else if u \<in> set seen then (Some (''Duplicate username '' @ [QUOTE] @ u @ [QUOTE] @ ''.''), seen)
       else (None, set_add u seen)) (None, []) (rows :: UserRow list);
     names = map (\<lambda>r. trim (wu_username r)) rows
   in (fst out = None) = (list_all username_ok names \<and> distinct names)
      \<and> (fst out = None \<longrightarrow> set (snd out) = set names))"
proof (induction rows rule: rev_induct)
  case (snoc r rows)
  then show ?case
    by (auto simp: Let_def username_ok_def split: prod.splits)
qed simp

lemma validateRows_None:
  "validateRows rows = None \<longleftrightarrow>
     list_all username_ok (map (\<lambda>r. trim (wu_username r)) rows)
     \<and> distinct (map (\<lambda>r. trim (wu_username r)) rows)"
  using validate_loop [of rows] unfolding validateRows_def Let_def by auto

lemma map_keys_loop:
  "fst ` set (rowsToYamlMap rows) = (\<lambda>r. trim (wu_username r)) ` set rows - {[]}
   \<and> distinct (map fst (rowsToYamlMap rows))"
proof (induction rows rule: rev_induct)
  case (snoc r rows)
  then show ?case
    by (auto simp: rowsToYamlMap_def Let_def dom_update)
qed (simp add: rowsToYamlMap_def)

text \<open>
  C24: the check of the rows passes exactly when every name consists of lower case letters and
  digits and no two are the same, and then the map written has one entry per row; with a name given twice a
  row is missing from what is written.
\<close>

theorem validateRows_complete:
  "(validateRows rows = None) =
     (list_all username_ok (map (\<lambda>r. trim (wu_username r)) rows)
      \<and> distinct (map (\<lambda>r. trim (wu_username r)) rows))
   \<and> (validateRows rows = None \<longrightarrow> length (rowsToYamlMap rows) = length rows)
   \<and> (\<not> distinct (map (\<lambda>r. trim (wu_username r)) rows) \<longrightarrow> length (rowsToYamlMap rows) < length rows)"
proof -
  let ?names = "map (\<lambda>r. trim (wu_username r)) rows"
  have "length (rowsToYamlMap rows) = card (fst ` set (rowsToYamlMap rows))"
    using map_keys_loop [of rows] distinct_card [of "map fst (rowsToYamlMap rows)"] by simp
  also have "\<dots> = card (set ?names - {[]})"
    using map_keys_loop [of rows] by simp
  finally have len: "length (rowsToYamlMap rows) = card (set ?names - {[]})" .
  have "[] \<notin> set ?names" if "list_all username_ok ?names"
    using that by (auto simp: list_all_iff username_ok_def)
  moreover have "card (set ?names - {[]}) \<le> card (set ?names)"
    by (rule card_mono) auto
  moreover have "card (set ?names) < length rows" if "\<not> distinct ?names"
    using that card_length [of ?names] card_distinct [of ?names] by (metis length_map le_neq_implies_less)
  moreover have "card (set ?names) = length rows" if "distinct ?names"
    using distinct_card [OF that] by simp
  ultimately show ?thesis
    unfolding validateRows_None len by auto
qed

theorem validateRows_complete_witness:
  "validateRows [demo_row, demo_row\<lparr>wu_username := ''bob''\<rparr>] = None
   \<and> length (rowsToYamlMap [demo_row, demo_row\<lparr>wu_username := ''bob''\<rparr>]) = 2
   \<and> length (rowsToYamlMap [demo_row, demo_row\<lparr>wu_username := '' ann''\<rparr>]) < 2"
proof -
  have n: "trim ''ann'' = ''ann''" "trim ''bob'' = ''bob''" "trim '' ann'' = ''ann''"
    "username_ok ''ann''" "username_ok ''bob''"
    by code_simp+
  show ?thesis
    using validateRows_complete [of "[demo_row, demo_row\<lparr>wu_username := ''bob''\<rparr>]"]
      validateRows_complete [of "[demo_row, demo_row\<lparr>wu_username := '' ann''\<rparr>]"] n
    by (simp add: demo_row_fields)
qed

subsection \<open>Where the comments differ from the code\<close>

text \<open>
  A field of a user that the tab does not know is dropped by reading and writing, although the
  comment promises that every key is preserved.
\<close>

theorem unknown_field_dropped:
  assumes "k \<notin> set USER_CSV_HEADERS"
    and "entryToRow key (JObj m) = Some row"
  shows "jget (JObj (toYamlUserEntry (user_of row))) k = JUndefined"
  using assms
  by (simp add: USER_CSV_HEADERS_def toYamlUserEntry_def map_add_def)

theorem unknown_field_dropped_witness:
  "jget (JObj (toYamlUserEntry (user_of (the (entryToRow ''ann'' (JObj [(''shell'', JStr ''/bin/sh'')])))))) ''shell''
     = JUndefined"
proof -
  have "trim ''ann'' = ''ann''" by code_simp
  then have "entryToRow ''ann'' (JObj [(''shell'', JStr ''/bin/sh'')]) \<noteq> None"
    by (simp add: entryToRow_def is_obj_def Let_def)
  then obtain row where row: "entryToRow ''ann'' (JObj [(''shell'', JStr ''/bin/sh'')]) = Some row" by blast
  show ?thesis
    using unknown_field_dropped [OF _ row, of "''shell''"]
    by (simp only: row option.sel) (simp add: USER_CSV_HEADERS_def)
qed

text \<open>
  An address with two dots in a row before the at sign is accepted, although the comment on the
  pattern says such addresses are rejected.
\<close>

lemma takeWhile_at: "CHR ''@'' \<notin> set p \<Longrightarrow> takeWhile (\<lambda>c. c \<noteq> CHR ''@'') (p @ CHR ''@'' # q) = p
    \<and> dropWhile (\<lambda>c. c \<noteq> CHR ''@'') (p @ CHR ''@'' # q) = CHR ''@'' # q"
  by (induction p) auto

lemma email_char_not_at: "list_all email_char p \<Longrightarrow> CHR ''@'' \<notin> set p"
  by (auto simp: list_all_iff email_char_def is_alnum_def is_az_def is_AZ_def is_digit_def code_def)

theorem double_dots_accepted:
  assumes "list_all email_char p" "list_all email_char q" "host_label d"
  shows "email_pattern (p @ ''..'' @ q @ ''@'' @ d)"
proof -
  have "CHR ''@'' \<notin> set (p @ ''..'' @ q)"
    using assms email_char_not_at by auto
  moreover have "split_on (CHR ''.'') d = [d]"
  proof -
    have "CHR ''.'' \<notin> set d"
      using assms(3) by (auto simp: host_label_def list_all_iff is_alnum_def is_az_def is_AZ_def is_digit_def code_def)
    then show ?thesis by (induction d) auto
  qed
  moreover have "email_char (CHR ''.'')" by (simp add: email_char_def)
  ultimately show ?thesis
    using assms takeWhile_at [of "p @ ''..'' @ q" d] by (simp add: email_pattern_def)
qed

theorem double_dots_accepted_witness: "isValidEmail (Some ''a..b@x'')"
proof -
  have v: "trim ''a..b@x'' = ''a..b@x''" by code_simp
  have "list_all email_char ''a''" "list_all email_char ''b''" "host_label ''x''"
    by code_simp+
  from double_dots_accepted [OF this] show ?thesis
    by (simp add: isValidEmail_def opt_str_def v)
qed

end
