(* ===== verification/UsersSync.thy ===== *)
theory UsersSync
  imports UsersTab DomainState
begin

text \<open>
  The users tab of a workspace (\<open>deployment-workspace/panels/UsersTabPanel.tsx\<close>): the state of the
  panel, its edits with their debounced saves, the poll of the stored file, import, filters
  and pages. A timer that runs is \<open>ut_timer\<close>, with the rows and the document its callback captured;
  a save under way is an element of \<open>ut_flying\<close>, and \<open>ut_sent\<close> logs the texts written. Timers and answers
  are events. The effect that checks the rows runs after every change of the rows.
\<close>

subsection \<open>State\<close>

datatype SyncState = Sync_idle | Sync_saving | Sync_saved | Sync_error

record pending_save =
  ps_rows :: "UserRow list"
  ps_doc :: "(string \<times> jsval) list"

record tab_state =
  ut_workspaceId :: string
  ut_rows :: "UserRow list"
  ut_doc :: "(string \<times> jsval) list"
  ut_loading :: bool
  ut_sync :: SyncState
  ut_error :: "string option"
  ut_externalChanged :: bool
  ut_detailKey :: "string option"
  ut_filterEnabled :: bool
  ut_columnFilters :: "(ColumnKey \<times> string) list"
  ut_page :: nat
  ut_rowsMode :: "nat option"
  ut_autoPageSize :: nat
  ut_visibleColumns :: "ColumnKey list"
  ut_timer :: "pending_save option"
  ut_lastRemote :: string
  ut_local :: string
  ut_flying :: "pending_save list"
  ut_sent :: "string list"

definition initial_tab :: "string \<Rightarrow> tab_state" where
  "initial_tab ws =
     \<lparr>ut_workspaceId = ws, ut_rows = [], ut_doc = [], ut_loading = False, ut_sync = Sync_idle,
      ut_error = None, ut_externalChanged = False, ut_detailKey = None, ut_filterEnabled = False,
      ut_columnFilters = [], ut_page = 1, ut_rowsMode = None, ut_autoPageSize = 10,
      ut_visibleColumns = map fst (filter snd COLUMNS), ut_timer = None, ut_lastRemote = [],
      ut_local = [], ut_flying = [], ut_sent = []\<rparr>"

text \<open>The effect after a change of the rows.\<close>

definition rows_effect :: "tab_state \<Rightarrow> tab_state" where
  "rows_effect st =
     (case validateRows (ut_rows st) of
        Some v \<Rightarrow> st\<lparr>ut_error := Some v\<rparr>
      | None \<Rightarrow>
          (case ut_error st of
             None \<Rightarrow> st
           | Some e \<Rightarrow>
               if e \<noteq> [] \<and> \<not> (starts_with e ''Failed to'' \<or> starts_with e ''Autosave'')
               then st\<lparr>ut_error := None\<rparr> else st))"

subsection \<open>Saving\<close>

definition scheduleSave :: "UserRow list \<Rightarrow> tab_state \<Rightarrow> tab_state" where
  "scheduleSave nextRows st =
     (let localFp = rowsFingerprint nextRows; st1 = st\<lparr>ut_local := localFp\<rparr>
      in if localFp = ut_lastRemote st then st1
         else st1\<lparr>ut_sync := Sync_saving,
                  ut_timer := Some \<lparr>ps_rows = nextRows, ps_doc = ut_doc st\<rparr>\<rparr>)"

definition saved_text :: "(jsval \<Rightarrow> (string \<times> string) list \<Rightarrow> string) \<Rightarrow> pending_save \<Rightarrow> string" where
  "saved_text to_yaml p = buildUsersYamlContent to_yaml (ps_doc p) (ps_rows p)"

definition save_timer ::
  "(jsval \<Rightarrow> (string \<times> string) list \<Rightarrow> string) \<Rightarrow> tab_state \<Rightarrow> tab_state" where
  "save_timer to_yaml st =
     (case ut_timer st of
        None \<Rightarrow> st
      | Some p \<Rightarrow> st\<lparr>ut_timer := None, ut_flying := ut_flying st @ [p],
                     ut_sent := ut_sent st @ [saved_text to_yaml p]\<rparr>)"

text \<open>The message of a refused save; a body that is null throws and is then read as text in vain.\<close>

definition write_error :: "nat \<Rightarrow> jsval option \<Rightarrow> string + string \<Rightarrow> string" where
  "write_error status json_body text_body =
     (let detail = (case json_body of
          Some data \<Rightarrow> str_or (jget data ''detail'')
        | None \<Rightarrow> (case text_body of Inl _ \<Rightarrow> [] | Inr text \<Rightarrow> text))
      in if detail = [] then ''HTTP '' @ dec_digits status else detail)"

definition clear_new :: "UserRow \<Rightarrow> UserRow" where
  "clear_new r = (if ur_isNew r = Some True then r\<lparr>ur_isNew := Some False\<rparr> else r)"

definition save_failed :: "string \<Rightarrow> tab_state \<Rightarrow> tab_state" where
  "save_failed message st =
     st\<lparr>ut_error := Some (''Autosave failed: '' @ message), ut_sync := Sync_error\<rparr>"

definition save_done :: "pending_save \<Rightarrow> tab_state \<Rightarrow> tab_state" where
  "save_done p st =
     (let fp = rowsFingerprint (ps_rows p);
          st1 = st\<lparr>ut_lastRemote := fp, ut_local := fp\<rparr>
      in if ut_local st1 \<noteq> fp then scheduleSave (ut_rows st1) st1
         else rows_effect (st1\<lparr>ut_sync := Sync_saved, ut_rows := map clear_new (ut_rows st1)\<rparr>))"

definition save_answer :: "nat \<Rightarrow> http_reply \<Rightarrow> tab_state \<Rightarrow> tab_state" where
  "save_answer i res st =
     (if i < length (ut_flying st) then
        let p = ut_flying st ! i;
            st' = st\<lparr>ut_flying := take i (ut_flying st) @ drop (Suc i) (ut_flying st)\<rparr>
        in case res of
             HttpOk _ \<Rightarrow> save_done p st'
           | HttpError status json_body text_body \<Rightarrow> save_failed (write_error status json_body text_body) st'
           | NetError message \<Rightarrow> save_failed message st'
      else st)"

subsection \<open>Loading and polling\<close>

definition reload_begin :: "bool \<Rightarrow> tab_state \<Rightarrow> tab_state" where
  "reload_begin silent st =
     (if ut_workspaceId st = [] then st
      else st\<lparr>ut_loading := (if silent then ut_loading st else True), ut_error := None\<rparr>)"

definition load_failed :: "string \<Rightarrow> tab_state \<Rightarrow> tab_state" where
  "load_failed message st = st\<lparr>ut_error := Some (''Failed to load users: '' @ message)\<rparr>"

definition show_remote :: "(string \<times> jsval) list \<times> UserRow list \<Rightarrow> tab_state \<Rightarrow> tab_state" where
  "show_remote parsed st =
     (let fp = rowsFingerprint (snd parsed)
      in rows_effect (st\<lparr>ut_doc := fst parsed, ut_rows := snd parsed, ut_lastRemote := fp, ut_local := fp\<rparr>))"

definition file_text :: "jsval \<Rightarrow> string" where
  "file_text data = str_nn (jget data ''content'')"

definition reload_end ::
  "(string \<Rightarrow> jsval option) \<Rightarrow> bool \<Rightarrow> http_reply \<Rightarrow> tab_state \<Rightarrow> tab_state" where
  "reload_end yaml silent res st =
     (let st' = (case res of
          HttpError status _ _ \<Rightarrow>
            if status = 404 then
              rows_effect (st\<lparr>ut_doc := [], ut_rows := [], ut_lastRemote := [], ut_local := [],
                              ut_externalChanged := False\<rparr>)
            else load_failed (''HTTP '' @ dec_digits status) st
        | NetError message \<Rightarrow> load_failed message st
        | HttpOk (Inl message) \<Rightarrow> load_failed message st
        | HttpOk (Inr data) \<Rightarrow>
            (show_remote (parseDoc yaml (file_text data)) st)\<lparr>ut_externalChanged := False\<rparr>)
      in if silent then st' else st'\<lparr>ut_loading := False\<rparr>)"

definition poll_end :: "(string \<Rightarrow> jsval option) \<Rightarrow> http_reply \<Rightarrow> tab_state \<Rightarrow> tab_state" where
  "poll_end yaml res st =
     (case res of
        HttpOk (Inr data) \<Rightarrow>
          (let parsed = parseDoc yaml (file_text data); remoteFp = rowsFingerprint (snd parsed)
           in if remoteFp = ut_lastRemote st then st
              else if ut_local st \<noteq> ut_lastRemote st then st\<lparr>ut_externalChanged := True\<rparr>
              else show_remote parsed st)
      | _ \<Rightarrow> st)"

subsection \<open>Editing\<close>

definition set_rows :: "UserRow list \<Rightarrow> tab_state \<Rightarrow> tab_state" where
  "set_rows next st = scheduleSave next (st\<lparr>ut_rows := next\<rparr>)"

text \<open>A patch of a row is a function on rows.\<close>

definition updateRowByUsername :: "string \<Rightarrow> (UserRow \<Rightarrow> UserRow) \<Rightarrow> tab_state \<Rightarrow> tab_state" where
  "updateRowByUsername username patch st =
     rows_effect ((set_rows (map (\<lambda>r. if wu_username r = username then patch r else r) (ut_rows st)) st)
       \<lparr>ut_error := None\<rparr>)"

definition removeRowByUsername :: "string \<Rightarrow> tab_state \<Rightarrow> tab_state" where
  "removeRowByUsername username st =
     (let st' = rows_effect (set_rows (filter (\<lambda>r. wu_username r \<noteq> username) (ut_rows st)) st)
      in if ut_detailKey st = Some username then st'\<lparr>ut_detailKey := None\<rparr> else st')"

definition createUser :: "UserRow \<Rightarrow> tab_state \<Rightarrow> tab_state" where
  "createUser user st = rows_effect (set_rows (ut_rows st @ [user\<lparr>ur_isNew := Some True\<rparr>]) st)"

text \<open>Spreading a user over a row: the fields the user has replace those of the row.\<close>

definition opt_over :: "'a option \<Rightarrow> 'a option \<Rightarrow> 'a option" where
  "opt_over new old = (case new of None \<Rightarrow> old | Some _ \<Rightarrow> new)"

definition spread_user :: "UserRow option \<Rightarrow> UserRow \<Rightarrow> UserRow" where
  "spread_user old u =
     (case old of
        None \<Rightarrow> u
      | Some r \<Rightarrow> \<lparr>wu_username = wu_username u, wu_firstname = wu_firstname u, wu_lastname = wu_lastname u,
          wu_email = opt_over (wu_email u) (wu_email r), wu_password = opt_over (wu_password u) (wu_password r),
          wu_uid = opt_over (wu_uid u) (wu_uid r), wu_gid = opt_over (wu_gid u) (wu_gid r),
          wu_roles = opt_over (wu_roles u) (wu_roles r), wu_tokens = opt_over (wu_tokens u) (wu_tokens r),
          wu_authorized_keys = opt_over (wu_authorized_keys u) (wu_authorized_keys r),
          wu_reserved = opt_over (wu_reserved u) (wu_reserved r),
          wu_description = opt_over (wu_description u) (wu_description r),
          ur_isNew = opt_over (ur_isNew u) (ur_isNew r)\<rparr>)"

definition merge_import :: "UserRow list \<Rightarrow> UserRow list \<Rightarrow> UserRow list" where
  "merge_import prev parsed =
     map snd (foldl (\<lambda>byName u.
       if wu_username u = [] then byName
       else AList.update (wu_username u) (spread_user (map_of byName (wu_username u)) u) byName)
       (foldl (\<lambda>byName r. AList.update (wu_username r) r byName) [] prev) parsed)"

datatype import_kind = Import_yaml_file | Import_csv_file

definition importFile ::
  "(string \<Rightarrow> jsval option) \<Rightarrow> import_kind \<Rightarrow> string + string \<Rightarrow> tab_state \<Rightarrow> tab_state" where
  "importFile yaml kind file st =
     (case file of
        Inl message \<Rightarrow> st\<lparr>ut_error := Some (''Import failed: '' @ message)\<rparr>
      | Inr text \<Rightarrow>
          (let parsed = (case kind of
                 Import_yaml_file \<Rightarrow> snd (parseDoc yaml text)
               | Import_csv_file \<Rightarrow> map row_of (parseUsersFromCsv yaml text))
           in rows_effect (set_rows (merge_import (ut_rows st) parsed) st)))"

definition onDetailChange :: "string option \<Rightarrow> (UserRow \<Rightarrow> UserRow) \<Rightarrow> tab_state \<Rightarrow> tab_state" where
  "onDetailChange newName patch st =
     (case ut_detailKey st of
        None \<Rightarrow> st
      | Some key \<Rightarrow>
          if key = [] \<or> \<not> list_ex (\<lambda>r. wu_username r = key) (ut_rows st) then st
          else updateRowByUsername key (\<lambda>r. (patch r)\<lparr>wu_username := (case newName of Some n \<Rightarrow> n | None \<Rightarrow> wu_username r)\<rparr>)
            (case newName of Some n \<Rightarrow> if n \<noteq> key then st\<lparr>ut_detailKey := Some n\<rparr> else st | None \<Rightarrow> st))"

subsection \<open>Columns, filters and pages\<close>

definition toggleColumn :: "ColumnKey \<Rightarrow> tab_state \<Rightarrow> tab_state" where
  "toggleColumn key st =
     (let prev = ut_visibleColumns st in
      if key \<in> set prev then
        if length prev = 1 then st else st\<lparr>ut_visibleColumns := set_del key prev\<rparr>
      else st\<lparr>ut_visibleColumns := set_add key prev\<rparr>)"

definition toggleFilter :: "tab_state \<Rightarrow> tab_state" where
  "toggleFilter st =
     (if ut_filterEnabled st
      then st\<lparr>ut_columnFilters := [], ut_filterEnabled := False, ut_page := 1\<rparr>
      else st\<lparr>ut_filterEnabled := True\<rparr>)"

definition changeColumnFilter :: "ColumnKey \<Rightarrow> string \<Rightarrow> tab_state \<Rightarrow> tab_state" where
  "changeColumnFilter key v st =
     st\<lparr>ut_columnFilters := AList.update key v (ut_columnFilters st), ut_page := 1\<rparr>"

definition effectiveColumnFilters :: "bool \<Rightarrow> tab_state \<Rightarrow> (ColumnKey \<times> string) list" where
  "effectiveColumnFilters isCustomer st = (if isCustomer then [] else ut_columnFilters st)"

definition effectiveVisibleColumns :: "bool \<Rightarrow> tab_state \<Rightarrow> ColumnKey list" where
  "effectiveVisibleColumns isCustomer st =
     (if isCustomer then CUSTOMER_VISIBLE_COLUMNS else ut_visibleColumns st)"

definition filteredRows :: "bool \<Rightarrow> tab_state \<Rightarrow> UserRow list" where
  "filteredRows isCustomer st =
     filter (\<lambda>row. rowMatchesColumnFilters row (effectiveColumnFilters isCustomer st)) (ut_rows st)"

definition tab_pageSize :: "tab_state \<Rightarrow> nat" where
  "tab_pageSize st = (case ut_rowsMode st of None \<Rightarrow> ut_autoPageSize st | Some n \<Rightarrow> n)"

definition tab_pageCount :: "bool \<Rightarrow> tab_state \<Rightarrow> nat" where
  "tab_pageCount isCustomer st =
     max 1 ((length (filteredRows isCustomer st) + tab_pageSize st - 1) div tab_pageSize st)"

definition safePage :: "bool \<Rightarrow> tab_state \<Rightarrow> nat" where
  "safePage isCustomer st = min (ut_page st) (tab_pageCount isCustomer st)"

definition pagedRows :: "bool \<Rightarrow> tab_state \<Rightarrow> UserRow list" where
  "pagedRows isCustomer st =
     take (tab_pageSize st)
       (drop ((safePage isCustomer st - 1) * tab_pageSize st) (filteredRows isCustomer st))"

definition onPrev :: "tab_state \<Rightarrow> tab_state" where
  "onPrev st = st\<lparr>ut_page := max 1 (ut_page st - 1)\<rparr>"

definition onNext :: "bool \<Rightarrow> tab_state \<Rightarrow> tab_state" where
  "onNext isCustomer st = st\<lparr>ut_page := min (tab_pageCount isCustomer st) (ut_page st + 1)\<rparr>"

definition onRowsModeChange :: "nat option \<Rightarrow> tab_state \<Rightarrow> tab_state" where
  "onRowsModeChange mode st = st\<lparr>ut_rowsMode := mode, ut_page := 1\<rparr>"

subsection \<open>What an edit does\<close>

lemma rows_effect_frame [simp]:
  "ut_rows (rows_effect st) = ut_rows st" "ut_doc (rows_effect st) = ut_doc st"
  "ut_sync (rows_effect st) = ut_sync st" "ut_timer (rows_effect st) = ut_timer st"
  "ut_lastRemote (rows_effect st) = ut_lastRemote st" "ut_local (rows_effect st) = ut_local st"
  "ut_flying (rows_effect st) = ut_flying st" "ut_sent (rows_effect st) = ut_sent st"
  "ut_externalChanged (rows_effect st) = ut_externalChanged st" "ut_page (rows_effect st) = ut_page st"
  "ut_visibleColumns (rows_effect st) = ut_visibleColumns st" "ut_detailKey (rows_effect st) = ut_detailKey st"
  by (auto simp: rows_effect_def split: option.splits)

lemma scheduleSave_frame [simp]:
  "ut_rows (scheduleSave next st) = ut_rows st" "ut_doc (scheduleSave next st) = ut_doc st"
  "ut_lastRemote (scheduleSave next st) = ut_lastRemote st"
  "ut_local (scheduleSave next st) = rowsFingerprint next"
  "ut_flying (scheduleSave next st) = ut_flying st" "ut_sent (scheduleSave next st) = ut_sent st"
  "ut_page (scheduleSave next st) = ut_page st" "ut_error (scheduleSave next st) = ut_error st"
  "ut_visibleColumns (scheduleSave next st) = ut_visibleColumns st"
  by (simp_all add: scheduleSave_def Let_def)

lemma scheduleSave_timer:
  "ut_timer (scheduleSave next st) =
     (if rowsFingerprint next = ut_lastRemote st then ut_timer st
      else Some \<lparr>ps_rows = next, ps_doc = ut_doc st\<rparr>)"
  by (simp add: scheduleSave_def Let_def)

lemma set_rows_frame [simp]:
  "ut_rows (set_rows next st) = next" "ut_doc (set_rows next st) = ut_doc st"
  "ut_lastRemote (set_rows next st) = ut_lastRemote st" "ut_local (set_rows next st) = rowsFingerprint next"
  "ut_flying (set_rows next st) = ut_flying st" "ut_sent (set_rows next st) = ut_sent st"
  "ut_page (set_rows next st) = ut_page st" "ut_visibleColumns (set_rows next st) = ut_visibleColumns st"
  "ut_timer (set_rows next st) = (if rowsFingerprint next = ut_lastRemote st then ut_timer st
     else Some \<lparr>ps_rows = next, ps_doc = ut_doc st\<rparr>)"
  by (simp_all add: set_rows_def scheduleSave_timer)

text \<open>The fingerprint does not see the mark of a new row.\<close>

lemma user_of_clear_new: "user_of ((clear_new r)\<lparr>wu_username := n\<rparr>) = user_of (r\<lparr>wu_username := n\<rparr>)"
  by (simp add: clear_new_def WorkspaceUser.truncate_def)

lemma fingerprint_clear_new [simp]: "rowsFingerprint (map clear_new rows) = rowsFingerprint rows"
proof -
  have "wu_username (clear_new r) = wu_username r" for r by (simp add: clear_new_def)
  then have "rowsToYamlMap (map clear_new rows) = rowsToYamlMap rows"
    by (simp add: rowsToYamlMap_def foldl_map user_of_clear_new Let_def cong: if_cong)
  then show ?thesis by (simp add: rowsFingerprint_def)
qed

definition patched_rows :: "string \<Rightarrow> (UserRow \<Rightarrow> UserRow) \<Rightarrow> UserRow list \<Rightarrow> UserRow list" where
  "patched_rows username patch rows = map (\<lambda>r. if wu_username r = username then patch r else r) rows"

lemma update_frame [simp]:
  "ut_rows (updateRowByUsername u f st) = patched_rows u f (ut_rows st)"
  "ut_doc (updateRowByUsername u f st) = ut_doc st"
  "ut_lastRemote (updateRowByUsername u f st) = ut_lastRemote st"
  "ut_local (updateRowByUsername u f st) = rowsFingerprint (patched_rows u f (ut_rows st))"
  "ut_flying (updateRowByUsername u f st) = ut_flying st"
  "ut_sent (updateRowByUsername u f st) = ut_sent st"
  "ut_timer (updateRowByUsername u f st) =
     (if rowsFingerprint (patched_rows u f (ut_rows st)) = ut_lastRemote st then ut_timer st
      else Some \<lparr>ps_rows = patched_rows u f (ut_rows st), ps_doc = ut_doc st\<rparr>)"
  "ut_page (updateRowByUsername u f st) = ut_page st"
  "ut_visibleColumns (updateRowByUsername u f st) = ut_visibleColumns st"
  by (simp_all add: updateRowByUsername_def patched_rows_def)

lemma save_done_simps:
  "save_done p st = rows_effect (st\<lparr>ut_lastRemote := rowsFingerprint (ps_rows p),
     ut_local := rowsFingerprint (ps_rows p), ut_sync := Sync_saved, ut_rows := map clear_new (ut_rows st)\<rparr>)"
  by (simp add: save_done_def Let_def)

text \<open>The timer of a pending save runs out and the server accepts.\<close>

lemma save_pending:
  assumes "ut_timer st = Some p" "ut_flying st = []"
  shows "save_answer 0 (HttpOk answer) (save_timer to_yaml st) =
    rows_effect (st\<lparr>ut_timer := None, ut_sent := ut_sent st @ [saved_text to_yaml p], ut_flying := [],
      ut_lastRemote := rowsFingerprint (ps_rows p), ut_local := rowsFingerprint (ps_rows p),
      ut_sync := Sync_saved, ut_rows := map clear_new (ut_rows st)\<rparr>)"
  using assms by (simp add: save_answer_def save_timer_def save_done_simps Let_def)

text \<open>
  An edit that changes what is stored is saved: when the timer runs out the edited rows are sent
  with the rest of the document, and once the server accepts, the rows shown are those sent, none is
  new any more, and nothing is pending.
\<close>

theorem edit_saved:
  assumes "ut_flying st = []" "rowsFingerprint (patched_rows u f (ut_rows st)) \<noteq> ut_lastRemote st"
  shows "let st1 = updateRowByUsername u f st;
             st3 = save_answer 0 (HttpOk answer) (save_timer to_yaml st1) in
    ut_rows st1 = patched_rows u f (ut_rows st)
    \<and> ut_sent st3 = ut_sent st @ [buildUsersYamlContent to_yaml (ut_doc st) (ut_rows st1)]
    \<and> ut_rows st3 = map clear_new (ut_rows st1) \<and> ut_lastRemote st3 = rowsFingerprint (ut_rows st3)
    \<and> ut_local st3 = ut_lastRemote st3 \<and> ut_timer st3 = None \<and> ut_flying st3 = [] \<and> ut_sync st3 = Sync_saved"
  using assms by (simp add: save_pending saved_text_def Let_def)

text \<open>
  A poll never replaces rows with local edits, it only raises the banner; without local
  edits it shows the rows of the file whenever these differ from the last known ones.
\<close>

theorem poll_keeps_edits:
  "(ut_local st \<noteq> ut_lastRemote st \<longrightarrow> poll_end yaml res st \<in> {st, st\<lparr>ut_externalChanged := True\<rparr>})
   \<and> (ut_local st = ut_lastRemote st \<longrightarrow>
      (let remote = parseDoc yaml (file_text data); st' = poll_end yaml (HttpOk (Inr data)) st in
       if rowsFingerprint (snd remote) = ut_lastRemote st then st' = st
       else ut_rows st' = snd remote \<and> ut_doc st' = fst remote \<and> ut_timer st' = ut_timer st
            \<and> ut_lastRemote st' = rowsFingerprint (ut_rows st') \<and> ut_local st' = ut_lastRemote st'))"
  by (auto simp: poll_end_def show_remote_def Let_def split: http_reply.splits sum.splits)

text \<open>
  An edit that is undone before its timer runs out is saved all the same, since the timer is not
  stopped; the panel then shows the undone rows as saved, and a poll of the stored rows does not
  correct it.
\<close>

theorem undo_saved_anyway:
  assumes settled: "ut_timer st = None" "ut_flying st = []" "ut_lastRemote st = rowsFingerprint (ut_rows st)"
    and changed: "rowsFingerprint (patched_rows u f (ut_rows st)) \<noteq> rowsFingerprint (ut_rows st)"
    and undone: "rowsFingerprint (patched_rows u g (patched_rows u f (ut_rows st))) = rowsFingerprint (ut_rows st)"
    and stored: "rowsFingerprint (snd (parseDoc yaml (file_text data))) = rowsFingerprint (patched_rows u f (ut_rows st))"
  shows "let st' = save_answer 0 (HttpOk answer) (save_timer to_yaml
             (updateRowByUsername u g (updateRowByUsername u f st))) in
    ut_sent st' = ut_sent st @ [buildUsersYamlContent to_yaml (ut_doc st) (patched_rows u f (ut_rows st))]
    \<and> rowsFingerprint (ut_rows st') = rowsFingerprint (ut_rows st)
    \<and> ut_lastRemote st' \<noteq> rowsFingerprint (ut_rows st')
    \<and> ut_sync st' = Sync_saved \<and> ut_timer st' = None \<and> poll_end yaml (HttpOk (Inr data)) st' = st'"
  using assms by (simp add: save_pending saved_text_def poll_end_def Let_def)

text \<open>
  Rows that fail the check are saved: an import with a bad or missing name shows the
  message of the check, and still the save of these rows is scheduled and sent.
\<close>

theorem invalid_rows_saved:
  assumes "validateRows (merge_import (ut_rows st) (snd (parseDoc yaml text))) = Some message"
    and "rowsFingerprint (merge_import (ut_rows st) (snd (parseDoc yaml text))) \<noteq> ut_lastRemote st"
  shows "let st' = importFile yaml Import_yaml_file (Inr text) st in
    ut_error st' = Some message
    \<and> ut_sent (save_timer to_yaml st')
        = ut_sent st @ [buildUsersYamlContent to_yaml (ut_doc st) (ut_rows st')]"
  using assms
  by (simp add: importFile_def save_timer_def saved_text_def rows_effect_def Let_def)

subsection \<open>Concrete runs\<close>

definition plain_row :: UserRow where
  "plain_row = \<lparr>wu_username = ''ann'', wu_firstname = ''A'', wu_lastname = ''L'', wu_email = None,
     wu_password = None, wu_uid = None, wu_gid = None, wu_roles = None, wu_tokens = None,
     wu_authorized_keys = None, wu_reserved = None, wu_description = None, ur_isNew = None\<rparr>"

lemma plain_tidy: "row_tidy plain_row" "token ''ann''" "trim ''A'' = ''A''" "trim ''L'' = ''L''"
  by (simp_all add: row_tidy_def plain_row_def) code_simp+

definition demo_tab :: tab_state where
  "demo_tab = (initial_tab ''w1'')\<lparr>ut_rows := [plain_row], ut_lastRemote := rowsFingerprint [plain_row],
     ut_local := rowsFingerprint [plain_row]\<rparr>"

definition typed :: "UserRow \<Rightarrow> UserRow" where
  "typed r = r\<lparr>wu_description := Some ''x''\<rparr>"

definition untyped :: "UserRow \<Rightarrow> UserRow" where
  "untyped r = r\<lparr>wu_description := Some []\<rparr>"

lemma demo_fingerprints:
  "rowsFingerprint (patched_rows ''ann'' typed [plain_row]) \<noteq> rowsFingerprint [plain_row]"
  "rowsFingerprint (patched_rows ''ann'' untyped (patched_rows ''ann'' typed [plain_row])) = rowsFingerprint [plain_row]"
proof -
  have "trim ''ann'' = ''ann''" by code_simp
  then have maps: "rowsToYamlMap (patched_rows ''ann'' typed [plain_row])
      = [(''ann'', JObj (toYamlUserEntry (user_of plain_row) @ [(''description'', JStr ''x'')]))]"
    "rowsToYamlMap (patched_rows ''ann'' untyped (patched_rows ''ann'' typed [plain_row])) = rowsToYamlMap [plain_row]"
    "rowsToYamlMap [plain_row] = [(''ann'', JObj (toYamlUserEntry (user_of plain_row)))]"
    by (simp_all add: rowsToYamlMap_def patched_rows_def typed_def untyped_def plain_row_def
        WorkspaceUser.truncate_def toYamlUserEntry_def opt_entry_def Let_def)
  show "rowsFingerprint (patched_rows ''ann'' untyped (patched_rows ''ann'' typed [plain_row])) = rowsFingerprint [plain_row]"
    by (simp add: rowsFingerprint_def maps)
  have "json (JObj [(''ann'', JObj (toYamlUserEntry (user_of plain_row) @ [(''description'', JStr ''x'')]))])
      \<noteq> json (JObj [(''ann'', JObj (toYamlUserEntry (user_of plain_row)))])"
    unfolding plain_row_def WorkspaceUser.truncate_def by code_simp
  then show "rowsFingerprint (patched_rows ''ann'' typed [plain_row]) \<noteq> rowsFingerprint [plain_row]"
    by (simp add: rowsFingerprint_def maps)
qed

lemma demo_tab_fields: "ut_flying demo_tab = []" "ut_timer demo_tab = None" "ut_rows demo_tab = [plain_row]"
  "ut_lastRemote demo_tab = rowsFingerprint [plain_row]" "ut_local demo_tab = rowsFingerprint [plain_row]"
  "ut_sent demo_tab = []" "ut_doc demo_tab = []"
  by (simp_all add: demo_tab_def initial_tab_def)

theorem edit_saved_witness:
  "ut_sent (save_answer 0 (HttpOk (Inr JNull)) (save_timer (\<lambda>_ _. ''text'') (updateRowByUsername ''ann'' typed demo_tab)))
    = [''text'']"
  using edit_saved [of demo_tab "''ann''" typed "Inr JNull" "\<lambda>_ _. ''text''"] demo_fingerprints
  by (simp add: demo_tab_fields buildUsersYamlContent_def Let_def)

theorem poll_keeps_edits_witness:
  "poll_end (\<lambda>_. None) (HttpOk (Inr (JObj []))) (demo_tab\<lparr>ut_local := []\<rparr>)
    \<in> {demo_tab\<lparr>ut_local := []\<rparr>, demo_tab\<lparr>ut_local := [], ut_externalChanged := True\<rparr>}"
proof -
  have "rowsFingerprint [plain_row] \<noteq> []"
    by (simp add: rowsFingerprint_def)
  then show ?thesis
    using poll_keeps_edits [of "demo_tab\<lparr>ut_local := []\<rparr>" "\<lambda>_. None" "HttpOk (Inr (JObj []))"]
    by (simp add: demo_tab_fields)
qed

theorem undo_saved_anyway_witness:
  "let st' = save_answer 0 (HttpOk (Inr JNull)) (save_timer (\<lambda>_ _. ''text'')
       (updateRowByUsername ''ann'' untyped (updateRowByUsername ''ann'' typed demo_tab)))
   in ut_sent st' = [''text''] \<and> ut_lastRemote st' \<noteq> rowsFingerprint (ut_rows st')"
proof -
  let ?stored = "parse_rows (JObj (rowsToYamlMap (patched_rows ''ann'' typed [plain_row])))"
  have rows: "rowsFingerprint ?stored = rowsFingerprint (patched_rows ''ann'' typed [plain_row])"
  proof -
    have "list_all row_tidy (patched_rows ''ann'' typed [plain_row])"
      using plain_tidy by (simp add: patched_rows_def typed_def row_tidy_def plain_row_def)
    then have "?stored = map (\<lambda>(_, r). r\<lparr>ur_isNew := None\<rparr>)
        (own_entries (map (\<lambda>r. (wu_username r, r)) (patched_rows ''ann'' typed [plain_row])))"
      by (rule parse_rows_map) (simp add: patched_rows_def)
    also have "\<dots> = patched_rows ''ann'' typed [plain_row]"
      by (simp add: patched_rows_def typed_def plain_row_def own_entries_def)
    finally show ?thesis by simp
  qed
  have tx: "trim ''t'' \<noteq> []" by code_simp
  have "rowsFingerprint (snd (parseDoc (\<lambda>_. Some (users_document [] (patched_rows ''ann'' typed [plain_row])))
      (file_text (JObj [(''content'', JStr ''t'')])))) = rowsFingerprint (patched_rows ''ann'' typed [plain_row])"
    using rows tx by (simp add: parseDoc_def users_document_def file_text_def)
  then show ?thesis
    using undo_saved_anyway [OF demo_tab_fields(2) demo_tab_fields(1), unfolded demo_tab_fields,
        OF refl demo_fingerprints, of "\<lambda>_. Some (users_document [] (patched_rows ''ann'' typed [plain_row]))"
        "JObj [(''content'', JStr ''t'')]" "Inr JNull" "\<lambda>_ _. ''text''"]
    unfolding Let_def buildUsersYamlContent_def by auto
qed

theorem invalid_rows_saved_witness:
  "ut_sent (save_timer (\<lambda>_ _. ''text'')
     (importFile (\<lambda>_. Some (JObj [(''users'', JObj [(''Bob'', JObj [])])])) Import_yaml_file (Inr ''t'') (initial_tab ''w1'')))
   = [''text'']"
proof -
  let ?yaml = "\<lambda>_ :: string. Some (JObj [(''users'', JObj [(''Bob'', JObj [])])])"
  have t: "trim ''t'' \<noteq> []" "trim ''Bob'' = ''Bob''" "\<not> username_ok ''Bob''" "\<not> index_key ''Bob''" by code_simp+
  obtain r where r: "merge_import [] (snd (parseDoc ?yaml ''t'')) = [r]" "wu_username r = ''Bob''"
    using t by (simp add: parseDoc_def parse_rows_def own_entries_def entryToRow_def is_obj_def
        merge_import_def spread_user_def List.map_filter_simps Let_def)
  have "validateRows [r] \<noteq> None" using r(2) t by (simp add: validateRows_None)
  then obtain message where "validateRows [r] = Some message" by blast
  moreover have "rowsFingerprint [r] \<noteq> []" by (simp add: rowsFingerprint_def)
  ultimately show ?thesis
    using invalid_rows_saved [of "initial_tab ''w1''" ?yaml "''t''" message "\<lambda>_ _. ''text''"] r
    by (simp add: initial_tab_def buildUsersYamlContent_def Let_def)
qed

subsection \<open>The machine\<close>

datatype tab_event =
  Edit_row string "UserRow \<Rightarrow> UserRow"
| Edit_detail "string option" "UserRow \<Rightarrow> UserRow"
| Remove_row string
| Create_row UserRow
| Import_file import_kind "string + string"
| Timer
| Save_answer nat http_reply
| Reload_begins bool
| Reload_ends bool http_reply
| Poll_ends http_reply
| Toggle_column ColumnKey
| Toggle_filter
| Type_filter ColumnKey string
| Prev_page
| Next_page bool
| Rows_mode "nat option"

fun tab_step ::
  "(string \<Rightarrow> jsval option) \<Rightarrow> (jsval \<Rightarrow> (string \<times> string) list \<Rightarrow> string) \<Rightarrow> tab_event \<Rightarrow> tab_state \<Rightarrow> tab_state" where
  "tab_step yaml to_yaml (Edit_row u f) st = updateRowByUsername u f st"
| "tab_step yaml to_yaml (Edit_detail n f) st = onDetailChange n f st"
| "tab_step yaml to_yaml (Remove_row u) st = removeRowByUsername u st"
| "tab_step yaml to_yaml (Create_row r) st = createUser r st"
| "tab_step yaml to_yaml (Import_file k file) st = importFile yaml k file st"
| "tab_step yaml to_yaml Timer st = save_timer to_yaml st"
| "tab_step yaml to_yaml (Save_answer i res) st = save_answer i res st"
| "tab_step yaml to_yaml (Reload_begins silent) st = reload_begin silent st"
| "tab_step yaml to_yaml (Reload_ends silent res) st = reload_end yaml silent res st"
| "tab_step yaml to_yaml (Poll_ends res) st = poll_end yaml res st"
| "tab_step yaml to_yaml (Toggle_column key) st = toggleColumn key st"
| "tab_step yaml to_yaml Toggle_filter st = toggleFilter st"
| "tab_step yaml to_yaml (Type_filter key v) st = changeColumnFilter key v st"
| "tab_step yaml to_yaml Prev_page st = onPrev st"
| "tab_step yaml to_yaml (Next_page c) st = onNext c st"
| "tab_step yaml to_yaml (Rows_mode m) st = onRowsModeChange m st"

fun save_accepted :: "tab_event \<Rightarrow> bool" where
  "save_accepted (Save_answer i res) \<longleftrightarrow> (case res of HttpOk _ \<Rightarrow> True | _ \<Rightarrow> False)"
| "save_accepted _ \<longleftrightarrow> True"

definition in_step :: "tab_state \<Rightarrow> bool" where
  "in_step st \<longleftrightarrow> ut_timer st = None \<and> ut_flying st = [] \<longrightarrow> ut_local st = ut_lastRemote st"

definition tab_ok :: "tab_state \<Rightarrow> bool" where
  "tab_ok st \<longleftrightarrow> 1 \<le> ut_page st \<and> ut_visibleColumns st \<noteq> [] \<and> distinct (ut_visibleColumns st) \<and> in_step st"

lemma initial_tab_ok: "tab_ok (initial_tab ws)"
  by (simp add: tab_ok_def in_step_def initial_tab_def COLUMNS_def)

lemma tab_ok_effect [simp]: "tab_ok (rows_effect st) = tab_ok st"
  by (simp add: tab_ok_def in_step_def)

text \<open>A scheduled save is pending, or the fingerprints agree.\<close>

lemma set_rows_ok: "tab_ok st \<Longrightarrow> tab_ok (set_rows next st)"
  by (auto simp: tab_ok_def in_step_def)

lemma error_irrelevant [simp]: "tab_ok (st\<lparr>ut_error := e\<rparr>) = tab_ok st"
  "tab_ok (st\<lparr>ut_detailKey := k\<rparr>) = tab_ok st" "tab_ok (st\<lparr>ut_loading := b\<rparr>) = tab_ok st"
  "tab_ok (st\<lparr>ut_externalChanged := b\<rparr>) = tab_ok st"
  by (simp_all add: tab_ok_def in_step_def)

lemma update_ok: "tab_ok st \<Longrightarrow> tab_ok (updateRowByUsername u f st)"
  by (simp add: updateRowByUsername_def set_rows_ok)

lemma save_answer_ok: "tab_ok st \<Longrightarrow> tab_ok (save_answer i (HttpOk a) st)"
  by (simp add: save_answer_def save_done_simps Let_def) (simp add: tab_ok_def in_step_def)

lemma show_remote_ok: "tab_ok st \<Longrightarrow> tab_ok (show_remote parsed st)"
  by (simp add: show_remote_def Let_def) (simp add: tab_ok_def in_step_def)

lemma reload_ok: "tab_ok st \<Longrightarrow> tab_ok (reload_end yaml silent res st)"
  by (auto simp: reload_end_def load_failed_def show_remote_ok Let_def split: http_reply.splits sum.splits)
    (simp_all add: tab_ok_def in_step_def)

lemma set_del_ne: "distinct s \<Longrightarrow> s \<noteq> [] \<Longrightarrow> length s \<noteq> 1 \<Longrightarrow> set_del k s \<noteq> []"
  by (cases s; cases "tl s") (auto simp: set_del_def)

lemma tab_ok_step:
  assumes "save_accepted e" "tab_ok st"
  shows "tab_ok (tab_step yaml to_yaml e st)"
proof (cases e)
  case (Save_answer i res)
  then show ?thesis using assms save_answer_ok by (cases res) auto
next
  case Timer
  then show ?thesis using assms by (auto simp: save_timer_def tab_ok_def in_step_def split: option.splits)
next
  case (Edit_detail n f)
  then show ?thesis using assms by (auto simp: onDetailChange_def update_ok split: option.splits)
next
  case (Poll_ends res)
  then show ?thesis
    using assms by (auto simp: poll_end_def show_remote_ok Let_def split: http_reply.splits sum.splits)
next
  case (Toggle_column key)
  then show ?thesis
    using assms set_del_ne [of "ut_visibleColumns st" key]
    by (auto simp: toggleColumn_def tab_ok_def in_step_def Let_def) (auto simp: set_add_def)
qed (use assms in \<open>auto simp: update_ok set_rows_ok reload_ok removeRowByUsername_def createUser_def importFile_def
      reload_begin_def Let_def split: sum.splits\<close>,
     auto simp: tab_ok_def in_step_def toggleFilter_def changeColumnFilter_def onPrev_def onNext_def
       onRowsModeChange_def tab_pageCount_def)

interpretation users_tab: guarded_machine "tab_step yaml to_yaml" save_accepted tab_ok
  for yaml :: "string \<Rightarrow> jsval option" and to_yaml :: "jsval \<Rightarrow> (string \<times> string) list \<Rightarrow> string"
  by unfold_locales (rule tab_ok_step)

subsection \<open>What is shown is what is stored\<close>

text \<open>The users last written or read: a save that was accepted, or the answer to a reload or to the poll.\<close>

definition exchanged ::
  "(string \<Rightarrow> jsval option) \<Rightarrow> tab_event \<Rightarrow> tab_state \<Rightarrow> (string \<times> jsval) list \<Rightarrow> (string \<times> jsval) list" where
  "exchanged yaml e st m =
     (case e of
        Save_answer i res \<Rightarrow>
          (case res of HttpOk _ \<Rightarrow> if i < length (ut_flying st) then rowsToYamlMap (ps_rows (ut_flying st ! i)) else m
           | _ \<Rightarrow> m)
      | Reload_ends silent res \<Rightarrow>
          (case res of
             HttpOk (Inr data) \<Rightarrow> rowsToYamlMap (snd (parseDoc yaml (file_text data)))
           | HttpError status _ _ \<Rightarrow> if status = 404 then [] else m
           | _ \<Rightarrow> m)
      | Poll_ends res \<Rightarrow>
          (case res of HttpOk (Inr data) \<Rightarrow> rowsToYamlMap (snd (parseDoc yaml (file_text data))) | _ \<Rightarrow> m)
      | _ \<Rightarrow> m)"

fun last_exchanged ::
  "(string \<Rightarrow> jsval option) \<Rightarrow> (jsval \<Rightarrow> (string \<times> string) list \<Rightarrow> string) \<Rightarrow> tab_event list \<Rightarrow> tab_state
   \<Rightarrow> (string \<times> jsval) list \<Rightarrow> (string \<times> jsval) list" where
  "last_exchanged yaml to_yaml [] st m = m"
| "last_exchanged yaml to_yaml (e # es) st m =
     last_exchanged yaml to_yaml es (tab_step yaml to_yaml e st) (exchanged yaml e st m)"

text \<open>
  A quiet run: saves are accepted and answered in order, nothing is read while a save waits or is under way,
  and no edit then goes back to the rows stored last (such an edit cancels nothing: see \<open>undo_saved_anyway\<close>).
\<close>

definition resting :: "tab_state \<Rightarrow> bool" where
  "resting st \<longleftrightarrow> ut_timer st = None \<and> ut_flying st = []"

fun quiet ::
  "(string \<Rightarrow> jsval option) \<Rightarrow> (jsval \<Rightarrow> (string \<times> string) list \<Rightarrow> string) \<Rightarrow> tab_event \<Rightarrow> tab_state \<Rightarrow> bool" where
  "quiet yaml to_yaml (Save_answer i res) st \<longleftrightarrow> i = 0 \<and> save_accepted (Save_answer i res)"
| "quiet yaml to_yaml (Reload_ends silent res) st \<longleftrightarrow> resting st"
| "quiet yaml to_yaml (Poll_ends res) st \<longleftrightarrow> resting st"
| "quiet yaml to_yaml e st \<longleftrightarrow> resting st \<or> ut_rows (tab_step yaml to_yaml e st) = ut_rows st
     \<or> rowsFingerprint (ut_rows (tab_step yaml to_yaml e st)) \<noteq> ut_lastRemote st"

fun quiet_run ::
  "(string \<Rightarrow> jsval option) \<Rightarrow> (jsval \<Rightarrow> (string \<times> string) list \<Rightarrow> string) \<Rightarrow> tab_event list \<Rightarrow> tab_state \<Rightarrow> bool" where
  "quiet_run yaml to_yaml [] st \<longleftrightarrow> True"
| "quiet_run yaml to_yaml (e # es) st \<longleftrightarrow>
     quiet yaml to_yaml e st \<and> quiet_run yaml to_yaml es (tab_step yaml to_yaml e st)"

text \<open>A save that will send what is shown, up to the mark of a new row.\<close>

definition of_shown :: "tab_state \<Rightarrow> pending_save \<Rightarrow> bool" where
  "of_shown st p \<longleftrightarrow> map user_of (ps_rows p) = map user_of (ut_rows st) \<and> ps_doc p = ut_doc st"

definition agrees :: "tab_state \<Rightarrow> (string \<times> jsval) list \<Rightarrow> bool" where
  "agrees st m \<longleftrightarrow>
     (case ut_timer st of
        Some p \<Rightarrow> of_shown st p
      | None \<Rightarrow>
          if ut_flying st \<noteq> [] then of_shown st (last (ut_flying st))
          else rowsFingerprint (ut_rows st) = json (JObj m) \<and> ut_local st = ut_lastRemote st
            \<and> (ut_lastRemote st = [] \<or> ut_lastRemote st = json (JObj m)))"

lemma truncate_username: "user_of (r\<lparr>wu_username := n\<rparr>) = (user_of r)\<lparr>wu_username := n\<rparr>"
  by (simp add: WorkspaceUser.truncate_def)

lemma truncate_fields: "wu_username (user_of r) = wu_username r" "wu_password (user_of r) = wu_password r"
  by (simp_all add: WorkspaceUser.truncate_def)

lemma rowsToYamlMap_users: "rowsToYamlMap rows = foldl (\<lambda>out u. let username = trim (wu_username u) in
     if username = [] then out else AList.update username (JObj (toYamlUserEntry (u\<lparr>wu_username := username\<rparr>))) out)
   [] (map user_of rows)"
  by (simp add: rowsToYamlMap_def foldl_map truncate_username truncate_fields Let_def cong: if_cong)

lemma vault_cells_users: "vault_cells rows = List.map_filter (\<lambda>u.
     let username = trim (wu_username u); pw = (case wu_password u of None \<Rightarrow> [] | Some p \<Rightarrow> p)
     in if username \<noteq> [] \<and> vault_text pw then Some (username, pw) else None) (map user_of rows)"
  by (simp add: vault_cells_def List.map_filter_def filter_map comp_def truncate_fields Let_def)

lemma of_shown_map: "of_shown st p \<Longrightarrow> rowsToYamlMap (ps_rows p) = rowsToYamlMap (ut_rows st)"
  by (simp add: of_shown_def rowsToYamlMap_users)

lemma of_shown_text:
  "of_shown st p \<Longrightarrow> saved_text to_yaml p = buildUsersYamlContent to_yaml (ut_doc st) (ut_rows st)"
  by (simp add: saved_text_def buildUsersYamlContent_def users_document_def of_shown_map)
    (simp add: of_shown_def vault_cells_users)

lemma users_clear_new: "map user_of (map clear_new rows) = map user_of rows"
  by (simp add: clear_new_def WorkspaceUser.truncate_def)

lemma agrees_shows:
  assumes "agrees st m"
  shows "case ut_timer st of
      Some p \<Rightarrow> saved_text to_yaml p = buildUsersYamlContent to_yaml (ut_doc st) (ut_rows st)
    | None \<Rightarrow> if ut_flying st \<noteq> []
        then saved_text to_yaml (last (ut_flying st)) = buildUsersYamlContent to_yaml (ut_doc st) (ut_rows st)
        else rowsFingerprint (ut_rows st) = json (JObj m)"
  using assms by (auto simp: agrees_def of_shown_text split: option.splits)

text \<open>The rows are edited: either a timer starts with them, or they are those stored.\<close>

definition edited_by :: "UserRow list \<Rightarrow> tab_state \<Rightarrow> tab_state \<Rightarrow> bool" where
  "edited_by next st st' \<longleftrightarrow> ut_rows st' = next \<and> ut_doc st' = ut_doc st \<and> ut_flying st' = ut_flying st
     \<and> ut_lastRemote st' = ut_lastRemote st \<and> ut_local st' = rowsFingerprint next
     \<and> ut_timer st' = (if rowsFingerprint next = ut_lastRemote st then ut_timer st
                       else Some \<lparr>ps_rows = next, ps_doc = ut_doc st\<rparr>)"

lemma fingerprint_ne: "rowsFingerprint rows \<noteq> []"
  by (simp add: rowsFingerprint_def)

lemma agrees_edit:
  assumes "agrees st m" "edited_by next st st'"
    and quiet: "resting st \<or> next = ut_rows st \<or> rowsFingerprint next \<noteq> ut_lastRemote st"
  shows "agrees st' m"
proof (cases "rowsFingerprint next = ut_lastRemote st")
  case True
  then have "ut_lastRemote st \<noteq> []"
    using fingerprint_ne by metis
  with True assms show ?thesis
    by (auto simp: agrees_def edited_by_def of_shown_def resting_def split: option.splits if_splits)
next
  case False
  with assms show ?thesis
    by (simp add: agrees_def edited_by_def of_shown_def)
qed

definition same_save :: "tab_state \<Rightarrow> tab_state \<Rightarrow> bool" where
  "same_save st st' \<longleftrightarrow> ut_rows st' = ut_rows st \<and> ut_doc st' = ut_doc st \<and> ut_flying st' = ut_flying st
     \<and> ut_lastRemote st' = ut_lastRemote st \<and> ut_local st' = ut_local st \<and> ut_timer st' = ut_timer st"

lemma agrees_same: "agrees st m \<Longrightarrow> same_save st st' \<Longrightarrow> agrees st' m"
  by (auto simp: agrees_def same_save_def of_shown_def split: option.split)

lemma edits:
  "edited_by (patched_rows u f (ut_rows st)) st (updateRowByUsername u f st)"
  "edited_by (filter (\<lambda>r. wu_username r \<noteq> u) (ut_rows st)) st (removeRowByUsername u st)"
  "edited_by (ut_rows st @ [r\<lparr>ur_isNew := Some True\<rparr>]) st (createUser r st)"
  by (simp_all add: edited_by_def removeRowByUsername_def createUser_def Let_def)

lemma import_edits:
  "(\<exists>next. edited_by next st (importFile yaml k r st)) \<or> same_save st (importFile yaml k r st)"
  by (cases r) (auto simp: importFile_def edited_by_def same_save_def Let_def)

lemma detail_edits:
  "(\<exists>next. edited_by next st (onDetailChange n f st)) \<or> same_save st (onDetailChange n f st)"
proof (cases "ut_detailKey st")
  case (Some key)
  have "edited_by (patched_rows key g (ut_rows st)) st (updateRowByUsername key g (st\<lparr>ut_detailKey := k\<rparr>))" for g k
    by (simp add: edited_by_def)
  moreover have "edited_by (patched_rows key g (ut_rows st)) st (updateRowByUsername key g st)" for g
    by (rule edits)
  ultimately show ?thesis
    using Some by (auto simp: onDetailChange_def same_save_def split: option.split)
qed (simp add: onDetailChange_def same_save_def)

lemma edited_rows: "edited_by next st st' \<Longrightarrow> ut_rows st' = next"
  by (simp add: edited_by_def)

lemma agrees_save:
  assumes "agrees st m" "save_accepted (Save_answer 0 res)"
  shows "agrees (save_answer 0 res st) (exchanged yaml (Save_answer 0 res) st m)"
proof (cases "ut_flying st")
  case (Cons p rest)
  obtain a where res: "res = HttpOk a"
    using assms(2) by (cases res) auto
  have at: "ut_rows (save_answer 0 res st) = map clear_new (ut_rows st)" "ut_doc (save_answer 0 res st) = ut_doc st"
    "ut_flying (save_answer 0 res st) = rest" "ut_timer (save_answer 0 res st) = ut_timer st"
    "ut_lastRemote (save_answer 0 res st) = rowsFingerprint (ps_rows p)"
    "ut_local (save_answer 0 res st) = rowsFingerprint (ps_rows p)"
    using Cons by (simp_all add: res save_answer_def save_done_def Let_def)
  have m: "exchanged yaml (Save_answer 0 res) st m = rowsToYamlMap (ps_rows p)"
    using Cons by (simp add: exchanged_def res)
  have shown: "of_shown (save_answer 0 res st) q = of_shown st q" for q
    by (simp only: of_shown_def at users_clear_new)
  show ?thesis
  proof (cases "ut_timer st = None \<and> rest = []")
    case True
    then have "of_shown st p"
      using assms(1) Cons by (simp add: agrees_def)
    then have "rowsFingerprint (ps_rows p) = rowsFingerprint (ut_rows st)"
      by (simp add: rowsFingerprint_def of_shown_map)
    with True show ?thesis
      by (simp add: agrees_def at m) (simp add: rowsFingerprint_def)
  next
    case False
    with assms(1) Cons show ?thesis
      by (cases "ut_timer st") (auto simp: agrees_def at(3,4) shown split: if_splits)
  qed
next
  case Nil
  then have "save_answer 0 res st = st" "exchanged yaml (Save_answer 0 res) st m = m"
    by (simp_all add: save_answer_def exchanged_def split: http_reply.split)
  with assms(1) show ?thesis by simp
qed

lemma agrees_remote:
  assumes "resting st"
  shows "agrees (show_remote parsed st) (rowsToYamlMap (snd parsed))"
  using assms by (simp add: agrees_def show_remote_def resting_def Let_def) (simp add: rowsFingerprint_def)

lemma agrees_changed: "agrees (st\<lparr>ut_externalChanged := b\<rparr>) m = agrees st m" "agrees (st\<lparr>ut_loading := c\<rparr>) m = agrees st m"
  "agrees (st\<lparr>ut_error := e\<rparr>) m = agrees st m"
  by (simp_all add: agrees_def of_shown_def cong: option.case_cong)

lemma agrees_reload:
  assumes "agrees st m" "resting st"
  shows "agrees (reload_end yaml silent res st) (exchanged yaml (Reload_ends silent res) st m)"
proof -
  have "agrees (rows_effect (st\<lparr>ut_doc := [], ut_rows := [], ut_lastRemote := [], ut_local := [], ut_externalChanged := False\<rparr>)) []"
    using assms(2) by (simp add: agrees_def resting_def) (simp add: rowsFingerprint_def rowsToYamlMap_def)
  with assms agrees_remote [OF assms(2)] show ?thesis
    by (auto simp: reload_end_def exchanged_def load_failed_def agrees_changed Let_def split: http_reply.split sum.split)
qed

lemma agrees_poll:
  assumes "agrees st m" "resting st"
  shows "agrees (poll_end yaml res st) (exchanged yaml (Poll_ends res) st m)"
proof -
  have "agrees st (rowsToYamlMap rs)" if "rowsFingerprint rs = ut_lastRemote st" for rs
  proof -
    have "ut_lastRemote st \<noteq> []"
      using that fingerprint_ne by metis
    then have "json (JObj m) = json (JObj (rowsToYamlMap rs))"
      using assms that by (simp add: agrees_def resting_def rowsFingerprint_def)
    with assms show ?thesis by (simp add: agrees_def resting_def)
  qed
  moreover have "ut_local st = ut_lastRemote st"
    using assms by (simp add: agrees_def resting_def)
  ultimately show ?thesis
    using assms agrees_remote [OF assms(2)]
    by (auto simp: poll_end_def exchanged_def Let_def split: http_reply.split sum.split)
qed

lemma agrees_step:
  assumes "quiet yaml to_yaml e st" "agrees st m"
  shows "agrees (tab_step yaml to_yaml e st) (exchanged yaml e st m)"
proof -
  have edit: "agrees st' m" if "(\<exists>next. edited_by next st st') \<or> same_save st st'"
    "resting st \<or> ut_rows st' = ut_rows st \<or> rowsFingerprint (ut_rows st') \<noteq> ut_lastRemote st" for st'
    using that assms(2) agrees_edit edited_rows agrees_same by metis
  show ?thesis
  proof (cases e)
    case Timer
    then show ?thesis
      using assms(2) by (auto simp: save_timer_def agrees_def of_shown_def exchanged_def split: option.split)
  next
    case (Save_answer i res)
    with assms agrees_save show ?thesis by simp
  next
    case (Reload_ends silent res)
    with assms agrees_reload show ?thesis by simp
  next
    case (Poll_ends res)
    with assms agrees_poll show ?thesis by simp
  next
    case (Edit_row u f)
    with assms edit [of "updateRowByUsername u f st"] edits(1) show ?thesis
      by (simp add: exchanged_def) blast
  next
    case (Remove_row u)
    with assms edit [of "removeRowByUsername u st"] edits(2) show ?thesis
      by (simp add: exchanged_def) blast
  next
    case (Create_row r)
    with assms edit [of "createUser r st"] edits(3) show ?thesis
      by (simp add: exchanged_def) blast
  next
    case (Import_file k r)
    with assms edit [OF import_edits] show ?thesis
      by (simp add: exchanged_def)
  next
    case (Edit_detail n f)
    with assms edit [OF detail_edits] show ?thesis
      by (simp add: exchanged_def)
  qed (use assms(2) in \<open>simp_all add: exchanged_def agrees_same [OF assms(2)] same_save_def reload_begin_def toggleColumn_def
      toggleFilter_def changeColumnFilter_def onPrev_def onNext_def onRowsModeChange_def Let_def\<close>)
qed

lemma agrees_run:
  "quiet_run yaml to_yaml es st \<Longrightarrow> agrees st m
   \<Longrightarrow> agrees (fold (tab_step yaml to_yaml) es st) (last_exchanged yaml to_yaml es st m)"
  by (induction es arbitrary: st m) (simp_all add: agrees_step)

lemma agrees_initial: "agrees (initial_tab ws) []"
  by (simp add: agrees_def initial_tab_def) (simp add: rowsFingerprint_def rowsToYamlMap_def)

text \<open>
  C22: the users tab settles, and no edit is forgotten. Take a quiet run: the saves are accepted and answered in order,
  nothing is read from the workspace while a save waits or is under way, and while one does no edit goes back to exactly
  the rows stored last (which is the finding \<open>undo_saved_anyway\<close>). Then at any moment either a timer runs, and the text
  it will send is that of the rows and the document shown; or saves are under way, and the last one sent that text; or
  the tab rests, and the users it shows are, in their stored form, those it last wrote or read. In every run whose saves
  are accepted a column always stays visible, and the page number stays positive.
\<close>

theorem users_tab_settles:
  assumes "list_all save_accepted es"
  shows "let st = fold (tab_step yaml to_yaml) es (initial_tab ws) in
    ut_visibleColumns st \<noteq> [] \<and> distinct (ut_visibleColumns st) \<and> 1 \<le> ut_page st
    \<and> (quiet_run yaml to_yaml es (initial_tab ws) \<longrightarrow>
         (case ut_timer st of
            Some p \<Rightarrow> saved_text to_yaml p = buildUsersYamlContent to_yaml (ut_doc st) (ut_rows st)
          | None \<Rightarrow> if ut_flying st \<noteq> []
              then saved_text to_yaml (last (ut_flying st)) = buildUsersYamlContent to_yaml (ut_doc st) (ut_rows st)
              else rowsFingerprint (ut_rows st) = json (JObj (last_exchanged yaml to_yaml es (initial_tab ws) []))))"
  using users_tab.run_ok [OF assms initial_tab_ok, of yaml to_yaml ws]
    agrees_shows [OF agrees_run [OF _ agrees_initial], of yaml to_yaml es ws to_yaml]
  unfolding Let_def by (simp add: tab_ok_def)

definition settling_events :: "tab_event list" where
  "settling_events = [Reload_ends False (HttpError 404 None (Inr [])), Create_row plain_row, Timer,
     Save_answer 0 (HttpOk (Inr JNull)), Toggle_column Email, Poll_ends (NetError [])]"

theorem users_tab_settles_witness:
  "let st = fold (tab_step (\<lambda>_. None) (\<lambda>_ _. ''text'')) settling_events (initial_tab ''w1'')
   in ut_visibleColumns st \<noteq> [] \<and> 1 \<le> ut_page st
      \<and> rowsFingerprint (ut_rows st) = json (JObj (rowsToYamlMap [plain_row]))"
proof -
  have ok: "list_all save_accepted settling_events"
    by (simp add: settling_events_def)
  define start where "start = rows_effect ((initial_tab ''w1'')\<lparr>ut_doc := [], ut_rows := [], ut_lastRemote := [], ut_local := [],
    ut_externalChanged := False\<rparr>)"
  have first: "tab_step (\<lambda>_. None) (\<lambda>_ _. ''text'') (Reload_ends False (HttpError 404 None (Inr []))) (initial_tab ''w1'')
      = start\<lparr>ut_loading := False\<rparr>"
    by (simp add: reload_end_def start_def)
  have start: "ut_timer start = None" "ut_flying start = []" "ut_rows start = []" "ut_lastRemote start = []" "ut_doc start = []"
    by (simp_all add: start_def initial_tab_def)
  note here = first start resting_def save_timer_def save_answer_def save_done_def createUser_def toggleColumn_def fingerprint_ne
  have quiet: "quiet_run (\<lambda>_. None) (\<lambda>_ _. ''text'') settling_events (initial_tab ''w1'')"
    unfolding settling_events_def by (simp only: quiet_run.simps quiet.simps save_accepted.simps first)
      (simp add: here initial_tab_def Let_def)
  have rest: "ut_timer (fold (tab_step (\<lambda>_. None) (\<lambda>_ _. ''text'')) settling_events (initial_tab ''w1'')) = None"
    "ut_flying (fold (tab_step (\<lambda>_. None) (\<lambda>_ _. ''text'')) settling_events (initial_tab ''w1'')) = []"
    unfolding settling_events_def fold.simps o_apply id_apply first
    by (simp_all add: here poll_end_def Let_def)
  have new: "rowsToYamlMap [plain_row\<lparr>ur_isNew := Some True\<rparr>] = rowsToYamlMap [plain_row]"
    by (simp add: rowsToYamlMap_users WorkspaceUser.truncate_def)
  have told: "last_exchanged (\<lambda>_. None) (\<lambda>_ _. ''text'') settling_events (initial_tab ''w1'') [] = rowsToYamlMap [plain_row]"
    unfolding settling_events_def last_exchanged.simps first
    by (simp add: here exchanged_def new Let_def)
  show ?thesis
    using users_tab_settles [OF ok, of "\<lambda>_. None" "\<lambda>_ _. ''text''" "''w1''"] quiet
    unfolding Let_def rest told by (simp del: json.simps)
qed

end
