(* ===== verification/EditorSafety.thy ===== *)
theory EditorSafety
  imports WorkspaceEditor
begin

text \<open>
  What the file editor of a workspace guarantees: when the text shown is the one the server has, that an
  automatic save stores the text and comes to rest, and the ways in which a late answer loses text or writes it
  to another file.
\<close>

subsection \<open>Frames\<close>

lemma no_id_Some [simp]: "no_id (Some p) \<longleftrightarrow> p = []" "no_id None"
  by (auto simp: no_id_def)

lemma effect_frame [simp]:
  "ed_workspace (autosave_effect st) = ed_workspace st" "ed_path (autosave_effect st) = ed_path st"
  "ed_value (autosave_effect st) = ed_value st" "ed_dirty (autosave_effect st) = ed_dirty st"
  "ed_loading (autosave_effect st) = ed_loading st" "ed_saving (autosave_effect st) = ed_saving st"
  "ed_error (autosave_effect st) = ed_error st" "ed_jobs (autosave_effect st) = ed_jobs st"
  "ed_puts (autosave_effect st) = ed_puts st" "ed_known (autosave_effect st) = ed_known st"
  "ed_modal (autosave_effect st) = ed_modal st"
  "ed_timer (autosave_effect st) =
     (\<not> no_id (ed_workspace st) \<and> \<not> no_id (ed_path st) \<and> \<not> is_kdbx (ed_path st) \<and> ed_dirty st)"
  by (simp_all add: autosave_effect_def)

lemma kdbx_frame [simp]:
  "ed_workspace (kdbx_effect b st) = ed_workspace st" "ed_path (kdbx_effect b st) = ed_path st"
  "ed_value (kdbx_effect b st) = ed_value st" "ed_dirty (kdbx_effect b st) = ed_dirty st"
  "ed_loading (kdbx_effect b st) = ed_loading st" "ed_saving (kdbx_effect b st) = ed_saving st"
  "ed_error (kdbx_effect b st) = ed_error st" "ed_jobs (kdbx_effect b st) = ed_jobs st"
  "ed_puts (kdbx_effect b st) = ed_puts st" "ed_known (kdbx_effect b st) = ed_known st"
  "ed_modal (kdbx_effect b st) = ed_modal st"
  by (simp_all add: kdbx_effect_def)

lemma know_frame [simp]:
  "ed_path (know p c st) = ed_path st" "ed_value (know p c st) = ed_value st"
  "ed_dirty (know p c st) = ed_dirty st" "ed_known (know p c st) = AList.update p c (ed_known st)"
  "ed_jobs (know p c st) = ed_jobs st" "ed_puts (know p c st) = ed_puts st"
  "ed_workspace (know p c st) = ed_workspace st" "ed_loading (know p c st) = ed_loading st"
  "ed_saving (know p c st) = ed_saving st" "ed_error (know p c st) = ed_error st"
  by (simp_all add: know_def)

lemma add_job_frame [simp]:
  "ed_path (add_job j st) = ed_path st" "ed_value (add_job j st) = ed_value st"
  "ed_dirty (add_job j st) = ed_dirty st" "ed_known (add_job j st) = ed_known st"
  "ed_jobs (add_job j st) = ed_jobs st @ [j]" "ed_puts (add_job j st) = ed_puts st"
  "ed_workspace (add_job j st) = ed_workspace st" "ed_loading (add_job j st) = ed_loading st"
  "ed_saving (add_job j st) = ed_saving st" "ed_error (add_job j st) = ed_error st"
  by (simp_all add: add_job_def)

text \<open>What matters of a state for the text shown.\<close>

definition text_state :: "editor_state \<Rightarrow> string option \<times> string \<times> bool \<times> (string \<times> string) list" where
  "text_state st = (ed_path st, ed_value st, ed_dirty st, ed_known st)"

definition shown_known :: "editor_state \<Rightarrow> bool" where
  "shown_known st \<longleftrightarrow> (\<forall>p. ed_path st = Some p \<longrightarrow> \<not> is_kdbx (Some p) \<longrightarrow> \<not> ed_dirty st
     \<longrightarrow> map_of (ed_known st) p = Some (ed_value st))"

lemma shown_known_cong: "text_state st' = text_state st \<Longrightarrow> shown_known st' = shown_known st"
  by (simp add: text_state_def shown_known_def)

lemma shown_dirty [simp]: "ed_dirty st \<Longrightarrow> shown_known st"
  by (simp add: shown_known_def)

lemma shown_kdbx: "is_kdbx (ed_path st) \<Longrightarrow> shown_known st"
  by (auto simp: shown_known_def)

lemma text_quiet:
  "text_state (refreshed) = text_state st" if "refreshFiles res st = (r, refreshed)"
  using that by (auto simp: refreshFiles_def text_state_def syncInventoryReady_def Let_def
      split: sum.splits if_splits)

lemma text_loadKdbx_begin [simp]: "text_state (loadKdbx_begin path st) = text_state st"
  by (simp add: text_state_def loadKdbx_begin_def)

lemma text_loadKdbx_end [simp]: "text_state (loadKdbx_end outcome st) = text_state st"
  by (simp add: text_state_def loadKdbx_end_def Let_def split: sum.split)

lemma text_save_over [simp]: "text_state (save_over err st) = text_state st"
  by (simp add: text_state_def save_over_def Let_def split: option.split)

lemma text_createFile [simp]: "text_state (createFile baseDir input st) = text_state st"
  by (simp add: text_state_def createFile_def Let_def split: option.split)

lemma text_createDirectory [simp]: "text_state (createDirectory baseDir input st) = text_state st"
  by (simp add: text_state_def createDirectory_def Let_def split: option.split)

lemma text_renameFile [simp]: "text_state (renameFile path input st) = text_state st"
  by (simp add: text_state_def renameFile_def Let_def split: option.split)

lemma text_deleteFile [simp]: "text_state (deleteFile path isDir confirmed st) = text_state st"
  by (simp add: text_state_def deleteFile_def)

lemma text_openEditorMenu [simp]: "text_state (openEditorMenu line st) = text_state st"
  by (simp add: text_state_def openEditorMenu_def split: option.split)

lemma text_openVaultValueModal [simp]: "text_state (openVaultValueModal mode st) = text_state st"
  by (simp add: text_state_def openVaultValueModal_def split: option.split)

lemma text_submitVaultValue_begin [simp]: "text_state (submitVaultValue_begin st) = text_state st"
  by (simp add: text_state_def submitVaultValue_begin_def modal_error_def Let_def split: option.split)

lemma text_closeKdbxPrompt [simp]: "text_state (closeKdbxPrompt st) = text_state st"
  by (simp add: text_state_def closeKdbxPrompt_def)

lemma text_lockKdbx [simp]: "text_state (lockKdbx st) = text_state st"
  by (simp add: text_state_def lockKdbx_def)

lemma text_toggleDir [simp]: "text_state (toggleDir path st) = text_state st"
  by (simp add: text_state_def toggleDir_def)

lemma text_file_failed [simp]: "text_state (file_failed m st) = text_state st"
  by (simp add: text_state_def file_failed_def)

lemma text_saveFile_begin [simp]: "text_state (saveFile_begin L st) = text_state st"
  by (simp add: text_state_def saveFile_begin_def Let_def split: option.split list.split)

lemma text_flush [simp]: "text_state (flushPendingEditorSave L st) = text_state st"
  by (simp add: flushPendingEditorSave_def Let_def) (simp add: text_state_def)

lemma text_kdbx_submit [simp]: "text_state (handleKdbxSubmit pw st) = text_state st"
  by (simp add: handleKdbxSubmit_def Let_def split: option.split) (simp add: text_state_def)

lemma text_saved [simp]: "text_state (saved_end L a res st) = text_state st"
proof -
  obtain r st1 where r: "refreshFiles res st = (r, st1)" by fastforce
  from text_quiet [OF this] show ?thesis
    by (simp add: saved_end_def r Let_def split: option.split) (simp add: text_state_def)
qed

subsection \<open>A clean text is the stored one\<close>

text \<open>
  An answer overtakes the user when a save is accepted and the text shown is not the one sent any more, or
  another unsaved text is shown, and when a new file is created under the path that is shown.
\<close>

definition calm :: "editor_event \<Rightarrow> editor_state \<Rightarrow> bool" where
  "calm e st =
     (case e of
        Answer i res \<Rightarrow>
          (case ed_jobs st ! i of
             Put_job a \<Rightarrow> if ed_path st = Some (sa_path a) then ed_value st = sa_value a else \<not> ed_dirty st
           | Create_job path \<Rightarrow> ed_path st \<noteq> Some path
           | _ \<Rightarrow> True)
      | _ \<Rightarrow> True)"

lemma shown_loadFile_begin: "shown_known st \<Longrightarrow> shown_known (loadFile_begin path st)"
proof (cases "extensionForPath path = ''kdbx''")
  case True
  assume "shown_known st"
  let ?st2 = "st\<lparr>ed_loading := True, ed_error := None, ed_status := None, ed_path := Some path, ed_value := [],
    ed_dirty := False, ed_kdbxError := None, ed_kdbxEntries := []\<rparr>"
  have "ed_path (loadKdbx_begin path ?st2) = Some path"
    using text_loadKdbx_begin [of path ?st2] by (simp add: text_state_def)
  then show ?thesis
    using True \<open>shown_known st\<close> by (auto simp: loadFile_begin_def Let_def shown_kdbx is_kdbx_def)
next
  case False
  assume "shown_known st"
  with False show ?thesis by (simp add: loadFile_begin_def shown_known_def)
qed

lemma shown_answered:
  assumes "shown_known st" "calm (Answer i res) st" "i < length (ed_jobs st)"
  shows "shown_known (answered L (ed_jobs st ! i) res (st\<lparr>ed_jobs := js\<rparr>))"
proof -
  let ?st = "st\<lparr>ed_jobs := js\<rparr>"
  have st: "shown_known ?st" using assms(1) by (simp add: shown_known_def)
  have refreshed: "shown_known st2" if "refreshFiles res ?st = (r, st2)" for r st2
    using shown_known_cong [OF text_quiet [OF that]] st by simp
  have failed: "shown_known (file_failed m s) = shown_known s" for m s
    by (rule shown_known_cong) simp
  show ?thesis
  proof (cases "ed_jobs st ! i")
    case (Load_job path)
    then show ?thesis using st
      by (auto simp: answered_def loadFile_end_def Let_def shown_known_def split: sum.split)
  next
    case (Put_job a)
    have "shown_known (save_over e ?st)" for e
      using shown_known_cong [OF text_save_over, of e ?st] st by simp
    with Put_job st assms(2) show ?thesis
      by (auto simp: answered_def put_end_def calm_def shown_known_def split: option.split if_splits)
  next
    case (Saved_refresh a)
    then show ?thesis
      using shown_known_cong [OF text_saved, of L a res ?st] st by (simp add: answered_def)
  next
    case (Vault_job ws m inputs ls)
    then show ?thesis using st
      by (auto simp: answered_def submitVaultValue_end_def modal_error_def Let_def shown_known_def split: sum.split)
  next
    case (Create_job path)
    then show ?thesis using st assms(2)
      by (auto simp: answered_def and_then_def file_failed_def calm_def shown_known_def split: option.split)
  next
    case (Created_refresh path)
    then show ?thesis using refreshed
      by (auto simp: answered_def and_then_def failed intro: shown_loadFile_begin split: prod.split option.split)
  next
    case (Renamed_refresh nextPath active)
    then show ?thesis using refreshed
      by (auto simp: answered_def and_then_def failed intro: shown_loadFile_begin split: prod.split option.split)
  next
    case (Delete_job path isDir activePath)
    then show ?thesis using st
      by (auto simp: answered_def and_then_def file_failed_def delete_end_def shown_known_def Let_def split: option.split)
  qed (use st refreshed in \<open>auto simp: answered_def and_then_def file_failed_def shown_known_def
      split: prod.split option.split\<close>)
qed

lemma shown_effects:
  "shown_known (autosave_effect (kdbx_effect b st)) = shown_known st"
  by (simp add: shown_known_def)

lemma shown_step:
  assumes "enabled e st" "calm e st" "shown_known st"
  shows "shown_known (editor_step L e st)"
proof -
  have "shown_known (editor_action L e st)"
  proof (cases e)
    case (Answer i res)
    then show ?thesis using shown_answered [OF assms(3)] assms(1,2) by simp
  next
    case (Unlocked i outcome)
    have "shown_known (st\<lparr>ed_jobs := drop_nth i (ed_jobs st)\<rparr>)" using assms(3) by (simp add: shown_known_def)
    then show ?thesis
      using shown_known_cong [OF text_loadKdbx_end] by (simp add: Unlocked)
  next
    case (Open_file path)
    then show ?thesis using assms(3) by (simp add: shown_loadFile_begin)
  next
    case Close_menu
    then show ?thesis using assms(3) by (simp add: shown_known_def)
  next
    case (Edit_inputs x)
    then show ?thesis using assms(3) by (simp add: shown_known_def)
  next
    case Close_modal
    then show ?thesis using assms(3) by (simp add: shown_known_def)
  next
    case (Type_text x)
    then show ?thesis by (simp add: typed_def)
  qed (use assms(3) in \<open>simp_all add: shown_known_cong [OF text_flush] shown_known_cong [OF text_toggleDir]
      shown_known_cong [OF text_createFile] shown_known_cong [OF text_createDirectory]
      shown_known_cong [OF text_renameFile] shown_known_cong [OF text_deleteFile]
      shown_known_cong [OF text_openEditorMenu] shown_known_cong [OF text_openVaultValueModal]
      shown_known_cong [OF text_submitVaultValue_begin] shown_known_cong [OF text_kdbx_submit]
      shown_known_cong [OF text_closeKdbxPrompt] shown_known_cong [OF text_lockKdbx]\<close>)
  then show ?thesis by (simp add: editor_step_def shown_effects)
qed

text \<open>
  C18: whatever is opened, typed, saved, created, renamed, deleted or decrypted, a text that the editor
  shows as unchanged is the content its file had at the last exchange with the server, unless an
  answer has overtaken the user.
\<close>

theorem clean_text_is_stored:
  assumes "editor_run L calm (initial_editor ws window) es st"
    and "ed_path st = Some p" "\<not> is_kdbx (Some p)" "\<not> ed_dirty st"
  shows "map_of (ed_known st) p = Some (ed_value st)"
proof -
  have "shown_known (initial_editor ws window)" by (simp add: shown_known_def initial_editor_def)
  from run_keeps [where Q = shown_known, OF assms(1) this shown_step] have "shown_known st" .
  with assms(2-4) show ?thesis by (simp add: shown_known_def)
qed

subsection \<open>Saving\<close>

definition save_of :: "libs \<Rightarrow> string \<Rightarrow> editor_state \<Rightarrow> save_args" where
  "save_of L p st = \<lparr>sa_path = p, sa_value = ed_value st, sa_selection = ed_selection st,
                     sa_hostVars = hostVarsAliasesFromFiles (lib_lc L) (ed_files st)\<rparr>"

lemma save_of_fields [simp]: "sa_path (save_of L p st) = p" "sa_value (save_of L p st) = ed_value st"
  by (simp_all add: save_of_def)

lemma flush_valid:
  assumes "ed_workspace st = Some w" "w \<noteq> []" "ed_path st = Some p" "p \<noteq> []" "\<not> is_kdbx (Some p)" "ed_dirty st"
    and "validateEditor L (ed_value st) (Some p) = None"
  shows "flushPendingEditorSave L st = add_job (Put_job (save_of L p st)) (st\<lparr>ed_timer := False, ed_saving := True,
        ed_loading := True, ed_error := None, ed_status := None, ed_puts := ed_puts st @ [(p, ed_value st)]\<rparr>)"
  using assms by (simp add: flushPendingEditorSave_def saveFile_begin_def save_of_def Let_def)

text \<open>
  C19: an automatic save of a valid text sends exactly the text shown; once accepted, and the list of files
  read again, the text is clean, nothing is under way and the content is the stored one. A refusal keeps the
  text unsaved, shows the reason and starts the timer again.
\<close>

theorem autosave_saves:
  assumes "ed_workspace st = Some w" "w \<noteq> []" "ed_path st = Some p" "p \<noteq> []" "\<not> is_kdbx (Some p)" "ed_dirty st"
    and "validateEditor L (ed_value st) (Some p) = None" "ed_jobs st = []"
  shows "let st1 = editor_step L Autosave st;
             st2 = editor_step L (Answer 0 (HttpOk r)) st1;
             st3 = editor_step L (Answer 0 (HttpOk (Inr files))) st2;
             refused = editor_step L (Answer 0 (HttpError status body t)) st1 in
    ed_puts st3 = ed_puts st @ [(p, ed_value st)] \<and> ed_path st3 = Some p \<and> ed_value st3 = ed_value st
    \<and> \<not> ed_dirty st3 \<and> \<not> ed_saving st3 \<and> \<not> ed_loading st3 \<and> \<not> ed_timer st3 \<and> ed_error st3 = None
    \<and> ed_jobs st3 = [] \<and> map_of (ed_known st3) p = Some (ed_value st)
    \<and> ed_dirty refused \<and> ed_value refused = ed_value st \<and> ed_timer refused \<and> ed_jobs refused = []
    \<and> \<not> ed_saving refused \<and> ed_error refused = Some (http_text status)"
proof -
  define a where "a = save_of L p st"
  define st1 where "st1 = editor_step L Autosave st"
  note flush = flush_valid [OF assms(1-7), folded a_def]
  have a: "sa_path a = p" "sa_value a = ed_value st" by (simp_all add: a_def)
  have st1: "ed_jobs st1 = [Put_job a]" "ed_path st1 = Some p" "ed_value st1 = ed_value st" "ed_dirty st1"
    "ed_puts st1 = ed_puts st @ [(p, ed_value st)]" "ed_error st1 = None" "ed_workspace st1 = Some w"
    using assms by (simp_all add: st1_def editor_step_def flush)
  define st2 where "st2 = editor_step L (Answer 0 (HttpOk r)) st1"
  have st2: "ed_jobs st2 = [Saved_refresh a]" "ed_path st2 = Some p" "ed_value st2 = ed_value st" "\<not> ed_dirty st2"
    "ed_puts st2 = ed_puts st @ [(p, ed_value st)]" "ed_error st2 = None"
    "map_of (ed_known st2) p = Some (ed_value st)"
    using st1 a by (auto simp: st2_def editor_step_def answered_def put_end_def plain_error_def)
  define s2 where "s2 = st2\<lparr>ed_jobs := []\<rparr>"
  obtain s3 where s3: "refreshFiles (HttpOk (Inr files)) s2 = (None, s3)"
    by (simp add: refreshFiles_def json_answer_def Let_def)
  note q = text_quiet [OF s3]
  have "ed_puts s3 = ed_puts s2 \<and> ed_jobs s3 = ed_jobs s2 \<and> ed_error s3 = ed_error s2"
    using s3 by (auto simp: refreshFiles_def json_answer_def syncInventoryReady_def Let_def split: if_splits)
  then have f3: "ed_puts s3 = ed_puts st2" "ed_jobs s3 = []" "ed_error s3 = None"
    "ed_path s3 = Some p" "ed_value s3 = ed_value st" "\<not> ed_dirty s3" "ed_known s3 = ed_known st2"
    using st2 q by (simp_all add: s2_def text_state_def)
  define st3 where "st3 = editor_step L (Answer 0 (HttpOk (Inr files))) st2"
  have st3: "ed_puts st3 = ed_puts s3 \<and> ed_path st3 = ed_path s3 \<and> ed_value st3 = ed_value s3
      \<and> ed_dirty st3 = ed_dirty s3 \<and> \<not> ed_saving st3 \<and> \<not> ed_loading st3 \<and> ed_error st3 = ed_error s3
      \<and> ed_jobs st3 = ed_jobs s3 \<and> ed_known st3 = ed_known s3 \<and> (ed_timer st3 \<longrightarrow> ed_dirty s3)"
    using st2(1) s3 by (simp add: st3_def editor_step_def answered_def saved_end_def save_over_def s2_def Let_def)
  define no where "no = editor_step L (Answer 0 (HttpError status body t)) st1"
  have "ed_dirty no \<and> ed_value no = ed_value st \<and> ed_timer no \<and> ed_jobs no = [] \<and> \<not> ed_saving no
      \<and> ed_error no = Some (http_text status)"
    using st1 assms(2,4,5)
    by (simp add: no_def editor_step_def answered_def put_end_def plain_error_def save_over_def)
  with st2 st3 f3 show ?thesis
    unfolding Let_def st1_def [symmetric] st2_def [symmetric] st3_def [symmetric] no_def [symmetric] by simp
qed

subsection \<open>Answers that overtake the user\<close>

text \<open>
  Text typed while a save is under way is shown as saved when the answer comes: it is not dirty,
  the timer of the automatic save is stopped, and nothing but the older text has been sent.
\<close>

theorem typed_while_saving_lost:
  assumes "ed_jobs st = [Put_job a]" "ed_path st = Some (sa_path a)"
  shows "let st1 = editor_step L (Type_text v) st;
             st2 = editor_step L (Answer 0 (HttpOk r)) st1 in
    ed_value st2 = v \<and> \<not> ed_dirty st2 \<and> \<not> ed_timer st2 \<and> ed_puts st2 = ed_puts st
    \<and> map_of (ed_known st2) (sa_path a) = Some (sa_value a)"
  using assms
  by (simp add: editor_step_def typed_def answered_def put_end_def plain_error_def Let_def)

text \<open>
  The answer to a changed vault value puts the lines that were shown when it was asked for into the
  editor, whatever file is open by then; the automatic save then writes them to that file.
\<close>

theorem vault_answer_overwrites_other_file:
  assumes "ed_jobs st = [Vault_job ws m inputs ls]" "vm_mode m = Change_value"
    and "ed_workspace st = Some w" "w \<noteq> []" "ed_path st = Some q" "q \<noteq> []" "\<not> is_kdbx (Some q)"
    and "jget data ''vault_text'' = JStr t"
    and "validateEditor L (replaceVaultBlock ls (vm_block m) t) (Some q) = None"
  shows "let st1 = editor_step L (Answer 0 (HttpOk (Inr data))) st; st2 = editor_step L Autosave st1 in
    ed_path st1 = Some q \<and> ed_value st1 = replaceVaultBlock ls (vm_block m) t \<and> enabled Autosave st1
    \<and> ed_puts st2 = ed_puts st @ [(q, replaceVaultBlock ls (vm_block m) t)]"
proof -
  define st1 where "st1 = editor_step L (Answer 0 (HttpOk (Inr data))) st"
  have st1: "ed_path st1 = Some q" "ed_value st1 = replaceVaultBlock ls (vm_block m) t" "ed_dirty st1"
    "ed_workspace st1 = Some w" "ed_puts st1 = ed_puts st" "ed_timer st1"
    using assms by (simp_all add: st1_def editor_step_def answered_def submitVaultValue_end_def text_answer_def
        Let_def)
  note flush = flush_valid [of st1 w q L]
  have "ed_puts (editor_step L Autosave st1) = ed_puts st @ [(q, replaceVaultBlock ls (vm_block m) t)]"
    using flush st1 assms by (simp add: editor_step_def)
  with st1 show ?thesis by (simp add: Let_def flip: st1_def)
qed

text \<open>Opening another file before the automatic save has run drops the text.\<close>

lemma open_discards_text:
  assumes "ed_jobs st = []" "ed_dirty st" "\<not> no_id (ed_workspace st)" "extensionForPath q \<noteq> ''kdbx''"
    and "jget data ''content'' = JStr c"
  shows "let st2 = editor_step L (Answer 0 (HttpOk (Inr data))) (editor_step L (Open_file q) st) in
    ed_path st2 = Some q \<and> ed_value st2 = c \<and> \<not> ed_dirty st2 \<and> ed_puts st2 = ed_puts st"
  using assms
  by (simp add: editor_step_def loadFile_begin_def answered_def loadFile_end_def json_answer_def Let_def)

text \<open>Creating a file under the name of an existing one empties it: nothing asks whether it exists.\<close>

lemma create_empties_existing:
  assumes "\<not> no_id (ed_workspace st)" "token path" "hd path \<noteq> CHR ''/''" "\<not> ends_with path ''/''"
  shows "ed_puts (editor_step L (Create_file [] (Some path)) st) = ed_puts st @ [(path, [])]"
proof -
  have "strip_slashes (trim path) = path"
    using assms(2,3) by (cases path) (auto simp: strip_slashes_def token_def)
  then show ?thesis
    using assms by (auto simp: editor_step_def createFile_def below_def token_def Let_def)
qed

text \<open>A value shown after a failed attempt still comes with the error of that attempt.\<close>

lemma shown_value_keeps_error:
  assumes "vm_mode m = Show_value" "vm_error m = Some e"
  shows "\<exists>m'. ed_modal (submitVaultValue_end ws m inputs ls (HttpOk (Inr data)) st) = Some m'
    \<and> vm_plaintext m' = str_nn (jget data ''plaintext'') \<and> vm_error m' = Some e"
  using assms by (simp add: submitVaultValue_end_def text_answer_def Let_def)

subsection \<open>Concrete runs\<close>

fun allowed :: "libs \<Rightarrow> (editor_event \<Rightarrow> editor_state \<Rightarrow> bool) \<Rightarrow> editor_event list \<Rightarrow> editor_state \<Rightarrow> bool" where
  "allowed L P [] st = True"
| "allowed L P (e # es) st = (enabled e st \<and> P e st \<and> allowed L P es (editor_step L e st))"

lemma allowed_run: "allowed L P es st \<Longrightarrow> editor_run L P st es (fold (editor_step L) es st)"
  by (induction es arbitrary: st) auto

definition demo_libs :: libs where
  "demo_libs = \<lparr>lib_yaml = \<lambda>_. Inr JNull, lib_json_error = \<lambda>_. ''bad'', lib_lc = cu_cmp\<rparr>"

definition file_answer :: "string \<Rightarrow> http_reply" where
  "file_answer content = HttpOk (Inr (JObj [(''content'', JStr content)]))"

definition typing_events :: "editor_event list" where
  "typing_events = [Open_file ''a.txt'', Answer 0 (file_answer ''x''), Type_text ''xy'']"

definition demo_start :: editor_state where
  "demo_start = initial_editor (Some ''w1'') None"

definition demo_typed :: editor_state where
  "demo_typed = fold (editor_step demo_libs) typing_events demo_start"

definition saving_events :: "editor_event list" where
  "saving_events = [Autosave, Answer 0 (file_answer []), Answer 0 (file_answer [])]"

lemma demo_typed_fields:
  "ed_workspace demo_typed = Some ''w1''" "ed_path demo_typed = Some ''a.txt''" "ed_value demo_typed = ''xy''"
  "ed_dirty demo_typed" "ed_jobs demo_typed = []" "ed_puts demo_typed = []"
  by code_simp+

theorem clean_text_is_stored_witness:
  "let st = fold (editor_step demo_libs) (typing_events @ saving_events) demo_start
   in ed_value st = ''xy'' \<and> map_of (ed_known st) ''a.txt'' = Some ''xy''"
proof -
  let ?es = "typing_events @ saving_events"
  let ?st = "fold (editor_step demo_libs) ?es demo_start"
  have run: "allowed demo_libs calm ?es demo_start" by code_simp
  have f: "ed_path ?st = Some ''a.txt''" "\<not> is_kdbx (Some ''a.txt'')" "\<not> ed_dirty ?st" "ed_value ?st = ''xy''"
    by code_simp+
  show ?thesis
    using clean_text_is_stored [OF allowed_run [OF run, unfolded demo_start_def] f(1-3) [unfolded demo_start_def]] f(4)
    by (simp add: Let_def demo_start_def)
qed

theorem autosave_saves_witness:
  "let st3 = editor_step demo_libs (Answer 0 (HttpOk (Inr JNull)))
         (editor_step demo_libs (Answer 0 (HttpOk (Inl ''x''))) (editor_step demo_libs Autosave demo_typed))
   in ed_puts st3 = [(''a.txt'', ''xy'')] \<and> \<not> ed_dirty st3"
proof -
  have "validateEditor demo_libs (ed_value demo_typed) (Some ''a.txt'') = None" "\<not> is_kdbx (Some ''a.txt'')"
    by code_simp+
  from autosave_saves [OF demo_typed_fields(1) _ demo_typed_fields(2) _ this(2) demo_typed_fields(4) this(1)
      demo_typed_fields(5), of "Inl ''x''" JNull 500 None "Inr []"]
  show ?thesis by (simp add: Let_def demo_typed_fields)
qed

definition demo_saving :: editor_state where
  "demo_saving = editor_step demo_libs Autosave demo_typed"

theorem typed_while_saving_lost_witness:
  "let st2 = editor_step demo_libs (Answer 0 (HttpOk (Inr JNull)))
         (editor_step demo_libs (Type_text ''xyz'') demo_saving)
   in ed_value st2 = ''xyz'' \<and> \<not> ed_dirty st2 \<and> ed_puts st2 = [(''a.txt'', ''xy'')]"
proof -
  define a where "a = \<lparr>sa_path = ''a.txt'', sa_value = ''xy'', sa_selection = [], sa_hostVars = []\<rparr>"
  have "ed_jobs demo_saving = [Put_job a]" unfolding a_def by code_simp
  moreover have "ed_path demo_saving = Some (sa_path a)" unfolding a_def by code_simp
  moreover have "ed_puts demo_saving = [(''a.txt'', ''xy'')]" by code_simp
  ultimately show ?thesis
    using typed_while_saving_lost [of demo_saving a demo_libs "''xyz''" "Inr JNull"] by (simp add: Let_def)
qed

definition vault_text_lines :: string where
  "vault_text_lines = join [NL] demo_lines"

definition demo_inputs :: vault_inputs where
  "demo_inputs = \<lparr>vi_master = ''m'', vi_next = ''n'', vi_confirm = ''n''\<rparr>"

definition vault_events :: "editor_event list" where
  "vault_events =
     [Open_file ''s.yml'', Answer 0 (file_answer vault_text_lines), Context_menu 3, Choose_action Change_value,
      Edit_inputs demo_inputs, Submit_modal, Close_modal, Open_file ''b.yml'', Answer 1 (file_answer ''b: 3'')]"

definition demo_other :: editor_state where
  "demo_other = fold (editor_step demo_libs) vault_events demo_start"

theorem vault_answer_overwrites_other_file_witness:
  "let data = JObj [(''vault_text'', JStr ''$ANSIBLE_VAULT;1.1'')];
       st2 = editor_step demo_libs Autosave (editor_step demo_libs (Answer 0 (HttpOk (Inr data))) demo_other)
   in allowed demo_libs (\<lambda>_ _. True) vault_events demo_start
      \<and> ed_path demo_other = Some ''b.yml'' \<and> ed_value demo_other = ''b: 3''
      \<and> ed_puts st2 = [(''b.yml'', join [NL] [''a: 1'', ''  pw: !vault |'', ''    $ANSIBLE_VAULT;1.1'', ''b: 2''])]"
proof -
  define m where "m = \<lparr>vm_mode = Change_value, vm_block = demo_block, vm_loading = False, vm_plaintext = [],
    vm_error = None\<rparr>"
  have f: "ed_jobs demo_other = [Vault_job (Some ''w1'') m demo_inputs demo_lines]"
    unfolding m_def by code_simp
  have g: "ed_workspace demo_other = Some ''w1''" "ed_path demo_other = Some ''b.yml''"
    "\<not> is_kdbx (Some ''b.yml'')" "ed_puts demo_other = []" "ed_value demo_other = ''b: 3''"
    by code_simp+
  have m: "vm_mode m = Change_value" "vm_block m = demo_block" by (simp_all add: m_def)
  have new: "replaceVaultBlock demo_lines demo_block ''$ANSIBLE_VAULT;1.1''
      = join [NL] [''a: 1'', ''  pw: !vault |'', ''    $ANSIBLE_VAULT;1.1'', ''b: 2'']"
    by code_simp
  have v: "validateEditor demo_libs (replaceVaultBlock demo_lines (vm_block m) ''$ANSIBLE_VAULT;1.1'')
      (Some ''b.yml'') = None"
    unfolding m by code_simp
  have t: "jget (JObj [(''vault_text'', JStr ''$ANSIBLE_VAULT;1.1'')]) ''vault_text'' = JStr ''$ANSIBLE_VAULT;1.1''"
    by simp
  have ok: "allowed demo_libs (\<lambda>_ _. True) vault_events demo_start" by code_simp
  have ne: "''w1'' \<noteq> []" "''b.yml'' \<noteq> []" by simp_all
  show ?thesis
    using vault_answer_overwrites_other_file [OF f m(1) g(1) ne(1) g(2) ne(2) g(3) t v] g(2,4,5) ok
    unfolding Let_def m(2) new by (simp only: append_Nil simp_thms)
qed

end
