(* ===== verification/VaultActions.thy ===== *)
theory VaultActions
  imports WorkspaceEditor
begin

text \<open>
  Generating credentials and changing passwords (\<open>workspace-panel/actions/vault.ts\<close>): one credential
  call for a device or one request per device in turn, resetting the vault password, and the dialogs for the master
  password and the passphrase of a key. Every callback is split at its \<open>await\<close>s; \<open>vt_sent\<close> logs the
  bodies of the requests. What \<open>refreshFiles\<close> sets is part of the editor; here only whether it throws.
\<close>

subsection \<open>State\<close>

record pending_credentials =
  pc_roles :: "string list"
  pc_force :: bool
  pc_setValues :: "string list"
  pc_alias :: string
  pc_targets :: "(string \<times> string list) list"

datatype prompt_mode = Generate | Vault_reset

datatype master_mode = Set_master | Reset_master

record master_values =
  mv_current :: string
  mv_next :: string
  mv_confirm :: string

record key_values =
  kv_master :: string
  kv_next :: string
  kv_confirm :: string

datatype vault_job =
    Single_job pending_credentials string
  | Targets_job pending_credentials string "(string \<times> string list) list"
  | Reset_job string
  | Refresh_job string

record vault_state =
  vt_workspace :: string
  vt_session :: session_store
  vt_activeAlias :: string
  vt_hasVault :: bool
  vt_busy :: bool
  vt_error :: "string option"
  vt_status :: "string option"
  vt_pending :: "pending_credentials option"
  vt_mode :: "prompt_mode option"
  vt_confirm :: bool
  vt_promptOpen :: bool
  vt_masterOpen :: bool
  vt_masterMode :: master_mode
  vt_masterValues :: master_values
  vt_masterBusy :: bool
  vt_masterError :: "string option"
  vt_keyModal :: "string option"
  vt_keyValues :: key_values
  vt_keyBusy :: bool
  vt_keyError :: "string option"
  vt_jobs :: "vault_job list"
  vt_masterJobs :: "(master_mode \<times> master_values) list"
  vt_keyJobs :: nat
  vt_sent :: "jsval list"

definition initial_vault :: "string \<Rightarrow> session_store \<Rightarrow> vault_state" where
  "initial_vault ws window =
     \<lparr>vt_workspace = ws, vt_session = window, vt_activeAlias = [], vt_hasVault = False, vt_busy = False,
      vt_error = None, vt_status = None, vt_pending = None, vt_mode = None, vt_confirm = False,
      vt_promptOpen = False, vt_masterOpen = False, vt_masterMode = Reset_master,
      vt_masterValues = \<lparr>mv_current = [], mv_next = [], mv_confirm = []\<rparr>, vt_masterBusy = False,
      vt_masterError = None, vt_keyModal = None, vt_keyValues = \<lparr>kv_master = [], kv_next = [], kv_confirm = []\<rparr>,
      vt_keyBusy = False, vt_keyError = None, vt_jobs = [], vt_masterJobs = [], vt_keyJobs = 0,
      vt_sent = []\<rparr>"

definition remember :: "string \<Rightarrow> vault_state \<Rightarrow> vault_state" where
  "remember pw st = st\<lparr>vt_session := setWorkspaceMasterPassword (Some (vt_workspace st)) pw (vt_session st)\<rparr>"

subsection \<open>Asking for credentials\<close>

record generate_options =
  go_roles :: "string list"
  go_force :: bool
  go_alias :: string
  go_targets :: "(string \<times> string list) list"

definition clean_targets :: "(string \<times> string list) list \<Rightarrow> (string \<times> string list) list" where
  "clean_targets targets =
     filter (\<lambda>(alias, roles). alias \<noteq> [] \<and> roles \<noteq> [])
       (map (\<lambda>(alias, roles). (trim alias, nonempties (map trim roles))) targets)"

definition prompt :: "prompt_mode \<Rightarrow> bool \<Rightarrow> vault_state \<Rightarrow> vault_state" where
  "prompt mode confirm st = st\<lparr>vt_mode := Some mode, vt_confirm := confirm, vt_promptOpen := True\<rparr>"

text \<open>\<open>go_roles\<close> are the roles given or those that the scope chosen in the panel stands for.\<close>

definition generateCredentials :: "generate_options \<Rightarrow> vault_state \<Rightarrow> vault_state" where
  "generateCredentials opts st =
     (let alias = (if go_alias opts \<noteq> [] then go_alias opts else vt_activeAlias st);
          targets = clean_targets (go_targets opts)
      in if vt_workspace st = [] \<or> vt_busy st then st
         else if targets \<noteq> [] then
           prompt Generate (\<not> vt_hasVault st)
             (st\<lparr>vt_pending := Some \<lparr>pc_roles = [], pc_force = go_force opts, pc_setValues = [],
                                     pc_alias = [], pc_targets = targets\<rparr>\<rparr>)
         else if go_roles opts = [] then st\<lparr>vt_error := Some ''Select a role to generate credentials.''\<rparr>
         else
           prompt Generate (\<not> vt_hasVault st)
             (st\<lparr>vt_pending := Some \<lparr>pc_roles = go_roles opts, pc_force = go_force opts, pc_setValues = [],
                                     pc_alias = alias, pc_targets = []\<rparr>\<rparr>))"

definition resetVaultPassword :: "vault_state \<Rightarrow> vault_state" where
  "resetVaultPassword st =
     (if vt_workspace st = [] \<or> vt_busy st then st
      else prompt Vault_reset False (st\<lparr>vt_error := None, vt_status := None\<rparr>))"

definition closeVaultPrompt :: "vault_state \<Rightarrow> vault_state" where
  "closeVaultPrompt st = st\<lparr>vt_promptOpen := False, vt_mode := None, vt_pending := None\<rparr>"

subsection \<open>The requests\<close>

definition credentials_body ::
  "string list \<Rightarrow> bool \<Rightarrow> string list \<Rightarrow> string \<Rightarrow> string \<Rightarrow> string \<Rightarrow> jsval" where
  "credentials_body targetRoles force setValues masterPassword aliasOverride activeAlias =
     (let alias = (if aliasOverride \<noteq> [] then aliasOverride else activeAlias) in
      JObj ([(''master_password'', JStr masterPassword), (''selected_roles'', JArr (map JStr targetRoles)),
             (''allow_empty_plain'', JBool False)]
        @ (if setValues \<noteq> [] then [(''set_values'', JArr (map JStr setValues))] else [])
        @ [(''force'', JBool force)] @ (if alias \<noteq> [] then [(''alias'', JStr alias)] else [])))"

definition start_busy :: "vault_job \<Rightarrow> jsval \<Rightarrow> vault_state \<Rightarrow> vault_state" where
  "start_busy job body st =
     st\<lparr>vt_busy := True, vt_error := None, vt_status := None, vt_jobs := vt_jobs st @ [job],
        vt_sent := vt_sent st @ [body]\<rparr>"

definition postCredentials :: "pending_credentials \<Rightarrow> string \<Rightarrow> vault_state \<Rightarrow> vault_state" where
  "postCredentials p masterPassword st =
     (if vt_workspace st = [] \<or> masterPassword = [] \<or> vt_busy st then st
      else start_busy (Single_job p masterPassword)
             (credentials_body (pc_roles p) (pc_force p) (pc_setValues p) masterPassword (pc_alias p)
                (vt_activeAlias st)) st)"

definition target_body :: "pending_credentials \<Rightarrow> string \<Rightarrow> string \<times> string list \<Rightarrow> string \<Rightarrow> jsval" where
  "target_body p masterPassword target activeAlias =
     credentials_body (snd target) (pc_force p) (pc_setValues p) masterPassword (fst target) activeAlias"

definition handleVaultPromptSubmit :: "string \<Rightarrow> vault_state \<Rightarrow> vault_state" where
  "handleVaultPromptSubmit masterPassword st =
     (let st1 = st\<lparr>vt_promptOpen := False, vt_mode := None\<rparr> in
      case (vt_mode st, vt_pending st) of
        (Some Generate, Some p) \<Rightarrow>
          (case pc_targets p of
             [] \<Rightarrow> (postCredentials p masterPassword st1)\<lparr>vt_pending := None\<rparr>
           | target # _ \<Rightarrow>
               (if vt_workspace st = [] \<or> masterPassword = [] then st1
                else start_busy (Targets_job p masterPassword (pc_targets p))
                       (target_body p masterPassword target (vt_activeAlias st)) st1)\<lparr>vt_pending := None\<rparr>)
      | (Some Vault_reset, _) \<Rightarrow>
          if vt_workspace st = [] then st1
          else start_busy (Reset_job masterPassword) (JObj [(''master_password'', JStr masterPassword)]) st1
      | _ \<Rightarrow> st1)"

definition call_over :: "string option \<Rightarrow> vault_state \<Rightarrow> vault_state" where
  "call_over err st =
     (let st1 = (case err of None \<Rightarrow> st | Some m \<Rightarrow> st\<lparr>vt_error := Some m\<rparr>) in st1\<lparr>vt_busy := False\<rparr>)"

text \<open>An accepted request: the password is remembered and the list of files is read again.\<close>

definition accepted_call :: "string \<Rightarrow> string \<Rightarrow> string \<Rightarrow> vault_state \<Rightarrow> vault_state" where
  "accepted_call pw status fallback st =
     (let st1 = remember pw st
      in st1\<lparr>vt_status := Some status, vt_jobs := vt_jobs st1 @ [Refresh_job fallback]\<rparr>)"

definition int_text :: "jsval \<Rightarrow> string" where
  "int_text v = num_str (to_num (coalesce v (JNum (Dec 0 0))))"

definition vault_answered :: "vault_job \<Rightarrow> http_reply \<Rightarrow> vault_state \<Rightarrow> vault_state" where
  "vault_answered job res st =
     (case job of
        Single_job p pw \<Rightarrow>
          (case detail_error res of
             Some m \<Rightarrow> call_over (Some (toUserError m ''credential generation failed'')) st
           | None \<Rightarrow> accepted_call pw ''Credentials generated.'' ''credential generation failed'' st)
      | Targets_job p pw remaining \<Rightarrow>
          (case detail_error res of
             Some m \<Rightarrow>
               call_over (Some (toUserError (fst (hd remaining) @ '': '' @ toUserError m ''credential generation failed'')
                 ''credential generation failed'')) st
           | None \<Rightarrow>
               (case tl remaining of
                  [] \<Rightarrow> accepted_call pw (''Credentials generated for '' @ dec_digits (length (pc_targets p))
                          @ '' device target(s).'') ''credential generation failed'' st
                | target # _ \<Rightarrow>
                    st\<lparr>vt_jobs := vt_jobs st @ [Targets_job p pw (tl remaining)],
                        vt_sent := vt_sent st @ [target_body p pw target (vt_activeAlias st)]\<rparr>))
      | Reset_job pw \<Rightarrow>
          (case detail_error res of
             Some m \<Rightarrow> call_over (Some (toUserError m ''failed to reset vault password'')) st
           | None \<Rightarrow>
               (case json_answer res of
                  Inl m \<Rightarrow> call_over (Some (toUserError m ''failed to reset vault password'')) st
                | Inr data \<Rightarrow>
                    accepted_call pw (''Vault password reset ('' @ int_text (jget data ''updated_values'')
                      @ '' values in '' @ int_text (jget data ''updated_files'') @ '' files).'') ''failed to reset vault password'' st))
      | Refresh_job fallback \<Rightarrow>
          (case json_answer res of
             Inl m \<Rightarrow> call_over (Some (toUserError m fallback)) st
           | Inr _ \<Rightarrow> call_over None st))"

subsection \<open>Master password and key passphrase\<close>

definition openMasterPasswordDialog :: "vault_state \<Rightarrow> vault_state" where
  "openMasterPasswordDialog st =
     st\<lparr>vt_masterMode := (if vt_hasVault st then Reset_master else Set_master), vt_masterError := None,
        vt_masterValues := \<lparr>mv_current = [], mv_next = [], mv_confirm = []\<rparr>, vt_masterOpen := True\<rparr>"

definition submitMasterChange_begin :: "vault_state \<Rightarrow> vault_state" where
  "submitMasterChange_begin st =
     (let v = vt_masterValues st in
      if vt_workspace st = [] then st
      else st\<lparr>vt_masterBusy := True, vt_masterError := None,
              vt_masterJobs := vt_masterJobs st @ [(vt_masterMode st, v)],
              vt_sent := vt_sent st @ [JObj
                ((if vt_masterMode st = Reset_master then [(''current_master_password'', JStr (mv_current v))] else [])
                 @ [(''new_master_password'', JStr (mv_next v)),
                    (''new_master_password_confirm'', JStr (mv_confirm v))])]\<rparr>)"

definition text_error :: "http_reply \<Rightarrow> string option" where
  "text_error res =
     (case res of HttpOk _ \<Rightarrow> None | _ \<Rightarrow> (case text_answer res of Inl m \<Rightarrow> Some m | Inr _ \<Rightarrow> None))"

definition submitMasterChange_end :: "master_mode \<Rightarrow> master_values \<Rightarrow> http_reply \<Rightarrow> vault_state \<Rightarrow> vault_state" where
  "submitMasterChange_end mode v res st =
     (case text_error res of
        Some m \<Rightarrow> st\<lparr>vt_masterError := Some (toUserError m ''failed to change master password''),
                     vt_masterBusy := False\<rparr>
      | None \<Rightarrow>
          (remember (mv_next v) st)
            \<lparr>vt_masterOpen := False, vt_masterValues := \<lparr>mv_current = [], mv_next = [], mv_confirm = []\<rparr>,
             vt_status := Some (if mode = Set_master then ''Master password set.'' else ''Master password reset.''),
             vt_masterBusy := False\<rparr>)"

definition submitKeyPassphraseChange_begin :: "vault_state \<Rightarrow> vault_state" where
  "submitKeyPassphraseChange_begin st =
     (case vt_keyModal st of
        None \<Rightarrow> st
      | Some alias \<Rightarrow>
          if vt_workspace st = [] then st
          else st\<lparr>vt_keyBusy := True, vt_keyError := None, vt_keyJobs := vt_keyJobs st + 1,
                  vt_sent := vt_sent st @ [JObj [(''alias'', JStr alias),
                    (''master_password'', JStr (kv_master (vt_keyValues st))),
                    (''new_passphrase'', JStr (kv_next (vt_keyValues st))),
                    (''new_passphrase_confirm'', JStr (kv_confirm (vt_keyValues st)))]]\<rparr>)"

definition submitKeyPassphraseChange_end :: "http_reply \<Rightarrow> vault_state \<Rightarrow> vault_state" where
  "submitKeyPassphraseChange_end res st =
     (case text_error res of
        Some m \<Rightarrow> st\<lparr>vt_keyError := Some (toUserError m ''failed to change passphrase''), vt_keyBusy := False\<rparr>
      | None \<Rightarrow> st\<lparr>vt_keyModal := None, vt_keyValues := \<lparr>kv_master = [], kv_next = [], kv_confirm = []\<rparr>,
                   vt_keyBusy := False\<rparr>)"

subsection \<open>Steps\<close>

datatype vault_event =
    Generate_pressed generate_options
  | Reset_pressed
  | Prompt_submitted string
  | Prompt_closed
  | Vault_answer nat http_reply
  | Panel_props string bool
  | Master_opened
  | Master_menu
  | Master_typed master_values
  | Master_submitted
  | Master_closed
  | Master_answer nat http_reply
  | Key_opened string
  | Key_typed key_values
  | Key_submitted
  | Key_closed
  | Key_answer http_reply

fun vault_step :: "vault_event \<Rightarrow> vault_state \<Rightarrow> vault_state" where
  "vault_step (Generate_pressed opts) st = generateCredentials opts st"
| "vault_step Reset_pressed st = resetVaultPassword st"
| "vault_step (Prompt_submitted pw) st = (if vt_promptOpen st then handleVaultPromptSubmit pw st else st)"
| "vault_step Prompt_closed st = (if vt_promptOpen st then closeVaultPrompt st else st)"
| "vault_step (Vault_answer i res) st =
     (if i < length (vt_jobs st)
      then vault_answered (vt_jobs st ! i) res (st\<lparr>vt_jobs := drop_nth i (vt_jobs st)\<rparr>) else st)"
| "vault_step (Panel_props alias hasVault) st = st\<lparr>vt_activeAlias := alias, vt_hasVault := hasVault\<rparr>"
| "vault_step Master_opened st = openMasterPasswordDialog st"
| "vault_step Master_menu st = st\<lparr>vt_masterMode := Reset_master, vt_masterOpen := True, vt_masterError := None\<rparr>"
| "vault_step (Master_typed v) st = (if vt_masterOpen st then st\<lparr>vt_masterValues := v\<rparr> else st)"
| "vault_step Master_submitted st =
     (if vt_masterOpen st \<and> \<not> vt_masterBusy st then submitMasterChange_begin st else st)"
| "vault_step Master_closed st = st\<lparr>vt_masterOpen := False\<rparr>"
| "vault_step (Master_answer i res) st =
     (if i < length (vt_masterJobs st)
      then case vt_masterJobs st ! i of (mode, v) \<Rightarrow>
        submitMasterChange_end mode v res (st\<lparr>vt_masterJobs := drop_nth i (vt_masterJobs st)\<rparr>) else st)"
| "vault_step (Key_opened alias) st = st\<lparr>vt_keyModal := Some alias, vt_keyError := None\<rparr>"
| "vault_step (Key_typed v) st = st\<lparr>vt_keyValues := v\<rparr>"
| "vault_step Key_submitted st = (if vt_keyBusy st then st else submitKeyPassphraseChange_begin st)"
| "vault_step Key_closed st = st\<lparr>vt_keyModal := None\<rparr>"
| "vault_step (Key_answer res) st =
     (if 0 < vt_keyJobs st then submitKeyPassphraseChange_end res (st\<lparr>vt_keyJobs := vt_keyJobs st - 1\<rparr>) else st)"

subsection \<open>One call at a time\<close>

definition calls_ok :: "vault_state \<Rightarrow> bool" where
  "calls_ok st \<longleftrightarrow> length (vt_jobs st) \<le> 1 \<and> vt_busy st = (vt_jobs st \<noteq> [])
     \<and> (vt_busy st \<longrightarrow> \<not> vt_promptOpen st)"

lemma remember_frame [simp]:
  "vt_jobs (remember pw st) = vt_jobs st" "vt_busy (remember pw st) = vt_busy st"
  "vt_promptOpen (remember pw st) = vt_promptOpen st" "vt_sent (remember pw st) = vt_sent st"
  "vt_workspace (remember pw st) = vt_workspace st" "vt_masterJobs (remember pw st) = vt_masterJobs st"
  "vt_session (remember pw st) = setWorkspaceMasterPassword (Some (vt_workspace st)) pw (vt_session st)"
  by (simp_all add: remember_def)

lemma vault_answered_over:
  assumes "vt_jobs st = []"
  shows "(\<exists>j. vt_jobs (vault_answered job res st) = [j] \<and> vt_busy (vault_answered job res st) = vt_busy st)
       \<or> (vt_jobs (vault_answered job res st) = [] \<and> \<not> vt_busy (vault_answered job res st))"
    and "vt_promptOpen (vault_answered job res st) = vt_promptOpen st"
  using assms
  by (auto simp: vault_answered_def call_over_def accepted_call_def Let_def
      split: vault_job.split option.split sum.split list.split)

lemma calls_ok_step:
  assumes "calls_ok st"
  shows "calls_ok (vault_step e st)"
proof (cases e)
  case (Vault_answer i res)
  show ?thesis
  proof (cases "i < length (vt_jobs st)")
    case True
    then have "vt_jobs st = [vt_jobs st ! i]" "i = 0" "vt_busy st" "\<not> vt_promptOpen st"
      using assms by (cases "vt_jobs st"; auto simp: calls_ok_def)+
    moreover from this have "drop_nth i (vt_jobs st) = []" by (metis drop_nth_def drop_Suc_Cons drop0 append_Nil take0)
    ultimately show ?thesis
      using vault_answered_over [of "st\<lparr>vt_jobs := []\<rparr>" "vt_jobs st ! i" res]
      by (auto simp: Vault_answer calls_ok_def)
  qed (use assms in \<open>simp add: Vault_answer\<close>)
next
  case (Prompt_submitted pw)
  show ?thesis
  proof (cases "vt_promptOpen st")
    case True
    then have "vt_jobs st = []" "\<not> vt_busy st" using assms by (auto simp: calls_ok_def)
    then show ?thesis
      by (auto simp: Prompt_submitted calls_ok_def handleVaultPromptSubmit_def postCredentials_def start_busy_def
          Let_def split: option.split prompt_mode.split list.split)
  qed (use assms in \<open>simp add: Prompt_submitted\<close>)
next
  case (Master_answer i res)
  then show ?thesis using assms
    by (auto simp: calls_ok_def submitMasterChange_end_def split: option.split prod.split)
next
  case (Key_answer res)
  then show ?thesis using assms
    by (auto simp: calls_ok_def submitKeyPassphraseChange_end_def split: option.split)
next
  case Key_submitted
  then show ?thesis using assms
    by (auto simp: calls_ok_def submitKeyPassphraseChange_begin_def split: option.split)
qed (use assms in \<open>auto simp: calls_ok_def generateCredentials_def resetVaultPassword_def prompt_def
      closeVaultPrompt_def openMasterPasswordDialog_def submitMasterChange_begin_def Let_def\<close>)

interpretation vault_calls: machine vault_step calls_ok
  by unfold_locales (rule calls_ok_step)

subsection \<open>Devices in turn\<close>

lemma drop_first [simp]: "drop_nth 0 [x] = []"
  by (simp add: drop_nth_def)

fun first_answers :: "http_reply list \<Rightarrow> vault_state \<Rightarrow> vault_state" where
  "first_answers [] st = st"
| "first_answers (r # rs) st = first_answers rs (vault_step (Vault_answer 0 r) st)"

text \<open>Accepted answers move on to the next device.\<close>

lemma targets_accepted:
  assumes "vt_jobs st = [Targets_job p pw ts]" "list_all (\<lambda>r. detail_error r = None) rs" "length rs < length ts"
  defines "st' \<equiv> first_answers rs st"
  shows "vt_jobs st' = [Targets_job p pw (drop (length rs) ts)]"
    and "vt_sent st' = vt_sent st @ map (\<lambda>t. target_body p pw t (vt_activeAlias st)) (take (length rs) (tl ts))"
    and "vt_session st' = vt_session st" "vt_activeAlias st' = vt_activeAlias st"
      "vt_workspace st' = vt_workspace st" "vt_busy st' = vt_busy st"
  unfolding atomize_conj st'_def using assms(1-3)
proof (induction rs arbitrary: st ts)
  case (Cons r rs)
  from Cons.prems obtain t u us where ts: "ts = t # u # us"
    by (cases ts; cases "tl ts") auto
  define st1 where "st1 = vault_step (Vault_answer 0 r) st"
  have st1: "vt_jobs st1 = [Targets_job p pw (u # us)]"
    "vt_sent st1 = vt_sent st @ [target_body p pw u (vt_activeAlias st)]"
    "vt_session st1 = vt_session st" "vt_activeAlias st1 = vt_activeAlias st" "vt_workspace st1 = vt_workspace st"
    "vt_busy st1 = vt_busy st"
    using Cons.prems by (simp_all add: st1_def vault_answered_def ts)
  have "list_all (\<lambda>r. detail_error r = None) rs" "length rs < length (u # us)" using Cons.prems ts by auto
  from Cons.IH [OF st1(1) this] st1 show ?case
    by (simp add: ts del: vault_step.simps flip: st1_def)
qed simp

lemma toUserError_prefixed:
  assumes "m \<noteq> ''Failed to fetch''" "token m" "token name"
  shows "toUserError (name @ '': '' @ toUserError m fb) fb = name @ '': '' @ m"
proof -
  have "toUserError m fb = m" using assms(1,2) by (simp add: toUserError_def token_def)
  moreover have "trim (name @ '': '' @ m) = name @ '': '' @ m"
    using assms(2,3) trimmed_trim [of m] trimmed_trim [of name]
    by (intro trim_trimmed) (auto simp: trimmed_def token_def)
  moreover have "name @ '': '' @ m \<noteq> ''Failed to fetch''"
  proof
    assume "name @ '': '' @ m = ''Failed to fetch''"
    then have "CHR '':'' \<in> set ''Failed to fetch''" by (metis in_set_conv_decomp append_Cons)
    moreover have "CHR '':'' \<notin> set ''Failed to fetch''" by code_simp
    ultimately show False by blast
  qed
  ultimately show ?thesis by (simp add: toUserError_def Let_def)
qed

text \<open>
  C20: credentials for several devices are asked for one device after the other, in the order given. When a
  request is refused, no further one is sent, the message names the device, the password is not remembered and
  the call is over; when all are accepted, every device has had its request, the password is remembered
  and the list of files is read again.
\<close>

theorem targets_in_turn:
  assumes "vt_jobs st = [Targets_job p pw ts]" "ts = pc_targets p"
    and "list_all (\<lambda>r. detail_error r = None) rs" "length rs < length ts"
  shows "let at = first_answers rs st; st' = vault_step (Vault_answer 0 res) at;
             bodies = map (\<lambda>t. target_body p pw t (vt_activeAlias st)) in
    (case detail_error res of
       Some m \<Rightarrow>
         vt_sent st' = vt_sent st @ bodies (take (length rs) (tl ts)) \<and> vt_session st' = vt_session st
         \<and> \<not> vt_busy st' \<and> vt_jobs st' = []
         \<and> (m \<noteq> ''Failed to fetch'' \<and> token m \<and> token (fst (ts ! length rs))
            \<longrightarrow> vt_error st' = Some (fst (ts ! length rs) @ '': '' @ m))
     | None \<Rightarrow>
         (if Suc (length rs) = length ts then
            vt_sent st' = vt_sent st @ bodies (tl ts)
            \<and> vt_session st' = setWorkspaceMasterPassword (Some (vt_workspace st)) pw (vt_session st)
            \<and> vt_status st' = Some (''Credentials generated for '' @ dec_digits (length ts) @ '' device target(s).'')
            \<and> vt_jobs st' = [Refresh_job ''credential generation failed'']
          else vt_session st' = vt_session st \<and> vt_jobs st' \<noteq> []))"
proof -
  define at where "at = first_answers rs st"
  note a = targets_accepted [OF assms(1,3,4), folded at_def]
  obtain t us where d: "drop (length rs) ts = t # us" using assms(4) by (cases "drop (length rs) ts") auto
  then have t: "ts ! length rs = t" "us = drop (Suc (length rs)) ts"
    using assms(4) by (metis Cons_nth_drop_Suc list.inject)+
  show ?thesis
  proof (cases "detail_error res")
    case (Some m)
    have msg: "toUserError (fst t @ '': '' @ toUserError m fb) fb = fst t @ '': '' @ m"
      if "m \<noteq> ''Failed to fetch''" "token m" "token (fst t)" for fb
      by (rule toUserError_prefixed) (use that in auto)
    show ?thesis
      using a Some by (simp add: Let_def d t(1) vault_answered_def call_over_def msg [simplified] flip: at_def)
  next
    case None
    show ?thesis
    proof (cases "Suc (length rs) = length ts")
      case True
      then have "us = []" "take (length rs) (tl ts) = tl ts" using t(2) by auto
      with None True a show ?thesis
        by (simp add: Let_def d t(1) vault_answered_def accepted_call_def assms(2) [symmetric] flip: at_def)
    next
      case False
      then have "us \<noteq> []" using t(2) assms(4) by auto
      with None False a show ?thesis
        by (cases us) (simp_all add: Let_def d t(1) vault_answered_def flip: at_def)
    qed
  qed
qed

subsection \<open>Remembered passwords\<close>

definition sent_password :: "string \<Rightarrow> vault_state \<Rightarrow> bool" where
  "sent_password pw st \<longleftrightarrow> list_ex (\<lambda>body. jget body ''master_password'' = JStr pw
     \<or> jget body ''new_master_password'' = JStr pw) (vt_sent st)"

definition stored_password :: "vault_state \<Rightarrow> string" where
  "stored_password st = getWorkspaceMasterPassword (Some (vt_workspace st)) (vt_session st)"

text \<open>An event that brings an accepted request.\<close>

fun accepts :: "vault_event \<Rightarrow> bool" where
  "accepts (Vault_answer i (HttpOk r)) = True"
| "accepts (Master_answer i (HttpOk r)) = True"
| "accepts _ = False"

definition job_password :: "vault_job \<Rightarrow> string option" where
  "job_password job = (case job of Single_job p pw \<Rightarrow> Some pw | Targets_job p pw ts \<Rightarrow> Some pw
     | Reset_job pw \<Rightarrow> Some pw | Refresh_job m \<Rightarrow> None)"

definition passwords_ok :: "string \<Rightarrow> session_store \<Rightarrow> vault_state \<Rightarrow> bool" where
  "passwords_ok ws window st \<longleftrightarrow> vt_workspace st = ws \<and> (vt_session st = None) = (window = None)
     \<and> (\<forall>job \<in> set (vt_jobs st). \<forall>pw. job_password job = Some pw \<longrightarrow> sent_password pw st)
     \<and> (\<forall>job \<in> set (vt_masterJobs st). sent_password (mv_next (snd job)) st)
     \<and> (stored_password st = getWorkspaceMasterPassword (Some ws) window
        \<or> (\<exists>pw. sent_password pw st \<and> stored_password st = trim pw))"

lemma get_set:
  "getWorkspaceMasterPassword (Some ws) (setWorkspaceMasterPassword (Some ws) pw w)
   = (if w = None \<or> trim ws = [] then [] else trim pw)"
  by (auto simp: getWorkspaceMasterPassword_def setWorkspaceMasterPassword_def Let_def opt_else_def
      split: option.split)

lemma get_None [simp]: "getWorkspaceMasterPassword ws None = []"
  by (simp add: getWorkspaceMasterPassword_def Let_def)

lemma get_blank: "trim ws = [] \<Longrightarrow> getWorkspaceMasterPassword (Some ws) w = []"
  by (simp add: getWorkspaceMasterPassword_def Let_def opt_else_def split: option.split)

lemma set_None [simp]: "setWorkspaceMasterPassword ws pw w = None \<longleftrightarrow> w = None"
  by (simp add: setWorkspaceMasterPassword_def Let_def)

lemma passwords_grow:
  assumes "passwords_ok ws window st" "vt_workspace st' = vt_workspace st" "vt_session st' = vt_session st"
    and "set (vt_sent st) \<subseteq> set (vt_sent st')"
    and "\<forall>job \<in> set (vt_jobs st') - set (vt_jobs st). \<forall>pw. job_password job = Some pw \<longrightarrow> sent_password pw st'"
    and "\<forall>job \<in> set (vt_masterJobs st') - set (vt_masterJobs st). sent_password (mv_next (snd job)) st'"
  shows "passwords_ok ws window st'"
proof -
  have "sent_password pw st \<Longrightarrow> sent_password pw st'" for pw
    using assms(4) by (auto simp: sent_password_def list_ex_iff)
  moreover have "stored_password st' = stored_password st" using assms(2,3) by (simp add: stored_password_def)
  ultimately show ?thesis using assms unfolding passwords_ok_def by (metis DiffI)
qed

lemma passwords_remember:
  assumes "passwords_ok ws window st" "sent_password pw st"
  shows "passwords_ok ws window (remember pw st)"
proof -
  have "sent_password q (remember pw st) = sent_password q st" for q by (simp add: sent_password_def)
  moreover have "stored_password (remember pw st) = getWorkspaceMasterPassword (Some ws) window
      \<or> stored_password (remember pw st) = trim pw"
    using assms(1) by (auto simp: stored_password_def passwords_ok_def get_set get_blank)
  ultimately show ?thesis using assms by (auto simp: passwords_ok_def)
qed

lemma in_drop_nth: "x \<in> set (drop_nth i xs) \<Longrightarrow> x \<in> set xs"
  by (auto simp: drop_nth_def dest: in_set_takeD in_set_dropD)

lemma sent_body:
  "sent_password pw (start_busy job (credentials_body roles f sv pw al al') st)"
  "sent_password pw (start_busy job (JObj [(''master_password'', JStr pw)]) st)"
  by (simp_all add: sent_password_def start_busy_def credentials_body_def Let_def)

lemma passwords_answer:
  assumes "passwords_ok ws window st" "i < length (vt_jobs st)"
  shows "passwords_ok ws window (vault_answered (vt_jobs st ! i) res (st\<lparr>vt_jobs := drop_nth i (vt_jobs st)\<rparr>))"
proof -
  define job where "job = vt_jobs st ! i"
  define st1 where "st1 = st\<lparr>vt_jobs := drop_nth i (vt_jobs st)\<rparr>"
  have "job \<in> set (vt_jobs st)" using assms(2) by (simp add: job_def)
  then have sent: "job_password job = Some pw \<Longrightarrow> sent_password pw st1" for pw
    using assms(1) by (auto simp: passwords_ok_def st1_def sent_password_def)
  have ok1: "passwords_ok ws window st1"
    by (rule passwords_grow [OF assms(1)]) (auto simp: st1_def dest: in_drop_nth)
  have over: "passwords_ok ws window (call_over err st1)" for err
    by (rule passwords_grow [OF ok1]) (auto simp: call_over_def Let_def split: option.split)
  have accepted: "passwords_ok ws window (accepted_call pw status fb st1)" if "sent_password pw st1" for pw status fb
    by (rule passwords_grow [OF passwords_remember [OF ok1 that]])
      (auto simp: accepted_call_def job_password_def Let_def)
  show ?thesis
    unfolding job_def [symmetric] st1_def [symmetric]
  proof (cases job)
    case (Single_job p pw)
    then show "passwords_ok ws window (vault_answered job res st1)"
      using over accepted [OF sent] by (auto simp: vault_answered_def job_password_def split: option.split)
  next
    case (Targets_job p pw ts)
    have pw: "sent_password pw st1" using sent by (simp add: Targets_job job_password_def)
    have more: "passwords_ok ws window (st1\<lparr>vt_jobs := vt_jobs st1 @ [Targets_job p pw us],
        vt_sent := vt_sent st1 @ [body]\<rparr>)" for us body
      by (rule passwords_grow [OF ok1]) (use pw in \<open>auto simp: job_password_def sent_password_def\<close>)
    show "passwords_ok ws window (vault_answered job res st1)"
      using over accepted [OF pw] more
      by (auto simp: Targets_job vault_answered_def split: option.split list.split)
  next
    case (Reset_job pw)
    then show "passwords_ok ws window (vault_answered job res st1)"
      using over accepted [OF sent] by (auto simp: vault_answered_def job_password_def split: option.split sum.split)
  next
    case (Refresh_job fb)
    then show "passwords_ok ws window (vault_answered job res st1)"
      using over by (auto simp: vault_answered_def split: sum.split)
  qed
qed

lemma passwords_step:
  assumes "passwords_ok ws window st"
  shows "passwords_ok ws window (vault_step e st)"
proof (cases e)
  case (Vault_answer i res)
  then show ?thesis using passwords_answer [OF assms] assms by simp
next
  case (Prompt_submitted pw)
  have grow: "passwords_ok ws window (start_busy job body st')"
    if "passwords_ok ws window st'" "\<forall>q. job_password job = Some q \<longrightarrow> sent_password q (start_busy job body st')"
    for job body st'
    by (rule passwords_grow [OF that(1)]) (use that(2) in \<open>auto simp: start_busy_def\<close>)
  have quiet: "passwords_ok ws window (st'\<lparr>vt_pending := None\<rparr>) = passwords_ok ws window st'" for st'
    by (auto simp: passwords_ok_def sent_password_def stored_password_def)
  have st1: "passwords_ok ws window (st\<lparr>vt_promptOpen := False, vt_mode := None\<rparr>)"
    by (rule passwords_grow [OF assms]) auto
  have "passwords_ok ws window (postCredentials p pw st')" if "passwords_ok ws window st'" for p st'
    using that by (auto simp: postCredentials_def job_password_def sent_body intro!: grow)
  then show ?thesis
    using assms st1
    by (auto simp: Prompt_submitted handleVaultPromptSubmit_def Let_def quiet job_password_def sent_body target_body_def
        intro!: grow split: option.split prompt_mode.split list.split)
next
  case Master_submitted
  show ?thesis
    using assms unfolding Master_submitted vault_step.simps submitMasterChange_begin_def Let_def
    by (auto intro!: passwords_grow [OF assms] simp: sent_password_def)
next
  case (Master_answer i res)
  show ?thesis
  proof (cases "i < length (vt_masterJobs st)")
    case True
    obtain mode v where v: "vt_masterJobs st ! i = (mode, v)" by fastforce
    then have "(mode, v) \<in> set (vt_masterJobs st)" using True by (metis nth_mem)
    then have sent: "sent_password (mv_next v) st" using assms by (auto simp: passwords_ok_def)
    define st1 where "st1 = st\<lparr>vt_masterJobs := drop_nth i (vt_masterJobs st)\<rparr>"
    have ok1: "passwords_ok ws window st1"
      by (rule passwords_grow [OF assms]) (auto simp: st1_def dest: in_drop_nth)
    have sent1: "sent_password (mv_next v) st1" using sent by (simp add: st1_def sent_password_def)
    have "passwords_ok ws window (submitMasterChange_end mode v res st1)"
    proof (cases "text_error res")
      case None
      show ?thesis
        unfolding submitMasterChange_end_def None option.case
        by (rule passwords_grow [OF passwords_remember [OF ok1 sent1]]) auto
    next
      case (Some m)
      show ?thesis
        unfolding submitMasterChange_end_def Some option.case by (rule passwords_grow [OF ok1]) auto
    qed
    then show ?thesis using True v by (simp add: Master_answer st1_def)
  qed (use assms in \<open>simp add: Master_answer\<close>)
next
  case Key_submitted
  then show ?thesis
    using assms by (auto simp: submitKeyPassphraseChange_begin_def intro!: passwords_grow [OF assms] split: option.split)
next
  case (Key_answer res)
  then show ?thesis
    using assms by (auto simp: submitKeyPassphraseChange_end_def intro!: passwords_grow [OF assms] split: option.split)
qed (use assms in \<open>auto simp: generateCredentials_def resetVaultPassword_def prompt_def closeVaultPrompt_def
      openMasterPasswordDialog_def Let_def intro!: passwords_grow [OF assms]\<close>)

interpretation vault_passwords: machine vault_step "passwords_ok ws window"
  by unfold_locales (rule passwords_step)

lemma session_step:
  assumes "\<not> accepts e"
  shows "vt_session (vault_step e st) = vt_session st"
proof (cases e)
  case (Vault_answer i res)
  have "vt_session (vault_answered job res s) = vt_session s" for job s
    using assms Vault_answer
    by (cases res) (auto simp: vault_answered_def call_over_def detail_error_def json_answer_def Let_def
        split: vault_job.split option.split)
  then show ?thesis by (simp add: Vault_answer)
next
  case (Prompt_submitted pw)
  then show ?thesis
    by (auto simp: handleVaultPromptSubmit_def postCredentials_def start_busy_def Let_def
        split: option.split prompt_mode.split list.split)
next
  case (Master_answer i res)
  then show ?thesis using assms
    by (cases res) (auto simp: submitMasterChange_end_def text_error_def text_answer_def
        split: prod.split)
next
  case (Key_answer res)
  then show ?thesis by (auto simp: submitKeyPassphraseChange_end_def split: option.split)
next
  case Key_submitted
  then show ?thesis by (auto simp: submitKeyPassphraseChange_begin_def split: option.split)
qed (auto simp: generateCredentials_def resetVaultPassword_def prompt_def closeVaultPrompt_def
      openMasterPasswordDialog_def submitMasterChange_begin_def Let_def)

interpretation no_answer: guarded_machine vault_step "\<lambda>e. \<not> accepts e" "\<lambda>st. vt_session st = window"
  by unfold_locales (simp add: session_step)

text \<open>
  The master password of the session is the one it started with, or one that was sent with a
  request; and as long as no request has been accepted, it is untouched.
\<close>

theorem remembered_password_was_sent:
  "(let st = fold vault_step es (initial_vault ws window);
        stored = getWorkspaceMasterPassword (Some ws) (vt_session st) in
     stored = getWorkspaceMasterPassword (Some ws) window
     \<or> (\<exists>pw. sent_password pw st \<and> stored = trim pw))
   \<and> (list_ex accepts es \<or> vt_session (fold vault_step es (initial_vault ws window)) = window)"
proof
  have "passwords_ok ws window (initial_vault ws window)"
    by (simp add: passwords_ok_def initial_vault_def stored_password_def)
  from vault_passwords.every_run_ok [OF this, of es]
  show "let st = fold vault_step es (initial_vault ws window);
        stored = getWorkspaceMasterPassword (Some ws) (vt_session st) in
     stored = getWorkspaceMasterPassword (Some ws) window \<or> (\<exists>pw. sent_password pw st \<and> stored = trim pw)"
    unfolding passwords_ok_def stored_password_def Let_def by metis
  have "vt_session (fold vault_step es (initial_vault ws window)) = window" if "\<not> list_ex accepts es"
    by (rule no_answer.run_ok) (use that in \<open>auto simp: list_all_iff list_ex_iff initial_vault_def\<close>)
  then show "list_ex accepts es \<or> vt_session (fold vault_step es (initial_vault ws window)) = window" by blast
qed

definition demo_pending :: pending_credentials where
  "demo_pending = \<lparr>pc_roles = [], pc_force = False, pc_setValues = [], pc_alias = [],
     pc_targets = [(''web'', [''wiki'']), (''db'', [''sql''])]\<rparr>"

definition demo_targets :: vault_state where
  "demo_targets = fold vault_step
     [Generate_pressed \<lparr>go_roles = [], go_force = False, go_alias = [],
        go_targets = [('' web'', [''wiki'']), (''db'', [''sql'']), (''x'', [])]\<rparr>, Prompt_submitted ''pw'']
     (initial_vault ''w1'' (Some []))"

theorem targets_in_turn_witness:
  "let st' = vault_step (Vault_answer 0 (HttpError 500 None (Inr [])))
               (first_answers [HttpOk (Inr JNull)] demo_targets)
   in vt_error st' = Some ''db: HTTP 500'' \<and> vt_session st' = Some [] \<and> \<not> vt_busy st' \<and> length (vt_sent st') = 2"
proof -
  let ?ts = "[(''web'', [''wiki'']), (''db'', [''sql''])] :: (string \<times> string list) list"
  have f: "vt_jobs demo_targets = [Targets_job demo_pending ''pw'' ?ts]" "vt_session demo_targets = Some []"
    "length (vt_sent demo_targets) = 1"
    by code_simp+
  have p: "?ts = pc_targets demo_pending" by (simp add: demo_pending_def)
  have h: "list_all (\<lambda>r. detail_error r = None) [HttpOk (Inr JNull)]" "length [HttpOk (Inr JNull)] < length ?ts"
    by (simp_all add: detail_error_def)
  have m: "detail_error (HttpError 500 None (Inr [])) = Some ''HTTP 500''"
    by code_simp
  have t: "token ''HTTP 500''" "token ''db''" "''HTTP 500'' \<noteq> ''Failed to fetch''" by code_simp+
  show ?thesis
    using targets_in_turn [OF f(1) p h, of "HttpError 500 None (Inr [])"] f(2,3) t
    by (simp add: Let_def m del: first_answers.simps vault_step.simps)
qed

end
