(* ===== verification/SelectionCalls.thy ===== *)
theory SelectionCalls
  imports ServerActions
begin

text \<open>
  The actions on the servers as their callers make them (\<open>useWorkspaceServerSelectionActions.ts\<close>). A callback
  works with the rendering its closure was made in. What the user clicks comes from the page that is shown, but the
  form that removes several servers, the answers to a test, a new key or an order, and the reader of the inventory hold
  an earlier one. A run records the renderings there were; \<open>Late\<close> is a call with any of them. The effects that repair
  the active server run after a rendering, at any place of the run.
\<close>

subsection \<open>Calls\<close>

text \<open>Each action, called from the rendering \<open>cap\<close> on the state \<open>st\<close>.\<close>

fun sel_call ::
  "(string \<Rightarrow> string \<Rightarrow> int) \<Rightarrow> (string \<Rightarrow> string) \<Rightarrow> sel_event \<Rightarrow> selection_state \<Rightarrow> selection_state
   \<Rightarrow> selection_state" where
  "sel_call lc dp (Apply_roles rs) cap st = applySelectedRolesByAlias lc dp rs cap st"
| "sel_call lc dp (Update alias patch) cap st = updateServer alias patch cap st"
| "sel_call lc dp (Add dc de hint) cap st = snd (addServer (createServer dc de) hint cap st)"
| "sel_call lc dp (Remove alias) cap st = (case removeServer alias cap st of Inl _ \<Rightarrow> st | Inr st' \<Rightarrow> st')"
| "sel_call lc dp (Cleanup alias) cap st = (case cleanupServer alias cap st of Inl _ \<Rightarrow> st | Inr st' \<Rightarrow> st')"
| "sel_call lc dp (Toggle alias rid) cap st = toggleSelectedForAlias dp alias rid cap st"
| "sel_call lc dp (Toggle_active rid) cap st = toggleSelected dp rid cap st"
| "sel_call lc dp Select_all_deploy cap st = selectAllDeployAliases (selectableAliases cap) st"
| "sel_call lc dp Select_all_roles cap st = selectAllDeployRoles (inventoryRoleIds lc cap) st"
| "sel_call lc dp (Ordered dc de device) cap st = handleProviderOrderedServer dc de device cap st"
| "sel_call lc dp e cap st = sel_step lc dp e st"

lemma sel_call_fresh: "sel_call lc dp e st st = sel_step lc dp e st"
  by (cases e) simp_all

datatype call_event =
  Act sel_event
| Late nat sel_event
| Choose string
| Repair string

text \<open>\<open>Choose\<close> is \<open>setActiveAlias\<close> as the pages call it, \<open>Repair\<close> the effects on the active server, with what the address
  of the page waits for. \<open>Add\<close> is only called from a click.\<close>

definition late_ok :: "sel_event \<Rightarrow> bool" where
  "late_ok e \<longleftrightarrow> (case e of Add _ _ _ \<Rightarrow> False | _ \<Rightarrow> True)"

record call_run =
  cr_now :: selection_state
  cr_seen :: "selection_state list"

definition call_result ::
  "(string \<Rightarrow> string \<Rightarrow> int) \<Rightarrow> (string \<Rightarrow> string) \<Rightarrow> call_event \<Rightarrow> call_run \<Rightarrow> selection_state" where
  "call_result lc dp e r =
     (let st = cr_now r in
      case e of
        Act e \<Rightarrow> sel_step lc dp e st
      | Late i e \<Rightarrow> if i < length (cr_seen r) then sel_call lc dp e (cr_seen r ! i) st else st
      | Choose alias \<Rightarrow> st\<lparr>ss_activeAlias := alias\<rparr>
      | Repair wanted \<Rightarrow> record_active st (restore_active wanted st st))"

definition call_step ::
  "(string \<Rightarrow> string \<Rightarrow> int) \<Rightarrow> (string \<Rightarrow> string) \<Rightarrow> call_event \<Rightarrow> call_run \<Rightarrow> call_run" where
  "call_step lc dp e r = \<lparr>cr_now = call_result lc dp e r, cr_seen = cr_seen r @ [cr_now r]\<rparr>"

definition first_run :: "selection_state \<Rightarrow> call_run" where
  "first_run st = \<lparr>cr_now = st, cr_seen = []\<rparr>"

fun call_ok :: "call_event \<Rightarrow> bool" where
  "call_ok (Act e) = event_ok e"
| "call_ok (Late i e) = (event_ok e \<and> late_ok e)"
| "call_ok _ = True"

subsection \<open>What a call keeps, whichever rendering it comes from\<close>

definition reg_ok :: "selection_state \<Rightarrow> bool" where
  "reg_ok st \<longleftrightarrow> distinct (aliases st) \<and> [] \<notin> set (aliases st)
     \<and> distinct (map fst (ss_selected st)) \<and> distinct (map fst (ss_plans st))
     \<and> distinct (map fst (ss_connectionResults st))
     \<and> distinct (ss_deploySelection st) \<and> distinct (ss_deployRoleFilter st) \<and> distinct (ss_deployedAliases st)"

definition shown_ok :: "selection_state \<Rightarrow> bool" where
  "shown_ok st \<longleftrightarrow> (if ss_servers st = [] then ss_activeAlias st = [] else ss_activeAlias st \<in> set (aliases st))"

lemma sel_ok_parts: "sel_ok st \<longleftrightarrow> reg_ok st \<and> shown_ok st"
  by (auto simp: sel_ok_def reg_ok_def shown_ok_def names_ok_def)

text \<open>With the first server active the state meets the whole invariant, so that the lemmas on it apply.\<close>

definition centred :: "selection_state \<Rightarrow> selection_state" where
  "centred st = st\<lparr>ss_activeAlias := (case aliases st of n # _ \<Rightarrow> n | [] \<Rightarrow> [])\<rparr>"

lemma sel_ok_centred: "reg_ok st \<Longrightarrow> sel_ok (centred st)"
  by (cases "ss_servers st")
    (auto simp: sel_ok_parts reg_ok_def shown_ok_def centred_def aliases_def)

lemma reg_ok_active [simp]: "reg_ok (st\<lparr>ss_activeAlias := a\<rparr>) = reg_ok st"
  by (simp add: reg_ok_def aliases_def)

definition same_reg :: "selection_state \<Rightarrow> selection_state \<Rightarrow> bool" where
  "same_reg s t \<longleftrightarrow> s\<lparr>ss_activeAlias := []\<rparr> = t\<lparr>ss_activeAlias := []\<rparr>"

lemma same_reg_ok: "same_reg s t \<Longrightarrow> reg_ok s = reg_ok t"
  unfolding same_reg_def by (metis reg_ok_active)

lemma same_reg_calls:
  "same_reg (applySelectedRolesByAlias lc dp rs cap st) (applySelectedRolesByAlias lc dp rs (centred st) (centred st))"
  "same_reg (updateServer a p cap st) (updateServer a p (centred st) (centred st))"
  "same_reg (removeServerFromClient a cap st) (removeServerFromClient a (centred st) (centred st))"
  by (simp_all add: same_reg_def applySelectedRolesByAlias_def apply_no_roles_def updateServer_def rename_alias_def
      removeServerFromClient_def log_visual_def centred_def Let_def split: option.split)

lemma reg_ok_apply: "reg_ok st \<Longrightarrow> distinct (role_aliases rs) \<Longrightarrow> reg_ok (applySelectedRolesByAlias lc dp rs cap st)"
  using sel_ok_apply_roles [OF sel_ok_centred] same_reg_ok [OF same_reg_calls(1)] by (metis sel_ok_parts)

lemma reg_ok_update: "reg_ok st \<Longrightarrow> reg_ok (updateServer a p cap st)"
  using sel_ok_update [OF sel_ok_centred] same_reg_ok [OF same_reg_calls(2)] by (metis sel_ok_parts)

lemma reg_ok_remove_client: "reg_ok st \<Longrightarrow> reg_ok (removeServerFromClient a cap st)"
  using sel_ok_remove_client [OF sel_ok_centred, of st "centred st" a] same_reg_ok [OF same_reg_calls(3), of a cap st]
  by (simp add: sel_ok_parts)

lemma reg_ok_queues [simp]:
  "reg_ok (st\<lparr>ss_aliasDeletes := ds\<rparr>) = reg_ok st" "reg_ok (st\<lparr>ss_aliasCleanups := cs\<rparr>) = reg_ok st"
  by (simp_all add: reg_ok_def aliases_def)

lemma reg_ok_removal:
  "reg_ok st \<Longrightarrow> reg_ok (case removeServer a cap st of Inl _ \<Rightarrow> st | Inr st' \<Rightarrow> st')"
  "reg_ok st \<Longrightarrow> reg_ok (case cleanupServer a cap st of Inl _ \<Rightarrow> st | Inr st' \<Rightarrow> st')"
  by (simp_all add: removeServer_def cleanupServer_def reg_ok_remove_client)

lemma reg_ok_ordered:
  assumes "reg_ok st"
  shows "reg_ok (handleProviderOrderedServer dc de device cap st)"
proof (cases "trim (os_alias device) = []")
  case False
  let ?p = "ordered_patch dc de device (ss_servers cap)"
  have p: "sv_alias ?p = trim (os_alias device)"
    by (simp add: ordered_patch_def)
  have "aliases (handleProviderOrderedServer dc de device cap st)
      = (if sv_alias ?p \<in> set (aliases st) then aliases st else aliases st @ [sv_alias ?p])"
    using False aliases_ordered [of "ss_servers st" ?p]
    by (simp add: handleProviderOrderedServer_def Let_def aliases_def p)
  with assms False p show ?thesis
    by (simp add: reg_ok_def) (simp add: handleProviderOrderedServer_def Let_def)
qed (use assms in \<open>simp add: handleProviderOrderedServer_def\<close>)

lemma reg_ok_choices:
  assumes "reg_ok st"
  shows "reg_ok (toggleSelectedForAlias dp a rid cap st)" "reg_ok (toggleSelected dp rid cap st)"
    "reg_ok (toggleDeployAlias a st)" "reg_ok (selectAllDeployAliases as st)"
    "reg_ok (deselectAllDeployAliases st)" "reg_ok (toggleDeployRole rid st)"
    "reg_ok (selectAllDeployRoles rids st)" "reg_ok (deselectAllDeployRoles st)"
    "reg_ok (handleConnectionResult a result st)"
  using assms
  by (simp_all add: toggleSelectedForAlias_def toggleSelected_def toggleDeployAlias_def
      selectAllDeployAliases_def deselectAllDeployAliases_def toggleDeployRole_def
      selectAllDeployRoles_def deselectAllDeployRoles_def handleConnectionResult_def reg_ok_def
      aliases_def Let_def)

lemma reg_ok_effects: "reg_ok st \<Longrightarrow> reg_ok (run_effects lc dp st)"
  by (auto simp: run_effects_def pruneDeployRoleFilter_def pruneConnectionResults_def
      pruneDeployedAliases_def pruneDeploySelection_def syncSelectedPlans_def reg_ok_def aliases_def
      distinct_map_filter Let_def)

lemma reg_ok_add:
  assumes "reg_ok st"
  shows "reg_ok (snd (addServer (createServer dc de) hint st st))"
proof -
  have "addServer (createServer dc de) hint st st = addServer (createServer dc de) hint (centred st) (centred st)"
    by (simp add: addServer_def Let_def centred_def aliases_def log_visual_def)
  then show ?thesis
    using sel_ok_add [OF sel_ok_centred [OF assms]] by (simp add: sel_ok_parts)
qed

lemma reg_ok_call: "event_ok e \<Longrightarrow> late_ok e \<Longrightarrow> reg_ok st \<Longrightarrow> reg_ok (sel_call lc dp e cap st)"
  by (cases e)
    (simp_all add: reg_ok_apply reg_ok_update reg_ok_removal reg_ok_ordered reg_ok_effects reg_ok_choices late_ok_def)

lemma reg_ok_sel_step: "event_ok e \<Longrightarrow> reg_ok st \<Longrightarrow> reg_ok (sel_step lc dp e st)"
  unfolding sel_call_fresh [symmetric]
  by (cases "late_ok e") (simp_all add: reg_ok_call, auto simp: late_ok_def reg_ok_add split: sel_event.splits)

text \<open>The effects keep it, and put the active server right unless the address still waits for one.\<close>

lemma repair_parts:
  "aliases (record_active st (restore_active wanted st st)) = aliases st"
  "ss_servers (record_active st (restore_active wanted st st)) = ss_servers st"
  by (simp_all add: record_active_def restore_active_def aliases_def Let_def)

lemma reg_ok_repair: "reg_ok st \<Longrightarrow> reg_ok (record_active st (restore_active wanted st st))"
  by (auto simp: record_active_def restore_active_def reg_ok_def aliases_def Let_def)

lemma repair_shown:
  assumes "reg_ok st"
  shows "shown_ok (record_active st (restore_active [] st st))"
proof -
  have "ss_activeAlias (record_active st (restore_active [] st st)) = (if ss_activeAlias st \<in> set (aliases st)
      then ss_activeAlias st else case aliases st of n # _ \<Rightarrow> n | [] \<Rightarrow> [])"
    using assms
    by (cases "ss_servers st") (auto simp: record_active_def restore_active_def reg_ok_def aliases_def Let_def)
  then show ?thesis
    unfolding shown_ok_def repair_parts by (cases "ss_servers st") (auto simp: aliases_def)
qed

lemma reg_ok_result: "call_ok e \<Longrightarrow> reg_ok (cr_now r) \<Longrightarrow> reg_ok (call_result lc dp e r)"
  by (cases e) (simp_all add: call_result_def Let_def reg_ok_sel_step reg_ok_call reg_ok_repair)

interpretation calls: guarded_machine "call_step lc dp" call_ok "\<lambda>r. reg_ok (cr_now r)"
  for lc :: "string \<Rightarrow> string \<Rightarrow> int" and dp :: "string \<Rightarrow> string"
  by unfold_locales (simp add: call_step_def reg_ok_result)

lemma reg_ok_run:
  assumes "list_all call_ok es"
  shows "reg_ok (cr_now (fold (call_step lc dp) es (first_run (initial_state ws ready))))"
  by (rule calls.run_ok [OF assms])
    (use sel_ok_initial in \<open>simp add: first_run_def sel_ok_parts\<close>)

text \<open>A call from the page that is shown keeps the active server listed.\<close>

lemma sel_ok_result: "call_ok (Act e) \<Longrightarrow> sel_ok (cr_now r) \<Longrightarrow> sel_ok (call_result lc dp (Act e) r)"
  by (simp add: call_result_def sel_ok_step)

lemma sel_ok_acts:
  "list_all call_ok es \<Longrightarrow> list_all (\<lambda>e. case e of Act _ \<Rightarrow> True | _ \<Rightarrow> False) es \<Longrightarrow> sel_ok (cr_now r)
   \<Longrightarrow> sel_ok (cr_now (fold (call_step lc dp) es r))"
proof (induction es arbitrary: r)
  case (Cons e es)
  then obtain e' where "e = Act e'"
    by (cases e) simp_all
  with Cons show ?case
    using sel_ok_result [of e' r] by (simp add: call_step_def)
qed simp

text \<open>
  C1: whatever the user does (adding, renaming, editing, removing one or several, cleaning up, ordering and choosing
  servers, toggling roles, reading an inventory) and whichever earlier rendering a late callback holds, no two servers
  have the same alias, no alias is empty, and every per-server record has one entry per alias, at every moment of the
  run. A late call may leave the active alias without a server (that is what removing several servers does), but only
  until the effects run: right after them, and after any calls from the page shown that follow them, the active
  alias is that of a server whenever there is one. An inventory read must not name an alias twice up to white space,
  servers are only added from the page shown, and the address of the page no longer waits for a server.
\<close>

theorem servers_stay_sound:
  assumes "list_all call_ok (es @ acts)" "list_all (\<lambda>e. case e of Act _ \<Rightarrow> True | _ \<Rightarrow> False) acts"
  shows "let r = fold (call_step lc dp) es (first_run (initial_state ws ready)) in
    reg_ok (cr_now r) \<and> sel_ok (cr_now (fold (call_step lc dp) (Repair [] # acts) r))"
proof -
  define r where "r = fold (call_step lc dp) es (first_run (initial_state ws ready))"
  have reg: "reg_ok (cr_now r)"
    using assms(1) reg_ok_run unfolding r_def by simp
  then have "sel_ok (cr_now (call_step lc dp (Repair []) r))"
    by (simp add: call_step_def call_result_def Let_def sel_ok_parts reg_ok_repair repair_shown)
  then have "sel_ok (cr_now (fold (call_step lc dp) (Repair [] # acts) r))"
    using assms by (simp add: sel_ok_acts)
  with reg show ?thesis
    unfolding r_def [symmetric] Let_def by simp
qed

text \<open>Two servers removed by one confirmed dialog: both calls hold the rendering in which the first was active.\<close>

definition removal_calls :: "call_event list" where
  "removal_calls =
     [Act (Add (\<lambda>i. 0) (\<lambda>i. 0) ''web''), Act (Add (\<lambda>i. 0) (\<lambda>i. 0) ''db''), Act (Add (\<lambda>i. 0) (\<lambda>i. 0) ''mail''),
      Choose ''web'', Act Render, Late 4 (Remove ''web''), Late 4 (Remove ''db'')]"

theorem servers_stay_sound_witness:
  "let r = fold (call_step cu_cmp (\<lambda>_. ''community'')) removal_calls (first_run (initial_state (Some ''w1'') True)) in
    reg_ok (cr_now r) \<and> sel_ok (cr_now (fold (call_step cu_cmp (\<lambda>_. ''community'')) (Repair [] # [Act (Update ''mail'' empty_patch)]) r))"
  by (rule servers_stay_sound) code_simp+

end
