(* ===== verification/WorkspacePage.thy ===== *)
theory WorkspacePage
  imports DashboardQuery DeployRuntime DomainState ServerActions SelectionStorage WorkspaceList
begin

text \<open>
  The page of the deployment workspace as a whole (\<open>DeploymentWorkspaceContainer.tsx\<close>,
  \<open>useDeploymentWorkspaceEffects.ts\<close>, \<open>DeploymentWorkspaceTemplate.tsx\<close>) with the session of its user
  (\<open>panels/AccountPanel.tsx\<close>): the open panel, the mode and the active device in the address, what is started afresh
  when another workspace is opened, and the effects that run after a rendering. The state of the runtime, which holds the
  selection, and the state of the domains are parts of the page's state.
\<close>

subsection \<open>Panels\<close>

definition PANELS :: "string list" where
  "PANELS = [''intro'', ''store'', ''domain'', ''server'', ''users'', ''inventory'', ''order'', ''deploy'', ''account'']"

definition PANEL_QUERY_TO_KEY :: "(string \<times> string) list" where
  "PANEL_QUERY_TO_KEY =
     [(''intro'', ''intro''), (''software'', ''store''), (''domain'', ''domain''), (''hardware'', ''server''), (''device'', ''server''),
      (''inventory'', ''inventory''), (''users'', ''users''), (''rbac'', ''account''), (''audit'', ''account''), (''order'', ''order''),
      (''setup'', ''deploy''), (''deploy'', ''deploy''), (''account'', ''account''), (''settings'', ''account''), (''billing'', ''account'')]"

definition PANEL_KEY_TO_QUERY :: "(string \<times> string) list" where
  "PANEL_KEY_TO_QUERY =
     [(''intro'', ''intro''), (''store'', ''software''), (''domain'', ''domain''), (''server'', ''hardware''), (''inventory'', ''inventory''),
      (''users'', ''users''), (''order'', ''order''), (''deploy'', ''deploy''), (''account'', ''settings'')]"

text \<open>\<open>panel_query\<close> is the text an assignment to a parameter of the address makes of the entry.\<close>

definition panel_query :: "string \<Rightarrow> string" where
  "panel_query panel = (case map_of PANEL_KEY_TO_QUERY panel of Some q \<Rightarrow> q | None \<Rightarrow> ''undefined'')"

text \<open>
  The panel an address asks for. The lookup of the source also finds the names \<open>constructor\<close> and \<open>__proto__\<close>, which
  every object has; for these the server cannot render the page, and they are left out here.
\<close>

definition panel_of :: "(string \<times> string) list \<Rightarrow> string option" where
  "panel_of ps = (let v = tidy_param ''ui_panel'' ps in if v = [] then None else map_of PANEL_QUERY_TO_KEY v)"

definition resolveInitialPanel :: "(string \<times> string) list \<Rightarrow> string option" where
  "resolveInitialPanel ps = panel_of ps"

subsection \<open>State\<close>

datatype device_mode = Customer_mode | Expert_mode

fun mode_str :: "device_mode \<Rightarrow> string" where
  "mode_str Customer_mode = ''customer''"
| "mode_str Expert_mode = ''expert''"

datatype AccountTabKey = Tab_general | Tab_billing | Tab_rbac | Tab_audit

record auth_form =
  af_userId :: string
  af_email :: string
  af_password :: string
  af_passwordConfirm :: string

record account_view =
  av_userId :: "string option"
  av_authOpen :: bool
  av_register :: bool
  av_authError :: "string option"
  av_pendingTab :: "AccountTabKey option"
  av_form :: auth_form

record page =
  pg_run :: run_state
  pg_domains :: domain_state
  pg_domainQuery :: string
  pg_domainKind :: "DomainKind option"
  pg_roles :: "Role list"
  pg_rolesLoading :: bool
  pg_rolesError :: "string option"
  pg_initialRoles :: bool
  pg_mode :: device_mode
  pg_tab :: AccountTabKey
  pg_pending :: string
  pg_queryReady :: bool
  pg_rolePicker :: bool
  pg_detailOpen :: bool
  pg_detailAlias :: "string option"
  pg_expertConfirm :: bool
  pg_connected :: bool
  pg_canceling :: bool
  pg_user :: "string option"
  pg_account :: account_view
  pg_params :: "(string \<times> string) list"
  pg_local :: "(string \<times> string) list"
  pg_storage :: storage

abbreviation pg_sel :: "page \<Rightarrow> selection_state" where
  "pg_sel p \<equiv> rn_sel (pg_run p)"

abbreviation pg_panel :: "page \<Rightarrow> string" where
  "pg_panel p \<equiv> rn_panel (pg_run p)"

abbreviation pg_active :: "page \<Rightarrow> string" where
  "pg_active p \<equiv> ss_activeAlias (rn_sel (pg_run p))"

abbreviation pg_workspace :: "page \<Rightarrow> string option" where
  "pg_workspace p \<equiv> ss_workspaceId (rn_sel (pg_run p))"

definition on_sel :: "(selection_state \<Rightarrow> selection_state) \<Rightarrow> page \<Rightarrow> page" where
  "on_sel g p = p\<lparr>pg_run := (pg_run p)\<lparr>rn_sel := g (pg_sel p)\<rparr>\<rparr>"

definition setActivePanel :: "string \<Rightarrow> page \<Rightarrow> page" where
  "setActivePanel panel p = p\<lparr>pg_run := (pg_run p)\<lparr>rn_panel := panel\<rparr>\<rparr>"

definition on_account :: "(account_view \<Rightarrow> account_view) \<Rightarrow> page \<Rightarrow> page" where
  "on_account g p = p\<lparr>pg_account := g (pg_account p)\<rparr>"

subsection \<open>The session of the user\<close>

definition id_char :: "char \<Rightarrow> bool" where
  "id_char c \<longleftrightarrow> c \<in> set ''abcdefghijklmnopqrstuvwxyz0123456789._-''"

definition normalizeUserId :: "string \<Rightarrow> string" where
  "normalizeUserId v = filter id_char (to_lower (trim v))"

definition nonempty_id :: "string \<Rightarrow> string option" where
  "nonempty_id v = (if v = [] then None else Some v)"

text \<open>The id in the storage, as the settings panel and as the bar at the foot of the page read it.\<close>

definition readUserId :: "page \<Rightarrow> string option" where
  "readUserId p = nonempty_id (normalizeUserId (opt_list (map_of (pg_local p) USER_STORAGE_KEY)))"

definition readUserIdFromStorage :: "page \<Rightarrow> string option" where
  "readUserIdFromStorage p = nonempty_id (to_lower (trim (opt_list (map_of (pg_local p) USER_STORAGE_KEY))))"

text \<open>What both do at a change of the session, in this window or in another one.\<close>

definition session_updated :: "page \<Rightarrow> page" where
  "session_updated p = (on_account (\<lambda>a. a\<lparr>av_userId := readUserId p\<rparr>) p)\<lparr>pg_user := readUserIdFromStorage p\<rparr>"

definition openAuth :: "bool \<Rightarrow> AccountTabKey option \<Rightarrow> page \<Rightarrow> page" where
  "openAuth register pendingTab p = on_account (\<lambda>a. a\<lparr>av_register := register, av_authError := None, av_authOpen := True,
     av_pendingTab := pendingTab,
     av_form := (av_form a)\<lparr>af_userId := (if af_userId (av_form a) \<noteq> [] then af_userId (av_form a) else opt_list (av_userId a))\<rparr>\<rparr>) p"

definition closeAuth :: "page \<Rightarrow> page" where
  "closeAuth p = on_account (\<lambda>a. a\<lparr>av_authOpen := False, av_authError := None, av_pendingTab := None\<rparr>) p"

definition auth_failed :: "string \<Rightarrow> page \<Rightarrow> page" where
  "auth_failed message p = on_account (\<lambda>a. a\<lparr>av_authError := Some message\<rparr>) p"

text \<open>The end of both forms: the id is stored and the tab that asked for the session is opened.\<close>

definition session_begun :: "string \<Rightarrow> page \<Rightarrow> page" where
  "session_begun user p =
     (let p1 = session_updated (p\<lparr>pg_local := AList.update USER_STORAGE_KEY user (pg_local p)\<rparr>)
      in case av_pendingTab (pg_account p) of
           None \<Rightarrow> on_account (\<lambda>a. a\<lparr>av_authOpen := False\<rparr>) p1
         | Some tab \<Rightarrow> (on_account (\<lambda>a. a\<lparr>av_authOpen := False, av_pendingTab := None\<rparr>) p1)\<lparr>pg_tab := tab\<rparr>)"

definition submitLogin :: "page \<Rightarrow> page" where
  "submitLogin p =
     (let normalized = normalizeUserId (af_userId (av_form (pg_account p)))
      in if normalized = [] then auth_failed ''Please enter a user id.'' p else session_begun normalized p)"

definition submitRegister :: "page \<Rightarrow> page" where
  "submitRegister p =
     (let form = av_form (pg_account p); normalized = normalizeUserId (af_userId form)
      in if normalized = [] then auth_failed ''Please choose a user id.'' p
         else if af_password form \<noteq> [] \<and> af_password form \<noteq> af_passwordConfirm form
         then auth_failed ''Password confirmation does not match.'' p
         else session_begun normalized p)"

definition submit_auth :: "page \<Rightarrow> page" where
  "submit_auth p =
     (let p1 = on_account (\<lambda>a. a\<lparr>av_authError := None\<rparr>) p
      in if av_register (pg_account p) then submitRegister p1 else submitLogin p1)"

definition logout_account :: "page \<Rightarrow> page" where
  "logout_account p =
     (on_account (\<lambda>a. a\<lparr>av_pendingTab := None\<rparr>) (session_updated (p\<lparr>pg_local := AList.delete USER_STORAGE_KEY (pg_local p)\<rparr>)))
       \<lparr>pg_tab := Tab_general\<rparr>"

definition protected_tab :: "AccountTabKey \<Rightarrow> bool" where
  "protected_tab tab \<longleftrightarrow> tab = Tab_billing \<or> tab = Tab_rbac \<or> tab = Tab_audit"

definition handleTabSelect :: "AccountTabKey \<Rightarrow> page \<Rightarrow> page" where
  "handleTabSelect tab p =
     (if protected_tab tab \<and> av_userId (pg_account p) = None then openAuth False (Some tab) p else p\<lparr>pg_tab := tab\<rparr>)"

definition effectiveTab :: "page \<Rightarrow> AccountTabKey" where
  "effectiveTab p = (if protected_tab (pg_tab p) \<and> av_userId (pg_account p) = None then Tab_general else pg_tab p)"

definition tabItems :: "page \<Rightarrow> AccountTabKey list" where
  "tabItems p = [Tab_general, Tab_billing] @ (if av_userId (pg_account p) \<noteq> None then [Tab_rbac, Tab_audit] else [])"

text \<open>The button at the foot of the page: it signs out, or it asks the settings panel for its dialog.\<close>

definition onOpenAuth :: "page \<Rightarrow> page" where
  "onOpenAuth p =
     (if readUserId p \<noteq> None then p
      else on_account (\<lambda>a. a\<lparr>av_register := False, av_authError := None, av_authOpen := True, av_pendingTab := None\<rparr>) p)"

definition onAuthClick :: "page \<Rightarrow> page" where
  "onAuthClick p =
     (if pg_user p \<noteq> None
      then (session_updated (p\<lparr>pg_local := AList.delete USER_STORAGE_KEY (pg_local p)\<rparr>))\<lparr>pg_user := None\<rparr>
      else onOpenAuth p)"

subsection \<open>Tabs\<close>

definition visiblePanels :: "page \<Rightarrow> string list" where
  "visiblePanels p = filter (\<lambda>panel.
     \<not> (panel = ''account'' \<and> pg_user p = None)
     \<and> \<not> ((panel = ''inventory'' \<or> panel = ''deploy'') \<and> pg_mode p \<noteq> Expert_mode)
     \<and> \<not> (panel = ''order'' \<and> pg_mode p = Expert_mode)) PANELS"

fun index_in :: "string \<Rightarrow> string list \<Rightarrow> nat option" where
  "index_in x [] = None"
| "index_in x (y # ys) = (if y = x then Some 0 else map_option Suc (index_in x ys))"

text \<open>The buttons \<open>Back\<close> and \<open>Next\<close>: the panel they lead to, if they are enabled.\<close>

definition previous_panel :: "page \<Rightarrow> string option" where
  "previous_panel p = (case index_in (pg_panel p) (visiblePanels p) of
     Some (Suc i) \<Rightarrow> Some (visiblePanels p ! i) | _ \<Rightarrow> None)"

definition next_panel :: "page \<Rightarrow> string option" where
  "next_panel p = (case index_in (pg_panel p) (visiblePanels p) of
     Some i \<Rightarrow> if Suc i < length (visiblePanels p) then Some (visiblePanels p ! Suc i) else None | None \<Rightarrow> None)"

subsection \<open>Mode and overlays\<close>

definition handleModeChange :: "device_mode \<Rightarrow> page \<Rightarrow> page" where
  "handleModeChange mode p =
     (if mode = pg_mode p then p
      else if mode = Expert_mode then p\<lparr>pg_expertConfirm := True\<rparr>
      else p\<lparr>pg_expertConfirm := False, pg_mode := Customer_mode\<rparr>)"

definition confirmExpertMode :: "page \<Rightarrow> page" where
  "confirmExpertMode p = p\<lparr>pg_expertConfirm := False, pg_mode := Expert_mode\<rparr>"

definition openDetailSearch :: "string \<Rightarrow> page \<Rightarrow> page" where
  "openDetailSearch alias p = p\<lparr>pg_detailAlias := nonempty_id (trim alias), pg_detailOpen := True\<rparr>"

definition closeDetailSearch :: "page \<Rightarrow> page" where
  "closeDetailSearch p = p\<lparr>pg_detailOpen := False, pg_detailAlias := None\<rparr>"

definition on_domains :: "(domain_state \<Rightarrow> domain_state) \<Rightarrow> page \<Rightarrow> page" where
  "on_domains g p = p\<lparr>pg_domains := g (pg_domains p)\<rparr>"

definition handleDomainPopupTypeSelect :: "DomainKind \<Rightarrow> page \<Rightarrow> page" where
  "handleDomainPopupTypeSelect kind p =
     on_domains (\<lambda>d. d\<lparr>ds_popupType := kind, ds_popupError := None, ds_popupCheckResult := None\<rparr>) p"

definition handleDomainPopupFqdnValueChange :: "string \<Rightarrow> page \<Rightarrow> page" where
  "handleDomainPopupFqdnValueChange v p =
     on_domains (\<lambda>d. d\<lparr>ds_popupFqdnValue := v, ds_popupError := None, ds_popupCheckResult := None\<rparr>) p"

text \<open>The Escape key reaches a listener of each overlay that is open.\<close>

definition press_escape :: "page \<Rightarrow> page" where
  "press_escape p =
     (let p1 = (if pg_rolePicker p then p\<lparr>pg_rolePicker := False\<rparr> else p);
          p2 = (if pg_detailOpen p then closeDetailSearch p1 else p1);
          p3 = (if pg_expertConfirm p then p2\<lparr>pg_expertConfirm := False\<rparr> else p2)
      in if ds_popupOpen (pg_domains p) then on_domains closeDomainPopup p3 else p3)"

subsection \<open>Effects\<close>

text \<open>
  As in the dashboard, an effect runs after a rendering when what it depends on has changed, sees the rendered values
  \<open>cap\<close> and changes the state \<open>st\<close>. Those that have nothing to do when nothing has changed are run after every rendering.
  The effects of the settings panel come first, then those of the template and those of the container in their order.
\<close>

definition session_effect :: "page option \<Rightarrow> page \<Rightarrow> page" where
  "session_effect prev st = (if prev = None then session_updated st else st)"

definition guard_tab_effect :: "page \<Rightarrow> page \<Rightarrow> page" where
  "guard_tab_effect cap st =
     (if protected_tab (pg_tab cap) \<and> av_userId (pg_account cap) = None \<and> \<not> av_authOpen (pg_account cap)
      then openAuth False (Some (pg_tab cap)) (st\<lparr>pg_tab := Tab_general\<rparr>) else st)"

definition store_selection_effect :: "page option \<Rightarrow> page \<Rightarrow> page \<Rightarrow> page" where
  "store_selection_effect prev cap st =
     (if changed (\<lambda>p. (pg_workspace p, ss_selected (pg_sel p), ss_plans (pg_sel p))) prev cap
      then st\<lparr>pg_storage := the (useWorkspaceSelectionStorage (pg_workspace cap) (ss_selected (pg_sel cap)) (ss_plans (pg_sel cap))
             (Some (pg_storage st)))\<rparr> else st)"

definition mode_of :: "string \<Rightarrow> device_mode option" where
  "mode_of s = (if s = ''customer'' then Some Customer_mode else if s = ''expert'' then Some Expert_mode else None)"

definition read_address_effect :: "page option \<Rightarrow> page \<Rightarrow> page" where
  "read_address_effect prev st =
     (if prev \<noteq> None then st
      else let ps = pg_params st; panelParam = tidy_param ''ui_panel'' ps; aliasParam = trim (opt_list (usp_get ''ui_device'' ps));
               st1 = (if panelParam = ''billing'' then st\<lparr>pg_tab := Tab_billing\<rparr>
                      else if panelParam = ''rbac'' then st\<lparr>pg_tab := Tab_rbac\<rparr>
                      else if panelParam = ''audit'' then st\<lparr>pg_tab := Tab_audit\<rparr> else st);
               st2 = (case panel_of ps of Some panel \<Rightarrow> setActivePanel panel st1 | None \<Rightarrow> st1);
               st3 = st2\<lparr>pg_mode := given_or (mode_of (tidy_param ''ui_mode'' ps)) (pg_mode st2)\<rparr>
           in st3\<lparr>pg_pending := (if aliasParam = [] then pg_pending st3 else aliasParam), pg_queryReady := True\<rparr>)"

definition load_roles_effect :: "page option \<Rightarrow> page \<Rightarrow> page" where
  "load_roles_effect prev st =
     (if prev \<noteq> None then st
      else st\<lparr>pg_rolesLoading := (\<not> pg_initialRoles st \<or> pg_rolesLoading st), pg_rolesError := None\<rparr>)"

definition restore_active_effect :: "page \<Rightarrow> page \<Rightarrow> page" where
  "restore_active_effect cap st = on_sel (restore_active (pg_pending st) (pg_sel cap)) st"

definition pending_effect :: "page \<Rightarrow> page \<Rightarrow> page" where
  "pending_effect cap st =
     (let wanted = trim (pg_pending st) in
      if wanted = [] \<or> wanted \<notin> set (aliases (pg_sel cap)) then st
      else let st1 = st\<lparr>pg_pending := []\<rparr>
           in if pg_active cap \<noteq> wanted then on_sel (\<lambda>sel. sel\<lparr>ss_activeAlias := wanted\<rparr>) st1 else st1)"

definition record_active_effect :: "page \<Rightarrow> page \<Rightarrow> page" where
  "record_active_effect cap st = on_sel (record_active (pg_sel cap)) st"

text \<open>What is started afresh when another workspace is open.\<close>

definition fresh_selection :: "storage \<Rightarrow> string option \<Rightarrow> selection_state \<Rightarrow> selection_state" where
  "fresh_selection window ws sel = sel
     \<lparr>ss_deployedAliases := [], ss_connectionResults := [], ss_deploySelection := [], ss_deployRoleFilter := [],
      ss_selected := readSelectedByAlias ws (Some window), ss_plans := readSelectedPlansByAlias ws (Some window),
      ss_aliasRenames := [], ss_aliasDeletes := [], ss_aliasCleanups := [], ss_openCredentialsAlias := None\<rparr>"

definition fresh_run :: "storage \<Rightarrow> string option \<Rightarrow> run_state \<Rightarrow> run_state" where
  "fresh_run window ws run = run
     \<lparr>rn_sel := fresh_selection window ws (rn_sel run), rn_liveJobId := [], rn_liveError := None, rn_connectKey := 0, rn_cancelKey := 0\<rparr>"

definition fresh_domains :: "domain_state \<Rightarrow> domain_state" where
  "fresh_domains d = d
     \<lparr>ds_primaryDomainDraft := [], ds_modalError := None, ds_modalSaving := False, ds_popupOpen := False, ds_popupError := None,
      ds_popupType := Fqdn, ds_popupFqdnValue := [], ds_popupCheckBusy := False, ds_popupCheckResult := None,
      ds_popupLocalValue := DEFAULT_PRIMARY_DOMAIN, ds_popupSubLabel := [], ds_popupParentFqdn := [], ds_popupPrompt := None,
      ds_popupTargetAlias := None\<rparr>"

definition reset_effect :: "page option \<Rightarrow> page \<Rightarrow> page \<Rightarrow> page" where
  "reset_effect prev cap st =
     (if changed pg_workspace prev cap
      then st\<lparr>pg_run := fresh_run (pg_storage st) (pg_workspace cap) (pg_run st), pg_domains := fresh_domains (pg_domains st),
              pg_connected := False, pg_canceling := False, pg_expertConfirm := False, pg_detailOpen := False, pg_detailAlias := None,
              pg_domainQuery := [], pg_domainKind := None\<rparr> else st)"

definition mode_key :: "string \<Rightarrow> string" where
  "mode_key ws = ''infinito.devices.mode.'' @ ws"

definition stored_mode :: "string \<Rightarrow> page \<Rightarrow> device_mode option" where
  "stored_mode ws p = mode_of (opt_list (map_of (pg_local p) (mode_key ws)))"

definition read_mode_effect :: "page option \<Rightarrow> page \<Rightarrow> page \<Rightarrow> page" where
  "read_mode_effect prev cap st =
     (if \<not> changed pg_workspace prev cap \<or> no_id (pg_workspace cap) then st
      else case mode_of (tidy_param ''ui_mode'' (pg_params st)) of
             Some mode \<Rightarrow> st\<lparr>pg_mode := mode\<rparr>
           | None \<Rightarrow> st\<lparr>pg_mode := given_or (stored_mode (the (pg_workspace cap)) st) Customer_mode\<rparr>)"

definition store_mode_effect :: "page option \<Rightarrow> page \<Rightarrow> page \<Rightarrow> page" where
  "store_mode_effect prev cap st =
     (if \<not> changed (\<lambda>p. (pg_workspace p, pg_mode p)) prev cap \<or> no_id (pg_workspace cap) then st
      else st\<lparr>pg_local := AList.update (mode_key (the (pg_workspace cap))) (mode_str (pg_mode cap)) (pg_local st)\<rparr>)"

definition usp_delete :: "string \<Rightarrow> (string \<times> string) list \<Rightarrow> (string \<times> string) list" where
  "usp_delete k ps = filter (\<lambda>q. fst q \<noteq> k) ps"

definition page_query :: "page \<Rightarrow> (string \<times> string) list \<Rightarrow> (string \<times> string) list" where
  "page_query cap ps =
     (let ps1 = usp_set ''ui_mode'' (mode_str (pg_mode cap)) (usp_set ''ui_panel'' (panel_query (pg_panel cap)) ps)
      in if pg_active cap \<noteq> [] then usp_set ''ui_device'' (pg_active cap) ps1 else usp_delete ''ui_device'' ps1)"

definition write_address_effect :: "page option \<Rightarrow> page \<Rightarrow> page \<Rightarrow> page" where
  "write_address_effect prev cap st =
     (if changed (\<lambda>p. (pg_panel p, pg_mode p, pg_active p)) prev cap \<and> pg_queryReady st
      then st\<lparr>pg_params := page_query cap (pg_params st)\<rparr> else st)"

definition enabled_panel_effect :: "page \<Rightarrow> page \<Rightarrow> page" where
  "enabled_panel_effect cap st = (if pg_panel cap \<in> set PANELS then st else setActivePanel (hd PANELS) st)"

definition page_effects :: "page option \<Rightarrow> page \<Rightarrow> page" where
  "page_effects prev cap =
     enabled_panel_effect cap (write_address_effect prev cap (store_mode_effect prev cap (read_mode_effect prev cap
       (reset_effect prev cap (record_active_effect cap (pending_effect cap (restore_active_effect cap
         (load_roles_effect prev (read_address_effect prev (store_selection_effect prev cap
           (guard_tab_effect cap (session_effect prev cap))))))))))))"

subsection \<open>The machine\<close>

definition initial_page ::
  "(string \<times> string) list \<Rightarrow> Role list \<Rightarrow> string option \<Rightarrow> (string \<times> string) list \<Rightarrow> storage \<Rightarrow> session_store \<Rightarrow> page" where
  "initial_page ps roles ws local window session =
     \<lparr>pg_run = (initial_run ((initial_state ws False)\<lparr>ss_selected := readSelectedByAlias ws (Some window),
          ss_plans := readSelectedPlansByAlias ws (Some window)\<rparr>) session)\<lparr>rn_panel := given_or (resolveInitialPanel ps) ''store''\<rparr>,
      pg_domains = \<lparr>ds_workspaceId = ws, ds_servers = [], ds_workspacePrimaryDomain = [], ds_primaryDomainDraft = [], ds_modalError = None,
        ds_modalSaving = False, ds_entries = createDefaultDomainEntries, ds_popupOpen = False, ds_popupType = Fqdn, ds_popupFqdnValue = [],
        ds_popupError = None, ds_popupCheckBusy = False, ds_popupCheckResult = None, ds_popupLocalValue = DEFAULT_PRIMARY_DOMAIN,
        ds_popupSubLabel = [], ds_popupParentFqdn = [], ds_popupPrompt = None, ds_popupTargetAlias = None, ds_requests = []\<rparr>,
      pg_domainQuery = [], pg_domainKind = None, pg_roles = roles, pg_rolesLoading = (roles = []), pg_rolesError = None,
      pg_initialRoles = (roles \<noteq> []), pg_mode = Customer_mode, pg_tab = Tab_general, pg_pending = [], pg_queryReady = False,
      pg_rolePicker = False, pg_detailOpen = False, pg_detailAlias = None, pg_expertConfirm = False, pg_connected = False,
      pg_canceling = False, pg_user = None,
      pg_account = \<lparr>av_userId = None, av_authOpen = False, av_register = False, av_authError = None, av_pendingTab = None,
        av_form = \<lparr>af_userId = [], af_email = [], af_password = [], af_passwordConfirm = []\<rparr>\<rparr>,
      pg_params = ps, pg_local = local, pg_storage = window\<rparr>"

text \<open>Three rounds of rendering and effects.\<close>

definition render_page :: "page \<Rightarrow> page \<Rightarrow> page" where
  "render_page prev p =
     (let p1 = page_effects (Some prev) p; p2 = page_effects (Some p) p1 in page_effects (Some p1) p2)"

definition open_page ::
  "(string \<times> string) list \<Rightarrow> Role list \<Rightarrow> string option \<Rightarrow> (string \<times> string) list \<Rightarrow> storage \<Rightarrow> session_store \<Rightarrow> page" where
  "open_page ps roles ws local window session =
     (let p0 = initial_page ps roles ws local window session in render_page p0 (page_effects None p0))"

datatype page_event =
  Press_tab string
| Press_back
| Press_next
| Press_mode
| Confirm_expert
| Cancel_expert
| Press_auth
| Session_elsewhere "string option"
| Select_tab AccountTabKey
| Open_auth bool
| Close_auth
| Auth_mode bool
| Type_user_id string
| Type_email string
| Type_password string
| Type_confirmation string
| Submit_auth
| Sign_out
| Choose_device string
| Open_workspace string
| Close_workspace
| Roles_loaded "string + Role list option"
| Open_role_picker
| Close_role_picker
| Search_details string
| Close_details
| Pick_popup_kind DomainKind
| Type_popup_fqdn string
| Press_escape_key
| Running run_event

definition roles_loaded :: "string + Role list option \<Rightarrow> page \<Rightarrow> page" where
  "roles_loaded res p =
     (let p1 = (case res of
            Inr data \<Rightarrow> p\<lparr>pg_roles := given_or data []\<rparr>
          | Inl message \<Rightarrow> if pg_initialRoles p then p else p\<lparr>pg_rolesError := Some message\<rparr>)
      in if pg_initialRoles p then p1 else p1\<lparr>pg_rolesLoading := False\<rparr>)"

definition open_workspace :: "string option \<Rightarrow> page \<Rightarrow> page" where
  "open_workspace ws p = on_domains (\<lambda>d. d\<lparr>ds_workspaceId := ws\<rparr>) (on_sel (\<lambda>sel. sel\<lparr>ss_workspaceId := ws\<rparr>) p)"

fun page_action :: "(string \<Rightarrow> string \<Rightarrow> int) \<Rightarrow> (string \<Rightarrow> string) \<Rightarrow> page_event \<Rightarrow> page \<Rightarrow> page" where
  "page_action lc dp (Press_tab panel) p = (if panel \<in> set (visiblePanels p) then setActivePanel panel p else p)"
| "page_action lc dp Press_back p = (case previous_panel p of Some panel \<Rightarrow> setActivePanel panel p | None \<Rightarrow> p)"
| "page_action lc dp Press_next p = (case next_panel p of Some panel \<Rightarrow> setActivePanel panel p | None \<Rightarrow> p)"
| "page_action lc dp Press_mode p = handleModeChange (if pg_mode p = Expert_mode then Customer_mode else Expert_mode) p"
| "page_action lc dp Confirm_expert p = (if pg_expertConfirm p then confirmExpertMode p else p)"
| "page_action lc dp Cancel_expert p = p\<lparr>pg_expertConfirm := False\<rparr>"
| "page_action lc dp Press_auth p = onAuthClick p"
| "page_action lc dp (Session_elsewhere v) p =
     session_updated (p\<lparr>pg_local := (case v of Some u \<Rightarrow> AList.update USER_STORAGE_KEY u (pg_local p)
        | None \<Rightarrow> AList.delete USER_STORAGE_KEY (pg_local p))\<rparr>)"
| "page_action lc dp (Select_tab tab) p = (if tab \<in> set (tabItems p) then handleTabSelect tab p else p)"
| "page_action lc dp (Open_auth register) p = (if av_userId (pg_account p) = None then openAuth register None p else p)"
| "page_action lc dp Close_auth p = closeAuth p"
| "page_action lc dp (Auth_mode register) p = on_account (\<lambda>a. a\<lparr>av_register := register, av_authError := None\<rparr>) p"
| "page_action lc dp (Type_user_id v) p = on_account (\<lambda>a. a\<lparr>av_form := (av_form a)\<lparr>af_userId := v\<rparr>\<rparr>) p"
| "page_action lc dp (Type_email v) p = on_account (\<lambda>a. a\<lparr>av_form := (av_form a)\<lparr>af_email := v\<rparr>\<rparr>) p"
| "page_action lc dp (Type_password v) p = on_account (\<lambda>a. a\<lparr>av_form := (av_form a)\<lparr>af_password := v\<rparr>\<rparr>) p"
| "page_action lc dp (Type_confirmation v) p = on_account (\<lambda>a. a\<lparr>av_form := (av_form a)\<lparr>af_passwordConfirm := v\<rparr>\<rparr>) p"
| "page_action lc dp Submit_auth p = (if av_authOpen (pg_account p) then submit_auth p else p)"
| "page_action lc dp Sign_out p = (if av_userId (pg_account p) \<noteq> None then logout_account p else p)"
| "page_action lc dp (Choose_device alias) p =
     (if alias \<in> set (aliases (pg_sel p)) then on_sel (\<lambda>sel. sel\<lparr>ss_activeAlias := alias\<rparr>) p else p)"
| "page_action lc dp (Open_workspace ws) p = open_workspace (Some ws) p"
| "page_action lc dp Close_workspace p = open_workspace None p"
| "page_action lc dp (Roles_loaded res) p = roles_loaded res p"
| "page_action lc dp Open_role_picker p = p\<lparr>pg_rolePicker := True\<rparr>"
| "page_action lc dp Close_role_picker p = p\<lparr>pg_rolePicker := False\<rparr>"
| "page_action lc dp (Search_details alias) p = openDetailSearch alias p"
| "page_action lc dp Close_details p = closeDetailSearch p"
| "page_action lc dp (Pick_popup_kind kind) p = handleDomainPopupTypeSelect kind p"
| "page_action lc dp (Type_popup_fqdn v) p = handleDomainPopupFqdnValueChange v p"
| "page_action lc dp Press_escape_key p = press_escape p"
| "page_action lc dp (Running e) p = p\<lparr>pg_run := run_step lc dp e (pg_run p)\<rparr>"

definition page_step :: "(string \<Rightarrow> string \<Rightarrow> int) \<Rightarrow> (string \<Rightarrow> string) \<Rightarrow> page_event \<Rightarrow> page \<Rightarrow> page" where
  "page_step lc dp e p = render_page p (page_action lc dp e p)"

subsection \<open>What one round of effects does\<close>

lemma usp_get_delete [simp]: "usp_get k (usp_delete k' ps) = (if k = k' then None else usp_get k ps)"
proof -
  have "map_of (filter (\<lambda>q. fst q \<noteq> k') ps) k = (if k = k' then None else map_of ps k)"
    by (induction ps) auto
  then show ?thesis
    by (simp add: usp_get_def usp_delete_def)
qed

lemmas page_parts = on_sel_def on_account_def on_domains_def setActivePanel_def Let_def

lemmas effect_defs = page_effects_def session_effect_def guard_tab_effect_def store_selection_effect_def read_address_effect_def
  load_roles_effect_def restore_active_effect_def pending_effect_def record_active_effect_def reset_effect_def read_mode_effect_def
  store_mode_effect_def write_address_effect_def enabled_panel_effect_def fresh_run_def fresh_selection_def openAuth_def
  session_updated_def page_parts

lemma aliases_effects [simp]:
  "aliases (restore_active wanted cap st) = aliases st" "aliases (record_active cap st) = aliases st"
  "ss_activeAlias (record_active cap st) = ss_activeAlias st"
  "ss_workspaceId (restore_active wanted cap st) = ss_workspaceId st" "ss_workspaceId (record_active cap st) = ss_workspaceId st"
  "aliases (st\<lparr>ss_activeAlias := a\<rparr>) = aliases st"
  by (auto simp: restore_active_def record_active_def aliases_def Let_def split: list.splits)

lemma fresh_keeps [simp]:
  "aliases (fresh_selection window ws sel) = aliases sel" "ss_activeAlias (fresh_selection window ws sel) = ss_activeAlias sel"
  "ss_workspaceId (fresh_selection window ws sel) = ss_workspaceId sel"
  by (simp_all add: fresh_selection_def aliases_def)

lemma selection_frames [simp]:
  "pg_run (session_effect prev st) = pg_run st" "pg_run (guard_tab_effect cap st) = pg_run st"
  "pg_run (store_selection_effect prev cap st) = pg_run st" "pg_run (load_roles_effect prev st) = pg_run st"
  "pg_run (read_mode_effect prev cap st) = pg_run st" "pg_run (store_mode_effect prev cap st) = pg_run st"
  "pg_run (write_address_effect prev cap st) = pg_run st"
  by (simp_all add: session_effect_def guard_tab_effect_def store_selection_effect_def load_roles_effect_def read_mode_effect_def
      store_mode_effect_def write_address_effect_def openAuth_def session_updated_def page_parts split: option.split)

lemma panel_frames [simp]:
  "rn_panel (pg_run (restore_active_effect cap st)) = rn_panel (pg_run st)" "rn_panel (pg_run (pending_effect cap st)) = rn_panel (pg_run st)"
  "rn_panel (pg_run (record_active_effect cap st)) = rn_panel (pg_run st)" "rn_panel (pg_run (reset_effect prev cap st)) = rn_panel (pg_run st)"
  by (simp_all add: restore_active_effect_def pending_effect_def record_active_effect_def reset_effect_def fresh_run_def page_parts)

lemma read_address_later [simp]: "read_address_effect (Some q) st = st"
  by (simp add: read_address_effect_def)

lemma device_frames [simp]:
  "pg_active (record_active_effect cap st) = pg_active st" "pg_active (reset_effect prev cap st) = pg_active st"
  "pg_active (enabled_panel_effect cap st) = pg_active st"
  "aliases (pg_sel (restore_active_effect cap st)) = aliases (pg_sel st)" "aliases (pg_sel (pending_effect cap st)) = aliases (pg_sel st)"
  "aliases (pg_sel (record_active_effect cap st)) = aliases (pg_sel st)" "aliases (pg_sel (reset_effect prev cap st)) = aliases (pg_sel st)"
  "aliases (pg_sel (enabled_panel_effect cap st)) = aliases (pg_sel st)"
  "pg_workspace (restore_active_effect cap st) = pg_workspace st" "pg_workspace (pending_effect cap st) = pg_workspace st"
  "pg_workspace (record_active_effect cap st) = pg_workspace st" "pg_workspace (reset_effect prev cap st) = pg_workspace st"
  "pg_workspace (enabled_panel_effect cap st) = pg_workspace st"
  by (simp_all add: restore_active_effect_def pending_effect_def record_active_effect_def reset_effect_def enabled_panel_effect_def
      fresh_run_def page_parts)

lemma pending_frames [simp]:
  "pg_pending (session_effect prev st) = pg_pending st" "pg_pending (guard_tab_effect cap st) = pg_pending st"
  "pg_pending (store_selection_effect prev cap st) = pg_pending st" "pg_pending (load_roles_effect prev st) = pg_pending st"
  "pg_pending (restore_active_effect cap st) = pg_pending st" "pg_pending (record_active_effect cap st) = pg_pending st"
  "pg_pending (reset_effect prev cap st) = pg_pending st" "pg_pending (read_mode_effect prev cap st) = pg_pending st"
  "pg_pending (store_mode_effect prev cap st) = pg_pending st" "pg_pending (write_address_effect prev cap st) = pg_pending st"
  "pg_pending (enabled_panel_effect cap st) = pg_pending st"
  by (simp_all add: effect_defs split: option.split)

text \<open>The active device and the device the address still asks for, after a round.\<close>

definition next_device :: "string list \<Rightarrow> string \<times> string \<Rightarrow> string \<times> string" where
  "next_device names = (\<lambda>(active, pending).
     if trim pending \<noteq> [] \<and> trim pending \<in> set names then (trim pending, [])
     else if active = [] \<and> names \<noteq> [] then (hd names, pending)
     else if active \<noteq> [] \<and> active \<notin> set names \<and> pending = [] then (case names of n # _ \<Rightarrow> n | [] \<Rightarrow> [], pending)
     else (active, pending))"

lemma next_device_idem: "next_device names (next_device names d) = next_device names d"
  by (cases d; cases names) (auto simp: next_device_def trim_def trim_start_def trim_end_def)

abbreviation pg_device :: "page \<Rightarrow> string \<times> string" where
  "pg_device p \<equiv> (pg_active p, pg_pending p)"

lemma round_device:
  "pg_device (page_effects (Some q) cap) = next_device (aliases (pg_sel cap)) (pg_device cap)"
  "aliases (pg_sel (page_effects (Some q) cap)) = aliases (pg_sel cap)"
  "pg_workspace (page_effects (Some q) cap) = pg_workspace cap"
proof -
  show "aliases (pg_sel (page_effects (Some q) cap)) = aliases (pg_sel cap)" "pg_workspace (page_effects (Some q) cap) = pg_workspace cap"
    by (simp_all add: page_effects_def)
  show "pg_device (page_effects (Some q) cap) = next_device (aliases (pg_sel cap)) (pg_device cap)"
    by (auto simp: page_effects_def pending_effect_def restore_active_effect_def restore_active_def next_device_def page_parts aliases_def
        split: list.split)
qed

lemma round_panel:
  "pg_panel (page_effects (Some q) cap) = (if pg_panel cap \<in> set PANELS then pg_panel cap else hd PANELS)"
  by (simp add: page_effects_def enabled_panel_effect_def page_parts)

lemma params_frames [simp]:
  "pg_params (session_effect prev st) = pg_params st" "pg_params (guard_tab_effect cap st) = pg_params st"
  "pg_params (store_selection_effect prev cap st) = pg_params st" "pg_params (load_roles_effect prev st) = pg_params st"
  "pg_params (restore_active_effect cap st) = pg_params st" "pg_params (pending_effect cap st) = pg_params st"
  "pg_params (record_active_effect cap st) = pg_params st" "pg_params (reset_effect prev cap st) = pg_params st"
  "pg_params (read_mode_effect prev cap st) = pg_params st" "pg_params (store_mode_effect prev cap st) = pg_params st"
  "pg_params (enabled_panel_effect cap st) = pg_params st"
  by (simp_all add: effect_defs split: option.split)

lemma ready_frames [simp]:
  "pg_queryReady (session_effect prev st) = pg_queryReady st" "pg_queryReady (guard_tab_effect cap st) = pg_queryReady st"
  "pg_queryReady (store_selection_effect prev cap st) = pg_queryReady st" "pg_queryReady (load_roles_effect prev st) = pg_queryReady st"
  "pg_queryReady (restore_active_effect cap st) = pg_queryReady st" "pg_queryReady (pending_effect cap st) = pg_queryReady st"
  "pg_queryReady (record_active_effect cap st) = pg_queryReady st" "pg_queryReady (reset_effect prev cap st) = pg_queryReady st"
  "pg_queryReady (read_mode_effect prev cap st) = pg_queryReady st" "pg_queryReady (store_mode_effect prev cap st) = pg_queryReady st"
  "pg_queryReady (write_address_effect prev cap st) = pg_queryReady st" "pg_queryReady (enabled_panel_effect cap st) = pg_queryReady st"
  by (simp_all add: effect_defs split: option.split)

lemma mode_frames [simp]:
  "pg_mode (session_effect prev st) = pg_mode st" "pg_mode (guard_tab_effect cap st) = pg_mode st"
  "pg_mode (store_selection_effect prev cap st) = pg_mode st" "pg_mode (load_roles_effect prev st) = pg_mode st"
  "pg_mode (restore_active_effect cap st) = pg_mode st" "pg_mode (pending_effect cap st) = pg_mode st"
  "pg_mode (record_active_effect cap st) = pg_mode st" "pg_mode (reset_effect prev cap st) = pg_mode st"
  "pg_mode (store_mode_effect prev cap st) = pg_mode st" "pg_mode (write_address_effect prev cap st) = pg_mode st"
  "pg_mode (enabled_panel_effect cap st) = pg_mode st"
  by (simp_all add: effect_defs split: option.split)

lemma local_frames [simp]:
  "pg_local (session_effect prev st) = pg_local st" "pg_local (guard_tab_effect cap st) = pg_local st"
  "pg_local (store_selection_effect prev cap st) = pg_local st" "pg_local (load_roles_effect prev st) = pg_local st"
  "pg_local (restore_active_effect cap st) = pg_local st" "pg_local (pending_effect cap st) = pg_local st"
  "pg_local (record_active_effect cap st) = pg_local st" "pg_local (reset_effect prev cap st) = pg_local st"
  "pg_local (read_mode_effect prev cap st) = pg_local st" "pg_local (write_address_effect prev cap st) = pg_local st"
  "pg_local (enabled_panel_effect cap st) = pg_local st"
  by (simp_all add: effect_defs split: option.split)

lemma user_frames [simp]:
  "pg_user (guard_tab_effect cap st) = pg_user st" "pg_user (store_selection_effect prev cap st) = pg_user st"
  "pg_user (load_roles_effect prev st) = pg_user st" "pg_user (restore_active_effect cap st) = pg_user st"
  "pg_user (pending_effect cap st) = pg_user st" "pg_user (record_active_effect cap st) = pg_user st"
  "pg_user (reset_effect prev cap st) = pg_user st" "pg_user (read_mode_effect prev cap st) = pg_user st"
  "pg_user (store_mode_effect prev cap st) = pg_user st" "pg_user (write_address_effect prev cap st) = pg_user st"
  "pg_user (enabled_panel_effect cap st) = pg_user st"
  by (simp_all add: effect_defs split: option.split)

lemma tab_frames [simp]:
  "pg_tab (session_effect prev st) = pg_tab st" "pg_tab (store_selection_effect prev cap st) = pg_tab st"
  "pg_tab (load_roles_effect prev st) = pg_tab st" "pg_tab (restore_active_effect cap st) = pg_tab st"
  "pg_tab (pending_effect cap st) = pg_tab st" "pg_tab (record_active_effect cap st) = pg_tab st"
  "pg_tab (reset_effect prev cap st) = pg_tab st" "pg_tab (read_mode_effect prev cap st) = pg_tab st"
  "pg_tab (store_mode_effect prev cap st) = pg_tab st" "pg_tab (write_address_effect prev cap st) = pg_tab st"
  "pg_tab (enabled_panel_effect cap st) = pg_tab st"
  by (simp_all add: effect_defs split: option.split)

lemma account_frames [simp]:
  "pg_account (store_selection_effect prev cap st) = pg_account st" "pg_account (load_roles_effect prev st) = pg_account st"
  "pg_account (restore_active_effect cap st) = pg_account st" "pg_account (pending_effect cap st) = pg_account st"
  "pg_account (record_active_effect cap st) = pg_account st" "pg_account (reset_effect prev cap st) = pg_account st"
  "pg_account (read_mode_effect prev cap st) = pg_account st" "pg_account (store_mode_effect prev cap st) = pg_account st"
  "pg_account (write_address_effect prev cap st) = pg_account st" "pg_account (enabled_panel_effect cap st) = pg_account st"
  by (simp_all add: effect_defs split: option.split)

lemma session_later [simp]: "session_effect (Some q) st = st"
  by (simp add: session_effect_def)

definition view_of :: "page \<Rightarrow> string \<times> device_mode \<times> string" where
  "view_of p = (pg_panel p, pg_mode p, pg_active p)"

lemma round_params:
  "pg_params (page_effects (Some q) cap) =
     (if view_of q = view_of cap \<or> \<not> pg_queryReady cap then pg_params cap else page_query cap (pg_params cap))"
  by (simp add: page_effects_def write_address_effect_def changed_def view_of_def del: prod.inject)

lemma round_ready: "pg_queryReady (page_effects (Some q) cap) = pg_queryReady cap"
  by (simp add: page_effects_def)

lemma round_mode:
  "pg_mode (page_effects (Some q) cap) =
     (if pg_workspace q = pg_workspace cap \<or> no_id (pg_workspace cap) then pg_mode cap
      else given_or (mode_of (tidy_param ''ui_mode'' (pg_params cap)))
             (given_or (stored_mode (the (pg_workspace cap)) cap) Customer_mode))"
  by (simp add: page_effects_def read_mode_effect_def changed_def stored_mode_def given_or_def split: option.split)

lemma round_local:
  "pg_local (page_effects (Some q) cap) =
     (if (pg_workspace q, pg_mode q) = (pg_workspace cap, pg_mode cap) \<or> no_id (pg_workspace cap) then pg_local cap
      else AList.update (mode_key (the (pg_workspace cap))) (mode_str (pg_mode cap)) (pg_local cap))"
  by (simp add: page_effects_def store_mode_effect_def changed_def del: prod.inject)

lemma round_session:
  "pg_user (page_effects (Some q) cap) = pg_user cap"
  "pg_tab (page_effects (Some q) cap) = pg_tab (guard_tab_effect cap cap)"
  "pg_account (page_effects (Some q) cap) = pg_account (guard_tab_effect cap cap)"
  by (simp_all add: page_effects_def)

subsection \<open>The address\<close>

definition shows_page :: "page \<Rightarrow> (string \<times> string) list \<Rightarrow> bool" where
  "shows_page p ps \<longleftrightarrow> usp_get ''ui_panel'' ps = Some (panel_query (pg_panel p)) \<and> usp_get ''ui_mode'' ps = Some (mode_str (pg_mode p))
     \<and> usp_get ''ui_device'' ps = nonempty_id (pg_active p)"

lemma shows_page_cong: "view_of p = view_of q \<Longrightarrow> shows_page p ps \<longleftrightarrow> shows_page q ps"
  by (simp add: shows_page_def view_of_def)

lemma shows_query [simp]: "shows_page cap (page_query cap ps)"
  by (simp add: shows_page_def page_query_def nonempty_id_def Let_def)

lemma query_other: "k \<notin> {''ui_panel'', ''ui_mode'', ''ui_device''} \<Longrightarrow> usp_get k (page_query cap ps) = usp_get k ps"
  by (simp add: page_query_def Let_def)

lemma round_shows:
  assumes "shows_page q (pg_params cap)" "pg_queryReady cap"
  shows "shows_page cap (pg_params (page_effects (Some q) cap))"
  using assms shows_page_cong [of q cap] by (auto simp: round_params)

lemma round_other:
  "k \<notin> {''ui_panel'', ''ui_mode'', ''ui_device''} \<Longrightarrow> usp_get k (pg_params (page_effects (Some q) cap)) = usp_get k (pg_params cap)"
  by (simp add: round_params query_other)

lemma mode_of_str [simp]: "mode_of (mode_str m) = Some m"
  by (cases m) (simp_all add: mode_of_def)

lemma tidy_mode [simp]: "shows_page p ps \<Longrightarrow> mode_of (tidy_param ''ui_mode'' ps) = Some (pg_mode p)"
proof -
  have "to_lower (trim (mode_str m)) = mode_str m" for m
    by (cases m; hypsubst; code_simp)
  then show "shows_page p ps \<Longrightarrow> mode_of (tidy_param ''ui_mode'' ps) = Some (pg_mode p)"
    by (simp add: shows_page_def tidy_param_def opt_list_def)
qed

subsection \<open>A page at rest\<close>

definition page_ok :: "(string \<times> string) list \<Rightarrow> page \<Rightarrow> bool" where
  "page_ok ps p \<longleftrightarrow> pg_panel p \<in> set PANELS \<and> pg_queryReady p \<and> shows_page p (pg_params p)
     \<and> (\<forall>k. k \<notin> {''ui_panel'', ''ui_mode'', ''ui_device''} \<longrightarrow> usp_get k (pg_params p) = usp_get k ps)
     \<and> next_device (aliases (pg_sel p)) (pg_device p) = pg_device p
     \<and> (no_id (pg_workspace p) \<or> stored_mode (the (pg_workspace p)) p = Some (pg_mode p))
     \<and> av_userId (pg_account p) = readUserId p \<and> pg_user p = readUserIdFromStorage p
     \<and> (protected_tab (pg_tab p) \<longrightarrow> av_userId (pg_account p) \<noteq> None \<or> av_authOpen (pg_account p))"

lemma stored_mode_update [simp]:
  "map_of (pg_local p) = (map_of items)(mode_key ws \<mapsto> mode_str m) \<Longrightarrow> stored_mode ws p = Some m"
  by (simp add: stored_mode_def opt_list_def)

lemma mode_key_user [simp]: "mode_key ws \<noteq> USER_STORAGE_KEY" "USER_STORAGE_KEY \<noteq> mode_key ws"
  by (simp_all add: mode_key_def USER_STORAGE_KEY_def)

text \<open>A round of effects whose rendering has the panel in the list, after a round that has shown its address.\<close>

lemma second_round:
  fixes q cap
  defines "p \<equiv> page_effects (Some q) cap"
  assumes "shows_page q (pg_params cap)" "pg_queryReady cap" "pg_panel cap \<in> set PANELS" "pg_workspace q = pg_workspace cap"
    "next_device (aliases (pg_sel cap)) (pg_device cap) = pg_device cap"
  shows "view_of p = view_of cap" "shows_page p (pg_params p)" "pg_device p = pg_device cap"
    "no_id (pg_workspace p) \<or> pg_mode q \<noteq> pg_mode cap \<or> stored_mode (the (pg_workspace cap)) cap = Some (pg_mode cap)
      \<Longrightarrow> no_id (pg_workspace p) \<or> stored_mode (the (pg_workspace p)) p = Some (pg_mode p)"
proof -
  have d: "pg_active p = pg_active cap" "pg_pending p = pg_pending cap"
    using round_device(1) [of q cap] assms(6) by (simp_all add: p_def)
  show v: "view_of p = view_of cap"
    using assms d by (simp add: view_of_def p_def round_panel round_mode)
  show "shows_page p (pg_params p)"
    using round_shows [OF assms(2,3)] shows_page_cong [OF v] by (simp add: p_def)
  show "pg_device p = pg_device cap"
    using d by simp
  have "pg_workspace p = pg_workspace cap" "pg_mode p = pg_mode cap"
    using v by (simp_all add: p_def round_device view_of_def)
  then show "no_id (pg_workspace p) \<or> pg_mode q \<noteq> pg_mode cap \<or> stored_mode (the (pg_workspace cap)) cap = Some (pg_mode cap)
      \<Longrightarrow> no_id (pg_workspace p) \<or> stored_mode (the (pg_workspace p)) p = Some (pg_mode p)"
    using assms(5) by (auto simp: p_def round_local stored_mode_def opt_list_def)
qed

subsection \<open>Actions\<close>

lemma run_step_panel: "rn_panel (run_step lc dp e st) = rn_panel st \<or> rn_panel (run_step lc dp e st) = ''server''"
proof (cases e)
  case (Answer i res prompt)
  have "rn_panel st' = rn_panel st" if "deploy_answer job res prompt st = (r, st')" for job r st'
    using that by (auto simp: deploy_answer_def promptWorkspaceMasterPassword_def clearWorkspaceMasterPassword_def Let_def
        split: http_reply.splits sum.splits option.splits if_splits)
  moreover have "rn_panel (startDeployment_end r st') = rn_panel st'" for r st'
    by (simp add: startDeployment_end_def Let_def split: sum.split)
  ultimately show ?thesis
    using Answer by (auto simp: answer_job_def Let_def split: prod.splits option.splits)
next
  case Paint
  then show ?thesis by (auto simp: run_waiting_def add_deployed_def Let_def split: option.splits)
next
  case Press_connect
  then show ?thesis by (simp add: requestConnect_def)
next
  case Press_cancel
  then show ?thesis by (simp add: requestCancel_def)
next
  case Press_deploy
  then show ?thesis by (auto simp: startDeployment_begin_def Let_def split: option.splits prod.splits)
next
  case (Status_seen eager status)
  then show ?thesis by (auto simp: handleDeploymentStatus_def add_deployed_def Let_def split: option.splits)
qed (auto simp: openCredentialsFor_def onLiveJobIdChange_def testConnectionForServer_begin_def testConnectionForServer_end_def Let_def
    split: option.splits sum.splits http_reply.splits)

lemma index_in_less: "index_in x xs = Some i \<Longrightarrow> i < length xs"
  by (induction xs arbitrary: i) (auto split: if_splits)

lemma visible_in_panels: "panel \<in> set (visiblePanels p) \<Longrightarrow> panel \<in> set PANELS"
  by (simp add: visiblePanels_def)

lemma neighbours_in_panels:
  "previous_panel p = Some panel \<Longrightarrow> panel \<in> set PANELS" "next_panel p = Some panel \<Longrightarrow> panel \<in> set PANELS"
proof -
  show "next_panel p = Some panel \<Longrightarrow> panel \<in> set PANELS"
    by (auto simp: next_panel_def intro!: visible_in_panels [of _ p] split: option.splits if_splits)
  have "visiblePanels p ! i \<in> set PANELS" if "index_in (pg_panel p) (visiblePanels p) = Some (Suc i)" for i
    using index_in_less [OF that] by (intro visible_in_panels [of _ p] nth_mem) simp
  then show "previous_panel p = Some panel \<Longrightarrow> panel \<in> set PANELS"
    by (auto simp: previous_panel_def split: option.splits nat.splits)
qed

text \<open>What no action changes by itself: the address, the stored modes, and that both parts know the session.\<close>

definition session_ok :: "page \<Rightarrow> bool" where
  "session_ok p \<longleftrightarrow> av_userId (pg_account p) = readUserId p \<and> pg_user p = readUserIdFromStorage p"

lemma session_ok_updated [simp]: "session_ok (session_updated p)"
  by (simp add: session_ok_def session_updated_def readUserId_def readUserIdFromStorage_def page_parts)

lemma session_ok_cong:
  assumes "av_userId (pg_account p) = av_userId (pg_account q)" "pg_user p = pg_user q" "pg_local p = pg_local q"
  shows "session_ok p = session_ok q"
  using assms by (simp add: session_ok_def readUserId_def readUserIdFromStorage_def)

definition keeps_page :: "page \<Rightarrow> page \<Rightarrow> bool" where
  "keeps_page p p' \<longleftrightarrow> pg_params p' = pg_params p \<and> pg_queryReady p' = pg_queryReady p
     \<and> (\<forall>w. stored_mode w p' = stored_mode w p) \<and> (session_ok p \<longrightarrow> session_ok p')
     \<and> (pg_panel p \<in> set PANELS \<longrightarrow> pg_panel p' \<in> set PANELS)"

lemma keeps_page_frame:
  assumes "pg_params p' = pg_params p" "pg_queryReady p' = pg_queryReady p" "pg_local p' = pg_local p" "pg_user p' = pg_user p"
    "av_userId (pg_account p') = av_userId (pg_account p)" "pg_panel p \<in> set PANELS \<longrightarrow> pg_panel p' \<in> set PANELS"
  shows "keeps_page p p'"
  using assms session_ok_cong [of p' p] by (simp add: keeps_page_def stored_mode_def)

lemma stored_mode_frames [simp]:
  "stored_mode w (session_updated p) = stored_mode w p"
  "stored_mode w (p\<lparr>pg_user := u\<rparr>) = stored_mode w p" "stored_mode w (p\<lparr>pg_tab := t\<rparr>) = stored_mode w p"
  "stored_mode w (on_account g p) = stored_mode w p"
  "stored_mode w (p\<lparr>pg_local := AList.update USER_STORAGE_KEY v (pg_local p)\<rparr>) = stored_mode w p"
  "stored_mode w (p\<lparr>pg_local := AList.delete USER_STORAGE_KEY (pg_local p)\<rparr>) = stored_mode w p"
  by (simp_all add: stored_mode_def session_updated_def update_conv' delete_conv' page_parts)

lemma session_parts [simp]:
  "pg_params (session_updated p) = pg_params p" "pg_queryReady (session_updated p) = pg_queryReady p" "pg_run (session_updated p) = pg_run p"
  "pg_params (on_account g p) = pg_params p" "pg_queryReady (on_account g p) = pg_queryReady p" "pg_run (on_account g p) = pg_run p"
  "pg_local (on_account g p) = pg_local p" "pg_user (on_account g p) = pg_user p" "pg_account (on_account g p) = g (pg_account p)"
  by (simp_all add: session_updated_def page_parts)

lemma keeps_session:
  assumes "pg_run p' = pg_run p" "pg_params p' = pg_params p" "pg_queryReady p' = pg_queryReady p"
    "\<And>w. stored_mode w p' = stored_mode w p" "session_ok p'"
  shows "keeps_page p p'"
  using assms by (simp add: keeps_page_def)

lemma signed_in_parts:
  "pg_run (session_begun u p) = pg_run p" "pg_params (session_begun u p) = pg_params p" "pg_queryReady (session_begun u p) = pg_queryReady p"
  "stored_mode w (session_begun u p) = stored_mode w p" "session_ok (session_begun u p)"
proof -
  let ?p1 = "session_updated (p\<lparr>pg_local := AList.update USER_STORAGE_KEY u (pg_local p)\<rparr>)"
  have "session_ok (on_account (\<lambda>a. a\<lparr>av_authOpen := False\<rparr>) ?p1)"
    "session_ok ((on_account (\<lambda>a. a\<lparr>av_authOpen := False, av_pendingTab := None\<rparr>) ?p1)\<lparr>pg_tab := tab\<rparr>)" for tab
    using session_ok_updated [of "p\<lparr>pg_local := AList.update USER_STORAGE_KEY u (pg_local p)\<rparr>"]
    by (simp_all add: session_ok_def readUserId_def readUserIdFromStorage_def)
  then show "session_ok (session_begun u p)"
    by (simp add: session_begun_def Let_def split: option.split)
qed (simp_all add: session_begun_def Let_def split: option.split)

lemma keeps_submit: "session_ok p \<Longrightarrow> keeps_page p (submit_auth p)"
proof -
  have fail: "keeps_page p (auth_failed m (on_account (\<lambda>a. a\<lparr>av_authError := None\<rparr>) p))" for m
    by (rule keeps_page_frame) (simp_all add: auth_failed_def)
  have "keeps_page p (session_begun u (on_account (\<lambda>a. a\<lparr>av_authError := None\<rparr>) p))" for u
    by (rule keeps_session) (simp_all add: signed_in_parts)
  with fail show ?thesis
    by (simp add: submit_auth_def submitLogin_def submitRegister_def Let_def)
qed

lemma keeps_action:
  assumes "session_ok p"
  shows "keeps_page p (page_action lc dp e p)"
proof -
  have updated: "keeps_page p (session_updated (p\<lparr>pg_local := AList.update USER_STORAGE_KEY v (pg_local p)\<rparr>))"
    "keeps_page p (session_updated (p\<lparr>pg_local := AList.delete USER_STORAGE_KEY (pg_local p)\<rparr>))" for v
    by (rule keeps_session; simp)+
  let ?out = "session_updated (p\<lparr>pg_local := AList.delete USER_STORAGE_KEY (pg_local p)\<rparr>)"
  have none: "pg_user ?out = None"
    by (simp add: session_updated_def readUserIdFromStorage_def nonempty_id_def opt_list_def trim_def trim_start_def trim_end_def
        to_lower_def delete_conv' page_parts)
  have out: "keeps_page p (?out\<lparr>pg_user := None\<rparr>)" "keeps_page p (logout_account p)"
  proof -
    have "?out\<lparr>pg_user := None\<rparr> = ?out"
      using none by (simp add: session_updated_def page_parts)
    then show "keeps_page p (?out\<lparr>pg_user := None\<rparr>)"
      using updated(2) by simp
    have "session_ok (logout_account p)"
      using session_ok_updated [of "p\<lparr>pg_local := AList.delete USER_STORAGE_KEY (pg_local p)\<rparr>"]
      by (simp add: session_ok_def readUserId_def readUserIdFromStorage_def logout_account_def)
    then show "keeps_page p (logout_account p)"
      by (intro keeps_session) (simp_all add: logout_account_def)
  qed
  show ?thesis
  proof (cases e)
    case Press_back
    then show ?thesis
      by (auto intro!: keeps_page_frame simp: setActivePanel_def dest: neighbours_in_panels split: option.split)
  next
    case Press_next
    then show ?thesis
      by (auto intro!: keeps_page_frame simp: setActivePanel_def dest: neighbours_in_panels split: option.split)
  next
    case (Press_tab panel)
    then show ?thesis
      by (auto intro!: keeps_page_frame simp: setActivePanel_def dest: visible_in_panels)
  next
    case Press_auth
    then show ?thesis
      using out by (auto simp: onAuthClick_def onOpenAuth_def intro!: keeps_page_frame)
  next
    case (Session_elsewhere v)
    then show ?thesis
      using updated by (simp split: option.split)
  next
    case Sign_out
    then show ?thesis
      using out by (auto intro!: keeps_page_frame)
  next
    case Submit_auth
    then show ?thesis
      using keeps_submit [OF assms] by (auto intro!: keeps_page_frame)
  next
    case (Running e')
    have "''server'' \<in> set PANELS"
      by (simp add: PANELS_def)
    then show ?thesis
      using Running run_step_panel [of lc dp e' "pg_run p"] by (auto intro!: keeps_page_frame)
  next
    case (Roles_loaded res)
    then show ?thesis
      by (auto intro!: keeps_page_frame simp: roles_loaded_def Let_def split: sum.split)
  qed (auto intro!: keeps_page_frame simp: handleModeChange_def confirmExpertMode_def handleTabSelect_def openAuth_def closeAuth_def
      open_workspace_def openDetailSearch_def closeDetailSearch_def handleDomainPopupTypeSelect_def handleDomainPopupFqdnValueChange_def
      press_escape_def on_sel_def on_domains_def Let_def)
qed

subsection \<open>Every run comes to rest with its view in the address\<close>

text \<open>What holds after the first round of a page, \<open>cap\<close> being what was rendered.\<close>

definition pre_round :: "(string \<times> string) list \<Rightarrow> page \<Rightarrow> page \<Rightarrow> bool" where
  "pre_round ps cap p \<longleftrightarrow> shows_page cap (pg_params p) \<and> pg_queryReady p \<and> pg_panel p \<in> set PANELS \<and> pg_workspace cap = pg_workspace p
     \<and> (\<forall>k. k \<notin> {''ui_panel'', ''ui_mode'', ''ui_device''} \<longrightarrow> usp_get k (pg_params p) = usp_get k ps)
     \<and> next_device (aliases (pg_sel p)) (pg_device p) = pg_device p
     \<and> (no_id (pg_workspace p) \<or> pg_mode cap \<noteq> pg_mode p \<or> stored_mode (the (pg_workspace p)) p = Some (pg_mode p))
     \<and> session_ok p"

definition tab_guarded :: "page \<Rightarrow> bool" where
  "tab_guarded p \<longleftrightarrow> (protected_tab (pg_tab p) \<longrightarrow> av_userId (pg_account p) \<noteq> None \<or> av_authOpen (pg_account p))"

definition first_round :: "(string \<times> string) list \<Rightarrow> page \<Rightarrow> page \<Rightarrow> bool" where
  "first_round ps cap p \<longleftrightarrow> pre_round ps cap p \<and> tab_guarded p"

lemma guard_idle:
  "protected_tab (pg_tab p) \<longrightarrow> av_userId (pg_account p) \<noteq> None \<or> av_authOpen (pg_account p) \<Longrightarrow> guard_tab_effect p st = st"
  by (auto simp: guard_tab_effect_def)


lemma round_user_key: "map_of (pg_local (page_effects (Some q) cap)) USER_STORAGE_KEY = map_of (pg_local cap) USER_STORAGE_KEY"
  by (simp add: round_local update_conv')

lemma round_keeps_session:
  assumes "session_ok cap" "protected_tab (pg_tab cap) \<longrightarrow> av_userId (pg_account cap) \<noteq> None \<or> av_authOpen (pg_account cap)"
  shows "session_ok (page_effects (Some q) cap)" "pg_tab (page_effects (Some q) cap) = pg_tab cap"
    "pg_account (page_effects (Some q) cap) = pg_account cap"
  using assms guard_idle [OF assms(2), of cap]
  by (simp_all add: session_ok_def round_session readUserId_def readUserIdFromStorage_def round_user_key)

lemma settled_page:
  fixes cap p1
  defines "p2 \<equiv> page_effects (Some cap) p1"
  defines "p3 \<equiv> page_effects (Some p1) p2"
  assumes f: "first_round ps cap p1"
  shows "page_ok ps p3" "view_of p3 = view_of p1" "pg_device p3 = pg_device p1" "pg_tab p3 = pg_tab p1" "pg_account p3 = pg_account p1"
    "aliases (pg_sel p3) = aliases (pg_sel p1)" "pg_workspace p3 = pg_workspace p1"
proof -
  have f1: "shows_page cap (pg_params p1)" "pg_queryReady p1" "pg_panel p1 \<in> set PANELS" "pg_workspace cap = pg_workspace p1"
    "next_device (aliases (pg_sel p1)) (pg_device p1) = pg_device p1"
    using f by (simp_all add: first_round_def pre_round_def)
  note r1 = second_round [OF f1, folded p2_def]
  have stored2: "no_id (pg_workspace p2) \<or> stored_mode (the (pg_workspace p2)) p2 = Some (pg_mode p2)"
    by (rule r1(4)) (use f in \<open>auto simp: first_round_def pre_round_def p2_def round_device\<close>)
  have names: "aliases (pg_sel p2) = aliases (pg_sel p1)" "aliases (pg_sel p3) = aliases (pg_sel p2)"
    "pg_workspace p2 = pg_workspace p1" "pg_workspace p3 = pg_workspace p2"
    by (simp_all add: p2_def p3_def round_device(2,3))
  have ready: "pg_queryReady p2" "pg_queryReady p3"
    using f1(2) by (simp_all add: p2_def p3_def round_ready)
  have panel: "pg_panel p2 = pg_panel p1"
    using r1(1) by (simp add: view_of_def)
  have f2: "shows_page p1 (pg_params p2)" "pg_queryReady p2" "pg_panel p2 \<in> set PANELS" "pg_workspace p1 = pg_workspace p2"
    "next_device (aliases (pg_sel p2)) (pg_device p2) = pg_device p2"
    using r1 shows_page_cong [OF r1(1)] ready f1(3,5) panel names by simp_all
  note r2 = second_round [OF f2, folded p3_def]
  note s1 = round_keeps_session [of p1 cap, folded p2_def]
  have ses1: "session_ok p1" "protected_tab (pg_tab p1) \<longrightarrow> av_userId (pg_account p1) \<noteq> None \<or> av_authOpen (pg_account p1)"
    using f by (simp_all add: first_round_def pre_round_def tab_guarded_def)
  have ses2: "session_ok p2" "pg_tab p2 = pg_tab p1" "pg_account p2 = pg_account p1"
    using s1 ses1 by simp_all
  have ses3: "session_ok p3" "pg_tab p3 = pg_tab p2" "pg_account p3 = pg_account p2"
    using round_keeps_session [of p2 p1, folded p3_def] ses1(2) ses2 by simp_all
  show v: "view_of p3 = view_of p1" and d: "pg_device p3 = pg_device p1"
    using r1(1,3) r2(1,3) by simp_all
  show "pg_tab p3 = pg_tab p1" "pg_account p3 = pg_account p1" "aliases (pg_sel p3) = aliases (pg_sel p1)" "pg_workspace p3 = pg_workspace p1"
    using ses2 ses3 names by simp_all
  have other: "usp_get k (pg_params p3) = usp_get k ps" if "k \<notin> {''ui_panel'', ''ui_mode'', ''ui_device''}" for k
    using round_other [OF that] f that by (simp add: p3_def p2_def first_round_def pre_round_def)
  have stored3: "no_id (pg_workspace p3) \<or> stored_mode (the (pg_workspace p3)) p3 = Some (pg_mode p3)"
    by (rule r2(4)) (use stored2 names in simp)
  show "page_ok ps p3"
    unfolding page_ok_def
    using r2(2) stored3 other ses1(2) ses2 ses3 ready v d f1(3,5) names
    by (auto simp: session_ok_def view_of_def)
qed

lemma guard_result:
  fixes cap
  defines "g \<equiv> guard_tab_effect cap cap"
  shows "av_userId (pg_account g) = av_userId (pg_account cap)"
    "protected_tab (pg_tab g) \<longrightarrow> av_userId (pg_account g) \<noteq> None \<or> av_authOpen (pg_account g)"
  by (auto simp: g_def guard_tab_effect_def openAuth_def on_account_def protected_tab_def)

lemma first_round_step:
  fixes p c
  defines "r \<equiv> page_effects (Some p) c"
  assumes "page_ok ps p" "keeps_page p c"
  shows "first_round ps c r"
proof -
  note k = assms(3) [unfolded keeps_page_def]
  have ses: "session_ok p"
    using assms(2) by (simp add: page_ok_def session_ok_def)
  have c: "shows_page p (pg_params c)" "pg_queryReady c" "pg_panel c \<in> set PANELS"
    using k assms(2) by (simp_all add: page_ok_def)
  have sesc: "session_ok r"
    using k ses guard_result(1) [of c]
    by (simp add: r_def session_ok_def round_session readUserId_def readUserIdFromStorage_def round_user_key)
  have ws: "pg_workspace r = pg_workspace c"
    by (simp add: r_def round_device)
  have stored: "no_id (pg_workspace r) \<or> pg_mode c \<noteq> pg_mode r \<or> stored_mode (the (pg_workspace r)) r = Some (pg_mode r)"
  proof (cases "(pg_workspace p, pg_mode p) = (pg_workspace c, pg_mode c) \<or> no_id (pg_workspace c)")
    case True
    then have "pg_local r = pg_local c"
      unfolding r_def round_local by (rule if_P)
    then have l: "stored_mode w r = stored_mode w p" for w
      using k by (simp add: stored_mode_def)
    show ?thesis
    proof (cases "no_id (pg_workspace c) \<or> pg_mode c \<noteq> pg_mode r")
      case False
      then have "pg_workspace p = pg_workspace c" "pg_mode p = pg_mode r"
        using True by auto
      then show ?thesis
        using False assms(2) by (simp add: l ws page_ok_def)
    qed (auto simp: ws)
  next
    case False
    then have "pg_local r = AList.update (mode_key (the (pg_workspace c))) (mode_str (pg_mode c)) (pg_local c)"
      unfolding r_def round_local by (rule if_not_P)
    then have "stored_mode (the (pg_workspace r)) r = Some (pg_mode c)"
      by (simp add: ws stored_mode_def opt_list_def update_conv')
    then show ?thesis
      by simp
  qed
  have other: "usp_get x (pg_params r) = usp_get x ps" if "x \<notin> {''ui_panel'', ''ui_mode'', ''ui_device''}" for x
    using round_other [OF that, of p c] k assms(2) that by (simp add: r_def page_ok_def)
  have d: "next_device (aliases (pg_sel r)) (pg_device r) = pg_device r"
    using round_device(1,2) [of p c] by (simp add: r_def next_device_idem)
  have t: "protected_tab (pg_tab r) \<longrightarrow> av_userId (pg_account r) \<noteq> None \<or> av_authOpen (pg_account r)"
    using guard_result(2) [of c] by (simp add: r_def round_session)
  have "shows_page c (pg_params r)" "pg_queryReady r" "pg_panel r \<in> set PANELS"
    using round_shows [OF c(1,2)] c by (simp_all add: r_def round_ready round_panel)
  with ws stored other d t sesc show ?thesis
    unfolding first_round_def pre_round_def tab_guarded_def by metis
qed

lemma page_ok_step:
  assumes "page_ok ps p"
  shows "page_ok ps (page_step lc dp e p)"
proof -
  have "keeps_page p (page_action lc dp e p)"
    using assms by (intro keeps_action) (simp add: page_ok_def session_ok_def)
  from settled_page(1) [OF first_round_step [OF assms this]] show ?thesis
    by (simp add: page_step_def render_page_def Let_def)
qed

lemma pre_to_first:
  fixes cap p
  defines "r \<equiv> page_effects (Some cap) p"
  assumes f: "pre_round ps cap p"
  shows "first_round ps p r" "view_of r = view_of p" "pg_device r = pg_device p" "aliases (pg_sel r) = aliases (pg_sel p)"
    "pg_workspace r = pg_workspace p"
proof -
  have f1: "shows_page cap (pg_params p)" "pg_queryReady p" "pg_panel p \<in> set PANELS" "pg_workspace cap = pg_workspace p"
    "next_device (aliases (pg_sel p)) (pg_device p) = pg_device p"
    using f by (simp_all add: pre_round_def)
  note n = second_round [OF f1, folded r_def]
  show v: "view_of r = view_of p" and d: "pg_device r = pg_device p"
    by (fact n)+
  show names: "aliases (pg_sel r) = aliases (pg_sel p)" "pg_workspace r = pg_workspace p"
    by (simp_all add: r_def round_device(2,3))
  have stored: "no_id (pg_workspace r) \<or> stored_mode (the (pg_workspace r)) r = Some (pg_mode r)"
    by (rule n(4)) (use f names in \<open>auto simp: pre_round_def\<close>)
  have guarded: "tab_guarded r"
    using guard_result(2) [of p] by (simp add: tab_guarded_def r_def round_session)
  have ses: "session_ok r"
    using f guard_result(1) [of p]
    by (simp add: pre_round_def r_def session_ok_def round_session readUserId_def readUserIdFromStorage_def round_user_key)
  have other: "usp_get x (pg_params r) = usp_get x ps" if "x \<notin> {''ui_panel'', ''ui_mode'', ''ui_device''}" for x
    using round_other [OF that, of cap p] f that by (simp add: r_def pre_round_def)
  have "pg_queryReady r" "pg_panel r \<in> set PANELS"
    using f1 by (simp_all add: r_def round_ready round_panel)
  with stored guarded ses other n(2) v d f1(5) names show "first_round ps p r"
    using shows_page_cong [OF v] by (simp add: first_round_def pre_round_def)
qed

subsection \<open>Opening the page\<close>

lemma panel_of_in_panels: "panel_of ps = Some panel \<Longrightarrow> panel \<in> set PANELS"
proof -
  have "snd ` set PANEL_QUERY_TO_KEY \<subseteq> set PANELS"
    by code_simp
  then show "panel_of ps = Some panel \<Longrightarrow> panel \<in> set PANELS"
    by (auto simp: panel_of_def Let_def split: if_splits dest!: map_of_SomeD)
qed

definition address_tab :: "(string \<times> string) list \<Rightarrow> AccountTabKey" where
  "address_tab ps = (let v = tidy_param ''ui_panel'' ps in
     if v = ''billing'' then Tab_billing else if v = ''rbac'' then Tab_rbac else if v = ''audit'' then Tab_audit else Tab_general)"

definition opened_mode :: "(string \<times> string) list \<Rightarrow> string option \<Rightarrow> (string \<times> string) list \<Rightarrow> device_mode" where
  "opened_mode ps ws local = given_or (mode_of (tidy_param ''ui_mode'' ps))
     (if no_id ws then Customer_mode else given_or (mode_of (opt_list (map_of local (mode_key (the ws))))) Customer_mode)"

lemma opening_round:
  fixes ps roles ws local window session
  defines "p0 \<equiv> initial_page ps roles ws local window session"
  defines "p1 \<equiv> page_effects None p0"
  shows "pg_panel p1 = given_or (panel_of ps) ''store''" "pg_mode p1 = opened_mode ps ws local" "pg_tab p1 = address_tab ps"
    "pg_active p1 = []" "pg_pending p1 = trim (opt_list (usp_get ''ui_device'' ps))" "aliases (pg_sel p1) = []" "pg_workspace p1 = ws"
    "pg_queryReady p1" "pg_params p1 = page_query p0 ps"
    "pg_local p1 = (if no_id ws then local else AList.update (mode_key (the ws)) ''customer'' local)"
    "pg_account p1 = (pg_account p0)\<lparr>av_userId := readUserId p0\<rparr>" "pg_user p1 = readUserIdFromStorage p0"
proof -
  have in_panels: "given_or (panel_of ps) ''store'' \<in> set PANELS"
    using panel_of_in_panels [of ps] by (cases "panel_of ps") (simp_all add: given_or_def PANELS_def)
  have start: "pg_panel p0 = given_or (panel_of ps) ''store''" "pg_mode p0 = Customer_mode" "pg_tab p0 = Tab_general" "pg_active p0 = []"
    "pg_pending p0 = []" "aliases (pg_sel p0) = []" "pg_workspace p0 = ws" "pg_params p0 = ps" "pg_local p0 = local"
    by (simp_all add: p0_def initial_page_def initial_run_def initial_state_def aliases_def resolveInitialPanel_def)
  have none: "a \<notin> set (aliases (pg_sel p0))" for a
    unfolding start(6) by simp
  show "pg_panel p1 = given_or (panel_of ps) ''store''"
    using start in_panels
    by (simp add: p1_def page_effects_def enabled_panel_effect_def read_address_effect_def page_parts given_or_def split: option.split)
  show "pg_mode p1 = opened_mode ps ws local"
    using start by (simp add: p1_def page_effects_def read_mode_effect_def changed_def read_address_effect_def opened_mode_def stored_mode_def
        page_parts given_or_def split: option.split)
  show "pg_tab p1 = address_tab ps"
    using start by (simp add: p1_def page_effects_def read_address_effect_def guard_tab_effect_def session_effect_def session_updated_def
        address_tab_def protected_tab_def page_parts split: option.split)
  show "pg_local p1 = (if no_id ws then local else AList.update (mode_key (the ws)) ''customer'' local)"
    using start by (simp add: p1_def page_effects_def store_mode_effect_def changed_def read_address_effect_def page_parts split: option.split)
  show "pg_params p1 = page_query p0 ps"
    using start by (simp add: p1_def page_effects_def write_address_effect_def changed_def read_address_effect_def page_parts split: option.split)
  show "pg_queryReady p1"
    by (simp add: p1_def page_effects_def read_address_effect_def page_parts split: option.split)
  show "pg_account p1 = (pg_account p0)\<lparr>av_userId := readUserId p0\<rparr>" "pg_user p1 = readUserIdFromStorage p0"
    using start by (simp_all add: p1_def page_effects_def read_address_effect_def session_effect_def session_updated_def guard_tab_effect_def
        protected_tab_def page_parts split: option.split)
  have read: "aliases (pg_sel (read_address_effect None st)) = aliases (pg_sel st)" "pg_workspace (read_address_effect None st) = pg_workspace st"
    "pg_active (read_address_effect None st) = pg_active st" "pg_run st = pg_run p0 \<Longrightarrow> pg_active (read_address_effect None st) = []" for st
    using start(4) by (simp_all add: read_address_effect_def page_parts split: option.split)
  show "aliases (pg_sel p1) = []"
    by (simp add: p1_def page_effects_def read start(6) del: aliases_Nil)
  show "pg_workspace p1 = ws"
    using start(7) by (simp add: p1_def page_effects_def read)
  have "pg_pending p1 = pg_pending (read_address_effect None (store_selection_effect None p0 (guard_tab_effect p0 (session_effect None p0))))"
    by (simp add: none p1_def page_effects_def pending_effect_def page_parts)
  then show "pg_pending p1 = trim (opt_list (usp_get ''ui_device'' ps))"
    using start by (simp add: read_address_effect_def page_parts split: option.split)
  show "pg_active p1 = []"
    using start(4,6) by (simp add: none p1_def page_effects_def pending_effect_def restore_active_effect_def restore_active_def read page_parts)
qed

lemma pre_round_open:
  fixes ps roles ws local window session
  defines "p0 \<equiv> initial_page ps roles ws local window session"
  shows "pre_round ps p0 (page_effects None p0)"
proof -
  note o = opening_round [of ps roles ws local window session, folded p0_def]
  let ?p = "page_effects None p0"
  have start: "pg_workspace p0 = ws" "pg_mode p0 = Customer_mode" "pg_local p0 = local"
    by (simp_all add: p0_def initial_page_def initial_run_def initial_state_def)
  have "pg_panel ?p \<in> set PANELS"
    using panel_of_in_panels [of ps] by (cases "panel_of ps") (simp_all add: o given_or_def PANELS_def)
  moreover have "no_id (pg_workspace ?p) \<or> pg_mode p0 \<noteq> pg_mode ?p \<or> stored_mode (the (pg_workspace ?p)) ?p = Some (pg_mode ?p)"
    using start by (auto simp: o stored_mode_def opt_list_def update_conv' mode_of_def)
  moreover have "session_ok ?p"
    using start by (simp add: session_ok_def o readUserId_def readUserIdFromStorage_def update_conv')
  moreover have "next_device (aliases (pg_sel ?p)) (pg_device ?p) = pg_device ?p"
    unfolding o(4,6) by (simp add: next_device_def)
  moreover have "usp_get k (pg_params ?p) = usp_get k ps" if "k \<notin> {''ui_panel'', ''ui_mode'', ''ui_device''}" for k
    using that by (simp add: o query_other)
  moreover have "shows_page p0 (pg_params ?p)" "pg_queryReady ?p" "pg_workspace p0 = pg_workspace ?p"
    using start by (simp_all add: o)
  ultimately show ?thesis
    unfolding pre_round_def by blast
qed

lemma open_page_ok:
  fixes ps roles ws local window session
  defines "p \<equiv> open_page ps roles ws local window session"
  shows "page_ok ps p" "pg_panel p = given_or (panel_of ps) ''store''" "pg_mode p = opened_mode ps ws local" "pg_active p = []"
    "pg_pending p = trim (opt_list (usp_get ''ui_device'' ps))" "aliases (pg_sel p) = []" "pg_workspace p = ws"
proof -
  let ?p0 = "initial_page ps roles ws local window session"
  let ?p1 = "page_effects None ?p0"
  note o = opening_round [of ps roles ws local window session]
  note f = pre_to_first [OF pre_round_open [of ps roles ws local window session]]
  note t = settled_page [OF f(1)]
  have p: "p = page_effects (Some (page_effects (Some ?p0) ?p1)) (page_effects (Some ?p1) (page_effects (Some ?p0) ?p1))"
    by (simp add: p_def open_page_def render_page_def Let_def)
  show "page_ok ps p"
    using t(1) by (simp add: p)
  have v: "view_of p = view_of ?p1" "pg_device p = pg_device ?p1"
    using t(2,3) f(2,3) by (simp_all add: p)
  show "pg_panel p = given_or (panel_of ps) ''store''" "pg_mode p = opened_mode ps ws local" "pg_active p = []"
    using v(1) o by (simp_all add: view_of_def)
  show "pg_pending p = trim (opt_list (usp_get ''ui_device'' ps))"
    using v(2) o by simp
  show "aliases (pg_sel p) = []" "pg_workspace p = ws"
    using t(6,7) f(4,5) o by (simp_all add: p)
qed

lemma page_ok_run: "page_ok ps (fold (page_step lc dp) es (open_page ps roles ws local window session))"
proof -
  have run: "page_ok ps p \<Longrightarrow> page_ok ps (fold (page_step lc dp) es p)" for p
    by (induction es arbitrary: p) (simp_all add: page_ok_step)
  show ?thesis
    by (rule run) (rule open_page_ok)
qed

subsection \<open>What one step does\<close>

lemma action_pending: "pg_pending (page_action lc dp e p) = pg_pending p"
proof (cases e)
  case (Roles_loaded res)
  then show ?thesis by (simp add: roles_loaded_def Let_def split: sum.split)
next
  case Submit_auth
  then show ?thesis
    by (simp add: submit_auth_def submitLogin_def submitRegister_def auth_failed_def session_begun_def session_updated_def page_parts split: option.split)
next
  case (Session_elsewhere v)
  then show ?thesis by (simp add: session_updated_def page_parts split: option.split)
qed (auto simp: handleModeChange_def confirmExpertMode_def handleTabSelect_def openAuth_def closeAuth_def onAuthClick_def onOpenAuth_def
    logout_account_def session_updated_def open_workspace_def openDetailSearch_def closeDetailSearch_def handleDomainPopupTypeSelect_def
    handleDomainPopupFqdnValueChange_def press_escape_def page_parts split: option.split)

lemma page_step_parts:
  fixes lc dp e p
  defines "c \<equiv> page_action lc dp e p"
  defines "p' \<equiv> page_step lc dp e p"
  assumes "page_ok ps p"
  shows "pg_panel p' = pg_panel c" "pg_mode p' = (if pg_workspace p = pg_workspace c \<or> no_id (pg_workspace c) then pg_mode c else pg_mode p)"
    "pg_device p' = next_device (aliases (pg_sel c)) (pg_active c, pg_pending p)" "aliases (pg_sel p') = aliases (pg_sel c)"
    "pg_workspace p' = pg_workspace c" "pg_tab p' = pg_tab (guard_tab_effect c c)" "pg_account p' = pg_account (guard_tab_effect c c)"
proof -
  have ses: "session_ok p"
    using assms(3) by (simp add: page_ok_def session_ok_def)
  have k: "keeps_page p c"
    unfolding c_def by (rule keeps_action [OF ses])
  note t = settled_page [OF first_round_step [OF assms(3) k]]
  let ?r = "page_effects (Some p) c"
  have p': "p' = page_effects (Some ?r) (page_effects (Some c) ?r)"
    by (simp add: p'_def page_step_def render_page_def c_def Let_def)
  have panel: "pg_panel c \<in> set PANELS"
    using k assms(3) by (simp add: keeps_page_def page_ok_def)
  have "shows_page p (pg_params c)"
    using k assms(3) by (simp add: keeps_page_def page_ok_def)
  then have "mode_of (tidy_param ''ui_mode'' (pg_params c)) = Some (pg_mode p)"
    by (rule tidy_mode)
  then have mode: "pg_mode ?r = (if pg_workspace p = pg_workspace c \<or> no_id (pg_workspace c) then pg_mode c else pg_mode p)"
    by (simp add: round_mode given_or_def)
  show "pg_panel p' = pg_panel c" "pg_mode p' = (if pg_workspace p = pg_workspace c \<or> no_id (pg_workspace c) then pg_mode c else pg_mode p)"
    using t(2) panel mode by (simp_all add: p' view_of_def round_panel)
  show "pg_device p' = next_device (aliases (pg_sel c)) (pg_active c, pg_pending p)"
    using t(3) by (simp add: p' round_device(1) c_def action_pending)
  show "aliases (pg_sel p') = aliases (pg_sel c)" "pg_workspace p' = pg_workspace c" "pg_tab p' = pg_tab (guard_tab_effect c c)"
    "pg_account p' = pg_account (guard_tab_effect c c)"
    using t(4-7) by (simp_all add: p' round_device(2,3) round_session)
qed

text \<open>The device the address asks for is waited for, and opened when it is listed.\<close>

lemma pending_kept:
  assumes "page_ok ps p" "pg_pending p = a" "trim a = a"
    "\<And>n. n \<le> length es \<Longrightarrow> a \<notin> set (aliases (pg_sel (fold (page_step lc dp) (take n es) p)))"
  shows "page_ok ps (fold (page_step lc dp) es p) \<and> pg_pending (fold (page_step lc dp) es p) = a"
  using assms(4)
proof (induction es rule: rev_induct)
  case Nil
  then show ?case using assms by simp
next
  case (snoc e es)
  let ?q = "fold (page_step lc dp) es p"
  have "a \<notin> set (aliases (pg_sel (fold (page_step lc dp) (take n es) p)))" if "n \<le> length es" for n
    using snoc.prems [of n] that by simp
  with snoc.IH have q: "page_ok ps ?q" "pg_pending ?q = a"
    by blast+
  have "a \<notin> set (aliases (pg_sel (page_step lc dp e ?q)))"
    using snoc.prems [of "Suc (length es)"] by simp
  then have "pg_device (page_step lc dp e ?q) = (pg_active (page_step lc dp e ?q), a)"
    using page_step_parts(3,4) [OF q(1), of lc dp e] q(2) assms(3) by (auto simp: next_device_def split: if_splits)
  then show ?case
    using page_ok_step [OF q(1)] by simp
qed

lemma panel_of_shown:
  assumes "shows_page p ps" "pg_panel p \<in> set PANELS"
  shows "panel_of ps = Some (pg_panel p)"
proof -
  have "list_all (\<lambda>k. let v = to_lower (trim (panel_query k)) in v \<noteq> [] \<and> map_of PANEL_QUERY_TO_KEY v = Some k) PANELS"
    by code_simp
  then show ?thesis
    using assms by (simp add: list_all_iff shows_page_def panel_of_def tidy_param_def opt_list_def Let_def)
qed

subsection \<open>Properties\<close>

text \<open>
  The address holds the open panel, the mode and the active device in every run, whatever the page was opened with, and keeps
  every other parameter; the mode is the one stored for the workspace.
\<close>

theorem address_names_page:
  "let p = fold (page_step lc dp) es (open_page ps roles ws local window session) in
     pg_panel p \<in> set PANELS \<and> usp_get ''ui_panel'' (pg_params p) = map_of PANEL_KEY_TO_QUERY (pg_panel p)
     \<and> usp_get ''ui_mode'' (pg_params p) = Some (mode_str (pg_mode p))
     \<and> usp_get ''ui_device'' (pg_params p) = (if pg_active p = [] then None else Some (pg_active p))
     \<and> (\<forall>k. usp_get k (pg_params p) = usp_get k ps \<or> k \<in> {''ui_panel'', ''ui_mode'', ''ui_device''})
     \<and> (no_id (pg_workspace p) \<or> stored_mode (the (pg_workspace p)) p = Some (pg_mode p))"
proof -
  define p where "p = fold (page_step lc dp) es (open_page ps roles ws local window session)"
  have ok: "page_ok ps p"
    unfolding p_def by (rule page_ok_run)
  have "set PANELS \<subseteq> fst ` set PANEL_KEY_TO_QUERY"
    by code_simp
  with ok obtain q where q: "map_of PANEL_KEY_TO_QUERY (pg_panel p) = Some q"
    by (metis page_ok_def subsetD map_of_eq_None_iff not_None_eq)
  show ?thesis
    unfolding p_def [symmetric] Let_def
    using ok by (auto simp: page_ok_def shows_page_def panel_query_def q nonempty_id_def)
qed

text \<open>
  C28: the page opened again at the address of any run shows the same panel in the same mode. It opens the device that was active as
  soon as that device is listed, whatever happens in between, if its alias has no white space around it and the page has not
  listed it before. The tab of the account panel is not kept: the address says \<open>settings\<close> for all of them.
\<close>

theorem reload_keeps_page:
  fixes lc dp es ps roles ws local window session
  defines "p \<equiv> fold (page_step lc dp) es (open_page ps roles ws local window session)"
  assumes "p' = open_page (pg_params p) roles' ws' local' window' session'"
  shows "pg_panel p' = pg_panel p \<and> pg_mode p' = pg_mode p
    \<and> (trim (pg_active p) = pg_active p \<and> pg_active p \<noteq> []
        \<and> (\<forall>n \<le> length es'. pg_active p \<notin> set (aliases (pg_sel (fold (page_step lc dp) (take n es') p'))))
        \<and> pg_active p \<in> set (aliases (pg_sel (fold (page_step lc dp) (es' @ [e]) p')))
        \<longrightarrow> pg_active (fold (page_step lc dp) (es' @ [e]) p') = pg_active p)"
proof (intro conjI impI)
  have ok: "page_ok ps p"
    unfolding p_def by (rule page_ok_run)
  then have shown: "shows_page p (pg_params p)" "pg_panel p \<in> set PANELS"
    by (simp_all add: page_ok_def)
  note o = open_page_ok [of "pg_params p" roles' ws' local' window' session', folded assms(2)]
  show "pg_panel p' = pg_panel p" "pg_mode p' = pg_mode p"
    using panel_of_shown [OF shown] tidy_mode [OF shown(1)] by (simp_all add: o(2,3) given_or_def opened_mode_def)
  let ?r = "fold (page_step lc dp) es' p'"
  assume a: "trim (pg_active p) = pg_active p \<and> pg_active p \<noteq> []
        \<and> (\<forall>n \<le> length es'. pg_active p \<notin> set (aliases (pg_sel (fold (page_step lc dp) (take n es') p'))))
        \<and> pg_active p \<in> set (aliases (pg_sel (fold (page_step lc dp) (es' @ [e]) p')))"
  then have tidy: "trim (pg_active p) = pg_active p" "pg_active p \<noteq> []"
    and listed: "pg_active p \<in> set (aliases (pg_sel (page_step lc dp e ?r)))"
    and unlisted: "\<And>n. n \<le> length es' \<Longrightarrow> pg_active p \<notin> set (aliases (pg_sel (fold (page_step lc dp) (take n es') p')))"
    by simp_all
  have "pg_pending p' = pg_active p"
    using shown tidy by (simp add: o(5) shows_page_def nonempty_id_def opt_list_def)
  then have "page_ok (pg_params p) ?r \<and> pg_pending ?r = pg_active p"
    by (rule pending_kept [OF o(1) _ tidy(1) unlisted])
  then have "pg_device (page_step lc dp e ?r) = (pg_active p, [])"
    using page_step_parts(3,4) [of "pg_params p" ?r lc dp e] tidy listed by (simp add: next_device_def)
  then show "pg_active (fold (page_step lc dp) (es' @ [e]) p') = pg_active p"
    by simp
qed

text \<open>
  Opening a workspace never brings its own mode back: the mode stays as it is, because the address names it by then, and it is
  stored for the workspace in place of the one that was stored.
\<close>

theorem opening_overwrites_mode:
  assumes "p = fold (page_step lc dp) es (open_page ps roles ws local window session)" "w \<noteq> []"
  shows "pg_mode (page_step lc dp (Open_workspace w) p) = pg_mode p \<and> stored_mode w (page_step lc dp (Open_workspace w) p) = Some (pg_mode p)"
proof -
  have ok: "page_ok ps p"
    unfolding assms(1) by (rule page_ok_run)
  have c: "pg_mode (page_action lc dp (Open_workspace w) p) = pg_mode p" "pg_workspace (page_action lc dp (Open_workspace w) p) = Some w"
    by (simp_all add: open_workspace_def page_parts)
  note s = page_step_parts [OF ok, of lc dp "Open_workspace w"]
  have "pg_mode (page_step lc dp (Open_workspace w) p) = pg_mode p" "pg_workspace (page_step lc dp (Open_workspace w) p) = Some w"
    using s(2,5) unfolding c by simp_all
  moreover have "no_id (Some w) \<longleftrightarrow> False"
    using assms(2) by (simp add: no_id_def)
  ultimately show ?thesis
    using page_ok_step [OF ok, of lc dp "Open_workspace w"] by (simp add: page_ok_def)
qed

subsection \<open>The session\<close>

lemma id_chars_fix: "list_all id_char v \<Longrightarrow> to_lower (trim v) = v"
proof -
  assume v: "list_all id_char v"
  have chars: "list_all (\<lambda>c. \<not> ws_char c \<and> lower_char c = c) ''abcdefghijklmnopqrstuvwxyz0123456789._-''"
    by code_simp
  then have c: "\<not> ws_char c \<and> lower_char c = c" if "c \<in> set v" for c
    using v that chars unfolding list_all_iff id_char_def by blast
  have "trimmed v"
    using c by (cases "v = []") (simp_all add: trimmed_def)
  moreover have "map lower_char v = v"
    using c by (simp add: map_idI)
  ultimately show ?thesis
    by (simp add: to_lower_def)
qed

lemma normalizeUserId_idem [simp]: "normalizeUserId (normalizeUserId v) = normalizeUserId v"
proof -
  have "list_all id_char (normalizeUserId v)"
    by (simp add: normalizeUserId_def list_all_iff)
  then have "to_lower (trim (normalizeUserId v)) = normalizeUserId v"
    by (rule id_chars_fix)
  moreover have "filter id_char (normalizeUserId v) = normalizeUserId v"
    by (simp add: normalizeUserId_def)
  ultimately show ?thesis
    by (subst normalizeUserId_def) (simp only:)
qed

text \<open>
  In every run the settings panel and the bar at the foot of the page know the session that is stored, and billing, members and
  the audit log are shown in a session only.
\<close>

theorem session_is_known:
  "let p = fold (page_step lc dp) es (open_page ps roles ws local window session) in
     av_userId (pg_account p) = readUserId p \<and> pg_user p = readUserIdFromStorage p
     \<and> (\<not> protected_tab (effectiveTab p) \<or> (\<exists>u. readUserId p = Some u))
     \<and> (\<not> protected_tab (pg_tab p) \<or> effectiveTab p = pg_tab p \<or> av_authOpen (pg_account p))"
proof -
  define p where "p = fold (page_step lc dp) es (open_page ps roles ws local window session)"
  have "page_ok ps p"
    unfolding p_def by (rule page_ok_run)
  then have "av_userId (pg_account p) = readUserId p" "pg_user p = readUserIdFromStorage p"
    "protected_tab (pg_tab p) \<longrightarrow> av_userId (pg_account p) \<noteq> None \<or> av_authOpen (pg_account p)"
    unfolding page_ok_def by blast+
  moreover have "\<not> protected_tab Tab_general"
    by (simp add: protected_tab_def)
  ultimately show ?thesis
    unfolding p_def [symmetric] Let_def by (cases "readUserId p") (auto simp: effectiveTab_def)
qed

lemma opened_session:
  fixes ps roles ws local window session
  defines "p \<equiv> open_page ps roles ws local window session"
  assumes "map_of local USER_STORAGE_KEY = None" "protected_tab (address_tab ps)"
  shows "pg_tab p = Tab_general" "av_authOpen (pg_account p)" "\<not> av_register (pg_account p)" "av_pendingTab (pg_account p) = Some (address_tab ps)"
    "av_userId (pg_account p) = None"
proof -
  let ?p0 = "initial_page ps roles ws local window session"
  let ?p1 = "page_effects None ?p0"
  let ?p2 = "page_effects (Some ?p0) ?p1"
  note o = opening_round [of ps roles ws local window session]
  note f = pre_to_first [OF pre_round_open [of ps roles ws local window session]]
  note t = settled_page [OF f(1)]
  have p: "p = page_effects (Some ?p2) (page_effects (Some ?p1) ?p2)"
    by (simp add: p_def open_page_def render_page_def Let_def)
  have "readUserId ?p0 = None"
    using assms(2) by (simp add: readUserId_def initial_page_def opt_list_def nonempty_id_def normalizeUserId_def trim_def trim_start_def
        trim_end_def to_lower_def)
  moreover have "\<not> av_authOpen (pg_account ?p0)"
    by (simp add: initial_page_def)
  ultimately have "guard_tab_effect ?p1 ?p1 = openAuth False (Some (address_tab ps)) (?p1\<lparr>pg_tab := Tab_general\<rparr>)"
    using assms(3) by (simp add: guard_tab_effect_def o)
  then have "pg_tab ?p2 = Tab_general" "pg_account ?p2 = pg_account (openAuth False (Some (address_tab ps)) (?p1\<lparr>pg_tab := Tab_general\<rparr>))"
    by (simp_all add: round_session openAuth_def page_parts)
  then show "pg_tab p = Tab_general" "av_authOpen (pg_account p)" "\<not> av_register (pg_account p)"
    "av_pendingTab (pg_account p) = Some (address_tab ps)" "av_userId (pg_account p) = None"
    using t(4,5) \<open>readUserId ?p0 = None\<close> unfolding p by (simp_all add: openAuth_def o(11) on_account_def)
qed

text \<open>
  A link to billing, to the members or to the audit log asks a visitor for a session and opens that tab once the dialog is
  confirmed; an id without a letter, digit, dot, dash or underscore is refused and the dialog stays.
\<close>

theorem sign_in_opens_tab:
  assumes "p = open_page ps roles ws local window session"
    and "map_of local USER_STORAGE_KEY = None" "protected_tab (address_tab ps)"
  shows "let q = fold (page_step lc dp) [Type_user_id v, Submit_auth] p in
    effectiveTab p = Tab_general \<and> av_authOpen (pg_account p)
    \<and> (if normalizeUserId v = []
       then av_authError (pg_account q) = Some ''Please enter a user id.'' \<and> av_authOpen (pg_account q) \<and> readUserId q = None
       else effectiveTab q = address_tab ps \<and> readUserId q = Some (normalizeUserId v) \<and> \<not> av_authOpen (pg_account q))"
proof -
  note o = opened_session [OF assms(2,3), of roles ws window session, folded assms(1)]
  have ok: "page_ok ps p"
    unfolding assms(1) by (rule open_page_ok)
  define p1 where "p1 = page_step lc dp (Type_user_id v) p"
  define p2 where "p2 = page_step lc dp Submit_auth p1"
  have ok1: "page_ok ps p1" and ok2: "page_ok ps p2"
    using ok by (simp_all add: p1_def p2_def page_ok_step)
  note s1 = page_step_parts(6,7) [OF ok, of lc dp "Type_user_id v", folded p1_def]
  note s2 = page_step_parts(6,7) [OF ok1, of lc dp Submit_auth, folded p2_def]
  have gen: "\<not> protected_tab Tab_general"
    by (simp add: protected_tab_def)
  have g1: "guard_tab_effect c c = c" if "pg_tab c = Tab_general" for c
    using that gen by (intro guard_idle) simp
  have a1: "pg_tab p1 = Tab_general" "pg_account p1 = (pg_account p)\<lparr>av_form := (av_form (pg_account p))\<lparr>af_userId := v\<rparr>\<rparr>"
    using s1 o(1) g1 [of "page_action lc dp (Type_user_id v) p"] by (simp_all add: on_account_def)
  show ?thesis
  proof (cases "normalizeUserId v = []")
    case True
    let ?c = "page_action lc dp Submit_auth p1"
    have "?c = auth_failed ''Please enter a user id.'' (on_account (\<lambda>a. a\<lparr>av_authError := None\<rparr>) p1)"
      using True o a1 by (simp add: submit_auth_def submitLogin_def Let_def)
    then have "pg_tab ?c = Tab_general" and acc: "pg_account ?c = (pg_account p1)\<lparr>av_authError := Some ''Please enter a user id.''\<rparr>"
      using a1(1) by (simp_all add: auth_failed_def on_account_def)
    then have "pg_account p2 = (pg_account p1)\<lparr>av_authError := Some ''Please enter a user id.''\<rparr>"
      using s2(2) g1 [of ?c] by simp
    then show ?thesis
      using True o a1 gen ok2 by (simp add: p1_def [symmetric] p2_def [symmetric] effectiveTab_def page_ok_def)
  next
    case False
    let ?c = "page_action lc dp Submit_auth p1"
    have c: "?c = session_begun (normalizeUserId v) (on_account (\<lambda>a. a\<lparr>av_authError := None\<rparr>) p1)"
      using False o a1 by (simp add: submit_auth_def submitLogin_def Let_def)
    have user: "av_userId (pg_account ?c) = Some (normalizeUserId v)" and open': "\<not> av_authOpen (pg_account ?c)" and tab: "pg_tab ?c = address_tab ps"
      unfolding c using o(4) a1 False
      by (simp_all add: session_begun_def session_updated_def readUserId_def opt_list_def nonempty_id_def page_parts update_conv')
    then have g: "guard_tab_effect ?c ?c = ?c"
      by (intro guard_idle) simp
    have "pg_tab p2 = address_tab ps" "pg_account p2 = pg_account ?c"
      using s2 g tab by simp_all
    moreover have "readUserId p2 = Some (normalizeUserId v)"
      using ok2 user \<open>pg_account p2 = pg_account ?c\<close> by (simp add: page_ok_def)
    ultimately show ?thesis
      using False user open' o gen by (simp add: p1_def [symmetric] p2_def [symmetric] effectiveTab_def page_ok_def)
  qed
qed

subsection \<open>Selections of two workspaces\<close>

lemma storage_frames [simp]:
  "pg_storage (session_effect prev st) = pg_storage st" "pg_storage (guard_tab_effect cap st) = pg_storage st"
  "pg_storage (load_roles_effect prev st) = pg_storage st" "pg_storage (restore_active_effect cap st) = pg_storage st"
  "pg_storage (pending_effect cap st) = pg_storage st" "pg_storage (record_active_effect cap st) = pg_storage st"
  "pg_storage (reset_effect prev cap st) = pg_storage st" "pg_storage (read_mode_effect prev cap st) = pg_storage st"
  "pg_storage (store_mode_effect prev cap st) = pg_storage st" "pg_storage (write_address_effect prev cap st) = pg_storage st"
  "pg_storage (enabled_panel_effect cap st) = pg_storage st"
  by (simp_all add: effect_defs split: option.split)

lemma chosen_frames [simp]:
  "ss_selected (restore_active wanted csel sel) = ss_selected sel" "ss_plans (restore_active wanted csel sel) = ss_plans sel"
  "ss_plans (record_active csel sel) = ss_plans sel"
  "ss_selected (pg_sel (enabled_panel_effect cap st)) = ss_selected (pg_sel st)"
  "ss_plans (pg_sel (enabled_panel_effect cap st)) = ss_plans (pg_sel st)"
  "ss_selected (pg_sel (pending_effect cap st)) = ss_selected (pg_sel st)" "ss_plans (pg_sel (pending_effect cap st)) = ss_plans (pg_sel st)"
  "ss_selected (pg_sel (restore_active_effect cap st)) = ss_selected (pg_sel st)"
  "ss_plans (pg_sel (restore_active_effect cap st)) = ss_plans (pg_sel st)"
  "ss_plans (pg_sel (record_active_effect cap st)) = ss_plans (pg_sel st)"
  by (auto simp: restore_active_def record_active_def enabled_panel_effect_def pending_effect_def restore_active_effect_def
      record_active_effect_def page_parts)

definition active_recorded :: "page \<Rightarrow> bool" where
  "active_recorded p \<longleftrightarrow> pg_active p = [] \<or> map_of (ss_selected (pg_sel p)) (pg_active p) \<noteq> None"

abbreviation chosen :: "page \<Rightarrow> string option \<times> (string \<times> string list) list \<times> (string \<times> (string \<times> string option) list) list" where
  "chosen p \<equiv> (pg_workspace p, ss_selected (pg_sel p), ss_plans (pg_sel p))"

lemma round_storage:
  "pg_storage (page_effects (Some q) cap) =
     (if chosen q = chosen cap then pg_storage cap
      else the (useWorkspaceSelectionStorage (pg_workspace cap) (ss_selected (pg_sel cap)) (ss_plans (pg_sel cap)) (Some (pg_storage cap))))"
  by (simp add: page_effects_def store_selection_effect_def changed_def del: prod.inject)

lemma round_chosen:
  assumes "active_recorded cap"
  shows "chosen (page_effects (Some q) cap) =
     (if pg_workspace q = pg_workspace cap then chosen cap
      else (pg_workspace cap, readSelectedByAlias (pg_workspace cap) (Some (pg_storage (page_effects (Some q) cap))),
            readSelectedPlansByAlias (pg_workspace cap) (Some (pg_storage (page_effects (Some q) cap)))))"
proof -
  have "record_active_effect cap st = st" if "ss_selected (pg_sel st) = ss_selected (pg_sel cap)" for st
    using assms that by (auto simp: active_recorded_def record_active_effect_def record_active_def page_parts)
  then show ?thesis
    by (simp add: round_device(3)) (simp add: page_effects_def reset_effect_def changed_def fresh_run_def fresh_selection_def)
qed

lemma stored_by_hook:
  fixes w S P items
  assumes "w \<noteq> []"
  defines "items' \<equiv> the (useWorkspaceSelectionStorage (Some w) S P (Some items))"
  shows "map_of items' (selectedByAliasKey w) = Some (serialized_selected S)" "map_of items' (selectedPlansByAliasKey w) = Some (serialized_plans P)"
  using assms storage_keys_differ [of w w] by (simp_all add: items'_def useWorkspaceSelectionStorage_def update_conv')

text \<open>
  Opening another workspace takes the selection and the plans along: the hook of the storage runs before the selection is read
  for the new workspace, so what was stored for it is overwritten, and the page goes on with the selection of the old one, and with its devices.
\<close>

theorem opening_copies_selection:
  assumes "p = fold (page_step lc dp) es (open_page ps roles ws local window session)"
    and "w \<noteq> []" "pg_workspace p \<noteq> Some w" "clean_selected (ss_selected (pg_sel p))" "clean_plans (ss_plans (pg_sel p))" "active_recorded p"
  shows "let p' = page_step lc dp (Open_workspace w) p in
    aliases (pg_sel p') = aliases (pg_sel p) \<and> map_of (ss_selected (pg_sel p')) = map_of (ss_selected (pg_sel p))
    \<and> (\<lambda>a. map_option map_of (map_of (ss_plans (pg_sel p')) a)) = (\<lambda>a. map_option map_of (map_of (ss_plans (pg_sel p)) a))
    \<and> map_of (pg_storage p') (selectedByAliasKey w) = Some (serialized_selected (ss_selected (pg_sel p')))
    \<and> map_of (pg_storage p') (selectedPlansByAliasKey w) = Some (serialized_plans (ss_plans (pg_sel p')))"
proof -
  have ok: "page_ok ps p"
    unfolding assms(1) by (rule page_ok_run)
  define c where "c = page_action lc dp (Open_workspace w) p"
  define p1 where "p1 = page_effects (Some p) c"
  define p2 where "p2 = page_effects (Some c) p1"
  define p3 where "p3 = page_effects (Some p1) p2"
  let ?S = "ss_selected (pg_sel p)" and ?P = "ss_plans (pg_sel p)"
  have c: "pg_workspace c = Some w" "ss_selected (pg_sel c) = ?S" "ss_plans (pg_sel c) = ?P" "pg_active c = pg_active p"
    "pg_pending c = pg_pending p" "aliases (pg_sel c) = aliases (pg_sel p)" "pg_storage c = pg_storage p"
    by (simp_all add: c_def open_workspace_def aliases_def page_parts)
  let ?items = "the (useWorkspaceSelectionStorage (Some w) ?S ?P (Some (pg_storage p)))"
  have store1: "pg_storage p1 = ?items"
    using assms(3) by (simp add: p1_def round_storage c)
  have rec0: "active_recorded c"
    using assms(6) by (simp add: active_recorded_def c)
  have ch1: "chosen p1 = (Some w, readSelectedByAlias (Some w) (Some ?items), readSelectedPlansByAlias (Some w) (Some ?items))"
    using round_chosen [OF rec0, of p] assms(3) store1 by (simp add: p1_def [symmetric] c)
  have S1: "map_of (ss_selected (pg_sel p1)) = map_of ?S"
    and P1: "(\<lambda>a. map_option map_of (map_of (ss_plans (pg_sel p1)) a)) = (\<lambda>a. map_option map_of (map_of ?P a))"
    using ch1 assms(2,4,5)
    by (simp_all add: useWorkspaceSelectionStorage_def readSelectedByAlias_def readSelectedPlansByAlias_def stored_item_def
        map_of_parse_selected map_of_parse_plans update_conv' storage_keys_differ [of w w])
  have d1: "pg_active p1 = pg_active p"
    using round_device(1) [of p c] ok by (simp add: p1_def c page_ok_def)
  have rec1: "active_recorded p1"
    using assms(6) by (simp add: active_recorded_def S1 d1)
  have ch2: "chosen p2 = chosen p1"
    using round_chosen [OF rec1, of c] c(1) ch1 by (simp add: p2_def)
  have "pg_device p2 = pg_device p1"
    using round_device(1,2) [of p c] round_device(1) [of c p1]
    by (simp add: p1_def [symmetric] p2_def [symmetric] next_device_idem del: prod.inject)
  then have d2: "pg_active p2 = pg_active p1"
    by simp
  have rec2: "active_recorded p2"
    using rec1 ch2 by (simp add: active_recorded_def d2)
  have ch3: "chosen p3 = chosen p1"
    using round_chosen [OF rec2, of p1] ch2 by (simp add: p3_def)
  have store3: "pg_storage p3 = pg_storage p2"
    using ch2 by (simp add: p3_def round_storage)
  have "map_of (pg_storage p2) (selectedByAliasKey w) = Some (serialized_selected (ss_selected (pg_sel p1)))
      \<and> map_of (pg_storage p2) (selectedPlansByAliasKey w) = Some (serialized_plans (ss_plans (pg_sel p1)))"
  proof (cases "chosen c = chosen p1")
    case True
    then have "pg_storage p2 = ?items"
      unfolding p2_def round_storage store1 by (rule if_P)
    then show ?thesis
      using True stored_by_hook [OF assms(2), of ?S ?P "pg_storage p"] c by simp
  next
    case False
    then have "pg_storage p2 = the (useWorkspaceSelectionStorage (pg_workspace p1) (ss_selected (pg_sel p1)) (ss_plans (pg_sel p1)) (Some (pg_storage p1)))"
      unfolding p2_def round_storage by (rule if_not_P)
    moreover have "pg_workspace p1 = Some w"
      using ch1 by simp
    ultimately show ?thesis
      using stored_by_hook [OF assms(2)] by simp
  qed
  moreover have "page_step lc dp (Open_workspace w) p = p3"
    by (simp add: page_step_def render_page_def Let_def p3_def p2_def p1_def c_def)
  moreover have "aliases (pg_sel p3) = aliases (pg_sel p)"
    by (simp add: p3_def p2_def p1_def round_device(2) c(6))
  ultimately show ?thesis
    using ch3 S1 P1 store3 by (simp add: Let_def)
qed

text \<open>Leaving the expert mode on a panel of this mode leaves the page on a panel without a tab, and with both buttons disabled.\<close>

lemma index_in_none: "x \<notin> set xs \<Longrightarrow> index_in x xs = None"
  by (induction xs) auto

theorem leaving_expert_strands:
  assumes "p = fold (page_step lc dp) es (open_page ps roles ws local window session)"
    and "pg_mode p = Expert_mode" "pg_panel p \<in> {''inventory'', ''deploy''}"
  shows "let q = page_step lc dp Press_mode p in
    pg_mode q = Customer_mode \<and> pg_panel q = pg_panel p \<and> pg_panel q \<notin> set (visiblePanels q) \<and> previous_panel q = None \<and> next_panel q = None"
proof -
  have ok: "page_ok ps p"
    unfolding assms(1) by (rule page_ok_run)
  let ?q = "page_step lc dp Press_mode p"
  have "pg_mode ?q = Customer_mode" "pg_panel ?q = pg_panel p"
    using page_step_parts(1,2) [OF ok, of lc dp Press_mode] assms(2) by (simp_all add: handleModeChange_def)
  moreover from this have "pg_panel ?q \<notin> set (visiblePanels ?q)"
    using assms(3) by (auto simp: visiblePanels_def)
  ultimately show ?thesis
    by (simp add: Let_def previous_panel_def next_panel_def index_in_none)
qed

subsection \<open>Examples\<close>

definition web_listed :: page_event where
  "web_listed = Running (Servers (Apply_roles [(''web'', [''wiki''])]))"

definition demo_address :: "(string \<times> string) list" where
  "demo_address = [(''lang'', ''en''), (''ui_panel'', ''setup''), (''ui_mode'', ''expert'')]"

definition demo_open :: page where
  "demo_open = open_page demo_address [] (Some ''w1'') [] [] None"

definition demo_page :: page where
  "demo_page = fold (page_step cu_cmp (\<lambda>_. ''community'')) [web_listed] demo_open"

lemma demo_open_view:
  "page_ok demo_address demo_open" "pg_panel demo_open = ''deploy''" "pg_mode demo_open = Expert_mode" "pg_active demo_open = []"
  "pg_pending demo_open = []" "aliases (pg_sel demo_open) = []"
proof -
  have "panel_of demo_address = Some ''deploy''" "mode_of (tidy_param ''ui_mode'' demo_address) = Some Expert_mode"
    "usp_get ''ui_device'' demo_address = None"
    by code_simp+
  then show "page_ok demo_address demo_open" "pg_panel demo_open = ''deploy''" "pg_mode demo_open = Expert_mode" "pg_active demo_open = []"
    "pg_pending demo_open = []" "aliases (pg_sel demo_open) = []"
    by (simp_all add: demo_open_def open_page_ok given_or_def opened_mode_def opt_list_def trim_def trim_start_def trim_end_def del: aliases_Nil)
qed

text \<open>The device is listed on a page that has none.\<close>

lemma web_listed_action:
  assumes "aliases (pg_sel p) = []" "pg_active p = []"
  shows "aliases (pg_sel (page_action cu_cmp (\<lambda>_. ''community'') web_listed p)) = [''web'']"
    "pg_active (page_action cu_cmp (\<lambda>_. ''community'') web_listed p) = ''web''"
    "pg_panel (page_action cu_cmp dp web_listed p) = pg_panel p" "pg_mode (page_action cu_cmp dp web_listed p) = pg_mode p"
    "pg_workspace (page_action cu_cmp dp web_listed p) = pg_workspace p"
proof -
  have names: "role_aliases [(''web'', [''wiki''])] = [''web'']" "map sv_alias (servers_for cu_cmp [''web''] []) = [''web'']"
    by code_simp+
  show "aliases (pg_sel (page_action cu_cmp (\<lambda>_. ''community'') web_listed p)) = [''web'']"
    "pg_active (page_action cu_cmp (\<lambda>_. ''community'') web_listed p) = ''web''"
    "pg_panel (page_action cu_cmp dp web_listed p) = pg_panel p" "pg_mode (page_action cu_cmp dp web_listed p) = pg_mode p"
    "pg_workspace (page_action cu_cmp dp web_listed p) = pg_workspace p"
    using assms names by (simp_all add: web_listed_def applySelectedRolesByAlias_def Let_def aliases_def [of "x\<lparr>ss_servers := y\<rparr>" for x y])
qed

lemma demo_page_view:
  "page_ok demo_address demo_page" "pg_panel demo_page = ''deploy''" "pg_mode demo_page = Expert_mode" "pg_active demo_page = ''web''"
proof -
  note s = page_step_parts [OF demo_open_view(1), of cu_cmp "\<lambda>_. ''community''" web_listed]
  note a = web_listed_action [OF demo_open_view(6,4)]
  show "page_ok demo_address demo_page"
    by (simp add: demo_page_def page_ok_step demo_open_view(1))
  show "pg_panel demo_page = ''deploy''" "pg_mode demo_page = Expert_mode"
    using s(1,2) demo_open_view(2,3) by (simp_all add: demo_page_def a)
  show "pg_active demo_page = ''web''"
    using s(3) demo_open_view(5) unfolding a(1,2) by (simp add: demo_page_def next_device_def trim_def trim_start_def trim_end_def)
qed

theorem reload_keeps_page_witness:
  "let p' = open_page (pg_params demo_page) [] (Some ''w1'') [] [] None;
       q = page_step cu_cmp (\<lambda>_. ''community'') web_listed (page_step cu_cmp (\<lambda>_. ''community'') Press_next p')
   in pg_panel p' = ''deploy'' \<and> pg_mode p' = Expert_mode \<and> pg_active q = ''web''"
proof -
  let ?dp = "\<lambda>_::string. ''community''"
  define p' where "p' = open_page (pg_params demo_page) [] (Some ''w1'') [] [] None"
  define p1 where "p1 = page_step cu_cmp ?dp Press_next p'"
  note o = open_page_ok [of "pg_params demo_page" "[]" "Some ''w1''" "[]" "[]" None, folded p'_def]
  note s = page_step_parts [OF o(1), of cu_cmp ?dp Press_next, folded p1_def]
  have c: "pg_sel (page_action cu_cmp ?dp Press_next p') = pg_sel p'"
    by (simp add: setActivePanel_def split: option.split)
  have none: "aliases (pg_sel p1) = []" "pg_active p1 = []"
    using s(3,4) o(4,6) unfolding c by (simp_all add: next_device_def split: if_splits)
  have ok1: "page_ok (pg_params demo_page) p1"
    unfolding p1_def by (rule page_ok_step [OF o(1)])
  have listed: "aliases (pg_sel (page_step cu_cmp ?dp web_listed p1)) = [''web'']"
    using page_step_parts(4) [OF ok1, of cu_cmp ?dp web_listed] web_listed_action(1) [OF none] by simp
  note k = reload_keeps_page [OF p'_def [unfolded demo_page_def demo_open_def], where es' = "[Press_next]" and e = web_listed,
      folded demo_open_def, folded demo_page_def, simplified fold_append o_apply fold_simps, folded p1_def]
  have "pg_active demo_page \<notin> set (aliases (pg_sel (fold (page_step cu_cmp ?dp) (take n [Press_next]) p')))" if "n \<le> length [Press_next]" for n
  proof (cases n)
    case 0
    show ?thesis unfolding 0 by (simp add: o(6) del: aliases_Nil)
  next
    case (Suc m)
    then show ?thesis using that none(1) by (simp add: p1_def del: aliases_Nil)
  qed
  moreover have "trim (pg_active demo_page) = pg_active demo_page" "pg_active demo_page \<noteq> []"
    unfolding demo_page_view by code_simp+
  moreover have "pg_active demo_page \<in> set (aliases (pg_sel (page_step cu_cmp ?dp web_listed p1)))"
    by (simp add: listed demo_page_view)
  ultimately have "pg_active (page_step cu_cmp ?dp web_listed p1) = pg_active demo_page"
    using k by blast
  then show ?thesis
    using k by (simp add: demo_page_view p'_def [symmetric] p1_def [symmetric] Let_def)
qed

theorem opening_overwrites_mode_witness:
  "pg_mode (page_step cu_cmp (\<lambda>_. ''community'') (Open_workspace ''w2'') demo_page) = Expert_mode"
  using opening_overwrites_mode [OF demo_page_def [unfolded demo_open_def], of "''w2''"] by (simp add: demo_page_view)

theorem leaving_expert_strands_witness:
  "next_panel (page_step cu_cmp (\<lambda>_. ''community'') Press_mode demo_page) = None"
  using leaving_expert_strands [OF demo_page_def [unfolded demo_open_def]] by (simp add: demo_page_view Let_def)

theorem sign_in_opens_tab_witness:
  "let p = open_page [(''ui_panel'', ''rbac'')] [] None [] [] None;
       q = fold (page_step cu_cmp (\<lambda>_. ''community'')) [Type_user_id ''Ada '', Submit_auth] p
   in av_authOpen (pg_account p) \<and> effectiveTab q = Tab_rbac \<and> readUserId q = Some ''ada''"
proof -
  have t: "address_tab [(''ui_panel'', ''rbac'')] = Tab_rbac" "normalizeUserId ''Ada '' = ''ada''"
    by code_simp+
  have "protected_tab (address_tab [(''ui_panel'', ''rbac'')])"
    by (simp add: t protected_tab_def)
  from sign_in_opens_tab [OF refl _ this, where roles = "[]" and ws = None and local = "[]" and window = "[]" and session = None
      and v = "''Ada ''" and lc = cu_cmp and dp = "\<lambda>_. ''community''"] show ?thesis
    by (simp add: t Let_def)
qed

definition w1_stored :: storage where
  "w1_stored = [(selectedByAliasKey ''w1'', JObj [(''web'', JArr [JStr ''wiki''])]), (selectedByAliasKey ''w2'', JObj [(''db'', JArr [JStr ''blog''])])]"

lemma w1_opened:
  "chosen (open_page [] [] (Some ''w1'') [] w1_stored None) = (Some ''w1'', [(''web'', [''wiki''])], [])"
  by code_simp

theorem opening_copies_selection_witness:
  "map_of (ss_selected (pg_sel (page_step cu_cmp (\<lambda>_. ''community'') (Open_workspace ''w2'') (open_page [] [] (Some ''w1'') [] w1_stored None))))
     = [''web'' \<mapsto> [''wiki'']]"
proof -
  define p where "p = open_page [] [] (Some ''w1'') [] w1_stored None"
  have c: "pg_workspace p = Some ''w1''" "ss_selected (pg_sel p) = [(''web'', [''wiki''])]" "ss_plans (pg_sel p) = []"
    using w1_opened by (simp_all add: p_def)
  have "active_recorded p"
    by (simp add: active_recorded_def p_def open_page_ok(4))
  moreover have "clean_selected (ss_selected (pg_sel p))" "clean_plans (ss_plans (pg_sel p))"
    unfolding c by code_simp+
  ultimately have "map_of (ss_selected (pg_sel (page_step cu_cmp (\<lambda>_. ''community'') (Open_workspace ''w2'') p))) = map_of (ss_selected (pg_sel p))"
    using opening_copies_selection [where p = p and lc = cu_cmp and dp = "\<lambda>_. ''community''" and es = "[]" and ps = "[]" and roles = "[]"
      and ws = "Some ''w1''" and local = "[]" and window = w1_stored and session = None and w = "''w2''"] c
    by (simp add: p_def Let_def)
  then show ?thesis
    by (simp add: c p_def [symmetric] fun_eq_iff)
qed

end
