(* ===== verification/Spec2Isabelle.thy ===== *)
theory Spec2Isabelle
  imports SelectionStorage DashboardQuery AliasRaces OrphanCleanup WorkspaceRuns WorkspaceNav ZipImport ServerActions ServerList RoleSelection UsersEditor LiveDelivery DeployRuntime UsersSync
    EditorSafety VaultActions SelectionCalls WorkspacePage
begin

text \<open>
  A verification development for the web client of Infinito.Nexus, a graphical front end with which a user
  collects servers (devices), chooses application roles for them, edits the files of a workspace and deploys
  (\<open>src/apps/web/app\<close>, TypeScript). The Python backend is reached by requests; its answers are values the
  environment gives.

  \<^bold>\<open>The program's parts and how they meet.\<close> The workspace page holds the servers and the roles, plans and
  deployment choices made for them (\<open>deployment-workspace/\<close>). The role dashboard (\<open>role-dashboard/\<close>) filters the
  catalog and asks the page to toggle roles or to apply a bundle. The forms of the servers
  (\<open>deployment-credentials/\<close>, \<open>deployment/CredentialsForm.tsx\<close>) change a server and store it. The workspace panel
  (\<open>workspace-panel/\<close>) holds the files: it keeps \<open>inventory.yml\<close> in line with the selection, edits files and
  the vault values inside them, the users and the credentials. Changes of the servers reach the files through three
  queues (renamed, deleted and purged aliases) that the panel's effects take one by one. The runtime
  (\<open>useWorkspaceDeploymentRuntime.ts\<close>) sends a deployment and the live log (\<open>live/\<close>) follows it.

  \<^bold>\<open>How the code is read.\<close> The state a hook reads and sets is a record, a callback is a function from state to
  state. A callback that waits is cut at its \<open>await\<close>s: what is suspended, with the values its closure captured, is an
  element of a list in the state, and the answer, the timer or the typed dialog is an event that picks one element.
  So every order of answers is a sequence of events. Setters given a function are applied to the state found at
  that moment, setters given a value to what the closure captured; where both occur an operation takes the captured
  state \<open>cap\<close> beside the state \<open>st\<close>. Effects run at a rendering and are events or part of the step. Requests are
  logged in the state (\<open>..._sent\<close>), with the JSON value that is sent. An object is an association list in the order
  its fields are assigned, with the language's enumeration order where the code enumerates (integer-like keys first).
  A thrown error is the left side of a sum, \<open>undefined\<close> or a missing value is \<open>None\<close>.

  \<^bold>\<open>Theories.\<close>
  \<^item> \<open>JsString\<close>, \<open>JsCollections\<close>, \<open>JsValue\<close>, \<open>JsonText\<close>: the language. Strings, \<open>trim\<close>, lower
    case, splitting; insertion-ordered sets and records, the stable sort; numbers, dynamic values, coercions;
    \<open>JSON.parse\<close>.
  \<^item> \<open>DomainCatalog\<close>, \<open>DomainState\<close>: the domains of a workspace, from \<open>domain-utils.ts\<close>,
    \<open>useWorkspaceDomainLogic.ts\<close>, \<open>useWorkspaceDomainPopup.ts\<close> and \<open>useDetachServerDomain.ts\<close>.
  \<^item> \<open>DeviceMeta\<close>, \<open>Roles\<close>, \<open>ServerSelection\<close>, \<open>ServerInvariant\<close>, \<open>SelectionStorage\<close>: servers, colours, roles,
    the actions of \<open>useWorkspaceServerSelectionActions.ts\<close> and what the browser keeps of them.
  \<^item> \<open>ServerForms\<close>, \<open>ServerList\<close>, \<open>ServerActions\<close>: the checks of a server's form, the list of servers, and what
    leaving a field, testing, creating keys and removing servers sends.
  \<^item> \<open>SelectionCalls\<close>: the actions on the servers called late, from an earlier rendering, with the effects that repair the
    active server.
  \<^item> \<open>DashboardFilters\<close>, \<open>RoleFiltering\<close>, \<open>RolePlans\<close>, \<open>RoleSelection\<close>: the role dashboard, from
    \<open>dashboard-filters.ts\<close>, \<open>lane-utils.ts\<close>, \<open>role-list-columns.ts\<close>, \<open>useRoleDashboardFiltering.ts\<close>,
    \<open>useWorkspaceRoleAppConfig.ts\<close> and \<open>useRoleDashboardSelection.ts\<close>.
  \<^item> \<open>DeployRequest\<close>, \<open>DeployRuntime\<close>: what a deployment sends and the hook that sends it.
  \<^item> \<open>LiveStream\<close>, \<open>LiveDelivery\<close>: the event stream of a deployment, its terminal and latency record.
  \<^item> \<open>WorkspaceUsers\<close>, \<open>UsersCsv\<close>, \<open>UsersEditor\<close>, \<open>UsersTab\<close>, \<open>UsersSync\<close>: the users as data and as CSV, the
    editor of the panel (\<open>useWorkspaceUsers.ts\<close>) and the tab (\<open>UsersTabPanel.tsx\<close>).
  \<^item> \<open>WorkspaceFiles\<close>, \<open>VaultBlocks\<close>, \<open>WorkspaceEditor\<close>, \<open>EditorSafety\<close>, \<open>VaultActions\<close>: the file tree, vault
    values in a text, the editor (\<open>actions/core/editor.ts\<close>, \<open>actions/files.ts\<close>) and \<open>actions/vault.ts\<close>.
  \<^item> \<open>InventorySync\<close>: what \<open>actions/core/sync.ts\<close> does to the inventory document.
  \<^item> \<open>HostVars\<close>, \<open>HostVarsSync\<close>: the host variables of a device (\<open>lib/device_meta.js\<close>,
    \<open>useWorkspaceServerMetadata.ts\<close>, \<open>actions/core/sync.ts\<close>), what is read from them and when they are written.
  \<^item> \<open>AliasSync\<close>, \<open>AliasRaces\<close>: the effects of \<open>useWorkspacePanelSyncEffects.ts\<close> that keep inventory, selection and
    files together and work off the queues of renamed, deleted and purged devices, and what happens when they meet.
  \<^item> \<open>OrphanCleanup\<close>: the scan for files of devices that the inventory does not name, and their deletion
    (\<open>useOrphanCleanup.ts\<close>).
  \<^item> \<open>WorkspaceList\<close>, \<open>WorkspaceRuns\<close>: which workspace the page opens, selecting, creating and deleting one
    (\<open>actions/core/workspaces.ts\<close>, \<open>useWorkspacePanelSessionState.ts\<close>), and what happens when these meet.
  \<^item> \<open>WorkspaceNav\<close>: the workspace segment of the navigation bar (\<open>WorkspaceNavSegment.tsx\<close>) and the page after switching.
  \<^item> \<open>DashboardQuery\<close>: the view of the dashboard (\<open>RoleDashboard.tsx\<close>), its address and the effects after a rendering
    (\<open>useRoleDashboardBootstrap.ts\<close>), the columns of the lists.
  \<^item> \<open>WorkspaceHistory\<close>: the commits of a workspace, their differences and restoring one (\<open>useWorkspaceHistory.ts\<close>).
  \<^item> \<open>ZipImport\<close>: importing an archive (\<open>useZipImportWorkflow.ts\<close>, \<open>previewZip\<close> and \<open>uploadZip\<close> of \<open>actions/files.ts\<close>).
  \<^item> \<open>WorkspacePage\<close>: the page as a whole (\<open>DeploymentWorkspaceContainer.tsx\<close>, \<open>useDeploymentWorkspaceEffects.ts\<close>,
    \<open>DeploymentWorkspaceTemplate.tsx\<close>, \<open>panels/AccountPanel.tsx\<close>): panel, mode and device in the address, the session, the
    effects after a rendering and what opening another workspace starts afresh.
  \<^item> this theory: the selection and the inventory together.

  \<^bold>\<open>Interfaces.\<close> \<open>normaliser\<close> (an idempotent clean-up: \<open>trim\<close>, lower case, domain names, facets), \<open>keyed_store\<close>
  (lookup after update and delete: objects), \<open>comparison\<close>, \<open>strict_comparison\<close> and \<open>collation\<close> (what sorting relies
  on: code units, the entries of the catalog), \<open>machine\<close> and \<open>guarded_machine\<close> (an invariant every step keeps, hence
  every run). The state machines of the servers, the catalog's parser, the deployment, the live log, both users
  panels, the credentials, the connections, the effects of the panel, the list of workspaces and the navigation bar
  are interpretations of the last two, and their properties rest on the facts these interpretations give.

  \<^bold>\<open>What the lemmas show.\<close> Invariants over every sequence of events (aliases distinct also under late calls; the
  clean text shown is the stored one; the users tab settles in quiet runs; bounded latency records). Round
  trips (domain catalog, CSV, users map, users rows, stored selection, the address of the page and of the dashboard). Refinements of sets of facts (the inventory
  after synchronisation, renaming and removal; the roles a bundle selects). Orderings and races (stale streams,
  polls during edits, pauses before storing, answers that arrive for another file). Error paths (refused requests,
  retries, removals that fail). Where the code falls short of what it means to do, a theorem states what happens.

  \<^bold>\<open>Bounds.\<close> \<open>json_parse\<close> runs with fuel \<open>2 * length + 2\<close>: every two nested calls consume a character, and a text that is
  refused for lack of fuel would need more calls than characters allow. All other recursion is structural or has a
  measure: no other function is fuelled. The candidate numbers of \<open>addServer\<close> and of the unique colours are
  searched in the range that must hold a free one. Integers of the language are unbounded \<open>int\<close>s: the values used (ports,
  counts, pixels, milliseconds) are below \<open>2^53\<close>, where the language's numbers are exact. Random draws are a sequence
  of integers below \<open>2^53\<close>.

  \<^bold>\<open>Parameters.\<close> The YAML library (\<open>yaml\<close>: parsing, with a thrown error as a value; \<open>to_yaml\<close>: printing),
  \<open>localeCompare\<close> (\<open>lc\<close>), the default plan of a role (\<open>dp\<close>), clocks and draws. Hypotheses about them are
  stated where they are used: that parsing inverts printing, that the collation is a comparison.

  \<^bold>\<open>Not modelled.\<close> Code units above 255 (hence emoji tables and the byte order mark); inherited properties of
  \<open>Object.prototype\<close>; rounding of numbers to 53 bits; markup, styles, measuring of pages and positions of menus; the
  bytes of an archive (it is known by its name); decryption of a password
  database (a library); the guard of unsaved changes, the editor of role configurations, the panels for orders, billing
  and customer domains; the Python backend, tests and containers.
\<close>

subsection \<open>The selection and the inventory\<close>

text \<open>Every device has the same roles in the inventory of the workspace and in the selection of the client.\<close>

definition in_agreement :: "jsval \<Rightarrow> selection_state \<Rightarrow> bool" where
  "in_agreement data st \<longleftrightarrow> (\<forall>x. set (roles_of (document_roles data) x) = set (selected_for st x))"

lemma rename_target_token:
  "rename_target a p = Some b \<Longrightarrow> token b \<and> a \<noteq> b"
  by (auto simp: rename_target_def token_def Let_def split: if_splits)

lemma move_selected_lookup:
  assumes "a \<noteq> b"
  shows "map_of (move_selected a b m) x =
    (if x = a then None
     else if x = b then Some (case map_of m b of None \<Rightarrow> opt_list (map_of m a)
            | Some rs \<Rightarrow> set_add_all (opt_list (map_of m a)) rs)
     else map_of m x)"
  using assms by (simp add: move_selected_def Let_def split: option.split)

lemma selected_for_updateServer:
  assumes "a \<noteq> []" "rename_target a p = Some b"
  shows "set (selected_for (updateServer a p cap st) x) =
    (if x = a then {} else if x = b then set (selected_for st a) \<union> set (selected_for st b)
     else set (selected_for st x))"
proof -
  have ab: "a \<noteq> b"
    using rename_target_token [OF assms(2)] by simp
  have none: "opt_list None = []" and some: "\<And>ys. opt_list (Some ys) = ys"
    by (simp_all add: opt_list_def)
  have "ss_selected (updateServer a p cap st) = move_selected a b (ss_selected st)"
    using assms by (simp add: updateServer_def rename_alias_def log_visual_def Let_def)
  then have "selected_for (updateServer a p cap st) x = opt_list (map_of (move_selected a b (ss_selected st)) x)"
    by (simp only: selected_for_def)
  then show ?thesis
    unfolding move_selected_lookup [OF ab] selected_for_def
    by (cases "map_of (ss_selected st) b") (auto simp: none some)
qed

text \<open>
  C2: when the inventory and the selection agree, renaming a server in the client and then its alias in the
  inventory leaves them in agreement, even when the new alias is in use; so does removing it from both.
\<close>

theorem rename_remove_keep_agreement:
  assumes "tidy_inventory data" "in_agreement data st" "a \<noteq> []" "rename_target a p = Some b"
  shows "in_agreement (written data (rename_in_inventory a b data)) (updateServer a p cap st)
    \<and> in_agreement (written data (remove_in_inventory a data)) (removeServerFromClient a cap st)"
proof -
  have "token b" "a \<noteq> b" using rename_target_token [OF assms(4)] by auto
  then have "in_agreement (written data (rename_in_inventory a b data)) (updateServer a p cap st)"
    using assms(2) rename_document(2) [OF assms(1)]
    by (simp add: in_agreement_def selected_for_updateServer [OF assms(3,4)])
  moreover have "set (selected_for (removeServerFromClient a cap st) x)
      = (if x = a then {} else set (selected_for st x))" for x
    using assms(3) by (simp add: removeServerFromClient_def selected_for_def opt_list_def Let_def)
  ultimately show ?thesis
    using assms(2) remove_document(2) [OF assms(1)] by (simp add: in_agreement_def)
qed

definition agreed_selection :: selection_state where
  "agreed_selection = (initial_state (Some ''w1'') True)\<lparr>
     ss_servers := [createServerPlaceholder ''web'', createServerPlaceholder ''db''], ss_activeAlias := ''web'',
     ss_selected := [(''web'', [''wiki'']), (''old'', [''wiki'']), (''db'', [''blog''])]\<rparr>"

theorem rename_remove_keep_agreement_witness:
  "in_agreement (written demo_inventory (rename_in_inventory ''web'' ''db'' demo_inventory))
     (updateServer ''web'' (empty_patch\<lparr>sp_alias := Some '' db''\<rparr>) agreed_selection agreed_selection)"
proof -
  have m: "document_roles demo_inventory = [(''web'', [''wiki'']), (''old'', [''wiki'']), (''db'', [''blog''])]"
    by code_simp
  have s: "ss_selected agreed_selection = [(''web'', [''wiki'']), (''old'', [''wiki'']), (''db'', [''blog''])]"
    by (simp add: agreed_selection_def)
  have "in_agreement demo_inventory agreed_selection"
    by (simp add: in_agreement_def m s roles_of_def selected_for_def opt_list_def)
  moreover have "rename_target ''web'' (empty_patch\<lparr>sp_alias := Some '' db''\<rparr>) = Some ''db''" by code_simp
  ultimately show ?thesis
    using rename_remove_keep_agreement [OF demo_tidy, of agreed_selection "''web''"] by simp
qed

end
